(* ===== verification/Prelude.thy ===== *)
theory Prelude
  imports Complex_Main "HOL-Library.AList" "HOL-Library.Multiset"
begin

text \<open>
  Shared vocabulary of the development: the named collections the component proofs draw on,
  Python's rounding and truncation of floats, insertion-ordered dictionaries, and the locale of
  transition systems that carries every invariant over a run.

  Python floats are modelled by exact reals: rounding errors of IEEE arithmetic are not
  modelled, and a computation that would overflow to an infinity stays finite here.  Where the
  source tests for NaN or infinities, the model uses the type of possibly non-finite floats of
  theory PyValue.
\<close>

named_theorems dict_simps "equations of the ordered dictionaries"
named_theorems round_simps "rounding and truncation of floats"
named_theorems inv_intros "operations preserve their component's invariant"

section \<open>Rounding\<close>

text \<open>\<open>int(x)\<close> of a finite float truncates towards zero.\<close>

definition py_trunc :: "real \<Rightarrow> int" where
  "py_trunc x = (if 0 \<le> x then floor x else ceiling x)"

text \<open>\<open>round(x)\<close> rounds to the nearest integer, ties to the even one.\<close>

definition py_round :: "real \<Rightarrow> int" where
  "py_round x =
     (let f = floor x; d = x - of_int f
      in if d < 1 / 2 then f else if d > 1 / 2 then f + 1 else if even f then f else f + 1)"

text \<open>\<open>round(x, n)\<close> for a non-negative number of digits.\<close>

definition py_round_to :: "nat \<Rightarrow> real \<Rightarrow> real" where
  "py_round_to n x = of_int (py_round (x * 10 ^ n)) / 10 ^ n"

lemma py_trunc_of_int [simp, round_simps]: "py_trunc (of_int n) = n"
  by (simp add: py_trunc_def)

lemma py_trunc_numeral [simp, round_simps]:
  "py_trunc (numeral n) = numeral n" "py_trunc 0 = 0" "py_trunc 1 = 1"
  by (simp_all add: py_trunc_def)

lemma py_trunc_nonneg [simp]: "0 \<le> x \<Longrightarrow> 0 \<le> py_trunc x"
  by (simp add: py_trunc_def)

lemma py_trunc_mono: "x \<le> y \<Longrightarrow> py_trunc x \<le> py_trunc y"
proof -
  assume le: "x \<le> y"
  consider "0 \<le> x" | "x < 0" "0 \<le> y" | "y < 0" by linarith
  then show ?thesis
  proof cases
    case 2
    then have "ceiling x \<le> 0" "0 \<le> floor y" by (auto simp: ceiling_le_iff)
    then have "ceiling x \<le> floor y" by linarith
    then show ?thesis using 2 by (simp add: py_trunc_def)
  qed (use le in \<open>auto simp: py_trunc_def floor_mono ceiling_mono\<close>)
qed

lemma py_round_of_int [simp, round_simps]: "py_round (of_int n) = n"
  by (simp add: py_round_def)

lemma py_round_numeral [simp, round_simps]:
  "py_round (numeral n) = numeral n" "py_round 0 = 0" "py_round 1 = 1"
  by (simp_all add: py_round_def)

lemma py_round_near: "\<bar>of_int (py_round x) - x\<bar> \<le> 1 / 2"
proof -
  have "of_int (floor x) \<le> x" "x < of_int (floor x) + 1" by linarith+
  then show ?thesis by (auto simp: py_round_def Let_def abs_le_iff)
qed

lemma py_round_bounds: "floor x \<le> py_round x" "py_round x \<le> floor x + 1"
  by (simp_all add: py_round_def Let_def)

lemma py_round_mono: "x \<le> y \<Longrightarrow> py_round x \<le> py_round y"
proof -
  assume le: "x \<le> y"
  show ?thesis
  proof (cases "floor x = floor y")
    case True
    then show ?thesis using le by (simp add: py_round_def Let_def)
  next
    case False
    with floor_mono [OF le] have "floor x + 1 \<le> floor y" by linarith
    then show ?thesis using py_round_bounds(2) [of x] py_round_bounds(1) [of y] by linarith
  qed
qed

lemma py_round_nonneg [simp]: "0 \<le> x \<Longrightarrow> 0 \<le> py_round x"
  using py_round_mono [of 0 x] by simp

section \<open>Insertion-ordered dictionaries\<close>

text \<open>
  A Python dictionary iterates in insertion order and a new value for a present key keeps the
  key's position, which is what \<open>AList.update\<close> does on association lists.
\<close>

type_synonym ('k, 'v) dict = "('k \<times> 'v) list"

abbreviation dget :: "('k, 'v) dict \<Rightarrow> 'k \<Rightarrow> 'v option" where
  "dget d k \<equiv> map_of d k"

abbreviation dset :: "'k \<Rightarrow> 'v \<Rightarrow> ('k, 'v) dict \<Rightarrow> ('k, 'v) dict" where
  "dset k v d \<equiv> AList.update k v d"

abbreviation dpop :: "'k \<Rightarrow> ('k, 'v) dict \<Rightarrow> ('k, 'v) dict" where
  "dpop k d \<equiv> AList.delete k d"

text \<open>\<open>d.get(k, default)\<close>\<close>

definition dget_or :: "('k, 'v) dict \<Rightarrow> 'k \<Rightarrow> 'v \<Rightarrow> 'v" where
  "dget_or d k v = (case dget d k of None \<Rightarrow> v | Some w \<Rightarrow> w)"

definition dict_ok :: "('k, 'v) dict \<Rightarrow> bool" where
  "dict_ok d \<longleftrightarrow> distinct (map fst d)"

lemma dget_dset [dict_simps]: "dget (dset k v d) k' = (if k' = k then Some v else dget d k')"
  by (simp add: update_conv')

lemma dget_dpop [dict_simps]: "dget (dpop k d) k' = (if k' = k then None else dget d k')"
  by (simp add: delete_conv')

lemma dget_or_dset [dict_simps]:
  "dget_or (dset k v d) k' w = (if k' = k then v else dget_or d k' w)"
  by (simp add: dget_or_def dict_simps)

lemma dget_or_dpop [dict_simps]:
  "dget_or (dpop k d) k' w = (if k' = k then w else dget_or d k' w)"
  by (simp add: dget_or_def dict_simps)

lemma dget_or_Nil [simp]: "dget_or [] k w = w"
  by (simp add: dget_or_def)

lemma dict_ok_Nil [simp, inv_intros]: "dict_ok []"
  by (simp add: dict_ok_def)

lemma dict_ok_dset [simp, inv_intros]: "dict_ok d \<Longrightarrow> dict_ok (dset k v d)"
  by (simp add: dict_ok_def distinct_update)

lemma dict_ok_dpop [simp, inv_intros]: "dict_ok d \<Longrightarrow> dict_ok (dpop k d)"
  by (simp add: dict_ok_def distinct_delete)

lemma dict_ok_filter [simp, inv_intros]: "dict_ok d \<Longrightarrow> dict_ok (filter P d)"
  by (simp add: dict_ok_def distinct_map_filter)

lemma dict_ok_Cons: "dict_ok (p # d) \<longleftrightarrow> dget d (fst p) = None \<and> dict_ok d"
  by (cases p) (auto simp: dict_ok_def map_of_eq_None_iff)

lemma dget_filter:
  "dict_ok d \<Longrightarrow>
   dget (filter P d) k = (case dget d k of None \<Rightarrow> None | Some v \<Rightarrow> if P (k, v) then Some v else None)"
  by (induction d) (auto simp: dict_ok_Cons split: option.splits)

lemma set_dset_subset: "set (dset k v d) \<subseteq> insert (k, v) (set d)"
  by (induction d) (auto split: if_splits)

lemma in_dictD: "dict_ok d \<Longrightarrow> (k, v) \<in> set d \<Longrightarrow> dget d k = Some v"
  by (simp add: dict_ok_def)

text \<open>The entries as a multiset, for the components that count them.\<close>

lemma mset_dset_new: "dget d k = None \<Longrightarrow> mset (dset k v d) = add_mset (k, v) (mset d)"
  by (induction d) (auto split: if_splits)

lemma mset_dset_old:
  "dget d k = Some w \<Longrightarrow> dict_ok d \<Longrightarrow>
   mset (dset k v d) = add_mset (k, v) (mset d - {#(k, w)#})"
  by (induction d) (auto simp: dict_ok_Cons split: if_splits)

lemma dpop_absent: "dget d k = None \<Longrightarrow> dpop k d = d"
  by (simp add: delete_id map_of_eq_None_iff)

lemma mset_dpop:
  "dget d k = Some w \<Longrightarrow> dict_ok d \<Longrightarrow> mset (dpop k d) = mset d - {#(k, w)#}"
  by (induction d) (auto simp: dict_ok_Cons dpop_absent split: if_splits)

definition value_count :: "('k, 'v) dict \<Rightarrow> 'v \<Rightarrow> int" where
  "value_count d v = int (count (image_mset snd (mset d)) v)"

lemma value_count_Nil [simp]: "value_count [] v = 0"
  by (simp add: value_count_def)

lemma value_count_nonneg [simp]: "0 \<le> value_count d v"
  by (simp add: value_count_def)

lemma dget_in_mset: "dget d k = Some w \<Longrightarrow> (k, w) \<in># mset d"
  by (simp add: map_of_SomeD)

lemma value_count_new [dict_simps]:
  "dget d k = None \<Longrightarrow> value_count (dset k w d) v = value_count d v + (if v = w then 1 else 0)"
  by (simp add: value_count_def mset_dset_new)

lemma value_count_pos: "dget d k = Some w \<Longrightarrow> 0 < value_count d w"
  by (force simp: value_count_def count_greater_zero_iff dest: map_of_SomeD)

lemma value_count_pop [dict_simps]:
  "dget d k = Some w \<Longrightarrow> dict_ok d \<Longrightarrow>
   value_count (dpop k d) v = value_count d v - (if v = w then 1 else 0)"
  using dget_in_mset [of d k w] value_count_pos [of d k w]
  by (auto simp: value_count_def mset_dpop image_mset_Diff)

lemma value_count_old [dict_simps]:
  "dget d k = Some u \<Longrightarrow> dict_ok d \<Longrightarrow>
   value_count (dset k w d) v =
     value_count d v - (if v = u then 1 else 0) + (if v = w then 1 else 0)"
  using dget_in_mset [of d k u] value_count_pos [of d k u]
  by (auto simp: value_count_def mset_dset_old image_mset_Diff)

lemma length_dset_new [dict_simps]: "dget d k = None \<Longrightarrow> length (dset k v d) = Suc (length d)"
  by (induction d) (auto split: if_splits)

lemma length_dset_old [dict_simps]: "dget d k = Some w \<Longrightarrow> length (dset k v d) = length d"
  by (induction d) (auto split: if_splits)

lemma length_dpop [dict_simps]:
  "dget d k = Some w \<Longrightarrow> dict_ok d \<Longrightarrow> Suc (length (dpop k d)) = length d"
  by (metis dget_in_mset insert_DiffM mset_dpop size_add_mset size_mset)

section \<open>Sums over a list updated by index\<close>

lemma sum_list_map_update:
  fixes f :: "'a \<Rightarrow> int"
  shows "i < length xs \<Longrightarrow>
    sum_list (map f (xs[i := y])) = sum_list (map f xs) - f (xs ! i) + f y"
proof (induction xs arbitrary: i)
  case (Cons x xs)
  then show ?case by (cases i) auto
qed simp

lemma sum_list_map_nonneg: "(\<And>x. 0 \<le> (f x :: int)) \<Longrightarrow> 0 \<le> sum_list (map f xs)"
  by (induction xs) auto

lemma sum_list_map_member: "(\<And>x. 0 \<le> (f x :: int)) \<Longrightarrow> i < length xs \<Longrightarrow> f (xs ! i) \<le> sum_list (map f xs)"
proof (induction xs arbitrary: i)
  case (Cons x xs)
  then show ?case using sum_list_map_nonneg [of f xs] by (cases i) (auto intro: add_increasing)
qed simp

section \<open>Runs of a transition system\<close>

text \<open>
  A component with a state and operations is a transition function; an invariant that holds
  initially and that every operation keeps holds after every sequence of operations.
\<close>

locale transition_system =
  fixes initial :: 's and step :: "'e \<Rightarrow> 's \<Rightarrow> 's" and invar :: "'s \<Rightarrow> bool"
  assumes initially: "invar initial"
    and preserved: "invar s \<Longrightarrow> invar (step e s)"
begin

lemma run_from: "invar s \<Longrightarrow> invar (fold step es s)"
  by (induction es arbitrary: s) (auto intro: preserved)

lemma run: "invar (fold step es initial)"
  by (rule run_from [OF initially])

end

text \<open>A preorder that every step climbs is climbed by every run.\<close>

locale monotone_system =
  fixes step :: "'e \<Rightarrow> 's \<Rightarrow> 's" and below :: "'s \<Rightarrow> 's \<Rightarrow> bool"
  assumes below_refl: "below s s"
    and below_trans: "below s t \<Longrightarrow> below t u \<Longrightarrow> below s u"
    and step_climbs: "below s (step e s)"
begin

lemma run_climbs: "below s (fold step es s)"
  by (induction es arbitrary: s) (auto intro: below_refl below_trans step_climbs)

end

text \<open>
  A system whose permitted steps keep an invariant and, from states that satisfy it, climb a
  preorder: every run of permitted steps does both.
\<close>

locale guarded_system =
  fixes step :: "'e \<Rightarrow> 's \<Rightarrow> 's" and permitted :: "'e \<Rightarrow> bool" and invar :: "'s \<Rightarrow> bool"
    and below :: "'s \<Rightarrow> 's \<Rightarrow> bool"
  assumes refl_below: "below s s"
    and trans_below: "below s t \<Longrightarrow> below t u \<Longrightarrow> below s u"
    and step_permitted: "invar s \<Longrightarrow> permitted e \<Longrightarrow> invar (step e s) \<and> below s (step e s)"
begin

lemma guarded_run: "invar s \<Longrightarrow> list_all permitted es \<Longrightarrow> invar (fold step es s) \<and> below s (fold step es s)"
proof (induction es arbitrary: s)
  case (Cons e es)
  then show ?case using step_permitted [of s e] by (auto intro: trans_below)
qed (simp add: refl_below)

end

end
