(* ===== verification/PyValue.thy ===== *)
theory PyValue
  imports Prelude
begin

text \<open>
  The dynamically typed values that reach the modelled code from JSON messages, YAML
  configuration, environment variables and frame attributes, with the part of Python's
  built-ins the source applies to them: truth value, \<open>str\<close>, \<open>int\<close>, \<open>float\<close>,
  \<open>strip\<close>, \<open>lower\<close>, \<open>split\<close> and the substring test.  Strings are ASCII.
\<close>

section \<open>Errors as values\<close>

datatype py_error =
    Type_Error | Value_Error string | Overflow_Error | Runtime_Error string | Key_Error string

type_synonym 'a result = "py_error + 'a"

definition rbind :: "'a result \<Rightarrow> ('a \<Rightarrow> 'b result) \<Rightarrow> 'b result" where
  "rbind m f = (case m of Inl e \<Rightarrow> Inl e | Inr x \<Rightarrow> f x)"

lemma rbind_simps [simp]: "rbind (Inl e) f = Inl e" "rbind (Inr x) f = f x"
  by (simp_all add: rbind_def)

lemma rbind_Inr_iff: "rbind m f = Inr y \<longleftrightarrow> (\<exists>x. m = Inr x \<and> f x = Inr y)"
  by (cases m) auto

lemma rbind_InrE: "rbind m f = Inr y \<Longrightarrow> (\<And>x. m = Inr x \<Longrightarrow> f x = Inr y \<Longrightarrow> P) \<Longrightarrow> P"
  by (auto simp: rbind_Inr_iff)

lemma rbind_Inl_iff: "rbind m f = Inl e \<longleftrightarrow> m = Inl e \<or> (\<exists>x. m = Inr x \<and> f x = Inl e)"
  by (cases m) auto

fun rmap :: "('a \<Rightarrow> 'b result) \<Rightarrow> 'a list \<Rightarrow> 'b list result" where
  "rmap f [] = Inr []"
| "rmap f (x # xs) = rbind (f x) (\<lambda>y. rbind (rmap f xs) (\<lambda>ys. Inr (y # ys)))"

lemma rmap_Inr: "rmap f xs = Inr ys \<Longrightarrow> list_all2 (\<lambda>x y. f x = Inr y) xs ys"
  by (induction xs arbitrary: ys) (auto simp: rbind_Inr_iff)

lemma rmap_length: "rmap f xs = Inr ys \<Longrightarrow> length ys = length xs"
  by (induction xs arbitrary: ys) (auto simp: rbind_Inr_iff)

lemma rmap_id: "(\<And>x. x \<in> set xs \<Longrightarrow> f x = Inr x) \<Longrightarrow> rmap f xs = Inr xs"
  by (induction xs) auto

section \<open>Floats that may be NaN or infinite\<close>

datatype pyfloat = Fin real | PosInf | NegInf | NaN

fun flt_less :: "pyfloat \<Rightarrow> pyfloat \<Rightarrow> bool" where
  "flt_less NaN _ = False"
| "flt_less _ NaN = False"
| "flt_less (Fin x) (Fin y) = (x < y)"
| "flt_less NegInf y = (y \<noteq> NegInf)"
| "flt_less x PosInf = (x \<noteq> PosInf)"
| "flt_less _ _ = False"

definition flt_le :: "pyfloat \<Rightarrow> pyfloat \<Rightarrow> bool" where
  "flt_le x y \<longleftrightarrow> x \<noteq> NaN \<and> y \<noteq> NaN \<and> (flt_less x y \<or> x = y)"

fun flt_finite :: "pyfloat \<Rightarrow> bool" where
  "flt_finite (Fin _) = True"
| "flt_finite _ = False"

lemma flt_le_Fin [simp]: "flt_le (Fin x) (Fin y) \<longleftrightarrow> x \<le> y"
  by (auto simp: flt_le_def)

lemma flt_less_irrefl [simp]: "\<not> flt_less x x"
  by (cases x) auto

lemma flt_less_trans: "flt_less x y \<Longrightarrow> flt_less y z \<Longrightarrow> flt_less x z"
  by (cases x; cases y; cases z) auto

text \<open>The product, for the squared and scaled thresholds of the clustering rule.\<close>

fun flt_times :: "pyfloat \<Rightarrow> pyfloat \<Rightarrow> pyfloat" where
  "flt_times (Fin x) (Fin y) = Fin (x * y)"
| "flt_times NaN _ = NaN"
| "flt_times _ NaN = NaN"
| "flt_times PosInf y =
     (if y = Fin 0 then NaN else if flt_less (Fin 0) y then PosInf else NegInf)"
| "flt_times NegInf y =
     (if y = Fin 0 then NaN else if flt_less (Fin 0) y then NegInf else PosInf)"
| "flt_times (Fin x) y =
     (if x = 0 then NaN else if (0 < x) = (y = PosInf) then PosInf else NegInf)"

section \<open>Values\<close>

datatype pyval =
    PNone
  | PBool bool
  | PInt int
  | PFloat pyfloat
  | PStr string
  | PList "pyval list"
  | PDict "(string \<times> pyval) list"

fun truthy :: "pyval \<Rightarrow> bool" where
  "truthy PNone = False"
| "truthy (PBool b) = b"
| "truthy (PInt i) = (i \<noteq> 0)"
| "truthy (PFloat x) = (x \<noteq> Fin 0)"
| "truthy (PStr s) = (s \<noteq> [])"
| "truthy (PList xs) = (xs \<noteq> [])"
| "truthy (PDict d) = (d \<noteq> [])"

text \<open>\<open>x or y\<close>\<close>

definition py_or :: "pyval \<Rightarrow> pyval \<Rightarrow> pyval" where
  "py_or x y = (if truthy x then x else y)"

section \<open>Strings\<close>

definition is_space :: "char \<Rightarrow> bool" where
  "is_space c \<longleftrightarrow> c = CHR '' '' \<or> (let n = (of_char c :: nat) in (9 \<le> n \<and> n \<le> 13) \<or> (28 \<le> n \<and> n \<le> 31))"

definition py_strip :: "string \<Rightarrow> string" where
  "py_strip s = rev (dropWhile is_space (rev (dropWhile is_space s)))"

definition lower_char :: "char \<Rightarrow> char" where
  "lower_char c =
     (let n = (of_char c :: nat) in if 65 \<le> n \<and> n \<le> 90 then char_of (n + 32) else c)"

definition py_lower :: "string \<Rightarrow> string" where
  "py_lower s = map lower_char s"

function py_split :: "string \<Rightarrow> string list" where
  "py_split s =
     (let t = dropWhile is_space s
      in if t = [] then []
         else takeWhile (\<lambda>c. \<not> is_space c) t # py_split (dropWhile (\<lambda>c. \<not> is_space c) t))"
  by pat_completeness auto
termination
proof (relation "measure length")
  fix s t :: string
  assume t: "t = dropWhile is_space s" and ne: "t \<noteq> []"
  then have "\<not> is_space (hd t)" by (metis hd_dropWhile)
  with ne have "length (dropWhile (\<lambda>c. \<not> is_space c) t) < length t"
    by (cases t) (auto simp: length_dropWhile_le le_imp_less_Suc)
  also have "length t \<le> length s" using t by (simp add: length_dropWhile_le)
  finally show "(dropWhile (\<lambda>c. \<not> is_space c) t, s) \<in> measure length" by simp
qed simp

declare py_split.simps [simp del]

fun py_join :: "string \<Rightarrow> string list \<Rightarrow> string" where
  "py_join sep [] = []"
| "py_join sep [s] = s"
| "py_join sep (s # ss) = s @ sep @ py_join sep ss"

text \<open>
  \<open>p in s\<close> for strings.  The branches are conditionals, which evaluation enters one at a
  time.
\<close>

fun starts_with :: "string \<Rightarrow> string \<Rightarrow> bool" where
  "starts_with [] s = True"
| "starts_with (a # p) [] = False"
| "starts_with (a # p) (b # s) = (if a = b then starts_with p s else False)"

fun contains_sub :: "string \<Rightarrow> string \<Rightarrow> bool" where
  "contains_sub p [] = (p = [])"
| "contains_sub p (c # s) = (if starts_with p (c # s) then True else contains_sub p s)"

fun contains_any :: "string list \<Rightarrow> string \<Rightarrow> bool" where
  "contains_any [] s = False"
| "contains_any (p # ps) s = (if contains_sub p s then True else contains_any ps s)"

lemma starts_with_iff: "starts_with p s \<longleftrightarrow> (\<exists>v. s = p @ v)"
  by (induction p s rule: starts_with.induct) auto

lemma contains_sub_iff: "contains_sub p s \<longleftrightarrow> (\<exists>u v. s = u @ p @ v)"
proof (induction s)
  case Nil
  show ?case by auto
next
  case (Cons c s)
  then show ?case by (auto simp: starts_with_iff Cons_eq_append_conv simp del: starts_with.simps)
qed

lemma contains_any_iff: "contains_any ps s \<longleftrightarrow> (\<exists>p \<in> set ps. contains_sub p s)"
  by (induction ps) auto

lemma contains_sub_refl [simp]: "contains_sub s s"
  unfolding contains_sub_iff by (metis append_Nil append_Nil2)

text \<open>The environment of the process, as \<open>os.getenv\<close> reads it.\<close>

type_synonym environ = "string \<Rightarrow> string option"

text \<open>\<open>sorted\<close> of a list of strings: by the codes of their characters.\<close>

fun string_le :: "string \<Rightarrow> string \<Rightarrow> bool" where
  "string_le [] _ = True"
| "string_le (_ # _) [] = False"
| "string_le (a # s) (b # t) =
     ((of_char a :: nat) < of_char b \<or> (a = b \<and> string_le s t))"

fun insert_sorted :: "string \<Rightarrow> string list \<Rightarrow> string list" where
  "insert_sorted s [] = [s]"
| "insert_sorted s (t # ts) = (if string_le s t then s # t # ts else t # insert_sorted s ts)"

definition sorted_strings :: "string list \<Rightarrow> string list" where
  "sorted_strings ss = foldr insert_sorted ss []"

text \<open>Normalization leaves a text alone that has no spaces and no upper-case letters.\<close>

definition plain_text :: "string \<Rightarrow> bool" where
  "plain_text s \<longleftrightarrow> s \<noteq> [] \<and> list_all (\<lambda>c. \<not> is_space c \<and> lower_char c = c) s"

lemma py_strip_no_space: "list_all (\<lambda>c. \<not> is_space c) s \<Longrightarrow> py_strip s = s"
proof -
  assume ok: "list_all (\<lambda>c. \<not> is_space c) s"
  have drop: "dropWhile is_space t = t" if "list_all (\<lambda>c. \<not> is_space c) t" for t
    using that by (cases t) auto
  have "list_all (\<lambda>c. \<not> is_space c) (rev s)" using ok by (simp add: list_all_iff)
  then show ?thesis using ok by (simp add: py_strip_def drop)
qed

lemma plain_text_normal:
  assumes "plain_text s"
  shows "py_strip s = s" "py_lower s = s" "py_split s = [s]"
proof -
  have ns: "list_all (\<lambda>c. \<not> is_space c) s" using assms by (auto simp: plain_text_def list_all_iff)
  then show "py_strip s = s" by (rule py_strip_no_space)
  show "py_lower s = s"
    using assms by (auto simp: plain_text_def list_all_iff py_lower_def map_idI)
  have "dropWhile is_space s = s" using ns by (cases s) auto
  moreover have "takeWhile (\<lambda>c. \<not> is_space c) s = s" using ns by (simp add: list_all_iff)
  moreover have drop: "dropWhile (\<lambda>c. \<not> is_space c) s = []"
    using ns unfolding dropWhile_eq_Nil_conv by (simp add: list_all_iff)
  moreover have "py_split [] = []" by (simp add: py_split.simps)
  ultimately show "py_split s = [s]"
    using assms by (subst py_split.simps) (simp only: Let_def drop plain_text_def if_False)
qed

section \<open>Decimal numerals\<close>

fun nat_dec :: "nat \<Rightarrow> string" where
  "nat_dec n = (if n < 10 then [char_of (48 + n)] else nat_dec (n div 10) @ [char_of (48 + n mod 10)])"

declare nat_dec.simps [simp del]

definition int_dec :: "int \<Rightarrow> string" where
  "int_dec i = (if i < 0 then CHR ''-'' # nat_dec (nat (- i)) else nat_dec (nat i))"

definition is_digit :: "char \<Rightarrow> bool" where
  "is_digit c \<longleftrightarrow> 48 \<le> (of_char c :: nat) \<and> (of_char c :: nat) \<le> 57"

definition digit_val :: "char \<Rightarrow> nat" where
  "digit_val c = of_char c - 48"

text \<open>
  A run of digits, single underscores allowed between digits; the flag says whether the
  previous character was a digit.
\<close>

fun digit_part :: "nat \<Rightarrow> bool \<Rightarrow> string \<Rightarrow> nat option" where
  "digit_part acc prev [] = (if prev then Some acc else None)"
| "digit_part acc prev (c # cs) =
     (if is_digit c then digit_part (acc * 10 + digit_val c) True cs
      else if c = CHR ''_'' \<and> prev then digit_part acc False cs
      else None)"

definition split_sign :: "string \<Rightarrow> int \<times> string" where
  "split_sign s =
     (case s of c # cs \<Rightarrow> if c = CHR ''-'' then (-1, cs) else if c = CHR ''+'' then (1, cs) else (1, s)
      | [] \<Rightarrow> (1, []))"

text \<open>\<open>int(s)\<close> on a string; \<open>None\<close> is the \<open>ValueError\<close>.\<close>

definition parse_int :: "string \<Rightarrow> int option" where
  "parse_int s =
     (let (sg, r) = split_sign (py_strip s)
      in map_option (\<lambda>n. sg * int n) (digit_part 0 False r))"

text \<open>\<open>float(s)\<close> on a string: decimal numerals, \<open>inf\<close>, \<open>infinity\<close> and \<open>nan\<close>.\<close>

definition break_at :: "(char \<Rightarrow> bool) \<Rightarrow> string \<Rightarrow> string \<times> string option" where
  "break_at p s =
     (case dropWhile (\<lambda>c. \<not> p c) s of [] \<Rightarrow> (s, None)
      | _ # r \<Rightarrow> (takeWhile (\<lambda>c. \<not> p c) s, Some r))"

definition digits_or_empty :: "string \<Rightarrow> nat option" where
  "digits_or_empty s = (if s = [] then Some 0 else digit_part 0 False s)"

definition parse_mantissa :: "string \<Rightarrow> real option" where
  "parse_mantissa m =
     (let (ip, fo) = break_at (\<lambda>c. c = CHR ''.'') m; fp = (case fo of None \<Rightarrow> [] | Some f \<Rightarrow> f)
      in if ip = [] \<and> fp = [] then None
         else case (digits_or_empty ip, digits_or_empty fp) of
             (Some a, Some b) \<Rightarrow> Some (real a + real b / 10 ^ length (filter is_digit fp))
           | _ \<Rightarrow> None)"

definition parse_exponent :: "string \<Rightarrow> int option" where
  "parse_exponent e = (let (sg, r) = split_sign e in map_option (\<lambda>n. sg * int n) (digit_part 0 False r))"

definition parse_float :: "string \<Rightarrow> pyfloat option" where
  "parse_float s =
     (let (sg, r) = split_sign (py_lower (py_strip s))
      in if r = ''inf'' \<or> r = ''infinity'' then Some (if sg = 1 then PosInf else NegInf)
         else if r = ''nan'' then Some NaN
         else let (m, eo) = break_at (\<lambda>c. c = CHR ''e'') r
              in case (parse_mantissa m, case eo of None \<Rightarrow> Some 0 | Some e \<Rightarrow> parse_exponent e) of
                   (Some a, Some e) \<Rightarrow> Some (Fin (of_int sg * a * 10 powi e))
                 | _ \<Rightarrow> None)"

lemma digit_char [simp]:
  "n < 10 \<Longrightarrow> is_digit (char_of (48 + n))"
  "n < 10 \<Longrightarrow> digit_val (char_of (48 + n)) = n"
  by (simp_all add: is_digit_def digit_val_def)

lemma digit_part_digits:
  "list_all is_digit s \<Longrightarrow>
   digit_part acc True (s @ t) = digit_part (foldl (\<lambda>a c. a * 10 + digit_val c) acc s) True t"
  by (induction s arbitrary: acc) auto

lemma digit_part_append:
  "list_all is_digit s \<Longrightarrow> s \<noteq> [] \<Longrightarrow> digit_part acc prev (s @ t) =
     digit_part (foldl (\<lambda>a c. a * 10 + digit_val c) acc s) True t"
  by (cases s) (auto simp: digit_part_digits)

lemma nat_dec_digits: "list_all is_digit (nat_dec n)" "nat_dec n \<noteq> []"
  by (induction n rule: nat_dec.induct; subst nat_dec.simps; simp)+

lemma nat_dec_value: "foldl (\<lambda>a c. a * 10 + digit_val c) 0 (nat_dec n) = n"
proof (induction n rule: nat_dec.induct)
  case (1 n)
  show ?case
  proof (cases "n < 10")
    case True
    then show ?thesis by (subst nat_dec.simps) simp
  next
    case False
    with 1 show ?thesis by (subst nat_dec.simps) simp
  qed
qed

lemma digit_part_nat_dec: "digit_part 0 False (nat_dec n) = Some n"
  using digit_part_append [of "nat_dec n" 0 False "[]"] by (simp add: nat_dec_digits nat_dec_value)

section \<open>Conversions\<close>

text \<open>
  \<open>str(v)\<close>.  The texts of floats and containers come from the argument \<open>rp\<close>: the
  shortest round-trip decimal of a binary float has no counterpart on exact reals, and no
  modelled branch depends on it.
\<close>

fun py_str :: "(pyval \<Rightarrow> string) \<Rightarrow> pyval \<Rightarrow> string" where
  "py_str rp PNone = ''None''"
| "py_str rp (PBool b) = (if b then ''True'' else ''False'')"
| "py_str rp (PInt i) = int_dec i"
| "py_str rp (PStr s) = s"
| "py_str rp v = rp v"

fun py_int :: "pyval \<Rightarrow> int result" where
  "py_int (PBool b) = Inr (if b then 1 else 0)"
| "py_int (PInt i) = Inr i"
| "py_int (PFloat (Fin x)) = Inr (py_trunc x)"
| "py_int (PFloat NaN) = Inl (Value_Error ''cannot convert float NaN to integer'')"
| "py_int (PFloat _) = Inl Overflow_Error"
| "py_int (PStr s) =
     (case parse_int s of Some i \<Rightarrow> Inr i | None \<Rightarrow> Inl (Value_Error ''invalid literal for int()''))"
| "py_int _ = Inl Type_Error"

fun py_float :: "pyval \<Rightarrow> pyfloat result" where
  "py_float (PBool b) = Inr (Fin (if b then 1 else 0))"
| "py_float (PInt i) = Inr (Fin (of_int i))"
| "py_float (PFloat x) = Inr x"
| "py_float (PStr s) =
     (case parse_float s of Some x \<Rightarrow> Inr x | None \<Rightarrow> Inl (Value_Error ''could not convert string to float''))"
| "py_float _ = Inl Type_Error"

text \<open>Attribute and key access with a default, \<open>d.get(k)\<close> and \<open>d.get(k, v)\<close>.\<close>

definition pget :: "(string \<times> pyval) list \<Rightarrow> string \<Rightarrow> pyval" where
  "pget d k = dget_or d k PNone"

text \<open>\<open>k in d\<close> and \<open>d.setdefault(k, v)\<close>.\<close>

definition has_key :: "(string \<times> pyval) list \<Rightarrow> string \<Rightarrow> bool" where
  "has_key cfg k \<longleftrightarrow> dget cfg k \<noteq> None"

definition set_default :: "string \<Rightarrow> pyval \<Rightarrow> (string \<times> pyval) list \<Rightarrow> (string \<times> pyval) list" where
  "set_default k v d = (if has_key d k then d else dset k v d)"

text \<open>\<open>v if isinstance(v, dict) else {}\<close>\<close>

definition as_dict :: "pyval \<Rightarrow> (string \<times> pyval) list" where
  "as_dict v = (case v of PDict d \<Rightarrow> d | _ \<Rightarrow> [])"

lemma as_dict_simps [simp]: "as_dict (PDict d) = d" "as_dict PNone = []"
  by (simp_all add: as_dict_def)

lemma has_key_dset [dict_simps]: "has_key (dset k v d) k' \<longleftrightarrow> k' = k \<or> has_key d k'"
  by (simp add: has_key_def dict_simps)

lemma set_default_simps [dict_simps]:
  "pget (set_default k v d) k' = (if k' = k \<and> \<not> has_key d k then v else pget d k')"
  "has_key (set_default k v d) k' \<longleftrightarrow> k' = k \<or> has_key d k'"
  by (auto simp: set_default_def pget_def dget_or_def has_key_def dict_simps)

lemma pget_dset [dict_simps]: "pget (dset k v d) k' = (if k' = k then v else pget d k')"
  by (simp add: pget_def dict_simps)

lemma int_dec_round_trip: "parse_int (int_dec i) = Some i"
proof -
  have dig: "is_digit c \<Longrightarrow> \<not> is_space c \<and> c \<noteq> CHR ''-'' \<and> c \<noteq> CHR ''+''" for c
    by (auto simp: is_digit_def is_space_def Let_def)
  have no_space: "c \<in> set (nat_dec n) \<Longrightarrow> \<not> is_space c" for c n
    using nat_dec_digits(1) [of n] dig by (auto simp: list_all_iff)
  have minus: "\<not> is_space CHR ''-''" by (simp add: is_space_def)
  have hd_ok: "\<exists>c cs. nat_dec n = c # cs \<and> c \<noteq> CHR ''-'' \<and> c \<noteq> CHR ''+''" for n
    using nat_dec_digits [of n] dig by (cases "nat_dec n") auto
  have strip: "py_strip s = s" if "\<And>c. c \<in> set s \<Longrightarrow> \<not> is_space c" for s
  proof -
    have "dropWhile is_space t = t" if "set t \<subseteq> set s" for t
      using that \<open>\<And>c. c \<in> set s \<Longrightarrow> \<not> is_space c\<close> by (cases t) auto
    then show ?thesis by (simp add: py_strip_def)
  qed
  show ?thesis
  proof (cases "i < 0")
    case True
    have "py_strip (int_dec i) = int_dec i"
      by (rule strip) (use minus in \<open>auto simp: int_dec_def dest: no_space split: if_splits\<close>)
    then show ?thesis using True
      by (simp add: parse_int_def int_dec_def split_sign_def digit_part_nat_dec)
  next
    case False
    have "py_strip (int_dec i) = int_dec i"
      by (rule strip) (use False in \<open>auto simp: int_dec_def dest: no_space\<close>)
    moreover have "split_sign (nat_dec (nat i)) = (1, nat_dec (nat i))"
      using hd_ok [of "nat i"] by (auto simp: split_sign_def)
    ultimately show ?thesis using False
      by (simp add: parse_int_def int_dec_def digit_part_nat_dec)
  qed
qed

end
