(* ===== verification/Lifecycle.thy ===== *)
theory Lifecycle
  imports PyValue
begin

text \<open>
  The evidence materialization vocabulary of \<^verbatim>\<open>libs/evidence_lifecycle/contract.py\<close>:
  statuses, phases, error classes and normalized reasons, the sets built from them, the mapping
  of legacy operator states, the compatibility projection, the reason classifier and the retry
  delay.  An enumeration is a datatype with the function of its string values.
\<close>

section \<open>Vocabulary\<close>

datatype materialization_status =
    Manifest_Ready | Pending | Running | Materialized | Deferred | Failed | Expired | Skipped

fun status_value :: "materialization_status \<Rightarrow> string" where
  "status_value Manifest_Ready = ''manifest_ready''"
| "status_value Pending = ''materialization_pending''"
| "status_value Running = ''materializing''"
| "status_value Materialized = ''materialized''"
| "status_value Deferred = ''materialization_deferred''"
| "status_value Failed = ''materialization_failed''"
| "status_value Expired = ''materialization_expired''"
| "status_value Skipped = ''materialization_skipped''"

datatype materialization_phase =
    Waiting_Ready | Waiting_Coverage | Image_Running | Remux_Running | Finalizer_Pending
  | Finalizing | Terminal | Manual_Quarantine

fun phase_value :: "materialization_phase \<Rightarrow> string" where
  "phase_value Waiting_Ready = ''waiting_ready''"
| "phase_value Waiting_Coverage = ''waiting_coverage''"
| "phase_value Image_Running = ''image_running''"
| "phase_value Remux_Running = ''remux_running''"
| "phase_value Finalizer_Pending = ''finalizer_pending''"
| "phase_value Finalizing = ''finalizing''"
| "phase_value Terminal = ''terminal''"
| "phase_value Manual_Quarantine = ''manual_quarantine''"

datatype evidence_error_class =
    Invalid_Input | Duplicate_Terminal | Not_Ready | Capacity | Transient_Dependency
  | Permanent_External | Stale_Owner | Intentional_Terminal | Unknown_Class

datatype normalized_reason =
    Coverage_Not_Complete | No_Overlapping_Final_Segment | Segment_Not_Stable
  | Segment_Disappeared | Db_Unavailable | Db_Pool_Timeout | Temporary_Io_Error
  | Capacity_Unavailable | Proof_Not_Ready | Cooldown_Active | Replay_Unavailable
  | Legacy_Empty_Deferred | Missing_Event_Frame_Pts | Invalid_Requested_Window
  | Missing_Source_Id | Missing_Runtime_Epoch | Stable_Metadata_Invalid
  | Covered_By_Existing_Evidence | Policy_Skipped | Storage_Hard_Stop
  | Business_Deadline_Expired | Ambiguous_Active_Identity | Lease_Lost | Unknown_Reason

fun reason_value :: "normalized_reason \<Rightarrow> string" where
  "reason_value Coverage_Not_Complete = ''coverage_not_complete''"
| "reason_value No_Overlapping_Final_Segment = ''no_overlapping_final_segment''"
| "reason_value Segment_Not_Stable = ''segment_not_stable''"
| "reason_value Segment_Disappeared = ''segment_disappeared''"
| "reason_value Db_Unavailable = ''db_unavailable''"
| "reason_value Db_Pool_Timeout = ''db_pool_timeout''"
| "reason_value Temporary_Io_Error = ''temporary_io_error''"
| "reason_value Capacity_Unavailable = ''capacity_unavailable''"
| "reason_value Proof_Not_Ready = ''proof_not_ready''"
| "reason_value Cooldown_Active = ''cooldown_active''"
| "reason_value Replay_Unavailable = ''replay_unavailable''"
| "reason_value Legacy_Empty_Deferred = ''legacy_empty_deferred''"
| "reason_value Missing_Event_Frame_Pts = ''missing_event_frame_pts''"
| "reason_value Invalid_Requested_Window = ''invalid_requested_window''"
| "reason_value Missing_Source_Id = ''missing_source_id''"
| "reason_value Missing_Runtime_Epoch = ''missing_runtime_epoch''"
| "reason_value Stable_Metadata_Invalid = ''stable_metadata_invalid''"
| "reason_value Covered_By_Existing_Evidence = ''covered_by_existing_evidence''"
| "reason_value Policy_Skipped = ''policy_skipped''"
| "reason_value Storage_Hard_Stop = ''storage_hard_stop''"
| "reason_value Business_Deadline_Expired = ''business_deadline_expired''"
| "reason_value Ambiguous_Active_Identity = ''ambiguous_active_identity''"
| "reason_value Lease_Lost = ''lease_lost''"
| "reason_value Unknown_Reason = ''unknown''"

section \<open>Status sets\<close>

definition ready_materialization_statuses :: "string set" where
  "ready_materialization_statuses = {status_value Manifest_Ready, status_value Pending}"

definition claimable_materialization_statuses :: "string set" where
  "claimable_materialization_statuses = ready_materialization_statuses"

definition active_materialization_statuses :: "string set" where
  "active_materialization_statuses = insert (status_value Running) ready_materialization_statuses"

definition terminal_materialization_statuses :: "string set" where
  "terminal_materialization_statuses =
     {status_value Materialized, status_value Deferred, status_value Failed,
      status_value Expired, status_value Skipped}"

definition rolling_owned_phases :: "string set" where
  "rolling_owned_phases =
     {phase_value Waiting_Ready, phase_value Waiting_Coverage, phase_value Image_Running,
      phase_value Remux_Running, phase_value Finalizer_Pending, phase_value Finalizing}"

definition replay_owned_task_statuses :: "string set" where
  "replay_owned_task_statuses =
     {''pending'', ''waiting_proof'', ''queued'', ''replay_job_created'', ''replaying''}"

definition active_compatibility_task_statuses :: "string set" where
  "active_compatibility_task_statuses =
     replay_owned_task_statuses \<union> {''materializing'', ''finalizing''}"

definition operator_evidence_states :: "string set" where
  "operator_evidence_states =
     active_materialization_statuses \<union> terminal_materialization_statuses \<union>
     active_compatibility_task_statuses \<union> {''ready'', ''failed'', ''not_implemented''}"

lemmas status_set_defs = ready_materialization_statuses_def claimable_materialization_statuses_def
  active_materialization_statuses_def terminal_materialization_statuses_def
  replay_owned_task_statuses_def active_compatibility_task_statuses_def operator_evidence_states_def

section \<open>Operator states and the compatibility projection\<close>

definition status_to_materialization :: "(string, string) dict" where
  "status_to_materialization =
     [(''pending'', status_value Pending),
      (''waiting_proof'', status_value Pending),
      (''queued'', status_value Pending),
      (''replay_job_created'', status_value Running),
      (''replaying'', status_value Running),
      (''finalizing'', status_value Running),
      (''generated'', status_value Materialized),
      (''ready'', status_value Materialized),
      (''generated_unverified'', status_value Materialized),
      (''generated_corrupt'', status_value Failed),
      (''duration_guard_failed'', status_value Failed),
      (''generated_annotation_failed'', status_value Failed),
      (''skipped_by_poc_limit'', status_value Failed),
      (''not_implemented'', status_value Skipped),
      (''failed'', status_value Failed)]"

definition materialization_status_for_operator_state :: "string \<Rightarrow> string" where
  "materialization_status_for_operator_state state =
     (let value = py_strip state
      in if value \<in> active_materialization_statuses \<union> terminal_materialization_statuses then value
         else dget_or status_to_materialization value (status_value Manifest_Ready))"

definition compatibility_status_for :: "string \<Rightarrow> string option \<Rightarrow> string" where
  "compatibility_status_for status phase =
     (if status = status_value Manifest_Ready then ''pending''
      else if status = status_value Pending then status_value Pending
      else if status = status_value Running then
        (if phase \<in> {Some (phase_value Finalizer_Pending), Some (phase_value Finalizing)}
         then ''finalizing'' else status_value Running)
      else status)"

text \<open>\<open>str(status or "")\<close>\<close>

definition str_or_empty :: "(pyval \<Rightarrow> string) \<Rightarrow> pyval \<Rightarrow> string" where
  "str_or_empty rp v = py_str rp (py_or v (PStr []))"

definition is_claimable_materialization_status :: "(pyval \<Rightarrow> string) \<Rightarrow> pyval \<Rightarrow> bool" where
  "is_claimable_materialization_status rp status \<longleftrightarrow>
     str_or_empty rp status \<in> claimable_materialization_statuses"

definition is_terminal_materialization_status :: "(pyval \<Rightarrow> string) \<Rightarrow> pyval \<Rightarrow> bool" where
  "is_terminal_materialization_status rp status \<longleftrightarrow>
     str_or_empty rp status \<in> terminal_materialization_statuses"

section \<open>Reason classification\<close>

definition reason_rules ::
  "(normalized_reason \<times> evidence_error_class \<times> string list) list" where
  "reason_rules =
     [(Covered_By_Existing_Evidence, Intentional_Terminal,
         [''covered_by_existing_evidence'', ''covered_by_event:'']),
      (Storage_Hard_Stop, Intentional_Terminal, [''storage_hard_limit'', ''storage_hard_stop'']),
      (Capacity_Unavailable, Capacity,
         [''concurrency_limit'', ''backlog_limit'', ''capacity_unavailable'', ''max_active'',
          ''max_per_poll'']),
      (Proof_Not_Ready, Not_Ready,
         [''proof_not_ready'', ''waiting_proof'', ''missing_post_savant_frame_proof'',
          ''frame_proof'']),
      (Cooldown_Active, Capacity, [''cooldown_active'', ''reason=cooldown'', ''cooldown'']),
      (Replay_Unavailable, Transient_Dependency,
         [''replay_unavailable'', ''replay unavailable'', ''replay dependency'',
          ''replay job creation returned none'']),
      (No_Overlapping_Final_Segment, Not_Ready,
         [''no_overlapping_final_segment'', ''no_overlapping_segments'']),
      (Segment_Not_Stable, Not_Ready, [''segment_not_stable'', ''half_written_segment'']),
      (Segment_Disappeared, Not_Ready, [''segment_disappeared'', ''segment_deleted'']),
      (Coverage_Not_Complete, Not_Ready,
         [''coverage_not_complete'', ''coverage_miss'', ''requested_window_internal_gap'',
          ''internal_gap_ns='', ''rolling_cache_output_duration_short'',
          ''rolling_cache_output_frame_rate_low'', ''pre_gap_ns='', ''post_gap_ns='',
          ''window_not_covered'', ''event_frame_not_covered'']),
      (Db_Pool_Timeout, Transient_Dependency, [''db_pool_timeout'', ''pooltimeout'']),
      (Db_Unavailable, Transient_Dependency,
         [''db_unavailable'', ''connection refused'', ''operationalerror'']),
      (Temporary_Io_Error, Transient_Dependency,
         [''temporary_io_error'', ''resource temporarily unavailable'']),
      (Missing_Event_Frame_Pts, Invalid_Input,
         [''missing_event_frame_pts'', ''missing event frame pts'']),
      (Invalid_Requested_Window, Invalid_Input, [''invalid_requested_window'', ''invalid_window'']),
      (Missing_Source_Id, Invalid_Input,
         [''missing_source_id'', ''missing source_id'', ''missing source id'']),
      (Missing_Runtime_Epoch, Invalid_Input,
         [''missing_runtime_epoch'', ''missing runtime_epoch'', ''missing runtime epoch'']),
      (Stable_Metadata_Invalid, Invalid_Input, [''stable_metadata_invalid'', ''metadata_unreadable'']),
      (Business_Deadline_Expired, Invalid_Input, [''deadline_expired'', ''deadline_missed'']),
      (Ambiguous_Active_Identity, Invalid_Input,
         [''ambiguous_active_identity'', ''manual_quarantine'']),
      (Lease_Lost, Stale_Owner, [''lease_lost'', ''stale_owner'', ''fence_lost''])]"

record reason_classification =
  rc_code :: string
  rc_error_class :: evidence_error_class
  rc_retryable :: bool
  rc_claim_terminal :: bool

definition retryable_class :: "evidence_error_class \<Rightarrow> bool" where
  "retryable_class c \<longleftrightarrow> c \<in> {Not_Ready, Capacity, Transient_Dependency}"

text \<open>The loop over the rules: the first rule with a fragment in the text decides.\<close>

fun classify_by_rules ::
  "(normalized_reason \<times> evidence_error_class \<times> string list) list \<Rightarrow> string \<Rightarrow>
   reason_classification" where
  "classify_by_rules [] text =
     \<lparr>rc_code = reason_value Unknown_Reason, rc_error_class = Unknown_Class,
      rc_retryable = False, rc_claim_terminal = True\<rparr>"
| "classify_by_rules ((code, error_class, fragments) # rules) text =
     (if contains_any fragments text then
        (let retryable = retryable_class error_class
         in \<lparr>rc_code = reason_value code, rc_error_class = error_class,
             rc_retryable = retryable, rc_claim_terminal = \<not> retryable\<rparr>)
      else classify_by_rules rules text)"

definition classify_reason :: "(pyval \<Rightarrow> string) \<Rightarrow> pyval \<Rightarrow> reason_classification" where
  "classify_reason rp reason =
     (let text = py_join '' '' (py_split (py_lower (py_strip (str_or_empty rp reason))))
      in if text = [] then
           \<lparr>rc_code = reason_value Legacy_Empty_Deferred, rc_error_class = Not_Ready,
            rc_retryable = True, rc_claim_terminal = False\<rparr>
         else classify_by_rules reason_rules text)"

definition normalize_reason_code :: "(pyval \<Rightarrow> string) \<Rightarrow> pyval \<Rightarrow> string" where
  "normalize_reason_code rp reason = rc_code (classify_reason rp reason)"

section \<open>Retry delay\<close>

text \<open>
  \<open>math.pow(2.0, n)\<close> raises \<open>OverflowError\<close> when the result exceeds the largest double,
  which for a whole \<open>n\<close> is from 1024 on.  The SHA-256 digest is the argument \<open>digest\<close>,
  a function from the key text to its bytes.
\<close>

definition py_pow2 :: "int \<Rightarrow> real result" where
  "py_pow2 n = (if 1024 \<le> n then Inl Overflow_Error else Inr (2 powi n))"

definition bytes_be2 :: "nat list \<Rightarrow> nat" where
  "bytes_be2 bs = foldl (\<lambda>a b. a * 256 + b) 0 (take 2 bs)"

definition retry_delay_seconds ::
  "(string \<Rightarrow> nat list) \<Rightarrow> int \<Rightarrow> real \<Rightarrow> string \<Rightarrow> real result" where
  "retry_delay_seconds digest attempt retry_hint_s jitter_key =
     (let normalized_attempt = max 1 (if attempt \<noteq> 0 then attempt else 1)
      in rbind (py_pow2 (normalized_attempt - 1)) (\<lambda>p.
           let backoff = min 10 (1 / 2 * p);
               base = max retry_hint_s backoff;
               jitter_ms = bytes_be2 (digest (jitter_key @ '':'' @ int_dec normalized_attempt)) mod 251
           in Inr (base + real jitter_ms / 1000)))"

section \<open>Properties of the vocabulary\<close>

lemma canonical_statuses_range:
  "active_materialization_statuses \<union> terminal_materialization_statuses = range status_value"
proof
  show "range status_value \<subseteq> active_materialization_statuses \<union> terminal_materialization_statuses"
  proof (rule image_subsetI)
    fix s show "status_value s \<in> active_materialization_statuses \<union> terminal_materialization_statuses"
      by (cases s) (simp_all add: status_set_defs)
  qed
qed (auto simp: status_set_defs simp del: status_value.simps)

lemma strip_status_value [simp]: "py_strip (status_value s) = status_value s"
  by (cases s) (simp_all add: py_strip_def is_space_def)

lemma operator_state_values:
  "list_all (\<lambda>(_, m). m \<in> range status_value) status_to_materialization"
  by (simp add: status_to_materialization_def del: status_value.simps)

lemma operator_state_in_range: "materialization_status_for_operator_state state \<in> range status_value"
proof (cases "dget status_to_materialization (py_strip state)")
  case None
  then show ?thesis
    by (simp add: materialization_status_for_operator_state_def canonical_statuses_range Let_def
        dget_or_def del: status_value.simps)
next
  case (Some m)
  then have "m \<in> range status_value"
    using operator_state_values by (auto dest!: map_of_SomeD simp: list_all_iff)
  with Some show ?thesis
    by (auto simp: materialization_status_for_operator_state_def canonical_statuses_range Let_def
        dget_or_def)
qed

lemma operator_state_fixed [simp]:
  "materialization_status_for_operator_state (status_value s) = status_value s"
  by (simp add: materialization_status_for_operator_state_def canonical_statuses_range Let_def)

text \<open>
  every enum value of the materialization status belongs to exactly one of the active and
  the terminal set, and what a scheduler may claim is active.
\<close>

theorem status_partition:
  "(status_value s \<in> active_materialization_statuses) =
     (status_value s \<notin> terminal_materialization_statuses) \<and>
   claimable_materialization_statuses \<subseteq> active_materialization_statuses \<and>
   status_value Running \<notin> claimable_materialization_statuses"
  by (cases s) (auto simp: status_set_defs)

text \<open>
  whatever text an operator state is, the mapped status is one of the canonical
  materialization statuses, and mapping a mapped status changes nothing.
\<close>

theorem operator_state_canonical:
  "\<exists>s. materialization_status_for_operator_state state = status_value s \<and>
       materialization_status_for_operator_state (status_value s) = status_value s"
  using operator_state_in_range by auto

text \<open>
  the compatibility projection of a canonical status maps back to that status in every
  phase, except that the manifest-ready status comes back as pending.
\<close>

theorem compatibility_round_trip:
  "materialization_status_for_operator_state (compatibility_status_for (status_value s) phase) =
   status_value (if s = Manifest_Ready then Pending else s)"
proof -
  have "py_strip ''pending'' = ''pending''" "py_strip ''finalizing'' = ''finalizing''"
    by (simp_all add: py_strip_def is_space_def)
  then have "materialization_status_for_operator_state ''pending'' = status_value Pending"
    "materialization_status_for_operator_state ''finalizing'' = status_value Running"
    by (simp_all add: materialization_status_for_operator_state_def status_to_materialization_def
        status_set_defs dget_or_def)
  then show ?thesis
    using operator_state_fixed [of s]
    by (cases s) (auto simp: compatibility_status_for_def simp del: operator_state_fixed)
qed

section \<open>Properties of the classifier\<close>

lemma classify_by_rules_consistent:
  "rc_retryable (classify_by_rules rules text) =
     retryable_class (rc_error_class (classify_by_rules rules text)) \<and>
   rc_claim_terminal (classify_by_rules rules text) = (\<not> rc_retryable (classify_by_rules rules text))"
  by (induction rules "text" rule: classify_by_rules.induct) (auto simp: Let_def retryable_class_def)

text \<open>
  a classification is retryable exactly when its error class is one of not-ready, capacity
  and transient dependency, and a claim is terminal exactly when it is not retryable.
\<close>

theorem classify_reason_consistent:
  "rc_retryable (classify_reason rp reason) =
     (rc_error_class (classify_reason rp reason) \<in> {Not_Ready, Capacity, Transient_Dependency}) \<and>
   rc_claim_terminal (classify_reason rp reason) = (\<not> rc_retryable (classify_reason rp reason))"
  using classify_by_rules_consistent
  by (auto simp: classify_reason_def Let_def retryable_class_def)

lemma reason_value_plain: "plain_text (reason_value r)"
  by (cases r) (simp_all add: plain_text_def is_space_def lower_char_def)

lemma classify_reason_plain:
  "plain_text s \<Longrightarrow> classify_reason rp (PStr s) = classify_by_rules reason_rules s"
  by (simp add: classify_reason_def plain_text_normal str_or_empty_def py_or_def)
    (simp add: plain_text_def)

lemma rule_codes_fixed:
  "list_all (\<lambda>(code, c, _). classify_by_rules reason_rules (reason_value code) =
     \<lparr>rc_code = reason_value code, rc_error_class = c, rc_retryable = retryable_class c,
      rc_claim_terminal = (\<not> retryable_class c)\<rparr>) reason_rules"
  by code_simp

text \<open>
  the normalized code of every rule classifies as that rule's own code and class, so a
  reason that was normalized once and stored can be classified again without changing.
\<close>

theorem rule_codes_classify_as_themselves:
  "(code, c, fragments) \<in> set reason_rules \<Longrightarrow>
   rc_code (classify_reason rp (PStr (reason_value code))) = reason_value code \<and>
   rc_error_class (classify_reason rp (PStr (reason_value code))) = c"
  using rule_codes_fixed by (auto simp: classify_reason_plain reason_value_plain list_all_iff)

theorem rule_codes_classify_as_themselves_witness:
  "rc_code (classify_reason (\<lambda>_. []) (PStr (reason_value Lease_Lost))) = reason_value Lease_Lost \<and>
   rc_error_class (classify_reason (\<lambda>_. []) (PStr (reason_value Lease_Lost))) = Stale_Owner"
  by (rule rule_codes_classify_as_themselves
      [of _ _ "[''lease_lost'', ''stale_owner'', ''fence_lost'']"])
    (simp add: reason_rules_def)

text \<open>
  the code of an empty reason is not stable: an empty reason is retryable and gets the code
  \<open>legacy_empty_deferred\<close>, but that code classifies as unknown and terminal.
\<close>

theorem empty_reason_code_not_stable:
  "normalize_reason_code rp PNone = reason_value Legacy_Empty_Deferred \<and>
   rc_retryable (classify_reason rp PNone) \<and>
   normalize_reason_code rp (PStr (normalize_reason_code rp PNone)) = reason_value Unknown_Reason \<and>
   rc_claim_terminal (classify_reason rp (PStr (normalize_reason_code rp PNone)))"
proof -
  have none: "classify_reason rp PNone =
      \<lparr>rc_code = reason_value Legacy_Empty_Deferred, rc_error_class = Not_Ready,
       rc_retryable = True, rc_claim_terminal = False\<rparr>"
    by (simp add: classify_reason_def str_or_empty_def py_or_def py_strip_def py_lower_def
        py_split.simps [of "[]"])
  have "classify_by_rules reason_rules (reason_value Legacy_Empty_Deferred) =
      \<lparr>rc_code = reason_value Unknown_Reason, rc_error_class = Unknown_Class,
       rc_retryable = False, rc_claim_terminal = True\<rparr>"
    by code_simp
  with none show ?thesis
    by (simp add: normalize_reason_code_def classify_reason_plain [OF reason_value_plain]
        del: reason_value.simps)
qed

section \<open>Properties of the retry delay\<close>

definition retry_backoff :: "int \<Rightarrow> real" where
  "retry_backoff attempt = min 10 (1 / 2 * 2 powi (max 1 attempt - 1))"

lemma retry_backoff_bounds: "1 / 2 \<le> retry_backoff attempt" "retry_backoff attempt \<le> 10"
proof -
  have "(2::real) powi 0 \<le> 2 powi (max 1 attempt - 1)"
    by (rule power_int_increasing) auto
  then show "1 / 2 \<le> retry_backoff attempt" by (simp add: retry_backoff_def)
qed (simp add: retry_backoff_def)

lemma retry_backoff_mono: "a \<le> b \<Longrightarrow> retry_backoff a \<le> retry_backoff b"
proof -
  assume "a \<le> b"
  then have "(2::real) powi (max 1 a - 1) \<le> 2 powi (max 1 b - 1)"
    by (intro power_int_increasing) auto
  then show ?thesis by (simp add: retry_backoff_def)
qed

text \<open>
  for at most 1024 attempts the delay is the larger of the hint and the bounded exponential
  backoff, plus a jitter of at most 250 milliseconds; from attempt 1025 on the computation
  raises an overflow error instead of returning the ten-second cap.
\<close>

theorem retry_delay_bounded:
  "(attempt \<le> 1024 \<longrightarrow>
     (\<exists>d. retry_delay_seconds digest attempt hint key = Inr d \<and>
          max hint (retry_backoff attempt) \<le> d \<and> d \<le> max hint (retry_backoff attempt) + 1 / 4)) \<and>
   (1024 < attempt \<longrightarrow> retry_delay_seconds digest attempt hint key = Inl Overflow_Error)"
proof -
  have jitter: "real (n mod 251) / 1000 \<le> 1 / 4" "0 \<le> real (n mod 251) / 1000" for n :: nat
  proof -
    have "n mod 251 < 251" by simp
    then have "real (n mod 251) \<le> 250" by linarith
    then show "real (n mod 251) / 1000 \<le> 1 / 4" by simp
  qed simp
  have n: "max 1 (if attempt \<noteq> 0 then attempt else 1) = max 1 attempt" by auto
  show ?thesis
    unfolding retry_delay_seconds_def Let_def n
    using jitter by (auto simp: py_pow2_def retry_backoff_def)
qed

theorem retry_delay_bounded_witness:
  "\<exists>d. retry_delay_seconds (\<lambda>_. [1, 0]) 3 0 ''ev'' = Inr d \<and>
     max 0 (retry_backoff 3) \<le> d \<and> d \<le> max 0 (retry_backoff 3) + 1 / 4"
  using retry_delay_bounded [of 3 "\<lambda>_. [1, 0]" 0 "''ev''"] by simp

end
