(* ===== verification/Shutdown.thy ===== *)
theory Shutdown
  imports Prelude
begin

text \<open>
  \<open>ShutdownController\<close> of \<^verbatim>\<open>services/media-worker/app/materialization_scheduler.py\<close>:
  the first signal starts a drain, a second one forces the stop.  Every method holds the
  controller's lock for its whole body, so each is one step; the clock reading is an argument.
\<close>

datatype shutdown_phase = RUNNING | QUIESCING | DRAINING | STOPPING | STOPPED

record shutdown_controller =
  sc_grace_seconds :: real
  sc_phase :: shutdown_phase
  sc_requested_at :: "real option"
  sc_deadline :: "real option"
  sc_signal_count :: int
  sc_last_signal :: "int option"
  sc_force_requested :: bool

definition shutdown_init :: "real \<Rightarrow> shutdown_controller" where
  "shutdown_init grace_seconds =
     \<lparr>sc_grace_seconds = max 0 grace_seconds, sc_phase = RUNNING, sc_requested_at = None,
      sc_deadline = None, sc_signal_count = 0, sc_last_signal = None, sc_force_requested = False\<rparr>"

definition shutdown_admission_open :: "shutdown_controller \<Rightarrow> bool" where
  "shutdown_admission_open s \<longleftrightarrow> sc_phase s = RUNNING"

definition shutdown_request :: "real \<Rightarrow> int option \<Rightarrow> shutdown_controller \<Rightarrow> shutdown_controller" where
  "shutdown_request now signal_number s =
     (let s = s\<lparr>sc_signal_count := sc_signal_count s + 1, sc_last_signal := signal_number\<rparr>
      in if sc_phase s = RUNNING then
           s\<lparr>sc_requested_at := Some now, sc_deadline := Some (now + sc_grace_seconds s),
             sc_phase := QUIESCING\<rparr>
         else if sc_phase s \<noteq> STOPPED then s\<lparr>sc_force_requested := True, sc_phase := STOPPING\<rparr>
         else s)"

definition shutdown_begin_draining :: "shutdown_controller \<Rightarrow> shutdown_controller" where
  "shutdown_begin_draining s = (if sc_phase s = QUIESCING then s\<lparr>sc_phase := DRAINING\<rparr> else s)"

definition shutdown_grace_expired :: "real \<Rightarrow> shutdown_controller \<Rightarrow> bool" where
  "shutdown_grace_expired now s = (case sc_deadline s of None \<Rightarrow> False | Some d \<Rightarrow> d \<le> now)"

definition shutdown_begin_stopping :: "bool \<Rightarrow> shutdown_controller \<Rightarrow> shutdown_controller" where
  "shutdown_begin_stopping force s =
     (let s = (if force then s\<lparr>sc_force_requested := True\<rparr> else s)
      in if sc_phase s \<noteq> STOPPED then s\<lparr>sc_phase := STOPPING\<rparr> else s)"

definition shutdown_mark_stopped :: "shutdown_controller \<Rightarrow> shutdown_controller" where
  "shutdown_mark_stopped s = s\<lparr>sc_phase := STOPPED\<rparr>"

lemmas shutdown_defs = shutdown_request_def shutdown_begin_draining_def shutdown_begin_stopping_def
  shutdown_mark_stopped_def Let_def

section \<open>The controller as a transition system\<close>

datatype shutdown_event =
    Request real "int option" | Begin_Draining | Begin_Stopping bool | Mark_Stopped

fun shutdown_step :: "shutdown_event \<Rightarrow> shutdown_controller \<Rightarrow> shutdown_controller" where
  "shutdown_step (Request now n) s = shutdown_request now n s"
| "shutdown_step Begin_Draining s = shutdown_begin_draining s"
| "shutdown_step (Begin_Stopping force) s = shutdown_begin_stopping force s"
| "shutdown_step Mark_Stopped s = shutdown_mark_stopped s"

text \<open>
  The invariant: before a shutdown nothing is recorded; a drain has a deadline, which is the
  request's time plus the grace period.
\<close>

definition shutdown_ok :: "shutdown_controller \<Rightarrow> bool" where
  "shutdown_ok s \<longleftrightarrow>
     0 \<le> sc_grace_seconds s \<and> 0 \<le> sc_signal_count s \<and>
     (sc_phase s = RUNNING \<longrightarrow> sc_signal_count s = 0 \<and> sc_requested_at s = None) \<and>
     (sc_phase s \<in> {QUIESCING, DRAINING} \<longrightarrow> sc_requested_at s \<noteq> None) \<and>
     sc_deadline s = map_option (\<lambda>t. t + sc_grace_seconds s) (sc_requested_at s)"

lemma shutdown_ok_init: "shutdown_ok (shutdown_init g)"
  by (simp add: shutdown_ok_def shutdown_init_def)

lemma shutdown_ok_step: "shutdown_ok s \<Longrightarrow> shutdown_ok (shutdown_step e s)"
  by (cases e) (auto simp: shutdown_ok_def shutdown_defs)

interpretation shutdown: transition_system "shutdown_init g" shutdown_step shutdown_ok
  by unfold_locales (auto intro: shutdown_ok_init shutdown_ok_step)

fun phase_rank :: "shutdown_phase \<Rightarrow> nat" where
  "phase_rank RUNNING = 0"
| "phase_rank QUIESCING = 1"
| "phase_rank DRAINING = 2"
| "phase_rank STOPPING = 3"
| "phase_rank STOPPED = 4"

definition shutdown_below :: "shutdown_controller \<Rightarrow> shutdown_controller \<Rightarrow> bool" where
  "shutdown_below s t \<longleftrightarrow>
     phase_rank (sc_phase s) \<le> phase_rank (sc_phase t) \<and>
     (sc_force_requested s \<longrightarrow> sc_force_requested t) \<and>
     sc_grace_seconds t = sc_grace_seconds s"

lemma shutdown_step_below: "shutdown_below s (shutdown_step e s)"
  by (cases e; cases "sc_phase s") (auto simp: shutdown_defs shutdown_below_def)

interpretation shutdown_forward: monotone_system shutdown_step shutdown_below
  by unfold_locales (auto simp: shutdown_step_below, auto simp: shutdown_below_def)

lemma phase_rank_0 [simp]: "phase_rank p = 0 \<longleftrightarrow> p = RUNNING"
  by (cases p) auto

text \<open>
  along every sequence of signals and lifecycle calls the phase only moves forward from
  running towards stopped, a force request is never withdrawn, admission that was closed never
  opens again, and a recorded deadline is the request's time plus the non-negative grace period.
\<close>

theorem shutdown_only_moves_forward:
  "let s = fold shutdown_step es (shutdown_init g); t = fold shutdown_step es' s
   in phase_rank (sc_phase s) \<le> phase_rank (sc_phase t) \<and>
      sc_force_requested s \<le> sc_force_requested t \<and>
      shutdown_admission_open t \<le> shutdown_admission_open s \<and>
      sc_deadline t = map_option (\<lambda>r. r + max 0 g) (sc_requested_at t)"
proof -
  let ?s = "fold shutdown_step es (shutdown_init g)"
  let ?t = "fold shutdown_step es' ?s"
  have climb: "shutdown_below (shutdown_init g) ?s" "shutdown_below ?s ?t"
    by (rule shutdown_forward.run_climbs)+
  have "shutdown_ok ?t" by (rule shutdown.run_from [OF shutdown.run])
  with climb have "sc_deadline ?t = map_option (\<lambda>r. r + max 0 g) (sc_requested_at ?t)"
    by (simp add: shutdown_ok_def shutdown_below_def shutdown_init_def)
  moreover have "sc_phase ?t = RUNNING \<Longrightarrow> sc_phase ?s = RUNNING"
    using climb(2) by (simp add: shutdown_below_def)
  ultimately show ?thesis
    using climb(2) by (auto simp: Let_def shutdown_admission_open_def shutdown_below_def)
qed

text \<open>
  from every state that is not stopped, two signals in a row leave the controller stopping
  with the force flag set, whatever the clock says.
\<close>

theorem second_signal_forces:
  "sc_phase s \<noteq> STOPPED \<Longrightarrow>
   sc_phase (shutdown_request t2 n2 (shutdown_request t1 n1 s)) = STOPPING \<and>
   sc_force_requested (shutdown_request t2 n2 (shutdown_request t1 n1 s))"
  by (auto simp: shutdown_defs)

theorem second_signal_forces_witness:
  "sc_phase (shutdown_request 7 (Some 15) (shutdown_request 5 (Some 15) (shutdown_init 45))) = STOPPING \<and>
   sc_force_requested (shutdown_request 7 (Some 15) (shutdown_request 5 (Some 15) (shutdown_init 45)))"
  by (rule second_signal_forces) (simp add: shutdown_init_def)

end
