(* ===== verification/SlotPool.thy ===== *)
theory SlotPool
  imports Prelude
begin

text \<open>
  The contract that the materialization scheduler relies on wherever it takes a slot before it
  claims work: a pool grants a slot only below its cap, refuses only at its cap, and a returned
  slot is given back once however often its holder returns it.  The work budget, the source
  registry and the executor lanes are its instances.
\<close>

datatype ('r, 'p) pool_op = Take 'r | Give 'p

text \<open>
  A request \<open>r\<close> is charged to the key \<open>charge r\<close> and is granted while the use of that key is below
  \<open>cap s r\<close>; \<open>limit s\<close> bounds every cap.
\<close>

locale slot_pool =
  fixes ok :: "'s \<Rightarrow> bool" and limit :: "'s \<Rightarrow> int" and cap :: "'s \<Rightarrow> 'r \<Rightarrow> int"
    and used :: "'s \<Rightarrow> 'k \<Rightarrow> int"
    and acquire :: "'r \<Rightarrow> 's \<Rightarrow> 'p option \<times> 's" and give_back :: "'p \<Rightarrow> 's \<Rightarrow> 's"
    and holds :: "'s \<Rightarrow> 'p \<Rightarrow> bool" and charge :: "'r \<Rightarrow> 'k" and key :: "'p \<Rightarrow> 'k"
  assumes cap_limit: "ok s \<Longrightarrow> cap s r \<le> limit s"
    and granted: "ok s \<Longrightarrow> acquire r s = (Some p, s') \<Longrightarrow>
      ok s' \<and> key p = charge r \<and> holds s' p \<and> used s (charge r) < cap s r \<and>
      used s' = (used s)(charge r := used s (charge r) + 1) \<and> cap s' = cap s \<and> limit s' = limit s"
    and refused: "ok s \<Longrightarrow> acquire r s = (None, s') \<Longrightarrow>
      ok s' \<and> used s' = used s \<and> cap s' = cap s \<and> limit s' = limit s \<and> cap s r \<le> used s (charge r)"
    and returned: "ok s \<Longrightarrow> holds s p \<Longrightarrow>
      ok (give_back p s) \<and> \<not> holds (give_back p s) p \<and>
      cap (give_back p s) = cap s \<and> limit (give_back p s) = limit s \<and>
      used (give_back p s) = (used s)(key p := used s (key p) - 1)"
    and returned_twice: "ok s \<Longrightarrow> \<not> holds s p \<Longrightarrow> give_back p s = s"
begin

text \<open>The pool grants a request exactly when its key is below its cap.\<close>

lemma granted_iff: "ok s \<Longrightarrow> fst (acquire r s) \<noteq> None \<longleftrightarrow> used s (charge r) < cap s r"
proof (cases "acquire r s")
  case (Pair x s')
  assume "ok s"
  with Pair show ?thesis using refused [of s r s'] granted [of s r _ s'] by (cases x) auto
qed

text \<open>Once a holder has returned its slot, the next request charged to the same key is granted.\<close>

lemma return_admits:
  "ok s \<Longrightarrow> holds s p \<Longrightarrow> charge r = key p \<Longrightarrow> used s (key p) \<le> cap s r \<Longrightarrow>
   fst (acquire r (give_back p s)) \<noteq> None"
  using granted_iff [of "give_back p s" r] returned [of s p] by simp

lemma return_once: "ok s \<Longrightarrow> give_back p (give_back p s) = give_back p s"
  by (cases "holds s p") (metis returned returned_twice)+

text \<open>A granted slot that is returned at once leaves the use of the pool as it was.\<close>

lemma take_give: "ok s \<Longrightarrow> acquire r s = (Some p, s') \<Longrightarrow> used (give_back p s') = used s"
  using granted [of s r p s'] returned [of s' p] by (auto simp: fun_eq_iff)

definition pool_step :: "('r, 'p) pool_op \<Rightarrow> 's \<Rightarrow> 's" where
  "pool_step e s = (case e of Take r \<Rightarrow> snd (acquire r s) | Give p \<Rightarrow> give_back p s)"

definition within_limit :: "'s \<Rightarrow> bool" where
  "within_limit s \<longleftrightarrow> ok s \<and> (\<forall>k. used s k \<le> limit s)"

lemma within_limit_step: "within_limit s \<Longrightarrow> within_limit (pool_step e s)"
proof (cases e)
  case (Take r)
  assume w: "within_limit s"
  show ?thesis
  proof (cases "fst (acquire r s)")
    case None
    with w Take refused [of s r "snd (acquire r s)"] show ?thesis
      by (auto simp: within_limit_def pool_step_def prod_eq_iff)
  next
    case (Some p)
    with w Take granted [of s r p "snd (acquire r s)"] cap_limit [of s r] show ?thesis
      by (auto simp: within_limit_def pool_step_def prod_eq_iff)
  qed
next
  case (Give p)
  assume w: "within_limit s"
  then have "used s (key p) - 1 \<le> limit s"
    by (auto simp: within_limit_def intro: order_trans [of _ "used s (key p)"])
  with w Give returned [of s p] returned_twice [of s p] show ?thesis
    by (cases "holds s p") (auto simp: within_limit_def pool_step_def)
qed

lemma run_within_limit: "within_limit s \<Longrightarrow> within_limit (fold pool_step es s)"
  by (induction es arbitrary: s) (auto intro: within_limit_step)

end

end
