(* ===== verification/WorkBudget.thy ===== *)
theory WorkBudget
  imports PyValue SlotPool
begin

text \<open>
  \<open>WorkBudget\<close> and \<open>WorkPermit\<close> of
  \<^verbatim>\<open>services/media-worker/app/materialization_scheduler.py\<close>: one budget of
  work-in-progress slots shared by every materialization lane.  Each region under a lock is one
  step; releasing a permit is two regions (the permit's lock, then the budget's lock), so other
  threads may run between them and the state records the permits caught in between.
\<close>

section \<open>State\<close>

datatype lane = Image | Remux | Finalizer | Other

fun lane_name :: "lane \<Rightarrow> string" where
  "lane_name Image = ''image''"
| "lane_name Remux = ''remux''"
| "lane_name Finalizer = ''finalizer''"
| "lane_name Other = ''other''"

definition normalise_lane :: "string \<Rightarrow> lane" where
  "normalise_lane lane =
     (let value = py_lower (py_strip (if lane = [] then ''other'' else lane))
      in if value = ''image'' then Image
         else if value = ''remux'' then Remux
         else if value = ''finalizer'' then Finalizer
         else Other)"

record work_permit =
  wp_permit_id :: int
  wp_lane :: lane
  wp_owner :: string
  wp_released :: bool

record work_budget =
  wb_max_active :: int
  wb_reserved_non_image :: int
  wb_active :: int
  wb_by_lane :: "lane \<Rightarrow> int"
  wb_permit_lanes :: "(int, lane) dict"
  wb_compatibility_permits :: "int list"
  wb_next_permit_id :: int

definition work_budget_init :: "int \<Rightarrow> int \<Rightarrow> work_budget" where
  "work_budget_init max_active reserved_non_image =
     (let m = max 0 max_active
      in \<lparr>wb_max_active = m,
          wb_reserved_non_image = (if 2 \<le> m then min (max 0 reserved_non_image) (m - 1) else 0),
          wb_active = 0, wb_by_lane = (\<lambda>_. 0), wb_permit_lanes = [],
          wb_compatibility_permits = [], wb_next_permit_id = 1\<rparr>)"

section \<open>Budget operations\<close>

definition try_acquire :: "string \<Rightarrow> string \<Rightarrow> work_budget \<Rightarrow> work_permit option \<times> work_budget" where
  "try_acquire lane0 owner b =
     (let lane = normalise_lane lane0
      in if wb_max_active b \<le> 0 \<or> wb_max_active b \<le> wb_active b then (None, b)
         else if lane = Image \<and> 0 < wb_reserved_non_image b \<and>
                 wb_max_active b - wb_reserved_non_image b \<le> wb_active b then (None, b)
         else
           (let permit_id = wb_next_permit_id b
            in (Some \<lparr>wp_permit_id = permit_id, wp_lane = lane, wp_owner = owner, wp_released = False\<rparr>,
                b\<lparr>wb_next_permit_id := permit_id + 1,
                  wb_active := wb_active b + 1,
                  wb_by_lane := (wb_by_lane b)(lane := wb_by_lane b lane + 1),
                  wb_permit_lanes := dset permit_id lane (wb_permit_lanes b)\<rparr>)))"

definition budget_move :: "int \<Rightarrow> lane \<Rightarrow> lane \<Rightarrow> work_budget \<Rightarrow> work_budget result" where
  "budget_move permit_id old_lane new_lane b =
     (case dget (wb_permit_lanes b) permit_id of
        None \<Rightarrow> Inl (Runtime_Error ''work permit is no longer active'')
      | Some current \<Rightarrow>
          if current \<noteq> old_lane then Inl (Runtime_Error ''work permit lane ownership changed'')
          else
            (let counts = (wb_by_lane b)(old_lane := max 0 (wb_by_lane b old_lane - 1))
             in Inr (b\<lparr>wb_by_lane := counts(new_lane := counts new_lane + 1),
                       wb_permit_lanes := dset permit_id new_lane (wb_permit_lanes b)\<rparr>)))"

definition budget_release :: "int \<Rightarrow> work_budget \<Rightarrow> work_budget" where
  "budget_release permit_id b =
     (case dget (wb_permit_lanes b) permit_id of
        None \<Rightarrow> b
      | Some current \<Rightarrow>
          b\<lparr>wb_permit_lanes := dpop permit_id (wb_permit_lanes b),
            wb_active := max 0 (wb_active b - 1),
            wb_by_lane := (wb_by_lane b)(current := max 0 (wb_by_lane b current - 1))\<rparr>)"

definition work_budget_snapshot :: "work_budget \<Rightarrow> (string \<times> int) list" where
  "work_budget_snapshot b =
     [(''max_active'', wb_max_active b), (''active'', wb_active b),
      (''image_active'', wb_by_lane b Image), (''remux_active'', wb_by_lane b Remux),
      (''finalizer_active'', wb_by_lane b Finalizer), (''other_active'', wb_by_lane b Other),
      (''reserved_non_image'', wb_reserved_non_image b)]"

section \<open>Permits\<close>

text \<open>
  The permits live in a heap from permit id to object, because a permit is shared between the
  thread that acquired it and the threads it is handed to; \<open>wip_releasing\<close> holds the ids
  whose release has marked the permit but not reached the budget yet.
\<close>

record wip =
  wip_budget :: work_budget
  wip_permits :: "int \<rightharpoonup> work_permit"
  wip_releasing :: "int set"

definition wip_init :: "int \<Rightarrow> int \<Rightarrow> wip" where
  "wip_init max_active reserved =
     \<lparr>wip_budget = work_budget_init max_active reserved, wip_permits = Map.empty, wip_releasing = {}\<rparr>"

definition wip_acquire :: "string \<Rightarrow> string \<Rightarrow> wip \<Rightarrow> work_permit option \<times> wip" where
  "wip_acquire lane owner w =
     (case try_acquire lane owner (wip_budget w) of
        (None, b) \<Rightarrow> (None, w\<lparr>wip_budget := b\<rparr>)
      | (Some p, b) \<Rightarrow>
          (Some p, w\<lparr>wip_budget := b, wip_permits := (wip_permits w)(wp_permit_id p \<mapsto> p)\<rparr>))"

text \<open>\<open>WorkPermit.move_to\<close>, under the permit's lock and inside it the budget's lock.\<close>

definition permit_move_to :: "work_permit \<Rightarrow> string \<Rightarrow> string option \<Rightarrow> wip \<Rightarrow> wip result" where
  "permit_move_to p lane0 owner w =
     (let lane = normalise_lane lane0
      in if wp_released p then Inl (Runtime_Error ''cannot move a released work permit'')
         else
           rbind (if wp_lane p \<noteq> lane then budget_move (wp_permit_id p) (wp_lane p) lane (wip_budget w)
                  else Inr (wip_budget w))
             (\<lambda>b. Inr (w\<lparr>wip_budget := b,
                wip_permits := (wip_permits w)(wp_permit_id p \<mapsto>
                  p\<lparr>wp_lane := lane,
                    wp_owner := (case owner of None \<Rightarrow> wp_owner p | Some ow \<Rightarrow> ow)\<rparr>)\<rparr>)))"

text \<open>
  \<open>WorkPermit.release\<close>: the region under the permit's lock, then the region under the
  budget's lock.
\<close>

definition permit_release_mark :: "work_permit \<Rightarrow> wip \<Rightarrow> wip" where
  "permit_release_mark p w =
     (if wp_released p then w
      else w\<lparr>wip_permits := (wip_permits w)(wp_permit_id p \<mapsto> p\<lparr>wp_released := True\<rparr>),
             wip_releasing := insert (wp_permit_id p) (wip_releasing w)\<rparr>)"

definition permit_release_budget :: "int \<Rightarrow> wip \<Rightarrow> wip" where
  "permit_release_budget permit_id w =
     w\<lparr>wip_budget := budget_release permit_id (wip_budget w),
       wip_releasing := wip_releasing w - {permit_id}\<rparr>"

text \<open>The two regions in a row, which is the whole method when no other thread runs in between.\<close>

definition permit_release :: "work_permit \<Rightarrow> wip \<Rightarrow> wip" where
  "permit_release p w =
     (if wp_released p then w
      else permit_release_budget (wp_permit_id p) (permit_release_mark p w))"

text \<open>The compatibility bridge: a stack of permits behind \<open>acquire\<close> and \<open>release\<close>.\<close>

definition compat_push :: "int \<Rightarrow> wip \<Rightarrow> wip" where
  "compat_push permit_id w =
     w\<lparr>wip_budget := (wip_budget w)\<lparr>wb_compatibility_permits :=
         wb_compatibility_permits (wip_budget w) @ [permit_id]\<rparr>\<rparr>"

definition compat_pop :: "wip \<Rightarrow> int option \<times> wip" where
  "compat_pop w =
     (let ps = wb_compatibility_permits (wip_budget w)
      in if ps = [] then (None, w)
         else (Some (last ps),
               w\<lparr>wip_budget := (wip_budget w)\<lparr>wb_compatibility_permits := butlast ps\<rparr>\<rparr>))"

definition compat_acquire :: "wip \<Rightarrow> bool \<times> wip" where
  "compat_acquire w =
     (case wip_acquire ''finalizer'' ''legacy-guard'' w of
        (None, w') \<Rightarrow> (False, w')
      | (Some p, w') \<Rightarrow> (True, compat_push (wp_permit_id p) w'))"

definition compat_release :: "wip \<Rightarrow> wip" where
  "compat_release w =
     (case compat_pop w of
        (None, w') \<Rightarrow> w'
      | (Some i, w') \<Rightarrow>
          (case wip_permits w' i of None \<Rightarrow> w' | Some p \<Rightarrow> permit_release p w'))"

section \<open>The budget's invariant\<close>

definition budget_ok :: "work_budget \<Rightarrow> bool" where
  "budget_ok b \<longleftrightarrow>
     dict_ok (wb_permit_lanes b) \<and>
     wb_active b = int (length (wb_permit_lanes b)) \<and>
     wb_by_lane b = value_count (wb_permit_lanes b) \<and>
     0 \<le> wb_active b \<and> wb_active b \<le> wb_max_active b \<and>
     0 \<le> wb_reserved_non_image b \<and>
     (\<forall>i l. dget (wb_permit_lanes b) i = Some l \<longrightarrow> i < wb_next_permit_id b)"

lemma budget_ok_init: "budget_ok (work_budget_init m r)"
  by (auto simp: budget_ok_def work_budget_init_def Let_def)

lemma budget_ok_fresh: "budget_ok b \<Longrightarrow> dget (wb_permit_lanes b) (wb_next_permit_id b) = None"
  unfolding budget_ok_def by (metis less_irrefl not_None_eq)

lemma budget_ok_try_acquire: "budget_ok b \<Longrightarrow> budget_ok (snd (try_acquire lane owner b))"
  using budget_ok_fresh [of b]
  by (auto simp: try_acquire_def budget_ok_def Let_def dict_simps less_SucI fun_eq_iff
      intro: less_trans)

lemma budget_ok_move:
  "budget_ok b \<Longrightarrow> budget_move i old new b = Inr b' \<Longrightarrow> budget_ok b'"
  by (auto simp: budget_move_def budget_ok_def Let_def dict_simps fun_eq_iff value_count_pos
      split: option.splits if_splits)

lemma budget_ok_release: "budget_ok b \<Longrightarrow> budget_ok (budget_release i b)"
proof (cases "dget (wb_permit_lanes b) i")
  case None
  then show "budget_ok b \<Longrightarrow> budget_ok (budget_release i b)" by (simp add: budget_release_def)
next
  case (Some l)
  assume ok: "budget_ok b"
  with Some have "int (length (dpop i (wb_permit_lanes b))) = wb_active b - 1"
    using length_dpop [of "wb_permit_lanes b" i l] by (simp add: budget_ok_def)
  with Some ok show ?thesis
    by (auto simp: budget_release_def budget_ok_def dict_simps fun_eq_iff value_count_pos)
qed

lemmas budget_ok_ops = budget_ok_init budget_ok_try_acquire budget_ok_move budget_ok_release

section \<open>Permits and threads\<close>

text \<open>
  One step of any thread.  The flag tells whether permits may be moved into the image lane; the
  worker moves them only towards the finalizer.
\<close>

inductive wip_step :: "bool \<Rightarrow> wip \<Rightarrow> wip \<Rightarrow> bool" for into_image :: bool where
  acquire: "wip_step into_image w (snd (wip_acquire lane owner w))"
| move: "wip_permits w i = Some p \<Longrightarrow> into_image \<or> normalise_lane lane \<noteq> Image \<Longrightarrow>
     permit_move_to p lane owner w = Inr w' \<Longrightarrow> wip_step into_image w w'"
| mark: "wip_permits w i = Some p \<Longrightarrow> wip_step into_image w (permit_release_mark p w)"
| release: "i \<in> wip_releasing w \<Longrightarrow> wip_step into_image w (permit_release_budget i w)"
| push: "wip_permits w i = Some p \<Longrightarrow> wip_step into_image w (compat_push i w)"
| pop: "wip_step into_image w (snd (compat_pop w))"

inductive wip_reachable :: "int \<Rightarrow> int \<Rightarrow> bool \<Rightarrow> wip \<Rightarrow> bool"
  for max_active reserved :: int and into_image :: bool where
  start: "wip_reachable max_active reserved into_image (wip_init max_active reserved)"
| step: "wip_reachable max_active reserved into_image w \<Longrightarrow> wip_step into_image w w' \<Longrightarrow>
     wip_reachable max_active reserved into_image w'"

text \<open>
  A permit that is not released holds its slot in its lane; a released permit that still holds
  one is between the two regions of its release.
\<close>

definition permit_ok :: "wip \<Rightarrow> int \<Rightarrow> work_permit \<Rightarrow> bool" where
  "permit_ok w i p \<longleftrightarrow>
     wp_permit_id p = i \<and> i < wb_next_permit_id (wip_budget w) \<and>
     (if wp_released p
      then i \<in> wip_releasing w \<or> dget (wb_permit_lanes (wip_budget w)) i = None
      else i \<notin> wip_releasing w \<and> dget (wb_permit_lanes (wip_budget w)) i = Some (wp_lane p))"

definition wip_ok :: "wip \<Rightarrow> bool" where
  "wip_ok w \<longleftrightarrow>
     budget_ok (wip_budget w) \<and>
     (\<forall>i p. wip_permits w i = Some p \<longrightarrow> permit_ok w i p) \<and>
     wip_releasing w \<subseteq> dom (wip_permits w)"

lemma wip_ok_init: "wip_ok (wip_init m r)"
  by (simp add: wip_ok_def wip_init_def budget_ok_init)

text \<open>Every step writes one permit and the budget's entry of that permit.\<close>

lemma wip_ok_update:
  assumes ok: "wip_ok w" and b: "budget_ok b" and p: "permit_ok w' i p"
    and w': "w' = w\<lparr>wip_budget := b, wip_permits := (wip_permits w)(i \<mapsto> p), wip_releasing := R\<rparr>"
    and lanes: "\<And>k. k \<noteq> i \<Longrightarrow> dget (wb_permit_lanes b) k = dget (wb_permit_lanes (wip_budget w)) k"
    and R: "R - {i} = wip_releasing w - {i}"
    and fresh: "wb_next_permit_id (wip_budget w) \<le> wb_next_permit_id b"
  shows "wip_ok w'"
proof -
  have "permit_ok w' j q" if "wip_permits w' j = Some q" for j q
  proof (cases "j = i")
    case True
    with that w' p show ?thesis by simp
  next
    case False
    with that w' ok have "permit_ok w j q" by (simp add: wip_ok_def)
    moreover have "j \<in> R \<longleftrightarrow> j \<in> wip_releasing w" using R False by blast
    ultimately show ?thesis using w' lanes [OF False] fresh by (auto simp: permit_ok_def)
  qed
  moreover have "R \<subseteq> insert i (dom (wip_permits w))" using R ok by (auto simp: wip_ok_def)
  ultimately show ?thesis using b w' by (auto simp: wip_ok_def)
qed

lemma wip_ok_fresh:
  assumes "wip_ok w"
  shows "wip_permits w (wb_next_permit_id (wip_budget w)) = None"
    "wb_next_permit_id (wip_budget w) \<notin> wip_releasing w"
proof -
  show none: "wip_permits w (wb_next_permit_id (wip_budget w)) = None"
    using assms by (cases "wip_permits w (wb_next_permit_id (wip_budget w))")
      (auto simp: wip_ok_def permit_ok_def)
  then show "wb_next_permit_id (wip_budget w) \<notin> wip_releasing w"
    using assms by (auto simp: wip_ok_def subset_iff)
qed

lemma wip_ok_acquire: "wip_ok w \<Longrightarrow> wip_ok (snd (wip_acquire lane owner w))"
proof -
  assume ok: "wip_ok w"
  let ?i = "wb_next_permit_id (wip_budget w)"
  obtain po b where acq: "try_acquire lane owner (wip_budget w) = (po, b)" by fastforce
  have b: "budget_ok b"
    using ok budget_ok_try_acquire [of "wip_budget w" lane owner] by (simp add: wip_ok_def acq)
  show ?thesis
  proof (cases po)
    case None
    with acq have "b = wip_budget w" by (auto simp: try_acquire_def Let_def split: if_splits)
    with None acq ok show ?thesis by (simp add: wip_acquire_def)
  next
    case (Some p)
    with acq have p: "wp_permit_id p = ?i" "\<not> wp_released p" "wb_next_permit_id b = ?i + 1"
        "wb_permit_lanes b = dset ?i (wp_lane p) (wb_permit_lanes (wip_budget w))"
      by (auto simp: try_acquire_def Let_def split: if_splits)
    show ?thesis
      by (rule wip_ok_update [OF ok b, where i = ?i and p = p and R = "wip_releasing w"])
        (use p wip_ok_fresh [OF ok] Some acq in \<open>auto simp: permit_ok_def wip_acquire_def dict_simps\<close>)
  qed
qed

lemma wip_ok_move:
  assumes ok: "wip_ok w" and p: "wip_permits w i = Some p"
    and mv: "permit_move_to p lane owner w = Inr w'"
  shows "wip_ok w'"
proof -
  from ok p have pok: "permit_ok w i p" by (simp add: wip_ok_def)
  from mv obtain b where live: "\<not> wp_released p"
    and b: "(if wp_lane p \<noteq> normalise_lane lane
       then budget_move i (wp_lane p) (normalise_lane lane) (wip_budget w) else Inr (wip_budget w)) = Inr b"
    and w': "w' = w\<lparr>wip_budget := b, wip_permits := (wip_permits w)(i \<mapsto>
       p\<lparr>wp_lane := normalise_lane lane,
         wp_owner := (case owner of None \<Rightarrow> wp_owner p | Some ow \<Rightarrow> ow)\<rparr>)\<rparr>"
    using pok by (auto simp: permit_move_to_def Let_def rbind_Inr_iff permit_ok_def split: if_splits)
  have "budget_ok b"
    using b ok by (auto simp: wip_ok_def intro: budget_ok_move split: if_splits)
  moreover have "wb_next_permit_id b = wb_next_permit_id (wip_budget w)"
    "dget (wb_permit_lanes b) k =
       (if k = i then Some (normalise_lane lane) else dget (wb_permit_lanes (wip_budget w)) k)" for k
    using b pok live
    by (auto simp: budget_move_def permit_ok_def Let_def dict_simps split: if_splits option.splits)
  ultimately show ?thesis
    using pok live w'
    by (intro wip_ok_update [OF ok, where i = i and R = "wip_releasing w" and b = b])
      (auto simp: permit_ok_def)
qed

lemma wip_ok_mark: "wip_ok w \<Longrightarrow> wip_permits w i = Some p \<Longrightarrow> wip_ok (permit_release_mark p w)"
proof (cases "wp_released p")
  case False
  assume ok: "wip_ok w" and p: "wip_permits w i = Some p"
  then have pok: "permit_ok w i p" by (simp add: wip_ok_def)
  with ok p False show ?thesis
    by (intro wip_ok_update [OF ok, where i = i and R = "insert i (wip_releasing w)"
          and b = "wip_budget w" and p = "p\<lparr>wp_released := True\<rparr>"])
      (auto simp: permit_release_mark_def permit_ok_def wip_ok_def)
qed (simp add: permit_release_mark_def)

lemma budget_release_frame:
  "dget (wb_permit_lanes (budget_release i b)) k =
     (if k = i then None else dget (wb_permit_lanes b) k)"
  "wb_next_permit_id (budget_release i b) = wb_next_permit_id b"
  "wb_max_active (budget_release i b) = wb_max_active b"
  "wb_reserved_non_image (budget_release i b) = wb_reserved_non_image b"
  by (auto simp: budget_release_def dict_simps split: option.splits)

lemma wip_ok_release: "wip_ok w \<Longrightarrow> i \<in> wip_releasing w \<Longrightarrow> wip_ok (permit_release_budget i w)"
proof -
  assume ok: "wip_ok w" and i: "i \<in> wip_releasing w"
  then obtain p where p: "wip_permits w i = Some p" by (auto simp: wip_ok_def)
  with ok i have "permit_ok w i p" by (simp add: wip_ok_def)
  with p i ok show ?thesis
    by (intro wip_ok_update [OF ok, where i = i and R = "wip_releasing w - {i}"
          and b = "budget_release i (wip_budget w)" and p = p])
      (auto simp: permit_release_budget_def permit_ok_def wip_ok_def budget_release_frame
        budget_ok_release fun_upd_idem split: if_splits)
qed

lemma wip_ok_compat:
  "wip_ok w \<Longrightarrow> wip_ok (compat_push i w)" "wip_ok w \<Longrightarrow> wip_ok (snd (compat_pop w))"
  by (auto simp: wip_ok_def permit_ok_def budget_ok_def compat_push_def compat_pop_def Let_def)

lemma wip_step_ok: "wip_step im w w' \<Longrightarrow> wip_ok w \<Longrightarrow> wip_ok w'"
  by (induction rule: wip_step.induct)
    (auto intro: wip_ok_acquire wip_ok_move wip_ok_mark wip_ok_release wip_ok_compat)

lemma wip_reachable_ok: "wip_reachable m r im w \<Longrightarrow> wip_ok w"
  by (induction rule: wip_reachable.induct) (auto intro: wip_ok_init wip_step_ok)

section \<open>Properties\<close>

lemma acquire_limits:
  "wb_max_active (snd (try_acquire lane owner b)) = wb_max_active b"
  "wb_reserved_non_image (snd (try_acquire lane owner b)) = wb_reserved_non_image b"
  by (auto simp: try_acquire_def Let_def)

lemma move_limits:
  "budget_move i old new b = Inr b' \<Longrightarrow>
   wb_max_active b' = wb_max_active b \<and> wb_reserved_non_image b' = wb_reserved_non_image b"
  by (auto simp: budget_move_def Let_def split: option.splits if_splits)

lemma wip_step_limits:
  "wip_step im w w' \<Longrightarrow>
   wb_max_active (wip_budget w') = wb_max_active (wip_budget w) \<and>
   wb_reserved_non_image (wip_budget w') = wb_reserved_non_image (wip_budget w)"
proof (induction rule: wip_step.induct)
  case (acquire w lane owner)
  show ?case using acquire_limits [of lane owner "wip_budget w"]
    by (auto simp: wip_acquire_def split: prod.splits option.splits)
next
  case (move w i p lane owner w')
  then show ?case
    by (auto simp: permit_move_to_def Let_def rbind_Inr_iff dest: move_limits split: if_splits)
qed (auto simp: permit_release_mark_def permit_release_budget_def budget_release_frame
    compat_push_def compat_pop_def Let_def)

lemma wip_reachable_limits:
  "wip_reachable m r im w \<Longrightarrow>
   wb_max_active (wip_budget w) = max 0 m \<and>
   wb_reserved_non_image (wip_budget w) = (if 2 \<le> m then min (max 0 r) (m - 1) else 0)"
  by (induction rule: wip_reachable.induct)
    (auto simp: wip_init_def work_budget_init_def Let_def dest: wip_step_limits)

lemma sum_lane_counts:
  "int (length d) = value_count d Image + value_count d Remux + value_count d Finalizer + value_count d Other"
proof (induction d)
  case (Cons e d)
  then show ?case by (cases e; cases "snd e") (auto simp: value_count_def)
qed simp

lemma live_permits_finite:
  assumes "wip_ok w"
  shows "finite {i. \<exists>p. wip_permits w i = Some p \<and> \<not> wp_released p}"
    "int (card {i. \<exists>p. wip_permits w i = Some p \<and> \<not> wp_released p}) \<le> wb_active (wip_budget w)"
proof -
  let ?L = "{i. \<exists>p. wip_permits w i = Some p \<and> \<not> wp_released p}"
  let ?d = "wb_permit_lanes (wip_budget w)"
  have sub: "?L \<subseteq> fst ` set ?d"
  proof
    fix i assume "i \<in> ?L"
    then obtain p where "wip_permits w i = Some p" "\<not> wp_released p" by blast
    with assms have "dget ?d i = Some (wp_lane p)" by (auto simp: wip_ok_def permit_ok_def)
    then show "i \<in> fst ` set ?d" by (force dest: map_of_SomeD)
  qed
  then show "finite ?L" by (rule finite_subset) simp
  have "card ?L \<le> card (fst ` set ?d)" using sub by (intro card_mono) auto
  also have "\<dots> \<le> length ?d"
    by (metis card_length length_map list.set_map)
  finally show "int (card ?L) \<le> wb_active (wip_budget w)"
    using assms by (simp add: wip_ok_def budget_ok_def)
qed



subsection \<open>The slots kept for non-image work\<close>

definition image_within_share :: "wip \<Rightarrow> bool" where
  "image_within_share w \<longleftrightarrow>
     wb_by_lane (wip_budget w) Image \<le> wb_max_active (wip_budget w) - wb_reserved_non_image (wip_budget w)"

lemma image_share_acquire:
  assumes "budget_ok b" "wb_by_lane b Image \<le> wb_max_active b - wb_reserved_non_image b"
  shows "wb_by_lane (snd (try_acquire lane owner b)) Image \<le> wb_max_active b - wb_reserved_non_image b"
proof -
  have "wb_by_lane b Image \<le> wb_active b"
    using assms(1) sum_lane_counts [of "wb_permit_lanes b"] by (simp add: budget_ok_def)
  with assms show ?thesis by (auto simp: try_acquire_def Let_def budget_ok_def)
qed

lemma image_share_move:
  assumes "budget_ok b" "budget_move i old new b = Inr b'" "new \<noteq> Image"
  shows "wb_by_lane b' Image \<le> wb_by_lane b Image"
  using assms by (auto simp: budget_move_def Let_def budget_ok_def split: option.splits if_splits)

lemma budget_release_lane: "budget_ok b \<Longrightarrow> wb_by_lane (budget_release i b) l \<le> wb_by_lane b l"
proof (cases "dget (wb_permit_lanes b) i")
  case (Some k)
  assume "budget_ok b"
  with Some value_count_pos [OF Some] show ?thesis by (simp add: budget_release_def budget_ok_def)
qed (simp add: budget_release_def)

lemma permit_move_budget:
  "permit_move_to p lane owner w = Inr w' \<Longrightarrow>
   wip_budget w' = wip_budget w \<or>
   budget_move (wp_permit_id p) (wp_lane p) (normalise_lane lane) (wip_budget w) = Inr (wip_budget w')"
  by (auto simp: permit_move_to_def Let_def rbind_Inr_iff split: if_splits)

lemma image_share_step:
  "wip_step False w w' \<Longrightarrow> wip_ok w \<Longrightarrow> image_within_share w \<Longrightarrow> image_within_share w'"
proof (induction rule: wip_step.induct)
  case (acquire w lane owner)
  then show ?case
    using image_share_acquire [of "wip_budget w" lane owner] acquire_limits [of lane owner "wip_budget w"]
    by (auto simp: image_within_share_def wip_acquire_def wip_ok_def split: prod.splits option.splits)
next
  case (move w i p lane owner w')
  have "budget_ok (wip_budget w)" using move.prems by (simp add: wip_ok_def)
  from permit_move_budget [OF move.hyps(3)] show ?case
  proof
    assume mv: "budget_move (wp_permit_id p) (wp_lane p) (normalise_lane lane) (wip_budget w) =
        Inr (wip_budget w')"
    show ?thesis
      using image_share_move [OF \<open>budget_ok (wip_budget w)\<close> mv] move_limits [OF mv] move.hyps(2)
        move.prems(2) by (simp add: image_within_share_def)
  qed (use move.prems(2) in \<open>simp add: image_within_share_def\<close>)
next
  case (release i w)
  then show ?case using budget_release_lane [of "wip_budget w" i Image]
    by (simp add: image_within_share_def permit_release_budget_def budget_release_frame wip_ok_def)
qed (auto simp: image_within_share_def permit_release_mark_def compat_push_def compat_pop_def Let_def)

lemma image_share_reachable:
  "wip_reachable m r im w \<Longrightarrow> im = False \<Longrightarrow> image_within_share w"
proof (induction rule: wip_reachable.induct)
  case start
  show ?case by (auto simp: image_within_share_def wip_init_def work_budget_init_def Let_def)
next
  case (step w w')
  then show ?case using image_share_step wip_reachable_ok by blast
qed

text \<open>
  as long as no permit is moved into the image lane, the permits in the image lane leave
  the reserved slots to the other lanes in every reachable state.
\<close>

theorem image_lane_leaves_reserve:
  assumes "wip_reachable max_active reserved False w" and "2 \<le> max_active" and "0 \<le> reserved"
  shows "wb_by_lane (wip_budget w) Image \<le> max_active - min reserved (max_active - 1)"
  using image_share_reachable [OF assms(1)] wip_reachable_limits [OF assms(1)] assms(2,3)
  by (simp add: image_within_share_def)

theorem image_lane_leaves_reserve_witness:
  "wb_by_lane (wip_budget (snd (wip_acquire ''image'' ''job'' (wip_init 2 1)))) Image \<le> 2 - min 1 (2 - 1)"
  by (rule image_lane_leaves_reserve)
    (rule wip_reachable.step [OF wip_reachable.start wip_step.acquire], simp_all)

subsection \<open>Acquiring and releasing\<close>

text \<open>
  a slot is granted exactly when the budget is positive and not used up and, for the image
  lane, when more than the reserved slots are free; a granted permit is unreleased and belongs to
  the requested lane, and releasing it at once restores every count of the budget.
\<close>

theorem acquire_release_restores:
  assumes "wip_reachable max_active reserved into_image w"
  shows "case wip_acquire lane owner w of
      (None, w') \<Rightarrow> w' = w \<and>
        (wb_max_active (wip_budget w) \<le> wb_active (wip_budget w) \<or>
         normalise_lane lane = Image \<and>
         wb_max_active (wip_budget w) - wb_reserved_non_image (wip_budget w) \<le> wb_active (wip_budget w))
    | (Some p, w') \<Rightarrow>
        wb_active (wip_budget w) < wb_max_active (wip_budget w) \<and>
        wb_active (wip_budget w') = wb_active (wip_budget w) + 1 \<and>
        \<not> wp_released p \<and> wp_lane p = normalise_lane lane \<and>
        wip_permits w (wp_permit_id p) = None \<and> wip_permits w' (wp_permit_id p) = Some p \<and>
        wb_active (wip_budget (permit_release p w')) = wb_active (wip_budget w) \<and>
        wb_by_lane (wip_budget (permit_release p w')) = wb_by_lane (wip_budget w) \<and>
        wb_permit_lanes (wip_budget (permit_release p w')) = wb_permit_lanes (wip_budget w)"
proof (cases "fst (try_acquire lane owner (wip_budget w))")
  case None
  then have "snd (try_acquire lane owner (wip_budget w)) = wip_budget w"
    by (auto simp: try_acquire_def Let_def split: if_splits)
  moreover have "budget_ok (wip_budget w)" using wip_reachable_ok [OF assms] by (simp add: wip_ok_def)
  ultimately show ?thesis using None
    by (auto simp: wip_acquire_def try_acquire_def Let_def budget_ok_def split: prod.splits if_splits)
next
  case (Some p)
  have ok: "wip_ok w" using assms by (rule wip_reachable_ok)
  then have b: "budget_ok (wip_budget w)" by (simp add: wip_ok_def)
  have counts: "(f(l := f l + 1))(l := max 0 (f l)) = f" if "0 \<le> f l" for f :: "lane \<Rightarrow> int" and l
    using that by auto
  have "wip_permits w (wp_permit_id p) = None"
    using Some wip_ok_fresh [OF ok] by (auto simp: try_acquire_def Let_def split: if_splits)
  then show ?thesis
    using Some b budget_ok_fresh [OF b]
    by (auto simp: wip_acquire_def try_acquire_def Let_def permit_release_def permit_release_mark_def
        permit_release_budget_def budget_release_def dict_simps delete_update_same dpop_absent
        budget_ok_def fun_eq_iff split: if_splits)
qed

theorem acquire_release_restores_witness:
  "let w = wip_init 2 1 in
   case wip_acquire ''remux'' ''job'' w of
      (None, w') \<Rightarrow> w' = w \<and>
        (wb_max_active (wip_budget w) \<le> wb_active (wip_budget w) \<or>
         normalise_lane ''remux'' = Image \<and>
         wb_max_active (wip_budget w) - wb_reserved_non_image (wip_budget w) \<le> wb_active (wip_budget w))
    | (Some p, w') \<Rightarrow>
        wb_active (wip_budget w) < wb_max_active (wip_budget w) \<and>
        wb_active (wip_budget w') = wb_active (wip_budget w) + 1 \<and>
        \<not> wp_released p \<and> wp_lane p = normalise_lane ''remux'' \<and>
        wip_permits w (wp_permit_id p) = None \<and> wip_permits w' (wp_permit_id p) = Some p \<and>
        wb_active (wip_budget (permit_release p w')) = wb_active (wip_budget w) \<and>
        wb_by_lane (wip_budget (permit_release p w')) = wb_by_lane (wip_budget w) \<and>
        wb_permit_lanes (wip_budget (permit_release p w')) = wb_permit_lanes (wip_budget w)"
  unfolding Let_def by (rule acquire_release_restores [OF wip_reachable.start])

section \<open>The budget as a slot pool\<close>

text \<open>
  Between releases the budget is a slot pool whose requests all draw on the one active count; an
  image request has the smaller cap.
\<close>

definition request_cap :: "wip \<Rightarrow> string \<times> string \<Rightarrow> int" where
  "request_cap w r =
     (if normalise_lane (fst r) = Image then wb_max_active (wip_budget w) - wb_reserved_non_image (wip_budget w)
      else wb_max_active (wip_budget w))"

definition wip_take :: "string \<times> string \<Rightarrow> wip \<Rightarrow> int option \<times> wip" where
  "wip_take r w =
     (map_option wp_permit_id (fst (wip_acquire (fst r) (snd r) w)), snd (wip_acquire (fst r) (snd r) w))"

definition wip_give :: "int \<Rightarrow> wip \<Rightarrow> wip" where
  "wip_give i w = (case wip_permits w i of None \<Rightarrow> w | Some p \<Rightarrow> permit_release p w)"

definition wip_holds :: "wip \<Rightarrow> int \<Rightarrow> bool" where
  "wip_holds w i \<longleftrightarrow> (case wip_permits w i of None \<Rightarrow> False | Some p \<Rightarrow> \<not> wp_released p)"

lemma wip_take_None:
  assumes "wip_ok w" and "wip_take r w = (None, w')"
  shows "w' = w" and "request_cap w r \<le> wb_active (wip_budget w)"
  using assms
  by (auto simp: wip_take_def wip_acquire_def try_acquire_def request_cap_def Let_def wip_ok_def
      budget_ok_def split: prod.splits option.splits if_splits)

lemma wip_take_Some:
  assumes "wip_ok w" and "wip_take r w = (Some i, w')"
  shows "wip_ok w'" and "wip_holds w' i" and "wip_releasing w' = wip_releasing w"
    and "wb_active (wip_budget w) < request_cap w r"
    and "wb_active (wip_budget w') = wb_active (wip_budget w) + 1" and "request_cap w' = request_cap w"
    and "wb_max_active (wip_budget w') = wb_max_active (wip_budget w)"
proof -
  show "wip_ok w'" using wip_ok_acquire [of w "fst r" "snd r"] assms by (simp add: wip_take_def)
qed (use assms in \<open>auto simp: wip_take_def wip_acquire_def try_acquire_def request_cap_def wip_holds_def
      Let_def fun_eq_iff wip_ok_def budget_ok_def split: prod.splits option.splits if_splits\<close>)

lemma wip_give_held:
  assumes ok: "wip_ok w" "wip_releasing w = {}" and held: "wip_holds w i"
  shows "wip_ok (wip_give i w)" and "wip_releasing (wip_give i w) = {}"
    and "\<not> wip_holds (wip_give i w) i"
    and "wb_active (wip_budget (wip_give i w)) = wb_active (wip_budget w) - 1"
    and "request_cap (wip_give i w) = request_cap w"
    and "wb_max_active (wip_budget (wip_give i w)) = wb_max_active (wip_budget w)"
proof -
  obtain p where p: "wip_permits w i = Some p" "\<not> wp_released p"
    using held by (auto simp: wip_holds_def split: option.splits)
  then have pok: "wp_permit_id p = i" "dget (wb_permit_lanes (wip_budget w)) i = Some (wp_lane p)"
    using ok by (auto simp: wip_ok_def permit_ok_def)
  have give: "wip_give i w = permit_release_budget i (permit_release_mark p w)"
    using p pok by (simp add: wip_give_def permit_release_def)
  have "i \<in> wip_releasing (permit_release_mark p w)" using p pok by (simp add: permit_release_mark_def)
  then show "wip_ok (wip_give i w)"
    unfolding give by (intro wip_ok_release wip_ok_mark [OF ok(1) p(1)])
  show "wip_releasing (wip_give i w) = {}" and "\<not> wip_holds (wip_give i w) i"
    using p pok ok(2)
    by (simp_all add: give permit_release_budget_def permit_release_mark_def wip_holds_def)
  have "0 < wb_active (wip_budget w)" using pok(2) ok(1) by (cases "wb_permit_lanes (wip_budget w)")
      (auto simp: wip_ok_def budget_ok_def)
  then show "wb_active (wip_budget (wip_give i w)) = wb_active (wip_budget w) - 1"
    using p pok by (simp add: give permit_release_budget_def permit_release_mark_def budget_release_def)
  show "request_cap (wip_give i w) = request_cap w"
    and "wb_max_active (wip_budget (wip_give i w)) = wb_max_active (wip_budget w)"
    using p pok by (simp_all add: give permit_release_budget_def permit_release_mark_def
        budget_release_frame request_cap_def fun_eq_iff)
qed

interpretation work_pool: slot_pool
  "\<lambda>w. wip_ok w \<and> wip_releasing w = {}" "\<lambda>w. wb_max_active (wip_budget w)" request_cap
  "\<lambda>w (_::unit). wb_active (wip_budget w)" wip_take wip_give wip_holds "\<lambda>_. ()" "\<lambda>_. ()"
proof (unfold_locales, goal_cases)
  case (1 w r)
  then show ?case by (auto simp: request_cap_def wip_ok_def budget_ok_def)
next
  case (2 w r p w')
  with wip_take_Some [of w r p w'] show ?case by (auto simp: fun_eq_iff)
next
  case (3 w r w')
  with wip_take_None [of w r w'] show ?case by auto
next
  case (4 w p)
  with wip_give_held [of w p] show ?case by (auto simp: fun_eq_iff)
next
  case (5 w p)
  then show ?case
    by (auto simp: wip_give_def wip_holds_def permit_release_def split: option.splits)
qed

text \<open>
  when a thread releases its permit, a request for any lane but the image lane is granted
  next, and a second release of the same permit changes nothing.
\<close>

theorem released_slot_is_granted:
  assumes "wip_reachable max_active reserved into_image w" and "wip_releasing w = {}"
    and "wip_permits w i = Some p" and "wp_released p = False" and "normalise_lane lane \<noteq> Image"
  shows "let w' = permit_release p w
    in fst (wip_acquire lane owner w') \<noteq> None \<and> wip_permits w' i = Some (p\<lparr>wp_released := True\<rparr>) \<and>
       permit_release (p\<lparr>wp_released := True\<rparr>) w' = w'"
proof -
  have ok: "wip_ok w \<and> wip_releasing w = {}" using wip_reachable_ok [OF assms(1)] assms(2) by simp
  have held: "wip_holds w i" using assms(3,4) by (simp add: wip_holds_def)
  have give: "wip_give i w = permit_release p w" using assms(3) by (simp add: wip_give_def)
  have "wp_permit_id p = i" using ok assms(3) by (auto simp: wip_ok_def permit_ok_def)
  then have "wip_permits (permit_release p w) i = Some (p\<lparr>wp_released := True\<rparr>)"
    using assms(4) by (simp add: permit_release_def permit_release_budget_def permit_release_mark_def)
  moreover have "wb_active (wip_budget w) \<le> request_cap w (lane, owner)"
    using ok assms(5) by (simp add: request_cap_def wip_ok_def budget_ok_def)
  then have "fst (wip_acquire lane owner (permit_release p w)) \<noteq> None"
    using work_pool.return_admits [OF ok held, of "(lane, owner)"] give by (simp add: wip_take_def)
  ultimately show ?thesis by (simp add: permit_release_def Let_def)
qed

theorem released_slot_is_granted_witness:
  "let w = snd (wip_acquire ''remux'' ''job'' (wip_init 1 0));
       p = \<lparr>wp_permit_id = 1, wp_lane = Remux, wp_owner = ''job'', wp_released = False\<rparr>;
       w' = permit_release p w
   in fst (wip_acquire ''finalizer'' ''next'' w) = None \<and>
      fst (wip_acquire ''finalizer'' ''next'' w') \<noteq> None \<and>
      wip_permits w' 1 = Some (p\<lparr>wp_released := True\<rparr>) \<and> permit_release (p\<lparr>wp_released := True\<rparr>) w' = w'"
proof -
  let ?w = "snd (wip_acquire ''remux'' ''job'' (wip_init 1 0))"
  let ?p = "\<lparr>wp_permit_id = 1, wp_lane = Remux, wp_owner = ''job'', wp_released = False\<rparr>"
  have lanes: "normalise_lane ''remux'' = Remux" "normalise_lane ''finalizer'' = Finalizer" by code_simp+
  have r: "wip_reachable 1 0 False ?w" by (rule wip_reachable.step [OF wip_reachable.start wip_step.acquire])
  have "wip_releasing ?w = {}" "wip_permits ?w 1 = Some ?p" "fst (wip_acquire ''finalizer'' ''next'' ?w) = None"
    by (simp_all add: wip_acquire_def try_acquire_def wip_init_def work_budget_init_def Let_def lanes)
  with released_slot_is_granted [OF r this(1,2), of "''finalizer''" "''next''"] lanes
  show ?thesis by (simp add: Let_def)
qed

end
