(* ===== verification/SourceSlots.thy ===== *)
theory SourceSlots
  imports SlotPool
begin

text \<open>
  \<open>SourceSlotRegistry\<close> and \<open>SourcePermit\<close> of
  \<^verbatim>\<open>services/media-worker/app/materialization_scheduler.py\<close>: at most a fixed number
  of concurrent slots per source, kept over the whole life of the process.
\<close>

section \<open>Registry\<close>

record source_registry =
  sr_per_source_limit :: int
  sr_active :: "(string, int) dict"
  sr_generation :: "(string, int) dict"

record source_permit =
  sp_source_id :: string
  sp_generation :: int

definition source_registry_init :: "int \<Rightarrow> source_registry" where
  "source_registry_init limit =
     \<lparr>sr_per_source_limit = max 1 limit, sr_active = [], sr_generation = []\<rparr>"

definition source_key :: "string \<Rightarrow> string" where
  "source_key source_id = (if source_id = [] then ''__unknown__'' else source_id)"

definition source_try_acquire ::
  "string \<Rightarrow> source_registry \<Rightarrow> source_permit option \<times> source_registry" where
  "source_try_acquire source_id r =
     (let key = source_key source_id; active = dget_or (sr_active r) key 0
      in if sr_per_source_limit r \<le> active then (None, r)
         else
           (let generation = dget_or (sr_generation r) key 0 + 1
            in (Some \<lparr>sp_source_id = key, sp_generation = generation\<rparr>,
                r\<lparr>sr_generation := dset key generation (sr_generation r),
                  sr_active := dset key (active + 1) (sr_active r)\<rparr>)))"

definition saturated_sources :: "source_registry \<Rightarrow> string list" where
  "saturated_sources r =
     map fst (filter (\<lambda>(_, active). sr_per_source_limit r \<le> active) (sr_active r))"

definition source_release :: "string \<Rightarrow> source_registry \<Rightarrow> source_registry" where
  "source_release source_id r =
     (let active = dget_or (sr_active r) source_id 0
      in r\<lparr>sr_active := dset source_id (max 0 (active - 1)) (sr_active r)\<rparr>)"

definition source_registry_snapshot :: "source_registry \<Rightarrow> (string \<times> int) list" where
  "source_registry_snapshot r =
     [(''per_source_limit'', sr_per_source_limit r),
      (''known_sources'', int (length (sr_generation r))),
      (''active_sources'', int (length (filter (\<lambda>(_, v). v \<noteq> 0) (sr_active r)))),
      (''active'', sum_list (map snd (sr_active r)))]"

section \<open>Permits\<close>

text \<open>
  The registry with the released flags of the permits it granted.  A release marks the permit
  under the permit's lock and then enters the registry's lock; \<open>ss_releasing\<close> holds the
  permits in between.
\<close>

record source_slots =
  ss_registry :: source_registry
  ss_released :: "source_permit \<rightharpoonup> bool"
  ss_releasing :: "source_permit set"

definition source_slots_init :: "int \<Rightarrow> source_slots" where
  "source_slots_init limit =
     \<lparr>ss_registry = source_registry_init limit, ss_released = Map.empty, ss_releasing = {}\<rparr>"

definition slots_acquire :: "string \<Rightarrow> source_slots \<Rightarrow> source_permit option \<times> source_slots" where
  "slots_acquire source_id s =
     (case source_try_acquire source_id (ss_registry s) of
        (None, r) \<Rightarrow> (None, s\<lparr>ss_registry := r\<rparr>)
      | (Some p, r) \<Rightarrow> (Some p, s\<lparr>ss_registry := r, ss_released := (ss_released s)(p \<mapsto> False)\<rparr>))"

definition source_permit_mark :: "source_permit \<Rightarrow> source_slots \<Rightarrow> source_slots" where
  "source_permit_mark p s =
     (if ss_released s p = Some False
      then s\<lparr>ss_released := (ss_released s)(p \<mapsto> True), ss_releasing := insert p (ss_releasing s)\<rparr>
      else s)"

definition source_permit_return :: "source_permit \<Rightarrow> source_slots \<Rightarrow> source_slots" where
  "source_permit_return p s =
     (if p \<in> ss_releasing s
      then s\<lparr>ss_registry := source_release (sp_source_id p) (ss_registry s),
             ss_releasing := ss_releasing s - {p}\<rparr>
      else s)"

text \<open>\<open>SourcePermit.release\<close> when no other thread runs between its two regions.\<close>

definition source_permit_release :: "source_permit \<Rightarrow> source_slots \<Rightarrow> source_slots" where
  "source_permit_release p s =
     (if ss_released s p = Some False then source_permit_return p (source_permit_mark p s) else s)"

datatype source_event = Acquire_Source string | Mark_Source source_permit | Return_Source source_permit

fun source_step :: "source_event \<Rightarrow> source_slots \<Rightarrow> source_slots" where
  "source_step (Acquire_Source source_id) s = snd (slots_acquire source_id s)"
| "source_step (Mark_Source p) s = source_permit_mark p s"
| "source_step (Return_Source p) s = source_permit_return p s"

section \<open>Invariant\<close>

definition source_held :: "source_slots \<Rightarrow> string \<Rightarrow> source_permit set" where
  "source_held s k =
     {p. sp_source_id p = k \<and> (ss_released s p = Some False \<or> p \<in> ss_releasing s)}"

definition source_active :: "source_slots \<Rightarrow> string \<Rightarrow> int" where
  "source_active s k = dget_or (sr_active (ss_registry s)) k 0"

definition source_slots_ok :: "source_slots \<Rightarrow> bool" where
  "source_slots_ok s \<longleftrightarrow>
     dict_ok (sr_active (ss_registry s)) \<and>
     1 \<le> sr_per_source_limit (ss_registry s) \<and>
     (\<forall>k. finite (source_held s k)) \<and>
     (\<forall>k. source_active s k = int (card (source_held s k))) \<and>
     (\<forall>k. int (card (source_held s k)) \<le> sr_per_source_limit (ss_registry s)) \<and>
     (\<forall>p \<in> dom (ss_released s) \<union> ss_releasing s.
          sp_generation p \<le> dget_or (sr_generation (ss_registry s)) (sp_source_id p) 0) \<and>
     (\<forall>p \<in> ss_releasing s. ss_released s p = Some True)"

lemma source_slots_ok_init: "source_slots_ok (source_slots_init limit)"
  by (auto simp: source_slots_ok_def source_slots_init_def source_registry_init_def source_held_def
      source_active_def)

lemma source_slots_ok_fresh:
  "source_slots_ok s \<Longrightarrow>
   p = \<lparr>sp_source_id = k, sp_generation = dget_or (sr_generation (ss_registry s)) k 0 + 1\<rparr> \<Longrightarrow>
   ss_released s p = None \<and> p \<notin> ss_releasing s"
  unfolding source_slots_ok_def by (metis Un_iff domIff less_add_one linorder_not_less source_permit.simps(1,2))

lemma source_slots_ok_acquire:
  assumes ok: "source_slots_ok s"
  shows "source_slots_ok (snd (slots_acquire source_id s))"
proof (cases "fst (source_try_acquire source_id (ss_registry s))")
  case None
  then have "source_try_acquire source_id (ss_registry s) = (None, ss_registry s)"
    by (auto simp: source_try_acquire_def Let_def split: if_splits)
  with ok show ?thesis by (simp add: slots_acquire_def)
next
  case (Some p)
  let ?k = "source_key source_id"
  let ?s = "snd (slots_acquire source_id s)"
  have p: "p = \<lparr>sp_source_id = ?k, sp_generation = dget_or (sr_generation (ss_registry s)) ?k 0 + 1\<rparr>"
    and below: "source_active s ?k < sr_per_source_limit (ss_registry s)"
    and s': "?s = s\<lparr>ss_registry := (ss_registry s)\<lparr>
        sr_generation := dset ?k (dget_or (sr_generation (ss_registry s)) ?k 0 + 1)
          (sr_generation (ss_registry s)),
        sr_active := dset ?k (source_active s ?k + 1) (sr_active (ss_registry s))\<rparr>,
        ss_released := (ss_released s)(p \<mapsto> False)\<rparr>"
    using Some
    by (auto simp: source_try_acquire_def slots_acquire_def source_active_def Let_def split: if_splits)
  have fresh: "ss_released s p = None" "p \<notin> ss_releasing s"
    using source_slots_ok_fresh [OF ok p] by auto
  have held: "source_held ?s k = (if k = ?k then insert p (source_held s k) else source_held s k)" for k
    using p s' fresh by (auto simp: source_held_def)
  have new: "p \<notin> source_held s ?k" using fresh by (simp add: source_held_def)
  have gen: "\<forall>q \<in> dom (ss_released ?s) \<union> ss_releasing ?s.
      sp_generation q \<le> dget_or (sr_generation (ss_registry ?s)) (sp_source_id q) 0"
  proof
    fix q assume q: "q \<in> dom (ss_released ?s) \<union> ss_releasing ?s"
    show "sp_generation q \<le> dget_or (sr_generation (ss_registry ?s)) (sp_source_id q) 0"
    proof (cases "q = p")
      case False
      with q s' have "q \<in> dom (ss_released s) \<union> ss_releasing s" by auto
      with ok have "sp_generation q \<le> dget_or (sr_generation (ss_registry s)) (sp_source_id q) 0"
        by (auto simp: source_slots_ok_def)
      then show ?thesis using s' by (auto simp: dict_simps)
    qed (use p s' in \<open>simp add: dict_simps\<close>)
  qed
  have fin: "\<forall>k. finite (source_held ?s k)" using ok by (simp add: held source_slots_ok_def)
  have act: "source_active ?s k = int (card (source_held ?s k))" for k
  proof -
    have "source_active ?s k = (if k = ?k then source_active s k + 1 else source_active s k)"
      using s' by (simp add: source_active_def dict_simps)
    then show ?thesis using ok new by (simp add: held source_slots_ok_def)
  qed
  have cap: "int (card (source_held ?s k)) \<le> sr_per_source_limit (ss_registry ?s)" for k
  proof -
    have "sr_per_source_limit (ss_registry ?s) = sr_per_source_limit (ss_registry s)" using s' by simp
    then show ?thesis using ok below new by (simp add: held source_slots_ok_def)
  qed
  have rest: "dict_ok (sr_active (ss_registry ?s))" "1 \<le> sr_per_source_limit (ss_registry ?s)"
    "\<forall>q \<in> ss_releasing ?s. ss_released ?s q = Some True"
    using ok fresh s' by (auto simp: source_slots_ok_def)
  show ?thesis
    unfolding source_slots_ok_def using fin act cap gen rest by blast
qed

lemma source_held_mark: "source_held (source_permit_mark p s) k = source_held s k"
  by (auto simp: source_held_def source_permit_mark_def)

lemma source_slots_ok_mark:
  "source_slots_ok s \<Longrightarrow> source_slots_ok (source_permit_mark p s)"
proof -
  assume ok: "source_slots_ok s"
  have reg: "ss_registry (source_permit_mark p s) = ss_registry s"
    by (simp add: source_permit_mark_def)
  show ?thesis
    using ok
    by (simp add: source_slots_ok_def source_held_mark source_active_def reg)
      (auto simp: source_permit_mark_def)
qed

lemma source_held_return:
  "source_slots_ok s \<Longrightarrow> p \<in> ss_releasing s \<Longrightarrow>
   source_held (source_permit_return p s) k =
     (if k = sp_source_id p then source_held s k - {p} else source_held s k)"
  by (auto simp: source_held_def source_permit_return_def source_slots_ok_def)

lemma source_active_return:
  "source_slots_ok s \<Longrightarrow> p \<in> ss_releasing s \<Longrightarrow>
   source_active (source_permit_return p s) k =
     (if k = sp_source_id p then source_active s k - 1 else source_active s k)"
proof -
  assume ok: "source_slots_ok s" and p: "p \<in> ss_releasing s"
  then have "p \<in> source_held s (sp_source_id p)" by (simp add: source_held_def)
  with ok have "0 < source_active s (sp_source_id p)"
    by (auto simp: source_slots_ok_def card_gt_0_iff)
  with p show ?thesis
    by (auto simp: source_active_def source_permit_return_def source_release_def Let_def dict_simps)
qed

lemma source_slots_ok_return:
  assumes ok: "source_slots_ok s"
  shows "source_slots_ok (source_permit_return p s)"
proof (cases "p \<in> ss_releasing s")
  case True
  have mem: "p \<in> source_held s (sp_source_id p)" using True by (simp add: source_held_def)
  let ?s = "source_permit_return p s"
  have fin: "finite (source_held ?s k)" for k
    using ok by (simp add: source_held_return [OF ok True] source_slots_ok_def)
  have pos: "0 < card (source_held s (sp_source_id p))"
    using mem ok by (auto simp: source_slots_ok_def card_gt_0_iff)
  have act: "source_active ?s k = int (card (source_held ?s k))" for k
    using ok mem pos
    by (simp add: source_held_return [OF ok True] source_active_return [OF ok True]
        source_slots_ok_def card_Diff_singleton of_nat_diff Suc_le_eq)
  have cap: "int (card (source_held ?s k)) \<le> sr_per_source_limit (ss_registry s)" for k
  proof -
    have "card (source_held ?s k) \<le> card (source_held s k)"
      using ok by (intro card_mono) (auto simp: source_held_return [OF ok True] source_slots_ok_def)
    moreover have "int (card (source_held s k)) \<le> sr_per_source_limit (ss_registry s)"
      using ok by (simp add: source_slots_ok_def)
    ultimately show ?thesis by linarith
  qed
  have rest: "dict_ok (sr_active (ss_registry ?s))" "ss_released ?s = ss_released s"
    "ss_releasing ?s = ss_releasing s - {p}" "sr_generation (ss_registry ?s) = sr_generation (ss_registry s)"
    "sr_per_source_limit (ss_registry ?s) = sr_per_source_limit (ss_registry s)"
    using ok True
    by (simp_all add: source_permit_return_def source_release_def Let_def source_slots_ok_def)
  show ?thesis
    unfolding source_slots_ok_def rest
    using fin act cap ok rest(1) by (auto simp: source_slots_ok_def)
qed (use ok in \<open>simp add: source_permit_return_def\<close>)

lemma source_slots_ok_step: "source_slots_ok s \<Longrightarrow> source_slots_ok (source_step e s)"
  by (cases e)
    (auto intro: source_slots_ok_acquire source_slots_ok_mark source_slots_ok_return)

interpretation source_slots: transition_system "source_slots_init limit" source_step source_slots_ok
  by unfold_locales (auto intro: source_slots_ok_init source_slots_ok_step)

section \<open>The registry as a slot pool\<close>

definition source_pool_ok :: "source_slots \<Rightarrow> bool" where
  "source_pool_ok s \<longleftrightarrow> source_slots_ok s \<and> ss_releasing s = {}"

lemma slots_acquire_cases:
  "slots_acquire source_id s = (None, s') \<Longrightarrow>
     s' = s \<and> sr_per_source_limit (ss_registry s) \<le> source_active s (source_key source_id)"
  "slots_acquire source_id s = (Some p, s') \<Longrightarrow>
     source_active s (source_key source_id) < sr_per_source_limit (ss_registry s) \<and>
     sp_source_id p = source_key source_id \<and> ss_released s' = (ss_released s)(p \<mapsto> False) \<and>
     ss_releasing s' = ss_releasing s \<and>
     source_active s' = (source_active s)(source_key source_id := source_active s (source_key source_id) + 1) \<and>
     sr_per_source_limit (ss_registry s') = sr_per_source_limit (ss_registry s)"
  by (auto simp: slots_acquire_def source_try_acquire_def source_active_def Let_def dict_simps
      fun_eq_iff split: if_splits)

lemma source_permit_release_unfold:
  "source_permit_release p s =
     (if ss_released s p = Some False
      then s\<lparr>ss_released := (ss_released s)(p \<mapsto> True),
             ss_registry := source_release (sp_source_id p) (ss_registry s),
             ss_releasing := ss_releasing s - {p}\<rparr>
      else s)"
  by (simp add: source_permit_release_def source_permit_mark_def source_permit_return_def)

lemma source_pool_release:
  assumes ok: "source_pool_ok s" and p: "ss_released s p = Some False"
  shows "source_pool_ok (source_permit_release p s)"
    and "ss_released (source_permit_release p s) p = Some True"
    and "source_active (source_permit_release p s) =
      (source_active s)(sp_source_id p := source_active s (sp_source_id p) - 1)"
    and "sr_per_source_limit (ss_registry (source_permit_release p s)) = sr_per_source_limit (ss_registry s)"
proof -
  let ?m = "source_permit_mark p s"
  have r: "source_permit_release p s = source_permit_return p ?m"
    using p by (simp add: source_permit_release_def)
  have m: "source_slots_ok ?m" using ok by (simp add: source_pool_ok_def source_slots_ok_mark)
  have m': "p \<in> ss_releasing ?m" "source_active ?m = source_active s"
    using p by (auto simp: source_permit_mark_def source_active_def fun_eq_iff)
  have "ss_releasing (source_permit_release p s) = {}"
    using ok p by (simp add: source_permit_release_unfold source_pool_ok_def)
  then show "source_pool_ok (source_permit_release p s)"
    using source_slots_ok_return [OF m, of p] r by (simp add: source_pool_ok_def)
  show "source_active (source_permit_release p s) =
      (source_active s)(sp_source_id p := source_active s (sp_source_id p) - 1)"
    unfolding r using source_active_return [OF m m'(1)] m'(2) by (auto simp: fun_eq_iff)
  show "ss_released (source_permit_release p s) p = Some True"
    and "sr_per_source_limit (ss_registry (source_permit_release p s)) = sr_per_source_limit (ss_registry s)"
    using p by (simp_all add: source_permit_release_unfold source_release_def Let_def)
qed

interpretation source_pool: slot_pool
  source_pool_ok "\<lambda>s. sr_per_source_limit (ss_registry s)" "\<lambda>s _. sr_per_source_limit (ss_registry s)"
  source_active slots_acquire source_permit_release "\<lambda>s p. ss_released s p = Some False"
  source_key sp_source_id
proof (unfold_locales, goal_cases)
  case (2 s r p s')
  then have "source_slots_ok s'"
    using source_slots_ok_acquire [of s r] by (simp add: source_pool_ok_def)
  with 2 slots_acquire_cases(2) [of r s p s'] show ?case by (auto simp: source_pool_ok_def fun_eq_iff)
next
  case (3 s r s')
  with slots_acquire_cases(1) [of r s s'] show ?case by auto
next
  case (4 s p)
  with source_pool_release [of s p] show ?case by (auto simp: fun_eq_iff)
next
  case (5 s p)
  then show ?case by (simp add: source_permit_release_def)
qed simp

section \<open>Properties\<close>

text \<open>
  whatever the threads do, in any interleaving of acquisitions and of the two regions of a
  release, a source never has more permits in use than the per-source limit, and the count the
  registry keeps for it is the number of its permits that are not yet returned.
\<close>

theorem source_cap_kept:
  "let s = fold source_step es (source_slots_init limit);
       used = {p. sp_source_id p = k \<and> (ss_released s p = Some False \<or> p \<in> ss_releasing s)}
   in finite used \<and> source_active s k = int (card used) \<and> int (card used) \<le> max 1 limit"
proof -
  let ?s = "fold source_step es (source_slots_init limit)"
  have step: "sr_per_source_limit (ss_registry (source_step e s)) = sr_per_source_limit (ss_registry s)"
    for e s
    by (cases e) (auto simp: slots_acquire_def source_try_acquire_def source_permit_mark_def
        source_permit_return_def source_release_def Let_def split: prod.splits option.splits)
  have "sr_per_source_limit (ss_registry (fold source_step es s)) = sr_per_source_limit (ss_registry s)" for s
    by (induction es arbitrary: s) (simp_all add: step)
  then have "sr_per_source_limit (ss_registry ?s) = max 1 limit"
    by (simp add: source_slots_init_def source_registry_init_def)
  with source_slots.run [of es limit] show ?thesis
    by (simp add: source_slots_ok_def source_held_def Let_def)
qed

text \<open>
  the sources that the scheduler skips as saturated are exactly the sources whose next
  acquisition would be refused.
\<close>

theorem saturated_iff_refused:
  "let s = fold source_step es (source_slots_init limit)
   in (source_key source_id \<in> set (saturated_sources (ss_registry s))) =
      (fst (slots_acquire source_id s) = None)"
proof -
  let ?s = "fold source_step es (source_slots_init limit)"
  let ?k = "source_key source_id"
  have ok: "dict_ok (sr_active (ss_registry ?s))" "1 \<le> sr_per_source_limit (ss_registry ?s)"
    using source_slots.run [of es limit] by (simp_all add: source_slots_ok_def)
  have "?k \<in> set (saturated_sources (ss_registry ?s)) \<longleftrightarrow>
      (\<exists>a. dget (sr_active (ss_registry ?s)) ?k = Some a \<and> sr_per_source_limit (ss_registry ?s) \<le> a)"
    using ok(1) by (force simp: saturated_sources_def dict_ok_def dest: map_of_SomeD)
  also have "\<dots> \<longleftrightarrow> sr_per_source_limit (ss_registry ?s) \<le> source_active ?s ?k"
    using ok(2) by (auto simp: source_active_def dget_or_def split: option.splits)
  also have "\<dots> \<longleftrightarrow> fst (slots_acquire source_id ?s) = None"
    by (simp add: slots_acquire_def source_try_acquire_def source_active_def Let_def)
  finally show ?thesis by (simp add: Let_def)
qed

text \<open>
  releasing a permit frees its slot at once and only once: after an uninterrupted release the
  source's next request is granted, and releasing the permit again changes nothing.
\<close>

theorem source_release_frees_slot:
  assumes "source_slots_ok s" and "ss_releasing s = {}" and "ss_released s p = Some False"
    and "source_key source_id = sp_source_id p"
  shows "fst (slots_acquire source_id (source_permit_release p s)) \<noteq> None \<and>
    source_permit_release p (source_permit_release p s) = source_permit_release p s"
proof -
  have ok: "source_pool_ok s" using assms by (simp add: source_pool_ok_def)
  have "source_active s (sp_source_id p) \<le> sr_per_source_limit (ss_registry s)"
    using assms(1) by (simp add: source_slots_ok_def)
  then show ?thesis
    using source_pool.return_admits [OF ok assms(3,4)] source_pool.return_once [OF ok] by blast
qed

theorem source_release_frees_slot_witness:
  "let s = snd (slots_acquire ''camera'' (source_slots_init 1));
       p = \<lparr>sp_source_id = ''camera'', sp_generation = 1\<rparr>
   in fst (slots_acquire ''camera'' s) = None \<and>
      fst (slots_acquire ''camera'' (source_permit_release p s)) \<noteq> None \<and>
      source_permit_release p (source_permit_release p s) = source_permit_release p s"
proof -
  let ?s = "snd (slots_acquire ''camera'' (source_slots_init 1))"
  let ?p = "\<lparr>sp_source_id = ''camera'', sp_generation = 1\<rparr>"
  have ok: "source_slots_ok ?s" by (intro source_slots_ok_acquire source_slots_ok_init)
  have "ss_releasing ?s = {}" "ss_released ?s ?p = Some False" "fst (slots_acquire ''camera'' ?s) = None"
    "source_key ''camera'' = sp_source_id ?p"
    by (simp_all add: slots_acquire_def source_try_acquire_def source_slots_init_def
        source_registry_init_def source_key_def Let_def dict_simps dget_or_def)
  with source_release_frees_slot [OF ok this(1,2,4)] show ?thesis by (simp add: Let_def)
qed

end
