(* ===== verification/Lanes.thy ===== *)
theory Lanes
  imports SlotPool PyValue
begin

text \<open>
  \<open>BoundedExecutorLane\<close>, \<open>_LaneTicket\<close> and \<open>LaneReservation\<close> of
  \<^verbatim>\<open>services/media-worker/app/materialization_scheduler.py\<close>.  A lane admits a
  reservation before any durable claim: a bounded semaphore counts the free places, the lane's
  counters count what happens to the places in use, and every region under a lock is one step.
  A thread that is between two regions of a method is part of the state.
\<close>

section \<open>State\<close>

datatype lane_phase = Running | Closing | Closed

text \<open>The semaphore is its value; \<open>BoundedSemaphore\<close> refuses to exceed its initial value.\<close>

record exec_lane =
  el_name :: string
  el_max_workers :: int
  el_queue_capacity :: int
  el_capacity :: int
  el_semaphore :: int
  el_state :: lane_phase
  el_reserved :: int
  el_queued :: int
  el_active :: int
  el_submitted_total :: int
  el_rejected_total :: int
  el_executor_create_count :: int

definition exec_lane_init :: "string \<Rightarrow> int \<Rightarrow> int \<Rightarrow> exec_lane" where
  "exec_lane_init name max_workers queue_capacity =
     (let w = max 1 max_workers; q = max 0 queue_capacity
      in \<lparr>el_name = name, el_max_workers = w, el_queue_capacity = q, el_capacity = w + q,
          el_semaphore = w + q, el_state = Running, el_reserved = 0, el_queued = 0, el_active = 0,
          el_submitted_total = 0, el_rejected_total = 0, el_executor_create_count = 1\<rparr>)"

record lane_ticket =
  lt_submitted :: bool
  lt_started :: bool
  lt_released :: bool

definition lane_ticket_init :: lane_ticket where
  "lane_ticket_init = \<lparr>lt_submitted = False, lt_started = False, lt_released = False\<rparr>"

section \<open>The regions of the methods\<close>

text \<open>\<open>BoundedSemaphore.acquire(blocking=False)\<close> and \<open>BoundedSemaphore.release()\<close>\<close>

definition semaphore_take :: "exec_lane \<Rightarrow> exec_lane option" where
  "semaphore_take l = (if el_semaphore l \<le> 0 then None else Some (l\<lparr>el_semaphore := el_semaphore l - 1\<rparr>))"

definition semaphore_put :: "exec_lane \<Rightarrow> exec_lane result" where
  "semaphore_put l =
     (if el_capacity l \<le> el_semaphore l then Inl (Value_Error ''Semaphore released too many times'')
      else Inr (l\<lparr>el_semaphore := el_semaphore l + 1\<rparr>))"

definition lane_reject :: "exec_lane \<Rightarrow> exec_lane" where
  "lane_reject l = l\<lparr>el_rejected_total := el_rejected_total l + 1\<rparr>"

definition lane_admit :: "exec_lane \<Rightarrow> exec_lane" where
  "lane_admit l = l\<lparr>el_reserved := el_reserved l + 1\<rparr>"

definition lane_mark_submitted :: "exec_lane \<Rightarrow> exec_lane" where
  "lane_mark_submitted l =
     l\<lparr>el_queued := el_queued l + 1, el_submitted_total := el_submitted_total l + 1\<rparr>"

definition lane_mark_started :: "exec_lane \<Rightarrow> exec_lane" where
  "lane_mark_started l = l\<lparr>el_queued := max 0 (el_queued l - 1), el_active := el_active l + 1\<rparr>"

text \<open>The region under the lock of \<open>_release_ticket\<close>; the semaphore is released after it.\<close>

definition lane_release_counts :: "bool \<Rightarrow> bool \<Rightarrow> exec_lane \<Rightarrow> exec_lane" where
  "lane_release_counts submitted started l =
     (let l1 = l\<lparr>el_reserved := max 0 (el_reserved l - 1)\<rparr>;
          l2 = (if submitted \<and> \<not> started then l1\<lparr>el_queued := max 0 (el_queued l1 - 1)\<rparr> else l1)
      in if started then l2\<lparr>el_active := max 0 (el_active l2 - 1)\<rparr> else l2)"

definition ticket_set_submitted :: "lane_ticket \<Rightarrow> lane_ticket result" where
  "ticket_set_submitted t =
     (if lt_released t then Inl (Runtime_Error ''lane reservation already released'')
      else if lt_submitted t then Inl (Runtime_Error ''lane reservation already submitted'')
      else Inr (t\<lparr>lt_submitted := True\<rparr>))"

definition ticket_set_started :: "lane_ticket \<Rightarrow> lane_ticket option" where
  "ticket_set_started t = (if lt_released t then None else Some (t\<lparr>lt_started := True\<rparr>))"

definition ticket_set_released :: "lane_ticket \<Rightarrow> lane_ticket option" where
  "ticket_set_released t = (if lt_released t then None else Some (t\<lparr>lt_released := True\<rparr>))"

section \<open>The methods, run without interruption\<close>

text \<open>
  A lane with the tickets it has issued; a reservation is the index of its ticket.  Only
  \<open>try_reserve\<close> and \<open>_release_ticket\<close> can fail to reach the semaphore's bounds, so the
  release is fallible.
\<close>

record lane_run =
  lr_lane :: exec_lane
  lr_tickets :: "lane_ticket list"

definition lane_run_init :: "string \<Rightarrow> int \<Rightarrow> int \<Rightarrow> lane_run" where
  "lane_run_init name max_workers queue_capacity =
     \<lparr>lr_lane = exec_lane_init name max_workers queue_capacity, lr_tickets = []\<rparr>"

definition try_reserve :: "lane_run \<Rightarrow> nat option \<times> lane_run" where
  "try_reserve r =
     (if el_state (lr_lane r) \<noteq> Running then (None, r\<lparr>lr_lane := lane_reject (lr_lane r)\<rparr>)
      else case semaphore_take (lr_lane r) of
          None \<Rightarrow> (None, r\<lparr>lr_lane := lane_reject (lr_lane r)\<rparr>)
        | Some l \<Rightarrow> (Some (length (lr_tickets r)),
                   r\<lparr>lr_lane := lane_admit l, lr_tickets := lr_tickets r @ [lane_ticket_init]\<rparr>))"

definition ticket_mark_submitted :: "nat \<Rightarrow> lane_run \<Rightarrow> lane_run result" where
  "ticket_mark_submitted i r =
     rbind (ticket_set_submitted (lr_tickets r ! i))
       (\<lambda>t. Inr (r\<lparr>lr_tickets := (lr_tickets r)[i := t], lr_lane := lane_mark_submitted (lr_lane r)\<rparr>))"

definition ticket_mark_started :: "nat \<Rightarrow> lane_run \<Rightarrow> lane_run" where
  "ticket_mark_started i r =
     (case ticket_set_started (lr_tickets r ! i) of
        None \<Rightarrow> r
      | Some t \<Rightarrow> r\<lparr>lr_tickets := (lr_tickets r)[i := t], lr_lane := lane_mark_started (lr_lane r)\<rparr>)"

definition ticket_release :: "nat \<Rightarrow> lane_run \<Rightarrow> lane_run result" where
  "ticket_release i r =
     (case ticket_set_released (lr_tickets r ! i) of
        None \<Rightarrow> Inr r
      | Some t \<Rightarrow>
          rbind (semaphore_put (lane_release_counts (lt_submitted t) (lt_started t) (lr_lane r)))
            (\<lambda>l. Inr (r\<lparr>lr_tickets := (lr_tickets r)[i := t], lr_lane := l\<rparr>)))"

text \<open>
  \<open>LaneReservation.submit\<close>: the ticket is released when the executor or the lane refuses.
  The outcome of \<open>executor.submit\<close> is the argument \<open>accepts\<close>.  The result is the state with
  the error that the call raises, if any.
\<close>

definition executor_submit :: "bool \<Rightarrow> exec_lane \<Rightarrow> unit result" where
  "executor_submit accepts l =
     (if el_state l \<noteq> Running then Inl (Runtime_Error (el_name l @ '' lane is not accepting work''))
      else if accepts then Inr () else Inl (Runtime_Error ''cannot schedule new futures after shutdown''))"

definition reservation_submit :: "bool \<Rightarrow> nat \<Rightarrow> lane_run \<Rightarrow> py_error option \<times> lane_run" where
  "reservation_submit accepts i r =
     (case ticket_mark_submitted i r of
        Inl e \<Rightarrow> (Some e, r)
      | Inr r1 \<Rightarrow>
          (case executor_submit accepts (lr_lane r1) of
             Inr _ \<Rightarrow> (None, r1)
           | Inl e \<Rightarrow>
               (case ticket_release i r1 of Inl e' \<Rightarrow> (Some e', r1) | Inr r2 \<Rightarrow> (Some e, r2))))"

definition reservation_cancel :: "nat \<Rightarrow> lane_run \<Rightarrow> lane_run result" where
  "reservation_cancel = ticket_release"

definition reservation_exit :: "nat \<Rightarrow> lane_run \<Rightarrow> lane_run result" where
  "reservation_exit i r = (if lt_submitted (lr_tickets r ! i) then Inr r else reservation_cancel i r)"

text \<open>\<open>run\<close>, handed to the executor: it starts the ticket, runs the work and releases.\<close>

definition reservation_work :: "nat \<Rightarrow> lane_run \<Rightarrow> lane_run result" where
  "reservation_work i r = ticket_release i (ticket_mark_started i r)"

definition release_cancelled :: "bool \<Rightarrow> nat \<Rightarrow> lane_run \<Rightarrow> lane_run result" where
  "release_cancelled cancelled i r = (if cancelled then ticket_release i r else Inr r)"

text \<open>The two regions of \<open>close\<close>, around the shutdown of the executor.\<close>

definition lane_close_begin :: "exec_lane \<Rightarrow> exec_lane" where
  "lane_close_begin l = (if el_state l = Closed then l else l\<lparr>el_state := Closing\<rparr>)"

definition lane_close_end :: "exec_lane \<Rightarrow> exec_lane" where
  "lane_close_end l = l\<lparr>el_state := Closed\<rparr>"

definition lane_close :: "exec_lane \<Rightarrow> exec_lane" where
  "lane_close l = (if el_state l = Closed then l else lane_close_end (lane_close_begin l))"

fun lane_phase_name :: "lane_phase \<Rightarrow> string" where
  "lane_phase_name Running = ''running''"
| "lane_phase_name Closing = ''closing''"
| "lane_phase_name Closed = ''closed''"

definition lane_snapshot :: "exec_lane \<Rightarrow> (string \<times> pyval) list" where
  "lane_snapshot l =
     [(''name'', PStr (el_name l)), (''state'', PStr (lane_phase_name (el_state l))),
      (''max_workers'', PInt (el_max_workers l)), (''queue_capacity'', PInt (el_queue_capacity l)),
      (''capacity'', PInt (el_capacity l)), (''reserved'', PInt (el_reserved l)),
      (''queued'', PInt (el_queued l)), (''active'', PInt (el_active l)),
      (''submitted_total'', PInt (el_submitted_total l)),
      (''rejected_total'', PInt (el_rejected_total l)),
      (''executor_create_count'', PInt (el_executor_create_count l))]"

section \<open>Interleaved runs\<close>

text \<open>
  A cell is a ticket with the threads that are between two regions of one of its methods:
  \<open>lc_submitting\<close> after \<open>mark_submitted\<close> has set the flag and before the lane counts it,
  \<open>lc_starting\<close> likewise, and \<open>lc_releasing\<close> the flags that \<open>release\<close> captured.
  \<open>ls_admitting\<close> counts the threads that took a semaphore unit and are not admitted yet,
  \<open>ls_returning\<close> those that have uncounted a ticket and not yet released the semaphore.
\<close>

record lane_cell = lane_ticket +
  lc_submitting :: bool
  lc_starting :: bool
  lc_releasing :: "(bool \<times> bool) option"

record lane_state =
  ls_lane :: exec_lane
  ls_cells :: "lane_cell list"
  ls_admitting :: int
  ls_returning :: int

definition lane_cell_init :: lane_cell where
  "lane_cell_init = \<lparr>lt_submitted = False, lt_started = False, lt_released = False,
     lc_submitting = False, lc_starting = False, lc_releasing = None\<rparr>"

definition lane_state_init :: "string \<Rightarrow> int \<Rightarrow> int \<Rightarrow> lane_state" where
  "lane_state_init name max_workers queue_capacity =
     \<lparr>ls_lane = exec_lane_init name max_workers queue_capacity, ls_cells = [],
      ls_admitting = 0, ls_returning = 0\<rparr>"

datatype lane_event =
    Reject_Closed
  | Take_Unit
  | Admit
  | Set_Submitted nat
  | Count_Submitted nat
  | Set_Started nat
  | Count_Started nat
  | Set_Released nat
  | Count_Released nat
  | Return_Unit
  | Close_Begin
  | Close_End

definition with_cell :: "nat \<Rightarrow> (lane_cell \<Rightarrow> lane_cell) \<Rightarrow> lane_state \<Rightarrow> lane_state" where
  "with_cell i f s = s\<lparr>ls_cells := (ls_cells s)[i := f (ls_cells s ! i)]\<rparr>"

text \<open>
  An event whose region does not run in the state, because its ticket does not exist or no thread
  has come to it, changes nothing.
\<close>

fun lane_step :: "lane_event \<Rightarrow> lane_state \<Rightarrow> lane_state" where
  "lane_step Reject_Closed s =
     (if el_state (ls_lane s) \<noteq> Running then s\<lparr>ls_lane := lane_reject (ls_lane s)\<rparr> else s)"
| "lane_step Take_Unit s =
     (case semaphore_take (ls_lane s) of
        None \<Rightarrow> s\<lparr>ls_lane := lane_reject (ls_lane s)\<rparr>
      | Some l \<Rightarrow> s\<lparr>ls_lane := l, ls_admitting := ls_admitting s + 1\<rparr>)"
| "lane_step Admit s =
     (if ls_admitting s \<le> 0 then s
      else if el_state (ls_lane s) \<noteq> Running
      then (case semaphore_put (ls_lane s) of
              Inl e \<Rightarrow> s
            | Inr l \<Rightarrow> s\<lparr>ls_lane := lane_reject l, ls_admitting := ls_admitting s - 1\<rparr>)
      else s\<lparr>ls_lane := lane_admit (ls_lane s), ls_cells := ls_cells s @ [lane_cell_init],
             ls_admitting := ls_admitting s - 1\<rparr>)"
| "lane_step (Set_Submitted i) s =
     (if i < length (ls_cells s) \<and> \<not> lt_released (ls_cells s ! i) \<and> \<not> lt_submitted (ls_cells s ! i)
      then with_cell i (\<lambda>c. c\<lparr>lt_submitted := True, lc_submitting := True\<rparr>) s else s)"
| "lane_step (Count_Submitted i) s =
     (if i < length (ls_cells s) \<and> lc_submitting (ls_cells s ! i)
      then with_cell i (\<lambda>c. c\<lparr>lc_submitting := False\<rparr>)
             (s\<lparr>ls_lane := lane_mark_submitted (ls_lane s)\<rparr>) else s)"
| "lane_step (Set_Started i) s =
     (if i < length (ls_cells s) \<and> \<not> lt_released (ls_cells s ! i)
      then with_cell i (\<lambda>c. c\<lparr>lt_started := True, lc_starting := True\<rparr>) s else s)"
| "lane_step (Count_Started i) s =
     (if i < length (ls_cells s) \<and> lc_starting (ls_cells s ! i)
      then with_cell i (\<lambda>c. c\<lparr>lc_starting := False\<rparr>)
             (s\<lparr>ls_lane := lane_mark_started (ls_lane s)\<rparr>) else s)"
| "lane_step (Set_Released i) s =
     (if i < length (ls_cells s) \<and> \<not> lt_released (ls_cells s ! i)
      then with_cell i (\<lambda>c. c\<lparr>lt_released := True,
             lc_releasing := Some (lt_submitted c, lt_started c)\<rparr>) s else s)"
| "lane_step (Count_Released i) s =
     (if i < length (ls_cells s)
      then (case lc_releasing (ls_cells s ! i) of
              None \<Rightarrow> s
            | Some (submitted, started) \<Rightarrow>
                with_cell i (\<lambda>c. c\<lparr>lc_releasing := None\<rparr>)
                  (s\<lparr>ls_lane := lane_release_counts submitted started (ls_lane s),
                     ls_returning := ls_returning s + 1\<rparr>))
      else s)"
| "lane_step Return_Unit s =
     (if ls_returning s \<le> 0 then s
      else case semaphore_put (ls_lane s) of
          Inl e \<Rightarrow> s
        | Inr l \<Rightarrow> s\<lparr>ls_lane := l, ls_returning := ls_returning s - 1\<rparr>)"
| "lane_step Close_Begin s = s\<lparr>ls_lane := lane_close_begin (ls_lane s)\<rparr>"
| "lane_step Close_End s =
     (if el_state (ls_lane s) = Closing then s\<lparr>ls_lane := lane_close_end (ls_lane s)\<rparr> else s)"

section \<open>Places\<close>

text \<open>A cell occupies a place until its release is counted.\<close>

definition occupies :: "lane_cell \<Rightarrow> bool" where
  "occupies c \<longleftrightarrow> \<not> lt_released c \<or> lc_releasing c \<noteq> None"

definition occupied :: "lane_state \<Rightarrow> int" where
  "occupied s = sum_list (map (\<lambda>c. of_bool (occupies c)) (ls_cells s))"

definition lane_ok :: "lane_state \<Rightarrow> bool" where
  "lane_ok s \<longleftrightarrow>
     (let l = ls_lane s
      in 0 \<le> el_semaphore l \<and> 0 \<le> ls_admitting s \<and> 0 \<le> ls_returning s \<and>
         el_reserved l = occupied s \<and>
         el_semaphore l + ls_admitting s + el_reserved l + ls_returning s = el_capacity l \<and>
         list_all (\<lambda>c. lc_releasing c \<noteq> None \<longrightarrow> lt_released c) (ls_cells s))"

lemma occupied_with_cell:
  "i < length (ls_cells s) \<Longrightarrow>
   occupied (with_cell i f s) =
     occupied s - of_bool (occupies (ls_cells s ! i)) + of_bool (occupies (f (ls_cells s ! i)))"
  by (simp add: occupied_def with_cell_def sum_list_map_update)

lemma occupied_nonneg [simp]: "0 \<le> occupied s"
  by (simp add: occupied_def sum_list_map_nonneg)

lemma occupied_lane [simp]: "occupied (s\<lparr>ls_lane := l\<rparr>) = occupied s"
  "occupied (s\<lparr>ls_admitting := a\<rparr>) = occupied s" "occupied (s\<lparr>ls_returning := a\<rparr>) = occupied s"
  by (simp_all add: occupied_def)

lemma occupied_pos:
  "i < length (ls_cells s) \<Longrightarrow> occupies (ls_cells s ! i) \<Longrightarrow> 1 \<le> occupied s"
  using sum_list_map_member [of "\<lambda>c. of_bool (occupies c)" i "ls_cells s"] by (simp add: occupied_def)

lemma with_cell_frame [simp]:
  "ls_lane (with_cell i f s) = ls_lane s" "ls_admitting (with_cell i f s) = ls_admitting s"
  "ls_returning (with_cell i f s) = ls_returning s" "length (ls_cells (with_cell i f s)) = length (ls_cells s)"
  by (simp_all add: with_cell_def)

lemma with_cell_all:
  "list_all P (ls_cells s) \<Longrightarrow> P (f (ls_cells s ! i)) \<Longrightarrow> list_all P (ls_cells (with_cell i f s))"
  unfolding with_cell_def list_all_iff by (auto dest: set_update_subset_insert [THEN subsetD])

lemma lane_ok_init: "lane_ok (lane_state_init name w q)"
  by (simp add: lane_ok_def lane_state_init_def exec_lane_init_def Let_def occupied_def)

text \<open>The counters that the regions leave alone.\<close>

lemma lane_region_frame [simp]:
  "el_semaphore (lane_mark_submitted l) = el_semaphore l" "el_reserved (lane_mark_submitted l) = el_reserved l"
  "el_capacity (lane_mark_submitted l) = el_capacity l"
  "el_semaphore (lane_mark_started l) = el_semaphore l" "el_reserved (lane_mark_started l) = el_reserved l"
  "el_capacity (lane_mark_started l) = el_capacity l"
  "el_semaphore (lane_release_counts a b l) = el_semaphore l" "el_capacity (lane_release_counts a b l) = el_capacity l"
  "el_reserved (lane_release_counts a b l) = max 0 (el_reserved l - 1)"
  "el_semaphore (lane_close_begin l) = el_semaphore l" "el_reserved (lane_close_begin l) = el_reserved l"
  "el_capacity (lane_close_begin l) = el_capacity l"
  "el_semaphore (lane_close_end l) = el_semaphore l" "el_reserved (lane_close_end l) = el_reserved l"
  "el_capacity (lane_close_end l) = el_capacity l"
  "el_semaphore (lane_reject l) = el_semaphore l" "el_reserved (lane_reject l) = el_reserved l"
  "el_capacity (lane_reject l) = el_capacity l"
  by (simp_all add: lane_mark_submitted_def lane_mark_started_def lane_release_counts_def
      lane_close_begin_def lane_close_end_def lane_reject_def Let_def)

lemma lane_ok_cells:
  "lane_ok s \<Longrightarrow> i < length (ls_cells s) \<Longrightarrow> lc_releasing (ls_cells s ! i) \<noteq> None \<Longrightarrow> lt_released (ls_cells s ! i)"
  by (auto simp: lane_ok_def Let_def list_all_length)

lemma lane_ok_cell:
  assumes "lane_ok s" and "i < length (ls_cells s)"
    and "occupies (f (ls_cells s ! i)) = occupies (ls_cells s ! i)"
    and "lc_releasing (f (ls_cells s ! i)) \<noteq> None \<Longrightarrow> lt_released (f (ls_cells s ! i))"
    and "ls_cells t = ls_cells s" and "ls_admitting t = ls_admitting s" and "ls_returning t = ls_returning s"
    and "el_semaphore (ls_lane t) = el_semaphore (ls_lane s)"
    and "el_reserved (ls_lane t) = el_reserved (ls_lane s)"
    and "el_capacity (ls_lane t) = el_capacity (ls_lane s)"
  shows "lane_ok (with_cell i f t)"
proof -
  have "occupied t = occupied s" using assms(5) by (simp add: occupied_def)
  then have "occupied (with_cell i f t) = occupied s"
    using assms(2,3,5) occupied_with_cell [of i t f] by simp
  then show ?thesis using assms
    by (auto simp: lane_ok_def Let_def intro!: with_cell_all)
qed

lemma lane_ok_step: "lane_ok s \<Longrightarrow> lane_ok (lane_step e s)"
proof (cases e)
  case (Count_Released i)
  assume ok: "lane_ok s"
  show ?thesis
  proof (cases "i < length (ls_cells s) \<and> lc_releasing (ls_cells s ! i) \<noteq> None")
    case True
    then have "1 \<le> occupied s" by (intro occupied_pos [of i]) (auto simp: occupies_def)
    with True ok Count_Released lane_ok_cells [OF ok, of i] show ?thesis
      by (auto simp: lane_ok_def Let_def occupied_with_cell occupies_def intro!: with_cell_all)
  qed (use ok Count_Released in \<open>auto split: option.splits\<close>)
next
  case Admit
  assume "lane_ok s"
  with Admit show ?thesis
    by (auto simp: lane_ok_def Let_def occupied_def occupies_def lane_admit_def lane_cell_init_def
        semaphore_put_def split: if_splits)
next
  case (Set_Submitted i)
  assume ok: "lane_ok s"
  with Set_Submitted show ?thesis
    by (auto intro!: lane_ok_cell [OF ok] simp: occupies_def dest: lane_ok_cells [OF ok, of i])
next
  case (Count_Submitted i)
  assume ok: "lane_ok s"
  with Count_Submitted show ?thesis
    by (auto intro!: lane_ok_cell [OF ok] simp: occupies_def dest: lane_ok_cells [OF ok, of i])
next
  case (Set_Started i)
  assume ok: "lane_ok s"
  with Set_Started show ?thesis
    by (auto intro!: lane_ok_cell [OF ok] simp: occupies_def dest: lane_ok_cells [OF ok, of i])
next
  case (Count_Started i)
  assume ok: "lane_ok s"
  with Count_Started show ?thesis
    by (auto intro!: lane_ok_cell [OF ok] simp: occupies_def dest: lane_ok_cells [OF ok, of i])
next
  case (Set_Released i)
  assume ok: "lane_ok s"
  with Set_Released show ?thesis
    by (auto intro!: lane_ok_cell [OF ok] simp: occupies_def dest: lane_ok_cells [OF ok, of i])
qed (auto simp: semaphore_take_def semaphore_put_def lane_ok_def Let_def occupied_def split: if_splits)

lemma lane_ok_bounds:
  "lane_ok s \<Longrightarrow> 0 \<le> el_reserved (ls_lane s) \<and> el_reserved (ls_lane s) \<le> el_capacity (ls_lane s)"
  using occupied_nonneg [of s] by (simp add: lane_ok_def Let_def)

interpretation lane_system: transition_system "lane_state_init name w q" lane_step lane_ok
  by unfold_locales (auto intro: lane_ok_init lane_ok_step)

section \<open>The gauges of queued and active work\<close>

text \<open>
  The gauges are exact under the program order of the callers: the executor runs a function once
  and only after \<open>mark_submitted\<close> has returned, and a ticket is released by the thread that
  submits it or by the one that runs it, between their own regions.
\<close>

fun in_order :: "lane_event \<Rightarrow> lane_state \<Rightarrow> bool" where
  "in_order (Set_Started i) s =
     (i < length (ls_cells s) \<and> lt_submitted (ls_cells s ! i) \<and> \<not> lc_submitting (ls_cells s ! i) \<and>
      \<not> lt_started (ls_cells s ! i))"
| "in_order (Set_Released i) s =
     (i < length (ls_cells s) \<and> \<not> lc_submitting (ls_cells s ! i) \<and> \<not> lc_starting (ls_cells s ! i))"
| "in_order _ s = True"

inductive lane_reachable :: "string \<Rightarrow> int \<Rightarrow> int \<Rightarrow> lane_state \<Rightarrow> bool" for name w q where
  start: "lane_reachable name w q (lane_state_init name w q)"
| step: "lane_reachable name w q s \<Longrightarrow> in_order e s \<Longrightarrow> lane_reachable name w q (lane_step e s)"

definition waits :: "lane_cell \<Rightarrow> bool" where
  "waits c \<longleftrightarrow> lt_submitted c \<and> \<not> lc_submitting c \<and> (lt_started c \<longrightarrow> lc_starting c) \<and> occupies c"

definition runs :: "lane_cell \<Rightarrow> bool" where
  "runs c \<longleftrightarrow> lt_started c \<and> \<not> lc_starting c \<and> occupies c"

definition cell_ok :: "lane_cell \<Rightarrow> bool" where
  "cell_ok c \<longleftrightarrow>
     (lt_started c \<longrightarrow> lt_submitted c \<and> \<not> lc_submitting c) \<and>
     (lc_submitting c \<longrightarrow> lt_submitted c \<and> \<not> lt_released c) \<and>
     (lc_starting c \<longrightarrow> lt_started c \<and> \<not> lt_released c) \<and>
     (\<forall>fl. lc_releasing c = Some fl \<longrightarrow> fl = (lt_submitted c, lt_started c) \<and> lt_released c)"

definition gauges_ok :: "lane_state \<Rightarrow> bool" where
  "gauges_ok s \<longleftrightarrow>
     list_all cell_ok (ls_cells s) \<and>
     el_queued (ls_lane s) = sum_list (map (\<lambda>c. of_bool (waits c)) (ls_cells s)) \<and>
     el_active (ls_lane s) = sum_list (map (\<lambda>c. of_bool (runs c)) (ls_cells s))"

lemma gauges_ok_init: "gauges_ok (lane_state_init name w q)"
  by (simp add: gauges_ok_def lane_state_init_def exec_lane_init_def Let_def)

text \<open>A step on one cell moves the gauges by that cell's contribution.\<close>

lemma gauges_ok_cell:
  assumes ok: "gauges_ok s" and i: "i < length (ls_cells s)" and c: "cell_ok (f (ls_cells s ! i))"
    and queued: "el_queued (ls_lane t) = el_queued (ls_lane s) - of_bool (waits (ls_cells s ! i))
      + of_bool (waits (f (ls_cells s ! i)))"
    and active: "el_active (ls_lane t) = el_active (ls_lane s) - of_bool (runs (ls_cells s ! i))
      + of_bool (runs (f (ls_cells s ! i)))"
    and t: "ls_cells t = ls_cells s"
  shows "gauges_ok (with_cell i f t)"
  using assms
  by (auto simp: gauges_ok_def with_cell_def sum_list_map_update list_all_iff
      dest: set_update_subset_insert [THEN subsetD])

lemma gauges_nonneg:
  assumes "gauges_ok s" and "i < length (ls_cells s)"
  shows "of_bool (waits (ls_cells s ! i)) \<le> el_queued (ls_lane s)"
    and "of_bool (runs (ls_cells s ! i)) \<le> el_active (ls_lane s)"
  using assms sum_list_map_member [of "\<lambda>c. of_bool (waits c)" i "ls_cells s"]
    sum_list_map_member [of "\<lambda>c. of_bool (runs c)" i "ls_cells s"]
  by (simp_all add: gauges_ok_def)

lemmas gauge_simps = lane_mark_submitted_def lane_mark_started_def
  lane_release_counts_def waits_def runs_def cell_ok_def occupies_def Let_def

lemma gauges_ok_step: "gauges_ok s \<Longrightarrow> in_order e s \<Longrightarrow> gauges_ok (lane_step e s)"
proof (cases e)
  case (Set_Submitted i)
  assume ok: "gauges_ok s"
  then have "i < length (ls_cells s) \<Longrightarrow> cell_ok (ls_cells s ! i)" by (auto simp: gauges_ok_def list_all_length)
  with ok Set_Submitted show ?thesis
    by (auto intro!: gauges_ok_cell [OF ok] simp: gauge_simps)
next
  case (Count_Submitted i)
  assume ok: "gauges_ok s"
  then have "i < length (ls_cells s) \<Longrightarrow> cell_ok (ls_cells s ! i)" by (auto simp: gauges_ok_def list_all_length)
  with ok Count_Submitted show ?thesis
    by (auto intro!: gauges_ok_cell [OF ok] simp: gauge_simps)
next
  case (Set_Started i)
  assume ok: "gauges_ok s" and order: "in_order e s"
  then have "i < length (ls_cells s) \<Longrightarrow> cell_ok (ls_cells s ! i)" by (auto simp: gauges_ok_def list_all_length)
  with ok order Set_Started show ?thesis
    by (auto intro!: gauges_ok_cell [OF ok] simp: gauge_simps)
next
  case (Count_Started i)
  assume ok: "gauges_ok s"
  show ?thesis
  proof (cases "i < length (ls_cells s) \<and> lc_starting (ls_cells s ! i)")
    case True
    with ok have c: "cell_ok (ls_cells s ! i)" by (auto simp: gauges_ok_def list_all_length)
    then have "waits (ls_cells s ! i)" using True by (auto simp: gauge_simps)
    then have "1 \<le> el_queued (ls_lane s)" using gauges_nonneg(1) [OF ok, of i] True by simp
    with c True Count_Started show ?thesis
      by (auto intro!: gauges_ok_cell [OF ok] simp: gauge_simps)
  qed (use ok Count_Started in auto)
next
  case (Set_Released i)
  assume ok: "gauges_ok s" and order: "in_order e s"
  then have "i < length (ls_cells s) \<Longrightarrow> cell_ok (ls_cells s ! i)" by (auto simp: gauges_ok_def list_all_length)
  with ok order Set_Released show ?thesis
    by (auto intro!: gauges_ok_cell [OF ok] simp: gauge_simps)
next
  case (Count_Released i)
  assume ok: "gauges_ok s"
  show ?thesis
  proof (cases "i < length (ls_cells s) \<and> lc_releasing (ls_cells s ! i) \<noteq> None")
    case True
    then obtain a b where fl: "lc_releasing (ls_cells s ! i) = Some (a, b)" by auto
    have c: "cell_ok (ls_cells s ! i)" using ok True by (auto simp: gauges_ok_def list_all_length)
    with fl have ab: "a = lt_submitted (ls_cells s ! i)" "b = lt_started (ls_cells s ! i)"
      "lt_released (ls_cells s ! i)" by (auto simp: cell_ok_def)
    with c fl have pos: "a \<Longrightarrow> \<not> b \<Longrightarrow> 1 \<le> el_queued (ls_lane s)" "b \<Longrightarrow> 1 \<le> el_active (ls_lane s)"
      using gauges_nonneg [OF ok, of i] True by (auto simp: waits_def runs_def occupies_def cell_ok_def)
    with c fl ab True Count_Released show ?thesis
      by (auto intro!: gauges_ok_cell [OF ok] simp: gauge_simps)
  qed (use ok Count_Released in \<open>auto split: option.splits\<close>)
qed (auto simp: gauges_ok_def lane_reject_def lane_admit_def lane_cell_init_def lane_close_begin_def
    lane_close_end_def semaphore_take_def semaphore_put_def waits_def runs_def cell_ok_def
    split: if_splits option.splits)

lemma lane_reachable_ok: "lane_reachable name w q s \<Longrightarrow> lane_ok s \<and> gauges_ok s"
  by (induction rule: lane_reachable.induct)
    (auto intro: lane_ok_init lane_ok_step gauges_ok_init gauges_ok_step)

section \<open>An uninterrupted method is its regions in a row\<close>

definition cell_of :: "lane_ticket \<Rightarrow> lane_cell" where
  "cell_of t = \<lparr>lt_submitted = lt_submitted t, lt_started = lt_started t, lt_released = lt_released t,
     lc_submitting = False, lc_starting = False, lc_releasing = None\<rparr>"

definition run_state :: "lane_run \<Rightarrow> lane_state" where
  "run_state r = \<lparr>ls_lane = lr_lane r, ls_cells = map cell_of (lr_tickets r),
     ls_admitting = 0, ls_returning = 0\<rparr>"

lemma cell_of_sel [simp]:
  "lt_submitted (cell_of t) = lt_submitted t" "lt_started (cell_of t) = lt_started t"
  "lt_released (cell_of t) = lt_released t" "lc_submitting (cell_of t) = False"
  "lc_starting (cell_of t) = False" "lc_releasing (cell_of t) = None"
  by (simp_all add: cell_of_def)

lemma run_state_sel [simp]:
  "ls_lane (run_state r) = lr_lane r" "ls_cells (run_state r) = map cell_of (lr_tickets r)"
  "ls_admitting (run_state r) = 0" "ls_returning (run_state r) = 0"
  by (simp_all add: run_state_def)

lemma run_state_init: "run_state (lane_run_init name w q) = lane_state_init name w q"
  by (simp add: run_state_def lane_run_init_def lane_state_init_def)

lemma try_reserve_regions:
  "run_state (snd (try_reserve r)) =
     fold lane_step (if el_state (lr_lane r) \<noteq> Running then [Reject_Closed] else [Take_Unit, Admit]) (run_state r)"
  by (auto simp: try_reserve_def run_state_def semaphore_take_def lane_reject_def lane_admit_def
      lane_cell_init_def cell_of_def lane_ticket_init_def)

lemma mark_submitted_regions:
  "i < length (lr_tickets r) \<Longrightarrow> ticket_mark_submitted i r = Inr r' \<Longrightarrow>
   run_state r' = fold lane_step [Set_Submitted i, Count_Submitted i] (run_state r)"
  by (auto simp: ticket_mark_submitted_def ticket_set_submitted_def rbind_Inr_iff run_state_def
      with_cell_def map_update cell_of_def split: if_splits)

lemma mark_started_regions:
  "i < length (lr_tickets r) \<Longrightarrow>
   run_state (ticket_mark_started i r) = fold lane_step [Set_Started i, Count_Started i] (run_state r)"
  by (auto simp: ticket_mark_started_def ticket_set_started_def run_state_def
      with_cell_def map_update cell_of_def)

lemma release_regions:
  assumes ok: "lane_ok (run_state r)" and i: "i < length (lr_tickets r)"
  shows "\<exists>r'. ticket_release i r = Inr r' \<and>
    run_state r' = fold lane_step [Set_Released i, Count_Released i, Return_Unit] (run_state r)"
proof (cases "lt_released (lr_tickets r ! i)")
  case True
  with i show ?thesis by (simp add: ticket_release_def ticket_set_released_def)
next
  case False
  let ?s = "run_state r"
  have "1 \<le> occupied ?s" using i False by (intro occupied_pos [of i]) (simp_all add: occupies_def)
  with ok have "el_semaphore (lr_lane r) < el_capacity (lr_lane r)" by (simp add: lane_ok_def Let_def)
  with i False show ?thesis
    by (auto simp: ticket_release_def ticket_set_released_def semaphore_put_def run_state_def
        with_cell_def map_update cell_of_def)
qed

section \<open>The lane as a slot pool\<close>

definition lane_take :: "unit \<Rightarrow> lane_run \<Rightarrow> nat option \<times> lane_run" where
  "lane_take _ r = try_reserve r"

definition lane_give :: "nat \<Rightarrow> lane_run \<Rightarrow> lane_run" where
  "lane_give i r =
     (if i < length (lr_tickets r) then (case reservation_cancel i r of Inl _ \<Rightarrow> r | Inr r' \<Rightarrow> r') else r)"

definition lane_holds :: "lane_run \<Rightarrow> nat \<Rightarrow> bool" where
  "lane_holds r i \<longleftrightarrow> i < length (lr_tickets r) \<and> \<not> lt_released (lr_tickets r ! i)"

definition lane_cap :: "lane_run \<Rightarrow> unit \<Rightarrow> int" where
  "lane_cap r _ = (if el_state (lr_lane r) = Running then el_capacity (lr_lane r) else 0)"

lemma lane_take_ok: "lane_ok (run_state r) \<Longrightarrow> lane_ok (run_state (snd (lane_take u r)))"
  unfolding lane_take_def try_reserve_regions by (rule lane_system.run_from)

lemma lane_give_held:
  assumes ok: "lane_ok (run_state r)" and held: "lane_holds r i"
  shows "lane_ok (run_state (lane_give i r))" and "\<not> lane_holds (lane_give i r) i"
    and "el_reserved (lr_lane (lane_give i r)) = el_reserved (lr_lane r) - 1"
    and "el_state (lr_lane (lane_give i r)) = el_state (lr_lane r)"
    and "el_capacity (lr_lane (lane_give i r)) = el_capacity (lr_lane r)"
proof -
  have i: "i < length (lr_tickets r)" using held by (simp add: lane_holds_def)
  obtain r' where r': "ticket_release i r = Inr r'"
    "run_state r' = fold lane_step [Set_Released i, Count_Released i, Return_Unit] (run_state r)"
    using release_regions [OF ok i] by blast
  have give: "lane_give i r = r'" using i r' by (simp add: lane_give_def reservation_cancel_def)
  show "lane_ok (run_state (lane_give i r))"
    unfolding give r'(2) using ok by (rule lane_system.run_from)
  have "1 \<le> occupied (run_state r)"
    using held by (intro occupied_pos [of i]) (simp_all add: occupies_def lane_holds_def)
  then have pos: "1 \<le> el_reserved (lr_lane r)" using ok by (simp add: lane_ok_def Let_def)
  have "lane_release_counts a b l = l' \<Longrightarrow> el_state l' = el_state l" for a b l l'
    by (auto simp: lane_release_counts_def Let_def)
  then show "\<not> lane_holds (lane_give i r) i"
    and "el_reserved (lr_lane (lane_give i r)) = el_reserved (lr_lane r) - 1"
    and "el_state (lr_lane (lane_give i r)) = el_state (lr_lane r)"
    and "el_capacity (lr_lane (lane_give i r)) = el_capacity (lr_lane r)"
    using r'(1) held pos unfolding give
    by (auto simp: ticket_release_def ticket_set_released_def semaphore_put_def rbind_Inr_iff
        lane_holds_def split: if_splits)
qed

interpretation lane_pool: slot_pool
  "\<lambda>r. lane_ok (run_state r)" "\<lambda>r. el_capacity (lr_lane r)" lane_cap
  "\<lambda>r (_::unit). el_reserved (lr_lane r)" lane_take lane_give lane_holds "\<lambda>u. u" "\<lambda>_. ()"
proof (unfold_locales, goal_cases)
  case (1 r u)
  then show ?case using lane_ok_bounds [of "run_state r"] by (auto simp: lane_cap_def)
next
  case (2 r u i r')
  then have "lane_ok (run_state r')" using lane_take_ok [of r u] by simp
  with 2 show ?case
    by (auto simp: lane_take_def try_reserve_def lane_cap_def lane_holds_def semaphore_take_def
        lane_admit_def lane_ticket_init_def lane_ok_def Let_def fun_eq_iff split: if_splits)
next
  case (3 r u r')
  then have "lane_ok (run_state r')" "0 \<le> el_reserved (lr_lane r)"
    using lane_take_ok [of r u] by (simp_all add: lane_ok_def Let_def)
  with 3 show ?case
    by (auto simp: lane_take_def try_reserve_def lane_cap_def semaphore_take_def lane_reject_def
        lane_ok_def Let_def fun_eq_iff split: if_splits)
next
  case (4 r i)
  with lane_give_held [of r i] show ?case by (auto simp: lane_cap_def fun_eq_iff)
next
  case (5 r i)
  then show ?case
    by (auto simp: lane_give_def lane_holds_def reservation_cancel_def ticket_release_def
        ticket_set_released_def)
qed

section \<open>Properties\<close>

text \<open>
  C36: in every interleaving of the regions of reservations, submissions, starts, releases and the
  lane's closing, the semaphore, the threads being admitted or returning and the reserved count
  add up to the capacity, the reserved count is the number of tickets whose release is not
  counted yet, and a thread that gives its unit back never trips the bounded semaphore.
\<close>

theorem lane_places_conserved:
  "let s = fold lane_step es (lane_state_init name max_workers queue_capacity)
   in 0 \<le> el_semaphore (ls_lane s) \<and>
      el_semaphore (ls_lane s) + ls_admitting s + el_reserved (ls_lane s) + ls_returning s =
        max 1 max_workers + max 0 queue_capacity \<and>
      el_reserved (ls_lane s) = sum_list (map (\<lambda>c. of_bool (occupies c)) (ls_cells s)) \<and>
      (ls_returning s \<le> 0 \<or> (\<exists>l. semaphore_put (ls_lane s) = Inr l))"
proof -
  let ?s = "fold lane_step es (lane_state_init name max_workers queue_capacity)"
  have ok: "lane_ok ?s" by (rule lane_system.run)
  have "el_capacity (ls_lane (lane_step e s)) = el_capacity (ls_lane s)" for e s
    by (cases e) (auto simp: semaphore_take_def semaphore_put_def lane_admit_def split: option.splits)
  then have "el_capacity (ls_lane (fold lane_step es s)) = el_capacity (ls_lane s)" for s
    by (induction es arbitrary: s) simp_all
  then have "el_capacity (ls_lane ?s) = max 1 max_workers + max 0 queue_capacity"
    by (simp add: lane_state_init_def exec_lane_init_def Let_def)
  moreover have "ls_returning ?s \<le> 0 \<or> (\<exists>l. semaphore_put (ls_lane ?s) = Inr l)"
  proof -
    have "el_semaphore (ls_lane ?s) < el_capacity (ls_lane ?s)" if "0 < ls_returning ?s"
      using ok lane_ok_bounds [OF ok] that unfolding lane_ok_def Let_def by linarith
    then show ?thesis by (cases "0 < ls_returning ?s") (simp_all add: semaphore_put_def)
  qed
  ultimately show ?thesis using ok unfolding lane_ok_def occupied_def Let_def by simp
qed

text \<open>
  under the program order of the callers the gauges are exact in every reachable state: queued
  is the number of submitted tickets whose start is not counted and active the number of started
  ones, so that together they never exceed the reserved places or the capacity.
\<close>

theorem lane_gauges_exact:
  assumes "lane_reachable name max_workers queue_capacity s"
  shows "el_queued (ls_lane s) = sum_list (map (\<lambda>c. of_bool (waits c)) (ls_cells s)) \<and>
    el_active (ls_lane s) = sum_list (map (\<lambda>c. of_bool (runs c)) (ls_cells s)) \<and>
    el_queued (ls_lane s) + el_active (ls_lane s) \<le> el_reserved (ls_lane s) \<and>
    el_reserved (ls_lane s) \<le> el_capacity (ls_lane s)"
proof -
  have ok: "lane_ok s" "gauges_ok s" using lane_reachable_ok [OF assms] by auto
  have "of_bool (waits c) + of_bool (runs c) \<le> (of_bool (occupies c) :: int)" for c
    by (auto simp: waits_def runs_def)
  then have "sum_list (map (\<lambda>c. of_bool (waits c) + of_bool (runs c)) (ls_cells s)) \<le> occupied s"
    unfolding occupied_def by (rule sum_list_mono)
  with ok show ?thesis by (simp add: gauges_ok_def lane_ok_def Let_def sum_list_addf)
qed

theorem lane_gauges_exact_witness:
  "let s = fold lane_step [Take_Unit, Admit, Set_Submitted 0, Count_Submitted 0, Set_Started 0, Count_Started 0]
       (lane_state_init ''image'' 1 0)
   in el_queued (ls_lane s) = sum_list (map (\<lambda>c. of_bool (waits c)) (ls_cells s)) \<and>
      el_active (ls_lane s) = sum_list (map (\<lambda>c. of_bool (runs c)) (ls_cells s)) \<and>
      el_queued (ls_lane s) + el_active (ls_lane s) \<le> el_reserved (ls_lane s) \<and>
      el_reserved (ls_lane s) \<le> el_capacity (ls_lane s) \<and> el_active (ls_lane s) = 1"
proof -
  let ?es = "[Take_Unit, Admit, Set_Submitted 0, Count_Submitted 0, Set_Started 0, Count_Started 0]"
  let ?s = "fold lane_step ?es (lane_state_init ''image'' 1 0)"
  have "lane_reachable ''image'' 1 0 ?s"
    unfolding fold_simps
    by (intro lane_reachable.step lane_reachable.start)
      (simp_all add: lane_state_init_def exec_lane_init_def semaphore_take_def lane_admit_def
        lane_cell_init_def with_cell_def)
  from lane_gauges_exact [OF this] show ?thesis
    by (simp add: lane_state_init_def exec_lane_init_def semaphore_take_def lane_admit_def
        lane_cell_init_def with_cell_def lane_mark_submitted_def lane_mark_started_def)
qed

text \<open>
  once a lane has begun to close, no interleaving admits another reservation, and the lane
  never runs again.
\<close>

theorem closing_lane_admits_nothing:
  assumes "el_state (ls_lane s) \<noteq> Running"
  shows "el_state (ls_lane (fold lane_step es s)) \<noteq> Running \<and>
    length (ls_cells (fold lane_step es s)) = length (ls_cells s) \<and>
    el_reserved (ls_lane (fold lane_step es s)) \<le> max 0 (el_reserved (ls_lane s))"
proof -
  have "el_state (ls_lane (lane_step e s)) \<noteq> Running \<and>
      length (ls_cells (lane_step e s)) = length (ls_cells s) \<and>
      el_reserved (ls_lane (lane_step e s)) \<le> max 0 (el_reserved (ls_lane s))"
    if "el_state (ls_lane s) \<noteq> Running" for e s
    using that
    by (cases e) (auto simp: semaphore_take_def semaphore_put_def lane_reject_def lane_close_begin_def
        lane_close_end_def lane_mark_submitted_def lane_mark_started_def lane_release_counts_def
        Let_def split: option.splits)
  then show ?thesis using assms
  proof (induction es arbitrary: s)
    case (Cons e es)
    from Cons.prems(1) [OF Cons.prems(2), of e] Cons.IH [of "lane_step e s", OF Cons.prems(1)]
    show ?case by auto
  qed simp
qed

theorem closing_lane_admits_nothing_witness:
  "let s = lane_step Close_Begin (lane_state_init ''image'' 1 0)
   in length (ls_cells (fold lane_step [Take_Unit, Admit] s)) = length (ls_cells s)"
proof -
  let ?s = "lane_step Close_Begin (lane_state_init ''image'' 1 0)"
  have "el_state (ls_lane ?s) \<noteq> Running"
    by (simp add: lane_state_init_def exec_lane_init_def lane_close_begin_def Let_def)
  from closing_lane_admits_nothing [OF this, of "[Take_Unit, Admit]"] show ?thesis by (simp only: Let_def)
qed

text \<open>
  a reservation that is cancelled frees its place: in a running lane the next request is
  admitted; the release of a ticket never raises, and its effect is its three regions in a row.
\<close>

theorem cancelled_place_is_free:
  assumes "lane_ok (run_state r)" and "i < length (lr_tickets r)"
    and "lt_released (lr_tickets r ! i) = False" and "el_state (lr_lane r) = Running"
  shows "\<exists>r'. reservation_cancel i r = Inr r' \<and> fst (try_reserve r') \<noteq> None \<and>
    run_state r' = fold lane_step [Set_Released i, Count_Released i, Return_Unit] (run_state r) \<and>
    reservation_cancel i r' = Inr r'"
proof -
  obtain r' where r': "ticket_release i r = Inr r'"
    "run_state r' = fold lane_step [Set_Released i, Count_Released i, Return_Unit] (run_state r)"
    using release_regions [OF assms(1,2)] by blast
  have held: "lane_holds r i" using assms(2,3) by (simp add: lane_holds_def)
  have give: "lane_give i r = r'" using r' assms(2) by (simp add: lane_give_def reservation_cancel_def)
  have "el_reserved (lr_lane r) \<le> lane_cap r ()"
    using assms(1,4) by (simp add: lane_cap_def lane_ok_def Let_def)
  then have "fst (try_reserve r') \<noteq> None"
    using lane_pool.return_admits [OF assms(1) held, of "()"] give by (simp add: lane_take_def)
  moreover have "reservation_cancel i r' = Inr r'"
    using r'(1) assms(2,3)
    by (auto simp: reservation_cancel_def ticket_release_def ticket_set_released_def rbind_Inr_iff)
  ultimately show ?thesis using r' by (auto simp: reservation_cancel_def)
qed

theorem cancelled_place_is_free_witness:
  "let r = snd (try_reserve (lane_run_init ''image'' 1 0))
   in fst (try_reserve r) = None \<and>
      (\<exists>r'. reservation_cancel 0 r = Inr r' \<and> fst (try_reserve r') \<noteq> None \<and>
        run_state r' = fold lane_step [Set_Released 0, Count_Released 0, Return_Unit] (run_state r) \<and>
        reservation_cancel 0 r' = Inr r')"
proof -
  let ?r = "snd (try_reserve (lane_run_init ''image'' 1 0))"
  have "lane_ok (run_state ?r)"
    unfolding try_reserve_regions run_state_init by (rule lane_system.run_from [OF lane_ok_init])
  moreover have "0 < length (lr_tickets ?r)" "lt_released (lr_tickets ?r ! 0) = False"
    "el_state (lr_lane ?r) = Running" "fst (try_reserve ?r) = None"
    by (simp_all add: try_reserve_def lane_run_init_def exec_lane_init_def semaphore_take_def
        lane_admit_def lane_ticket_init_def Let_def)
  ultimately show ?thesis using cancelled_place_is_free [of ?r 0] unfolding Let_def by blast
qed

end
