(* ===== verification/Heartbeats.thy ===== *)
theory Heartbeats
  imports PyValue
begin

text \<open>
  \<open>LeaseHeartbeatSupervisor\<close> and \<open>LeaseHeartbeatHandle\<close> of
  \<^verbatim>\<open>services/media-worker/app/materialization_scheduler.py\<close>: one loop renews the
  fenced leases of all running attempts.  The renewal itself is a call to the database and an
  argument of the model.
\<close>

section \<open>Handles\<close>

record 'p lease_handle =
  lh_key :: string
  lh_payload :: 'p
  lh_lease_seconds :: real
  lh_started_at :: real
  lh_next_due_at :: real
  lh_last_heartbeat_at :: "real option"
  lh_lost :: bool
  lh_expired :: bool
  lh_unregistered :: bool

definition lease_handle_init :: "string \<Rightarrow> 'p \<Rightarrow> real \<Rightarrow> real \<Rightarrow> real \<Rightarrow> 'p lease_handle" where
  "lease_handle_init key payload lease_seconds started_at next_due_at =
     \<lparr>lh_key = key, lh_payload = payload, lh_lease_seconds = lease_seconds, lh_started_at = started_at,
      lh_next_due_at = next_due_at, lh_last_heartbeat_at = None, lh_lost = False, lh_expired = False,
      lh_unregistered = False\<rparr>"

definition lease_healthy :: "'p lease_handle \<Rightarrow> bool" where
  "lease_healthy h \<longleftrightarrow> \<not> (lh_lost h \<or> lh_expired h \<or> lh_unregistered h)"

definition mark_heartbeat :: "real \<Rightarrow> real \<Rightarrow> 'p lease_handle \<Rightarrow> 'p lease_handle" where
  "mark_heartbeat now next_due h =
     (if lh_lost h \<or> lh_expired h \<or> lh_unregistered h then h
      else h\<lparr>lh_last_heartbeat_at := Some now, lh_next_due_at := next_due\<rparr>)"

definition mark_lost :: "'p lease_handle \<Rightarrow> 'p lease_handle" where
  "mark_lost h = h\<lparr>lh_lost := True\<rparr>"

definition mark_expired :: "'p lease_handle \<Rightarrow> 'p lease_handle" where
  "mark_expired h = h\<lparr>lh_expired := True\<rparr>"

definition mark_unregistered :: "'p lease_handle \<Rightarrow> 'p lease_handle" where
  "mark_unregistered h = h\<lparr>lh_unregistered := True\<rparr>"

section \<open>The supervisor\<close>

text \<open>
  Handles are shared with the threads that run the attempts, so they live in a heap and a handle
  is its index, which is also its identity (\<open>is\<close>).  \<open>hs_calling\<close> is the handle that the loop
  is renewing at the moment, with the time of its tick: the call runs outside every lock.
  \<open>hs_calls\<close> records the renewals that were attempted, latest first.
\<close>

record 'p supervisor =
  hs_interval_s :: real
  hs_max_attempt_age_s :: real
  hs_handles :: "(string, nat) dict"
  hs_heartbeat_total :: int
  hs_lost_total :: int
  hs_expired_total :: int
  hs_error_total :: int
  hs_heap :: "'p lease_handle list"
  hs_calling :: "(nat \<times> real) option"
  hs_calls :: "(nat \<times> real) list"

definition supervisor_init :: "real \<Rightarrow> real \<Rightarrow> 'p supervisor" where
  "supervisor_init interval_s max_attempt_age_s =
     (let i = max 0.1 interval_s
      in \<lparr>hs_interval_s = i, hs_max_attempt_age_s = max i max_attempt_age_s, hs_handles = [],
          hs_heartbeat_total = 0, hs_lost_total = 0, hs_expired_total = 0, hs_error_total = 0,
          hs_heap = [], hs_calling = None, hs_calls = []\<rparr>)"

definition with_handle :: "nat \<Rightarrow> ('p lease_handle \<Rightarrow> 'p lease_handle) \<Rightarrow> 'p supervisor \<Rightarrow> 'p supervisor" where
  "with_handle h f s = s\<lparr>hs_heap := (hs_heap s)[h := f (hs_heap s ! h)]\<rparr>"

definition register_lease :: "real \<Rightarrow> string \<Rightarrow> 'p \<Rightarrow> real \<Rightarrow> 'p supervisor \<Rightarrow> nat \<times> 'p supervisor" where
  "register_lease now key payload lease_seconds s =
     (let h = length (hs_heap s);
          handle = lease_handle_init key payload (max 1 lease_seconds) now (now + hs_interval_s s);
          s1 = (case dget (hs_handles s) key of
                  None \<Rightarrow> s
                | Some previous \<Rightarrow> with_handle previous mark_unregistered s)
      in (h, s1\<lparr>hs_handles := dset key h (dpop key (hs_handles s1)), hs_heap := hs_heap s1 @ [handle]\<rparr>))"

text \<open>\<open>_remove\<close> and the region of \<open>unregister\<close> under the lock: only the current handle of its
  key leaves the table.\<close>

definition remove_lease :: "nat \<Rightarrow> 'p supervisor \<Rightarrow> 'p supervisor" where
  "remove_lease h s =
     (let key = lh_key (hs_heap s ! h)
      in if dget (hs_handles s) key = Some h then s\<lparr>hs_handles := dpop key (hs_handles s)\<rparr> else s)"

definition unregister_lease :: "nat option \<Rightarrow> 'p supervisor \<Rightarrow> 'p supervisor" where
  "unregister_lease handle s =
     (case handle of None \<Rightarrow> s | Some h \<Rightarrow> with_handle h mark_unregistered (remove_lease h s))"

text \<open>
  The iteration of \<open>tick_once\<close> for one handle, up to the renewal call: \<open>hs_calling\<close> is set when
  the call is made.
\<close>

definition tick_check :: "real \<Rightarrow> nat \<Rightarrow> 'p supervisor \<Rightarrow> 'p supervisor" where
  "tick_check now h s =
     (let handle = hs_heap s ! h
      in if \<not> lease_healthy handle then remove_lease h s
         else if hs_max_attempt_age_s s \<le> now - lh_started_at handle
         then remove_lease h (with_handle h mark_expired (s\<lparr>hs_expired_total := hs_expired_total s + 1\<rparr>))
         else if now < lh_next_due_at handle then s
         else s\<lparr>hs_calling := Some (h, now), hs_calls := (h, now) # hs_calls s\<rparr>)"

text \<open>
  What follows the call; \<open>outcome\<close> is its truth value or the exception it raised.
\<close>

definition tick_outcome :: "bool result \<Rightarrow> 'p supervisor \<Rightarrow> 'p supervisor" where
  "tick_outcome outcome s =
     (case hs_calling s of
        None \<Rightarrow> s
      | Some (h, now) \<Rightarrow>
          (let s1 = s\<lparr>hs_calling := None\<rparr>;
               s2 = (case outcome of Inl _ \<Rightarrow> s1\<lparr>hs_error_total := hs_error_total s1 + 1\<rparr> | Inr _ \<Rightarrow> s1)
           in if outcome = Inr True
              then with_handle h (mark_heartbeat now (now + hs_interval_s s))
                     (s2\<lparr>hs_heartbeat_total := hs_heartbeat_total s2 + 1\<rparr>)
              else remove_lease h (with_handle h mark_lost (s2\<lparr>hs_lost_total := hs_lost_total s2 + 1\<rparr>))))"

text \<open>\<open>tick_once\<close> without interruption, over the handles in the table when it begins.\<close>

definition tick_handle ::
  "('p \<Rightarrow> real \<Rightarrow> bool result) \<Rightarrow> real \<Rightarrow> nat \<Rightarrow> 'p supervisor \<Rightarrow> 'p supervisor" where
  "tick_handle heartbeat now h s =
     (let s1 = tick_check now h s
      in tick_outcome (heartbeat (lh_payload (hs_heap s1 ! h)) (lh_lease_seconds (hs_heap s1 ! h))) s1)"

definition tick_once :: "('p \<Rightarrow> real \<Rightarrow> bool result) \<Rightarrow> real \<Rightarrow> 'p supervisor \<Rightarrow> 'p supervisor" where
  "tick_once heartbeat now s = fold (tick_handle heartbeat now) (map snd (hs_handles s)) s"

text \<open>The seconds between two ticks of the loop.\<close>

definition tick_poll_s :: "'p supervisor \<Rightarrow> real" where
  "tick_poll_s s = min 1 (max 0.1 (hs_interval_s s / 2))"

definition supervisor_close :: "'p supervisor \<Rightarrow> 'p supervisor" where
  "supervisor_close s =
     fold (\<lambda>h. with_handle h mark_unregistered) (map snd (hs_handles s)) (s\<lparr>hs_handles := []\<rparr>)"

definition supervisor_snapshot :: "'p supervisor \<Rightarrow> (string \<times> real) list" where
  "supervisor_snapshot s =
     [(''active'', real (length (hs_handles s))), (''interval_s'', hs_interval_s s),
      (''max_attempt_age_s'', hs_max_attempt_age_s s), (''heartbeat_total'', of_int (hs_heartbeat_total s)),
      (''lost_total'', of_int (hs_lost_total s)), (''expired_total'', of_int (hs_expired_total s)),
      (''error_total'', of_int (hs_error_total s))]"

section \<open>Steps\<close>

text \<open>
  Handles that were never issued cannot be passed to the supervisor, and the one loop thread
  finishes a renewal before it looks at the next handle; the steps leave the state alone
  otherwise.  The marking that ends \<open>unregister\<close> and \<open>close\<close> may run later than the removal,
  as the separate step \<open>Mark_Unregistered\<close>.
\<close>

datatype 'p lease_event =
    Register real string 'p real
  | Drop_Lease nat
  | Mark_Unregistered nat
  | Check_Lease real nat
  | Renewal_Outcome "bool result"
  | Clear_Leases

fun lease_step :: "'p lease_event \<Rightarrow> 'p supervisor \<Rightarrow> 'p supervisor" where
  "lease_step (Register now key payload lease_seconds) s = snd (register_lease now key payload lease_seconds s)"
| "lease_step (Drop_Lease h) s = (if h < length (hs_heap s) then remove_lease h s else s)"
| "lease_step (Mark_Unregistered h) s =
     (if h < length (hs_heap s) then with_handle h mark_unregistered s else s)"
| "lease_step (Check_Lease now h) s =
     (if h < length (hs_heap s) \<and> hs_calling s = None then tick_check now h s else s)"
| "lease_step (Renewal_Outcome outcome) s = tick_outcome outcome s"
| "lease_step Clear_Leases s = s\<lparr>hs_handles := []\<rparr>"

lemma with_handle_frame [simp]:
  "hs_handles (with_handle h f s) = hs_handles s" "hs_calling (with_handle h f s) = hs_calling s"
  "hs_calls (with_handle h f s) = hs_calls s" "hs_interval_s (with_handle h f s) = hs_interval_s s"
  "hs_max_attempt_age_s (with_handle h f s) = hs_max_attempt_age_s s"
  "length (hs_heap (with_handle h f s)) = length (hs_heap s)"
  by (simp_all add: with_handle_def)

lemma with_handle_heap:
  "h < length (hs_heap s) \<Longrightarrow> hs_heap (with_handle h f s) ! k = (if k = h then f (hs_heap s ! h) else hs_heap s ! k)"
  by (simp add: with_handle_def nth_list_update)

lemma remove_lease_frame [simp]:
  "hs_heap (remove_lease h s) = hs_heap s" "hs_calling (remove_lease h s) = hs_calling s"
  "hs_calls (remove_lease h s) = hs_calls s" "hs_interval_s (remove_lease h s) = hs_interval_s s"
  "hs_max_attempt_age_s (remove_lease h s) = hs_max_attempt_age_s s"
  by (simp_all add: remove_lease_def Let_def)

section \<open>Renewals are bounded\<close>

definition renewals :: "'p supervisor \<Rightarrow> nat \<Rightarrow> nat" where
  "renewals s h = length (filter (\<lambda>c. fst c = h) (hs_calls s))"

text \<open>
  The renewals of a handle, the one in progress included, fill disjoint intervals between the
  attempt's start and the time at which the next one is due.
\<close>

definition lease_ok :: "real \<Rightarrow> real \<Rightarrow> (nat \<times> real) option \<Rightarrow> nat \<Rightarrow> nat \<Rightarrow> 'p lease_handle \<Rightarrow> bool" where
  "lease_ok i m calling n h handle \<longleftrightarrow>
     real n * i \<le> m \<and>
     (\<forall>now. calling = Some (h, now) \<longrightarrow> lh_started_at handle + real n * i \<le> now) \<and>
     (lease_healthy handle \<longrightarrow> (\<forall>now. calling \<noteq> Some (h, now)) \<longrightarrow>
        lh_started_at handle + (real n + 1) * i \<le> lh_next_due_at handle)"

definition table_ok :: "'p supervisor \<Rightarrow> bool" where
  "table_ok s \<longleftrightarrow>
     dict_ok (hs_handles s) \<and>
     (\<forall>k h. dget (hs_handles s) k = Some h \<longrightarrow> h < length (hs_heap s) \<and> lh_key (hs_heap s ! h) = k)"

definition renewals_ok :: "'p supervisor \<Rightarrow> bool" where
  "renewals_ok s \<longleftrightarrow>
     0 < hs_interval_s s \<and> hs_interval_s s \<le> hs_max_attempt_age_s s \<and>
     (\<forall>c. hs_calling s = Some c \<longrightarrow> fst c < length (hs_heap s)) \<and>
     (\<forall>h. length (hs_heap s) \<le> h \<longrightarrow> renewals s h = 0) \<and>
     (\<forall>h < length (hs_heap s).
        lease_ok (hs_interval_s s) (hs_max_attempt_age_s s) (hs_calling s) (renewals s h) h (hs_heap s ! h))"

lemma table_ok_init: "table_ok (supervisor_init i m)"
  by (simp add: table_ok_def supervisor_init_def Let_def)

lemma renewals_ok_init: "renewals_ok (supervisor_init i m)"
  by (auto simp: renewals_ok_def supervisor_init_def renewals_def Let_def)

lemma table_ok_less:
  assumes "table_ok s" and "dict_ok (hs_handles t)" and "hs_heap t = hs_heap s"
    and "\<And>k h. dget (hs_handles t) k = Some h \<Longrightarrow> dget (hs_handles s) k = Some h"
  shows "table_ok t"
  unfolding table_ok_def assms(3) using assms(1,2) assms(4) unfolding table_ok_def by blast

lemma table_ok_remove: "table_ok s \<Longrightarrow> table_ok (remove_lease h s)"
proof -
  assume ok: "table_ok s"
  then have d: "dict_ok (hs_handles s)" by (simp add: table_ok_def)
  show ?thesis
    by (rule table_ok_less [OF ok]) (simp_all add: remove_lease_def Let_def d dict_simps split: if_splits)
qed

lemma renewals_frame [simp]:
  "renewals (with_handle h f s) k = renewals s k" "renewals (remove_lease h s) k = renewals s k"
  by (simp_all add: renewals_def)

lemma renewals_ok_remove: "renewals_ok (remove_lease h s) = renewals_ok s"
  by (simp add: renewals_ok_def)

lemma table_ok_with_handle:
  "table_ok s \<Longrightarrow> h < length (hs_heap s) \<Longrightarrow> (\<And>x. lh_key (f x) = lh_key x) \<Longrightarrow> table_ok (with_handle h f s)"
  by (auto simp: table_ok_def with_handle_heap)

text \<open>A handle may be shut down at any time.\<close>

lemma renewals_ok_shut:
  assumes ok: "renewals_ok s" and h: "h < length (hs_heap s)" and "\<And>x. \<not> lease_healthy (f x)"
    and "\<And>x. lh_started_at (f x) = lh_started_at x"
  shows "renewals_ok (with_handle h f s)"
proof -
  let ?ok = "\<lambda>k. lease_ok (hs_interval_s s) (hs_max_attempt_age_s s) (hs_calling s) (renewals s k) k"
  have "?ok k (hs_heap s ! k)" if "k < length (hs_heap s)" for k
    using ok that by (simp add: renewals_ok_def)
  then have "?ok k (hs_heap (with_handle h f s) ! k)" if "k < length (hs_heap s)" for k
    using assms(3,4) h that by (simp add: with_handle_heap lease_ok_def)
  with ok show ?thesis by (simp add: renewals_ok_def)
qed

lemma shut_marks:
  "\<not> lease_healthy (mark_lost x)" "\<not> lease_healthy (mark_expired x)" "\<not> lease_healthy (mark_unregistered x)"
  "lh_started_at (mark_lost x) = lh_started_at x" "lh_started_at (mark_expired x) = lh_started_at x"
  "lh_started_at (mark_unregistered x) = lh_started_at x"
  "lh_key (mark_lost x) = lh_key x" "lh_key (mark_expired x) = lh_key x" "lh_key (mark_unregistered x) = lh_key x"
  by (simp_all add: lease_healthy_def mark_lost_def mark_expired_def mark_unregistered_def)

lemma counters_frame [simp]:
  "table_ok (s\<lparr>hs_expired_total := e\<rparr>) = table_ok s" "renewals_ok (s\<lparr>hs_expired_total := e\<rparr>) = renewals_ok s"
  "table_ok (s\<lparr>hs_lost_total := e\<rparr>) = table_ok s" "renewals_ok (s\<lparr>hs_lost_total := e\<rparr>) = renewals_ok s"
  "table_ok (s\<lparr>hs_error_total := e\<rparr>) = table_ok s" "renewals_ok (s\<lparr>hs_error_total := e\<rparr>) = renewals_ok s"
  "table_ok (s\<lparr>hs_heartbeat_total := e\<rparr>) = table_ok s" "renewals_ok (s\<lparr>hs_heartbeat_total := e\<rparr>) = renewals_ok s"
  by (simp_all add: table_ok_def renewals_ok_def renewals_def)

text \<open>A new handle.\<close>

definition issue_lease :: "string \<Rightarrow> 'p lease_handle \<Rightarrow> 'p supervisor \<Rightarrow> 'p supervisor" where
  "issue_lease key handle s =
     s\<lparr>hs_handles := dset key (length (hs_heap s)) (dpop key (hs_handles s)), hs_heap := hs_heap s @ [handle]\<rparr>"

lemma register_lease_issue:
  "snd (register_lease now key payload lease_seconds s) =
     issue_lease key (lease_handle_init key payload (max 1 lease_seconds) now (now + hs_interval_s s))
       (case dget (hs_handles s) key of None \<Rightarrow> s | Some previous \<Rightarrow> with_handle previous mark_unregistered s)"
  by (auto simp: register_lease_def issue_lease_def Let_def split: option.splits)

lemma table_ok_issue: "table_ok s \<Longrightarrow> lh_key handle = key \<Longrightarrow> table_ok (issue_lease key handle s)"
  by (auto simp: table_ok_def issue_lease_def dict_simps nth_append less_Suc_eq split: if_splits)

lemma renewals_ok_issue:
  assumes "renewals_ok s" and "lh_started_at handle + hs_interval_s s \<le> lh_next_due_at handle"
  shows "renewals_ok (issue_lease key handle s)"
proof -
  have r: "renewals (issue_lease key handle s) k = renewals s k" for k
    by (simp add: renewals_def issue_lease_def)
  have "hs_calling s \<noteq> Some (length (hs_heap s), now)" for now
    using assms(1) by (force simp: renewals_ok_def)
  moreover have "renewals s (length (hs_heap s)) = 0" using assms(1) by (simp add: renewals_ok_def)
  ultimately show ?thesis
    using assms unfolding renewals_ok_def r
    by (auto simp: issue_lease_def nth_append less_Suc_eq lease_ok_def)
qed

lemma register_ok:
  assumes "table_ok s" and "renewals_ok s"
  shows "table_ok (snd (register_lease now key payload ls s)) \<and> renewals_ok (snd (register_lease now key payload ls s))"
proof -
  let ?s1 = "case dget (hs_handles s) key of None \<Rightarrow> s | Some previous \<Rightarrow> with_handle previous mark_unregistered s"
  have "table_ok ?s1 \<and> renewals_ok ?s1 \<and> hs_interval_s ?s1 = hs_interval_s s"
  proof (cases "dget (hs_handles s) key")
    case (Some h)
    with assms(1) have "h < length (hs_heap s)" by (auto simp: table_ok_def)
    with Some assms show ?thesis
      by (auto intro!: table_ok_with_handle renewals_ok_shut simp: shut_marks)
  qed (use assms in simp)
  then show ?thesis
    unfolding register_lease_issue
    by (auto intro!: table_ok_issue renewals_ok_issue simp: lease_handle_init_def)
qed

lemma check_table_ok: "table_ok s \<Longrightarrow> h < length (hs_heap s) \<Longrightarrow> table_ok (tick_check now h s)"
proof -
  assume ok: "table_ok s" and h: "h < length (hs_heap s)"
  have "table_ok (s\<lparr>hs_calling := a, hs_calls := b\<rparr>)" for a b using ok by (simp add: table_ok_def)
  then show ?thesis
    using ok h by (auto simp: tick_check_def Let_def shut_marks intro!: table_ok_remove table_ok_with_handle)
qed

lemma check_renewals_ok:
  assumes ok: "renewals_ok s" and h: "h < length (hs_heap s)" and idle: "hs_calling s = None"
  shows "renewals_ok (tick_check now h s)"
proof (cases "lease_healthy (hs_heap s ! h) \<and> now - lh_started_at (hs_heap s ! h) < hs_max_attempt_age_s s \<and>
    lh_next_due_at (hs_heap s ! h) \<le> now")
  case True
  let ?s = "tick_check now h s"
  have s': "?s = s\<lparr>hs_calling := Some (h, now), hs_calls := (h, now) # hs_calls s\<rparr>"
    using True by (simp add: tick_check_def Let_def)
  have n: "renewals ?s k = (if k = h then Suc (renewals s h) else renewals s k)" for k
    by (simp add: s' renewals_def)
  have ok_k: "lease_ok (hs_interval_s s) (hs_max_attempt_age_s s) None (renewals s k) k (hs_heap s ! k)"
    if "k < length (hs_heap s)" for k
    using ok that idle by (simp add: renewals_ok_def)
  have "lease_ok (hs_interval_s s) (hs_max_attempt_age_s s) (Some (h, now)) (renewals ?s k) k (hs_heap s ! k)"
    if "k < length (hs_heap s)" for k
    using ok_k [OF that] True by (cases "k = h") (auto simp: n lease_ok_def algebra_simps)
  moreover have "renewals ?s k = 0" if "length (hs_heap s) \<le> k" for k
    using ok h that n [of k] by (simp add: renewals_ok_def)
  moreover have "hs_heap ?s = hs_heap s" "hs_calling ?s = Some (h, now)" "hs_interval_s ?s = hs_interval_s s"
    "hs_max_attempt_age_s ?s = hs_max_attempt_age_s s" by (simp_all add: s')
  ultimately show ?thesis using ok h by (simp add: renewals_ok_def)
next
  case False
  then have "tick_check now h s = s \<or> tick_check now h s = remove_lease h s \<or>
      tick_check now h s = remove_lease h (with_handle h mark_expired (s\<lparr>hs_expired_total := hs_expired_total s + 1\<rparr>))"
    by (auto simp: tick_check_def Let_def)
  with ok h show ?thesis
    by (auto simp: renewals_ok_remove shut_marks intro!: renewals_ok_shut)
qed

lemma outcome_table_ok: "table_ok s \<Longrightarrow> renewals_ok s \<Longrightarrow> table_ok (tick_outcome outcome s)"
proof (cases "hs_calling s")
  case (Some c)
  assume ok: "table_ok s" "renewals_ok s"
  obtain h now where c: "c = (h, now)" by (cases c)
  with Some ok have h: "h < length (hs_heap s)" by (auto simp: renewals_ok_def)
  have idle: "table_ok (s\<lparr>hs_calling := None\<rparr>)" using ok by (simp add: table_ok_def)
  show ?thesis
    using Some c h idle
    by (auto simp: tick_outcome_def Let_def shut_marks mark_heartbeat_def
        intro!: table_ok_remove table_ok_with_handle split: sum.splits)
qed (simp add: tick_outcome_def)

lemma renewals_ok_idle:
  assumes ok: "renewals_ok s" and calling: "hs_calling s = Some (h, now)"
    and f: "\<And>x. lh_started_at (f x) = lh_started_at x"
    and due: "\<And>x. lease_healthy (f x) \<Longrightarrow> lh_next_due_at (f x) = now + hs_interval_s s"
  shows "renewals_ok (with_handle h f (s\<lparr>hs_calling := None\<rparr>))"
proof -
  have h: "h < length (hs_heap s)" using ok calling by (auto simp: renewals_ok_def)
  let ?ok = "lease_ok (hs_interval_s s) (hs_max_attempt_age_s s)"
  have old: "?ok (Some (h, now)) (renewals s k) k (hs_heap s ! k)" if "k < length (hs_heap s)" for k
    using ok that calling by (simp add: renewals_ok_def)
  have "?ok None (renewals s k) k (hs_heap (with_handle h f s) ! k)" if "k < length (hs_heap s)" for k
    using old [OF that] f due h
    by (cases "k = h") (auto simp: with_handle_heap lease_ok_def algebra_simps)
  with ok show ?thesis by (simp add: renewals_ok_def renewals_def with_handle_def)
qed

lemma outcome_renewals_ok: "renewals_ok s \<Longrightarrow> renewals_ok (tick_outcome outcome s)"
proof (cases "hs_calling s")
  case (Some c)
  assume ok: "renewals_ok s"
  obtain h now where c: "hs_calling s = Some (h, now)" using Some by (cases c) simp
  have lost: "renewals_ok (with_handle h mark_lost (s\<lparr>hs_calling := None\<rparr>))"
    by (rule renewals_ok_idle [OF ok c]) (simp_all add: shut_marks)
  have beat: "renewals_ok (with_handle h (mark_heartbeat now (now + hs_interval_s s)) (s\<lparr>hs_calling := None\<rparr>))"
    by (rule renewals_ok_idle [OF ok c]) (auto simp: mark_heartbeat_def lease_healthy_def)
  have move: "with_handle h f (s\<lparr>hs_lost_total := a\<rparr>) = (with_handle h f s)\<lparr>hs_lost_total := a\<rparr>"
    "with_handle h f (s\<lparr>hs_error_total := a\<rparr>) = (with_handle h f s)\<lparr>hs_error_total := a\<rparr>"
    "with_handle h f (s\<lparr>hs_heartbeat_total := a\<rparr>) = (with_handle h f s)\<lparr>hs_heartbeat_total := a\<rparr>"
    for f a and s :: "'a supervisor" by (simp_all add: with_handle_def)
  show ?thesis
    using lost beat c
    by (auto simp: tick_outcome_def Let_def move renewals_ok_remove split: sum.splits)
qed (simp add: tick_outcome_def)

lemma lease_step_ok: "table_ok s \<and> renewals_ok s \<Longrightarrow> table_ok (lease_step e s) \<and> renewals_ok (lease_step e s)"
proof (cases e)
  case Clear_Leases
  assume "table_ok s \<and> renewals_ok s"
  with Clear_Leases show ?thesis by (simp add: table_ok_def renewals_ok_def renewals_def)
qed (auto simp: register_ok renewals_ok_remove shut_marks outcome_table_ok outcome_renewals_ok
    check_table_ok check_renewals_ok intro: table_ok_remove intro!: table_ok_with_handle renewals_ok_shut)

interpretation leases: transition_system
  "supervisor_init i m" lease_step "\<lambda>s. table_ok s \<and> renewals_ok s"
  by unfold_locales (auto simp: table_ok_init renewals_ok_init intro: lease_step_ok [THEN conjunct1] lease_step_ok [THEN conjunct2])

text \<open>An uninterrupted iteration of the loop is its two steps in a row.\<close>

lemma tick_handle_steps:
  assumes "h < length (hs_heap s)" and "hs_calling s = None"
  shows "tick_handle heartbeat now h s =
    fold lease_step
      [Check_Lease now h,
       Renewal_Outcome (heartbeat (lh_payload (hs_heap (tick_check now h s) ! h))
         (lh_lease_seconds (hs_heap (tick_check now h s) ! h)))] s"
  using assms by (simp add: tick_handle_def Let_def)

section \<open>A lease that is shut down stays so\<close>

definition leases_below :: "'p supervisor \<Rightarrow> 'p supervisor \<Rightarrow> bool" where
  "leases_below s t \<longleftrightarrow>
     length (hs_heap s) \<le> length (hs_heap t) \<and>
     (\<forall>h < length (hs_heap s). \<not> lease_healthy (hs_heap s ! h) \<longrightarrow>
        \<not> lease_healthy (hs_heap t ! h) \<and> renewals t h = renewals s h \<and>
        lh_last_heartbeat_at (hs_heap t ! h) = lh_last_heartbeat_at (hs_heap s ! h))"

lemma leases_below_refl: "leases_below s s"
  by (simp add: leases_below_def)

lemma leases_below_trans: "leases_below s t \<Longrightarrow> leases_below t u \<Longrightarrow> leases_below s u"
  by (fastforce simp: leases_below_def)

lemma leases_below_remove: "leases_below s (remove_lease h t) = leases_below s t"
  by (simp add: leases_below_def)

lemma leases_below_with_handle:
  assumes "leases_below s t"
    and "\<And>x. \<not> lease_healthy x \<Longrightarrow> \<not> lease_healthy (f x) \<and> lh_last_heartbeat_at (f x) = lh_last_heartbeat_at x"
  shows "leases_below s (with_handle h f t)"
proof (cases "h < length (hs_heap t)")
  case True
  then show ?thesis using assms by (auto simp: leases_below_def with_handle_heap)
qed (use assms in \<open>simp add: with_handle_def leases_below_def renewals_def\<close>)

lemma leases_below_counters [simp]:
  "leases_below s (t\<lparr>hs_expired_total := e\<rparr>) = leases_below s t"
  "leases_below s (t\<lparr>hs_lost_total := e\<rparr>) = leases_below s t"
  "leases_below s (t\<lparr>hs_error_total := e\<rparr>) = leases_below s t"
  "leases_below s (t\<lparr>hs_heartbeat_total := e\<rparr>) = leases_below s t"
  "leases_below s (t\<lparr>hs_calling := c\<rparr>) = leases_below s t"
  "leases_below s (t\<lparr>hs_handles := d\<rparr>) = leases_below s t"
  by (simp_all add: leases_below_def renewals_def)

lemma leases_below_issue: "leases_below s t \<Longrightarrow> leases_below s (issue_lease key handle t)"
  by (auto simp: leases_below_def issue_lease_def nth_append renewals_def)

lemma marks_shut:
  "\<not> lease_healthy x \<Longrightarrow> mark_heartbeat now due x = x"
  "lh_last_heartbeat_at (mark_lost x) = lh_last_heartbeat_at x"
  "lh_last_heartbeat_at (mark_expired x) = lh_last_heartbeat_at x"
  "lh_last_heartbeat_at (mark_unregistered x) = lh_last_heartbeat_at x"
  by (simp_all add: mark_heartbeat_def lease_healthy_def mark_lost_def mark_expired_def mark_unregistered_def)

lemma leases_below_check: "leases_below s (tick_check now h s)"
proof (cases "lease_healthy (hs_heap s ! h)")
  case True
  then have "leases_below s (s\<lparr>hs_calling := Some (h, now), hs_calls := (h, now) # hs_calls s\<rparr>)"
    by (auto simp: leases_below_def renewals_def)
  then show ?thesis
    by (auto simp: tick_check_def Let_def leases_below_remove leases_below_refl shut_marks marks_shut
        intro!: leases_below_with_handle)
qed (simp add: tick_check_def leases_below_remove leases_below_refl)

lemma leases_below_step: "leases_below s (lease_step e s)"
proof (cases e)
  case (Register now key payload ls)
  then show ?thesis
    by (auto simp: register_lease_issue shut_marks marks_shut leases_below_refl
        intro!: leases_below_issue leases_below_with_handle split: option.split)
next
  case (Renewal_Outcome outcome)
  then show ?thesis
    by (auto simp: tick_outcome_def Let_def leases_below_remove shut_marks marks_shut leases_below_refl
        intro!: leases_below_with_handle split: option.splits sum.splits)
qed (auto simp: leases_below_remove shut_marks marks_shut leases_below_refl leases_below_check
    intro!: leases_below_with_handle)

interpretation lease_order: monotone_system lease_step leases_below
  by unfold_locales (auto intro: leases_below_refl leases_below_trans leases_below_step)

lemma register_lease_new:
  assumes "register_lease now key payload ls s = (new, s')"
  shows "new = length (hs_heap s)" and "dget (hs_handles s') key = Some new"
    and "hs_heap s' ! new = lease_handle_init key payload (max 1 ls) now (now + hs_interval_s s)"
  using assms
  by (auto simp: register_lease_def Let_def dict_simps nth_append_length [of "hs_heap (with_handle _ _ s)", simplified]
      split: option.splits)

lemma register_lease_old:
  assumes "table_ok s" and "dget (hs_handles s) key = Some old"
    and "register_lease now key payload ls s = (new, s')"
  shows "old \<noteq> new" and "hs_heap s' ! old = mark_unregistered (hs_heap s ! old)" and "lh_key (hs_heap s' ! old) = key"
proof -
  have o: "old < length (hs_heap s)" "lh_key (hs_heap s ! old) = key"
    using assms(1,2) by (auto simp: table_ok_def)
  have "s' = issue_lease key (lease_handle_init key payload (max 1 ls) now (now + hs_interval_s s))
      (with_handle old mark_unregistered s)"
    using register_lease_issue [of now key payload ls s] assms(2,3) by simp
  with o show h: "hs_heap s' ! old = mark_unregistered (hs_heap s ! old)"
    by (simp add: issue_lease_def nth_append with_handle_heap)
  show "old \<noteq> new" using o register_lease_new(1) [OF assms(3)] by simp
  show "lh_key (hs_heap s' ! old) = key" using o h by (simp add: mark_unregistered_def)
qed

lemma unregister_stale:
  assumes "dget (hs_handles s) (lh_key (hs_heap s ! old)) = Some new" and "old \<noteq> new"
  shows "hs_handles (unregister_lease (Some old) s) = hs_handles s"
    and "hs_heap (unregister_lease (Some old) s) ! new = hs_heap s ! new"
  using assms by (simp_all add: unregister_lease_def remove_lease_def with_handle_def)

section \<open>Properties\<close>

text \<open>
  whatever the clock does and however registrations, removals and ticks interleave, the
  renewals that are attempted for one lease fit into the maximal age of its attempt at one per
  interval, so an attempt that hangs cannot keep its lease alive for ever.
\<close>

theorem renewals_bounded:
  "real (renewals (fold lease_step es (supervisor_init interval_s max_attempt_age_s)) h) * max 0.1 interval_s
   \<le> max (max 0.1 interval_s) max_attempt_age_s"
proof -
  let ?s = "fold lease_step es (supervisor_init interval_s max_attempt_age_s)"
  have "hs_interval_s (lease_step e s) = hs_interval_s s \<and>
      hs_max_attempt_age_s (lease_step e s) = hs_max_attempt_age_s s" for e and s :: "'a supervisor"
    by (cases e) (auto simp: register_lease_def tick_check_def tick_outcome_def Let_def
        split: option.splits sum.splits)
  then have "hs_interval_s (fold lease_step es s) = hs_interval_s s \<and>
      hs_max_attempt_age_s (fold lease_step es s) = hs_max_attempt_age_s s" for s :: "'a supervisor"
    by (induction es arbitrary: s) simp_all
  then have p: "hs_interval_s ?s = max 0.1 interval_s"
    "hs_max_attempt_age_s ?s = max (max 0.1 interval_s) max_attempt_age_s"
    by (simp_all add: supervisor_init_def Let_def)
  have ok: "renewals_ok ?s" using leases.run by blast
  have "real (renewals ?s h) * hs_interval_s ?s \<le> hs_max_attempt_age_s ?s"
    using ok by (cases "h < length (hs_heap ?s)") (auto simp: renewals_ok_def lease_ok_def)
  then show ?thesis unfolding p .
qed

text \<open>
  once a handle is lost, expired or unregistered, no later interleaving makes it healthy again,
  attempts another renewal for it or moves the time of its last renewal.
\<close>

theorem shut_lease_stays_shut:
  assumes "h < length (hs_heap s)" and "\<not> lease_healthy (hs_heap s ! h)"
  shows "\<not> lease_healthy (hs_heap (fold lease_step es s) ! h) \<and>
    renewals (fold lease_step es s) h = renewals s h \<and>
    lh_last_heartbeat_at (hs_heap (fold lease_step es s) ! h) = lh_last_heartbeat_at (hs_heap s ! h)"
  using lease_order.run_climbs [of s es] assms by (simp add: leases_below_def)

theorem shut_lease_stays_shut_witness:
  "let s = fold lease_step [Register 0 ''job'' () 30, Mark_Unregistered 0] (supervisor_init 10 60)
   in \<not> lease_healthy (hs_heap (fold lease_step [Check_Lease 20 0, Renewal_Outcome (Inr True)] s) ! 0) \<and>
      renewals (fold lease_step [Check_Lease 20 0, Renewal_Outcome (Inr True)] s) 0 = renewals s 0"
proof -
  let ?s = "fold lease_step [Register 0 ''job'' () 30, Mark_Unregistered 0] (supervisor_init 10 60)"
  have "0 < length (hs_heap ?s)" "\<not> lease_healthy (hs_heap ?s ! 0)"
    by (simp_all add: register_lease_issue issue_lease_def supervisor_init_def with_handle_def shut_marks Let_def)
  from shut_lease_stays_shut [OF this, of "[Check_Lease 20 0, Renewal_Outcome (Inr True)]"]
  show ?thesis unfolding Let_def by blast
qed

text \<open>
  registering a key again replaces the key's handle: the earlier handle is shut down, the new
  one is healthy and current, and a late \<open>unregister\<close> of the earlier handle leaves the new one in
  place.
\<close>

theorem stale_unregister_harmless:
  "let s = fold lease_step es (supervisor_init interval_s max_attempt_age_s);
       (new, s') = register_lease now key payload lease_seconds s
   in dget (hs_handles s') key = Some new \<and> lease_healthy (hs_heap s' ! new) \<and>
      (case dget (hs_handles s) key of
         None \<Rightarrow> True
       | Some old \<Rightarrow>
           old \<noteq> new \<and> \<not> lease_healthy (hs_heap s' ! old) \<and>
           dget (hs_handles (unregister_lease (Some old) s')) key = Some new \<and>
           hs_heap (unregister_lease (Some old) s') ! new = hs_heap s' ! new)"
proof -
  let ?s = "fold lease_step es (supervisor_init interval_s max_attempt_age_s)"
  have ok: "table_ok ?s" using leases.run by blast
  obtain new s' where reg: "register_lease now key payload lease_seconds ?s = (new, s')" by fastforce
  note new = register_lease_new [OF reg]
  have "lease_healthy (hs_heap s' ! new)" by (simp add: new(3) lease_handle_init_def lease_healthy_def)
  moreover have "old \<noteq> new \<and> \<not> lease_healthy (hs_heap s' ! old) \<and>
      dget (hs_handles (unregister_lease (Some old) s')) key = Some new \<and>
      hs_heap (unregister_lease (Some old) s') ! new = hs_heap s' ! new"
    if "dget (hs_handles ?s) key = Some old" for old
    using register_lease_old [OF ok that reg] unregister_stale [of s' old new] new(2)
    by (simp add: shut_marks)
  ultimately show ?thesis
    unfolding Let_def reg by (cases "dget (hs_handles ?s) key") (simp_all add: new(2))
qed

end
