(* ===== verification/Sampler.thy ===== *)
theory Sampler
  imports PyValue
begin

text \<open>
  The frame sampler of \<^verbatim>\<open>services/analysis-forwarder/app/sampler.py\<close>: a credit per
  source in the time domain of the frames' presentation timestamps decides which frames go on
  to the analysis, and a metadata filter decides which frames a side pipeline sees.
\<close>

section \<open>Configuration values\<close>

text \<open>\<open>value in (None, "")\<close>\<close>

definition is_blank :: "pyval \<Rightarrow> bool" where
  "is_blank v \<longleftrightarrow> v = PNone \<or> v = PStr []"

text \<open>
  \<open>float(Fraction(s))\<close> for a text with a slash: digits, a slash between optional spaces, digits.
  \<open>None\<close> is any exception, a zero denominator included.
\<close>

definition parse_fraction :: "string \<Rightarrow> real option" where
  "parse_fraction s =
     (case break_at (\<lambda>c. c = CHR ''/'') (py_strip s) of
        (_, None) \<Rightarrow> None
      | (l, Some r) \<Rightarrow>
          (let (sg, num) = split_sign (rev (dropWhile is_space (rev l)))
           in case (digit_part 0 False num, digit_part 0 False (dropWhile is_space r)) of
                (Some n, Some d) \<Rightarrow> if d = 0 then None else Some (of_int sg * real n / real d)
              | _ \<Rightarrow> None))"

definition parse_fps :: "pyval \<Rightarrow> real \<Rightarrow> pyfloat" where
  "parse_fps value default_fps =
     (if is_blank value then Fin default_fps
      else
        (case value of
           PStr s \<Rightarrow>
             if contains_sub ''/'' s then Fin (case parse_fraction s of Some x \<Rightarrow> x | None \<Rightarrow> default_fps)
             else (case parse_float s of Some x \<Rightarrow> x | None \<Rightarrow> Fin default_fps)
         | _ \<Rightarrow> (case py_float value of Inr x \<Rightarrow> x | Inl _ \<Rightarrow> Fin default_fps)))"

definition time_base_to_seconds :: "pyval \<Rightarrow> real option" where
  "time_base_to_seconds value =
     (if is_blank value then None
      else
        (case value of
           PStr s \<Rightarrow> if contains_sub ''/'' s then parse_fraction s else None
         | PList [a, b] \<Rightarrow>
             (case rbind (py_int a) (\<lambda>x. rbind (py_int b) (\<lambda>y. Inr (x, y))) of
                Inr (x, y) \<Rightarrow> if y = 0 then None else Some (of_int x / of_int y)
              | Inl _ \<Rightarrow> None)
         | _ \<Rightarrow> None))"

definition boolish :: "(pyval \<Rightarrow> string) \<Rightarrow> pyval \<Rightarrow> bool" where
  "boolish rp value =
     (case value of
        PBool b \<Rightarrow> b
      | PNone \<Rightarrow> False
      | _ \<Rightarrow> py_lower (py_strip (py_str rp value)) \<in> {''1'', ''true'', ''yes'', ''on''})"

definition bool_or_none :: "(pyval \<Rightarrow> string) \<Rightarrow> pyval \<Rightarrow> bool option" where
  "bool_or_none rp value =
     (case value of
        PBool b \<Rightarrow> Some b
      | PNone \<Rightarrow> None
      | _ \<Rightarrow>
          (let t = py_lower (py_strip (py_str rp value))
           in if t \<in> {''1'', ''true'', ''yes'', ''on''} then Some True
              else if t \<in> {''0'', ''false'', ''no'', ''off''} then Some False
              else None))"

definition int_or_none :: "pyval \<Rightarrow> int option" where
  "int_or_none value =
     (case value of
        PNone \<Rightarrow> None
      | PBool _ \<Rightarrow> None
      | _ \<Rightarrow> (case py_int value of Inr i \<Rightarrow> Some i | Inl _ \<Rightarrow> None))"

definition text_or_none :: "(pyval \<Rightarrow> string) \<Rightarrow> pyval \<Rightarrow> string option" where
  "text_or_none rp value =
     (if value = PNone then None
      else
        (let t = py_str rp value
         in if py_strip t \<noteq> [] \<and> t \<noteq> ''None'' \<and> t \<noteq> ''null'' then Some t else None))"

section \<open>Frames\<close>

text \<open>
  What the sampler reads of a frame; a missing attribute is \<open>PNone\<close>.  \<open>vf_is_none\<close> is the
  outcome of calling \<open>content.is_none\<close>, \<open>None\<close> when it is not callable.
\<close>

record video_frame =
  vf_source_id :: pyval
  vf_pts :: pyval
  vf_time_base :: pyval
  vf_keyframe :: pyval
  vf_uuid :: pyval
  vf_keyframe_uuid :: pyval
  vf_is_none :: "pyval result option"

definition source_key_of :: "(pyval \<Rightarrow> string) \<Rightarrow> video_frame \<Rightarrow> string" where
  "source_key_of rp f =
     (let source_id = py_str rp (py_or (vf_source_id f) (PStr []))
      in if source_id = [] then ''_unknown_source'' else source_id)"

definition frame_pts_ns :: "video_frame \<Rightarrow> int option" where
  "frame_pts_ns f =
     (case int_or_none (vf_pts f) of
        None \<Rightarrow> None
      | Some pts \<Rightarrow>
          (case time_base_to_seconds (vf_time_base f) of
             None \<Rightarrow> Some pts
           | Some scale \<Rightarrow> Some (py_round (of_int pts * scale * 1000000000))))"

definition content_is_none :: "video_frame \<Rightarrow> bool" where
  "content_is_none f = (case vf_is_none f of Some (Inr v) \<Rightarrow> truthy v | _ \<Rightarrow> False)"

definition is_keyframe :: "(pyval \<Rightarrow> string) \<Rightarrow> video_frame \<Rightarrow> bool" where
  "is_keyframe rp f =
     (if bool_or_none rp (vf_keyframe f) = Some True then True
      else
        (case (text_or_none rp (vf_uuid f), text_or_none rp (vf_keyframe_uuid f)) of
           (Some u, Some k) \<Rightarrow> u \<noteq> [] \<and> k \<noteq> [] \<and> u = k
         | _ \<Rightarrow> False))"

section \<open>The sampler\<close>

record pts_sampler =
  ps_enabled :: bool
  ps_max_fps :: pyfloat
  ps_min_fps :: pyfloat
  ps_min_interval_ns :: int
  ps_pts_quantization_slack_ns :: int
  ps_max_credit_ns :: int
  ps_last_accepted :: "(string, int) dict"
  ps_last_observed :: "(string, int) dict"
  ps_credit :: "(string, int) dict"

text \<open>\<open>int(round(1_000_000_000 / fps))\<close> of a positive rate; the quotient by infinity is 0.\<close>

definition interval_of_fps :: "bool \<Rightarrow> pyfloat \<Rightarrow> int" where
  "interval_of_fps enabled fps =
     (if enabled \<and> flt_less (Fin 0) fps
      then (case fps of Fin x \<Rightarrow> py_round (1000000000 / x) | _ \<Rightarrow> 0)
      else 0)"

definition sampler_init :: "(pyval \<Rightarrow> string) \<Rightarrow> pyval \<Rightarrow> pyval \<Rightarrow> pyval \<Rightarrow> pts_sampler" where
  "sampler_init rp enabled max_fps min_fps =
     (let en = boolish rp enabled; fps = parse_fps max_fps 8; interval = interval_of_fps en fps
      in \<lparr>ps_enabled = en, ps_max_fps = fps, ps_min_fps = parse_fps min_fps 2,
          ps_min_interval_ns = interval,
          ps_pts_quantization_slack_ns = min 1000000 (interval div 1000),
          ps_max_credit_ns = interval * 2,
          ps_last_accepted = [], ps_last_observed = [], ps_credit = []\<rparr>)"

definition sampler_accept :: "string \<Rightarrow> int option \<Rightarrow> pts_sampler \<Rightarrow> pts_sampler" where
  "sampler_accept source_key pts s =
     (case pts of None \<Rightarrow> s | Some p \<Rightarrow> s\<lparr>ps_last_accepted := dset source_key p (ps_last_accepted s)\<rparr>)"

definition sampler_admit_pts :: "string \<Rightarrow> int \<Rightarrow> bool \<Rightarrow> pts_sampler \<Rightarrow> bool \<times> pts_sampler" where
  "sampler_admit_pts source_key pts force s =
     (let fresh = (case dget (ps_last_observed s) source_key of None \<Rightarrow> True | Some seen \<Rightarrow> pts \<le> seen)
      in if fresh
         then (True, sampler_accept source_key (Some pts)
                (s\<lparr>ps_last_observed := dset source_key pts (ps_last_observed s),
                   ps_credit := dset source_key 0 (ps_credit s)\<rparr>))
         else
           (let credit = min (ps_max_credit_ns s)
                  (dget_or (ps_credit s) source_key 0
                   + (pts - dget_or (ps_last_observed s) source_key 0));
                s1 = s\<lparr>ps_last_observed := dset source_key pts (ps_last_observed s)\<rparr>;
                paid = s1\<lparr>ps_credit := dset source_key (max 0 (credit - ps_min_interval_ns s)) (ps_credit s1)\<rparr>
            in if force then (True, sampler_accept source_key (Some pts) paid)
               else if credit + ps_pts_quantization_slack_ns s < ps_min_interval_ns s
               then (False, s1\<lparr>ps_credit := dset source_key credit (ps_credit s1)\<rparr>)
               else (True, sampler_accept source_key (Some pts) paid)))"

definition sampler_admit :: "(pyval \<Rightarrow> string) \<Rightarrow> video_frame \<Rightarrow> pts_sampler \<Rightarrow> bool \<times> pts_sampler" where
  "sampler_admit rp f s =
     (let key = source_key_of rp f
      in if content_is_none f then (False, s)
         else if \<not> ps_enabled s \<or> ps_min_interval_ns s \<le> 0
         then (True, sampler_accept key (frame_pts_ns f) s)
         else
           (case frame_pts_ns f of
              None \<Rightarrow> (True, sampler_accept key None s)
            | Some pts \<Rightarrow> sampler_admit_pts key pts (is_keyframe rp f) s))"

text \<open>The decisions over a sequence of frames.\<close>

fun sampler_run :: "(pyval \<Rightarrow> string) \<Rightarrow> video_frame list \<Rightarrow> pts_sampler \<Rightarrow> bool list \<times> pts_sampler" where
  "sampler_run rp [] s = ([], s)"
| "sampler_run rp (f # fs) s =
     (let (d, s1) = sampler_admit rp f s; (ds, s2) = sampler_run rp fs s1 in (d # ds, s2))"

section \<open>The metadata filter\<close>

text \<open>
  An object of a frame as the filter reads it; \<open>mo_attribute\<close> is the outcome of
  \<open>get_attribute\<close>, an exception or a value.
\<close>

record meta_object =
  mo_namespace :: pyval
  mo_label :: pyval
  mo_attribute :: "string \<Rightarrow> string \<Rightarrow> pyval result"

record metadata_filter =
  mf_object_namespace :: string
  mf_object_label :: string
  mf_attribute_namespace :: string
  mf_attribute_name :: string
  mf_enabled :: bool

definition metadata_filter_init :: "string \<Rightarrow> string \<Rightarrow> string \<Rightarrow> string \<Rightarrow> metadata_filter" where
  "metadata_filter_init object_namespace object_label attribute_namespace attribute_name =
     \<lparr>mf_object_namespace = object_namespace, mf_object_label = object_label,
      mf_attribute_namespace = attribute_namespace, mf_attribute_name = attribute_name,
      mf_enabled = (object_namespace \<noteq> [] \<or> object_label \<noteq> [] \<or> attribute_namespace \<noteq> [] \<or>
        attribute_name \<noteq> [])\<rparr>"

fun metadata_scan :: "(pyval \<Rightarrow> string) \<Rightarrow> metadata_filter \<Rightarrow> meta_object list \<Rightarrow> bool" where
  "metadata_scan rp m [] = False"
| "metadata_scan rp m (ob # obs) =
     (if mf_object_namespace m \<noteq> [] \<and> py_str rp (mo_namespace ob) \<noteq> mf_object_namespace m
      then metadata_scan rp m obs
      else if mf_object_label m \<noteq> [] \<and> py_str rp (mo_label ob) \<noteq> mf_object_label m
      then metadata_scan rp m obs
      else if mf_attribute_namespace m \<noteq> [] \<or> mf_attribute_name m \<noteq> []
      then (if mf_attribute_namespace m = [] \<or> mf_attribute_name m = [] then metadata_scan rp m obs
            else if (case mo_attribute ob (mf_attribute_namespace m) (mf_attribute_name m) of
                       Inl _ \<Rightarrow> PNone | Inr v \<Rightarrow> v) = PNone
            then metadata_scan rp m obs
            else True)
      else True)"

definition metadata_admit ::
  "(pyval \<Rightarrow> string) \<Rightarrow> metadata_filter \<Rightarrow> meta_object list result \<Rightarrow> bool" where
  "metadata_admit rp m objects =
     (if \<not> mf_enabled m then True
      else case objects of Inl _ \<Rightarrow> False | Inr obs \<Rightarrow> metadata_scan rp m obs)"

section \<open>The credit stays between zero and one interval\<close>

definition sampler_ok :: "pts_sampler \<Rightarrow> bool" where
  "sampler_ok s \<longleftrightarrow>
     0 \<le> ps_min_interval_ns s \<and>
     ps_pts_quantization_slack_ns s = min 1000000 (ps_min_interval_ns s div 1000) \<and>
     ps_max_credit_ns s = ps_min_interval_ns s * 2 \<and>
     (\<forall>k. 0 \<le> dget_or (ps_credit s) k 0 \<and> dget_or (ps_credit s) k 0 \<le> ps_min_interval_ns s)"

lemma interval_of_fps_nonneg: "0 \<le> interval_of_fps enabled fps"
  by (cases fps) (auto simp: interval_of_fps_def)

lemma sampler_ok_init: "sampler_ok (sampler_init rp enabled max_fps min_fps)"
  by (simp add: sampler_ok_def sampler_init_def Let_def interval_of_fps_nonneg)

lemma slack_bounds:
  "sampler_ok s \<Longrightarrow> 0 \<le> ps_pts_quantization_slack_ns s \<and>
     1000 * ps_pts_quantization_slack_ns s \<le> ps_min_interval_ns s"
  by (auto simp: sampler_ok_def min_def)

text \<open>
  One frame of a source that was seen before and moves forward in time: the change of the credit
  is the elapsed time, less what an admission pays.
\<close>

lemma admit_pts_step:
  assumes ok: "sampler_ok s" and seen: "dget (ps_last_observed s) k = Some p0" and fwd: "p0 < p"
    and run: "sampler_admit_pts k p force s = (d, s')"
  shows "sampler_ok s'"
    and "dget (ps_last_observed s') k = Some p"
    and "ps_min_interval_ns s' = ps_min_interval_ns s" and "ps_enabled s' = ps_enabled s"
    and "ps_pts_quantization_slack_ns s' = ps_pts_quantization_slack_ns s"
    and "\<not> force \<Longrightarrow> dget_or (ps_credit s') k 0 +
        of_bool d * (ps_min_interval_ns s - ps_pts_quantization_slack_ns s)
      \<le> dget_or (ps_credit s) k 0 + (p - p0)"
    and "p - p0 \<le> ps_min_interval_ns s \<Longrightarrow>
      dget_or (ps_credit s) k 0 + (p - p0) \<le> dget_or (ps_credit s') k 0 + of_bool d * ps_min_interval_ns s"
    and "\<not> force \<Longrightarrow> ps_min_interval_ns s \<le> p - p0 \<Longrightarrow> d"
proof -
  have c: "0 \<le> dget_or (ps_credit s) k 0" "dget_or (ps_credit s) k 0 \<le> ps_min_interval_ns s"
    and i: "0 \<le> ps_min_interval_ns s" "ps_max_credit_ns s = ps_min_interval_ns s * 2"
    and sl: "0 \<le> ps_pts_quantization_slack_ns s"
    using ok [unfolded sampler_ok_def] slack_bounds [OF ok] by blast+
  have frame: "ps_last_observed s' = dset k p (ps_last_observed s)" "ps_enabled s' = ps_enabled s"
    "ps_min_interval_ns s' = ps_min_interval_ns s" "ps_max_credit_ns s' = ps_max_credit_ns s"
    "ps_pts_quantization_slack_ns s' = ps_pts_quantization_slack_ns s"
    using run seen fwd by (auto simp: sampler_admit_pts_def sampler_accept_def Let_def split: if_splits)
  obtain c' where c': "ps_credit s' = dset k c' (ps_credit s)"
    and step: "d \<Longrightarrow> c' = max 0 (min (ps_max_credit_ns s) (dget_or (ps_credit s) k 0 + (p - p0)) - ps_min_interval_ns s)"
      "\<not> d \<Longrightarrow> c' = min (ps_max_credit_ns s) (dget_or (ps_credit s) k 0 + (p - p0)) \<and>
         c' + ps_pts_quantization_slack_ns s < ps_min_interval_ns s"
      "\<not> force \<Longrightarrow> d \<Longrightarrow> ps_min_interval_ns s \<le>
         min (ps_max_credit_ns s) (dget_or (ps_credit s) k 0 + (p - p0)) + ps_pts_quantization_slack_ns s"
    using run seen fwd
    by (auto simp: sampler_admit_pts_def sampler_accept_def Let_def dget_or_def split: if_splits)
  have new: "dget_or (ps_credit s') j 0 = (if j = k then c' else dget_or (ps_credit s) j 0)" for j
    by (simp add: c' dict_simps)
  have "0 \<le> c'" "c' \<le> ps_min_interval_ns s"
    using step(1,2) c i sl fwd by (cases d; auto)+
  then show "sampler_ok s'" using ok by (simp add: sampler_ok_def frame new)
  show "dget (ps_last_observed s') k = Some p" by (simp add: frame dict_simps)
  show "ps_min_interval_ns s' = ps_min_interval_ns s" "ps_enabled s' = ps_enabled s"
    "ps_pts_quantization_slack_ns s' = ps_pts_quantization_slack_ns s" by (simp_all add: frame)
  show "dget_or (ps_credit s') k 0 + of_bool d * (ps_min_interval_ns s - ps_pts_quantization_slack_ns s)
      \<le> dget_or (ps_credit s) k 0 + (p - p0)" if "\<not> force"
    using step(1,2) step(3) [OF that] c i sl fwd unfolding new by (cases d) auto
  show "dget_or (ps_credit s) k 0 + (p - p0) \<le> dget_or (ps_credit s') k 0 + of_bool d * ps_min_interval_ns s"
    if "p - p0 \<le> ps_min_interval_ns s"
    using step(1,2) that c i unfolding new by (cases d) auto
  show d if "\<not> force" "ps_min_interval_ns s \<le> p - p0"
    using step(2) that c i sl by (cases d) auto
qed

lemma sampler_ok_admit_pts: "sampler_ok s \<Longrightarrow> sampler_ok (snd (sampler_admit_pts k p force s))"
proof (cases "dget (ps_last_observed s) k")
  case None
  assume "sampler_ok s"
  with None show ?thesis
    by (simp add: sampler_admit_pts_def sampler_accept_def Let_def sampler_ok_def dict_simps)
next
  case (Some p0)
  assume ok: "sampler_ok s"
  show ?thesis
  proof (cases "p \<le> p0")
    case True
    with Some ok show ?thesis
      by (simp add: sampler_admit_pts_def sampler_accept_def Let_def sampler_ok_def dict_simps)
  next
    case False
    then show ?thesis
      using admit_pts_step(1) [OF ok Some, of p force "fst (sampler_admit_pts k p force s)"
          "snd (sampler_admit_pts k p force s)"] by simp
  qed
qed

lemma sampler_ok_accept: "sampler_ok s \<Longrightarrow> sampler_ok (sampler_accept k p s)"
  by (simp add: sampler_ok_def sampler_accept_def split: option.splits)

lemma sampler_ok_admit: "sampler_ok s \<Longrightarrow> sampler_ok (snd (sampler_admit rp f s))"
  by (auto simp: sampler_admit_def Let_def intro: sampler_ok_accept sampler_ok_admit_pts split: option.split)

interpretation sampler: transition_system
  "sampler_init rp enabled max_fps min_fps" "\<lambda>f s. snd (sampler_admit rp f s)" sampler_ok
  by unfold_locales (auto intro: sampler_ok_init sampler_ok_admit)

lemma sampler_run_fold: "snd (sampler_run rp fs s) = fold (\<lambda>f s. snd (sampler_admit rp f s)) fs s"
  by (induction fs arbitrary: s) (simp_all add: case_prod_beta Let_def)

section \<open>The admitted rate\<close>

text \<open>A frame that the rate limit decides about: an ordinary frame with a timestamp.\<close>

definition rated :: "(pyval \<Rightarrow> string) \<Rightarrow> string \<Rightarrow> video_frame \<Rightarrow> int \<Rightarrow> bool" where
  "rated rp k f p \<longleftrightarrow>
     source_key_of rp f = k \<and> \<not> content_is_none f \<and> \<not> is_keyframe rp f \<and> frame_pts_ns f = Some p"

lemma rated_run:
  assumes "sampler_ok s" and "ps_enabled s" and "0 < ps_min_interval_ns s"
    and "dget (ps_last_observed s) k = Some p0" and "list_all2 (rated rp k) fs ps" and "sorted_wrt (<) (p0 # ps)"
    and "sampler_run rp fs s = (ds, s')"
  shows "dget_or (ps_credit s') k 0
        + int (length (filter id ds)) * (ps_min_interval_ns s - ps_pts_quantization_slack_ns s)
      \<le> dget_or (ps_credit s) k 0 + (last (p0 # ps) - p0)"
    and "(\<forall>i < length ps. (p0 # ps) ! Suc i - (p0 # ps) ! i \<le> ps_min_interval_ns s) \<Longrightarrow>
      dget_or (ps_credit s) k 0 + (last (p0 # ps) - p0)
      \<le> dget_or (ps_credit s') k 0 + int (length (filter id ds)) * ps_min_interval_ns s"
    and "sampler_ok s'" and "ps_min_interval_ns s' = ps_min_interval_ns s"
proof -
  have "dget_or (ps_credit s') k 0
        + int (length (filter id ds)) * (ps_min_interval_ns s - ps_pts_quantization_slack_ns s)
      \<le> dget_or (ps_credit s) k 0 + (last (p0 # ps) - p0) \<and>
    ((\<forall>i < length ps. (p0 # ps) ! Suc i - (p0 # ps) ! i \<le> ps_min_interval_ns s) \<longrightarrow>
      dget_or (ps_credit s) k 0 + (last (p0 # ps) - p0)
      \<le> dget_or (ps_credit s') k 0 + int (length (filter id ds)) * ps_min_interval_ns s) \<and>
    sampler_ok s' \<and> ps_min_interval_ns s' = ps_min_interval_ns s"
    using assms
  proof (induction fs arbitrary: s p0 ps ds)
    case Nil
    then show ?case by simp
  next
    case (Cons f fs)
    then obtain p ps1 where ps: "ps = p # ps1" and rated: "rated rp k f p" "list_all2 (rated rp k) fs ps1"
      by (auto simp: list_all2_Cons1)
    obtain d s1 where d: "sampler_admit_pts k p False s = (d, s1)" by (cases "sampler_admit_pts k p False s")
    have ad: "sampler_admit rp f s = (d, s1)"
      using rated(1) Cons.prems(2,3) d by (simp add: sampler_admit_def rated_def Let_def)
    obtain ds1 where ds: "ds = d # ds1" and run: "sampler_run rp fs s1 = (ds1, s')"
      using Cons.prems(7) ad by (auto split: prod.splits)
    have fwd: "p0 < p" "sorted_wrt (<) (p # ps1)" using Cons.prems(6) ps by auto
    note st = admit_pts_step [OF Cons.prems(1,4) fwd(1) d]
    have "ps_enabled s1" "0 < ps_min_interval_ns s1" using st(3,4) Cons.prems(2,3) by simp_all
    note IH = Cons.IH [OF st(1) this st(2) rated(2) fwd(2) run]
    have gap: "p - p0 \<le> ps_min_interval_ns s"
        "\<forall>i < length ps1. (p # ps1) ! Suc i - (p # ps1) ! i \<le> ps_min_interval_ns s1"
      if g: "\<forall>i < length ps. (p0 # ps) ! Suc i - (p0 # ps) ! i \<le> ps_min_interval_ns s"
    proof -
      show "p - p0 \<le> ps_min_interval_ns s" using g ps by (auto dest: spec [of _ 0])
      show "\<forall>i < length ps1. (p # ps1) ! Suc i - (p # ps1) ! i \<le> ps_min_interval_ns s1"
      proof (intro allI impI)
        fix i assume "i < length ps1"
        then show "(p # ps1) ! Suc i - (p # ps1) ! i \<le> ps_min_interval_ns s1"
          using g [rule_format, of "Suc i"] ps st(3) by simp
      qed
    qed
    have n: "int (length (filter id ds)) = of_bool d + int (length (filter id ds1))" by (simp add: ds)
    have l: "last (p0 # ps) = last (p # ps1)" by (simp add: ps)
    have "dget_or (ps_credit s) k 0 + (last (p0 # ps) - p0)
        \<le> dget_or (ps_credit s') k 0 + int (length (filter id ds)) * ps_min_interval_ns s"
      if g: "\<forall>i < length ps. (p0 # ps) ! Suc i - (p0 # ps) ! i \<le> ps_min_interval_ns s"
      using IH [THEN conjunct2, THEN conjunct1, rule_format, OF gap(2) [OF g, rule_format]] st(7) [OF gap(1) [OF g]]
      unfolding n l distrib_right st(3) by linarith
    moreover have "dget_or (ps_credit s') k 0
        + int (length (filter id ds)) * (ps_min_interval_ns s - ps_pts_quantization_slack_ns s)
      \<le> dget_or (ps_credit s) k 0 + (last (p0 # ps) - p0)"
      using IH [THEN conjunct1] st(6) [unfolded not_False_eq_True, OF TrueI]
      unfolding n l distrib_right st(3,5) by linarith
    moreover have "sampler_ok s'" "ps_min_interval_ns s' = ps_min_interval_ns s"
      using IH [THEN conjunct2, THEN conjunct2] st(3) by simp_all
    ultimately show ?case by blast
  qed
  then show "dget_or (ps_credit s') k 0
        + int (length (filter id ds)) * (ps_min_interval_ns s - ps_pts_quantization_slack_ns s)
      \<le> dget_or (ps_credit s) k 0 + (last (p0 # ps) - p0)"
    and "(\<forall>i < length ps. (p0 # ps) ! Suc i - (p0 # ps) ! i \<le> ps_min_interval_ns s) \<Longrightarrow>
      dget_or (ps_credit s) k 0 + (last (p0 # ps) - p0)
      \<le> dget_or (ps_credit s') k 0 + int (length (filter id ds)) * ps_min_interval_ns s"
    and "sampler_ok s'" and "ps_min_interval_ns s' = ps_min_interval_ns s" by blast+
qed

section \<open>Sources do not affect each other\<close>

text \<open>Two states that agree on one source and on the configuration.\<close>

definition same_for :: "string \<Rightarrow> pts_sampler \<Rightarrow> pts_sampler \<Rightarrow> bool" where
  "same_for k s t \<longleftrightarrow>
     ps_enabled s = ps_enabled t \<and> ps_min_interval_ns s = ps_min_interval_ns t \<and>
     ps_pts_quantization_slack_ns s = ps_pts_quantization_slack_ns t \<and>
     ps_max_credit_ns s = ps_max_credit_ns t \<and>
     dget (ps_last_observed s) k = dget (ps_last_observed t) k \<and>
     dget (ps_credit s) k = dget (ps_credit t) k \<and>
     dget (ps_last_accepted s) k = dget (ps_last_accepted t) k"

lemma same_for_accept:
  "same_for k s t \<Longrightarrow> same_for k (sampler_accept k p s) (sampler_accept k p t)"
  "same_for k s t \<Longrightarrow> j \<noteq> k \<Longrightarrow> same_for k (sampler_accept j p s) t"
  by (auto simp: same_for_def sampler_accept_def dict_simps split: option.splits)

lemma same_for_set:
  "same_for k s t \<Longrightarrow>
   same_for k (s\<lparr>ps_last_observed := dset k p (ps_last_observed s), ps_credit := dset k c (ps_credit s)\<rparr>)
     (t\<lparr>ps_last_observed := dset k p (ps_last_observed t), ps_credit := dset k c (ps_credit t)\<rparr>)"
  "same_for k s t \<Longrightarrow> j \<noteq> k \<Longrightarrow>
   same_for k (s\<lparr>ps_last_observed := dset j p (ps_last_observed s), ps_credit := dset j c (ps_credit s)\<rparr>) t"
  by (auto simp: same_for_def dict_simps)

lemma same_for_admit_pts:
  assumes "same_for k s t"
  shows "fst (sampler_admit_pts k p force s) = fst (sampler_admit_pts k p force t) \<and>
    same_for k (snd (sampler_admit_pts k p force s)) (snd (sampler_admit_pts k p force t))"
proof -
  have eq: "ps_min_interval_ns s = ps_min_interval_ns t" "ps_max_credit_ns s = ps_max_credit_ns t"
    "ps_pts_quantization_slack_ns s = ps_pts_quantization_slack_ns t"
    "dget (ps_last_observed s) k = dget (ps_last_observed t) k"
    "dget_or (ps_last_observed s) k 0 = dget_or (ps_last_observed t) k 0"
    "dget_or (ps_credit s) k 0 = dget_or (ps_credit t) k 0"
    using assms by (simp_all add: same_for_def dget_or_def)
  show ?thesis
    using same_for_set(1) [OF assms] same_for_accept(1) [OF same_for_set(1) [OF assms]]
    by (simp add: sampler_admit_pts_def Let_def eq)
qed

lemma same_for_admit_pts_other:
  assumes "same_for k s t" and "j \<noteq> k"
  shows "same_for k (snd (sampler_admit_pts j p force s)) t"
  using same_for_set(2) [OF assms] same_for_accept(2) [OF same_for_set(2) [OF assms] assms(2)]
  by (simp add: sampler_admit_pts_def Let_def)

lemma same_for_admit:
  assumes "same_for k s t" and "source_key_of rp f = k"
  shows "fst (sampler_admit rp f s) = fst (sampler_admit rp f t) \<and>
    same_for k (snd (sampler_admit rp f s)) (snd (sampler_admit rp f t))"
proof -
  have eq: "ps_enabled s = ps_enabled t" "ps_min_interval_ns s = ps_min_interval_ns t"
    using assms(1) by (simp_all add: same_for_def)
  show ?thesis
    using same_for_admit_pts [OF assms(1)] same_for_accept(1) [OF assms(1)] assms
    by (simp add: sampler_admit_def Let_def eq split: option.split)
qed

lemma same_for_other:
  assumes "same_for k s t" and "source_key_of rp f \<noteq> k"
  shows "same_for k (snd (sampler_admit rp f s)) t"
  using assms same_for_admit_pts_other [OF assms] same_for_accept(2) [OF assms]
  by (simp add: sampler_admit_def Let_def split: option.split)

lemma same_for_run:
  "same_for k s t \<Longrightarrow>
   map snd (filter (\<lambda>(f, d). source_key_of rp f = k) (zip fs (fst (sampler_run rp fs s)))) =
   fst (sampler_run rp (filter (\<lambda>f. source_key_of rp f = k) fs) t)"
proof (induction fs arbitrary: s t)
  case (Cons f fs)
  show ?case
  proof (cases "source_key_of rp f = k")
    case True
    from same_for_admit [OF Cons.prems True] Cons.IH [of "snd (sampler_admit rp f s)" "snd (sampler_admit rp f t)"]
    show ?thesis by (simp add: case_prod_beta Let_def True)
  next
    case False
    from same_for_other [OF Cons.prems False] Cons.IH [of "snd (sampler_admit rp f s)" t]
    show ?thesis by (simp add: case_prod_beta Let_def False)
  qed
qed simp

section \<open>Properties\<close>

text \<open>
  C15: once a source has been seen, any run of its ordinary frames with increasing timestamps is
  thinned to the target rate: the admitted frames, at one interval less the quantization slack
  each, fit into the elapsed time plus one interval; and when no gap between frames is longer
  than the interval, the admitted frames fill the elapsed time up to one interval.
\<close>

theorem admitted_rate:
  assumes "sampler_ok s" and "ps_enabled s" and "0 < ps_min_interval_ns s"
    and "dget (ps_last_observed s) k = Some p0" and "list_all2 (rated rp k) fs ps" and "sorted_wrt (<) (p0 # ps)"
  shows "let n = int (length (filter id (fst (sampler_run rp fs s)))); elapsed = last (p0 # ps) - p0
    in n * (ps_min_interval_ns s - ps_pts_quantization_slack_ns s) \<le> elapsed + ps_min_interval_ns s \<and>
       ((\<forall>i < length ps. (p0 # ps) ! Suc i - (p0 # ps) ! i \<le> ps_min_interval_ns s) \<longrightarrow>
         elapsed - ps_min_interval_ns s \<le> n * ps_min_interval_ns s)"
proof -
  obtain ds s' where run: "sampler_run rp fs s = (ds, s')" by fastforce
  note r = rated_run [OF assms run]
  have c: "0 \<le> dget_or (ps_credit s) k 0" "dget_or (ps_credit s) k 0 \<le> ps_min_interval_ns s"
    "0 \<le> dget_or (ps_credit s') k 0" "dget_or (ps_credit s') k 0 \<le> ps_min_interval_ns s"
    using assms(1) r(3,4) by (auto simp: sampler_ok_def)
  show ?thesis
    unfolding Let_def run fst_conv
  proof (intro conjI impI)
    show "int (length (filter id ds)) * (ps_min_interval_ns s - ps_pts_quantization_slack_ns s)
        \<le> last (p0 # ps) - p0 + ps_min_interval_ns s"
      using r(1) c by linarith
    show "last (p0 # ps) - p0 - ps_min_interval_ns s \<le> int (length (filter id ds)) * ps_min_interval_ns s"
      if "\<forall>i < length ps. (p0 # ps) ! Suc i - (p0 # ps) ! i \<le> ps_min_interval_ns s"
      using r(2) [OF that] c by linarith
  qed
qed

definition example_frame :: "int \<Rightarrow> video_frame" where
  "example_frame pts =
     \<lparr>vf_source_id = PStr ''camera'', vf_pts = PInt pts, vf_time_base = PNone, vf_keyframe = PBool False,
      vf_uuid = PNone, vf_keyframe_uuid = PNone, vf_is_none = None\<rparr>"

definition example_sampler :: pts_sampler where
  "example_sampler = sampler_init (\<lambda>_. []) (PBool True) (PInt 8) (PInt 2)"

lemma example_sampler_values:
  "ps_enabled example_sampler" "ps_min_interval_ns example_sampler = 125000000"
  "ps_pts_quantization_slack_ns example_sampler = 125000" "ps_max_credit_ns example_sampler = 250000000"
  "ps_last_observed example_sampler = []" "ps_credit example_sampler = []"
  by (simp_all add: example_sampler_def sampler_init_def boolish_def parse_fps_def is_blank_def
      interval_of_fps_def Let_def)

lemma example_frame_rated: "rated (\<lambda>_. []) ''camera'' (example_frame pts) pts"
  by (simp add: rated_def source_key_of_def example_frame_def py_or_def content_is_none_def is_keyframe_def
      bool_or_none_def text_or_none_def frame_pts_ns_def int_or_none_def time_base_to_seconds_def is_blank_def)

theorem admitted_rate_witness:
  "let s = snd (sampler_admit (\<lambda>_. []) (example_frame 0) example_sampler);
       fs = [example_frame 40000000, example_frame 80000000, example_frame 124900000];
       n = int (length (filter id (fst (sampler_run (\<lambda>_. []) fs s))))
   in n * (ps_min_interval_ns s - ps_pts_quantization_slack_ns s) \<le> 124900000 + ps_min_interval_ns s \<and>
      124900000 - ps_min_interval_ns s \<le> n * ps_min_interval_ns s"
proof -
  let ?s = "snd (sampler_admit (\<lambda>_. []) (example_frame 0) example_sampler)"
  let ?ps = "[40000000, 80000000, 124900000] :: int list"
  have ok: "sampler_ok ?s"
    unfolding example_sampler_def by (intro sampler_ok_admit sampler_ok_init)
  have s: "?s = sampler_accept ''camera'' (Some 0)
      (example_sampler\<lparr>ps_last_observed := [(''camera'', 0)], ps_credit := [(''camera'', 0)]\<rparr>)"
    using example_frame_rated [of 0]
    by (simp add: sampler_admit_def sampler_admit_pts_def rated_def example_sampler_values Let_def)
  have vals: "ps_enabled ?s" "0 < ps_min_interval_ns ?s" "dget (ps_last_observed ?s) ''camera'' = Some 0"
    "ps_min_interval_ns ?s = 125000000"
    by (simp_all add: s sampler_accept_def example_sampler_values)
  have rt: "list_all2 (rated (\<lambda>_. []) ''camera'') (map example_frame ?ps) ?ps"
    by (simp add: example_frame_rated)
  have gaps: "\<forall>i < length ?ps. (0 # ?ps) ! Suc i - (0 # ?ps) ! i \<le> ps_min_interval_ns ?s"
    by (simp add: vals All_less_Suc)
  from admitted_rate [OF ok vals(1,2,3) rt] gaps show ?thesis by (simp add: Let_def)
qed

text \<open>
  the decisions about one source's frames do not depend on the other sources: in any
  interleaving they are the decisions the sampler takes on that source's frames alone.
\<close>

theorem sources_isolated:
  "map snd (filter (\<lambda>(f, d). source_key_of rp f = k) (zip fs (fst (sampler_run rp fs s)))) =
   fst (sampler_run rp (filter (\<lambda>f. source_key_of rp f = k) fs) s)"
  by (rule same_for_run) (simp add: same_for_def)

text \<open>
  a frame that a downstream consumer cannot do without is never thinned out: the first frame
  of a source, a frame whose timestamp does not move forward, a keyframe, a frame without
  timestamp, and a frame that is at least one interval after the source's previous one are
  admitted in every state the sampler can reach, unless the frame has no content.
\<close>

theorem essential_frames_admitted:
  assumes "\<not> content_is_none f"
    and "is_keyframe rp f \<or>
      (case frame_pts_ns f of
         None \<Rightarrow> True
       | Some p \<Rightarrow>
           (case dget (ps_last_observed s) (source_key_of rp f) of
              None \<Rightarrow> True
            | Some p0 \<Rightarrow> p \<le> p0 \<or> ps_min_interval_ns s \<le> p - p0))"
    and "s = fold (\<lambda>f s. snd (sampler_admit rp f s)) fs (sampler_init rp enabled max_fps min_fps)"
  shows "fst (sampler_admit rp f s)"
proof (cases "frame_pts_ns f")
  case (Some p)
  have ok: "sampler_ok s" unfolding assms(3) by (rule sampler.run)
  let ?k = "source_key_of rp f"
  have "fst (sampler_admit_pts ?k p (is_keyframe rp f) s)"
  proof (cases "dget (ps_last_observed s) ?k")
    case (Some p0)
    show ?thesis
    proof (cases "p \<le> p0 \<or> is_keyframe rp f")
      case True
      with Some show ?thesis by (auto simp: sampler_admit_pts_def Let_def)
    next
      case False
      with assms(2) Some \<open>frame_pts_ns f = Some p\<close> have "ps_min_interval_ns s \<le> p - p0" by simp
      with False show ?thesis
        using admit_pts_step(8) [OF ok Some, of p False "fst (sampler_admit_pts ?k p False s)"
            "snd (sampler_admit_pts ?k p False s)"] by simp
    qed
  qed (simp add: sampler_admit_pts_def Let_def)
  with Some assms(1) show ?thesis by (simp add: sampler_admit_def Let_def)
qed (use assms(1) in \<open>simp add: sampler_admit_def Let_def\<close>)

theorem essential_frames_admitted_witness:
  "fst (sampler_admit (\<lambda>_. []) (example_frame 125000000)
     (fold (\<lambda>f s. snd (sampler_admit (\<lambda>_. []) f s)) [example_frame 0] example_sampler))"
proof (rule essential_frames_admitted)
  let ?s = "fold (\<lambda>f s. snd (sampler_admit (\<lambda>_. []) f s)) [example_frame 0] example_sampler"
  show "?s = fold (\<lambda>f s. snd (sampler_admit (\<lambda>_. []) f s)) [example_frame 0]
      (sampler_init (\<lambda>_. []) (PBool True) (PInt 8) (PInt 2))"
    by (simp add: example_sampler_def)
  have "dget (ps_last_observed ?s) ''camera'' = Some 0" "ps_min_interval_ns ?s = 125000000"
    using example_frame_rated [of 0]
    by (simp_all add: sampler_admit_def sampler_admit_pts_def sampler_accept_def rated_def
        example_sampler_values Let_def)
  then show "is_keyframe (\<lambda>_. []) (example_frame 125000000) \<or>
      (case frame_pts_ns (example_frame 125000000) of
         None \<Rightarrow> True
       | Some p \<Rightarrow>
           (case dget (ps_last_observed ?s) (source_key_of (\<lambda>_. []) (example_frame 125000000)) of
              None \<Rightarrow> True
            | Some p0 \<Rightarrow> p \<le> p0 \<or> ps_min_interval_ns ?s \<le> p - p0))"
    using example_frame_rated [of 125000000] by (simp add: rated_def)
qed (use example_frame_rated [of 125000000] in \<open>simp add: rated_def\<close>)

end
