(* ===== verification/PtsGate.thy ===== *)
theory PtsGate
  imports Sampler
begin

text \<open>
  \<open>PtsFpsGate\<close> of \<^verbatim>\<open>modules/savant_security/custom/filters/pts_fps_gate.py\<close>, the
  gate in front of the inference graph.  It keeps the sampler's credits and, beside them,
  counters for its log.  The helpers that read a frame and parse a rate are the ones of theory
  Sampler, which the two files define alike.
\<close>

section \<open>The gate\<close>

record pts_gate =
  gt_enabled :: bool
  gt_max_fps :: pyfloat
  gt_min_fps :: pyfloat
  gt_min_interval_ns :: int
  gt_pts_quantization_slack_ns :: int
  gt_max_credit_ns :: int
  gt_log_every_n_frames :: int
  gt_last_accepted :: "(string, int) dict"
  gt_last_observed :: "(string, int) dict"
  gt_credit :: "(string, int) dict"
  gt_frames_seen :: "(string, int) dict"
  gt_frames_accepted :: "(string, int) dict"
  gt_log :: "(string \<times> int \<times> int) list"

definition gate_init :: "(pyval \<Rightarrow> string) \<Rightarrow> pyval \<Rightarrow> pyval \<Rightarrow> pyval \<Rightarrow> int \<Rightarrow> pts_gate" where
  "gate_init rp enabled max_fps min_fps log_every_n_frames =
     (let en = boolish rp enabled; fps = parse_fps max_fps 8; interval = interval_of_fps en fps
      in \<lparr>gt_enabled = en, gt_max_fps = fps, gt_min_fps = parse_fps min_fps 2,
          gt_min_interval_ns = interval,
          gt_pts_quantization_slack_ns = min 1000000 (interval div 1000),
          gt_max_credit_ns = interval * 2,
          gt_log_every_n_frames = max log_every_n_frames 1,
          gt_last_accepted = [], gt_last_observed = [], gt_credit = [], gt_frames_seen = [],
          gt_frames_accepted = [], gt_log = []\<rparr>)"

text \<open>A line of the log: source, frames seen, frames accepted.\<close>

definition gate_log_tick :: "string \<Rightarrow> pts_gate \<Rightarrow> pts_gate" where
  "gate_log_tick source_key g =
     (let seen = dget_or (gt_frames_seen g) source_key 0
      in if seen \<noteq> 1 \<and> seen mod gt_log_every_n_frames g \<noteq> 0 then g
         else g\<lparr>gt_log := gt_log g @ [(source_key, seen, dget_or (gt_frames_accepted g) source_key 0)]\<rparr>)"

definition gate_accept :: "string \<Rightarrow> int option \<Rightarrow> pts_gate \<Rightarrow> pts_gate" where
  "gate_accept source_key pts g =
     (let g1 = (case pts of None \<Rightarrow> g
                | Some p \<Rightarrow> g\<lparr>gt_last_accepted := dset source_key p (gt_last_accepted g)\<rparr>)
      in g1\<lparr>gt_frames_accepted :=
              dset source_key (dget_or (gt_frames_accepted g1) source_key 0 + 1) (gt_frames_accepted g1)\<rparr>)"

definition gate_admit_pts :: "string \<Rightarrow> int \<Rightarrow> bool \<Rightarrow> pts_gate \<Rightarrow> bool \<times> pts_gate" where
  "gate_admit_pts source_key pts force g =
     (let fresh = (case dget (gt_last_observed g) source_key of None \<Rightarrow> True | Some seen \<Rightarrow> pts \<le> seen)
      in if fresh
         then (True, gate_accept source_key (Some pts)
                (g\<lparr>gt_last_observed := dset source_key pts (gt_last_observed g),
                   gt_credit := dset source_key 0 (gt_credit g)\<rparr>))
         else
           (let credit = min (gt_max_credit_ns g)
                  (dget_or (gt_credit g) source_key 0
                   + (pts - dget_or (gt_last_observed g) source_key 0));
                g1 = g\<lparr>gt_last_observed := dset source_key pts (gt_last_observed g)\<rparr>;
                paid = g1\<lparr>gt_credit := dset source_key (max 0 (credit - gt_min_interval_ns g)) (gt_credit g1)\<rparr>
            in if force then (True, gate_accept source_key (Some pts) paid)
               else if credit + gt_pts_quantization_slack_ns g < gt_min_interval_ns g
               then (False, g1\<lparr>gt_credit := dset source_key credit (gt_credit g1)\<rparr>)
               else (True, gate_accept source_key (Some pts) paid)))"

definition gate_call :: "(pyval \<Rightarrow> string) \<Rightarrow> video_frame \<Rightarrow> pts_gate \<Rightarrow> bool \<times> pts_gate" where
  "gate_call rp f g0 =
     (let key = source_key_of rp f;
          seen = dget_or (gt_frames_seen g0) key 0 + 1;
          g = g0\<lparr>gt_frames_seen := dset key seen (gt_frames_seen g0)\<rparr>
      in if content_is_none f then (False, gate_log_tick key g)
         else if \<not> gt_enabled g \<or> gt_min_interval_ns g \<le> 0
         then (True, gate_log_tick key (gate_accept key (frame_pts_ns f) g))
         else
           (case frame_pts_ns f of
              None \<Rightarrow> (True, gate_log_tick key (gate_accept key None g))
            | Some pts \<Rightarrow>
                (let (admitted, g1) = gate_admit_pts key pts (is_keyframe rp f) g
                 in (admitted, gate_log_tick key g1))))"

fun gate_run :: "(pyval \<Rightarrow> string) \<Rightarrow> video_frame list \<Rightarrow> pts_gate \<Rightarrow> bool list \<times> pts_gate" where
  "gate_run rp [] g = ([], g)"
| "gate_run rp (f # fs) g =
     (let (d, g1) = gate_call rp f g; (ds, g2) = gate_run rp fs g1 in (d # ds, g2))"

text \<open>\<open>env_pts_fps_gate\<close>, over the environment.\<close>

definition env_pts_fps_gate :: "(pyval \<Rightarrow> string) \<Rightarrow> (string \<Rightarrow> string option) \<Rightarrow> pts_gate" where
  "env_pts_fps_gate rp env =
     (let getenv = (\<lambda>k d. case env k of None \<Rightarrow> PStr d | Some v \<Rightarrow> PStr v)
      in gate_init rp (getenv ''MAX_FPS_CONTROL'' ''false'') (getenv ''MAX_FPS'' ''8/1'')
           (getenv ''MIN_FPS'' ''2/1'') 300)"

section \<open>The gate refines the sampler\<close>

definition sampler_of :: "pts_gate \<Rightarrow> pts_sampler" where
  "sampler_of g =
     \<lparr>ps_enabled = gt_enabled g, ps_max_fps = gt_max_fps g, ps_min_fps = gt_min_fps g,
      ps_min_interval_ns = gt_min_interval_ns g,
      ps_pts_quantization_slack_ns = gt_pts_quantization_slack_ns g,
      ps_max_credit_ns = gt_max_credit_ns g, ps_last_accepted = gt_last_accepted g,
      ps_last_observed = gt_last_observed g, ps_credit = gt_credit g\<rparr>"

lemma sampler_of_sel [simp]:
  "ps_enabled (sampler_of g) = gt_enabled g" "ps_min_interval_ns (sampler_of g) = gt_min_interval_ns g"
  "ps_pts_quantization_slack_ns (sampler_of g) = gt_pts_quantization_slack_ns g"
  "ps_max_credit_ns (sampler_of g) = gt_max_credit_ns g" "ps_last_accepted (sampler_of g) = gt_last_accepted g"
  "ps_last_observed (sampler_of g) = gt_last_observed g" "ps_credit (sampler_of g) = gt_credit g"
  by (simp_all add: sampler_of_def)

lemma sampler_of_init:
  "sampler_of (gate_init rp enabled max_fps min_fps n) = sampler_init rp enabled max_fps min_fps"
  by (simp add: sampler_of_def gate_init_def sampler_init_def Let_def)

lemma sampler_of_log: "sampler_of (gate_log_tick k g) = sampler_of g"
  by (simp add: sampler_of_def gate_log_tick_def Let_def)

lemma sampler_of_accept: "sampler_of (gate_accept k p g) = sampler_accept k p (sampler_of g)"
  by (simp add: sampler_of_def gate_accept_def sampler_accept_def Let_def split: option.split)

lemma sampler_of_admit_pts:
  "fst (gate_admit_pts k p force g) = fst (sampler_admit_pts k p force (sampler_of g))"
  "sampler_of (snd (gate_admit_pts k p force g)) = snd (sampler_admit_pts k p force (sampler_of g))"
  by (auto simp: gate_admit_pts_def sampler_admit_pts_def Let_def sampler_of_accept)
    (simp_all add: sampler_of_def)

lemma sampler_of_call:
  "fst (gate_call rp f g) = fst (sampler_admit rp f (sampler_of g)) \<and>
   sampler_of (snd (gate_call rp f g)) = snd (sampler_admit rp f (sampler_of g))"
proof -
  let ?k = "source_key_of rp f"
  let ?g = "g\<lparr>gt_frames_seen := dset ?k (dget_or (gt_frames_seen g) ?k 0 + 1) (gt_frames_seen g)\<rparr>"
  have "sampler_of ?g = sampler_of g" by (simp add: sampler_of_def)
  with sampler_of_admit_pts [of ?k _ "is_keyframe rp f" ?g] show ?thesis
    by (simp add: gate_call_def sampler_admit_def Let_def sampler_of_accept sampler_of_log
        case_prod_beta split: option.split)
qed

lemma gate_run_sampler:
  "fst (gate_run rp fs g) = fst (sampler_run rp fs (sampler_of g))"
proof (induction fs arbitrary: g)
  case (Cons f fs)
  with sampler_of_call [of rp f g] show ?case by (simp add: case_prod_beta Let_def)
qed simp

section \<open>The counters\<close>

definition gate_counts :: "pts_gate \<Rightarrow> string \<Rightarrow> int \<times> int" where
  "gate_counts g k = (dget_or (gt_frames_seen g) k 0, dget_or (gt_frames_accepted g) k 0)"

lemma gate_counts_log [simp]: "gate_counts (gate_log_tick j g) k = gate_counts g k"
  by (simp add: gate_counts_def gate_log_tick_def Let_def)

lemma gate_counts_accept [simp]:
  "gate_counts (gate_accept j p g) k = (fst (gate_counts g k), snd (gate_counts g k) + of_bool (j = k))"
  by (auto simp: gate_counts_def gate_accept_def Let_def dict_simps split: option.split)

lemma gate_counts_fields [simp]:
  "gate_counts (g\<lparr>gt_last_observed := a, gt_credit := b\<rparr>) k = gate_counts g k"
  "gate_counts (g\<lparr>gt_frames_seen := dset j (dget_or (gt_frames_seen g) j 0 + 1) (gt_frames_seen g)\<rparr>) k =
     (fst (gate_counts g k) + of_bool (j = k), snd (gate_counts g k))"
  by (simp_all add: gate_counts_def dict_simps)

lemma gate_counts_admit_pts:
  "gate_counts (snd (gate_admit_pts j p force g)) k =
     (fst (gate_counts g k), snd (gate_counts g k) + of_bool (j = k \<and> fst (gate_admit_pts j p force g)))"
  by (simp add: gate_admit_pts_def Let_def)

lemma gate_counts_call:
  "gate_counts (snd (gate_call rp f g)) k =
     (fst (gate_counts g k) + of_bool (source_key_of rp f = k),
      snd (gate_counts g k) + of_bool (source_key_of rp f = k \<and> fst (gate_call rp f g)))"
  by (simp add: gate_call_def Let_def gate_counts_admit_pts case_prod_beta split: option.split)

lemma gate_counts_run:
  "gate_counts (snd (gate_run rp fs g)) k =
     (fst (gate_counts g k) + int (length (filter (\<lambda>f. source_key_of rp f = k) fs)),
      snd (gate_counts g k)
        + int (length (filter (\<lambda>(f, d). source_key_of rp f = k \<and> d) (zip fs (fst (gate_run rp fs g))))))"
proof (induction fs arbitrary: g)
  case (Cons f fs)
  then show ?case using gate_counts_call [of rp f g k] by (simp add: case_prod_beta Let_def)
qed simp

section \<open>Properties\<close>

text \<open>
  the inference gate and the forwarder's sampler, configured alike, take the same decision
  on every frame of every stream.
\<close>

theorem gate_decides_as_sampler:
  "fst (gate_run rp fs (gate_init rp enabled max_fps min_fps n)) =
   fst (sampler_run rp fs (sampler_init rp enabled max_fps min_fps))"
  by (simp add: gate_run_sampler sampler_of_init)

text \<open>
  the counters that the gate logs are exact: for every source, the frames seen are the frames
  of that source and the frames accepted are those of them it admitted.
\<close>

theorem gate_counters_exact:
  "let (ds, g) = gate_run rp fs (gate_init rp enabled max_fps min_fps n)
   in dget_or (gt_frames_seen g) k 0 = int (length (filter (\<lambda>f. source_key_of rp f = k) fs)) \<and>
      dget_or (gt_frames_accepted g) k 0 =
        int (length (filter (\<lambda>(f, d). source_key_of rp f = k \<and> d) (zip fs ds)))"
  using gate_counts_run [of rp fs "gate_init rp enabled max_fps min_fps n" k]
  by (simp add: gate_counts_def gate_init_def Let_def case_prod_beta)

end
