(* ===== verification/Cooldown.thy ===== *)
theory Cooldown
  imports PyValue
begin

text \<open>
  \<open>CooldownTracker\<close> of \<^verbatim>\<open>modules/savant_security/custom/services/cooldown.py\<close>, and the
  contract under which every rule uses it: ask first, record when an event goes out.  The
  cooldowns that the rules pass are whole seconds.
\<close>

type_synonym cooldowns = "(string, int) dict"

definition can_emit :: "string \<Rightarrow> int \<Rightarrow> cooldowns \<Rightarrow> bool" where
  "can_emit key now_ms c = (case dget c key of None \<Rightarrow> True | Some expiry \<Rightarrow> expiry \<le> now_ms)"

definition record_emit :: "string \<Rightarrow> int \<Rightarrow> int \<Rightarrow> cooldowns \<Rightarrow> cooldowns" where
  "record_emit key cooldown_s now_ms c = dset key (now_ms + cooldown_s * 1000) c"

definition clear_cooldown :: "string \<Rightarrow> cooldowns \<Rightarrow> cooldowns" where
  "clear_cooldown key c = dpop key c"

definition reset_cooldowns :: "cooldowns \<Rightarrow> cooldowns" where
  "reset_cooldowns c = []"

section \<open>The gate's contract\<close>

locale cooldown_gate =
  fixes may :: "'k \<Rightarrow> int \<Rightarrow> 's \<Rightarrow> bool" and note_emit :: "'k \<Rightarrow> int \<Rightarrow> int \<Rightarrow> 's \<Rightarrow> 's"
  assumes open_after: "may k now (note_emit k secs t0 c) \<longleftrightarrow> t0 + secs * 1000 \<le> now"
    and other_keys: "j \<noteq> k \<Longrightarrow> may j now (note_emit k secs t0 c) = may j now c"
begin

text \<open>An attempt to emit is a key, its cooldown in seconds and the time.\<close>

definition attempt :: "'k \<times> int \<times> int \<Rightarrow> 's \<Rightarrow> bool \<times> 's" where
  "attempt a c =
     (case a of (k, secs, now) \<Rightarrow> if may k now c then (True, note_emit k secs now c) else (False, c))"

fun emitted :: "('k \<times> int \<times> int) list \<Rightarrow> 's \<Rightarrow> ('k \<times> int \<times> int) list" where
  "emitted [] c = []"
| "emitted (a # xs) c =
     (if fst (attempt a c) then a # emitted xs (snd (attempt a c)) else emitted xs (snd (attempt a c)))"

lemma first_emit_after:
  assumes "\<And>now. may k now c = (expiry \<le> now)" and "emitted xs c = vs @ (k, secs, t) # ws"
    and "\<forall>v \<in> set vs. fst v \<noteq> k"
  shows "expiry \<le> t"
  using assms
proof (induction xs arbitrary: c vs)
  case (Cons a xs)
  obtain j s now where a: "a = (j, s, now)" by (cases a)
  show ?case
  proof (cases "may j now c")
    case False
    then have "emitted xs c = vs @ (k, secs, t) # ws" using Cons.prems(2) a by (simp add: attempt_def)
    from Cons.IH [OF Cons.prems(1) this Cons.prems(3)] show ?thesis .
  next
    case True
    then have rest: "a # emitted xs (note_emit j s now c) = vs @ (k, secs, t) # ws"
      using Cons.prems(2) a by (simp add: attempt_def)
    show ?thesis
    proof (cases vs)
      case Nil
      with rest a True Cons.prems(1) show ?thesis by simp
    next
      case (Cons v vs')
      then have j: "j \<noteq> k" using rest a Cons.prems(3) by auto
      have "\<And>now'. may k now' (note_emit j s now c) = (expiry \<le> now')"
        using other_keys [of k j] j Cons.prems(1) by simp
      moreover have "emitted xs (note_emit j s now c) = vs' @ (k, secs, t) # ws" "\<forall>v \<in> set vs'. fst v \<noteq> k"
        using rest Cons Cons.prems(3) by auto
      ultimately show ?thesis by (rule Cons.IH)
    qed
  qed
qed simp

text \<open>Two successive emissions for one key are at least the first one's cooldown apart.\<close>

lemma emissions_spaced:
  assumes "emitted xs c = us @ (k, s1, t1) # vs @ (k, s2, t2) # ws" and "\<forall>v \<in> set vs. fst v \<noteq> k"
  shows "t1 + s1 * 1000 \<le> t2"
  using assms
proof (induction xs arbitrary: c us)
  case (Cons a xs)
  obtain j s now where a: "a = (j, s, now)" by (cases a)
  show ?case
  proof (cases "may j now c")
    case False
    with Cons a show ?thesis by (simp add: attempt_def)
  next
    case True
    then have rest: "a # emitted xs (note_emit j s now c) = us @ (k, s1, t1) # vs @ (k, s2, t2) # ws"
      using Cons.prems(1) a by (simp add: attempt_def)
    show ?thesis
    proof (cases us)
      case Nil
      then have e: "j = k" "s = s1" "now = t1" "emitted xs (note_emit j s now c) = vs @ (k, s2, t2) # ws"
        using rest a by auto
      show ?thesis
        by (rule first_emit_after [OF _ e(4) Cons.prems(2)]) (simp add: e open_after)
    next
      case (Cons u us')
      with rest have "emitted xs (note_emit j s now c) = us' @ (k, s1, t1) # vs @ (k, s2, t2) # ws" by simp
      then show ?thesis using Cons.prems(2) by (rule Cons.IH)
    qed
  qed
qed simp

end

interpretation cooldown: cooldown_gate can_emit record_emit
  by unfold_locales (auto simp: can_emit_def record_emit_def dict_simps)

end
