(* ===== verification/Geometry.thy ===== *)
theory Geometry
  imports Prelude
begin

text \<open>
  \<^verbatim>\<open>modules/savant_security/custom/geometry/polygon.py\<close>: the even-odd test that decides
  whether a point of the image lies in a zone.
\<close>

type_synonym point = "real \<times> real"

text \<open>The loop over the vertices; the second argument is the vertex before.\<close>

fun polygon_loop :: "real \<Rightarrow> real \<Rightarrow> point \<Rightarrow> point list \<Rightarrow> bool \<Rightarrow> bool" where
  "polygon_loop x y u [] inside = inside"
| "polygon_loop x y u (q # ps) inside =
     (let (xi, yi) = q; (xj, yj) = u
      in polygon_loop x y q ps
           (if (y < yi) \<noteq> (y < yj) \<and> x < (xj - xi) * (y - yi) / (yj - yi) + xi then \<not> inside else inside))"

definition point_in_polygon :: "point \<Rightarrow> point list \<Rightarrow> bool" where
  "point_in_polygon p polygon =
     (if length polygon < 3 then False
      else polygon_loop (fst p) (snd p) (last polygon) polygon False)"

section \<open>Points outside the bounding box\<close>

lemma intersect_between:
  fixes y yi yj :: real
  assumes "(y < yi) \<noteq> (y < yj)"
  shows "(xj - xi) * (y - yi) / (yj - yi) + xi \<le> max xi xj"
    and "min xi xj \<le> (xj - xi) * (y - yi) / (yj - yi) + xi"
proof -
  define t where "t = (y - yi) / (yj - yi)"
  have ne: "yj - yi \<noteq> 0" using assms by auto
  have t: "0 \<le> t" "t \<le> 1"
    using assms ne by (auto simp: t_def divide_simps)
  have eq: "(xj - xi) * (y - yi) / (yj - yi) + xi = (1 - t) * xi + t * xj"
    by (simp add: t_def algebra_simps add_divide_distrib diff_divide_distrib)
  have "(1 - t) * xi + t * xj \<le> (1 - t) * max xi xj + t * max xi xj"
    using t by (intro add_mono mult_left_mono) auto
  then show "(xj - xi) * (y - yi) / (yj - yi) + xi \<le> max xi xj"
    unfolding eq by (simp add: algebra_simps)
  have "(1 - t) * min xi xj + t * min xi xj \<le> (1 - t) * xi + t * xj"
    using t by (intro add_mono mult_left_mono) auto
  then show "min xi xj \<le> (xj - xi) * (y - yi) / (yj - yi) + xi"
    unfolding eq by (simp add: algebra_simps)
qed

text \<open>Whether the ray to the right of the point meets the edge from \<open>u\<close> to \<open>q\<close>.\<close>

definition ray_meets :: "real \<Rightarrow> real \<Rightarrow> point \<Rightarrow> point \<Rightarrow> bool" where
  "ray_meets x y u q \<longleftrightarrow>
     (y < snd q) \<noteq> (y < snd u) \<and> x < (fst u - fst q) * (y - snd q) / (snd u - snd q) + fst q"

lemma polygon_loop_step:
  "polygon_loop x y u (q # ps) inside = polygon_loop x y q ps (inside \<noteq> ray_meets x y u q)"
proof -
  have "polygon_loop x y u (q # ps) inside = polygon_loop x y q ps (if ray_meets x y u q then \<not> inside else inside)"
    by (simp only: polygon_loop.simps ray_meets_def case_prod_beta Let_def)
  then show ?thesis by (cases "ray_meets x y u q"; cases inside) simp_all
qed

lemma ray_meets_right_of: "fst u \<le> x \<Longrightarrow> fst q \<le> x \<Longrightarrow> \<not> ray_meets x y u q"
  using intersect_between(1) [where y = y and yi = "snd q" and yj = "snd u" and xi = "fst q" and xj = "fst u"]
    less_le_trans [of x _ "max (fst q) (fst u)"]
  by (auto simp: ray_meets_def)

lemma ray_meets_left_of: "x < fst u \<Longrightarrow> x < fst q \<Longrightarrow> ray_meets x y u q = ((y < snd q) \<noteq> (y < snd u))"
  using intersect_between(2) [where y = y and yi = "snd q" and yj = "snd u" and xi = "fst q" and xj = "fst u"]
    less_le_trans [of x "min (fst q) (fst u)"]
  by (auto simp: ray_meets_def)

lemma loop_one_side:
  "\<forall>p \<in> set (u # ps). (y < snd p) = side \<Longrightarrow> polygon_loop x y u ps inside = inside"
  by (induction ps arbitrary: u inside) (simp_all add: polygon_loop_step ray_meets_def del: polygon_loop.simps(2))

lemma loop_right_of:
  "\<forall>p \<in> set (u # ps). fst p \<le> x \<Longrightarrow> polygon_loop x y u ps inside = inside"
  by (induction ps arbitrary: u inside) (simp_all add: polygon_loop_step ray_meets_right_of del: polygon_loop.simps(2))

lemma loop_left_of:
  "\<forall>p \<in> set (u # ps). x < fst p \<Longrightarrow>
   polygon_loop x y u ps inside = (inside \<noteq> ((y < snd u) \<noteq> (y < snd (last (u # ps)))))"
proof (induction ps arbitrary: u inside)
  case (Cons q ps)
  then have "polygon_loop x y q ps (inside \<noteq> ray_meets x y u q) =
      ((inside \<noteq> ray_meets x y u q) \<noteq> ((y < snd q) \<noteq> (y < snd (last (q # ps)))))" by simp
  with Cons.prems show ?case
    unfolding polygon_loop_step by (simp add: ray_meets_left_of) blast
qed simp

section \<open>Properties\<close>

text \<open>
  a point that the test puts in a zone lies within the zone's bounding box: some vertex is
  at or left of it, some right of it, some at or above it and some below it in the image.
\<close>

theorem zone_within_bounding_box:
  assumes "point_in_polygon (x, y) polygon"
  shows "(\<exists>p \<in> set polygon. fst p \<le> x) \<and> (\<exists>p \<in> set polygon. x < fst p) \<and>
    (\<exists>p \<in> set polygon. snd p \<le> y) \<and> (\<exists>p \<in> set polygon. y < snd p)"
proof -
  have ne: "polygon \<noteq> []" and loop: "polygon_loop x y (last polygon) polygon False"
    using assms by (auto simp: point_in_polygon_def split: if_splits)
  have mem: "set (last polygon # polygon) = set polygon" using ne by auto
  have "\<not> (\<forall>p \<in> set polygon. x < fst p)"
  proof
    assume "\<forall>p \<in> set polygon. x < fst p"
    then have "\<forall>p \<in> set (last polygon # polygon). x < fst p" unfolding mem .
    from loop_left_of [OF this, of y False] loop ne show False by simp
  qed
  moreover have "\<not> (\<forall>p \<in> set polygon. fst p \<le> x)"
    using loop_right_of [of "last polygon" polygon x y False] loop unfolding mem by blast
  moreover have "\<not> (\<forall>p \<in> set polygon. (y < snd p) = side)" for side
    using loop_one_side [of "last polygon" polygon y side x False] loop unfolding mem by blast
  then have "\<not> (\<forall>p \<in> set polygon. y < snd p)" "\<not> (\<forall>p \<in> set polygon. \<not> y < snd p)" by blast+
  ultimately show ?thesis by (meson linorder_not_less)
qed

theorem zone_within_bounding_box_witness:
  "let polygon = [(0, 0), (4, 0), (4, 4), (0, 4)] :: point list
   in point_in_polygon (1, 1) polygon \<and>
      (\<exists>p \<in> set polygon. fst p \<le> 1) \<and> (\<exists>p \<in> set polygon. 1 < fst p) \<and>
      (\<exists>p \<in> set polygon. snd p \<le> 1) \<and> (\<exists>p \<in> set polygon. 1 < snd p)"
proof -
  have "point_in_polygon (1, 1) [(0, 0), (4, 0), (4, 4), (0, 4)]"
    by (simp add: point_in_polygon_def)
  with zone_within_bounding_box [OF this] show ?thesis unfolding Let_def by blast
qed

text \<open>
  for a rectangular zone the test is exact: a point is inside when it is not left of or above
  the rectangle and strictly left of its right edge and above its lower edge.
\<close>

theorem rectangle_zone_exact:
  assumes "a < c" and "b < d"
  shows "point_in_polygon (x, y) [(a, b), (c, b), (c, d), (a, d)] = (a \<le> x \<and> x < c \<and> b \<le> y \<and> y < d)"
  using assms by (auto simp: point_in_polygon_def Let_def)

theorem rectangle_zone_exact_witness:
  "\<forall>x y. point_in_polygon (x, y) [(0, 0), (2, 0), (2, 1), (0, 1)] = (0 \<le> x \<and> x < 2 \<and> 0 \<le> y \<and> y < 1)"
  by (intro allI rectangle_zone_exact) simp_all

end
