(* ===== verification/Pose.thy ===== *)
theory Pose
  imports PyValue Geometry
begin

text \<open>
  Person observations and the quality gate in front of the behaviour rules:
  \<^verbatim>\<open>modules/savant_security/custom/models/pose.py\<close>.  Coordinates, confidences and the
  gate's thresholds are finite floats, modelled by reals.
\<close>

section \<open>Observations\<close>

record bbox =
  bb_x :: real
  bb_y :: real
  bb_width :: real
  bb_height :: real

definition bbox_zero :: bbox where
  "bbox_zero = \<lparr>bb_x = 0, bb_y = 0, bb_width = 0, bb_height = 0\<rparr>"

definition bbox_center :: "bbox \<Rightarrow> point" where
  "bbox_center b = (bb_x b + bb_width b / 2, bb_y b + bb_height b / 2)"

definition foot_point :: "bbox \<Rightarrow> point" where
  "foot_point b = (bb_x b + bb_width b / 2, bb_y b + bb_height b)"

record keypoint =
  kp_x :: real
  kp_y :: real
  kp_confidence :: real
  kp_name :: string

record pose_observation =
  po_source_id :: string
  po_camera_id :: string
  po_frame_id :: int
  po_timestamp_ms :: int
  po_bbox :: bbox
  po_confidence :: real
  po_track_id :: int
  po_keypoints :: "keypoint list"
  po_keypoint_confidence :: real

definition coco17_keypoint_names :: "string list" where
  "coco17_keypoint_names =
     [''nose'', ''left_eye'', ''right_eye'', ''left_ear'', ''right_ear'',
      ''left_shoulder'', ''right_shoulder'', ''left_elbow'', ''right_elbow'',
      ''left_wrist'', ''right_wrist'', ''left_hip'', ''right_hip'',
      ''left_knee'', ''right_knee'', ''left_ankle'', ''right_ankle'']"

text \<open>The array is given flattened; flattening it is numpy's work.\<close>

definition parse_keypoints :: "real list \<Rightarrow> keypoint list result" where
  "parse_keypoints arr =
     (if length arr \<noteq> 51
      then Inl (Value_Error (''Expected 51 values, got '' @ int_dec (int (length arr))))
      else Inr (map (\<lambda>i. \<lparr>kp_x = arr ! (3 * i), kp_y = arr ! (3 * i + 1), kp_confidence = arr ! (3 * i + 2),
                          kp_name = coco17_keypoint_names ! i\<rparr>) [0..<17]))"

definition uint64_max :: int where
  "uint64_max = 18446744073709551615"

text \<open>An infinite float raises the \<open>OverflowError\<close> that the source does not catch.\<close>

definition is_valid_track_id :: "pyval \<Rightarrow> bool result" where
  "is_valid_track_id v =
     (if v = PNone then Inr False
      else
        (case py_int v of
           Inr tid \<Rightarrow> Inr (\<not> tid \<le> 0 \<and> tid \<noteq> uint64_max)
         | Inl Overflow_Error \<Rightarrow> Inl Overflow_Error
         | Inl _ \<Rightarrow> Inr False))"

definition visible_keypoint_count :: "keypoint list \<Rightarrow> pyfloat \<Rightarrow> int" where
  "visible_keypoint_count kps threshold =
     int (length (filter (\<lambda>kp. flt_le threshold (Fin (kp_confidence kp))) kps))"

section \<open>The quality gate\<close>

record quality_config =
  qc_min_confidence :: real
  qc_min_width :: real
  qc_min_height :: real
  qc_min_visible_keypoints :: int
  qc_keypoint_threshold :: real
  qc_max_bbox_area_ratio :: real
  qc_min_aspect_ratio :: real
  qc_max_aspect_ratio :: real

definition quality_config_default :: quality_config where
  "quality_config_default =
     \<lparr>qc_min_confidence = 0.25, qc_min_width = 20, qc_min_height = 40, qc_min_visible_keypoints = 0,
      qc_keypoint_threshold = 0.25, qc_max_bbox_area_ratio = 0.9, qc_min_aspect_ratio = 0.1,
      qc_max_aspect_ratio = 4\<rparr>"

record quality_decision =
  qd_accepted :: bool
  qd_reason :: string
  qd_visible_keypoint_count :: int
  qd_bbox_was_clamped :: bool
  qd_bbox :: bbox

text \<open>\<open>frame_width and frame_height\<close>: both given and not zero.\<close>

definition frame_size :: "real option \<Rightarrow> real option \<Rightarrow> (real \<times> real) option" where
  "frame_size fw fh =
     (case (fw, fh) of (Some w, Some h) \<Rightarrow> if w \<noteq> 0 \<and> h \<noteq> 0 then Some (w, h) else None | _ \<Rightarrow> None)"

text \<open>
  The checks after the clamping, on the box that is judged.
\<close>

definition judge_bbox ::
  "quality_config \<Rightarrow> (real \<times> real) option \<Rightarrow> int \<Rightarrow> bool \<Rightarrow> bbox \<Rightarrow> quality_decision" where
  "judge_bbox cfg dims visible clamped b =
     (let decide = (\<lambda>ok reason. \<lparr>qd_accepted = ok, qd_reason = reason, qd_visible_keypoint_count = visible,
                     qd_bbox_was_clamped = clamped, qd_bbox = b\<rparr>);
          aspect = (if 0 < bb_height b then bb_width b / bb_height b else 0)
      in if bb_width b < qc_min_width cfg \<or> bb_height b < qc_min_height cfg then decide False ''small_bbox''
         else if aspect < qc_min_aspect_ratio cfg \<or> qc_max_aspect_ratio cfg < aspect
         then decide False ''aspect_ratiob''
         else if (case dims of None \<Rightarrow> False
                  | Some (w, h) \<Rightarrow> 0 < qc_max_bbox_area_ratio cfg \<and> 0 < w * h \<and>
                      qc_max_bbox_area_ratio cfg < bb_width b * bb_height b / (w * h))
         then decide False ''invalid_bbox''
         else if visible < qc_min_visible_keypoints cfg then decide False ''keypoints''
         else decide True ''accepted'')"

definition clamp :: "real \<Rightarrow> real \<Rightarrow> real" where
  "clamp limit v = min (max v 0) limit"

definition evaluate_person_quality ::
  "pose_observation \<Rightarrow> quality_config option \<Rightarrow> real option \<Rightarrow> real option \<Rightarrow> quality_decision" where
  "evaluate_person_quality obs config frame_width frame_height =
     (let cfg = (case config of None \<Rightarrow> quality_config_default | Some c \<Rightarrow> c);
          b = po_bbox obs;
          x1 = bb_x b; y1 = bb_y b; x2 = bb_x b + bb_width b; y2 = bb_y b + bb_height b;
          visible = visible_keypoint_count (po_keypoints obs) (Fin (qc_keypoint_threshold cfg));
          reject = (\<lambda>reason clamped box. \<lparr>qd_accepted = False, qd_reason = reason,
                      qd_visible_keypoint_count = visible, qd_bbox_was_clamped = clamped, qd_bbox = box\<rparr>)
      in if po_confidence obs < qc_min_confidence cfg then reject ''low_confidence'' False b
         else if x2 \<le> x1 \<or> y2 \<le> y1 then reject ''invalid_bbox'' False b
         else
           (case frame_size frame_width frame_height of
              None \<Rightarrow> judge_bbox cfg None visible False b
            | Some (w, h) \<Rightarrow>
                (let cx1 = clamp w x1; cy1 = clamp h y1; cx2 = clamp w x2; cy2 = clamp h y2;
                     clamped = (cx1 \<noteq> x1 \<or> cy1 \<noteq> y1 \<or> cx2 \<noteq> x2 \<or> cy2 \<noteq> y2)
                 in if cx2 \<le> cx1 \<or> cy2 \<le> cy1
                    then reject ''invalid_bbox'' clamped
                           \<lparr>bb_x = cx1, bb_y = cy1, bb_width = max (cx2 - cx1) 0, bb_height = max (cy2 - cy1) 0\<rparr>
                    else judge_bbox cfg (Some (w, h)) visible clamped
                           \<lparr>bb_x = cx1, bb_y = cy1, bb_width = cx2 - cx1, bb_height = cy2 - cy1\<rparr>)))"

record quality_stats =
  qs_raw :: int
  qs_accepted :: int
  qs_low_confidence :: int
  qs_small_bbox :: int
  qs_invalid_bbox :: int
  qs_aspect_ratio :: int
  qs_keypoints :: int
  qs_clamped :: int

definition quality_stats_init :: quality_stats where
  "quality_stats_init =
     \<lparr>qs_raw = 0, qs_accepted = 0, qs_low_confidence = 0, qs_small_bbox = 0, qs_invalid_bbox = 0,
      qs_aspect_ratio = 0, qs_keypoints = 0, qs_clamped = 0\<rparr>"

definition record_decision :: "quality_decision \<Rightarrow> quality_stats \<Rightarrow> quality_stats" where
  "record_decision d s0 =
     (let s1 = s0\<lparr>qs_raw := qs_raw s0 + 1\<rparr>;
          s = (if qd_bbox_was_clamped d then s1\<lparr>qs_clamped := qs_clamped s1 + 1\<rparr> else s1)
      in if qd_accepted d then s\<lparr>qs_accepted := qs_accepted s + 1\<rparr>
         else if qd_reason d = ''low_confidence'' then s\<lparr>qs_low_confidence := qs_low_confidence s + 1\<rparr>
         else if qd_reason d = ''small_bbox'' then s\<lparr>qs_small_bbox := qs_small_bbox s + 1\<rparr>
         else if qd_reason d = ''invalid_bbox'' then s\<lparr>qs_invalid_bbox := qs_invalid_bbox s + 1\<rparr>
         else if qd_reason d = ''aspect_ratiob'' then s\<lparr>qs_aspect_ratio := qs_aspect_ratio s + 1\<rparr>
         else if qd_reason d = ''keypoints'' then s\<lparr>qs_keypoints := qs_keypoints s + 1\<rparr>
         else s\<lparr>qs_invalid_bbox := qs_invalid_bbox s + 1\<rparr>)"

definition stats_as_dict :: "quality_stats \<Rightarrow> (string \<times> int) list" where
  "stats_as_dict s =
     [(''raw_person_detection_count'', qs_raw s), (''accepted_person_detection_count'', qs_accepted s),
      (''filtered_low_confidence_count'', qs_low_confidence s), (''filtered_small_bbox_count'', qs_small_bbox s),
      (''filtered_invalid_bbox_count'', qs_invalid_bbox s), (''filtered_aspect_ratio_count'', qs_aspect_ratio s),
      (''filtered_keypoints_count'', qs_keypoints s), (''clamped_bbox_count'', qs_clamped s)]"

record quality_result =
  qr_accepted :: "pose_observation list"
  qr_stats :: quality_stats
  qr_decisions :: "quality_decision list"

definition quality_step ::
  "quality_config option \<Rightarrow> real option \<Rightarrow> real option \<Rightarrow> pose_observation \<Rightarrow> quality_result \<Rightarrow> quality_result" where
  "quality_step config frame_width frame_height obs r =
     (let d = evaluate_person_quality obs config frame_width frame_height;
          r1 = r\<lparr>qr_stats := record_decision d (qr_stats r), qr_decisions := qr_decisions r @ [d]\<rparr>
      in if qd_accepted d
         then r1\<lparr>qr_accepted := qr_accepted r1 @
                  [if qd_bbox d \<noteq> po_bbox obs then obs\<lparr>po_bbox := qd_bbox d\<rparr> else obs]\<rparr>
         else r1)"

definition filter_person_pose_observations ::
  "pose_observation list \<Rightarrow> quality_config option \<Rightarrow> real option \<Rightarrow> real option \<Rightarrow> quality_result" where
  "filter_person_pose_observations observations config frame_width frame_height =
     fold (quality_step config frame_width frame_height) observations
       \<lparr>qr_accepted = [], qr_stats = quality_stats_init, qr_decisions = []\<rparr>"

section \<open>What an accepted observation satisfies\<close>

definition config_or_default :: "quality_config option \<Rightarrow> quality_config" where
  "config_or_default config = (case config of None \<Rightarrow> quality_config_default | Some c \<Rightarrow> c)"

definition within_frame :: "bbox \<Rightarrow> (real \<times> real) option \<Rightarrow> bool" where
  "within_frame b dims =
     (case dims of None \<Rightarrow> True
      | Some (w, h) \<Rightarrow> 0 \<le> bb_x b \<and> 0 \<le> bb_y b \<and> bb_x b + bb_width b \<le> w \<and> bb_y b + bb_height b \<le> h)"

lemma judge_accepted:
  assumes "qd_accepted (judge_bbox cfg dims visible clamped b)"
  shows "qc_min_width cfg \<le> bb_width b" and "qc_min_height cfg \<le> bb_height b"
    and "0 < bb_height b \<Longrightarrow> qc_min_aspect_ratio cfg \<le> bb_width b / bb_height b \<and>
      bb_width b / bb_height b \<le> qc_max_aspect_ratio cfg"
    and "qc_min_visible_keypoints cfg \<le> visible"
    and "qd_bbox (judge_bbox cfg dims visible clamped b) = b"
    and "qd_visible_keypoint_count (judge_bbox cfg dims visible clamped b) = visible"
  using assms by (auto simp: judge_bbox_def Let_def not_less split: if_splits)

lemma clamp_bounds:
  "clamp w v1 < clamp w v2 \<Longrightarrow> 0 \<le> clamp w v1" "clamp w v \<le> w"
  by (auto simp: clamp_def min_def max_def split: if_splits)

lemma accepted_sound:
  assumes acc: "qd_accepted (evaluate_person_quality obs config fw fh)"
  shows "let cfg = config_or_default config; d = evaluate_person_quality obs config fw fh; b = qd_bbox d
    in qc_min_confidence cfg \<le> po_confidence obs \<and> 0 < bb_width b \<and> 0 < bb_height b \<and>
       within_frame b (frame_size fw fh) \<and>
       qc_min_width cfg \<le> bb_width b \<and> qc_min_height cfg \<le> bb_height b \<and>
       qc_min_aspect_ratio cfg \<le> bb_width b / bb_height b \<and> bb_width b / bb_height b \<le> qc_max_aspect_ratio cfg \<and>
       qc_min_visible_keypoints cfg \<le> qd_visible_keypoint_count d"
proof (cases "frame_size fw fh")
  case None
  then have "evaluate_person_quality obs config fw fh =
      judge_bbox (config_or_default config) None
        (visible_keypoint_count (po_keypoints obs) (Fin (qc_keypoint_threshold (config_or_default config))))
        False (po_bbox obs)"
    and "qc_min_confidence (config_or_default config) \<le> po_confidence obs"
    and "0 < bb_width (po_bbox obs)" "0 < bb_height (po_bbox obs)"
    using acc by (auto simp: evaluate_person_quality_def Let_def config_or_default_def split: if_splits)
  with judge_accepted [of "config_or_default config" None] acc None show ?thesis
    by (simp add: Let_def within_frame_def)
next
  case (Some wh)
  obtain w h where wh: "wh = (w, h)" by (cases wh)
  let ?b = "po_bbox obs"
  let ?x1 = "clamp w (bb_x ?b)" and ?y1 = "clamp h (bb_y ?b)"
  let ?x2 = "clamp w (bb_x ?b + bb_width ?b)" and ?y2 = "clamp h (bb_y ?b + bb_height ?b)"
  let ?box = "\<lparr>bb_x = ?x1, bb_y = ?y1, bb_width = ?x2 - ?x1, bb_height = ?y2 - ?y1\<rparr>"
  have c: "qc_min_confidence (config_or_default config) \<le> po_confidence obs"
    and d: "evaluate_person_quality obs config fw fh =
      judge_bbox (config_or_default config) (Some (w, h))
        (visible_keypoint_count (po_keypoints obs) (Fin (qc_keypoint_threshold (config_or_default config))))
        (?x1 \<noteq> bb_x ?b \<or> ?y1 \<noteq> bb_y ?b \<or> ?x2 \<noteq> bb_x ?b + bb_width ?b \<or> ?y2 \<noteq> bb_y ?b + bb_height ?b) ?box"
    and pos: "?x1 < ?x2" "?y1 < ?y2"
    using acc Some wh by (auto simp: evaluate_person_quality_def Let_def config_or_default_def split: if_splits)
  note j = judge_accepted [OF acc [unfolded d]]
  have "within_frame ?box (Some (w, h))"
    using clamp_bounds(1) [OF pos(1)] clamp_bounds(1) [OF pos(2)] clamp_bounds(2)
    by (simp add: within_frame_def)
  then show ?thesis
    using j c pos unfolding Let_def d Some wh by simp
qed

section \<open>Counting\<close>

definition stats_balanced :: "quality_stats \<Rightarrow> bool" where
  "stats_balanced s \<longleftrightarrow>
     qs_raw s = qs_accepted s + qs_low_confidence s + qs_small_bbox s + qs_invalid_bbox s + qs_aspect_ratio s +
       qs_keypoints s"

lemma record_decision_counts:
  "qs_raw (record_decision d s) = qs_raw s + 1"
  "qs_accepted (record_decision d s) = qs_accepted s + of_bool (qd_accepted d)"
  by (simp_all add: record_decision_def Let_def)

lemma record_decision_balanced: "stats_balanced s \<Longrightarrow> stats_balanced (record_decision d s)"
proof -
  assume "stats_balanced s"
  then have "stats_balanced (record_decision (d\<lparr>qd_bbox_was_clamped := c\<rparr>) s)" for c
    by (auto simp: record_decision_def stats_balanced_def Let_def)
  from this [of "qd_bbox_was_clamped d"] show ?thesis by simp
qed

lemma quality_step_parts:
  "qr_stats (quality_step config fw fh a r) = record_decision (evaluate_person_quality a config fw fh) (qr_stats r)"
  "qr_decisions (quality_step config fw fh a r) = qr_decisions r @ [evaluate_person_quality a config fw fh]"
  "qr_accepted (quality_step config fw fh a r) = qr_accepted r @
     (if qd_accepted (evaluate_person_quality a config fw fh)
      then [a\<lparr>po_bbox := qd_bbox (evaluate_person_quality a config fw fh)\<rparr>] else [])"
  by (simp_all add: quality_step_def Let_def)

lemma quality_fold:
  fixes obs and r and config and fw and fh
  defines "r' \<equiv> fold (quality_step config fw fh) obs r"
    and "d \<equiv> \<lambda>ob. evaluate_person_quality ob config fw fh"
  shows "qr_accepted r' = qr_accepted r @ map (\<lambda>ob. ob\<lparr>po_bbox := qd_bbox (d ob)\<rparr>) (filter (\<lambda>ob. qd_accepted (d ob)) obs)"
    and "qr_decisions r' = qr_decisions r @ map d obs"
    and "qs_raw (qr_stats r') = qs_raw (qr_stats r) + int (length obs)"
    and "qs_accepted (qr_stats r') = qs_accepted (qr_stats r) + int (length (filter (\<lambda>ob. qd_accepted (d ob)) obs))"
    and "stats_balanced (qr_stats r) \<Longrightarrow> stats_balanced (qr_stats r')"
  unfolding r'_def d_def
  by (induction obs arbitrary: r)
    (simp_all add: quality_step_parts record_decision_counts record_decision_balanced)

section \<open>Properties\<close>

text \<open>
  the gate keeps the accepted observations in order and changes nothing of them but the box,
  and every one of them has the configured confidence, a box of positive size inside the frame
  and within the configured size and aspect limits, and enough visible keypoints.
\<close>

theorem quality_gate_sound:
  "let r = filter_person_pose_observations obs config fw fh;
       cfg = config_or_default config;
       d = \<lambda>ob. evaluate_person_quality ob config fw fh
   in qr_accepted r = map (\<lambda>ob. ob\<lparr>po_bbox := qd_bbox (d ob)\<rparr>) (filter (\<lambda>ob. qd_accepted (d ob)) obs) \<and>
      list_all (\<lambda>ob. qc_min_confidence cfg \<le> po_confidence ob \<and>
          0 < bb_width (po_bbox ob) \<and> 0 < bb_height (po_bbox ob) \<and> within_frame (po_bbox ob) (frame_size fw fh) \<and>
          qc_min_width cfg \<le> bb_width (po_bbox ob) \<and> qc_min_height cfg \<le> bb_height (po_bbox ob) \<and>
          qc_min_aspect_ratio cfg \<le> bb_width (po_bbox ob) / bb_height (po_bbox ob) \<and>
          bb_width (po_bbox ob) / bb_height (po_bbox ob) \<le> qc_max_aspect_ratio cfg \<and>
          qc_min_visible_keypoints cfg \<le>
            visible_keypoint_count (po_keypoints ob) (Fin (qc_keypoint_threshold cfg)))
        (qr_accepted r)"
proof -
  have vis: "qd_visible_keypoint_count (evaluate_person_quality ob' config fw fh) =
      visible_keypoint_count (po_keypoints ob') (Fin (qc_keypoint_threshold (config_or_default config)))" for ob'
    by (simp add: evaluate_person_quality_def judge_bbox_def config_or_default_def Let_def split: option.split)
  have "qr_accepted (filter_person_pose_observations obs config fw fh) =
      map (\<lambda>ob. ob\<lparr>po_bbox := qd_bbox (evaluate_person_quality ob config fw fh)\<rparr>)
        (filter (\<lambda>ob. qd_accepted (evaluate_person_quality ob config fw fh)) obs)"
    by (simp add: filter_person_pose_observations_def quality_fold(1))
  moreover note accepted_sound [of _ config fw fh, unfolded Let_def vis]
  ultimately show ?thesis by (simp add: list_all_iff Let_def)
qed

text \<open>
  the gate's statistics are exact: the raw count is the number of observations, it is the sum
  of the accepted and of the filtered counts, and the accepted count is the number of
  observations passed on.
\<close>

theorem quality_stats_exact:
  "let r = filter_person_pose_observations obs config fw fh; s = qr_stats r
   in qs_raw s = int (length obs) \<and> qs_accepted s = int (length (qr_accepted r)) \<and>
      qs_raw s = qs_accepted s + qs_low_confidence s + qs_small_bbox s + qs_invalid_bbox s + qs_aspect_ratio s +
        qs_keypoints s"
proof -
  let ?r = "\<lparr>qr_accepted = [], qr_stats = quality_stats_init, qr_decisions = []\<rparr>"
  have "stats_balanced (qr_stats (fold (quality_step config fw fh) obs ?r))"
    by (rule quality_fold(5)) (simp add: stats_balanced_def quality_stats_init_def)
  then have "stats_balanced (qr_stats (filter_person_pose_observations obs config fw fh))"
    by (simp add: filter_person_pose_observations_def)
  moreover have "qs_raw (qr_stats (filter_person_pose_observations obs config fw fh)) = int (length obs)"
    "qs_accepted (qr_stats (filter_person_pose_observations obs config fw fh)) =
      int (length (qr_accepted (filter_person_pose_observations obs config fw fh)))"
    by (simp_all add: filter_person_pose_observations_def quality_fold(1,3,4) quality_stats_init_def)
  ultimately show ?thesis unfolding stats_balanced_def Let_def by simp
qed

end
