(* ===== verification/Tracks.thy ===== *)
theory Tracks
  imports Pose
begin

text \<open>
  Per-track state of one source: \<^verbatim>\<open>modules/savant_security/custom/models/tracks.py\<close>.
\<close>

section \<open>Tracks\<close>

record track_state =
  ts_track_id :: int
  ts_observations :: "pose_observation list"
  ts_first_seen_ms :: int
  ts_last_seen_ms :: int

definition track_state_init :: "int \<Rightarrow> track_state" where
  "track_state_init track_id =
     \<lparr>ts_track_id = track_id, ts_observations = [], ts_first_seen_ms = 0, ts_last_seen_ms = 0\<rparr>"

definition window_ms :: "real \<Rightarrow> int" where
  "window_ms window_s = py_trunc (window_s * 1000)"

definition track_trim :: "real \<Rightarrow> track_state \<Rightarrow> track_state" where
  "track_trim window_s t =
     (if ts_observations t = [] then t
      else
        (let cutoff = ts_last_seen_ms t - window_ms window_s
         in t\<lparr>ts_observations := filter (\<lambda>ob. cutoff \<le> po_timestamp_ms ob) (ts_observations t)\<rparr>))"

definition add_observation :: "pose_observation \<Rightarrow> real \<Rightarrow> track_state \<Rightarrow> track_state" where
  "add_observation ob window_s t =
     (let t1 = t\<lparr>ts_observations := ts_observations t @ [ob]\<rparr>;
          t2 = (if ts_first_seen_ms t1 = 0 \<or> po_timestamp_ms ob < ts_first_seen_ms t1
                then t1\<lparr>ts_first_seen_ms := po_timestamp_ms ob\<rparr> else t1);
          t3 = (if ts_last_seen_ms t2 < po_timestamp_ms ob
                then t2\<lparr>ts_last_seen_ms := po_timestamp_ms ob\<rparr> else t2)
      in track_trim window_s t3)"

definition current_bbox :: "track_state \<Rightarrow> bbox" where
  "current_bbox t = (if ts_observations t = [] then bbox_zero else po_bbox (last (ts_observations t)))"

text \<open>\<open>math.hypot\<close> and the square root of a sum of squares\<close>

definition hypot :: "real \<Rightarrow> real \<Rightarrow> real" where
  "hypot dx dy = sqrt (dx * dx + dy * dy)"

definition foot_distance :: "pose_observation \<Rightarrow> pose_observation \<Rightarrow> real" where
  "foot_distance a b =
     hypot (fst (foot_point (po_bbox b)) - fst (foot_point (po_bbox a)))
       (snd (foot_point (po_bbox b)) - snd (foot_point (po_bbox a)))"

text \<open>Distance and time over the pairs of neighbours that move forward in time.\<close>

fun path_totals :: "pose_observation list \<Rightarrow> real \<Rightarrow> int \<Rightarrow> real \<times> int" where
  "path_totals (a # b # obs) way elapsed =
     (let dt = po_timestamp_ms b - po_timestamp_ms a
      in if 0 < dt then path_totals (b # obs) (way + foot_distance a b) (elapsed + dt)
         else path_totals (b # obs) way elapsed)"
| "path_totals _ way elapsed = (way, elapsed)"

definition avg_speed_px_s :: "track_state \<Rightarrow> real" where
  "avg_speed_px_s t =
     (if length (ts_observations t) < 2 then 0
      else
        (let (way, elapsed) = path_totals (ts_observations t) 0 0
         in if elapsed \<le> 0 then 0 else way / of_int elapsed * 1000))"

section \<open>The store\<close>

record track_store =
  tk_observation_window_s :: real
  tk_track_timeout_s :: real
  tk_tracks :: "(int, track_state) dict"

definition track_store_init :: "real \<Rightarrow> real \<Rightarrow> track_store" where
  "track_store_init observation_window_s track_timeout_s =
     \<lparr>tk_observation_window_s = observation_window_s, tk_track_timeout_s = track_timeout_s, tk_tracks = []\<rparr>"

definition store_observe :: "pose_observation \<Rightarrow> track_store \<Rightarrow> track_store" where
  "store_observe ob s =
     (let tid = po_track_id ob
      in if is_valid_track_id (PInt tid) \<noteq> Inr True then s
         else
           (let t = (case dget (tk_tracks s) tid of None \<Rightarrow> track_state_init tid | Some t \<Rightarrow> t)
            in s\<lparr>tk_tracks := dset tid (add_observation ob (tk_observation_window_s s) t) (tk_tracks s)\<rparr>))"

definition store_evict :: "int \<Rightarrow> track_store \<Rightarrow> track_store" where
  "store_evict now_ms s =
     (let timeout_ms = window_ms (tk_track_timeout_s s)
      in s\<lparr>tk_tracks := filter (\<lambda>(tid, t). \<not> timeout_ms < now_ms - ts_last_seen_ms t) (tk_tracks s)\<rparr>)"

definition max_timestamp :: "pose_observation list \<Rightarrow> int" where
  "max_timestamp obs = (if obs = [] then 0 else Max (po_timestamp_ms ` set obs))"

definition frame_now_ms :: "pose_observation list \<Rightarrow> int option \<Rightarrow> int" where
  "frame_now_ms obs now_ms = max (max_timestamp obs) (case now_ms of None \<Rightarrow> 0 | Some n \<Rightarrow> n)"

definition store_update :: "pose_observation list \<Rightarrow> int option \<Rightarrow> track_store \<Rightarrow> track_store" where
  "store_update obs now_ms s = store_evict (frame_now_ms obs now_ms) (fold store_observe obs s)"

definition get_track :: "int \<Rightarrow> track_store \<Rightarrow> track_state option" where
  "get_track track_id s = dget (tk_tracks s) track_id"

definition active_tracks :: "track_store \<Rightarrow> track_state list" where
  "active_tracks s = map snd (tk_tracks s)"

definition track_count :: "track_store \<Rightarrow> int" where
  "track_count s = int (length (tk_tracks s))"

definition store_reset :: "track_store \<Rightarrow> track_store" where
  "store_reset s = s\<lparr>tk_tracks := []\<rparr>"

section \<open>Well-formed tracks\<close>

text \<open>
  A track holds the recent observations of its own object, the latest of them included.
\<close>

definition track_ok :: "real \<Rightarrow> int \<Rightarrow> track_state \<Rightarrow> bool" where
  "track_ok window_s tid t \<longleftrightarrow>
     ts_track_id t = tid \<and> 0 < tid \<and>
     (\<exists>ob \<in> set (ts_observations t). po_timestamp_ms ob = ts_last_seen_ms t) \<and>
     (\<forall>ob \<in> set (ts_observations t). po_track_id ob = tid \<and> 0 \<le> po_timestamp_ms ob \<and>
        po_timestamp_ms ob \<le> ts_last_seen_ms t \<and>
        ts_last_seen_ms t - window_ms window_s \<le> po_timestamp_ms ob)"

definition store_ok :: "track_store \<Rightarrow> bool" where
  "store_ok s \<longleftrightarrow>
     dict_ok (tk_tracks s) \<and>
     (\<forall>tid t. dget (tk_tracks s) tid = Some t \<longrightarrow> track_ok (tk_observation_window_s s) tid t)"

lemma store_ok_init: "store_ok (track_store_init w t)"
  by (simp add: store_ok_def track_store_init_def)

lemma window_ms_nonneg: "0 \<le> w \<Longrightarrow> 0 \<le> window_ms w"
  by (simp add: window_ms_def)

lemma add_observation_fields:
  "ts_track_id (add_observation ob w t) = ts_track_id t"
  "ts_last_seen_ms (add_observation ob w t) = max (ts_last_seen_ms t) (po_timestamp_ms ob)"
  "ts_observations (add_observation ob w t) =
     filter (\<lambda>x. max (ts_last_seen_ms t) (po_timestamp_ms ob) - window_ms w \<le> po_timestamp_ms x)
       (ts_observations t @ [ob])"
  by (simp_all add: add_observation_def track_trim_def Let_def max_def)

lemma track_ok_add:
  assumes "t = track_state_init tid \<or> track_ok w tid t" and "po_track_id ob = tid" and "0 < tid"
    and "0 \<le> po_timestamp_ms ob" and "0 \<le> w"
  shows "track_ok w tid (add_observation ob w t)"
proof -
  have w: "0 \<le> window_ms w" using assms(5) by (rule window_ms_nonneg)
  from assms(1) show ?thesis
  proof
    assume "t = track_state_init tid"
    then show ?thesis
      using assms(2-4) w by (auto simp: track_ok_def add_observation_fields track_state_init_def)
  next
    assume t: "track_ok w tid t"
    then obtain m where m: "m \<in> set (ts_observations t)" "po_timestamp_ms m = ts_last_seen_ms t"
      by (auto simp: track_ok_def)
    have "\<exists>x \<in> set (ts_observations (add_observation ob w t)).
        po_timestamp_ms x = max (ts_last_seen_ms t) (po_timestamp_ms ob)"
    proof (cases "ts_last_seen_ms t < po_timestamp_ms ob")
      case True
      then show ?thesis using w by (auto simp: add_observation_fields)
    next
      case False
      with m w show ?thesis by (auto simp: add_observation_fields max_def intro!: bexI [of _ m])
    qed
    then show ?thesis
      using t assms(2-4) by (auto simp: track_ok_def add_observation_fields)
  qed
qed

lemma valid_int_id: "is_valid_track_id (PInt tid) = Inr True \<longleftrightarrow> 0 < tid \<and> tid \<noteq> uint64_max"
  by (auto simp: is_valid_track_id_def)

lemma store_observe_frame [simp]:
  "tk_observation_window_s (store_observe ob s) = tk_observation_window_s s"
  "tk_track_timeout_s (store_observe ob s) = tk_track_timeout_s s"
  by (simp_all add: store_observe_def Let_def)

lemma store_ok_observe:
  assumes "store_ok s" and "0 \<le> po_timestamp_ms ob" and "0 \<le> tk_observation_window_s s"
  shows "store_ok (store_observe ob s)"
proof (cases "is_valid_track_id (PInt (po_track_id ob)) = Inr True")
  case True
  let ?tid = "po_track_id ob"
  let ?t = "case dget (tk_tracks s) ?tid of None \<Rightarrow> track_state_init ?tid | Some t \<Rightarrow> t"
  have "?t = track_state_init ?tid \<or> track_ok (tk_observation_window_s s) ?tid ?t"
    using assms(1) by (auto simp: store_ok_def split: option.split)
  then have "track_ok (tk_observation_window_s s) ?tid (add_observation ob (tk_observation_window_s s) ?t)"
    using True assms(2,3) by (intro track_ok_add) (auto simp: valid_int_id)
  with assms(1) True show ?thesis
    by (simp add: store_observe_def Let_def store_ok_def dict_simps)
qed (use assms in \<open>simp add: store_observe_def\<close>)

lemma store_observe_all:
  assumes "store_ok s" and "0 \<le> tk_observation_window_s s" and "\<forall>ob \<in> set obs. 0 \<le> po_timestamp_ms ob"
  shows "store_ok (fold store_observe obs s)"
    and "tk_observation_window_s (fold store_observe obs s) = tk_observation_window_s s"
    and "tk_track_timeout_s (fold store_observe obs s) = tk_track_timeout_s s"
  using assms by (induction obs arbitrary: s) (auto simp: store_ok_observe)

lemma store_ok_evict: "store_ok s \<Longrightarrow> store_ok (store_evict now s)"
  by (auto simp: store_ok_def store_evict_def Let_def dget_filter split: option.splits if_splits)

lemma store_update_ok:
  assumes "store_ok s" and "0 \<le> tk_observation_window_s s" and "\<forall>ob \<in> set obs. 0 \<le> po_timestamp_ms ob"
  shows "store_ok (store_update obs now s)"
    and "tk_observation_window_s (store_update obs now s) = tk_observation_window_s s"
    and "tk_track_timeout_s (store_update obs now s) = tk_track_timeout_s s"
proof -
  show "store_ok (store_update obs now s)"
    unfolding store_update_def by (rule store_ok_evict [OF store_observe_all(1) [OF assms]])
  show "tk_observation_window_s (store_update obs now s) = tk_observation_window_s s"
    and "tk_track_timeout_s (store_update obs now s) = tk_track_timeout_s s"
    using store_observe_all(2,3) [OF assms] by (simp_all add: store_update_def store_evict_def Let_def)
qed

lemma store_updates_ok:
  assumes "0 \<le> w" and "\<forall>(obs, now) \<in> set frames. \<forall>ob \<in> set obs. 0 \<le> po_timestamp_ms ob"
  shows "let s = fold (\<lambda>(obs, now). store_update obs now) frames (track_store_init w t)
    in store_ok s \<and> tk_observation_window_s s = w \<and> tk_track_timeout_s s = t"
proof -
  have "store_ok s \<Longrightarrow> tk_observation_window_s s = w \<Longrightarrow> tk_track_timeout_s s = t \<Longrightarrow>
    (let s' = fold (\<lambda>(obs, now). store_update obs now) frames s
     in store_ok s' \<and> tk_observation_window_s s' = w \<and> tk_track_timeout_s s' = t)" for s
    using assms
  proof (induction frames arbitrary: s)
    case (Cons f fs)
    obtain obs now where f: "f = (obs, now)" by (cases f)
    from store_update_ok [of s obs now] Cons.prems f Cons.IH [of "store_update obs now s"]
    show ?case by (simp add: Let_def)
  qed (simp add: Let_def)
  then show ?thesis using store_ok_init [of w t] by (simp add: track_store_init_def)
qed

section \<open>Properties\<close>

text \<open>
  after any sequence of frames every track the store holds belongs to its id, is not empty,
  keeps only observations of its own object that lie within the window before the latest one,
  and was seen within the timeout before the last frame.
\<close>

theorem store_tracks_fresh:
  assumes "0 \<le> w" and "\<forall>(obs, now) \<in> set frames. \<forall>ob \<in> set obs. 0 \<le> po_timestamp_ms ob"
    and "frames = fs @ [(obs, now)]"
    and "t \<in> set (active_tracks (fold (\<lambda>(obs, now). store_update obs now) frames (track_store_init w timeout)))"
  shows "track_ok w (ts_track_id t) t \<and> ts_observations t \<noteq> [] \<and>
    frame_now_ms obs now - ts_last_seen_ms t \<le> window_ms timeout"
proof -
  let ?before = "fold (\<lambda>(obs, now). store_update obs now) fs (track_store_init w timeout)"
  let ?s = "store_update obs now ?before"
  have s: "fold (\<lambda>(obs, now). store_update obs now) frames (track_store_init w timeout) = ?s"
    using assms(3) by simp
  have ok: "store_ok ?s" "tk_observation_window_s ?s = w"
    using store_updates_ok [OF assms(1,2), of timeout] unfolding s Let_def by blast+
  have "\<forall>(obs, now) \<in> set fs. \<forall>ob \<in> set obs. 0 \<le> po_timestamp_ms ob" using assms(2,3) by auto
  from store_updates_ok [OF assms(1) this, of timeout]
  have s0: "store_ok ?before" "tk_observation_window_s ?before = w" "tk_track_timeout_s ?before = timeout"
    unfolding Let_def by blast+
  obtain tid where tid: "(tid, t) \<in> set (tk_tracks ?s)" using assms(4) s by (auto simp: active_tracks_def)
  with ok(1) have "dget (tk_tracks ?s) tid = Some t" by (auto simp: store_ok_def intro: in_dictD)
  with ok have t: "track_ok w tid t" by (auto simp: store_ok_def)
  moreover have "ts_track_id t = tid" "ts_observations t \<noteq> []" using t by (auto simp: track_ok_def)
  moreover have "\<forall>ob \<in> set obs. 0 \<le> po_timestamp_ms ob" using assms(2,3) by auto
  then have "tk_track_timeout_s (fold store_observe obs ?before) = timeout"
    using store_observe_all(3) [OF s0(1), of obs] s0(2,3) assms(1) by simp
  then have "frame_now_ms obs now - ts_last_seen_ms t \<le> window_ms timeout"
    using tid by (auto simp: store_update_def store_evict_def Let_def)
  ultimately show ?thesis by simp
qed

definition example_observation :: "int \<Rightarrow> int \<Rightarrow> real \<Rightarrow> real \<Rightarrow> pose_observation" where
  "example_observation tid ts x y =
     \<lparr>po_source_id = ''source'', po_camera_id = ''camera'', po_frame_id = 0, po_timestamp_ms = ts,
      po_bbox = \<lparr>bb_x = x, bb_y = y, bb_width = 2, bb_height = 2\<rparr>, po_confidence = 1, po_track_id = tid,
      po_keypoints = [], po_keypoint_confidence = 0\<rparr>"

lemma store_tracks_fresh_witness:
  "let s = fold (\<lambda>(obs, now). store_update obs now) [([example_observation 7 100 0 0], None)]
       (track_store_init 5 10)
   in active_tracks s \<noteq> [] \<and>
      list_all (\<lambda>t. track_ok 5 (ts_track_id t) t \<and> ts_observations t \<noteq> [] \<and>
        frame_now_ms [example_observation 7 100 0 0] None - ts_last_seen_ms t \<le> window_ms 10) (active_tracks s)"
proof -
  let ?fs = "[([example_observation 7 100 0 0], None)] :: (pose_observation list \<times> int option) list"
  have ts: "\<forall>(obs, now) \<in> set ?fs. \<forall>ob \<in> set obs. 0 \<le> po_timestamp_ms ob"
    by (simp add: example_observation_def)
  have "active_tracks (fold (\<lambda>(obs, now). store_update obs now) ?fs (track_store_init 5 10)) \<noteq> []"
    by (simp add: active_tracks_def store_update_def store_evict_def store_observe_def track_store_init_def
        example_observation_def is_valid_track_id_def uint64_max_def add_observation_fields window_ms_def
        frame_now_ms_def max_timestamp_def track_state_init_def Let_def)
  then show ?thesis
    using store_tracks_fresh [where w = 5 and fs = "[]" and obs = "[example_observation 7 100 0 0]" and now = None and timeout = 10, OF _ ts]
    by (simp add: list_all_iff Let_def)
qed

end
