(* ===== verification/RuleBase.thy ===== *)
theory RuleBase
  imports Cooldown Tracks
begin

text \<open>
  What the behaviour rules share: the configuration records
  (\<^verbatim>\<open>models/camera_config.py\<close>), the events they emit (\<^verbatim>\<open>models/events.py\<close>),
  the base class (\<^verbatim>\<open>rules/base.py\<close>) and the helpers that read a configuration value,
  which every rule module repeats.  All paths are below
  \<^verbatim>\<open>modules/savant_security/custom/\<close>.
\<close>

section \<open>Configuration\<close>

type_synonym config = "(string \<times> pyval) list"

record zone_config =
  zc_name :: string
  zc_polygon :: "point list"

definition zone_config_default :: zone_config where
  "zone_config_default = \<lparr>zc_name = [], zc_polygon = []\<rparr>"

record rule_config =
  rc_name :: string
  rc_rule_type :: string
  rc_zone :: string
  rc_enabled :: bool
  rc_min_inside_ms :: int
  rc_cooldown_s :: int
  rc_severity :: string
  rc_snapshot_required :: bool
  rc_clip_required :: bool
  rc_config :: config
  rc_algorithm_id :: string

definition rule_config_default :: rule_config where
  "rule_config_default =
     \<lparr>rc_name = [], rc_rule_type = [], rc_zone = [], rc_enabled = True, rc_min_inside_ms = 1000,
      rc_cooldown_s = 30, rc_severity = ''medium'', rc_snapshot_required = True, rc_clip_required = True,
      rc_config = [], rc_algorithm_id = []\<rparr>"

record camera_config =
  cc_camera_id :: string
  cc_zones :: "(string, zone_config) dict"
  cc_rules :: "(string, rule_config) dict"

definition get_zone :: "camera_config \<Rightarrow> string \<Rightarrow> zone_config" where
  "get_zone cam name = dget_or (cc_zones cam) name zone_config_default"

definition get_rule :: "camera_config \<Rightarrow> string \<Rightarrow> rule_config" where
  "get_rule cam name = dget_or (cc_rules cam) name rule_config_default"

section \<open>Configuration values\<close>

text \<open>
  \<open>value is None or str(value).strip() == ""\<close>: the text of a number, a truth value or a
  container is never blank.
\<close>

definition blank_value :: "pyval \<Rightarrow> bool" where
  "blank_value v = (case v of PNone \<Rightarrow> True | PStr s \<Rightarrow> py_strip s = [] | _ \<Rightarrow> False)"

definition float_value :: "pyval \<Rightarrow> pyfloat \<Rightarrow> pyfloat" where
  "float_value v d =
     (if blank_value v then d else case py_float v of Inr x \<Rightarrow> x | Inl _ \<Rightarrow> d)"

text \<open>\<open>int(float(value))\<close>; an infinity raises the \<open>OverflowError\<close> that the helper does not catch.\<close>

definition int_value :: "pyval \<Rightarrow> int \<Rightarrow> int result" where
  "int_value v d =
     (if blank_value v then Inr d
      else
        (case rbind (py_float v) (\<lambda>x. py_int (PFloat x)) of
           Inr i \<Rightarrow> Inr i
         | Inl Overflow_Error \<Rightarrow> Inl Overflow_Error
         | Inl _ \<Rightarrow> Inr d))"

text \<open>
  \<open>str(value).strip().lower() in ("1", "true", "yes", "on")\<close>; of the other types only the
  texts of \<open>True\<close> and \<open>1\<close> are in the tuple.
\<close>

definition bool_value :: "pyval \<Rightarrow> bool \<Rightarrow> bool" where
  "bool_value v d =
     (if blank_value v then d
      else
        (case v of
           PBool b \<Rightarrow> b
         | PInt i \<Rightarrow> i = 1
         | PStr s \<Rightarrow> py_lower (py_strip s) \<in> {''1'', ''true'', ''yes'', ''on''}
         | _ \<Rightarrow> False))"

definition getenv :: "environ \<Rightarrow> string \<Rightarrow> pyval" where
  "getenv env name = (case env name of None \<Rightarrow> PNone | Some v \<Rightarrow> PStr v)"

definition env_float :: "environ \<Rightarrow> string \<Rightarrow> pyfloat \<Rightarrow> pyfloat" where
  "env_float env name d = float_value (getenv env name) d"

definition env_int :: "environ \<Rightarrow> string \<Rightarrow> int \<Rightarrow> int result" where
  "env_int env name d = int_value (getenv env name) d"

definition env_bool :: "environ \<Rightarrow> string \<Rightarrow> bool \<Rightarrow> bool" where
  "env_bool env name d = bool_value (getenv env name) d"

fun config_alias :: "config \<Rightarrow> string list \<Rightarrow> pyval" where
  "config_alias cfg [] = PNone"
| "config_alias cfg (k # ks) = (case dget cfg k of Some v \<Rightarrow> v | None \<Rightarrow> config_alias cfg ks)"

text \<open>\<open>fallback_cooldown_s or cls.cooldown_s\<close>\<close>

definition cooldown_or :: "int \<Rightarrow> int \<Rightarrow> int" where
  "cooldown_or fallback d = (if fallback = 0 then d else fallback)"

section \<open>Events\<close>

definition build_source_event_id :: "string \<Rightarrow> string \<Rightarrow> int \<Rightarrow> string \<Rightarrow> int \<Rightarrow> string" where
  "build_source_event_id producer camera_id track_id event_type start_ts_ms =
     producer @ '':'' @ camera_id @ '':'' @ (if 0 < track_id then int_dec track_id else ''none'') @ '':'' @
     event_type @ '':'' @ int_dec start_ts_ms"

record security_event =
  se_schema_version :: string
  se_source_event_id :: string
  se_producer :: string
  se_gpu_id :: int
  se_event_type :: string
  se_camera_id :: string
  se_source_id :: string
  se_track_id :: pyval
  se_person_id :: pyval
  se_algorithm_type :: string
  se_algorithm_version :: "string option"
  se_start_ts_ms :: int
  se_end_ts_ms :: "int option"
  se_event_ts_ms :: int
  se_frame_id :: int
  se_frame_uuid :: "string option"
  se_keyframe_uuid :: "string option"
  se_confidence :: real
  se_severity :: string
  se_zone :: string
  se_rule_name :: string
  se_description :: string
  se_snapshot_required :: bool
  se_clip_required :: bool
  se_evidence_policy :: config
  se_payload :: config

definition security_event_default :: security_event where
  "security_event_default =
     \<lparr>se_schema_version = ''1.0'', se_source_event_id = [], se_producer = ''savant_security'',
      se_gpu_id = 0, se_event_type = [], se_camera_id = [], se_source_id = [], se_track_id = PNone,
      se_person_id = PNone, se_algorithm_type = [], se_algorithm_version = None, se_start_ts_ms = 0,
      se_end_ts_ms = None, se_event_ts_ms = 0, se_frame_id = 0, se_frame_uuid = None,
      se_keyframe_uuid = None, se_confidence = 0, se_severity = ''medium'', se_zone = [],
      se_rule_name = [], se_description = [], se_snapshot_required = False, se_clip_required = False,
      se_evidence_policy = [], se_payload = []\<rparr>"

definition event_post_init :: "security_event \<Rightarrow> security_event" where
  "event_post_init e0 =
     (let e1 = (if se_algorithm_type e0 = [] \<and> se_event_type e0 \<noteq> []
                then e0\<lparr>se_algorithm_type :=
                       (if se_event_type e0 \<in> {''face_observed'', ''watchlist_hit'', ''live_search_hit''}
                        then ''face_intelligence''
                        else if se_event_type e0 = ''wall_climb_suspicious''
                        then ''behavior.wall_climb_suspicious''
                        else ''behavior.'' @ se_event_type e0)\<rparr>
                else e0);
          e2 = (if se_end_ts_ms e1 = None \<and> se_start_ts_ms e1 \<noteq> 0
                then e1\<lparr>se_end_ts_ms := Some (se_start_ts_ms e1)\<rparr> else e1)
      in if se_event_ts_ms e2 = 0 then e2\<lparr>se_event_ts_ms := se_start_ts_ms e2\<rparr> else e2)"

section \<open>Single-track rules\<close>

record rule_base =
  rb_config :: rule_config
  rb_zone :: zone_config

definition last_camera_id :: "track_state \<Rightarrow> string" where
  "last_camera_id t = (if ts_observations t = [] then [] else po_camera_id (last (ts_observations t)))"

definition cooldown_key :: "rule_base \<Rightarrow> track_state \<Rightarrow> string" where
  "cooldown_key r t = last_camera_id t @ '':'' @ int_dec (ts_track_id t) @ '':'' @ zc_name (rb_zone r)"

text \<open>The event that a rule constructs from the last observation of a track.\<close>

definition rule_event ::
  "rule_base \<Rightarrow> track_state \<Rightarrow> string \<Rightarrow> int \<Rightarrow> int \<Rightarrow> string \<Rightarrow> config \<Rightarrow> security_event" where
  "rule_event r t event_type start_ts_ms end_ts_ms description payload =
     (let ob = last (ts_observations t); cfg = rb_config r
      in event_post_init
           (security_event_default
              \<lparr>se_event_type := event_type, se_camera_id := po_camera_id ob, se_source_id := po_source_id ob,
               se_track_id := PInt (ts_track_id t), se_start_ts_ms := start_ts_ms,
               se_end_ts_ms := Some end_ts_ms, se_confidence := po_confidence ob,
               se_severity := rc_severity cfg, se_zone := zc_name (rb_zone r), se_rule_name := rc_name cfg,
               se_description := description, se_snapshot_required := rc_snapshot_required cfg,
               se_clip_required := rc_clip_required cfg, se_payload := payload\<rparr>))"

lemma rule_event_fields:
  "se_event_type (rule_event r t ty st en d p) = ty"
  "se_camera_id (rule_event r t ty st en d p) = po_camera_id (last (ts_observations t))"
  "se_track_id (rule_event r t ty st en d p) = PInt (ts_track_id t)"
  "se_start_ts_ms (rule_event r t ty st en d p) = st"
  "se_end_ts_ms (rule_event r t ty st en d p) = Some en"
  "se_zone (rule_event r t ty st en d p) = zc_name (rb_zone r)"
  "se_payload (rule_event r t ty st en d p) = p"
  by (simp_all add: rule_event_def event_post_init_def security_event_default_def Let_def)

text \<open>
  The loop that the rules share: from an index backwards as long as the observation before it
  satisfies the condition.
\<close>

fun back_while :: "('a \<Rightarrow> bool) \<Rightarrow> 'a list \<Rightarrow> nat \<Rightarrow> nat" where
  "back_while P xs 0 = 0"
| "back_while P xs (Suc i) = (if P (xs ! i) then back_while P xs i else Suc i)"

lemma back_while_le: "back_while P xs i \<le> i"
  by (induction i) (auto intro: le_SucI)

lemma back_while_all: "back_while P xs i \<le> k \<Longrightarrow> k < i \<Longrightarrow> P (xs ! k)"
  by (induction i) (auto simp: less_Suc_eq split: if_splits)

lemma back_while_least: "j \<le> i \<Longrightarrow> (\<And>k. j \<le> k \<Longrightarrow> k < i \<Longrightarrow> P (xs ! k)) \<Longrightarrow> back_while P xs i \<le> j"
proof (induction i)
  case (Suc i)
  show ?case
  proof (cases "j = Suc i")
    case True
    then show ?thesis using back_while_le [of P xs "Suc i"] by simp
  next
    case False
    then have "j \<le> i" using Suc.prems(1) by simp
    then show ?thesis using Suc by simp
  qed
qed simp

text \<open>Observations in the order of their timestamps.\<close>

definition time_ordered :: "pose_observation list \<Rightarrow> bool" where
  "time_ordered obs \<longleftrightarrow> sorted (map po_timestamp_ms obs)"

lemma time_orderedD:
  "time_ordered obs \<Longrightarrow> i \<le> j \<Longrightarrow> j < length obs \<Longrightarrow> po_timestamp_ms (obs ! i) \<le> po_timestamp_ms (obs ! j)"
  using sorted_nth_mono [of "map po_timestamp_ms obs" i j] by (simp add: time_ordered_def)

definition in_zone :: "zone_config \<Rightarrow> pose_observation \<Rightarrow> bool" where
  "in_zone z ob = point_in_polygon (foot_point (po_bbox ob)) (zc_polygon z)"

text \<open>
  The contract of a single-track rule, over any kind of rule object: it keeps its configuration,
  it emits only for a track with observations whose cooldown is over, it restarts the cooldown
  when it emits, and it leaves the tracker alone when it does not.
\<close>

locale single_track_rule =
  fixes evaluate :: "'r \<Rightarrow> track_state \<Rightarrow> cooldowns \<Rightarrow> security_event option \<times> 'r \<times> cooldowns"
    and rbase :: "'r \<Rightarrow> rule_base" and secs :: "'r \<Rightarrow> int"
  assumes keeps_config: "evaluate r t c = (eo, r', c') \<Longrightarrow> rbase r' = rbase r \<and> secs r' = secs r"
    and quiet: "evaluate r t c = (None, r', c') \<Longrightarrow> c' = c"
    and fired: "evaluate r t c = (Some e, r', c') \<Longrightarrow>
      rc_enabled (rb_config (rbase r)) \<and> ts_observations t \<noteq> [] \<and>
      can_emit (cooldown_key (rbase r) t) (ts_last_seen_ms t) c \<and>
      c' = record_emit (cooldown_key (rbase r) t) (secs r) (ts_last_seen_ms t) c \<and>
      se_track_id e = PInt (ts_track_id t) \<and> se_zone e = zc_name (rb_zone (rbase r)) \<and>
      se_end_ts_ms e = Some (ts_last_seen_ms t)"
begin

lemma disabled_silent: "\<not> rc_enabled (rb_config (rbase r)) \<Longrightarrow> fst (evaluate r t c) = None"
  using fired [of r t c "the (fst (evaluate r t c))" "fst (snd (evaluate r t c))" "snd (snd (evaluate r t c))"]
  by (cases "fst (evaluate r t c)") (auto simp: prod_eq_iff)

lemma cooling_silent:
  "\<not> can_emit (cooldown_key (rbase r) t) (ts_last_seen_ms t) c \<Longrightarrow> fst (evaluate r t c) = None"
  using fired [of r t c "the (fst (evaluate r t c))" "fst (snd (evaluate r t c))" "snd (snd (evaluate r t c))"]
  by (cases "fst (evaluate r t c)") (auto simp: prod_eq_iff)

text \<open>A rule leaves the cooldowns of all other keys as they were.\<close>

lemma other_keys_kept:
  "k \<noteq> cooldown_key (rbase r) t \<Longrightarrow> can_emit k now (snd (snd (evaluate r t c))) = can_emit k now c"
proof (cases "evaluate r t c")
  case (fields eo r' c')
  assume "k \<noteq> cooldown_key (rbase r) t"
  with fields show ?thesis
    using quiet [of r t c r' c'] fired [of r t c _ r' c']
      cooldown.other_keys [of k "cooldown_key (rbase r) t" now "secs r" "ts_last_seen_ms t" c]
    by (cases eo) auto
qed

text \<open>After an emission every rule with the same key is silent until the cooldown is over.\<close>

lemma emission_silences:
  assumes "evaluate r t c = (Some e, r', c')" and "cooldown_key (rbase r2) t2 = cooldown_key (rbase r) t"
    and "ts_last_seen_ms t2 < ts_last_seen_ms t + secs r * 1000"
  shows "fst (evaluate r2 t2 c') = None"
proof (rule cooling_silent)
  show "\<not> can_emit (cooldown_key (rbase r2) t2) (ts_last_seen_ms t2) c'"
    using fired [OF assms(1)] assms(2,3)
      cooldown.open_after [of "cooldown_key (rbase r) t" "ts_last_seen_ms t2" "secs r" "ts_last_seen_ms t" c]
    by simp
qed

end

end
