(* ===== verification/Intrusion.thy ===== *)
theory Intrusion
  imports RuleBase
begin

text \<open>
  \<open>IntrusionRule\<close> of \<^verbatim>\<open>modules/savant_security/custom/rules/intrusion.py\<close>: a track whose
  foot point stays in the zone for a minimal time.
\<close>

section \<open>The rule\<close>

definition continuous_inside :: "rule_base \<Rightarrow> track_state \<Rightarrow> int \<times> int" where
  "continuous_inside r t =
     (let obs = ts_observations t
      in if obs = [] then (0, 0)
         else if \<not> in_zone (rb_zone r) (last obs) then (0, 0)
         else
           (let first_inside = back_while (in_zone (rb_zone r)) obs (length obs - 1);
                duration = po_timestamp_ms (last obs) - po_timestamp_ms (obs ! first_inside)
            in (max duration 0, po_timestamp_ms (obs ! first_inside))))"

definition intrusion_event :: "rule_base \<Rightarrow> track_state \<Rightarrow> security_event" where
  "intrusion_event r t =
     (let (inside_ms, first_inside_ts) = continuous_inside r t; zone = zc_name (rb_zone r)
      in rule_event r t ''intrusion'' first_inside_ts (ts_last_seen_ms t)
           (''Track '' @ int_dec (ts_track_id t) @ '' intruded zone '' @ [CHR 0x27] @ zone @ [CHR 0x27])
           [(''algorithm_id'', PStr ''behavior.intrusion''), (''rule_id'', PStr (rc_name (rb_config r))),
            (''camera_id'', PStr (last_camera_id t)), (''zone_id'', PStr zone),
            (''inside_ms'', PInt inside_ms)])"

definition intrusion_evaluate ::
  "rule_base \<Rightarrow> track_state \<Rightarrow> cooldowns \<Rightarrow> security_event option \<times> rule_base \<times> cooldowns" where
  "intrusion_evaluate r t c =
     (if \<not> rc_enabled (rb_config r) then (None, r, c)
      else if ts_observations t = [] then (None, r, c)
      else
        (let now_ms = ts_last_seen_ms t;
             (inside_ms, first_inside_ts) = continuous_inside r t
         in if inside_ms < rc_min_inside_ms (rb_config r) then (None, r, c)
            else
              (let key = cooldown_key r t
               in if \<not> can_emit key now_ms c then (None, r, c)
                  else (Some (intrusion_event r t), r,
                        record_emit key (rc_cooldown_s (rb_config r)) now_ms c))))"

lemma intrusion_event_fields:
  "se_track_id (intrusion_event r t) = PInt (ts_track_id t)"
  "se_zone (intrusion_event r t) = zc_name (rb_zone r)"
  "se_end_ts_ms (intrusion_event r t) = Some (ts_last_seen_ms t)"
  "se_start_ts_ms (intrusion_event r t) = snd (continuous_inside r t)"
  by (simp_all add: intrusion_event_def rule_event_fields case_prod_beta Let_def)

interpretation intrusion: single_track_rule intrusion_evaluate "\<lambda>r. r" "\<lambda>r. rc_cooldown_s (rb_config r)"
  by unfold_locales
    (auto simp: intrusion_evaluate_def intrusion_event_fields Let_def case_prod_beta split: if_splits)

lemma intrusion_fires_iff:
  "fst (intrusion_evaluate r t c) \<noteq> None \<longleftrightarrow>
     rc_enabled (rb_config r) \<and> ts_observations t \<noteq> [] \<and>
     can_emit (cooldown_key r t) (ts_last_seen_ms t) c \<and>
     rc_min_inside_ms (rb_config r) \<le> fst (continuous_inside r t)"
  by (auto simp: intrusion_evaluate_def Let_def case_prod_beta)

lemma continuous_inside_iff:
  assumes "time_ordered obs" and "ts_observations t = obs" and "obs \<noteq> []" and "0 < m"
  shows "m \<le> fst (continuous_inside r t) \<longleftrightarrow>
    (\<exists>j < length obs. (\<forall>k. j \<le> k \<and> k < length obs \<longrightarrow> in_zone (rb_zone r) (obs ! k)) \<and>
       m \<le> po_timestamp_ms (last obs) - po_timestamp_ms (obs ! j))"
proof -
  let ?P = "in_zone (rb_zone r)"
  let ?f = "back_while ?P obs (length obs - 1)"
  have last: "last obs = obs ! (length obs - 1)" using assms(3) by (simp add: last_conv_nth)
  have f: "?f < length obs" using back_while_le [of ?P obs "length obs - 1"] assms(3)
    by (cases obs) auto
  show ?thesis
  proof (cases "?P (last obs)")
    case False
    have "\<not> (\<forall>k. j \<le> k \<and> k < length obs \<longrightarrow> ?P (obs ! k))" if "j < length obs" for j
      using False last that by (metis Suc_pred' diff_less le_less_Suc_eq less_Suc_eq_le length_greater_0_conv
          assms(3) zero_less_one not_less_eq_eq)
    then show ?thesis using False assms(2-4) by (auto simp: continuous_inside_def)
  next
    case True
    have all: "?P (obs ! k)" if "?f \<le> k" "k < length obs" for k
      using back_while_all [of ?P obs "length obs - 1" k] that True last
      by (cases "k = length obs - 1") auto
    have least: "?f \<le> j" if "j < length obs" "\<forall>k. j \<le> k \<and> k < length obs \<longrightarrow> ?P (obs ! k)" for j
      using that by (intro back_while_least) auto
    have "m \<le> fst (continuous_inside r t) \<longleftrightarrow> m \<le> po_timestamp_ms (last obs) - po_timestamp_ms (obs ! ?f)"
      using True assms(2-4) by (auto simp: continuous_inside_def Let_def)
    also have "\<dots> \<longleftrightarrow>
      (\<exists>j < length obs. (\<forall>k. j \<le> k \<and> k < length obs \<longrightarrow> ?P (obs ! k)) \<and>
         m \<le> po_timestamp_ms (last obs) - po_timestamp_ms (obs ! j))" (is "?L \<longleftrightarrow> ?R")
    proof
      assume ?L
      with f all show ?R by blast
    next
      assume ?R
      then obtain j where j: "j < length obs" "\<forall>k. j \<le> k \<and> k < length obs \<longrightarrow> ?P (obs ! k)"
        "m \<le> po_timestamp_ms (last obs) - po_timestamp_ms (obs ! j)" by blast
      then show ?L using time_orderedD [OF assms(1) least [OF j(1,2)] j(1)] by linarith
    qed
    finally show ?thesis .
  qed
qed

section \<open>Properties\<close>

text \<open>
  C8: on a track with observations in time order and a positive minimal time, the rule fires
  exactly when it is enabled, its cooldown is over, and for at least the minimal time up to the
  latest observation every observation had its foot point in the zone.
\<close>

theorem intrusion_fires_exactly:
  assumes "time_ordered (ts_observations t)" and "0 < rc_min_inside_ms (rb_config r)"
  shows "(fst (intrusion_evaluate r t c) \<noteq> None) =
    (rc_enabled (rb_config r) \<and> can_emit (cooldown_key r t) (ts_last_seen_ms t) c \<and>
     (let obs = ts_observations t
      in \<exists>j < length obs. (\<forall>k. j \<le> k \<and> k < length obs \<longrightarrow>
            point_in_polygon (foot_point (po_bbox (obs ! k))) (zc_polygon (rb_zone r))) \<and>
          rc_min_inside_ms (rb_config r) \<le> po_timestamp_ms (last obs) - po_timestamp_ms (obs ! j)))"
proof (cases "ts_observations t = []")
  case False
  then show ?thesis
    using intrusion_fires_iff [of r t c] continuous_inside_iff [OF assms(1) refl False assms(2), of r]
    by (simp add: in_zone_def Let_def)
qed (simp add: intrusion_evaluate_def)

definition example_zone :: zone_config where
  "example_zone = \<lparr>zc_name = ''gate'', zc_polygon = [(0, 0), (10, 0), (10, 10), (0, 10)]\<rparr>"

definition example_rule :: "int \<Rightarrow> rule_base" where
  "example_rule min_inside_ms =
     \<lparr>rb_config = rule_config_default\<lparr>rc_name := ''rule'', rc_min_inside_ms := min_inside_ms\<rparr>,
      rb_zone = example_zone\<rparr>"

definition example_track :: "pose_observation list \<Rightarrow> track_state" where
  "example_track obs =
     \<lparr>ts_track_id = 7, ts_observations = obs, ts_first_seen_ms = po_timestamp_ms (hd obs),
      ts_last_seen_ms = po_timestamp_ms (last obs)\<rparr>"

theorem intrusion_fires_exactly_witness:
  "let t = example_track [example_observation 7 1000 4 4, example_observation 7 2500 5 5]
   in fst (intrusion_evaluate (example_rule 1000) t []) \<noteq> None \<and>
      (fst (intrusion_evaluate (example_rule 1000) t []) \<noteq> None) =
        (rc_enabled (rb_config (example_rule 1000)) \<and>
         can_emit (cooldown_key (example_rule 1000) t) (ts_last_seen_ms t) [] \<and>
         (let obs = ts_observations t
          in \<exists>j < length obs. (\<forall>k. j \<le> k \<and> k < length obs \<longrightarrow>
                point_in_polygon (foot_point (po_bbox (obs ! k))) (zc_polygon (rb_zone (example_rule 1000)))) \<and>
              rc_min_inside_ms (rb_config (example_rule 1000)) \<le>
                po_timestamp_ms (last obs) - po_timestamp_ms (obs ! j)))"
proof -
  let ?t = "example_track [example_observation 7 1000 4 4, example_observation 7 2500 5 5]"
  have ord: "time_ordered (ts_observations ?t)" and pos: "0 < rc_min_inside_ms (rb_config (example_rule 1000))"
    by (simp_all add: example_track_def time_ordered_def example_observation_def example_rule_def)
  have "fst (intrusion_evaluate (example_rule 1000) ?t []) \<noteq> None"
    unfolding intrusion_fires_iff
    by (simp add: continuous_inside_def in_zone_def point_in_polygon_def foot_point_def
        example_track_def example_rule_def example_zone_def example_observation_def rule_config_default_def
        can_emit_def Let_def)
  with intrusion_fires_exactly [OF ord pos, of "[]"] show ?thesis unfolding Let_def by blast
qed

text \<open>
  with a minimal time of zero or less the rule reports an intrusion for a track that is
  outside the zone, with a start time of zero.
\<close>

theorem intrusion_without_minimum_fires_outside:
  assumes "rc_min_inside_ms (rb_config r) \<le> 0" and "rc_enabled (rb_config r)"
    and "ts_observations t \<noteq> []"
    and "\<not> point_in_polygon (foot_point (po_bbox (last (ts_observations t)))) (zc_polygon (rb_zone r))"
  shows "\<exists>e r' c'. intrusion_evaluate r t [] = (Some e, r', c') \<and> se_event_type e = ''intrusion'' \<and>
    se_start_ts_ms e = 0"
proof -
  have ci: "continuous_inside r t = (0, 0)" using assms(3,4) by (simp add: continuous_inside_def in_zone_def)
  then have "se_event_type (intrusion_event r t) = ''intrusion''" "se_start_ts_ms (intrusion_event r t) = 0"
    by (simp_all add: intrusion_event_def rule_event_fields Let_def)
  moreover have "intrusion_evaluate r t [] = (Some (intrusion_event r t), r,
      record_emit (cooldown_key r t) (rc_cooldown_s (rb_config r)) (ts_last_seen_ms t) [])"
    using assms(1-3) ci by (simp add: intrusion_evaluate_def can_emit_def Let_def)
  ultimately show ?thesis by blast
qed

theorem intrusion_without_minimum_fires_outside_witness:
  "\<exists>e r' c'. intrusion_evaluate (example_rule 0) (example_track [example_observation 7 1000 50 50]) [] =
     (Some e, r', c') \<and> se_event_type e = ''intrusion'' \<and> se_start_ts_ms e = 0"
  by (rule intrusion_without_minimum_fires_outside)
    (simp_all add: example_rule_def example_track_def example_zone_def example_observation_def
      rule_config_default_def point_in_polygon_def foot_point_def)

end
