(* ===== verification/Fall.thy ===== *)
theory Fall
  imports RuleBase
begin

text \<open>
  \<open>FallRule\<close> of \<^verbatim>\<open>modules/savant_security/custom/rules/fall.py\<close>: posture votes decide
  whether a person lies, and a person who lay down from an upright posture and stays down is
  reported.
\<close>

section \<open>Configuration\<close>

record fall_config =
  fc_min_down_ms :: int
  fc_cooldown_s :: int
  fc_require_transition :: bool
  fc_transition_window_ms :: int
  fc_lying_aspect_ratio :: pyfloat
  fc_upright_aspect_ratio :: pyfloat
  fc_torso_horizontal_deg :: pyfloat
  fc_head_hip_collapse_ratio :: pyfloat
  fc_min_visible_keypoints :: int
  fc_keypoint_threshold :: pyfloat
  fc_joint_order_votes :: bool
  fc_keypoint_box_aspect_ratio :: pyfloat
  fc_keypoint_box_min_points :: int

definition fall_config_from :: "environ \<Rightarrow> config \<Rightarrow> int \<Rightarrow> fall_config result" where
  "fall_config_from env cfg fallback_cooldown_s =
     rbind (rbind (rbind (int_value (config_alias cfg [''min_down_ms'', ''min_on_ground_ms'']) 1500)
              (env_int env ''FALL_MIN_ON_GROUND_MS'')) (env_int env ''FALL_MIN_DOWN_MS''))
       (\<lambda>min_down.
     rbind (rbind (int_value (pget cfg ''cooldown_s'') (cooldown_or fallback_cooldown_s 60))
              (env_int env ''FALL_COOLDOWN_S''))
       (\<lambda>cooldown_s.
     rbind (rbind (int_value (config_alias cfg [''transition_window_ms'', ''fall_transition_window_ms'']) 1500)
              (env_int env ''FALL_TRANSITION_WINDOW_MS''))
       (\<lambda>transition.
     rbind (rbind (int_value (pget cfg ''min_visible_keypoints'') 0) (env_int env ''FALL_MIN_VISIBLE_KEYPOINTS''))
       (\<lambda>visible.
     rbind (rbind (int_value (pget cfg ''keypoint_box_min_points'') 6) (env_int env ''FALL_KEYPOINT_BOX_MIN_POINTS''))
       (\<lambda>points.
     Inr \<lparr>fc_min_down_ms = min_down,
          fc_cooldown_s = cooldown_s,
          fc_require_transition = env_bool env ''FALL_REQUIRE_TRANSITION''
            (bool_value (pget cfg ''require_transition'') True),
          fc_transition_window_ms = transition,
          fc_lying_aspect_ratio = env_float env ''FALL_LYING_ASPECT_RATIO''
            (float_value (pget cfg ''lying_aspect_ratio'') (Fin 0.85)),
          fc_upright_aspect_ratio = env_float env ''FALL_UPRIGHT_ASPECT_RATIO''
            (float_value (pget cfg ''upright_aspect_ratio'') (Fin 0.55)),
          fc_torso_horizontal_deg = env_float env ''FALL_TORSO_HORIZONTAL_DEG''
            (float_value (pget cfg ''torso_horizontal_deg'') (Fin 45)),
          fc_head_hip_collapse_ratio = env_float env ''FALL_HEAD_HIP_COLLAPSE_RATIO''
            (float_value (pget cfg ''head_hip_collapse_ratio'') (Fin 0.22)),
          fc_min_visible_keypoints = visible,
          fc_keypoint_threshold = env_float env ''FALL_KEYPOINT_THRESHOLD''
            (float_value (pget cfg ''keypoint_threshold'') (Fin 0.25)),
          fc_joint_order_votes = env_bool env ''FALL_JOINT_ORDER_VOTES''
            (bool_value (pget cfg ''joint_order_votes'') True),
          fc_keypoint_box_aspect_ratio = env_float env ''FALL_KEYPOINT_BOX_ASPECT_RATIO''
            (float_value (pget cfg ''keypoint_box_aspect_ratio'') (Fin 0.9)),
          fc_keypoint_box_min_points = points\<rparr>)))))"

section \<open>Posture\<close>

definition aspect_ratio :: "bbox \<Rightarrow> real option" where
  "aspect_ratio b = (if bb_height b \<le> 0 then None else Some (bb_width b / bb_height b))"

type_synonym keypoints = "(string, keypoint) dict"

definition keypoints_by_name :: "keypoint list \<Rightarrow> pyfloat \<Rightarrow> keypoints" where
  "keypoints_by_name kps threshold =
     fold (\<lambda>kp d. dset (kp_name kp) kp d)
       (filter (\<lambda>kp. flt_le threshold (Fin (kp_confidence kp))) kps) []"

definition midpoint :: "keypoint option \<Rightarrow> keypoint option \<Rightarrow> point option" where
  "midpoint a b =
     (case (a, b) of
        (None, None) \<Rightarrow> None
      | (Some p, None) \<Rightarrow> Some (kp_x p, kp_y p)
      | (None, Some q) \<Rightarrow> Some (kp_x q, kp_y q)
      | (Some p, Some q) \<Rightarrow> Some ((kp_x p + kp_x q) / 2, (kp_y p + kp_y q) / 2))"

definition shoulder_mid :: "keypoints \<Rightarrow> point option" where
  "shoulder_mid kp = midpoint (dget kp ''left_shoulder'') (dget kp ''right_shoulder'')"

definition hip_mid :: "keypoints \<Rightarrow> point option" where
  "hip_mid kp = midpoint (dget kp ''left_hip'') (dget kp ''right_hip'')"

definition knee_mid :: "keypoints \<Rightarrow> point option" where
  "knee_mid kp = midpoint (dget kp ''left_knee'') (dget kp ''right_knee'')"

definition ankle_mid :: "keypoints \<Rightarrow> point option" where
  "ankle_mid kp = midpoint (dget kp ''left_ankle'') (dget kp ''right_ankle'')"

text \<open>\<open>math.degrees(math.atan2(abs(dx), abs(dy)))\<close>\<close>

definition angle_from_vertical :: "real \<Rightarrow> real \<Rightarrow> real" where
  "angle_from_vertical dx dy = (if dy = 0 then 90 else arctan (\<bar>dx\<bar> / \<bar>dy\<bar>) * 180 / pi)"

definition torso_angle_from_vertical_deg :: "keypoint list \<Rightarrow> pyfloat \<Rightarrow> real option" where
  "torso_angle_from_vertical_deg kps threshold =
     (let kp = keypoints_by_name kps threshold
      in case (shoulder_mid kp, hip_mid kp) of
           (Some s, Some h) \<Rightarrow>
             (let dx = fst h - fst s; dy = snd h - snd s
              in if dx = 0 \<and> dy = 0 then None else Some (angle_from_vertical dx dy))
         | _ \<Rightarrow> None)"

definition head_above_hip_ratio :: "keypoint list \<Rightarrow> bbox \<Rightarrow> pyfloat \<Rightarrow> real option" where
  "head_above_hip_ratio kps b threshold =
     (let kp = keypoints_by_name kps threshold
      in case (dget kp ''nose'', hip_mid kp) of
           (Some nose, Some hip) \<Rightarrow> if bb_height b \<le> 0 then None else Some ((snd hip - kp_y nose) / bb_height b)
         | _ \<Rightarrow> None)"

definition shoulders_below_ankles :: "keypoints \<Rightarrow> bool option" where
  "shoulders_below_ankles kp =
     (case (dget kp ''left_shoulder'', dget kp ''right_shoulder'', ankle_mid kp) of
        (Some l, Some r, Some ankle) \<Rightarrow> Some (snd ankle \<le> min (kp_y l) (kp_y r))
      | _ \<Rightarrow> None)"

definition shoulders_below_knees :: "keypoints \<Rightarrow> bool option" where
  "shoulders_below_knees kp =
     (case (dget kp ''left_shoulder'', dget kp ''right_shoulder'',
            (case dget kp ''left_knee'' of None \<Rightarrow> [] | Some k \<Rightarrow> [kp_y k]) @
            (case dget kp ''right_knee'' of None \<Rightarrow> [] | Some k \<Rightarrow> [kp_y k])) of
        (Some l, Some r, k # ks) \<Rightarrow> Some (Min (set (k # ks)) < max (kp_y l) (kp_y r))
      | _ \<Rightarrow> None)"

definition keypoint_box_aspect_ratio :: "keypoints \<Rightarrow> int \<Rightarrow> real option" where
  "keypoint_box_aspect_ratio kp min_points =
     (if int (length kp) < max 2 min_points then None
      else
        (let xs = map (kp_x \<circ> snd) kp; ys = map (kp_y \<circ> snd) kp; height = Max (set ys) - Min (set ys)
         in if height \<le> 0 then None else Some ((Max (set xs) - Min (set xs)) / height)))"

definition legs_stacked_upright :: "keypoints \<Rightarrow> bool" where
  "legs_stacked_upright kp =
     (case (shoulder_mid kp, hip_mid kp, knee_mid kp, ankle_mid kp) of
        (Some s, Some h, Some k, Some a) \<Rightarrow>
          (let body = snd a - snd s; margin = 0.15 * body
           in if body \<le> 0 then False
              else margin \<le> snd h - snd s \<and> margin \<le> snd k - snd h \<and> margin \<le> snd a - snd k)
      | _ \<Rightarrow> False)"

record posture =
  pg_aspect_ratio :: "real option"
  pg_torso_angle_deg :: "real option"
  pg_head_hip_ratio :: "real option"
  pg_available_votes :: int
  pg_is_lying :: bool
  pg_is_upright :: bool
  pg_pose_quality_mode :: string
  pg_shoulders_below_ankles :: "bool option"
  pg_shoulders_below_knees :: "bool option"
  pg_keypoint_box_aspect_ratio :: "real option"
  pg_legs_stacked_upright :: bool
  pg_lying_weight :: int
  pg_total_weight :: int

definition vote :: "('a \<Rightarrow> bool) \<Rightarrow> int \<Rightarrow> 'a option \<Rightarrow> (bool \<times> int) list" where
  "vote says weight x = (case x of None \<Rightarrow> [] | Some v \<Rightarrow> [(says v, weight)])"

definition votes_total :: "(bool \<times> int) list \<Rightarrow> int" where
  "votes_total votes = sum_list (map snd votes)"

definition votes_lying :: "(bool \<times> int) list \<Rightarrow> int" where
  "votes_lying votes = sum_list (map snd (filter fst votes))"

definition lying_decision :: "int \<Rightarrow> int \<Rightarrow> bool" where
  "lying_decision total_weight lying_weight =
     (if total_weight \<le> 3 then 0 < total_weight \<and> total_weight \<le> lying_weight * 2
      else total_weight < lying_weight * 2)"

definition posture_signals :: "pose_observation \<Rightarrow> fall_config \<Rightarrow> posture" where
  "posture_signals ob cfg =
     (let aspect = aspect_ratio (po_bbox ob);
          torso = torso_angle_from_vertical_deg (po_keypoints ob) (fc_keypoint_threshold cfg);
          head_hip = head_above_hip_ratio (po_keypoints ob) (po_bbox ob) (fc_keypoint_threshold cfg);
          kp = keypoints_by_name (po_keypoints ob) (fc_keypoint_threshold cfg);
          joints = fc_joint_order_votes cfg;
          below_ankles = (if joints then shoulders_below_ankles kp else None);
          below_knees = (if joints then shoulders_below_knees kp else None);
          kp_aspect = (if joints then keypoint_box_aspect_ratio kp (fc_keypoint_box_min_points cfg) else None);
          votes = vote (\<lambda>a. flt_le (fc_lying_aspect_ratio cfg) (Fin a)) 1 aspect @
            vote (\<lambda>a. flt_le (fc_torso_horizontal_deg cfg) (Fin a)) 1 torso @
            vote (\<lambda>a. flt_less (Fin a) (fc_head_hip_collapse_ratio cfg)) 1 head_hip @
            vote (\<lambda>a. flt_le (fc_keypoint_box_aspect_ratio cfg) (Fin a)) 1 kp_aspect @
            vote (\<lambda>b. b) 1 below_knees @ vote (\<lambda>b. b) 2 below_ankles;
          stacked = (joints \<and> legs_stacked_upright kp);
          torso_upright = (case torso of None \<Rightarrow> True | Some a \<Rightarrow> flt_less (Fin a) (fc_torso_horizontal_deg cfg))
      in \<lparr>pg_aspect_ratio = aspect, pg_torso_angle_deg = torso, pg_head_hip_ratio = head_hip,
          pg_available_votes = int (length votes),
          pg_is_lying = lying_decision (votes_total votes) (votes_lying votes),
          pg_is_upright = (torso_upright \<and>
            ((case aspect of None \<Rightarrow> False | Some a \<Rightarrow> flt_le (Fin a) (fc_upright_aspect_ratio cfg)) \<or> stacked)),
          pg_pose_quality_mode = (if torso \<noteq> None \<or> head_hip \<noteq> None then ''keypoints'' else ''bbox_only''),
          pg_shoulders_below_ankles = below_ankles, pg_shoulders_below_knees = below_knees,
          pg_keypoint_box_aspect_ratio = kp_aspect, pg_legs_stacked_upright = stacked,
          pg_lying_weight = votes_lying votes, pg_total_weight = votes_total votes\<rparr>)"

definition opt_float :: "real option \<Rightarrow> pyval" where
  "opt_float x = (case x of None \<Rightarrow> PNone | Some v \<Rightarrow> PFloat (Fin v))"

definition opt_bool :: "bool option \<Rightarrow> pyval" where
  "opt_bool x = (case x of None \<Rightarrow> PNone | Some v \<Rightarrow> PBool v)"

definition posture_payload :: "posture \<Rightarrow> bool \<Rightarrow> config" where
  "posture_payload g is_upright_before =
     [(''aspect_ratio'', opt_float (pg_aspect_ratio g)), (''torso_angle_deg'', opt_float (pg_torso_angle_deg g)),
      (''head_hip_ratio'', opt_float (pg_head_hip_ratio g)),
      (''keypoint_box_aspect_ratio'', opt_float (pg_keypoint_box_aspect_ratio g)),
      (''shoulders_below_ankles'', opt_bool (pg_shoulders_below_ankles g)),
      (''shoulders_below_knees'', opt_bool (pg_shoulders_below_knees g)),
      (''legs_stacked_upright'', PBool (pg_legs_stacked_upright g)),
      (''available_votes'', PInt (pg_available_votes g)), (''lying_weight'', PInt (pg_lying_weight g)),
      (''total_weight'', PInt (pg_total_weight g)), (''is_lying'', PBool (pg_is_lying g)),
      (''is_upright_before'', PBool is_upright_before)]"

section \<open>The rule\<close>

record fall_rule =
  fa_base :: rule_base
  fa_params :: fall_config

definition fall_rule_init :: "environ \<Rightarrow> rule_base \<Rightarrow> fall_rule result" where
  "fall_rule_init env r =
     rbind (fall_config_from env (rc_config (rb_config r)) (rc_cooldown_s (rb_config r)))
       (\<lambda>p. Inr \<lparr>fa_base = r, fa_params = p\<rparr>)"

definition lies :: "fall_config \<Rightarrow> pose_observation \<Rightarrow> bool" where
  "lies p ob = pg_is_lying (posture_signals ob p)"

definition stands :: "fall_config \<Rightarrow> pose_observation \<Rightarrow> bool" where
  "stands p ob = pg_is_upright (posture_signals ob p)"

definition first_continuous_lying_index :: "fall_config \<Rightarrow> pose_observation list \<Rightarrow> nat" where
  "first_continuous_lying_index p obs = back_while (lies p) obs (length obs - 1)"

fun upright_scan :: "fall_config \<Rightarrow> int \<Rightarrow> pose_observation list \<Rightarrow> nat \<Rightarrow> bool" where
  "upright_scan p lying_start_ts obs 0 = False"
| "upright_scan p lying_start_ts obs (Suc i) =
     (if fc_transition_window_ms p < lying_start_ts - po_timestamp_ms (obs ! i) then False
      else if stands p (obs ! i) then True
      else upright_scan p lying_start_ts obs i)"

definition had_upright_before :: "fall_config \<Rightarrow> pose_observation list \<Rightarrow> nat \<Rightarrow> bool" where
  "had_upright_before p obs first_lying = upright_scan p (po_timestamp_ms (obs ! first_lying)) obs first_lying"

definition fall_event :: "fall_rule \<Rightarrow> track_state \<Rightarrow> security_event" where
  "fall_event f t =
     (let r = fa_base f; p = fa_params f; obs = ts_observations t; zone = zc_name (rb_zone r);
          first_lying = first_continuous_lying_index p obs;
          start_ts_ms = po_timestamp_ms (obs ! first_lying);
          on_ground_ms = po_timestamp_ms (last obs) - start_ts_ms;
          current = posture_signals (last obs) p;
          aid = rc_algorithm_id (rb_config r)
      in rule_event r t ''fall'' start_ts_ms (ts_last_seen_ms t)
           (''Track '' @ int_dec (ts_track_id t) @ '' fall in zone '' @ [CHR 0x27] @ zone @ [CHR 0x27] @
            '': lying '' @ int_dec on_ground_ms @ ''ms'')
           [(''algorithm_id'', PStr (if aid = [] then ''behavior.fall'' else aid)),
            (''rule_id'', PStr (rc_name (rb_config r))), (''camera_id'', PStr (last_camera_id t)),
            (''zone_id'', PStr zone), (''track_id'', PInt (ts_track_id t)),
            (''on_ground_ms'', PInt on_ground_ms), (''require_transition'', PBool (fc_require_transition p)),
            (''transition_window_ms'', PInt (fc_transition_window_ms p)),
            (''pose_quality_mode'', PStr (pg_pose_quality_mode current)),
            (''visible_keypoint_count'',
              PInt (visible_keypoint_count (po_keypoints (last obs)) (fc_keypoint_threshold p))),
            (''posture'', PDict (posture_payload current (had_upright_before p obs first_lying)))])"

definition fall_evaluate ::
  "fall_rule \<Rightarrow> track_state \<Rightarrow> cooldowns \<Rightarrow> security_event option \<times> fall_rule \<times> cooldowns" where
  "fall_evaluate f t c =
     (let r = fa_base f; p = fa_params f; obs = ts_observations t
      in if \<not> rc_enabled (rb_config r) \<or> obs = [] then (None, f, c)
         else if zc_polygon (rb_zone r) \<noteq> [] \<and> \<not> in_zone (rb_zone r) (last obs) then (None, f, c)
         else if visible_keypoint_count (po_keypoints (last obs)) (fc_keypoint_threshold p)
                   < fc_min_visible_keypoints p then (None, f, c)
         else if \<not> lies p (last obs) then (None, f, c)
         else
           (let first_lying = first_continuous_lying_index p obs;
                on_ground_ms = po_timestamp_ms (last obs) - po_timestamp_ms (obs ! first_lying)
            in if on_ground_ms < fc_min_down_ms p then (None, f, c)
               else if fc_require_transition p \<and> \<not> had_upright_before p obs first_lying then (None, f, c)
               else
                 (let now_ms = ts_last_seen_ms t; key = cooldown_key r t
                  in if \<not> can_emit key now_ms c then (None, f, c)
                     else (Some (fall_event f t), f, record_emit key (fc_cooldown_s p) now_ms c))))"

lemma fall_event_fields:
  "se_track_id (fall_event f t) = PInt (ts_track_id t)"
  "se_zone (fall_event f t) = zc_name (rb_zone (fa_base f))"
  "se_end_ts_ms (fall_event f t) = Some (ts_last_seen_ms t)"
  "se_start_ts_ms (fall_event f t) =
     po_timestamp_ms (ts_observations t ! first_continuous_lying_index (fa_params f) (ts_observations t))"
  by (simp_all add: fall_event_def rule_event_fields Let_def)

interpretation fall: single_track_rule fall_evaluate fa_base "\<lambda>f. fc_cooldown_s (fa_params f)"
  by unfold_locales (auto simp: fall_evaluate_def fall_event_fields Let_def split: if_splits)

section \<open>Votes\<close>

lemma vote_bounds:
  "0 \<le> w \<Longrightarrow> 0 \<le> votes_lying (vote says w x) \<and> votes_lying (vote says w x) \<le> votes_total (vote says w x) \<and>
     votes_total (vote says w x) \<le> w"
  by (auto simp: vote_def votes_lying_def votes_total_def split: option.split)

lemma votes_append:
  "votes_total (us @ vs) = votes_total us + votes_total vs"
  "votes_lying (us @ vs) = votes_lying us + votes_lying vs"
  by (simp_all add: votes_total_def votes_lying_def)

lemma upright_scan_iff:
  "upright_scan p s obs n \<longleftrightarrow>
     (\<exists>i < n. stands p (obs ! i) \<and>
        (\<forall>k. i \<le> k \<and> k < n \<longrightarrow> s - po_timestamp_ms (obs ! k) \<le> fc_transition_window_ms p))"
proof (induction n)
  case (Suc n)
  show ?case (is "?L \<longleftrightarrow> ?R")
  proof (cases "fc_transition_window_ms p < s - po_timestamp_ms (obs ! n)")
    case True
    then have "\<not> ?R" by (auto dest!: spec [of _ n] simp: less_Suc_eq_le)
    then show ?thesis using True by simp
  next
    case False
    show ?thesis
    proof (cases "stands p (obs ! n)")
      case True
      then have ?R using False by (intro exI [of _ n]) (auto simp: less_Suc_eq)
      then show ?thesis using True False by simp
    next
      case ns: False
      then have "?L \<longleftrightarrow> upright_scan p s obs n" using False by simp
      also have "\<dots> \<longleftrightarrow> ?R" unfolding Suc using False ns by (auto simp: less_Suc_eq not_less)
      finally show ?thesis .
    qed
  qed
qed simp

section \<open>Properties\<close>

text \<open>
  C34: a fall event is justified by the track: from its start time to the latest observation the
  person lay in every observation, for at least the minimal time, and when a transition is
  required the person stood in an earlier observation of the same track that is within the
  transition window before the start.
\<close>

theorem fall_event_sound:
  assumes "fall_evaluate f t c = (Some e, f', c')"
  shows "\<exists>j < length (ts_observations t).
    (\<forall>k. j \<le> k \<and> k < length (ts_observations t) \<longrightarrow>
        pg_is_lying (posture_signals (ts_observations t ! k) (fa_params f))) \<and>
    se_start_ts_ms e = po_timestamp_ms (ts_observations t ! j) \<and>
    fc_min_down_ms (fa_params f) \<le> po_timestamp_ms (last (ts_observations t)) - se_start_ts_ms e \<and>
    (fc_require_transition (fa_params f) \<longrightarrow>
       (\<exists>i < j. pg_is_upright (posture_signals (ts_observations t ! i) (fa_params f)) \<and>
          se_start_ts_ms e - po_timestamp_ms (ts_observations t ! i) \<le> fc_transition_window_ms (fa_params f)))"
proof -
  let ?obs = "ts_observations t"
  let ?p = "fa_params f"
  let ?j = "first_continuous_lying_index ?p ?obs"
  have ne: "?obs \<noteq> []" and lying: "lies ?p (last ?obs)" and e: "e = fall_event f t"
    and down: "fc_min_down_ms ?p \<le> po_timestamp_ms (last ?obs) - po_timestamp_ms (?obs ! ?j)"
    and up: "fc_require_transition ?p \<Longrightarrow> had_upright_before ?p ?obs ?j"
    using assms by (auto simp: fall_evaluate_def Let_def split: if_splits)
  have j: "?j < length ?obs"
    using back_while_le [of "lies ?p" ?obs "length ?obs - 1"] ne
    by (cases ?obs) (auto simp: first_continuous_lying_index_def)
  have all: "lies ?p (?obs ! k)" if "?j \<le> k" "k < length ?obs" for k
    using back_while_all [of "lies ?p" ?obs "length ?obs - 1" k] that lying ne
    by (cases "k = length ?obs - 1") (auto simp: last_conv_nth first_continuous_lying_index_def)
  have "\<exists>i < ?j. stands ?p (?obs ! i) \<and>
      po_timestamp_ms (?obs ! ?j) - po_timestamp_ms (?obs ! i) \<le> fc_transition_window_ms ?p"
    if "fc_require_transition ?p"
    using up [OF that] by (auto simp: had_upright_before_def upright_scan_iff)
  then show ?thesis
    using j all down e by (auto simp: fall_event_fields lies_def stands_def)
qed

definition example_fall :: fall_rule where
  "example_fall =
     \<lparr>fa_base = \<lparr>rb_config = rule_config_default\<lparr>rc_name := ''rule''\<rparr>,
        rb_zone = \<lparr>zc_name = ''gate'', zc_polygon = []\<rparr>\<rparr>,
      fa_params = \<lparr>fc_min_down_ms = 1500, fc_cooldown_s = 60, fc_require_transition = True,
        fc_transition_window_ms = 1500, fc_lying_aspect_ratio = Fin 0.85, fc_upright_aspect_ratio = Fin 0.55,
        fc_torso_horizontal_deg = Fin 45, fc_head_hip_collapse_ratio = Fin 0.22, fc_min_visible_keypoints = 0,
        fc_keypoint_threshold = Fin 0.25, fc_joint_order_votes = True,
        fc_keypoint_box_aspect_ratio = Fin 0.9, fc_keypoint_box_min_points = 6\<rparr>\<rparr>"

definition example_box :: "int \<Rightarrow> real \<Rightarrow> real \<Rightarrow> pose_observation" where
  "example_box ts w h =
     (example_observation 7 ts 0 0)\<lparr>po_bbox := \<lparr>bb_x = 0, bb_y = 0, bb_width = w, bb_height = h\<rparr>\<rparr>"

definition example_collapse :: track_state where
  "example_collapse =
     \<lparr>ts_track_id = 7, ts_observations = [example_box 0 1 4, example_box 1000 4 2, example_box 3000 4 2],
      ts_first_seen_ms = 0, ts_last_seen_ms = 3000\<rparr>"

lemma example_posture:
  "pg_is_lying (posture_signals (example_box ts w h) (fa_params example_fall)) \<longleftrightarrow> 0 < h \<and> 0.85 \<le> w / h"
  "pg_is_upright (posture_signals (example_box ts w h) (fa_params example_fall)) \<longleftrightarrow> 0 < h \<and> w / h \<le> 0.55"
  by (auto simp: posture_signals_def Let_def example_box_def example_observation_def example_fall_def
      aspect_ratio_def keypoints_by_name_def torso_angle_from_vertical_deg_def head_above_hip_ratio_def
      shoulder_mid_def hip_mid_def knee_mid_def ankle_mid_def midpoint_def shoulders_below_ankles_def
      shoulders_below_knees_def keypoint_box_aspect_ratio_def legs_stacked_upright_def vote_def
      votes_total_def votes_lying_def lying_decision_def)

theorem fall_event_sound_witness:
  "\<exists>e f' c'. fall_evaluate example_fall example_collapse [] = (Some e, f', c') \<and>
    (\<exists>j < length (ts_observations example_collapse).
      se_start_ts_ms e = po_timestamp_ms (ts_observations example_collapse ! j) \<and>
      fc_min_down_ms (fa_params example_fall) \<le>
        po_timestamp_ms (last (ts_observations example_collapse)) - se_start_ts_ms e)"
proof -
  have params: "fc_min_down_ms (fa_params example_fall) = 1500" "fc_cooldown_s (fa_params example_fall) = 60"
    "fc_require_transition (fa_params example_fall)" "fc_transition_window_ms (fa_params example_fall) = 1500"
    "fc_min_visible_keypoints (fa_params example_fall) = 0" "zc_polygon (rb_zone (fa_base example_fall)) = []"
    "rc_enabled (rb_config (fa_base example_fall))"
    by (simp_all add: example_fall_def rule_config_default_def)
  have track: "ts_observations example_collapse = [example_box 0 1 4, example_box 1000 4 2, example_box 3000 4 2]"
    "ts_last_seen_ms example_collapse = 3000"
    by (simp_all add: example_collapse_def)
  have stamp: "po_timestamp_ms (example_box ts w h) = ts" "po_keypoints (example_box ts w h) = []" for ts w h
    by (simp_all add: example_box_def example_observation_def)
  have "fall_evaluate example_fall example_collapse [] =
      (Some (fall_event example_fall example_collapse), example_fall,
       record_emit (cooldown_key (fa_base example_fall) example_collapse) 60 3000 [])"
    by (simp add: fall_evaluate_def params track stamp lies_def stands_def example_posture
        first_continuous_lying_index_def had_upright_before_def visible_keypoint_count_def
        numeral_2_eq_2 can_emit_def Let_def)
  from fall_event_sound [OF this] this show ?thesis by blast
qed

text \<open>
  the posture votes are weighed as intended: at most seven in total, never more for lying than
  in total, and beyond the three shape votes a person counts as lying only with a strict majority,
  so a tie of joint-order votes never makes a fall.
\<close>

theorem posture_votes_weighed:
  "let g = posture_signals ob cfg
   in 0 \<le> pg_lying_weight g \<and> pg_lying_weight g \<le> pg_total_weight g \<and> pg_total_weight g \<le> 7 \<and>
      pg_is_lying g = (if pg_total_weight g \<le> 3
         then 0 < pg_total_weight g \<and> pg_total_weight g - pg_lying_weight g \<le> pg_lying_weight g
         else pg_total_weight g - pg_lying_weight g < pg_lying_weight g)"
proof -
  have one: "0 \<le> votes_lying (vote says 1 x) \<and> votes_lying (vote says 1 x) \<le> votes_total (vote says 1 x) \<and>
      votes_total (vote says 1 x) \<le> 1" for says :: "'x \<Rightarrow> bool" and x
    by (rule vote_bounds) simp
  have two: "0 \<le> votes_lying (vote says 2 x) \<and> votes_lying (vote says 2 x) \<le> votes_total (vote says 2 x) \<and>
      votes_total (vote says 2 x) \<le> 2" for says :: "bool \<Rightarrow> bool" and x
    by (rule vote_bounds) simp
  obtain aspect torso head_hip kp_aspect below_knees below_ankles a1 a2 a3 a4 where
    w: "pg_lying_weight (posture_signals ob cfg) =
        votes_lying (vote a1 1 (aspect :: real option)) + (votes_lying (vote a2 1 (torso :: real option)) +
        (votes_lying (vote a3 1 (head_hip :: real option)) + (votes_lying (vote a4 1 (kp_aspect :: real option)) +
        (votes_lying (vote (\<lambda>b. b) 1 below_knees) + votes_lying (vote (\<lambda>b. b) 2 below_ankles)))))"
      "pg_total_weight (posture_signals ob cfg) =
        votes_total (vote a1 1 aspect) + (votes_total (vote a2 1 torso) +
        (votes_total (vote a3 1 head_hip) + (votes_total (vote a4 1 kp_aspect) +
        (votes_total (vote (\<lambda>b. b) 1 below_knees) + votes_total (vote (\<lambda>b. b) 2 below_ankles)))))"
    unfolding posture_signals_def Let_def posture.simps votes_append by blast
  have "pg_is_lying (posture_signals ob cfg) =
      lying_decision (pg_total_weight (posture_signals ob cfg)) (pg_lying_weight (posture_signals ob cfg))"
    by (simp add: posture_signals_def Let_def)
  moreover have "0 \<le> pg_lying_weight (posture_signals ob cfg) \<and>
      pg_lying_weight (posture_signals ob cfg) \<le> pg_total_weight (posture_signals ob cfg) \<and>
      pg_total_weight (posture_signals ob cfg) \<le> 7"
    unfolding w
    using one [of a1 aspect] one [of a2 torso] one [of a3 head_hip] one [of a4 kp_aspect]
      one [of "\<lambda>b. b" below_knees] two [of "\<lambda>b. b" below_ankles] by linarith
  ultimately show ?thesis by (auto simp: lying_decision_def Let_def)
qed

end
