(* ===== verification/Loitering.thy ===== *)
theory Loitering
  imports RuleBase
begin

text \<open>
  \<open>LoiteringRule\<close> of \<^verbatim>\<open>modules/savant_security/custom/rules/loitering.py\<close>: a track that
  stays in the zone for a minimal time and moves slowly.
\<close>

section \<open>Configuration\<close>

record loitering_config =
  lc_min_duration_ms :: int
  lc_max_avg_speed_px_s :: pyfloat
  lc_max_displacement_px :: pyfloat
  lc_min_observation_count :: int
  lc_cooldown_s :: int

text \<open>
  \<open>LoiteringConfig.from_rule_config\<close>: a duration in seconds counts only when neither key in
  milliseconds is present; the environment has the last word.
\<close>

definition loitering_config_from :: "environ \<Rightarrow> config \<Rightarrow> int \<Rightarrow> loitering_config result" where
  "loitering_config_from env cfg fallback_cooldown_s =
     (let duration_raw = config_alias cfg [''min_duration_ms'', ''min_loiter_ms'', ''min_duration_s'']
      in rbind (if has_key cfg ''min_duration_s'' \<and> \<not> has_key cfg ''min_duration_ms'' \<and>
                   \<not> has_key cfg ''min_loiter_ms''
                then py_int (PFloat (flt_times (float_value duration_raw (Fin 60)) (Fin 1000)))
                else int_value duration_raw 60000)
         (\<lambda>min_duration_ms.
          rbind (env_int env ''LOITERING_MIN_DURATION_MS'' min_duration_ms)
         (\<lambda>duration.
          rbind (rbind (int_value (pget cfg ''min_observation_count'') 2)
                   (env_int env ''LOITERING_MIN_OBSERVATION_COUNT''))
         (\<lambda>count.
          rbind (rbind (int_value (pget cfg ''cooldown_s'') (cooldown_or fallback_cooldown_s 60))
                   (env_int env ''LOITERING_COOLDOWN_S''))
         (\<lambda>cooldown_s.
          Inr \<lparr>lc_min_duration_ms = duration,
               lc_max_avg_speed_px_s = env_float env ''LOITERING_MAX_AVG_SPEED_PX_S''
                 (float_value (pget cfg ''max_avg_speed_px_s'') (Fin 20)),
               lc_max_displacement_px = env_float env ''LOITERING_MAX_DISPLACEMENT_PX''
                 (float_value (pget cfg ''max_displacement_px'') (Fin 0)),
               lc_min_observation_count = count,
               lc_cooldown_s = cooldown_s\<rparr>)))))"

section \<open>The rule\<close>

definition obs_avg_speed_px_s :: "pose_observation list \<Rightarrow> real" where
  "obs_avg_speed_px_s obs =
     (if length obs < 2 then 0
      else (let (way, elapsed) = path_totals obs 0 0 in if elapsed \<le> 0 then 0 else way / of_int elapsed * 1000))"

definition displacement_px :: "pose_observation list \<Rightarrow> real" where
  "displacement_px obs = (if length obs < 2 then 0 else foot_distance (hd obs) (last obs))"

record loitering_rule =
  lo_base :: rule_base
  lo_params :: loitering_config

definition loitering_rule_init :: "environ \<Rightarrow> rule_base \<Rightarrow> loitering_rule result" where
  "loitering_rule_init env r =
     rbind (loitering_config_from env (rc_config (rb_config r)) (rc_cooldown_s (rb_config r)))
       (\<lambda>p. Inr \<lparr>lo_base = r, lo_params = p\<rparr>)"

definition first_continuous_inside_index :: "rule_base \<Rightarrow> pose_observation list \<Rightarrow> nat" where
  "first_continuous_inside_index r obs =
     (if obs = [] then 0
      else if zc_polygon (rb_zone r) = [] then 0
      else back_while (in_zone (rb_zone r)) obs (length obs - 1))"

definition inside_observations :: "rule_base \<Rightarrow> track_state \<Rightarrow> pose_observation list" where
  "inside_observations r t =
     drop (first_continuous_inside_index r (ts_observations t)) (ts_observations t)"

text \<open>A float with one digit after the point, as in the format specification \<open>.1f\<close>.\<close>

definition fmt_1f :: "real \<Rightarrow> string" where
  "fmt_1f x =
     (let n = py_round (\<bar>x\<bar> * 10)
      in (if x < 0 then ''-'' else []) @ int_dec (n div 10) @ ''.'' @ int_dec (n mod 10))"

definition loitering_event :: "loitering_rule \<Rightarrow> track_state \<Rightarrow> security_event" where
  "loitering_event l t =
     (let r = lo_base l; p = lo_params l; obs = inside_observations r t; zone = zc_name (rb_zone r);
          start_ts_ms = po_timestamp_ms (hd obs);
          duration_ms = po_timestamp_ms (last (ts_observations t)) - start_ts_ms;
          avg_speed = obs_avg_speed_px_s obs;
          aid = rc_algorithm_id (rb_config r)
      in rule_event r t ''loitering'' start_ts_ms (ts_last_seen_ms t)
           (''Track '' @ int_dec (ts_track_id t) @ '' loitering in zone '' @ [CHR 0x27] @ zone @ [CHR 0x27] @
            '': '' @ int_dec duration_ms @ ''ms at '' @ fmt_1f avg_speed @ ''px/s'')
           [(''algorithm_id'', PStr (if aid = [] then ''behavior.loitering'' else aid)),
            (''rule_id'', PStr (rc_name (rb_config r))), (''camera_id'', PStr (last_camera_id t)),
            (''zone_id'', PStr zone), (''track_id'', PInt (ts_track_id t)), (''duration_ms'', PInt duration_ms),
            (''avg_speed_px_s'', PFloat (Fin avg_speed)),
            (''displacement_px'', PFloat (Fin (displacement_px obs))),
            (''min_duration_ms'', PInt (lc_min_duration_ms p)),
            (''max_avg_speed_px_s'', PFloat (lc_max_avg_speed_px_s p)),
            (''max_displacement_px'', PFloat (lc_max_displacement_px p)),
            (''observation_count'', PInt (int (length obs)))])"

definition loitering_evaluate ::
  "loitering_rule \<Rightarrow> track_state \<Rightarrow> cooldowns \<Rightarrow> security_event option \<times> loitering_rule \<times> cooldowns" where
  "loitering_evaluate l t c =
     (let r = lo_base l; p = lo_params l
      in if \<not> rc_enabled (rb_config r) \<or> ts_observations t = [] then (None, l, c)
         else if zc_polygon (rb_zone r) \<noteq> [] \<and> \<not> in_zone (rb_zone r) (last (ts_observations t))
         then (None, l, c)
         else
           (let obs = inside_observations r t;
                duration_ms = po_timestamp_ms (last (ts_observations t)) - po_timestamp_ms (hd obs)
            in if int (length obs) < lc_min_observation_count p then (None, l, c)
               else if duration_ms < lc_min_duration_ms p then (None, l, c)
               else if flt_less (lc_max_avg_speed_px_s p) (Fin (obs_avg_speed_px_s obs)) then (None, l, c)
               else if flt_less (Fin 0) (lc_max_displacement_px p) \<and>
                       flt_less (lc_max_displacement_px p) (Fin (displacement_px obs)) then (None, l, c)
               else
                 (let now_ms = ts_last_seen_ms t; key = cooldown_key r t
                  in if \<not> can_emit key now_ms c then (None, l, c)
                     else (Some (loitering_event l t), l, record_emit key (lc_cooldown_s p) now_ms c))))"

lemma loitering_event_fields:
  "se_track_id (loitering_event l t) = PInt (ts_track_id t)"
  "se_zone (loitering_event l t) = zc_name (rb_zone (lo_base l))"
  "se_end_ts_ms (loitering_event l t) = Some (ts_last_seen_ms t)"
  "se_start_ts_ms (loitering_event l t) = po_timestamp_ms (hd (inside_observations (lo_base l) t))"
  by (simp_all add: loitering_event_def rule_event_fields Let_def)

interpretation loitering: single_track_rule loitering_evaluate lo_base "\<lambda>l. lc_cooldown_s (lo_params l)"
  by unfold_locales
    (auto simp: loitering_evaluate_def loitering_event_fields Let_def split: if_splits)

section \<open>The path is at least the displacement\<close>

lemma hypot_triangle: "hypot (a + c) (b + d) \<le> hypot a b + hypot c d"
  using real_sqrt_sum_squares_triangle_ineq [of a c b d] by (simp add: hypot_def power2_eq_square)

lemma foot_distance_triangle: "foot_distance a c \<le> foot_distance a b + foot_distance b c"
proof -
  let ?x = "\<lambda>ob. fst (foot_point (po_bbox ob))" and ?y = "\<lambda>ob. snd (foot_point (po_bbox ob))"
  show ?thesis
    using hypot_triangle [of "?x b - ?x a" "?x c - ?x b" "?y b - ?y a" "?y c - ?y b"]
    by (simp add: foot_distance_def)
qed

lemma path_totals_acc:
  "path_totals obs w e = (w + fst (path_totals obs 0 0), e + snd (path_totals obs 0 0))"
proof (induction obs arbitrary: w e)
  case (Cons a obs)
  show ?case
  proof (cases obs)
    case (Cons b rest)
    let ?d = "foot_distance a b" and ?t = "po_timestamp_ms b - po_timestamp_ms a"
    show ?thesis
      using Cons.IH [of "w + ?d" "e + ?t"] Cons.IH [of ?d ?t] Cons.IH [of w e] Cons
      by (simp add: Let_def algebra_simps)
  qed simp
qed simp

text \<open>Over strictly increasing timestamps every pair of neighbours counts.\<close>

definition strictly_ordered :: "pose_observation list \<Rightarrow> bool" where
  "strictly_ordered obs \<longleftrightarrow> sorted_wrt (<) (map po_timestamp_ms obs)"

lemma path_totals_bounds:
  assumes "strictly_ordered obs" and "obs \<noteq> []"
  shows "foot_distance (hd obs) (last obs) \<le> fst (path_totals obs 0 0)"
    and "snd (path_totals obs 0 0) = po_timestamp_ms (last obs) - po_timestamp_ms (hd obs)"
proof -
  have "foot_distance (hd obs) (last obs) \<le> fst (path_totals obs 0 0) \<and>
      snd (path_totals obs 0 0) = po_timestamp_ms (last obs) - po_timestamp_ms (hd obs)"
    using assms
  proof (induction obs)
    case (Cons a obs)
    show ?case
    proof (cases obs)
      case Nil
      then show ?thesis by (simp add: foot_distance_def hypot_def)
    next
      case (Cons b rest)
      then have ord: "po_timestamp_ms a < po_timestamp_ms b" "strictly_ordered obs" "obs \<noteq> []"
        using Cons.prems(1) by (auto simp: strictly_ordered_def)
      note IH = Cons.IH [OF ord(2,3)]
      have "path_totals (a # obs) 0 0 =
          (foot_distance a b + fst (path_totals obs 0 0),
           po_timestamp_ms b - po_timestamp_ms a + snd (path_totals obs 0 0))"
        using ord(1) path_totals_acc [of obs "foot_distance a b" "po_timestamp_ms b - po_timestamp_ms a"] Cons
        by (simp add: Let_def)
      then show ?thesis
        using IH foot_distance_triangle [of a "last obs" b] Cons by (auto simp: hd_conv_nth)
    qed
  qed simp
  then show "foot_distance (hd obs) (last obs) \<le> fst (path_totals obs 0 0)"
    and "snd (path_totals obs 0 0) = po_timestamp_ms (last obs) - po_timestamp_ms (hd obs)" by blast+
qed

lemma displacement_by_speed:
  assumes "strictly_ordered obs" and "obs_avg_speed_px_s obs \<le> v" and "2 \<le> length obs"
  shows "displacement_px obs \<le> v * of_int (po_timestamp_ms (last obs) - po_timestamp_ms (hd obs)) / 1000"
proof -
  have ne: "obs \<noteq> []" using assms(3) by auto
  let ?t = "po_timestamp_ms (last obs) - po_timestamp_ms (hd obs)"
  note b = path_totals_bounds [OF assms(1) ne]
  have "hd obs = obs ! 0" "last obs = obs ! (length obs - 1)" using ne by (simp_all add: hd_conv_nth last_conv_nth)
  then have t: "0 < ?t"
    using sorted_wrt_nth_less [OF assms(1) [unfolded strictly_ordered_def], of 0 "length obs - 1"] assms(3) ne
    by (simp add: nth_map)
  have "obs_avg_speed_px_s obs = fst (path_totals obs 0 0) / of_int ?t * 1000"
    using assms(3) b(2) t by (simp add: obs_avg_speed_px_s_def case_prod_beta)
  with assms(2) have "fst (path_totals obs 0 0) / of_int ?t * 1000 \<le> v" by simp
  then have "fst (path_totals obs 0 0) \<le> v * of_int ?t / 1000"
    using t by (simp add: field_simps)
  then show ?thesis using b(1) assms(3) by (simp add: displacement_px_def)
qed

section \<open>Properties\<close>

text \<open>
  a loitering event is justified by the track: from its start time to the latest observation
  every observation was in the zone, they last at least the minimal time and are at least the
  minimal number, and, over strictly increasing timestamps, the person ended no farther from where
  the dwell began than the maximal average speed allows.
\<close>

theorem loitering_event_sound:
  assumes "loitering_evaluate l t c = (Some e, l', c')" and "zc_polygon (rb_zone (lo_base l)) \<noteq> []"
    and "lc_max_avg_speed_px_s (lo_params l) = Fin v" and "2 \<le> lc_min_observation_count (lo_params l)"
    and "strictly_ordered (ts_observations t)"
  shows "\<exists>obs. obs = inside_observations (lo_base l) t \<and> obs \<noteq> [] \<and>
    (\<exists>us. ts_observations t = us @ obs) \<and> list_all (in_zone (rb_zone (lo_base l))) obs \<and>
    se_start_ts_ms e = po_timestamp_ms (hd obs) \<and>
    lc_min_duration_ms (lo_params l) \<le> po_timestamp_ms (last obs) - po_timestamp_ms (hd obs) \<and>
    lc_min_observation_count (lo_params l) \<le> int (length obs) \<and>
    displacement_px obs \<le> v * of_int (po_timestamp_ms (last obs) - po_timestamp_ms (hd obs)) / 1000"
proof -
  let ?r = "lo_base l"
  let ?all = "ts_observations t"
  let ?f = "back_while (in_zone (rb_zone ?r)) ?all (length ?all - 1)"
  let ?obs = "inside_observations ?r t"
  have ne: "?all \<noteq> []" and last_in: "in_zone (rb_zone ?r) (last ?all)" and e: "e = loitering_event l t"
    and dur: "lc_min_duration_ms (lo_params l) \<le> po_timestamp_ms (last ?all) - po_timestamp_ms (hd ?obs)"
    and cnt: "lc_min_observation_count (lo_params l) \<le> int (length ?obs)"
    and speed: "obs_avg_speed_px_s ?obs \<le> v"
    using assms(1-3) by (auto simp: loitering_evaluate_def Let_def split: if_splits)
  have obs: "?obs = drop ?f ?all"
    using ne assms(2) by (simp add: inside_observations_def first_continuous_inside_index_def)
  have f: "?f < length ?all"
    using back_while_le [of "in_zone (rb_zone ?r)" ?all "length ?all - 1"] ne by (cases ?all) auto
  have "in_zone (rb_zone ?r) (?all ! k)" if "?f \<le> k" "k < length ?all" for k
    using back_while_all [of "in_zone (rb_zone ?r)" ?all "length ?all - 1" k] that last_in ne
    by (cases "k = length ?all - 1") (auto simp: last_conv_nth)
  then have all_in: "list_all (in_zone (rb_zone ?r)) ?obs" by (simp add: obs list_all_length)
  have lst: "last ?obs = last ?all" using f by (simp add: obs)
  have "strictly_ordered ?obs"
    using assms(5) by (simp add: obs strictly_ordered_def drop_map [symmetric] sorted_wrt_drop)
  moreover have "2 \<le> length ?obs" using cnt assms(4) by linarith
  ultimately have "displacement_px ?obs \<le> v * of_int (po_timestamp_ms (last ?obs) - po_timestamp_ms (hd ?obs)) / 1000"
    using speed displacement_by_speed by blast
  moreover have "?all = take ?f ?all @ ?obs" by (simp add: obs)
  moreover have "?obs \<noteq> []" using f by (simp add: obs)
  ultimately show ?thesis
    using all_in dur cnt lst e by (auto simp: loitering_event_fields)
qed

definition example_loitering :: loitering_rule where
  "example_loitering =
     \<lparr>lo_base = \<lparr>rb_config = rule_config_default\<lparr>rc_name := ''rule''\<rparr>,
        rb_zone = \<lparr>zc_name = ''gate'', zc_polygon = [(0, 0), (10, 0), (10, 10), (0, 10)]\<rparr>\<rparr>,
      lo_params = \<lparr>lc_min_duration_ms = 1000, lc_max_avg_speed_px_s = Fin 20, lc_max_displacement_px = Fin 0,
        lc_min_observation_count = 2, lc_cooldown_s = 60\<rparr>\<rparr>"

definition example_dwell :: track_state where
  "example_dwell =
     \<lparr>ts_track_id = 7, ts_observations = [example_observation 7 1000 4 4, example_observation 7 3000 4 5],
      ts_first_seen_ms = 1000, ts_last_seen_ms = 3000\<rparr>"

theorem loitering_event_sound_witness:
  "\<exists>e l' c' obs. loitering_evaluate example_loitering example_dwell [] = (Some e, l', c') \<and>
    obs = inside_observations (lo_base example_loitering) example_dwell \<and> obs \<noteq> [] \<and>
    (\<exists>us. ts_observations example_dwell = us @ obs) \<and>
    list_all (in_zone (rb_zone (lo_base example_loitering))) obs \<and> se_start_ts_ms e = po_timestamp_ms (hd obs) \<and>
    1000 \<le> po_timestamp_ms (last obs) - po_timestamp_ms (hd obs) \<and> 2 \<le> int (length obs) \<and>
    displacement_px obs \<le> 20 * of_int (po_timestamp_ms (last obs) - po_timestamp_ms (hd obs)) / 1000"
proof -
  have ex: "loitering_evaluate example_loitering example_dwell [] =
      (Some (loitering_event example_loitering example_dwell), example_loitering,
       record_emit (cooldown_key (lo_base example_loitering) example_dwell) 60 3000 [])"
    by (simp add: loitering_evaluate_def example_loitering_def example_dwell_def rule_config_default_def
        in_zone_def point_in_polygon_def foot_point_def example_observation_def inside_observations_def
        first_continuous_inside_index_def obs_avg_speed_px_s_def foot_distance_def hypot_def can_emit_def Let_def)
  have h: "zc_polygon (rb_zone (lo_base example_loitering)) \<noteq> []"
    "lc_max_avg_speed_px_s (lo_params example_loitering) = Fin 20"
    "2 \<le> lc_min_observation_count (lo_params example_loitering)" "strictly_ordered (ts_observations example_dwell)"
    "lc_min_duration_ms (lo_params example_loitering) = 1000"
    "lc_min_observation_count (lo_params example_loitering) = 2"
    by (simp_all add: example_loitering_def example_dwell_def strictly_ordered_def example_observation_def)
  from loitering_event_sound [OF ex h(1-4)] ex show ?thesis unfolding h(5,6) by blast
qed

end
