(* ===== verification/Running.thy ===== *)
theory Running
  imports Loitering
begin

text \<open>
  \<open>RunningRule\<close> of \<^verbatim>\<open>modules/savant_security/custom/rules/running.py\<close>: a track whose
  foot point keeps a high speed for a minimal time.  The rule remembers since when each track
  has been running.
\<close>

section \<open>Configuration\<close>

record running_config =
  rn_min_speed_px_s :: pyfloat
  rn_min_normalized_speed :: pyfloat
  rn_min_duration_ms :: int
  rn_velocity_window_ms :: int
  rn_cooldown_s :: int

definition running_config_from :: "environ \<Rightarrow> config \<Rightarrow> int \<Rightarrow> running_config result" where
  "running_config_from env cfg fallback_cooldown_s =
     rbind (rbind (int_value (pget cfg ''min_duration_ms'') 500) (env_int env ''RUNNING_MIN_DURATION_MS''))
       (\<lambda>duration.
     rbind (rbind (int_value (pget cfg ''velocity_window_ms'') 700) (env_int env ''RUNNING_VELOCITY_WINDOW_MS''))
       (\<lambda>window.
     rbind (rbind (int_value (pget cfg ''cooldown_s'') (cooldown_or fallback_cooldown_s 20))
              (env_int env ''RUNNING_COOLDOWN_S''))
       (\<lambda>cooldown_s.
     Inr \<lparr>rn_min_speed_px_s = env_float env ''RUNNING_MIN_SPEED_PX_S''
            (float_value (pget cfg ''min_speed_px_s'') (Fin 250)),
          rn_min_normalized_speed = env_float env ''RUNNING_MIN_NORMALIZED_SPEED''
            (float_value (dget_or cfg ''min_normalized_speed'' (pget cfg ''min_norm_speed'')) (Fin 0)),
          rn_min_duration_ms = duration,
          rn_velocity_window_ms = window,
          rn_cooldown_s = cooldown_s\<rparr>)))"

section \<open>Kinematics\<close>

record running_kinematics =
  rk_speed_px_s :: real
  rk_normalized_speed :: real
  rk_window_ms :: int

text \<open>The first observation that is not older than the cutoff, else the oldest one.\<close>

definition window_start :: "pose_observation list \<Rightarrow> int \<Rightarrow> pose_observation" where
  "window_start obs window =
     (let cutoff = po_timestamp_ms (last obs) - max window 1
      in case dropWhile (\<lambda>ob. po_timestamp_ms ob < cutoff) obs of [] \<Rightarrow> hd obs | ob # _ \<Rightarrow> ob)"

definition track_running_kinematics :: "track_state \<Rightarrow> int \<Rightarrow> running_kinematics option" where
  "track_running_kinematics t window =
     (let obs = ts_observations t
      in if length obs < 2 then None
         else
           (let final = last obs; start = window_start obs window;
                dt_ms = po_timestamp_ms final - po_timestamp_ms start
            in if dt_ms \<le> 0 then None
               else
                 (let speed = foot_distance start final / of_int dt_ms * 1000;
                      height = bb_height (po_bbox final)
                  in Some \<lparr>rk_speed_px_s = speed,
                           rk_normalized_speed = (if 0 < height then speed / height else 0),
                           rk_window_ms = dt_ms\<rparr>)))"

definition passes_speed_thresholds :: "running_config \<Rightarrow> running_kinematics \<Rightarrow> bool" where
  "passes_speed_thresholds p kin \<longleftrightarrow>
     \<not> flt_less (Fin (rk_speed_px_s kin)) (rn_min_speed_px_s p) \<and>
     \<not> (flt_less (Fin 0) (rn_min_normalized_speed p) \<and>
        flt_less (Fin (rk_normalized_speed kin)) (rn_min_normalized_speed p))"

section \<open>The rule\<close>

record running_rule =
  ru_base :: rule_base
  ru_params :: running_config
  ru_running_since :: "(string \<times> int, int) dict"

definition running_rule_init :: "environ \<Rightarrow> rule_base \<Rightarrow> running_rule result" where
  "running_rule_init env r =
     rbind (running_config_from env (rc_config (rb_config r)) (rc_cooldown_s (rb_config r)))
       (\<lambda>p. Inr \<lparr>ru_base = r, ru_params = p, ru_running_since = []\<rparr>)"

definition running_key :: "track_state \<Rightarrow> string \<times> int" where
  "running_key t = (last_camera_id t, ts_track_id t)"

definition running_event :: "running_rule \<Rightarrow> track_state \<Rightarrow> running_kinematics \<Rightarrow> int \<Rightarrow> security_event" where
  "running_event u t kin started =
     (let r = ru_base u; p = ru_params u; zone = zc_name (rb_zone r); now_ms = ts_last_seen_ms t;
          duration_ms = now_ms - started; aid = rc_algorithm_id (rb_config r)
      in rule_event r t ''running'' started now_ms
           (''Track '' @ int_dec (ts_track_id t) @ '' running in zone '' @ [CHR 0x27] @ zone @ [CHR 0x27] @
            '': '' @ fmt_1f (rk_speed_px_s kin) @ ''px/s for '' @ int_dec duration_ms @ ''ms'')
           [(''algorithm_id'', PStr (if aid = [] then ''behavior.running'' else aid)),
            (''rule_id'', PStr (rc_name (rb_config r))), (''camera_id'', PStr (last_camera_id t)),
            (''zone_id'', PStr zone), (''track_id'', PInt (ts_track_id t)), (''duration_ms'', PInt duration_ms),
            (''speed_px_s'', PFloat (Fin (rk_speed_px_s kin))),
            (''normalized_speed'', PFloat (Fin (rk_normalized_speed kin))),
            (''velocity_window_ms'', PInt (rn_velocity_window_ms p)),
            (''kinematic_window_ms'', PInt (rk_window_ms kin)),
            (''min_speed_px_s'', PFloat (rn_min_speed_px_s p)),
            (''min_normalized_speed'', PFloat (rn_min_normalized_speed p))])"

definition running_evaluate ::
  "running_rule \<Rightarrow> track_state \<Rightarrow> cooldowns \<Rightarrow> security_event option \<times> running_rule \<times> cooldowns" where
  "running_evaluate u t c =
     (let r = ru_base u; p = ru_params u; key = running_key t;
          stop = u\<lparr>ru_running_since := dpop key (ru_running_since u)\<rparr>
      in if \<not> rc_enabled (rb_config r) \<or> ts_observations t = [] then (None, u, c)
         else if zc_polygon (rb_zone r) \<noteq> [] \<and> \<not> in_zone (rb_zone r) (last (ts_observations t))
         then (None, stop, c)
         else
           (case track_running_kinematics t (rn_velocity_window_ms p) of
              None \<Rightarrow> (None, stop, c)
            | Some kin \<Rightarrow>
                if \<not> passes_speed_thresholds p kin then (None, stop, c)
                else
                  (let now_ms = ts_last_seen_ms t;
                       started = dget_or (ru_running_since u) key now_ms;
                       u1 = (if dget (ru_running_since u) key = None
                             then u\<lparr>ru_running_since := dset key now_ms (ru_running_since u)\<rparr> else u)
                   in if now_ms - started < rn_min_duration_ms p then (None, u1, c)
                      else
                        (let ckey = cooldown_key r t
                         in if \<not> can_emit ckey now_ms c then (None, u1, c)
                            else (Some (running_event u t kin started), u1,
                                  record_emit ckey (rn_cooldown_s p) now_ms c)))))"

lemma running_event_fields:
  "se_track_id (running_event u t kin started) = PInt (ts_track_id t)"
  "se_zone (running_event u t kin started) = zc_name (rb_zone (ru_base u))"
  "se_end_ts_ms (running_event u t kin started) = Some (ts_last_seen_ms t)"
  "se_start_ts_ms (running_event u t kin started) = started"
  by (simp_all add: running_event_def rule_event_fields Let_def)

interpretation running: single_track_rule running_evaluate ru_base "\<lambda>u. rn_cooldown_s (ru_params u)"
  by unfold_locales
    (auto simp: running_evaluate_def running_event_fields Let_def split: if_splits option.splits)

section \<open>A running event needs sustained speed\<close>

text \<open>A track that the rule counts as running when it is evaluated.\<close>

definition fast_in_zone :: "running_rule \<Rightarrow> track_state \<Rightarrow> bool" where
  "fast_in_zone u t \<longleftrightarrow>
     ts_observations t \<noteq> [] \<and>
     (zc_polygon (rb_zone (ru_base u)) \<noteq> [] \<longrightarrow> in_zone (rb_zone (ru_base u)) (last (ts_observations t))) \<and>
     (case track_running_kinematics t (rn_velocity_window_ms (ru_params u)) of
        None \<Rightarrow> False | Some kin \<Rightarrow> passes_speed_thresholds (ru_params u) kin)"

fun running_run ::
  "track_state list \<Rightarrow> running_rule \<Rightarrow> cooldowns \<Rightarrow> security_event option list \<times> running_rule \<times> cooldowns" where
  "running_run [] u c = ([], u, c)"
| "running_run (t # ts) u c =
     (let (e, u1, c1) = running_evaluate u t c; (es, u2, c2) = running_run ts u1 c1 in (e # es, u2, c2))"

lemma running_params_kept:
  "ru_base (fst (snd (running_evaluate u t c))) = ru_base u"
  "ru_params (fst (snd (running_evaluate u t c))) = ru_params u"
  by (auto simp: running_evaluate_def Let_def split: option.splits)

lemma running_run_params:
  "ru_base (fst (snd (running_run ts u c))) = ru_base u"
  "ru_params (fst (snd (running_run ts u c))) = ru_params u"
  by (induction ts arbitrary: u c) (simp_all add: case_prod_beta Let_def running_params_kept)

lemma fast_in_zone_params:
  "ru_base u' = ru_base u \<Longrightarrow> ru_params u' = ru_params u \<Longrightarrow> fast_in_zone u' t = fast_in_zone u t"
  by (simp add: fast_in_zone_def split: option.split)

text \<open>What one evaluation does to the start time of a track.\<close>

lemma running_since_step:
  assumes "rc_enabled (rb_config (ru_base u))" and "ts_observations t \<noteq> []"
  shows "dget (ru_running_since (fst (snd (running_evaluate u t c)))) k =
    (if running_key t \<noteq> k then dget (ru_running_since u) k
     else if \<not> fast_in_zone u t then None
     else Some (dget_or (ru_running_since u) k (ts_last_seen_ms t)))"
  using assms
  by (auto simp: running_evaluate_def fast_in_zone_def Let_def dict_simps dget_or_def
      split: option.splits if_splits)

lemma running_fires:
  assumes "running_evaluate u t c = (Some e, u', c')"
  shows "fast_in_zone u t"
    and "se_start_ts_ms e = dget_or (ru_running_since u) (running_key t) (ts_last_seen_ms t)"
    and "rn_min_duration_ms (ru_params u) \<le> ts_last_seen_ms t - se_start_ts_ms e"
  using assms
  by (auto simp: running_evaluate_def fast_in_zone_def running_event_fields Let_def
      split: option.splits if_splits)

text \<open>The start time of a track is the time of the first of its latest, uninterrupted, fast states.\<close>

definition since_ok :: "running_rule \<Rightarrow> track_state list \<Rightarrow> running_rule \<Rightarrow> string \<times> int \<Rightarrow> bool" where
  "since_ok u0 past u k \<longleftrightarrow>
     (\<forall>s. dget (ru_running_since u) k = Some s \<longrightarrow>
        (\<exists>us v vs. filter (\<lambda>t. running_key t = k) past = us @ v # vs \<and>
           ts_last_seen_ms v = s \<and> list_all (fast_in_zone u0) (v # vs)))"

lemma since_ok_step:
  assumes ok: "since_ok u0 past u k" and p: "ru_base u = ru_base u0" "ru_params u = ru_params u0"
    and en: "rc_enabled (rb_config (ru_base u0))" and ne: "ts_observations t \<noteq> []"
  shows "since_ok u0 (past @ [t]) (fst (snd (running_evaluate u t c))) k"
proof -
  note step = running_since_step [of u t c k, unfolded p, OF en ne]
  have fast: "fast_in_zone u t = fast_in_zone u0 t" using p by (rule fast_in_zone_params)
  show ?thesis
  proof (cases "running_key t = k \<and> fast_in_zone u0 t")
    case False
    then show ?thesis using ok step by (auto simp: since_ok_def fast)
  next
    case True
    then have new: "dget (ru_running_since (fst (snd (running_evaluate u t c)))) k =
        Some (dget_or (ru_running_since u) k (ts_last_seen_ms t))" using step fast by simp
    show ?thesis
    proof (cases "dget (ru_running_since u) k")
      case None
      then show ?thesis using new True by (force simp: since_ok_def dget_or_def)
    next
      case (Some s)
      then obtain us v vs where h: "filter (\<lambda>t. running_key t = k) past = us @ v # vs"
        "ts_last_seen_ms v = s" "list_all (fast_in_zone u0) (v # vs)"
        using ok by (auto simp: since_ok_def)
      then have "filter (\<lambda>t. running_key t = k) (past @ [t]) = us @ v # (vs @ [t])"
        "list_all (fast_in_zone u0) (v # (vs @ [t]))" using True by auto
      then show ?thesis using new Some h(2) by (force simp: since_ok_def dget_or_def)
    qed
  qed
qed

lemma since_ok_run:
  assumes "since_ok u0 past u k" and "ru_base u = ru_base u0" "ru_params u = ru_params u0"
    and "rc_enabled (rb_config (ru_base u0))" and "\<forall>t \<in> set ts. ts_observations t \<noteq> []"
  shows "since_ok u0 (past @ ts) (fst (snd (running_run ts u c))) k"
  using assms
proof (induction ts arbitrary: past u c)
  case (Cons t ts)
  let ?u = "fst (snd (running_evaluate u t c))"
  have "since_ok u0 (past @ [t]) ?u k" using Cons.prems by (intro since_ok_step) auto
  moreover have "ru_base ?u = ru_base u0" "ru_params ?u = ru_params u0"
    using Cons.prems(2,3) by (simp_all add: running_params_kept)
  ultimately show ?case
    using Cons.IH [of "past @ [t]" ?u] Cons.prems(4,5) by (simp add: case_prod_beta Let_def)
qed simp

section \<open>Properties\<close>

text \<open>
  a running event means sustained speed: evaluated on any history of track states with a fresh
  rule, an event's start time is the time of an earlier evaluation of the same track, the track
  was fast and in the zone at that evaluation and at every one since, and the time in between is
  at least the minimal duration.
\<close>

theorem running_event_sustained:
  assumes "rc_enabled (rb_config (ru_base u))" and "ru_running_since u = []"
    and "\<forall>x \<in> set (ts @ [t]). ts_observations x \<noteq> []"
    and "running_run ts u c = (es, u1, c1)" and "running_evaluate u1 t c1 = (Some e, u2, c2)"
  shows "\<exists>us v vs. filter (\<lambda>x. running_key x = running_key t) (ts @ [t]) = us @ v # vs \<and>
    ts_last_seen_ms v = se_start_ts_ms e \<and> list_all (fast_in_zone u) (v # vs) \<and>
    rn_min_duration_ms (ru_params u) \<le> ts_last_seen_ms t - se_start_ts_ms e"
proof -
  let ?k = "running_key t"
  have "since_ok u [] u ?k" using assms(2) by (simp add: since_ok_def)
  from since_ok_run [OF this refl refl assms(1), of ts c] assms(3,4)
  have s: "since_ok u ts u1 ?k" by simp
  have p: "ru_base u1 = ru_base u" "ru_params u1 = ru_params u"
    using running_run_params [of ts u c] assms(4) by simp_all
  note f = running_fires [OF assms(5)]
  have "since_ok u (ts @ [t]) u2 ?k"
    using since_ok_step [OF s p assms(1), of t c1] assms(3,5) by simp
  moreover have "dget (ru_running_since u2) ?k = Some (se_start_ts_ms e)"
    using running_since_step [of u1 t c1 ?k] assms(1,3,5) p f(1,2) by simp
  ultimately obtain us v vs where "filter (\<lambda>x. running_key x = ?k) (ts @ [t]) = us @ v # vs"
    "ts_last_seen_ms v = se_start_ts_ms e" "list_all (fast_in_zone u) (v # vs)"
    unfolding since_ok_def by blast
  then show ?thesis using f(3) p by auto
qed

definition example_running :: running_rule where
  "example_running =
     \<lparr>ru_base = lo_base example_loitering,
      ru_params = \<lparr>rn_min_speed_px_s = Fin 0.5, rn_min_normalized_speed = Fin 0, rn_min_duration_ms = 0,
        rn_velocity_window_ms = 5000, rn_cooldown_s = 20\<rparr>,
      ru_running_since = []\<rparr>"

theorem running_event_sustained_witness:
  "\<exists>e u2 c2 us v vs. running_evaluate example_running example_dwell [] = (Some e, u2, c2) \<and>
    filter (\<lambda>x. running_key x = running_key example_dwell) [example_dwell] = us @ v # vs \<and>
    ts_last_seen_ms v = se_start_ts_ms e \<and> list_all (fast_in_zone example_running) (v # vs) \<and>
    0 \<le> ts_last_seen_ms example_dwell - se_start_ts_ms e"
proof -
  have "\<exists>e u2 c2. running_evaluate example_running example_dwell [] = (Some e, u2, c2)"
    by (simp add: running_evaluate_def example_running_def example_loitering_def example_dwell_def
        rule_config_default_def in_zone_def point_in_polygon_def foot_point_def example_observation_def
        track_running_kinematics_def window_start_def foot_distance_def hypot_def passes_speed_thresholds_def
        can_emit_def Let_def)
  then obtain e u2 c2 where ex: "running_evaluate example_running example_dwell [] = (Some e, u2, c2)" by blast
  have "rc_enabled (rb_config (ru_base example_running))" "ru_running_since example_running = []"
    "\<forall>x \<in> set ([] @ [example_dwell]). ts_observations x \<noteq> []"
    "running_run [] example_running [] = ([], example_running, [])"
    "rn_min_duration_ms (ru_params example_running) = 0"
    by (simp_all add: example_running_def example_loitering_def rule_config_default_def example_dwell_def)
  from running_event_sustained [OF this(1-4) ex] this(5) ex show ?thesis by auto
qed

end
