(* ===== verification/FrameRule.thy ===== *)
theory FrameRule
  imports Running
begin

text \<open>
  What the two frame-level rules share (\<^verbatim>\<open>rules/crowd_gathering.py\<close>,
  \<^verbatim>\<open>rules/chasing.py\<close>, \<^verbatim>\<open>rules/base.py\<close>): the time and the identity of a frame, the
  event they construct, and the contract of \<open>evaluate_frame\<close> with the cooldown tracker.
\<close>

text \<open>\<open>frame_ts_ms or max((track.last_seen_ms for track in frame_tracks), default=0)\<close>\<close>

definition frame_time :: "track_state list \<Rightarrow> int \<Rightarrow> int" where
  "frame_time tracks frame_ts_ms =
     (if frame_ts_ms \<noteq> 0 then frame_ts_ms
      else if tracks = [] then 0 else Max (set (map ts_last_seen_ms tracks)))"

fun frame_identity :: "track_state list \<Rightarrow> string \<times> string" where
  "frame_identity [] = ([], [])"
| "frame_identity (t # ts) =
     (if ts_observations t \<noteq> []
      then (po_camera_id (last (ts_observations t)), po_source_id (last (ts_observations t)))
      else frame_identity ts)"

definition frame_event ::
  "rule_base \<Rightarrow> string \<times> string \<Rightarrow> string \<Rightarrow> int \<Rightarrow> int \<Rightarrow> int \<Rightarrow> real \<Rightarrow> string \<Rightarrow> config \<Rightarrow> security_event" where
  "frame_event r identity event_type track_id start_ts_ms end_ts_ms confidence description payload =
     (let cfg = rb_config r
      in event_post_init
           (security_event_default
              \<lparr>se_event_type := event_type, se_camera_id := fst identity, se_source_id := snd identity,
               se_track_id := PInt track_id, se_start_ts_ms := start_ts_ms, se_end_ts_ms := Some end_ts_ms,
               se_confidence := confidence, se_severity := rc_severity cfg, se_zone := zc_name (rb_zone r),
               se_rule_name := rc_name cfg, se_description := description,
               se_snapshot_required := rc_snapshot_required cfg, se_clip_required := rc_clip_required cfg,
               se_payload := payload\<rparr>))"

lemma frame_event_fields:
  "se_event_type (frame_event r i ty k st en cf d p) = ty"
  "se_camera_id (frame_event r i ty k st en cf d p) = fst i"
  "se_track_id (frame_event r i ty k st en cf d p) = PInt k"
  "se_start_ts_ms (frame_event r i ty k st en cf d p) = st"
  "se_end_ts_ms (frame_event r i ty k st en cf d p) = Some en"
  "se_confidence (frame_event r i ty k st en cf d p) = cf"
  "se_zone (frame_event r i ty k st en cf d p) = zc_name (rb_zone r)"
  "se_payload (frame_event r i ty k st en cf d p) = p"
  by (simp_all add: frame_event_def event_post_init_def security_event_default_def Let_def)

text \<open>The emissions of one frame, each of them allowed by the tracker that the ones before left.\<close>

fun granted_in_order :: "string list \<Rightarrow> int \<Rightarrow> int \<Rightarrow> cooldowns \<Rightarrow> cooldowns option" where
  "granted_in_order [] secs now c = Some c"
| "granted_in_order (k # ks) secs now c =
     (if can_emit k now c then granted_in_order ks secs now (record_emit k secs now c) else None)"

lemma granted_append:
  "granted_in_order (ks @ js) secs now c =
     (case granted_in_order ks secs now c of None \<Rightarrow> None | Some c' \<Rightarrow> granted_in_order js secs now c')"
  by (induction ks arbitrary: c) auto

lemma granted_later:
  assumes "granted_in_order ks secs now c = Some c'"
  shows "can_emit k later c' \<longleftrightarrow> (if k \<in> set ks then now + secs * 1000 \<le> later else can_emit k later c)"
  using assms
proof (induction ks arbitrary: c)
  case (Cons j ks)
  then have "granted_in_order ks secs now (record_emit j secs now c) = Some c'" by (simp split: if_splits)
  from Cons.IH [OF this] show ?case
    using cooldown.open_after [of k later secs now c] cooldown.other_keys [of k j later secs now c]
    by (cases "k = j") auto
qed simp

lemma granted_once:
  "granted_in_order ks secs now c = Some c' \<Longrightarrow> 0 < secs \<Longrightarrow> distinct ks \<and> (\<forall>k \<in> set ks. can_emit k now c)"
proof (induction ks arbitrary: c)
  case (Cons j ks)
  have can: "can_emit j now c" and rest: "granted_in_order ks secs now (record_emit j secs now c) = Some c'"
    using Cons.prems(1) by (auto split: if_splits)
  note ih = Cons.IH [OF rest Cons.prems(2)]
  have "j \<notin> set ks" using ih Cons.prems(2) cooldown.open_after [of j now secs now c] by auto
  moreover have "can_emit k now c" if "k \<in> set ks" "k \<noteq> j" for k
    using ih that cooldown.other_keys [of k j now secs now c] by auto
  ultimately show ?case using ih can by auto
qed simp

text \<open>
  The contract of a frame rule: it keeps its configuration, and the events of a frame are
  emissions that the cooldown tracker allowed one after the other at the time of the frame.
\<close>

locale frame_rule =
  fixes evaluate :: "'r \<Rightarrow> track_state list \<Rightarrow> int \<Rightarrow> cooldowns \<Rightarrow> security_event list \<times> 'r \<times> cooldowns"
    and rbase :: "'r \<Rightarrow> rule_base" and secs :: "'r \<Rightarrow> int" and key :: "'r \<Rightarrow> security_event \<Rightarrow> string"
  assumes keeps: "evaluate r ts f c = (es, r', c') \<Longrightarrow> rbase r' = rbase r \<and> secs r' = secs r \<and> key r' = key r"
    and granted: "evaluate r ts f c = (es, r', c') \<Longrightarrow>
      granted_in_order (map (key r) es) (secs r) (frame_time ts f) c = Some c'"
    and stamped: "evaluate r ts f c = (es, r', c') \<Longrightarrow> e \<in> set es \<Longrightarrow> se_end_ts_ms e = Some (frame_time ts f)"
    and disabled: "evaluate r ts f c = (es, r', c') \<Longrightarrow> \<not> rc_enabled (rb_config (rbase r)) \<or> ts = [] \<Longrightarrow> es = []"
begin

text \<open>With a cooldown, the events of one frame have different keys.\<close>

lemma one_per_key:
  "evaluate r ts f c = (es, r', c') \<Longrightarrow> 0 < secs r \<Longrightarrow> distinct (map (key r) es)"
  using granted [of r ts f c es r' c'] granted_once by blast

text \<open>An event repeats a key of an earlier frame only after the cooldown.\<close>

lemma repeats_after_cooldown:
  assumes "evaluate r ts f c = (es, r', c')" and "e \<in> set es"
    and "evaluate r' ts2 f2 c' = (es2, r2, c2)" and "e2 \<in> set es2" and "key r e2 = key r e" and "0 < secs r"
  shows "frame_time ts f + secs r * 1000 \<le> frame_time ts2 f2"
proof -
  have k: "key r' = key r" "secs r' = secs r" using keeps [OF assms(1)] by simp_all
  have "can_emit (key r e2) (frame_time ts2 f2) c'"
    using granted_once [OF granted [OF assms(3)]] assms(4,6) k by auto
  then show ?thesis
    using granted_later [OF granted [OF assms(1)], of "key r e2"] assms(2,5) by auto
qed

end

end
