(* ===== verification/Crowd.thy ===== *)
theory Crowd
  imports FrameRule
begin

text \<open>
  \<open>CrowdGatheringRule\<close> of
  \<^verbatim>\<open>modules/savant_security/custom/rules/crowd_gathering.py\<close>: the people of a frame are
  clustered by proximity, clusters are followed from frame to frame by their shared members, and
  a cluster that stays a crowd, with hysteresis on its size, is reported.
\<close>

section \<open>Configuration\<close>

record crowd_config =
  cw_min_person_count :: int
  cw_exit_person_count :: int
  cw_min_duration_ms :: int
  cw_eps_px :: pyfloat
  cw_require_in_zone :: bool
  cw_cooldown_s :: int
  cw_max_track_age_ms :: int
  cw_eps_height_ratio :: pyfloat

definition crowd_min_duration :: "config \<Rightarrow> int result" where
  "crowd_min_duration cfg =
     (let raw = config_alias cfg [''min_duration_s'', ''min_duration_ms'']
      in if has_key cfg ''min_duration_ms'' then int_value raw 2000
         else if raw \<noteq> PNone then py_int (PFloat (flt_times (float_value raw (Fin 2)) (Fin 1000)))
         else Inr 2000)"

definition crowd_config_from :: "environ \<Rightarrow> config \<Rightarrow> int \<Rightarrow> crowd_config result" where
  "crowd_config_from env cfg fallback_cooldown_s =
     rbind (crowd_min_duration cfg)
       (\<lambda>min_duration_ms.
     rbind (rbind (int_value (config_alias cfg [''min_person_count'', ''count_high'']) 5)
              (env_int env ''CROWD_MIN_PERSON_COUNT''))
       (\<lambda>min_count.
     rbind (rbind (int_value (config_alias cfg [''exit_person_count'', ''count_low'']) 3)
              (env_int env ''CROWD_EXIT_PERSON_COUNT''))
       (\<lambda>exit_count.
     rbind (env_int env ''CROWD_MIN_DURATION_MS'' min_duration_ms)
       (\<lambda>duration.
     rbind (rbind (int_value (pget cfg ''cooldown_s'') (cooldown_or fallback_cooldown_s 60))
              (env_int env ''CROWD_COOLDOWN_S''))
       (\<lambda>cooldown_s.
     rbind (rbind (int_value (pget cfg ''max_track_age_ms'') 1000) (env_int env ''CROWD_MAX_TRACK_AGE_MS''))
       (\<lambda>age.
     Inr \<lparr>cw_min_person_count = min_count,
          cw_exit_person_count = exit_count,
          cw_min_duration_ms = duration,
          cw_eps_px = env_float env ''CROWD_EPS_PX'' (float_value (pget cfg ''eps_px'') (Fin 180)),
          cw_require_in_zone = env_bool env ''CROWD_REQUIRE_IN_ZONE''
            (bool_value (pget cfg ''require_in_zone'') True),
          cw_cooldown_s = cooldown_s,
          cw_max_track_age_ms = age,
          cw_eps_height_ratio = env_float env ''CROWD_EPS_HEIGHT_RATIO''
            (float_value (pget cfg ''eps_height_ratio'') (Fin 0))\<rparr>))))))"

section \<open>Clusters\<close>

record crowd_cluster =
  cl_members :: "int set"
  cl_centroid :: point

text \<open>Two people are linked when their foot points are near, also relative to their heights.\<close>

definition proximity_link ::
  "(int \<times> point) list \<Rightarrow> pyfloat \<Rightarrow> real list \<Rightarrow> pyfloat \<Rightarrow> nat \<Rightarrow> nat \<Rightarrow> bool" where
  "proximity_link points eps_px heights eps_height_ratio i j =
     (let (x0, y0) = snd (points ! i); (x1, y1) = snd (points ! j);
          gap = Fin ((x0 - x1)\<^sup>2 + (y0 - y1)\<^sup>2)
      in if flt_less (Fin 0) eps_height_ratio
         then (let link = flt_times (flt_times eps_height_ratio (Fin (heights ! i + heights ! j))) (Fin (1 / 2))
               in flt_le gap (flt_times link link))
         else flt_le gap (flt_times eps_px eps_px))"

text \<open>
  The search from one point: the stack with its top first, the visited points, and the component
  that has been found so far.
\<close>

function grow_cluster ::
  "(nat \<Rightarrow> nat \<Rightarrow> bool) \<Rightarrow> nat \<Rightarrow> nat list \<Rightarrow> nat set \<Rightarrow> nat list \<Rightarrow> nat list \<times> nat set" where
  "grow_cluster link n [] visited component = (component, visited)"
| "grow_cluster link n (idx # stack) visited component =
     (let found = filter (\<lambda>j. j \<notin> visited \<and> link idx j) [0..<n]
      in grow_cluster link n (rev found @ stack) (visited \<union> set found) (component @ [idx]))"
  by pat_completeness auto
termination
proof (relation "measure (\<lambda>(link, n, stack, visited, component). 2 * card ({..<n} - visited) + length stack)")
  fix link :: "nat \<Rightarrow> nat \<Rightarrow> bool" and n idx stack visited component found
  assume found: "found = filter (\<lambda>j. j \<notin> visited \<and> link idx j) [0..<n]"
  have "distinct found" unfolding found by (intro distinct_filter distinct_upt)
  then have len: "card (set found) = length found" by (rule distinct_card)
  have sub: "set found \<subseteq> {..<n} - visited" using found by auto
  have "{..<n} - (visited \<union> set found) = ({..<n} - visited) - set found" by blast
  then have "card ({..<n} - (visited \<union> set found)) = card ({..<n} - visited) - length found"
    using card_Diff_subset [OF finite_set sub] len by simp
  moreover have "length found \<le> card ({..<n} - visited)"
    using card_mono [OF _ sub] len by simp
  ultimately have "card ({..<n} - visited) = card ({..<n} - (visited \<union> set found)) + length found" by simp
  then show "((link, n, rev found @ stack, visited \<union> set found, component @ [idx]),
      link, n, idx # stack, visited, component)
    \<in> measure (\<lambda>(link, n, stack, visited, component). 2 * card ({..<n} - visited) + length stack)"
    by simp
qed simp

fun cluster_components :: "(nat \<Rightarrow> nat \<Rightarrow> bool) \<Rightarrow> nat \<Rightarrow> nat list \<Rightarrow> nat set \<Rightarrow> nat list list" where
  "cluster_components link n [] visited = []"
| "cluster_components link n (start # starts) visited =
     (if start \<in> visited then cluster_components link n starts visited
      else
        (let (component, visited') = grow_cluster link n [start] (insert start visited) []
         in component # cluster_components link n starts visited'))"

definition cluster_of :: "(int \<times> point) list \<Rightarrow> nat list \<Rightarrow> crowd_cluster" where
  "cluster_of points component =
     \<lparr>cl_members = set (map (\<lambda>i. fst (points ! i)) component),
      cl_centroid = (sum_list (map (\<lambda>i. fst (snd (points ! i))) component) / real (length component),
                     sum_list (map (\<lambda>i. snd (snd (points ! i))) component) / real (length component))\<rparr>"

definition cluster_by_proximity ::
  "(int \<times> point) list \<Rightarrow> pyfloat \<Rightarrow> real list \<Rightarrow> pyfloat \<Rightarrow> crowd_cluster list" where
  "cluster_by_proximity points eps_px heights eps_height_ratio =
     map (cluster_of points)
       (cluster_components (proximity_link points eps_px heights eps_height_ratio) (length points)
          [0..<length points] {})"

definition present_tracks :: "track_state list \<Rightarrow> int \<Rightarrow> int \<Rightarrow> track_state list" where
  "present_tracks tracks frame_ts_ms max_track_age_ms =
     (if max_track_age_ms \<le> 0 \<or> frame_ts_ms \<le> 0 then filter (\<lambda>t. ts_observations t \<noteq> []) tracks
      else filter (\<lambda>t. ts_observations t \<noteq> [] \<and> frame_ts_ms - ts_last_seen_ms t \<le> max_track_age_ms) tracks)"

definition last_box :: "track_state \<Rightarrow> bbox" where
  "last_box t = po_bbox (last (ts_observations t))"

definition crowd_tracks :: "track_state list \<Rightarrow> crowd_config \<Rightarrow> point list \<Rightarrow> int \<Rightarrow> track_state list" where
  "crowd_tracks tracks cfg polygon frame_ts_ms =
     filter (\<lambda>t. \<not> (cw_require_in_zone cfg \<and> polygon \<noteq> [] \<and> \<not> point_in_polygon (foot_point (last_box t)) polygon))
       (present_tracks tracks frame_ts_ms (cw_max_track_age_ms cfg))"

definition find_crowd_clusters ::
  "track_state list \<Rightarrow> crowd_config \<Rightarrow> point list \<Rightarrow> int \<Rightarrow> crowd_cluster list" where
  "find_crowd_clusters tracks cfg polygon frame_ts_ms =
     (let people = crowd_tracks tracks cfg polygon frame_ts_ms
      in cluster_by_proximity (map (\<lambda>t. (ts_track_id t, foot_point (last_box t))) people) (cw_eps_px cfg)
           (map (\<lambda>t. max (bb_height (last_box t)) 0) people) (cw_eps_height_ratio cfg))"

section \<open>The rule\<close>

record crowd_state =
  cs_members :: "int set"
  cs_is_crowd :: bool
  cs_since_ts :: int

record crowd_rule =
  cr_base :: rule_base
  cr_params :: crowd_config
  cr_clusters :: "(int, crowd_state) dict"
  cr_next_cluster_id :: int

definition crowd_rule_init :: "environ \<Rightarrow> rule_base \<Rightarrow> crowd_rule result" where
  "crowd_rule_init env r =
     rbind (crowd_config_from env (rc_config (rb_config r)) (rc_cooldown_s (rb_config r)))
       (\<lambda>p. Inr \<lparr>cr_base = r, cr_params = p, cr_clusters = [], cr_next_cluster_id = 1\<rparr>)"

fun best_match :: "int set \<Rightarrow> int set \<Rightarrow> (int, crowd_state) dict \<Rightarrow> int option \<Rightarrow> int \<Rightarrow> int option" where
  "best_match members already_matched [] best_id best_overlap = (if 0 < best_overlap then best_id else None)"
| "best_match members already_matched ((cid, st) # rest) best_id best_overlap =
     (let overlap = int (card (members \<inter> cs_members st))
      in if cid \<in> already_matched then best_match members already_matched rest best_id best_overlap
         else if best_overlap < overlap then best_match members already_matched rest (Some cid) overlap
         else best_match members already_matched rest best_id best_overlap)"

definition match_cluster :: "crowd_rule \<Rightarrow> int set \<Rightarrow> int set \<Rightarrow> int option" where
  "match_cluster r members already_matched = best_match members already_matched (cr_clusters r) None 0"

definition crowd_transition :: "crowd_config \<Rightarrow> int \<Rightarrow> crowd_state \<Rightarrow> crowd_state" where
  "crowd_transition p now st =
     (let count = int (card (cs_members st))
      in if \<not> cs_is_crowd st \<and> cw_min_person_count p \<le> count
         then st\<lparr>cs_is_crowd := True, cs_since_ts := now\<rparr>
         else if cs_is_crowd st \<and> count \<le> cw_exit_person_count p
         then st\<lparr>cs_is_crowd := False, cs_since_ts := now\<rparr>
         else st)"

definition crowd_event ::
  "crowd_rule \<Rightarrow> string \<times> string \<Rightarrow> int \<Rightarrow> int \<Rightarrow> crowd_cluster \<Rightarrow> int \<Rightarrow> security_event" where
  "crowd_event r identity now cid cluster since =
     (let p = cr_params r; cfg = rb_config (cr_base r); zone = zc_name (rb_zone (cr_base r));
          count = int (card (cl_members cluster)); aid = rc_algorithm_id cfg
      in frame_event (cr_base r) identity ''crowd_gathering'' 0 since now
           (min 1 (of_int count / of_int (max (cw_min_person_count p) 1)))
           (''Crowd gathering in zone '' @ [CHR 0x27] @ zone @ [CHR 0x27] @ '': '' @ int_dec count @
            '' people for '' @ int_dec (now - since) @ ''ms'')
           [(''algorithm_id'', PStr (if aid = [] then ''behavior.crowd_gathering'' else aid)),
            (''rule_id'', PStr (rc_name cfg)), (''camera_id'', PStr (fst identity)), (''zone_id'', PStr zone),
            (''cluster_id'', PInt cid),
            (''member_track_ids'', PList (map PInt (sorted_list_of_set (cl_members cluster)))),
            (''person_count'', PInt count), (''duration_ms'', PInt (now - since)),
            (''centroid'', PDict [(''x'', PFloat (Fin (fst (cl_centroid cluster)))),
                                 (''y'', PFloat (Fin (snd (cl_centroid cluster))))]),
            (''eps_px'', PFloat (cw_eps_px p)), (''eps_height_ratio'', PFloat (cw_eps_height_ratio p)),
            (''max_track_age_ms'', PInt (cw_max_track_age_ms p))])"

definition crowd_key :: "string \<Rightarrow> string \<Rightarrow> string" where
  "crowd_key camera_id zone = camera_id @ '':crowd_gathering:'' @ zone"

text \<open>
  One cluster of the frame: the state of the loop is the rule, the ids that have been matched, the
  cooldowns and the events so far.  A matched id is a key of the dictionary.
\<close>

definition crowd_step ::
  "string \<times> string \<Rightarrow> int \<Rightarrow> crowd_cluster \<Rightarrow> crowd_rule \<times> int set \<times> cooldowns \<times> security_event list
     \<Rightarrow> crowd_rule \<times> int set \<times> cooldowns \<times> security_event list" where
  "crowd_step identity now cluster = (\<lambda>(r, matched, c, events).
     (let p = cr_params r; fresh = \<lparr>cs_members = {}, cs_is_crowd = False, cs_since_ts = now\<rparr>;
          (cid, st0, next_id) =
            (case match_cluster r (cl_members cluster) matched of
               None \<Rightarrow> (cr_next_cluster_id r, fresh, cr_next_cluster_id r + 1)
             | Some cid \<Rightarrow> (cid, dget_or (cr_clusters r) cid fresh, cr_next_cluster_id r));
          st = crowd_transition p now (st0\<lparr>cs_members := cl_members cluster\<rparr>);
          r1 = r\<lparr>cr_clusters := dset cid st (cr_clusters r), cr_next_cluster_id := next_id\<rparr>;
          matched1 = insert cid matched;
          key = crowd_key (fst identity) (zc_name (rb_zone (cr_base r)))
      in if \<not> cs_is_crowd st then (r1, matched1, c, events)
         else if now - cs_since_ts st < cw_min_duration_ms p then (r1, matched1, c, events)
         else if \<not> can_emit key now c then (r1, matched1, c, events)
         else (r1, matched1, record_emit key (cw_cooldown_s p) now c,
               events @ [crowd_event r identity now cid cluster (cs_since_ts st)])))"

definition crowd_evaluate ::
  "crowd_rule \<Rightarrow> track_state list \<Rightarrow> int \<Rightarrow> cooldowns \<Rightarrow> security_event list \<times> crowd_rule \<times> cooldowns" where
  "crowd_evaluate r tracks frame_ts_ms c =
     (if \<not> rc_enabled (rb_config (cr_base r)) \<or> tracks = []
      then ([], if tracks = [] then r\<lparr>cr_clusters := []\<rparr> else r, c)
      else
        (let now = frame_time tracks frame_ts_ms;
             clusters = find_crowd_clusters tracks (cr_params r) (zc_polygon (rb_zone (cr_base r))) now;
             (r1, matched, c1, events) = fold (crowd_step (frame_identity tracks) now) clusters (r, {}, c, [])
         in (events, r1\<lparr>cr_clusters := filter (\<lambda>(cid, _). cid \<in> matched) (cr_clusters r1)\<rparr>, c1)))"

lemma crowd_event_fields:
  "se_camera_id (crowd_event r i now cid cl since) = fst i"
  "se_zone (crowd_event r i now cid cl since) = zc_name (rb_zone (cr_base r))"
  "se_start_ts_ms (crowd_event r i now cid cl since) = since"
  "se_end_ts_ms (crowd_event r i now cid cl since) = Some now"
  "pget (se_payload (crowd_event r i now cid cl since)) ''person_count'' = PInt (int (card (cl_members cl)))"
  by (simp_all add: crowd_event_def frame_event_fields pget_def dget_or_def Let_def)

text \<open>What one cluster does to the rest of the loop's state.\<close>

lemma crowd_step_cases:
  obtains cid st0 st next_id where
    "crowd_step i now cl (r, matched, c, es) =
      (r\<lparr>cr_clusters := dset cid st (cr_clusters r), cr_next_cluster_id := next_id\<rparr>, insert cid matched,
       if cs_is_crowd st \<and> cw_min_duration_ms (cr_params r) \<le> now - cs_since_ts st \<and>
          can_emit (crowd_key (fst i) (zc_name (rb_zone (cr_base r)))) now c
       then (record_emit (crowd_key (fst i) (zc_name (rb_zone (cr_base r)))) (cw_cooldown_s (cr_params r)) now c,
             es @ [crowd_event r i now cid cl (cs_since_ts st)])
       else (c, es))"
    "st = crowd_transition (cr_params r) now (st0\<lparr>cs_members := cl_members cl\<rparr>)"
    "cs_is_crowd st0 \<Longrightarrow> match_cluster r (cl_members cl) matched = Some cid \<and> dget (cr_clusters r) cid = Some st0"
proof -
  let ?fresh = "\<lparr>cs_members = {}, cs_is_crowd = False, cs_since_ts = now\<rparr>"
  let ?m = "match_cluster r (cl_members cl) matched"
  let ?cid = "case ?m of None \<Rightarrow> cr_next_cluster_id r | Some cid \<Rightarrow> cid"
  let ?before = "case ?m of None \<Rightarrow> ?fresh | Some cid \<Rightarrow> dget_or (cr_clusters r) cid ?fresh"
  let ?nxt = "case ?m of None \<Rightarrow> cr_next_cluster_id r + 1 | Some cid \<Rightarrow> cr_next_cluster_id r"
  let ?st = "crowd_transition (cr_params r) now (?before\<lparr>cs_members := cl_members cl\<rparr>)"
  have matched: "cs_is_crowd ?before \<Longrightarrow> ?m = Some ?cid \<and> dget (cr_clusters r) ?cid = Some ?before"
    by (auto simp: dget_or_def split: option.splits)
  have "crowd_step i now cl (r, matched, c, es) =
      (r\<lparr>cr_clusters := dset ?cid ?st (cr_clusters r), cr_next_cluster_id := ?nxt\<rparr>, insert ?cid matched,
       if cs_is_crowd ?st \<and> cw_min_duration_ms (cr_params r) \<le> now - cs_since_ts ?st \<and>
          can_emit (crowd_key (fst i) (zc_name (rb_zone (cr_base r)))) now c
       then (record_emit (crowd_key (fst i) (zc_name (rb_zone (cr_base r)))) (cw_cooldown_s (cr_params r)) now c,
             es @ [crowd_event r i now ?cid cl (cs_since_ts ?st)])
       else (c, es))"
    by (cases ?m) (simp_all add: crowd_step_def Let_def not_less)
  then show ?thesis by (rule that [OF _ refl matched])
qed

lemma crowd_loop_granted:
  assumes "fold (crowd_step i now) cls (r, {}, c, []) = (r1, matched, c1, es)"
  shows "cr_base r1 = cr_base r \<and> cr_params r1 = cr_params r \<and>
    granted_in_order (map (\<lambda>e. crowd_key (se_camera_id e) (se_zone e)) es) (cw_cooldown_s (cr_params r)) now c = Some c1 \<and>
    (\<forall>e \<in> set es. se_end_ts_ms e = Some now \<and> se_camera_id e = fst i \<and> se_zone e = zc_name (rb_zone (cr_base r)))"
proof -
  let ?P = "\<lambda>(r1 :: crowd_rule, matched :: int set, c1, es :: security_event list). cr_base r1 = cr_base r \<and> cr_params r1 = cr_params r \<and>
    granted_in_order (map (\<lambda>e. crowd_key (se_camera_id e) (se_zone e)) es) (cw_cooldown_s (cr_params r)) now c = Some c1 \<and>
    (\<forall>e \<in> set es. se_end_ts_ms e = Some now \<and> se_camera_id e = fst i \<and> se_zone e = zc_name (rb_zone (cr_base r)))"
  have "?P (fold (crowd_step i now) cls (r, {}, c, []))"
  proof (rule fold_invariant [where Q = "\<lambda>_. True"])
    fix cl s
    assume ok: "?P s"
    obtain r1 m c1 es where s: "s = (r1, m, c1, es)" by (cases s)
    show "?P (crowd_step i now cl s)"
      using ok unfolding s
      by (rule_tac i = i and now = now and cl = cl and r = r1 and matched = m and c = c1 and es = es in crowd_step_cases)
        (auto simp: crowd_event_fields granted_append)
  qed simp_all
  with assms show ?thesis by simp
qed

lemma crowd_evaluate_loop:
  assumes "crowd_evaluate r ts f c = (es, r', c')" and "rc_enabled (rb_config (cr_base r))" "ts \<noteq> []"
  obtains r1 matched where
    "fold (crowd_step (frame_identity ts) (frame_time ts f))
       (find_crowd_clusters ts (cr_params r) (zc_polygon (rb_zone (cr_base r))) (frame_time ts f)) (r, {}, c, []) =
     (r1, matched, c', es)"
    "r' = r1\<lparr>cr_clusters := filter (\<lambda>(cid, _). cid \<in> matched) (cr_clusters r1)\<rparr>"
  using assms unfolding crowd_evaluate_def Let_def by (auto split: prod.splits)

lemma crowd_evaluate_granted:
  assumes run: "crowd_evaluate r ts f c = (es, r', c')"
  shows "cr_base r' = cr_base r \<and> cr_params r' = cr_params r \<and>
    granted_in_order (map (\<lambda>e. crowd_key (se_camera_id e) (se_zone e)) es) (cw_cooldown_s (cr_params r))
      (frame_time ts f) c = Some c' \<and>
    (\<forall>e \<in> set es. se_end_ts_ms e = Some (frame_time ts f) \<and> se_camera_id e = fst (frame_identity ts) \<and>
      se_zone e = zc_name (rb_zone (cr_base r)))"
proof (cases "rc_enabled (rb_config (cr_base r)) \<and> ts \<noteq> []")
  case True
  then obtain r1 matched where "fold (crowd_step (frame_identity ts) (frame_time ts f))
       (find_crowd_clusters ts (cr_params r) (zc_polygon (rb_zone (cr_base r))) (frame_time ts f)) (r, {}, c, []) =
     (r1, matched, c', es)" "r' = r1\<lparr>cr_clusters := filter (\<lambda>(cid, _). cid \<in> matched) (cr_clusters r1)\<rparr>"
    using crowd_evaluate_loop [OF run] by blast
  then show ?thesis using crowd_loop_granted by fastforce
next
  case False
  then show ?thesis using run by (auto simp: crowd_evaluate_def)
qed

interpretation crowd: frame_rule crowd_evaluate cr_base "\<lambda>r. cw_cooldown_s (cr_params r)"
  "\<lambda>r e. crowd_key (se_camera_id e) (se_zone e)"
proof unfold_locales
  fix r ts f c es r' c'
  assume run: "crowd_evaluate r ts f c = (es, r', c')"
  note facts = crowd_evaluate_granted [OF run]
  show "granted_in_order (map (\<lambda>e. crowd_key (se_camera_id e) (se_zone e)) es) (cw_cooldown_s (cr_params r))
      (frame_time ts f) c = Some c'"
    using facts by blast
  show "cr_base r' = cr_base r \<and> cw_cooldown_s (cr_params r') = cw_cooldown_s (cr_params r) \<and>
      (\<lambda>e. crowd_key (se_camera_id e) (se_zone e)) = (\<lambda>e. crowd_key (se_camera_id e) (se_zone e))"
    using facts by simp
  show "e \<in> set es \<Longrightarrow> se_end_ts_ms e = Some (frame_time ts f)" for e
    using facts by blast
  show "\<not> rc_enabled (rb_config (cr_base r)) \<or> ts = [] \<Longrightarrow> es = []"
    using run by (auto simp: crowd_evaluate_def)
qed

section \<open>The clusters are connected components\<close>

definition link_graph :: "(nat \<Rightarrow> nat \<Rightarrow> bool) \<Rightarrow> nat \<Rightarrow> (nat \<times> nat) set" where
  "link_graph link n = {(i, j). i < n \<and> j < n \<and> link i j}"

lemma proximity_link_sym:
  "proximity_link points eps heights ratio i j = proximity_link points eps heights ratio j i"
  by (simp add: proximity_link_def case_prod_beta power2_commute add.commute Let_def)

lemma link_graph_sym: "(\<And>i j. link i j = link j i) \<Longrightarrow> (i, j) \<in> (link_graph link n)\<^sup>* \<Longrightarrow> (j, i) \<in> (link_graph link n)\<^sup>*"
proof -
  assume "\<And>i j. link i j = link j i"
  then have "sym (link_graph link n)" by (auto simp: sym_def link_graph_def)
  then show "(i, j) \<in> (link_graph link n)\<^sup>* \<Longrightarrow> (j, i) \<in> (link_graph link n)\<^sup>*"
    by (meson sym_rtrancl symD)
qed

definition link_closed :: "(nat \<Rightarrow> nat \<Rightarrow> bool) \<Rightarrow> nat \<Rightarrow> nat set \<Rightarrow> bool" where
  "link_closed link n V \<longleftrightarrow> (\<forall>i \<in> V. \<forall>j < n. link i j \<longrightarrow> j \<in> V)"

text \<open>
  While a component grows, what has been visited since its start is the component and the stack,
  each once; it is reachable from the start, and the links of the component are visited.
\<close>

lemma grow_cluster_invariant:
  assumes "grow_cluster link n stack visited part = (part', visited')"
    and "distinct (part @ stack)" and "visited = old \<union> set part \<union> set stack" and "old \<inter> (set part \<union> set stack) = {}"
    and "set part \<union> set stack \<subseteq> reach" and "\<And>i j. i \<in> reach \<Longrightarrow> j < n \<Longrightarrow> link i j \<Longrightarrow> j \<in> reach"
    and "\<And>i j. i \<in> set part \<Longrightarrow> j < n \<Longrightarrow> link i j \<Longrightarrow> j \<in> visited"
  shows "distinct part' \<and> visited' = old \<union> set part' \<and> old \<inter> set part' = {} \<and> set part \<union> set stack \<subseteq> set part' \<and>
    set part' \<subseteq> reach \<and> (\<forall>i \<in> set part'. \<forall>j < n. link i j \<longrightarrow> j \<in> visited')"
  using assms
proof (induction link n stack visited part rule: grow_cluster.induct)
  case (1 link n visited component)
  then have e: "part' = component" "visited' = visited" by auto
  have "\<forall>i \<in> set component. \<forall>j < n. link i j \<longrightarrow> j \<in> visited" using "1.prems"(7) by blast
  moreover have "distinct component" "visited = old \<union> set component" "old \<inter> set component = {}"
    "set component \<subseteq> reach" using "1.prems"(2-5) by simp_all
  ultimately show ?case unfolding e by simp
next
  case (2 link n idx stack visited component)
  define found where "found = filter (\<lambda>j. j \<notin> visited \<and> link idx j) [0..<n]"
  have found: "distinct found" "set found = {j. j < n \<and> j \<notin> visited \<and> link idx j}"
    by (auto simp: found_def)
  have run: "grow_cluster link n (rev found @ stack) (visited \<union> set found) (component @ [idx]) = (part', visited')"
    using "2.prems"(1) by (simp add: found_def Let_def)
  have "distinct ((component @ [idx]) @ rev found @ stack)"
    using "2.prems"(2,3) found by auto
  moreover have "visited \<union> set found = old \<union> set (component @ [idx]) \<union> set (rev found @ stack)"
    using "2.prems"(3) by auto
  moreover have "old \<inter> (set (component @ [idx]) \<union> set (rev found @ stack)) = {}"
    using "2.prems"(3,4) found(2) by auto
  moreover have "set (component @ [idx]) \<union> set (rev found @ stack) \<subseteq> reach"
    using "2.prems"(5,6) found(2) by auto
  moreover have "j \<in> visited \<union> set found" if "i \<in> set (component @ [idx])" "j < n" "link i j" for i j
    using that "2.prems"(7) found(2) by auto
  ultimately show ?case
    using "2.IH" [OF found_def run] "2.prems"(6) by auto
qed

text \<open>Started at a point outside a union of components, the search finds the point's component.\<close>

lemma grow_cluster_component:
  assumes sym: "\<And>i j. link i j = link j i" and start: "start < n" "start \<notin> old"
    and closed: "link_closed link n old"
    and run: "grow_cluster link n [start] (insert start old) [] = (part, visited)"
  shows "distinct part" "set part = (link_graph link n)\<^sup>* `` {start}" "visited = old \<union> set part"
    "old \<inter> set part = {}" "link_closed link n visited"
proof -
  let ?reach = "(link_graph link n)\<^sup>* `` {start}"
  have lt: "i < n" if "(start, i) \<in> (link_graph link n)\<^sup>*" for i
    using that start(1) by (induction rule: rtrancl_induct) (auto simp: link_graph_def)
  have step: "j \<in> ?reach" if "i \<in> ?reach" "j < n" "link i j" for i j
  proof -
    have "(i, j) \<in> link_graph link n" using that lt [of i] by (simp add: link_graph_def)
    then show ?thesis using that(1) by (auto intro: rtrancl_into_rtrancl)
  qed
  have inv: "distinct part \<and> visited = old \<union> set part \<and> old \<inter> set part = {} \<and> set [] \<union> set [start] \<subseteq> set part \<and>
      set part \<subseteq> ?reach \<and> (\<forall>i \<in> set part. \<forall>j < n. link i j \<longrightarrow> j \<in> visited)"
    by (rule grow_cluster_invariant [OF run]) (use start step in auto)
  then show "distinct part" "visited = old \<union> set part" "old \<inter> set part = {}" by auto
  show "link_closed link n visited"
    using inv closed unfolding link_closed_def by blast
  have "i \<in> set part" if "(start, i) \<in> (link_graph link n)\<^sup>*" for i
    using that
  proof (induction rule: rtrancl_induct)
    case base
    then show ?case using inv by simp
  next
    case (step i j)
    then have ij: "i < n" "j < n" "link i j" by (auto simp: link_graph_def)
    then have "j \<in> visited" using step.IH inv by blast
    moreover have "j \<notin> old" using closed ij sym [of i j] step.IH inv unfolding link_closed_def by blast
    ultimately show ?case using inv by blast
  qed
  then show "set part = ?reach" using inv by auto
qed

lemma cluster_components_are_components:
  assumes sym: "\<And>i j. link i j = link j i" and "set starts \<subseteq> {..<n}"
    and "link_closed link n visited"
  shows "distinct (concat (cluster_components link n starts visited)) \<and>
    set (concat (cluster_components link n starts visited)) \<inter> visited = {} \<and>
    set ` set (cluster_components link n starts visited) =
      (\<lambda>i. (link_graph link n)\<^sup>* `` {i}) ` (set starts - visited)"
  using assms(2,3)
proof (induction starts arbitrary: visited)
  case (Cons start starts)
  show ?case
  proof (cases "start \<in> visited")
    case True
    then have e: "cluster_components link n (start # starts) visited = cluster_components link n starts visited"
      "set (start # starts) - visited = set starts - visited" by auto
    show ?thesis unfolding e by (rule Cons.IH) (use Cons.prems in auto)
  next
    case False
    obtain part visited' where run: "grow_cluster link n [start] (insert start visited) [] = (part, visited')"
      by fastforce
    note g = grow_cluster_component [OF sym _ False Cons.prems(2) run]
    have lt: "start < n" using Cons.prems(1) by simp
    note g = g [OF lt]
    let ?rest = "cluster_components link n starts visited'"
    let ?R = "(link_graph link n)\<^sup>*"
    have ih: "distinct (concat ?rest) \<and> set (concat ?rest) \<inter> visited' = {} \<and>
        set ` set ?rest = (\<lambda>i. ?R `` {i}) ` (set starts - visited')"
      by (rule Cons.IH) (use Cons.prems(1) g(5) in auto)
    have same: "?R `` {i} = ?R `` {start}" if "i \<in> set part" for i
    proof -
      have "(start, i) \<in> ?R" using that g(2) by auto
      moreover have "(i, start) \<in> ?R" by (rule link_graph_sym [OF sym calculation])
      ultimately show ?thesis by (auto intro: rtrancl_trans)
    qed
    have start: "start \<in> set part" using g(2) by auto
    let ?new = "set (start # starts) \<inter> set part"
    have "set (start # starts) - visited = ?new \<union> (set starts - visited')"
      using g(3,4) start by auto
    moreover have "(\<lambda>i. ?R `` {i}) ` ?new = (\<lambda>_. set part) ` ?new"
    proof (rule image_cong [OF refl])
      fix i
      assume "i \<in> ?new"
      then have "i \<in> set part" by (rule IntD2)
      then show "?R `` {i} = set part" unfolding g(2) by (rule same [unfolded g(2)])
    qed
    moreover have "(\<lambda>_. set part) ` ?new = {set part}"
      using start by (intro image_constant [of start]) simp
    ultimately have "(\<lambda>i. ?R `` {i}) ` (set (start # starts) - visited) =
        insert (set part) ((\<lambda>i. ?R `` {i}) ` (set starts - visited'))"
      by (simp only: image_Un insert_is_Un [symmetric])
    moreover have disj: "set (concat ?rest) \<inter> (visited \<union> set part) = {}" using ih g(3) by argo
    then have "distinct (concat (part # ?rest))"
      using ih g(1) unfolding concat.simps distinct_append by blast
    moreover have "set (concat (part # ?rest)) \<inter> visited = {}"
      using disj g(4) unfolding concat.simps set_append by blast
    ultimately show ?thesis using run False ih by simp
  qed
qed simp

section \<open>A crowd event needs a crowd that lasted\<close>

type_synonym frame = "track_state list \<times> int"

definition frame_clusters :: "crowd_config \<Rightarrow> zone_config \<Rightarrow> frame \<Rightarrow> crowd_cluster list" where
  "frame_clusters p z fr = find_crowd_clusters (fst fr) p (zc_polygon z) (frame_time (fst fr) (snd fr))"

fun crowd_run ::
  "frame list \<Rightarrow> crowd_rule \<Rightarrow> cooldowns \<Rightarrow> security_event list \<times> crowd_rule \<times> cooldowns" where
  "crowd_run [] r c = ([], r, c)"
| "crowd_run (fr # frs) r c =
     (let (es, r1, c1) = crowd_evaluate r (fst fr) (snd fr) c; (es2, r2, c2) = crowd_run frs r1 c1
      in (es @ es2, r2, c2))"

text \<open>
  The frames with the latest first: a group has been a crowd since a time when there is a chain of
  clusters, one in each frame from that time on, that starts with a cluster of the minimal size,
  never shrinks to the exit size, and keeps a member from each frame to the next.
\<close>

inductive crowd_since :: "crowd_config \<Rightarrow> zone_config \<Rightarrow> frame list \<Rightarrow> int \<Rightarrow> int set \<Rightarrow> bool" for p z where
  begins: "cl \<in> set (frame_clusters p z fr) \<Longrightarrow> cw_min_person_count p \<le> int (card (cl_members cl)) \<Longrightarrow>
    crowd_since p z (fr # past) (frame_time (fst fr) (snd fr)) (cl_members cl)"
| continues: "crowd_since p z past since M \<Longrightarrow> cl \<in> set (frame_clusters p z fr) \<Longrightarrow>
    cw_exit_person_count p < int (card (cl_members cl)) \<Longrightarrow> M \<inter> cl_members cl \<noteq> {} \<Longrightarrow>
    crowd_since p z (fr # past) since (cl_members cl)"

lemma best_match_Some:
  "best_match members matched d best best_overlap = Some cid \<Longrightarrow> 0 \<le> best_overlap \<Longrightarrow>
   best = Some cid \<or> (cid \<notin> matched \<and> (\<exists>st. (cid, st) \<in> set d \<and> 0 < card (members \<inter> cs_members st)))"
proof (induction members matched d best best_overlap rule: best_match.induct)
  case (2 members matched cid' st rest best best_overlap)
  then show ?case by (auto simp: Let_def split: if_splits)
qed (auto split: if_splits)

lemma match_cluster_Some:
  assumes "match_cluster r members matched = Some cid" and "dict_ok (cr_clusters r)"
    and "dget (cr_clusters r) cid = Some st"
  shows "cid \<notin> matched" "cs_members st \<inter> members \<noteq> {}"
proof -
  obtain st' where st: "cid \<notin> matched" "(cid, st') \<in> set (cr_clusters r)" "0 < card (members \<inter> cs_members st')"
    using best_match_Some [OF assms(1) [unfolded match_cluster_def]] by auto
  moreover have "st' = st" using in_dictD [OF assms(2) st(2)] assms(3) by simp
  ultimately show "cid \<notin> matched" "cs_members st \<inter> members \<noteq> {}"
    by (auto simp: card_gt_0_iff)
qed

text \<open>Every cluster that counts as a crowd has its chain: up to the frame for the matched ones.\<close>

definition crowd_states_ok ::
  "crowd_config \<Rightarrow> zone_config \<Rightarrow> frame list \<Rightarrow> frame list \<Rightarrow> int set \<Rightarrow> (int, crowd_state) dict \<Rightarrow> bool" where
  "crowd_states_ok p z past now matched d \<longleftrightarrow>
     dict_ok d \<and>
     (\<forall>cid st. dget d cid = Some st \<longrightarrow> cs_is_crowd st \<longrightarrow>
        crowd_since p z (if cid \<in> matched then now else past) (cs_since_ts st) (cs_members st))"

lemma crowd_transition_since:
  assumes "cl \<in> set (frame_clusters p z fr)" and "cs_is_crowd (crowd_transition p (frame_time (fst fr) (snd fr)) st)"
    and "cs_members st = cl_members cl"
    and "cs_is_crowd st \<Longrightarrow> crowd_since p z past (cs_since_ts st) M \<and> M \<inter> cl_members cl \<noteq> {}"
  shows "crowd_since p z (fr # past) (cs_since_ts (crowd_transition p (frame_time (fst fr) (snd fr)) st))
    (cs_members (crowd_transition p (frame_time (fst fr) (snd fr)) st))"
  using assms by (auto simp: crowd_transition_def Let_def not_le split: if_splits intro: begins continues)

definition crowd_event_ok :: "crowd_config \<Rightarrow> zone_config \<Rightarrow> frame list \<Rightarrow> int \<Rightarrow> security_event \<Rightarrow> bool" where
  "crowd_event_ok p z frames now e \<longleftrightarrow>
     (\<exists>M. crowd_since p z frames (se_start_ts_ms e) M \<and>
        pget (se_payload e) ''person_count'' = PInt (int (card M))) \<and>
     cw_min_duration_ms p \<le> now - se_start_ts_ms e"

lemma crowd_step_since:
  assumes ok: "crowd_states_ok p z past (fr # past) matched (cr_clusters r)" and p: "p = cr_params r"
    and cl: "cl \<in> set (frame_clusters p z fr)"
    and es: "\<forall>e \<in> set es. crowd_event_ok p z (fr # past) (frame_time (fst fr) (snd fr)) e"
    and step: "crowd_step i (frame_time (fst fr) (snd fr)) cl (r, matched, c, es) = (r1, matched1, c1, es1)"
  shows "crowd_states_ok p z past (fr # past) matched1 (cr_clusters r1) \<and> cr_params r1 = p \<and>
    (\<forall>e \<in> set es1. crowd_event_ok p z (fr # past) (frame_time (fst fr) (snd fr)) e)"
proof -
  let ?now = "frame_time (fst fr) (snd fr)"
  obtain cid prev st next_id where r1: "r1 = r\<lparr>cr_clusters := dset cid st (cr_clusters r), cr_next_cluster_id := next_id\<rparr>"
    and m1: "matched1 = insert cid matched"
    and es1: "es1 = es \<or> (es1 = es @ [crowd_event r i ?now cid cl (cs_since_ts st)] \<and> cs_is_crowd st \<and>
      cw_min_duration_ms p \<le> ?now - cs_since_ts st)"
    and st: "st = crowd_transition p ?now (prev\<lparr>cs_members := cl_members cl\<rparr>)"
    and prev: "cs_is_crowd prev \<Longrightarrow> match_cluster r (cl_members cl) matched = Some cid \<and> dget (cr_clusters r) cid = Some prev"
    using step p by (rule_tac i = i and now = ?now and cl = cl and r = r and matched = matched and c = c and es = es
        in crowd_step_cases) (auto split: if_splits)
  have dict: "dict_ok (cr_clusters r)" using ok by (simp add: crowd_states_ok_def)
  have since: "crowd_since p z (fr # past) (cs_since_ts st) (cs_members st)" if "cs_is_crowd st"
    unfolding st
  proof (rule crowd_transition_since [OF cl])
    assume "cs_is_crowd (prev\<lparr>cs_members := cl_members cl\<rparr>)"
    then have "match_cluster r (cl_members cl) matched = Some cid" "dget (cr_clusters r) cid = Some prev"
      "cs_is_crowd prev" using prev by simp_all
    note m = this match_cluster_Some [OF this(1) dict this(2)]
    have "crowd_since p z (if cid \<in> matched then fr # past else past) (cs_since_ts prev) (cs_members prev)"
      using ok m(2,3) unfolding crowd_states_ok_def by blast
    then show "crowd_since p z past (cs_since_ts (prev\<lparr>cs_members := cl_members cl\<rparr>)) (cs_members prev) \<and>
        cs_members prev \<inter> cl_members cl \<noteq> {}"
      using m(4,5) by simp
  qed (use that st in simp_all)
  have "crowd_states_ok p z past (fr # past) matched1 (cr_clusters r1)"
    using ok since by (simp add: crowd_states_ok_def r1 m1 dict_simps)
  moreover have members: "cs_members st = cl_members cl"
    by (simp add: st crowd_transition_def Let_def)
  have "crowd_event_ok p z (fr # past) ?now (crowd_event r i ?now cid cl (cs_since_ts st))"
    if "cs_is_crowd st" "cw_min_duration_ms p \<le> ?now - cs_since_ts st"
    using since [OF that(1)] that(2) members
    by (auto simp: crowd_event_ok_def crowd_event_fields intro!: exI [of _ "cl_members cl"])
  then have "\<forall>e \<in> set es1. crowd_event_ok p z (fr # past) ?now e" using es1 es by auto
  ultimately show ?thesis using p by (simp add: r1)
qed

lemma crowd_evaluate_since:
  assumes run: "crowd_evaluate r (fst fr) (snd fr) c = (es, r', c')" and en: "rc_enabled (rb_config (cr_base r))"
    and p: "p = cr_params r" and z: "z = rb_zone (cr_base r)"
    and ok: "crowd_states_ok p z past past {} (cr_clusters r)"
  shows "crowd_states_ok p z (fr # past) (fr # past) {} (cr_clusters r')"
    and "\<forall>e \<in> set es. crowd_event_ok p z (fr # past) (frame_time (fst fr) (snd fr)) e"
proof -
  let ?now = "frame_time (fst fr) (snd fr)"
  let ?good = "\<lambda>es. \<forall>e \<in> set es. crowd_event_ok p z (fr # past) ?now e"
  let ?P = "\<lambda>(r1 :: crowd_rule, m, c1 :: cooldowns, es :: security_event list).
    crowd_states_ok p z past (fr # past) m (cr_clusters r1) \<and> cr_params r1 = p \<and> ?good es"
  have "crowd_states_ok p z (fr # past) (fr # past) {} (cr_clusters r') \<and> ?good es"
  proof (cases "fst fr = []")
    case True
    then show ?thesis using run by (auto simp: crowd_evaluate_def crowd_states_ok_def)
  next
    case False
    then obtain r1 matched where loop: "fold (crowd_step (frame_identity (fst fr)) ?now) (frame_clusters p z fr) (r, {}, c, []) =
        (r1, matched, c', es)" "r' = r1\<lparr>cr_clusters := filter (\<lambda>(cid, _). cid \<in> matched) (cr_clusters r1)\<rparr>"
      using crowd_evaluate_loop [OF run en] p z by (auto simp: frame_clusters_def)
    have "?P (fold (crowd_step (frame_identity (fst fr)) ?now) (frame_clusters p z fr) (r, {}, c, []))"
    proof (rule fold_invariant [where Q = "\<lambda>cl. cl \<in> set (frame_clusters p z fr)"])
      show "?P (r, {}, c, [])" using ok p by (simp add: crowd_states_ok_def)
      fix cl s
      assume cl: "cl \<in> set (frame_clusters p z fr)" and s: "?P s"
      obtain r1 m c1 es1 where s': "s = (r1, m, c1, es1)" by (cases s)
      obtain r2 m2 c2 es2 where step: "crowd_step (frame_identity (fst fr)) ?now cl s = (r2, m2, c2, es2)"
        by (cases "crowd_step (frame_identity (fst fr)) ?now cl s")
      show "?P (crowd_step (frame_identity (fst fr)) ?now cl s)"
        unfolding step prod.case
        by (rule crowd_step_since [OF _ _ cl]) (use s s' step in auto)
    qed simp
    then have "crowd_states_ok p z past (fr # past) matched (cr_clusters r1)" "?good es"
      using loop(1) by auto
    then show ?thesis
      by (auto simp: loop(2) crowd_states_ok_def dget_filter split: option.splits if_splits)
  qed
  then show "crowd_states_ok p z (fr # past) (fr # past) {} (cr_clusters r')" "?good es" by blast+
qed

lemma crowd_run_since:
  assumes "crowd_run frames r c = (es, r1, c1)" and "rc_enabled (rb_config (cr_base r))"
    and "crowd_states_ok (cr_params r) (rb_zone (cr_base r)) past past {} (cr_clusters r)"
  shows "cr_base r1 = cr_base r \<and> cr_params r1 = cr_params r \<and>
    crowd_states_ok (cr_params r) (rb_zone (cr_base r)) (rev frames @ past) (rev frames @ past) {} (cr_clusters r1)"
  using assms
proof (induction frames arbitrary: r c es past)
  case (Cons fr frames)
  obtain es1 r' c' where one: "crowd_evaluate r (fst fr) (snd fr) c = (es1, r', c')"
    by (cases "crowd_evaluate r (fst fr) (snd fr) c")
  obtain es2 where rest: "crowd_run frames r' c' = (es2, r1, c1)"
    using Cons.prems(1) one by (auto split: prod.splits)
  have kept: "cr_base r' = cr_base r" "cr_params r' = cr_params r"
    using crowd_evaluate_granted [OF one] by simp_all
  have "crowd_states_ok (cr_params r') (rb_zone (cr_base r')) (fr # past) (fr # past) {} (cr_clusters r')"
    using crowd_evaluate_since(1) [OF one Cons.prems(2) refl refl Cons.prems(3)] kept by simp
  from Cons.IH [OF rest _ this] Cons.prems(2) kept show ?case by simp
qed simp

section \<open>Properties\<close>

text \<open>
  the clusters of a frame are exactly the connected components of the proximity links: every
  person is in one cluster, once, and two people are in the same cluster if and only if a chain of
  links joins them.
\<close>

theorem clusters_are_components:
  "let n = length points; link = proximity_link points eps_px heights eps_height_ratio;
       components = cluster_components link n [0..<n] {}
   in cluster_by_proximity points eps_px heights eps_height_ratio = map (cluster_of points) components \<and>
      distinct (concat components) \<and>
      set ` set components = (\<lambda>i. (link_graph link n)\<^sup>* `` {i}) ` {..<n}"
proof -
  let ?link = "proximity_link points eps_px heights eps_height_ratio"
  let ?cs = "cluster_components ?link (length points) [0..<length points] {}"
  have "distinct (concat ?cs) \<and> set (concat ?cs) \<inter> {} = {} \<and>
      set ` set ?cs = (\<lambda>i. (link_graph ?link (length points))\<^sup>* `` {i}) ` (set [0..<length points] - {})"
    by (rule cluster_components_are_components [OF proximity_link_sym])
      (auto simp: link_closed_def)
  then show ?thesis by (simp add: cluster_by_proximity_def atLeast0LessThan Let_def)
qed

text \<open>
  C32: a crowd event is justified by the frames: after any frames with a fresh rule, from the event's
  start time to the frame of the event there is a chain of clusters, one per frame, that starts at
  the minimal size, stays above the exit size, keeps a member from frame to frame and ends with the
  number of people that the event reports, and it lasted the minimal duration.
\<close>

theorem crowd_event_sustained:
  assumes "cr_clusters r = []" and "crowd_run frames r c = (es, r1, c1)"
    and "crowd_evaluate r1 (fst fr) (snd fr) c1 = (es1, r2, c2)" and "e \<in> set es1"
  shows "\<exists>M. crowd_since (cr_params r) (rb_zone (cr_base r)) (fr # rev frames) (se_start_ts_ms e) M \<and>
    pget (se_payload e) ''person_count'' = PInt (int (card M)) \<and>
    cw_min_duration_ms (cr_params r) \<le> frame_time (fst fr) (snd fr) - se_start_ts_ms e"
proof -
  have en1: "rc_enabled (rb_config (cr_base r1))"
  proof (rule ccontr)
    assume "\<not> rc_enabled (rb_config (cr_base r1))"
    then have "es1 = []" using crowd.disabled [OF assms(3)] by blast
    with assms(4) show False by simp
  qed
  have kept: "cr_base r1 = cr_base r" using assms(2)
  proof (induction frames arbitrary: r c es)
    case (Cons fr frames)
    then show ?case using crowd_evaluate_granted by (fastforce split: prod.splits)
  qed simp
  with en1 have en: "rc_enabled (rb_config (cr_base r))" by simp
  have "crowd_states_ok (cr_params r) (rb_zone (cr_base r)) [] [] {} (cr_clusters r)"
    by (simp add: crowd_states_ok_def assms(1))
  from crowd_run_since [OF assms(2) en this]
  have "cr_params r1 = cr_params r"
    "crowd_states_ok (cr_params r) (rb_zone (cr_base r)) (rev frames) (rev frames) {} (cr_clusters r1)"
    by simp_all
  with crowd_evaluate_since(2) [OF assms(3) en1, of "cr_params r" "rb_zone (cr_base r)" "rev frames"] assms(4) kept
  show ?thesis by (auto simp: crowd_event_ok_def)
qed

definition example_crowd_rule :: crowd_rule where
  "example_crowd_rule =
     \<lparr>cr_base = \<lparr>rb_config = rule_config_default\<lparr>rc_name := ''rule''\<rparr>, rb_zone = \<lparr>zc_name = ''gate'', zc_polygon = []\<rparr>\<rparr>,
      cr_params = \<lparr>cw_min_person_count = 2, cw_exit_person_count = 1, cw_min_duration_ms = 1000, cw_eps_px = Fin 5,
        cw_require_in_zone = True, cw_cooldown_s = 60, cw_max_track_age_ms = 1000, cw_eps_height_ratio = Fin 0\<rparr>,
      cr_clusters = [], cr_next_cluster_id = 1\<rparr>"

definition example_people :: "int \<Rightarrow> track_state list" where
  "example_people ts =
     map (\<lambda>k. \<lparr>ts_track_id = k, ts_observations = [example_observation k ts (of_int k) 0],
               ts_first_seen_ms = ts, ts_last_seen_ms = ts\<rparr>) [1, 2]"

lemma example_clusters:
  "0 < ts \<Longrightarrow> find_crowd_clusters (example_people ts) (cr_params example_crowd_rule) [] ts =
     [\<lparr>cl_members = {1, 2}, cl_centroid = (5 / 2, 2)\<rparr>]"
proof -
  assume ts: "0 < ts"
  let ?points = "[(1, (2, 2)), (2, (3, 2))] :: (int \<times> point) list"
  have "proximity_link ?points (Fin 5) hs (Fin 0) i j" if "i < 2" "j < 2" for hs i j
    using that by (auto simp: proximity_link_def less_Suc_eq numeral_2_eq_2 Let_def)
  moreover have "cluster_components link 2 [0..<2] {} = [[0, 1]]" if "\<And>i j. i < 2 \<Longrightarrow> j < 2 \<Longrightarrow> link i j" for link
    using that [of 0 1] by (simp add: numeral_2_eq_2 Let_def)
  ultimately have "cluster_components (proximity_link ?points (Fin 5) hs (Fin 0)) 2 [0..<2] {} = [[0, 1]]" for hs
    by blast
  moreover have "length ?points = 2" by simp
  ultimately have "cluster_by_proximity ?points (Fin 5) hs (Fin 0) = map (cluster_of ?points) [[0, 1]]" for hs
    unfolding cluster_by_proximity_def by metis
  then have "cluster_by_proximity ?points (Fin 5) hs (Fin 0) = [\<lparr>cl_members = {1, 2}, cl_centroid = (5 / 2, 2)\<rparr>]" for hs
    by (simp add: cluster_of_def)
  then show ?thesis
    using ts by (simp add: find_crowd_clusters_def crowd_tracks_def present_tracks_def example_people_def
        example_crowd_rule_def example_observation_def last_box_def foot_point_def Let_def)
qed

lemma example_crowd_frames:
  "\<exists>r1. crowd_evaluate example_crowd_rule (example_people 1000) 1000 [] = ([], r1, []) \<and>
    (\<exists>e r2 c2. crowd_evaluate r1 (example_people 2000) 2000 [] = ([e], r2, c2) \<and> se_start_ts_ms e = 1000)"
proof -
  have now: "frame_time tr 1000 = 1000" "frame_time tr 2000 = 2000" for tr by (simp_all add: frame_time_def)
  have en: "rc_enabled (rb_config (cr_base example_crowd_rule))" "zc_polygon (rb_zone (cr_base example_crowd_rule)) = []"
    "example_people ts \<noteq> []" "cr_clusters example_crowd_rule = []" for ts
    by (simp_all add: example_crowd_rule_def rule_config_default_def example_people_def)
  have p: "cw_min_person_count (cr_params example_crowd_rule) = 2" "cw_exit_person_count (cr_params example_crowd_rule) = 1"
    "cw_min_duration_ms (cr_params example_crowd_rule) = 1000" "cw_cooldown_s (cr_params example_crowd_rule) = 60"
    by (simp_all add: example_crowd_rule_def)
  show ?thesis
    by (simp add: crowd_evaluate_def now en p example_clusters crowd_step_def match_cluster_def crowd_transition_def
        crowd_event_fields can_emit_def dget_or_def Let_def)
qed

theorem crowd_event_sustained_witness:
  "\<exists>r1 e r2 c2 M. crowd_evaluate example_crowd_rule (example_people 1000) 1000 [] = ([], r1, []) \<and>
    crowd_evaluate r1 (example_people 2000) 2000 [] = ([e], r2, c2) \<and>
    crowd_since (cr_params example_crowd_rule) (rb_zone (cr_base example_crowd_rule))
      [(example_people 2000, 2000), (example_people 1000, 1000)] 1000 M \<and>
    pget (se_payload e) ''person_count'' = PInt (int (card M)) \<and>
    cw_min_duration_ms (cr_params example_crowd_rule) \<le> frame_time (example_people 2000) 2000 - 1000"
proof -
  obtain r1 e r2 c2 where one: "crowd_evaluate example_crowd_rule (example_people 1000) 1000 [] = ([], r1, [])"
    and two: "crowd_evaluate r1 (example_people 2000) 2000 [] = ([e], r2, c2)" and e: "se_start_ts_ms e = 1000"
    using example_crowd_frames by blast
  have "cr_clusters example_crowd_rule = []" by (simp add: example_crowd_rule_def)
  moreover have "crowd_run [(example_people 1000, 1000)] example_crowd_rule [] = ([], r1, [])" using one by simp
  ultimately show ?thesis
    using crowd_event_sustained [of example_crowd_rule "[(example_people 1000, 1000)]" "[]" "[]" r1 "[]"
        "(example_people 2000, 2000)" "[e]" r2 c2 e] one two e by auto
qed

text \<open>
  with a cooldown a frame yields at most one crowd event, however many crowds the zone holds:
  the cooldown is per camera and zone, and the first cluster that qualifies uses it.
\<close>

theorem one_crowd_event_per_frame:
  assumes "crowd_evaluate r tracks f c = (es, r', c')" and "0 < cw_cooldown_s (cr_params r)"
  shows "length es \<le> 1"
proof -
  have "distinct (map (\<lambda>e. crowd_key (se_camera_id e) (se_zone e)) es)"
    by (rule crowd.one_per_key [OF assms])
  moreover have "\<forall>e \<in> set es. crowd_key (se_camera_id e) (se_zone e) =
      crowd_key (fst (frame_identity tracks)) (zc_name (rb_zone (cr_base r)))"
    using crowd_evaluate_granted [OF assms(1)] by simp
  ultimately show ?thesis
    by (cases es; cases "tl es") auto
qed

theorem one_crowd_event_per_frame_witness:
  "\<exists>r1 e r2 c2. crowd_evaluate r1 (example_people 2000) 2000 [] = ([e], r2, c2) \<and> length [e] \<le> 1"
proof -
  obtain r1 e r2 c2 where one: "crowd_evaluate example_crowd_rule (example_people 1000) 1000 [] = ([], r1, [])"
    and two: "crowd_evaluate r1 (example_people 2000) 2000 [] = ([e], r2, c2)"
    using example_crowd_frames by blast
  have "0 < cw_cooldown_s (cr_params r1)"
    using crowd_evaluate_granted [OF one] by (simp add: example_crowd_rule_def)
  from one_crowd_event_per_frame [OF two this] two show ?thesis by blast
qed

text \<open>
  a configuration with the minimal duration both in seconds and in milliseconds reads the number
  of seconds as milliseconds.
\<close>

theorem crowd_seconds_read_as_milliseconds:
  assumes "dget cfg ''min_duration_s'' = Some (PInt s)" and "has_key cfg ''min_duration_ms''"
  shows "crowd_min_duration cfg = Inr s"
  using assms by (simp add: crowd_min_duration_def int_value_def blank_value_def)

theorem crowd_seconds_read_as_milliseconds_witness:
  "crowd_min_duration [(''min_duration_s'', PInt 2), (''min_duration_ms'', PInt 2000)] = Inr 2"
  by (rule crowd_seconds_read_as_milliseconds) (simp_all add: has_key_def)

end
