(* ===== verification/Chasing.thy ===== *)
theory Chasing
  imports FrameRule
begin

text \<open>
  \<open>ChasingRule\<close> of \<^verbatim>\<open>modules/savant_security/custom/rules/chasing.py\<close>: pairs of
  tracks that run close to each other in one direction, one behind the other, are detected in
  every frame, and a pair that persists is reported.
\<close>

section \<open>Configuration\<close>

record chasing_config =
  ch_min_speed_px_s :: pyfloat
  ch_max_distance_px :: pyfloat
  ch_min_cos_alignment :: pyfloat
  ch_speed_ratio_tolerance :: pyfloat
  ch_behind_cos_min :: pyfloat
  ch_velocity_window_ms :: int
  ch_min_pair_duration_ms :: int
  ch_cooldown_s :: int
  ch_max_track_age_ms :: int
  ch_pair_gap_tolerance_ms :: int
  ch_min_normalized_speed :: pyfloat

definition chase_min_duration :: "config \<Rightarrow> int result" where
  "chase_min_duration cfg =
     (let raw = config_alias cfg [''min_pair_duration_s'', ''min_duration_ms'']
      in if has_key cfg ''min_duration_ms'' then int_value raw 1500
         else if raw \<noteq> PNone then py_int (PFloat (flt_times (float_value raw (Fin (3 / 2))) (Fin 1000)))
         else Inr 1500)"

definition chasing_config_from :: "environ \<Rightarrow> config \<Rightarrow> int \<Rightarrow> chasing_config result" where
  "chasing_config_from env cfg fallback_cooldown_s =
     rbind (chase_min_duration cfg)
       (\<lambda>min_duration_ms.
     rbind (rbind (int_value (pget cfg ''velocity_window_ms'') 700) (env_int env ''CHASE_VELOCITY_WINDOW_MS''))
       (\<lambda>window.
     rbind (rbind (env_int env ''CHASE_MIN_DURATION_MS'' min_duration_ms) (env_int env ''CHASE_MIN_PAIR_DURATION_MS''))
       (\<lambda>duration.
     rbind (rbind (int_value (pget cfg ''cooldown_s'') (cooldown_or fallback_cooldown_s 30))
              (env_int env ''CHASE_COOLDOWN_S''))
       (\<lambda>cooldown_s.
     rbind (rbind (int_value (pget cfg ''max_track_age_ms'') 1000) (env_int env ''CHASE_MAX_TRACK_AGE_MS''))
       (\<lambda>age.
     rbind (rbind (int_value (pget cfg ''pair_gap_tolerance_ms'') 500) (env_int env ''CHASE_PAIR_GAP_TOLERANCE_MS''))
       (\<lambda>gap.
     Inr \<lparr>ch_min_speed_px_s = env_float env ''CHASE_MIN_SPEED_PX_S''
            (float_value (pget cfg ''min_speed_px_s'') (Fin 120)),
          ch_max_distance_px = env_float env ''CHASE_MAX_DISTANCE_PX''
            (env_float env ''CHASE_MAX_PAIR_DISTANCE_PX''
              (float_value (config_alias cfg [''max_distance_px'', ''max_pair_distance_px'']) (Fin 220))),
          ch_min_cos_alignment = env_float env ''CHASE_MIN_COS_ALIGNMENT''
            (float_value (pget cfg ''min_cos_alignment'') (Fin 0.8)),
          ch_speed_ratio_tolerance = env_float env ''CHASE_SPEED_RATIO_TOLERANCE''
            (float_value (pget cfg ''speed_ratio_tolerance'') (Fin 0.6)),
          ch_behind_cos_min = env_float env ''CHASE_BEHIND_COS_MIN''
            (float_value (pget cfg ''behind_cos_min'') (Fin 0.5)),
          ch_velocity_window_ms = window,
          ch_min_pair_duration_ms = duration,
          ch_cooldown_s = cooldown_s,
          ch_max_track_age_ms = age,
          ch_pair_gap_tolerance_ms = gap,
          ch_min_normalized_speed = env_float env ''CHASE_MIN_NORMALIZED_SPEED''
            (float_value (pget cfg ''min_normalized_speed'') (Fin 0))\<rparr>))))))"

section \<open>Pairs of a frame\<close>

record kinematics =
  kn_track_id :: int
  kn_position :: point
  kn_velocity :: point
  kn_speed_px_s :: real
  kn_normalized_speed :: real

record chase_pair =
  cp_leader_track_id :: int
  cp_follower_track_id :: int
  cp_distance_px :: real
  cp_alignment :: real
  cp_leader_speed_px_s :: real
  cp_follower_speed_px_s :: real

definition track_kinematics :: "track_state \<Rightarrow> int \<Rightarrow> kinematics option" where
  "track_kinematics t window =
     (let obs = ts_observations t
      in if length obs < 2 then None
         else
           (let final = last obs; start = window_start obs window;
                dt_ms = po_timestamp_ms final - po_timestamp_ms start
            in if dt_ms \<le> 0 then None
               else
                 (let (x0, y0) = foot_point (po_bbox start); (x1, y1) = foot_point (po_bbox final);
                      vx = (x1 - x0) / of_int dt_ms * 1000; vy = (y1 - y0) / of_int dt_ms * 1000;
                      speed = hypot vx vy; height = bb_height (po_bbox final)
                  in Some \<lparr>kn_track_id = ts_track_id t, kn_position = (x1, y1), kn_velocity = (vx, vy),
                           kn_speed_px_s = speed,
                           kn_normalized_speed = (if 0 < height then speed / height else 0)\<rparr>)))"

definition fast_enough :: "chasing_config \<Rightarrow> kinematics \<Rightarrow> bool" where
  "fast_enough p kin \<longleftrightarrow>
     \<not> flt_less (Fin (kn_speed_px_s kin)) (ch_min_speed_px_s p) \<and>
     \<not> (flt_less (Fin 0) (ch_min_normalized_speed p) \<and>
        flt_less (Fin (kn_normalized_speed kin)) (ch_min_normalized_speed p))"

definition cos_between :: "point \<Rightarrow> point \<Rightarrow> real" where
  "cos_between a b =
     (let norm_a = hypot (fst a) (snd a); norm_b = hypot (fst b) (snd b)
      in if norm_a = 0 \<or> norm_b = 0 then 0 else (fst a * fst b + snd a * snd b) / (norm_a * norm_b))"

definition mean_heading :: "kinematics \<Rightarrow> kinematics \<Rightarrow> point" where
  "mean_heading left right =
     ((fst (kn_velocity left) + fst (kn_velocity right)) / 2, (snd (kn_velocity left) + snd (kn_velocity right)) / 2)"

definition offset_to :: "kinematics \<Rightarrow> kinematics \<Rightarrow> point" where
  "offset_to a b = (fst (kn_position b) - fst (kn_position a), snd (kn_position b) - snd (kn_position a))"

definition chase_pair_of :: "chasing_config \<Rightarrow> kinematics \<Rightarrow> kinematics \<Rightarrow> chase_pair option" where
  "chase_pair_of p left right =
     (let distance = hypot (fst (kn_position left) - fst (kn_position right)) (snd (kn_position left) - snd (kn_position right));
          alignment = cos_between (kn_velocity left) (kn_velocity right);
          faster = max (kn_speed_px_s left) (kn_speed_px_s right);
          slower = min (kn_speed_px_s left) (kn_speed_px_s right);
          behind_alignment = cos_between (offset_to left right) (mean_heading left right)
      in if flt_less (ch_max_distance_px p) (Fin distance) then None
         else if flt_less (Fin alignment) (ch_min_cos_alignment p) then None
         else if 0 < faster \<and> flt_less (ch_speed_ratio_tolerance p) (Fin ((faster - slower) / faster)) then None
         else if flt_less (Fin \<bar>behind_alignment\<bar>) (ch_behind_cos_min p) then None
         else
           (let (leader, follower) = (if 0 < behind_alignment then (right, left) else (left, right))
            in Some \<lparr>cp_leader_track_id = kn_track_id leader, cp_follower_track_id = kn_track_id follower,
                     cp_distance_px = distance, cp_alignment = alignment,
                     cp_leader_speed_px_s = kn_speed_px_s leader, cp_follower_speed_px_s = kn_speed_px_s follower\<rparr>))"

fun chase_pairs_among :: "chasing_config \<Rightarrow> kinematics list \<Rightarrow> chase_pair list" where
  "chase_pairs_among p [] = []"
| "chase_pairs_among p (left # rest) = List.map_filter (chase_pair_of p left) rest @ chase_pairs_among p rest"

definition detect_chase_pairs :: "track_state list \<Rightarrow> chasing_config \<Rightarrow> chase_pair list" where
  "detect_chase_pairs tracks p =
     chase_pairs_among p
       (filter (fast_enough p) (List.map_filter (\<lambda>t. track_kinematics t (ch_velocity_window_ms p)) tracks))"

definition pair_key :: "int \<Rightarrow> int \<Rightarrow> int \<times> int" where
  "pair_key a b = (if a \<le> b then (a, b) else (b, a))"

definition key_of_pair :: "chase_pair \<Rightarrow> int \<times> int" where
  "key_of_pair pr = pair_key (cp_leader_track_id pr) (cp_follower_track_id pr)"

section \<open>The rule\<close>

record chasing_rule =
  cg_base :: rule_base
  cg_params :: chasing_config
  cg_pair_since :: "(int \<times> int, int) dict"
  cg_pair_missing_since :: "(int \<times> int, int) dict"

definition chasing_rule_init :: "environ \<Rightarrow> rule_base \<Rightarrow> chasing_rule result" where
  "chasing_rule_init env r =
     rbind (chasing_config_from env (rc_config (rb_config r)) (rc_cooldown_s (rb_config r)))
       (\<lambda>p. Inr \<lparr>cg_base = r, cg_params = p, cg_pair_since = [], cg_pair_missing_since = []\<rparr>)"

definition chase_present_tracks :: "chasing_config \<Rightarrow> track_state list \<Rightarrow> int \<Rightarrow> track_state list" where
  "chase_present_tracks p tracks frame_ts_ms =
     (if ch_max_track_age_ms p \<le> 0 \<or> frame_ts_ms \<le> 0 then tracks
      else filter (\<lambda>t. ts_observations t \<noteq> [] \<and> frame_ts_ms - ts_last_seen_ms t \<le> ch_max_track_age_ms p) tracks)"

definition chase_zone_tracks :: "zone_config \<Rightarrow> track_state list \<Rightarrow> track_state list" where
  "chase_zone_tracks z tracks =
     (if zc_polygon z = [] then tracks
      else filter (\<lambda>t. ts_observations t \<noteq> [] \<and> in_zone z (last (ts_observations t))) tracks)"

definition frame_chase_pairs :: "chasing_config \<Rightarrow> zone_config \<Rightarrow> track_state list \<Rightarrow> int \<Rightarrow> chase_pair list" where
  "frame_chase_pairs p z tracks now = detect_chase_pairs (chase_zone_tracks z (chase_present_tracks p tracks now)) p"

definition chase_cooldown_key :: "string \<Rightarrow> string \<Rightarrow> int \<times> int \<Rightarrow> string" where
  "chase_cooldown_key camera_id zone k =
     camera_id @ '':chasing:'' @ zone @ '':'' @ int_dec (fst k) @ '':'' @ int_dec (snd k)"

definition chase_event ::
  "chasing_rule \<Rightarrow> string \<times> string \<Rightarrow> int \<Rightarrow> chase_pair \<Rightarrow> int \<Rightarrow> security_event" where
  "chase_event r identity now pr started =
     (let cfg = rb_config (cg_base r); zone = zc_name (rb_zone (cg_base r)); aid = rc_algorithm_id cfg;
          k = key_of_pair pr
      in frame_event (cg_base r) identity ''chasing'' (cp_follower_track_id pr) started now
           (min 1 (max (cp_alignment pr) 0))
           (''Track '' @ int_dec (cp_follower_track_id pr) @ '' chasing '' @ int_dec (cp_leader_track_id pr) @
            '' in zone '' @ [CHR 0x27] @ zone @ [CHR 0x27])
           [(''algorithm_id'', PStr (if aid = [] then ''behavior.chasing'' else aid)),
            (''rule_id'', PStr (rc_name cfg)), (''camera_id'', PStr (fst identity)), (''zone_id'', PStr zone),
            (''leader_track_id'', PInt (cp_leader_track_id pr)),
            (''follower_track_id'', PInt (cp_follower_track_id pr)),
            (''member_track_ids'', PList [PInt (fst k), PInt (snd k)]),
            (''distance_px'', PFloat (Fin (cp_distance_px pr))), (''alignment'', PFloat (Fin (cp_alignment pr))),
            (''leader_speed_px_s'', PFloat (Fin (cp_leader_speed_px_s pr))),
            (''follower_speed_px_s'', PFloat (Fin (cp_follower_speed_px_s pr))),
            (''duration_ms'', PInt (now - started))])"

text \<open>The start time of a pair that is present again: kept, unless the pair was missing for too long.\<close>

definition resume_pair :: "int \<Rightarrow> int \<times> int \<Rightarrow> chasing_rule \<Rightarrow> chasing_rule" where
  "resume_pair now k r =
     (let missing_since = dget (cg_pair_missing_since r) k;
          restart = (dget (cg_pair_since r) k = None \<or>
            (case missing_since of None \<Rightarrow> False | Some m \<Rightarrow> ch_pair_gap_tolerance_ms (cg_params r) < now - m))
      in r\<lparr>cg_pair_since := (if restart then dset k now (cg_pair_since r) else cg_pair_since r),
           cg_pair_missing_since := dpop k (cg_pair_missing_since r)\<rparr>)"

text \<open>One pair of the frame, with the pairs that are active so far, the cooldowns and the events.\<close>

definition chase_step ::
  "string \<times> string \<Rightarrow> int \<Rightarrow> chase_pair \<Rightarrow> chasing_rule \<times> (int \<times> int) set \<times> cooldowns \<times> security_event list
     \<Rightarrow> chasing_rule \<times> (int \<times> int) set \<times> cooldowns \<times> security_event list" where
  "chase_step identity now pr = (\<lambda>(r, active, c, events).
     (let p = cg_params r; k = key_of_pair pr;
          r1 = resume_pair now k r;
          started = dget_or (cg_pair_since r1) k now;
          key = chase_cooldown_key (fst identity) (zc_name (rb_zone (cg_base r))) k
      in if now - started < ch_min_pair_duration_ms p then (r1, insert k active, c, events)
         else if \<not> can_emit key now c then (r1, insert k active, c, events)
         else (r1, insert k active, record_emit key (ch_cooldown_s p) now c,
               events @ [chase_event r identity now pr started])))"

text \<open>The loop over the pairs that are not active, one pair at a time.\<close>

definition expire_pair :: "int \<Rightarrow> int \<times> int \<Rightarrow> chasing_rule \<Rightarrow> chasing_rule" where
  "expire_pair now k r =
     (let missing_since = dget_or (cg_pair_missing_since r) k now
      in if ch_pair_gap_tolerance_ms (cg_params r) < now - missing_since
         then r\<lparr>cg_pair_since := dpop k (cg_pair_since r),
                cg_pair_missing_since := dpop k (cg_pair_missing_since r)\<rparr>
         else r\<lparr>cg_pair_missing_since := dset k missing_since (cg_pair_missing_since r)\<rparr>)"

definition chasing_evaluate ::
  "chasing_rule \<Rightarrow> track_state list \<Rightarrow> int \<Rightarrow> cooldowns \<Rightarrow> security_event list \<times> chasing_rule \<times> cooldowns" where
  "chasing_evaluate r tracks frame_ts_ms c =
     (if \<not> rc_enabled (rb_config (cg_base r)) \<or> tracks = []
      then ([], if tracks = [] then r\<lparr>cg_pair_since := [], cg_pair_missing_since := []\<rparr> else r, c)
      else
        (let now = frame_time tracks frame_ts_ms;
             zone_tracks = chase_zone_tracks (rb_zone (cg_base r)) (chase_present_tracks (cg_params r) tracks now);
             pairs = detect_chase_pairs zone_tracks (cg_params r);
             identity = frame_identity (if zone_tracks = [] then tracks else zone_tracks);
             (r1, active, c1, events) = fold (chase_step identity now) pairs (r, {}, c, [])
         in (events, fold (expire_pair now) (filter (\<lambda>k. k \<notin> active) (map fst (cg_pair_since r1))) r1, c1)))"

section \<open>The contract of the rule\<close>

definition chase_event_key :: "security_event \<Rightarrow> string" where
  "chase_event_key e =
     (case pget (se_payload e) ''member_track_ids'' of
        PList [PInt a, PInt b] \<Rightarrow> chase_cooldown_key (se_camera_id e) (se_zone e) (a, b)
      | _ \<Rightarrow> [])"

lemma chase_event_fields:
  "chase_event_key (chase_event r i now pr started) =
     chase_cooldown_key (fst i) (zc_name (rb_zone (cg_base r))) (key_of_pair pr)"
  "se_start_ts_ms (chase_event r i now pr started) = started"
  "se_end_ts_ms (chase_event r i now pr started) = Some now"
  "se_track_id (chase_event r i now pr started) = PInt (cp_follower_track_id pr)"
  "pget (se_payload (chase_event r i now pr started)) ''leader_track_id'' = PInt (cp_leader_track_id pr)"
  by (simp_all add: chase_event_def frame_event_fields chase_event_key_def pget_def dget_or_def Let_def)

lemma resume_pair_kept [simp]:
  "cg_base (resume_pair now k r) = cg_base r" "cg_params (resume_pair now k r) = cg_params r"
  by (simp_all add: resume_pair_def Let_def)

lemma expire_pair_kept [simp]:
  "cg_base (expire_pair now k r) = cg_base r" "cg_params (expire_pair now k r) = cg_params r"
  by (simp_all add: expire_pair_def Let_def)

lemma expire_pairs_kept [simp]:
  "cg_base (fold (expire_pair now) ks r) = cg_base r" "cg_params (fold (expire_pair now) ks r) = cg_params r"
  by (induction ks arbitrary: r) simp_all

lemma chase_step_eq:
  "chase_step i now pr (r, active, c, es) =
     (resume_pair now (key_of_pair pr) r, insert (key_of_pair pr) active,
      if ch_min_pair_duration_ms (cg_params r) \<le>
           now - dget_or (cg_pair_since (resume_pair now (key_of_pair pr) r)) (key_of_pair pr) now \<and>
         can_emit (chase_cooldown_key (fst i) (zc_name (rb_zone (cg_base r))) (key_of_pair pr)) now c
      then (record_emit (chase_cooldown_key (fst i) (zc_name (rb_zone (cg_base r))) (key_of_pair pr))
              (ch_cooldown_s (cg_params r)) now c,
            es @ [chase_event r i now pr
              (dget_or (cg_pair_since (resume_pair now (key_of_pair pr) r)) (key_of_pair pr) now)])
      else (c, es))"
  by (simp add: chase_step_def Let_def not_less)

lemma chase_loop_granted:
  assumes "fold (chase_step i now) prs (r, {}, c, []) = (r1, active, c1, es)"
  shows "cg_base r1 = cg_base r \<and> cg_params r1 = cg_params r \<and>
    granted_in_order (map chase_event_key es) (ch_cooldown_s (cg_params r)) now c = Some c1 \<and>
    (\<forall>e \<in> set es. se_end_ts_ms e = Some now)"
proof -
  let ?P = "\<lambda>(r1 :: chasing_rule, active :: (int \<times> int) set, c1, es :: security_event list).
    cg_base r1 = cg_base r \<and> cg_params r1 = cg_params r \<and>
    granted_in_order (map chase_event_key es) (ch_cooldown_s (cg_params r)) now c = Some c1 \<and>
    (\<forall>e \<in> set es. se_end_ts_ms e = Some now)"
  have "?P (fold (chase_step i now) prs (r, {}, c, []))"
  proof (rule fold_invariant [where Q = "\<lambda>_. True"])
    fix pr s
    assume ok: "?P s"
    obtain r1 m c1 es where s: "s = (r1, m, c1, es)" by (cases s)
    show "?P (chase_step i now pr s)"
      using ok unfolding s chase_step_eq by (auto simp: chase_event_fields granted_append)
  qed simp_all
  with assms show ?thesis by simp
qed

lemma chasing_evaluate_loop:
  assumes "chasing_evaluate r ts f c = (es, r', c')" and "rc_enabled (rb_config (cg_base r))" "ts \<noteq> []"
  obtains i r1 active where
    "fold (chase_step i (frame_time ts f)) (frame_chase_pairs (cg_params r) (rb_zone (cg_base r)) ts (frame_time ts f))
       (r, {}, c, []) = (r1, active, c', es)"
    "r' = fold (expire_pair (frame_time ts f)) (filter (\<lambda>k. k \<notin> active) (map fst (cg_pair_since r1))) r1"
  using assms unfolding chasing_evaluate_def frame_chase_pairs_def Let_def by (auto split: prod.splits)

lemma chasing_evaluate_granted:
  assumes run: "chasing_evaluate r ts f c = (es, r', c')"
  shows "cg_base r' = cg_base r \<and> cg_params r' = cg_params r \<and>
    granted_in_order (map chase_event_key es) (ch_cooldown_s (cg_params r)) (frame_time ts f) c = Some c' \<and>
    (\<forall>e \<in> set es. se_end_ts_ms e = Some (frame_time ts f))"
proof (cases "rc_enabled (rb_config (cg_base r)) \<and> ts \<noteq> []")
  case True
  then obtain i r1 active where
    loop: "fold (chase_step i (frame_time ts f)) (frame_chase_pairs (cg_params r) (rb_zone (cg_base r)) ts (frame_time ts f))
       (r, {}, c, []) = (r1, active, c', es)"
    and r': "r' = fold (expire_pair (frame_time ts f)) (filter (\<lambda>k. k \<notin> active) (map fst (cg_pair_since r1))) r1"
    using chasing_evaluate_loop [OF run] by blast
  show ?thesis using chase_loop_granted [OF loop] by (simp add: r')
next
  case False
  then show ?thesis using run by (auto simp: chasing_evaluate_def)
qed

interpretation chasing: frame_rule chasing_evaluate cg_base "\<lambda>r. ch_cooldown_s (cg_params r)" "\<lambda>_. chase_event_key"
proof unfold_locales
  fix r ts f c es r' c'
  assume run: "chasing_evaluate r ts f c = (es, r', c')"
  note facts = chasing_evaluate_granted [OF run]
  show "granted_in_order (map chase_event_key es) (ch_cooldown_s (cg_params r)) (frame_time ts f) c = Some c'"
    using facts by blast
  show "cg_base r' = cg_base r \<and> ch_cooldown_s (cg_params r') = ch_cooldown_s (cg_params r) \<and>
      chase_event_key = chase_event_key"
    using facts by simp
  show "e \<in> set es \<Longrightarrow> se_end_ts_ms e = Some (frame_time ts f)" for e
    using facts by blast
  show "\<not> rc_enabled (rb_config (cg_base r)) \<or> ts = [] \<Longrightarrow> es = []"
    using run by (auto simp: chasing_evaluate_def)
qed

section \<open>Pairs that chase\<close>

lemma in_map_filter: "y \<in> set (List.map_filter f xs) \<Longrightarrow> \<exists>x \<in> set xs. f x = Some y"
  by (induction xs) (auto simp: List.map_filter_simps split: option.splits)

lemma chase_pairs_among_from:
  "pr \<in> set (chase_pairs_among p ks) \<Longrightarrow> \<exists>a \<in> set ks. \<exists>b \<in> set ks. chase_pair_of p a b = Some pr"
  by (induction ks) (auto simp: List.map_filter_def)

lemma cos_between_pos: "0 < cos_between a b \<longleftrightarrow> 0 < fst a * fst b + snd a * snd b"
proof -
  have z: "hypot x y = 0 \<longleftrightarrow> x = 0 \<and> y = 0" for x y by (simp add: hypot_def sum_power2_eq_zero_iff)
  have n: "0 \<le> hypot x y" for x y by (simp add: hypot_def)
  have "0 < hypot (fst a) (snd a) * hypot (fst b) (snd b) \<longleftrightarrow>
      \<not> (hypot (fst a) (snd a) = 0 \<or> hypot (fst b) (snd b) = 0)"
    using n [of "fst a" "snd a"] n [of "fst b" "snd b"] by (auto simp: less_le)
  then show ?thesis by (auto simp: cos_between_def Let_def zero_less_divide_iff z)
qed

lemma cos_between_neg: "cos_between (- fst a, - snd a) b = - cos_between a b"
proof -
  have "hypot (- x) (- y) = hypot x y" for x y by (simp add: hypot_def)
  then show ?thesis by (simp add: cos_between_def Let_def minus_divide_left)
qed

lemma hypot_swap: "hypot (a - b) (c - d) = hypot (b - a) (d - c)"
  by (simp add: hypot_def power2_eq_square algebra_simps)

text \<open>The leader of a pair is ahead of the follower on their common heading.\<close>

definition ahead_of :: "kinematics \<Rightarrow> kinematics \<Rightarrow> bool" where
  "ahead_of a b \<longleftrightarrow>
     0 < (fst (kn_position a) - fst (kn_position b)) * (fst (kn_velocity a) + fst (kn_velocity b)) +
         (snd (kn_position a) - snd (kn_position b)) * (snd (kn_velocity a) + snd (kn_velocity b))"

lemma ahead_of_cos: "0 < cos_between (offset_to b a) (mean_heading a b) \<longleftrightarrow> ahead_of a b"
proof -
  have half: "0 < x / 2 + y / 2 \<longleftrightarrow> 0 < x + y" for x y :: real
    by linarith
  show ?thesis
    unfolding cos_between_pos by (simp add: offset_to_def mean_heading_def ahead_of_def half)
qed

lemma mean_heading_commute: "mean_heading a b = mean_heading b a"
  by (simp add: mean_heading_def add.commute)

lemma offset_to_swap: "offset_to a b = (- fst (offset_to b a), - snd (offset_to b a))"
  by (simp add: offset_to_def)

lemma chase_pair_of_sound:
  assumes "chase_pair_of p left right = Some pr" and "ch_max_distance_px p = Fin d"
    and "ch_behind_cos_min p = Fin b" and "0 < b"
  obtains l f where "(l = left \<and> f = right) \<or> (l = right \<and> f = left)"
    "cp_leader_track_id pr = kn_track_id l" "cp_follower_track_id pr = kn_track_id f"
    "hypot (fst (kn_position l) - fst (kn_position f)) (snd (kn_position l) - snd (kn_position f)) \<le> d"
    "ahead_of l f"
proof -
  let ?behind = "cos_between (offset_to left right) (mean_heading left right)"
  have far: "hypot (fst (kn_position left) - fst (kn_position right)) (snd (kn_position left) - snd (kn_position right)) \<le> d"
    and behind: "b \<le> \<bar>?behind\<bar>"
    using assms(1-3) by (auto simp: chase_pair_of_def Let_def split: if_splits)
  show ?thesis
  proof (cases "0 < ?behind")
    case True
    then have "cp_leader_track_id pr = kn_track_id right" "cp_follower_track_id pr = kn_track_id left"
      using assms(1) by (auto simp: chase_pair_of_def Let_def split: if_splits)
    moreover have "ahead_of right left"
      using True unfolding ahead_of_cos [symmetric] mean_heading_commute [of right left] .
    ultimately show ?thesis
      using that [of right left] far
        hypot_swap [of "fst (kn_position left)" "fst (kn_position right)" "snd (kn_position left)" "snd (kn_position right)"]
      by simp
  next
    case False
    then have "cp_leader_track_id pr = kn_track_id left" "cp_follower_track_id pr = kn_track_id right"
      using assms(1) by (auto simp: chase_pair_of_def Let_def split: if_splits)
    moreover have "0 < cos_between (offset_to right left) (mean_heading left right)"
      using False behind assms(4) cos_between_neg [of "offset_to left right"] offset_to_swap [of right left] by simp
    then have "ahead_of left right" unfolding ahead_of_cos .
    ultimately show ?thesis using that [of left right] far by simp
  qed
qed

section \<open>Pairs over time\<close>

type_synonym chase_frame = "track_state list \<times> int"

definition chase_frame_time :: "chase_frame \<Rightarrow> int" where
  "chase_frame_time fr = frame_time (fst fr) (snd fr)"

definition chasing_in :: "chasing_config \<Rightarrow> zone_config \<Rightarrow> chase_frame \<Rightarrow> (int \<times> int) set" where
  "chasing_in p z fr = set (map key_of_pair (frame_chase_pairs p z (fst fr) (chase_frame_time fr)))"

text \<open>
  The frames with the latest first: a pair has been chasing since a frame that had it, up to the
  latest frame, which has it too, with gaps that the tolerance allows; or it has been lost since
  the first frame of such a gap.
\<close>

inductive chased and lost
  for p :: chasing_config and z :: zone_config where
  begins: "k \<in> chasing_in p z fr \<Longrightarrow> chased p z (fr # past) k (chase_frame_time fr)"
| continues: "chased p z past k s \<Longrightarrow> k \<in> chasing_in p z fr \<Longrightarrow> chased p z (fr # past) k s"
| returns: "lost p z past k s m \<Longrightarrow> k \<in> chasing_in p z fr \<Longrightarrow>
    chase_frame_time fr - m \<le> ch_pair_gap_tolerance_ms p \<Longrightarrow> chased p z (fr # past) k s"
| loses: "chased p z past k s \<Longrightarrow> k \<notin> chasing_in p z fr \<Longrightarrow> fst fr \<noteq> [] \<Longrightarrow>
    lost p z (fr # past) k s (chase_frame_time fr)"
| stays_lost: "lost p z past k s m \<Longrightarrow> k \<notin> chasing_in p z fr \<Longrightarrow> fst fr \<noteq> [] \<Longrightarrow>
    chase_frame_time fr - m \<le> ch_pair_gap_tolerance_ms p \<Longrightarrow> lost p z (fr # past) k s m"

fun chasing_run ::
  "chase_frame list \<Rightarrow> chasing_rule \<Rightarrow> cooldowns \<Rightarrow> security_event list \<times> chasing_rule \<times> cooldowns" where
  "chasing_run [] r c = ([], r, c)"
| "chasing_run (fr # frs) r c =
     (let (es, r1, c1) = chasing_evaluate r (fst fr) (snd fr) c; (es2, r2, c2) = chasing_run frs r1 c1
      in (es @ es2, r2, c2))"

definition pair_state_ok ::
  "chasing_config \<Rightarrow> zone_config \<Rightarrow> chase_frame list \<Rightarrow> chasing_rule \<Rightarrow> int \<times> int \<Rightarrow> bool" where
  "pair_state_ok p z frames r k \<longleftrightarrow>
     (\<forall>s. dget (cg_pair_since r) k = Some s \<longrightarrow>
        (case dget (cg_pair_missing_since r) k of
           None \<Rightarrow> chased p z frames k s
         | Some m \<Rightarrow> lost p z frames k s m))"

lemma resume_pair_other:
  "j \<noteq> k \<Longrightarrow> pair_state_ok p z frames (resume_pair now k r) j = pair_state_ok p z frames r j"
  by (simp add: pair_state_ok_def resume_pair_def dict_simps Let_def)

lemma resume_pair_again:
  "dget (cg_pair_since r) k = Some s \<Longrightarrow> dget (cg_pair_missing_since r) k = None \<Longrightarrow> resume_pair now k r = r"
  by (simp add: resume_pair_def dpop_absent)

lemma resume_pair_chased:
  assumes "pair_state_ok p z past r k" and "k \<in> chasing_in p z fr" and "p = cg_params r" and "dict_ok (cg_pair_since r)"
  shows "\<exists>s. dget (cg_pair_since (resume_pair (chase_frame_time fr) k r)) k = Some s \<and> chased p z (fr # past) k s \<and>
    dget (cg_pair_missing_since (resume_pair (chase_frame_time fr) k r)) k = None"
  using assms
  by (auto simp: resume_pair_def pair_state_ok_def dict_simps Let_def not_less
      split: option.splits intro: begins continues returns)

lemma resume_pair_dict: "dict_ok (cg_pair_since r) \<Longrightarrow> dict_ok (cg_pair_since (resume_pair now k r))"
  by (simp add: resume_pair_def Let_def)

lemma expire_pair_other:
  "j \<noteq> k \<Longrightarrow> pair_state_ok p z frames (expire_pair now k r) j = pair_state_ok p z frames r j"
  by (simp add: pair_state_ok_def expire_pair_def dict_simps Let_def)

lemma expire_pair_ok:
  assumes "pair_state_ok p z past r k" and "k \<notin> chasing_in p z fr" and "fst fr \<noteq> []" and "p = cg_params r"
  shows "pair_state_ok p z (fr # past) (expire_pair (chase_frame_time fr) k r) k"
  using assms
  by (auto simp: expire_pair_def pair_state_ok_def dict_simps dget_or_def Let_def not_less
      split: option.splits intro: loses stays_lost)

lemma expire_pair_dict: "dict_ok (cg_pair_since r) \<Longrightarrow> dict_ok (cg_pair_since (expire_pair now k r))"
  by (simp add: expire_pair_def Let_def)

lemma expire_pairs_ok:
  assumes "distinct ks" and "\<forall>k \<in> set ks. k \<notin> chasing_in p z fr \<and> pair_state_ok p z past r k" and "fst fr \<noteq> []"
    and "p = cg_params r"
  shows "\<forall>j. pair_state_ok p z (fr # past) (fold (expire_pair (chase_frame_time fr)) ks r) j \<longleftrightarrow>
    (j \<in> set ks \<or> pair_state_ok p z (fr # past) r j)"
  using assms
proof (induction ks arbitrary: r)
  case (Cons k ks)
  let ?r = "expire_pair (chase_frame_time fr) k r"
  have "j \<notin> chasing_in p z fr \<and> pair_state_ok p z past ?r j" if "j \<in> set ks" for j
  proof -
    have "j \<noteq> k" using that Cons.prems(1) by auto
    then show ?thesis using that Cons.prems(2) expire_pair_other [of j k p z past] by simp
  qed
  then have ih: "\<forall>j. pair_state_ok p z (fr # past) (fold (expire_pair (chase_frame_time fr)) ks ?r) j \<longleftrightarrow>
      (j \<in> set ks \<or> pair_state_ok p z (fr # past) ?r j)"
    using Cons.IH [of ?r] Cons.prems by simp
  have "pair_state_ok p z (fr # past) ?r k"
    using expire_pair_ok [of p z past r k fr] Cons.prems by simp
  then have "pair_state_ok p z (fr # past) ?r j \<longleftrightarrow> j = k \<or> pair_state_ok p z (fr # past) r j" for j
    using expire_pair_other [of j k] by (cases "j = k") auto
  then show ?case using ih by auto
qed simp

lemma expire_pairs_dict: "dict_ok (cg_pair_since r) \<Longrightarrow> dict_ok (cg_pair_since (fold (expire_pair now) ks r))"
  by (induction ks arbitrary: r) (simp_all add: expire_pair_dict)

definition chase_event_ok ::
  "chasing_config \<Rightarrow> zone_config \<Rightarrow> chase_frame list \<Rightarrow> chase_frame \<Rightarrow> security_event \<Rightarrow> bool" where
  "chase_event_ok p z past fr e \<longleftrightarrow>
     (\<exists>pr \<in> set (frame_chase_pairs p z (fst fr) (chase_frame_time fr)).
        chased p z (fr # past) (key_of_pair pr) (se_start_ts_ms e) \<and>
        se_track_id e = PInt (cp_follower_track_id pr) \<and>
        pget (se_payload e) ''leader_track_id'' = PInt (cp_leader_track_id pr) \<and>
        ch_min_pair_duration_ms p \<le> chase_frame_time fr - se_start_ts_ms e)"

definition chase_loop_ok ::
  "chasing_config \<Rightarrow> zone_config \<Rightarrow> chase_frame list \<Rightarrow> chase_frame \<Rightarrow>
   chasing_rule \<times> (int \<times> int) set \<times> cooldowns \<times> security_event list \<Rightarrow> bool" where
  "chase_loop_ok p z past fr = (\<lambda>(r, active, c, es).
     cg_params r = p \<and> dict_ok (cg_pair_since r) \<and>
     (\<forall>k. if k \<in> active
          then (\<exists>s. dget (cg_pair_since r) k = Some s \<and> chased p z (fr # past) k s \<and>
                 dget (cg_pair_missing_since r) k = None)
          else pair_state_ok p z past r k) \<and>
     (\<forall>e \<in> set es. chase_event_ok p z past fr e))"

lemma chase_loop_active_pair:
  assumes "chase_loop_ok p z past fr (r, active, c, es)" and "k \<in> active"
  shows "\<exists>s. dget (cg_pair_since r) k = Some s \<and> chased p z (fr # past) k s \<and> dget (cg_pair_missing_since r) k = None"
proof -
  have "if k \<in> active
      then (\<exists>s. dget (cg_pair_since r) k = Some s \<and> chased p z (fr # past) k s \<and> dget (cg_pair_missing_since r) k = None)
      else pair_state_ok p z past r k"
    using assms(1) unfolding chase_loop_ok_def prod.case by blast
  then show ?thesis using assms(2) by simp
qed

lemma chase_loop_idle_pair:
  assumes "chase_loop_ok p z past fr (r, active, c, es)" and "k \<notin> active"
  shows "pair_state_ok p z past r k"
proof -
  have "if k \<in> active
      then (\<exists>s. dget (cg_pair_since r) k = Some s \<and> chased p z (fr # past) k s \<and> dget (cg_pair_missing_since r) k = None)
      else pair_state_ok p z past r k"
    using assms(1) unfolding chase_loop_ok_def prod.case by blast
  then show ?thesis using assms(2) by simp
qed

lemma chase_step_ok:
  assumes ok: "chase_loop_ok p z past fr (r, active, c, es)"
    and pr: "pr \<in> set (frame_chase_pairs p z (fst fr) (chase_frame_time fr))"
  shows "chase_loop_ok p z past fr (chase_step i (chase_frame_time fr) pr (r, active, c, es))"
proof -
  let ?k = "key_of_pair pr"
  let ?now = "chase_frame_time fr"
  let ?r = "resume_pair ?now ?k r"
  have p: "p = cg_params r" and dict: "dict_ok (cg_pair_since r)" using ok by (simp_all add: chase_loop_ok_def)
  have inside: "?k \<in> chasing_in p z fr" using pr by (simp add: chasing_in_def)
  have "\<exists>s. dget (cg_pair_since ?r) ?k = Some s \<and> chased p z (fr # past) ?k s \<and> dget (cg_pair_missing_since ?r) ?k = None"
  proof (cases "?k \<in> active")
    case True
    then obtain s where s: "dget (cg_pair_since r) ?k = Some s" "chased p z (fr # past) ?k s"
      "dget (cg_pair_missing_since r) ?k = None"
      using chase_loop_active_pair [OF ok] by blast
    then show ?thesis using resume_pair_again [OF s(1,3)] by simp
  next
    case False
    then have "pair_state_ok p z past r ?k" using chase_loop_idle_pair [OF ok] by blast
    from resume_pair_chased [OF this inside p dict] show ?thesis .
  qed
  then obtain s where s: "dget (cg_pair_since ?r) ?k = Some s" "chased p z (fr # past) ?k s"
    "dget (cg_pair_missing_since ?r) ?k = None" by blast
  have keep: "if j \<in> insert ?k active
      then (\<exists>s. dget (cg_pair_since ?r) j = Some s \<and> chased p z (fr # past) j s \<and> dget (cg_pair_missing_since ?r) j = None)
      else pair_state_ok p z past ?r j" for j
  proof (cases "j = ?k")
    case True
    then show ?thesis using s by simp
  next
    case False
    have "dget (cg_pair_since ?r) j = dget (cg_pair_since r) j"
      "dget (cg_pair_missing_since ?r) j = dget (cg_pair_missing_since r) j"
      using False by (simp_all add: resume_pair_def dict_simps Let_def)
    moreover have "pair_state_ok p z past ?r j = pair_state_ok p z past r j" by (rule resume_pair_other [OF False])
    moreover have "if j \<in> active
      then (\<exists>s. dget (cg_pair_since r) j = Some s \<and> chased p z (fr # past) j s \<and> dget (cg_pair_missing_since r) j = None)
      else pair_state_ok p z past r j"
      using ok unfolding chase_loop_ok_def prod.case by blast
    ultimately show ?thesis using False by simp
  qed
  have event: "chase_event_ok p z past fr (chase_event r i ?now pr s)" if "ch_min_pair_duration_ms p \<le> ?now - s"
    using pr s(2) that by (auto simp: chase_event_ok_def chase_event_fields)
  have es: "\<forall>e \<in> set es. chase_event_ok p z past fr e" using ok by (simp add: chase_loop_ok_def)
  have since: "dget_or (cg_pair_since ?r) ?k ?now = s" using s(1) by (simp add: dget_or_def)
  obtain c' es' where step: "chase_step i ?now pr (r, active, c, es) = (?r, insert ?k active, c', es')"
    and es': "es' = es \<or> (es' = es @ [chase_event r i ?now pr s] \<and> ch_min_pair_duration_ms p \<le> ?now - s)"
  proof (cases "ch_min_pair_duration_ms (cg_params r) \<le> ?now - s \<and>
      can_emit (chase_cooldown_key (fst i) (zc_name (rb_zone (cg_base r))) ?k) ?now c")
    case True
    then show ?thesis using that p unfolding chase_step_eq since by simp
  next
    case False
    show ?thesis by (rule that [of c es]) (simp_all only: chase_step_eq since if_not_P [OF False] simp_thms)
  qed
  have "\<forall>e \<in> set es'. chase_event_ok p z past fr e" using es' es event by auto
  moreover have "cg_params ?r = p" using p by simp
  ultimately show ?thesis
    unfolding step chase_loop_ok_def prod.case using keep resume_pair_dict [OF dict] by blast
qed

lemma chase_loop_active:
  "fst (snd (fold (chase_step i now) prs (r, active, c, es))) = active \<union> key_of_pair ` set prs"
proof (induction prs arbitrary: r active c es)
  case (Cons pr prs)
  show ?case
    unfolding fold.simps comp_apply chase_step_eq
    by (cases "ch_min_pair_duration_ms (cg_params r) \<le>
           now - dget_or (cg_pair_since (resume_pair now (key_of_pair pr) r)) (key_of_pair pr) now \<and>
         can_emit (chase_cooldown_key (fst i) (zc_name (rb_zone (cg_base r))) (key_of_pair pr)) now c")
      (simp_all add: Cons.IH)
qed simp

definition chasing_ok :: "chasing_config \<Rightarrow> zone_config \<Rightarrow> chase_frame list \<Rightarrow> chasing_rule \<Rightarrow> bool" where
  "chasing_ok p z frames r \<longleftrightarrow> dict_ok (cg_pair_since r) \<and> (\<forall>k. pair_state_ok p z frames r k)"

lemma chasing_evaluate_since:
  assumes run: "chasing_evaluate r (fst fr) (snd fr) c = (es, r', c')" and en: "rc_enabled (rb_config (cg_base r))"
    and p: "p = cg_params r" and z: "z = rb_zone (cg_base r)" and ok: "chasing_ok p z past r"
  shows "chasing_ok p z (fr # past) r'" and "\<forall>e \<in> set es. chase_event_ok p z past fr e"
proof -
  have "chasing_ok p z (fr # past) r' \<and> (\<forall>e \<in> set es. chase_event_ok p z past fr e)"
  proof (cases "fst fr = []")
    case True
    then show ?thesis using run by (auto simp: chasing_evaluate_def chasing_ok_def pair_state_ok_def)
  next
    case False
    let ?prs = "frame_chase_pairs p z (fst fr) (chase_frame_time fr)"
    obtain i r1 active where
      loop: "fold (chase_step i (chase_frame_time fr)) ?prs (r, {}, c, []) = (r1, active, c', es)"
      and r': "r' = fold (expire_pair (chase_frame_time fr)) (filter (\<lambda>k. k \<notin> active) (map fst (cg_pair_since r1))) r1"
      using chasing_evaluate_loop [OF run en False] p z unfolding chase_frame_time_def by blast
    have "chase_loop_ok p z past fr (fold (chase_step i (chase_frame_time fr)) ?prs (r, {}, c, []))"
    proof (rule fold_invariant [where Q = "\<lambda>pr. pr \<in> set ?prs"])
      show "chase_loop_ok p z past fr (r, {}, c, [])" using ok p by (simp add: chase_loop_ok_def chasing_ok_def)
      show "chase_loop_ok p z past fr (chase_step i (chase_frame_time fr) pr s)"
        if "pr \<in> set ?prs" "chase_loop_ok p z past fr s" for pr s
        using chase_step_ok [OF _ that(1)] that(2) by (cases s) auto
    qed
    then have ok1: "chase_loop_ok p z past fr (r1, active, c', es)" by (simp add: loop)
    have active: "active = chasing_in p z fr"
      using chase_loop_active [of i "chase_frame_time fr" ?prs r "{}" c "[]"] loop by (simp add: chasing_in_def)
    let ?ks = "filter (\<lambda>k. k \<notin> active) (map fst (cg_pair_since r1))"
    have p1: "p = cg_params r1" and dict: "dict_ok (cg_pair_since r1)" using ok1 by (simp_all add: chase_loop_ok_def)
    have out: "pair_state_ok p z past r1 k" if "k \<notin> active" for k
      using chase_loop_idle_pair [OF ok1] that by blast
    have ks: "distinct ?ks" using dict by (simp add: dict_ok_def)
    have ks_out: "\<forall>k \<in> set ?ks. k \<notin> chasing_in p z fr \<and> pair_state_ok p z past r1 k" using out active by simp
    note settled = expire_pairs_ok [OF ks ks_out False p1, folded r']
    have "pair_state_ok p z (fr # past) r' k" for k
    proof (cases "k \<in> set ?ks")
      case True
      then show ?thesis using settled by blast
    next
      case False
      have "pair_state_ok p z (fr # past) r1 k"
      proof (cases "k \<in> active")
        case True
        from chase_loop_active_pair [OF ok1 this] show ?thesis by (auto simp: pair_state_ok_def)
      next
        case out: False
        then have "dget (cg_pair_since r1) k = None" using False by (auto simp: map_of_eq_None_iff)
        then show ?thesis by (simp add: pair_state_ok_def)
      qed
      then show ?thesis using settled by blast
    qed
    moreover have "dict_ok (cg_pair_since r')" unfolding r' by (rule expire_pairs_dict [OF dict])
    ultimately show ?thesis using ok1 by (simp add: chasing_ok_def chase_loop_ok_def)
  qed
  then show "chasing_ok p z (fr # past) r'" "\<forall>e \<in> set es. chase_event_ok p z past fr e" by blast+
qed

lemma chasing_run_since:
  assumes "chasing_run frames r c = (es, r1, c1)" and "rc_enabled (rb_config (cg_base r))"
    and "chasing_ok (cg_params r) (rb_zone (cg_base r)) past r"
  shows "cg_base r1 = cg_base r \<and> cg_params r1 = cg_params r \<and>
    chasing_ok (cg_params r) (rb_zone (cg_base r)) (rev frames @ past) r1"
  using assms
proof (induction frames arbitrary: r c es past)
  case (Cons fr frames)
  obtain es1 r' c' where one: "chasing_evaluate r (fst fr) (snd fr) c = (es1, r', c')"
    by (cases "chasing_evaluate r (fst fr) (snd fr) c")
  obtain es2 where rest: "chasing_run frames r' c' = (es2, r1, c1)"
    using Cons.prems(1) one by (auto split: prod.splits)
  have kept: "cg_base r' = cg_base r" "cg_params r' = cg_params r"
    using chasing_evaluate_granted [OF one] by simp_all
  have "chasing_ok (cg_params r') (rb_zone (cg_base r')) (fr # past) r'"
    using chasing_evaluate_since(1) [OF one Cons.prems(2) refl refl Cons.prems(3)] kept by simp
  from Cons.IH [OF rest _ this] Cons.prems(2) kept show ?case by simp
qed simp

lemma chasing_run_base: "chasing_run frames r c = (es, r1, c1) \<Longrightarrow> cg_base r1 = cg_base r"
proof (induction frames arbitrary: r c es)
  case (Cons fr frames)
  obtain es1 r' c' where one: "chasing_evaluate r (fst fr) (snd fr) c = (es1, r', c')"
    by (cases "chasing_evaluate r (fst fr) (snd fr) c")
  obtain es2 where rest: "chasing_run frames r' c' = (es2, r1, c1)"
    using Cons.prems one by (auto split: prod.splits)
  show ?case using Cons.IH [OF rest] chasing_evaluate_granted [OF one] by simp
qed simp

section \<open>Properties\<close>

text \<open>
  a detected pair is two of the tracks that are fast enough and near each other, and the
  leader is ahead of the follower on their common heading.
\<close>

theorem chase_pair_sound:
  assumes "pr \<in> set (detect_chase_pairs tracks p)" and "ch_max_distance_px p = Fin d"
    and "ch_min_speed_px_s p = Fin v" and "ch_behind_cos_min p = Fin b" and "0 < b"
  shows "\<exists>tl tf l f. tl \<in> set tracks \<and> tf \<in> set tracks \<and>
    track_kinematics tl (ch_velocity_window_ms p) = Some l \<and> track_kinematics tf (ch_velocity_window_ms p) = Some f \<and>
    cp_leader_track_id pr = ts_track_id tl \<and> cp_follower_track_id pr = ts_track_id tf \<and>
    v \<le> kn_speed_px_s l \<and> v \<le> kn_speed_px_s f \<and>
    hypot (fst (kn_position l) - fst (kn_position f)) (snd (kn_position l) - snd (kn_position f)) \<le> d \<and>
    ahead_of l f"
proof -
  let ?ks = "filter (fast_enough p) (List.map_filter (\<lambda>t. track_kinematics t (ch_velocity_window_ms p)) tracks)"
  obtain x y where xy: "x \<in> set ?ks" "y \<in> set ?ks" "chase_pair_of p x y = Some pr"
    using assms(1) chase_pairs_among_from [of pr p ?ks] by (auto simp: detect_chase_pairs_def)
  from xy(3) assms(2,4,5) obtain l f where lf: "(l = x \<and> f = y) \<or> (l = y \<and> f = x)"
    "cp_leader_track_id pr = kn_track_id l" "cp_follower_track_id pr = kn_track_id f"
    "hypot (fst (kn_position l) - fst (kn_position f)) (snd (kn_position l) - snd (kn_position f)) \<le> d" "ahead_of l f"
    by (rule chase_pair_of_sound)
  have from_track: "\<exists>t \<in> set tracks. track_kinematics t (ch_velocity_window_ms p) = Some k \<and>
      kn_track_id k = ts_track_id t \<and> v \<le> kn_speed_px_s k" if "k \<in> set ?ks" for k
  proof -
    have "k \<in> set (List.map_filter (\<lambda>t. track_kinematics t (ch_velocity_window_ms p)) tracks)" using that by simp
    then obtain t where t: "t \<in> set tracks" "track_kinematics t (ch_velocity_window_ms p) = Some k"
      using in_map_filter [of k "\<lambda>t. track_kinematics t (ch_velocity_window_ms p)" tracks] by auto
    then have "kn_track_id k = ts_track_id t"
      by (auto simp: track_kinematics_def case_prod_beta Let_def split: if_splits)
    moreover have "v \<le> kn_speed_px_s k" using that assms(3) by (simp add: fast_enough_def)
    ultimately show ?thesis using t by blast
  qed
  have "l \<in> set ?ks" "f \<in> set ?ks" using lf(1) xy by auto
  with from_track lf(2-5) show ?thesis by metis
qed

definition example_chasing :: chasing_rule where
  "example_chasing =
     \<lparr>cg_base = \<lparr>rb_config = rule_config_default\<lparr>rc_name := ''rule''\<rparr>, rb_zone = \<lparr>zc_name = ''gate'', zc_polygon = []\<rparr>\<rparr>,
      cg_params = \<lparr>ch_min_speed_px_s = Fin 120, ch_max_distance_px = Fin 220, ch_min_cos_alignment = Fin 0.8,
        ch_speed_ratio_tolerance = Fin 0.6, ch_behind_cos_min = Fin 0.5, ch_velocity_window_ms = 5000,
        ch_min_pair_duration_ms = 0, ch_cooldown_s = 30, ch_max_track_age_ms = 1000, ch_pair_gap_tolerance_ms = 500,
        ch_min_normalized_speed = Fin 0\<rparr>,
      cg_pair_since = [], cg_pair_missing_since = []\<rparr>"

definition example_runner :: "int \<Rightarrow> real \<Rightarrow> track_state" where
  "example_runner k x =
     \<lparr>ts_track_id = k, ts_observations = [example_observation k 1000 x 0, example_observation k 2000 (x + 200) 0],
      ts_first_seen_ms = 1000, ts_last_seen_ms = 2000\<rparr>"

definition example_pair :: chase_pair where
  "example_pair =
     \<lparr>cp_leader_track_id = 2, cp_follower_track_id = 1, cp_distance_px = 100, cp_alignment = 1,
      cp_leader_speed_px_s = 200, cp_follower_speed_px_s = 200\<rparr>"

lemma hypot_level: "hypot x 0 = \<bar>x\<bar>"
  by (simp add: hypot_def)

lemma example_kinematics:
  "track_kinematics (example_runner k x) 5000 =
     Some \<lparr>kn_track_id = k, kn_position = (x + 201, 2), kn_velocity = (200, 0), kn_speed_px_s = 200, kn_normalized_speed = 100\<rparr>"
  by (simp add: track_kinematics_def example_runner_def window_start_def example_observation_def foot_point_def
      hypot_level Let_def)

lemma example_detected:
  "detect_chase_pairs [example_runner 1 0, example_runner 2 100] (cg_params example_chasing) = [example_pair]"
  by (simp add: detect_chase_pairs_def example_chasing_def List.map_filter_def example_kinematics fast_enough_def
      chase_pair_of_def cos_between_def offset_to_def mean_heading_def hypot_level example_pair_def Let_def)

theorem chase_pair_sound_witness:
  "\<exists>tl tf l f. {tl, tf} \<subseteq> {example_runner 1 0, example_runner 2 100} \<and>
    track_kinematics tl 5000 = Some l \<and> track_kinematics tf 5000 = Some f \<and> ts_track_id tl = 2 \<and> ts_track_id tf = 1 \<and>
    120 \<le> kn_speed_px_s l \<and> 120 \<le> kn_speed_px_s f \<and>
    hypot (fst (kn_position l) - fst (kn_position f)) (snd (kn_position l) - snd (kn_position f)) \<le> 220 \<and> ahead_of l f"
proof -
  have p: "ch_max_distance_px (cg_params example_chasing) = Fin 220" "ch_min_speed_px_s (cg_params example_chasing) = Fin 120"
    "ch_behind_cos_min (cg_params example_chasing) = Fin 0.5" "ch_velocity_window_ms (cg_params example_chasing) = 5000"
    by (simp_all add: example_chasing_def)
  have "example_pair \<in> set (detect_chase_pairs [example_runner 1 0, example_runner 2 100] (cg_params example_chasing))"
    by (simp add: example_detected)
  from chase_pair_sound [OF this p(1-3)]
  obtain tl tf l f where h: "tl \<in> set [example_runner 1 0, example_runner 2 100]" "tf \<in> set [example_runner 1 0, example_runner 2 100]"
    "track_kinematics tl 5000 = Some l" "track_kinematics tf 5000 = Some f"
    "cp_leader_track_id example_pair = ts_track_id tl" "cp_follower_track_id example_pair = ts_track_id tf"
    "120 \<le> kn_speed_px_s l" "120 \<le> kn_speed_px_s f"
    "hypot (fst (kn_position l) - fst (kn_position f)) (snd (kn_position l) - snd (kn_position f)) \<le> 220" "ahead_of l f"
    unfolding p(4) by auto
  from h(1,2,5,6) have "{tl, tf} \<subseteq> {example_runner 1 0, example_runner 2 100}" "ts_track_id tl = 2" "ts_track_id tf = 1"
    by (auto simp: example_pair_def)
  with h(3,4,7-10) show ?thesis by blast
qed

text \<open>
  C33: a chasing event is justified by the frames: after any frames with a fresh rule, the event's
  pair is detected in the frame of the event, it has been chasing since the event's start time with
  gaps no longer than the tolerance, and for at least the minimal duration.
\<close>

theorem chase_event_sustained:
  assumes "cg_pair_since r = []" and "chasing_run frames r c = (es, r1, c1)"
    and "chasing_evaluate r1 (fst fr) (snd fr) c1 = (es1, r2, c2)" and "e \<in> set es1"
  shows "\<exists>pr \<in> set (frame_chase_pairs (cg_params r) (rb_zone (cg_base r)) (fst fr) (chase_frame_time fr)).
    chased (cg_params r) (rb_zone (cg_base r)) (fr # rev frames) (key_of_pair pr) (se_start_ts_ms e) \<and>
    se_track_id e = PInt (cp_follower_track_id pr) \<and>
    ch_min_pair_duration_ms (cg_params r) \<le> chase_frame_time fr - se_start_ts_ms e"
proof -
  have en1: "rc_enabled (rb_config (cg_base r1))"
  proof (rule ccontr)
    assume "\<not> rc_enabled (rb_config (cg_base r1))"
    then have "es1 = []" using chasing.disabled [OF assms(3)] by blast
    with assms(4) show False by simp
  qed
  have kept: "cg_base r1 = cg_base r" by (rule chasing_run_base [OF assms(2)])
  with en1 have en: "rc_enabled (rb_config (cg_base r))" by simp
  have "chasing_ok (cg_params r) (rb_zone (cg_base r)) [] r"
    by (simp add: chasing_ok_def pair_state_ok_def assms(1))
  from chasing_run_since [OF assms(2) en this]
  have "cg_params r1 = cg_params r" "chasing_ok (cg_params r) (rb_zone (cg_base r)) (rev frames) r1" by simp_all
  with chasing_evaluate_since(2) [OF assms(3) en1, of "cg_params r" "rb_zone (cg_base r)" "rev frames"] assms(4) kept
  have "chase_event_ok (cg_params r) (rb_zone (cg_base r)) (rev frames) fr e" by simp
  then show ?thesis unfolding chase_event_ok_def by blast
qed

theorem chase_event_sustained_witness:
  "\<exists>e r2 c2. chasing_evaluate example_chasing [example_runner 1 0, example_runner 2 100] 2000 [] = ([e], r2, c2) \<and>
    (\<exists>pr. chased (cg_params example_chasing) (rb_zone (cg_base example_chasing))
       [([example_runner 1 0, example_runner 2 100], 2000)] (key_of_pair pr) (se_start_ts_ms e) \<and>
     se_track_id e = PInt (cp_follower_track_id pr))"
proof -
  let ?tracks = "[example_runner 1 0, example_runner 2 100]"
  have now: "frame_time ?tracks 2000 = 2000" by (simp add: frame_time_def)
  have base: "rc_enabled (rb_config (cg_base example_chasing))" "zc_polygon (rb_zone (cg_base example_chasing)) = []"
    "ch_max_track_age_ms (cg_params example_chasing) = 1000" "ch_min_pair_duration_ms (cg_params example_chasing) = 0"
    "cg_pair_since example_chasing = []" "cg_pair_missing_since example_chasing = []"
    by (simp_all add: example_chasing_def rule_config_default_def)
  have present: "chase_present_tracks (cg_params example_chasing) ?tracks 2000 = ?tracks"
    by (simp add: chase_present_tracks_def base example_runner_def)
  have zone: "chase_zone_tracks (rb_zone (cg_base example_chasing)) ?tracks = ?tracks"
    by (simp add: chase_zone_tracks_def base)
  have "\<exists>e r2 c2. chasing_evaluate example_chasing ?tracks 2000 [] = ([e], r2, c2)"
    unfolding chasing_evaluate_def now present zone example_detected Let_def
    by (simp add: base chase_step_def resume_pair_def can_emit_def dget_or_def Let_def)
  then obtain e r2 c2 where one: "chasing_evaluate example_chasing ?tracks 2000 [] = ([e], r2, c2)" by blast
  have "chasing_run [] example_chasing [] = ([], example_chasing, [])" by simp
  from chase_event_sustained [OF base(5) this, of "(?tracks, 2000)" "[e]" r2 c2 e] one show ?thesis
    by auto
qed

end
