(* ===== verification/CameraBundle.thy ===== *)
theory CameraBundle
  imports RuleBase
begin

text \<open>
  The loader of the camera configuration,
  \<^verbatim>\<open>modules/savant_security/custom/services/camera_config.py\<close>, with the names of the
  algorithms from \<^verbatim>\<open>services/algorithm_activation.py\<close>.  The parsed YAML document is the
  argument of the loader (reading the file and the YAML parser are not modelled); its keys are
  strings.  The message of an error is its beginning, up to the place where the source prints
  the offending value.
\<close>

section \<open>Algorithm names\<close>

definition behavior_algorithm_ids :: "string list" where
  "behavior_algorithm_ids =
     [''behavior.intrusion'', ''behavior.loitering'', ''behavior.crowd_gathering'', ''behavior.running'',
      ''behavior.chasing'', ''behavior.fall'', ''behavior.wall_climb_suspicious'']"

definition face_rule_algorithm_ids :: "string list" where
  "face_rule_algorithm_ids = [''face.observation'', ''face.watchlist'', ''face.live_search'']"

definition algorithm_id_to_rule_type :: "(string, string) dict" where
  "algorithm_id_to_rule_type =
     [(''behavior.intrusion'', ''intrusion''), (''behavior.loitering'', ''loitering''),
      (''behavior.crowd_gathering'', ''crowd_gathering''), (''behavior.running'', ''running''),
      (''behavior.chasing'', ''chasing''), (''behavior.fall'', ''fall''),
      (''behavior.wall_climb_suspicious'', ''wall_climb'')]"

definition legacy_aliases :: "(string, string) dict" where
  "legacy_aliases =
     [(''intrusion'', ''behavior.intrusion''), (''loitering'', ''behavior.loitering''),
      (''crowd_gathering'', ''behavior.crowd_gathering''), (''running'', ''behavior.running''),
      (''chasing'', ''behavior.chasing''), (''fall'', ''behavior.fall''),
      (''wall_climb'', ''behavior.wall_climb_suspicious''),
      (''wall_climb_suspicious'', ''behavior.wall_climb_suspicious'')]"

definition normalize_algorithm_id :: "string \<Rightarrow> string" where
  "normalize_algorithm_id v = dget_or legacy_aliases v v"

definition behavior_rule_type_for_algorithm_id :: "string \<Rightarrow> string option" where
  "behavior_rule_type_for_algorithm_id v = dget algorithm_id_to_rule_type (normalize_algorithm_id v)"

definition is_behavior_algorithm_id :: "string \<Rightarrow> bool" where
  "is_behavior_algorithm_id v \<longleftrightarrow> normalize_algorithm_id v \<in> set behavior_algorithm_ids"

definition is_face_rule_algorithm_id :: "string \<Rightarrow> bool" where
  "is_face_rule_algorithm_id v \<longleftrightarrow> normalize_algorithm_id v \<in> set face_rule_algorithm_ids"

section \<open>The configuration\<close>

record zone_entry =
  ze_name :: pyval
  ze_type :: string
  ze_points :: "(pyfloat \<times> pyfloat) list"
  ze_payload :: config

record rule_entry =
  re_rule_id :: string
  re_algorithm_id :: string
  re_rule_type :: string
  re_enabled :: bool
  re_config :: config
  re_evidence_policy :: config

record camera_entry =
  ce_camera_id :: string
  ce_source_id :: string
  ce_name :: string
  ce_rtsp_url :: string
  ce_enabled :: bool
  ce_gpu_id :: int
  ce_location :: "string option"
  ce_site_id :: "string option"
  ce_zones :: "(pyval, zone_entry) dict"
  ce_rules :: "(string, rule_entry) dict"
  ce_runtime_epoch_id :: string

record camera_bundle =
  cb_cameras :: "(string, camera_entry) dict"
  cb_by_source_id :: "(string, string) dict"
  cb_runtime_epoch_id :: string

definition bundle_get_camera :: "camera_bundle \<Rightarrow> string \<Rightarrow> camera_entry option" where
  "bundle_get_camera b camera_id = dget (cb_cameras b) camera_id"

definition get_by_source_id :: "camera_bundle \<Rightarrow> string \<Rightarrow> camera_entry option" where
  "get_by_source_id b source_id =
     (case dget (cb_by_source_id b) source_id of
        None \<Rightarrow> None
      | Some camera_id \<Rightarrow> dget (cb_cameras b) camera_id)"

definition bundle_get_zone :: "camera_bundle \<Rightarrow> string \<Rightarrow> string \<Rightarrow> zone_entry option" where
  "bundle_get_zone b camera_id zone_name =
     (case dget (cb_cameras b) camera_id of None \<Rightarrow> None | Some cam \<Rightarrow> dget (ce_zones cam) (PStr zone_name))"

definition bundle_get_rule :: "camera_bundle \<Rightarrow> string \<Rightarrow> string \<Rightarrow> rule_entry option" where
  "bundle_get_rule b camera_id rule_type =
     (case dget (cb_cameras b) camera_id of None \<Rightarrow> None | Some cam \<Rightarrow> dget (ce_rules cam) rule_type)"

definition iter_enabled_cameras :: "camera_bundle \<Rightarrow> camera_entry list" where
  "iter_enabled_cameras b =
     filter ce_enabled
       (List.map_filter (dget (cb_cameras b)) (sorted_strings (map fst (cb_cameras b))))"

section \<open>The loader\<close>

abbreviation config_error :: "string list \<Rightarrow> 'a result" where
  "config_error parts \<equiv> Inl (Value_Error (concat parts))"

definition require_str :: "config \<Rightarrow> string \<Rightarrow> string \<Rightarrow> string result" where
  "require_str raw key camera_id =
     (case pget raw key of
        PStr s \<Rightarrow> if s \<noteq> [] then Inr s
                   else config_error [''cameras.'', camera_id, ''.'', key, '' must be a non-empty string'']
      | _ \<Rightarrow> config_error [''cameras.'', camera_id, ''.'', key, '' must be a non-empty string''])"

definition optional_str :: "config \<Rightarrow> string \<Rightarrow> string \<Rightarrow> string option result" where
  "optional_str raw key camera_id =
     (case pget raw key of
        PNone \<Rightarrow> Inr None
      | PStr s \<Rightarrow> Inr (Some s)
      | _ \<Rightarrow> config_error [''cameras.'', camera_id, ''.'', key, '' must be a string when provided''])"

definition parse_coordinate :: "string \<Rightarrow> pyval \<Rightarrow> pyfloat result" where
  "parse_coordinate spot v =
     (case v of
        PInt i \<Rightarrow> Inr (Fin (of_int i))
      | PFloat x \<Rightarrow> Inr x
      | _ \<Rightarrow> config_error [spot, '' must be a number''])"

definition parse_zone_point :: "string \<Rightarrow> pyval \<Rightarrow> (pyfloat \<times> pyfloat) result" where
  "parse_zone_point spot v =
     (case v of
        PList [x, y] \<Rightarrow>
          rbind (parse_coordinate spot x) (\<lambda>a. rbind (parse_coordinate spot y) (\<lambda>b. Inr (a, b)))
      | _ \<Rightarrow> config_error [spot, '' must be [x, y]''])"

text \<open>A value as a key of a dictionary: equal numbers are one key, a container is not hashable.\<close>

definition hash_key :: "pyval \<Rightarrow> pyval result" where
  "hash_key v =
     (case v of
        PBool b \<Rightarrow> Inr (PInt (if b then 1 else 0))
      | PFloat (Fin x) \<Rightarrow> Inr (if x = of_int (floor x) then PInt (floor x) else v)
      | PList _ \<Rightarrow> Inl Type_Error
      | PDict _ \<Rightarrow> Inl Type_Error
      | _ \<Rightarrow> Inr v)"

definition allowed_zone_types :: "string list" where
  "allowed_zone_types = [''polygon'', ''line'', ''direction_line'']"

definition parse_zone_type :: "string \<Rightarrow> config \<Rightarrow> string result" where
  "parse_zone_type place z =
     (case py_or (pget z ''zone_type'') (pget z ''type'') of
        PStr ztype \<Rightarrow>
          if ztype \<in> set allowed_zone_types then Inr ztype else config_error [place, ''.type must be one of '']
      | _ \<Rightarrow> config_error [place, ''.type must be one of ''])"

definition parse_zone_points :: "string \<Rightarrow> config \<Rightarrow> (pyfloat \<times> pyfloat) list result" where
  "parse_zone_points place z =
     (case dget_or z ''points'' (PList []) of
        PList points_raw \<Rightarrow> rmap (parse_zone_point (place @ ''.points'')) points_raw
      | _ \<Rightarrow> config_error [place, ''.points must be a list''])"

definition check_point_count :: "string \<Rightarrow> string \<Rightarrow> nat \<Rightarrow> unit result" where
  "check_point_count place ztype n =
     (if ztype = ''polygon'' \<and> (n < 3 \<or> 10 < n) then config_error [place, ''.points polygon requires'']
      else if ztype \<in> {''line'', ''direction_line''} \<and> n \<noteq> 2
      then config_error [place, ''.points '', ztype, '' requires exactly 2 points'']
      else Inr ())"

definition parse_zone_payload :: "string \<Rightarrow> config \<Rightarrow> config result" where
  "parse_zone_payload place z =
     (case dget_or z ''payload'' (PDict []) of
        PDict payload \<Rightarrow> Inr payload
      | _ \<Rightarrow> config_error [place, ''.payload must be a mapping when provided''])"

definition parse_zone :: "string \<Rightarrow> string \<Rightarrow> pyval \<Rightarrow> zone_entry result" where
  "parse_zone camera_id zone_name v =
     (let place = concat [''cameras.'', camera_id, ''.zones.'', zone_name]
      in case v of
        PDict z \<Rightarrow>
          rbind (parse_zone_type place z) (\<lambda>ztype.
          rbind (parse_zone_points place z) (\<lambda>points.
          rbind (check_point_count place ztype (length points)) (\<lambda>_.
          rbind (parse_zone_payload place z) (\<lambda>payload.
          Inr \<lparr>ze_name = py_or (pget z ''zone_id'') (PStr zone_name), ze_type = ztype, ze_points = points,
               ze_payload = payload\<rparr>))))
      | _ \<Rightarrow> config_error [place, '' must be a mapping''])"

fun parse_zone_items ::
  "string \<Rightarrow> config \<Rightarrow> (pyval, zone_entry) dict \<Rightarrow> (pyval, zone_entry) dict result" where
  "parse_zone_items camera_id [] zones = Inr zones"
| "parse_zone_items camera_id ((zone_name, v) # rest) zones =
     (if zone_name = [] then config_error [''cameras.'', camera_id, '' has an empty zone name'']
      else
        rbind (parse_zone camera_id zone_name v) (\<lambda>z.
        rbind (hash_key (ze_name z)) (\<lambda>k.
        parse_zone_items camera_id rest (dset k z zones))))"

definition parse_zones :: "string \<Rightarrow> pyval \<Rightarrow> (pyval, zone_entry) dict result" where
  "parse_zones camera_id v =
     (case v of
        PDict d \<Rightarrow> parse_zone_items camera_id d []
      | _ \<Rightarrow> config_error [''cameras.'', camera_id, ''.zones must be a mapping when provided''])"

text \<open>\<open>d.setdefault(k, v)\<close> for its effect.\<close>

definition require_bounded_int :: "string \<Rightarrow> config \<Rightarrow> string \<Rightarrow> int \<Rightarrow> unit result" where
  "require_bounded_int camera_id cfg key least =
     (case pget cfg key of
        PInt i \<Rightarrow> if i < least then config_error [''cameras.'', camera_id, ''.rules.intrusion.'', key, '' must be '']
                  else Inr ()
      | _ \<Rightarrow> config_error [''cameras.'', camera_id, ''.rules.intrusion.'', key, '' must be an integer''])"

definition optional_bool :: "string \<Rightarrow> config \<Rightarrow> string \<Rightarrow> unit result" where
  "optional_bool camera_id cfg key =
     (case dget cfg key of
        None \<Rightarrow> Inr ()
      | Some (PBool b) \<Rightarrow> Inr ()
      | _ \<Rightarrow> config_error [''cameras.'', camera_id, ''.rules.intrusion.'', key, '' must be a boolean when provided''])"

definition validate_intrusion :: "string \<Rightarrow> config \<Rightarrow> (pyval, zone_entry) dict \<Rightarrow> unit result" where
  "validate_intrusion camera_id cfg zones =
     (case pget cfg ''zone'' of
        PStr zone \<Rightarrow>
          (if zone = [] then config_error [''cameras.'', camera_id, ''.rules.intrusion.zone must be a non-empty string'']
           else if dget zones (PStr zone) = None
           then config_error [''cameras.'', camera_id, ''.rules.intrusion.zone references unknown zone_name: '']
           else
             rbind (require_bounded_int camera_id cfg ''min_inside_ms'' 1) (\<lambda>_.
             rbind (require_bounded_int camera_id cfg ''cooldown_s'' 0) (\<lambda>_.
             rbind (case dget_or cfg ''severity'' (PStr ''medium'') of
                      PStr s \<Rightarrow> if s \<in> {''low'', ''medium'', ''high''} then Inr ()
                                else config_error [''cameras.'', camera_id, ''.rules.intrusion.severity must be one of '']
                    | _ \<Rightarrow> config_error [''cameras.'', camera_id, ''.rules.intrusion.severity must be one of ''])
               (\<lambda>_.
             rbind (optional_bool camera_id cfg ''snapshot_required'') (\<lambda>_.
             optional_bool camera_id cfg ''clip_required'')))))
      | _ \<Rightarrow> config_error [''cameras.'', camera_id, ''.rules.intrusion.zone must be a non-empty string''])"

definition rule_entry_config :: "config \<Rightarrow> config" where
  "rule_entry_config r =
     (let cfg0 = (case pget r ''config'' of
                    PDict d \<Rightarrow> d
                  | _ \<Rightarrow> filter (\<lambda>(k, _). k \<notin> {''rule_id'', ''algorithm_id'', ''rule_type'', ''rule_kind'',
                           ''enabled'', ''config'', ''evidence_policy''}) r);
          cfg1 = (if truthy (pget r ''zone_id'')
                  then set_default ''zone'' (pget r ''zone_id'') (set_default ''zone_id'' (pget r ''zone_id'') cfg0)
                  else cfg0);
          cfg2 = (if truthy (pget r ''line_id'') then set_default ''line_id'' (pget r ''line_id'') cfg1 else cfg1)
      in if truthy (pget cfg2 ''zone_id'') then set_default ''zone'' (pget cfg2 ''zone_id'') cfg2 else cfg2)"

definition parse_rule ::
  "(pyval \<Rightarrow> string) \<Rightarrow> string \<Rightarrow> (pyval, zone_entry) dict \<Rightarrow> string \<Rightarrow> pyval \<Rightarrow> rule_entry result" where
  "parse_rule rp camera_id zones rule_key v =
     (case v of
        PDict r \<Rightarrow>
          (let algorithm_id = normalize_algorithm_id
                 (py_str rp (py_or (pget r ''algorithm_id'') (py_or (pget r ''rule_type'') (PStr rule_key))));
               rule_type = py_str rp (py_or (pget r ''rule_type'') (PStr rule_key));
               cfg = rule_entry_config r
           in case py_or (pget r ''evidence_policy'') (PDict []) of
                PDict policy \<Rightarrow>
                  rbind (if algorithm_id = ''behavior.intrusion'' \<or> rule_type = ''intrusion''
                         then validate_intrusion camera_id cfg zones else Inr ())
                    (\<lambda>_. Inr \<lparr>re_rule_id = py_str rp (py_or (pget r ''rule_id'') (PStr rule_key)),
                         re_algorithm_id = algorithm_id, re_rule_type = rule_type,
                         re_enabled = truthy (dget_or r ''enabled'' (PBool True)), re_config = cfg,
                         re_evidence_policy = policy\<rparr>)
              | _ \<Rightarrow> config_error [''cameras.'', camera_id, ''.rules.'', rule_key, ''.evidence_policy must be a mapping''])
      | _ \<Rightarrow> config_error [''cameras.'', camera_id, ''.rules.'', rule_key, '' must be a mapping''])"

fun parse_rule_items ::
  "(pyval \<Rightarrow> string) \<Rightarrow> string \<Rightarrow> (pyval, zone_entry) dict \<Rightarrow> config \<Rightarrow> (string, rule_entry) dict \<Rightarrow>
   (string, rule_entry) dict result" where
  "parse_rule_items rp camera_id zones [] rules = Inr rules"
| "parse_rule_items rp camera_id zones ((rule_key, v) # rest) rules =
     (if rule_key = [] then config_error [''cameras.'', camera_id, '' has an empty rule_type'']
      else
        rbind (parse_rule rp camera_id zones rule_key v) (\<lambda>r.
        parse_rule_items rp camera_id zones rest (dset (re_rule_id r) r rules)))"

definition parse_rules ::
  "(pyval \<Rightarrow> string) \<Rightarrow> string \<Rightarrow> pyval \<Rightarrow> (pyval, zone_entry) dict \<Rightarrow> (string, rule_entry) dict result" where
  "parse_rules rp camera_id v zones =
     (case v of
        PDict d \<Rightarrow> parse_rule_items rp camera_id zones d []
      | _ \<Rightarrow> config_error [''cameras.'', camera_id, ''.rules must be a mapping when provided''])"

definition parse_rtsp_url :: "string \<Rightarrow> config \<Rightarrow> string result" where
  "parse_rtsp_url camera_id raw =
     (case (if pget raw ''rtsp_url'' = PNone
            then (case pget raw ''input'' of PDict d \<Rightarrow> pget d ''rtsp_url'' | _ \<Rightarrow> PNone)
            else pget raw ''rtsp_url'') of
        PStr s \<Rightarrow> if s \<noteq> [] then Inr s
                   else config_error [''cameras.'', camera_id, ''.rtsp_url must be a non-empty string'']
      | _ \<Rightarrow> config_error [''cameras.'', camera_id, ''.rtsp_url must be a non-empty string''])"

definition parse_camera :: "(pyval \<Rightarrow> string) \<Rightarrow> string \<Rightarrow> string \<Rightarrow> config \<Rightarrow> camera_entry result" where
  "parse_camera rp epoch camera_id raw =
     (if camera_id = [] then config_error [''camera_id must be a non-empty string'']
      else
        rbind (require_str raw ''source_id'' camera_id) (\<lambda>source_id.
        rbind (require_str raw ''name'' camera_id) (\<lambda>name.
        rbind (parse_rtsp_url camera_id raw) (\<lambda>rtsp_url.
        rbind (case dget_or raw ''gpu_id'' (PInt 0) of
                 PInt i \<Rightarrow> Inr i
               | _ \<Rightarrow> config_error [''cameras.'', camera_id, ''.gpu_id must be an integer'']) (\<lambda>gpu_id.
        rbind (optional_str raw ''location'' camera_id) (\<lambda>location.
        rbind (optional_str raw ''site_id'' camera_id) (\<lambda>site_id.
        rbind (parse_zones camera_id (dget_or raw ''zones'' (PDict []))) (\<lambda>zones.
        rbind (parse_rules rp camera_id (dget_or raw ''rules'' (PDict [])) zones) (\<lambda>rules.
        Inr \<lparr>ce_camera_id = camera_id, ce_source_id = source_id, ce_name = name, ce_rtsp_url = rtsp_url,
             ce_enabled = truthy (dget_or raw ''enabled'' (PBool True)), ce_gpu_id = gpu_id,
             ce_location = location, ce_site_id = site_id, ce_zones = zones, ce_rules = rules,
             ce_runtime_epoch_id = py_str rp (py_or (pget raw ''runtime_epoch_id'') (PStr epoch))\<rparr>)))))))))"

fun load_cameras :: "(pyval \<Rightarrow> string) \<Rightarrow> config \<Rightarrow> camera_bundle \<Rightarrow> camera_bundle result" where
  "load_cameras rp [] b = Inr b"
| "load_cameras rp ((camera_id, v) # rest) b =
     (case v of
        PDict raw \<Rightarrow>
          rbind (parse_camera rp (cb_runtime_epoch_id b) camera_id raw) (\<lambda>cam.
          if dget (cb_by_source_id b) (ce_source_id cam) \<noteq> None
          then config_error [''duplicate source_id '']
          else load_cameras rp rest
                 (b\<lparr>cb_cameras := dset camera_id cam (cb_cameras b),
                    cb_by_source_id := dset (ce_source_id cam) camera_id (cb_by_source_id b)\<rparr>))
      | _ \<Rightarrow> config_error [''cameras.'', camera_id, '' must be a mapping, got ''])"

definition load_camera_config :: "(pyval \<Rightarrow> string) \<Rightarrow> pyval \<Rightarrow> camera_bundle result" where
  "load_camera_config rp parsed =
     (case (if parsed = PNone then PDict [] else parsed) of
        PDict raw \<Rightarrow>
          (case dget_or raw ''cameras'' (PDict []) of
             PDict cameras \<Rightarrow>
               load_cameras rp cameras
                 \<lparr>cb_cameras = [], cb_by_source_id = [],
                  cb_runtime_epoch_id = py_strip (py_str rp (py_or (pget raw ''runtime_epoch_id'') (PStr [])))\<rparr>
           | _ \<Rightarrow> config_error [[CHR 0x27], ''cameras'', [CHR 0x27], '' must be a mapping, got ''])
      | _ \<Rightarrow> config_error [''top-level YAML must be a mapping, got ''])"

section \<open>What the loader has checked\<close>

lemma parse_zone_items_all:
  "parse_zone_items camera_id items zones = Inr zones' \<Longrightarrow> \<forall>k z. dget zones k = Some z \<longrightarrow> P z \<Longrightarrow>
   (\<And>n v z. parse_zone camera_id n v = Inr z \<Longrightarrow> P z) \<Longrightarrow> \<forall>k z. dget zones' k = Some z \<longrightarrow> P z"
proof (induction camera_id items zones rule: parse_zone_items.induct)
  case (2 camera_id zone_name v rest zones)
  then obtain z k where z: "parse_zone camera_id zone_name v = Inr z" "hash_key (ze_name z) = Inr k"
    "parse_zone_items camera_id rest (dset k z zones) = Inr zones'"
    by (auto simp: rbind_Inr_iff split: if_splits)
  have ne: "zone_name \<noteq> []" using "2.prems"(1) by (auto split: if_splits)
  have "\<forall>j y. dget (dset k z zones) j = Some y \<longrightarrow> P y"
    using "2.prems"(2) "2.prems"(3) [OF z(1)] by (simp add: dict_simps)
  from "2.IH" [OF ne z(3) this "2.prems"(3)] show ?case .
qed simp

lemma parse_rule_items_all:
  "parse_rule_items rp camera_id zones items rules = Inr rules' \<Longrightarrow> \<forall>k r. dget rules k = Some r \<longrightarrow> P k r \<Longrightarrow>
   (\<And>n v r. parse_rule rp camera_id zones n v = Inr r \<Longrightarrow> P (re_rule_id r) r) \<Longrightarrow>
   \<forall>k r. dget rules' k = Some r \<longrightarrow> P k r"
proof (induction rp camera_id zones items rules rule: parse_rule_items.induct)
  case (2 rp camera_id zones rule_key v rest rules)
  then obtain r where r: "parse_rule rp camera_id zones rule_key v = Inr r"
    "parse_rule_items rp camera_id zones rest (dset (re_rule_id r) r rules) = Inr rules'"
    by (auto simp: rbind_Inr_iff split: if_splits)
  have ne: "rule_key \<noteq> []" using "2.prems"(1) by (auto split: if_splits)
  have "\<forall>j y. dget (dset (re_rule_id r) r rules) j = Some y \<longrightarrow> P j y"
    using "2.prems"(2) "2.prems"(3) [OF r(1)] by (simp add: dict_simps)
  from "2.IH" [OF ne r(2) this "2.prems"(3)] show ?case .
qed simp

definition bundle_indexed :: "camera_bundle \<Rightarrow> bool" where
  "bundle_indexed b \<longleftrightarrow>
     (\<forall>cid cam. dget (cb_cameras b) cid = Some cam \<longrightarrow> dget (cb_by_source_id b) (ce_source_id cam) = Some cid)"

lemma load_cameras_all:
  "load_cameras rp items b = Inr b' \<Longrightarrow> bundle_indexed b \<Longrightarrow> \<forall>k c. dget (cb_cameras b) k = Some c \<longrightarrow> P k c \<Longrightarrow>
   (\<And>e k raw c. parse_camera rp e k raw = Inr c \<Longrightarrow> P k c) \<Longrightarrow>
   bundle_indexed b' \<and> (\<forall>k c. dget (cb_cameras b') k = Some c \<longrightarrow> P k c)"
proof (induction rp items b rule: load_cameras.induct)
  case (2 rp camera_id v rest b)
  from "2.prems"(1) obtain raw cam where v: "v = PDict raw"
    and cam: "parse_camera rp (cb_runtime_epoch_id b) camera_id raw = Inr cam"
    and new: "dget (cb_by_source_id b) (ce_source_id cam) = None"
    and rest: "load_cameras rp rest
       (b\<lparr>cb_cameras := dset camera_id cam (cb_cameras b),
          cb_by_source_id := dset (ce_source_id cam) camera_id (cb_by_source_id b)\<rparr>) = Inr b'"
    by (auto simp: rbind_Inr_iff split: pyval.splits if_splits)
  let ?b = "b\<lparr>cb_cameras := dset camera_id cam (cb_cameras b),
    cb_by_source_id := dset (ce_source_id cam) camera_id (cb_by_source_id b)\<rparr>"
  have indexed: "bundle_indexed ?b"
    using "2.prems"(2) new unfolding bundle_indexed_def
    by (simp add: dict_simps) (metis option.distinct(1))
  have all: "\<forall>k c. dget (cb_cameras ?b) k = Some c \<longrightarrow> P k c"
    using "2.prems"(3) "2.prems"(4) [OF cam] by (simp add: dict_simps)
  have "\<not> dget (cb_by_source_id b) (ce_source_id cam) \<noteq> None" using new by simp
  from "2.IH" [OF v this rest indexed all "2.prems"(4)] show ?case .
qed simp

lemma load_camera_config_all:
  assumes "load_camera_config rp parsed = Inr b" and "\<And>e k raw c. parse_camera rp e k raw = Inr c \<Longrightarrow> P k c"
  shows "bundle_indexed b \<and> (\<forall>k c. dget (cb_cameras b) k = Some c \<longrightarrow> P k c)"
proof -
  obtain cameras e where "load_cameras rp cameras \<lparr>cb_cameras = [], cb_by_source_id = [], cb_runtime_epoch_id = e\<rparr> = Inr b"
    using assms(1) by (auto simp: load_camera_config_def split: pyval.splits if_splits)
  then show ?thesis by (rule load_cameras_all) (use assms(2) in \<open>simp_all add: bundle_indexed_def\<close>)
qed

lemma parse_camera_parts:
  assumes "parse_camera rp e camera_id raw = Inr c"
  shows "ce_camera_id c = camera_id" "parse_zones camera_id (dget_or raw ''zones'' (PDict [])) = Inr (ce_zones c)"
    "parse_rules rp camera_id (dget_or raw ''rules'' (PDict [])) (ce_zones c) = Inr (ce_rules c)"
  using assms by (auto simp: parse_camera_def rbind_Inr_iff split: if_splits)

definition zone_entry_ok :: "zone_entry \<Rightarrow> bool" where
  "zone_entry_ok z \<longleftrightarrow>
     ze_type z \<in> set allowed_zone_types \<and>
     (if ze_type z = ''polygon'' then 3 \<le> length (ze_points z) \<and> length (ze_points z) \<le> 10
      else length (ze_points z) = 2)"

lemma check_point_count_ok:
  assumes "check_point_count place t n = Inr u" and "t \<in> set allowed_zone_types"
  shows "if t = ''polygon'' then 3 \<le> n \<and> n \<le> 10 else n = 2"
proof -
  have "t = ''polygon'' \<or> t \<in> {''line'', ''direction_line''}"
    using assms(2) unfolding allowed_zone_types_def by simp
  moreover have "\<not> (t = ''polygon'' \<and> (n < 3 \<or> 10 < n))" "\<not> (t \<in> {''line'', ''direction_line''} \<and> n \<noteq> 2)"
    using assms(1) unfolding check_point_count_def by (metis Inl_Inr_False)+
  ultimately show ?thesis by (metis not_less)
qed

lemma parse_zone_ok:
  assumes "parse_zone camera_id n v = Inr z"
  shows "zone_entry_ok z"
proof -
  obtain d where d: "v = PDict d" using assms by (cases v) (simp_all add: parse_zone_def Let_def)
  from assms [unfolded parse_zone_def Let_def d pyval.case rbind_Inr_iff]
  obtain place t ps u where "parse_zone_type place d = Inr t" "check_point_count place t (length ps) = Inr u"
    "ze_type z = t" "ze_points z = ps" by auto
  note z = this
  from z(1) have t: "t \<in> set allowed_zone_types"
    by (auto simp: parse_zone_type_def split: pyval.splits if_splits)
  from check_point_count_ok [OF z(2) t] t show ?thesis
    unfolding zone_entry_ok_def z(3,4) by (rule conjI [rotated])
qed

definition intrusion_entry_ok :: "(pyval, zone_entry) dict \<Rightarrow> rule_entry \<Rightarrow> bool" where
  "intrusion_entry_ok zones r \<longleftrightarrow>
     (normalize_algorithm_id (re_algorithm_id r) = ''behavior.intrusion'' \<or> re_rule_type r = ''intrusion'' \<longrightarrow>
      (\<exists>zone n secs. pget (re_config r) ''zone'' = PStr zone \<and> dget zones (PStr zone) \<noteq> None \<and>
         pget (re_config r) ''min_inside_ms'' = PInt n \<and> 1 \<le> n \<and>
         pget (re_config r) ''cooldown_s'' = PInt secs \<and> 0 \<le> secs))"

lemma require_bounded_int_ok:
  "require_bounded_int camera_id cfg key least = Inr u \<Longrightarrow> \<exists>i. pget cfg key = PInt i \<and> least \<le> i"
  by (auto simp: require_bounded_int_def not_less split: pyval.splits if_splits)

lemma validate_intrusion_ok:
  assumes "validate_intrusion camera_id cfg zones = Inr u"
  shows "\<exists>zone n secs. pget cfg ''zone'' = PStr zone \<and> dget zones (PStr zone) \<noteq> None \<and>
    pget cfg ''min_inside_ms'' = PInt n \<and> 1 \<le> n \<and> pget cfg ''cooldown_s'' = PInt secs \<and> 0 \<le> secs"
proof -
  obtain zone where zone: "pget cfg ''zone'' = PStr zone" "dget zones (PStr zone) \<noteq> None"
    and n: "\<exists>u. require_bounded_int camera_id cfg ''min_inside_ms'' 1 = Inr u"
    and secs: "\<exists>u. require_bounded_int camera_id cfg ''cooldown_s'' 0 = Inr u"
    using assms by (auto simp: validate_intrusion_def rbind_Inr_iff split: pyval.splits if_splits)
  obtain i where "pget cfg ''min_inside_ms'' = PInt i" "1 \<le> i" using n require_bounded_int_ok by blast
  moreover obtain j where "pget cfg ''cooldown_s'' = PInt j" "0 \<le> j" using secs require_bounded_int_ok by blast
  ultimately show ?thesis using zone by blast
qed

lemma normalize_idempotent: "normalize_algorithm_id (normalize_algorithm_id v) = normalize_algorithm_id v"
proof (cases "dget legacy_aliases v")
  case None
  then show ?thesis by (simp add: normalize_algorithm_id_def dget_or_def)
next
  case (Some w)
  then have "w \<in> set (map snd legacy_aliases)" by (force dest: map_of_SomeD)
  moreover have "list_all (\<lambda>w. dget legacy_aliases w = None) (map snd legacy_aliases)"
    by (simp add: legacy_aliases_def)
  ultimately have "dget legacy_aliases w = None" by (auto simp: list_all_iff)
  then show ?thesis using Some by (simp add: normalize_algorithm_id_def dget_or_def)
qed

lemma parse_rule_ok:
  assumes "parse_rule rp camera_id zones n v = Inr r"
  shows "intrusion_entry_ok zones r"
proof -
  have "re_algorithm_id r = ''behavior.intrusion'' \<or> re_rule_type r = ''intrusion'' \<longrightarrow>
      (\<exists>u. validate_intrusion camera_id (re_config r) zones = Inr u)"
    using assms by (auto simp: parse_rule_def Let_def rbind_Inr_iff split: pyval.splits if_splits)
  moreover have "normalize_algorithm_id (re_algorithm_id r) = re_algorithm_id r"
    using assms normalize_idempotent by (auto simp: parse_rule_def Let_def rbind_Inr_iff split: pyval.splits)
  ultimately have "normalize_algorithm_id (re_algorithm_id r) = ''behavior.intrusion'' \<or> re_rule_type r = ''intrusion'' \<longrightarrow>
      (\<exists>u. validate_intrusion camera_id (re_config r) zones = Inr u)" by simp
  then show ?thesis using validate_intrusion_ok unfolding intrusion_entry_ok_def by blast
qed

lemma parse_camera_ok:
  assumes "parse_camera rp e camera_id raw = Inr c"
  shows "ce_camera_id c = camera_id \<and> (\<forall>k z. dget (ce_zones c) k = Some z \<longrightarrow> zone_entry_ok z) \<and>
    (\<forall>k r. dget (ce_rules c) k = Some r \<longrightarrow> intrusion_entry_ok (ce_zones c) r)"
proof -
  note parts = parse_camera_parts [OF assms]
  have "\<forall>k z. dget (ce_zones c) k = Some z \<longrightarrow> zone_entry_ok z"
    using parts(2) parse_zone_items_all [of camera_id _ "[]" "ce_zones c" zone_entry_ok] parse_zone_ok
    by (auto simp: parse_zones_def split: pyval.splits)
  moreover have "\<forall>k r. dget (ce_rules c) k = Some r \<longrightarrow> intrusion_entry_ok (ce_zones c) r"
    using parts(3) parse_rule_items_all [of rp camera_id "ce_zones c" _ "[]" "ce_rules c" "\<lambda>_. intrusion_entry_ok (ce_zones c)"]
      parse_rule_ok
    by (auto simp: parse_rules_def split: pyval.splits)
  ultimately show ?thesis using parts(1) by blast
qed

section \<open>Properties\<close>

text \<open>
  every camera of a loaded configuration is found by its source id: the sources are distinct and
  the index is complete.
\<close>

theorem cameras_found_by_source:
  assumes "load_camera_config rp parsed = Inr b" and "bundle_get_camera b camera_id = Some cam"
  shows "get_by_source_id b (ce_source_id cam) = Some cam \<and> ce_camera_id cam = camera_id"
proof -
  have "bundle_indexed b \<and> (\<forall>k c. dget (cb_cameras b) k = Some c \<longrightarrow> ce_camera_id c = k)"
    by (rule load_camera_config_all [OF assms(1)]) (rule parse_camera_parts(1))
  then show ?thesis using assms(2) by (auto simp: bundle_indexed_def get_by_source_id_def bundle_get_camera_def)
qed

text \<open>A document with one camera, whose intrusion rule names its zone twice, the second time wrongly.\<close>

definition example_rule_document :: config where
  "example_rule_document =
     [(''zone'', PStr ''gate''), (''zone_id'', PStr ''gat''), (''min_inside_ms'', PInt 1000), (''cooldown_s'', PInt 30)]"

definition example_camera_document :: config where
  "example_camera_document =
     [(''source_id'', PStr ''src''), (''name'', PStr ''door''), (''rtsp_url'', PStr ''rtsp''),
      (''zones'', PDict [(''gate'', PDict [(''type'', PStr ''polygon''),
         (''points'', PList [PList [PInt 0, PInt 0], PList [PInt 9, PInt 0], PList [PInt 9, PInt 9]])])]),
      (''rules'', PDict [(''intrusion'', PDict [(''config'', PDict example_rule_document)])])]"

definition example_document :: pyval where
  "example_document = PDict [(''cameras'', PDict [(''cam'', PDict example_camera_document)])]"

definition example_camera :: camera_entry where
  "example_camera =
     \<lparr>ce_camera_id = ''cam'', ce_source_id = ''src'', ce_name = ''door'', ce_rtsp_url = ''rtsp'', ce_enabled = True,
      ce_gpu_id = 0, ce_location = None, ce_site_id = None,
      ce_zones = [(PStr ''gate'', \<lparr>ze_name = PStr ''gate'', ze_type = ''polygon'',
        ze_points = [(Fin 0, Fin 0), (Fin 9, Fin 0), (Fin 9, Fin 9)], ze_payload = []\<rparr>)],
      ce_rules = [(''intrusion'', \<lparr>re_rule_id = ''intrusion'', re_algorithm_id = ''behavior.intrusion'',
        re_rule_type = ''intrusion'', re_enabled = True, re_config = example_rule_document, re_evidence_policy = []\<rparr>)],
      ce_runtime_epoch_id = []\<rparr>"

lemma example_loaded:
  "load_camera_config rp example_document =
     Inr \<lparr>cb_cameras = [(''cam'', example_camera)], cb_by_source_id = [(''src'', ''cam'')], cb_runtime_epoch_id = []\<rparr>"
proof -
  have zones: "parse_zones ''cam'' (dget_or example_camera_document ''zones'' (PDict [])) = Inr (ce_zones example_camera)"
    by (simp add: example_camera_document_def example_camera_def dget_or_def parse_zones_def parse_zone_def
        parse_zone_type_def parse_zone_points_def parse_zone_payload_def parse_zone_point_def parse_coordinate_def
        check_point_count_def allowed_zone_types_def hash_key_def py_or_def pget_def Let_def)
  have valid: "validate_intrusion ''cam'' example_rule_document (ce_zones example_camera) = Inr ()"
    by (simp add: validate_intrusion_def example_rule_document_def example_camera_def pget_def dget_or_def
        require_bounded_int_def optional_bool_def)
  have cfg: "rule_entry_config [(''config'', PDict example_rule_document)] = example_rule_document"
    by (simp add: rule_entry_config_def pget_def dget_or_def example_rule_document_def set_default_def has_key_def Let_def)
  have rules: "parse_rules rp ''cam'' (dget_or example_camera_document ''rules'' (PDict [])) (ce_zones example_camera) =
      Inr (ce_rules example_camera)"
    by (simp add: example_camera_document_def dget_or_def parse_rules_def parse_rule_def cfg valid py_or_def pget_def
        normalize_algorithm_id_def legacy_aliases_def Let_def) (simp add: example_camera_def)
  have "parse_camera rp [] ''cam'' example_camera_document = Inr example_camera"
    unfolding parse_camera_def zones
    by (simp add: rules)
      (simp add: example_camera_document_def require_str_def parse_rtsp_url_def optional_str_def pget_def dget_or_def
        py_or_def, simp add: example_camera_def)
  then show ?thesis
    by (simp add: load_camera_config_def example_document_def dget_or_def pget_def py_or_def py_strip_def)
      (simp add: example_camera_def)
qed

theorem cameras_found_by_source_witness:
  "\<exists>b. load_camera_config (\<lambda>_. []) example_document = Inr b \<and> bundle_get_camera b ''cam'' = Some example_camera \<and>
    get_by_source_id b ''src'' = Some example_camera \<and> ce_camera_id example_camera = ''cam''"
proof -
  let ?b = "\<lparr>cb_cameras = [(''cam'', example_camera)], cb_by_source_id = [(''src'', ''cam'')], cb_runtime_epoch_id = []\<rparr>"
  have "bundle_get_camera ?b ''cam'' = Some example_camera" by (simp add: bundle_get_camera_def)
  moreover have "ce_source_id example_camera = ''src''" by (simp add: example_camera_def)
  ultimately show ?thesis
    using example_loaded [of "\<lambda>_. []"] cameras_found_by_source [of "\<lambda>_. []" example_document ?b "''cam''" example_camera]
    by metis
qed



end
