(* ===== verification/RuleRuntime.thy ===== *)
theory RuleRuntime
  imports Intrusion Fall Crowd Chasing CameraBundle
begin

text \<open>
  The runtime of the behaviour rules: the registry that builds the rules of a camera
  (\<^verbatim>\<open>rules/registry.py\<close>), the adapter from a loaded camera configuration, and the
  evaluation of a frame (\<^verbatim>\<open>services/rule_runtime.py\<close>).  The rule classes are the
  constructors of a datatype, and their common interfaces are interpretations of the contracts
  of the single-track rules and of the frame rules.  All rules share one cooldown tracker.
\<close>

section \<open>Rules as objects\<close>

datatype track_rule =
    Intrusion_Rule rule_base
  | Loitering_Rule loitering_rule
  | Running_Rule running_rule
  | Fall_Rule fall_rule

datatype multi_rule =
    Crowd_Rule crowd_rule
  | Chasing_Rule chasing_rule

datatype rule_instance =
    Single_Track track_rule
  | Frame_Level multi_rule

fun track_rule_base :: "track_rule \<Rightarrow> rule_base" where
  "track_rule_base (Intrusion_Rule r) = r"
| "track_rule_base (Loitering_Rule r) = lo_base r"
| "track_rule_base (Running_Rule r) = ru_base r"
| "track_rule_base (Fall_Rule r) = fa_base r"

fun track_rule_cooldown_s :: "track_rule \<Rightarrow> int" where
  "track_rule_cooldown_s (Intrusion_Rule r) = rc_cooldown_s (rb_config r)"
| "track_rule_cooldown_s (Loitering_Rule r) = lc_cooldown_s (lo_params r)"
| "track_rule_cooldown_s (Running_Rule r) = rn_cooldown_s (ru_params r)"
| "track_rule_cooldown_s (Fall_Rule r) = fc_cooldown_s (fa_params r)"

text \<open>\<open>rule.evaluate(track)\<close> and \<open>rule.evaluate_frame(tracks, ts)\<close> by the class of the rule.\<close>

fun rule_evaluate :: "track_rule \<Rightarrow> track_state \<Rightarrow> cooldowns \<Rightarrow> security_event option \<times> track_rule \<times> cooldowns" where
  "rule_evaluate (Intrusion_Rule r) t c = (let (e, r1, c1) = intrusion_evaluate r t c in (e, Intrusion_Rule r1, c1))"
| "rule_evaluate (Loitering_Rule r) t c = (let (e, r1, c1) = loitering_evaluate r t c in (e, Loitering_Rule r1, c1))"
| "rule_evaluate (Running_Rule r) t c = (let (e, r1, c1) = running_evaluate r t c in (e, Running_Rule r1, c1))"
| "rule_evaluate (Fall_Rule r) t c = (let (e, r1, c1) = fall_evaluate r t c in (e, Fall_Rule r1, c1))"

fun rule_evaluate_frame ::
  "multi_rule \<Rightarrow> track_state list \<Rightarrow> int \<Rightarrow> cooldowns \<Rightarrow> security_event list \<times> multi_rule \<times> cooldowns" where
  "rule_evaluate_frame (Crowd_Rule r) ts f c = (let (es, r1, c1) = crowd_evaluate r ts f c in (es, Crowd_Rule r1, c1))"
| "rule_evaluate_frame (Chasing_Rule r) ts f c = (let (es, r1, c1) = chasing_evaluate r ts f c in (es, Chasing_Rule r1, c1))"

fun multi_rule_base :: "multi_rule \<Rightarrow> rule_base" where
  "multi_rule_base (Crowd_Rule r) = cr_base r"
| "multi_rule_base (Chasing_Rule r) = cg_base r"

fun multi_rule_cooldown_s :: "multi_rule \<Rightarrow> int" where
  "multi_rule_cooldown_s (Crowd_Rule r) = cw_cooldown_s (cr_params r)"
| "multi_rule_cooldown_s (Chasing_Rule r) = ch_cooldown_s (cg_params r)"

fun multi_event_key :: "multi_rule \<Rightarrow> security_event \<Rightarrow> string" where
  "multi_event_key (Crowd_Rule r) e = crowd_key (se_camera_id e) (se_zone e)"
| "multi_event_key (Chasing_Rule r) e = chase_event_key e"

interpretation any_rule: single_track_rule rule_evaluate track_rule_base track_rule_cooldown_s
proof unfold_locales
  fix r t c eo r' c'
  assume "rule_evaluate r t c = (eo, r', c')"
  then show "track_rule_base r' = track_rule_base r \<and> track_rule_cooldown_s r' = track_rule_cooldown_s r"
    using intrusion.keeps_config loitering.keeps_config running.keeps_config fall.keeps_config
    by (cases r) (fastforce split: prod.splits)+
next
  fix r t c r' c'
  assume "rule_evaluate r t c = (None, r', c')"
  then show "c' = c"
    using intrusion.quiet loitering.quiet running.quiet fall.quiet
    by (cases r) (fastforce split: prod.splits)+
next
  fix r t c e r' c'
  assume run: "rule_evaluate r t c = (Some e, r', c')"
  show "rc_enabled (rb_config (track_rule_base r)) \<and> ts_observations t \<noteq> [] \<and>
      can_emit (cooldown_key (track_rule_base r) t) (ts_last_seen_ms t) c \<and>
      c' = record_emit (cooldown_key (track_rule_base r) t) (track_rule_cooldown_s r) (ts_last_seen_ms t) c \<and>
      se_track_id e = PInt (ts_track_id t) \<and> se_zone e = zc_name (rb_zone (track_rule_base r)) \<and>
      se_end_ts_ms e = Some (ts_last_seen_ms t)"
  proof (cases r)
    case (Intrusion_Rule x)
    then obtain y where "intrusion_evaluate x t c = (Some e, y, c')" using run by (auto split: prod.splits)
    from intrusion.fired [OF this] show ?thesis by (simp add: Intrusion_Rule)
  next
    case (Loitering_Rule x)
    then obtain y where "loitering_evaluate x t c = (Some e, y, c')" using run by (auto split: prod.splits)
    from loitering.fired [OF this] show ?thesis by (simp add: Loitering_Rule)
  next
    case (Running_Rule x)
    then obtain y where "running_evaluate x t c = (Some e, y, c')" using run by (auto split: prod.splits)
    from running.fired [OF this] show ?thesis by (simp add: Running_Rule)
  next
    case (Fall_Rule x)
    then obtain y where "fall_evaluate x t c = (Some e, y, c')" using run by (auto split: prod.splits)
    from fall.fired [OF this] show ?thesis by (simp add: Fall_Rule)
  qed
qed

section \<open>The registry\<close>

type_synonym rule_factory = "environ \<Rightarrow> rule_base \<Rightarrow> rule_instance result"
type_synonym rule_registry = "(string, rule_factory) dict"

definition register_factory :: "string \<Rightarrow> rule_factory \<Rightarrow> rule_registry \<Rightarrow> rule_registry result" where
  "register_factory rule_type factory reg =
     (if rule_type = [] then Inl (Value_Error ''rule_type must be non-empty'')
      else if dget reg rule_type \<noteq> None then Inl (Value_Error (''rule_type already registered: '' @ rule_type))
      else Inr (dset rule_type factory reg))"

definition registry_has :: "rule_registry \<Rightarrow> string \<Rightarrow> bool" where
  "registry_has reg rule_type \<longleftrightarrow> dget reg rule_type \<noteq> None"

definition get_factory :: "rule_registry \<Rightarrow> string \<Rightarrow> rule_factory result" where
  "get_factory reg rule_type =
     (case dget reg rule_type of
        None \<Rightarrow> Inl (Key_Error (''unknown rule_type: '' @ rule_type))
      | Some f \<Rightarrow> Inr f)"

definition known_rule_types :: "rule_registry \<Rightarrow> string list" where
  "known_rule_types reg = sorted_strings (map fst reg)"

definition rule_class ::
  "('r \<Rightarrow> rule_instance) \<Rightarrow> (environ \<Rightarrow> rule_base \<Rightarrow> 'r result) \<Rightarrow> rule_factory" where
  "rule_class wrap init env r = rbind (init env r) (\<lambda>x. Inr (wrap x))"

text \<open>The registry after the import of the rule modules, in the order of their imports.\<close>

definition rule_modules :: "(string \<times> rule_factory) list" where
  "rule_modules =
     [(''intrusion'', rule_class (Single_Track \<circ> Intrusion_Rule) (\<lambda>env r. Inr r)),
      (''loitering'', rule_class (Single_Track \<circ> Loitering_Rule) loitering_rule_init),
      (''running'', rule_class (Single_Track \<circ> Running_Rule) running_rule_init),
      (''fall'', rule_class (Single_Track \<circ> Fall_Rule) fall_rule_init),
      (''crowd_gathering'', rule_class (Frame_Level \<circ> Crowd_Rule) crowd_rule_init),
      (''chasing'', rule_class (Frame_Level \<circ> Chasing_Rule) chasing_rule_init)]"

fun register_all :: "(string \<times> rule_factory) list \<Rightarrow> rule_registry \<Rightarrow> rule_registry result" where
  "register_all [] reg = Inr reg"
| "register_all ((k, f) # rest) reg = rbind (register_factory k f reg) (register_all rest)"

fun build_rules_from ::
  "environ \<Rightarrow> rule_registry \<Rightarrow> camera_config \<Rightarrow> (string, rule_config) dict \<Rightarrow> rule_instance list result" where
  "build_rules_from env reg cam [] = Inr []"
| "build_rules_from env reg cam ((rule_name, cfg) # rest) =
     (if \<not> rc_enabled cfg then build_rules_from env reg cam rest
      else if \<not> registry_has reg (rc_rule_type cfg) then build_rules_from env reg cam rest
      else
        rbind (get_factory reg (rc_rule_type cfg)) (\<lambda>factory.
        rbind (factory env \<lparr>rb_config = cfg, rb_zone = get_zone cam (rc_zone cfg)\<rparr>) (\<lambda>rule.
        rbind (build_rules_from env reg cam rest) (\<lambda>rules. Inr (rule # rules)))))"

definition build_rules :: "environ \<Rightarrow> rule_registry \<Rightarrow> camera_config \<Rightarrow> rule_instance list result" where
  "build_rules env reg cam = build_rules_from env reg cam (cc_rules cam)"

section \<open>From the loaded configuration to the rules\<close>

definition bool_config :: "pyval \<Rightarrow> bool \<Rightarrow> bool" where
  "bool_config v d =
     (case v of
        PNone \<Rightarrow> d
      | PBool b \<Rightarrow> b
      | PStr s \<Rightarrow> py_lower (py_strip s) \<in> {''1'', ''true'', ''yes'', ''on''}
      | _ \<Rightarrow> truthy v)"

text \<open>
  The vertices of a zone are finite in the model: a configuration with an infinite or undefined
  coordinate, for which the geometry has no real numbers, is an error here.
\<close>

definition finite_point :: "pyfloat \<times> pyfloat \<Rightarrow> point result" where
  "finite_point p =
     (case p of (Fin x, Fin y) \<Rightarrow> Inr (x, y) | _ \<Rightarrow> Inl (Value_Error ''coordinate is not finite''))"

text \<open>Zones whose id is not a string are left out: the rules look zones up by strings.\<close>

fun legacy_zones :: "(pyval, zone_entry) dict \<Rightarrow> (string, zone_config) dict result" where
  "legacy_zones [] = Inr []"
| "legacy_zones ((k, z) # rest) =
     rbind (rmap finite_point (ze_points z)) (\<lambda>polygon.
     rbind (legacy_zones rest) (\<lambda>zones.
       Inr (case k of PStr n \<Rightarrow> (n, \<lparr>zc_name = n, zc_polygon = polygon\<rparr>) # zones | _ \<Rightarrow> zones)))"

definition legacy_rule_settings :: "rule_entry \<Rightarrow> config" where
  "legacy_rule_settings r =
     (let cfg = re_config r; policy = re_evidence_policy r;
          cfg1 = dset ''evidence_policy'' (PDict policy) cfg;
          cfg2 = dset ''snapshot_required''
            (PBool (bool_config (pget policy ''snapshot_required'') (bool_config (pget cfg1 ''snapshot_required'') True))) cfg1;
          cfg3 = dset ''clip_required''
            (PBool (bool_config (pget policy ''clip_required'') (bool_config (pget cfg2 ''clip_required'') True))) cfg2
      in if policy = [] then cfg else cfg3)"

definition legacy_rule :: "(pyval \<Rightarrow> string) \<Rightarrow> string \<Rightarrow> rule_entry \<Rightarrow> string \<Rightarrow> rule_config result" where
  "legacy_rule rp rule_id r runtime_rule_type =
     (let cfg = legacy_rule_settings r
      in rbind (py_int (dget_or cfg ''min_inside_ms'' (PInt 1000))) (\<lambda>min_inside_ms.
         rbind (py_int (dget_or cfg ''cooldown_s'' (PInt 30))) (\<lambda>cooldown_s.
         Inr \<lparr>rc_name = rule_id, rc_rule_type = runtime_rule_type,
              rc_zone = py_str rp (py_or (pget cfg ''zone_id'') (py_or (pget cfg ''zone'') (PStr []))),
              rc_enabled = True, rc_min_inside_ms = min_inside_ms, rc_cooldown_s = cooldown_s,
              rc_severity = py_str rp (dget_or cfg ''severity'' (PStr ''medium'')),
              rc_snapshot_required = truthy (dget_or cfg ''snapshot_required'' (PBool True)),
              rc_clip_required = truthy (dget_or cfg ''clip_required'' (PBool True)),
              rc_config = cfg, rc_algorithm_id = re_algorithm_id r\<rparr>)))"

fun legacy_rules :: "(pyval \<Rightarrow> string) \<Rightarrow> (string, rule_entry) dict \<Rightarrow> (string, rule_config) dict result" where
  "legacy_rules rp [] = Inr []"
| "legacy_rules rp ((rule_id, r) # rest) =
     (if \<not> re_enabled r then legacy_rules rp rest
      else if \<not> is_behavior_algorithm_id (re_algorithm_id r) then legacy_rules rp rest
      else
        (case behavior_rule_type_for_algorithm_id (re_algorithm_id r) of
           None \<Rightarrow> legacy_rules rp rest
         | Some rule_type \<Rightarrow>
             rbind (legacy_rule rp rule_id r rule_type) (\<lambda>rule.
             rbind (legacy_rules rp rest) (\<lambda>rules. Inr ((rule_id, rule) # rules)))))"

definition camera_entry_to_legacy_config :: "(pyval \<Rightarrow> string) \<Rightarrow> camera_entry \<Rightarrow> camera_config result" where
  "camera_entry_to_legacy_config rp cam =
     rbind (legacy_zones (ce_zones cam)) (\<lambda>zones.
     rbind (legacy_rules rp (ce_rules cam)) (\<lambda>rules.
     Inr \<lparr>cc_camera_id = ce_camera_id cam, cc_zones = zones, cc_rules = rules\<rparr>))"

record source_runtime =
  sr_source_id :: string
  sr_camera_id :: string
  sr_camera_entry :: camera_entry
  sr_runtime_epoch_id :: string
  sr_single_track_rules :: "track_rule list"
  sr_frame_rules :: "multi_rule list"
  sr_store :: track_store

definition single_track_rules_of :: "rule_instance list \<Rightarrow> track_rule list" where
  "single_track_rules_of rules = List.map_filter (\<lambda>r. case r of Single_Track x \<Rightarrow> Some x | _ \<Rightarrow> None) rules"

definition frame_rules_of :: "rule_instance list \<Rightarrow> multi_rule list" where
  "frame_rules_of rules = List.map_filter (\<lambda>r. case r of Frame_Level x \<Rightarrow> Some x | _ \<Rightarrow> None) rules"

fun build_runtimes ::
  "environ \<Rightarrow> (pyval \<Rightarrow> string) \<Rightarrow> rule_registry \<Rightarrow> string \<Rightarrow> real \<Rightarrow> real \<Rightarrow> camera_entry list \<Rightarrow>
   (string, source_runtime) dict \<Rightarrow> (string, source_runtime) dict result" where
  "build_runtimes env rp reg epoch window timeout [] out = Inr out"
| "build_runtimes env rp reg epoch window timeout (cam # rest) out =
     rbind (camera_entry_to_legacy_config rp cam) (\<lambda>legacy.
     rbind (build_rules env reg legacy) (\<lambda>rules.
     build_runtimes env rp reg epoch window timeout rest
       (if rules = [] then out
        else dset (ce_source_id cam)
          \<lparr>sr_source_id = ce_source_id cam, sr_camera_id = ce_camera_id cam, sr_camera_entry = cam,
           sr_runtime_epoch_id = (if ce_runtime_epoch_id cam = [] then epoch else ce_runtime_epoch_id cam),
           sr_single_track_rules = single_track_rules_of rules, sr_frame_rules = frame_rules_of rules,
           sr_store = track_store_init window timeout\<rparr> out)))"

definition build_per_source_runtime ::
  "environ \<Rightarrow> (pyval \<Rightarrow> string) \<Rightarrow> rule_registry \<Rightarrow> camera_bundle \<Rightarrow> real \<Rightarrow> real \<Rightarrow>
   (string, source_runtime) dict result" where
  "build_per_source_runtime env rp reg bundle window timeout =
     build_runtimes env rp reg (cb_runtime_epoch_id bundle) window timeout (iter_enabled_cameras bundle) []"

section \<open>One frame\<close>

text \<open>An event with its representative track.\<close>

type_synonym rule_evaluation = "security_event \<times> track_state option"

fun evaluate_track_rules ::
  "track_rule list \<Rightarrow> track_state \<Rightarrow> cooldowns \<Rightarrow> security_event list \<times> track_rule list \<times> cooldowns" where
  "evaluate_track_rules [] t c = ([], [], c)"
| "evaluate_track_rules (r # rs) t c =
     (let (eo, r1, c1) = rule_evaluate r t c; (es, rs1, c2) = evaluate_track_rules rs t c1
      in (case eo of None \<Rightarrow> es | Some e \<Rightarrow> e # es, r1 # rs1, c2))"

fun evaluate_tracks ::
  "track_state list \<Rightarrow> track_rule list \<Rightarrow> cooldowns \<Rightarrow> rule_evaluation list \<times> track_rule list \<times> cooldowns" where
  "evaluate_tracks [] rs c = ([], rs, c)"
| "evaluate_tracks (t # ts) rs c =
     (let (es, rs1, c1) = evaluate_track_rules rs t c; (evs, rs2, c2) = evaluate_tracks ts rs1 c1
      in (map (\<lambda>e. (e, Some t)) es @ evs, rs2, c2))"

text \<open>A failed conversion counts as no track; the track ids of the events are integers.\<close>

definition event_track_number :: "security_event \<Rightarrow> int" where
  "event_track_number e =
     (case py_int (py_or (se_track_id e) (PInt 0)) of Inr i \<Rightarrow> i | Inl _ \<Rightarrow> 0)"

definition representative_track_for_event :: "security_event \<Rightarrow> track_state list \<Rightarrow> track_state option" where
  "representative_track_for_event e tracks =
     (if 0 < event_track_number e then find (\<lambda>t. ts_track_id t = event_track_number e) tracks else None)"

fun evaluate_frame_rules ::
  "multi_rule list \<Rightarrow> track_state list \<Rightarrow> int \<Rightarrow> cooldowns \<Rightarrow> rule_evaluation list \<times> multi_rule list \<times> cooldowns" where
  "evaluate_frame_rules [] ts f c = ([], [], c)"
| "evaluate_frame_rules (r # rs) ts f c =
     (let (es, r1, c1) = rule_evaluate_frame r ts f c; (evs, rs1, c2) = evaluate_frame_rules rs ts f c1
      in (map (\<lambda>e. (e, representative_track_for_event e ts)) es @ evs, r1 # rs1, c2))"

definition resolved_frame_ts_ms :: "pose_observation list \<Rightarrow> int option \<Rightarrow> track_state list \<Rightarrow> int" where
  "resolved_frame_ts_ms observations frame_ts_ms tracks =
     (let ts = (case frame_ts_ms of Some n \<Rightarrow> n | None \<Rightarrow> max_timestamp observations)
      in if ts \<le> 0 then (if tracks = [] then 0 else Max (set (map ts_last_seen_ms tracks))) else ts)"

definition evaluate_runtime_frame ::
  "source_runtime \<Rightarrow> pose_observation list \<Rightarrow> int option \<Rightarrow> cooldowns \<Rightarrow>
   rule_evaluation list \<times> source_runtime \<times> cooldowns" where
  "evaluate_runtime_frame rt observations frame_ts_ms c =
     (let store = store_update observations frame_ts_ms (sr_store rt);
          tracks = active_tracks store;
          (single, rules, c1) = evaluate_tracks tracks (sr_single_track_rules rt) c;
          (multi, frame_rules, c2) =
            evaluate_frame_rules (sr_frame_rules rt) tracks (resolved_frame_ts_ms observations frame_ts_ms tracks) c1
      in (single @ multi,
          rt\<lparr>sr_store := store, sr_single_track_rules := rules, sr_frame_rules := frame_rules\<rparr>, c2))"

interpretation any_frame_rule: frame_rule rule_evaluate_frame multi_rule_base multi_rule_cooldown_s multi_event_key
proof unfold_locales
  fix r ts f c es r' c'
  assume run: "rule_evaluate_frame r ts f c = (es, r', c')"
  have "granted_in_order (map (multi_event_key r) es) (multi_rule_cooldown_s r) (frame_time ts f) c = Some c' \<and>
      multi_rule_base r' = multi_rule_base r \<and> multi_rule_cooldown_s r' = multi_rule_cooldown_s r \<and>
      multi_event_key r' = multi_event_key r \<and> (\<forall>e \<in> set es. se_end_ts_ms e = Some (frame_time ts f)) \<and>
      (\<not> rc_enabled (rb_config (multi_rule_base r)) \<or> ts = [] \<longrightarrow> es = [])"
  proof (cases r)
    case (Crowd_Rule x)
    then obtain y where one: "crowd_evaluate x ts f c = (es, y, c')" and r': "r' = Crowd_Rule y"
      using run by (auto split: prod.splits)
    have "multi_event_key (Crowd_Rule y) = multi_event_key (Crowd_Rule x)" by (simp add: fun_eq_iff)
    moreover have "multi_event_key (Crowd_Rule x) = (\<lambda>e. crowd_key (se_camera_id e) (se_zone e))"
      by (simp add: fun_eq_iff)
    ultimately show ?thesis
      using crowd.granted [OF one] crowd.keeps [OF one] crowd.stamped [OF one] crowd.disabled [OF one]
      by (simp add: Crowd_Rule r')
  next
    case (Chasing_Rule x)
    then obtain y where one: "chasing_evaluate x ts f c = (es, y, c')" and r': "r' = Chasing_Rule y"
      using run by (auto split: prod.splits)
    have "multi_event_key (Chasing_Rule y) = multi_event_key (Chasing_Rule x)" by (simp add: fun_eq_iff)
    moreover have "multi_event_key (Chasing_Rule x) = chase_event_key" by (simp add: fun_eq_iff)
    ultimately show ?thesis
      using chasing.granted [OF one] chasing.keeps [OF one] chasing.stamped [OF one] chasing.disabled [OF one]
      by (simp add: Chasing_Rule r')
  qed
  then show "granted_in_order (map (multi_event_key r) es) (multi_rule_cooldown_s r) (frame_time ts f) c = Some c'"
    "multi_rule_base r' = multi_rule_base r \<and> multi_rule_cooldown_s r' = multi_rule_cooldown_s r \<and>
      multi_event_key r' = multi_event_key r"
    "\<And>e. e \<in> set es \<Longrightarrow> se_end_ts_ms e = Some (frame_time ts f)"
    "\<not> rc_enabled (rb_config (multi_rule_base r)) \<or> ts = [] \<Longrightarrow> es = []"
    by blast+
qed

section \<open>The events of a frame\<close>

lemma evaluate_track_rules_granted:
  assumes "evaluate_track_rules rs t c = (es, rs', c')" and "\<forall>r \<in> set rs. 0 < track_rule_cooldown_s r"
  shows "distinct (map se_zone es) \<and>
    (\<forall>e \<in> set es. se_track_id e = PInt (ts_track_id t) \<and>
       (\<exists>r. zc_name (rb_zone (track_rule_base r)) = se_zone e \<and>
          can_emit (cooldown_key (track_rule_base r) t) (ts_last_seen_ms t) c))"
  using assms
proof (induction rs arbitrary: c es rs' c')
  case (Cons r rs)
  let ?now = "ts_last_seen_ms t"
  let ?k = "cooldown_key (track_rule_base r) t"
  obtain eo r1 c1 where one: "rule_evaluate r t c = (eo, r1, c1)" by (cases "rule_evaluate r t c")
  obtain es1 rs1 where rest: "evaluate_track_rules rs t c1 = (es1, rs1, c')"
    and es: "es = (case eo of None \<Rightarrow> es1 | Some e \<Rightarrow> e # es1)"
    using Cons.prems(1) one by (auto split: prod.splits)
  note ih = Cons.IH [OF rest]
  have pos: "\<forall>r \<in> set rs. 0 < track_rule_cooldown_s r" "0 < track_rule_cooldown_s r" using Cons.prems(2) by auto
  show ?case
  proof (cases eo)
    case None
    then show ?thesis using ih [OF pos(1)] any_rule.quiet [of r t c r1 c1] one es by simp
  next
    case (Some e)
    note f = any_rule.fired [OF one [unfolded Some]]
    have other: "se_zone x \<noteq> se_zone e \<and> (\<exists>y. zc_name (rb_zone (track_rule_base y)) = se_zone x \<and>
        can_emit (cooldown_key (track_rule_base y) t) ?now c)" if "x \<in> set es1" for x
    proof -
      obtain y where y: "zc_name (rb_zone (track_rule_base y)) = se_zone x" "can_emit (cooldown_key (track_rule_base y) t) ?now c1"
        using ih [OF pos(1)] \<open>x \<in> set es1\<close> by blast
      have "cooldown_key (track_rule_base y) t \<noteq> ?k"
        using y(2) f pos(2) cooldown.open_after [of ?k ?now "track_rule_cooldown_s r" ?now c] by auto
      then show ?thesis
        using y f cooldown.other_keys [of "cooldown_key (track_rule_base y) t" ?k ?now "track_rule_cooldown_s r" ?now c]
        by (auto simp: cooldown_key_def)
    qed
    have "distinct (map se_zone es1)" using ih [OF pos(1)] by blast
    moreover have "se_zone e \<notin> se_zone ` set es1" using other by (metis imageE)
    ultimately have "distinct (map se_zone (e # es1))" by simp
    moreover have "\<forall>x \<in> set (e # es1). se_track_id x = PInt (ts_track_id t)" using ih [OF pos(1)] f by simp
    moreover have "\<forall>x \<in> set (e # es1). \<exists>y. zc_name (rb_zone (track_rule_base y)) = se_zone x \<and>
        can_emit (cooldown_key (track_rule_base y) t) ?now c"
      using other f by (metis set_ConsD)
    ultimately show ?thesis using es Some by simp
  qed
qed simp

lemma evaluate_track_rules_track:
  "evaluate_track_rules rs t c = (es, rs', c') \<Longrightarrow> e \<in> set es \<Longrightarrow> se_track_id e = PInt (ts_track_id t)"
proof (induction rs arbitrary: c es rs' c')
  case (Cons r rs)
  obtain eo r1 c1 where one: "rule_evaluate r t c = (eo, r1, c1)" by (cases "rule_evaluate r t c")
  obtain es1 rs1 where rest: "evaluate_track_rules rs t c1 = (es1, rs1, c')"
    and es: "es = (case eo of None \<Rightarrow> es1 | Some e \<Rightarrow> e # es1)"
    using Cons.prems(1) one by (auto split: prod.splits)
  show ?case
  proof (cases "eo = Some e")
    case True
    then show ?thesis using any_rule.fired [of r t c e r1 c1] one by simp
  next
    case False
    then have "e \<in> set es1" using Cons.prems(2) es by (auto split: option.splits)
    from Cons.IH [OF rest this] show ?thesis .
  qed
qed simp

lemma event_track_number_int: "se_track_id e = PInt i \<Longrightarrow> event_track_number e = i"
  by (simp add: event_track_number_def py_or_def)

lemma evaluate_tracks_track:
  "evaluate_tracks ts rs c = (evs, rs', c') \<Longrightarrow> (e, Some t) \<in> set evs \<Longrightarrow> t \<in> set ts \<and> event_track_number e = ts_track_id t"
proof (induction ts arbitrary: rs c evs)
  case (Cons x ts)
  obtain es rs1 c1 where one: "evaluate_track_rules rs x c = (es, rs1, c1)" by (cases "evaluate_track_rules rs x c")
  obtain evs1 where rest: "evaluate_tracks ts rs1 c1 = (evs1, rs', c')" and evs: "evs = map (\<lambda>e. (e, Some x)) es @ evs1"
    using Cons.prems(1) one by (auto split: prod.splits)
  show ?case
  proof (cases "(e, Some t) \<in> set evs1")
    case True
    from Cons.IH [OF rest this] show ?thesis by simp
  next
    case False
    then have "e \<in> set es" "t = x" using Cons.prems(2) evs by auto
    then show ?thesis using evaluate_track_rules_track [OF one] event_track_number_int by simp
  qed
qed simp

lemma representative_track:
  "representative_track_for_event e ts = Some t \<Longrightarrow> t \<in> set ts \<and> event_track_number e = ts_track_id t"
  by (auto simp: representative_track_for_event_def find_Some_iff split: if_splits)

lemma evaluate_frame_rules_track:
  "evaluate_frame_rules rs ts f c = (evs, rs', c') \<Longrightarrow> (e, Some t) \<in> set evs \<Longrightarrow>
   t \<in> set ts \<and> event_track_number e = ts_track_id t"
proof (induction rs arbitrary: c evs rs' c')
  case (Cons r rs)
  obtain es r1 c1 where one: "rule_evaluate_frame r ts f c = (es, r1, c1)" by (cases "rule_evaluate_frame r ts f c")
  obtain evs1 rs1 where rest: "evaluate_frame_rules rs ts f c1 = (evs1, rs1, c')"
    and evs: "evs = map (\<lambda>e. (e, representative_track_for_event e ts)) es @ evs1"
    using Cons.prems(1) one by (auto split: prod.splits)
  show ?case
  proof (cases "(e, Some t) \<in> set evs1")
    case True
    from Cons.IH [OF rest this] show ?thesis .
  next
    case False
    then have "representative_track_for_event e ts = Some t" using Cons.prems(2) evs by force
    then show ?thesis by (rule representative_track)
  qed
qed simp

section \<open>Properties\<close>

text \<open>
  an event of one rule silences every other single-track rule for the same camera, track and
  zone until its cooldown is over: the cooldown key has no part for the kind of the rule.
\<close>

theorem event_silences_other_rules:
  assumes "rule_evaluate r t c = (Some e, r', c1)"
    and "last_camera_id t2 = last_camera_id t" and "ts_track_id t2 = ts_track_id t"
    and "zc_name (rb_zone (track_rule_base r2)) = zc_name (rb_zone (track_rule_base r))"
    and "ts_last_seen_ms t2 < ts_last_seen_ms t + track_rule_cooldown_s r * 1000"
  shows "fst (rule_evaluate r2 t2 c1) = None"
  by (rule any_rule.emission_silences [OF assms(1) _ assms(5)]) (simp add: cooldown_key_def assms(2-4))

text \<open>A person who falls in a zone that a loitering rule watches too.\<close>

definition example_watch :: loitering_rule where
  "example_watch =
     \<lparr>lo_base = \<lparr>rb_config = rule_config_default\<lparr>rc_name := ''watch''\<rparr>,
        rb_zone = \<lparr>zc_name = ''gate'', zc_polygon = [(-10, -10), (10, -10), (10, 10), (-10, 10)]\<rparr>\<rparr>,
      lo_params = \<lparr>lc_min_duration_ms = 1000, lc_max_avg_speed_px_s = Fin 20, lc_max_displacement_px = Fin 0,
        lc_min_observation_count = 2, lc_cooldown_s = 60\<rparr>\<rparr>"

lemma example_fall_alone:
  "\<exists>e f' c'. fall_evaluate example_fall example_collapse [] = (Some e, f', c')"
proof -
  have params: "fc_min_down_ms (fa_params example_fall) = 1500" "fc_cooldown_s (fa_params example_fall) = 60"
    "fc_require_transition (fa_params example_fall)" "fc_transition_window_ms (fa_params example_fall) = 1500"
    "fc_min_visible_keypoints (fa_params example_fall) = 0" "zc_polygon (rb_zone (fa_base example_fall)) = []"
    "rc_enabled (rb_config (fa_base example_fall))"
    by (simp_all add: example_fall_def rule_config_default_def)
  have track: "ts_observations example_collapse = [example_box 0 1 4, example_box 1000 4 2, example_box 3000 4 2]"
    "ts_last_seen_ms example_collapse = 3000"
    by (simp_all add: example_collapse_def)
  have stamp: "po_timestamp_ms (example_box ts w h) = ts" "po_keypoints (example_box ts w h) = []" for ts w h
    by (simp_all add: example_box_def example_observation_def)
  show ?thesis
    by (simp add: fall_evaluate_def params track stamp lies_def stands_def example_posture
        first_continuous_lying_index_def had_upright_before_def visible_keypoint_count_def
        numeral_2_eq_2 can_emit_def Let_def)
qed

lemma example_watch_fires:
  "\<exists>e. rule_evaluate (Loitering_Rule example_watch) example_dwell [] =
     (Some e, Loitering_Rule example_watch, record_emit (cooldown_key (lo_base example_watch) example_dwell) 60 3000 [])"
  by (simp add: loitering_evaluate_def example_watch_def example_dwell_def rule_config_default_def
      in_zone_def point_in_polygon_def foot_point_def example_observation_def inside_observations_def
      first_continuous_inside_index_def obs_avg_speed_px_s_def foot_distance_def hypot_def can_emit_def Let_def)

theorem event_silences_other_rules_witness:
  "\<exists>e c1. rule_evaluate (Loitering_Rule example_watch) example_dwell [] = (Some e, Loitering_Rule example_watch, c1) \<and>
    fst (rule_evaluate (Fall_Rule example_fall) example_collapse c1) = None \<and>
    fst (rule_evaluate (Fall_Rule example_fall) example_collapse []) \<noteq> None"
proof -
  obtain e where e: "rule_evaluate (Loitering_Rule example_watch) example_dwell [] =
     (Some e, Loitering_Rule example_watch, record_emit (cooldown_key (lo_base example_watch) example_dwell) 60 3000 [])"
    using example_watch_fires by blast
  have "fst (rule_evaluate (Fall_Rule example_fall) example_collapse
      (record_emit (cooldown_key (lo_base example_watch) example_dwell) 60 3000 [])) = None"
    by (rule event_silences_other_rules [OF e])
      (simp_all add: last_camera_id_def example_dwell_def example_collapse_def example_observation_def example_box_def
        example_watch_def example_fall_def)
  moreover have "fst (rule_evaluate (Fall_Rule example_fall) example_collapse []) \<noteq> None"
    using example_fall_alone by (auto split: prod.splits)
  ultimately show ?thesis using e by blast
qed



text \<open>
  the track that a runtime frame gives to an event is one of the tracks that are active in the
  frame, and the one that the event names.
\<close>

theorem evaluations_name_their_track:
  assumes "evaluate_runtime_frame rt observations frame_ts_ms c = (evs, rt', c')" and "(e, Some t) \<in> set evs"
  shows "t \<in> set (active_tracks (sr_store rt')) \<and> event_track_number e = ts_track_id t"
proof -
  let ?tracks = "active_tracks (store_update observations frame_ts_ms (sr_store rt))"
  obtain single rules c1 where one: "evaluate_tracks ?tracks (sr_single_track_rules rt) c = (single, rules, c1)"
    by (cases "evaluate_tracks ?tracks (sr_single_track_rules rt) c")
  obtain multi frules where two: "evaluate_frame_rules (sr_frame_rules rt) ?tracks
      (resolved_frame_ts_ms observations frame_ts_ms ?tracks) c1 = (multi, frules, c')"
    and evs: "evs = single @ multi" and store: "sr_store rt' = store_update observations frame_ts_ms (sr_store rt)"
    using assms(1) one by (auto simp: evaluate_runtime_frame_def Let_def split: prod.splits)
  show ?thesis
    using assms(2) evs evaluate_tracks_track [OF one, of e t] evaluate_frame_rules_track [OF two, of e t] store by auto
qed

definition example_runtime :: source_runtime where
  "example_runtime =
     \<lparr>sr_source_id = ''src'', sr_camera_id = ''cam'', sr_camera_entry = example_camera, sr_runtime_epoch_id = [],
      sr_single_track_rules =
        [Intrusion_Rule \<lparr>rb_config = rule_config_default\<lparr>rc_min_inside_ms := 0\<rparr>,
           rb_zone = \<lparr>zc_name = ''gate'', zc_polygon = []\<rparr>\<rparr>],
      sr_frame_rules = [], sr_store = track_store_init 5 10\<rparr>"

theorem evaluations_name_their_track_witness:
  "\<exists>evs rt' c' e t. evaluate_runtime_frame example_runtime [example_observation 7 100 0 0] None [] = (evs, rt', c') \<and>
    (e, Some t) \<in> set evs \<and> t \<in> set (active_tracks (sr_store rt')) \<and> event_track_number e = ts_track_id t"
proof -
  let ?obs = "[example_observation 7 100 0 0]"
  let ?t = "add_observation (example_observation 7 100 0 0) 5 (track_state_init 7)"
  have t: "ts_observations ?t = [example_observation 7 100 0 0]" "ts_last_seen_ms ?t = 100"
    by (simp_all add: add_observation_fields track_state_init_def window_ms_def example_observation_def)
  have tracks: "active_tracks (store_update ?obs None (track_store_init 5 10)) = [?t]"
    by (simp add: active_tracks_def store_update_def store_evict_def store_observe_def track_store_init_def
        example_observation_def is_valid_track_id_def uint64_max_def window_ms_def frame_now_ms_def
        max_timestamp_def add_observation_fields Let_def)
  obtain evs rt' c' where run: "evaluate_runtime_frame example_runtime ?obs None [] = (evs, rt', c')"
    by (cases "evaluate_runtime_frame example_runtime ?obs None []")
  have "\<exists>e. (e, Some ?t) \<in> set evs"
    using run by (auto simp: evaluate_runtime_frame_def example_runtime_def tracks intrusion_evaluate_def t
        rule_config_default_def continuous_inside_def in_zone_def point_in_polygon_def can_emit_def Let_def)
  then obtain e where e: "(e, Some ?t) \<in> set evs" by blast
  from evaluations_name_their_track [OF run e] run e show ?thesis by blast
qed

end
