(* ===== verification/RuntimeConfig.thy ===== *)
theory RuntimeConfig
  imports RuleRuntime
begin

text \<open>
  What a loaded camera configuration means for the rules that the runtime builds from it: the
  composition of the loader (theory CameraBundle), the adapter and the registry (theory
  RuleRuntime).
\<close>

lemma parse_rule_items_dict: "parse_rule_items rp camera_id zones items rules = Inr rules' \<Longrightarrow> dict_ok rules \<Longrightarrow> dict_ok rules'"
  by (induction rp camera_id zones items rules rule: parse_rule_items.induct) (auto simp: rbind_Inr_iff split: if_splits)

lemma loaded_rules_dict:
  assumes "load_camera_config rp parsed = Inr b" and "bundle_get_camera b camera_id = Some cam"
  shows "dict_ok (ce_rules cam)"
proof -
  have "dict_ok (ce_rules c)" if "parse_camera rp e k raw = Inr c" for e k raw c
    using parse_camera_parts(3) [OF that] parse_rule_items_dict by (fastforce simp: parse_rules_def split: pyval.splits)
  then have "\<forall>k c. dget (cb_cameras b) k = Some c \<longrightarrow> dict_ok (ce_rules c)"
    using load_camera_config_all [OF assms(1), where P = "\<lambda>_ c. dict_ok (ce_rules c)"] by blast
  then show ?thesis using assms(2) by (simp add: bundle_get_camera_def)
qed

lemma legacy_rules_from:
  "legacy_rules rp rules = Inr out \<Longrightarrow> dget out k = Some rc \<Longrightarrow>
   \<exists>r ty. (k, r) \<in> set rules \<and> behavior_rule_type_for_algorithm_id (re_algorithm_id r) = Some ty \<and>
     legacy_rule rp k r ty = Inr rc"
proof (induction rules arbitrary: out)
  case (Cons entry rest)
  obtain rule_id r where entry: "entry = (rule_id, r)" by (cases entry)
  show ?case
  proof (cases "re_enabled r \<and> is_behavior_algorithm_id (re_algorithm_id r) \<and>
      behavior_rule_type_for_algorithm_id (re_algorithm_id r) \<noteq> None")
    case False
    then have "legacy_rules rp rest = Inr out" using Cons.prems(1) entry by (auto split: if_splits option.splits)
    from Cons.IH [OF this Cons.prems(2)] show ?thesis by auto
  next
    case True
    then obtain ty where ty: "behavior_rule_type_for_algorithm_id (re_algorithm_id r) = Some ty" by blast
    obtain rule rules where parts: "legacy_rule rp rule_id r ty = Inr rule" "legacy_rules rp rest = Inr rules"
      "out = (rule_id, rule) # rules"
      using Cons.prems(1) True ty entry by (auto simp: rbind_Inr_iff)
    show ?thesis
    proof (cases "k = rule_id")
      case True
      then show ?thesis using parts Cons.prems(2) ty entry by auto
    next
      case False
      then have "dget rules k = Some rc" using parts(3) Cons.prems(2) by simp
      from Cons.IH [OF parts(2) this] show ?thesis by auto
    qed
  qed
qed simp

lemma intrusion_type_is_intrusion:
  "behavior_rule_type_for_algorithm_id v = Some ''intrusion'' \<Longrightarrow> normalize_algorithm_id v = ''behavior.intrusion''"
  by (simp add: behavior_rule_type_for_algorithm_id_def algorithm_id_to_rule_type_def split: if_splits)

lemma legacy_rule_settings_keep:
  "k \<notin> {''evidence_policy'', ''snapshot_required'', ''clip_required''} \<Longrightarrow> pget (legacy_rule_settings r) k = pget (re_config r) k"
  by (auto simp: legacy_rule_settings_def Let_def dict_simps)

lemma dget_or_pget: "pget cfg k = PInt i \<Longrightarrow> dget_or cfg k v = PInt i"
  by (auto simp: pget_def dget_or_def split: option.splits)

lemma legacy_rule_numbers:
  assumes "legacy_rule rp k r ty = Inr rc" and "pget (re_config r) ''min_inside_ms'' = PInt n"
    and "pget (re_config r) ''cooldown_s'' = PInt secs"
  shows "rc_min_inside_ms rc = n \<and> rc_cooldown_s rc = secs \<and> rc_rule_type rc = ty"
proof -
  have "pget (legacy_rule_settings r) ''min_inside_ms'' = PInt n" "pget (legacy_rule_settings r) ''cooldown_s'' = PInt secs"
    using assms(2,3) legacy_rule_settings_keep [of "''min_inside_ms''" r] legacy_rule_settings_keep [of "''cooldown_s''" r]
    by simp_all
  then have "dget_or (legacy_rule_settings r) ''min_inside_ms'' (PInt 1000) = PInt n"
    "dget_or (legacy_rule_settings r) ''cooldown_s'' (PInt 30) = PInt secs"
    by (simp_all add: dget_or_pget)
  note run = assms(1) [unfolded legacy_rule_def Let_def this py_int.simps rbind_simps Inr_inject]
  show ?thesis using run by auto
qed

section \<open>Properties\<close>


definition example_legacy :: camera_config where
  "example_legacy =
     \<lparr>cc_camera_id = ''cam'', cc_zones = [(''gate'', \<lparr>zc_name = ''gate'', zc_polygon = [(0, 0), (9, 0), (9, 9)]\<rparr>)],
      cc_rules = [(''intrusion'',
        \<lparr>rc_name = ''intrusion'', rc_rule_type = ''intrusion'', rc_zone = ''gat'', rc_enabled = True, rc_min_inside_ms = 1000,
         rc_cooldown_s = 30, rc_severity = ''medium'', rc_snapshot_required = True, rc_clip_required = True,
         rc_config = example_rule_document, rc_algorithm_id = ''behavior.intrusion''\<rparr>)]\<rparr>"

lemma example_legacy_config: "camera_entry_to_legacy_config rp example_camera = Inr example_legacy"
proof -
  have "behavior_rule_type_for_algorithm_id ''behavior.intrusion'' = Some ''intrusion''"
    "is_behavior_algorithm_id ''behavior.intrusion''"
    by (simp_all add: behavior_rule_type_for_algorithm_id_def is_behavior_algorithm_id_def normalize_algorithm_id_def
        legacy_aliases_def algorithm_id_to_rule_type_def behavior_algorithm_ids_def dget_or_def)
  then show ?thesis
    by (simp add: camera_entry_to_legacy_config_def example_camera_def finite_point_def legacy_rule_def
        legacy_rule_settings_def example_rule_document_def dget_or_def pget_def py_or_def example_legacy_def Let_def)
qed


text \<open>
  the zone that the loader checks is not always the zone that the rule uses: a configuration
  loads whose intrusion rule looks up a zone that its camera does not have, and such a rule watches
  the empty polygon, so that it never fires.
\<close>

theorem intrusion_zone_not_checked:
  "\<exists>b rc. load_camera_config rp example_document = Inr b \<and> bundle_get_camera b ''cam'' = Some example_camera \<and>
    camera_entry_to_legacy_config rp example_camera = Inr example_legacy \<and>
    dget (cc_rules example_legacy) ''intrusion'' = Some rc \<and> dget (cc_zones example_legacy) (rc_zone rc) = None \<and>
    fst (intrusion_evaluate \<lparr>rb_config = rc, rb_zone = get_zone example_legacy (rc_zone rc)\<rparr> t c) = None"
proof -
  obtain rc where rc: "dget (cc_rules example_legacy) ''intrusion'' = Some rc" "rc_zone rc = ''gat''" "rc_min_inside_ms rc = 1000"
    by (simp add: example_legacy_def)
  have zone: "dget (cc_zones example_legacy) ''gat'' = None" by (simp add: example_legacy_def)
  then have "get_zone example_legacy ''gat'' = zone_config_default" by (simp add: get_zone_def dget_or_def)
  then have "fst (intrusion_evaluate \<lparr>rb_config = rc, rb_zone = get_zone example_legacy (rc_zone rc)\<rparr> t c) = None"
    using rc(2,3) by (simp add: intrusion_evaluate_def continuous_inside_def in_zone_def zone_config_default_def
        point_in_polygon_def Let_def)
  then show ?thesis using example_loaded [of rp] example_legacy_config [of rp] rc zone by (simp add: bundle_get_camera_def)
qed

text \<open>
  every behaviour algorithm that a configuration can name has a registered rule, except the wall
  climbing one, whose rules are skipped.
\<close>

theorem behavior_algorithms_have_rules:
  "\<exists>reg. register_all rule_modules [] = Inr reg \<and>
    filter (\<lambda>a. registry_has reg (the (behavior_rule_type_for_algorithm_id a))) behavior_algorithm_ids =
    filter (\<lambda>a. a \<noteq> ''behavior.wall_climb_suspicious'') behavior_algorithm_ids"
  by (simp add: rule_modules_def register_factory_def registry_has_def behavior_algorithm_ids_def
      behavior_rule_type_for_algorithm_id_def normalize_algorithm_id_def legacy_aliases_def algorithm_id_to_rule_type_def
      dget_or_def)

lemma blank_cooldown_stops_adapter:
  "legacy_rule rp k r ty = Inl Type_Error" if "dget (re_config r) ''cooldown_s'' = Some PNone"
    and "dget (re_config r) ''min_inside_ms'' = None" and "re_evidence_policy r = []"
  using that by (simp add: legacy_rule_def legacy_rule_settings_def dget_or_def Let_def)

end
