(* ===== verification/ForwardQueue.thy ===== *)
theory ForwardQueue
  imports PyValue
begin

text \<open>
  The queues between the threads of the analysis forwarder
  (services/analysis-forwarder/app/queueing.py): the bounded queue that never blocks its producer
  and, when it is full, gives up an ordinary video frame for a key frame or a control message, and
  the standard library's \<open>queue.Queue\<close> of the raw branch as the forwarder uses it.

  Both are instances of the contract \<open>bounded_buffer\<close>: what is put in is waiting, taken out or
  reported as lost, and what is taken is the head.  The drop queue also implements the abstract
  channel of this theory, a finite map from arrival numbers to messages from which an overflow
  removes the oldest ordinary frame and a delivery the oldest message.
\<close>

section \<open>The bounded drop queue\<close>

record 'm forwarder_message =
  fm_topic :: string
  fm_message :: 'm
  fm_content :: string
  fm_source_id :: string
  fm_keyframe :: bool
  fm_video_frame :: bool

record 'm push_result =
  pr_accepted :: bool
  pr_dropped :: "'m forwarder_message option"
  pr_reason :: string

record 'm drop_queue =
  dq_max_size :: int
  dq_items :: "'m forwarder_message list"

definition drop_queue_init :: "int \<Rightarrow> 'm drop_queue" where
  "drop_queue_init max_size = \<lparr>dq_max_size = max max_size 1, dq_items = []\<rparr>"

text \<open>A frame that the queue may give up: \<open>queued.video_frame and not queued.keyframe\<close>.\<close>

definition droppable :: "'m forwarder_message \<Rightarrow> bool" where
  "droppable m \<longleftrightarrow> fm_video_frame m \<and> \<not> fm_keyframe m"

text \<open>The scan of the queued items for the first one to give up, and the items without it.\<close>

fun evict_first :: "'m forwarder_message list \<Rightarrow> ('m forwarder_message \<times> 'm forwarder_message list) option" where
  "evict_first [] = None"
| "evict_first (queued # rest) =
     (if droppable queued then Some (queued, rest)
      else case evict_first rest of None \<Rightarrow> None | Some (d, rest') \<Rightarrow> Some (d, queued # rest'))"

definition queue_push :: "'m forwarder_message \<Rightarrow> 'm drop_queue \<Rightarrow> 'm push_result \<times> 'm drop_queue" where
  "queue_push item q =
     (if int (length (dq_items q)) < dq_max_size q
      then (\<lparr>pr_accepted = True, pr_dropped = None, pr_reason = []\<rparr>, q\<lparr>dq_items := dq_items q @ [item]\<rparr>)
      else
        (case (if fm_keyframe item \<or> \<not> fm_video_frame item then evict_first (dq_items q) else None) of
           Some (dropped, rest) \<Rightarrow>
             (\<lparr>pr_accepted = True, pr_dropped = Some dropped, pr_reason = ''evicted_non_keyframe''\<rparr>,
              q\<lparr>dq_items := rest @ [item]\<rparr>)
         | None \<Rightarrow> (\<lparr>pr_accepted = False, pr_dropped = Some item, pr_reason = ''queue_full''\<rparr>, q)))"

text \<open>
  One turn of the loop of \<open>pop\<close> under the lock: the head, the end of the waiting time, or a wait
  for the remaining time.  Between two turns the lock is free.
\<close>

datatype 'm pop_turn = Popped "'m forwarder_message" | Timed_Out | Waiting real

definition queue_pop :: "real \<Rightarrow> real \<Rightarrow> 'm drop_queue \<Rightarrow> 'm pop_turn \<times> 'm drop_queue" where
  "queue_pop deadline now q =
     (case dq_items q of
        item # rest \<Rightarrow> (Popped item, q\<lparr>dq_items := rest\<rparr>)
      | [] \<Rightarrow> (if deadline - now \<le> 0 then Timed_Out else Waiting (deadline - now), q))"

definition pop_deadline :: "real \<Rightarrow> real \<Rightarrow> real" where
  "pop_deadline started timeout_s = started + max timeout_s 0"

text \<open>The head of the queue, the form in which a client's proofs see \<open>pop\<close>.\<close>

definition queue_take :: "'m drop_queue \<Rightarrow> 'm forwarder_message option \<times> 'm drop_queue" where
  "queue_take q = (case dq_items q of [] \<Rightarrow> (None, q) | item # rest \<Rightarrow> (Some item, q\<lparr>dq_items := rest\<rparr>))"

lemma queue_pop_take:
  "queue_pop deadline now q =
     (case queue_take q of (Some item, q') \<Rightarrow> (Popped item, q')
      | (None, q') \<Rightarrow> (if deadline \<le> now then Timed_Out else Waiting (deadline - now), q'))"
  by (simp add: queue_pop_def queue_take_def split: list.splits)

section \<open>The raw branch's queue\<close>

text \<open>
  \<open>queue.Queue\<close> of the standard library: \<open>put_nowait\<close> raises \<open>queue.Full\<close> at the maximal size,
  and a maximal size that is not positive means no bound.
\<close>

record 'm raw_queue =
  rq_maxsize :: int
  rq_items :: "'m forwarder_message list"

definition raw_put :: "'m forwarder_message \<Rightarrow> 'm raw_queue \<Rightarrow> bool \<times> 'm raw_queue" where
  "raw_put item q =
     (if 0 < rq_maxsize q \<and> rq_maxsize q \<le> int (length (rq_items q)) then (False, q)
      else (True, q\<lparr>rq_items := rq_items q @ [item]\<rparr>))"

definition raw_get :: "'m raw_queue \<Rightarrow> 'm forwarder_message option \<times> 'm raw_queue" where
  "raw_get q = (case rq_items q of [] \<Rightarrow> (None, q) | item # rest \<Rightarrow> (Some item, q\<lparr>rq_items := rest\<rparr>))"

section \<open>The contract of a buffer\<close>

text \<open>
  \<open>put\<close> reports the item that is lost, which may be the new one or one that was waiting.
\<close>

datatype 'i buffer_op = Put 'i | Take_Head

locale bounded_buffer =
  fixes waiting :: "'q \<Rightarrow> 'i list" and put :: "'i \<Rightarrow> 'q \<Rightarrow> 'i option \<times> 'q" and take_head :: "'q \<Rightarrow> 'i option \<times> 'q"
    and precious :: "'i \<Rightarrow> bool"
  assumes put_conserves: "put i q = (lost, q') \<Longrightarrow>
      add_mset i (mset (waiting q)) = mset (waiting q') + (case lost of None \<Rightarrow> {#} | Some d \<Rightarrow> {#d#})"
    and put_keeps_order: "put i q = (lost, q') \<Longrightarrow>
      filter precious (waiting q') =
        filter precious (waiting q) @
          (if precious i \<and> (case lost of None \<Rightarrow> True | Some d \<Rightarrow> \<not> precious d) then [i] else [])"
    and take_empty: "waiting q = [] \<Longrightarrow> take_head q = (None, q)"
    and take_first: "waiting q = i # rest \<Longrightarrow> fst (take_head q) = Some i \<and> waiting (snd (take_head q)) = rest"
begin

text \<open>The items put, taken and lost over a sequence of operations, in order.\<close>

fun buffer_run :: "'i buffer_op list \<Rightarrow> 'q \<Rightarrow> 'i list \<times> 'i list \<times> 'i list \<times> 'q" where
  "buffer_run [] q = ([], [], [], q)"
| "buffer_run (Put i # ops) q =
     (let (lost, q1) = put i q; (ins, outs, losses, q2) = buffer_run ops q1
      in (i # ins, outs, (case lost of None \<Rightarrow> losses | Some d \<Rightarrow> d # losses), q2))"
| "buffer_run (Take_Head # ops) q =
     (let (got, q1) = take_head q; (ins, outs, losses, q2) = buffer_run ops q1
      in (ins, (case got of None \<Rightarrow> outs | Some i \<Rightarrow> i # outs), losses, q2))"

lemma take_conserves:
  "take_head q = (got, q') \<Longrightarrow> (case got of None \<Rightarrow> [] | Some i \<Rightarrow> [i]) @ waiting q' = waiting q"
  by (cases "waiting q") (use take_empty [of q] take_first [of q] in auto)

lemma mset_filter_length: "length (filter P xs) = size (filter_mset P (mset xs))"
  by (simp flip: mset_filter)

text \<open>The number of waiting items of any kind, over a put and a take.\<close>

lemma put_counts:
  "put i q = (lost, q') \<Longrightarrow>
   length (filter P (waiting q)) + (if P i then 1 else 0) =
     length (filter P (waiting q')) + (case lost of None \<Rightarrow> 0 | Some d \<Rightarrow> if P d then 1 else 0)"
proof -
  assume put: "put i q = (lost, q')"
  have "size (filter_mset P (add_mset i (mset (waiting q)))) =
      size (filter_mset P (mset (waiting q') + (case lost of None \<Rightarrow> {#} | Some d \<Rightarrow> {#d#})))"
    by (simp only: put_conserves [OF put])
  then show ?thesis by (cases lost) (auto simp: mset_filter_length split: if_splits)
qed

lemma take_counts:
  "take_head q = (got, q') \<Longrightarrow>
   length (filter P (waiting q)) =
     length (filter P (waiting q')) + (case got of None \<Rightarrow> 0 | Some i \<Rightarrow> if P i then 1 else 0)"
proof -
  assume take: "take_head q = (got, q')"
  have "filter P (waiting q) = filter P (case got of None \<Rightarrow> [] | Some i \<Rightarrow> [i]) @ filter P (waiting q')"
    by (simp flip: filter_append take_conserves [OF take])
  then show ?thesis by (cases got) auto
qed

text \<open>Nothing is lost without a report and nothing is delivered twice.\<close>

lemma run_conserves:
  "buffer_run ops q = (ins, outs, losses, q') \<Longrightarrow>
   mset (waiting q) + mset ins = mset outs + mset losses + mset (waiting q')"
proof (induction ops arbitrary: q q' ins outs losses)
  case (Cons e ops)
  show ?case
  proof (cases e)
    case (Put i)
    obtain lost q1 where p: "put i q = (lost, q1)" by force
    obtain ins1 outs1 losses1 q2 where r: "buffer_run ops q1 = (ins1, outs1, losses1, q2)"
      by (cases "buffer_run ops q1") auto
    have out: "ins = i # ins1" "outs = outs1" "q' = q2"
        "losses = (case lost of None \<Rightarrow> losses1 | Some d \<Rightarrow> d # losses1)"
      using Cons.prems Put p r by auto
    show ?thesis using Cons.IH [OF r] put_conserves [OF p] out
      by (cases lost) (auto simp: algebra_simps, (metis add_mset_add_single union_assoc union_commute)+)
  next
    case Take_Head
    obtain got q1 where t: "take_head q = (got, q1)" by force
    obtain ins1 outs1 losses1 q2 where r: "buffer_run ops q1 = (ins1, outs1, losses1, q2)"
      by (cases "buffer_run ops q1") auto
    have out: "ins = ins1" "losses = losses1" "q' = q2"
        "outs = (case got of None \<Rightarrow> outs1 | Some i \<Rightarrow> i # outs1)"
      using Cons.prems Take_Head t r by auto
    have "mset (waiting q) = mset (case got of None \<Rightarrow> [] | Some i \<Rightarrow> [i]) + mset (waiting q1)"
      by (simp flip: mset_append take_conserves [OF t])
    then show ?thesis using Cons.IH [OF r] out by (cases got) (auto simp: ac_simps)
  qed
qed simp

text \<open>The precious items that were put and not lost, in order.\<close>

fun precious_kept :: "'i buffer_op list \<Rightarrow> 'q \<Rightarrow> 'i list" where
  "precious_kept [] q = []"
| "precious_kept (Put i # ops) q =
     (let (lost, q1) = put i q
      in (if precious i \<and> (case lost of None \<Rightarrow> True | Some d \<Rightarrow> \<not> precious d) then [i] else []) @
         precious_kept ops q1)"
| "precious_kept (Take_Head # ops) q = precious_kept ops (snd (take_head q))"

text \<open>They are delivered in the order in which they were put.\<close>

lemma run_in_order:
  "buffer_run ops q = (ins, outs, losses, q') \<Longrightarrow>
   filter precious (waiting q) @ precious_kept ops q = filter precious outs @ filter precious (waiting q')"
proof (induction ops arbitrary: q q' ins outs losses)
  case (Cons e ops)
  show ?case
  proof (cases e)
    case (Put i)
    obtain lost q1 where p: "put i q = (lost, q1)" by force
    obtain ins1 outs1 losses1 q2 where r: "buffer_run ops q1 = (ins1, outs1, losses1, q2)"
      by (cases "buffer_run ops q1") auto
    have out: "outs = outs1" "q' = q2" using Cons.prems Put p r by auto
    show ?thesis using Cons.IH [OF r] put_keeps_order [OF p] out Put p by simp
  next
    case Take_Head
    obtain got q1 where t: "take_head q = (got, q1)" by force
    obtain ins1 outs1 losses1 q2 where r: "buffer_run ops q1 = (ins1, outs1, losses1, q2)"
      by (cases "buffer_run ops q1") auto
    have out: "outs = (case got of None \<Rightarrow> outs1 | Some i \<Rightarrow> i # outs1)" "q' = q2"
      using Cons.prems Take_Head t r by auto
    have "filter precious (waiting q) =
        filter precious (case got of None \<Rightarrow> [] | Some i \<Rightarrow> [i]) @ filter precious (waiting q1)"
      by (simp flip: filter_append take_conserves [OF t])
    then show ?thesis using Cons.IH [OF r] out Take_Head t by (cases got) auto
  qed
qed simp

end

section \<open>Both queues keep the contract\<close>

lemma evict_first_Some:
  "evict_first xs = Some (d, rest) \<Longrightarrow>
   \<exists>us vs. xs = us @ d # vs \<and> rest = us @ vs \<and> droppable d \<and> (\<forall>u \<in> set us. \<not> droppable u)"
proof (induction xs arbitrary: rest)
  case (Cons x xs)
  show ?case
  proof (cases "droppable x")
    case True
    then show ?thesis using Cons.prems by (intro exI [of _ "[]"] exI [of _ xs]) auto
  next
    case False
    then obtain rest1 where e: "evict_first xs = Some (d, rest1)" "rest = x # rest1"
      using Cons.prems by (auto split: option.splits)
    from Cons.IH [OF e(1)] obtain us vs where "xs = us @ d # vs" "rest1 = us @ vs" "droppable d"
        "\<forall>u \<in> set us. \<not> droppable u" by blast
    then show ?thesis using False e(2) by (intro exI [of _ "x # us"] exI [of _ vs]) auto
  qed
qed simp

lemma evict_first_None: "evict_first xs = None \<longleftrightarrow> (\<forall>x \<in> set xs. \<not> droppable x)"
  by (induction xs) (auto split: option.splits)

definition queue_put :: "'m forwarder_message \<Rightarrow> 'm drop_queue \<Rightarrow> 'm forwarder_message option \<times> 'm drop_queue" where
  "queue_put item q = (let (result, q') = queue_push item q in (pr_dropped result, q'))"

lemma queue_put_cases:
  obtains (Room) "int (length (dq_items q)) < dq_max_size q"
      "queue_push item q = (\<lparr>pr_accepted = True, pr_dropped = None, pr_reason = []\<rparr>, q\<lparr>dq_items := dq_items q @ [item]\<rparr>)"
  | (Evicted) d us vs where "dq_max_size q \<le> int (length (dq_items q))" "\<not> droppable item"
      "dq_items q = us @ d # vs" "droppable d" "\<forall>u \<in> set us. \<not> droppable u"
      "queue_push item q = (\<lparr>pr_accepted = True, pr_dropped = Some d, pr_reason = ''evicted_non_keyframe''\<rparr>,
         q\<lparr>dq_items := us @ vs @ [item]\<rparr>)"
  | (Refused) "dq_max_size q \<le> int (length (dq_items q))"
      "droppable item \<or> (\<forall>x \<in> set (dq_items q). \<not> droppable x)"
      "queue_push item q = (\<lparr>pr_accepted = False, pr_dropped = Some item, pr_reason = ''queue_full''\<rparr>, q)"
proof (cases "int (length (dq_items q)) < dq_max_size q")
  case True
  then show thesis by (rule Room) (simp add: queue_push_def True)
next
  case full: False
  show thesis
  proof (cases "droppable item")
    case True
    then show thesis using full by (intro Refused) (auto simp: queue_push_def droppable_def)
  next
    case False
    show thesis
    proof (cases "evict_first (dq_items q)")
      case None
      then show thesis using full False
        by (intro Refused) (use evict_first_None [of "dq_items q"] in \<open>auto simp: queue_push_def\<close>)
    next
      case (Some p)
      then obtain d rest where e: "evict_first (dq_items q) = Some (d, rest)" by (cases p) auto
      then obtain us vs where "dq_items q = us @ d # vs" "rest = us @ vs" "droppable d"
          "\<forall>u \<in> set us. \<not> droppable u"
        using evict_first_Some by blast
      then show thesis using full False e
        by (intro Evicted) (auto simp: queue_push_def droppable_def)
    qed
  qed
qed

interpretation drop_queue: bounded_buffer dq_items queue_put queue_take "\<lambda>m. \<not> droppable m"
proof unfold_locales
  fix i :: "'a forwarder_message" and q :: "'a drop_queue" and lost q'
  assume put: "queue_put i q = (lost, q')"
  show "add_mset i (mset (dq_items q)) = mset (dq_items q') + (case lost of None \<Rightarrow> {#} | Some d \<Rightarrow> {#d#})"
    using put by (cases rule: queue_put_cases [of q i]) (auto simp: queue_put_def)
  show "filter (\<lambda>m. \<not> droppable m) (dq_items q') =
      filter (\<lambda>m. \<not> droppable m) (dq_items q) @
        (if \<not> droppable i \<and> (case lost of None \<Rightarrow> True | Some d \<Rightarrow> \<not> \<not> droppable d) then [i] else [])"
    using put by (cases rule: queue_put_cases [of q i]) (auto simp: queue_put_def)
next
  fix q :: "'a drop_queue"
  assume "dq_items q = []"
  then show "queue_take q = (None, q)" by (simp add: queue_take_def)
next
  fix q :: "'a drop_queue" and i rest
  assume "dq_items q = i # rest"
  then show "fst (queue_take q) = Some i \<and> dq_items (snd (queue_take q)) = rest" by (simp add: queue_take_def)
qed

definition raw_offer :: "'m forwarder_message \<Rightarrow> 'm raw_queue \<Rightarrow> 'm forwarder_message option \<times> 'm raw_queue" where
  "raw_offer item q = (let (taken, q') = raw_put item q in (if taken then None else Some item, q'))"

interpretation raw_queue: bounded_buffer rq_items raw_offer raw_get "\<lambda>m. True"
  by unfold_locales (auto simp: raw_offer_def raw_put_def raw_get_def split: if_splits)

text \<open>The queue never holds more than its maximal size.\<close>

definition drop_queue_ok :: "'m drop_queue \<Rightarrow> bool" where
  "drop_queue_ok q \<longleftrightarrow> 1 \<le> dq_max_size q \<and> int (length (dq_items q)) \<le> dq_max_size q"

lemma drop_queue_ok_init [inv_intros]: "drop_queue_ok (drop_queue_init n)"
  by (simp add: drop_queue_ok_def drop_queue_init_def)

lemma drop_queue_ok_push [inv_intros]: "drop_queue_ok q \<Longrightarrow> drop_queue_ok (snd (queue_push item q))"
  by (cases rule: queue_put_cases [of q item]) (auto simp: drop_queue_ok_def)

lemma drop_queue_ok_pop [inv_intros]: "drop_queue_ok q \<Longrightarrow> drop_queue_ok (snd (queue_pop deadline now q))"
  by (auto simp: drop_queue_ok_def queue_pop_def split: list.splits)

end
