(* ===== verification/ForwardChannel.thy ===== *)
theory ForwardChannel
  imports ForwardQueue
begin

text \<open>
  What the forwarder's drop queue promises, as an abstract channel: waiting messages are a finite
  map from their arrival numbers, a delivery takes the smallest number, and an overflow by a key
  frame or a control message removes the ordinary frame with the smallest number.  The queue of
  theory ForwardQueue answers every sequence of operations as the channel does.
\<close>

section \<open>The channel\<close>

record 'm channel =
  ch_capacity :: int
  ch_waiting :: "nat \<Rightarrow> 'm forwarder_message option"
  ch_arrivals :: nat

definition channel_init :: "int \<Rightarrow> 'm channel" where
  "channel_init n = \<lparr>ch_capacity = max n 1, ch_waiting = Map.empty, ch_arrivals = 0\<rparr>"

definition channel_join :: "'m forwarder_message \<Rightarrow> 'm channel \<Rightarrow> 'm channel" where
  "channel_join item c =
     c\<lparr>ch_waiting := (ch_waiting c)(ch_arrivals c \<mapsto> item), ch_arrivals := Suc (ch_arrivals c)\<rparr>"

definition channel_leave :: "nat \<Rightarrow> 'm channel \<Rightarrow> 'm channel" where
  "channel_leave n c = c\<lparr>ch_waiting := (ch_waiting c)(n := None)\<rparr>"

definition waits_droppable :: "'m channel \<Rightarrow> nat \<Rightarrow> bool" where
  "waits_droppable c n \<longleftrightarrow> (\<exists>m. ch_waiting c n = Some m \<and> droppable m)"

definition channel_push :: "'m forwarder_message \<Rightarrow> 'm channel \<Rightarrow> 'm push_result \<times> 'm channel" where
  "channel_push item c =
     (if int (card (dom (ch_waiting c))) < ch_capacity c
      then (\<lparr>pr_accepted = True, pr_dropped = None, pr_reason = []\<rparr>, channel_join item c)
      else if \<not> droppable item \<and> (\<exists>n. waits_droppable c n)
      then
        (let n = (LEAST n. waits_droppable c n)
         in (\<lparr>pr_accepted = True, pr_dropped = ch_waiting c n, pr_reason = ''evicted_non_keyframe''\<rparr>,
             channel_join item (channel_leave n c)))
      else (\<lparr>pr_accepted = False, pr_dropped = Some item, pr_reason = ''queue_full''\<rparr>, c))"

definition channel_pop :: "real \<Rightarrow> real \<Rightarrow> 'm channel \<Rightarrow> 'm pop_turn \<times> 'm channel" where
  "channel_pop deadline now c =
     (if ch_waiting c = Map.empty
      then (if deadline \<le> now then Timed_Out else Waiting (deadline - now), c)
      else
        (let n = (LEAST n. n \<in> dom (ch_waiting c))
         in (Popped (the (ch_waiting c n)), channel_leave n c)))"

section \<open>The simulation\<close>

text \<open>The items of the queue in order are the messages of the channel in the order of their numbers.\<close>

definition queue_shows :: "'m drop_queue \<Rightarrow> nat list \<Rightarrow> 'm channel \<Rightarrow> bool" where
  "queue_shows q ns c \<longleftrightarrow>
     ch_capacity c = dq_max_size q \<and> length ns = length (dq_items q) \<and> sorted_wrt (<) ns \<and>
     (\<forall>n \<in> set ns. n < ch_arrivals c) \<and> ch_waiting c = map_of (zip ns (dq_items q))"

lemma zip_absent: "n \<notin> set ns \<Longrightarrow> map_of (zip ns xs) n = None"
  by (auto simp: map_of_eq_None_iff dest: set_zip_leftD)

lemma zip_present: "map_of (zip ns xs) n = Some m \<Longrightarrow> m \<in> set xs"
  by (auto dest!: map_of_SomeD dest: set_zip_rightD)

lemma map_of_zip_at:
  "length us = length xs \<Longrightarrow> k \<notin> set us \<Longrightarrow> map_of (zip (us @ k # vs) (xs @ x # ys)) k = Some x"
  by (simp add: map_add_Some_iff zip_absent)

lemma map_of_zip_remove:
  assumes "length us = length xs" "k \<notin> set us" "k \<notin> set vs"
  shows "(map_of (zip (us @ k # vs) (xs @ x # ys)))(k := None) = map_of (zip (us @ vs) (xs @ ys))"
proof
  fix n
  show "((map_of (zip (us @ k # vs) (xs @ x # ys)))(k := None)) n = map_of (zip (us @ vs) (xs @ ys)) n"
    using assms by (cases "n = k") (simp_all add: map_add_def zip_absent split: option.splits)
qed

lemma map_of_zip_snoc:
  assumes "length ns = length xs" "n \<notin> set ns"
  shows "map_of (zip (ns @ [n]) (xs @ [x])) = (map_of (zip ns xs))(n \<mapsto> x)"
proof
  fix k
  show "map_of (zip (ns @ [n]) (xs @ [x])) k = ((map_of (zip ns xs))(n \<mapsto> x)) k"
    using assms by (cases "k = n") (simp_all add: map_add_def zip_absent split: option.splits)
qed

lemma queue_shows_card: "queue_shows q ns c \<Longrightarrow> card (dom (ch_waiting c)) = length (dq_items q)"
  by (simp add: queue_shows_def distinct_card strict_sorted_iff)

lemma queue_shows_join:
  assumes "queue_shows q ns c"
  shows "queue_shows (q\<lparr>dq_items := dq_items q @ [item]\<rparr>) (ns @ [ch_arrivals c]) (channel_join item c)"
proof -
  have "ch_arrivals c \<notin> set ns" using assms by (auto simp: queue_shows_def)
  then show ?thesis using assms
    by (auto simp: queue_shows_def channel_join_def sorted_wrt_append less_Suc_eq map_of_zip_snoc simp del: zip_append)
qed

lemma queue_shows_leave:
  assumes s: "queue_shows q ns c" and items: "dq_items q = xs @ x # ys"
  obtains us k vs where "ns = us @ k # vs" "length us = length xs" "length vs = length ys"
    "ch_waiting c k = Some x" "\<forall>u \<in> set us. u < k" "\<forall>v \<in> set vs. k < v"
    "queue_shows (q\<lparr>dq_items := xs @ ys\<rparr>) (us @ vs) (channel_leave k c)"
proof -
  have len: "length ns = length (xs @ x # ys)" using s items by (simp add: queue_shows_def)
  define us k vs where "us = take (length xs) ns" and "k = ns ! length xs" and "vs = drop (Suc (length xs)) ns"
  have ns: "ns = us @ k # vs" using len by (simp add: us_def k_def vs_def id_take_nth_drop)
  have lens: "length us = length xs" "length vs = length ys" using len by (simp_all add: us_def vs_def)
  have srt: "\<forall>u \<in> set us. u < k" "\<forall>v \<in> set vs. k < v" "sorted_wrt (<) (us @ vs)"
    using s by (auto simp: queue_shows_def ns sorted_wrt_append)
  have fresh: "k \<notin> set us" "k \<notin> set vs" using srt by auto
  have "ch_waiting c k = Some x"
    using s items ns map_of_zip_at [OF lens(1) fresh(1)] by (simp add: queue_shows_def del: zip_append)
  moreover have "queue_shows (q\<lparr>dq_items := xs @ ys\<rparr>) (us @ vs) (channel_leave k c)"
    using s items ns lens srt(3) map_of_zip_remove [OF lens(1) fresh]
    by (simp add: queue_shows_def channel_leave_def ball_Un del: zip_append)
  ultimately show thesis using that ns lens srt by blast
qed

text \<open>A waiting message is an item of the queue at the place of its number.\<close>

lemma waiting_item:
  assumes "queue_shows q ns c" "ns = us @ k # vs" "dq_items q = xs @ x # ys" "length us = length xs"
    and "ch_waiting c n = Some m" "n < k"
  shows "m \<in> set xs"
proof -
  have "n \<notin> set (k # vs)" using assms(1,2,6) by (auto simp: queue_shows_def sorted_wrt_append)
  moreover have "map_of (zip (us @ k # vs) (xs @ x # ys)) n = Some m"
    using assms by (simp add: queue_shows_def)
  ultimately have "map_of (zip us xs) n = Some m" using assms(4)
    by (auto simp: map_add_Some_iff zip_absent)
  then show ?thesis by (rule zip_present)
qed

lemma pop_simulates:
  assumes s: "queue_shows q ns c"
  shows "\<exists>ns'. queue_shows (snd (queue_pop deadline now q)) ns' (snd (channel_pop deadline now c)) \<and>
    fst (queue_pop deadline now q) = fst (channel_pop deadline now c)"
proof (cases "dq_items q")
  case Nil
  then have "ch_waiting c = Map.empty" using s by (simp add: queue_shows_def)
  then show ?thesis using s Nil by (auto simp: queue_pop_def channel_pop_def)
next
  case (Cons x ys)
  then have "dq_items q = [] @ x # ys" by simp
  from queue_shows_leave [OF s this] obtain us k vs where l: "ns = us @ k # vs" "length us = length ([] :: 'a forwarder_message list)"
      "ch_waiting c k = Some x" "\<forall>v \<in> set vs. k < v"
      "queue_shows (q\<lparr>dq_items := [] @ ys\<rparr>) (us @ vs) (channel_leave k c)" by metis
  have "(LEAST n. n \<in> dom (ch_waiting c)) = k"
  proof (rule Least_equality)
    show "k \<in> dom (ch_waiting c)" using l(3) by blast
    fix n
    assume "n \<in> dom (ch_waiting c)"
    then show "k \<le> n" using waiting_item [OF s l(1) \<open>dq_items q = [] @ x # ys\<close> l(2)]
      by (metis domD empty_iff list.set(1) not_less)
  qed
  moreover have "ch_waiting c \<noteq> Map.empty" using l(3) by auto
  ultimately show ?thesis using l Cons by (auto simp: queue_pop_def channel_pop_def)
qed

lemma push_simulates:
  assumes s: "queue_shows q ns c"
  shows "\<exists>ns'. queue_shows (snd (queue_push item q)) ns' (snd (channel_push item c)) \<and>
    fst (queue_push item q) = fst (channel_push item c)"
proof (cases rule: queue_put_cases [of q item])
  case Room
  have "int (card (dom (ch_waiting c))) < ch_capacity c"
    using Room(1) queue_shows_card [OF s] s by (simp add: queue_shows_def)
  then show ?thesis using queue_shows_join [OF s, of item] Room(2) by (auto simp: channel_push_def)
next
  case (Evicted d xs ys)
  obtain us k vs where l: "ns = us @ k # vs" "length us = length xs" "ch_waiting c k = Some d"
      "queue_shows (q\<lparr>dq_items := xs @ ys\<rparr>) (us @ vs) (channel_leave k c)"
    using queue_shows_leave [OF s Evicted(3)] by metis
  have k: "waits_droppable c k" using l(3) Evicted(4) by (simp add: waits_droppable_def)
  have "(LEAST n. waits_droppable c n) = k"
  proof (rule Least_equality)
    fix n
    assume "waits_droppable c n"
    then show "k \<le> n" using waiting_item [OF s l(1) Evicted(3) l(2)] Evicted(5)
      unfolding waits_droppable_def by (metis not_less)
  qed (rule k)
  moreover have "\<exists>n. waits_droppable c n" using k by blast
  moreover have "\<not> int (card (dom (ch_waiting c))) < ch_capacity c"
    using Evicted(1) queue_shows_card [OF s] s by (simp add: queue_shows_def)
  ultimately have "channel_push item c =
      (\<lparr>pr_accepted = True, pr_dropped = Some d, pr_reason = ''evicted_non_keyframe''\<rparr>,
       channel_join item (channel_leave k c))"
    using Evicted(2) l(3) by (simp add: channel_push_def Let_def)
  then show ?thesis using queue_shows_join [OF l(4), of item] Evicted(6) by auto
next
  case Refused
  have full: "\<not> int (card (dom (ch_waiting c))) < ch_capacity c"
    using Refused(1) queue_shows_card [OF s] s by (simp add: queue_shows_def)
  have "m \<in> set (dq_items q)" if "ch_waiting c n = Some m" for n m
    using s that by (auto simp: queue_shows_def dest!: map_of_SomeD set_zip_rightD)
  then have "droppable item \<or> \<not> (\<exists>n. waits_droppable c n)"
    using Refused(2) by (auto simp: waits_droppable_def)
  then show ?thesis using s full Refused(3) by (auto simp: channel_push_def)
qed

section \<open>Runs\<close>

datatype 'm queue_op = Push_Op "'m forwarder_message" | Pop_Op real real
datatype 'm queue_reply = Pushed "'m push_result" | Turned "'m pop_turn"

fun queue_replies :: "'m queue_op list \<Rightarrow> 'm drop_queue \<Rightarrow> 'm queue_reply list" where
  "queue_replies [] q = []"
| "queue_replies (Push_Op item # ops) q = (let (r, q') = queue_push item q in Pushed r # queue_replies ops q')"
| "queue_replies (Pop_Op deadline now # ops) q =
     (let (r, q') = queue_pop deadline now q in Turned r # queue_replies ops q')"

fun channel_replies :: "'m queue_op list \<Rightarrow> 'm channel \<Rightarrow> 'm queue_reply list" where
  "channel_replies [] c = []"
| "channel_replies (Push_Op item # ops) c =
     (let (r, c') = channel_push item c in Pushed r # channel_replies ops c')"
| "channel_replies (Pop_Op deadline now # ops) c =
     (let (r, c') = channel_pop deadline now c in Turned r # channel_replies ops c')"

lemma replies_simulate: "queue_shows q ns c \<Longrightarrow> queue_replies ops q = channel_replies ops c"
proof (induction ops arbitrary: q ns c)
  case (Cons e ops)
  show ?case
  proof (cases e)
    case (Push_Op item)
    obtain ns' where "queue_shows (snd (queue_push item q)) ns' (snd (channel_push item c))"
        "fst (queue_push item q) = fst (channel_push item c)"
      using push_simulates [OF Cons.prems] by blast
    with Cons.IH [OF this(1)] show ?thesis by (simp add: Push_Op Let_def split_beta)
  next
    case (Pop_Op deadline now)
    obtain ns' where "queue_shows (snd (queue_pop deadline now q)) ns' (snd (channel_pop deadline now c))"
        "fst (queue_pop deadline now q) = fst (channel_pop deadline now c)"
      using pop_simulates [OF Cons.prems] by blast
    with Cons.IH [OF this(1)] show ?thesis by (simp add: Pop_Op Let_def split_beta)
  qed
qed simp

text \<open>
  C6: The drop queue refines the abstract channel: whatever producers and consumers do, in whatever
  order, every push and every turn of a pop answers as the channel does, so messages leave in the
  order in which they arrived, and a full queue gives up the oldest ordinary frame for a key frame or
  a control message and refuses everything else.
\<close>

theorem queue_refines_channel:
  "queue_replies ops (drop_queue_init n) = channel_replies ops (channel_init n)"
  by (rule replies_simulate [where ns = "[]"]) (simp add: queue_shows_def drop_queue_init_def channel_init_def)

end
