(* ===== verification/Forwarder.thy ===== *)
theory Forwarder
  imports ForwardQueue Sampler
begin

text \<open>
  The analysis forwarder (services/analysis-forwarder/app/main.py): its configuration and metrics,
  the reader thread that samples the frames of the cameras into the drop queue and copies them to
  the raw branch, and the two writer threads.  A turn of a thread is one atomic region of its loop;
  a run is any sequence of turns and of the stop signal.  The sockets are outside: a turn's
  argument is the message that the reader receives or the result that a writer gets.
\<close>

section \<open>Configuration\<close>

record forwarder_config =
  fw_in_endpoint :: string
  fw_out_endpoint :: string
  fw_raw_out_endpoint :: string
  fw_analysis_fps :: string
  fw_min_fps :: string
  fw_sampler_enabled :: bool
  fw_queue_max_size :: int
  fw_receive_timeout_ms :: int
  fw_receive_hwm :: int
  fw_send_timeout_ms :: int
  fw_send_retries :: int
  fw_send_hwm :: int
  fw_metrics_port :: int
  fw_require_object_namespace :: string
  fw_require_object_label :: string
  fw_require_attribute_namespace :: string
  fw_require_attribute_name :: string

definition env_text :: "environ \<Rightarrow> string \<Rightarrow> string \<Rightarrow> string" where
  "env_text env name d = (case env name of None \<Rightarrow> d | Some v \<Rightarrow> v)"

definition forwarder_int_env :: "environ \<Rightarrow> string \<Rightarrow> int \<Rightarrow> int" where
  "forwarder_int_env env name d =
     (case parse_int (env_text env name (int_dec d)) of Some i \<Rightarrow> i | None \<Rightarrow> d)"

definition forwarder_bool_env :: "environ \<Rightarrow> string \<Rightarrow> bool \<Rightarrow> bool" where
  "forwarder_bool_env env name d =
     (case env name of
        None \<Rightarrow> d
      | Some raw \<Rightarrow> if raw = [] then d else py_lower (py_strip raw) \<in> {''1'', ''true'', ''yes'', ''on''})"

definition forwarder_config_from_env :: "environ \<Rightarrow> forwarder_config" where
  "forwarder_config_from_env env =
     \<lparr>fw_in_endpoint = env_text env ''FORWARDER_IN_ENDPOINT'' ''router+bind:tcp://0.0.0.0:5557'',
      fw_out_endpoint = env_text env ''FORWARDER_OUT_ENDPOINT'' ''dealer+connect:tcp://savant-security:5557'',
      fw_raw_out_endpoint = env_text env ''FORWARDER_RAW_OUT_ENDPOINT'' [],
      fw_analysis_fps = env_text env ''ANALYSIS_FPS'' (env_text env ''MAX_FPS'' ''8/1''),
      fw_min_fps = env_text env ''ANALYSIS_MIN_FPS'' (env_text env ''MIN_FPS'' ''2/1''),
      fw_sampler_enabled = forwarder_bool_env env ''FORWARDER_SAMPLER_ENABLED'' True,
      fw_queue_max_size = forwarder_int_env env ''FORWARDER_QUEUE_MAX_SIZE'' 2048,
      fw_receive_timeout_ms = forwarder_int_env env ''FORWARDER_RECEIVE_TIMEOUT_MS'' 1000,
      fw_receive_hwm = forwarder_int_env env ''FORWARDER_RECEIVE_HWM'' 1000,
      fw_send_timeout_ms = forwarder_int_env env ''FORWARDER_SEND_TIMEOUT_MS'' 2000,
      fw_send_retries = forwarder_int_env env ''FORWARDER_SEND_RETRIES'' 3,
      fw_send_hwm = forwarder_int_env env ''FORWARDER_SEND_HWM'' 1000,
      fw_metrics_port = forwarder_int_env env ''FORWARDER_METRICS_PORT'' 8081,
      fw_require_object_namespace = env_text env ''FORWARDER_REQUIRE_OBJECT_NAMESPACE'' [],
      fw_require_object_label = env_text env ''FORWARDER_REQUIRE_OBJECT_LABEL'' [],
      fw_require_attribute_namespace = env_text env ''FORWARDER_REQUIRE_ATTRIBUTE_NAMESPACE'' [],
      fw_require_attribute_name = env_text env ''FORWARDER_REQUIRE_ATTRIBUTE_NAME'' []\<rparr>"

definition is_null_endpoint :: "string \<Rightarrow> bool" where
  "is_null_endpoint value =
     (let normalized = py_lower (py_strip value)
      in normalized \<in> {''null'', ''none'', ''null://''} \<or> starts_with ''null://'' normalized)"

section \<open>Metrics\<close>

record forwarder_metrics =
  mx_by_source :: "(string, (string, int) dict) dict"
  mx_queue_depth :: int
  mx_raw_queue_depth :: int
  mx_running :: int
  mx_null_sink_enabled :: int

definition metrics_init :: forwarder_metrics where
  "metrics_init =
     \<lparr>mx_by_source = [], mx_queue_depth = 0, mx_raw_queue_depth = 0, mx_running = 1, mx_null_sink_enabled = 0\<rparr>"

definition metric_key :: "string \<Rightarrow> string" where
  "metric_key source_id = (if source_id = [] then ''_unknown_source'' else source_id)"

definition metrics_inc :: "string \<Rightarrow> string \<Rightarrow> forwarder_metrics \<Rightarrow> forwarder_metrics" where
  "metrics_inc source_id name m =
     (let counters = dget_or (mx_by_source m) (metric_key source_id) []
      in m\<lparr>mx_by_source :=
            dset (metric_key source_id) (dset name (dget_or counters name 0 + 1) counters) (mx_by_source m)\<rparr>)"

definition set_queue_depth :: "int \<Rightarrow> forwarder_metrics \<Rightarrow> forwarder_metrics" where
  "set_queue_depth value m = m\<lparr>mx_queue_depth := max value 0\<rparr>"

definition set_raw_queue_depth :: "int \<Rightarrow> forwarder_metrics \<Rightarrow> forwarder_metrics" where
  "set_raw_queue_depth value m = m\<lparr>mx_raw_queue_depth := max value 0\<rparr>"

definition counter :: "forwarder_metrics \<Rightarrow> string \<Rightarrow> string \<Rightarrow> int" where
  "counter m k name = dget_or (dget_or (mx_by_source m) k []) name 0"

definition replace_char :: "char \<Rightarrow> string \<Rightarrow> string \<Rightarrow> string" where
  "replace_char c r s = concat (map (\<lambda>x. if x = c then r else [x]) s)"

definition escape_label :: "string \<Rightarrow> string" where
  "escape_label value =
     replace_char CHR 0x22 [CHR 0x5C, CHR 0x22] (replace_char CHR 0x5C [CHR 0x5C, CHR 0x5C] value)"

definition metric_names :: "(string \<times> string) list" where
  "metric_names =
     [(''seen'', ''va_forwarder_frames_seen_total''),
      (''forwarded'', ''va_forwarder_frames_forwarded_total''),
      (''dropped'', ''va_forwarder_frames_dropped_total''),
      (''send_failures'', ''va_forwarder_savant_send_failures_total''),
      (''raw_forwarded'', ''va_forwarder_raw_frames_forwarded_total''),
      (''raw_send_failures'', ''va_forwarder_raw_send_failures_total''),
      (''raw_dropped'', ''va_forwarder_raw_frames_dropped_total''),
      (''metadata_filtered'', ''va_forwarder_metadata_filtered_total'')]"

definition counter_lines :: "forwarder_metrics \<Rightarrow> string \<times> string \<Rightarrow> string list" where
  "counter_lines m = (\<lambda>(key, prom_name).
     (''# TYPE '' @ prom_name @ '' counter'') #
     map (\<lambda>source_id. prom_name @ ''{source_id='' @ [CHR 0x22] @ escape_label source_id @ [CHR 0x22] @ ''} '' @
            int_dec (counter m source_id key))
       (sorted_strings (map fst (mx_by_source m))))"

definition gauge_lines :: "string \<Rightarrow> string \<Rightarrow> int \<Rightarrow> string list" where
  "gauge_lines name help value =
     [''# HELP '' @ name @ '' '' @ help, ''# TYPE '' @ name @ '' gauge'', name @ '' '' @ int_dec value]"

definition render_prometheus :: "forwarder_metrics \<Rightarrow> string" where
  "render_prometheus m =
     py_join [CHR 0x0A]
       (gauge_lines ''va_forwarder_queue_depth'' ''Current analysis-forwarder queue depth.'' (mx_queue_depth m) @
        gauge_lines ''va_forwarder_raw_queue_depth'' ''Current raw evidence branch queue depth.'' (mx_raw_queue_depth m) @
        gauge_lines ''va_forwarder_running'' ''Whether the analysis-forwarder main process is running.'' (mx_running m) @
        gauge_lines ''va_forwarder_null_sink_enabled''
          ''Whether forwarded frames are counted without sending to Savant.'' (mx_null_sink_enabled m) @
        concat (map (counter_lines m) metric_names)) @ [CHR 0x0A]"

section \<open>Messages\<close>

text \<open>
  A message of the transport is one of these kinds, by the predicates \<open>is_video_frame\<close>,
  \<open>is_end_of_stream\<close> and \<open>is_shutdown\<close>; a frame comes with the outcome of reading its objects.
  The content is the byte string of the message or nothing.
\<close>

datatype zmq_payload =
    Video_Message video_frame "meta_object list result"
  | Eos_Message pyval
  | Shutdown_Message
  | Other_Message

type_synonym zmq_message = "zmq_payload \<times> string option"
type_synonym forward_item = "zmq_payload forwarder_message"

definition content_of :: "zmq_message \<Rightarrow> string" where
  "content_of z = (case snd z of None \<Rightarrow> [] | Some c \<Rightarrow> c)"

section \<open>The threads\<close>

datatype reader_place = Reader_Check | Reader_Waits | Reader_Holds forward_item | Reader_Ended
datatype writer_place = Writer_Check | Writer_Waits | Writer_Holds forward_item | Writer_Ended

record forwarder =
  fo_metrics :: forwarder_metrics
  fo_queue :: "zmq_payload drop_queue"
  fo_sampler :: pts_sampler
  fo_filter :: metadata_filter
  fo_raw_sink_enabled :: bool
  fo_null_sink :: bool
  fo_raw_queue :: "zmq_payload raw_queue"
  fo_stop :: bool
  fo_reader :: reader_place
  fo_writer :: writer_place
  fo_raw_writer :: writer_place

definition forwarder_init :: "(pyval \<Rightarrow> string) \<Rightarrow> forwarder_config \<Rightarrow> forwarder" where
  "forwarder_init rp cfg =
     (let null_sink = is_null_endpoint (fw_out_endpoint cfg)
      in \<lparr>fo_metrics = (if null_sink then metrics_init\<lparr>mx_null_sink_enabled := 1\<rparr> else metrics_init),
          fo_queue = drop_queue_init (fw_queue_max_size cfg),
          fo_sampler = sampler_init rp (PBool (fw_sampler_enabled cfg)) (PStr (fw_analysis_fps cfg)) (PStr (fw_min_fps cfg)),
          fo_filter = metadata_filter_init (fw_require_object_namespace cfg) (fw_require_object_label cfg)
            (fw_require_attribute_namespace cfg) (fw_require_attribute_name cfg),
          fo_raw_sink_enabled = (\<not> is_null_endpoint (fw_raw_out_endpoint cfg)),
          fo_null_sink = null_sink,
          fo_raw_queue = \<lparr>rq_maxsize = fw_queue_max_size cfg, rq_items = []\<rparr>,
          fo_stop = False, fo_reader = Reader_Check, fo_writer = Writer_Check, fo_raw_writer = Writer_Check\<rparr>)"

definition inc_metric :: "string \<Rightarrow> string \<Rightarrow> forwarder \<Rightarrow> forwarder" where
  "inc_metric source_id name s = s\<lparr>fo_metrics := metrics_inc source_id name (fo_metrics s)\<rparr>"

definition raw_depth :: "forwarder \<Rightarrow> forwarder" where
  "raw_depth s = s\<lparr>fo_metrics := set_raw_queue_depth (int (length (rq_items (fo_raw_queue s)))) (fo_metrics s)\<rparr>"

definition queue_depth :: "forwarder \<Rightarrow> forwarder" where
  "queue_depth s = s\<lparr>fo_metrics := set_queue_depth (int (length (dq_items (fo_queue s)))) (fo_metrics s)\<rparr>"

definition fanout_raw :: "string \<Rightarrow> zmq_message \<Rightarrow> forwarder \<Rightarrow> forwarder" where
  "fanout_raw source_id z s =
     (if \<not> fo_raw_sink_enabled s then s
      else
        (let item = \<lparr>fm_topic = source_id, fm_message = fst z, fm_content = content_of z, fm_source_id = source_id,
                     fm_keyframe = False, fm_video_frame = True\<rparr>;
             (taken, q) = raw_put item (fo_raw_queue s)
         in if taken then raw_depth (s\<lparr>fo_raw_queue := q\<rparr>) else inc_metric source_id ''raw_dropped'' s))"

definition build_queue_item :: "(pyval \<Rightarrow> string) \<Rightarrow> zmq_message \<Rightarrow> forwarder \<Rightarrow> forward_item option \<times> forwarder" where
  "build_queue_item rp z s =
     (case fst z of
        Video_Message f objects \<Rightarrow>
          (let source_id = py_str rp (py_or (vf_source_id f) (PStr []));
               s1 = fanout_raw source_id z (inc_metric source_id ''seen'' s)
           in if \<not> metadata_admit rp (fo_filter s1) objects
              then (None, inc_metric source_id ''dropped'' (inc_metric source_id ''metadata_filtered'' s1))
              else
                (let (admitted, sampler) = sampler_admit rp f (fo_sampler s1); s2 = s1\<lparr>fo_sampler := sampler\<rparr>
                 in if \<not> admitted then (None, inc_metric source_id ''dropped'' s2)
                    else (Some \<lparr>fm_topic = source_id, fm_message = fst z, fm_content = content_of z,
                                fm_source_id = source_id, fm_keyframe = truthy (vf_keyframe f),
                                fm_video_frame = True\<rparr>, s2)))
      | Eos_Message source \<Rightarrow>
          (let source_id = py_str rp (py_or source (PStr []))
           in (Some \<lparr>fm_topic = source_id, fm_message = fst z, fm_content = content_of z, fm_source_id = source_id,
                     fm_keyframe = True, fm_video_frame = False\<rparr>, fanout_raw source_id z s))
      | Shutdown_Message \<Rightarrow>
          (Some \<lparr>fm_topic = ''shutdown'', fm_message = fst z, fm_content = content_of z, fm_source_id = ''_control'',
                 fm_keyframe = True, fm_video_frame = False\<rparr>, s)
      | Other_Message \<Rightarrow> (None, inc_metric ''_unsupported'' ''dropped'' s))"

text \<open>A turn of the reader: the loop's test, the receipt of a message, the push.\<close>

definition reader_turn :: "(pyval \<Rightarrow> string) \<Rightarrow> zmq_message option \<Rightarrow> forwarder \<Rightarrow> forwarder" where
  "reader_turn rp received s =
     (case fo_reader s of
        Reader_Check \<Rightarrow> s\<lparr>fo_reader := (if fo_stop s then Reader_Ended else Reader_Waits)\<rparr>
      | Reader_Waits \<Rightarrow>
          (case received of
             None \<Rightarrow> s\<lparr>fo_reader := Reader_Check\<rparr>
           | Some z \<Rightarrow>
               (let (item, s1) = build_queue_item rp z s
                in s1\<lparr>fo_reader := (case item of None \<Rightarrow> Reader_Check | Some i \<Rightarrow> Reader_Holds i)\<rparr>))
      | Reader_Holds item \<Rightarrow>
          (let (result, q) = queue_push item (fo_queue s); s1 = s\<lparr>fo_queue := q, fo_reader := Reader_Check\<rparr>
           in queue_depth (case pr_dropped result of None \<Rightarrow> s1 | Some d \<Rightarrow> inc_metric (fm_source_id d) ''dropped'' s1))
      | Reader_Ended \<Rightarrow> s)"

text \<open>The outcome of \<open>send_message\<close>: the name of the result's type, or an exception.\<close>

datatype send_outcome = Send_Returned string | Send_Raised

definition success_results :: "string list" where
  "success_results = [''WriterResultSuccess'', ''WriterResultAck'']"

fun send_succeeds :: "send_outcome \<Rightarrow> bool" where
  "send_succeeds (Send_Returned r) = (r \<in> set success_results)"
| "send_succeeds Send_Raised = False"

text \<open>The null writer answers every message with success.\<close>

definition writer_outcome :: "forwarder \<Rightarrow> send_outcome \<Rightarrow> send_outcome" where
  "writer_outcome s oc = (if fo_null_sink s then Send_Returned ''WriterResultSuccess'' else oc)"

definition writer_turn :: "real \<Rightarrow> real \<Rightarrow> send_outcome \<Rightarrow> forwarder \<Rightarrow> forwarder" where
  "writer_turn deadline now oc s =
     (case fo_writer s of
        Writer_Check \<Rightarrow> s\<lparr>fo_writer := (if fo_stop s then Writer_Ended else Writer_Waits)\<rparr>
      | Writer_Waits \<Rightarrow>
          (let (turn, q) = queue_pop deadline now (fo_queue s)
           in case turn of
                Popped item \<Rightarrow> queue_depth (s\<lparr>fo_queue := q, fo_writer := Writer_Holds item\<rparr>)
              | Timed_Out \<Rightarrow> queue_depth (s\<lparr>fo_writer := Writer_Check\<rparr>)
              | Waiting _ \<Rightarrow> s)
      | Writer_Holds item \<Rightarrow>
          (let s1 = s\<lparr>fo_writer := Writer_Check\<rparr>
           in if send_succeeds (writer_outcome s oc)
              then (if fm_video_frame item then inc_metric (fm_source_id item) ''forwarded'' s1 else s1)
              else inc_metric (fm_source_id item) ''dropped'' (inc_metric (fm_source_id item) ''send_failures'' s1))
      | Writer_Ended \<Rightarrow> s)"

text \<open>
  The raw writer's loop tests \<open>not stopped or queue not empty\<close>; waiting for an item ends with the
  timeout, given by the turn's argument, only while the queue is empty.
\<close>

definition raw_turn :: "bool \<Rightarrow> send_outcome \<Rightarrow> forwarder \<Rightarrow> forwarder" where
  "raw_turn timed_out oc s =
     (case fo_raw_writer s of
        Writer_Check \<Rightarrow>
          s\<lparr>fo_raw_writer := (if \<not> fo_stop s \<or> rq_items (fo_raw_queue s) \<noteq> [] then Writer_Waits else Writer_Ended)\<rparr>
      | Writer_Waits \<Rightarrow>
          (case raw_get (fo_raw_queue s) of
             (Some item, q) \<Rightarrow> s\<lparr>fo_raw_queue := q, fo_raw_writer := Writer_Holds item\<rparr>
           | (None, _) \<Rightarrow> if timed_out then raw_depth (s\<lparr>fo_raw_writer := Writer_Check\<rparr>) else s)
      | Writer_Holds item \<Rightarrow>
          raw_depth (inc_metric (fm_source_id item)
            (if send_succeeds oc then ''raw_forwarded'' else ''raw_send_failures'')
            (s\<lparr>fo_raw_writer := Writer_Check\<rparr>))
      | Writer_Ended \<Rightarrow> s)"

datatype forwarder_event =
    Reader_Turn "zmq_message option"
  | Writer_Turn real real send_outcome
  | Raw_Turn bool send_outcome
  | Stop_Signal

definition forwarder_step :: "(pyval \<Rightarrow> string) \<Rightarrow> forwarder_event \<Rightarrow> forwarder \<Rightarrow> forwarder" where
  "forwarder_step rp e s =
     (case e of
        Reader_Turn received \<Rightarrow> reader_turn rp received s
      | Writer_Turn deadline now oc \<Rightarrow> writer_turn deadline now oc s
      | Raw_Turn timed_out oc \<Rightarrow> if fo_raw_sink_enabled s then raw_turn timed_out oc s else s
      | Stop_Signal \<Rightarrow> s\<lparr>fo_stop := True\<rparr>)"

definition forwarder_shutdown :: "forwarder \<Rightarrow> forwarder" where
  "forwarder_shutdown s = s\<lparr>fo_metrics := (fo_metrics s)\<lparr>mx_running := 0\<rparr>\<rparr>"

end
