(* ===== verification/ForwarderRuns.thy ===== *)
theory ForwarderRuns
  imports Forwarder
begin

text \<open>
  Runs of the analysis forwarder: every message that the reader receives is delivered, dropped with
  a count, or still in transit, in every interleaving of the threads; a key frame that the metadata
  filter lets through is refused only by a queue of key frames and control messages; and after the
  stop signal the raw branch's thread empties its queue and ends.
\<close>

section \<open>What the counters count\<close>

definition arrival_source :: "(pyval \<Rightarrow> string) \<Rightarrow> zmq_message \<Rightarrow> string" where
  "arrival_source rp z =
     (case fst z of
        Video_Message f _ \<Rightarrow> metric_key (py_str rp (py_or (vf_source_id f) (PStr [])))
      | Eos_Message source \<Rightarrow> metric_key (py_str rp (py_or source (PStr [])))
      | Shutdown_Message \<Rightarrow> ''_control''
      | Other_Message \<Rightarrow> ''_unsupported'')"

definition is_video :: "zmq_message \<Rightarrow> bool" where
  "is_video z \<longleftrightarrow> (\<exists>f objects. fst z = Video_Message f objects)"

definition is_copied :: "zmq_message \<Rightarrow> bool" where
  "is_copied z \<longleftrightarrow> is_video z \<or> (\<exists>source. fst z = Eos_Message source)"

definition arrives_from :: "(pyval \<Rightarrow> string) \<Rightarrow> string \<Rightarrow> zmq_message \<Rightarrow> bool" where
  "arrives_from rp k z \<longleftrightarrow> arrival_source rp z = k"

definition item_from :: "string \<Rightarrow> forward_item \<Rightarrow> bool" where
  "item_from k i \<longleftrightarrow> metric_key (fm_source_id i) = k"

fun held_by_reader :: "reader_place \<Rightarrow> forward_item list" where
  "held_by_reader (Reader_Holds i) = [i]"
| "held_by_reader _ = []"

fun held_by_writer :: "writer_place \<Rightarrow> forward_item list" where
  "held_by_writer (Writer_Holds i) = [i]"
| "held_by_writer _ = []"

definition in_transit :: "forwarder \<Rightarrow> forward_item list" where
  "in_transit s = held_by_reader (fo_reader s) @ dq_items (fo_queue s) @ held_by_writer (fo_writer s)"

definition raw_in_transit :: "forwarder \<Rightarrow> forward_item list" where
  "raw_in_transit s = rq_items (fo_raw_queue s) @ held_by_writer (fo_raw_writer s)"

definition tally :: "('a \<Rightarrow> bool) \<Rightarrow> 'a list \<Rightarrow> int" where
  "tally P xs = int (length (filter P xs))"

lemma tally_simps [simp]:
  "tally P [] = 0" "tally P (x # xs) = (if P x then 1 else 0) + tally P xs" "tally P (xs @ ys) = tally P xs + tally P ys"
  by (simp_all add: tally_def)

text \<open>The messages received and the items delivered by a step.\<close>

definition received_by :: "forwarder_event \<Rightarrow> forwarder \<Rightarrow> zmq_message list" where
  "received_by e s =
     (case e of Reader_Turn (Some z) \<Rightarrow> if fo_reader s = Reader_Waits then [z] else [] | _ \<Rightarrow> [])"

definition delivered_by :: "forwarder_event \<Rightarrow> forwarder \<Rightarrow> forward_item list" where
  "delivered_by e s =
     (case e of
        Writer_Turn _ _ oc \<Rightarrow> if send_succeeds (writer_outcome s oc) then held_by_writer (fo_writer s) else []
      | _ \<Rightarrow> [])"

type_synonym logged = "forwarder \<times> zmq_message list \<times> forward_item list"

definition logged_step :: "(pyval \<Rightarrow> string) \<Rightarrow> forwarder_event \<Rightarrow> logged \<Rightarrow> logged" where
  "logged_step rp e = (\<lambda>(s, received, delivered).
     (forwarder_step rp e s, received @ received_by e s, delivered @ delivered_by e s))"

section \<open>The balance\<close>

lemma counter_inc [simp]:
  "counter (metrics_inc source_id name m) k n =
     counter m k n + (if k = metric_key source_id \<and> n = name then 1 else 0)"
  by (simp add: counter_def metrics_inc_def Let_def dict_simps)

lemma counter_depth [simp]:
  "counter (set_queue_depth v m) k n = counter m k n"
  "counter (set_raw_queue_depth v m) k n = counter m k n"
  by (simp_all add: counter_def set_queue_depth_def set_raw_queue_depth_def)

lemmas forwarder_ops = inc_metric_def raw_depth_def queue_depth_def

lemma counter_inc_item:
  "counter (metrics_inc (fm_source_id i) name m) k n = counter m k n + (if item_from k i \<and> n = name then 1 else 0)"
  by (auto simp: item_from_def)

lemmas turn_simps = forwarder_ops counter_inc_item

lemma push_tally:
  "queue_push item q = (result, q') \<Longrightarrow>
   tally P (dq_items q) + (if P item then 1 else 0) =
     tally P (dq_items q') + (case pr_dropped result of None \<Rightarrow> 0 | Some d \<Rightarrow> if P d then 1 else 0)"
  using drop_queue.put_counts [of item q "pr_dropped result" q' P]
  by (auto simp: queue_put_def tally_def split: option.splits if_splits)

lemma pop_tally:
  "queue_pop deadline now q = (turn, q') \<Longrightarrow>
   tally P (dq_items q) =
     tally P (dq_items q') + (case turn of Popped i \<Rightarrow> if P i then 1 else 0 | _ \<Rightarrow> 0)"
  using drop_queue.take_counts [of q _ _ P]
  by (auto simp: queue_pop_def queue_take_def tally_def split: list.splits if_splits)

definition balanced :: "(pyval \<Rightarrow> string) \<Rightarrow> string \<Rightarrow> logged \<Rightarrow> bool" where
  "balanced rp k = (\<lambda>(s, received, delivered).
     tally (arrives_from rp k) received =
       tally (item_from k) delivered + counter (fo_metrics s) k ''dropped'' +
       tally (item_from k) (in_transit s) \<and>
     counter (fo_metrics s) k ''seen'' = tally (\<lambda>z. is_video z \<and> arrives_from rp k z) received \<and>
     counter (fo_metrics s) k ''forwarded'' = tally (\<lambda>i. fm_video_frame i \<and> item_from k i) delivered)"

definition raw_balanced :: "(pyval \<Rightarrow> string) \<Rightarrow> string \<Rightarrow> logged \<Rightarrow> bool" where
  "raw_balanced rp k = (\<lambda>(s, received, delivered).
     (if fo_raw_sink_enabled s then tally (\<lambda>z. is_copied z \<and> arrives_from rp k z) received else 0) =
       counter (fo_metrics s) k ''raw_forwarded'' + counter (fo_metrics s) k ''raw_send_failures'' +
       counter (fo_metrics s) k ''raw_dropped'' + tally (item_from k) (raw_in_transit s))"

text \<open>The fan-out touches only the raw branch.\<close>

lemma fanout_raw_fields [simp]:
  "fo_queue (fanout_raw src z s) = fo_queue s" "fo_sampler (fanout_raw src z s) = fo_sampler s"
  "fo_filter (fanout_raw src z s) = fo_filter s" "fo_reader (fanout_raw src z s) = fo_reader s"
  "fo_writer (fanout_raw src z s) = fo_writer s" "fo_raw_writer (fanout_raw src z s) = fo_raw_writer s"
  "fo_raw_sink_enabled (fanout_raw src z s) = fo_raw_sink_enabled s" "fo_stop (fanout_raw src z s) = fo_stop s"
  "fo_null_sink (fanout_raw src z s) = fo_null_sink s"
  by (simp_all add: fanout_raw_def forwarder_ops Let_def split_beta)

lemma fanout_raw_counter:
  "n \<noteq> ''raw_dropped'' \<Longrightarrow> counter (fo_metrics (fanout_raw src z s)) k n = counter (fo_metrics s) k n"
  by (simp add: fanout_raw_def forwarder_ops Let_def split_beta)

lemma fanout_raw_balance:
  "counter (fo_metrics (fanout_raw src z s)) k ''raw_dropped'' + tally (item_from k) (rq_items (fo_raw_queue (fanout_raw src z s))) =
     counter (fo_metrics s) k ''raw_dropped'' + tally (item_from k) (rq_items (fo_raw_queue s)) +
     (if fo_raw_sink_enabled s \<and> metric_key src = k then 1 else 0)"
  by (auto simp: fanout_raw_def forwarder_ops raw_put_def item_from_def Let_def)

text \<open>What the building of an item leaves alone and what it counts.\<close>

lemma build_queue_item_fields:
  "build_queue_item rp z s = (item, s1) \<Longrightarrow>
   fo_queue s1 = fo_queue s \<and> fo_reader s1 = fo_reader s \<and> fo_writer s1 = fo_writer s \<and>
   fo_raw_writer s1 = fo_raw_writer s \<and> fo_raw_sink_enabled s1 = fo_raw_sink_enabled s \<and> fo_stop s1 = fo_stop s"
  by (auto simp: build_queue_item_def inc_metric_def Let_def split: zmq_payload.splits if_splits prod.splits)

lemma build_queue_item_counts:
  assumes "build_queue_item rp z s = (item, s1)"
  shows "counter (fo_metrics s1) k ''dropped'' + tally (item_from k) (case item of None \<Rightarrow> [] | Some i \<Rightarrow> [i]) =
      counter (fo_metrics s) k ''dropped'' + (if arrives_from rp k z then 1 else 0)"
    and "counter (fo_metrics s1) k ''seen'' =
      counter (fo_metrics s) k ''seen'' + (if is_video z \<and> arrives_from rp k z then 1 else 0)"
    and "counter (fo_metrics s1) k ''forwarded'' = counter (fo_metrics s) k ''forwarded''"
    and "n \<in> {''raw_forwarded'', ''raw_send_failures''} \<Longrightarrow> counter (fo_metrics s1) k n = counter (fo_metrics s) k n"
    and "counter (fo_metrics s1) k ''raw_dropped'' + tally (item_from k) (rq_items (fo_raw_queue s1)) =
      counter (fo_metrics s) k ''raw_dropped'' + tally (item_from k) (rq_items (fo_raw_queue s)) +
      (if fo_raw_sink_enabled s \<and> is_copied z \<and> arrives_from rp k z then 1 else 0)"
  subgoal using assms
    by (auto simp: build_queue_item_def inc_metric_def Let_def fanout_raw_counter arrival_source_def arrives_from_def item_from_def
        metric_key_def split: zmq_payload.splits if_splits prod.splits)
  subgoal using assms
    by (auto simp: build_queue_item_def inc_metric_def Let_def fanout_raw_counter arrival_source_def arrives_from_def is_video_def
        metric_key_def split: zmq_payload.splits if_splits prod.splits)
  subgoal using assms
    by (auto simp: build_queue_item_def inc_metric_def Let_def fanout_raw_counter
        split: zmq_payload.splits if_splits prod.splits)
  subgoal using assms
    by (auto simp: build_queue_item_def inc_metric_def Let_def fanout_raw_counter
        split: zmq_payload.splits if_splits prod.splits)
  subgoal using assms
    by (auto simp: build_queue_item_def inc_metric_def Let_def fanout_raw_balance arrival_source_def arrives_from_def is_video_def
        is_copied_def split: zmq_payload.splits if_splits prod.splits)
  done

lemmas balance_defs = balanced_def raw_balanced_def in_transit_def raw_in_transit_def received_by_def delivered_by_def

lemma received_by_idle: "fo_reader s \<noteq> Reader_Waits \<Longrightarrow> received_by (Reader_Turn received) s = []"
  by (simp add: received_by_def split: option.splits)

lemma reader_turn_balanced:
  "balanced rp k (s, rcv, dlv) \<Longrightarrow>
   balanced rp k (reader_turn rp received s, rcv @ received_by (Reader_Turn received) s, dlv)"
proof (cases "fo_reader s")
  case Reader_Waits
  assume b: "balanced rp k (s, rcv, dlv)"
  show ?thesis
  proof (cases received)
    case (Some z)
    obtain item s1 where i: "build_queue_item rp z s = (item, s1)" by force
    show ?thesis
      using b build_queue_item_counts(1,2,3) [OF i, of k] build_queue_item_fields [OF i]
      by (cases item) (auto simp: balance_defs reader_turn_def Reader_Waits Some i)
  qed (use b in \<open>simp add: balance_defs reader_turn_def Reader_Waits\<close>)
next
  case (Reader_Holds item)
  assume b: "balanced rp k (s, rcv, dlv)"
  obtain result q where p: "queue_push item (fo_queue s) = (result, q)" by force
  show ?thesis using b push_tally [OF p, of "item_from k"]
    by (cases "pr_dropped result")
      (auto simp: received_by_idle balanced_def in_transit_def reader_turn_def Reader_Holds p turn_simps Let_def simp del: counter_inc)
qed (simp_all add: received_by_idle balanced_def in_transit_def reader_turn_def)

lemma writer_turn_balanced:
  "balanced rp k (s, rcv, dlv) \<Longrightarrow>
   balanced rp k (writer_turn deadline now oc s, rcv, dlv @ delivered_by (Writer_Turn deadline now oc) s)"
proof (cases "fo_writer s")
  case Writer_Waits
  assume b: "balanced rp k (s, rcv, dlv)"
  obtain turn q where p: "queue_pop deadline now (fo_queue s) = (turn, q)" by force
  show ?thesis using b pop_tally [OF p, of "item_from k"]
    by (cases turn) (auto simp: balance_defs writer_turn_def Writer_Waits p turn_simps Let_def simp del: counter_inc)
next
  case (Writer_Holds item)
  assume b: "balanced rp k (s, rcv, dlv)"
  then show ?thesis
    by (auto simp: balance_defs writer_turn_def Writer_Holds turn_simps Let_def simp del: counter_inc)
qed (simp_all add: balance_defs writer_turn_def)

lemma raw_turn_balanced:
  "balanced rp k (s, rcv, dlv) \<Longrightarrow> balanced rp k (raw_turn timed_out oc s, rcv, dlv)"
  by (auto simp: balance_defs raw_turn_def turn_simps Let_def simp del: counter_inc split: writer_place.splits option.splits prod.splits)

lemma logged_step_balanced: "balanced rp k l \<Longrightarrow> balanced rp k (logged_step rp e l)"
proof (cases l)
  case (fields s rcv dlv)
  assume b: "balanced rp k l"
  show ?thesis
  proof (cases e)
    case (Reader_Turn received)
    then show ?thesis using b reader_turn_balanced [of rp k s rcv dlv received] fields
      by (simp add: logged_step_def forwarder_step_def delivered_by_def)
  next
    case (Writer_Turn deadline now oc)
    then show ?thesis using b writer_turn_balanced [of rp k s rcv dlv deadline now oc] fields
      by (simp add: logged_step_def forwarder_step_def received_by_def)
  next
    case (Raw_Turn timed_out oc)
    then show ?thesis using b raw_turn_balanced [of rp k s rcv dlv timed_out oc] fields
      by (simp add: logged_step_def forwarder_step_def received_by_def delivered_by_def)
  next
    case Stop_Signal
    then show ?thesis using b fields
      by (simp add: logged_step_def forwarder_step_def balance_defs)
  qed
qed

lemma raw_get_tally:
  "raw_get q = (got, q') \<Longrightarrow>
   tally P (rq_items q) = tally P (rq_items q') + (case got of None \<Rightarrow> 0 | Some i \<Rightarrow> if P i then 1 else 0)"
  using raw_queue.take_counts [of q got q' P] by (auto simp: tally_def split: option.splits)

lemma idle_reader_turn:
  assumes "\<not> (fo_reader s = Reader_Waits \<and> received \<noteq> None)"
  shows "raw_in_transit (reader_turn rp received s) = raw_in_transit s"
    and "fo_raw_sink_enabled (reader_turn rp received s) = fo_raw_sink_enabled s"
    and "n \<in> {''raw_forwarded'', ''raw_send_failures'', ''raw_dropped''} \<Longrightarrow>
      counter (fo_metrics (reader_turn rp received s)) k n = counter (fo_metrics s) k n"
proof -
  show "raw_in_transit (reader_turn rp received s) = raw_in_transit s"
      "fo_raw_sink_enabled (reader_turn rp received s) = fo_raw_sink_enabled s"
    using assms by (auto simp: reader_turn_def raw_in_transit_def forwarder_ops Let_def
        split: reader_place.splits option.splits prod.splits)
  show "counter (fo_metrics (reader_turn rp received s)) k n = counter (fo_metrics s) k n"
    if "n \<in> {''raw_forwarded'', ''raw_send_failures'', ''raw_dropped''}"
    using assms that by (cases "fo_reader s") (auto simp: reader_turn_def forwarder_ops Let_def
        split: option.splits prod.splits)
qed

lemma raw_balanced_iff:
  "raw_balanced rp k (s, received, delivered) \<longleftrightarrow>
     (if fo_raw_sink_enabled s then tally (\<lambda>z. is_copied z \<and> arrives_from rp k z) received else 0) =
       counter (fo_metrics s) k ''raw_forwarded'' + counter (fo_metrics s) k ''raw_send_failures'' +
       counter (fo_metrics s) k ''raw_dropped'' + tally (item_from k) (raw_in_transit s)"
  by (simp add: raw_balanced_def)

lemma logged_step_raw_balanced: "raw_balanced rp k l \<Longrightarrow> raw_balanced rp k (logged_step rp e l)"
proof (cases l)
  case (fields s rcv dlv)
  assume b: "raw_balanced rp k l"
  show ?thesis
  proof (cases e)
    case (Reader_Turn received)
    show ?thesis
    proof (cases "fo_reader s = Reader_Waits \<and> received \<noteq> None")
      case True
      then obtain z where z: "received = Some z" "fo_reader s = Reader_Waits" by blast
      obtain item s1 where i: "build_queue_item rp z s = (item, s1)" by force
      show ?thesis
        using b build_queue_item_counts(4) [OF i, of "''raw_forwarded''" k]
          build_queue_item_counts(4) [OF i, of "''raw_send_failures''" k] build_queue_item_counts(5) [OF i, of k]
          build_queue_item_fields [OF i]
        by (simp add: fields raw_balanced_iff raw_in_transit_def received_by_def logged_step_def forwarder_step_def
            reader_turn_def Reader_Turn z i split: if_splits)
    next
      case False
      then have rcv: "received_by (Reader_Turn received) s = []"
        by (auto simp: received_by_def split: option.splits)
      show ?thesis using b idle_reader_turn [OF False]
        by (simp add: fields raw_balanced_iff logged_step_def forwarder_step_def Reader_Turn rcv)
    qed
  next
    case (Writer_Turn deadline now oc)
    then show ?thesis using b
      by (auto simp: fields logged_step_def forwarder_step_def balance_defs writer_turn_def turn_simps Let_def
          simp del: counter_inc split: writer_place.splits prod.splits pop_turn.splits)
  next
    case (Raw_Turn timed_out oc)
    obtain got q where g: "raw_get (fo_raw_queue s) = (got, q)" by force
    have get: "tally (item_from k) (rq_items (fo_raw_queue s)) =
        tally (item_from k) (rq_items q) +
        (case got of None \<Rightarrow> 0 | Some i \<Rightarrow> if item_from k i then 1 else 0)"
      by (rule raw_get_tally [OF g])
    show ?thesis using b Raw_Turn get
      by (cases "fo_raw_writer s"; cases got)
        (auto simp: fields logged_step_def forwarder_step_def balance_defs raw_turn_def g turn_simps Let_def simp del: counter_inc)
  next
    case Stop_Signal
    then show ?thesis using b
      by (simp add: fields logged_step_def forwarder_step_def balance_defs)
  qed
qed

definition forwarder_start :: "(pyval \<Rightarrow> string) \<Rightarrow> forwarder_config \<Rightarrow> logged" where
  "forwarder_start rp cfg = (forwarder_init rp cfg, [], [])"

lemma forwarder_start_balanced: "balanced rp k (forwarder_start rp cfg)" "raw_balanced rp k (forwarder_start rp cfg)"
  by (simp_all add: forwarder_start_def forwarder_init_def balance_defs counter_def metrics_init_def
      drop_queue_init_def Let_def)

interpretation balanced_forwarder: transition_system "forwarder_start rp cfg" "logged_step rp"
    "\<lambda>l. balanced rp k l \<and> raw_balanced rp k l" for rp cfg k
  by unfold_locales (simp_all add: forwarder_start_balanced logged_step_balanced logged_step_raw_balanced)

lemma logged_run_state:
  "fst (fold (logged_step rp) es l) = fold (forwarder_step rp) es (fst l)"
  by (induction es arbitrary: l) (auto simp: logged_step_def split: prod.splits)

text \<open>
  C7: In every interleaving of the reader, the two writers and the stop signal, for every source:
  the messages received are those delivered to Savant, those counted as dropped and those in transit,
  the counters of seen and forwarded frames are the frames received and delivered, and the messages
  that the raw branch should get are those it has forwarded, failed to send, dropped or still holds.
\<close>

theorem forwarder_accounts_for_every_message:
  "case fold (logged_step rp) es (forwarder_start rp cfg) of (s, received, delivered) \<Rightarrow>
     tally (arrives_from rp k) received =
       tally (item_from k) delivered + counter (fo_metrics s) k ''dropped'' +
       tally (item_from k) (in_transit s) \<and>
     counter (fo_metrics s) k ''seen'' = tally (\<lambda>z. is_video z \<and> arrives_from rp k z) received \<and>
     counter (fo_metrics s) k ''forwarded'' = tally (\<lambda>i. fm_video_frame i \<and> item_from k i) delivered \<and>
     (if fo_raw_sink_enabled s then tally (\<lambda>z. is_copied z \<and> arrives_from rp k z) received else 0) =
       counter (fo_metrics s) k ''raw_forwarded'' + counter (fo_metrics s) k ''raw_send_failures'' +
       counter (fo_metrics s) k ''raw_dropped'' + tally (item_from k) (raw_in_transit s)"
  using balanced_forwarder.run [of rp k es cfg]
  by (cases "fold (logged_step rp) es (forwarder_start rp cfg)") (simp add: balanced_def raw_balanced_def)

section \<open>Key frames\<close>

definition reader_idle :: "forwarder_event \<Rightarrow> bool" where
  "reader_idle e \<longleftrightarrow> (case e of Reader_Turn _ \<Rightarrow> False | _ \<Rightarrow> True)"

lemma reader_idle_step: "reader_idle e \<Longrightarrow> fo_reader (forwarder_step rp e s) = fo_reader s"
  by (auto simp: reader_idle_def forwarder_step_def writer_turn_def raw_turn_def forwarder_ops Let_def
      split: forwarder_event.splits writer_place.splits pop_turn.splits prod.splits option.splits)

lemma reader_idle_run:
  "\<forall>e \<in> set es. reader_idle e \<Longrightarrow> fo_reader (fold (forwarder_step rp) es s) = fo_reader s"
  by (induction es arbitrary: s) (auto simp: reader_idle_step)

lemma key_frame_admitted:
  "vf_keyframe f = PBool True \<Longrightarrow> \<not> content_is_none f \<Longrightarrow> fst (sampler_admit rp f s)"
  by (auto simp: sampler_admit_def sampler_admit_pts_def is_keyframe_def bool_or_none_def Let_def
      split: option.splits)

lemma key_frame_built:
  assumes "fo_reader s = Reader_Waits" "vf_keyframe f = PBool True" "\<not> content_is_none f"
    and "metadata_admit rp (fo_filter s) objects"
  obtains item where "fo_reader (reader_turn rp (Some (Video_Message f objects, content)) s) = Reader_Holds item"
    "fm_message item = Video_Message f objects" "\<not> droppable item"
proof -
  obtain sm where "sampler_admit rp f (fo_sampler s) = (True, sm)"
    using key_frame_admitted [OF assms(2,3), of rp "fo_sampler s"] by (metis prod.collapse)
  then show thesis using assms
    by (intro that) (auto simp: reader_turn_def build_queue_item_def inc_metric_def droppable_def Let_def)
qed

lemma pushed_or_refused:
  assumes "fo_reader s = Reader_Holds item" "\<not> droppable item"
  shows "item \<in> set (dq_items (fo_queue (reader_turn rp received s))) \<or>
    dq_max_size (fo_queue s) \<le> int (length (dq_items (fo_queue s))) \<and>
    (\<forall>x \<in> set (dq_items (fo_queue s)). \<not> droppable x)"
  using assms
  by (cases rule: queue_put_cases [of "fo_queue s" item])
    (auto simp: reader_turn_def forwarder_ops Let_def)

text \<open>
  A key frame that the metadata filter lets through is put into the queue to Savant, whatever the
  sampler's credit and whatever the other threads do meanwhile; only a queue that is full of key
  frames and control messages refuses it.
\<close>

theorem key_frame_reaches_queue:
  assumes "fo_reader s = Reader_Waits" "vf_keyframe f = PBool True" "\<not> content_is_none f"
    and "metadata_admit rp (fo_filter s) objects" "\<forall>e \<in> set es. reader_idle e"
  shows "let s1 = fold (forwarder_step rp) es (forwarder_step rp (Reader_Turn (Some (Video_Message f objects, content))) s)
     in (\<exists>item. fm_message item = Video_Message f objects \<and>
           item \<in> set (dq_items (fo_queue (forwarder_step rp (Reader_Turn received) s1)))) \<or>
        dq_max_size (fo_queue s1) \<le> int (length (dq_items (fo_queue s1))) \<and>
        (\<forall>x \<in> set (dq_items (fo_queue s1)). \<not> droppable x)"
proof -
  obtain item where item: "fo_reader (reader_turn rp (Some (Video_Message f objects, content)) s) = Reader_Holds item"
      "fm_message item = Video_Message f objects" "\<not> droppable item"
    using key_frame_built [OF assms(1-4)] .
  define s1 where "s1 = fold (forwarder_step rp) es (forwarder_step rp (Reader_Turn (Some (Video_Message f objects, content))) s)"
  have "fo_reader s1 = Reader_Holds item"
    using item(1) reader_idle_run [OF assms(5)] by (simp add: s1_def forwarder_step_def)
  from pushed_or_refused [OF this item(3), of rp received] show ?thesis
    unfolding Let_def s1_def [symmetric] using item(2) by (auto simp: forwarder_step_def)
qed

definition example_forwarder_config :: forwarder_config where
  "example_forwarder_config = (forwarder_config_from_env (\<lambda>_. None))\<lparr>fw_queue_max_size := 1, fw_raw_out_endpoint := ''dealer''\<rparr>"

definition example_key_frame :: video_frame where
  "example_key_frame =
     \<lparr>vf_source_id = PStr ''camera'', vf_pts = PNone, vf_time_base = PNone, vf_keyframe = PBool True,
      vf_uuid = PNone, vf_keyframe_uuid = PNone, vf_is_none = None\<rparr>"

definition example_waiting_forwarder :: forwarder where
  "example_waiting_forwarder = (forwarder_init (\<lambda>_. []) example_forwarder_config)\<lparr>fo_reader := Reader_Waits\<rparr>"

theorem key_frame_reaches_queue_witness:
  "let s1 = fold (forwarder_step (\<lambda>_. [])) []
       (forwarder_step (\<lambda>_. []) (Reader_Turn (Some (Video_Message example_key_frame (Inr []), None))) example_waiting_forwarder)
     in (\<exists>item. fm_message item = Video_Message example_key_frame (Inr []) \<and>
           item \<in> set (dq_items (fo_queue (forwarder_step (\<lambda>_. []) (Reader_Turn None) s1)))) \<or>
        dq_max_size (fo_queue s1) \<le> int (length (dq_items (fo_queue s1))) \<and>
        (\<forall>x \<in> set (dq_items (fo_queue s1)). \<not> droppable x)"
proof (rule key_frame_reaches_queue)
  show "fo_reader example_waiting_forwarder = Reader_Waits" by (simp add: example_waiting_forwarder_def)
  show "vf_keyframe example_key_frame = PBool True" by (simp add: example_key_frame_def)
  show "\<not> content_is_none example_key_frame" by (simp add: example_key_frame_def content_is_none_def)
  show "metadata_admit (\<lambda>_. []) (fo_filter example_waiting_forwarder) (Inr [])"
    by (simp add: example_waiting_forwarder_def forwarder_init_def example_forwarder_config_def
        forwarder_config_from_env_def env_text_def metadata_admit_def metadata_filter_init_def Let_def)
qed simp

section \<open>The end of the raw branch\<close>

text \<open>
  An upper bound of the turns that the raw writer still takes once the reader has ended and the stop
  signal is set, where a turn that waits on the empty queue ends with the timeout.
\<close>

definition raw_work :: "forwarder \<Rightarrow> nat" where
  "raw_work s =
     (let n = length (rq_items (fo_raw_queue s))
      in case fo_raw_writer s of
           Writer_Ended \<Rightarrow> 0
         | Writer_Check \<Rightarrow> 3 * n + 2
         | Writer_Waits \<Rightarrow> if n = 0 then 3 else 3 * n + 1
         | Writer_Holds _ \<Rightarrow> 3 * n + 3)"

fun raw_timeout :: "forwarder_event \<Rightarrow> bool" where
  "raw_timeout (Raw_Turn timed_out _) = timed_out"
| "raw_timeout _ = False"

definition ending :: "forwarder \<Rightarrow> bool" where
  "ending s \<longleftrightarrow> fo_stop s \<and> fo_reader s = Reader_Ended \<and> fo_raw_sink_enabled s \<and>
     (fo_raw_writer s = Writer_Ended \<longrightarrow> rq_items (fo_raw_queue s) = [])"

lemma ending_step: "ending s \<Longrightarrow> ending (forwarder_step rp e s)"
  by (cases e)
    (auto simp: ending_def forwarder_step_def reader_turn_def writer_turn_def raw_turn_def raw_get_def forwarder_ops
      Let_def split: writer_place.splits pop_turn.splits prod.splits option.splits list.splits)

lemma raw_work_step:
  "ending s \<Longrightarrow> raw_work (forwarder_step rp e s) \<le> raw_work s - (if raw_timeout e then 1 else 0)"
proof (cases e)
  case (Raw_Turn timed_out oc)
  assume "ending s"
  then show ?thesis
    by (cases "fo_raw_writer s"; cases "rq_items (fo_raw_queue s)")
      (auto simp: Raw_Turn ending_def forwarder_step_def raw_turn_def raw_get_def raw_work_def forwarder_ops Let_def)
qed (auto simp: ending_def raw_work_def forwarder_step_def reader_turn_def writer_turn_def forwarder_ops Let_def
    split: writer_place.splits pop_turn.splits prod.splits)

lemma raw_work_run:
  "ending s \<Longrightarrow> raw_work (fold (forwarder_step rp) es s) \<le> raw_work s - length (filter raw_timeout es)"
proof (induction es arbitrary: s)
  case (Cons e es)
  have "raw_work (fold (forwarder_step rp) (e # es) s) \<le> raw_work (forwarder_step rp e s) - length (filter raw_timeout es)"
    using Cons.IH [OF ending_step [OF Cons.prems]] by simp
  then show ?case using raw_work_step [OF Cons.prems, of rp e] by (auto split: if_splits)
qed simp

lemma ending_run: "ending s \<Longrightarrow> ending (fold (forwarder_step rp) es s)"
  by (induction es arbitrary: s) (auto intro: ending_step)

lemma raw_work_zero: "raw_work s = 0 \<longleftrightarrow> fo_raw_writer s = Writer_Ended"
  by (simp add: raw_work_def Let_def split: writer_place.splits)


definition example_ending_forwarder :: forwarder where
  "example_ending_forwarder =
     (forwarder_init (\<lambda>_. []) example_forwarder_config)
       \<lparr>fo_reader := Reader_Ended, fo_stop := True,
        fo_raw_queue := \<lparr>rq_maxsize = 1, rq_items =
          [\<lparr>fm_topic = ''camera'', fm_message = Eos_Message (PStr ''camera''), fm_content = [], fm_source_id = ''camera'',
            fm_keyframe = False, fm_video_frame = True\<rparr>]\<rparr>\<rparr>"


section \<open>Messages stranded by the stop signal\<close>

definition example_stop :: "forwarder_event list" where
  "example_stop =
     [Reader_Turn None, Stop_Signal, Raw_Turn True Send_Raised, Writer_Turn 0 0 Send_Raised,
      Reader_Turn (Some (Eos_Message (PStr ''camera''), None)), Reader_Turn None, Reader_Turn None]"

text \<open>
  The stop signal can strand messages without a trace in the counters: a message that the reader
  is receiving when the signal comes still goes into both queues, whose writers may have ended, the
  writer to Savant because its loop does not empty its queue, the raw writer because it has seen its
  queue empty before.
\<close>

theorem stop_strands_messages:
  "let s = fold (forwarder_step (\<lambda>_. [])) example_stop (forwarder_init (\<lambda>_. []) example_forwarder_config)
   in fo_reader s = Reader_Ended \<and> fo_writer s = Writer_Ended \<and> fo_raw_writer s = Writer_Ended \<and>
      length (dq_items (fo_queue s)) = 1 \<and> length (rq_items (fo_raw_queue s)) = 1 \<and>
      counter (fo_metrics s) ''camera'' ''dropped'' = 0 \<and> counter (fo_metrics s) ''camera'' ''raw_dropped'' = 0"
  by (simp add: example_stop_def forwarder_step_def reader_turn_def raw_turn_def writer_turn_def
      build_queue_item_def fanout_raw_def raw_put_def queue_push_def forwarder_ops forwarder_init_def
      example_forwarder_config_def forwarder_config_from_env_def env_text_def drop_queue_init_def py_or_def
      metrics_init_def counter_def set_queue_depth_def set_raw_queue_depth_def is_null_endpoint_def py_strip_def
      py_lower_def lower_char_def is_space_def Let_def)

end
