(* ===== verification/AlertPolicy.thy ===== *)
theory AlertPolicy
  imports PyValue
begin

text \<open>
  The alert policy of the event worker (services/event-worker/app/alert_policy.py) with the parts of
  the event store it relies on (services/event-worker/app/repository.py): the idempotent insertion
  of an event, the query for the last alert that was not suppressed and the marking of an event as
  suppressed.  The tables are lists of rows; the row number stands for the generated id.  The
  service sees the query only through the contract \<open>alert_history\<close>.
\<close>

section \<open>Events and rows\<close>

type_synonym event_doc = "(string \<times> pyval) list"

record event_row =
  ew_source_event_id :: string
  ew_event_type :: string
  ew_camera_id :: string
  ew_source_id :: string
  ew_track_id :: string
  ew_algorithm_type :: string
  ew_severity :: string
  ew_confidence :: pyfloat
  ew_start_ts_ms :: int
  ew_end_ts_ms :: int
  ew_event_ts_ms :: int
  ew_snapshot_required :: bool
  ew_clip_required :: bool
  ew_status :: string
  ew_alert_policy :: event_doc

text \<open>\<open>event.get("payload", {}).get("media", {})\<close>, which needs a mapping.\<close>

definition payload_media :: "event_doc \<Rightarrow> pyval result" where
  "payload_media event =
     (case dget_or event ''payload'' (PDict []) of
        PDict payload \<Rightarrow> Inr (dget_or payload ''media'' (PDict []))
      | _ \<Rightarrow> Inl Type_Error)"

text \<open>
  The parameters of the insertion.  The texts of the event are strings; the columns that the worker
  only passes on (person, versions, frame ids, media paths, the serialized documents) are left out.
\<close>

definition event_params :: "(pyval \<Rightarrow> string) \<Rightarrow> event_doc \<Rightarrow> event_row result" where
  "event_params rp event =
     rbind (payload_media event) (\<lambda>media.
     rbind (case media of PDict _ \<Rightarrow> Inr () | _ \<Rightarrow> Inl Type_Error) (\<lambda>_.
     rbind (py_float (dget_or event ''confidence'' (PFloat (Fin 0)))) (\<lambda>confidence.
     rbind (py_int (dget_or event ''start_ts_ms'' (PInt 0))) (\<lambda>start_ts_ms.
     rbind (py_int (py_or (pget event ''end_ts_ms'') (dget_or event ''start_ts_ms'' (PInt 0)))) (\<lambda>end_ts_ms.
     rbind (py_int (dget_or event ''event_ts_ms'' (PInt 0))) (\<lambda>event_ts_ms.
     Inr \<lparr>ew_source_event_id = py_str rp (dget_or event ''source_event_id'' (PStr [])),
          ew_event_type = py_str rp (dget_or event ''event_type'' (PStr [])),
          ew_camera_id = py_str rp (dget_or event ''camera_id'' (PStr [])),
          ew_source_id = py_str rp (dget_or event ''source_id'' (PStr [])),
          ew_track_id = py_str rp (dget_or event ''track_id'' (PStr [])),
          ew_algorithm_type = py_str rp (py_or (pget event ''algorithm_type'') (dget_or event ''event_type'' (PStr []))),
          ew_severity = py_str rp (dget_or event ''severity'' (PStr ''medium'')),
          ew_confidence = confidence, ew_start_ts_ms = start_ts_ms, ew_end_ts_ms = end_ts_ms,
          ew_event_ts_ms = event_ts_ms,
          ew_snapshot_required = truthy (dget_or event ''snapshot_required'' (PBool False)),
          ew_clip_required = truthy (dget_or event ''clip_required'' (PBool False)),
          ew_status = ''new'', ew_alert_policy = []\<rparr>))))))"

text \<open>\<open>ON CONFLICT (source_event_id) DO NOTHING RETURNING id\<close>: no id for a known source event id.\<close>

definition insert_event :: "(pyval \<Rightarrow> string) \<Rightarrow> event_doc \<Rightarrow> event_row list \<Rightarrow> (nat option \<times> event_row list) result" where
  "insert_event rp event rows =
     rbind (event_params rp event) (\<lambda>row.
       if \<exists>r \<in> set rows. ew_source_event_id r = ew_source_event_id row then Inr (None, rows)
       else Inr (Some (length rows), rows @ [row]))"

section \<open>The last alert\<close>

record alert_query =
  aq_camera_id :: string
  aq_exclude_source_event_id :: string
  aq_current_event_ts_ms :: int
  aq_event_type :: string
  aq_algorithm_type :: string
  aq_cooldown_scope :: string

definition text_or :: "string \<Rightarrow> string \<Rightarrow> string" where
  "text_or a b = (if a = [] then b else a)"

text \<open>The scope filter: \<open>None\<close> when the query has no key to look for.\<close>

definition scope_filter :: "alert_query \<Rightarrow> (event_row \<Rightarrow> bool) option" where
  "scope_filter q =
     (let scope = py_lower (py_strip (text_or (aq_cooldown_scope q) ''algorithm''))
      in if scope \<in> {''global'', ''camera'', ''camera_global''} then Some (\<lambda>_. True)
         else if scope \<in> {''event'', ''event_type''}
         then (if aq_event_type q = [] then None else Some (\<lambda>r. ew_event_type r = aq_event_type q))
         else
           (let key = text_or (aq_algorithm_type q) (aq_event_type q)
            in if key = [] then None
               else Some (\<lambda>r. text_or (ew_algorithm_type r) (ew_event_type r) = key)))"

text \<open>The rows that the \<open>WHERE\<close> clause admits.\<close>

definition alert_candidates :: "alert_query \<Rightarrow> event_row list \<Rightarrow> event_row list" where
  "alert_candidates q rows =
     (case (if aq_camera_id q = [] then None else scope_filter q) of
        None \<Rightarrow> []
      | Some in_scope \<Rightarrow>
          filter (\<lambda>r. ew_camera_id r = aq_camera_id q \<and>
            ew_source_event_id r \<noteq> aq_exclude_source_event_id q \<and> ew_status r \<noteq> ''suppressed'' \<and>
            (aq_current_event_ts_ms q \<le> 0 \<or> ew_event_ts_ms r \<le> aq_current_event_ts_ms q) \<and> in_scope r) rows)"

text \<open>\<open>ORDER BY event_ts_ms DESC LIMIT 1\<close>; the first of the newest rows in the order of the table.\<close>

fun newest_row :: "event_row list \<Rightarrow> event_row option" where
  "newest_row [] = None"
| "newest_row (r # rs) =
     (case newest_row rs of
        None \<Rightarrow> Some r
      | Some n \<Rightarrow> if ew_event_ts_ms n \<le> ew_event_ts_ms r then Some r else Some n)"

definition get_last_unsuppressed_alert :: "event_row list \<Rightarrow> alert_query \<Rightarrow> event_row option" where
  "get_last_unsuppressed_alert rows q = newest_row (alert_candidates q rows)"

definition mark_event_suppressed :: "nat \<Rightarrow> event_doc \<Rightarrow> event_row list \<Rightarrow> event_row list" where
  "mark_event_suppressed event_id decision rows =
     (if event_id < length rows
      then rows[event_id := (rows ! event_id)\<lparr>ew_status := ''suppressed'', ew_alert_policy := decision\<rparr>]
      else rows)"

section \<open>The decision\<close>

record alert_decision =
  ad_decision :: string
  ad_reason :: "string option"
  ad_cooldown_s :: int
  ad_last_alert_ts_ms :: "int option"
  ad_cooldown_scope :: string
  ad_cooldown_key :: string
  ad_last_alert_event_type :: "string option"
  ad_last_alert_algorithm_type :: "string option"

definition alert_suppressed :: "alert_decision \<Rightarrow> bool" where
  "alert_suppressed d \<longleftrightarrow> ad_decision d = ''suppress''"

definition cooldown_scope :: "(pyval \<Rightarrow> string) \<Rightarrow> event_doc \<Rightarrow> string" where
  "cooldown_scope rp policy =
     (let scope = py_lower (py_strip (py_str rp (py_or (pget policy ''cooldown_scope'') (PStr ''algorithm''))))
      in if scope \<in> {''global'', ''camera'', ''camera_global''} then ''global''
         else if scope \<in> {''event'', ''event_type''} then ''event_type''
         else if scope \<in> {''algorithm'', ''algorithm_type''} then ''algorithm''
         else ''algorithm'')"

definition alert_cooldown_key :: "string \<Rightarrow> string \<Rightarrow> string \<Rightarrow> string" where
  "alert_cooldown_key event_type algorithm_type scope =
     (if scope = ''global'' then ''global''
      else if scope = ''event_type'' then event_type
      else text_or algorithm_type event_type)"

definition is_identity_event :: "string \<Rightarrow> string \<Rightarrow> bool" where
  "is_identity_event event_type algorithm_type \<longleftrightarrow>
     event_type \<in> {''watchlist_hit'', ''live_search_hit''} \<or>
     algorithm_type \<in> {''face_intelligence'', ''face.watchlist'', ''face.live_search''}"

definition text_opt :: "string \<Rightarrow> string option" where
  "text_opt s = (if s = [] then None else Some s)"

text \<open>The text of a value or of the empty string: \<open>str(event.get(k) or "")\<close>.\<close>

definition event_text :: "(pyval \<Rightarrow> string) \<Rightarrow> event_doc \<Rightarrow> string \<Rightarrow> string" where
  "event_text rp event k = py_str rp (py_or (pget event k) (PStr []))"

text \<open>\<open>int(event.get("event_ts_ms") or event.get("start_ts_ms") or 0)\<close>\<close>

definition decision_ts_ms :: "event_doc \<Rightarrow> int result" where
  "decision_ts_ms event = py_int (py_or (pget event ''event_ts_ms'') (py_or (pget event ''start_ts_ms'') (PInt 0)))"

definition alert_verdict ::
  "string \<Rightarrow> string \<Rightarrow> string \<Rightarrow> int \<Rightarrow> int \<Rightarrow> event_row option \<Rightarrow> alert_decision" where
  "alert_verdict event_type algorithm_type scope cooldown_s event_ts_ms final =
     (let last_ts = map_option ew_event_ts_ms final;
          last_type = (case final of None \<Rightarrow> [] | Some r \<Rightarrow> ew_event_type r);
          last_algorithm = (case final of None \<Rightarrow> [] | Some r \<Rightarrow> ew_algorithm_type r);
          verdict = \<lparr>ad_decision = ''emit'', ad_reason = None, ad_cooldown_s = cooldown_s, ad_last_alert_ts_ms = last_ts,
            ad_cooldown_scope = scope, ad_cooldown_key = alert_cooldown_key event_type algorithm_type scope,
            ad_last_alert_event_type = text_opt last_type, ad_last_alert_algorithm_type = text_opt last_algorithm\<rparr>
      in (case last_ts of
            None \<Rightarrow> verdict
          | Some t \<Rightarrow>
              if 0 < event_ts_ms \<and> event_ts_ms - t < cooldown_s * 1000
              then
                (if scope = ''global'' \<and> is_identity_event event_type algorithm_type \<and>
                    \<not> is_identity_event last_type last_algorithm
                 then verdict
                 else verdict\<lparr>ad_decision := ''suppress'', ad_reason := Some (''camera_'' @ scope @ ''_cooldown'')\<rparr>)
              else verdict))"

definition alert_decide ::
  "(pyval \<Rightarrow> string) \<Rightarrow> (string \<Rightarrow> event_doc) \<Rightarrow> (alert_query \<Rightarrow> event_row option) \<Rightarrow> event_doc \<Rightarrow> alert_decision result" where
  "alert_decide rp policies last_alert event =
     (let camera_id = event_text rp event ''camera_id'';
          policy = (if camera_id = [] then [] else policies camera_id);
          scope = cooldown_scope rp policy;
          event_type = event_text rp event ''event_type''; algorithm_type = event_text rp event ''algorithm_type'';
          emit = \<lparr>ad_decision = ''emit'', ad_reason = None, ad_cooldown_s = 0, ad_last_alert_ts_ms = None,
            ad_cooldown_scope = scope, ad_cooldown_key = alert_cooldown_key event_type algorithm_type scope,
            ad_last_alert_event_type = None, ad_last_alert_algorithm_type = None\<rparr>
      in rbind (py_int (py_or (pget policy ''global_alert_cooldown_s'') (PInt 0))) (\<lambda>cooldown_s.
         if cooldown_s \<le> 0 then Inr emit
         else if truthy (pget policy ''critical_bypass'') \<and> pget event ''severity'' = PStr ''critical''
         then Inr (emit\<lparr>ad_cooldown_s := cooldown_s\<rparr>)
         else
           rbind (decision_ts_ms event) (\<lambda>event_ts_ms.
             Inr (alert_verdict event_type algorithm_type scope cooldown_s event_ts_ms
               (last_alert \<lparr>aq_camera_id = camera_id,
                  aq_exclude_source_event_id = event_text rp event ''source_event_id'',
                  aq_current_event_ts_ms = event_ts_ms, aq_event_type = event_type,
                  aq_algorithm_type = algorithm_type, aq_cooldown_scope = scope\<rparr>)))))"

definition decision_doc :: "alert_decision \<Rightarrow> event_doc" where
  "decision_doc d =
     [(''decision'', PStr ''suppressed''),
      (''reason'', case ad_reason d of None \<Rightarrow> PNone | Some r \<Rightarrow> PStr r),
      (''cooldown_s'', PInt (ad_cooldown_s d)), (''cooldown_scope'', PStr (ad_cooldown_scope d)),
      (''cooldown_key'', PStr (ad_cooldown_key d)),
      (''last_alert_ts_ms'', case ad_last_alert_ts_ms d of None \<Rightarrow> PNone | Some t \<Rightarrow> PInt t),
      (''last_alert_event_type'', case ad_last_alert_event_type d of None \<Rightarrow> PNone | Some t \<Rightarrow> PStr t),
      (''last_alert_algorithm_type'', case ad_last_alert_algorithm_type d of None \<Rightarrow> PNone | Some t \<Rightarrow> PStr t)]"

text \<open>What the store keeps of a suppression.\<close>

definition suppression_doc :: "event_doc \<Rightarrow> alert_decision \<Rightarrow> event_doc" where
  "suppression_doc policy d =
     [(''decision'', PStr ''suppressed''),
      (''reason'', PStr (case ad_reason d of None \<Rightarrow> ''suppressed'' | Some r \<Rightarrow> text_or r ''suppressed'')),
      (''policy'', PDict policy),
      (''last_alert_ts_ms'', case ad_last_alert_ts_ms d of None \<Rightarrow> PNone | Some t \<Rightarrow> PInt t),
      (''cooldown_scope'', PStr (ad_cooldown_scope d)), (''cooldown_key'', PStr (ad_cooldown_key d)),
      (''last_alert_event_type'', case ad_last_alert_event_type d of None \<Rightarrow> PNone | Some t \<Rightarrow> PStr t),
      (''last_alert_algorithm_type'', case ad_last_alert_algorithm_type d of None \<Rightarrow> PNone | Some t \<Rightarrow> PStr t)]"

text \<open>\<open>apply\<close>: a suppressed event is marked in the store and in its own payload.\<close>

definition alert_apply ::
  "(pyval \<Rightarrow> string) \<Rightarrow> (string \<Rightarrow> event_doc) \<Rightarrow> event_doc \<Rightarrow> nat \<Rightarrow> event_row list \<Rightarrow>
   (alert_decision \<times> event_doc \<times> event_row list) result" where
  "alert_apply rp policies event event_id rows =
     rbind (alert_decide rp policies (get_last_unsuppressed_alert rows) event) (\<lambda>d.
       if \<not> alert_suppressed d then Inr (d, event, rows)
       else
         Inr (d,
              (case dget_or event ''payload'' (PDict []) of
                 PDict payload \<Rightarrow> dset ''payload'' (PDict (dset ''alert_policy'' (PDict (decision_doc d)) payload)) event
               | _ \<Rightarrow> event),
              mark_event_suppressed event_id
                (suppression_doc (policies (event_text rp event ''camera_id'')) d) rows))"

section \<open>The contract of the query\<close>

text \<open>
  What the service relies on: the answer is one of the candidates with the greatest time, and there
  is an answer when there is a candidate.  Which of several rows with the same time is the answer is
  left open.
\<close>

locale alert_history =
  fixes last_alert :: "event_row list \<Rightarrow> alert_query \<Rightarrow> event_row option"
  assumes answer_none: "last_alert rows q = None \<longleftrightarrow> alert_candidates q rows = []"
    and answer_newest: "last_alert rows q = Some r \<Longrightarrow>
      r \<in> set (alert_candidates q rows) \<and> (\<forall>c \<in> set (alert_candidates q rows). ew_event_ts_ms c \<le> ew_event_ts_ms r)"
begin

text \<open>An event that is emitted is far from every candidate, unless it is exempt as an identity event.\<close>

lemma emitted_far:
  assumes "\<not> alert_suppressed (alert_verdict event_type algorithm_type scope cooldown_s t (last_alert rows q))"
    and "0 < t" "c \<in> set (alert_candidates q rows)"
    and "scope = ''global'' \<longrightarrow> \<not> is_identity_event event_type algorithm_type"
  shows "cooldown_s * 1000 \<le> t - ew_event_ts_ms c"
proof -
  obtain r where r: "last_alert rows q = Some r" using assms(3) answer_none [of rows q] by (cases "last_alert rows q") auto
  then have "\<not> t - ew_event_ts_ms r < cooldown_s * 1000"
    using assms(1,2,4) by (auto simp: alert_verdict_def alert_suppressed_def Let_def split: if_splits)
  moreover have "ew_event_ts_ms c \<le> ew_event_ts_ms r" using answer_newest [OF r] assms(3) by blast
  ultimately show ?thesis by linarith
qed

text \<open>A suppressed event has a candidate within the cooldown.\<close>

lemma suppressed_near:
  assumes "alert_suppressed (alert_verdict event_type algorithm_type scope cooldown_s t (last_alert rows q))"
  shows "\<exists>c \<in> set (alert_candidates q rows). t - ew_event_ts_ms c < cooldown_s * 1000"
proof -
  obtain r where r: "last_alert rows q = Some r"
    using assms by (cases "last_alert rows q") (auto simp: alert_verdict_def alert_suppressed_def)
  moreover have "t - ew_event_ts_ms r < cooldown_s * 1000"
    using assms r by (auto simp: alert_verdict_def alert_suppressed_def Let_def split: if_splits)
  ultimately show ?thesis using answer_newest [OF r] by blast
qed

end

lemma newest_row_None: "newest_row rs = None \<longleftrightarrow> rs = []"
  by (cases rs) (auto split: option.splits)

lemma newest_row_Some:
  "newest_row rs = Some r \<Longrightarrow> r \<in> set rs \<and> (\<forall>c \<in> set rs. ew_event_ts_ms c \<le> ew_event_ts_ms r)"
proof (induction rs arbitrary: r)
  case (Cons x rs)
  show ?case
  proof (cases "newest_row rs")
    case None
    then show ?thesis using Cons.prems by (simp add: newest_row_None)
  next
    case (Some n)
    then show ?thesis using Cons.prems Cons.IH [OF Some] by (auto split: if_splits)
  qed
qed simp

interpretation event_store: alert_history get_last_unsuppressed_alert
  by unfold_locales (auto simp: get_last_unsuppressed_alert_def newest_row_None dest: newest_row_Some)

section \<open>Runs\<close>

text \<open>
  The events as the worker takes them: an event that cannot be inserted, or is known, changes
  nothing here; when the policy check fails the event stays unsuppressed.
\<close>

definition alert_step ::
  "(pyval \<Rightarrow> string) \<Rightarrow> (string \<Rightarrow> event_doc) \<Rightarrow> event_doc \<Rightarrow> event_row list \<Rightarrow> event_row list" where
  "alert_step rp policies event rows =
     (case insert_event rp event rows of
        Inr (Some event_id, rows1) \<Rightarrow>
          (case alert_apply rp policies event event_id rows1 of Inr (_, _, rows2) \<Rightarrow> rows2 | Inl _ \<Rightarrow> rows1)
      | _ \<Rightarrow> rows)"

text \<open>The key on which the alerts of a camera are spaced.\<close>

definition row_scope_key :: "string \<Rightarrow> event_row \<Rightarrow> string" where
  "row_scope_key scope r = alert_cooldown_key (ew_event_type r) (ew_algorithm_type r) scope"

definition row_identity :: "event_row \<Rightarrow> bool" where
  "row_identity r \<longleftrightarrow> is_identity_event (ew_event_type r) (ew_algorithm_type r)"

text \<open>A pair of unsuppressed rows of a camera that the policy keeps apart.\<close>

definition rows_spaced :: "string \<Rightarrow> string \<Rightarrow> int \<Rightarrow> event_row \<Rightarrow> event_row \<Rightarrow> bool" where
  "rows_spaced camera scope cooldown_s earlier later \<longleftrightarrow>
     (ew_camera_id earlier = camera \<and> ew_camera_id later = camera \<and>
      ew_status earlier \<noteq> ''suppressed'' \<and> ew_status later \<noteq> ''suppressed'' \<and>
      row_scope_key scope earlier = row_scope_key scope later \<and> (scope = ''global'' \<longrightarrow> \<not> row_identity later)
      \<longrightarrow> cooldown_s * 1000 \<le> ew_event_ts_ms later - ew_event_ts_ms earlier)"

text \<open>A well-formed event with a time: what the event worker's parser and the rules' events give.\<close>

definition timed_event :: "event_doc \<Rightarrow> int \<Rightarrow> bool" where
  "timed_event event t \<longleftrightarrow>
     dget event ''event_ts_ms'' = Some (PInt t) \<and> 0 < t \<and>
     (\<exists>s. dget event ''source_event_id'' = Some (PStr s) \<and> s \<noteq> []) \<and>
     (\<exists>s. dget event ''event_type'' = Some (PStr s) \<and> s \<noteq> []) \<and>
     (\<exists>s. dget event ''camera_id'' = Some (PStr s) \<and> s \<noteq> []) \<and>
     (pget event ''algorithm_type'' = PNone \<or> (\<exists>s. pget event ''algorithm_type'' = PStr s))"

definition spacing_policy :: "(pyval \<Rightarrow> string) \<Rightarrow> event_doc \<Rightarrow> string \<Rightarrow> int \<Rightarrow> bool" where
  "spacing_policy rp policy scope cooldown_s \<longleftrightarrow>
     cooldown_scope rp policy = scope \<and> py_int (py_or (pget policy ''global_alert_cooldown_s'') (PInt 0)) = Inr cooldown_s \<and>
     0 < cooldown_s \<and> \<not> truthy (pget policy ''critical_bypass'')"

lemma cooldown_scope_cases: "cooldown_scope rp policy \<in> {''global'', ''event_type'', ''algorithm''}"
  by (simp add: cooldown_scope_def Let_def)

text \<open>The text of the row and of the decision agree.\<close>

lemma timed_event_texts:
  assumes "timed_event event t" "event_params rp event = Inr row"
  shows "ew_event_ts_ms row = t" "ew_status row = ''new''"
    "event_text rp event ''camera_id'' = ew_camera_id row" "ew_camera_id row \<noteq> []"
    "event_text rp event ''source_event_id'' = ew_source_event_id row"
    "event_text rp event ''event_type'' = ew_event_type row" "ew_event_type row \<noteq> []"
    "ew_algorithm_type row = text_or (event_text rp event ''algorithm_type'') (ew_event_type row)"
    "decision_ts_ms event = Inr t"
  using assms
  by (auto simp: timed_event_def event_params_def rbind_Inr_iff event_text_def dget_or_def pget_def py_or_def
      text_or_def decision_ts_ms_def)

lemma identity_text_or:
  "is_identity_event event_type (text_or algorithm event_type) \<longleftrightarrow>
   is_identity_event event_type algorithm \<or> algorithm = [] \<and> is_identity_event event_type event_type"
  by (auto simp: text_or_def is_identity_event_def)

lemma candidate_row:
  assumes "r \<in> set rows" "ew_camera_id r = aq_camera_id q" "aq_camera_id q \<noteq> []"
    and "ew_source_event_id r \<noteq> aq_exclude_source_event_id q" "ew_status r \<noteq> ''suppressed''"
    and "ew_event_ts_ms r \<le> aq_current_event_ts_ms q" "aq_event_type q \<noteq> []"
    and "aq_cooldown_scope q \<in> {''global'', ''event_type'', ''algorithm''}"
    and "row_scope_key (aq_cooldown_scope q) r =
      alert_cooldown_key (aq_event_type q) (aq_algorithm_type q) (aq_cooldown_scope q)"
  shows "r \<in> set (alert_candidates q rows)"
proof -
  have norm: "py_lower (py_strip (text_or (aq_cooldown_scope q) ''algorithm'')) = aq_cooldown_scope q"
    using assms(8) by (auto simp: text_or_def py_strip_def py_lower_def lower_char_def is_space_def)
  have "text_or (aq_algorithm_type q) (aq_event_type q) \<noteq> []" using assms(7) by (simp add: text_or_def)
  then obtain P where P: "scope_filter q = Some P" "P r"
    using assms(7,8,9) unfolding scope_filter_def norm Let_def
    by (auto simp: row_scope_key_def alert_cooldown_key_def)
  then show ?thesis using assms by (simp add: alert_candidates_def)
qed

lemma emitted_spaced:
  assumes timed: "timed_event event t" and params: "event_params rp event = Inr row"
    and policy: "spacing_policy rp (policies camera) scope c"
    and decided: "alert_decide rp policies (get_last_unsuppressed_alert rows1) event = Inr d" "\<not> alert_suppressed d"
    and r: "r \<in> set rows1" "ew_source_event_id r \<noteq> ew_source_event_id row" "ew_event_ts_ms r \<le> t"
  shows "rows_spaced camera scope c r row"
proof (unfold rows_spaced_def, intro impI)
  note texts = timed_event_texts [OF timed params]
  assume a: "ew_camera_id r = camera \<and> ew_camera_id row = camera \<and> ew_status r \<noteq> ''suppressed'' \<and>
      ew_status row \<noteq> ''suppressed'' \<and> row_scope_key scope r = row_scope_key scope row \<and>
      (scope = ''global'' \<longrightarrow> \<not> row_identity row)"
  let ?q = "\<lparr>aq_camera_id = camera, aq_exclude_source_event_id = ew_source_event_id row,
      aq_current_event_ts_ms = t, aq_event_type = ew_event_type row,
      aq_algorithm_type = event_text rp event ''algorithm_type'', aq_cooldown_scope = scope\<rparr>"
  have scope: "cooldown_scope rp (policies camera) = scope" "scope \<in> {''global'', ''event_type'', ''algorithm''}"
    using policy cooldown_scope_cases [of rp "policies camera"] by (auto simp: spacing_policy_def)
  have d: "d = alert_verdict (ew_event_type row) (event_text rp event ''algorithm_type'') scope c t
      (get_last_unsuppressed_alert rows1 ?q)"
    using decided(1) policy a texts scope(1) by (simp add: alert_decide_def spacing_policy_def Let_def)
  have "r \<in> set (alert_candidates ?q rows1)"
    using r a texts(3,4,7,8) scope(2)
    by (intro candidate_row) (auto simp: row_scope_key_def alert_cooldown_key_def text_or_def)
  moreover have "scope = ''global'' \<longrightarrow> \<not> is_identity_event (ew_event_type row) (event_text rp event ''algorithm_type'')"
    using a texts(8) identity_text_or [of "ew_event_type row" "event_text rp event ''algorithm_type''"]
    by (simp add: row_identity_def)
  moreover have "0 < t" using timed by (simp add: timed_event_def)
  ultimately show "c * 1000 \<le> ew_event_ts_ms row - ew_event_ts_ms r"
    using event_store.emitted_far decided(2) texts(1) unfolding d by metis
qed

lemma alert_decide_total:
  assumes "timed_event event t" "event_params rp event = Inr row" "ew_camera_id row = camera"
    and "spacing_policy rp (policies camera) scope c"
  shows "\<exists>d. alert_decide rp policies last_alert event = Inr d"
  using assms timed_event_texts [OF assms(1,2)] by (simp add: alert_decide_def spacing_policy_def Let_def)

lemma alert_step_cases:
  assumes timed: "timed_event event t" and late: "\<forall>r \<in> set rows. ew_event_ts_ms r \<le> t"
    and policy: "spacing_policy rp (policies camera) scope c"
  obtains (Same) "alert_step rp policies event rows = rows"
  | (New) x where "alert_step rp policies event rows = rows @ [x]" "ew_event_ts_ms x = t"
      "\<forall>r \<in> set rows. rows_spaced camera scope c r x"
proof (cases "event_params rp event")
  case (Inl e)
  then show thesis by (intro Same) (simp add: alert_step_def insert_event_def)
next
  case (Inr row)
  note texts = timed_event_texts [OF timed Inr]
  show thesis
  proof (cases "\<exists>r \<in> set rows. ew_source_event_id r = ew_source_event_id row")
    case True
    then show thesis using Inr by (intro Same) (simp add: alert_step_def insert_event_def)
  next
    case new: False
    then have ins: "insert_event rp event rows = Inr (Some (length rows), rows @ [row])"
      by (simp add: insert_event_def Inr)
    show thesis
    proof (cases "alert_decide rp policies (get_last_unsuppressed_alert (rows @ [row])) event")
      case (Inl e)
      then have "ew_camera_id row \<noteq> camera"
        using alert_decide_total [where camera = camera and policies = policies, OF timed Inr _ policy]
        by (metis Inl_Inr_False)
      moreover have "alert_step rp policies event rows = rows @ [row]"
        using Inl ins by (simp add: alert_step_def alert_apply_def)
      ultimately show thesis using texts(1) by (intro New) (auto simp: rows_spaced_def)
    next
      case d: (Inr d)
      show thesis
      proof (cases "alert_suppressed d")
        case True
        then have eq: "alert_step rp policies event rows =
            rows @ [row\<lparr>ew_status := ''suppressed'', ew_alert_policy :=
              suppression_doc (policies (event_text rp event ''camera_id'')) d\<rparr>]"
          using d ins by (simp add: alert_step_def alert_apply_def mark_event_suppressed_def)
        show thesis using texts(1) by (intro New [OF eq]) (auto simp: rows_spaced_def)
      next
        case False
        then have "alert_step rp policies event rows = rows @ [row]"
          using d ins by (simp add: alert_step_def alert_apply_def)
        moreover have "rows_spaced camera scope c r row" if "r \<in> set rows" for r
          using emitted_spaced [OF timed Inr policy d False, of r] that new late by auto
        ultimately show thesis using texts(1) by (intro New) auto
      qed
    qed
  qed
qed


definition example_alert_event :: "string \<Rightarrow> string \<Rightarrow> int \<Rightarrow> event_doc" where
  "example_alert_event source_event_id key t =
     [(''source_event_id'', PStr source_event_id), (''event_type'', PStr ''intrusion''),
      (''camera_id'', PStr ''camera''), (key, PInt t)]"

definition example_policies :: "string \<Rightarrow> event_doc" where
  "example_policies camera = [(''global_alert_cooldown_s'', PInt 10)]"

lemma example_policy_spaces: "spacing_policy (\<lambda>_. []) (example_policies camera) ''algorithm'' 10"
  by (simp add: spacing_policy_def example_policies_def cooldown_scope_def pget_def dget_or_def py_or_def
      py_strip_def py_lower_def lower_char_def is_space_def Let_def)

lemma example_event_timed: "s \<noteq> [] \<Longrightarrow> 0 < t \<Longrightarrow> timed_event (example_alert_event s ''event_ts_ms'' t) t"
  by (simp add: timed_event_def example_alert_event_def pget_def dget_or_def)


section \<open>Where the spacing fails\<close>

definition two_alerts :: "(string \<times> int) \<Rightarrow> (string \<times> int) \<Rightarrow> event_row list" where
  "two_alerts a b =
     fold (alert_step (\<lambda>_. []) example_policies)
       [example_alert_event ''a'' (fst a) (snd a), example_alert_event ''b'' (fst b) (snd b)] []"

text \<open>
  Under a cooldown of ten seconds an event that arrives late, with a time five seconds before an
  alert that is out already, is not suppressed, because the query looks only for alerts up to the
  event's own time; and events that carry only a start time never suppress each other, because they
  are stored with the event time 0 while the decision falls back to the start time.
\<close>

theorem late_and_untimed_events_not_suppressed:
  "map ew_status (two_alerts (''event_ts_ms'', 20000) (''event_ts_ms'', 25000)) = [''new'', ''suppressed''] \<and>
   map ew_status (two_alerts (''event_ts_ms'', 20000) (''event_ts_ms'', 15000)) = [''new'', ''new''] \<and>
   map ew_status (two_alerts (''start_ts_ms'', 20000) (''start_ts_ms'', 20001)) = [''new'', ''new'']"
  by (simp add: two_alerts_def example_alert_event_def example_policies_def alert_step_def insert_event_def
      event_params_def payload_media_def alert_apply_def alert_decide_def alert_verdict_def alert_suppressed_def
      get_last_unsuppressed_alert_def alert_candidates_def scope_filter_def cooldown_scope_def event_text_def
      decision_ts_ms_def mark_event_suppressed_def text_or_def pget_def dget_or_def py_or_def py_strip_def
      py_lower_def lower_char_def is_space_def Let_def)

end
