(* ===== verification/RecordRequest.thy ===== *)
theory RecordRequest
  imports AlertPolicy
begin

text \<open>
  The record requests of the event worker (services/event-worker/app/record_request.py): the
  document that asks for a recording, built from an event with its evidence policy, and the
  publisher with its reservation of one request per event.  Redis is a map of reservations and a
  list of published documents; the outcomes of its calls are arguments.  The reservation key is the
  pair of event and strategy, of which the source takes a digest.
\<close>

section \<open>The document\<close>

definition post_savant_evidence_topologies :: "string list" where
  "post_savant_evidence_topologies = [''post_savant'', ''post_savant_replay'']"

definition pts_time_base :: int where
  "pts_time_base = 1000000000"

text \<open>Every policy source of an event, in the order in which they are asked.\<close>

definition policy_sources :: "event_doc \<Rightarrow> event_doc list" where
  "policy_sources event =
     (let payload = as_dict (pget event ''payload'')
      in [as_dict (pget event ''evidence_policy''), as_dict (pget payload ''media''), payload, event])"

fun first_value :: "string \<Rightarrow> event_doc list \<Rightarrow> pyval" where
  "first_value key [] = PNone"
| "first_value key (d # ds) = (if pget d key \<noteq> PNone then pget d key else first_value key ds)"

definition first_policy_value :: "event_doc \<Rightarrow> string \<Rightarrow> pyval" where
  "first_policy_value event key = first_value key (policy_sources event)"

definition stripped_text :: "(pyval \<Rightarrow> string) \<Rightarrow> pyval \<Rightarrow> string" where
  "stripped_text rp v = py_strip (py_str rp (py_or v (PStr [])))"

definition post_savant_keys :: "string list" where
  "post_savant_keys =
     [''frame_pts'', ''frame_num'', ''metadata_domain'', ''event_frame_uuid'', ''requested_start_pts'',
      ''requested_end_pts'', ''event_frame_pts'', ''anchor_keyframe_uuid'', ''anchor_keyframe_pts'',
      ''keyframe_uuid'', ''previous_keyframe_uuid'', ''keyframe_pts'', ''previous_keyframe_pts'',
      ''time_base'', ''stream_session_id'']"

definition copy_value :: "event_doc \<Rightarrow> string \<Rightarrow> event_doc \<Rightarrow> event_doc" where
  "copy_value event key rec =
     (let value = first_policy_value event key in if value \<noteq> PNone then dset key value rec else rec)"

definition is_post_savant :: "(pyval \<Rightarrow> string) \<Rightarrow> event_doc \<Rightarrow> bool" where
  "is_post_savant rp event \<longleftrightarrow>
     stripped_text rp (first_policy_value event ''replay_source_kind'') = ''post_savant'' \<or>
     stripped_text rp (first_policy_value event ''evidence_topology'') \<in> set post_savant_evidence_topologies \<or>
     (stripped_text rp (first_policy_value event ''metadata_source'') = ''video_frame'' \<and>
      first_policy_value event ''frame_pts'' \<noteq> PNone)"

definition apply_post_savant_policy :: "(pyval \<Rightarrow> string) \<Rightarrow> event_doc \<Rightarrow> event_doc \<Rightarrow> event_doc" where
  "apply_post_savant_policy rp event rec =
     (if \<not> is_post_savant rp event then rec
      else
        dset ''replay_stop_strategy'' (PStr ''event_anchor_pre_seconds_rewind'')
          (fold (copy_value event) post_savant_keys
            (dset ''annotation_source_policy''
               (PStr (py_str rp (py_or (first_policy_value event ''annotation_source_policy'')
                  (PStr ''post_savant_sink_metadata_only''))))
            (dset ''evidence_topology''
               (PStr (py_str rp (py_or (first_policy_value event ''evidence_topology'') (PStr ''post_savant''))))
            (dset ''replay_source_kind'' (PStr ''post_savant'') rec)))))"

text \<open>\<open>_int_or_none\<close>: an infinite float raises.\<close>

definition record_int :: "pyval \<Rightarrow> int option result" where
  "record_int value =
     (case value of
        PNone \<Rightarrow> Inr None
      | PBool _ \<Rightarrow> Inr None
      | _ \<Rightarrow>
          (case py_int value of
             Inr i \<Rightarrow> Inr (Some i)
           | Inl Overflow_Error \<Rightarrow> Inl Overflow_Error
           | Inl _ \<Rightarrow> Inr None))"

definition blank :: "pyval \<Rightarrow> bool" where
  "blank v \<longleftrightarrow> v = PNone \<or> v = PStr []"

text \<open>The time stamp of the anchor, taken over when the key frame of that name is the anchor.\<close>

definition anchor_pts_from ::
  "(pyval \<Rightarrow> string) \<Rightarrow> event_doc \<Rightarrow> event_doc \<Rightarrow> pyval \<Rightarrow> string \<Rightarrow> string \<Rightarrow> int option result" where
  "anchor_pts_from rp event rec anchor uuid_key pts_key =
     (if py_str rp (py_or (pget rec uuid_key) (PStr [])) = py_str rp anchor
      then record_int (first_policy_value event pts_key) else Inr None)"

definition normalize_anchor_keyframe_uuid ::
  "(pyval \<Rightarrow> string) \<Rightarrow> event_doc \<Rightarrow> event_doc \<Rightarrow> event_doc result" where
  "normalize_anchor_keyframe_uuid rp event rec =
     (let explicit = py_or (pget rec ''anchor_keyframe_uuid'') (first_policy_value event ''anchor_keyframe_uuid'');
          alarm_frame = py_or (pget rec ''previous_keyframe_uuid'')
            (py_or (first_policy_value event ''previous_keyframe_uuid'')
            (py_or (pget rec ''keyframe_uuid'') (first_policy_value event ''keyframe_uuid'')));
          anchor = py_or explicit alarm_frame;
          rec1 = (if truthy anchor then dset ''anchor_keyframe_uuid'' anchor rec else rec)
      in if \<not> truthy anchor \<or> \<not> blank (pget rec1 ''anchor_keyframe_pts'') then Inr rec1
         else
           rbind (anchor_pts_from rp event rec1 anchor ''previous_keyframe_uuid'' ''previous_keyframe_pts'') (\<lambda>previous.
             case previous of
               Some pts \<Rightarrow> Inr (dset ''anchor_keyframe_pts'' (PInt pts) rec1)
             | None \<Rightarrow>
                 rbind (anchor_pts_from rp event rec1 anchor ''keyframe_uuid'' ''keyframe_pts'') (\<lambda>current.
                   Inr (case current of
                     Some pts \<Rightarrow> dset ''anchor_keyframe_pts'' (PInt pts) rec1 | None \<Rightarrow> rec1))))"

definition fill_value :: "event_doc \<Rightarrow> string \<Rightarrow> event_doc \<Rightarrow> event_doc" where
  "fill_value event key rec =
     (let value = first_policy_value event key in if value \<noteq> PNone \<and> blank (pget rec key) then dset key value rec else rec)"

text \<open>\<open>a or b\<close> for integers that may be missing.\<close>

definition int_or :: "int option \<Rightarrow> int \<Rightarrow> int" where
  "int_or i d = (case i of Some n \<Rightarrow> if n = 0 then d else n | None \<Rightarrow> d)"

fun first_int :: "pyval list \<Rightarrow> int option result" where
  "first_int [] = Inr None"
| "first_int (v # vs) = rbind (record_int v) (\<lambda>i. case i of Some n \<Rightarrow> Inr (Some n) | None \<Rightarrow> first_int vs)"

definition apply_event_frame_timeline :: "event_doc \<Rightarrow> event_doc \<Rightarrow> event_doc result" where
  "apply_event_frame_timeline event rec =
     (let rec1 = fold (fill_value event) [''frame_pts'', ''frame_num'', ''metadata_domain''] rec
      in rbind (first_int [pget rec1 ''event_frame_pts'', first_policy_value event ''event_frame_pts'', pget rec1 ''frame_pts''])
           (\<lambda>event_frame_pts.
              case event_frame_pts of
                None \<Rightarrow> Inr rec1
              | Some pts \<Rightarrow>
                  rbind (record_int (pget rec1 ''pre_seconds'')) (\<lambda>pre.
                  rbind (record_int (pget rec1 ''post_seconds'')) (\<lambda>post.
                    Inr (set_default ''requested_end_pts'' (PInt (pts + int_or post 5 * pts_time_base))
                          (set_default ''requested_start_pts'' (PInt (max 0 (pts - int_or pre 5 * pts_time_base)))
                          (set_default ''event_frame_pts'' (PInt pts) rec1)))))))"

definition resolve_source_id :: "(pyval \<Rightarrow> string) \<Rightarrow> event_doc \<Rightarrow> string \<Rightarrow> string" where
  "resolve_source_id rp event default_source_id =
     (let media_sid = dget_or (as_dict (pget (as_dict (pget event ''payload'')) ''media'')) ''source_id'' (PStr []);
          event_sid = py_str rp (dget_or event ''source_id'' (PStr []))
      in if truthy media_sid \<and> py_str rp media_sid \<notin> {[], ''0'', ''None'', ''null''} then py_str rp media_sid
         else if event_sid \<noteq> [] \<and> event_sid \<notin> {''0'', []} then event_sid
         else default_source_id)"

record record_config =
  rr_default_replay_source_id :: string
  rr_default_pre_seconds :: int
  rr_default_post_seconds :: int

definition copy_text :: "(pyval \<Rightarrow> string) \<Rightarrow> event_doc \<Rightarrow> string \<Rightarrow> event_doc \<Rightarrow> event_doc" where
  "copy_text rp event key rec =
     (let value = first_policy_value event key
      in if value \<noteq> PNone \<and> py_strip (py_str rp value) \<noteq> [] then dset key (PStr (py_str rp value)) rec else rec)"

text \<open>The document before the policies are applied, with \<open>uuid4\<close> as the argument \<open>request_id\<close>.\<close>

definition base_record ::
  "event_doc \<Rightarrow> string \<Rightarrow> string \<Rightarrow> string \<Rightarrow> int \<Rightarrow> int \<Rightarrow> int \<Rightarrow> event_doc" where
  "base_record event request_id event_id source_id event_ts_ms pre post =
     (let media = as_dict (pget (as_dict (pget event ''payload'')) ''media'')
      in [(''request_id'', PStr request_id), (''event_id'', PStr event_id),
          (''source_event_id'', dget_or event ''source_event_id'' (PStr [])),
          (''event_type'', dget_or event ''event_type'' (PStr [])),
          (''camera_id'', dget_or event ''camera_id'' (PStr [])), (''source_id'', PStr source_id),
          (''event_ts_ms'', PInt event_ts_ms), (''frame_uuid'', pget event ''frame_uuid''),
          (''event_frame_uuid'', py_or (pget event ''event_frame_uuid'') (pget event ''frame_uuid'')),
          (''keyframe_uuid'', py_or (pget event ''keyframe_uuid'') (pget media ''keyframe_uuid'')),
          (''anchor_keyframe_uuid'', pget event ''anchor_keyframe_uuid''),
          (''previous_keyframe_uuid'', py_or (pget event ''previous_keyframe_uuid'') (pget media ''previous_keyframe_uuid'')),
          (''pre_seconds'', PInt pre), (''post_seconds'', PInt post),
          (''strategy'', PStr ''savant_replay''), (''status'', PStr ''pending'')])"

definition build_record_request ::
  "(pyval \<Rightarrow> string) \<Rightarrow> record_config \<Rightarrow> string \<Rightarrow> event_doc \<Rightarrow> string \<Rightarrow> event_doc option result" where
  "build_record_request rp cfg request_id event event_id =
     (let source_id = resolve_source_id rp event (rr_default_replay_source_id cfg);
          policy = as_dict (pget event ''evidence_policy'')
      in if source_id = [] then Inr None
         else
           rbind (py_int (dget_or event ''event_ts_ms'' (PInt 0))) (\<lambda>event_ts_ms.
           rbind (py_int (dget_or policy ''pre_seconds'' (PInt (rr_default_pre_seconds cfg)))) (\<lambda>pre.
           rbind (py_int (dget_or policy ''post_seconds'' (PInt (rr_default_post_seconds cfg)))) (\<lambda>post.
           rbind (normalize_anchor_keyframe_uuid rp event
               (apply_post_savant_policy rp event
                 (fold (copy_text rp event)
                   [''runtime_epoch_id'', ''stream_session_id'', ''record_request_shard_id'', ''replay_shard_id'',
                    ''shard_mapping_version'', ''replay_shard_mapping_version'']
                   (base_record event request_id event_id source_id event_ts_ms pre post)))) (\<lambda>rec.
           rbind (apply_event_frame_timeline event rec) (\<lambda>rec'. Inr (Some rec')))))))"

section \<open>The publisher\<close>

record record_publisher =
  rp_reservations :: "(string \<times> string, string) dict"
  rp_published :: "event_doc list"

definition record_publisher_init :: record_publisher where
  "record_publisher_init = \<lparr>rp_reservations = [], rp_published = []\<rparr>"

text \<open>
  The outcomes of the Redis calls of one publication: whether \<open>SET NX\<close>, \<open>XADD\<close> and the calls of
  the release succeed.
\<close>

record redis_outcomes =
  ro_set_ok :: bool
  ro_xadd_ok :: bool
  ro_release_ok :: bool

definition reserve_request :: "bool \<Rightarrow> string \<times> string \<Rightarrow> string \<Rightarrow> record_publisher \<Rightarrow> bool \<times> record_publisher" where
  "reserve_request set_ok key request_id p =
     (if \<not> set_ok \<or> dget (rp_reservations p) key \<noteq> None then (False, p)
      else (True, p\<lparr>rp_reservations := dset key request_id (rp_reservations p)\<rparr>))"

definition release_request :: "bool \<Rightarrow> string \<times> string \<Rightarrow> string \<Rightarrow> record_publisher \<Rightarrow> record_publisher" where
  "release_request release_ok key request_id p =
     (if release_ok \<and> dget (rp_reservations p) key = Some request_id
      then p\<lparr>rp_reservations := dpop key (rp_reservations p)\<rparr> else p)"

text \<open>\<open>publish\<close>: whether a request went out, an exception of the building, and the new state.\<close>

definition record_publish ::
  "(pyval \<Rightarrow> string) \<Rightarrow> record_config \<Rightarrow> redis_outcomes \<Rightarrow> string \<Rightarrow> event_doc \<Rightarrow> string \<Rightarrow> record_publisher \<Rightarrow>
   bool result \<times> record_publisher" where
  "record_publish rp cfg oc request_id event event_id p =
     (case build_record_request rp cfg request_id event event_id of
        Inl e \<Rightarrow> (Inl e, p)
      | Inr None \<Rightarrow> (Inr False, p)
      | Inr (Some rec) \<Rightarrow>
          (let key = (event_text rp event ''source_event_id'', ''savant_replay'');
               (reserved, p1) = reserve_request (ro_set_ok oc) key request_id p
           in if \<not> reserved then (Inr False, p1)
              else if ro_xadd_ok oc then (Inr True, p1\<lparr>rp_published := rp_published p1 @ [rec]\<rparr>)
              else (Inr False, release_request (ro_release_ok oc) key request_id p1)))"

definition has_request :: "bool \<Rightarrow> string \<Rightarrow> string \<Rightarrow> record_publisher \<Rightarrow> bool" where
  "has_request exists_ok source_event_id strategy p \<longleftrightarrow>
     exists_ok \<and> dget (rp_reservations p) (source_event_id, strategy) \<noteq> None"

section \<open>What the policies leave alone\<close>

text \<open>Two documents agree on a key: the same value, and present in both or in neither.\<close>

definition same_at :: "string \<Rightarrow> event_doc \<Rightarrow> event_doc \<Rightarrow> bool" where
  "same_at k d d' \<longleftrightarrow> pget d' k = pget d k \<and> has_key d' k = has_key d k"

named_theorems same_simps "the keys that a step of the building leaves alone"

lemma same_at_refl [simp]: "same_at k d d"
  by (simp add: same_at_def)

lemma same_at_trans: "same_at k a b \<Longrightarrow> same_at k b c \<Longrightarrow> same_at k a c"
  by (simp add: same_at_def)

lemma same_at_dset [same_simps]: "k' \<noteq> k \<Longrightarrow> same_at k d (dset k' v d)"
  by (auto simp: same_at_def dict_simps)

lemma same_at_set_default: "k' \<noteq> k \<Longrightarrow> same_at k d (set_default k' v d)"
  by (auto simp: same_at_def dict_simps)

lemma same_at_fold:
  "(\<And>x d. x \<in> set xs \<Longrightarrow> same_at k d (f x d)) \<Longrightarrow> same_at k d (fold f xs d)"
  by (induction xs arbitrary: d) (auto intro: same_at_trans)

lemma same_at_copies [same_simps]:
  "k' \<noteq> k \<or> first_policy_value event k' = PNone \<Longrightarrow> same_at k d (copy_value event k' d)"
  "k' \<noteq> k \<Longrightarrow> same_at k d (copy_text rp event k' d)" "k' \<noteq> k \<Longrightarrow> same_at k d (fill_value event k' d)"
  by (auto simp: copy_value_def copy_text_def fill_value_def Let_def intro: same_at_dset)

definition post_savant_fields :: "string list" where
  "post_savant_fields = [''replay_source_kind'', ''evidence_topology'', ''annotation_source_policy'', ''replay_stop_strategy'']"

lemma same_at_post_savant:
  assumes "k \<notin> set post_savant_fields" "k \<notin> set post_savant_keys \<or> first_policy_value event k = PNone"
  shows "same_at k d (apply_post_savant_policy rp event d)"
proof -
  have "same_at k x (fold (copy_value event) post_savant_keys x)" for x
    using assms(2) by (intro same_at_fold same_at_copies) auto
  then have fold: "same_at k d (fold (copy_value event) post_savant_keys x)" if "same_at k d x" for x
    using that same_at_trans by blast
  have put: "same_at k d (dset k' v x)" if "k' \<noteq> k" "same_at k d x" for k' v x
    using that same_at_dset same_at_trans by blast
  show ?thesis using assms(1) unfolding apply_post_savant_policy_def post_savant_fields_def
    by (auto intro!: put fold)
qed

lemma same_at_normalize:
  assumes "normalize_anchor_keyframe_uuid rp event d = Inr d'" "k \<notin> {''anchor_keyframe_uuid'', ''anchor_keyframe_pts''}"
  shows "same_at k d d'"
  using assms unfolding normalize_anchor_keyframe_uuid_def Let_def
  by (auto simp: rbind_Inr_iff split: if_splits option.splits intro: same_at_dset same_at_trans [OF same_at_dset same_at_dset])

text \<open>The keys of the first document that the policies and the anchor leave alone.\<close>

definition kept :: "event_doc \<Rightarrow> string \<Rightarrow> bool" where
  "kept event k \<longleftrightarrow>
     k \<notin> {''runtime_epoch_id'', ''stream_session_id'', ''record_request_shard_id'', ''replay_shard_id'',
       ''shard_mapping_version'', ''replay_shard_mapping_version'', ''anchor_keyframe_uuid'', ''anchor_keyframe_pts''} \<and>
     k \<notin> set post_savant_fields \<and> (k \<in> set post_savant_keys \<longrightarrow> first_policy_value event k = PNone)"

lemma kept_keys:
  "kept event ''pre_seconds''" "kept event ''post_seconds''" "kept event ''source_event_id''"
  "first_policy_value event ''requested_start_pts'' = PNone \<Longrightarrow> kept event ''requested_start_pts''"
  "first_policy_value event ''requested_end_pts'' = PNone \<Longrightarrow> kept event ''requested_end_pts''"
  by (simp_all add: kept_def post_savant_fields_def post_savant_keys_def)

lemma build_steps:
  assumes "build_record_request rp cfg request_id event event_id = Inr (Some rec)"
  obtains event_ts_ms pre post rec0 where
    "py_int (dget_or (as_dict (pget event ''evidence_policy'')) ''pre_seconds'' (PInt (rr_default_pre_seconds cfg))) = Inr pre"
    "py_int (dget_or (as_dict (pget event ''evidence_policy'')) ''post_seconds'' (PInt (rr_default_post_seconds cfg))) = Inr post"
    "\<And>k. kept event k \<Longrightarrow> same_at k (base_record event request_id event_id (resolve_source_id rp event (rr_default_replay_source_id cfg)) event_ts_ms pre post) rec0"
    "apply_event_frame_timeline event rec0 = Inr rec"
proof -
  let ?keys = "[''runtime_epoch_id'', ''stream_session_id'', ''record_request_shard_id'', ''replay_shard_id'',
      ''shard_mapping_version'', ''replay_shard_mapping_version'']"
  obtain event_ts_ms pre post rec0 where b:
      "py_int (dget_or (as_dict (pget event ''evidence_policy'')) ''pre_seconds'' (PInt (rr_default_pre_seconds cfg))) = Inr pre"
      "py_int (dget_or (as_dict (pget event ''evidence_policy'')) ''post_seconds'' (PInt (rr_default_post_seconds cfg))) = Inr post"
      "normalize_anchor_keyframe_uuid rp event (apply_post_savant_policy rp event (fold (copy_text rp event) ?keys
        (base_record event request_id event_id (resolve_source_id rp event (rr_default_replay_source_id cfg)) event_ts_ms pre post))) = Inr rec0"
      "apply_event_frame_timeline event rec0 = Inr rec"
    using assms by (auto simp: build_record_request_def Let_def rbind_Inr_iff split: if_splits)
  have keep: "same_at k (base_record event request_id event_id (resolve_source_id rp event (rr_default_replay_source_id cfg)) event_ts_ms pre post) rec0"
    if "kept event k" for k
  proof (rule same_at_trans [OF _ same_at_trans [OF same_at_post_savant same_at_normalize [OF b(3)]]])
    show "same_at k (base_record event request_id event_id (resolve_source_id rp event (rr_default_replay_source_id cfg)) event_ts_ms pre post)
        (fold (copy_text rp event) ?keys
          (base_record event request_id event_id (resolve_source_id rp event (rr_default_replay_source_id cfg)) event_ts_ms pre post))"
      using that by (intro same_at_fold same_at_copies) (auto simp: kept_def)
  qed (use that in \<open>auto simp: kept_def\<close>)
  show thesis using keep by (intro that [OF b(1) b(2) _ b(4)]) auto
qed

lemma timeline_fills:
  assumes "apply_event_frame_timeline event d = Inr d'"
  shows "k \<notin> {''frame_pts'', ''frame_num'', ''metadata_domain'', ''event_frame_pts'', ''requested_start_pts'', ''requested_end_pts''} \<Longrightarrow>
      same_at k d d'"
    and "pget d' ''event_frame_pts'' = PInt t \<Longrightarrow> \<not> has_key d ''requested_start_pts'' \<Longrightarrow> \<not> has_key d ''requested_end_pts'' \<Longrightarrow>
      \<exists>pre post. record_int (pget d ''pre_seconds'') = Inr pre \<and> record_int (pget d ''post_seconds'') = Inr post \<and>
        pget d' ''requested_start_pts'' = PInt (max 0 (t - int_or pre 5 * pts_time_base)) \<and>
        pget d' ''requested_end_pts'' = PInt (t + int_or post 5 * pts_time_base)"
proof -
  define d1 where "d1 = fold (fill_value event) [''frame_pts'', ''frame_num'', ''metadata_domain''] d"
  have same1: "same_at k d d1" if "k \<notin> {''frame_pts'', ''frame_num'', ''metadata_domain''}" for k
    unfolding d1_def using that by (intro same_at_fold same_at_copies) auto
  obtain frame_pts where f: "first_int [pget d1 ''event_frame_pts'', first_policy_value event ''event_frame_pts'', pget d1 ''frame_pts''] = Inr frame_pts"
    using assms unfolding apply_event_frame_timeline_def Let_def d1_def [symmetric] by (auto simp: rbind_Inr_iff)
  have some: "\<exists>pre post. record_int (pget d1 ''pre_seconds'') = Inr pre \<and> record_int (pget d1 ''post_seconds'') = Inr post \<and>
      d' = set_default ''requested_end_pts'' (PInt (pts + int_or post 5 * pts_time_base))
        (set_default ''requested_start_pts'' (PInt (max 0 (pts - int_or pre 5 * pts_time_base)))
        (set_default ''event_frame_pts'' (PInt pts) d1))" if "frame_pts = Some pts" for pts
    using assms f that unfolding apply_event_frame_timeline_def Let_def d1_def [symmetric] by (auto simp: rbind_Inr_iff)
  have none: "d' = d1" if "frame_pts = None"
    using assms f that unfolding apply_event_frame_timeline_def Let_def d1_def [symmetric] by simp
  show "same_at k d d'" if "k \<notin> {''frame_pts'', ''frame_num'', ''metadata_domain'', ''event_frame_pts'', ''requested_start_pts'', ''requested_end_pts''}"
  proof (cases frame_pts)
    case None
    then show ?thesis using none same1 that by auto
  next
    case (Some pts)
    then show ?thesis using some same1 [of k] that by (auto simp: same_at_def dict_simps)
  qed
  assume t: "pget d' ''event_frame_pts'' = PInt t" and no: "\<not> has_key d ''requested_start_pts''" "\<not> has_key d ''requested_end_pts''"
  have no1: "\<not> has_key d1 ''requested_start_pts''" "\<not> has_key d1 ''requested_end_pts''"
    using no same1 [of "''requested_start_pts''"] same1 [of "''requested_end_pts''"] by (auto simp: same_at_def)
  have secs: "pget d1 ''pre_seconds'' = pget d ''pre_seconds''" "pget d1 ''post_seconds'' = pget d ''post_seconds''"
    using same1 [of "''pre_seconds''"] same1 [of "''post_seconds''"] by (auto simp: same_at_def)
  have int_t: "record_int (PInt t) = Inr (Some t)" by (simp add: record_int_def)
  show "\<exists>pre post. record_int (pget d ''pre_seconds'') = Inr pre \<and> record_int (pget d ''post_seconds'') = Inr post \<and>
      pget d' ''requested_start_pts'' = PInt (max 0 (t - int_or pre 5 * pts_time_base)) \<and>
      pget d' ''requested_end_pts'' = PInt (t + int_or post 5 * pts_time_base)"
  proof (cases frame_pts)
    case None
    then show ?thesis using none t f int_t by simp
  next
    case (Some pts)
    obtain pre post where d': "record_int (pget d1 ''pre_seconds'') = Inr pre" "record_int (pget d1 ''post_seconds'') = Inr post"
        "d' = set_default ''requested_end_pts'' (PInt (pts + int_or post 5 * pts_time_base))
          (set_default ''requested_start_pts'' (PInt (max 0 (pts - int_or pre 5 * pts_time_base)))
          (set_default ''event_frame_pts'' (PInt pts) d1))"
      using some [OF Some] by blast
    have "pts = t"
    proof (cases "has_key d1 ''event_frame_pts''")
      case True
      then have "pget d1 ''event_frame_pts'' = PInt t" using t d'(3) by (simp add: dict_simps)
      then show ?thesis using f Some int_t by simp
    qed (use t d'(3) in \<open>simp add: dict_simps\<close>)
    then show ?thesis using d' secs no1 by (auto simp: dict_simps)
  qed
qed

section \<open>The window\<close>

lemma base_record_values:
  "pget (base_record event request_id event_id source_id ts pre post) ''pre_seconds'' = PInt pre"
  "pget (base_record event request_id event_id source_id ts pre post) ''post_seconds'' = PInt post"
  "pget (base_record event request_id event_id source_id ts pre post) ''source_event_id'' = dget_or event ''source_event_id'' (PStr [])"
  "\<not> has_key (base_record event request_id event_id source_id ts pre post) ''requested_start_pts''"
  "\<not> has_key (base_record event request_id event_id source_id ts pre post) ''requested_end_pts''"
  by (simp_all add: base_record_def pget_def dget_or_def has_key_def Let_def)

text \<open>
  The window of a record request that knows the event's frame spans the configured seconds before
  and after it, cut off at the start of the stream, unless the event brings its own window.  A
  configured length of 0 seconds, which the request repeats, stands for the default of 5 seconds in
  the window.
\<close>

theorem record_window:
  assumes "build_record_request rp cfg request_id event event_id = Inr (Some rec)"
    and "first_policy_value event ''requested_start_pts'' = PNone" "first_policy_value event ''requested_end_pts'' = PNone"
    and "pget rec ''event_frame_pts'' = PInt t"
  shows "\<exists>pre post. pget rec ''pre_seconds'' = PInt pre \<and> pget rec ''post_seconds'' = PInt post \<and>
    py_int (dget_or (as_dict (pget event ''evidence_policy'')) ''pre_seconds'' (PInt (rr_default_pre_seconds cfg))) = Inr pre \<and>
    py_int (dget_or (as_dict (pget event ''evidence_policy'')) ''post_seconds'' (PInt (rr_default_post_seconds cfg))) = Inr post \<and>
    pget rec ''requested_start_pts'' = PInt (max 0 (t - (if pre = 0 then 5 else pre) * 1000000000)) \<and>
    pget rec ''requested_end_pts'' = PInt (t + (if post = 0 then 5 else post) * 1000000000)"
proof -
  obtain ts pre post rec0 where b:
      "py_int (dget_or (as_dict (pget event ''evidence_policy'')) ''pre_seconds'' (PInt (rr_default_pre_seconds cfg))) = Inr pre"
      "py_int (dget_or (as_dict (pget event ''evidence_policy'')) ''post_seconds'' (PInt (rr_default_post_seconds cfg))) = Inr post"
      "\<And>k. kept event k \<Longrightarrow> same_at k (base_record event request_id event_id (resolve_source_id rp event (rr_default_replay_source_id cfg)) ts pre post) rec0"
      "apply_event_frame_timeline event rec0 = Inr rec"
    using build_steps [OF assms(1)] by metis
  have rec0: "pget rec0 ''pre_seconds'' = PInt pre" "pget rec0 ''post_seconds'' = PInt post"
      "\<not> has_key rec0 ''requested_start_pts''" "\<not> has_key rec0 ''requested_end_pts''"
    using b(3) [OF kept_keys(1)] b(3) [OF kept_keys(2)] b(3) [OF kept_keys(4) [OF assms(2)]]
      b(3) [OF kept_keys(5) [OF assms(3)]]
    by (auto simp: same_at_def base_record_values)
  have final: "pget rec ''pre_seconds'' = PInt pre" "pget rec ''post_seconds'' = PInt post"
    using timeline_fills(1) [OF b(4), of "''pre_seconds''"] timeline_fills(1) [OF b(4), of "''post_seconds''"] rec0
    by (auto simp: same_at_def)
  have ints: "record_int (PInt n) = Inr (Some n)" for n by (simp add: record_int_def)
  show ?thesis
    using timeline_fills(2) [OF b(4) assms(4) rec0(3,4)] rec0(1,2) final b(1,2)
    by (auto simp: ints int_or_def pts_time_base_def)
qed

definition example_record_config :: record_config where
  "example_record_config = \<lparr>rr_default_replay_source_id = [], rr_default_pre_seconds = 5, rr_default_post_seconds = 5\<rparr>"

definition example_record_event :: event_doc where
  "example_record_event =
     [(''source_event_id'', PStr ''e''), (''source_id'', PStr ''camera''), (''frame_pts'', PInt 60000000000),
      (''evidence_policy'', PDict [(''pre_seconds'', PInt 0), (''post_seconds'', PInt 3)])]"

lemmas record_eval = build_record_request_def example_record_event_def example_record_config_def resolve_source_id_def
  as_dict_def pget_def dget_or_def py_or_def first_policy_value_def policy_sources_def base_record_def copy_text_def
  apply_post_savant_policy_def is_post_savant_def stripped_text_def post_savant_evidence_topologies_def py_strip_def is_space_def
  normalize_anchor_keyframe_uuid_def apply_event_frame_timeline_def fill_value_def blank_def record_int_def
  int_or_def set_default_def has_key_def pts_time_base_def Let_def

lemma example_record_built:
  "\<exists>rec. build_record_request (\<lambda>_. []) example_record_config ''r'' example_record_event ''1'' = Inr (Some rec) \<and>
     pget rec ''event_frame_pts'' = PInt 60000000000"
proof -
  have "case build_record_request (\<lambda>_. []) example_record_config ''r'' example_record_event ''1'' of
      Inr (Some rec) \<Rightarrow> pget rec ''event_frame_pts'' = PInt 60000000000 | _ \<Rightarrow> False"
    by code_simp
  then show ?thesis by (auto split: sum.splits option.splits)
qed

theorem record_window_witness:
  "\<exists>rec. build_record_request (\<lambda>_. []) example_record_config ''r'' example_record_event ''1'' = Inr (Some rec) \<and>
     pget rec ''requested_start_pts'' = PInt 55000000000 \<and> pget rec ''requested_end_pts'' = PInt 63000000000"
proof -
  obtain rec where rec: "build_record_request (\<lambda>_. []) example_record_config ''r'' example_record_event ''1'' = Inr (Some rec)"
      "pget rec ''event_frame_pts'' = PInt 60000000000"
    using example_record_built by blast
  have "first_policy_value example_record_event ''requested_start_pts'' = PNone"
      "first_policy_value example_record_event ''requested_end_pts'' = PNone"
      "py_int (dget_or (as_dict (pget example_record_event ''evidence_policy'')) ''pre_seconds'' (PInt 5)) = Inr 0"
      "py_int (dget_or (as_dict (pget example_record_event ''evidence_policy'')) ''post_seconds'' (PInt 5)) = Inr 3"
    by (simp_all add: record_eval)
  note facts = this
  obtain pre post where "py_int (dget_or (as_dict (pget example_record_event ''evidence_policy'')) ''pre_seconds'' (PInt 5)) = Inr pre"
      "py_int (dget_or (as_dict (pget example_record_event ''evidence_policy'')) ''post_seconds'' (PInt 5)) = Inr post"
      "pget rec ''requested_start_pts'' = PInt (max 0 (60000000000 - (if pre = 0 then 5 else pre) * 1000000000))"
      "pget rec ''requested_end_pts'' = PInt (60000000000 + (if post = 0 then 5 else post) * 1000000000)"
    using record_window [OF rec(1) facts(1,2) rec(2)] by (auto simp: example_record_config_def)
  then have "pget rec ''requested_start_pts'' = PInt 55000000000" "pget rec ''requested_end_pts'' = PInt 63000000000"
    using facts(3,4) by simp_all
  with rec(1) show ?thesis by blast
qed

section \<open>One request per event\<close>

definition record_event :: "(pyval \<Rightarrow> string) \<Rightarrow> event_doc \<Rightarrow> string" where
  "record_event rp rec = event_text rp rec ''source_event_id''"

lemma built_record_event:
  assumes "build_record_request rp cfg request_id event event_id = Inr (Some rec)"
  shows "record_event rp rec = event_text rp event ''source_event_id''"
proof -
  obtain ts pre post rec0 where b: "same_at ''source_event_id'' (base_record event request_id event_id
        (resolve_source_id rp event (rr_default_replay_source_id cfg)) ts pre post) rec0"
      "apply_event_frame_timeline event rec0 = Inr rec"
    using build_steps [OF assms] kept_keys(3) [of event] by metis
  have "pget rec ''source_event_id'' = dget_or event ''source_event_id'' (PStr [])"
    using b(1) timeline_fills(1) [OF b(2), of "''source_event_id''"] by (auto simp: same_at_def base_record_values)
  then show ?thesis by (auto simp: record_event_def event_text_def dget_or_def pget_def py_or_def split: option.splits)
qed

definition publisher_ok :: "(pyval \<Rightarrow> string) \<Rightarrow> record_publisher \<Rightarrow> bool" where
  "publisher_ok rp p \<longleftrightarrow> distinct (map (record_event rp) (rp_published p)) \<and>
     (\<forall>rec \<in> set (rp_published p). dget (rp_reservations p) (record_event rp rec, ''savant_replay'') \<noteq> None)"

lemma publisher_ok_publish [inv_intros]:
  "publisher_ok rp p \<Longrightarrow> publisher_ok rp (snd (record_publish rp cfg oc request_id event event_id p))"
proof (cases "build_record_request rp cfg request_id event event_id")
  case (Inr ro)
  assume ok: "publisher_ok rp p"
  show ?thesis
  proof (cases ro)
    case (Some rec)
    with Inr have ev: "record_event rp rec = event_text rp event ''source_event_id''"
      by (simp add: built_record_event)
    have new: "record_event rp rec \<noteq> record_event rp r"
      if "dget (rp_reservations p) (record_event rp rec, ''savant_replay'') = None" "r \<in> set (rp_published p)" for r
      using ok that by (auto simp: publisher_ok_def)
    show ?thesis using ok new Inr Some
      by (auto simp: record_publish_def reserve_request_def release_request_def publisher_ok_def dict_simps ev [symmetric] Let_def)
  qed (use ok Inr in \<open>simp add: record_publish_def\<close>)
qed (simp add: record_publish_def)

interpretation request_publisher: transition_system record_publisher_init
    "\<lambda>(cfg, oc, request_id, event, event_id) p. snd (record_publish rp cfg oc request_id event event_id p)" "publisher_ok rp" for rp
  by unfold_locales (auto simp: record_publisher_init_def publisher_ok_def [of _ "\<lparr>rp_reservations = _, rp_published = _\<rparr>"] publisher_ok_publish)

text \<open>
  Whatever events are published in whatever order, with whatever failures of Redis, no event gets
  two record requests while its reservation lasts.
\<close>

theorem one_request_per_event:
  "distinct (map (record_event rp) (rp_published (fold
     (\<lambda>(cfg, oc, request_id, event, event_id) p. snd (record_publish rp cfg oc request_id event event_id p))
     calls record_publisher_init)))"
  using request_publisher.run [of rp calls] by (simp add: publisher_ok_def)

end
