(* ===== verification/EventWorker.thy ===== *)
theory EventWorker
  imports RecordRequest Lifecycle
begin

text \<open>
  The event worker (services/event-worker/app/worker.py): the completion of an event with its
  default evidence policy, recording window and runtime epoch, and the handling of one delivery,
  from the insertion over the alert, the evidence task and the record request to the
  acknowledgement.  The outcomes of the calls to PostgreSQL and Redis are arguments of a delivery;
  what they leave behind is the state of the worker.
\<close>

section \<open>The completion of an event\<close>

definition behavior_evidence_event_types :: "string list" where
  "behavior_evidence_event_types = [''intrusion'', ''fall'', ''crowd_gathering'', ''chasing'']"

definition default_evidence_policy :: event_doc where
  "default_evidence_policy =
     [(''snapshot_required'', PBool True), (''clip_required'', PBool True),
      (''pre_seconds'', PInt 5), (''post_seconds'', PInt 5)]"

definition requires_evidence :: "event_doc \<Rightarrow> bool" where
  "requires_evidence event \<longleftrightarrow>
     (let policy = as_dict (pget event ''evidence_policy'')
      in truthy (pget event ''snapshot_required'') \<or> truthy (pget event ''clip_required'') \<or>
         truthy (pget policy ''snapshot_required'') \<or> truthy (pget policy ''clip_required''))"

definition names_evidence :: "event_doc \<Rightarrow> bool" where
  "names_evidence d \<longleftrightarrow> has_key d ''snapshot_required'' \<or> has_key d ''clip_required''"

text \<open>\<open>{**defaults, **policy}\<close>\<close>

definition merge_doc :: "event_doc \<Rightarrow> event_doc \<Rightarrow> event_doc" where
  "merge_doc defaults policy = fold (\<lambda>(k, v). dset k v) policy defaults"

definition default_media :: "event_doc \<Rightarrow> event_doc \<Rightarrow> event_doc" where
  "default_media event media =
     set_default ''keyframe_uuid'' (pget event ''keyframe_uuid'')
     (set_default ''frame_uuid'' (pget event ''frame_uuid'')
     (set_default ''event_ts_ms'' (dget_or event ''event_ts_ms'' (PInt 0))
     (set_default ''source_id'' (dget_or event ''source_id'' (PStr []))
     (set_default ''post_seconds'' (PInt 5)
     (set_default ''pre_seconds'' (PInt 5)
     (dset ''clip_required'' (PBool True)
     (dset ''snapshot_required'' (PBool True)
     (set_default ''recording_strategy'' (PStr ''reserved'')
     (set_default ''clip_status'' (PStr ''not_implemented'')
     (set_default ''snapshot_status'' (PStr ''not_implemented'') media))))))))))"

fun is_mapping :: "pyval \<Rightarrow> bool" where
  "is_mapping (PDict _) = True"
| "is_mapping _ = False"

text \<open>
  A policy, media or event field that names the requirement is an explicit choice, also when it says
  no.  A payload that is neither a mapping nor false raises.
\<close>

definition apply_default_evidence_policy :: "event_doc \<Rightarrow> event_doc result" where
  "apply_default_evidence_policy event =
     (let payload = pget event ''payload''; media = as_dict (pget (as_dict payload) ''media'');
          policy = as_dict (pget event ''evidence_policy'')
      in if pget event ''event_type'' \<notin> set (map PStr behavior_evidence_event_types) then Inr event
         else if truthy payload \<and> \<not> is_mapping payload then Inl Type_Error
         else if names_evidence event \<or> names_evidence policy \<or> names_evidence media then Inr event
         else if requires_evidence event then Inr event
         else
           Inr (dset ''payload'' (PDict (dset ''media'' (PDict (default_media event media)) (as_dict payload)))
             (dset ''evidence_policy'' (PDict (merge_doc default_evidence_policy policy))
             (dset ''clip_required'' (PBool True) (dset ''snapshot_required'' (PBool True) event)))))"

definition has_value :: "(pyval \<Rightarrow> string) \<Rightarrow> pyval \<Rightarrow> bool" where
  "has_value rp v \<longleftrightarrow> v \<noteq> PNone \<and> py_strip (py_str rp v) \<noteq> []"

text \<open>\<open>max(int(float(value)), 0)\<close>; an infinite float raises, other failures give nothing.\<close>

definition seconds_value :: "pyval \<Rightarrow> int option result" where
  "seconds_value v =
     (case rbind (py_float v) (\<lambda>x. py_int (PFloat x)) of
        Inr i \<Rightarrow> Inr (Some (max i 0))
      | Inl Overflow_Error \<Rightarrow> Inl Overflow_Error
      | Inl _ \<Rightarrow> Inr None)"

definition put_seconds :: "string \<Rightarrow> pyval \<Rightarrow> event_doc \<Rightarrow> event_doc result" where
  "put_seconds key v d =
     rbind (seconds_value v) (\<lambda>i. Inr (case i of Some n \<Rightarrow> dset key (PInt n) d | None \<Rightarrow> d))"

definition policy_seconds :: "(pyval \<Rightarrow> string) \<Rightarrow> event_doc \<Rightarrow> string \<Rightarrow> int \<Rightarrow> event_doc \<Rightarrow> event_doc result" where
  "policy_seconds rp media key seconds policy =
     (if has_value rp (pget policy key) then Inr policy
      else if has_value rp (pget media key) then put_seconds key (pget media key) policy
      else if 0 \<le> seconds then Inr (dset key (PInt seconds) policy)
      else Inr policy)"

definition media_seconds :: "(pyval \<Rightarrow> string) \<Rightarrow> event_doc \<Rightarrow> string \<Rightarrow> event_doc \<Rightarrow> event_doc result" where
  "media_seconds rp policy key media =
     (if \<not> has_value rp (pget media key) \<and> has_value rp (pget policy key)
      then put_seconds key (pget policy key) media else Inr media)"

definition clip_wanted :: "event_doc \<Rightarrow> bool" where
  "clip_wanted event \<longleftrightarrow>
     truthy (pget event ''clip_required'') \<or>
     truthy (pget (as_dict (pget (as_dict (pget event ''payload'')) ''media'')) ''clip_required'')"

definition apply_recording_window :: "(pyval \<Rightarrow> string) \<Rightarrow> int \<Rightarrow> int \<Rightarrow> event_doc \<Rightarrow> event_doc result" where
  "apply_recording_window rp pre post event =
     (if \<not> clip_wanted event then Inr event
      else
        (let payload = as_dict (pget event ''payload''); media = as_dict (pget payload ''media'');
             policy = as_dict (pget event ''evidence_policy'')
         in rbind (policy_seconds rp media ''pre_seconds'' pre policy) (\<lambda>policy1.
            rbind (policy_seconds rp media ''post_seconds'' post policy1) (\<lambda>policy2.
            rbind (media_seconds rp policy2 ''pre_seconds'' media) (\<lambda>media1.
            rbind (media_seconds rp policy2 ''post_seconds'' media1) (\<lambda>media2.
              Inr (dset ''payload'' (PDict (dset ''media'' (PDict media2) payload))
                (dset ''evidence_policy'' (PDict policy2) event))))))))"

definition apply_runtime_epoch :: "(pyval \<Rightarrow> string) \<Rightarrow> string \<Rightarrow> event_doc \<Rightarrow> event_doc" where
  "apply_runtime_epoch rp runtime_epoch_id event =
     (let payload = as_dict (pget event ''payload''); media = as_dict (pget payload ''media'');
          existing = py_str rp (py_or (pget event ''runtime_epoch_id'') (py_or (pget payload ''runtime_epoch_id'')
            (py_or (pget media ''runtime_epoch_id'') (PStr []))));
          epoch = text_or runtime_epoch_id existing;
          stamp = (\<lambda>d. if epoch = [] then d else dset ''runtime_epoch_id'' (PStr epoch) d)
      in stamp (dset ''payload'' (PDict (stamp (dset ''media'' (PDict (stamp media)) payload))) event))"

section \<open>The state and the configuration\<close>

record handler_config =
  hc_recording_event_types :: "string list"
  hc_recording_source_id :: string
  hc_recording_max_requests_per_run :: int
  hc_recording_cooldown_seconds :: int
  hc_recording_cooldown_scope :: string
  hc_recording_cooldown_grace_ms :: int
  hc_recording_pre_seconds :: int
  hc_recording_post_seconds :: int
  hc_rolling_cache_suppress_record_requests :: bool
  hc_evidence_task_creation_enabled :: bool
  hc_event_not_before_ts_ms :: int
  hc_event_not_after_ts_ms :: int
  hc_record_config :: "record_config option"

record event_worker =
  wk_rows :: "event_row list"
  wk_publisher :: record_publisher
  wk_published_requests :: int
  wk_last_recorded_at_ms :: "(string, int) dict"
  wk_last_recorded_event_type :: "(string, string) dict"
  wk_alerts :: "string list"
  wk_tasks :: "nat list"
  wk_skipped :: "(nat \<times> string) list"
  wk_acked :: "string list"

definition event_worker_init :: event_worker where
  "event_worker_init =
     \<lparr>wk_rows = [], wk_publisher = record_publisher_init, wk_published_requests = 0, wk_last_recorded_at_ms = [],
      wk_last_recorded_event_type = [], wk_alerts = [], wk_tasks = [], wk_skipped = [], wk_acked = []\<rparr>"

text \<open>
  The outcomes of the calls of one delivery: whether the insertion, the policy check, the alert, the
  update of the clip status, the skip mark and the acknowledgement succeed, the status of the
  created task or the failure of its creation, the clip status of the stored event or the failure
  of its query, and the clock.
\<close>

record handler_outcomes =
  oc_insert_ok :: bool
  oc_policy_ok :: bool
  oc_alert_ok :: bool
  oc_task :: "string option result"
  oc_clip_status :: "string option result"
  oc_exists_ok :: bool
  oc_redis :: redis_outcomes
  oc_request_id :: string
  oc_set_clip_ok :: bool
  oc_skip_ok :: bool
  oc_ack_ok :: bool
  oc_now_ms :: int
  oc_runtime_epoch_id :: string

definition recordable_task_statuses :: "string set" where
  "recordable_task_statuses = insert ''pending'' ready_materialization_statuses"

definition task_recordable :: "string option \<Rightarrow> bool" where
  "task_recordable status = (case status of None \<Rightarrow> False | Some s \<Rightarrow> s \<in> recordable_task_statuses)"

definition terminal_skip_reasons :: "string list" where
  "terminal_skip_reasons =
     [''cooldown'', ''event_type_mismatch'', ''max_requests_reached'', ''source_id_mismatch'', ''duplicate_record_request'']"

section \<open>The gate of the record requests\<close>

definition recording_gate_ts_ms :: "int \<Rightarrow> event_doc \<Rightarrow> int result" where
  "recording_gate_ts_ms now_ms event =
     rbind
       (case py_int (py_or (dget_or event ''event_ts_ms'' (PInt 0)) (PInt 0)) of
          Inl Overflow_Error \<Rightarrow> Inl Overflow_Error | Inl _ \<Rightarrow> Inr 0 | Inr i \<Rightarrow> Inr i)
       (\<lambda>ts_ms. Inr (if ts_ms < 946684800000 \<or> now_ms + 24 * 60 * 60 * 1000 < ts_ms then now_ms else ts_ms))"

definition recording_cooldown_key :: "string \<Rightarrow> string \<Rightarrow> string \<Rightarrow> string" where
  "recording_cooldown_key source_id event_type scope =
     (let scope_value = py_lower (py_strip (text_or scope ''event_type'')); event_part = text_or event_type ''_unknown_event''
      in if scope_value = ''source'' then text_or source_id event_part
         else if scope_value = ''global'' then ''_global''
         else if source_id \<noteq> [] then source_id @ '':'' @ event_part else event_part)"

definition recording_threshold_ms :: "handler_config \<Rightarrow> int" where
  "recording_threshold_ms cfg =
     max 0 (hc_recording_cooldown_seconds cfg * 1000 - max 0 (hc_recording_cooldown_grace_ms cfg))"

definition recording_cooldown_active :: "handler_config \<Rightarrow> event_worker \<Rightarrow> string \<Rightarrow> int \<Rightarrow> bool" where
  "recording_cooldown_active cfg w key gate_ts =
     (case dget (wk_last_recorded_at_ms w) key of
        None \<Rightarrow> False
      | Some t \<Rightarrow> gate_ts - t < recording_threshold_ms cfg)"

text \<open>The reason for which no request is published, if there is one.\<close>

definition recording_skip_reason ::
  "handler_config \<Rightarrow> handler_outcomes \<Rightarrow> event_worker \<Rightarrow> string option \<Rightarrow> string \<Rightarrow> string \<Rightarrow> string \<Rightarrow>
   string \<Rightarrow> int \<Rightarrow> string option \<Rightarrow> string option" where
  "recording_skip_reason cfg oc w task_status source_event_id source_id event_type key gate_ts existing_status =
     (if hc_recording_event_types cfg \<noteq> [] \<and> event_type \<notin> set (hc_recording_event_types cfg)
      then Some ''event_type_mismatch''
      else if \<not> task_recordable task_status
      then Some (''evidence_task_status='' @ (case task_status of None \<Rightarrow> ''missing'' | Some s \<Rightarrow> text_or s ''missing''))
      else if hc_recording_source_id cfg \<noteq> [] \<and> source_id \<noteq> hc_recording_source_id cfg
      then Some ''source_id_mismatch''
      else if 0 < hc_recording_max_requests_per_run cfg \<and>
        hc_recording_max_requests_per_run cfg \<le> wk_published_requests w
      then Some ''max_requests_reached''
      else if 0 < hc_recording_cooldown_seconds cfg \<and> recording_cooldown_active cfg w key gate_ts
      then Some ''cooldown''
      else if source_event_id \<noteq> [] \<and> has_request (oc_exists_ok oc) source_event_id ''savant_replay'' (wk_publisher w)
      then Some ''duplicate_record_request''
      else
        (case existing_status of
           Some s \<Rightarrow> if s \<notin> {[], ''not_implemented'', ''not_required''} then Some (''already_has_clip_status='' @ s) else None
         | None \<Rightarrow> None))"

text \<open>A published request: the clip status is set before the request is counted.\<close>

definition publish_request ::
  "(pyval \<Rightarrow> string) \<Rightarrow> record_config \<Rightarrow> handler_outcomes \<Rightarrow> event_doc \<Rightarrow> nat option \<Rightarrow> string \<Rightarrow> string \<Rightarrow>
   string \<Rightarrow> int \<Rightarrow> event_worker \<Rightarrow> event_worker" where
  "publish_request rp rcfg oc event event_id source_id event_type key gate_ts w =
     (let (sent, p) = record_publish rp rcfg (oc_redis oc) (oc_request_id oc) event
            (case event_id of None \<Rightarrow> [] | Some i \<Rightarrow> nat_dec i) (wk_publisher w);
          w1 = w\<lparr>wk_publisher := p\<rparr>
      in if sent = Inr True \<and> (event_id = None \<or> oc_set_clip_ok oc)
         then
           (let w2 = w1\<lparr>wk_published_requests := wk_published_requests w1 + 1\<rparr>
            in if source_id = [] then w2
               else w2\<lparr>wk_last_recorded_at_ms := dset key gate_ts (wk_last_recorded_at_ms w2),
                       wk_last_recorded_event_type := dset key event_type (wk_last_recorded_event_type w2)\<rparr>)
         else w1)"

text \<open>A new event that is skipped for a final reason has its task marked.\<close>

definition skip_request ::
  "handler_outcomes \<Rightarrow> nat option \<Rightarrow> string option \<Rightarrow> string \<Rightarrow> event_worker \<Rightarrow> event_worker" where
  "skip_request oc event_id task_status reason w =
     (case event_id of
        Some i \<Rightarrow>
          if task_recordable task_status \<and>
             reason \<in> set terminal_skip_reasons \<and> oc_skip_ok oc
          then w\<lparr>wk_skipped := wk_skipped w @ [(i, ''recording_policy_skipped:'' @ reason)]\<rparr> else w
      | None \<Rightarrow> w)"

definition request_recording ::
  "(pyval \<Rightarrow> string) \<Rightarrow> handler_config \<Rightarrow> record_config \<Rightarrow> handler_outcomes \<Rightarrow> event_doc \<Rightarrow> nat option \<Rightarrow>
   string option \<Rightarrow> event_worker \<Rightarrow> event_worker result" where
  "request_recording rp cfg rcfg oc event event_id task_status w =
     (let source_event_id = py_str rp (dget_or event ''source_event_id'' (PStr []));
          source_id = resolve_source_id rp event [];
          event_type = py_str rp (dget_or event ''event_type'' (PStr []));
          key = recording_cooldown_key source_id event_type (hc_recording_cooldown_scope cfg)
      in rbind (oc_clip_status oc) (\<lambda>existing_status.
         rbind (recording_gate_ts_ms (oc_now_ms oc) event) (\<lambda>gate_ts.
         Inr
           (case recording_skip_reason cfg oc w task_status source_event_id source_id event_type key gate_ts existing_status of
              None \<Rightarrow> publish_request rp rcfg oc event event_id source_id event_type key gate_ts w
            | Some reason \<Rightarrow> skip_request oc event_id task_status reason w))))"

section \<open>One delivery\<close>

definition prepare_event :: "(pyval \<Rightarrow> string) \<Rightarrow> handler_config \<Rightarrow> string \<Rightarrow> event_doc \<Rightarrow> event_doc result" where
  "prepare_event rp cfg runtime_epoch_id event =
     rbind (apply_default_evidence_policy event) (\<lambda>e.
     rbind (apply_recording_window rp (hc_recording_pre_seconds cfg) (hc_recording_post_seconds cfg) e) (\<lambda>e1.
       Inr (apply_runtime_epoch rp runtime_epoch_id e1)))"

text \<open>The insertion; a database failure and a failing conversion look alike.\<close>

definition store_event ::
  "(pyval \<Rightarrow> string) \<Rightarrow> handler_outcomes \<Rightarrow> event_doc \<Rightarrow> event_worker \<Rightarrow> (nat option \<times> event_worker) option" where
  "store_event rp oc event w =
     (if \<not> oc_insert_ok oc then None
      else case insert_event rp event (wk_rows w) of
        Inl _ \<Rightarrow> None
      | Inr (event_id, rows) \<Rightarrow> Some (event_id, w\<lparr>wk_rows := rows\<rparr>))"

text \<open>The alert policy of a new event: a failing check lets the event through.\<close>

definition check_alert_policy ::
  "(pyval \<Rightarrow> string) \<Rightarrow> (string \<Rightarrow> event_doc) \<Rightarrow> handler_outcomes \<Rightarrow> event_doc \<Rightarrow> nat option \<Rightarrow> event_worker \<Rightarrow>
   bool \<times> event_doc \<times> event_worker" where
  "check_alert_policy rp policies oc event event_id w =
     (case event_id of
        None \<Rightarrow> (False, event, w)
      | Some i \<Rightarrow>
          (if \<not> oc_policy_ok oc then (False, event, w)
           else case alert_apply rp policies event i (wk_rows w) of
             Inl _ \<Rightarrow> (False, event, w)
           | Inr (d, event1, rows) \<Rightarrow> (alert_suppressed d, event1, w\<lparr>wk_rows := rows\<rparr>)))"

definition publish_alert ::
  "(pyval \<Rightarrow> string) \<Rightarrow> handler_outcomes \<Rightarrow> event_doc \<Rightarrow> nat option \<Rightarrow> bool \<Rightarrow> event_worker \<Rightarrow> event_worker" where
  "publish_alert rp oc event event_id suppressed w =
     (if event_id \<noteq> None \<and> \<not> suppressed \<and> oc_alert_ok oc
      then w\<lparr>wk_alerts := wk_alerts w @ [py_str rp (dget_or event ''source_event_id'' (PStr []))]\<rparr> else w)"

definition task_time_eligible :: "handler_config \<Rightarrow> int \<Rightarrow> bool" where
  "task_time_eligible cfg ts \<longleftrightarrow>
     ts \<le> 0 \<or>
     (hc_event_not_before_ts_ms cfg \<le> 0 \<or> hc_event_not_before_ts_ms cfg \<le> ts) \<and>
     (hc_event_not_after_ts_ms cfg \<le> 0 \<or> ts \<le> hc_event_not_after_ts_ms cfg)"

definition create_task ::
  "handler_config \<Rightarrow> handler_outcomes \<Rightarrow> event_doc \<Rightarrow> nat option \<Rightarrow> bool \<Rightarrow> int \<Rightarrow> event_worker \<Rightarrow>
   string option \<times> event_worker" where
  "create_task cfg oc event event_id suppressed ts w =
     (case event_id of
        None \<Rightarrow> (None, w)
      | Some i \<Rightarrow>
          if \<not> suppressed \<and> requires_evidence event \<and> hc_evidence_task_creation_enabled cfg \<and> task_time_eligible cfg ts
          then (case oc_task oc of Inl _ \<Rightarrow> (None, w) | Inr status \<Rightarrow> (status, w\<lparr>wk_tasks := wk_tasks w @ [i]\<rparr>))
          else (None, w))"

definition acknowledge :: "handler_outcomes \<Rightarrow> string \<Rightarrow> event_worker \<Rightarrow> event_worker" where
  "acknowledge oc msg_id w = (if oc_ack_ok oc then w\<lparr>wk_acked := wk_acked w @ [msg_id]\<rparr> else w)"

text \<open>The record request of an event that is not suppressed and wants a clip.\<close>

definition record_stage ::
  "(pyval \<Rightarrow> string) \<Rightarrow> handler_config \<Rightarrow> handler_outcomes \<Rightarrow> event_doc \<Rightarrow> nat option \<Rightarrow> bool \<Rightarrow> string option \<Rightarrow>
   event_worker \<Rightarrow> event_worker result" where
  "record_stage rp cfg oc event event_id suppressed task_status w =
     (case hc_record_config cfg of
        None \<Rightarrow> Inr w
      | Some rcfg \<Rightarrow>
          if suppressed \<or> \<not> clip_wanted event \<or> hc_rolling_cache_suppress_record_requests cfg then Inr w
          else request_recording rp cfg rcfg oc event event_id task_status w)"

text \<open>The stages after the alert, up to the acknowledgement; an exception leaves the message pending.\<close>

definition complete_event ::
  "(pyval \<Rightarrow> string) \<Rightarrow> handler_config \<Rightarrow> handler_outcomes \<Rightarrow> string \<Rightarrow> event_doc \<Rightarrow> nat option \<Rightarrow> bool \<Rightarrow>
   event_worker \<Rightarrow> (bool \<times> nat option) result \<times> event_worker" where
  "complete_event rp cfg oc msg_id event event_id suppressed w =
     (case decision_ts_ms event of
        Inl e \<Rightarrow> (Inl e, w)
      | Inr ts \<Rightarrow>
          (let (task_status, w1) = create_task cfg oc event event_id suppressed ts w
           in case record_stage rp cfg oc event event_id suppressed task_status w1 of
                Inl e \<Rightarrow> (Inl e, w1)
              | Inr w2 \<Rightarrow> (Inr (event_id \<noteq> None, event_id), acknowledge oc msg_id w2)))"

text \<open>
  \<open>_handle_event\<close>: whether the event is new, with its id, or the exception that leaves the handler,
  and the state that is left behind in either case.
\<close>

definition handle_event ::
  "(pyval \<Rightarrow> string) \<Rightarrow> (string \<Rightarrow> event_doc) \<Rightarrow> handler_config \<Rightarrow> handler_outcomes \<Rightarrow> string \<Rightarrow> event_doc \<Rightarrow>
   event_worker \<Rightarrow> (bool \<times> nat option) result \<times> event_worker" where
  "handle_event rp policies cfg oc msg_id event w =
     (case prepare_event rp cfg (oc_runtime_epoch_id oc) event of
        Inl e \<Rightarrow> (Inl e, w)
      | Inr event1 \<Rightarrow>
          (case store_event rp oc event1 w of
             None \<Rightarrow> (Inr (False, None), w)
           | Some (event_id, w1) \<Rightarrow>
               (let (suppressed, event2, w2) = check_alert_policy rp policies oc event1 event_id w1
                in complete_event rp cfg oc msg_id event2 event_id suppressed
                     (publish_alert rp oc event2 event_id suppressed w2))))"

section \<open>A batch\<close>

text \<open>
  The data field of a stream entry: missing or empty, text that is not JSON, or a JSON value.  A
  value that is not a mapping has no \<open>get\<close>, which raises.
\<close>

type_synonym stream_data = "pyval result option"

definition parse_event :: "stream_data \<Rightarrow> event_doc option result" where
  "parse_event data =
     (case data of
        None \<Rightarrow> Inr None
      | Some (Inl _) \<Rightarrow> Inr None
      | Some (Inr (PDict event)) \<Rightarrow>
          Inr (if \<forall>k \<in> set [''source_event_id'', ''event_type'', ''camera_id'']. truthy (pget event k)
               then Some event else None)
      | Some (Inr _) \<Rightarrow> Inl Type_Error)"

text \<open>The numbers of new and of other events; an exception ends the batch where it is.\<close>

fun process_batch ::
  "(pyval \<Rightarrow> string) \<Rightarrow> (string \<Rightarrow> event_doc) \<Rightarrow> handler_config \<Rightarrow>
   (handler_outcomes \<times> string \<times> stream_data) list \<Rightarrow> event_worker \<Rightarrow> (nat \<times> nat) result \<times> event_worker" where
  "process_batch rp policies cfg [] w = (Inr (0, 0), w)"
| "process_batch rp policies cfg ((oc, msg_id, data) # rest) w =
     (case parse_event data of
        Inl e \<Rightarrow> (Inl e, w)
      | Inr None \<Rightarrow> process_batch rp policies cfg rest (acknowledge oc msg_id w)
      | Inr (Some event) \<Rightarrow>
          (case handle_event rp policies cfg oc msg_id event w of
             (Inl e, w1) \<Rightarrow> (Inl e, w1)
           | (Inr (new, _), w1) \<Rightarrow>
               (let (counts, w2) = process_batch rp policies cfg rest w1
                in (rbind counts (\<lambda>(inserted, duplicates).
                      Inr (if new then (inserted + 1, duplicates) else (inserted, duplicates + 1))), w2))))"

section \<open>What a delivery leaves alone\<close>

lemma acknowledge_fields [simp]:
  "wk_rows (acknowledge oc m w) = wk_rows w" "wk_alerts (acknowledge oc m w) = wk_alerts w"
  "wk_publisher (acknowledge oc m w) = wk_publisher w" "wk_tasks (acknowledge oc m w) = wk_tasks w"
  "wk_published_requests (acknowledge oc m w) = wk_published_requests w"
  "wk_last_recorded_at_ms (acknowledge oc m w) = wk_last_recorded_at_ms w"
  by (simp_all add: acknowledge_def)

lemma create_task_fields:
  "create_task cfg oc event i suppressed ts w = (status, w') \<Longrightarrow>
   wk_rows w' = wk_rows w \<and> wk_alerts w' = wk_alerts w \<and> wk_publisher w' = wk_publisher w \<and>
   wk_acked w' = wk_acked w \<and> wk_published_requests w' = wk_published_requests w \<and>
   wk_last_recorded_at_ms w' = wk_last_recorded_at_ms w \<and> (i = None \<longrightarrow> status = None \<and> w' = w)"
  by (auto simp: create_task_def split: option.splits if_splits sum.splits)

lemma publish_request_fields:
  "wk_rows (publish_request rp rcfg oc event i src ty key ts w) = wk_rows w"
  "wk_alerts (publish_request rp rcfg oc event i src ty key ts w) = wk_alerts w"
  "wk_acked (publish_request rp rcfg oc event i src ty key ts w) = wk_acked w"
  by (simp_all add: publish_request_def Let_def split_beta)

lemma skip_request_fields:
  "wk_rows (skip_request oc i status reason w) = wk_rows w"
  "wk_alerts (skip_request oc i status reason w) = wk_alerts w"
  "wk_acked (skip_request oc i status reason w) = wk_acked w"
  "wk_published_requests (skip_request oc i status reason w) = wk_published_requests w"
  "wk_last_recorded_at_ms (skip_request oc i status reason w) = wk_last_recorded_at_ms w"
  "skip_request oc None status reason w = w"
  by (simp_all add: skip_request_def split: option.splits)

lemma request_recording_cases:
  assumes "request_recording rp cfg rcfg oc event i status w = Inr w'"
  obtains (Sent) sid src ty key gate_ts existing where
      "recording_skip_reason cfg oc w status sid src ty key gate_ts existing = None"
      "w' = publish_request rp rcfg oc event i src ty key gate_ts w"
  | (Skipped) reason where "w' = skip_request oc i status reason w"
proof -
  define sid src ty key where "sid = py_str rp (dget_or event ''source_event_id'' (PStr []))"
    and "src = resolve_source_id rp event []" and "ty = py_str rp (dget_or event ''event_type'' (PStr []))"
    and "key = recording_cooldown_key src ty (hc_recording_cooldown_scope cfg)"
  obtain existing gate_ts where w': "w' = (case recording_skip_reason cfg oc w status sid src ty key gate_ts existing of
      None \<Rightarrow> publish_request rp rcfg oc event i src ty key gate_ts w | Some reason \<Rightarrow> skip_request oc i status reason w)"
    using assms unfolding request_recording_def Let_def sid_def src_def ty_def key_def
    by (auto simp only: rbind_Inr_iff sum.inject)
  show thesis
  proof (cases "recording_skip_reason cfg oc w status sid src ty key gate_ts existing")
    case None
    then show thesis using w' by (intro Sent) simp_all
  next
    case (Some reason)
    then show thesis using w' by (intro Skipped) simp
  qed
qed

lemma request_recording_fields:
  assumes "request_recording rp cfg rcfg oc event i status w = Inr w'"
  shows "wk_rows w' = wk_rows w \<and> wk_alerts w' = wk_alerts w \<and> wk_acked w' = wk_acked w"
  using assms
  by (cases rule: request_recording_cases) (simp_all add: publish_request_fields skip_request_fields)

text \<open>Without a task there is no request.\<close>

lemma sent_needs_task:
  "recording_skip_reason cfg oc w status sid src ty key gate_ts existing = None \<Longrightarrow> task_recordable status"
  by (rule ccontr) (simp add: recording_skip_reason_def split: if_splits)

lemma request_recording_no_task:
  assumes "request_recording rp cfg rcfg oc event None None w = Inr w'"
  shows "w' = w"
  using assms
proof (cases rule: request_recording_cases)
  case Sent
  then have "task_recordable None" by (intro sent_needs_task)
  then show ?thesis by (simp add: task_recordable_def)
qed (simp add: skip_request_fields)

lemma check_alert_policy_fields:
  "check_alert_policy rp policies oc event i w = (suppressed, event', w') \<Longrightarrow>
   wk_alerts w' = wk_alerts w \<and> wk_publisher w' = wk_publisher w \<and> wk_tasks w' = wk_tasks w \<and>
   wk_acked w' = wk_acked w \<and> wk_published_requests w' = wk_published_requests w \<and>
   wk_last_recorded_at_ms w' = wk_last_recorded_at_ms w \<and> (i = None \<longrightarrow> \<not> suppressed \<and> event' = event \<and> w' = w) \<and>
   (\<not> suppressed \<longrightarrow> event' = event \<and> wk_rows w' = wk_rows w) \<and>
   (\<forall>n. i = Some n \<and> n < length (wk_rows w) \<longrightarrow>
      wk_rows w' = wk_rows w \<or> (\<exists>doc. wk_rows w' = (wk_rows w)[n := (wk_rows w ! n)\<lparr>ew_status := ''suppressed'', ew_alert_policy := doc\<rparr>]))"
  by (auto simp: check_alert_policy_def alert_apply_def rbind_def mark_event_suppressed_def
      split: option.splits if_splits sum.splits)

lemma publish_alert_fields [simp]:
  "wk_rows (publish_alert rp oc event i suppressed w) = wk_rows w"
  "wk_publisher (publish_alert rp oc event i suppressed w) = wk_publisher w"
  "wk_tasks (publish_alert rp oc event i suppressed w) = wk_tasks w"
  "wk_acked (publish_alert rp oc event i suppressed w) = wk_acked w"
  "wk_published_requests (publish_alert rp oc event i suppressed w) = wk_published_requests w"
  "wk_last_recorded_at_ms (publish_alert rp oc event i suppressed w) = wk_last_recorded_at_ms w"
  by (simp_all add: publish_alert_def)

lemma record_stage_cases:
  assumes "record_stage rp cfg oc event i suppressed status w = Inr w'"
  obtains (Idle) "w' = w" | (Requested) rcfg where "request_recording rp cfg rcfg oc event i status w = Inr w'"
proof (cases "hc_record_config cfg")
  case None
  then show thesis using assms by (intro Idle) (simp add: record_stage_def)
next
  case (Some rcfg)
  show thesis
  proof (cases "suppressed \<or> \<not> clip_wanted event \<or> hc_rolling_cache_suppress_record_requests cfg")
    case True
    then have "Inr w = (Inr w' :: event_worker result)" using assms Some by (simp add: record_stage_def)
    then show thesis by (intro Idle) simp
  next
    case False
    then show thesis using assms Some by (intro Requested [of rcfg]) (simp add: record_stage_def)
  qed
qed

lemma complete_event_cases:
  assumes "complete_event rp cfg oc msg_id event i suppressed w = (res, w')"
  obtains (Failed) "w' = w"
  | (Task) ts status where "create_task cfg oc event i suppressed ts w = (status, w')"
  | (Done) ts status w1 w2 where "create_task cfg oc event i suppressed ts w = (status, w1)"
      "record_stage rp cfg oc event i suppressed status w1 = Inr w2" "w' = acknowledge oc msg_id w2"
proof (cases "decision_ts_ms event")
  case (Inl e)
  then show thesis using assms by (intro Failed) (simp add: complete_event_def)
next
  case (Inr ts)
  obtain status w1 where t: "create_task cfg oc event i suppressed ts w = (status, w1)" by force
  show thesis
  proof (cases "record_stage rp cfg oc event i suppressed status w1")
    case (Inl e)
    then show thesis using assms Inr t by (intro Task [of ts status]) (simp add: complete_event_def)
  next
    case (Inr w2)
    then show thesis using assms \<open>decision_ts_ms event = Inr ts\<close> t
      by (intro Done [of ts status w1 w2]) (simp_all add: complete_event_def)
  qed
qed

lemma complete_event_rows:
  assumes "complete_event rp cfg oc msg_id event i suppressed w = (res, w')"
  shows "wk_rows w' = wk_rows w \<and> wk_alerts w' = wk_alerts w"
  using assms
proof (cases rule: complete_event_cases)
  case (Task ts status)
  then show ?thesis using create_task_fields by blast
next
  case (Done ts status w1 w2)
  from Done(2) have "wk_rows w2 = wk_rows w1 \<and> wk_alerts w2 = wk_alerts w1"
    by (cases rule: record_stage_cases) (auto dest: request_recording_fields)
  then show ?thesis using create_task_fields [OF Done(1)] Done(3) by simp
qed simp

text \<open>A delivery that gets past the insertion.\<close>

lemma handle_event_cases:
  assumes "handle_event rp policies cfg oc msg_id event w = (res, w')"
  obtains (Unstored) "w' = w" "\<forall>r. res = Inr r \<longrightarrow> r = (False, None)"
  | (Stored) event1 i w1 suppressed event2 w2 where
      "prepare_event rp cfg (oc_runtime_epoch_id oc) event = Inr event1" "store_event rp oc event1 w = Some (i, w1)"
      "check_alert_policy rp policies oc event1 i w1 = (suppressed, event2, w2)"
      "complete_event rp cfg oc msg_id event2 i suppressed (publish_alert rp oc event2 i suppressed w2) = (res, w')"
proof (cases "prepare_event rp cfg (oc_runtime_epoch_id oc) event")
  case (Inl e)
  then show thesis using assms by (intro Unstored) (auto simp: handle_event_def)
next
  case prep: (Inr event1)
  show thesis
  proof (cases "store_event rp oc event1 w")
    case None
    then show thesis using assms prep by (intro Unstored) (auto simp: handle_event_def)
  next
    case (Some st)
    then obtain i w1 where st: "store_event rp oc event1 w = Some (i, w1)" by (cases st) auto
    obtain suppressed event2 w2 where "check_alert_policy rp policies oc event1 i w1 = (suppressed, event2, w2)"
      by (cases "check_alert_policy rp policies oc event1 i w1") auto
    then show thesis using assms prep st by (intro Stored [of event1 i w1 suppressed event2 w2]) (simp_all add: handle_event_def)
  qed
qed

section \<open>Alerts\<close>

definition alerts_ok :: "event_worker \<Rightarrow> bool" where
  "alerts_ok w \<longleftrightarrow>
     distinct (map ew_source_event_id (wk_rows w)) \<and> distinct (wk_alerts w) \<and>
     (\<forall>a \<in> set (wk_alerts w). \<exists>r \<in> set (wk_rows w). ew_source_event_id r = a \<and> ew_status r \<noteq> ''suppressed'')"

lemma store_event_cases:
  assumes "store_event rp oc event w = Some (i, w1)"
  obtains (Known) "i = None" "w1 = w"
  | (New) row where "event_params rp event = Inr row" "i = Some (length (wk_rows w))"
      "w1 = w\<lparr>wk_rows := wk_rows w @ [row]\<rparr>" "\<forall>r \<in> set (wk_rows w). ew_source_event_id r \<noteq> ew_source_event_id row"
proof (cases "event_params rp event")
  case (Inl e)
  then show thesis using assms by (simp add: store_event_def insert_event_def split: if_splits)
next
  case (Inr row)
  show thesis
  proof (cases "\<exists>r \<in> set (wk_rows w). ew_source_event_id r = ew_source_event_id row")
    case True
    then have "insert_event rp event (wk_rows w) = Inr (None, wk_rows w)" by (simp add: insert_event_def Inr)
    then show thesis using assms by (intro Known) (simp_all add: store_event_def split: if_splits)
  next
    case False
    then have "insert_event rp event (wk_rows w) = Inr (Some (length (wk_rows w)), wk_rows w @ [row])"
      by (simp add: insert_event_def Inr)
    then show thesis using assms Inr False by (intro New) (simp_all add: store_event_def split: if_splits)
  qed
qed

lemma event_params_text:
  "event_params rp event = Inr row \<Longrightarrow>
   ew_source_event_id row = py_str rp (dget_or event ''source_event_id'' (PStr [])) \<and> ew_status row = ''new''"
  by (auto simp: event_params_def rbind_Inr_iff)

lemma alerts_ok_handle:
  assumes ok: "alerts_ok w" and run: "handle_event rp policies cfg oc msg_id event w = (res, w')"
  shows "alerts_ok w'"
  using run
proof (cases rule: handle_event_cases)
  case (Stored event1 i w1 suppressed event2 w2)
  note fields = check_alert_policy_fields [OF Stored(3)] and final = complete_event_rows [OF Stored(4)]
  show ?thesis
    using Stored(2)
  proof (cases rule: store_event_cases)
    case Known
    then show ?thesis using ok final fields by (simp add: alerts_ok_def publish_alert_def)
  next
    case (New row)
    have sid: "ew_source_event_id row = py_str rp (dget_or event1 ''source_event_id'' (PStr []))" "ew_status row = ''new''"
      using event_params_text [OF New(1)] by auto
    have fresh: "ew_source_event_id row \<notin> set (wk_alerts w)" using ok New(4) by (force simp: alerts_ok_def)
    have new: "ew_source_event_id row \<notin> ew_source_event_id ` set (wk_rows w)" using New(4) by auto
    have rows1: "wk_rows w1 = wk_rows w @ [row]" "wk_alerts w1 = wk_alerts w" using New(3) by simp_all
    show ?thesis
    proof (cases suppressed)
      case False
      then have "event2 = event1" "wk_rows w2 = wk_rows w1" using fields by auto
      then show ?thesis using ok final new fields rows1 New(2) sid fresh False
        by (auto simp: alerts_ok_def publish_alert_def)
    next
      case True
      have "wk_rows w2 = wk_rows w @ [row] \<or>
          (\<exists>doc. wk_rows w2 = wk_rows w @ [row\<lparr>ew_status := ''suppressed'', ew_alert_policy := doc\<rparr>])"
        using fields New(2) rows1 by auto
      then show ?thesis using ok final new fields rows1 True
        by (auto simp: alerts_ok_def publish_alert_def)
    qed
  qed
qed (use ok in simp)

lemma alerts_ok_acknowledge: "alerts_ok w \<Longrightarrow> alerts_ok (acknowledge oc m w)"
  by (simp add: alerts_ok_def)

lemma alerts_ok_batch: "alerts_ok w \<Longrightarrow> alerts_ok (snd (process_batch rp policies cfg batch w))"
proof (induction batch arbitrary: w)
  case (Cons d batch)
  obtain oc m data where d: "d = (oc, m, data)" by (cases d) auto
  show ?case
  proof (cases "\<exists>event. parse_event data = Inr (Some event)")
    case True
    then obtain event where e: "parse_event data = Inr (Some event)" by blast
    obtain res w1 where h: "handle_event rp policies cfg oc m event w = (res, w1)" by force
    have "alerts_ok w1" by (rule alerts_ok_handle [OF Cons.prems h])
    then show ?thesis using Cons.IH [of w1] by (auto simp: d e h Let_def split: sum.splits prod.splits)
  next
    case False
    then show ?thesis using Cons.IH [OF alerts_ok_acknowledge [OF Cons.prems]] Cons.prems
      by (auto simp: d split: sum.splits option.splits)
  qed
qed simp

lemma alerts_ok_init: "alerts_ok event_worker_init"
  by (simp add: event_worker_init_def alerts_ok_def)

interpretation alerting: transition_system event_worker_init
    "\<lambda>(cfg, batch) w. snd (process_batch rp policies cfg batch w)" alerts_ok for rp policies
  by unfold_locales (auto simp: alerts_ok_batch alerts_ok_init)

end
