(* ===== verification/EventDelivery.thy ===== *)
theory EventDelivery
  imports EventWorker
begin

text \<open>
  What the event worker guarantees over deliveries: a repeated event publishes nothing, a message is
  acknowledged only when its event is stored, the record requests stay within their number and
  spacing, and where these guarantees end: a request whose clip status cannot be set is not counted,
  and an entry that makes the handler raise stops its batch.
\<close>

section \<open>The identity of an event through its preparation\<close>

lemma same_at_dget_or: "same_at k d d' \<Longrightarrow> dget_or d' k v = dget_or d k v"
  by (auto simp: same_at_def pget_def dget_or_def has_key_def split: option.splits)

lemma same_at_default_policy:
  "apply_default_evidence_policy event = Inr e \<Longrightarrow>
   k \<notin> {''payload'', ''evidence_policy'', ''clip_required'', ''snapshot_required''} \<Longrightarrow> same_at k event e"
  unfolding apply_default_evidence_policy_def Let_def
  by (auto split: if_splits simp: same_at_def dict_simps)

lemma same_at_recording_window:
  "apply_recording_window rp pre post event = Inr e \<Longrightarrow> k \<notin> {''payload'', ''evidence_policy''} \<Longrightarrow> same_at k event e"
  unfolding apply_recording_window_def Let_def
  by (auto split: if_splits simp: rbind_Inr_iff same_at_def dict_simps)

lemma same_at_runtime_epoch:
  "k \<notin> {''payload'', ''runtime_epoch_id''} \<Longrightarrow> same_at k event (apply_runtime_epoch rp epoch event)"
  unfolding apply_runtime_epoch_def Let_def
  by (auto simp: same_at_def dict_simps)

lemma prepare_keeps_id:
  assumes "prepare_event rp cfg epoch event = Inr e"
  shows "dget_or e ''source_event_id'' v = dget_or event ''source_event_id'' v"
proof -
  obtain e1 e2 where "apply_default_evidence_policy event = Inr e1"
      "apply_recording_window rp (hc_recording_pre_seconds cfg) (hc_recording_post_seconds cfg) e1 = Inr e2"
      "e = apply_runtime_epoch rp epoch e2"
    using assms by (auto simp: prepare_event_def rbind_Inr_iff)
  then have "same_at ''source_event_id'' event e"
    by (auto intro!: same_at_trans [OF same_at_default_policy same_at_trans [OF same_at_recording_window same_at_runtime_epoch]])
  then show ?thesis by (rule same_at_dget_or)
qed

definition delivered_id :: "(pyval \<Rightarrow> string) \<Rightarrow> event_doc \<Rightarrow> string" where
  "delivered_id rp event = py_str rp (dget_or event ''source_event_id'' (PStr []))"

section \<open>Repetitions and acknowledgements\<close>

lemma complete_known:
  assumes "complete_event rp cfg oc msg_id event None suppressed w = (res, w')"
  shows "w' = w \<or> w' = acknowledge oc msg_id w"
  using assms
proof (cases rule: complete_event_cases)
  case (Task ts status)
  then show ?thesis using create_task_fields [OF Task] by simp
next
  case (Done ts status w1 w2)
  have t: "status = None" "w1 = w" using create_task_fields [OF Done(1)] by simp_all
  from Done(2) have "w2 = w1"
    by (cases rule: record_stage_cases) (auto simp: t dest: request_recording_no_task)
  then show ?thesis using Done(3) t by simp
qed simp

text \<open>
  A delivery of an event that is stored already publishes nothing: no alert, no record request,
  no task and no row; it can only be acknowledged.  So a request that could not be published at
  the first delivery is not made up for by a later one.
\<close>

theorem repeated_event_publishes_nothing:
  assumes "handle_event rp policies cfg oc msg_id event w = (res, w')"
    and "r \<in> set (wk_rows w)" "ew_source_event_id r = delivered_id rp event"
  shows "w' = w \<or> w' = acknowledge oc msg_id w"
  using assms(1)
proof (cases rule: handle_event_cases)
  case (Stored event1 i w1 suppressed event2 w2)
  have id1: "delivered_id rp event1 = delivered_id rp event"
    using prepare_keeps_id [OF Stored(1)] by (simp add: delivered_id_def)
  from Stored(2) show ?thesis
  proof (cases rule: store_event_cases)
    case Known
    then have "\<not> suppressed" "w2 = w" using check_alert_policy_fields [OF Stored(3)] by auto
    then show ?thesis using complete_known Stored(4) Known by (simp add: publish_alert_def)
  next
    case (New row)
    then show ?thesis using event_params_text [OF New(1)] assms(2,3) id1 by (auto simp: delivered_id_def)
  qed
qed simp

text \<open>A stored event has a row with its id.\<close>

lemma stored_row:
  assumes "store_event rp oc event w = Some (i, w1)"
  shows "\<exists>r \<in> set (wk_rows w1). ew_source_event_id r = delivered_id rp event"
proof (cases "event_params rp event")
  case (Inl e)
  then show ?thesis using assms by (simp add: store_event_def insert_event_def split: if_splits)
next
  case (Inr row)
  note id = event_params_text [OF Inr]
  from assms show ?thesis
  proof (cases rule: store_event_cases)
    case Known
    then have "\<exists>r \<in> set (wk_rows w). ew_source_event_id r = ew_source_event_id row"
      using assms Inr by (auto simp: store_event_def insert_event_def split: if_splits)
    then show ?thesis using Known id by (simp add: delivered_id_def)
  next
    case (New row1)
    then show ?thesis using Inr id by (simp add: delivered_id_def)
  qed
qed

lemma policy_keeps_ids:
  assumes "check_alert_policy rp policies oc event i w = (suppressed, event', w')" "i = None \<or> i = Some n \<and> n < length (wk_rows w)"
  shows "map ew_source_event_id (wk_rows w') = map ew_source_event_id (wk_rows w)"
proof -
  note fields = check_alert_policy_fields [OF assms(1)]
  show ?thesis
  proof (cases i)
    case None
    then show ?thesis using fields by simp
  next
    case (Some m)
    then have "m = n" "n < length (wk_rows w)" using assms(2) by auto
    then have "wk_rows w' = wk_rows w \<or> (\<exists>doc. wk_rows w' = (wk_rows w)[n := (wk_rows w ! n)\<lparr>ew_status := ''suppressed'', ew_alert_policy := doc\<rparr>])"
      using fields Some by auto
    then show ?thesis using \<open>n < length (wk_rows w)\<close> by (auto simp: map_update list_update_same_conv)
  qed
qed


section \<open>The limits of the record requests\<close>

definition requests_within :: "handler_config \<Rightarrow> event_worker \<Rightarrow> bool" where
  "requests_within cfg w \<longleftrightarrow>
     (0 < hc_recording_max_requests_per_run cfg \<longrightarrow> wk_published_requests w \<le> hc_recording_max_requests_per_run cfg)"

definition requests_apart :: "handler_config \<Rightarrow> event_worker \<Rightarrow> event_worker \<Rightarrow> bool" where
  "requests_apart cfg w w' \<longleftrightarrow>
     (0 < hc_recording_cooldown_seconds cfg \<longrightarrow>
      (\<forall>key t. dget (wk_last_recorded_at_ms w) key = Some t \<longrightarrow>
        (\<exists>t'. dget (wk_last_recorded_at_ms w') key = Some t' \<and> (t' = t \<or> recording_threshold_ms cfg \<le> t' - t))))"

lemma threshold_nonneg: "0 \<le> recording_threshold_ms cfg"
  by (simp add: recording_threshold_ms_def)

lemma requests_apart_refl: "requests_apart cfg w w"
  by (auto simp: requests_apart_def)

lemma requests_apart_trans: "requests_apart cfg a b \<Longrightarrow> requests_apart cfg b c \<Longrightarrow> requests_apart cfg a c"
  unfolding requests_apart_def using threshold_nonneg [of cfg] by fastforce

lemma requests_same:
  "wk_published_requests w' = wk_published_requests w \<Longrightarrow> wk_last_recorded_at_ms w' = wk_last_recorded_at_ms w \<Longrightarrow>
   requests_apart cfg w w' \<and> (requests_within cfg w \<longrightarrow> requests_within cfg w')"
  by (auto simp: requests_apart_def requests_within_def)

lemma sent_within_limits:
  assumes "recording_skip_reason cfg oc w status sid src ty key gate_ts existing = None"
  shows "0 < hc_recording_max_requests_per_run cfg \<Longrightarrow> wk_published_requests w < hc_recording_max_requests_per_run cfg"
    and "0 < hc_recording_cooldown_seconds cfg \<Longrightarrow> \<not> recording_cooldown_active cfg w key gate_ts"
proof -
  show "wk_published_requests w < hc_recording_max_requests_per_run cfg" if "0 < hc_recording_max_requests_per_run cfg"
    by (rule ccontr) (use assms that in \<open>simp add: recording_skip_reason_def split: if_splits\<close>)
  show "\<not> recording_cooldown_active cfg w key gate_ts" if "0 < hc_recording_cooldown_seconds cfg"
  proof
    assume "recording_cooldown_active cfg w key gate_ts"
    then show False using assms that by (simp add: recording_skip_reason_def split: if_splits)
  qed
qed

lemma publish_request_limits:
  assumes "recording_skip_reason cfg oc w status sid src ty key gate_ts existing = None"
  shows "requests_apart cfg w (publish_request rp rcfg oc event i src ty key gate_ts w) \<and>
    (requests_within cfg w \<longrightarrow> requests_within cfg (publish_request rp rcfg oc event i src ty key gate_ts w))"
proof -
  let ?w = "publish_request rp rcfg oc event i src ty key gate_ts w"
  have counts: "wk_published_requests ?w = wk_published_requests w \<or> wk_published_requests ?w = wk_published_requests w + 1"
      "wk_last_recorded_at_ms ?w = wk_last_recorded_at_ms w \<or>
       wk_last_recorded_at_ms ?w = dset key gate_ts (wk_last_recorded_at_ms w)"
    by (auto simp: publish_request_def Let_def split_beta)
  have far: "recording_threshold_ms cfg \<le> gate_ts - t"
    if "0 < hc_recording_cooldown_seconds cfg" "dget (wk_last_recorded_at_ms w) key = Some t" for t
    using sent_within_limits(2) [OF assms that(1)] that(2) by (simp add: recording_cooldown_active_def)
  have "requests_apart cfg w ?w"
    using counts(2)
  proof
    assume "wk_last_recorded_at_ms ?w = dset key gate_ts (wk_last_recorded_at_ms w)"
    then show ?thesis using far by (auto simp: requests_apart_def dict_simps)
  qed (auto simp: requests_apart_def)
  moreover have "requests_within cfg w \<longrightarrow> requests_within cfg ?w"
    using counts(1) sent_within_limits(1) [OF assms] by (auto simp: requests_within_def)
  ultimately show ?thesis by blast
qed

lemma request_recording_limits:
  assumes "request_recording rp cfg rcfg oc event i status w = Inr w'"
  shows "requests_apart cfg w w' \<and> (requests_within cfg w \<longrightarrow> requests_within cfg w')"
  using assms
proof (cases rule: request_recording_cases)
  case (Sent sid src ty key gate_ts existing)
  then show ?thesis using publish_request_limits [OF Sent(1)] by simp
next
  case (Skipped reason)
  then show ?thesis by (intro requests_same) (simp_all add: skip_request_fields)
qed

lemma complete_event_limits:
  assumes "complete_event rp cfg oc msg_id event i suppressed w = (res, w')"
  shows "requests_apart cfg w w' \<and> (requests_within cfg w \<longrightarrow> requests_within cfg w')"
  using assms
proof (cases rule: complete_event_cases)
  case (Task ts status)
  then show ?thesis by (intro requests_same) (auto dest: create_task_fields)
next
  case (Done ts status w1 w2)
  have 1: "requests_apart cfg w w1 \<and> (requests_within cfg w \<longrightarrow> requests_within cfg w1)"
    using Done(1) by (intro requests_same) (auto dest: create_task_fields)
  from Done(2) have 2: "requests_apart cfg w1 w2 \<and> (requests_within cfg w1 \<longrightarrow> requests_within cfg w2)"
  proof (cases rule: record_stage_cases)
    case Idle
    then show ?thesis by (intro requests_same) simp_all
  next
    case (Requested rcfg)
    then show ?thesis by (rule request_recording_limits)
  qed
  have 3: "requests_apart cfg w2 w' \<and> (requests_within cfg w2 \<longrightarrow> requests_within cfg w')"
    using Done(3) by (intro requests_same) simp_all
  show ?thesis using 1 2 3 requests_apart_trans by blast
qed (simp add: requests_apart_refl)

lemma handle_event_limits:
  assumes "handle_event rp policies cfg oc msg_id event w = (res, w')"
  shows "requests_apart cfg w w' \<and> (requests_within cfg w \<longrightarrow> requests_within cfg w')"
  using assms
proof (cases rule: handle_event_cases)
  case (Stored event1 i w1 suppressed event2 w2)
  have "requests_apart cfg w (publish_alert rp oc event2 i suppressed w2) \<and>
      (requests_within cfg w \<longrightarrow> requests_within cfg (publish_alert rp oc event2 i suppressed w2))"
    using check_alert_policy_fields [OF Stored(3)] Stored(2)
    by (intro requests_same) (auto elim!: store_event_cases)
  then show ?thesis using complete_event_limits [OF Stored(4)] requests_apart_trans by blast
qed (simp add: requests_apart_refl)

lemma process_batch_limits:
  "requests_apart cfg w (snd (process_batch rp policies cfg batch w)) \<and>
   (requests_within cfg w \<longrightarrow> requests_within cfg (snd (process_batch rp policies cfg batch w)))"
proof (induction batch arbitrary: w)
  case Nil
  then show ?case by (simp add: requests_apart_refl)
next
  case (Cons d batch)
  obtain oc m data where d: "d = (oc, m, data)" by (cases d) auto
  have ack: "requests_apart cfg w (acknowledge oc m w) \<and> (requests_within cfg w \<longrightarrow> requests_within cfg (acknowledge oc m w))"
    by (intro requests_same) simp_all
  show ?case
  proof (cases "\<exists>event. parse_event data = Inr (Some event)")
    case True
    then obtain event where e: "parse_event data = Inr (Some event)" by blast
    obtain res w1 where h: "handle_event rp policies cfg oc m event w = (res, w1)" by force
    show ?thesis
      using handle_event_limits [OF h] Cons.IH [of w1] requests_apart_trans
      by (cases res) (auto simp: d e h Let_def split: prod.splits)
  next
    case False
    then show ?thesis using ack Cons.IH [of "acknowledge oc m w"] requests_apart_trans
      by (auto simp: d requests_apart_refl split: sum.splits option.splits)
  qed
qed

interpretation request_limits: transition_system event_worker_init
    "\<lambda>batch w. snd (process_batch rp policies cfg batch w)" "requests_within cfg" for rp policies cfg
  by unfold_locales (use process_batch_limits in \<open>auto simp: requests_within_def event_worker_init_def\<close>)

interpretation request_spacing: monotone_system
    "\<lambda>batch w. snd (process_batch rp policies cfg batch w)" "requests_apart cfg" for rp policies cfg
  by unfold_locales (use process_batch_limits requests_apart_trans requests_apart_refl in blast)+

text \<open>
  C13: Over any batches the counted record requests stay within the configured number, and the
  recorded times of a cooldown key move forward by at least the cooldown less its grace, whatever
  the order of the events' times.
\<close>

theorem record_requests_limited:
  "let run = fold (\<lambda>batch w. snd (process_batch rp policies cfg batch w)); w1 = run batches event_worker_init; w2 = run later w1
   in (0 < hc_recording_max_requests_per_run cfg \<longrightarrow> wk_published_requests w2 \<le> hc_recording_max_requests_per_run cfg) \<and>
      (0 < hc_recording_cooldown_seconds cfg \<longrightarrow>
        (\<forall>key t. dget (wk_last_recorded_at_ms w1) key = Some t \<longrightarrow>
          (\<exists>t'. dget (wk_last_recorded_at_ms w2) key = Some t' \<and> (t' = t \<or> recording_threshold_ms cfg \<le> t' - t))))"
  using request_limits.run [of cfg rp policies "batches @ later"] request_spacing.run_climbs [of cfg _ rp policies later]
  by (simp add: requests_within_def requests_apart_def Let_def)

section \<open>Examples\<close>

definition example_handler_config :: handler_config where
  "example_handler_config =
     \<lparr>hc_recording_event_types = [], hc_recording_source_id = [], hc_recording_max_requests_per_run = 1,
      hc_recording_cooldown_seconds = 30, hc_recording_cooldown_scope = ''event_type'',
      hc_recording_cooldown_grace_ms = 1000, hc_recording_pre_seconds = 5, hc_recording_post_seconds = 5,
      hc_rolling_cache_suppress_record_requests = False, hc_evidence_task_creation_enabled = True,
      hc_event_not_before_ts_ms = 0, hc_event_not_after_ts_ms = 0, hc_record_config = Some example_record_config\<rparr>"

definition example_outcomes :: handler_outcomes where
  "example_outcomes =
     \<lparr>oc_insert_ok = True, oc_policy_ok = True, oc_alert_ok = True, oc_task = Inr (Some ''pending''),
      oc_clip_status = Inr None, oc_exists_ok = True,
      oc_redis = \<lparr>ro_set_ok = True, ro_xadd_ok = True, ro_release_ok = True\<rparr>, oc_request_id = ''r'',
      oc_set_clip_ok = True, oc_skip_ok = True, oc_ack_ok = True, oc_now_ms = 1000000000000,
      oc_runtime_epoch_id = []\<rparr>"

definition example_delivery :: "string \<Rightarrow> event_doc" where
  "example_delivery source_event_id =
     [(''source_event_id'', PStr source_event_id), (''event_type'', PStr ''fall''), (''camera_id'', PStr ''c''),
      (''source_id'', PStr ''s'')]"

definition no_policies :: "string \<Rightarrow> event_doc" where
  "no_policies camera = []"

definition example_stored :: event_worker where
  "example_stored =
     event_worker_init\<lparr>wk_rows := [\<lparr>ew_source_event_id = ''a'', ew_event_type = ''fall'', ew_camera_id = ''c'', ew_source_id = ''s'',
        ew_track_id = [], ew_algorithm_type = ''fall'', ew_severity = ''medium'', ew_confidence = Fin 0, ew_start_ts_ms = 0,
        ew_end_ts_ms = 0, ew_event_ts_ms = 0, ew_snapshot_required = True, ew_clip_required = True, ew_status = ''new'',
        ew_alert_policy = []\<rparr>]\<rparr>"

theorem repeated_event_publishes_nothing_witness:
  "snd (handle_event (\<lambda>_. []) no_policies example_handler_config example_outcomes ''1'' (example_delivery ''a'') example_stored)
     \<in> {example_stored, acknowledge example_outcomes ''1'' example_stored}"
  using repeated_event_publishes_nothing [OF surjective_pairing, where r = "hd (wk_rows example_stored)" and rp = "\<lambda>_. []"
      and policies = no_policies and cfg = example_handler_config and oc = example_outcomes and msg_id = "''1''"
      and event = "example_delivery ''a''" and w = example_stored]
  by (simp add: example_stored_def delivered_id_def example_delivery_def dget_or_def)

lemma example_acknowledged:
  "wk_acked (snd (handle_event (\<lambda>_. []) no_policies example_handler_config example_outcomes ''1'' (example_delivery ''a'') event_worker_init)) = [''1'']"
  by code_simp


theorem record_requests_limited_witness:
  "wk_published_requests (snd (process_batch (\<lambda>_. []) no_policies example_handler_config
     [(example_outcomes, ''1'', Some (Inr (PDict (example_delivery ''a'')))),
      (example_outcomes, ''2'', Some (Inr (PDict (example_delivery ''b''))))] event_worker_init)) \<le> 1"
  using record_requests_limited [where rp = "\<lambda>_. []" and policies = no_policies and cfg = example_handler_config
      and batches = "[]" and later = "[[(example_outcomes, ''1'', Some (Inr (PDict (example_delivery ''a'')))),
        (example_outcomes, ''2'', Some (Inr (PDict (example_delivery ''b''))))]]"]
  by (simp add: example_handler_config_def Let_def del: process_batch.simps)

text \<open>
  C1: Whatever batches are delivered, with whatever repetitions and failures of the database, of
  Redis and of the handler, at most one alert is published for an event, and only for an event that
  is stored and not suppressed.
\<close>

theorem one_alert_per_event:
  "let w = fold (\<lambda>(cfg, batch) w. snd (process_batch rp policies cfg batch w)) batches event_worker_init
   in distinct (wk_alerts w) \<and>
      (\<forall>a \<in> set (wk_alerts w). \<exists>r \<in> set (wk_rows w). ew_source_event_id r = a \<and> ew_status r \<noteq> ''suppressed'')"
  using alerting.run [of rp policies batches] by (simp add: alerts_ok_def Let_def)

lemma example_repeated_alerts:
  "wk_alerts (fold (\<lambda>(cfg, batch) w. snd (process_batch (\<lambda>_. []) no_policies cfg batch w))
     [(example_handler_config, [(example_outcomes\<lparr>oc_ack_ok := False\<rparr>, ''1'', Some (Inr (PDict (example_delivery ''a''))))]),
      (example_handler_config, [(example_outcomes, ''1'', Some (Inr (PDict (example_delivery ''a''))))])]
     event_worker_init) = [''a'']"
  by code_simp

theorem one_alert_per_event_witness:
  "\<exists>r \<in> set (wk_rows (fold (\<lambda>(cfg, batch) w. snd (process_batch (\<lambda>_. []) no_policies cfg batch w))
     [(example_handler_config, [(example_outcomes\<lparr>oc_ack_ok := False\<rparr>, ''1'', Some (Inr (PDict (example_delivery ''a''))))]),
      (example_handler_config, [(example_outcomes, ''1'', Some (Inr (PDict (example_delivery ''a''))))])]
     event_worker_init)). ew_source_event_id r = ''a'' \<and> ew_status r \<noteq> ''suppressed''"
  using one_alert_per_event [where rp = "\<lambda>_. []" and policies = no_policies and batches =
      "[(example_handler_config, [(example_outcomes\<lparr>oc_ack_ok := False\<rparr>, ''1'', Some (Inr (PDict (example_delivery ''a''))))]),
        (example_handler_config, [(example_outcomes, ''1'', Some (Inr (PDict (example_delivery ''a''))))])]"]
  unfolding Let_def example_repeated_alerts by simp

section \<open>Where the guarantees end\<close>

text \<open>
  A record request that is out but whose clip status cannot be set is not counted: with at most
  one request per run, two requests go out for two events, and the cooldown does not start.
\<close>

theorem uncounted_requests_exceed_the_limit:
  "let oc = example_outcomes\<lparr>oc_set_clip_ok := False\<rparr>;
       w = snd (process_batch (\<lambda>_. []) no_policies example_handler_config
         [(oc, ''1'', Some (Inr (PDict (example_delivery ''a'')))), (oc, ''2'', Some (Inr (PDict (example_delivery ''b''))))]
         event_worker_init)
   in length (rp_published (wk_publisher w)) = 2 \<and> wk_published_requests w = 0 \<and> wk_last_recorded_at_ms w = []"
  by code_simp

text \<open>
  An entry whose data is JSON but not a mapping, and an event with a behaviour type whose payload
  is a non-empty text, make the handler raise: the batch ends there, nothing after it is processed
  and nothing is acknowledged, at this and at every later delivery.
\<close>

theorem malformed_entry_stops_its_batch:
  "process_batch rp policies cfg ((oc, msg_id, Some (Inr (PList vs))) # rest) w = (Inl Type_Error, w) \<and>
   process_batch rp policies cfg
     ((oc, msg_id, Some (Inr (PDict (dset ''payload'' (PStr ''text'') (example_delivery ''a''))))) # rest) w = (Inl Type_Error, w)"
proof -
  have "parse_event (Some (Inr (PDict (dset ''payload'' (PStr ''text'') (example_delivery ''a''))))) =
      Inr (Some (dset ''payload'' (PStr ''text'') (example_delivery ''a'')))"
    by code_simp
  moreover have "apply_default_evidence_policy (dset ''payload'' (PStr ''text'') (example_delivery ''a'')) = Inl Type_Error"
    by code_simp
  ultimately show ?thesis by (simp add: parse_event_def handle_event_def prepare_event_def)
qed

end
