(* ===== verification/EventProgress.thy ===== *)
theory EventProgress
  imports EventDelivery
begin

text \<open>
  The progress of the event worker: when the store and the stream answer, every well-formed event
  of a batch reaches its acknowledgement, whatever else fails.
\<close>

section \<open>Well-formed events\<close>

fun whole :: "pyval \<Rightarrow> bool" where
  "whole PNone = True"
| "whole (PInt _) = True"
| "whole _ = False"

fun int_or_missing :: "pyval option \<Rightarrow> bool" where
  "int_or_missing None = True"
| "int_or_missing (Some (PInt _)) = True"
| "int_or_missing (Some _) = False"

fun number_or_missing :: "pyval option \<Rightarrow> bool" where
  "number_or_missing (Some (PFloat _)) = True"
| "number_or_missing v = int_or_missing v"

fun mapping_or_missing :: "pyval option \<Rightarrow> bool" where
  "mapping_or_missing None = True"
| "mapping_or_missing (Some v) = is_mapping v"

definition window_key :: "string \<Rightarrow> bool" where
  "window_key k \<longleftrightarrow> k \<in> {''pre_seconds'', ''post_seconds''}"

definition whole_seconds :: "event_doc \<Rightarrow> bool" where
  "whole_seconds d \<longleftrightarrow> (\<forall>(k, v) \<in> set d. window_key k \<longrightarrow> whole v)"

text \<open>
  The required texts are there, the times are integers, the payload and its media are mappings, and
  the seconds of the policy and of the media are integers, where they are present.
\<close>

definition well_formed_event :: "event_doc \<Rightarrow> bool" where
  "well_formed_event event \<longleftrightarrow>
     (\<forall>k \<in> set [''source_event_id'', ''event_type'', ''camera_id'']. truthy (pget event k)) \<and>
     (\<forall>k \<in> set [''start_ts_ms'', ''end_ts_ms'', ''event_ts_ms'']. int_or_missing (dget event k)) \<and>
     number_or_missing (dget event ''confidence'') \<and>
     mapping_or_missing (dget event ''payload'') \<and>
     mapping_or_missing (dget (as_dict (pget event ''payload'')) ''media'') \<and>
     whole_seconds (as_dict (pget event ''evidence_policy'')) \<and>
     whole_seconds (as_dict (pget (as_dict (pget event ''payload'')) ''media''))"

section \<open>The preparation\<close>



lemma whole_pget: "whole_seconds d \<Longrightarrow> window_key k \<Longrightarrow> whole (pget d k)"
  by (cases "dget d k") (auto simp: whole_seconds_def pget_def dget_or_def dest!: map_of_SomeD)

lemma whole_dset:
  assumes "whole_seconds d" "whole v \<or> \<not> window_key k"
  shows "whole_seconds (dset k v d)"
  unfolding whole_seconds_def
proof
  fix x assume "x \<in> set (dset k v d)"
  then have "x = (k, v) \<or> x \<in> set d" using set_dset_subset [of k v d] by blast
  then show "case x of (k, v) \<Rightarrow> window_key k \<longrightarrow> whole v" using assms by (auto simp: whole_seconds_def)
qed

lemma whole_set_default: "whole_seconds d \<Longrightarrow> whole v \<or> \<not> window_key k \<Longrightarrow> whole_seconds (set_default k v d)"
  by (simp add: set_default_def whole_dset)

lemma whole_merge: "whole_seconds d \<Longrightarrow> whole_seconds p \<Longrightarrow> whole_seconds (merge_doc d p)"
  unfolding merge_doc_def
proof (induction p arbitrary: d)
  case (Cons x p)
  obtain k v where x: "x = (k, v)" by (cases x)
  have "whole v \<or> \<not> window_key k" "whole_seconds p" using Cons.prems(2) x by (auto simp: whole_seconds_def)
  then show ?case using Cons.IH [of "dset k v d"] Cons.prems(1) x by (simp add: whole_dset)
qed simp

lemma whole_default_media: "whole_seconds media \<Longrightarrow> whole_seconds (default_media event media)"
  unfolding default_media_def by (intro whole_set_default whole_dset) (simp_all add: window_key_def)

lemma seconds_of_whole: "whole v \<Longrightarrow> \<exists>n. seconds_value v = Inr n"
  by (cases v) (simp_all add: seconds_value_def)

lemma put_seconds_whole:
  assumes "whole v" "whole_seconds d"
  shows "\<exists>d'. put_seconds k v d = Inr d' \<and> whole_seconds d'"
proof -
  obtain n where "seconds_value v = Inr n" using seconds_of_whole [OF assms(1)] by blast
  then show ?thesis using whole_dset [OF assms(2)] assms(2) by (cases n) (simp_all add: put_seconds_def)
qed

lemma policy_seconds_whole:
  assumes "whole_seconds media" "whole_seconds policy" "window_key k"
  shows "\<exists>d. policy_seconds rp media k n policy = Inr d \<and> whole_seconds d"
  using put_seconds_whole [OF whole_pget [OF assms(1,3)] assms(2)] assms(2)
  by (simp add: policy_seconds_def whole_dset)

lemma media_seconds_whole:
  assumes "whole_seconds media" "whole_seconds policy" "window_key k"
  shows "\<exists>d. media_seconds rp policy k media = Inr d \<and> whole_seconds d"
  using put_seconds_whole [OF whole_pget [OF assms(2,3)] assms(1)] assms(1)
  by (simp add: media_seconds_def)

lemma recording_window_whole:
  assumes "whole_seconds (as_dict (pget event ''evidence_policy''))"
    and "whole_seconds (as_dict (pget (as_dict (pget event ''payload'')) ''media''))"
  shows "\<exists>e. apply_recording_window rp pre post event = Inr e"
proof -
  let ?media = "as_dict (pget (as_dict (pget event ''payload'')) ''media'')"
  have k: "window_key ''pre_seconds''" "window_key ''post_seconds''" by (simp_all add: window_key_def)
  obtain p1 where 1: "policy_seconds rp ?media ''pre_seconds'' pre (as_dict (pget event ''evidence_policy'')) = Inr p1" "whole_seconds p1"
    using policy_seconds_whole [OF assms(2,1) k(1)] by blast
  obtain p2 where 2: "policy_seconds rp ?media ''post_seconds'' post p1 = Inr p2" "whole_seconds p2"
    using policy_seconds_whole [OF assms(2) 1(2) k(2)] by blast
  obtain m1 where 3: "media_seconds rp p2 ''pre_seconds'' ?media = Inr m1" "whole_seconds m1"
    using media_seconds_whole [OF assms(2) 2(2) k(1)] by blast
  obtain m2 where 4: "media_seconds rp p2 ''post_seconds'' m1 = Inr m2"
    using media_seconds_whole [OF 3(2) 2(2) k(2)] by blast
  show ?thesis by (simp add: apply_recording_window_def Let_def 1 2 3 4)
qed


lemma default_policy_whole:
  assumes "well_formed_event event"
  obtains e where "apply_default_evidence_policy event = Inr e" "whole_seconds (as_dict (pget e ''evidence_policy''))"
    "whole_seconds (as_dict (pget (as_dict (pget e ''payload'')) ''media''))"
proof -
  have w: "whole_seconds (as_dict (pget event ''evidence_policy''))"
      "whole_seconds (as_dict (pget (as_dict (pget event ''payload'')) ''media''))"
    using assms unfolding well_formed_event_def by blast+
  have p: "\<not> (truthy (pget event ''payload'') \<and> \<not> is_mapping (pget event ''payload''))"
    using assms by (cases "dget event ''payload''") (simp_all add: well_formed_event_def pget_def dget_or_def)
  have d: "whole_seconds default_evidence_policy" by (simp add: default_evidence_policy_def whole_seconds_def window_key_def)
  show thesis
  proof (cases "apply_default_evidence_policy event = Inr event")
    case True
    then show thesis using that w by blast
  next
    case False
    let ?e = "dset ''payload'' (PDict (dset ''media'' (PDict (default_media event (as_dict (pget (as_dict (pget event ''payload'')) ''media''))))
          (as_dict (pget event ''payload''))))
        (dset ''evidence_policy'' (PDict (merge_doc default_evidence_policy (as_dict (pget event ''evidence_policy''))))
        (dset ''clip_required'' (PBool True) (dset ''snapshot_required'' (PBool True) event)))"
    have "apply_default_evidence_policy event = Inr ?e"
      using False p unfolding apply_default_evidence_policy_def Let_def by (simp split: if_splits)
    then show thesis
      by (rule that) (simp_all add: dict_simps whole_merge [OF d w(1)] whole_default_media [OF w(2)])
  qed
qed

lemma runtime_epoch_media:
  obtains payload media where "pget (apply_runtime_epoch rp epoch e) ''payload'' = PDict payload"
    "pget payload ''media'' = PDict media"
proof -
  define x where "x = text_or epoch (py_str rp (py_or (pget e ''runtime_epoch_id'')
      (py_or (pget (as_dict (pget e ''payload'')) ''runtime_epoch_id'')
      (py_or (pget (as_dict (pget (as_dict (pget e ''payload'')) ''media'')) ''runtime_epoch_id'') (PStr [])))))"
  show thesis
    using that by (cases "x = []") (simp_all add: apply_runtime_epoch_def Let_def x_def [symmetric] dict_simps)
qed

lemma prepared_event:
  assumes "well_formed_event event"
  obtains e payload media where "prepare_event rp cfg epoch event = Inr e" "pget e ''payload'' = PDict payload"
    "pget payload ''media'' = PDict media"
proof -
  obtain e1 where 1: "apply_default_evidence_policy event = Inr e1" "whole_seconds (as_dict (pget e1 ''evidence_policy''))"
      "whole_seconds (as_dict (pget (as_dict (pget e1 ''payload'')) ''media''))"
    using default_policy_whole [OF assms] by blast
  obtain e2 where 2: "apply_recording_window rp (hc_recording_pre_seconds cfg) (hc_recording_post_seconds cfg) e1 = Inr e2"
    using recording_window_whole [OF 1(2,3)] by blast
  obtain payload media where "pget (apply_runtime_epoch rp epoch e2) ''payload'' = PDict payload"
      "pget payload ''media'' = PDict media"
    by (rule runtime_epoch_media)
  with 1 2 show thesis using that by (simp add: prepare_event_def)
qed

lemma same_at_dget: "same_at k d d' \<Longrightarrow> dget d' k = dget d k"
  by (cases "dget d k"; cases "dget d' k") (auto simp: same_at_def pget_def dget_or_def has_key_def)

lemma prepare_same_at:
  assumes "prepare_event rp cfg epoch event = Inr e"
    and "k \<notin> {''payload'', ''evidence_policy'', ''clip_required'', ''snapshot_required'', ''runtime_epoch_id''}"
  shows "dget e k = dget event k"
proof -
  obtain e1 e2 where "apply_default_evidence_policy event = Inr e1"
      "apply_recording_window rp (hc_recording_pre_seconds cfg) (hc_recording_post_seconds cfg) e1 = Inr e2"
      "e = apply_runtime_epoch rp epoch e2"
    using assms(1) by (auto simp: prepare_event_def rbind_Inr_iff)
  then have "same_at k event e"
    using assms(2)
    by (auto intro!: same_at_trans [OF same_at_default_policy same_at_trans [OF same_at_recording_window same_at_runtime_epoch]])
  then show ?thesis by (rule same_at_dget)
qed

section \<open>The insertion and the stages after it\<close>

lemma int_fields:
  assumes "int_or_missing (dget d k)"
  shows "\<exists>i. py_int (dget_or d k (PInt n)) = Inr i" "\<exists>i. pget d k = PNone \<or> pget d k = PInt i"
  using assms by (cases "dget d k" rule: int_or_missing.cases; simp add: dget_or_def pget_def)+

lemma int_choice:
  "v = PNone \<or> v = PInt i \<Longrightarrow> py_int d = Inr s \<Longrightarrow> \<exists>u. py_int (py_or v d) = Inr u"
  by (auto simp: py_or_def)

lemma number_field:
  assumes "number_or_missing (dget d k)"
  shows "\<exists>x. py_float (dget_or d k (PFloat (Fin 0))) = Inr x"
  using assms by (cases "dget d k" rule: number_or_missing.cases; simp add: dget_or_def)

lemma params_of_well_formed:
  assumes "pget e ''payload'' = PDict payload" "pget payload ''media'' = PDict media"
    and "int_or_missing (dget e ''start_ts_ms'')" "int_or_missing (dget e ''end_ts_ms'')" "int_or_missing (dget e ''event_ts_ms'')"
    and "number_or_missing (dget e ''confidence'')"
  shows "\<exists>row. event_params rp e = Inr row"
proof -
  have m: "payload_media e = Inr (PDict media)"
    using assms(1,2) by (auto simp: payload_media_def pget_def dget_or_def split: option.splits)
  obtain c where c: "py_float (dget_or e ''confidence'' (PFloat (Fin 0))) = Inr c"
    using number_field [OF assms(6)] by blast
  obtain s where s: "py_int (dget_or e ''start_ts_ms'' (PInt 0)) = Inr s" using int_fields(1) [OF assms(3)] by blast
  obtain t where t: "py_int (dget_or e ''event_ts_ms'' (PInt 0)) = Inr t" using int_fields(1) [OF assms(5)] by blast
  obtain u where u: "py_int (py_or (pget e ''end_ts_ms'') (dget_or e ''start_ts_ms'' (PInt 0))) = Inr u"
    using int_fields(2) [OF assms(4)] int_choice [OF _ s] by blast
  show ?thesis by (simp add: event_params_def m c s t u)
qed

lemma store_succeeds:
  assumes "event_params rp e = Inr row" "oc_insert_ok oc"
  shows "\<exists>i w1. store_event rp oc e w = Some (i, w1)"
  using assms by (simp add: store_event_def insert_event_def)

text \<open>The policy check may add to the payload only.\<close>

lemma check_keeps:
  "check_alert_policy rp policies oc e i w = (suppressed, e', w') \<Longrightarrow> k \<noteq> ''payload'' \<Longrightarrow> dget e' k = dget e k"
  by (auto simp: check_alert_policy_def alert_apply_def rbind_Inr_iff dict_simps
      split: option.splits if_splits sum.splits pyval.splits)

lemma decision_ts_of_well_formed:
  assumes "int_or_missing (dget e ''start_ts_ms'')" "int_or_missing (dget e ''event_ts_ms'')"
  shows "\<exists>ts. decision_ts_ms e = Inr ts"
  using int_fields(2) [OF assms(1)] int_fields(2) [OF assms(2)] by (auto simp: decision_ts_ms_def py_or_def)

lemma gate_ts_of_well_formed:
  assumes "int_or_missing (dget e ''event_ts_ms'')"
  shows "\<exists>ts. recording_gate_ts_ms now e = Inr ts"
  using assms by (cases "dget e ''event_ts_ms''" rule: int_or_missing.cases)
    (auto simp: recording_gate_ts_ms_def dget_or_def py_or_def rbind_Inr_iff)

lemma completed:
  assumes "int_or_missing (dget e ''start_ts_ms'')" "int_or_missing (dget e ''event_ts_ms'')"
    and "oc_clip_status oc = Inr st"
  shows "\<exists>w2. wk_acked w2 = wk_acked w \<and>
    complete_event rp cfg oc msg_id e i suppressed w = (Inr (i \<noteq> None, i), acknowledge oc msg_id w2)"
proof -
  obtain ts where ts: "decision_ts_ms e = Inr ts" using decision_ts_of_well_formed [OF assms(1,2)] by blast
  obtain g where g: "recording_gate_ts_ms (oc_now_ms oc) e = Inr g" using gate_ts_of_well_formed [OF assms(2)] by blast
  obtain status w1 where t: "create_task cfg oc e i suppressed ts w = (status, w1)" by force
  obtain w2 where r: "record_stage rp cfg oc e i suppressed status w1 = Inr w2"
  proof (cases "\<exists>x. record_stage rp cfg oc e i suppressed status w1 = Inr x")
    case False
    then show thesis
      by (auto simp: record_stage_def request_recording_def Let_def assms(3) g split: option.splits if_splits)
  qed (use that in blast)
  have "wk_acked w2 = wk_acked w1"
    using r by (cases rule: record_stage_cases) (auto dest: request_recording_fields)
  then have "wk_acked w2 = wk_acked w" using create_task_fields [OF t] by simp
  moreover have "complete_event rp cfg oc msg_id e i suppressed w = (Inr (i \<noteq> None, i), acknowledge oc msg_id w2)"
    using ts t r by (simp add: complete_event_def)
  ultimately show ?thesis by blast
qed

section \<open>A batch\<close>

text \<open>An entry whose store, query and acknowledgement answer.\<close>

definition answered_entry :: "handler_outcomes \<times> string \<times> stream_data \<Rightarrow> bool" where
  "answered_entry entry \<longleftrightarrow>
     (case entry of (oc, _, data) \<Rightarrow>
        oc_insert_ok oc \<and> oc_ack_ok oc \<and> (case oc_clip_status oc of Inr _ \<Rightarrow> True | Inl _ \<Rightarrow> False) \<and>
        (case data of Some (Inr (PDict event)) \<Rightarrow> well_formed_event event | _ \<Rightarrow> False))"

lemma handled:
  assumes "well_formed_event event" "oc_insert_ok oc" "oc_ack_ok oc" "oc_clip_status oc = Inr st"
  shows "\<exists>i w'. handle_event rp policies cfg oc msg_id event w = (Inr (i \<noteq> None, i), w') \<and> wk_acked w' = wk_acked w @ [msg_id]"
proof -
  obtain e payload media where e: "prepare_event rp cfg (oc_runtime_epoch_id oc) event = Inr e"
      and pm: "pget e ''payload'' = PDict payload" "pget payload ''media'' = PDict media"
    using prepared_event [OF assms(1)] by blast
  have same: "dget e ''start_ts_ms'' = dget event ''start_ts_ms''" "dget e ''end_ts_ms'' = dget event ''end_ts_ms''"
      "dget e ''event_ts_ms'' = dget event ''event_ts_ms''" "dget e ''confidence'' = dget event ''confidence''"
    by (rule prepare_same_at [OF e]; simp)+
  have ints: "int_or_missing (dget e ''start_ts_ms'')" "int_or_missing (dget e ''end_ts_ms'')"
      "int_or_missing (dget e ''event_ts_ms'')" "number_or_missing (dget e ''confidence'')"
    using assms(1) unfolding same by (simp_all add: well_formed_event_def)
  obtain row where "event_params rp e = Inr row" using params_of_well_formed [OF pm ints] by blast
  then obtain i w1 where st: "store_event rp oc e w = Some (i, w1)" using store_succeeds assms(2) by blast
  then have acked1: "wk_acked w1 = wk_acked w" by (cases rule: store_event_cases) simp_all
  obtain suppressed e2 w2 where c: "check_alert_policy rp policies oc e i w1 = (suppressed, e2, w2)" by (metis prod_cases3)
  have ints2: "int_or_missing (dget e2 ''start_ts_ms'')" "int_or_missing (dget e2 ''event_ts_ms'')"
    using check_keeps [OF c] ints by simp_all
  obtain w3 where "wk_acked w3 = wk_acked (publish_alert rp oc e2 i suppressed w2)"
      "complete_event rp cfg oc msg_id e2 i suppressed (publish_alert rp oc e2 i suppressed w2) =
        (Inr (i \<noteq> None, i), acknowledge oc msg_id w3)"
    using completed [OF ints2 assms(4)] by blast
  then show ?thesis
    using e st c acked1 check_alert_policy_fields [OF c] assms(3) by (simp add: handle_event_def acknowledge_def)
qed



end
