(* ===== verification/PersonObservations.thy ===== *)
theory PersonObservations
  imports EventWorker
begin

text \<open>
  The person observations of the event worker: their parser and their batches in
  services/event-worker/app/worker.py, and the two insertions of
  services/event-worker/app/repository.py, one row at a time and one statement for a batch.
\<close>

section \<open>Parsing\<close>

text \<open>\<open>v in (None, "")\<close>\<close>

definition missing_value :: "pyval \<Rightarrow> bool" where
  "missing_value v \<longleftrightarrow> v = PNone \<or> v = PStr []"

definition observation_fields :: "string list" where
  "observation_fields = [''source_observation_id'', ''source_id'', ''camera_id'', ''timestamp_ms'', ''person_bbox'']"

text \<open>
  Type and value errors of the conversions skip the observation; an infinite timestamp raises, as
  does data that is JSON but not a mapping.
\<close>

definition parse_person_observation :: "stream_data \<Rightarrow> event_doc option result" where
  "parse_person_observation data =
     (case data of
        None \<Rightarrow> Inr None
      | Some (Inl _) \<Rightarrow> Inr None
      | Some (Inr (PDict observation)) \<Rightarrow>
          (if \<exists>k \<in> set observation_fields. missing_value (pget observation k) then Inr None
           else if pget observation ''gate_status'' \<noteq> PStr ''accepted'' then Inr None
           else
             (case pget observation ''person_bbox'' of
                PList bbox \<Rightarrow>
                  (if length bbox < 4 then Inr None
                   else
                     (case py_int (pget observation ''timestamp_ms'') of
                        Inl Overflow_Error \<Rightarrow> Inl Overflow_Error
                      | Inl _ \<Rightarrow> Inr None
                      | Inr ts \<Rightarrow>
                          (case rmap py_float (take 4 bbox) of
                             Inl _ \<Rightarrow> Inr None
                           | Inr xs \<Rightarrow>
                               Inr (Some (dset ''person_bbox'' (PList (map PFloat xs))
                                 (dset ''timestamp_ms'' (PInt ts) observation))))))
              | _ \<Rightarrow> Inr None))
      | Some (Inr _) \<Rightarrow> Inl Type_Error)"

section \<open>The rows\<close>

text \<open>
  A row is identified by its \<open>source_observation_id\<close>, which the table keeps unique; the texts of
  an observation are strings.
\<close>

record person_row =
  pb_source_observation_id :: string
  pb_source_id :: string
  pb_camera_id :: string
  pb_track_id :: "string option"
  pb_timestamp_ms :: int
  pb_frame_pts :: pyval
  pb_frame_num :: pyval
  pb_person_bbox :: pyval
  pb_person_confidence :: pyval
  pb_gate_status :: string
  pb_payload :: event_doc

definition person_params :: "(pyval \<Rightarrow> string) \<Rightarrow> event_doc \<Rightarrow> person_row result" where
  "person_params rp observation =
     rbind (py_int (dget_or observation ''timestamp_ms'' (PInt 0))) (\<lambda>ts.
       Inr \<lparr>pb_source_observation_id = py_str rp (dget_or observation ''source_observation_id'' (PStr [])),
            pb_source_id = py_str rp (dget_or observation ''source_id'' (PStr [])),
            pb_camera_id = py_str rp (dget_or observation ''camera_id'' (PStr [])),
            pb_track_id = (if truthy (pget observation ''track_id'') then Some (py_str rp (pget observation ''track_id'')) else None),
            pb_timestamp_ms = ts, pb_frame_pts = pget observation ''frame_pts'',
            pb_frame_num = pget observation ''frame_num'', pb_person_bbox = pget observation ''person_bbox'',
            pb_person_confidence = pget observation ''person_confidence'',
            pb_gate_status = py_str rp (py_or (pget observation ''gate_status'') (PStr ''accepted'')),
            pb_payload = as_dict (pget observation ''payload'')\<rparr>)"

text \<open>\<open>ON CONFLICT (source_observation_id) DO NOTHING RETURNING id\<close>\<close>

definition insert_person_row :: "person_row \<Rightarrow> person_row list \<Rightarrow> string option \<times> person_row list" where
  "insert_person_row row rows =
     (if pb_source_observation_id row \<in> set (map pb_source_observation_id rows) then (None, rows)
      else (Some (pb_source_observation_id row), rows @ [row]))"

fun insert_person_rows_singly :: "person_row list \<Rightarrow> person_row list \<Rightarrow> string option list \<times> person_row list" where
  "insert_person_rows_singly [] rows = ([], rows)"
| "insert_person_rows_singly (r # rs) rows =
     (let (i, rows1) = insert_person_row r rows; (ids, rows2) = insert_person_rows_singly rs rows1 in (i # ids, rows2))"

text \<open>
  The statement for a batch: the rows with their rank among the rows with the same id, the
  insertion of the rows of rank one that do not conflict, and the join of every row with the
  inserted ids.
\<close>

fun ranked_rows :: "string list \<Rightarrow> person_row list \<Rightarrow> (person_row \<times> nat) list" where
  "ranked_rows seen [] = []"
| "ranked_rows seen (r # rs) =
     (r, Suc (length (filter (\<lambda>k. k = pb_source_observation_id r) seen))) #
     ranked_rows (seen @ [pb_source_observation_id r]) rs"

definition insert_person_rows_batch :: "person_row list \<Rightarrow> person_row list \<Rightarrow> string option list \<times> person_row list" where
  "insert_person_rows_batch rs rows =
     (let ranked = ranked_rows [] rs;
          inserted = filter (\<lambda>r. pb_source_observation_id r \<notin> set (map pb_source_observation_id rows))
            (map fst (filter (\<lambda>(r, rank). rank = 1) ranked))
      in (map (\<lambda>(r, rank). if rank = 1 \<and> pb_source_observation_id r \<in> set (map pb_source_observation_id inserted)
               then Some (pb_source_observation_id r) else None) ranked,
          rows @ inserted))"

definition insert_person_bbox_observations ::
  "(pyval \<Rightarrow> string) \<Rightarrow> event_doc list \<Rightarrow> person_row list \<Rightarrow> (string option list \<times> person_row list) result" where
  "insert_person_bbox_observations rp observations rows =
     (if observations = [] then Inr ([], rows)
      else rbind (rmap (person_params rp) observations) (\<lambda>rs. Inr (insert_person_rows_batch rs rows)))"

section \<open>The batch\<close>

record person_store =
  ps_rows :: "person_row list"
  ps_acked :: "string list"

definition person_store_init :: person_store where
  "person_store_init = \<lparr>ps_rows = [], ps_acked = []\<rparr>"

text \<open>Whether the statement and the two acknowledgements of a batch succeed.\<close>

record person_outcomes =
  po_insert_ok :: bool
  po_ack_malformed_ok :: bool
  po_ack_ok :: bool

definition ack_person_messages :: "bool \<Rightarrow> string list \<Rightarrow> person_store \<Rightarrow> nat \<times> person_store" where
  "ack_person_messages ok msg_ids s =
     (if msg_ids = [] \<or> \<not> ok then (0, s) else (length msg_ids, s\<lparr>ps_acked := ps_acked s @ msg_ids\<rparr>))"

definition malformed_ids :: "(string \<times> event_doc option) list \<Rightarrow> string list" where
  "malformed_ids parsed = map fst (filter (\<lambda>(_, d). d = None) parsed)"

definition valid_observations :: "(string \<times> event_doc option) list \<Rightarrow> (string \<times> event_doc) list" where
  "valid_observations parsed = map (\<lambda>(m, d). (m, the d)) (filter (\<lambda>(_, d). d \<noteq> None) parsed)"

text \<open>
  The valid observations of a batch.  The results of the statement are as many as the
  observations; the code checks it.
\<close>

definition store_valid_observations ::
  "(pyval \<Rightarrow> string) \<Rightarrow> person_outcomes \<Rightarrow> (string \<times> event_doc) list \<Rightarrow> nat \<Rightarrow> person_store \<Rightarrow>
   (nat \<times> nat \<times> nat \<times> nat) \<times> person_store" where
  "store_valid_observations rp oc valid skipped s =
     (if valid = [] then ((0, 0, skipped, 0), s)
      else
        (case (if po_insert_ok oc then insert_person_bbox_observations rp (map snd valid) (ps_rows s) else Inl Type_Error) of
           Inl _ \<Rightarrow> ((0, 0, skipped, length valid), s)
         | Inr (results, rows) \<Rightarrow>
             (let s1 = s\<lparr>ps_rows := rows\<rparr>
              in if length results \<noteq> length valid then ((0, 0, skipped, length valid), s1)
                 else
                   (let inserted = length (filter (\<lambda>r. r \<noteq> None) results)
                    in ((inserted, length results - inserted, skipped, 0),
                        snd (ack_person_messages (po_ack_ok oc) (map fst valid) s1))))))"

definition process_person_batch ::
  "(pyval \<Rightarrow> string) \<Rightarrow> person_outcomes \<Rightarrow> (string \<times> stream_data) list \<Rightarrow> person_store \<Rightarrow>
   (nat \<times> nat \<times> nat \<times> nat) result \<times> person_store" where
  "process_person_batch rp oc messages s =
     (case rmap (\<lambda>(m, data). rbind (parse_person_observation data) (\<lambda>d. Inr (m, d))) messages of
        Inl e \<Rightarrow> (Inl e, s)
      | Inr parsed \<Rightarrow>
          (let malformed = malformed_ids parsed;
               (counts, s1) = store_valid_observations rp oc (valid_observations parsed) (length malformed)
                 (snd (ack_person_messages (po_ack_malformed_ok oc) malformed s))
           in (Inr counts, s1)))"

section \<open>One statement for a batch\<close>

lemma inserted_ids:
  "set (map pb_source_observation_id (snd (insert_person_row r rows))) =
   insert (pb_source_observation_id r) (set (map pb_source_observation_id rows))"
  by (auto simp: insert_person_row_def)

lemma rank_one: "Suc (length (filter (\<lambda>k. k = x) seen)) = 1 \<longleftrightarrow> x \<notin> set seen"
  by (auto simp: filter_empty_conv)

lemma singly_is_ranked:
  assumes "set (map pb_source_observation_id cur) = set (map pb_source_observation_id rows) \<union> set seen"
  shows "insert_person_rows_singly rs cur =
    (map (\<lambda>(r, rank). if rank = 1 \<and> pb_source_observation_id r \<notin> set (map pb_source_observation_id rows)
            then Some (pb_source_observation_id r) else None) (ranked_rows seen rs),
     cur @ filter (\<lambda>r. pb_source_observation_id r \<notin> set (map pb_source_observation_id rows))
       (map fst (filter (\<lambda>(r, rank). rank = 1) (ranked_rows seen rs))))"
  using assms
proof (induction rs arbitrary: cur seen)
  case (Cons r rs)
  obtain i cur1 where step: "insert_person_row r cur = (i, cur1)" by force
  have ids: "set (map pb_source_observation_id cur1) =
      set (map pb_source_observation_id rows) \<union> set (seen @ [pb_source_observation_id r])"
    using inserted_ids [of r cur] Cons.prems by (simp add: step)
  show ?case
    using Cons.IH [OF ids] step Cons.prems rank_one [of "pb_source_observation_id r" seen]
    by (auto simp: insert_person_row_def split: if_splits)
qed simp

lemma mapped_filter: "y \<in> set (map f (filter (\<lambda>x. f x \<notin> A) xs)) \<longleftrightarrow> y \<in> set (map f xs) \<and> y \<notin> A"
  by auto

lemma batch_as_singly:
  "insert_person_rows_batch rs rows = insert_person_rows_singly rs rows"
proof -
  let ?id = pb_source_observation_id
  let ?ranked = "ranked_rows [] rs"
  let ?inserted = "filter (\<lambda>r. ?id r \<notin> set (map ?id rows)) (map fst (filter (\<lambda>(r, rank). rank = 1) ?ranked))"
  have "rank = 1 \<and> ?id r \<in> set (map ?id ?inserted) \<longleftrightarrow> rank = 1 \<and> ?id r \<notin> set (map ?id rows)"
    if "(r, rank) \<in> set ?ranked" for r rank
  proof -
    have "r \<in> set (map fst (filter (\<lambda>(r, rank). rank = 1) ?ranked))" if "rank = 1"
      using that \<open>(r, rank) \<in> set ?ranked\<close> by (force simp: image_iff)
    then have "?id r \<in> set (map ?id (map fst (filter (\<lambda>(r, rank). rank = 1) ?ranked)))" if "rank = 1"
      using that by (metis image_eqI set_map)
    then show ?thesis unfolding mapped_filter by blast
  qed
  then have "map (\<lambda>(r, rank). if rank = 1 \<and> ?id r \<in> set (map ?id ?inserted) then Some (?id r) else None) ?ranked =
      map (\<lambda>(r, rank). if rank = 1 \<and> ?id r \<notin> set (map ?id rows) then Some (?id r) else None) ?ranked"
    by (intro map_cong) auto
  then show ?thesis
    using singly_is_ranked [of rows rows "[]" rs] by (simp only: insert_person_rows_batch_def Let_def) simp
qed

text \<open>
  C29: the statement for a batch does what the insertions one by one do: the same rows are added in the
  same order, and every observation gets the id, or the absence of one, that its own insertion
  would give it, also when the batch repeats an observation.
\<close>

theorem batch_inserts_as_single_rows:
  "insert_person_rows_batch rs rows = insert_person_rows_singly rs rows"
  by (rule batch_as_singly)

section \<open>What a batch leaves\<close>

lemma singly_length: "length (fst (insert_person_rows_singly rs rows)) = length rs"
  by (induction rs arbitrary: rows) (simp_all add: split_beta)

lemma singly_ids:
  "set (map pb_source_observation_id (snd (insert_person_rows_singly rs rows))) =
   set (map pb_source_observation_id rows) \<union> set (map pb_source_observation_id rs)"
proof (induction rs arbitrary: rows)
  case (Cons r rs)
  show ?case using Cons.IH [of "snd (insert_person_row r rows)"] inserted_ids [of r rows] by (simp add: split_beta)
qed simp

definition observation_id :: "(pyval \<Rightarrow> string) \<Rightarrow> event_doc \<Rightarrow> string" where
  "observation_id rp observation = py_str rp (dget_or observation ''source_observation_id'' (PStr []))"

lemma person_params_id: "person_params rp d = Inr row \<Longrightarrow> pb_source_observation_id row = observation_id rp d"
  by (auto simp: person_params_def rbind_Inr_iff observation_id_def)

lemma inserted_batch:
  assumes "insert_person_bbox_observations rp ds rows = Inr (ids, rows')"
  shows "length ids = length ds \<and>
    set (map pb_source_observation_id rows') = set (map pb_source_observation_id rows) \<union> set (map (observation_id rp) ds)"
proof (cases "ds = []")
  case False
  then obtain rs where rs: "rmap (person_params rp) ds = Inr rs" "insert_person_rows_singly rs rows = (ids, rows')"
    using assms by (auto simp: insert_person_bbox_observations_def rbind_Inr_iff batch_as_singly)
  have "map pb_source_observation_id rs = map (observation_id rp) ds"
    using rmap_Inr [OF rs(1)] by (induction rule: list_all2_induct) (simp_all add: person_params_id)
  then show ?thesis using singly_length [of rs rows] singly_ids [of rs rows] rmap_length [OF rs(1)] rs(2) by simp
qed (use assms in \<open>simp add: insert_person_bbox_observations_def\<close>)

lemma parsed_partition: "length (malformed_ids parsed) + length (valid_observations parsed) = length parsed"
  by (induction parsed) (auto simp: malformed_ids_def valid_observations_def)

lemma stored_observations:
  assumes "store_valid_observations rp oc valid skipped s = ((inserted, duplicates, skips, failed), s')"
  shows "inserted + duplicates + skips + failed = skipped + length valid \<and>
    (ps_acked s' = ps_acked s \<or>
     ps_acked s' = ps_acked s @ map fst valid \<and>
     set (map (\<lambda>(m, d). observation_id rp d) valid) \<subseteq> set (map pb_source_observation_id (ps_rows s')))"
proof (cases "valid = [] \<or> \<not> po_insert_ok oc")
  case True
  then show ?thesis using assms by (cases "valid = []") (auto simp: store_valid_observations_def)
next
  case False
  show ?thesis
  proof (cases "insert_person_bbox_observations rp (map snd valid) (ps_rows s)")
    case (Inl e)
    then show ?thesis using assms False by (auto simp: store_valid_observations_def)
  next
    case (Inr res)
    obtain ids rows where res: "res = (ids, rows)" by (cases res)
    note batch = inserted_batch [OF Inr [unfolded res]]
    have rows: "ps_rows s' = rows" and n: "inserted + duplicates + skips + failed = skipped + length valid"
      and acked: "ps_acked s' = ps_acked s \<or> ps_acked s' = ps_acked s @ map fst valid"
      using assms False Inr res batch length_filter_le [of "\<lambda>r. r \<noteq> None" ids]
      by (auto simp: store_valid_observations_def Let_def ack_person_messages_def split: if_splits)
    show ?thesis using n acked batch by (auto simp: rows split_beta)
  qed
qed

text \<open>What the acknowledgement of a message may rest on.\<close>

definition settled :: "(pyval \<Rightarrow> string) \<Rightarrow> (string \<times> stream_data) list \<Rightarrow> person_store \<Rightarrow> string \<Rightarrow> bool" where
  "settled rp messages s m \<longleftrightarrow>
     (\<exists>(m', data) \<in> set messages. m' = m \<and>
       (case parse_person_observation data of
          Inl _ \<Rightarrow> False
        | Inr None \<Rightarrow> True
        | Inr (Some d) \<Rightarrow> observation_id rp d \<in> set (map pb_source_observation_id (ps_rows s))))"

lemma parsed_member:
  assumes "rmap (\<lambda>(m, data). rbind (parse_person_observation data) (\<lambda>d. Inr (m, d))) messages = Inr parsed" "(m, d) \<in> set parsed"
  shows "\<exists>data. (m, data) \<in> set messages \<and> parse_person_observation data = Inr d"
proof -
  have "\<exists>x \<in> set messages. (\<lambda>(m, data). rbind (parse_person_observation data) (\<lambda>d. Inr (m, d))) x = Inr (m, d)"
    using rmap_Inr [OF assms(1)] assms(2) by (induction rule: list_all2_induct) auto
  then show ?thesis by (auto simp: rbind_Inr_iff)
qed

text \<open>
  every message of a batch is counted once, as inserted, duplicate, skipped or failed, and the
  messages that the batch acknowledges are malformed or their observation is in the table.
\<close>

theorem person_batch_accounts:
  assumes "process_person_batch rp oc messages s = (Inr (inserted, duplicates, skipped, failed), s')"
  shows "inserted + duplicates + skipped + failed = length messages \<and>
    (\<exists>acked. ps_acked s' = ps_acked s @ acked \<and> list_all (settled rp messages s') acked)"
proof -
  obtain parsed where parsed: "rmap (\<lambda>(m, data). rbind (parse_person_observation data) (\<lambda>d. Inr (m, d))) messages = Inr parsed"
    using assms by (auto simp: process_person_batch_def split: sum.splits)
  let ?valid = "valid_observations parsed" and ?bad = "malformed_ids parsed"
  define s0 where "s0 = snd (ack_person_messages (po_ack_malformed_ok oc) ?bad s)"
  obtain c s1 where c: "store_valid_observations rp oc ?valid (length ?bad) s0 = (c, s1)"
    by (cases "store_valid_observations rp oc ?valid (length ?bad) s0")
  then have run: "store_valid_observations rp oc ?valid (length ?bad) s0 = ((inserted, duplicates, skipped, failed), s')"
    using assms parsed by (simp add: process_person_batch_def s0_def)
  note stored = stored_observations [OF run]
  have "inserted + duplicates + skipped + failed = length messages"
    using stored parsed_partition [of parsed] rmap_length [OF parsed] by simp
  moreover have "\<exists>acked. ps_acked s0 = ps_acked s @ acked \<and> set acked \<subseteq> set ?bad"
    by (auto simp: s0_def ack_person_messages_def)
  then obtain acked where acked: "ps_acked s0 = ps_acked s @ acked" "set acked \<subseteq> set ?bad" by blast
  have "settled rp messages s' m" if "m \<in> set ?bad" for m
  proof -
    have "(m, None) \<in> set parsed" using that by (auto simp: malformed_ids_def)
    then obtain data where "(m, data) \<in> set messages" "parse_person_observation data = Inr None"
      using parsed_member [OF parsed] by blast
    then show ?thesis unfolding settled_def by (intro bexI [of _ "(m, data)"]) simp_all
  qed
  then have bad: "list_all (settled rp messages s') acked" using acked(2) by (auto simp: list_all_iff)
  have valid: "list_all (settled rp messages s') (map fst ?valid)"
    if "set (map (\<lambda>(m, d). observation_id rp d) ?valid) \<subseteq> set (map pb_source_observation_id (ps_rows s'))"
  proof -
    have "settled rp messages s' m" if "(m, d) \<in> set ?valid" for m d
    proof -
      have "(m, Some d) \<in> set parsed" using that by (auto simp: valid_observations_def)
      then obtain data where "(m, data) \<in> set messages" "parse_person_observation data = Inr (Some d)"
        using parsed_member [OF parsed] by blast
      moreover have "observation_id rp d \<in> set (map pb_source_observation_id (ps_rows s'))"
        using that \<open>set (map (\<lambda>(m, d). observation_id rp d) ?valid) \<subseteq> _\<close> by fastforce
      ultimately show ?thesis unfolding settled_def by (intro bexI [of _ "(m, data)"]) simp_all
    qed
    then show ?thesis by (fastforce simp: list_all_iff)
  qed
  have "\<exists>acked. ps_acked s' = ps_acked s @ acked \<and> list_all (settled rp messages s') acked"
    using stored acked(1) bad valid by (metis append.assoc list_all_append)
  ultimately show ?thesis by blast
qed

definition example_observation_message :: "string \<Rightarrow> string \<Rightarrow> string \<times> stream_data" where
  "example_observation_message msg_id gate_status =
     (msg_id, Some (Inr (PDict
       [(''source_observation_id'', PStr ''o''), (''source_id'', PStr ''s''), (''camera_id'', PStr ''c''),
        (''timestamp_ms'', PInt 1), (''person_bbox'', PList [PInt 0, PInt 0, PInt 1, PInt 1]),
        (''gate_status'', PStr gate_status)])))"

definition example_person_outcomes :: person_outcomes where
  "example_person_outcomes = \<lparr>po_insert_ok = True, po_ack_malformed_ok = True, po_ack_ok = True\<rparr>"

lemma example_person_batch:
  "fst (process_person_batch (\<lambda>_. []) example_person_outcomes
     [example_observation_message ''1'' ''accepted'', example_observation_message ''2'' ''rejected'',
      example_observation_message ''3'' ''accepted''] person_store_init) = Inr (1, 1, 1, 0)"
  by code_simp

theorem person_batch_accounts_witness:
  "\<exists>s'. process_person_batch (\<lambda>_. []) example_person_outcomes
      [example_observation_message ''1'' ''accepted'', example_observation_message ''2'' ''rejected'',
       example_observation_message ''3'' ''accepted''] person_store_init = (Inr (1, 1, 1, 0), s') \<and>
    list_all (settled (\<lambda>_. [])
      [example_observation_message ''1'' ''accepted'', example_observation_message ''2'' ''rejected'',
       example_observation_message ''3'' ''accepted''] s') (ps_acked s')"
proof -
  let ?messages = "[example_observation_message ''1'' ''accepted'', example_observation_message ''2'' ''rejected'',
      example_observation_message ''3'' ''accepted'']"
  obtain s' where s': "process_person_batch (\<lambda>_. []) example_person_outcomes ?messages person_store_init = (Inr (1, 1, 1, 0), s')"
    using example_person_batch by (metis prod.collapse)
  from person_batch_accounts [OF this] show ?thesis using s' by (auto simp: person_store_init_def)
qed

end
