(* ===== verification/WorkerLoop.thy ===== *)
theory WorkerLoop
  imports EventProgress PersonObservations
begin

text \<open>
  The loop of the event worker (\<open>run_worker\<close> in services/event-worker/app/worker.py) over the
  stream reader of services/event-worker/app/redis_consumer.py: the runtime epoch and the gate of
  the evidence tasks that are read before every batch, and the turn that serves recovered events,
  new events and person observations in this order.
\<close>

section \<open>What Redis answers\<close>

text \<open>A key's value: no answer, no value, or a text with what \<open>json.loads\<close> makes of it.\<close>

datatype redis_reply = Redis_Failed | Redis_Missing | Redis_Text string "pyval option"

text \<open>Returned or raised with a message.\<close>

datatype 'a stream_reply = Stream_Returned 'a | Stream_Raised string

section \<open>The gate of the evidence tasks\<close>

definition gate_cutoff :: "event_doc \<Rightarrow> string \<Rightarrow> int \<Rightarrow> int option result" where
  "gate_cutoff payload key fallback =
     (case py_int (py_or (dget_or payload key (PInt fallback)) (PInt 0)) of
        Inr i \<Rightarrow> Inr (Some (max 0 i))
      | Inl Overflow_Error \<Rightarrow> Inl Overflow_Error
      | Inl _ \<Rightarrow> Inr None)"

definition gate_enabled :: "event_doc \<Rightarrow> bool \<Rightarrow> bool" where
  "gate_enabled payload fallback =
     (case dget_or payload ''enabled'' (PBool fallback) of
        PStr s \<Rightarrow> py_lower (py_strip s) \<in> {''1'', ''true'', ''yes'', ''on''}
      | v \<Rightarrow> truthy v)"

definition effective_evidence_task_gate ::
  "bool \<Rightarrow> int \<Rightarrow> int \<Rightarrow> string \<Rightarrow> redis_reply \<Rightarrow> (bool \<times> int \<times> int) result" where
  "effective_evidence_task_gate enabled not_before not_after redis_key reply =
     (let fallback = (enabled, max 0 not_before, max 0 not_after)
      in if redis_key = [] then Inr fallback
         else
           (case reply of
              Redis_Text raw (Some (PDict payload)) \<Rightarrow>
                (if raw = [] then Inr fallback
                 else
                   rbind (gate_cutoff payload ''event_not_before_ts_ms'' (max 0 not_before)) (\<lambda>cutoff.
                   case cutoff of
                     None \<Rightarrow> Inr fallback
                   | Some nb \<Rightarrow>
                       rbind (gate_cutoff payload ''event_not_after_ts_ms'' (max 0 not_after)) (\<lambda>upper_cutoff.
                       case upper_cutoff of
                         None \<Rightarrow> Inr fallback
                       | Some na \<Rightarrow> Inr (gate_enabled payload enabled, nb, na))))
            | _ \<Rightarrow> Inr fallback))"

section \<open>The runtime epoch\<close>

definition current_runtime_epoch_id :: "(pyval \<Rightarrow> string) \<Rightarrow> redis_reply \<Rightarrow> string" where
  "current_runtime_epoch_id rp reply =
     (case reply of
        Redis_Text text parsed \<Rightarrow>
          (case (case parsed of None \<Rightarrow> PStr text | Some v \<Rightarrow> v) of
             PDict d \<Rightarrow> py_str rp (py_or (pget d ''runtime_epoch_id'') (PStr []))
           | v \<Rightarrow> py_str rp (py_or v (PStr [])))
      | _ \<Rightarrow> [])"

section \<open>The stream reader\<close>

text \<open>Creating a group that exists already is a success.\<close>

definition create_group :: "unit stream_reply \<Rightarrow> bool" where
  "create_group reply =
     (case reply of Stream_Returned _ \<Rightarrow> True | Stream_Raised m \<Rightarrow> contains_sub ''BUSYGROUP'' m)"

definition group_missing :: "string \<Rightarrow> bool" where
  "group_missing m = contains_sub ''NOGROUP'' m"

text \<open>The first reading, the recreation of the group, and the second reading.\<close>

definition read_new :: "'a list stream_reply \<Rightarrow> unit stream_reply \<Rightarrow> 'a list stream_reply \<Rightarrow> 'a list" where
  "read_new reply recreation retry =
     (case reply of
        Stream_Returned entries \<Rightarrow> entries
      | Stream_Raised m \<Rightarrow>
          if group_missing m \<and> create_group recreation
          then (case retry of Stream_Returned entries \<Rightarrow> entries | Stream_Raised _ \<Rightarrow> [])
          else [])"

text \<open>The pending messages with their idle times, and the claim of those that are idle long enough.\<close>

definition stale_ids :: "int \<Rightarrow> (string \<times> int option) list \<Rightarrow> string list" where
  "stale_ids min_idle_ms pending =
     map fst (filter (\<lambda>(_, idle). min_idle_ms \<le> (case idle of None \<Rightarrow> 0 | Some t \<Rightarrow> t)) pending)"

definition read_pending ::
  "int \<Rightarrow> (string \<times> int option) list stream_reply \<Rightarrow> (string list \<Rightarrow> 'a list stream_reply) \<Rightarrow> 'a list" where
  "read_pending min_idle_ms pending claim =
     (case pending of
        Stream_Raised _ \<Rightarrow> []
      | Stream_Returned entries \<Rightarrow>
          (case stale_ids min_idle_ms entries of
             [] \<Rightarrow> []
           | ids \<Rightarrow> (case claim ids of Stream_Returned claimed \<Rightarrow> claimed | Stream_Raised _ \<Rightarrow> [])))"

section \<open>A turn of the loop\<close>

record loop_config =
  lc_handler :: handler_config
  lc_gate_redis_key :: string
  lc_person_observation_enabled :: bool

text \<open>A batch of events with the answers for the epoch and the gate; a batch of observations.\<close>

record event_batch =
  eb_epoch :: redis_reply
  eb_gate :: redis_reply
  eb_entries :: "(handler_outcomes \<times> string \<times> stream_data) list"

type_synonym person_batch = "person_outcomes \<times> (string \<times> stream_data) list"

text \<open>What the readings of a turn return; the last one is the reading that may wait.\<close>

record loop_turn =
  lt_pending :: event_batch
  lt_new :: event_batch
  lt_person_pending :: person_batch
  lt_person_new :: person_batch
  lt_idle :: event_batch

record worker_loop =
  wl_worker :: event_worker
  wl_persons :: person_store
  wl_inserted :: nat
  wl_duplicates :: nat
  wl_person_inserted :: nat
  wl_person_duplicates :: nat
  wl_person_skipped :: nat
  wl_person_failed :: nat

definition worker_loop_init :: worker_loop where
  "worker_loop_init =
     \<lparr>wl_worker = event_worker_init, wl_persons = person_store_init, wl_inserted = 0, wl_duplicates = 0,
      wl_person_inserted = 0, wl_person_duplicates = 0, wl_person_skipped = 0, wl_person_failed = 0\<rparr>"

definition process_event_messages ::
  "(pyval \<Rightarrow> string) \<Rightarrow> (string \<Rightarrow> event_doc) \<Rightarrow> loop_config \<Rightarrow> event_batch \<Rightarrow> worker_loop \<Rightarrow> unit result \<times> worker_loop" where
  "process_event_messages rp policies lcfg b s =
     (let cfg = lc_handler lcfg; epoch = current_runtime_epoch_id rp (eb_epoch b)
      in case effective_evidence_task_gate (hc_evidence_task_creation_enabled cfg) (hc_event_not_before_ts_ms cfg)
             (hc_event_not_after_ts_ms cfg) (lc_gate_redis_key lcfg) (eb_gate b) of
           Inl e \<Rightarrow> (Inl e, s)
         | Inr (enabled, not_before, not_after) \<Rightarrow>
             (let (counts, w) = process_batch rp policies
                    (cfg\<lparr>hc_evidence_task_creation_enabled := enabled, hc_event_not_before_ts_ms := not_before,
                         hc_event_not_after_ts_ms := not_after\<rparr>)
                    (map (\<lambda>(oc, m, data). (oc\<lparr>oc_runtime_epoch_id := epoch\<rparr>, m, data)) (eb_entries b)) (wl_worker s);
                  s1 = s\<lparr>wl_worker := w\<rparr>
              in case counts of
                   Inl e \<Rightarrow> (Inl e, s1)
                 | Inr (inserted, duplicates) \<Rightarrow>
                     (Inr (), s1\<lparr>wl_inserted := wl_inserted s1 + inserted, wl_duplicates := wl_duplicates s1 + duplicates\<rparr>)))"

text \<open>A stage passes on whether the turn did work; an exception skips what is left of the turn.\<close>

definition event_stage ::
  "(pyval \<Rightarrow> string) \<Rightarrow> (string \<Rightarrow> event_doc) \<Rightarrow> loop_config \<Rightarrow> event_batch \<Rightarrow> bool result \<times> worker_loop \<Rightarrow>
   bool result \<times> worker_loop" where
  "event_stage rp policies lcfg b turn =
     (case turn of
        (Inl e, s) \<Rightarrow> (Inl e, s)
      | (Inr did_work, s) \<Rightarrow>
          if eb_entries b = [] then (Inr did_work, s)
          else (let (r, s1) = process_event_messages rp policies lcfg b s in (rbind r (\<lambda>_. Inr True), s1)))"

definition person_stage ::
  "(pyval \<Rightarrow> string) \<Rightarrow> person_batch \<Rightarrow> bool result \<times> worker_loop \<Rightarrow> bool result \<times> worker_loop" where
  "person_stage rp b turn =
     (case turn of
        (Inl e, s) \<Rightarrow> (Inl e, s)
      | (Inr did_work, s) \<Rightarrow>
          if snd b = [] then (Inr did_work, s)
          else
            (case process_person_batch rp (fst b) (snd b) (wl_persons s) of
               (Inl e, p) \<Rightarrow> (Inl e, s\<lparr>wl_persons := p\<rparr>)
             | (Inr (ins, dup, skip, fail), p) \<Rightarrow>
                 (Inr True,
                  s\<lparr>wl_persons := p, wl_person_inserted := wl_person_inserted s + ins,
                    wl_person_duplicates := wl_person_duplicates s + dup,
                    wl_person_skipped := wl_person_skipped s + skip, wl_person_failed := wl_person_failed s + fail\<rparr>)))"

definition idle_stage ::
  "(pyval \<Rightarrow> string) \<Rightarrow> (string \<Rightarrow> event_doc) \<Rightarrow> loop_config \<Rightarrow> event_batch \<Rightarrow> bool result \<times> worker_loop \<Rightarrow>
   bool result \<times> worker_loop" where
  "idle_stage rp policies lcfg b turn =
     (if fst turn = Inr False then event_stage rp policies lcfg b turn else turn)"

text \<open>The turn; the loop logs its exception and goes on.\<close>

definition worker_turn ::
  "(pyval \<Rightarrow> string) \<Rightarrow> (string \<Rightarrow> event_doc) \<Rightarrow> loop_config \<Rightarrow> loop_turn \<Rightarrow> worker_loop \<Rightarrow> bool result \<times> worker_loop" where
  "worker_turn rp policies lcfg t s =
     (let events = event_stage rp policies lcfg (lt_new t) (event_stage rp policies lcfg (lt_pending t) (Inr False, s));
          persons = (if lc_person_observation_enabled lcfg
                     then person_stage rp (lt_person_new t) (person_stage rp (lt_person_pending t) events) else events)
      in idle_stage rp policies lcfg (lt_idle t) persons)"

definition run_worker ::
  "(pyval \<Rightarrow> string) \<Rightarrow> (string \<Rightarrow> event_doc) \<Rightarrow> loop_config \<Rightarrow> loop_turn list \<Rightarrow> worker_loop" where
  "run_worker rp policies lcfg turns = fold (\<lambda>t s. snd (worker_turn rp policies lcfg t s)) turns worker_loop_init"

section \<open>The gate\<close>

lemma gate_cutoff_range: "gate_cutoff d k fallback = Inr (Some n) \<Longrightarrow> 0 \<le> n"
  by (auto simp: gate_cutoff_def split: sum.splits py_error.splits)

text \<open>
  The gate is the configured one or what a document says; the bounds are never negative, and only a
  document can close a gate that is configured open.
\<close>

lemma gate_cases:
  assumes "effective_evidence_task_gate enabled nb na key reply = Inr g"
  obtains (Configured) "g = (enabled, max 0 nb, max 0 na)"
  | (Document) raw d nb' na' where "reply = Redis_Text raw (Some (PDict d))" "key \<noteq> []"
      "g = (gate_enabled d enabled, nb', na')" "0 \<le> nb'" "0 \<le> na'"
proof (cases "\<exists>raw d. reply = Redis_Text raw (Some (PDict d)) \<and> raw \<noteq> [] \<and> key \<noteq> []")
  case False
  then have "g = (enabled, max 0 nb, max 0 na)"
    using assms unfolding effective_evidence_task_gate_def Let_def
    by (auto split: redis_reply.splits option.splits pyval.splits if_splits)
  then show thesis by (rule Configured)
next
  case True
  then obtain raw d where r: "reply = Redis_Text raw (Some (PDict d))" "raw \<noteq> []" "key \<noteq> []" by blast
  then show thesis using assms Configured Document [OF r(1,3)] gate_cutoff_range
    unfolding effective_evidence_task_gate_def Let_def by (auto simp: rbind_Inr_iff split: option.splits)
qed

section \<open>The totals\<close>

text \<open>A delivery that is reported as new adds one row, every other adds none unless it raises.\<close>

lemma handled_rows:
  assumes "handle_event rp policies cfg oc msg_id event w = (res, w')"
  shows "length (wk_rows w) \<le> length (wk_rows w') \<and>
    (\<forall>new i. res = Inr (new, i) \<longrightarrow> length (wk_rows w') = length (wk_rows w) + (if new then 1 else 0))"
  using assms
proof (cases rule: handle_event_cases)
  case Unstored
  then show ?thesis by auto
next
  case (Stored event1 i w1 suppressed event2 w2)
  have rows: "length (wk_rows w') = length (wk_rows w1)"
  proof -
    have "i = None \<or> i = Some (length (wk_rows w)) \<and> length (wk_rows w) < length (wk_rows w1)"
      using Stored(2) by (cases rule: store_event_cases) simp_all
    then have "length (wk_rows w2) = length (wk_rows w1)" using policy_keeps_ids [OF Stored(3)] by (metis length_map)
    then show ?thesis using complete_event_rows [OF Stored(4)] by simp
  qed
  have res: "fst r = (i \<noteq> None)" if "res = Inr r" for r
    using Stored(4) that by (auto simp: complete_event_def Let_def split: sum.splits prod.splits)
  from Stored(2) show ?thesis
    by (cases rule: store_event_cases) (use rows res in force)+
qed

lemma batch_rows:
  assumes "process_batch rp policies cfg batch w = (res, w')"
  shows "length (wk_rows w) \<le> length (wk_rows w') \<and>
    (\<forall>ins dup. res = Inr (ins, dup) \<longrightarrow> length (wk_rows w') = length (wk_rows w) + ins)"
  using assms
proof (induction batch arbitrary: w res)
  case (Cons d batch)
  obtain oc m data where d: "d = (oc, m, data)" by (cases d) auto
  show ?case
  proof (cases "\<exists>event. parse_event data = Inr (Some event)")
    case True
    then obtain event where e: "parse_event data = Inr (Some event)" by blast
    obtain r1 w1 where h: "handle_event rp policies cfg oc m event w = (r1, w1)" by force
    note rows = handled_rows [OF h]
    show ?thesis
    proof (cases r1)
      case (Inl x)
      then show ?thesis using Cons.prems rows by (auto simp: d e h)
    next
      case (Inr x)
      obtain new i where x: "x = (new, i)" by (cases x)
      obtain c w2 where b: "process_batch rp policies cfg batch w1 = (c, w2)" by force
      have "w' = w2" "\<And>ins dup. res = Inr (ins, dup) \<Longrightarrow> \<exists>a b. c = Inr (a, b) \<and> ins = (if new then a + 1 else a)"
        using Cons.prems by (auto simp: d e h Inr x b rbind_Inr_iff split: if_splits)
      moreover have "length (wk_rows w1) \<le> length (wk_rows w2) \<and>
          (\<forall>ins dup. c = Inr (ins, dup) \<longrightarrow> length (wk_rows w2) = length (wk_rows w1) + ins)"
        using Cons.IH b \<open>w' = w2\<close> by blast
      ultimately show ?thesis using rows Inr x by fastforce
    qed
  next
    case False
    then show ?thesis using Cons.prems Cons.IH [of "acknowledge oc m w"]
      by (auto simp: d split: sum.splits option.splits)
  qed
qed simp

definition person_totals_ok :: "worker_loop \<Rightarrow> bool" where
  "person_totals_ok s \<longleftrightarrow>
     wl_person_inserted s = length (ps_rows (wl_persons s)) \<and>
     distinct (map pb_source_observation_id (ps_rows (wl_persons s)))"

text \<open>What holds of the worker between the turns of its loop.\<close>

definition worker_loop_ok :: "worker_loop \<Rightarrow> bool" where
  "worker_loop_ok s \<longleftrightarrow>
     alerts_ok (wl_worker s) \<and> wl_inserted s \<le> length (wk_rows (wl_worker s)) \<and> person_totals_ok s"

lemma messages_ok:
  assumes "worker_loop_ok s" "process_event_messages rp policies lcfg b s = (r, s')"
  shows "worker_loop_ok s'"
proof -
  let ?cfg = "lc_handler lcfg"
  show ?thesis
  proof (cases "effective_evidence_task_gate (hc_evidence_task_creation_enabled ?cfg) (hc_event_not_before_ts_ms ?cfg)
      (hc_event_not_after_ts_ms ?cfg) (lc_gate_redis_key lcfg) (eb_gate b)")
    case (Inl e)
    then show ?thesis using assms by (simp add: process_event_messages_def)
  next
    case (Inr g)
    obtain en nb na where g: "g = (en, nb, na)" by (metis prod_cases3)
    let ?cfg1 = "?cfg\<lparr>hc_evidence_task_creation_enabled := en, hc_event_not_before_ts_ms := nb, hc_event_not_after_ts_ms := na\<rparr>"
    let ?entries = "map (\<lambda>(oc, m, data). (oc\<lparr>oc_runtime_epoch_id := current_runtime_epoch_id rp (eb_epoch b)\<rparr>, m, data)) (eb_entries b)"
    obtain c w where run: "process_batch rp policies ?cfg1 ?entries (wl_worker s) = (c, w)" by force
    have ok: "alerts_ok w" using alerts_ok_batch [of "wl_worker s" rp policies ?cfg1 ?entries] assms(1) run
      by (simp add: worker_loop_ok_def)
    note rows = batch_rows [OF run]
    have s': "s' = (case c of Inl e \<Rightarrow> s\<lparr>wl_worker := w\<rparr>
        | Inr (ins, dup) \<Rightarrow> s\<lparr>wl_worker := w, wl_inserted := wl_inserted s + ins, wl_duplicates := wl_duplicates s + dup\<rparr>)"
      using assms(2) run by (simp add: process_event_messages_def Inr g Let_def split: sum.splits prod.splits)
    show ?thesis using assms(1) ok rows unfolding s'
      by (auto simp: worker_loop_ok_def person_totals_ok_def split: sum.splits)
  qed
qed

lemma event_stage_ok: "worker_loop_ok (snd turn) \<Longrightarrow> worker_loop_ok (snd (event_stage rp policies lcfg b turn))"
  using messages_ok [OF _ surjective_pairing, of "snd turn" rp policies lcfg b]
  by (auto simp: event_stage_def split_beta split: prod.splits sum.splits)

lemma singly_counts:
  "insert_person_rows_singly rs rows = (ids, rows') \<Longrightarrow>
   length rows' = length rows + length (filter (\<lambda>i. i \<noteq> None) ids) \<and>
   (distinct (map pb_source_observation_id rows) \<longrightarrow> distinct (map pb_source_observation_id rows'))"
proof (induction rs arbitrary: rows ids rows')
  case (Cons r rs)
  obtain i rows1 where 1: "insert_person_row r rows = (i, rows1)" by force
  obtain ids2 rows2 where 2: "insert_person_rows_singly rs rows1 = (ids2, rows2)" by force
  have "length rows1 = length rows + (if i = None then 0 else 1)"
      "distinct (map pb_source_observation_id rows) \<longrightarrow> distinct (map pb_source_observation_id rows1)"
    using 1 by (auto simp: insert_person_row_def split: if_splits)
  then show ?case using Cons.IH [OF 2] Cons.prems 1 2 by auto
qed simp

lemma person_batch_totals:
  assumes "process_person_batch rp oc messages p = (r, p')"
    and "distinct (map pb_source_observation_id (ps_rows p))"
  shows "distinct (map pb_source_observation_id (ps_rows p')) \<and>
    (case r of Inl _ \<Rightarrow> p' = p | Inr (ins, _, _, _) \<Rightarrow> length (ps_rows p') = length (ps_rows p) + ins)"
proof (cases r)
  case (Inl e)
  then show ?thesis using assms by (auto simp: process_person_batch_def Let_def split_beta split: sum.splits)
next
  case (Inr c)
  obtain parsed where parsed: "rmap (\<lambda>(m, data). rbind (parse_person_observation data) (\<lambda>d. Inr (m, d))) messages = Inr parsed"
    using assms Inr by (auto simp: process_person_batch_def split: sum.splits)
  define p0 where "p0 = snd (ack_person_messages (po_ack_malformed_ok oc) (malformed_ids parsed) p)"
  have p0: "ps_rows p0 = ps_rows p" by (simp add: p0_def ack_person_messages_def)
  let ?valid = "valid_observations parsed" and ?n = "length (malformed_ids parsed)"
  obtain c' p1 where c': "store_valid_observations rp oc ?valid ?n p0 = (c', p1)"
    by (cases "store_valid_observations rp oc ?valid ?n p0")
  then have run: "store_valid_observations rp oc ?valid ?n p0 = (c, p')"
    using assms(1) parsed Inr by (simp add: process_person_batch_def p0_def)
  show ?thesis
  proof (cases "?valid = [] \<or> \<not> po_insert_ok oc \<or> (\<exists>e. insert_person_bbox_observations rp (map snd ?valid) (ps_rows p0) = Inl e)")
    case True
    have "fst c = 0 \<and> p' = p0"
    proof (cases "?valid = []")
      case True
      then show ?thesis using run by (cases c) (simp add: store_valid_observations_def)
    next
      case False
      then consider "\<not> po_insert_ok oc"
        | e where "insert_person_bbox_observations rp (map snd ?valid) (ps_rows p0) = Inl e" using True by blast
      then show ?thesis
        using run False by cases (cases c; simp add: store_valid_observations_def split: if_splits)+
    qed
    then show ?thesis using assms(2) p0 Inr by (cases c) simp
  next
    case False
    then obtain ids rows where ins: "insert_person_bbox_observations rp (map snd ?valid) (ps_rows p0) = Inr (ids, rows)"
      by (metis prod.collapse sum.exhaust_sel)
    then obtain rs where rs: "insert_person_rows_singly rs (ps_rows p0) = (ids, rows)"
      using False by (auto simp: insert_person_bbox_observations_def rbind_Inr_iff batch_as_singly)
    have "fst c = length (filter (\<lambda>r. r \<noteq> None) ids)" "ps_rows p' = rows"
      using run False ins inserted_batch [OF ins]
      by (auto simp: store_valid_observations_def Let_def ack_person_messages_def split: if_splits)
    then show ?thesis using singly_counts [OF rs] assms(2) p0 Inr by (cases c) simp
  qed
qed

lemma person_stage_ok:
  assumes "worker_loop_ok (snd turn)"
  shows "worker_loop_ok (snd (person_stage rp b turn))"
proof (cases "\<exists>e. fst turn = Inl e \<or> snd b = []")
  case True
  then show ?thesis using assms by (auto simp: person_stage_def split: prod.splits sum.splits)
next
  case False
  then obtain did s where turn: "turn = (Inr did, s)" "snd b \<noteq> []" by (metis prod.collapse sum.exhaust_sel)
  obtain r p where run: "process_person_batch rp (fst b) (snd b) (wl_persons s) = (r, p)" by force
  have d: "distinct (map pb_source_observation_id (ps_rows (wl_persons s)))"
    using assms by (simp add: turn worker_loop_ok_def person_totals_ok_def)
  show ?thesis
    using assms person_batch_totals [OF run d]
    by (cases r) (auto simp: person_stage_def turn run worker_loop_ok_def person_totals_ok_def)
qed

lemma turn_ok: "worker_loop_ok s \<Longrightarrow> worker_loop_ok (snd (worker_turn rp policies lcfg t s))"
  by (simp add: worker_turn_def Let_def idle_stage_def event_stage_ok person_stage_ok)

lemma worker_loop_init_ok: "worker_loop_ok worker_loop_init"
  by (simp add: worker_loop_init_def worker_loop_ok_def person_totals_ok_def alerts_ok_init person_store_init_def)

interpretation worker_turns: transition_system worker_loop_init
    "\<lambda>t s. snd (worker_turn rp policies lcfg t s)" worker_loop_ok for rp policies lcfg
  by unfold_locales (rule worker_loop_init_ok, rule turn_ok)

text \<open>
  whatever the turns of the loop read and whatever fails, the total of inserted observations is the
  number of rows of their table, the total of inserted events is at most the number of stored
  events, no event and no observation is stored twice, and no event has two alerts.
\<close>

theorem worker_totals:
  "let s = run_worker rp policies lcfg turns
   in wl_person_inserted s = length (ps_rows (wl_persons s)) \<and>
      wl_inserted s \<le> length (wk_rows (wl_worker s)) \<and>
      distinct (map pb_source_observation_id (ps_rows (wl_persons s))) \<and>
      distinct (map ew_source_event_id (wk_rows (wl_worker s))) \<and> distinct (wk_alerts (wl_worker s))"
  using worker_turns.run [of rp policies lcfg turns]
  by (simp add: run_worker_def worker_loop_ok_def person_totals_ok_def alerts_ok_def Let_def)

text \<open>
  A document of the gate with an infinite bound makes the reading of the gate raise, before the
  batch is looked at: no event is handled while the document is there.
\<close>

theorem infinite_gate_stops_events:
  "lc_gate_redis_key lcfg = ''gate'' \<Longrightarrow>
   eb_gate b = Redis_Text ''document'' (Some (PDict [(''event_not_before_ts_ms'', PFloat PosInf)])) \<Longrightarrow>
   process_event_messages rp policies lcfg b s = (Inl Overflow_Error, s)"
  by (simp add: process_event_messages_def effective_evidence_task_gate_def gate_cutoff_def dget_or_def py_or_def)

end
