(* ===== verification/TaskTable.thy ===== *)
theory TaskTable
  imports Lifecycle
begin

text \<open>
  The table of evidence tasks and the event rows it is projected to, as
  \<^verbatim>\<open>services/media-worker/app/materialization_repository.py\<close> uses them: the columns, a
  guarded update (\<open>UPDATE ... WHERE\<close>), the lease value, the parts of a row that the
  statements set together, the projection into the event, and the check for the columns of
  migration 029.  A timestamp is its number of seconds; \<open>now()\<close> is an argument.  The JSON
  documents of a row are dictionaries, a timestamp in them a float.
\<close>

section \<open>Rows\<close>

type_synonym json = "(string, pyval) dict"

record evidence_task =
  et_task_id :: string
  et_event_id :: string
  et_source_id :: string
  et_replay_source_id :: "string option"
  et_runtime_epoch_id :: "string option"
  et_priority :: int
  et_status :: string
  et_mat_status :: string
  et_phase :: "string option"
  et_phase_at :: "real option"
  et_owner :: "string option"
  et_ready_at :: "real option"
  et_deadline_at :: "real option"
  et_next_attempt_at :: "real option"
  et_retry_reason :: "string option"
  et_defer_reason :: "string option"
  et_failure_reason :: "string option"
  et_expired_reason :: "string option"
  et_lease_owner :: "string option"
  et_lease_token :: "string option"
  et_lease_generation :: int
  et_lease_expires_at :: "real option"
  et_lease_heartbeat_at :: "real option"
  et_handoff :: json
  et_attempt_count :: int
  et_sink_output_path :: "string option"
  et_clip_path :: "string option"
  et_metadata_path :: "string option"
  et_output_root :: "string option"
  et_last_materialization_at :: "real option"
  et_error_message :: "string option"
  et_audit :: json
  et_cleanup_audit :: json
  et_updated_at :: real

text \<open>The columns of an event that the projection writes; \<open>ep_media\<close> is \<open>payload->'media'\<close>.\<close>

record event_projection =
  ep_media_status :: string
  ep_media :: json
  ep_updated_at :: real

record task_db =
  db_tasks :: "evidence_task list"
  db_events :: "(string, event_projection) dict"

text \<open>
  What the operations take from outside: the texts that Python and the database give values that
  are not strings, the SHA-256 digest of the retry jitter, and whether the connection's
  database has the columns of migration 029.
\<close>

record task_env =
  te_repr :: "pyval \<Rightarrow> string"
  te_json_text :: "pyval \<Rightarrow> string"
  te_digest :: "string \<Rightarrow> nat list"
  te_v2 :: bool

section \<open>Guarded updates\<close>

definition update_where :: "('r \<Rightarrow> bool) \<Rightarrow> ('r \<Rightarrow> 'r) \<Rightarrow> 'r list \<Rightarrow> 'r list" where
  "update_where P f rows = map (\<lambda>r. if P r then f r else r) rows"

definition row_count :: "('r \<Rightarrow> bool) \<Rightarrow> 'r list \<Rightarrow> nat" where
  "row_count P rows = length (filter P rows)"

text \<open>\<open>UPDATE evidence_tasks SET f WHERE P\<close> with \<open>rowcount > 0\<close> as its value.\<close>

definition guarded_update ::
  "(evidence_task \<Rightarrow> bool) \<Rightarrow> (evidence_task \<Rightarrow> evidence_task) \<Rightarrow> task_db \<Rightarrow> bool \<times> task_db" where
  "guarded_update P f db =
     (0 < row_count P (db_tasks db), db\<lparr>db_tasks := update_where P f (db_tasks db)\<rparr>)"

text \<open>\<open>fetchone()\<close> after \<open>SELECT\<close> or \<open>RETURNING\<close>: the first of the rows, if any.\<close>

fun fetch_one :: "('r \<Rightarrow> bool) \<Rightarrow> 'r list \<Rightarrow> 'r option" where
  "fetch_one P [] = None"
| "fetch_one P (r # rs) = (if P r then Some r else fetch_one P rs)"

text \<open>A column compared with \<open>now()\<close>: an absent value never satisfies the comparison.\<close>

definition due :: "real \<Rightarrow> real option \<Rightarrow> bool" where
  "due t c = (case c of None \<Rightarrow> False | Some x \<Rightarrow> x \<le> t)"

definition coalesce :: "'a option \<Rightarrow> 'a option \<Rightarrow> 'a option" where
  "coalesce x y = (case x of None \<Rightarrow> y | Some a \<Rightarrow> Some a)"

text \<open>\<open>NULLIF(s, '')\<close>\<close>

definition null_if_empty :: "string \<Rightarrow> string option" where
  "null_if_empty s = (if s = [] then None else Some s)"

text \<open>\<open>->>\<close> applied to a JSON object.\<close>

definition json_text :: "task_env \<Rightarrow> json \<Rightarrow> string \<Rightarrow> string option" where
  "json_text env d k =
     (case dget_or d k PNone of PNone \<Rightarrow> None | PStr s \<Rightarrow> Some s | v \<Rightarrow> Some (te_json_text env v))"

text \<open>\<open>d->k\<close> as an object, absent when it is not one.\<close>

definition json_object :: "json \<Rightarrow> string \<Rightarrow> json" where
  "json_object d k = (case dget_or d k PNone of PDict o' \<Rightarrow> o' | _ \<Rightarrow> [])"

abbreviation stamp :: "real \<Rightarrow> pyval" where
  "stamp t \<equiv> PFloat (Fin t)"

text \<open>\<open>jsonb_strip_nulls(jsonb_build_object(...))\<close> and the concatenation with \<open>||\<close>.\<close>

definition strip_nulls :: "json \<Rightarrow> json" where
  "strip_nulls = filter (\<lambda>(_, v). v \<noteq> PNone)"

definition json_concat :: "json \<Rightarrow> json \<Rightarrow> json" where
  "json_concat d e = fold (\<lambda>(k, v). dset k v) e d"

definition json_opt :: "string \<Rightarrow> pyval" where
  "json_opt s = (if s = [] then PNone else PStr s)"

section \<open>The lease\<close>

record materialization_lease =
  ml_event_id :: string
  ml_owner :: string
  ml_token :: string
  ml_generation :: int
  ml_phase :: string
  ml_schema_v2 :: bool

text \<open>The predicate of every fenced statement.\<close>

definition has_fence :: "string \<Rightarrow> string \<Rightarrow> int \<Rightarrow> evidence_task \<Rightarrow> bool" where
  "has_fence owner token generation r \<longleftrightarrow>
     et_lease_owner r = Some owner \<and> et_lease_token r = Some token \<and>
     et_lease_generation r = generation"

definition holds_lease :: "materialization_lease \<Rightarrow> evidence_task \<Rightarrow> bool" where
  "holds_lease l r \<longleftrightarrow>
     et_event_id r = ml_event_id l \<and> et_mat_status r = status_value Running \<and>
     has_fence (ml_owner l) (ml_token l) (ml_generation l) r"

definition is_terminal :: "evidence_task \<Rightarrow> bool" where
  "is_terminal r \<longleftrightarrow> et_mat_status r \<in> terminal_materialization_statuses"

definition is_claimable :: "evidence_task \<Rightarrow> bool" where
  "is_claimable r \<longleftrightarrow> et_mat_status r \<in> claimable_materialization_statuses"

section \<open>Groups of columns that the statements set together\<close>

definition free_lease :: "evidence_task \<Rightarrow> evidence_task" where
  "free_lease r = r\<lparr>et_lease_owner := None, et_lease_token := None, et_lease_expires_at := None,
     et_lease_heartbeat_at := None\<rparr>"

definition renew_lease :: "real \<Rightarrow> real \<Rightarrow> evidence_task \<Rightarrow> evidence_task" where
  "renew_lease t lease_seconds r =
     r\<lparr>et_lease_heartbeat_at := Some t, et_lease_expires_at := Some (t + lease_seconds)\<rparr>"

definition enter_phase :: "real \<Rightarrow> materialization_phase \<Rightarrow> evidence_task \<Rightarrow> evidence_task" where
  "enter_phase t phase r = r\<lparr>et_phase := Some (phase_value phase), et_phase_at := Some t\<rparr>"

definition set_status :: "string \<Rightarrow> materialization_status \<Rightarrow> evidence_task \<Rightarrow> evidence_task" where
  "set_status cstatus s r = r\<lparr>et_status := cstatus, et_mat_status := status_value s\<rparr>"

definition set_reasons ::
  "string option \<Rightarrow> string option \<Rightarrow> string option \<Rightarrow> evidence_task \<Rightarrow> evidence_task" where
  "set_reasons deferred failed expired r =
     r\<lparr>et_defer_reason := deferred, et_failure_reason := failed, et_expired_reason := expired\<rparr>"

definition audit_put :: "string \<Rightarrow> json \<Rightarrow> evidence_task \<Rightarrow> evidence_task" where
  "audit_put key entry r = r\<lparr>et_audit := dset key (PDict entry) (et_audit r)\<rparr>"

definition touch :: "real \<Rightarrow> evidence_task \<Rightarrow> evidence_task" where
  "touch t r = r\<lparr>et_updated_at := t\<rparr>"

definition keep_sink :: "string \<Rightarrow> evidence_task \<Rightarrow> evidence_task" where
  "keep_sink path r =
     r\<lparr>et_sink_output_path := coalesce (null_if_empty path) (et_sink_output_path r)\<rparr>"

text \<open>The columns \<open>lifecycle_fields\<close> of the transitions into a terminal status.\<close>

definition close_lifecycle :: "real \<Rightarrow> evidence_task \<Rightarrow> evidence_task" where
  "close_lifecycle t r =
     free_lease ((enter_phase t Terminal r)\<lparr>et_owner := Some ''terminal'', et_next_attempt_at := None,
       et_retry_reason := None\<rparr>)"

lemmas row_defs = free_lease_def renew_lease_def enter_phase_def set_status_def set_reasons_def
  audit_put_def touch_def keep_sink_def close_lifecycle_def

section \<open>The event projection\<close>

definition projected_media :: "real \<Rightarrow> string \<Rightarrow> string \<Rightarrow> string \<Rightarrow> string \<Rightarrow> json" where
  "projected_media t materialization_status phase reason sink_output_path =
     strip_nulls
       [(''evidence_state'', PStr materialization_status),
        (''evidence_reason'', json_opt reason),
        (''evidence_state_updated_at'', stamp t),
        (''materialization_status'', PStr materialization_status),
        (''materialization_phase'', json_opt phase),
        (''materialization_reason'', json_opt reason),
        (''sink_output_path'', json_opt sink_output_path)]"

definition project_event ::
  "real \<Rightarrow> string \<Rightarrow> string \<Rightarrow> string \<Rightarrow> string \<Rightarrow> string \<Rightarrow> task_db \<Rightarrow> task_db" where
  "project_event t event_id materialization_status phase reason sink_output_path db =
     (case dget (db_events db) event_id of
        None \<Rightarrow> db
      | Some e \<Rightarrow>
          db\<lparr>db_events := dset event_id
            \<lparr>ep_media_status = materialization_status,
             ep_media = json_concat (ep_media e)
               (projected_media t materialization_status phase reason sink_output_path),
             ep_updated_at = t\<rparr> (db_events db)\<rparr>)"

text \<open>The common end of a transition: the projection happens when a row was changed.\<close>

definition project_changed ::
  "(task_db \<Rightarrow> task_db) \<Rightarrow> bool \<times> task_db \<Rightarrow> bool \<times> task_db" where
  "project_changed p cd = (if fst cd then (True, p (snd cd)) else cd)"

section \<open>The schema check\<close>

definition required_v2_columns :: "string set" where
  "required_v2_columns =
     {''materialization_phase'', ''materialization_next_attempt_at'',
      ''materialization_retry_reason'', ''materialization_owner'',
      ''materialization_lease_owner'', ''materialization_lease_token'',
      ''materialization_lease_generation'', ''materialization_lease_expires_at'',
      ''materialization_lease_heartbeat_at'', ''materialization_handoff''}"

text \<open>
  The answer is cached per connection object; a query that raises (\<open>None\<close>) counts as an absent
  column.  The query returns those of the required columns that exist.
\<close>

definition supports_lifecycle_v2 ::
  "nat \<Rightarrow> bool \<Rightarrow> string list option \<Rightarrow> (nat, bool) dict \<Rightarrow> bool \<times> (nat, bool) dict" where
  "supports_lifecycle_v2 key refresh columns cache =
     (case dget cache key of
        Some cached \<Rightarrow>
          if \<not> refresh then (cached, cache)
          else (let supported = (case columns of None \<Rightarrow> False
                                | Some cs \<Rightarrow> set cs \<inter> required_v2_columns = required_v2_columns)
                in (supported, dset key supported cache))
      | None \<Rightarrow>
          (let supported = (case columns of None \<Rightarrow> False
                           | Some cs \<Rightarrow> set cs \<inter> required_v2_columns = required_v2_columns)
           in (supported, dset key supported cache)))"

text \<open>A probe that failed once keeps the connection on the old statements, whatever is there.\<close>

lemma failed_probe_sticks:
  assumes "dget cache key = None"
  shows "supports_lifecycle_v2 key False columns (snd (supports_lifecycle_v2 key False None cache)) =
    (False, snd (supports_lifecycle_v2 key False None cache))"
  using assms by (simp add: supports_lifecycle_v2_def Let_def dict_simps)

section \<open>Reasoning about guarded updates\<close>

lemma length_update_where [simp]: "length (update_where P f rows) = length rows"
  by (simp add: update_where_def)

lemma row_count_pos: "0 < row_count P rows \<longleftrightarrow> (\<exists>r \<in> set rows. P r)"
  by (auto simp: row_count_def filter_empty_conv)

lemma update_where_nothing: "\<forall>r \<in> set rows. \<not> P r \<Longrightarrow> update_where P f rows = rows"
  by (auto simp: update_where_def map_idI)

lemma update_where_member: "r \<in> set rows \<Longrightarrow> P r \<Longrightarrow> f r \<in> set (update_where P f rows)"
  by (auto simp: update_where_def intro: rev_image_eqI)

lemma fetch_one_None: "fetch_one P rows = None \<longleftrightarrow> (\<forall>r \<in> set rows. \<not> P r)"
  by (induction rows) auto

lemma fetch_one_Some: "fetch_one P rows = Some r \<Longrightarrow> r \<in> set rows \<and> P r"
  by (induction rows) (auto split: if_splits)

text \<open>A relation that every changed row satisfies, and that is reflexive, relates the tables.\<close>

definition rows_related :: "('r \<Rightarrow> 'r \<Rightarrow> bool) \<Rightarrow> 'r list \<Rightarrow> 'r list \<Rightarrow> bool" where
  "rows_related R rows rows' \<longleftrightarrow> list_all2 R rows rows'"

lemma update_where_related:
  assumes "\<And>r. r \<in> set rows \<Longrightarrow> P r \<Longrightarrow> R r (f r)" and "\<And>r. R r r"
  shows "rows_related R rows (update_where P f rows)"
  using assms by (auto simp: rows_related_def update_where_def list_all2_conv_all_nth)

lemma update_where_all:
  assumes "\<forall>r \<in> set rows. Q r" and "\<And>r. r \<in> set rows \<Longrightarrow> Q r \<Longrightarrow> P r \<Longrightarrow> Q (f r)"
  shows "\<forall>r \<in> set (update_where P f rows). Q r"
  using assms by (auto simp: update_where_def)

lemma db_tasks_project_event [simp]: "db_tasks (project_event t e s p r k db) = db_tasks db"
  by (simp add: project_event_def split: option.splits)

lemma guarded_update_simps [simp]:
  "fst (guarded_update P f db) \<longleftrightarrow> (\<exists>r \<in> set (db_tasks db). P r)"
  "db_tasks (snd (guarded_update P f db)) = update_where P f (db_tasks db)"
  "db_events (snd (guarded_update P f db)) = db_events db"
  by (simp_all add: guarded_update_def row_count_pos)

lemma guarded_update_nothing:
  "\<forall>r \<in> set (db_tasks db). \<not> P r \<Longrightarrow> guarded_update P f db = (False, db)"
  by (simp add: guarded_update_def row_count_def update_where_nothing)

lemma project_changed_simps [simp]:
  "fst (project_changed p cd) = fst cd"
  "(\<And>db. db_tasks (p db) = db_tasks db) \<Longrightarrow>
     db_tasks (snd (project_changed p cd)) = db_tasks (snd cd)"
  by (simp_all add: project_changed_def)

lemma project_changed_False: "project_changed p (False, db) = (False, db)"
  by (simp add: project_changed_def)

end
