(* ===== verification/TaskLeases.thy ===== *)
theory TaskLeases
  imports TaskTable
begin

text \<open>
  The fenced transitions of \<^verbatim>\<open>services/media-worker/app/materialization_repository.py\<close>
  from the claim of a rolling task over retries, failures and deferrals to the handoff to
  finalization.  Every operation is one function from the tables to its result and the tables;
  the guard (\<open>WHERE\<close>) and the new row (\<open>SET\<close>) of a statement are definitions of their own.
  \<open>t\<close> is \<open>now()\<close>, \<open>token\<close> the fresh UUID of a claim.
\<close>

section \<open>Claiming a rolling task\<close>

definition rolling_claim_phases :: "string set" where
  "rolling_claim_phases = {phase_value Image_Running, phase_value Remux_Running}"

definition legacy_claim_guard :: "real \<Rightarrow> string \<Rightarrow> evidence_task \<Rightarrow> bool" where
  "legacy_claim_guard t event_id r \<longleftrightarrow>
     et_event_id r = event_id \<and> is_claimable r \<and> due t (et_ready_at r)"

definition legacy_claim_row :: "real \<Rightarrow> evidence_task \<Rightarrow> evidence_task" where
  "legacy_claim_row t r =
     touch t ((set_status (status_value Running) Running r)
       \<lparr>et_attempt_count := et_attempt_count r + 1, et_defer_reason := None\<rparr>)"

definition rolling_claim_guard :: "real \<Rightarrow> string \<Rightarrow> evidence_task \<Rightarrow> bool" where
  "rolling_claim_guard t event_id r \<longleftrightarrow>
     et_event_id r = event_id \<and> is_claimable r \<and> et_owner r = Some ''rolling'' \<and>
     due t (et_ready_at r) \<and> due t (coalesce (et_next_attempt_at r) (et_ready_at r)) \<and>
     et_lease_token r = None"

definition rolling_claim_row ::
  "real \<Rightarrow> string \<Rightarrow> string \<Rightarrow> string \<Rightarrow> real \<Rightarrow> evidence_task \<Rightarrow> evidence_task" where
  "rolling_claim_row t token worker_id phase lease_seconds r =
     touch t (audit_put ''lifecycle_v2_claim''
       [(''owner'', PStr worker_id), (''token'', PStr token), (''phase'', PStr phase),
        (''claimed_at'', stamp t)]
       (renew_lease t lease_seconds (set_reasons None None None
         ((set_status (compatibility_status_for (status_value Running) (Some phase)) Running r)
           \<lparr>et_phase := Some phase, et_phase_at := Some t, et_owner := Some ''rolling'',
            et_next_attempt_at := None, et_retry_reason := None,
            et_lease_owner := Some worker_id, et_lease_token := Some token,
            et_lease_generation := et_lease_generation r + 1, et_handoff := [],
            et_attempt_count := et_attempt_count r + 1\<rparr>))))"

definition claim_rolling_task ::
  "task_env \<Rightarrow> real \<Rightarrow> string \<Rightarrow> string \<Rightarrow> string \<Rightarrow> string \<Rightarrow> real \<Rightarrow> task_db \<Rightarrow>
   (materialization_lease option \<times> task_db) result" where
  "claim_rolling_task env t token event_id worker_id phase lease_seconds db =
     (if phase \<notin> rolling_claim_phases then
        Inl (Value_Error (''invalid rolling claim phase: '' @ phase))
      else if \<not> te_v2 env then
        (let guard = legacy_claim_guard t event_id; f = legacy_claim_row t
         in case fetch_one guard (db_tasks db) of
              None \<Rightarrow> Inr (None, snd (guarded_update guard f db))
            | Some r \<Rightarrow>
                Inr (Some \<lparr>ml_event_id = event_id, ml_owner = worker_id, ml_token = [],
                       ml_generation = et_attempt_count (f r), ml_phase = phase,
                       ml_schema_v2 = False\<rparr>,
                     project_event t event_id (status_value Running) phase [] []
                       (snd (guarded_update guard f db))))
      else
        (let guard = rolling_claim_guard t event_id;
             f = rolling_claim_row t token worker_id phase (max 1 lease_seconds)
         in case fetch_one guard (db_tasks db) of
              None \<Rightarrow> Inr (None, snd (guarded_update guard f db))
            | Some r \<Rightarrow>
                Inr (Some \<lparr>ml_event_id = event_id, ml_owner = worker_id, ml_token = token,
                       ml_generation = et_lease_generation (f r), ml_phase = phase,
                       ml_schema_v2 = True\<rparr>,
                     project_event t event_id (status_value Running) phase [] []
                       (snd (guarded_update guard f db)))))"

section \<open>Renewing and reading a lease\<close>

definition heartbeat_lease ::
  "real \<Rightarrow> materialization_lease \<Rightarrow> real \<Rightarrow> task_db \<Rightarrow> bool \<times> task_db" where
  "heartbeat_lease t l lease_seconds db =
     (if \<not> ml_schema_v2 l then (True, db)
      else guarded_update (holds_lease l)
        (\<lambda>r. touch t (renew_lease t (max 1 lease_seconds) r)) db)"

definition str_or :: "string option \<Rightarrow> string \<Rightarrow> string" where
  "str_or c d = (case c of None \<Rightarrow> d | Some s \<Rightarrow> if s = [] then d else s)"

definition current_lease_guard :: "string \<Rightarrow> evidence_task \<Rightarrow> bool" where
  "current_lease_guard event_id r \<longleftrightarrow>
     et_event_id r = event_id \<and> et_mat_status r = status_value Running \<and>
     et_lease_owner r \<noteq> None \<and> et_lease_token r \<noteq> None"

definition current_lease ::
  "task_env \<Rightarrow> string \<Rightarrow> string \<Rightarrow> string \<Rightarrow> task_db \<Rightarrow> materialization_lease option" where
  "current_lease env event_id fallback_owner fallback_phase db =
     (if \<not> te_v2 env then
        map_option (\<lambda>r. \<lparr>ml_event_id = event_id, ml_owner = fallback_owner, ml_token = [],
            ml_generation = max 1 (et_attempt_count r), ml_phase = fallback_phase,
            ml_schema_v2 = False\<rparr>)
          (fetch_one (\<lambda>r. et_event_id r = event_id \<and> et_mat_status r = status_value Running)
            (db_tasks db))
      else
        map_option (\<lambda>r. \<lparr>ml_event_id = event_id, ml_owner = str_or (et_lease_owner r) [],
            ml_token = str_or (et_lease_token r) [], ml_generation = et_lease_generation r,
            ml_phase = str_or (et_phase r) fallback_phase, ml_schema_v2 = True\<rparr>)
          (fetch_one (current_lease_guard event_id) (db_tasks db)))"

section \<open>Failing\<close>

text \<open>The code written for a failure: the normalized one, or the text when it is unknown.\<close>

definition failure_code :: "task_env \<Rightarrow> string \<Rightarrow> string" where
  "failure_code env reason =
     (let code = rc_code (classify_reason (te_repr env) (PStr reason))
      in if code \<noteq> reason_value Unknown_Reason then code
         else if reason = [] then status_value Failed else reason)"

definition fail_row_legacy :: "real \<Rightarrow> string \<Rightarrow> evidence_task \<Rightarrow> evidence_task" where
  "fail_row_legacy t code r =
     touch t ((set_status (status_value Failed) Failed r)
       \<lparr>et_defer_reason := None, et_failure_reason := Some code, et_error_message := Some code\<rparr>)"

definition fail_row :: "real \<Rightarrow> string \<Rightarrow> string \<Rightarrow> evidence_task \<Rightarrow> evidence_task" where
  "fail_row t code reason r =
     touch t (audit_put ''lifecycle_v2_failure''
       [(''reason_code'', PStr code), (''detail'', PStr reason), (''failed_at'', stamp t)]
       ((set_reasons None (Some code) None
          (close_lifecycle t (set_status (status_value Failed) Failed r)))
         \<lparr>et_handoff := [], et_error_message := Some code\<rparr>))"

definition running_of :: "string \<Rightarrow> evidence_task \<Rightarrow> bool" where
  "running_of event_id r \<longleftrightarrow> et_event_id r = event_id \<and> et_mat_status r = status_value Running"

definition fail_rolling_task ::
  "task_env \<Rightarrow> real \<Rightarrow> materialization_lease \<Rightarrow> string \<Rightarrow> task_db \<Rightarrow> bool \<times> task_db" where
  "fail_rolling_task env t l reason db =
     (let code = failure_code env reason
      in project_changed
           (project_event t (ml_event_id l) (status_value Failed) (phase_value Terminal) code [])
           (if \<not> ml_schema_v2 l then
              guarded_update (running_of (ml_event_id l)) (fail_row_legacy t code) db
            else guarded_update (holds_lease l) (fail_row t code reason) db))"

text \<open>Rows without a lease, in the two schemas, for the transitions of unclaimed tasks.\<close>

definition open_unfenced :: "bool \<Rightarrow> string \<Rightarrow> evidence_task \<Rightarrow> bool" where
  "open_unfenced v2 event_id r \<longleftrightarrow>
     et_event_id r = event_id \<and> \<not> is_terminal r \<and> (v2 \<longrightarrow> et_lease_token r = None)"

definition close_fields :: "bool \<Rightarrow> real \<Rightarrow> evidence_task \<Rightarrow> evidence_task" where
  "close_fields v2 t r = (if v2 then (close_lifecycle t r)\<lparr>et_handoff := []\<rparr> else r)"

definition fail_unclaimed_row ::
  "bool \<Rightarrow> real \<Rightarrow> string \<Rightarrow> string \<Rightarrow> evidence_task \<Rightarrow> evidence_task" where
  "fail_unclaimed_row v2 t code sink r =
     touch t ((keep_sink sink (set_reasons None (Some code) None
       (close_fields v2 t (set_status (status_value Failed) Failed r))))
         \<lparr>et_error_message := Some code\<rparr>)"

definition fail_unclaimed_task ::
  "task_env \<Rightarrow> real \<Rightarrow> string \<Rightarrow> string \<Rightarrow> string \<Rightarrow> task_db \<Rightarrow> bool \<times> task_db" where
  "fail_unclaimed_task env t event_id reason sink db =
     (let code = failure_code env reason
      in project_changed
           (project_event t event_id (status_value Failed) (phase_value Terminal) code sink)
           (guarded_update (open_unfenced (te_v2 env) event_id)
             (fail_unclaimed_row (te_v2 env) t code sink) db))"

section \<open>Deferring\<close>

definition defer_row ::
  "bool \<Rightarrow> real \<Rightarrow> string \<Rightarrow> string \<Rightarrow> evidence_task \<Rightarrow> evidence_task" where
  "defer_row v2 t code sink r =
     touch t ((keep_sink sink (set_reasons (Some code) None None
       (close_fields v2 t (set_status (status_value Deferred) Deferred r))))
         \<lparr>et_error_message := Some code\<rparr>)"

definition defer_guard ::
  "bool \<Rightarrow> string \<Rightarrow> materialization_lease option \<Rightarrow> evidence_task \<Rightarrow> bool" where
  "defer_guard v2 event_id lo r \<longleftrightarrow>
     et_event_id r = event_id \<and> \<not> is_terminal r \<and>
     (v2 \<longrightarrow> (case lo of None \<Rightarrow> et_lease_token r = None
               | Some l \<Rightarrow> has_fence (ml_owner l) (ml_token l) (ml_generation l) r))"

definition defer_terminal_task ::
  "task_env \<Rightarrow> real \<Rightarrow> string \<Rightarrow> string \<Rightarrow> string \<Rightarrow> materialization_lease option \<Rightarrow> task_db \<Rightarrow>
   (bool \<times> task_db) result" where
  "defer_terminal_task env t event_id reason sink lo db =
     (let cl = classify_reason (te_repr env) (PStr reason);
          code = (if rc_code cl \<noteq> reason_value Unknown_Reason then rc_code cl else reason)
      in if rc_retryable cl then
           Inl (Value_Error (''retryable reason cannot become terminal deferred: '' @ rc_code cl))
         else Inr (project_changed
           (project_event t event_id (status_value Deferred) (phase_value Terminal) code sink)
           (guarded_update (defer_guard (te_v2 env) event_id lo)
             (defer_row (te_v2 env) t code sink) db)))"

section \<open>Retrying\<close>

definition retry_row_legacy :: "real \<Rightarrow> string \<Rightarrow> evidence_task \<Rightarrow> evidence_task" where
  "retry_row_legacy t code r =
     touch t ((set_status (status_value Pending) Pending r)
       \<lparr>et_defer_reason := None, et_error_message := Some code\<rparr>)"

definition retry_audit :: "real \<Rightarrow> string \<Rightarrow> string \<Rightarrow> real \<Rightarrow> json" where
  "retry_audit t code reason delay_s =
     [(''reason_code'', PStr code), (''detail'', PStr reason), (''delay_s'', PFloat (Fin delay_s)),
      (''scheduled_at'', stamp t)]"

definition retry_row ::
  "real \<Rightarrow> materialization_phase \<Rightarrow> string \<Rightarrow> string \<Rightarrow> real \<Rightarrow> evidence_task \<Rightarrow> evidence_task" where
  "retry_row t phase code reason delay_s r =
     touch t (audit_put ''lifecycle_v2_retry'' (retry_audit t code reason delay_s)
       ((free_lease (set_reasons None None None
          (enter_phase t phase (set_status (status_value Pending) Pending r))))
         \<lparr>et_owner := Some ''rolling'', et_next_attempt_at := Some (t + delay_s),
          et_retry_reason := Some code, et_handoff := [], et_error_message := Some code\<rparr>))"

definition retry_phase :: "reason_classification \<Rightarrow> materialization_phase" where
  "retry_phase cl = (if rc_error_class cl = Not_Ready then Waiting_Coverage else Waiting_Ready)"

definition retry_rolling_task ::
  "task_env \<Rightarrow> real \<Rightarrow> materialization_lease \<Rightarrow> string \<Rightarrow> real \<Rightarrow> task_db \<Rightarrow> (bool \<times> task_db) result" where
  "retry_rolling_task env t l reason retry_hint_s db =
     (let cl = classify_reason (te_repr env) (PStr reason)
      in if \<not> rc_retryable cl then Inr (fail_rolling_task env t l reason db)
         else rbind (retry_delay_seconds (te_digest env) (max 1 (ml_generation l)) retry_hint_s
                       (ml_event_id l))
           (\<lambda>delay_s. Inr (project_changed
              (project_event t (ml_event_id l) (status_value Pending)
                (phase_value (retry_phase cl)) (rc_code cl) [])
              (if \<not> ml_schema_v2 l then
                 guarded_update (running_of (ml_event_id l)) (retry_row_legacy t (rc_code cl)) db
               else guarded_update (holds_lease l)
                 (retry_row t (retry_phase cl) (rc_code cl) reason delay_s) db))))"

text \<open>
  A finalizer retry keeps the handoff; capacity retries count as a first attempt, so that their
  delay does not grow.
\<close>

definition finalizer_phase :: "evidence_task \<Rightarrow> bool" where
  "finalizer_phase r \<longleftrightarrow>
     et_phase r \<in> {Some (phase_value Finalizer_Pending), Some (phase_value Finalizing)}"

definition finalizer_retry_guard :: "materialization_lease \<Rightarrow> evidence_task \<Rightarrow> bool" where
  "finalizer_retry_guard l r \<longleftrightarrow> holds_lease l r \<and> finalizer_phase r \<and> et_handoff r \<noteq> []"

definition finalizer_retry_row ::
  "real \<Rightarrow> string \<Rightarrow> string \<Rightarrow> real \<Rightarrow> evidence_task \<Rightarrow> evidence_task" where
  "finalizer_retry_row t code reason delay_s r =
     touch t (audit_put ''lifecycle_v2_finalizer_retry'' (retry_audit t code reason delay_s)
       ((free_lease (set_status ''finalizing'' Running r))
         \<lparr>et_phase := Some (phase_value Finalizer_Pending),
          et_phase_at := (if et_phase r = Some (phase_value Finalizer_Pending) then et_phase_at r
                          else Some t),
          et_owner := Some ''media_finalizer'', et_next_attempt_at := Some (t + delay_s),
          et_retry_reason := Some code, et_defer_reason := None, et_error_message := Some code\<rparr>))"

definition finalizer_delay_attempt :: "reason_classification \<Rightarrow> int \<Rightarrow> int" where
  "finalizer_delay_attempt cl n =
     (if rc_code cl = reason_value Capacity_Unavailable then 1 else max 1 n)"

definition retry_finalizer_handoff ::
  "task_env \<Rightarrow> real \<Rightarrow> materialization_lease \<Rightarrow> string \<Rightarrow> real \<Rightarrow> task_db \<Rightarrow> (bool \<times> task_db) result" where
  "retry_finalizer_handoff env t l reason retry_hint_s db =
     (let cl = classify_reason (te_repr env) (PStr reason)
      in if \<not> rc_retryable cl then Inr (fail_rolling_task env t l reason db)
         else if \<not> ml_schema_v2 l then retry_rolling_task env t l reason retry_hint_s db
         else rbind (retry_delay_seconds (te_digest env)
                       (finalizer_delay_attempt cl (ml_generation l)) retry_hint_s (ml_event_id l))
           (\<lambda>delay_s. Inr (project_changed
              (project_event t (ml_event_id l) (status_value Running)
                (phase_value Finalizer_Pending) (rc_code cl) [])
              (guarded_update (finalizer_retry_guard l)
                (finalizer_retry_row t (rc_code cl) reason delay_s) db))))"

definition unclaimed_retry_guard :: "string \<Rightarrow> evidence_task \<Rightarrow> bool" where
  "unclaimed_retry_guard event_id r \<longleftrightarrow>
     et_event_id r = event_id \<and> is_claimable r \<and> et_lease_token r = None"

definition unclaimed_retry_row ::
  "real \<Rightarrow> string \<Rightarrow> string \<Rightarrow> real \<Rightarrow> evidence_task \<Rightarrow> evidence_task" where
  "unclaimed_retry_row t code sink delay_s r =
     touch t ((keep_sink sink (set_reasons None None None
       (enter_phase t Waiting_Ready (set_status (status_value Pending) Pending r))))
         \<lparr>et_owner := (if sink \<noteq> [] then Some ''media_finalizer'' else et_owner r),
          et_next_attempt_at := Some (t + delay_s), et_retry_reason := Some code,
          et_error_message := Some code\<rparr>)"

definition schedule_unclaimed_retry ::
  "task_env \<Rightarrow> real \<Rightarrow> string \<Rightarrow> string \<Rightarrow> real \<Rightarrow> string \<Rightarrow> task_db \<Rightarrow> (bool \<times> task_db) result" where
  "schedule_unclaimed_retry env t event_id reason retry_hint_s sink db =
     (let cl = classify_reason (te_repr env) (PStr reason);
          project = project_event t event_id (status_value Pending) (phase_value Waiting_Ready)
                      (rc_code cl) sink
      in if \<not> rc_retryable cl then Inr (fail_unclaimed_task env t event_id reason sink db)
         else if \<not> te_v2 env then
           Inr (project_changed project
             (guarded_update (\<lambda>r. et_event_id r = event_id \<and> is_claimable r)
               (\<lambda>r. keep_sink sink (retry_row_legacy t (rc_code cl) r)) db))
         else case fetch_one (unclaimed_retry_guard event_id) (db_tasks db) of
             None \<Rightarrow> Inr (False, db)
           | Some r \<Rightarrow>
               rbind (retry_delay_seconds (te_digest env) (max 1 (et_attempt_count r)) retry_hint_s
                        event_id)
                 (\<lambda>delay_s. Inr (project_changed project
                    (guarded_update (unclaimed_retry_guard event_id)
                      (unclaimed_retry_row t (rc_code cl) sink delay_s) db))))"

definition queued_handoff :: "evidence_task \<Rightarrow> bool" where
  "queued_handoff r \<longleftrightarrow>
     et_mat_status r = status_value Running \<and> et_phase r = Some (phase_value Finalizer_Pending) \<and>
     et_handoff r \<noteq> []"

definition unclaimed_handoff_guard :: "string \<Rightarrow> evidence_task \<Rightarrow> bool" where
  "unclaimed_handoff_guard event_id r \<longleftrightarrow>
     et_event_id r = event_id \<and> queued_handoff r \<and> et_lease_token r = None"

definition unclaimed_handoff_row ::
  "real \<Rightarrow> string \<Rightarrow> string \<Rightarrow> real \<Rightarrow> evidence_task \<Rightarrow> evidence_task" where
  "unclaimed_handoff_row t code reason delay_s r =
     touch t (audit_put ''lifecycle_v2_finalizer_retry''
       (retry_audit t code reason delay_s @ [(''lease_state'', PStr ''unclaimed'')])
       ((set_status ''finalizing'' Running r)
         \<lparr>et_phase := Some (phase_value Finalizer_Pending), et_owner := Some ''media_finalizer'',
          et_next_attempt_at := Some (t + delay_s), et_retry_reason := Some code,
          et_defer_reason := None, et_error_message := Some code\<rparr>))"

definition retry_unclaimed_finalizer_handoff ::
  "task_env \<Rightarrow> real \<Rightarrow> string \<Rightarrow> string \<Rightarrow> real \<Rightarrow> task_db \<Rightarrow> (bool \<times> task_db) result" where
  "retry_unclaimed_finalizer_handoff env t event_id reason retry_hint_s db =
     (let cl = classify_reason (te_repr env) (PStr reason)
      in if \<not> rc_retryable cl then Inr (fail_unclaimed_task env t event_id reason [] db)
         else if \<not> te_v2 env then schedule_unclaimed_retry env t event_id reason retry_hint_s [] db
         else case fetch_one (unclaimed_handoff_guard event_id) (db_tasks db) of
             None \<Rightarrow> Inr (False, db)
           | Some r \<Rightarrow>
               rbind (retry_delay_seconds (te_digest env)
                        (finalizer_delay_attempt cl
                          (if et_attempt_count r = 0 then 1 else et_attempt_count r))
                        retry_hint_s event_id)
                 (\<lambda>delay_s. Inr (project_changed
                    (project_event t event_id (status_value Running)
                      (phase_value Finalizer_Pending) (rc_code cl) [])
                    (guarded_update (unclaimed_handoff_guard event_id)
                      (unclaimed_handoff_row t (rc_code cl) reason delay_s) db))))"

section \<open>Handing over to finalization\<close>

definition handoff_required :: "string list" where
  "handoff_required =
     [''attempt_token'', ''source_id'', ''runtime_epoch_id'', ''requested_window'',
      ''selected_segment_ids'', ''staging_path'', ''canonical_path'', ''size'', ''mtime_ns'']"

definition handoff_missing :: "json \<Rightarrow> string list" where
  "handoff_missing handoff = sorted_strings (filter (\<lambda>k. dget handoff k = None) handoff_required)"

definition handoff_blank :: "task_env \<Rightarrow> json \<Rightarrow> string \<Rightarrow> bool" where
  "handoff_blank env handoff k \<longleftrightarrow>
     py_strip (str_or_empty (te_repr env) (dget_or handoff k PNone)) = []"

definition check_handoff :: "task_env \<Rightarrow> json \<Rightarrow> unit result" where
  "check_handoff env handoff =
     (if handoff_missing handoff \<noteq> [] then
        Inl (Value_Error (''materialization handoff missing fields: '' @
          py_join '','' (handoff_missing handoff)))
      else case filter (handoff_blank env handoff)
             [''attempt_token'', ''source_id'', ''runtime_epoch_id''] of
          [] \<Rightarrow> Inr ()
        | k # _ \<Rightarrow> Inl (Value_Error (''materialization handoff has empty field: '' @ k)))"

definition handoff_guard :: "materialization_lease \<Rightarrow> evidence_task \<Rightarrow> bool" where
  "handoff_guard l r \<longleftrightarrow> holds_lease l r \<and> et_phase r = Some (ml_phase l)"

definition handoff_row ::
  "task_env \<Rightarrow> real \<Rightarrow> string \<Rightarrow> json \<Rightarrow> real \<Rightarrow> evidence_task \<Rightarrow> evidence_task" where
  "handoff_row env t sink handoff lease_seconds r =
     touch t (audit_put ''lifecycle_v2_handoff''
       [(''attempt_token'', PStr (py_str (te_repr env) (dget_or handoff ''attempt_token'' PNone))),
        (''persisted_at'', stamp t)]
       (renew_lease t lease_seconds
         ((enter_phase t Finalizer_Pending (set_status ''finalizing'' Running r))
           \<lparr>et_owner := Some ''media_finalizer'', et_sink_output_path := Some sink,
            et_handoff := handoff\<rparr>)))"

definition persist_finalizer_handoff ::
  "task_env \<Rightarrow> real \<Rightarrow> materialization_lease \<Rightarrow> string \<Rightarrow> json \<Rightarrow> real \<Rightarrow> task_db \<Rightarrow>
   (bool \<times> task_db) result" where
  "persist_finalizer_handoff env t l sink handoff lease_seconds db =
     (if \<not> ml_schema_v2 l then Inr (True, db)
      else rbind (check_handoff env handoff) (\<lambda>_. Inr (project_changed
        (project_event t (ml_event_id l) (status_value Running) (phase_value Finalizer_Pending) [] sink)
        (guarded_update (handoff_guard l)
          (handoff_row env t sink handoff (max 1 lease_seconds)) db))))"

end
