(* ===== verification/TaskFinalize.thy ===== *)
theory TaskFinalize
  imports TaskLeases "HOL-Library.Product_Lexorder"
begin

text \<open>
  The second half of \<^verbatim>\<open>services/media-worker/app/materialization_repository.py\<close>: the claim of
  a finalizer, the committed outcome, the cleanup of sink files, the queries over the durable
  finalizer queue, and the recovery pass over deadlines and expired leases.
\<close>

section \<open>Claiming a finalizer\<close>

text \<open>The dictionary that the claim returns; \<open>claimed\<close> is \<open>status == 'claimed'\<close>.\<close>

record finalizer_claim =
  fc_status :: string
  fc_lease :: "materialization_lease option"

definition fc_claimed :: "finalizer_claim \<Rightarrow> bool" where
  "fc_claimed c \<longleftrightarrow> fc_status c = ''claimed''"

text \<open>
  The status of a claim that changed nothing, from the rows of the event: for the generic claim
  some terminal row decides, for the transfer of a known lease the row that was fetched.
\<close>

definition unclaimed_status :: "string \<Rightarrow> evidence_task list \<Rightarrow> string" where
  "unclaimed_status event_id rows =
     (if \<exists>r \<in> set rows. et_event_id r = event_id \<and> is_terminal r then ''terminal''
      else if \<exists>r \<in> set rows. et_event_id r = event_id then ''busy''
      else ''missing'')"

definition transfer_status :: "string \<Rightarrow> evidence_task list \<Rightarrow> string" where
  "transfer_status event_id rows =
     (case fetch_one (\<lambda>r. et_event_id r = event_id) rows of
        None \<Rightarrow> ''missing''
      | Some r \<Rightarrow> if is_terminal r then ''terminal'' else ''busy'')"

text \<open>
  \<open>FOR UPDATE SKIP LOCKED\<close> passes over the rows that another transaction holds, which is
  the argument \<open>locked\<close>.  The candidates are selected by row, the update by the event of a
  candidate.
\<close>

definition legacy_finalizer_candidate ::
  "(evidence_task \<Rightarrow> bool) \<Rightarrow> string \<Rightarrow> evidence_task \<Rightarrow> bool" where
  "legacy_finalizer_candidate locked event_id r \<longleftrightarrow>
     et_event_id r = event_id \<and> \<not> is_terminal r \<and> \<not> locked r"

definition legacy_finalizer_row :: "real \<Rightarrow> string \<Rightarrow> evidence_task \<Rightarrow> evidence_task" where
  "legacy_finalizer_row t sink r =
     touch t ((set_status ''finalizing'' Running r)\<lparr>et_sink_output_path := Some sink\<rparr>)"

definition finalizer_claim_legacy ::
  "real \<Rightarrow> (evidence_task \<Rightarrow> bool) \<Rightarrow> string \<Rightarrow> string \<Rightarrow> string \<Rightarrow> task_db \<Rightarrow>
   finalizer_claim \<times> task_db" where
  "finalizer_claim_legacy t locked event_id sink worker_id db =
     (case fetch_one (legacy_finalizer_candidate locked event_id) (db_tasks db) of
        None \<Rightarrow> (\<lparr>fc_status = unclaimed_status event_id (db_tasks db), fc_lease = None\<rparr>, db)
      | Some _ \<Rightarrow>
          (\<lparr>fc_status = ''claimed'',
            fc_lease = Some \<lparr>ml_event_id = event_id, ml_owner = worker_id, ml_token = [],
              ml_generation = 1, ml_phase = phase_value Finalizing, ml_schema_v2 = False\<rparr>\<rparr>,
           snd (guarded_update (\<lambda>r. et_event_id r = event_id) (legacy_finalizer_row t sink) db)))"

text \<open>The columns that both ways of claiming set; the token and the generation are arguments.\<close>

definition finalizer_claim_row ::
  "real \<Rightarrow> string \<Rightarrow> string \<Rightarrow> real \<Rightarrow> json \<Rightarrow> string \<Rightarrow> int \<Rightarrow> evidence_task \<Rightarrow> evidence_task" where
  "finalizer_claim_row t sink worker_id lease_seconds mode token generation r =
     touch t (audit_put ''lifecycle_v2_finalizer_claim''
       ([(''worker_id'', PStr worker_id), (''claimed_at'', stamp t)] @ mode)
       (renew_lease t lease_seconds
         ((enter_phase t Finalizing (set_status ''finalizing'' Running r))
           \<lparr>et_owner := Some ''media_finalizer'', et_sink_output_path := Some sink,
            et_next_attempt_at := None, et_retry_reason := None, et_defer_reason := None,
            et_lease_owner := Some worker_id, et_lease_token := Some token,
            et_lease_generation := generation\<rparr>)))"

text \<open>The transfer of a known lease, under a lock on its exact fence.\<close>

definition check_expected_lease :: "string \<Rightarrow> materialization_lease \<Rightarrow> unit result" where
  "check_expected_lease event_id l =
     (if ml_event_id l \<noteq> event_id then
        Inl (Value_Error ''finalizer expected lease event_id mismatch'')
      else if \<not> ml_schema_v2 l then
        Inl (Value_Error ''finalizer expected lease must use lifecycle v2'')
      else if ml_token l = [] \<or> ml_generation l \<le> 0 then
        Inl (Value_Error ''finalizer expected lease fence is incomplete'')
      else Inr ())"

definition transfer_guard :: "task_env \<Rightarrow> materialization_lease \<Rightarrow> evidence_task \<Rightarrow> bool" where
  "transfer_guard env l r \<longleftrightarrow>
     et_event_id r = ml_event_id l \<and> queued_handoff r \<and>
     json_text env (et_handoff r) ''attempt_token'' = Some (ml_token l) \<and>
     has_fence (ml_owner l) (ml_token l) (ml_generation l) r"

definition finalizer_transfer ::
  "task_env \<Rightarrow> real \<Rightarrow> string \<Rightarrow> string \<Rightarrow> real \<Rightarrow> materialization_lease \<Rightarrow> task_db \<Rightarrow>
   finalizer_claim \<times> task_db" where
  "finalizer_transfer env t sink worker_id lease_seconds l db =
     (let e = ml_event_id l;
          locked = (\<exists>r \<in> set (db_tasks db). et_event_id r = e \<and>
                      has_fence (ml_owner l) (ml_token l) (ml_generation l) r);
          f = finalizer_claim_row t sink worker_id lease_seconds
                [(''claim_mode'', PStr ''exact_handoff_transfer'')] (ml_token l) (ml_generation l);
          claim_row = (if locked then fetch_one (transfer_guard env l) (db_tasks db) else None)
      in case claim_row of
           None \<Rightarrow> (\<lparr>fc_status = transfer_status e (db_tasks db), fc_lease = None\<rparr>, db)
         | Some r \<Rightarrow>
             (\<lparr>fc_status = ''claimed'',
               fc_lease = Some \<lparr>ml_event_id = e, ml_owner = worker_id,
                 ml_token = str_or (et_lease_token (f r)) [],
                 ml_generation = et_lease_generation (f r), ml_phase = phase_value Finalizing,
                 ml_schema_v2 = True\<rparr>\<rparr>,
              project_event t e (status_value Running) (phase_value Finalizing) [] sink
                (snd (guarded_update (transfer_guard env l) f db))))"

text \<open>The generic claim: a row without a lease, or a queued handoff whose token is the lease's.\<close>

definition finalizer_candidate ::
  "task_env \<Rightarrow> real \<Rightarrow> (evidence_task \<Rightarrow> bool) \<Rightarrow> string \<Rightarrow> evidence_task \<Rightarrow> bool" where
  "finalizer_candidate env t locked event_id r \<longleftrightarrow>
     et_event_id r = event_id \<and> \<not> is_terminal r \<and>
     (et_lease_token r = None \<or>
      (et_phase r = Some (phase_value Finalizer_Pending) \<and> et_handoff r \<noteq> [] \<and>
       json_text env (et_handoff r) ''attempt_token'' = et_lease_token r)) \<and>
     due t (coalesce (et_next_attempt_at r) (coalesce (et_ready_at r) (Some t))) \<and> \<not> locked r"

definition finalizer_claim_generic ::
  "task_env \<Rightarrow> real \<Rightarrow> (evidence_task \<Rightarrow> bool) \<Rightarrow> string \<Rightarrow> string \<Rightarrow> string \<Rightarrow> string \<Rightarrow> real \<Rightarrow> task_db \<Rightarrow>
   finalizer_claim \<times> task_db" where
  "finalizer_claim_generic env t locked new_token event_id sink worker_id lease_seconds db =
     (case fetch_one (finalizer_candidate env t locked event_id) (db_tasks db) of
        None \<Rightarrow> (\<lparr>fc_status = unclaimed_status event_id (db_tasks db), fc_lease = None\<rparr>, db)
      | Some c \<Rightarrow>
          (let token = (case et_lease_token c of None \<Rightarrow> new_token | Some k \<Rightarrow> k);
               f = (\<lambda>r. finalizer_claim_row t sink worker_id lease_seconds [] token
                      (if et_lease_token c = None then et_lease_generation r + 1
                       else et_lease_generation r) r);
               db' = snd (guarded_update (\<lambda>r. et_event_id r = event_id) f db)
           in (\<lparr>fc_status = ''claimed'',
                fc_lease = map_option (\<lambda>r. \<lparr>ml_event_id = event_id, ml_owner = worker_id,
                    ml_token = str_or (et_lease_token r) [],
                    ml_generation = et_lease_generation r, ml_phase = phase_value Finalizing,
                    ml_schema_v2 = True\<rparr>)
                  (fetch_one (\<lambda>r. et_event_id r = event_id) (db_tasks db'))\<rparr>,
               project_event t event_id (status_value Running) (phase_value Finalizing) [] sink db')))"

definition claim_finalizer_task ::
  "task_env \<Rightarrow> real \<Rightarrow> (evidence_task \<Rightarrow> bool) \<Rightarrow> string \<Rightarrow> string \<Rightarrow> string \<Rightarrow> string \<Rightarrow> real \<Rightarrow>
   materialization_lease option \<Rightarrow> task_db \<Rightarrow> (finalizer_claim \<times> task_db) result" where
  "claim_finalizer_task env t locked new_token event_id sink worker_id lease_seconds expected db =
     (if \<not> te_v2 env then Inr (finalizer_claim_legacy t locked event_id sink worker_id db)
      else case expected of
          Some l \<Rightarrow> rbind (check_expected_lease event_id l)
            (\<lambda>_. Inr (finalizer_transfer env t sink worker_id (max 1 lease_seconds) l db))
        | None \<Rightarrow> Inr (finalizer_claim_generic env t locked new_token event_id sink worker_id
                     (max 1 lease_seconds) db))"

section \<open>Committing the outcome\<close>

definition outcome_statuses :: "string set" where
  "outcome_statuses = {status_value Materialized, status_value Failed}"

definition outcome_guard :: "materialization_lease \<Rightarrow> evidence_task \<Rightarrow> bool" where
  "outcome_guard l r \<longleftrightarrow>
     (if ml_schema_v2 l then holds_lease l r else running_of (ml_event_id l) r)"

definition outcome_row ::
  "real \<Rightarrow> bool \<Rightarrow> string \<Rightarrow> string \<Rightarrow> string \<Rightarrow> string \<Rightarrow> string \<Rightarrow> evidence_task \<Rightarrow> evidence_task" where
  "outcome_row t v2 status code clip metadata out_root r =
     (let r1 = r\<lparr>et_status := status, et_mat_status := status\<rparr>;
          r2 = (if v2 then close_lifecycle t r1 else r1)
      in touch t (set_reasons None
           (if status = status_value Failed then null_if_empty code else None) None
           (r2\<lparr>et_clip_path := coalesce (null_if_empty clip) (et_clip_path r),
              et_metadata_path := coalesce (null_if_empty metadata) (et_metadata_path r),
              et_output_root := coalesce (null_if_empty out_root) (et_output_root r),
              et_last_materialization_at :=
                (if status = status_value Materialized then Some t else et_last_materialization_at r),
              et_error_message :=
                (if code \<noteq> [] then Some code
                 else if status = status_value Materialized then None else et_error_message r)\<rparr>)))"

definition complete_finalizer_task ::
  "task_env \<Rightarrow> real \<Rightarrow> materialization_lease \<Rightarrow> string \<Rightarrow> string \<Rightarrow> string \<Rightarrow> string \<Rightarrow> string \<Rightarrow>
   task_db \<Rightarrow> (bool \<times> task_db) result" where
  "complete_finalizer_task env t l status reason clip metadata out_root db =
     (if status \<notin> outcome_statuses then
        Inl (Value_Error (''invalid finalizer terminal status: '' @ status))
      else
        (let code = (if status = status_value Failed then failure_code env reason else []);
             upd = guarded_update (outcome_guard l)
                     (outcome_row t (ml_schema_v2 l) status code clip metadata out_root) db;
             res = project_changed
                     (project_event t (ml_event_id l) status (phase_value Terminal) code []) upd
         in Inr (fst res \<and> dget (db_events db) (ml_event_id l) \<noteq> None, snd res)))"

section \<open>Cleanup of sink files\<close>

definition cleanup_outcomes :: "string set" where
  "cleanup_outcomes = {''deleted'', ''disabled'', ''skipped'', ''missing'', ''cleanup_pending''}"

definition all_digits :: "string \<Rightarrow> bool" where
  "all_digits s \<longleftrightarrow> s \<noteq> [] \<and> list_all is_digit s"

definition cleanup_attempts :: "task_env \<Rightarrow> evidence_task \<Rightarrow> string option" where
  "cleanup_attempts env r =
     json_text env (json_object (et_cleanup_audit r) ''sink_output'') ''attempt_count''"

text \<open>\<open>Inl\<close> is the database's error for a number that is not a 32-bit integer.\<close>

definition next_cleanup_attempt :: "task_env \<Rightarrow> evidence_task \<Rightarrow> int result" where
  "next_cleanup_attempt env r =
     (case cleanup_attempts env r of
        None \<Rightarrow> Inr 1
      | Some s \<Rightarrow>
          if all_digits s then
            (let n = foldl (\<lambda>a c. a * 10 + int (digit_val c)) 0 s
             in if n + 1 < 2 ^ 31 then Inr (n + 1) else Inl (Runtime_Error ''integer out of range''))
          else Inr 1)"

definition cleanup_row ::
  "real \<Rightarrow> string \<Rightarrow> string \<Rightarrow> int \<Rightarrow> string \<Rightarrow> int \<Rightarrow> evidence_task \<Rightarrow> evidence_task" where
  "cleanup_row t status sink deleted_bytes err attempt r =
     touch t (r\<lparr>et_cleanup_audit := dset ''sink_output''
       (PDict (strip_nulls
         [(''status'', PStr status), (''path'', json_opt sink), (''deleted_bytes'', PInt deleted_bytes),
          (''error'', json_opt err), (''attempt_count'', PInt attempt), (''attempted_at'', stamp t)]))
       (et_cleanup_audit r)\<rparr>)"

definition terminal_of :: "string \<Rightarrow> evidence_task \<Rightarrow> bool" where
  "terminal_of event_id r \<longleftrightarrow> et_event_id r = event_id \<and> is_terminal r"

definition cleanup_media :: "real \<Rightarrow> string \<Rightarrow> int \<Rightarrow> string \<Rightarrow> json" where
  "cleanup_media t status deleted_bytes err =
     strip_nulls
       [(''sink_output_cleanup_status'', PStr status),
        (''sink_output_cleanup_deleted_bytes'', PInt deleted_bytes),
        (''sink_output_cleanup_error'', json_opt err),
        (''sink_output_cleanup_at'', stamp t)]"

definition record_cleanup_outcome ::
  "task_env \<Rightarrow> real \<Rightarrow> string \<Rightarrow> string \<Rightarrow> string \<Rightarrow> int \<Rightarrow> string \<Rightarrow> task_db \<Rightarrow> (bool \<times> task_db) result" where
  "record_cleanup_outcome env t event_id status sink deleted_bytes err db =
     (if status \<notin> cleanup_outcomes then Inl (Value_Error (''invalid cleanup outcome: '' @ status))
      else rbind (rmap (next_cleanup_attempt env) (filter (terminal_of event_id) (db_tasks db)))
        (\<lambda>_. Inr
          (let bytes = max 0 deleted_bytes;
               attempt = (\<lambda>r. case next_cleanup_attempt env r of Inl _ \<Rightarrow> 1 | Inr n \<Rightarrow> n);
               upd = guarded_update (terminal_of event_id)
                       (\<lambda>r. cleanup_row t status sink bytes err (attempt r) r) db
           in case (fst upd, dget (db_events db) event_id) of
                (True, Some e) \<Rightarrow>
                  (True, (snd upd)\<lparr>db_events := dset event_id
                     (e\<lparr>ep_media := json_concat (ep_media e) (cleanup_media t status bytes err),
                        ep_updated_at := t\<rparr>) (db_events db)\<rparr>)
              | _ \<Rightarrow> (False, snd upd))))"

text \<open>
  The rows that a cleanup retry takes, oldest change first; a count that is not an integer
  raises in the database.
\<close>

definition cleanup_pending :: "task_env \<Rightarrow> evidence_task \<Rightarrow> bool" where
  "cleanup_pending env r \<longleftrightarrow>
     is_terminal r \<and>
     json_text env (json_object (et_cleanup_audit r) ''sink_output'') ''status'' =
       Some ''cleanup_pending'' \<and>
     json_text env (json_object (et_cleanup_audit r) ''sink_output'') ''path'' \<notin> {None, Some []}"

record cleanup_task =
  ct_event_id :: string
  ct_sink_output_path :: string
  ct_mat_status :: string
  ct_attempt_count :: int

definition cleanup_task_of :: "task_env \<Rightarrow> evidence_task \<Rightarrow> cleanup_task result" where
  "cleanup_task_of env r =
     rbind (case cleanup_attempts env r of None \<Rightarrow> Inr 0
            | Some s \<Rightarrow> (case parse_int s of None \<Rightarrow> Inl (Runtime_Error ''invalid integer'')
                         | Some n \<Rightarrow> Inr n))
       (\<lambda>n. Inr \<lparr>ct_event_id = et_event_id r,
          ct_sink_output_path =
            str_or (json_text env (json_object (et_cleanup_audit r) ''sink_output'') ''path'') [],
          ct_mat_status = et_mat_status r, ct_attempt_count = n\<rparr>)"

definition pending_cleanup_tasks :: "task_env \<Rightarrow> int \<Rightarrow> task_db \<Rightarrow> cleanup_task list result" where
  "pending_cleanup_tasks env limit db =
     rmap (cleanup_task_of env)
       (take (nat (max 1 limit)) (sort_key et_updated_at (filter (cleanup_pending env) (db_tasks db))))"

section \<open>The durable finalizer queue\<close>

definition recoverable_handoff :: "real \<Rightarrow> evidence_task \<Rightarrow> bool" where
  "recoverable_handoff t r \<longleftrightarrow>
     queued_handoff r \<and> et_lease_token r = None \<and>
     due t (coalesce (et_next_attempt_at r) (coalesce (et_ready_at r) (Some t))) \<and>
     et_sink_output_path r \<notin> {None, Some []}"

text \<open>\<open>ORDER BY priority DESC, materialization_phase_updated_at ASC\<close>, absent times at the end.\<close>

definition handoff_order :: "evidence_task \<Rightarrow> int \<times> bool \<times> real" where
  "handoff_order r =
     (- et_priority r, et_phase_at r = None, case et_phase_at r of None \<Rightarrow> 0 | Some x \<Rightarrow> x)"

record recoverable =
  rh_event_id :: string
  rh_sink_output_path :: "string option"
  rh_handoff :: json
  rh_source_id :: string
  rh_runtime_epoch_id :: "string option"
  rh_lease_generation :: int
  rh_persisted_at :: "string option"

definition recoverable_of :: "task_env \<Rightarrow> evidence_task \<Rightarrow> recoverable" where
  "recoverable_of env r =
     \<lparr>rh_event_id = et_event_id r, rh_sink_output_path = et_sink_output_path r,
      rh_handoff = et_handoff r, rh_source_id = et_source_id r,
      rh_runtime_epoch_id = et_runtime_epoch_id r, rh_lease_generation = et_lease_generation r,
      rh_persisted_at = json_text env (json_object (et_audit r) ''lifecycle_v2_handoff'') ''persisted_at''\<rparr>"

definition recoverable_finalizer_handoffs :: "task_env \<Rightarrow> real \<Rightarrow> int \<Rightarrow> task_db \<Rightarrow> recoverable list" where
  "recoverable_finalizer_handoffs env t limit db =
     (if \<not> te_v2 env then []
      else map (recoverable_of env) (take (nat (max 1 limit))
        (sort_key handoff_order (filter (recoverable_handoff t) (db_tasks db)))))"

record finalizer_pending_metrics =
  fpm_total :: int
  fpm_unleased :: int
  fpm_leased :: int
  fpm_oldest_age_ms :: int

definition handoff_times :: "evidence_task list \<Rightarrow> real list" where
  "handoff_times rows = List.map_filter et_phase_at rows"

definition pending_metrics :: "task_env \<Rightarrow> real \<Rightarrow> task_db \<Rightarrow> finalizer_pending_metrics" where
  "pending_metrics env t db =
     (if \<not> te_v2 env then
        \<lparr>fpm_total = 0, fpm_unleased = 0, fpm_leased = 0, fpm_oldest_age_ms = 0\<rparr>
      else
        (let rows = filter queued_handoff (db_tasks db);
             oldest = (case handoff_times rows of [] \<Rightarrow> 0
                       | x # xs \<Rightarrow> floor ((t - foldl min x xs) * 1000))
         in \<lparr>fpm_total = max 0 (int (length rows)),
             fpm_unleased = max 0 (int (row_count (\<lambda>r. et_lease_token r = None) rows)),
             fpm_leased = max 0 (int (row_count (\<lambda>r. et_lease_token r \<noteq> None) rows)),
             fpm_oldest_age_ms = max 0 oldest\<rparr>))"

end
