(* ===== verification/TaskRecovery.thy ===== *)
theory TaskRecovery
  imports TaskFinalize
begin

text \<open>
  \<open>recover_and_expire_rolling_tasks\<close> of
  \<^verbatim>\<open>services/media-worker/app/materialization_repository.py\<close>: its statements run one after the
  other over the whole table, and the events of the changed rows are projected at the end.
\<close>

section \<open>The statements\<close>

text \<open>The source filter of a pass; an empty tuple stands for all sources.\<close>

definition in_sources :: "string list \<Rightarrow> evidence_task \<Rightarrow> bool" where
  "in_sources sources r \<longleftrightarrow>
     sources = [] \<or> et_source_id r \<in> set sources"

definition expired_row_legacy :: "real \<Rightarrow> evidence_task \<Rightarrow> evidence_task" where
  "expired_row_legacy t r =
     touch t ((set_reasons None None (Some (reason_value Business_Deadline_Expired))
       (set_status (status_value Expired) Expired r))
         \<lparr>et_error_message := Some (reason_value Business_Deadline_Expired)\<rparr>)"

definition legacy_expiry_guard :: "task_env \<Rightarrow> real \<Rightarrow> string list \<Rightarrow> evidence_task \<Rightarrow> bool" where
  "legacy_expiry_guard env t sources r \<longleftrightarrow>
     is_claimable r \<and> due t (et_deadline_at r) \<and> in_sources sources r \<and>
     json_text env (json_object (et_audit r) ''rolling_cache'') ''status'' \<notin> {None, Some []}"

definition ready_expiry_guard :: "real \<Rightarrow> string list \<Rightarrow> evidence_task \<Rightarrow> bool" where
  "ready_expiry_guard t sources r \<longleftrightarrow>
     et_owner r = Some ''rolling'' \<and> is_claimable r \<and> due t (et_deadline_at r) \<and>
     et_lease_token r = None \<and> in_sources sources r"

definition ready_expired_row :: "real \<Rightarrow> evidence_task \<Rightarrow> evidence_task" where
  "ready_expired_row t r =
     (enter_phase t Terminal (expired_row_legacy t r))
       \<lparr>et_owner := Some ''terminal'', et_next_attempt_at := None, et_retry_reason := None\<rparr>"

definition sla_missed :: "task_env \<Rightarrow> evidence_task \<Rightarrow> bool" where
  "sla_missed env r \<longleftrightarrow>
     json_text env (json_object (et_audit r) ''business_deadline'') ''status'' =
       Some ''missed_during_valid_lease''"

definition sla_guard :: "task_env \<Rightarrow> real \<Rightarrow> string list \<Rightarrow> evidence_task \<Rightarrow> bool" where
  "sla_guard env t sources r \<longleftrightarrow>
     et_mat_status r = status_value Running \<and> due t (et_deadline_at r) \<and>
     et_lease_token r \<noteq> None \<and>
     (case et_lease_expires_at r of None \<Rightarrow> False | Some x \<Rightarrow> t < x) \<and>
     \<not> sla_missed env r \<and> in_sources sources r"

definition sla_row :: "real \<Rightarrow> evidence_task \<Rightarrow> evidence_task" where
  "sla_row t r =
     touch t (audit_put ''business_deadline''
       [(''status'', PStr ''missed_during_valid_lease''), (''observed_at'', stamp t)] r)"

text \<open>A lease that ran out; the three statements differ in the handoff and the deadline.\<close>

definition lease_ran_out :: "real \<Rightarrow> string list \<Rightarrow> evidence_task \<Rightarrow> bool" where
  "lease_ran_out t sources r \<longleftrightarrow>
     et_mat_status r = status_value Running \<and> et_lease_token r \<noteq> None \<and>
     due t (et_lease_expires_at r) \<and> in_sources sources r"

definition handoff_recovery_guard :: "real \<Rightarrow> string list \<Rightarrow> evidence_task \<Rightarrow> bool" where
  "handoff_recovery_guard t sources r \<longleftrightarrow> lease_ran_out t sources r \<and> et_handoff r \<noteq> []"

definition handoff_recovered_row :: "real \<Rightarrow> evidence_task \<Rightarrow> evidence_task" where
  "handoff_recovered_row t r =
     touch t (audit_put ''lifecycle_v2_recovery''
       [(''action'', PStr ''recover_finalizer_handoff''), (''observed_at'', stamp t)]
       ((free_lease (enter_phase t Finalizer_Pending r))
         \<lparr>et_status := ''finalizing'', et_owner := Some ''media_finalizer''\<rparr>))"

definition lease_expiry_guard :: "real \<Rightarrow> string list \<Rightarrow> evidence_task \<Rightarrow> bool" where
  "lease_expiry_guard t sources r \<longleftrightarrow>
     lease_ran_out t sources r \<and> due t (et_deadline_at r) \<and> et_handoff r = []"

definition lease_expired_row :: "real \<Rightarrow> evidence_task \<Rightarrow> evidence_task" where
  "lease_expired_row t r = free_lease (ready_expired_row t r)"

definition lease_retry_guard :: "real \<Rightarrow> string list \<Rightarrow> evidence_task \<Rightarrow> bool" where
  "lease_retry_guard t sources r \<longleftrightarrow>
     lease_ran_out t sources r \<and>
     (case et_deadline_at r of None \<Rightarrow> True | Some d \<Rightarrow> t < d) \<and> et_handoff r = []"

definition lease_retry_row :: "real \<Rightarrow> evidence_task \<Rightarrow> evidence_task" where
  "lease_retry_row t r =
     touch t ((free_lease (set_reasons None None None
       (enter_phase t Waiting_Ready (set_status (status_value Pending) Pending r))))
         \<lparr>et_owner := Some ''rolling'', et_next_attempt_at := Some t,
          et_retry_reason := Some (reason_value Lease_Lost),
          et_error_message := Some (reason_value Lease_Lost)\<rparr>)"

section \<open>The pass\<close>

text \<open>A statement with \<open>RETURNING event_id\<close>: the events of the changed rows.\<close>

definition transition_event_ids ::
  "(evidence_task \<Rightarrow> bool) \<Rightarrow> (evidence_task \<Rightarrow> evidence_task) \<Rightarrow> task_db \<Rightarrow> string list \<times> task_db" where
  "transition_event_ids P f db =
     (map et_event_id (filter P (db_tasks db)), snd (guarded_update P f db))"

text \<open>\<open>dict.fromkeys(ids)\<close>: every id once, where it occurs first.\<close>

definition first_occurrences :: "'a list \<Rightarrow> 'a list" where
  "first_occurrences xs = rev (remdups (rev xs))"

definition project_recovery_events ::
  "real \<Rightarrow> string list \<Rightarrow> materialization_status \<Rightarrow> materialization_phase \<Rightarrow> normalized_reason \<Rightarrow>
   task_db \<Rightarrow> task_db" where
  "project_recovery_events t ids s p reason db =
     fold (\<lambda>e. project_event t e (status_value s) (phase_value p) (reason_value reason) [])
       (first_occurrences ids) db"

record recovery_result =
  rr_ready_deadline_expired :: nat
  rr_running_sla_missed :: nat
  rr_handoff_recovered :: nat
  rr_lease_retry_scheduled :: nat
  rr_lease_deadline_expired :: nat

definition recovery_changed :: "recovery_result \<Rightarrow> nat" where
  "recovery_changed r =
     rr_ready_deadline_expired r + rr_running_sla_missed r + rr_handoff_recovered r +
     rr_lease_retry_scheduled r + rr_lease_deadline_expired r"

definition recover_legacy :: "task_env \<Rightarrow> real \<Rightarrow> string list \<Rightarrow> task_db \<Rightarrow> recovery_result \<times> task_db" where
  "recover_legacy env t sources db =
     (let (ids, db1) = transition_event_ids (legacy_expiry_guard env t sources) (expired_row_legacy t) db
      in (\<lparr>rr_ready_deadline_expired = length ids, rr_running_sla_missed = 0, rr_handoff_recovered = 0,
           rr_lease_retry_scheduled = 0, rr_lease_deadline_expired = 0\<rparr>,
          project_recovery_events t ids Expired Terminal Business_Deadline_Expired db1))"

definition recover_fenced :: "task_env \<Rightarrow> real \<Rightarrow> string list \<Rightarrow> task_db \<Rightarrow> recovery_result \<times> task_db" where
  "recover_fenced env t sources db =
     (let (ready_expired, db1) =
            transition_event_ids (ready_expiry_guard t sources) (ready_expired_row t) db;
          (missed, db2) = transition_event_ids (sla_guard env t sources) (sla_row t) db1;
          (recovered, db3) =
            transition_event_ids (handoff_recovery_guard t sources) (handoff_recovered_row t) db2;
          (lease_expired, db4) =
            transition_event_ids (lease_expiry_guard t sources) (lease_expired_row t) db3;
          (lease_retry, db5) =
            transition_event_ids (lease_retry_guard t sources) (lease_retry_row t) db4
      in (\<lparr>rr_ready_deadline_expired = length ready_expired, rr_running_sla_missed = length missed,
           rr_handoff_recovered = length recovered, rr_lease_retry_scheduled = length lease_retry,
           rr_lease_deadline_expired = length lease_expired\<rparr>,
          project_recovery_events t lease_retry Pending Waiting_Ready Lease_Lost
           (project_recovery_events t lease_expired Expired Terminal Business_Deadline_Expired
            (project_recovery_events t recovered Running Finalizer_Pending Lease_Lost
             (project_recovery_events t ready_expired Expired Terminal Business_Deadline_Expired
               db5)))))"

definition recover_and_expire_rolling_tasks ::
  "task_env \<Rightarrow> real \<Rightarrow> string list \<Rightarrow> task_db \<Rightarrow> recovery_result \<times> task_db" where
  "recover_and_expire_rolling_tasks env t sources db =
     (if te_v2 env then recover_fenced env t sources db else recover_legacy env t sources db)"

section \<open>The pass as one function of a row\<close>

text \<open>
  The statements of the fenced pass act on a row one after the other; together they are one
  function of the row.
\<close>

definition apply_if :: "('r \<Rightarrow> bool) \<Rightarrow> ('r \<Rightarrow> 'r) \<Rightarrow> 'r \<Rightarrow> 'r" where
  "apply_if P f r = (if P r then f r else r)"

definition recovered_row :: "task_env \<Rightarrow> real \<Rightarrow> string list \<Rightarrow> evidence_task \<Rightarrow> evidence_task" where
  "recovered_row env t sources r =
     apply_if (lease_retry_guard t sources) (lease_retry_row t)
      (apply_if (lease_expiry_guard t sources) (lease_expired_row t)
       (apply_if (handoff_recovery_guard t sources) (handoff_recovered_row t)
        (apply_if (sla_guard env t sources) (sla_row t)
         (apply_if (ready_expiry_guard t sources) (ready_expired_row t) r))))"

lemma update_where_apply: "update_where P f = map (apply_if P f)"
  by (auto simp: update_where_def apply_if_def fun_eq_iff)

lemma tasks_project_fold [simp]:
  "db_tasks (fold (\<lambda>e. project_event t e s p k []) ids db) = db_tasks db"
  by (induction ids arbitrary: db) auto

lemma tasks_project_recovery [simp]:
  "db_tasks (project_recovery_events t ids s p k db) = db_tasks db"
  by (simp add: project_recovery_events_def)

lemma recover_fenced_tasks:
  "db_tasks (snd (recover_fenced env t sources db)) = map (recovered_row env t sources) (db_tasks db)"
  by (simp add: recover_fenced_def transition_event_ids_def update_where_apply recovered_row_def
      comp_def)

lemma recover_legacy_tasks:
  "db_tasks (snd (recover_legacy env t sources db)) =
   update_where (legacy_expiry_guard env t sources) (expired_row_legacy t) (db_tasks db)"
  by (simp add: recover_legacy_def transition_event_ids_def)

end
