(* ===== verification/TaskLifecycle.thy ===== *)
theory TaskLifecycle
  imports TaskRecovery
begin

text \<open>
  The lifecycle of an evidence task as the statements of the repository enforce it: an abstract
  machine with four states, the invariant of a row, and the proof that every operation with a
  fenced lease, on a database of migration 029, is a step of the machine on every row.
\<close>

section \<open>Operations as steps\<close>

datatype task_op =
    Claim_Rolling real string string string string real
  | Heartbeat real materialization_lease real
  | Retry_Rolling real materialization_lease string real
  | Retry_Finalizer real materialization_lease string real
  | Retry_Unclaimed_Handoff real string string real
  | Schedule_Unclaimed real string string real string
  | Fail_Rolling real materialization_lease string
  | Defer_Terminal real string string string "materialization_lease option"
  | Fail_Unclaimed real string string string
  | Persist_Handoff real materialization_lease string json real
  | Claim_Finalizer real "evidence_task \<Rightarrow> bool" string string string string real
      "materialization_lease option"
  | Complete real materialization_lease string string string string string
  | Record_Cleanup real string string string int string
  | Recover real "string list"

text \<open>An operation that raises leaves the tables as they are.\<close>

definition db_after :: "('a \<times> task_db) result \<Rightarrow> task_db \<Rightarrow> task_db" where
  "db_after res db = (case res of Inl _ \<Rightarrow> db | Inr (_, db') \<Rightarrow> db')"

fun task_step :: "task_env \<Rightarrow> task_op \<Rightarrow> task_db \<Rightarrow> task_db" where
  "task_step env (Claim_Rolling t token e w phase secs) db =
     db_after (claim_rolling_task env t token e w phase secs db) db"
| "task_step env (Heartbeat t l secs) db = snd (heartbeat_lease t l secs db)"
| "task_step env (Retry_Rolling t l reason hint) db =
     db_after (retry_rolling_task env t l reason hint db) db"
| "task_step env (Retry_Finalizer t l reason hint) db =
     db_after (retry_finalizer_handoff env t l reason hint db) db"
| "task_step env (Retry_Unclaimed_Handoff t e reason hint) db =
     db_after (retry_unclaimed_finalizer_handoff env t e reason hint db) db"
| "task_step env (Schedule_Unclaimed t e reason hint sink) db =
     db_after (schedule_unclaimed_retry env t e reason hint sink db) db"
| "task_step env (Fail_Rolling t l reason) db = snd (fail_rolling_task env t l reason db)"
| "task_step env (Defer_Terminal t e reason sink lo) db =
     db_after (defer_terminal_task env t e reason sink lo db) db"
| "task_step env (Fail_Unclaimed t e reason sink) db =
     snd (fail_unclaimed_task env t e reason sink db)"
| "task_step env (Persist_Handoff t l sink handoff secs) db =
     db_after (persist_finalizer_handoff env t l sink handoff secs db) db"
| "task_step env (Claim_Finalizer t locked token e sink w secs lo) db =
     db_after (claim_finalizer_task env t locked token e sink w secs lo db) db"
| "task_step env (Complete t l status reason clip metadata out_root) db =
     db_after (complete_finalizer_task env t l status reason clip metadata out_root db) db"
| "task_step env (Record_Cleanup t e status sink bytes err) db =
     db_after (record_cleanup_outcome env t e status sink bytes err db) db"
| "task_step env (Recover t sources) db =
     snd (recover_and_expire_rolling_tasks env t sources db)"

text \<open>The lease that an operation presents; a fenced operation presents one of schema v2.\<close>

fun presented_lease :: "task_op \<Rightarrow> materialization_lease option" where
  "presented_lease (Heartbeat t l secs) = Some l"
| "presented_lease (Retry_Rolling t l reason hint) = Some l"
| "presented_lease (Retry_Finalizer t l reason hint) = Some l"
| "presented_lease (Fail_Rolling t l reason) = Some l"
| "presented_lease (Defer_Terminal t e reason sink lo) = lo"
| "presented_lease (Persist_Handoff t l sink handoff secs) = Some l"
| "presented_lease (Claim_Finalizer t locked token e sink w secs lo) = lo"
| "presented_lease (Complete t l status reason clip metadata out_root) = Some l"
| "presented_lease _ = None"

definition fenced_op :: "task_op \<Rightarrow> bool" where
  "fenced_op op \<longleftrightarrow> (case presented_lease op of None \<Rightarrow> True | Some l \<Rightarrow> ml_schema_v2 l)"

section \<open>The abstract machine\<close>

text \<open>
  A task waits, is leased, is queued for finalization, or is closed, with the generation of its
  last lease; a leased task has the token of the lease.
\<close>

datatype task_state = Waiting int | Leased string int | Queued int | Closed int

inductive lifecycle_step :: "task_state \<Rightarrow> task_state \<Rightarrow> bool" where
  stay: "lifecycle_step s s"
| claim: "lifecycle_step (Waiting g) (Leased k (g + 1))"
| claim_queued: "lifecycle_step (Queued g) (Leased k (g + 1))"
| retry: "lifecycle_step (Leased k g) (Waiting g)"
| hand_over: "lifecycle_step (Leased k g) (Queued g)"
| finish: "lifecycle_step (Leased k g) (Closed g)"
| give_up: "lifecycle_step (Waiting g) (Closed g)"
| give_up_queued: "lifecycle_step (Queued g) (Closed g)"

code_pred lifecycle_step .

inductive_cases from_closed: "lifecycle_step (Closed g) s"
inductive_cases to_leased: "lifecycle_step s (Leased k g)"
inductive_simps closed_step_simps: "lifecycle_step (Closed g) s"
inductive_simps leased_step_simps: "lifecycle_step (Leased k g) s"

fun state_generation :: "task_state \<Rightarrow> int" where
  "state_generation (Waiting g) = g"
| "state_generation (Leased k g) = g"
| "state_generation (Queued g) = g"
| "state_generation (Closed g) = g"

text \<open>The state of a row.\<close>

definition task_state_of :: "evidence_task \<Rightarrow> task_state" where
  "task_state_of r =
     (if is_terminal r then Closed (et_lease_generation r)
      else case et_lease_token r of
          Some k \<Rightarrow> Leased k (et_lease_generation r)
        | None \<Rightarrow> if et_mat_status r = status_value Running then Queued (et_lease_generation r)
                  else Waiting (et_lease_generation r))"

section \<open>The invariant of a row\<close>

text \<open>
  A lease belongs to a running task and is complete, a running task without a lease is queued
  with its handoff, a live task carries no terminal reason and a closed one no retry.
\<close>

definition row_ok :: "evidence_task \<Rightarrow> bool" where
  "row_ok r \<longleftrightarrow>
     et_mat_status r \<in> range status_value \<and>
     (et_lease_token r \<noteq> None \<longrightarrow> et_mat_status r = status_value Running) \<and>
     (et_lease_owner r = None \<longleftrightarrow> et_lease_token r = None) \<and>
     (et_lease_expires_at r = None \<longleftrightarrow> et_lease_token r = None) \<and>
     (et_mat_status r = status_value Running \<and> et_lease_token r = None \<longrightarrow> queued_handoff r) \<and>
     (\<not> is_terminal r \<longrightarrow>
        et_defer_reason r = None \<and> et_failure_reason r = None \<and> et_expired_reason r = None) \<and>
     (is_terminal r \<longrightarrow> et_retry_reason r = None \<and> et_next_attempt_at r = None)"

text \<open>What no operation changes.\<close>

definition same_task :: "evidence_task \<Rightarrow> evidence_task \<Rightarrow> bool" where
  "same_task r r' \<longleftrightarrow>
     et_task_id r' = et_task_id r \<and> et_event_id r' = et_event_id r \<and>
     et_source_id r' = et_source_id r \<and> et_ready_at r' = et_ready_at r \<and>
     et_deadline_at r' = et_deadline_at r \<and> et_priority r' = et_priority r \<and>
     (is_terminal r \<longrightarrow> et_mat_status r' = et_mat_status r)"

definition row_step :: "evidence_task \<Rightarrow> evidence_task \<Rightarrow> bool" where
  "row_step r r' \<longleftrightarrow>
     (row_ok r \<longrightarrow> row_ok r' \<and> lifecycle_step (task_state_of r) (task_state_of r')) \<and> same_task r r'"

lemma row_step_refl [simp]: "row_step r r"
  by (simp add: row_step_def same_task_def stay)

subsection \<open>Statuses and phases by name\<close>

lemma status_value_eq: "status_value s = status_value s' \<longleftrightarrow> s = s'"
  by (cases s; cases s'; simp)

lemma phase_value_eq: "phase_value p = phase_value q \<longleftrightarrow> p = q"
  by (cases p; cases q; simp)

lemma status_in_terminal:
  "status_value s \<in> terminal_materialization_statuses \<longleftrightarrow>
   s \<in> {Materialized, Deferred, Failed, Expired, Skipped}"
  unfolding terminal_materialization_statuses_def insert_iff status_value_eq empty_iff by simp

lemma status_in_claimable:
  "status_value s \<in> claimable_materialization_statuses \<longleftrightarrow> s \<in> {Manifest_Ready, Pending}"
  unfolding claimable_materialization_statuses_def ready_materialization_statuses_def insert_iff
    status_value_eq empty_iff by simp

lemma claimable_not_terminal: "is_claimable r \<Longrightarrow> \<not> is_terminal r"
  unfolding is_claimable_def is_terminal_def claimable_materialization_statuses_def
    ready_materialization_statuses_def
  by (auto simp: status_in_terminal simp del: status_value.simps)

lemma running_not_terminal:
  "et_mat_status r = status_value Running \<Longrightarrow> \<not> is_terminal r"
  by (simp add: is_terminal_def status_in_terminal del: status_value.simps)

lemma claimable_not_running:
  "is_claimable r \<Longrightarrow> et_mat_status r \<noteq> status_value Running"
  by (auto simp: is_claimable_def status_in_claimable simp del: status_value.simps)

lemmas name_simps = status_value_eq phase_value_eq status_in_terminal status_in_claimable

lemmas step_defs = row_step_def row_ok_def same_task_def task_state_of_def is_terminal_def
  is_claimable_def queued_handoff_def holds_lease_def has_fence_def

declare status_value.simps [simp del] phase_value.simps [simp del]

subsection \<open>Every statement is a step on the rows it changes\<close>

lemma claim_in_state:
  "is_claimable r \<Longrightarrow> et_lease_token r = None \<Longrightarrow>
   task_state_of r = Waiting (et_lease_generation r)"
  by (simp add: task_state_of_def claimable_not_terminal claimable_not_running)

lemma rolling_claim_step:
  "rolling_claim_guard t e r \<Longrightarrow> row_step r (rolling_claim_row t token w phase secs r)"
  using claimable_not_terminal [of r] claimable_not_running [of r]
  by (auto simp: rolling_claim_guard_def rolling_claim_row_def row_defs step_defs name_simps
      intro: claim)

lemma heartbeat_step:
  "holds_lease l r \<Longrightarrow> row_step r (touch t (renew_lease t secs r))"
  by (auto simp: row_defs step_defs name_simps intro: stay)

lemma fail_step: "holds_lease l r \<Longrightarrow> row_step r (fail_row t code reason r)"
  by (auto simp: fail_row_def row_defs step_defs name_simps intro: finish)

lemma retry_step: "holds_lease l r \<Longrightarrow> row_step r (retry_row t phase code reason d r)"
  by (auto simp: retry_row_def row_defs step_defs name_simps intro: retry)

lemma finalizer_retry_step:
  "finalizer_retry_guard l r \<Longrightarrow> row_step r (finalizer_retry_row t code reason d r)"
  by (auto simp: finalizer_retry_guard_def finalizer_retry_row_def row_defs step_defs name_simps
      intro: hand_over)

lemma handoff_step:
  "handoff_guard l r \<Longrightarrow> row_step r (handoff_row env t sink handoff secs r)"
  by (auto simp: handoff_guard_def handoff_row_def row_defs step_defs name_simps intro: stay)

lemma outcome_step:
  "outcome_guard l r \<Longrightarrow> ml_schema_v2 l \<Longrightarrow> status \<in> outcome_statuses \<Longrightarrow>
   row_step r (outcome_row t True status code clip metadata out_root r)"
  by (auto simp: outcome_guard_def outcome_statuses_def outcome_row_def Let_def row_defs step_defs
      name_simps intro: finish)

lemma unfenced_states:
  "row_ok r \<Longrightarrow> \<not> is_terminal r \<Longrightarrow> et_lease_token r = None \<Longrightarrow>
   task_state_of r \<in> {Waiting (et_lease_generation r), Queued (et_lease_generation r)}"
  by (simp add: task_state_of_def)

lemma fail_unclaimed_step:
  "open_unfenced True e r \<Longrightarrow> row_step r (fail_unclaimed_row True t code sink r)"
  by (auto simp: open_unfenced_def fail_unclaimed_row_def close_fields_def row_defs step_defs
      name_simps intro: give_up give_up_queued)

lemma defer_step:
  "defer_guard True e lo r \<Longrightarrow> row_step r (defer_row True t code sink r)"
  by (auto simp: defer_guard_def defer_row_def close_fields_def row_defs step_defs name_simps
      intro: give_up give_up_queued finish split: option.splits)

lemma unclaimed_retry_step:
  "unclaimed_retry_guard e r \<Longrightarrow> row_step r (unclaimed_retry_row t code sink d r)"
  using claimable_not_terminal [of r] claimable_not_running [of r]
  by (auto simp: unclaimed_retry_guard_def unclaimed_retry_row_def row_defs step_defs name_simps
      intro: stay)

lemma unclaimed_handoff_step:
  "unclaimed_handoff_guard e r \<Longrightarrow> row_step r (unclaimed_handoff_row t code reason d r)"
  by (auto simp: unclaimed_handoff_guard_def unclaimed_handoff_row_def row_defs step_defs name_simps
      intro: stay)

lemma transfer_step:
  "transfer_guard env l r \<Longrightarrow>
   row_step r (finalizer_claim_row t sink w secs mode (ml_token l) (ml_generation l) r)"
  by (auto simp: transfer_guard_def finalizer_claim_row_def row_defs step_defs name_simps intro: stay)

lemma generic_claim_step:
  "finalizer_candidate env t locked e r \<Longrightarrow>
   row_step r (finalizer_claim_row t sink w secs mode
     (case et_lease_token r of None \<Rightarrow> token | Some k \<Rightarrow> k)
     (if et_lease_token r = None then et_lease_generation r + 1 else et_lease_generation r) r)"
  by (auto simp: finalizer_candidate_def finalizer_claim_row_def row_defs step_defs name_simps
      intro: stay claim claim_queued)

lemma cleanup_step: "row_step r (cleanup_row t status sink bytes err n r)"
  by (auto simp: cleanup_row_def row_defs step_defs intro: stay)

lemma ready_expiry_step:
  "ready_expiry_guard t sources r \<Longrightarrow> row_step r (ready_expired_row t r)"
  using claimable_not_terminal [of r] claimable_not_running [of r]
  by (auto simp: ready_expiry_guard_def ready_expired_row_def expired_row_legacy_def row_defs step_defs
      name_simps intro: give_up)

lemma sla_step: "row_step r (sla_row t r)"
  by (auto simp: sla_row_def row_defs step_defs intro: stay)

lemma handoff_recovery_step:
  "handoff_recovery_guard t sources r \<Longrightarrow> row_step r (handoff_recovered_row t r)"
  by (auto simp: handoff_recovery_guard_def lease_ran_out_def handoff_recovered_row_def row_defs
      step_defs name_simps intro: hand_over)

lemma lease_expiry_step:
  "lease_expiry_guard t sources r \<Longrightarrow> row_step r (lease_expired_row t r)"
  by (auto simp: lease_expiry_guard_def lease_ran_out_def lease_expired_row_def ready_expired_row_def
      expired_row_legacy_def row_defs step_defs name_simps intro: finish)

lemma lease_retry_step:
  "lease_retry_guard t sources r \<Longrightarrow> row_step r (lease_retry_row t r)"
  by (auto simp: lease_retry_guard_def lease_ran_out_def lease_retry_row_def row_defs step_defs
      name_simps intro: retry)

section \<open>Every operation is a run of the machine on every row\<close>

definition row_below :: "evidence_task \<Rightarrow> evidence_task \<Rightarrow> bool" where
  "row_below r r' \<longleftrightarrow>
     (row_ok r \<longrightarrow> row_ok r' \<and> lifecycle_step\<^sup>*\<^sup>* (task_state_of r) (task_state_of r')) \<and>
     same_task r r'"

lemma row_below_refl [simp]: "row_below r r"
  by (simp add: row_below_def same_task_def)

lemma same_task_trans: "same_task r s \<Longrightarrow> same_task s u \<Longrightarrow> same_task r u"
  by (auto simp: same_task_def is_terminal_def)

lemma row_below_trans: "row_below r s \<Longrightarrow> row_below s u \<Longrightarrow> row_below r u"
  using same_task_trans [of r s u] by (auto simp: row_below_def)

lemma row_step_below: "row_step r s \<Longrightarrow> row_below r s"
  by (auto simp: row_step_def row_below_def)

lemma apply_if_below: "(P r \<Longrightarrow> row_step r (f r)) \<Longrightarrow> row_below r (apply_if P f r)"
  by (simp add: apply_if_def row_step_below)

lemma recovered_row_below: "row_below r (recovered_row env t sources r)"
  unfolding recovered_row_def
  by (intro row_below_trans [OF _ apply_if_below] apply_if_below ready_expiry_step sla_step
      handoff_recovery_step lease_expiry_step lease_retry_step)

definition tables_below :: "evidence_task list \<Rightarrow> evidence_task list \<Rightarrow> bool" where
  "tables_below = rows_related row_below"

lemma tables_below_refl [simp]: "tables_below rows rows"
  by (simp add: tables_below_def rows_related_def list_all2_refl)

lemma tables_below_trans: "tables_below a b \<Longrightarrow> tables_below b c \<Longrightarrow> tables_below a c"
  unfolding tables_below_def rows_related_def
  by (rule list_all2_trans [where ?P2.0 = row_below]) (auto intro: row_below_trans)

lemma guarded_below:
  "(\<And>r. r \<in> set (db_tasks db) \<Longrightarrow> P r \<Longrightarrow> row_step r (f r)) \<Longrightarrow>
   tables_below (db_tasks db) (update_where P f (db_tasks db))"
  unfolding tables_below_def by (rule update_where_related) (auto intro: row_step_below)

lemma db_after_simps [simp]: "db_after (Inl e) db = db" "db_after (Inr (x, db')) db = db'"
  by (simp_all add: db_after_def)

lemma db_after_Inr: "db_after (Inr p) db = snd p"
  by (simp add: db_after_def split: prod.splits)

lemma db_after_rbind:
  "(\<And>x. m = Inr x \<Longrightarrow> Q (db_after (f x) db)) \<Longrightarrow> Q db \<Longrightarrow> Q (db_after (rbind m f) db)"
  by (cases m) simp_all

text \<open>
  One row per event, which the key of the table gives: \<open>task_id\<close> is a function of the event's id
  wherever \<^verbatim>\<open>services/event-worker/app/repository.py\<close> inserts a task.  Then the row that a
  claim selects is the only one it changes.
\<close>

definition one_task_per_event :: "evidence_task list \<Rightarrow> bool" where
  "one_task_per_event rows \<longleftrightarrow> distinct (map et_event_id rows)"

lemma one_task_unique:
  "one_task_per_event rows \<Longrightarrow> r \<in> set rows \<Longrightarrow> c \<in> set rows \<Longrightarrow> et_event_id r = et_event_id c \<Longrightarrow> r = c"
  by (auto simp: one_task_per_event_def distinct_map dest: inj_onD)

lemma claim_rolling_below:
  "te_v2 env \<Longrightarrow> tables_below (db_tasks db)
     (db_tasks (db_after (claim_rolling_task env t token e w phase secs db) db))"
  by (auto simp: claim_rolling_task_def Let_def split: option.splits
      intro: guarded_below rolling_claim_step)

lemma fail_rolling_below:
  "ml_schema_v2 l \<Longrightarrow>
   tables_below (db_tasks db) (db_tasks (snd (fail_rolling_task env t l reason db)))"
  by (auto simp: fail_rolling_task_def Let_def intro: guarded_below fail_step)

lemma retry_rolling_below:
  "ml_schema_v2 l \<Longrightarrow> tables_below (db_tasks db)
     (db_tasks (db_after (retry_rolling_task env t l reason hint db) db))"
  by (auto simp: retry_rolling_task_def Let_def db_after_Inr
      intro!: db_after_rbind [where Q = "\<lambda>d. tables_below _ (db_tasks d)"] fail_rolling_below
        guarded_below retry_step)

lemma retry_finalizer_below:
  "ml_schema_v2 l \<Longrightarrow> tables_below (db_tasks db)
     (db_tasks (db_after (retry_finalizer_handoff env t l reason hint db) db))"
  by (auto simp: retry_finalizer_handoff_def Let_def db_after_Inr
      intro!: db_after_rbind [where Q = "\<lambda>d. tables_below _ (db_tasks d)"] fail_rolling_below
        guarded_below finalizer_retry_step)

lemma fail_unclaimed_below:
  "te_v2 env \<Longrightarrow>
   tables_below (db_tasks db) (db_tasks (snd (fail_unclaimed_task env t e reason sink db)))"
  by (auto simp: fail_unclaimed_task_def Let_def intro: guarded_below fail_unclaimed_step)

lemma schedule_unclaimed_below:
  "te_v2 env \<Longrightarrow> tables_below (db_tasks db)
     (db_tasks (db_after (schedule_unclaimed_retry env t e reason hint sink db) db))"
  by (auto simp: schedule_unclaimed_retry_def Let_def db_after_Inr split: option.splits
      intro!: db_after_rbind [where Q = "\<lambda>d. tables_below _ (db_tasks d)"] fail_unclaimed_below
        guarded_below unclaimed_retry_step)

lemma unclaimed_handoff_below:
  "te_v2 env \<Longrightarrow> tables_below (db_tasks db)
     (db_tasks (db_after (retry_unclaimed_finalizer_handoff env t e reason hint db) db))"
  by (auto simp: retry_unclaimed_finalizer_handoff_def Let_def db_after_Inr split: option.splits
      intro!: db_after_rbind [where Q = "\<lambda>d. tables_below _ (db_tasks d)"] fail_unclaimed_below
        guarded_below unclaimed_handoff_step)

lemma defer_below:
  "te_v2 env \<Longrightarrow> tables_below (db_tasks db)
     (db_tasks (db_after (defer_terminal_task env t e reason sink lo db) db))"
  by (auto simp: defer_terminal_task_def Let_def db_after_Inr intro!: guarded_below defer_step)

lemma persist_below:
  "tables_below (db_tasks db)
     (db_tasks (db_after (persist_finalizer_handoff env t l sink handoff secs db) db))"
  by (auto simp: persist_finalizer_handoff_def db_after_Inr
      intro!: db_after_rbind [where Q = "\<lambda>d. tables_below _ (db_tasks d)"] guarded_below handoff_step)

lemma complete_below:
  "ml_schema_v2 l \<Longrightarrow> tables_below (db_tasks db)
     (db_tasks (db_after (complete_finalizer_task env t l status reason clip metadata out_root db) db))"
  by (auto simp: complete_finalizer_task_def Let_def intro!: guarded_below outcome_step)

lemma cleanup_below:
  "tables_below (db_tasks db)
     (db_tasks (db_after (record_cleanup_outcome env t e status sink bytes err db) db))"
  by (auto simp: record_cleanup_outcome_def Let_def db_after_Inr split: option.splits bool.splits
      intro!: db_after_rbind [where Q = "\<lambda>d. tables_below _ (db_tasks d)"] guarded_below cleanup_step)

lemma recover_below:
  "te_v2 env \<Longrightarrow>
   tables_below (db_tasks db) (db_tasks (snd (recover_and_expire_rolling_tasks env t sources db)))"
  by (simp add: recover_and_expire_rolling_tasks_def recover_fenced_tasks tables_below_def
      rows_related_def list_all2_conv_all_nth recovered_row_below)

lemma transfer_below:
  "tables_below (db_tasks db) (db_tasks (snd (finalizer_transfer env t sink w secs l db)))"
  by (auto simp: finalizer_transfer_def Let_def split: option.splits
      intro!: guarded_below transfer_step)

lemma generic_claim_below:
  assumes one: "one_task_per_event (db_tasks db)"
  shows "tables_below (db_tasks db)
    (db_tasks (snd (finalizer_claim_generic env t locked token e sink w secs db)))"
proof (cases "fetch_one (finalizer_candidate env t locked e) (db_tasks db)")
  case (Some c)
  then have c: "c \<in> set (db_tasks db)" "finalizer_candidate env t locked e c"
    using fetch_one_Some by metis+
  have "r = c" if "r \<in> set (db_tasks db)" "et_event_id r = e" for r
    using one_task_unique [OF one that(1) c(1)] that(2) c(2) by (simp add: finalizer_candidate_def)
  then show ?thesis
    using Some c generic_claim_step [OF c(2), of sink w secs "[]" token]
    by (auto simp: finalizer_claim_generic_def Let_def intro!: guarded_below)
qed (simp add: finalizer_claim_generic_def)

lemma claim_finalizer_below:
  assumes "te_v2 env" and "one_task_per_event (db_tasks db)"
  shows "tables_below (db_tasks db)
    (db_tasks (db_after (claim_finalizer_task env t locked token e sink w secs lo db) db))"
proof (cases lo)
  case None
  then show ?thesis
    using assms by (simp add: claim_finalizer_task_def db_after_Inr generic_claim_below)
next
  case (Some l)
  have "tables_below (db_tasks db)
     (db_tasks (db_after (rbind (check_expected_lease e l)
        (\<lambda>_. Inr (finalizer_transfer env t sink w (max 1 secs) l db))) db))"
    by (rule db_after_rbind [where Q = "\<lambda>d. tables_below _ (db_tasks d)"])
      (simp_all add: db_after_Inr transfer_below)
  then show ?thesis using assms Some by (simp add: claim_finalizer_task_def)
qed

lemmas operation_below = claim_rolling_below retry_rolling_below retry_finalizer_below
  unclaimed_handoff_below schedule_unclaimed_below fail_rolling_below defer_below fail_unclaimed_below
  persist_below claim_finalizer_below complete_below cleanup_below recover_below

lemma task_step_below:
  assumes "te_v2 env" and "fenced_op op" and "one_task_per_event (db_tasks db)"
  shows "tables_below (db_tasks db) (db_tasks (task_step env op db))"
  using assms
  by (cases op) (simp_all add: fenced_op_def operation_below heartbeat_lease_def guarded_below
      heartbeat_step)

section \<open>Runs\<close>

definition table_ok :: "task_db \<Rightarrow> bool" where
  "table_ok db \<longleftrightarrow> one_task_per_event (db_tasks db) \<and> list_all row_ok (db_tasks db)"

definition db_below :: "task_db \<Rightarrow> task_db \<Rightarrow> bool" where
  "db_below db db' \<longleftrightarrow> tables_below (db_tasks db) (db_tasks db')"

lemma tables_below_events: "tables_below rows rows' \<Longrightarrow> map et_event_id rows' = map et_event_id rows"
  unfolding tables_below_def rows_related_def
  by (induction rows rows' rule: list_all2_induct) (auto simp: row_below_def same_task_def)

lemma tables_below_ok: "tables_below rows rows' \<Longrightarrow> list_all row_ok rows \<Longrightarrow> list_all row_ok rows'"
  unfolding tables_below_def rows_related_def
  by (induction rows rows' rule: list_all2_induct) (auto simp: row_below_def)

lemma table_ok_below: "db_below db db' \<Longrightarrow> table_ok db \<Longrightarrow> table_ok db'"
  using tables_below_events tables_below_ok by (simp add: db_below_def table_ok_def one_task_per_event_def)

definition v2_env :: "(pyval \<Rightarrow> string) \<Rightarrow> (pyval \<Rightarrow> string) \<Rightarrow> (string \<Rightarrow> nat list) \<Rightarrow> task_env" where
  "v2_env repr text digest =
     \<lparr>te_repr = repr, te_json_text = text, te_digest = digest, te_v2 = True\<rparr>"

interpretation task_runs: guarded_system "task_step (v2_env repr text digest)" fenced_op table_ok db_below
proof
  fix db op assume ok: "table_ok db" "fenced_op op"
  then have "db_below db (task_step (v2_env repr text digest) op db)"
    unfolding db_below_def by (intro task_step_below) (simp_all add: table_ok_def v2_env_def)
  then show "table_ok (task_step (v2_env repr text digest) op db) \<and>
    db_below db (task_step (v2_env repr text digest) op db)"
    using ok table_ok_below by simp
qed (auto simp: db_below_def intro: tables_below_trans)

end
