(* ===== verification/TaskSafety.thy ===== *)
theory TaskSafety
  imports TaskLifecycle
begin

text \<open>
  What the lifecycle of evidence tasks guarantees to workers: the tables follow the abstract
  machine, a lost lease has no effect any more, every claim gets a new generation, and the limits of
  these guarantees: the unfenced statements of the old schema, and several tasks of one event.
\<close>

section \<open>Sample tables\<close>

definition sample_task :: evidence_task where
  "sample_task =
     \<lparr>et_task_id = ''t'', et_event_id = ''e'', et_source_id = ''cam'', et_replay_source_id = None,
      et_runtime_epoch_id = None, et_priority = 0, et_status = ''pending'',
      et_mat_status = status_value Manifest_Ready, et_phase = Some (phase_value Waiting_Ready),
      et_phase_at = Some 0, et_owner = Some ''rolling'', et_ready_at = Some 1, et_deadline_at = None,
      et_next_attempt_at = None, et_retry_reason = None, et_defer_reason = None,
      et_failure_reason = None, et_expired_reason = None, et_lease_owner = None,
      et_lease_token = None, et_lease_generation = 0, et_lease_expires_at = None,
      et_lease_heartbeat_at = None, et_handoff = [], et_attempt_count = 0, et_sink_output_path = None,
      et_clip_path = None, et_metadata_path = None, et_output_root = None,
      et_last_materialization_at = None, et_error_message = None, et_audit = [],
      et_cleanup_audit = [], et_updated_at = 0\<rparr>"

definition sample_event :: event_projection where
  "sample_event = \<lparr>ep_media_status = ''pending'', ep_media = [], ep_updated_at = 0\<rparr>"

definition sample_db :: task_db where
  "sample_db = \<lparr>db_tasks = [sample_task], db_events = [(''e'', sample_event)]\<rparr>"

definition sample_env :: task_env where
  "sample_env = v2_env (\<lambda>_. []) (\<lambda>_. []) (\<lambda>_. [])"

definition sample_lease :: materialization_lease where
  "sample_lease = \<lparr>ml_event_id = ''e'', ml_owner = ''w'', ml_token = ''k'', ml_generation = 1,
     ml_phase = phase_value Image_Running, ml_schema_v2 = True\<rparr>"

lemmas sample_defs = sample_task_def sample_event_def sample_db_def sample_env_def v2_env_def
  sample_lease_def

lemma sample_ok: "table_ok sample_db"
  by (simp add: table_ok_def one_task_per_event_def row_ok_def queued_handoff_def is_terminal_def
      sample_task_def sample_db_def name_simps)

section \<open>Refinement of the abstract machine\<close>

lemma run_rows:
  assumes "table_ok db" and "list_all fenced_op ops"
  shows "list_all2 (\<lambda>r r'. row_ok r \<and> row_below r r')
    (db_tasks db) (db_tasks (fold (task_step (v2_env repr text digest)) ops db))"
  using task_runs.guarded_run [OF assms, of repr "text" digest] assms(1)
  by (auto simp: db_below_def tables_below_def rows_related_def table_ok_def list_all2_conv_all_nth
      list_all_length)

lemma run_ok:
  "table_ok db \<Longrightarrow> list_all fenced_op ops \<Longrightarrow>
   table_ok (fold (task_step (v2_env repr text digest)) ops db)"
  using task_runs.guarded_run by simp

lemma run_row:
  assumes "table_ok db" and "list_all fenced_op ops"
    and "r' \<in> set (db_tasks (fold (task_step (v2_env repr text digest)) ops db))"
  obtains r where "r \<in> set (db_tasks db)" and "row_ok r" and "row_below r r'"
proof -
  obtain i where i: "i < length (db_tasks (fold (task_step (v2_env repr text digest)) ops db))"
    and r': "db_tasks (fold (task_step (v2_env repr text digest)) ops db) ! i = r'"
    using assms(3) by (auto simp: in_set_conv_nth)
  show ?thesis
    using that [of "db_tasks db ! i"] list_all2_nthD2 [OF run_rows [OF assms(1,2)] i] r' i
      list_all2_lengthD [OF run_rows [OF assms(1,2)], of repr "text" digest]
    by simp
qed

text \<open>
  C3: on the columns of migration 029, with one task per event, every run of operations that present
  fenced leases takes every task through the abstract lifecycle only: waiting, leased, queued and
  closed, where a lease begins a new generation and a closed task stays closed.
\<close>

theorem tasks_follow_the_lifecycle:
  "table_ok db \<Longrightarrow> list_all fenced_op ops \<Longrightarrow>
   list_all2 (\<lambda>r r'. et_task_id r' = et_task_id r \<and>
       lifecycle_step\<^sup>*\<^sup>* (task_state_of r) (task_state_of r'))
     (db_tasks db) (db_tasks (fold (task_step (v2_env repr text digest)) ops db))"
  by (rule list_all2_mono [OF run_rows]) (auto simp: row_below_def same_task_def)

theorem tasks_follow_the_lifecycle_witness:
  "list_all2 (\<lambda>r r'. et_task_id r' = et_task_id r \<and>
       lifecycle_step\<^sup>*\<^sup>* (task_state_of r) (task_state_of r'))
     (db_tasks sample_db)
     (db_tasks (fold (task_step sample_env)
        [Claim_Rolling 2 ''k'' ''e'' ''w'' (phase_value Image_Running) 30, Fail_Rolling 3 sample_lease ''x'']
        sample_db))"
  unfolding sample_env_def
  by (rule tasks_follow_the_lifecycle [OF sample_ok])
    (simp add: fenced_op_def sample_lease_def)



section \<open>A lost lease\<close>

text \<open>
  The lease of a generation is lost when the row has moved to a later one, or has given the lease
  back.
\<close>

definition lease_lost :: "materialization_lease \<Rightarrow> evidence_task \<Rightarrow> bool" where
  "lease_lost l r \<longleftrightarrow>
     ml_generation l < et_lease_generation r \<or>
     (ml_generation l = et_lease_generation r \<and> et_lease_token r = None)"

definition state_lost :: "int \<Rightarrow> task_state \<Rightarrow> bool" where
  "state_lost g s \<longleftrightarrow> g < state_generation s \<or> (g = state_generation s \<and> (\<forall>k. s \<noteq> Leased k g))"

lemma state_lost_step: "lifecycle_step s s' \<Longrightarrow> state_lost g s \<Longrightarrow> state_lost g s'"
  by (cases rule: lifecycle_step.cases) (auto simp: state_lost_def)

lemma state_lost_run: "lifecycle_step\<^sup>*\<^sup>* s s' \<Longrightarrow> state_lost g s \<Longrightarrow> state_lost g s'"
  by (induction rule: rtranclp_induct) (auto intro: state_lost_step)

lemma lease_lost_state: "row_ok r \<Longrightarrow> lease_lost l r \<longleftrightarrow> state_lost (ml_generation l) (task_state_of r)"
  by (auto simp: lease_lost_def state_lost_def task_state_of_def row_ok_def
      dest: running_not_terminal split: option.splits)

lemma lease_lost_below: "row_ok r \<Longrightarrow> row_below r r' \<Longrightarrow> lease_lost l r \<Longrightarrow> lease_lost l r'"
  using lease_lost_state state_lost_run by (metis row_below_def)

lemma lease_lost_fence: "lease_lost l r \<Longrightarrow> \<not> has_fence (ml_owner l) (ml_token l) (ml_generation l) r"
  by (auto simp: lease_lost_def has_fence_def)

text \<open>An operation for the task of its lease.\<close>

fun presents :: "materialization_lease \<Rightarrow> task_op \<Rightarrow> bool" where
  "presents l (Defer_Terminal t e reason sink lo) \<longleftrightarrow> lo = Some l \<and> e = ml_event_id l"
| "presents l op \<longleftrightarrow> presented_lease op = Some l"

definition unfenced_for :: "materialization_lease \<Rightarrow> task_db \<Rightarrow> bool" where
  "unfenced_for l db \<longleftrightarrow>
     (\<forall>r \<in> set (db_tasks db). et_event_id r = ml_event_id l \<longrightarrow>
        \<not> has_fence (ml_owner l) (ml_token l) (ml_generation l) r)"

lemma unfenced_holds: "unfenced_for l db \<Longrightarrow> \<forall>r \<in> set (db_tasks db). \<not> holds_lease l r"
  by (auto simp: unfenced_for_def holds_lease_def)

lemma unfenced_guards:
  assumes "unfenced_for l db"
  shows "guarded_update (holds_lease l) f db = (False, db)"
    and "guarded_update (finalizer_retry_guard l) f db = (False, db)"
    and "guarded_update (handoff_guard l) f db = (False, db)"
    and "ml_schema_v2 l \<Longrightarrow> guarded_update (outcome_guard l) f db = (False, db)"
    and "guarded_update (defer_guard True (ml_event_id l) (Some l)) f db = (False, db)"
  using assms unfenced_holds [OF assms]
  by (auto simp: finalizer_retry_guard_def handoff_guard_def outcome_guard_def defer_guard_def
      unfenced_for_def intro!: guarded_update_nothing)

lemma unfenced_transfer:
  "unfenced_for l db \<Longrightarrow> snd (finalizer_transfer env t sink w secs l db) = db"
  by (auto simp: finalizer_transfer_def Let_def unfenced_for_def)

lemma rbind_same: "(\<And>x. db_after (f x) db = db) \<Longrightarrow> db_after (rbind m f) db = db"
  by (cases m) simp_all

lemma unfenced_step:
  assumes "te_v2 env" and "ml_schema_v2 l" and "presents l op" and "unfenced_for l db"
  shows "task_step env op db = db"
  using assms
  by (cases op)
    (auto simp: unfenced_guards project_changed_False heartbeat_lease_def fail_rolling_task_def
      retry_rolling_task_def retry_finalizer_handoff_def defer_terminal_task_def
      persist_finalizer_handoff_def complete_finalizer_task_def claim_finalizer_task_def Let_def
      db_after_Inr unfenced_transfer intro!: rbind_same)

lemma lost_after_run:
  assumes "table_ok db" and "list_all fenced_op ops"
    and lost: "\<forall>r \<in> set (db_tasks db). et_event_id r = ml_event_id l \<longrightarrow> lease_lost l r"
  shows "unfenced_for l (fold (task_step (v2_env repr text digest)) ops db)"
  unfolding unfenced_for_def
proof (intro ballI impI)
  fix r' assume r': "r' \<in> set (db_tasks (fold (task_step (v2_env repr text digest)) ops db))"
    and e: "et_event_id r' = ml_event_id l"
  from run_row [OF assms(1,2) r'] obtain r
    where r: "r \<in> set (db_tasks db)" "row_ok r" "row_below r r'" .
  with e lost have "lease_lost l r" by (simp add: row_below_def same_task_def)
  with r have "lease_lost l r'" by (blast intro: lease_lost_below)
  then show "\<not> has_fence (ml_owner l) (ml_token l) (ml_generation l) r'" by (rule lease_lost_fence)
qed

text \<open>
  once the lease of a worker is lost, no run of fenced operations gives it back: whatever the
  worker then attempts with it for its task changes neither a task nor an event.
\<close>

theorem lost_lease_is_powerless:
  assumes "table_ok db" and "ml_schema_v2 l"
    and "\<forall>r \<in> set (db_tasks db). et_event_id r = ml_event_id l \<longrightarrow> lease_lost l r"
    and "list_all fenced_op ops" and "presents l op"
  shows "task_step (v2_env repr text digest) op (fold (task_step (v2_env repr text digest)) ops db) =
    fold (task_step (v2_env repr text digest)) ops db"
  using assms by (intro unfenced_step [where l = l] lost_after_run) (simp_all add: v2_env_def)

theorem lost_lease_is_powerless_witness:
  "task_step sample_env (Fail_Rolling 9 (sample_lease\<lparr>ml_generation := 0\<rparr>) ''x'')
     (fold (task_step sample_env) [Claim_Rolling 2 ''k'' ''e'' ''w'' (phase_value Image_Running) 30] sample_db) =
   fold (task_step sample_env) [Claim_Rolling 2 ''k'' ''e'' ''w'' (phase_value Image_Running) 30] sample_db"
  unfolding sample_env_def
  by (rule lost_lease_is_powerless [OF sample_ok, where l = "sample_lease\<lparr>ml_generation := 0\<rparr>"])
    (simp_all add: sample_lease_def sample_db_def sample_task_def lease_lost_def fenced_op_def)

section \<open>The recovery pass\<close>

lemma ran_out_not_ready: "row_ok r \<Longrightarrow> lease_ran_out t sources r \<Longrightarrow> \<not> ready_expiry_guard t sources' r"
  by (simp add: lease_ran_out_def ready_expiry_guard_def)

lemma ran_out_not_sla: "lease_ran_out t sources r \<Longrightarrow> \<not> sla_guard env t sources' r"
  by (auto simp: lease_ran_out_def sla_guard_def due_def split: option.splits)

lemma no_lease_not_ran_out: "et_lease_token r = None \<Longrightarrow> \<not> lease_ran_out t sources r"
  by (simp add: lease_ran_out_def)

lemma not_ran_out_guards:
  assumes "\<not> lease_ran_out t sources r"
  shows "\<not> handoff_recovery_guard t sources r" "\<not> lease_expiry_guard t sources r"
    "\<not> lease_retry_guard t sources r"
  using assms by (simp_all add: handoff_recovery_guard_def lease_expiry_guard_def lease_retry_guard_def)

lemma sla_row_lease: "lease_ran_out t sources (sla_row t' r) = lease_ran_out t sources r"
  "ready_expiry_guard t sources (sla_row t' r) = ready_expiry_guard t sources r"
  "task_state_of (sla_row t' r) = task_state_of r"
  by (simp_all add: sla_row_def row_defs lease_ran_out_def in_sources_def ready_expiry_guard_def
      is_claimable_def task_state_of_def is_terminal_def split: option.splits)

lemma sla_guard_not_ran_out: "sla_guard env t sources r \<Longrightarrow> \<not> lease_ran_out t sources' r"
  using ran_out_not_sla by blast

lemma token_after:
  "et_lease_token (ready_expired_row t r) = et_lease_token r"
  "et_lease_token (handoff_recovered_row t r) = None"
  "et_lease_token (lease_expired_row t r) = None"
  "et_lease_token (lease_retry_row t r) = None"
  by (simp_all add: ready_expired_row_def expired_row_legacy_def handoff_recovered_row_def
      lease_expired_row_def lease_retry_row_def row_defs)

lemma recovered_row_cases:
  "recovered_row env t sources r =
     (if ready_expiry_guard t sources r then ready_expired_row t r
      else if sla_guard env t sources r then sla_row t r
      else if handoff_recovery_guard t sources r then handoff_recovered_row t r
      else if lease_expiry_guard t sources r then lease_expired_row t r
      else if lease_retry_guard t sources r then lease_retry_row t r
      else r)"
proof -
  have ready: "\<not> sla_guard env t sources (ready_expired_row t r) \<and>
      \<not> lease_ran_out t sources (ready_expired_row t r)" if "ready_expiry_guard t sources r"
    using that by (simp add: ready_expiry_guard_def sla_guard_def lease_ran_out_def token_after)
  have sla: "\<not> lease_ran_out t sources (sla_row t r)" if "sla_guard env t sources r"
    using that sla_guard_not_ran_out by (simp add: sla_row_lease)
  have gone: "\<not> lease_ran_out t sources (handoff_recovered_row t r)"
    "\<not> lease_ran_out t sources (lease_expired_row t r)"
    by (simp_all add: lease_ran_out_def token_after)
  consider "ready_expiry_guard t sources r" | "\<not> ready_expiry_guard t sources r" "sla_guard env t sources r"
    | "\<not> ready_expiry_guard t sources r" "\<not> sla_guard env t sources r" by blast
  then show ?thesis
  proof cases
    case 1
    with ready show ?thesis by (simp add: recovered_row_def apply_if_def not_ran_out_guards)
  next
    case 2
    with sla show ?thesis by (simp add: recovered_row_def apply_if_def not_ran_out_guards)
  next
    case 3
    with gone show ?thesis by (simp add: recovered_row_def apply_if_def not_ran_out_guards)
  qed
qed

definition recovered_state :: "real \<Rightarrow> evidence_task \<Rightarrow> task_state" where
  "recovered_state t r =
     (let g = et_lease_generation r
      in if lease_ran_out t [] r then
           (if et_handoff r \<noteq> [] then Queued g
            else if due t (et_deadline_at r) then Closed g else Waiting g)
         else if ready_expiry_guard t [] r then Closed g
         else task_state_of r)"

lemma recovered_row_state:
  assumes "row_ok r"
  shows "task_state_of (recovered_row env t [] r) = recovered_state t r"
proof (cases "lease_ran_out t [] r")
  case True
  then have "\<not> ready_expiry_guard t [] r" "\<not> sla_guard env t [] r"
    using assms ran_out_not_ready ran_out_not_sla by blast+
  then show ?thesis
    using True
    by (auto simp: recovered_row_cases recovered_state_def Let_def handoff_recovery_guard_def
        lease_expiry_guard_def lease_retry_guard_def handoff_recovered_row_def lease_expired_row_def
        ready_expired_row_def expired_row_legacy_def lease_retry_row_def row_defs task_state_of_def
        is_terminal_def lease_ran_out_def name_simps due_def split: option.splits)
next
  case False
  then show ?thesis
    by (auto simp: recovered_row_cases recovered_state_def Let_def not_ran_out_guards sla_row_lease)
      (simp add: ready_expired_row_def expired_row_legacy_def row_defs task_state_of_def
        is_terminal_def name_simps)
qed

lemma ran_out_split:
  "lease_ran_out t sources r \<longleftrightarrow>
     handoff_recovery_guard t sources r \<or> lease_expiry_guard t sources r \<or> lease_retry_guard t sources r"
  by (auto simp: handoff_recovery_guard_def lease_expiry_guard_def lease_retry_guard_def due_def
      split: option.splits)

definition settled :: "real \<Rightarrow> string list \<Rightarrow> evidence_task \<Rightarrow> bool" where
  "settled t sources r \<longleftrightarrow> \<not> lease_ran_out t sources r \<and> \<not> ready_expiry_guard t sources r"

lemma settled_rows:
  "ready_expiry_guard t sources r \<Longrightarrow> settled t sources (ready_expired_row t r)"
  "handoff_recovery_guard t sources r \<Longrightarrow> settled t sources (handoff_recovered_row t r)"
  "settled t sources (lease_expired_row t r)"
  "lease_retry_guard t sources r \<Longrightarrow> settled t sources (lease_retry_row t r)"
  by (auto simp: settled_def ready_expiry_guard_def lease_ran_out_def token_after is_claimable_def
      handoff_recovery_guard_def handoff_recovered_row_def lease_expired_row_def ready_expired_row_def
      expired_row_legacy_def lease_retry_guard_def lease_retry_row_def row_defs name_simps due_def
      split: option.splits)

lemma settled_sla:
  "sla_guard env t sources r \<Longrightarrow> \<not> ready_expiry_guard t sources r \<Longrightarrow> settled t sources (sla_row t r)"
  by (simp add: settled_def sla_row_lease sla_guard_not_ran_out)

lemma recovered_row_settled: "settled t sources (recovered_row env t sources r)"
proof -
  consider "ready_expiry_guard t sources r" | "\<not> ready_expiry_guard t sources r" "sla_guard env t sources r"
    | "\<not> ready_expiry_guard t sources r" "\<not> sla_guard env t sources r" by blast
  then show ?thesis
  proof cases
    case 3
    then show ?thesis
      by (cases "lease_ran_out t sources r")
        (auto simp: recovered_row_cases ran_out_split settled_rows, simp add: settled_def ran_out_split)
  qed (simp_all add: recovered_row_cases settled_rows settled_sla)
qed

text \<open>
  C25: a recovery pass over all sources settles every row exactly: a lease that ran out makes the task
  queued when its handoff is there, and otherwise closed after its deadline and waiting before it; a
  waiting rolling task past its deadline is closed; every other task keeps its state, so a lease
  that has not run out is never taken away.
\<close>

theorem recovery_settles_every_task:
  "list_all row_ok (db_tasks db) \<Longrightarrow>
   list_all2 (\<lambda>r r'. et_event_id r' = et_event_id r \<and> task_state_of r' = recovered_state t r \<and>
       \<not> lease_ran_out t [] r' \<and> \<not> ready_expiry_guard t [] r')
     (db_tasks db)
     (db_tasks (snd (recover_and_expire_rolling_tasks (v2_env repr text digest) t [] db)))"
  using recovered_row_state recovered_row_settled recovered_row_below
  by (simp add: recover_and_expire_rolling_tasks_def v2_env_def recover_fenced_tasks
      list_all2_conv_all_nth list_all_length settled_def row_below_def same_task_def)

theorem recovery_settles_every_task_witness:
  "list_all2 (\<lambda>r r'. et_event_id r' = et_event_id r \<and> task_state_of r' = recovered_state 5 r \<and>
       \<not> lease_ran_out 5 [] r' \<and> \<not> ready_expiry_guard 5 [] r')
     (db_tasks sample_db)
     (db_tasks (snd (recover_and_expire_rolling_tasks sample_env 5 [] sample_db)))"
  unfolding sample_env_def
  by (rule recovery_settles_every_task) (use sample_ok in \<open>simp add: table_ok_def\<close>)

text \<open>
  C4: a worker that lets its lease run out loses it to the next recovery pass for good: after the
  pass and any further run, nothing it attempts with the lease has an effect.
\<close>

theorem zombie_worker_is_powerless:
  assumes "table_ok db" and "r \<in> set (db_tasks db)" and "holds_lease l r"
    and "due t (et_lease_expires_at r)" and "ml_schema_v2 l" and "list_all fenced_op ops"
    and "presents l op"
  shows "task_step (v2_env repr text digest) op
      (fold (task_step (v2_env repr text digest)) (Recover t [] # ops) db) =
    fold (task_step (v2_env repr text digest)) (Recover t [] # ops) db"
proof -
  let ?env = "v2_env repr text digest"
  let ?db = "task_step ?env (Recover t []) db"
  have ok: "table_ok ?db"
    using run_ok [OF assms(1), of "[Recover t []]" repr "text" digest] by (simp add: fenced_op_def)
  have "lease_lost l u" if u: "u \<in> set (db_tasks ?db)" and e: "et_event_id u = ml_event_id l" for u
  proof -
    from u obtain q where q: "q \<in> set (db_tasks db)" "u = recovered_row ?env t [] q"
      by (auto simp: recover_and_expire_rolling_tasks_def v2_env_def recover_fenced_tasks)
    have "et_event_id q = et_event_id r"
      using q(2) e assms(3) recovered_row_below [of q ?env t "[]"]
      by (simp add: row_below_def same_task_def holds_lease_def)
    then have "q = r" using one_task_unique q(1) assms(1,2) by (auto simp: table_ok_def)
    moreover have ok_r: "row_ok r" using assms(1,2) by (simp add: table_ok_def list_all_iff)
    moreover have "lease_ran_out t [] r"
      using assms(3,4) by (simp add: lease_ran_out_def holds_lease_def has_fence_def in_sources_def)
    ultimately have "task_state_of u \<in> {Queued (ml_generation l), Closed (ml_generation l), Waiting (ml_generation l)}"
      using recovered_row_state [OF ok_r, of ?env t] q(2) assms(3)
      by (simp add: recovered_state_def holds_lease_def has_fence_def Let_def)
    moreover have "row_ok u"
      using ok_r \<open>q = r\<close> q(2) recovered_row_below by (auto simp: row_below_def)
    ultimately show ?thesis by (auto simp: lease_lost_state state_lost_def)
  qed
  then have "unfenced_for l (fold (task_step ?env) ops ?db)"
    using lost_after_run [OF ok assms(6)] by blast
  then show ?thesis
    using assms(5,7) unfenced_step [of ?env l op] by (simp add: v2_env_def)
qed

text \<open>The sample table after a claim, whose lease runs out at time 32.\<close>

definition leased_task :: evidence_task where
  "leased_task = rolling_claim_row 2 ''k'' ''w'' (phase_value Image_Running) 30 sample_task"

definition leased_db :: task_db where
  "leased_db = \<lparr>db_tasks = [leased_task], db_events = [(''e'', sample_event)]\<rparr>"

lemma sample_claimable: "rolling_claim_guard 2 ''e'' sample_task"
  by (simp add: rolling_claim_guard_def is_claimable_def sample_task_def name_simps due_def coalesce_def)

lemma leased_ok: "table_ok leased_db"
  using rolling_claim_step [OF sample_claimable, of "''k''" "''w''" "phase_value Image_Running" 30] sample_ok
  by (simp add: table_ok_def leased_db_def leased_task_def row_step_def one_task_per_event_def sample_db_def)

lemma leased_holds: "holds_lease sample_lease leased_task"
  by (simp add: holds_lease_def has_fence_def sample_lease_def leased_task_def rolling_claim_row_def
      row_defs sample_task_def)

lemma sample_schema: "ml_schema_v2 sample_lease"
  by (simp add: sample_lease_def)

lemma leased_expiry: "et_lease_expires_at leased_task = Some 32"
  by (simp add: leased_task_def rolling_claim_row_def row_defs)

theorem zombie_worker_is_powerless_witness:
  "task_step sample_env (Complete 41 sample_lease (status_value Materialized) [] [] [] [])
      (fold (task_step sample_env)
        (Recover 40 [] # [Claim_Rolling 40 ''n'' ''e'' ''v'' (phase_value Image_Running) 30]) leased_db) =
    fold (task_step sample_env)
        (Recover 40 [] # [Claim_Rolling 40 ''n'' ''e'' ''v'' (phase_value Image_Running) 30]) leased_db"
  unfolding sample_env_def
  by (rule zombie_worker_is_powerless [OF leased_ok, where r = leased_task and l = sample_lease])
    (simp_all add: leased_db_def leased_holds leased_expiry due_def sample_schema fenced_op_def)

section \<open>Claims\<close>

lemma claim_granted:
  assumes "claim_rolling_task env t token e w phase secs db = Inr (Some l, db')" and "te_v2 env"
  obtains r where "r \<in> set (db_tasks db)" and "rolling_claim_guard t e r"
    and "ml_event_id l = e" and "ml_generation l = et_lease_generation r + 1" and "ml_token l = token"
    and "ml_owner l = w" and "ml_phase l = phase" and "ml_schema_v2 l" and "phase \<in> rolling_claim_phases"
    and "db_tasks db' = update_where (rolling_claim_guard t e)
           (rolling_claim_row t token w phase (max 1 secs)) (db_tasks db)"
  using assms fetch_one_Some
  by (fastforce simp: claim_rolling_task_def Let_def rolling_claim_row_def row_defs
      split: option.splits if_splits)

lemma claimed_row:
  "et_event_id (rolling_claim_row t token w phase secs r) = et_event_id r"
  "et_lease_generation (rolling_claim_row t token w phase secs r) = et_lease_generation r + 1"
  "et_lease_token (rolling_claim_row t token w phase secs r) = Some token"
  "et_lease_owner (rolling_claim_row t token w phase secs r) = Some w"
  "et_phase (rolling_claim_row t token w phase secs r) = Some phase"
  "et_mat_status (rolling_claim_row t token w phase secs r) = status_value Running"
  by (simp_all add: rolling_claim_row_def row_defs)

lemma claim_changes_table:
  assumes "claim_rolling_task env t token e w phase secs db = Inr (Some l, db')" and "te_v2 env"
    and "table_ok db"
  shows "table_ok db'" and "\<exists>r \<in> set (db_tasks db'). et_event_id r = e \<and>
    et_lease_generation r = ml_generation l \<and> et_lease_token r = Some token"
proof -
  have "db_below db db'"
    using claim_rolling_below [of env db t token e w phase secs] assms(1,2)
    by (simp add: db_below_def)
  with assms(3) show "table_ok db'" by (rule table_ok_below [rotated])
  from assms(1,2) obtain r where r: "r \<in> set (db_tasks db)" "rolling_claim_guard t e r"
    "ml_generation l = et_lease_generation r + 1"
    "db_tasks db' = update_where (rolling_claim_guard t e)
           (rolling_claim_row t token w phase (max 1 secs)) (db_tasks db)"
    by (rule claim_granted)
  then show "\<exists>r \<in> set (db_tasks db'). et_event_id r = e \<and>
    et_lease_generation r = ml_generation l \<and> et_lease_token r = Some token"
    using update_where_member [where P = "rolling_claim_guard t e" and r = r
        and f = "rolling_claim_row t token w phase (max 1 secs)" and rows = "db_tasks db"]
    by (intro bexI [of _ "rolling_claim_row t token w phase (max 1 secs) r"])
      (simp_all add: claimed_row rolling_claim_guard_def r)
qed

lemma state_generation_of [simp]: "state_generation (task_state_of r) = et_lease_generation r"
  by (simp add: task_state_of_def split: option.splits)

lemma generation_step: "lifecycle_step s s' \<Longrightarrow> state_generation s \<le> state_generation s'"
  by (cases rule: lifecycle_step.cases) auto

lemma generation_run: "lifecycle_step\<^sup>*\<^sup>* s s' \<Longrightarrow> state_generation s \<le> state_generation s'"
  by (induction rule: rtranclp_induct) (auto dest: generation_step)

lemma generation_below: "row_ok r \<Longrightarrow> row_below r r' \<Longrightarrow> et_lease_generation r \<le> et_lease_generation r'"
  using generation_run [of "task_state_of r" "task_state_of r'"] by (simp add: row_below_def)

text \<open>
  C26: two claims of the same task never get the same generation: whatever happens in between, a later
  claim of the event is granted a greater one, so at most one of their leases is ever accepted.
\<close>

theorem claims_get_new_generations:
  assumes "table_ok db"
    and "claim_rolling_task (v2_env repr text digest) t token e w phase secs db = Inr (Some l, db1)"
    and "list_all fenced_op ops"
    and "claim_rolling_task (v2_env repr text digest) t' token' e w' phase' secs'
           (fold (task_step (v2_env repr text digest)) ops db1) = Inr (Some l', db2)"
  shows "ml_generation l < ml_generation l'"
proof -
  let ?env = "v2_env repr text digest"
  have v2: "te_v2 ?env" by (simp add: v2_env_def)
  note ok1 = claim_changes_table(1) [OF assms(2) v2 assms(1)]
  obtain r1 where r1: "r1 \<in> set (db_tasks db1)" "et_event_id r1 = e"
    "et_lease_generation r1 = ml_generation l"
    using claim_changes_table(2) [OF assms(2) v2 assms(1)] by blast
  obtain r2 where r2: "r2 \<in> set (db_tasks (fold (task_step ?env) ops db1))"
    "et_event_id r2 = e" "ml_generation l' = et_lease_generation r2 + 1"
    using claim_granted [OF assms(4) v2] by (metis rolling_claim_guard_def)
  obtain r where r: "r \<in> set (db_tasks db1)" "row_ok r" "row_below r r2"
    using run_row [OF ok1 assms(3) r2(1)] .
  then have "r = r1"
    using one_task_unique ok1 r1 r2(2) by (auto simp: table_ok_def row_below_def same_task_def)
  then show ?thesis using generation_below r r1(3) r2(3) by fastforce
qed

lemma claim_succeeds:
  assumes "r \<in> set (db_tasks db)" and "rolling_claim_guard t e r" and "phase \<in> rolling_claim_phases"
    and "te_v2 env"
  obtains l db' where "claim_rolling_task env t token e w phase secs db = Inr (Some l, db')"
proof -
  have "fetch_one (rolling_claim_guard t e) (db_tasks db) \<noteq> None"
    using assms(1,2) by (auto simp: fetch_one_None)
  then show ?thesis using that assms(3,4) by (auto simp: claim_rolling_task_def Let_def)
qed

lemma image_phase [simp]: "phase_value Image_Running \<in> rolling_claim_phases"
  by (simp add: rolling_claim_phases_def)

lemma recovered_sample: "recovered_row env 40 [] leased_task = lease_retry_row 40 leased_task"
  by (simp add: recovered_row_cases leased_task_def rolling_claim_row_def row_defs sample_task_def
      ready_expiry_guard_def sla_guard_def handoff_recovery_guard_def lease_expiry_guard_def
      lease_retry_guard_def lease_ran_out_def in_sources_def due_def)

lemma recovered_claimable: "rolling_claim_guard 41 ''e'' (lease_retry_row 40 leased_task)"
  by (simp add: rolling_claim_guard_def lease_retry_row_def leased_task_def rolling_claim_row_def row_defs
      sample_task_def is_claimable_def name_simps due_def coalesce_def)

theorem claims_get_new_generations_witness:
  "\<exists>l db1 l' db2.
     claim_rolling_task sample_env 2 ''k'' ''e'' ''w'' (phase_value Image_Running) 30 sample_db = Inr (Some l, db1) \<and>
     claim_rolling_task sample_env 41 ''n'' ''e'' ''v'' (phase_value Image_Running) 30
       (fold (task_step sample_env) [Recover 40 []] db1) = Inr (Some l', db2) \<and>
     ml_generation l < ml_generation l'"
proof -
  have v2: "te_v2 sample_env" by (simp add: sample_env_def v2_env_def)
  have mem: "sample_task \<in> set (db_tasks sample_db)" by (simp add: sample_db_def)
  obtain l db1 where c1: "claim_rolling_task sample_env 2 ''k'' ''e'' ''w'' (phase_value Image_Running) 30
      sample_db = Inr (Some l, db1)"
    using claim_succeeds [OF mem sample_claimable image_phase v2] .
  then have "db_tasks db1 = [leased_task]"
    by (rule claim_granted [OF _ v2])
      (simp add: sample_db_def update_where_def sample_claimable leased_task_def)
  then have "lease_retry_row 40 leased_task \<in> set (db_tasks (fold (task_step sample_env) [Recover 40 []] db1))"
    by (simp add: recover_and_expire_rolling_tasks_def v2 recover_fenced_tasks recovered_sample)
  then obtain l' db2 where c2: "claim_rolling_task sample_env 41 ''n'' ''e'' ''v'' (phase_value Image_Running) 30
       (fold (task_step sample_env) [Recover 40 []] db1) = Inr (Some l', db2)"
    using claim_succeeds [OF _ recovered_claimable image_phase v2] by blast
  have "list_all fenced_op [Recover 40 []]" by (simp add: fenced_op_def)
  then have "ml_generation l < ml_generation l'"
    by (rule claims_get_new_generations [OF sample_ok c1 [unfolded sample_env_def] _ c2 [unfolded sample_env_def]])
  with c1 c2 show ?thesis by blast
qed

section \<open>The way of a task to its evidence\<close>

definition has_event :: "string \<Rightarrow> task_db \<Rightarrow> bool" where
  "has_event e db \<longleftrightarrow> dget (db_events db) e \<noteq> None"

lemma has_event_project [simp]: "has_event e (project_event t e' s p r k db) \<longleftrightarrow> has_event e db"
  by (auto simp: has_event_def project_event_def dict_simps split: option.splits)

lemma has_event_update [simp]: "has_event e (snd (guarded_update P f db)) \<longleftrightarrow> has_event e db"
  by (simp add: has_event_def)

lemma projected_status:
  "has_event e db \<Longrightarrow>
   \<exists>ev. dget (db_events (project_event t e s p r k db)) e = Some ev \<and> ep_media_status ev = s"
  by (auto simp: has_event_def project_event_def dict_simps split: option.splits)

lemma persist_succeeds:
  assumes "r \<in> set (db_tasks db)" and "handoff_guard l r" and "ml_schema_v2 l"
    and "check_handoff env h = Inr ()"
  obtains db' where "persist_finalizer_handoff env t l sink h secs db = Inr (True, db')"
    and "handoff_row env t sink h (max 1 secs) r \<in> set (db_tasks db')"
    and "\<And>e. has_event e db' \<longleftrightarrow> has_event e db"
proof -
  let ?upd = "guarded_update (handoff_guard l) (handoff_row env t sink h (max 1 secs)) db"
  have "fst ?upd" using assms(1,2) by auto
  then have "persist_finalizer_handoff env t l sink h secs db =
      Inr (True, project_event t (ml_event_id l) (status_value Running) (phase_value Finalizer_Pending)
        [] sink (snd ?upd))"
    using assms(3,4) by (simp add: persist_finalizer_handoff_def project_changed_def)
  then show ?thesis using that assms(1,2) by (simp add: update_where_member)
qed

lemma transfer_succeeds:
  assumes "r \<in> set (db_tasks db)" and "transfer_guard env l r" and "te_v2 env"
    and "check_expected_lease e l = Inr ()"
  obtains db' where "claim_finalizer_task env t locked token e sink w secs (Some l) db =
      Inr (\<lparr>fc_status = ''claimed'', fc_lease = Some (l\<lparr>ml_owner := w, ml_phase := phase_value Finalizing\<rparr>)\<rparr>, db')"
    and "finalizer_claim_row t sink w (max 1 secs) [(''claim_mode'', PStr ''exact_handoff_transfer'')]
           (ml_token l) (ml_generation l) r \<in> set (db_tasks db')"
    and "\<And>e. has_event e db' \<longleftrightarrow> has_event e db"
proof -
  obtain c where c: "fetch_one (transfer_guard env l) (db_tasks db) = Some c"
    using assms(1,2) by (cases "fetch_one (transfer_guard env l) (db_tasks db)") (auto simp: fetch_one_None)
  have fence: "\<exists>r \<in> set (db_tasks db). et_event_id r = ml_event_id l \<and>
      has_fence (ml_owner l) (ml_token l) (ml_generation l) r"
    using assms(1,2) by (auto simp: transfer_guard_def)
  have l: "ml_event_id l = e" "ml_schema_v2 l" "ml_token l \<noteq> []"
    using assms(4) by (auto simp: check_expected_lease_def split: if_splits)
  then have l': "\<lparr>ml_event_id = e, ml_owner = w, ml_token = ml_token l, ml_generation = ml_generation l,
      ml_phase = phase_value Finalizing, ml_schema_v2 = True\<rparr> =
      l\<lparr>ml_owner := w, ml_phase := phase_value Finalizing\<rparr>"
    by (cases l) simp
  let ?f = "finalizer_claim_row t sink w (max 1 secs) [(''claim_mode'', PStr ''exact_handoff_transfer'')]
           (ml_token l) (ml_generation l)"
  have f: "et_lease_token (?f r) = Some (ml_token l)" "et_lease_generation (?f r) = ml_generation l" for r
    by (simp_all add: finalizer_claim_row_def row_defs)
  have "claim_finalizer_task env t locked token e sink w secs (Some l) db =
      Inr (\<lparr>fc_status = ''claimed'', fc_lease = Some (l\<lparr>ml_owner := w, ml_phase := phase_value Finalizing\<rparr>)\<rparr>,
        project_event t e (status_value Running) (phase_value Finalizing) [] sink
          (snd (guarded_update (transfer_guard env l) ?f db)))"
    using assms(3,4) c fence l l'
    by (simp add: claim_finalizer_task_def finalizer_transfer_def Let_def f str_or_def)
  then show ?thesis using that assms(1,2) by (simp add: update_where_member)
qed

lemma complete_succeeds:
  assumes "r \<in> set (db_tasks db)" and "holds_lease l r" and "ml_schema_v2 l"
    and "has_event (ml_event_id l) db"
  obtains db' where "complete_finalizer_task env t l (status_value Materialized) reason clip metadata out_root db =
      Inr (True, db')"
    and "outcome_row t True (status_value Materialized) [] clip metadata out_root r \<in> set (db_tasks db')"
    and "\<exists>ev. dget (db_events db') (ml_event_id l) = Some ev \<and>
           ep_media_status ev = status_value Materialized"
proof -
  let ?f = "outcome_row t True (status_value Materialized) [] clip metadata out_root"
  let ?upd = "guarded_update (outcome_guard l) ?f db"
  have "outcome_guard l r" using assms(2,3) by (simp add: outcome_guard_def)
  then have "fst ?upd" using assms(1) by auto
  then have "complete_finalizer_task env t l (status_value Materialized) reason clip metadata out_root db =
      Inr (True, project_event t (ml_event_id l) (status_value Materialized) (phase_value Terminal) []
        [] (snd ?upd))"
    using assms(3,4)
    by (simp add: complete_finalizer_task_def outcome_statuses_def name_simps Let_def
        project_changed_def has_event_def)
  then show ?thesis
    using that \<open>outcome_guard l r\<close> assms(1,4) by (simp add: update_where_member projected_status)
qed

lemma claimed_row_handoff:
  "handoff_guard l (rolling_claim_row t token w phase secs r) \<longleftrightarrow>
     et_event_id r = ml_event_id l \<and> ml_owner l = w \<and> ml_token l = token \<and>
     ml_generation l = et_lease_generation r + 1 \<and> ml_phase l = phase"
  by (auto simp: handoff_guard_def holds_lease_def has_fence_def claimed_row)

lemma handoff_row_transfer:
  "holds_lease l r \<Longrightarrow> h \<noteq> [] \<Longrightarrow> json_text env h ''attempt_token'' = Some (ml_token l) \<Longrightarrow>
   transfer_guard env l (handoff_row env t sink h secs r)"
  by (simp add: transfer_guard_def handoff_row_def row_defs queued_handoff_def holds_lease_def
      has_fence_def)

lemma transferred_row_holds:
  "transfer_guard env l r \<Longrightarrow>
   holds_lease (l\<lparr>ml_owner := w, ml_phase := p\<rparr>)
     (finalizer_claim_row t sink w secs mode (ml_token l) (ml_generation l) r)"
  by (simp add: transfer_guard_def finalizer_claim_row_def row_defs holds_lease_def has_fence_def)

lemma outcome_row_result:
  "holds_lease l r \<Longrightarrow> clip \<noteq> [] \<Longrightarrow>
   et_event_id (outcome_row t True (status_value Materialized) [] clip metadata out_root r) = ml_event_id l \<and>
   task_state_of (outcome_row t True (status_value Materialized) [] clip metadata out_root r) =
     Closed (ml_generation l) \<and>
   et_mat_status (outcome_row t True (status_value Materialized) [] clip metadata out_root r) =
     status_value Materialized \<and>
   et_clip_path (outcome_row t True (status_value Materialized) [] clip metadata out_root r) = Some clip"
  by (simp add: outcome_row_def Let_def row_defs task_state_of_def is_terminal_def name_simps
      holds_lease_def has_fence_def coalesce_def null_if_empty_def)

text \<open>
  C9: a worker that claims a task, persists a complete handoff with its token, hands the lease over to
  the finalizer and commits the outcome succeeds in every step, and at the end the task is closed as
  materialized in its own generation with the clip recorded, and so is the event.
\<close>

theorem claimed_task_reaches_its_evidence:
  assumes claim: "claim_rolling_task env ta token e w phase secs db = Inr (Some l, db1)"
    and v2: "te_v2 env" and token: "token \<noteq> []" "0 < ml_generation l"
    and event: "dget (db_events db) e \<noteq> None"
    and handoff: "check_handoff env h = Inr ()" "json_text env h ''attempt_token'' = Some token"
    and clip: "clip \<noteq> []"
  shows "\<exists>db2 db3 db4 l' r ev.
    persist_finalizer_handoff env tb l sink h secs db1 = Inr (True, db2) \<and>
    claim_finalizer_task env tc locked token' e sink w' secs (Some l) db2 =
      Inr (\<lparr>fc_status = ''claimed'', fc_lease = Some l'\<rparr>, db3) \<and>
    complete_finalizer_task env td l' (status_value Materialized) reason clip metadata out_root db3 =
      Inr (True, db4) \<and>
    r \<in> set (db_tasks db4) \<and> et_event_id r = e \<and> task_state_of r = Closed (ml_generation l) \<and>
    et_mat_status r = status_value Materialized \<and> et_clip_path r = Some clip \<and>
    dget (db_events db4) e = Some ev \<and> ep_media_status ev = status_value Materialized"
proof -
  from claim v2 obtain r where r: "r \<in> set (db_tasks db)" "rolling_claim_guard ta e r"
    and l: "ml_event_id l = e" "ml_generation l = et_lease_generation r + 1" "ml_token l = token"
      "ml_owner l = w" "ml_phase l = phase" "ml_schema_v2 l"
    and db1: "db_tasks db1 = update_where (rolling_claim_guard ta e)
           (rolling_claim_row ta token w phase (max 1 secs)) (db_tasks db)"
    by (rule claim_granted)
  let ?r1 = "rolling_claim_row ta token w phase (max 1 secs) r"
  let ?r2 = "handoff_row env tb sink h (max 1 secs) ?r1"
  let ?mode = "[(''claim_mode'', PStr ''exact_handoff_transfer'')]"
  let ?r3 = "finalizer_claim_row tc sink w' (max 1 secs) ?mode (ml_token l) (ml_generation l) ?r2"
  let ?l = "l\<lparr>ml_owner := w', ml_phase := phase_value Finalizing\<rparr>"
  have "has_event e db" using event by (simp add: has_event_def)
  then have e1: "has_event e db1"
    using claim v2 by (auto simp: claim_rolling_task_def Let_def split: option.splits if_splits)
  have r1: "?r1 \<in> set (db_tasks db1)"
    unfolding db1 using r
    by (rule update_where_member [where P = "rolling_claim_guard ta e"
          and f = "rolling_claim_row ta token w phase (max 1 secs)"])
  have g1: "handoff_guard l ?r1"
    using l r(2) by (simp add: claimed_row_handoff rolling_claim_guard_def)
  obtain db2 where p: "persist_finalizer_handoff env tb l sink h secs db1 = Inr (True, db2)"
    "?r2 \<in> set (db_tasks db2)" "\<And>e. has_event e db2 = has_event e db1"
    using persist_succeeds [OF r1 g1 l(6) handoff(1)] by blast
  have "h \<noteq> []" using handoff(2) by (auto simp: json_text_def)
  then have g2: "transfer_guard env l ?r2"
    using handoff_row_transfer g1 handoff(2) l(3) by (simp add: handoff_guard_def)
  have "check_expected_lease e l = Inr ()" using l token by (simp add: check_expected_lease_def)
  then obtain db3 where c: "claim_finalizer_task env tc locked token' e sink w' secs (Some l) db2 =
      Inr (\<lparr>fc_status = ''claimed'', fc_lease = Some ?l\<rparr>, db3)"
    "?r3 \<in> set (db_tasks db3)" "\<And>e. has_event e db3 = has_event e db2"
    using transfer_succeeds [OF p(2) g2 v2] by blast
  have g3: "holds_lease ?l ?r3" by (rule transferred_row_holds [OF g2])
  have hl: "ml_schema_v2 ?l" "has_event (ml_event_id ?l) db3" using c(3) p(3) e1 l by simp_all
  obtain db4 where d: "complete_finalizer_task env td ?l (status_value Materialized) reason clip
      metadata out_root db3 = Inr (True, db4)"
    "outcome_row td True (status_value Materialized) [] clip metadata out_root ?r3 \<in> set (db_tasks db4)"
    "\<exists>ev. dget (db_events db4) (ml_event_id ?l) = Some ev \<and> ep_media_status ev = status_value Materialized"
    using complete_succeeds [OF c(2) g3 hl] by blast
  show ?thesis
    using p(1) c(1) d outcome_row_result [OF g3 clip] l(1) by auto
qed

definition sample_handoff :: json where
  "sample_handoff =
     [(''attempt_token'', PStr ''k''), (''source_id'', PStr ''cam''), (''runtime_epoch_id'', PStr ''r''),
      (''requested_window'', PNone), (''selected_segment_ids'', PNone), (''staging_path'', PNone),
      (''canonical_path'', PNone), (''size'', PNone), (''mtime_ns'', PNone)]"

lemma sample_handoff_ok:
  "check_handoff sample_env sample_handoff = Inr ()"
  "json_text sample_env sample_handoff ''attempt_token'' = Some ''k''"
proof -
  have "handoff_missing sample_handoff = []"
    by (simp add: handoff_missing_def handoff_required_def sample_handoff_def sorted_strings_def)
  then show "check_handoff sample_env sample_handoff = Inr ()"
    by (simp add: check_handoff_def handoff_blank_def sample_handoff_def dget_or_def str_or_empty_def
        py_or_def py_strip_def is_space_def)
  show "json_text sample_env sample_handoff ''attempt_token'' = Some ''k''"
    by (simp add: json_text_def sample_handoff_def dget_or_def)
qed

theorem claimed_task_reaches_its_evidence_witness:
  "\<exists>l db1 db2 db3 db4 l' r ev.
    claim_rolling_task sample_env 2 ''k'' ''e'' ''w'' (phase_value Image_Running) 30 sample_db = Inr (Some l, db1) \<and>
    persist_finalizer_handoff sample_env 3 l ''s'' sample_handoff 30 db1 = Inr (True, db2) \<and>
    claim_finalizer_task sample_env 4 (\<lambda>_. False) ''n'' ''e'' ''s'' ''v'' 30 (Some l) db2 =
      Inr (\<lparr>fc_status = ''claimed'', fc_lease = Some l'\<rparr>, db3) \<and>
    complete_finalizer_task sample_env 5 l' (status_value Materialized) [] ''c'' [] [] db3 =
      Inr (True, db4) \<and>
    r \<in> set (db_tasks db4) \<and> et_event_id r = ''e'' \<and> task_state_of r = Closed (ml_generation l) \<and>
    et_mat_status r = status_value Materialized \<and> et_clip_path r = Some ''c'' \<and>
    dget (db_events db4) ''e'' = Some ev \<and> ep_media_status ev = status_value Materialized"
proof -
  have v2: "te_v2 sample_env" by (simp add: sample_env_def v2_env_def)
  have mem: "sample_task \<in> set (db_tasks sample_db)" by (simp add: sample_db_def)
  obtain l db1 where c1: "claim_rolling_task sample_env 2 ''k'' ''e'' ''w'' (phase_value Image_Running) 30
      sample_db = Inr (Some l, db1)"
    using claim_succeeds [OF mem sample_claimable image_phase v2] .
  have "0 < ml_generation l"
    by (rule claim_granted [OF c1 v2]) (simp add: sample_db_def sample_task_def)
  then show ?thesis
    using c1 claimed_task_reaches_its_evidence [OF c1 v2, where h = sample_handoff and clip = "''c''"
        and tb = 3 and sink = "''s''" and tc = 4 and locked = "\<lambda>_. False" and token' = "''n''"
        and w' = "''v''" and td = 5 and reason = "[]" and metadata = "[]" and out_root = "[]"]
      sample_handoff_ok
    by (simp add: sample_db_def)
qed

section \<open>Limits\<close>

text \<open>
  The claim of the old schema writes a running row without a lease.  On the columns of migration 029,
  where a connection falls back to it after one failed check, no recovery pass ever touches such a
  row again and no rolling claim takes it.
\<close>

lemma legacy_claim_unrecoverable:
  assumes "et_lease_token r = None"
  shows "recovered_row env t' sources (legacy_claim_row t r) = legacy_claim_row t r"
    and "\<not> rolling_claim_guard t' e (legacy_claim_row t r)"
proof -
  have row: "et_lease_token (legacy_claim_row t r) = None"
    "et_mat_status (legacy_claim_row t r) = status_value Running"
    using assms by (simp_all add: legacy_claim_row_def row_defs)
  then have "\<not> is_claimable (legacy_claim_row t r)" using claimable_not_running by blast
  then show "\<not> rolling_claim_guard t' e (legacy_claim_row t r)"
    "recovered_row env t' sources (legacy_claim_row t r) = legacy_claim_row t r"
    using row by (simp_all add: rolling_claim_guard_def recovered_row_cases ready_expiry_guard_def
        sla_guard_def not_ran_out_guards no_lease_not_ran_out)
qed

text \<open>
  C39: a task that is claimed over a connection whose schema check failed is beyond recovery: no pass
  over the columns of migration 029 changes it, at any time and for any sources, and no rolling claim
  is granted for it.
\<close>

theorem unfenced_claim_is_never_recovered:
  assumes "one_task_per_event (db_tasks db)" and "r \<in> set (db_tasks db)" and "et_lease_token r = None"
    and "claim_rolling_task (env\<lparr>te_v2 := False\<rparr>) t token (et_event_id r) w phase secs db = Inr (Some l, db')"
    and "te_v2 env"
  shows "legacy_claim_row t r \<in> set (db_tasks (snd (recover_and_expire_rolling_tasks env t' sources db'))) \<and>
    claim_rolling_task env t' token' (et_event_id r) w' phase' secs' db' \<noteq> Inr (Some l', db'')"
proof
  have tasks: "db_tasks db' =
      update_where (legacy_claim_guard t (et_event_id r)) (legacy_claim_row t) (db_tasks db)"
    and "\<exists>c \<in> set (db_tasks db). legacy_claim_guard t (et_event_id r) c"
    using assms(4) fetch_one_Some
    by (fastforce simp: claim_rolling_task_def Let_def split: option.splits if_splits)+
  then have "legacy_claim_guard t (et_event_id r) r"
    using one_task_unique [OF assms(1,2)] by (metis legacy_claim_guard_def)
  then have mem: "legacy_claim_row t r \<in> set (db_tasks db')"
    unfolding tasks using assms(2) by (simp add: update_where_member)
  then show "legacy_claim_row t r \<in> set (db_tasks (snd (recover_and_expire_rolling_tasks env t' sources db')))"
    using assms(5) legacy_claim_unrecoverable(1) [OF assms(3), of env t' sources t]
    by (simp add: recover_and_expire_rolling_tasks_def recover_fenced_tasks) (metis image_eqI)
  have "\<not> rolling_claim_guard t' (et_event_id r) c" if c: "c \<in> set (db_tasks db')" for c
  proof (cases "et_event_id c = et_event_id r")
    case True
    obtain x where x: "x \<in> set (db_tasks db)"
      "c = (if legacy_claim_guard t (et_event_id r) x then legacy_claim_row t x else x)"
      using c unfolding tasks by (auto simp: update_where_def)
    then have "et_event_id x = et_event_id c" by (simp add: legacy_claim_row_def row_defs)
    with True x(1) have "x = r" using one_task_unique [OF assms(1,2)] by metis
    with x(2) have "c = legacy_claim_row t r" using \<open>legacy_claim_guard t (et_event_id r) r\<close> by simp
    then show ?thesis using legacy_claim_unrecoverable(2) [OF assms(3)] by simp
  qed (simp add: rolling_claim_guard_def)
  then show "claim_rolling_task env t' token' (et_event_id r) w' phase' secs' db' \<noteq> Inr (Some l', db'')"
    using claim_granted [of env t' token' "et_event_id r" w' phase' secs' db' l' db''] assms(5) by blast
qed

theorem unfenced_claim_is_never_recovered_witness:
  "\<exists>l db'. claim_rolling_task (sample_env\<lparr>te_v2 := False\<rparr>) 2 ''k'' (et_event_id sample_task) ''w''
       (phase_value Image_Running) 30 sample_db = Inr (Some l, db') \<and>
     legacy_claim_row 2 sample_task \<in> set (db_tasks (snd (recover_and_expire_rolling_tasks sample_env 99 [] db'))) \<and>
     claim_rolling_task sample_env 99 ''n'' (et_event_id sample_task) ''v'' (phase_value Image_Running) 30 db' \<noteq>
       Inr (Some sample_lease, sample_db)"
proof -
  have "legacy_claim_guard 2 (et_event_id sample_task) sample_task"
    using sample_claimable by (simp add: legacy_claim_guard_def rolling_claim_guard_def)
  then obtain l db' where c: "claim_rolling_task (sample_env\<lparr>te_v2 := False\<rparr>) 2 ''k''
      (et_event_id sample_task) ''w'' (phase_value Image_Running) 30 sample_db = Inr (Some l, db')"
    by (simp add: claim_rolling_task_def Let_def sample_db_def)
  have one: "one_task_per_event (db_tasks sample_db)" using sample_ok by (simp add: table_ok_def)
  have mem: "sample_task \<in> set (db_tasks sample_db)" "et_lease_token sample_task = None" "te_v2 sample_env"
    by (simp_all add: sample_db_def sample_task_def sample_env_def v2_env_def)
  note never = unfenced_claim_is_never_recovered [OF one mem(1,2) c mem(3)]
  show ?thesis using c never [of 99 "[]"] by blast
qed

end
