(* ===== verification/SourceRotation.thy ===== *)
theory SourceRotation
  imports Lifecycle "HOL-Library.Product_Lexorder"
begin

text \<open>
  The rotation of the sources in the evidence lanes: \<^verbatim>\<open>services/media-worker/app/source_rotation.py\<close>
  and the parts of \<^verbatim>\<open>services/media-worker/app/worker.py\<close> that call it: the turn of the sources,
  the fair candidate window of the remux and the image lane, and the marking of a served source.
\<close>

section \<open>Rows of the queries\<close>

text \<open>
  The columns of a task that the scheduler's queries read, with the two facts they get from other
  tables: whether the task has an evidence bundle and whether it has an image artifact.
\<close>

record ready_task =
  rt_event_id :: string
  rt_source_id :: string
  rt_replay_source_id :: "string option"
  rt_task_type :: string
  rt_clip_required :: bool
  rt_mat_status :: string
  rt_owner :: "string option"
  rt_ready_at :: "real option"
  rt_next_attempt_at :: "real option"
  rt_created_at :: real
  rt_priority :: int
  rt_replay_slot_status :: "string option"
  rt_has_bundle :: bool
  rt_has_image :: bool

datatype evidence_lane = Remux_Lane | Image_Lane

fun rotation_lane :: "evidence_lane \<Rightarrow> string" where
  "rotation_lane Remux_Lane = ''remux''"
| "rotation_lane Image_Lane = ''image''"

text \<open>The predicates of the two lanes, in the turn query and in the candidate queries.\<close>

fun lane_task :: "evidence_lane \<Rightarrow> ready_task \<Rightarrow> bool" where
  "lane_task Remux_Lane r \<longleftrightarrow> rt_task_type r \<noteq> ''image_only'' \<and> rt_clip_required r"
| "lane_task Image_Lane r \<longleftrightarrow> rt_task_type r = ''image_only'' \<and> \<not> rt_clip_required r"

definition due_at :: "ready_task \<Rightarrow> real option" where
  "due_at r = (case rt_next_attempt_at r of Some x \<Rightarrow> Some x | None \<Rightarrow> rt_ready_at r)"

text \<open>
  \<open>COALESCE(NULLIF(source_id, ''), NULLIF(replay_source_id, ''), '')\<close>.  The column
  \<open>source_id\<close> is never null, so \<open>COALESCE(source_id, replay_source_id, '')\<close> is the column itself.
\<close>

definition fair_source_key :: "ready_task \<Rightarrow> string" where
  "fair_source_key r =
     (if rt_source_id r \<noteq> [] then rt_source_id r
      else case rt_replay_source_id r of Some s \<Rightarrow> s | None \<Rightarrow> [])"

definition filter_source :: "ready_task \<Rightarrow> string" where
  "filter_source r = rt_source_id r"

text \<open>The conditions that the turn query and the candidate queries share.\<close>

definition runnable :: "real \<Rightarrow> string list \<Rightarrow> evidence_lane \<Rightarrow> ready_task \<Rightarrow> bool" where
  "runnable t configured lane r \<longleftrightarrow>
     rt_mat_status r \<in> claimable_materialization_statuses \<and> lane_task lane r \<and>
     (configured = [] \<or> filter_source r \<in> set configured) \<and>
     (case rt_ready_at r of None \<Rightarrow> False | Some x \<Rightarrow> x \<le> t) \<and>
     (case due_at r of None \<Rightarrow> False | Some x \<Rightarrow> x \<le> t) \<and>
     (case rt_owner r of None \<Rightarrow> True | Some p \<Rightarrow> p = ''rolling'')"

section \<open>The rotation table\<close>

record rotation_row =
  ro_served_seq :: int
  ro_served_count :: int
  ro_last_served_at :: real

record rotation_db =
  rd_rows :: "(string \<times> string, rotation_row) dict"
  rd_seq :: int

definition never_served_seq :: int where
  "never_served_seq = -1"

definition served_seq :: "evidence_lane \<Rightarrow> rotation_db \<Rightarrow> string \<Rightarrow> int" where
  "served_seq lane d s =
     (case dget (rd_rows d) (rotation_lane lane, s) of
        None \<Rightarrow> never_served_seq | Some r \<Rightarrow> ro_served_seq r)"

record source_turn =
  st_source_id :: string
  st_top_priority :: int
  st_served_seq :: int
  st_ready_tasks :: nat

definition turn_never_served :: "source_turn \<Rightarrow> bool" where
  "turn_never_served x \<longleftrightarrow> st_served_seq x \<le> never_served_seq"

section \<open>Whose turn it is\<close>

text \<open>\<open>MAX\<close> and \<open>MIN\<close> over the rows of a group, which is never empty.\<close>

fun max_of :: "int list \<Rightarrow> int" where
  "max_of [] = 0"
| "max_of (x # xs) = foldl max x xs"

fun min_of :: "real list \<Rightarrow> real" where
  "min_of [] = 0"
| "min_of (x # xs) = foldl min x xs"

definition group_rows :: "ready_task list \<Rightarrow> string \<Rightarrow> ready_task list" where
  "group_rows rows s = filter (\<lambda>r. fair_source_key r = s) rows"

definition oldest_due :: "ready_task list \<Rightarrow> real" where
  "oldest_due rows = min_of (List.map_filter due_at rows)"

definition top_priority :: "ready_task list \<Rightarrow> int" where
  "top_priority rows = max_of (map rt_priority rows)"

text \<open>
  \<open>ORDER BY top_priority DESC, served_seq, oldest_due_at, source_id\<close>; the order of the names is the
  database's collation, the argument \<open>coll\<close>.
\<close>

definition turn_key ::
  "(string \<Rightarrow> nat) \<Rightarrow> evidence_lane \<Rightarrow> rotation_db \<Rightarrow> ready_task list \<Rightarrow> string \<Rightarrow>
   int \<times> int \<times> real \<times> nat" where
  "turn_key coll lane d ready s =
     (- top_priority (group_rows ready s), served_seq lane d s, oldest_due (group_rows ready s), coll s)"

definition ready_rows ::
  "real \<Rightarrow> string list \<Rightarrow> string list \<Rightarrow> evidence_lane \<Rightarrow> ready_task list \<Rightarrow> ready_task list" where
  "ready_rows t configured excluded lane rows =
     filter (\<lambda>r. runnable t configured lane r \<and> fair_source_key r \<notin> set excluded) rows"

definition next_source_turns ::
  "(string \<Rightarrow> nat) \<Rightarrow> real \<Rightarrow> evidence_lane \<Rightarrow> int \<Rightarrow> string list \<Rightarrow> string list \<Rightarrow> ready_task list \<Rightarrow>
   rotation_db \<Rightarrow> source_turn list" where
  "next_source_turns coll t lane limit configured excluded rows d =
     (if limit \<le> 0 then []
      else
        (let ready = ready_rows t configured excluded lane rows
         in map (\<lambda>s. \<lparr>st_source_id = s, st_top_priority = top_priority (group_rows ready s),
                  st_served_seq = served_seq lane d s, st_ready_tasks = length (group_rows ready s)\<rparr>)
              (take (nat (max 1 limit))
                (sort_key (turn_key coll lane d ready) (remdups (map fair_source_key ready))))))"

text \<open>
  The callers.  Without migration 033, after a failed check of it, or when the query raises (\<open>fails\<close>),
  the answer is no restriction.  \<open>saturated\<close> are the sources that hold all of their slots.
\<close>

definition turn_sources ::
  "(string \<Rightarrow> nat) \<Rightarrow> bool \<Rightarrow> bool \<Rightarrow> real \<Rightarrow> evidence_lane \<Rightarrow> int \<Rightarrow> string list \<Rightarrow> string list \<Rightarrow>
   ready_task list \<Rightarrow> rotation_db \<Rightarrow> string list" where
  "turn_sources coll enabled fails t lane limit configured saturated rows d =
     (if \<not> enabled \<or> fails then []
      else map st_source_id
        (next_source_turns coll t lane (max 1 limit) configured saturated rows d))"

section \<open>Marking a served source\<close>

text \<open>
  The statement evaluates \<open>nextval\<close> for the row it would insert and, when the row exists, once more
  for the update.
\<close>

definition mark_served :: "real \<Rightarrow> evidence_lane \<Rightarrow> string \<Rightarrow> rotation_db \<Rightarrow> rotation_db" where
  "mark_served t lane source_id d =
     (let key = py_strip source_id; k = (rotation_lane lane, key)
      in if key = [] then d
         else case dget (rd_rows d) k of
             None \<Rightarrow>
               d\<lparr>rd_rows := dset k \<lparr>ro_served_seq = rd_seq d + 1, ro_served_count = 1,
                   ro_last_served_at = t\<rparr> (rd_rows d), rd_seq := rd_seq d + 1\<rparr>
           | Some r \<Rightarrow>
               d\<lparr>rd_rows := dset k \<lparr>ro_served_seq = rd_seq d + 2,
                   ro_served_count = ro_served_count r + 1, ro_last_served_at = t\<rparr> (rd_rows d),
                 rd_seq := rd_seq d + 2\<rparr>)"

definition mark_source_served ::
  "bool \<Rightarrow> bool \<Rightarrow> real \<Rightarrow> evidence_lane \<Rightarrow> string \<Rightarrow> rotation_db \<Rightarrow> rotation_db" where
  "mark_source_served enabled fails t lane source_id d =
     (if \<not> enabled \<or> source_id = [] \<or> fails then d else mark_served t lane source_id d)"

definition rotation_snapshot :: "evidence_lane \<Rightarrow> int \<Rightarrow> rotation_db \<Rightarrow> (string \<times> rotation_row) list" where
  "rotation_snapshot lane limit d =
     take (nat (max 1 limit)) (sort_key (\<lambda>(_, r). ro_served_seq r)
       (map (\<lambda>((_, s), r). (s, r)) (filter (\<lambda>((l, _), _). l = rotation_lane lane) (rd_rows d))))"

section \<open>The fair candidate window\<close>

definition candidate :: "real \<Rightarrow> string list \<Rightarrow> string list \<Rightarrow> evidence_lane \<Rightarrow> ready_task \<Rightarrow> bool" where
  "candidate t configured turns lane r \<longleftrightarrow>
     runnable t configured lane r \<and> (turns = [] \<or> filter_source r \<in> set turns) \<and>
     (case lane of
        Remux_Lane \<Rightarrow> rt_replay_slot_status r \<noteq> Some ''active'' \<and> \<not> rt_has_bundle r
      | Image_Lane \<Rightarrow> \<not> rt_has_image r)"

definition due_of :: "ready_task \<Rightarrow> real" where
  "due_of r = (case due_at r of None \<Rightarrow> 0 | Some x \<Rightarrow> x)"

definition ready_of :: "ready_task \<Rightarrow> real" where
  "ready_of r = (case rt_ready_at r of None \<Rightarrow> 0 | Some x \<Rightarrow> x)"

text \<open>\<open>ROW_NUMBER() OVER (PARTITION BY fair_source_key ORDER BY ...)\<close>\<close>

definition partition_key :: "ready_task \<Rightarrow> int \<times> real \<times> real \<times> real" where
  "partition_key r = (- rt_priority r, due_of r, ready_of r, rt_created_at r)"

definition ranked_group :: "ready_task list \<Rightarrow> string \<Rightarrow> (ready_task \<times> nat) list" where
  "ranked_group rows s =
     (let g = sort_key partition_key (group_rows rows s) in zip g [1..<Suc (length g)])"

definition ranked_candidates :: "ready_task list \<Rightarrow> (ready_task \<times> nat) list" where
  "ranked_candidates rows = concat (map (ranked_group rows) (remdups (map fair_source_key rows)))"

definition candidate_order :: "ready_task \<times> nat \<Rightarrow> int \<times> nat \<times> real \<times> real \<times> real" where
  "candidate_order = (\<lambda>(r, k). (- rt_priority r, k, due_of r, ready_of r, rt_created_at r))"

definition ready_lag_ms :: "real \<Rightarrow> ready_task \<Rightarrow> int" where
  "ready_lag_ms t r = max 0 (floor ((t - ready_of r) * 1000))"

definition candidate_window ::
  "real \<Rightarrow> string list \<Rightarrow> string list \<Rightarrow> evidence_lane \<Rightarrow> nat \<Rightarrow> nat \<Rightarrow> ready_task list \<Rightarrow>
   (ready_task \<times> nat) list" where
  "candidate_window t configured turns lane limit per_source rows =
     take limit (sort_key candidate_order
       (filter (\<lambda>(r, k). k \<le> per_source)
         (ranked_candidates (filter (candidate t configured turns lane) rows))))"

text \<open>\<open>_fair_source_rank_params\<close>: the limits of the window, with the configured one as default.\<close>

definition unbounded_source_rank :: int where
  "unbounded_source_rank = 1000000"

definition fair_source_rank_params :: "int \<Rightarrow> int option \<Rightarrow> int option \<Rightarrow> int \<times> int" where
  "fair_source_rank_params max_per_poll limit per_source_limit =
     (let effective = (case limit of Some l \<Rightarrow> max 1 l | None \<Rightarrow> max_per_poll)
      in (effective,
          case per_source_limit of Some p \<Rightarrow> max 1 p | None \<Rightarrow> max unbounded_source_rank effective))"

definition candidate_tasks ::
  "real \<Rightarrow> string list \<Rightarrow> evidence_lane \<Rightarrow> int \<Rightarrow> int option \<Rightarrow> int option \<Rightarrow> string list \<Rightarrow>
   ready_task list \<Rightarrow> (ready_task \<times> int) list" where
  "candidate_tasks t configured lane max_per_poll limit per_source_limit turns rows =
     (let (n, p) = fair_source_rank_params max_per_poll limit per_source_limit
      in map (\<lambda>(r, k). (r, ready_lag_ms t r))
           (candidate_window t configured turns lane (nat n) (nat p) rows))"

section \<open>A poll of the remux lane\<close>

text \<open>
  The loop over the candidates: what happens to a row is the argument \<open>admit\<close>: no capacity ends the
  loop, a rejected or failed row is passed over, a started one counts and marks its source.
\<close>

datatype admission = No_Capacity | Not_Started | Started

definition row_source :: "ready_task \<Rightarrow> string" where
  "row_source r =
     (if rt_source_id r \<noteq> [] then rt_source_id r
      else case rt_replay_source_id r of Some s \<Rightarrow> s | None \<Rightarrow> [])"

fun admit_rows ::
  "(ready_task \<Rightarrow> admission) \<Rightarrow> (string \<Rightarrow> rotation_db \<Rightarrow> rotation_db) \<Rightarrow> nat \<Rightarrow> ready_task list \<Rightarrow>
   rotation_db \<Rightarrow> ready_task list \<times> rotation_db" where
  "admit_rows admit mark room [] d = ([], d)"
| "admit_rows admit mark room (r # rows) d =
     (if room = 0 then ([], d)
      else case admit r of
          No_Capacity \<Rightarrow> ([], d)
        | Not_Started \<Rightarrow> admit_rows admit mark room rows d
        | Started \<Rightarrow>
            (let (started, d') = admit_rows admit mark (room - 1) rows (mark (row_source r) d)
             in (r # started, d')))"

definition remux_poll ::
  "(string \<Rightarrow> nat) \<Rightarrow> real \<Rightarrow> int \<Rightarrow> int \<Rightarrow> int \<Rightarrow> int option \<Rightarrow> string list \<Rightarrow> string list \<Rightarrow>
   (ready_task \<Rightarrow> admission) \<Rightarrow> ready_task list \<Rightarrow> rotation_db \<Rightarrow> ready_task list \<times> rotation_db" where
  "remux_poll coll t max_workers active max_per_poll source_limit configured saturated admit rows d =
     (let available = max_workers - active
      in if available \<le> 0 then ([], d)
         else
           (let claim_limit = min (max 1 max_per_poll) available;
                turns = turn_sources coll True False t Remux_Lane available configured saturated rows d;
                fetched = candidate_tasks t configured Remux_Lane max_per_poll
                            (Some (max claim_limit max_workers)) source_limit turns rows
            in admit_rows admit (mark_source_served True False t Remux_Lane) (nat claim_limit)
                 (map fst fetched) d))"

end
