(* ===== verification/RotationFairness.thy ===== *)
theory RotationFairness
  imports SourceRotation
begin

text \<open>
  What the rotation of the sources guarantees: a bounded wait for every source of the highest
  priority, a place in the candidate window for every source of a turn, and where the turn is lost: a
  source whose ready tasks are no candidates.
\<close>

section \<open>Round robin\<close>

text \<open>
  Serving puts a client behind all others and moves no other client.  The polls serve lists of
  clients; a client is passed over when a poll does not serve it but one that is not behind it.
\<close>

fun passed_over ::
  "('s \<Rightarrow> 'c \<Rightarrow> int) \<Rightarrow> ('t \<Rightarrow> 'c \<Rightarrow> 's \<Rightarrow> 's) \<Rightarrow> 'c \<Rightarrow> 's \<Rightarrow> ('t \<times> 'c list) list \<Rightarrow> bool" where
  "passed_over place serve c s [] \<longleftrightarrow> True"
| "passed_over place serve c s ((t, cs) # css) \<longleftrightarrow>
     c \<notin> set cs \<and> (\<exists>x \<in> set cs. place s x \<le> place s c) \<and>
     passed_over place serve c (fold (serve t) cs s) css"

locale round_robin =
  fixes place :: "'s \<Rightarrow> 'c \<Rightarrow> int" and serve :: "'t \<Rightarrow> 'c \<Rightarrow> 's \<Rightarrow> 's" and invar :: "'s \<Rightarrow> bool"
    and client :: "'c \<Rightarrow> bool"
  assumes serve_last: "invar s \<Longrightarrow> client c \<Longrightarrow> place s x < place (serve t c s) c"
    and serve_others: "client c \<Longrightarrow> x \<noteq> c \<Longrightarrow> place (serve t c s) x = place s x"
    and serve_keeps: "invar s \<Longrightarrow> client c \<Longrightarrow> invar (serve t c s)"
begin

lemma fold_keeps: "invar s \<Longrightarrow> list_all client cs \<Longrightarrow> invar (fold (serve t) cs s)"
  by (induction cs arbitrary: s) (auto intro: serve_keeps)

lemma fold_others: "list_all client cs \<Longrightarrow> x \<notin> set cs \<Longrightarrow> place (fold (serve t) cs s) x = place s x"
  by (induction cs arbitrary: s) (auto simp: serve_others)

lemma place_climbs: "invar s \<Longrightarrow> client c \<Longrightarrow> place s x \<le> place (serve t c s) x"
  by (cases "x = c") (auto simp: serve_others less_imp_le serve_last)

lemma fold_climbs: "invar s \<Longrightarrow> list_all client cs \<Longrightarrow> place s x \<le> place (fold (serve t) cs s) x"
proof (induction cs arbitrary: s)
  case (Cons c cs)
  then have "place s x \<le> place (serve t c s) x"
    "place (serve t c s) x \<le> place (fold (serve t) cs (serve t c s)) x"
    by (auto intro: place_climbs serve_keeps)
  then show ?case by simp
qed simp

lemma fold_served:
  "invar s \<Longrightarrow> list_all client cs \<Longrightarrow> x \<in> set cs \<Longrightarrow> place s y < place (fold (serve t) cs s) x"
proof (induction cs arbitrary: s)
  case (Cons c cs)
  show ?case
  proof (cases "x = c")
    case True
    have "place s y < place (serve t c s) c" using Cons.prems by (auto intro: serve_last)
    also have "\<dots> \<le> place (fold (serve t) cs (serve t c s)) c"
      using Cons.prems by (auto intro: fold_climbs serve_keeps)
    finally show ?thesis using True by simp
  next
    case False
    have "place s y \<le> place (serve t c s) y" using Cons.prems by (auto intro: place_climbs)
    also have "\<dots> < place (fold (serve t) cs (serve t c s)) x"
      using Cons False by (auto intro: serve_keeps)
    finally show ?thesis by simp
  qed
qed simp

text \<open>Every poll that passes over a client takes one of those before it to the end.\<close>

lemma passed_over_bound:
  assumes "finite U" and "invar s" and "\<forall>(t, cs) \<in> set css. set cs \<subseteq> U \<and> list_all client cs"
    and "passed_over place serve c s css"
  shows "length css \<le> card {x \<in> U. x \<noteq> c \<and> place s x \<le> place s c}"
  using assms(2-4)
proof (induction css arbitrary: s)
  case (Cons tcs css)
  obtain t cs where tcs: "tcs = (t, cs)" by (cases tcs)
  let ?before = "\<lambda>s. {x \<in> U. x \<noteq> c \<and> place s x \<le> place s c}"
  let ?s = "fold (serve t) cs s"
  have cs: "list_all client cs" "set cs \<subseteq> U" "c \<notin> set cs" using Cons.prems tcs by auto
  obtain x where x: "x \<in> set cs" "place s x \<le> place s c" using Cons.prems tcs by auto
  have stays: "place ?s c = place s c" using fold_others cs by simp
  have "place s c < place ?s x" using fold_served [of s cs x c t] Cons.prems cs x by simp
  then have gone: "x \<notin> ?before ?s" using stays by simp
  have there: "x \<in> ?before s" using x cs by auto
  have "?before ?s \<subseteq> ?before s"
  proof
    fix y assume y: "y \<in> ?before ?s"
    have "place s y \<le> place ?s y" using fold_climbs Cons.prems(1) cs(1) .
    with y stays show "y \<in> ?before s" by simp
  qed
  with gone there have "?before ?s \<subset> ?before s" by blast
  then have "card (?before ?s) < card (?before s)" using assms(1) by (intro psubset_card_mono) auto
  moreover have "length css \<le> card (?before ?s)"
    using Cons.prems cs tcs by (intro Cons.IH fold_keeps) auto
  ultimately show ?case by simp
qed simp

lemma bounded_wait:
  assumes "finite U" and "c \<in> U" and "invar s"
    and "\<forall>(t, cs) \<in> set css. set cs \<subseteq> U \<and> list_all client cs"
    and "passed_over place serve c s css"
  shows "length css < card U"
proof -
  have "length css \<le> card {x \<in> U. x \<noteq> c \<and> place s x \<le> place s c}"
    using assms by (intro passed_over_bound)
  also have "\<dots> < card U" using assms(1,2) by (intro psubset_card_mono) auto
  finally show ?thesis .
qed

end

section \<open>The rotation table as a round robin\<close>

definition rotation_ok :: "rotation_db \<Rightarrow> bool" where
  "rotation_ok d \<longleftrightarrow> 0 \<le> rd_seq d \<and> (\<forall>k r. dget (rd_rows d) k = Some r \<longrightarrow> ro_served_seq r \<le> rd_seq d)"

definition plain_source :: "string \<Rightarrow> bool" where
  "plain_source s \<longleftrightarrow> s \<noteq> [] \<and> py_strip s = s"

lemma served_seq_bound: "rotation_ok d \<Longrightarrow> served_seq lane d s \<le> rd_seq d"
  by (auto simp: rotation_ok_def served_seq_def never_served_seq_def split: option.splits)

lemma mark_served_seq:
  assumes "plain_source s"
  shows "served_seq lane (mark_served t lane s d) x =
      (if x = s then rd_seq (mark_served t lane s d) else served_seq lane d x)"
    and "rd_seq d < rd_seq (mark_served t lane s d)"
  using assms
  by (auto simp: mark_served_def served_seq_def plain_source_def Let_def dict_simps split: option.splits)

lemma mark_served_other_lane:
  "lane \<noteq> lane' \<Longrightarrow> served_seq lane' (mark_served t lane s d) x = served_seq lane' d x"
  by (cases lane; cases lane')
    (auto simp: mark_served_def served_seq_def Let_def dict_simps split: option.splits)

lemma mark_served_ok: "rotation_ok d \<Longrightarrow> rotation_ok (mark_served t lane s d)"
  by (auto simp: mark_served_def rotation_ok_def Let_def dict_simps split: option.splits if_splits)
    (smt (verit))+

interpretation lane_rotation:
  round_robin "served_seq lane" "\<lambda>t. mark_served t lane" rotation_ok plain_source
proof
  fix d s x and t :: real assume "rotation_ok d" "plain_source s"
  then show "served_seq lane d x < served_seq lane (mark_served t lane s d) s"
    using served_seq_bound [of d lane x] mark_served_seq [of s]
    by (auto intro: le_less_trans)
qed (simp_all add: mark_served_seq mark_served_ok)

section \<open>Every source gets its turn\<close>

text \<open>
  A poll: its time, its limit, the configured and the excluded sources, and the rows it finds.  The
  sources of its turns are served.
\<close>

record poll =
  po_time :: real
  po_limit :: int
  po_configured :: "string list"
  po_excluded :: "string list"
  po_rows :: "ready_task list"

definition poll_ready :: "evidence_lane \<Rightarrow> poll \<Rightarrow> ready_task list" where
  "poll_ready lane p = ready_rows (po_time p) (po_configured p) (po_excluded p) lane (po_rows p)"

definition poll_sources :: "evidence_lane \<Rightarrow> poll \<Rightarrow> string set" where
  "poll_sources lane p = fair_source_key ` set (poll_ready lane p)"

definition poll_turns :: "(string \<Rightarrow> nat) \<Rightarrow> evidence_lane \<Rightarrow> poll \<Rightarrow> rotation_db \<Rightarrow> string list" where
  "poll_turns coll lane p d =
     turn_sources coll True False (po_time p) lane (po_limit p) (po_configured p) (po_excluded p)
       (po_rows p) d"

fun served_polls ::
  "(string \<Rightarrow> nat) \<Rightarrow> evidence_lane \<Rightarrow> poll list \<Rightarrow> rotation_db \<Rightarrow> (real \<times> string list) list" where
  "served_polls coll lane [] d = []"
| "served_polls coll lane (p # ps) d =
     (let turns = poll_turns coll lane p d
      in (po_time p, turns) #
         served_polls coll lane ps (fold (mark_served (po_time p) lane) turns d))"

text \<open>The source is ready in the poll, and no other source of the poll has a higher priority.\<close>

definition foremost :: "evidence_lane \<Rightarrow> string \<Rightarrow> poll \<Rightarrow> bool" where
  "foremost lane s p \<longleftrightarrow>
     s \<in> poll_sources lane p \<and>
     (\<forall>x \<in> poll_sources lane p.
        top_priority (group_rows (poll_ready lane p) x) \<le> top_priority (group_rows (poll_ready lane p) s))"

lemma poll_turns_eq:
  "poll_turns coll lane p d =
     take (nat (max 1 (po_limit p))) (sort_key (turn_key coll lane d (poll_ready lane p))
       (remdups (map fair_source_key (poll_ready lane p))))"
  by (simp add: poll_turns_def turn_sources_def next_source_turns_def Let_def poll_ready_def comp_def)

lemma poll_turns_sources: "set (poll_turns coll lane p d) \<subseteq> poll_sources lane p"
  using set_take_subset [of "nat (max 1 (po_limit p))"
      "sort_key (turn_key coll lane d (poll_ready lane p)) (remdups (map fair_source_key (poll_ready lane p)))"]
  by (simp add: poll_turns_eq poll_sources_def)

lemma sort_key_hd_least: "x \<in> set xs \<Longrightarrow> f (hd (sort_key f xs)) \<le> f x"
proof -
  assume "x \<in> set xs"
  then have mem: "x \<in> set (sort_key f xs)" by simp
  have "sorted (map f (sort_key f xs))" by simp
  with mem show ?thesis by (cases "sort_key f xs") auto
qed

lemma first_turn:
  assumes "s \<in> poll_sources lane p"
  shows "poll_turns coll lane p d \<noteq> []"
    and "turn_key coll lane d (poll_ready lane p) (hd (poll_turns coll lane p d)) \<le>
      turn_key coll lane d (poll_ready lane p) s"
proof -
  let ?sorted = "sort_key (turn_key coll lane d (poll_ready lane p))
      (remdups (map fair_source_key (poll_ready lane p)))"
  have s: "s \<in> set ?sorted" using assms by (simp add: poll_sources_def)
  then have ne: "?sorted \<noteq> []" by (metis empty_iff empty_set)
  then show "poll_turns coll lane p d \<noteq> []" by (simp add: poll_turns_eq)
  have "hd (poll_turns coll lane p d) = hd ?sorted" using ne by (simp add: poll_turns_eq)
  then show "turn_key coll lane d (poll_ready lane p) (hd (poll_turns coll lane p d)) \<le>
      turn_key coll lane d (poll_ready lane p) s"
    using sort_key_hd_least [of s "remdups (map fair_source_key (poll_ready lane p))"] s by simp
qed

lemma foremost_passed:
  assumes "foremost lane s p"
  shows "\<exists>x \<in> set (poll_turns coll lane p d). served_seq lane d x \<le> served_seq lane d s"
proof -
  let ?x = "hd (poll_turns coll lane p d)"
  have s: "s \<in> poll_sources lane p" using assms by (simp add: foremost_def)
  have x: "?x \<in> set (poll_turns coll lane p d)" using first_turn(1) [OF s] by simp
  then have "top_priority (group_rows (poll_ready lane p) ?x) \<le> top_priority (group_rows (poll_ready lane p) s)"
    using assms subsetD [OF poll_turns_sources x] by (simp add: foremost_def)
  then have "served_seq lane d ?x \<le> served_seq lane d s"
    using first_turn(2) [OF s, of coll d] by (auto simp: turn_key_def less_eq_prod_def)
  with x show ?thesis by blast
qed

lemma unserved_passed_over:
  assumes "\<forall>p \<in> set ps. foremost lane s p"
    and "\<forall>(t, turns) \<in> set (served_polls coll lane ps d). s \<notin> set turns"
  shows "passed_over (served_seq lane) (\<lambda>t. mark_served t lane) s d (served_polls coll lane ps d)"
  using assms
proof (induction ps arbitrary: d)
  case (Cons p ps)
  then show ?case using foremost_passed [of lane s p coll d] by (simp add: Let_def)
qed simp

lemma served_polls_sources:
  assumes "\<forall>p \<in> set ps. poll_sources lane p \<subseteq> U \<and> (\<forall>x \<in> poll_sources lane p. plain_source x)"
  shows "\<forall>(t, turns) \<in> set (served_polls coll lane ps d). set turns \<subseteq> U \<and> list_all plain_source turns"
  using assms
proof (induction ps arbitrary: d)
  case (Cons p ps)
  then show ?case using poll_turns_sources [of coll lane p d] by (auto simp: Let_def list_all_iff)
qed simp

lemma length_served_polls [simp]: "length (served_polls coll lane ps d) = length ps"
  by (induction ps arbitrary: d) (auto simp: Let_def)


section \<open>A place in the window\<close>

lemma rank_sorted:
  assumes "sorted (map candidate_order xs)" and "\<forall>(r, k) \<in> set xs. rt_priority r = p \<and> 1 \<le> k"
  shows "xs = filter (\<lambda>(r, k). k = 1) xs @ filter (\<lambda>(r, k). k \<noteq> 1) xs"
  using assms
proof (induction xs)
  case (Cons x xs)
  obtain r k where x: "x = (r, k)" by (cases x)
  show ?case
  proof (cases "k = 1")
    case False
    have "k' \<noteq> 1" if "(r', k') \<in> set xs" for r' k'
    proof -
      have "candidate_order x \<le> candidate_order (r', k')" using Cons.prems(1) that by auto
      moreover have "rt_priority r' = rt_priority r" "1 \<le> k" using Cons.prems(2) that x by auto
      ultimately have "k \<le> k'" by (auto simp: candidate_order_def x less_eq_prod_def)
      with False \<open>1 \<le> k\<close> show ?thesis by simp
    qed
    then have "filter (\<lambda>(r, k). k = 1) xs = []" by (auto simp: filter_empty_conv)
    moreover from this have "filter (\<lambda>(r, k). k \<noteq> 1) xs = xs"
      using Cons by (metis append_Nil set_subset_Cons subsetD sorted_simps(2) list.simps(9))
    ultimately show ?thesis using False x by simp
  next
    case True
    then show ?thesis using Cons x by auto
  qed
qed simp

lemma group_rows_nonempty: "s \<in> fair_source_key ` set rows \<Longrightarrow> group_rows rows s \<noteq> []"
  by (auto simp: group_rows_def filter_empty_conv)

lemma ranked_group_first:
  assumes "group_rows rows s \<noteq> []"
  shows "\<exists>r. filter (\<lambda>(r, k). k = 1) (ranked_group rows s) = [(r, 1)] \<and> fair_source_key r = s"
proof -
  obtain r g where g: "sort_key partition_key (group_rows rows s) = r # g"
    using assms by (cases "sort_key partition_key (group_rows rows s)")
      (auto dest: arg_cong [where f = set])
  have "r \<in> set (group_rows rows s)" using g by (metis list.set_intros(1) set_sort)
  then have key: "fair_source_key r = s" by (simp add: group_rows_def)
  have "ranked_group rows s = (r, 1) # zip g [2..<Suc (Suc (length g))]"
    by (simp add: ranked_group_def g Let_def upt_conv_Cons numeral_2_eq_2 del: upt_Suc)
  moreover have "filter (\<lambda>(r, k). k = 1) (zip g [2..<Suc (Suc (length g))]) = []"
    by (auto simp: filter_empty_conv dest!: set_zip_rightD)
  ultimately show ?thesis using key by (simp del: upt_Suc)
qed

lemma zip_ranks: "(r, k) \<in> set (zip xs [1..<n]) \<Longrightarrow> r \<in> set xs \<and> 1 \<le> k"
  by (auto dest: set_zip_leftD set_zip_rightD)

lemma ranked_candidates_props:
  assumes "(r, k) \<in> set (ranked_candidates rows)"
  shows "r \<in> set rows \<and> 1 \<le> k"
proof -
  obtain s where "(r, k) \<in> set (ranked_group rows s)" using assms by (auto simp: ranked_candidates_def)
  then have "(r, k) \<in> set (zip (sort_key partition_key (group_rows rows s))
      [1..<Suc (length (sort_key partition_key (group_rows rows s)))])"
    by (simp only: ranked_group_def Let_def)
  from zip_ranks [OF this] show ?thesis by (simp add: group_rows_def)
qed

lemma length_filter_sort_key: "length (filter P (sort_key f xs)) = length (filter P xs)"
  by (metis mset_filter mset_sort size_mset)

lemma length_filter_filter: "length (filter P (filter Q xs)) \<le> length (filter P xs)"
  by (induction xs) auto

lemma first_ranks_length:
  "length (filter (\<lambda>(r, k). k = 1) (ranked_candidates rows)) = card (fair_source_key ` set rows)"
proof -
  have one: "length (filter (\<lambda>(r, k). k = 1) (ranked_group rows s)) = 1" if "s \<in> fair_source_key ` set rows" for s
    using ranked_group_first [OF group_rows_nonempty [OF that]] by auto
  have "length (filter (\<lambda>(r, k). k = 1) (concat (map (ranked_group rows) ss))) = length ss"
    if "set ss \<subseteq> fair_source_key ` set rows" for ss
    using that by (induction ss) (simp_all add: one [simplified])
  then show ?thesis
    by (simp add: ranked_candidates_def length_remdups_card_conv)
qed

lemma first_ranked_in_rows:
  assumes "s \<in> fair_source_key ` set rows"
  shows "\<exists>r. (r, 1) \<in> set (ranked_candidates rows) \<and> fair_source_key r = s"
proof -
  obtain r where r: "filter (\<lambda>(r, k). k = 1) (ranked_group rows s) = [(r, 1)]" "fair_source_key r = s"
    using ranked_group_first [OF group_rows_nonempty [OF assms]] by blast
  have "(r, 1) \<in> set (filter (\<lambda>(r, k). k = 1) (ranked_group rows s))" unfolding r(1) by simp
  then have "(r, 1) \<in> set (ranked_group rows s)" unfolding set_filter by simp
  moreover have "s \<in> set (remdups (map fair_source_key rows))" using assms by simp
  ultimately have "(r, 1) \<in> set (ranked_candidates rows)"
    unfolding ranked_candidates_def set_concat set_map by blast
  with r(2) show ?thesis by blast
qed

text \<open>
  in a window at least as large as the number of sources, every source with a candidate of the
  common priority has a row, however many rows the other sources have.
\<close>

theorem every_source_has_a_place_in_the_window:
  assumes "\<forall>r \<in> set rows. candidate t configured turns lane r \<longrightarrow> rt_priority r = p"
    and "card (fair_source_key ` {r \<in> set rows. candidate t configured turns lane r}) \<le> limit"
    and "0 < per_source" and "r0 \<in> set rows" and "candidate t configured turns lane r0"
  shows "\<exists>(r, k) \<in> set (candidate_window t configured turns lane limit per_source rows).
    fair_source_key r = fair_source_key r0"
proof -
  define cand where "cand = filter (candidate t configured turns lane) rows"
  define L where "L = sort_key candidate_order (filter (\<lambda>(r, k). k \<le> per_source) (ranked_candidates cand))"
  let ?first = "\<lambda>(r :: ready_task, k :: nat). k = 1"
  have "\<forall>(r, k) \<in> set L. rt_priority r = p \<and> 1 \<le> k"
  proof (intro ballI)
    fix x assume "x \<in> set L"
    moreover obtain r k where x: "x = (r, k)" by (cases x)
    ultimately have "(r, k) \<in> set (ranked_candidates cand)" by (simp add: L_def)
    then have "r \<in> set cand \<and> 1 \<le> k" by (rule ranked_candidates_props)
    with assms(1) x show "case x of (r, k) \<Rightarrow> rt_priority r = p \<and> 1 \<le> k" by (simp add: cand_def)
  qed
  then have "L = filter ?first L @ filter (\<lambda>(r, k). k \<noteq> 1) L"
    by (intro rank_sorted [where p = p]) (simp add: L_def)
  moreover have "length (filter ?first L) \<le> limit"
  proof -
    have "length (filter ?first L) \<le> length (filter ?first (ranked_candidates cand))"
      unfolding L_def length_filter_sort_key by (rule length_filter_filter)
    then show ?thesis using assms(2) by (simp only: first_ranks_length) (simp add: cand_def)
  qed
  ultimately have first: "set (filter ?first L) \<subseteq> set (take limit L)"
    by (metis (no_types, lifting) Un_upper1 set_append take_all take_append)
  have "fair_source_key r0 \<in> fair_source_key ` set cand" using assms(4,5) by (simp add: cand_def)
  then obtain r where r: "(r, 1) \<in> set (ranked_candidates cand)" "fair_source_key r = fair_source_key r0"
    using first_ranked_in_rows by blast
  then have "(r, 1) \<in> set (filter ?first L)" using assms(3) by (simp add: L_def)
  with first have "(r, 1) \<in> set (candidate_window t configured turns lane limit per_source rows)"
    by (auto simp: candidate_window_def L_def cand_def)
  with r(2) show ?thesis by blast
qed

section \<open>Samples and the lost turn\<close>

definition sample_ready :: ready_task where
  "sample_ready =
     \<lparr>rt_event_id = ''e'', rt_source_id = ''cam'', rt_replay_source_id = None, rt_task_type = ''clip'',
      rt_clip_required = True, rt_mat_status = status_value Pending, rt_owner = Some ''rolling'',
      rt_ready_at = Some 1, rt_next_attempt_at = None, rt_created_at = 0, rt_priority = 0,
      rt_replay_slot_status = None, rt_has_bundle = False, rt_has_image = False\<rparr>"

definition sample_other :: ready_task where
  "sample_other = sample_ready\<lparr>rt_event_id := ''f'', rt_source_id := ''gate'', rt_ready_at := Some 0\<rparr>"

definition sample_unnamed :: ready_task where
  "sample_unnamed = sample_ready\<lparr>rt_event_id := ''g'', rt_source_id := [], rt_replay_source_id := Some ''r'',
     rt_ready_at := Some 0\<rparr>"

definition empty_rotation :: rotation_db where
  "empty_rotation = \<lparr>rd_rows = [], rd_seq = 0\<rparr>"

definition sample_poll :: poll where
  "sample_poll = \<lparr>po_time = 5, po_limit = 1, po_configured = [], po_excluded = [],
     po_rows = [sample_other, sample_ready]\<rparr>"

lemma claimable_pending: "status_value Pending \<in> claimable_materialization_statuses"
  by (simp add: status_set_defs)

lemma runnable_samples:
  "1 \<le> t \<Longrightarrow> runnable t [] Remux_Lane sample_ready"
  "1 \<le> t \<Longrightarrow> runnable t [] Remux_Lane sample_other"
  "1 \<le> t \<Longrightarrow> runnable t [] Remux_Lane sample_unnamed"
  using claimable_pending
  by (simp_all add: runnable_def sample_ready_def sample_other_def sample_unnamed_def due_at_def
      del: status_value.simps)

lemma sample_keys:
  "fair_source_key sample_ready = ''cam''" "fair_source_key sample_other = ''gate''"
  "fair_source_key sample_unnamed = ''r''"
  by (simp_all add: fair_source_key_def sample_ready_def sample_other_def sample_unnamed_def)

lemma sample_poll_ready: "poll_ready Remux_Lane sample_poll = [sample_other, sample_ready]"
  by (simp add: poll_ready_def sample_poll_def ready_rows_def runnable_samples)

lemma sample_priorities:
  "top_priority (group_rows [sample_other, sample_ready] ''cam'') = 0"
  "top_priority (group_rows [sample_other, sample_ready] ''gate'') = 0"
  by (simp_all add: top_priority_def group_rows_def sample_keys)
    (simp_all add: sample_ready_def sample_other_def)


theorem every_source_has_a_place_in_the_window_witness:
  "\<exists>(r, k) \<in> set (candidate_window 5 [] [] Remux_Lane 2 1 [sample_other, sample_ready]).
     fair_source_key r = fair_source_key sample_ready"
proof (rule every_source_has_a_place_in_the_window [where p = 0])
  have "candidate 5 [] [] Remux_Lane sample_other" "candidate 5 [] [] Remux_Lane sample_ready"
    by (simp_all add: candidate_def runnable_samples) (simp_all add: sample_ready_def sample_other_def)
  moreover from this have "{r \<in> set [sample_other, sample_ready]. candidate 5 [] [] Remux_Lane r} =
      {sample_other, sample_ready}" by auto
  ultimately show "candidate 5 [] [] Remux_Lane sample_ready"
    "card (fair_source_key ` {r \<in> set [sample_other, sample_ready]. candidate 5 [] [] Remux_Lane r}) \<le> 2"
    by (simp_all add: sample_keys)
qed (simp_all add: sample_ready_def sample_other_def)

text \<open>
  The turn query names a task without a source id by its replay source, the candidate query compares
  the source id itself: the source gets the turn and has no candidate, so it is never served and gets
  the next turn as well.
\<close>

lemma unnamed_turn:
  assumes "1 \<le> t"
  shows "turn_sources coll True False t Remux_Lane 1 [] [] [sample_unnamed, sample_ready] empty_rotation = [''r'']"
proof -
  let ?rows = "[sample_unnamed, sample_ready]"
  have rows: "ready_rows t [] [] Remux_Lane ?rows = ?rows"
    using assms by (simp add: ready_rows_def runnable_samples)
  have groups: "group_rows ?rows ''r'' = [sample_unnamed]" "group_rows ?rows ''cam'' = [sample_ready]"
    by (simp_all add: group_rows_def sample_keys)
  have "top_priority [sample_unnamed] = 0" "top_priority [sample_ready] = 0"
    "oldest_due [sample_unnamed] = 0" "oldest_due [sample_ready] = 1"
    by (simp_all add: top_priority_def oldest_due_def map_filter_simps due_at_def sample_unnamed_def
        sample_ready_def)
  then have "turn_key coll Remux_Lane empty_rotation ?rows ''r'' = (0, -1, 0, coll ''r'')"
    "turn_key coll Remux_Lane empty_rotation ?rows ''cam'' = (0, -1, 1, coll ''cam'')"
    by (simp_all add: turn_key_def groups served_seq_def empty_rotation_def never_served_seq_def)
  then have "sort_key (turn_key coll Remux_Lane empty_rotation ?rows) [''r'', ''cam''] = [''r'', ''cam'']"
    by simp
  then show ?thesis
    by (simp add: turn_sources_def next_source_turns_def Let_def rows sample_keys)
qed



end
