(* ===== verification/RollingWindow.thy ===== *)
theory RollingWindow
  imports PyValue "HOL-Library.Product_Lexorder"
begin

text \<open>
  The rolling cache of the media worker (rolling_cache.py): which of the recorded segments
  overlap the window that an event asks for, how the window moves from the clock of the source
  to the clock of the recording, which frame rows are selected, and when the coverage is good
  enough to cut a clip.  The loader that reads the rows of a segment is an argument; its errors
  are errors of the plan.
\<close>

section \<open>Segments, rows and errors\<close>

type_synonym row = "(string \<times> pyval) list"

record rolling_segment =
  rs_segment_id :: string
  rs_source_id :: string
  rs_runtime_epoch_id :: string
  rs_directory :: string
  rs_video_path :: string
  rs_metadata_path :: string
  rs_first_pts :: int
  rs_last_pts :: int
  rs_frame_count :: int
  rs_size_bytes :: int
  rs_source_first_pts :: "int option"
  rs_source_last_pts :: "int option"

text \<open>The reasons of \<open>RollingCacheCoverageMiss\<close>; \<open>miss_text\<close> is the text of the exception.\<close>

datatype coverage_miss =
    Invalid_Pts_Window
  | No_Overlapping_Segments
  | Requested_Internal_Gap string string int
  | Window_Not_Covered
  | Event_Frame_Not_Covered
  | Window_Not_Fully_Covered "int option" "int option"
  | Selected_Rows_Missing
  | Rows_Endpoint_Gap int int
  | Rows_Internal_Gap int int
  | Output_Duration_Short string string
  | Output_Frame_Rate_Low string string

definition gap_details :: "int option \<Rightarrow> int option \<Rightarrow> string list" where
  "gap_details pre post =
     (case pre of None \<Rightarrow> [] | Some g \<Rightarrow> [''pre_gap_ns='' @ int_dec g]) @
     (case post of None \<Rightarrow> [] | Some g \<Rightarrow> [''post_gap_ns='' @ int_dec g])"

fun miss_text :: "coverage_miss \<Rightarrow> string" where
  "miss_text Invalid_Pts_Window = ''invalid_requested_pts_window''"
| "miss_text No_Overlapping_Segments = ''no_overlapping_segments''"
| "miss_text (Requested_Internal_Gap prev cur gap) =
     ''rolling_cache_requested_window_internal_gap:previous_segment='' @ prev @
     '':next_segment='' @ cur @ '':internal_gap_ns='' @ int_dec gap"
| "miss_text Window_Not_Covered = ''rolling_cache_requested_window_not_covered''"
| "miss_text Event_Frame_Not_Covered = ''rolling_cache_event_frame_not_covered''"
| "miss_text (Window_Not_Fully_Covered pre post) =
     ''rolling_cache_requested_window_not_fully_covered:'' @
     (let detail = py_join '','' (gap_details pre post)
      in if detail \<noteq> [] then detail else ''window_gap'')"
| "miss_text Selected_Rows_Missing = ''rolling_cache_selected_rows_missing''"
| "miss_text (Rows_Endpoint_Gap pre post) =
     ''rolling_cache_selected_rows_endpoint_gap:pre_gap_ns='' @ int_dec pre @
     '':post_gap_ns='' @ int_dec post"
| "miss_text (Rows_Internal_Gap gap limit) =
     ''rolling_cache_selected_rows_internal_gap:internal_gap_ns='' @ int_dec gap @
     '':gap_limit_ns='' @ int_dec limit"
| "miss_text (Output_Duration_Short expected observed) =
     ''rolling_cache_output_duration_short:expected_s='' @ expected @ '':observed_s='' @ observed"
| "miss_text (Output_Frame_Rate_Low minimum observed) =
     ''rolling_cache_output_frame_rate_low:minimum_fps='' @ minimum @ '':observed_fps='' @ observed"

text \<open>What a materialization raises: a coverage miss, another cache error, or any other error.\<close>

datatype rolling_error =
    Coverage_Miss coverage_miss | Cache_Error string | Other_Error py_error

type_synonym 'a rolling = "rolling_error + 'a"

definition rolling_of :: "'a result \<Rightarrow> 'a rolling" where
  "rolling_of m = (case m of Inl e \<Rightarrow> Inl (Other_Error e) | Inr x \<Rightarrow> Inr x)"

definition rl_bind :: "'a rolling \<Rightarrow> ('a \<Rightarrow> 'b rolling) \<Rightarrow> 'b rolling" where
  "rl_bind m f = (case m of Inl e \<Rightarrow> Inl e | Inr x \<Rightarrow> f x)"

lemma rl_bind_Inr_iff: "rl_bind m f = Inr y \<longleftrightarrow> (\<exists>x. m = Inr x \<and> f x = Inr y)"
  by (cases m) (auto simp: rl_bind_def)

lemma rl_bind_simps [simp]: "rl_bind (Inl e) f = Inl e" "rl_bind (Inr x) f = f x"
  by (simp_all add: rl_bind_def)

lemma rolling_of_Inr_iff [simp]: "rolling_of m = Inr x \<longleftrightarrow> m = Inr x"
  by (cases m) (auto simp: rolling_of_def)

type_synonym row_loader = "rolling_segment \<Rightarrow> row list result"

section \<open>The clock values of a row\<close>

text \<open>
  \<open>int(value)\<close> where a \<open>TypeError\<close> or a \<open>ValueError\<close> counts as no value; the
  \<open>OverflowError\<close> of an infinite float is not caught.
\<close>

definition int_or_absent :: "pyval \<Rightarrow> int option result" where
  "int_or_absent v =
     (case py_int v of
        Inr i \<Rightarrow> Inr (Some i)
      | Inl Overflow_Error \<Rightarrow> Inl Overflow_Error
      | Inl _ \<Rightarrow> Inr None)"

definition first_present :: "pyval \<Rightarrow> pyval \<Rightarrow> pyval" where
  "first_present a b = (if a = PNone then b else a)"

definition label_int_or_none :: "pyval \<Rightarrow> int option result" where
  "label_int_or_none v = (if v = PNone \<or> v = PStr [] then Inr None else int_or_absent v)"

definition row_pts :: "row \<Rightarrow> int option result" where
  "row_pts r =
     int_or_absent
       (first_present (first_present (pget r ''rolling_cache_mux_pts'') (pget r ''pts''))
         (pget r ''frame_pts''))"

definition mux_row_pts :: "row \<Rightarrow> int option result" where
  "mux_row_pts r =
     (let v = pget r ''rolling_cache_mux_pts'' in if v = PNone then Inr None else int_or_absent v)"

definition source_row_pts :: "row \<Rightarrow> int option result" where
  "source_row_pts r =
     (let v = first_present (pget r ''pts'') (pget r ''frame_pts'')
      in if v = PNone then Inr None else int_or_absent v)"

section \<open>Segments of a window\<close>

definition overlapping_segments :: "rolling_segment list \<Rightarrow> int \<Rightarrow> int \<Rightarrow> rolling_segment list" where
  "overlapping_segments segments requested_start_pts requested_end_pts =
     filter (\<lambda>s. requested_start_pts \<le> rs_last_pts s \<and> rs_first_pts s \<le> requested_end_pts) segments"

text \<open>
  The segments whose source clock range is nearest to the event: the distance, the lower bound
  and the position in the list order them, and the first three are taken.  Segments without
  bounds are left out, unless no segment has bounds.
\<close>

definition range_distance :: "int \<Rightarrow> int \<Rightarrow> int \<Rightarrow> int" where
  "range_distance low high pts =
     (if low \<le> pts \<and> pts \<le> high then 0 else min \<bar>pts - low\<bar> \<bar>pts - high\<bar>)"

definition bounded_candidate ::
  "int \<Rightarrow> nat \<times> rolling_segment \<Rightarrow> ((int \<times> int \<times> nat) \<times> rolling_segment) option" where
  "bounded_candidate event_pts =
     (\<lambda>(n, s). case (rs_source_first_pts s, rs_source_last_pts s) of
        (Some a, Some b) \<Rightarrow>
          Some ((range_distance (min a b) (max a b) event_pts, min a b, n), s)
      | _ \<Rightarrow> None)"

definition bounded_candidates ::
  "int \<Rightarrow> rolling_segment list \<Rightarrow> ((int \<times> int \<times> nat) \<times> rolling_segment) list" where
  "bounded_candidates event_pts segments =
     List.map_filter (bounded_candidate event_pts) (enumerate 0 segments)"

definition source_clock_candidate_segments ::
  "rolling_segment list \<Rightarrow> int \<Rightarrow> int \<Rightarrow> rolling_segment list" where
  "source_clock_candidate_segments segments event_source_pts limit =
     (let bounded = bounded_candidates event_source_pts segments
      in if bounded = [] then segments
         else map snd (take (nat (max 1 limit)) (sort_key fst bounded)))"

section \<open>The event on the clock of the recording\<close>

text \<open>
  One row: a row with the event's identifier decides at once; otherwise the first row with the
  smallest distance on the source clock is kept.  The flag says that the search has ended.
\<close>

definition row_uuid :: "(pyval \<Rightarrow> string) \<Rightarrow> row \<Rightarrow> string" where
  "row_uuid rp r = py_str rp (py_or (py_or (pget r ''uuid'') (pget r ''frame_uuid'')) (PStr []))"

definition closer :: "int \<Rightarrow> int \<Rightarrow> int \<Rightarrow> (int \<times> int) option \<Rightarrow> (int \<times> int) option" where
  "closer event_pts mux source best =
     (let delta = \<bar>source - event_pts\<bar>
      in case best of
           None \<Rightarrow> Some (delta, mux)
         | Some (d, m) \<Rightarrow> if delta < d then Some (delta, mux) else Some (d, m))"

fun scan_rows ::
  "(pyval \<Rightarrow> string) \<Rightarrow> string \<Rightarrow> int \<Rightarrow> (int \<times> int) option \<Rightarrow> row list \<Rightarrow> (int \<times> int) option result" where
  "scan_rows rp uuid event_pts best [] = Inr best"
| "scan_rows rp uuid event_pts best (r # rs) =
     rbind (mux_row_pts r) (\<lambda>mux. rbind (source_row_pts r) (\<lambda>source.
       case (mux, source) of
         (Some m, Some s) \<Rightarrow>
           if uuid \<noteq> [] \<and> row_uuid rp r = uuid then Inr (Some (0, m))
           else scan_rows rp uuid event_pts (closer event_pts m s best) rs
       | _ \<Rightarrow> scan_rows rp uuid event_pts best rs))"

fun scan_segments ::
  "(pyval \<Rightarrow> string) \<Rightarrow> row_loader \<Rightarrow> string \<Rightarrow> int \<Rightarrow> (int \<times> int) option \<Rightarrow> rolling_segment list \<Rightarrow>
   (int \<times> int) option result" where
  "scan_segments rp load uuid event_pts best [] = Inr best"
| "scan_segments rp load uuid event_pts best (s # ss) =
     rbind (load s) (\<lambda>rows. rbind (scan_rows rp uuid event_pts best rows) (\<lambda>best'.
       case best' of
         Some (d, m) \<Rightarrow> if d = 0 then Inr best' else scan_segments rp load uuid event_pts best' ss
       | None \<Rightarrow> scan_segments rp load uuid event_pts best' ss))"

definition map_source_window_to_mux ::
  "(pyval \<Rightarrow> string) \<Rightarrow> row_loader \<Rightarrow> rolling_segment list \<Rightarrow> int \<Rightarrow> int \<Rightarrow> row \<Rightarrow>
   (int \<times> int \<times> int) option result" where
  "map_source_window_to_mux rp load segments requested_start_pts requested_end_pts labels =
     rbind (label_int_or_none (pget labels ''event_frame_pts'')) (\<lambda>event.
       case event of
         None \<Rightarrow> Inr None
       | Some event_pts \<Rightarrow>
           (let uuid = py_str rp (py_or (py_or (pget labels ''event_frame_uuid'')
                         (pget labels ''frame_uuid'')) (PStr []))
            in rbind (scan_segments rp load uuid event_pts None
                       (source_clock_candidate_segments segments event_pts 3)) (\<lambda>best.
                 case best of
                   None \<Rightarrow> Inr None
                 | Some (_, mux) \<Rightarrow>
                     Inr (Some (mux - max 0 (event_pts - requested_start_pts),
                                mux + max 0 (requested_end_pts - event_pts), mux)))))"

section \<open>Selecting the rows\<close>

text \<open>
  The membership test of the schema version hashes the value, which a list or a dictionary
  does not allow.
\<close>

definition is_manifest_row :: "row \<Rightarrow> bool result" where
  "is_manifest_row r =
     (case pget r ''schema_version'' of
        PStr v \<Rightarrow> Inr (v = ''rolling-segment-manifest-v2'' \<or> v = ''rolling-segment-manifest-v3'')
      | PList _ \<Rightarrow> Inl Type_Error
      | PDict _ \<Rightarrow> Inl Type_Error
      | _ \<Rightarrow> Inr False)"

text \<open>What a row is for the selection: a manifest line, an auxiliary row or a frame.\<close>

datatype row_kind = Manifest_Row | Auxiliary_Row | Frame_Row int

definition row_kind_of :: "row \<Rightarrow> row_kind result" where
  "row_kind_of r =
     rbind (is_manifest_row r) (\<lambda>manifest.
       if manifest then Inr Manifest_Row
       else rbind (row_pts r) (\<lambda>pts.
         Inr (case pts of None \<Rightarrow> Auxiliary_Row | Some p \<Rightarrow> Frame_Row p)))"

record selection =
  sl_frames :: "(int \<times> nat \<times> row) list"
  sl_auxiliary :: "row list"
  sl_sequence :: nat

definition take_row :: "int \<Rightarrow> int \<Rightarrow> row \<Rightarrow> row_kind \<Rightarrow> selection \<Rightarrow> selection" where
  "take_row start_pts end_pts r kind sel =
     (case kind of
        Manifest_Row \<Rightarrow> sel
      | Auxiliary_Row \<Rightarrow>
          sel\<lparr>sl_auxiliary := sl_auxiliary sel @ [r], sl_sequence := Suc (sl_sequence sel)\<rparr>
      | Frame_Row p \<Rightarrow>
          sel\<lparr>sl_frames := sl_frames sel @
                (if start_pts \<le> p \<and> p \<le> end_pts then [(p, sl_sequence sel, r)] else []),
              sl_sequence := Suc (sl_sequence sel)\<rparr>)"

fun collect_rows :: "int \<Rightarrow> int \<Rightarrow> selection \<Rightarrow> row list \<Rightarrow> selection result" where
  "collect_rows start_pts end_pts sel [] = Inr sel"
| "collect_rows start_pts end_pts sel (r # rs) =
     rbind (row_kind_of r) (\<lambda>kind. collect_rows start_pts end_pts (take_row start_pts end_pts r kind sel) rs)"

fun collect_segments ::
  "row_loader \<Rightarrow> int \<Rightarrow> int \<Rightarrow> selection \<Rightarrow> rolling_segment list \<Rightarrow> selection result" where
  "collect_segments load start_pts end_pts sel [] = Inr sel"
| "collect_segments load start_pts end_pts sel (s # ss) =
     rbind (load s) (\<lambda>rows. rbind (collect_rows start_pts end_pts sel rows) (\<lambda>sel'.
       collect_segments load start_pts end_pts sel' ss))"

fun strictly_increasing :: "int option \<Rightarrow> (int \<times> nat \<times> row) list \<Rightarrow> (int \<times> nat \<times> row) list" where
  "strictly_increasing prev [] = []"
| "strictly_increasing prev ((p, n, r) # fs) =
     (if (case prev of None \<Rightarrow> False | Some q \<Rightarrow> p \<le> q) then strictly_increasing prev fs
      else (p, n, r) # strictly_increasing (Some p) fs)"

definition empty_selection :: selection where
  "empty_selection = \<lparr>sl_frames = [], sl_auxiliary = [], sl_sequence = 0\<rparr>"

definition kept_frames :: "selection \<Rightarrow> (int \<times> nat \<times> row) list" where
  "kept_frames sel = strictly_increasing None (sort_key (\<lambda>(p, n, r). (p, n)) (sl_frames sel))"

definition select_rows ::
  "row_loader \<Rightarrow> rolling_segment list \<Rightarrow> int \<Rightarrow> int \<Rightarrow> row list result" where
  "select_rows load segments start_pts end_pts =
     rbind (collect_segments load start_pts end_pts empty_selection segments) (\<lambda>sel.
       Inr (map (\<lambda>(p, n, r). r) (kept_frames sel) @ sl_auxiliary sel))"

section \<open>The coverage of the rows\<close>

definition gaps_of :: "int list \<Rightarrow> int list" where
  "gaps_of ps = map (\<lambda>(a, b). b - a) (zip ps (tl ps))"

definition median_gap :: "int list \<Rightarrow> int" where
  "median_gap gaps =
     (let pos = sort (filter (\<lambda>g. 0 < g) gaps) in if pos = [] then 0 else pos ! (length pos div 2))"

definition row_gap_limit :: "int \<Rightarrow> int list \<Rightarrow> int" where
  "row_gap_limit slack ps = max (max slack 1000000000) (median_gap (gaps_of ps) * 8)"

definition present_pts :: "row list \<Rightarrow> int list result" where
  "present_pts rows = rbind (rmap row_pts rows) (\<lambda>os. Inr (List.map_filter id os))"

definition check_pts_coverage :: "int \<Rightarrow> int \<Rightarrow> int \<Rightarrow> int list \<Rightarrow> unit rolling" where
  "check_pts_coverage start_pts end_pts slack ps =
     (if ps = [] then Inl (Coverage_Miss Selected_Rows_Missing)
      else let pre = max 0 (hd ps - start_pts); post = max 0 (end_pts - List.last ps)
           in if slack < pre \<or> slack < post then Inl (Coverage_Miss (Rows_Endpoint_Gap pre post))
              else let largest = fold max (gaps_of ps) (case gaps_of ps of [] \<Rightarrow> 0 | g # _ \<Rightarrow> g)
                   in if row_gap_limit slack ps < largest
                      then Inl (Coverage_Miss (Rows_Internal_Gap largest (row_gap_limit slack ps)))
                      else Inr ())"

definition validate_selected_row_coverage ::
  "row list \<Rightarrow> int \<Rightarrow> int \<Rightarrow> int \<Rightarrow> bool \<Rightarrow> unit rolling" where
  "validate_selected_row_coverage rows start_pts end_pts slack allow_partial =
     (if allow_partial then Inr ()
      else rl_bind (rolling_of (present_pts rows)) (\<lambda>ps.
        check_pts_coverage start_pts end_pts slack (sort ps)))"

section \<open>The segment of a directory\<close>

text \<open>
  The bounds of a segment come from its rows; without a readable metadata file, a frame time or a
  video there is no segment.  The loaded rows, the video that was found with its size, and the
  names taken from the path are arguments.
\<close>

definition source_times :: "row list \<Rightarrow> int list result" where
  "source_times rows = rbind (rmap source_row_pts rows) (\<lambda>os. Inr (List.map_filter id os))"

definition segment_from_metadata ::
  "row list result \<Rightarrow> (string \<times> int) option \<Rightarrow> string \<Rightarrow> string \<Rightarrow> string \<Rightarrow> string \<Rightarrow> string \<Rightarrow>
   rolling_segment option result" where
  "segment_from_metadata loaded video ident source_id epoch directory metadata_path =
     (case loaded of
        Inl _ \<Rightarrow> Inr None
      | Inr rows \<Rightarrow> rbind (present_pts rows) (\<lambda>ps.
          if ps = [] then Inr None
          else rbind (source_times rows) (\<lambda>ss.
            case video of
              None \<Rightarrow> Inr None
            | Some (video_path, nbytes) \<Rightarrow>
                Inr (Some \<lparr>rs_segment_id = ident, rs_source_id = source_id,
                  rs_runtime_epoch_id = epoch, rs_directory = directory, rs_video_path = video_path,
                  rs_metadata_path = metadata_path, rs_first_pts = Min (set ps),
                  rs_last_pts = Max (set ps), rs_frame_count = int (length ps),
                  rs_size_bytes = nbytes,
                  rs_source_first_pts = (if ss = [] then None else Some (Min (set ss))),
                  rs_source_last_pts = (if ss = [] then None else Some (Max (set ss)))\<rparr>))))"

section \<open>The plan of a materialization\<close>

text \<open>
  The segments of the plan are sorted by their bounds; a gap between neighbours is measured
  from the end of the one to the start of the next, and the first of the largest gaps is
  reported.
\<close>

definition segment_order :: "rolling_segment list \<Rightarrow> rolling_segment list" where
  "segment_order = sort_key (\<lambda>s. (rs_first_pts s, rs_last_pts s))"

definition internal_gaps :: "int \<Rightarrow> rolling_segment list \<Rightarrow> (string \<times> string \<times> int) list" where
  "internal_gaps limit segments =
     filter (\<lambda>(_, _, gap). limit < gap)
       (map (\<lambda>(a, b). (rs_segment_id a, rs_segment_id b, rs_first_pts b - rs_last_pts a))
         (zip segments (tl segments)))"

fun largest_gap :: "(string \<times> string \<times> int) \<Rightarrow> (string \<times> string \<times> int) list \<Rightarrow> string \<times> string \<times> int" where
  "largest_gap g [] = g"
| "largest_gap g (h # hs) = largest_gap (if snd (snd g) < snd (snd h) then h else g) hs"

definition segments_start :: "rolling_segment list \<Rightarrow> int" where
  "segments_start segments = Min (set (map rs_first_pts segments))"

definition segments_end :: "rolling_segment list \<Rightarrow> int" where
  "segments_end segments = Max (set (map rs_last_pts segments))"

record rolling_plan =
  pl_segments :: "rolling_segment list"
  pl_requested :: "int \<times> int"
  pl_event_pts :: "int option"
  pl_segment_window :: "int \<times> int"
  pl_output :: "int \<times> int"
  pl_gaps :: "int \<times> int"
  pl_canonical :: bool
  pl_rows :: "row list"

text \<open>The window on the clock of the recording and the event's place on it.\<close>

definition mux_window ::
  "(pyval \<Rightarrow> string) \<Rightarrow> row_loader \<Rightarrow> rolling_segment list \<Rightarrow> int \<Rightarrow> int \<Rightarrow> row \<Rightarrow>
   (int \<times> int \<times> int option) result" where
  "mux_window rp load segments start_pts end_pts labels =
     rbind (map_source_window_to_mux rp load segments start_pts end_pts labels) (\<lambda>mapped.
       case mapped of
         Some (s, e, ev) \<Rightarrow> Inr (s, e, Some ev)
       | None \<Rightarrow> rbind (label_int_or_none (pget labels ''event_frame_pts''))
                   (\<lambda>ev. Inr (start_pts, end_pts, ev)))"

definition ordered_overlap ::
  "int \<Rightarrow> int \<Rightarrow> int \<Rightarrow> rolling_segment list \<Rightarrow> rolling_segment list rolling" where
  "ordered_overlap slack start_pts end_pts segments =
     (let selected = overlapping_segments segments start_pts end_pts
      in if selected = [] then Inl (Coverage_Miss No_Overlapping_Segments)
         else let ordered = segment_order selected
              in case internal_gaps (max slack 2000000000) ordered of
                   [] \<Rightarrow> Inr ordered
                 | g # gs \<Rightarrow>
                     (case largest_gap g gs of (prev, cur, gap) \<Rightarrow>
                        Inl (Coverage_Miss (Requested_Internal_Gap prev cur gap))))"

definition event_outside :: "int \<Rightarrow> int \<Rightarrow> int option \<Rightarrow> bool" where
  "event_outside low high event = (case event of None \<Rightarrow> False | Some p \<Rightarrow> p < low \<or> high < p)"

definition window_coverage ::
  "int \<Rightarrow> bool \<Rightarrow> int \<Rightarrow> int \<Rightarrow> int option \<Rightarrow> rolling_segment list \<Rightarrow> rolling_plan rolling" where
  "window_coverage slack allow_partial start_pts end_pts event segments =
     (let low = segments_start segments; high = segments_end segments;
          out_start = max low start_pts; out_end = min high end_pts;
          start_gap = max 0 (low - start_pts); end_gap = max 0 (end_pts - high);
          covered = (start_gap \<le> slack \<and> end_gap \<le> slack)
      in if out_end \<le> out_start then Inl (Coverage_Miss Window_Not_Covered)
         else if event_outside low high event then Inl (Coverage_Miss Event_Frame_Not_Covered)
         else if \<not> covered \<and> \<not> allow_partial then
           Inl (Coverage_Miss (Window_Not_Fully_Covered
             (if slack < start_gap then Some start_gap else None)
             (if slack < end_gap then Some end_gap else None)))
         else Inr \<lparr>pl_segments = segments, pl_requested = (start_pts, end_pts),
                   pl_event_pts = event, pl_segment_window = (low, high),
                   pl_output = (out_start, out_end), pl_gaps = (start_gap, end_gap),
                   pl_canonical = covered, pl_rows = []\<rparr>)"

definition with_rows :: "row_loader \<Rightarrow> int \<Rightarrow> bool \<Rightarrow> rolling_plan \<Rightarrow> rolling_plan rolling" where
  "with_rows load slack allow_partial p =
     (let (out_start, out_end) = pl_output p
      in rl_bind (rolling_of (select_rows load (pl_segments p) out_start out_end)) (\<lambda>rows.
           rl_bind (validate_selected_row_coverage rows out_start out_end slack allow_partial) (\<lambda>_.
             Inr (p\<lparr>pl_rows := rows\<rparr>))))"

definition plan_window ::
  "(pyval \<Rightarrow> string) \<Rightarrow> row_loader \<Rightarrow> rolling_segment list \<Rightarrow> int \<Rightarrow> int \<Rightarrow> row \<Rightarrow> int \<Rightarrow> bool \<Rightarrow>
   rolling_plan rolling" where
  "plan_window rp load segments requested_start_pts requested_end_pts labels slack allow_partial =
     (if requested_end_pts \<le> requested_start_pts then Inl (Coverage_Miss Invalid_Pts_Window)
      else rl_bind (rolling_of (mux_window rp load segments requested_start_pts requested_end_pts labels))
        (\<lambda>(start_pts, end_pts, event).
          rl_bind (ordered_overlap slack start_pts end_pts segments) (\<lambda>selected.
            rl_bind (window_coverage slack allow_partial start_pts end_pts event selected)
              (with_rows load slack allow_partial))))"

end
