(* ===== verification/RollingCoverage.thy ===== *)
theory RollingCoverage
  imports RollingWindow
begin

text \<open>
  What an accepted plan of the rolling cache guarantees: the rows are the frames of the window in
  strictly increasing order, they lie close together, and the nearest frame of the source decides
  the place of the event.
\<close>

section \<open>The selected frames\<close>

definition pts_of :: "row \<Rightarrow> int option" where
  "pts_of r = (case row_pts r of Inr (Some p) \<Rightarrow> Some p | _ \<Rightarrow> None)"

definition plan_pts :: "rolling_plan \<Rightarrow> int list" where
  "plan_pts p = List.map_filter pts_of (pl_rows p)"

lemma strictly_increasing_facts:
  "sorted (map fst fs) \<Longrightarrow>
   sorted_wrt (<) (map fst (strictly_increasing prev fs)) \<and>
   fst ` set (strictly_increasing prev fs) =
     {p \<in> fst ` set fs. case prev of None \<Rightarrow> True | Some q \<Rightarrow> q < p} \<and>
   set (strictly_increasing prev fs) \<subseteq> set fs"
proof (induction prev fs rule: strictly_increasing.induct)
  case (2 prev p n r fs)
  show ?case
  proof (cases "case prev of None \<Rightarrow> False | Some q \<Rightarrow> p \<le> q")
    case True
    then have "strictly_increasing prev ((p, n, r) # fs) = strictly_increasing prev fs" by simp
    then show ?thesis using 2 True by (cases prev) auto
  next
    case False
    note ih = "2.IH"(2) [OF False]
    have eq: "strictly_increasing prev ((p, n, r) # fs) = (p, n, r) # strictly_increasing (Some p) fs"
      using False by simp
    have prev: "case prev of None \<Rightarrow> True | Some q \<Rightarrow> q < p" using False by (cases prev) auto
    have later: "\<forall>x \<in> fst ` set fs. p \<le> x" using 2(3) by auto
    have tail: "fst ` set (strictly_increasing (Some p) fs) = {x \<in> fst ` set fs. p < x}"
      using ih 2(3) by simp
    have sets: "insert p {x \<in> fst ` set fs. p < x} =
        {x \<in> insert p (fst ` set fs). case prev of None \<Rightarrow> True | Some q \<Rightarrow> q < x}"
      using later prev by (cases prev) force+
    show ?thesis unfolding eq using ih 2(3) tail sets by auto
  qed
qed (auto split: option.splits)

lemma rmap_append:
  "rmap f (xs @ ys) = rbind (rmap f xs) (\<lambda>a. rbind (rmap f ys) (\<lambda>b. Inr (a @ b)))"
  by (induction xs) (auto simp: rbind_def split: sum.splits)

text \<open>What the loop has collected: frames and auxiliary rows of the rows seen.\<close>

definition frame_of :: "row \<Rightarrow> int option" where
  "frame_of r = (case row_kind_of r of Inr (Frame_Row p) \<Rightarrow> Some p | _ \<Rightarrow> None)"

definition selection_ok :: "int \<Rightarrow> int \<Rightarrow> row list \<Rightarrow> selection \<Rightarrow> bool" where
  "selection_ok a b rows sel \<longleftrightarrow>
     fst ` set (sl_frames sel) = {p. a \<le> p \<and> p \<le> b \<and> (\<exists>r \<in> set rows. frame_of r = Some p)} \<and>
     (\<forall>(p, n, r) \<in> set (sl_frames sel). r \<in> set rows \<and> frame_of r = Some p) \<and>
     (\<forall>r \<in> set (sl_auxiliary sel). r \<in> set rows \<and> row_kind_of r = Inr Auxiliary_Row)"

lemma frame_of_kind:
  "row_kind_of r = Inr (Frame_Row p) \<Longrightarrow> frame_of r = Some p"
  "row_kind_of r = Inr Auxiliary_Row \<Longrightarrow> frame_of r = None"
  "row_kind_of r = Inr Manifest_Row \<Longrightarrow> frame_of r = None"
  by (simp_all add: frame_of_def)

lemma take_row_ok:
  assumes "selection_ok a b seen sel" "row_kind_of r = Inr kind"
  shows "selection_ok a b (seen @ [r]) (take_row a b r kind sel)"
  using assms
  by (cases kind) (auto simp: selection_ok_def take_row_def frame_of_kind image_iff)

lemma collect_rows_ok:
  "selection_ok a b seen sel \<Longrightarrow> collect_rows a b sel rows = Inr sel' \<Longrightarrow>
   selection_ok a b (seen @ rows) sel'"
proof (induction rows arbitrary: seen sel)
  case (Cons r rows)
  then obtain kind where k: "row_kind_of r = Inr kind"
    and c: "collect_rows a b (take_row a b r kind sel) rows = Inr sel'"
    by (auto simp: rbind_Inr_iff)
  show ?case using Cons.IH [OF take_row_ok [OF Cons.prems(1) k] c] by simp
qed simp

lemma collect_segments_ok:
  "selection_ok a b seen sel \<Longrightarrow> collect_segments load a b sel ss = Inr sel' \<Longrightarrow>
   \<exists>loaded. rmap load ss = Inr loaded \<and> selection_ok a b (seen @ concat loaded) sel'"
proof (induction ss arbitrary: seen sel)
  case (Cons s ss)
  then obtain rows sel1 where l: "load s = Inr rows" and c: "collect_rows a b sel rows = Inr sel1"
    and cs: "collect_segments load a b sel1 ss = Inr sel'"
    by (auto simp: rbind_Inr_iff)
  from Cons.IH [OF collect_rows_ok [OF Cons.prems(1) c] cs] l show ?case by auto
qed simp

lemma sorted_frames:
  "sorted (map fst (sort_key (\<lambda>(p, n, r). (p, n :: nat)) (fs :: (int \<times> nat \<times> row) list)))"
proof -
  let ?gs = "sort_key (\<lambda>(p, n, r). (p, n :: nat)) fs"
  have "sorted (map (\<lambda>(p, n, r). (p, n :: nat)) ?gs)" by (rule sorted_sort_key)
  moreover have "sorted (map fst gs)" if "sorted (map (\<lambda>(p, n, r). (p, n :: nat)) gs)"
    for gs :: "(int \<times> nat \<times> row) list"
    using that by (induction gs) (auto simp: less_eq_prod_def order_le_less split: prod.splits)
  ultimately show ?thesis by blast
qed

lemma pts_of_kinds:
  "frame_of r = Some p \<Longrightarrow> pts_of r = Some p"
  "row_kind_of r = Inr Auxiliary_Row \<Longrightarrow> pts_of r = None"
  "pts_of r = Some p \<Longrightarrow> row_pts r = Inr (Some p)"
  by (auto simp: frame_of_def pts_of_def row_kind_of_def rbind_def split: sum.splits option.splits
      if_splits row_kind.splits)

lemma map_filter_pts:
  assumes "\<forall>(p, n, r) \<in> set fs. frame_of r = Some p" "\<forall>r \<in> set aux. row_kind_of r = Inr Auxiliary_Row"
  shows "List.map_filter pts_of (map (\<lambda>(p, n, r). r) fs @ aux) = map fst fs"
proof -
  have "List.map_filter pts_of aux = []"
    using assms(2) by (induction aux) (auto simp: List.map_filter_simps pts_of_kinds)
  moreover have "List.map_filter pts_of (map (\<lambda>(p, n, r). r) fs) = map fst fs"
    using assms(1) by (induction fs) (auto simp: List.map_filter_simps pts_of_kinds)
  ultimately show ?thesis by (simp add: List.map_filter_def)
qed

lemma selected_rows_pts:
  assumes "select_rows load segments a b = Inr rows"
  shows "\<exists>loaded. rmap load segments = Inr loaded \<and>
    List.map_filter pts_of rows = sorted_list_of_set
      {p. a \<le> p \<and> p \<le> b \<and> (\<exists>r \<in> set (concat loaded). frame_of r = Some p)}"
proof -
  obtain sel where c: "collect_segments load a b empty_selection segments = Inr sel"
    and rows: "rows = map (\<lambda>(p, n, r). r) (kept_frames sel) @ sl_auxiliary sel"
    using assms by (auto simp: select_rows_def rbind_Inr_iff)
  have "selection_ok a b [] empty_selection" by (simp add: selection_ok_def empty_selection_def)
  from collect_segments_ok [OF this c] obtain loaded where l: "rmap load segments = Inr loaded"
    and ok: "selection_ok a b (concat loaded) sel" by auto
  note facts = strictly_increasing_facts [OF sorted_frames, of None "sl_frames sel", folded kept_frames_def]
  have sub: "set (kept_frames sel) \<subseteq> set (sl_frames sel)"
    and fsts: "fst ` set (kept_frames sel) = fst ` set (sl_frames sel)"
    and ord: "sorted_wrt (<) (map fst (kept_frames sel))"
    using facts by auto
  have "List.map_filter pts_of rows = map fst (kept_frames sel)"
    unfolding rows by (rule map_filter_pts) (use ok sub in \<open>auto simp: selection_ok_def\<close>)
  moreover have "map fst (kept_frames sel) = sorted_list_of_set (fst ` set (kept_frames sel))"
    using ord by (simp add: strict_sorted_iff sorted_list_of_set_unique [symmetric] flip: set_map)
      (metis List.finite_set distinct_card set_map sorted_list_of_set_unique strict_sorted_iff)
  moreover have "fst ` set (sl_frames sel) =
      {p. a \<le> p \<and> p \<le> b \<and> (\<exists>r \<in> set (concat loaded). frame_of r = Some p)}"
    using ok by (simp add: selection_ok_def)
  ultimately show ?thesis using l fsts by auto
qed


section \<open>No hole in the coverage\<close>

lemma gaps_of_simps [simp]:
  "gaps_of [] = []" "gaps_of [p] = []" "gaps_of (p # q # ps) = (q - p) # gaps_of (q # ps)"
  by (simp_all add: gaps_of_def)

lemma fold_max_bounds:
  fixes a :: int
  shows "a \<le> fold max xs a" "x \<in> set xs \<Longrightarrow> x \<le> fold max xs a"
proof -
  have start: "c \<le> fold max zs c" for zs :: "int list" and c
    by (induction zs arbitrary: c) (auto intro: order_trans [OF max.cobounded2])
  then show "a \<le> fold max xs a" .
  show "x \<in> set xs \<Longrightarrow> x \<le> fold max xs a"
    by (induction xs arbitrary: a) (auto intro: order_trans [OF max.cobounded1 start])
qed

text \<open>Between two neighbours that are close, every instant is close to one of them.\<close>

lemma bounded_gaps_near:
  assumes "ps \<noteq> []" "\<forall>g \<in> set (gaps_of ps). g \<le> limit" "hd ps \<le> t" "t \<le> List.last ps"
  shows "\<exists>p \<in> set ps. p \<le> t \<and> t \<le> p + limit \<or> p = t"
  using assms
proof (induction ps rule: induct_list012)
  case (3 p q ps)
  show ?case
  proof (cases "q \<le> t")
    case True
    then show ?thesis using 3 by auto
  next
    case False
    then show ?thesis using 3 by auto
  qed
qed auto

lemma check_pts_coverage_near:
  assumes ok: "check_pts_coverage a b slack ps = Inr u"
    and t: "a - early \<le> t" "t \<le> b + late" and nonneg: "0 \<le> slack" "0 \<le> early" "0 \<le> late"
  shows "\<exists>p \<in> set ps. \<bar>p - t\<bar> \<le> max (slack + max early late) (row_gap_limit slack ps)"
proof -
  have ne: "ps \<noteq> []" and pre: "hd ps - a \<le> slack" and post: "b - List.last ps \<le> slack"
    and gaps: "fold max (gaps_of ps) (case gaps_of ps of [] \<Rightarrow> 0 | g # _ \<Rightarrow> g) \<le> row_gap_limit slack ps"
    using ok by (auto simp: check_pts_coverage_def Let_def split: if_splits)
  have limit: "\<forall>g \<in> set (gaps_of ps). g \<le> row_gap_limit slack ps"
    using gaps fold_max_bounds(2) order_trans by blast
  have nn: "0 \<le> row_gap_limit slack ps" by (simp add: row_gap_limit_def)
  consider "t < hd ps" | "List.last ps < t" | "hd ps \<le> t" "t \<le> List.last ps" by linarith
  then show ?thesis
  proof cases
    case 1
    then have "\<bar>hd ps - t\<bar> \<le> slack + max early late" using pre t by auto
    then show ?thesis using ne by (intro bexI [of _ "hd ps"]) auto
  next
    case 2
    then have "\<bar>List.last ps - t\<bar> \<le> slack + max early late" using post t by auto
    then show ?thesis using ne by (intro bexI [of _ "List.last ps"]) auto
  next
    case 3
    from bounded_gaps_near [OF ne limit 3] obtain p where "p \<in> set ps"
      and "p \<le> t \<and> t \<le> p + row_gap_limit slack ps \<or> p = t" by blast
    moreover from this nn have "\<bar>p - t\<bar> \<le> row_gap_limit slack ps" by auto
    ultimately show ?thesis by (intro bexI [of _ p]) auto
  qed
qed

lemma present_pts_filter: "present_pts rows = Inr ps \<Longrightarrow> ps = List.map_filter pts_of rows"
proof -
  assume "present_pts rows = Inr ps"
  then obtain os where os: "rmap row_pts rows = Inr os" and ps: "ps = List.map_filter id os"
    by (auto simp: present_pts_def rbind_Inr_iff)
  from os have "List.map_filter id os = List.map_filter pts_of rows"
    by (induction rows arbitrary: os)
      (auto simp: rbind_Inr_iff List.map_filter_simps pts_of_def split: option.splits)
  with ps show ?thesis by simp
qed

lemma plan_window_cases:
  assumes "plan_window rp load segments a b labels slack allow = Inr p"
  obtains s e ev selected q rows where
    "mux_window rp load segments a b labels = Inr (s, e, ev)"
    "ordered_overlap slack s e segments = Inr selected"
    "window_coverage slack allow s e ev selected = Inr q"
    "select_rows load (pl_segments q) (fst (pl_output q)) (snd (pl_output q)) = Inr rows"
    "validate_selected_row_coverage rows (fst (pl_output q)) (snd (pl_output q)) slack allow = Inr ()"
    "p = q\<lparr>pl_rows := rows\<rparr>"
proof -
  obtain s e ev selected q where "mux_window rp load segments a b labels = Inr (s, e, ev)"
    "ordered_overlap slack s e segments = Inr selected"
    "window_coverage slack allow s e ev selected = Inr q" and w: "with_rows load slack allow q = Inr p"
    using assms by (auto simp: plan_window_def rl_bind_Inr_iff split: if_splits)
  moreover from w obtain rows where
    "select_rows load (pl_segments q) (fst (pl_output q)) (snd (pl_output q)) = Inr rows"
    "validate_selected_row_coverage rows (fst (pl_output q)) (snd (pl_output q)) slack allow = Inr ()"
    "p = q\<lparr>pl_rows := rows\<rparr>"
    by (cases "pl_output q") (auto simp: with_rows_def rl_bind_Inr_iff)
  ultimately show thesis using that by blast
qed

lemma window_coverage_facts:
  assumes "window_coverage slack allow s e ev segments = Inr q"
  shows "pl_requested q = (s, e)" "pl_event_pts q = ev" "pl_segments q = segments"
    "pl_output q = (max (segments_start segments) s, min (segments_end segments) e)"
    "fst (pl_output q) < snd (pl_output q)"
    "\<not> allow \<Longrightarrow> fst (pl_output q) \<le> s + max 0 slack \<and> e - max 0 slack \<le> snd (pl_output q)"
    "\<not> event_outside (segments_start segments) (segments_end segments) ev"
  using assms by (auto simp: window_coverage_def Let_def split: if_splits)

text \<open>
  C10: when the planner accepts a window without allowing a partial result, no instant of the
  window, on the clock of the recording, is far from a frame of the clip: the nearest selected
  frame is at most twice the coverage slack away, or the limit of the gaps between frames.
\<close>

theorem accepted_window_has_no_hole:
  assumes plan: "plan_window rp load segments a b labels slack False = Inr p" and slack: "0 \<le> slack"
    and t: "fst (pl_requested p) \<le> t" "t \<le> snd (pl_requested p)"
  shows "\<exists>q \<in> set (plan_pts p). \<bar>q - t\<bar> \<le> max (2 * slack) (row_gap_limit slack (plan_pts p))"
proof -
  from plan obtain s e ev selected q rows where c: "window_coverage slack False s e ev selected = Inr q"
    and rows: "select_rows load (pl_segments q) (fst (pl_output q)) (snd (pl_output q)) = Inr rows"
    and v: "validate_selected_row_coverage rows (fst (pl_output q)) (snd (pl_output q)) slack False = Inr ()"
    and p: "p = q\<lparr>pl_rows := rows\<rparr>"
    by (rule plan_window_cases)
  have pts: "plan_pts p = List.map_filter pts_of rows" by (simp add: plan_pts_def p)
  have "sort (List.map_filter pts_of rows) = List.map_filter pts_of rows"
    using selected_rows_pts [OF rows] by (auto intro: sort_key_id_if_sorted)
  then have ok: "check_pts_coverage (fst (pl_output q)) (snd (pl_output q)) slack (plan_pts p) = Inr ()"
    using v by (auto simp: validate_selected_row_coverage_def rl_bind_Inr_iff pts dest: present_pts_filter)
  show ?thesis
    using check_pts_coverage_near [OF ok, of slack t slack] window_coverage_facts [OF c] slack t
    by (auto simp: p)
qed

definition demo_segment :: rolling_segment where
  "demo_segment =
     \<lparr>rs_segment_id = ''s0'', rs_source_id = ''cam'', rs_runtime_epoch_id = ''e'',
      rs_directory = ''d'', rs_video_path = ''v'', rs_metadata_path = ''m'',
      rs_first_pts = 0, rs_last_pts = 80, rs_frame_count = 3, rs_size_bytes = 1,
      rs_source_first_pts = None, rs_source_last_pts = None\<rparr>"

definition demo_rows :: "row list" where
  "demo_rows = [[(''pts'', PInt 80)], [(''pts'', PInt 0)], [(''pts'', PInt 40)], [(''pts'', PInt 40)]]"

lemma demo_plan:
  "plan_window (\<lambda>_. []) (\<lambda>_. Inr demo_rows) [demo_segment] 0 80 [] 10 False =
   Inr \<lparr>pl_segments = [demo_segment], pl_requested = (0, 80), pl_event_pts = None,
        pl_segment_window = (0, 80), pl_output = (0, 80), pl_gaps = (0, 0), pl_canonical = True,
        pl_rows = [[(''pts'', PInt 0)], [(''pts'', PInt 40)], [(''pts'', PInt 80)]]\<rparr>"
  by code_simp

theorem accepted_window_has_no_hole_witness:
  "\<exists>q \<in> set (plan_pts (projr (plan_window (\<lambda>_. []) (\<lambda>_. Inr demo_rows) [demo_segment] 0 80 [] 10 False))).
     \<bar>q - 30\<bar> \<le> max (2 * 10) (row_gap_limit 10
        (plan_pts (projr (plan_window (\<lambda>_. []) (\<lambda>_. Inr demo_rows) [demo_segment] 0 80 [] 10 False))))"
  by (rule accepted_window_has_no_hole [of "\<lambda>_. []" "\<lambda>_. Inr demo_rows" "[demo_segment]" 0 80 "[]"])
    (simp_all add: demo_plan)

text \<open>
  C27: the frame rows of an accepted plan are exactly the different frame times of the segments'
  rows inside the output window, in increasing order.
\<close>

theorem plan_selects_each_frame_time_once:
  assumes "plan_window rp load segments a b labels slack allow = Inr p"
  shows "\<exists>loaded. rmap load (pl_segments p) = Inr loaded \<and>
    plan_pts p = sorted_list_of_set
      {q. fst (pl_output p) \<le> q \<and> q \<le> snd (pl_output p) \<and>
          (\<exists>r \<in> set (concat loaded). frame_of r = Some q)}"
proof -
  from assms obtain q rows
    where "select_rows load (pl_segments q) (fst (pl_output q)) (snd (pl_output q)) = Inr rows"
      and p: "p = q\<lparr>pl_rows := rows\<rparr>"
    by (rule plan_window_cases)
  from selected_rows_pts [OF this(1)] show ?thesis by (simp add: plan_pts_def p)
qed

theorem plan_selects_each_frame_time_once_witness:
  "\<exists>loaded. rmap (\<lambda>_. Inr demo_rows) [demo_segment] = Inr loaded \<and>
     plan_pts (projr (plan_window (\<lambda>_. []) (\<lambda>_. Inr demo_rows) [demo_segment] 0 80 [] 10 False)) =
       sorted_list_of_set {q. 0 \<le> q \<and> q \<le> 80 \<and> (\<exists>r \<in> set (concat loaded). frame_of r = Some q)}"
  using plan_selects_each_frame_time_once [OF demo_plan] by (simp add: demo_plan)

end
