(* ===== verification/RollingAnchor.thy ===== *)
theory RollingAnchor
  imports RollingWindow
begin

text \<open>
  The event's place on the clock of the recording: with a complete index the three candidate
  segments contain the frame that is nearest to the event.
\<close>

section \<open>The two clocks of a row\<close>

definition clocks :: "row \<Rightarrow> (int \<times> int) option" where
  "clocks r =
     (case (mux_row_pts r, source_row_pts r) of
        (Inr (Some m), Inr (Some s)) \<Rightarrow> Some (m, s)
      | _ \<Rightarrow> None)"

definition readable_row :: "row \<Rightarrow> bool" where
  "readable_row r \<longleftrightarrow> mux_row_pts r \<noteq> Inl Overflow_Error \<and> source_row_pts r \<noteq> Inl Overflow_Error"

lemma int_or_absent_error: "int_or_absent v = Inl e \<Longrightarrow> e = Overflow_Error"
  by (auto simp: int_or_absent_def split: sum.splits py_error.splits)

lemma readable_row_results:
  "readable_row r \<Longrightarrow> (\<exists>m. mux_row_pts r = Inr m) \<and> (\<exists>s. source_row_pts r = Inr s)"
  by (cases "mux_row_pts r"; cases "source_row_pts r")
    (auto simp: readable_row_def mux_row_pts_def source_row_pts_def Let_def
      dest: int_or_absent_error split: if_splits)

definition clock_pairs :: "row list \<Rightarrow> (int \<times> int) list" where
  "clock_pairs rows = List.map_filter clocks rows"

text \<open>The best pair so far is one of the pairs seen, and none is nearer.\<close>

definition best_of :: "int \<Rightarrow> (int \<times> int) set \<Rightarrow> (int \<times> int) option \<Rightarrow> bool" where
  "best_of ev P best \<longleftrightarrow>
     (case best of
        None \<Rightarrow> P = {}
      | Some (d, m) \<Rightarrow> (\<exists>s. (m, s) \<in> P \<and> d = \<bar>s - ev\<bar>) \<and> (\<forall>(m', s') \<in> P. d \<le> \<bar>s' - ev\<bar>))"

lemma best_of_closer:
  assumes "best_of ev P best"
  shows "best_of ev (insert (m, s) P) (closer ev m s best)"
proof (cases best)
  case None
  then show ?thesis using assms by (simp add: best_of_def closer_def)
next
  case (Some b)
  obtain d w where b: "b = (d, w)" by fastforce
  from assms obtain s0 where s0: "(w, s0) \<in> P" "d = \<bar>s0 - ev\<bar>" and least: "\<forall>(m', s') \<in> P. d \<le> \<bar>s' - ev\<bar>"
    by (auto simp: best_of_def Some b)
  show ?thesis
  proof (cases "\<bar>s - ev\<bar> < d")
    case True
    then have "\<forall>(m', s') \<in> P. \<bar>s - ev\<bar> \<le> \<bar>s' - ev\<bar>" using least by fastforce
    then show ?thesis using True by (auto simp: best_of_def closer_def Some b)
  next
    case False
    then show ?thesis using s0 least by (auto simp: best_of_def closer_def Some b)
  qed
qed

lemma scan_rows_best:
  assumes "\<forall>r \<in> set rows. readable_row r" "uuid = [] \<or> (\<forall>r \<in> set rows. row_uuid rp r \<noteq> uuid)"
    "best_of ev P best"
  shows "\<exists>best'. scan_rows rp uuid ev best rows = Inr best' \<and>
    best_of ev (P \<union> set (clock_pairs rows)) best'"
  using assms
proof (induction rows arbitrary: P best)
  case (Cons r rows)
  obtain mo so where m: "mux_row_pts r = Inr mo" and s: "source_row_pts r = Inr so"
    using readable_row_results [of r] Cons.prems(1) by auto
  show ?case
  proof (cases "clocks r")
    case None
    then show ?thesis using Cons m s
      by (auto simp: clocks_def clock_pairs_def List.map_filter_simps split: option.splits)
  next
    case (Some c)
    obtain mm ss where c: "c = (mm, ss)" by fastforce
    then have mo: "mo = Some mm" "so = Some ss"
      using Some m s by (auto simp: clocks_def split: option.splits)
    have pairs: "P \<union> set (clock_pairs (r # rows)) = insert (mm, ss) P \<union> set (clock_pairs rows)"
      using Some c by (auto simp: clock_pairs_def List.map_filter_simps)
    have "scan_rows rp uuid ev best (r # rows) = scan_rows rp uuid ev (closer ev mm ss best) rows"
      using Cons.prems(2) by (auto simp: m s mo)
    then show ?thesis
      unfolding pairs using Cons.IH [OF _ _ best_of_closer [OF Cons.prems(3)]] Cons.prems by auto
  qed
qed (simp add: clock_pairs_def List.map_filter_simps)

definition segment_rows :: "row_loader \<Rightarrow> rolling_segment \<Rightarrow> row list" where
  "segment_rows load s = (case load s of Inr rows \<Rightarrow> rows | Inl _ \<Rightarrow> [])"

definition segment_pairs :: "row_loader \<Rightarrow> rolling_segment \<Rightarrow> (int \<times> int) set" where
  "segment_pairs load s = set (clock_pairs (segment_rows load s))"

definition readable_segment :: "row_loader \<Rightarrow> rolling_segment \<Rightarrow> bool" where
  "readable_segment load s \<longleftrightarrow>
     load s = Inr (segment_rows load s) \<and> list_all readable_row (segment_rows load s)"

definition unnamed_in :: "(pyval \<Rightarrow> string) \<Rightarrow> string \<Rightarrow> row_loader \<Rightarrow> rolling_segment \<Rightarrow> bool" where
  "unnamed_in rp uuid load s \<longleftrightarrow> uuid = [] \<or> list_all (\<lambda>r. row_uuid rp r \<noteq> uuid) (segment_rows load s)"

text \<open>The search sees all of the first segment, and stops early only at a frame of the event's time.\<close>

lemma scan_segments_best:
  assumes "\<forall>s \<in> set ss. readable_segment load s \<and> unnamed_in rp uuid load s" "best_of ev P best"
  shows "\<exists>best' Q. scan_segments rp load uuid ev best ss = Inr best' \<and> best_of ev Q best' \<and>
    P \<subseteq> Q \<and> Q \<subseteq> P \<union> (\<Union>s \<in> set ss. segment_pairs load s) \<and>
    (ss \<noteq> [] \<longrightarrow> segment_pairs load (hd ss) \<subseteq> Q)"
  using assms
proof (induction ss arbitrary: P best)
  case Nil
  then show ?case by auto
next
  case (Cons s ss)
  have l: "load s = Inr (segment_rows load s)" and r: "\<forall>r \<in> set (segment_rows load s). readable_row r"
    and n: "uuid = [] \<or> (\<forall>r \<in> set (segment_rows load s). row_uuid rp r \<noteq> uuid)"
    using Cons.prems(1) by (auto simp: readable_segment_def unnamed_in_def list_all_iff)
  from scan_rows_best [OF r n Cons.prems(2)] obtain best1
    where s1: "scan_rows rp uuid ev best (segment_rows load s) = Inr best1"
      and b1: "best_of ev (P \<union> segment_pairs load s) best1"
    unfolding segment_pairs_def by auto
  show ?case
  proof (cases "\<exists>m. best1 = Some (0, m)")
    case True
    then show ?thesis using s1 b1 l by (intro exI [of _ best1] exI [of _ "P \<union> segment_pairs load s"]) auto
  next
    case False
    then have go: "scan_segments rp load uuid ev best (s # ss) = scan_segments rp load uuid ev best1 ss"
      by (subst scan_segments.simps, subst l, cases best1) (use s1 in \<open>auto split: prod.splits\<close>)
    from Cons.IH [OF _ b1] Cons.prems(1) obtain best' Q
      where "scan_segments rp load uuid ev best1 ss = Inr best'" "best_of ev Q best'"
        "P \<union> segment_pairs load s \<subseteq> Q"
        "Q \<subseteq> (P \<union> segment_pairs load s) \<union> (\<Union>s \<in> set ss. segment_pairs load s)"
      by auto
    then show ?thesis unfolding go by (intro exI [of _ best'] exI [of _ Q]) auto
  qed
qed

section \<open>A complete index\<close>

text \<open>
  The bounds of every segment are the least and the greatest source time of its rows, and the
  ranges of different segments are apart.
\<close>

definition bounds_exact :: "row_loader \<Rightarrow> rolling_segment \<Rightarrow> bool" where
  "bounds_exact load s \<longleftrightarrow>
     (case (rs_source_first_pts s, rs_source_last_pts s) of
        (Some lo, Some hi) \<Rightarrow>
          (let ss = map snd (clock_pairs (segment_rows load s))
           in lo \<in> set ss \<and> hi \<in> set ss \<and> list_all (\<lambda>x. lo \<le> x \<and> x \<le> hi) ss)
      | _ \<Rightarrow> False)"

definition ranges_apart :: "rolling_segment \<Rightarrow> rolling_segment \<Rightarrow> bool" where
  "ranges_apart a b \<longleftrightarrow>
     the (rs_source_last_pts a) < the (rs_source_first_pts b) \<or>
     the (rs_source_last_pts b) < the (rs_source_first_pts a)"

definition complete_index :: "row_loader \<Rightarrow> rolling_segment list \<Rightarrow> bool" where
  "complete_index load segments \<longleftrightarrow>
     list_all (\<lambda>s. readable_segment load s \<and> bounds_exact load s) segments \<and>
     sorted_wrt ranges_apart segments"

lemma sorted_wrt_members:
  "sorted_wrt R xs \<Longrightarrow> x \<in> set xs \<Longrightarrow> y \<in> set xs \<Longrightarrow> x = y \<or> R x y \<or> R y x"
  by (induction xs) auto

abbreviation segment_distance :: "int \<Rightarrow> rolling_segment \<Rightarrow> int" where
  "segment_distance ev s \<equiv> range_distance (the (rs_source_first_pts s)) (the (rs_source_last_pts s)) ev"

lemma bounds_exactD:
  assumes "bounds_exact load s"
  obtains lo hi where "rs_source_first_pts s = Some lo" "rs_source_last_pts s = Some hi" "lo \<le> hi"
    "\<exists>m. (m, lo) \<in> segment_pairs load s" "\<exists>m. (m, hi) \<in> segment_pairs load s"
    "\<And>m x. (m, x) \<in> segment_pairs load s \<Longrightarrow> lo \<le> x \<and> x \<le> hi"
proof -
  obtain lo hi where b: "rs_source_first_pts s = Some lo" "rs_source_last_pts s = Some hi"
    using assms by (auto simp: bounds_exact_def split: option.splits)
  let ?ss = "map snd (clock_pairs (segment_rows load s))"
  have m: "lo \<in> set ?ss" "hi \<in> set ?ss" and l: "list_all (\<lambda>x. lo \<le> x \<and> x \<le> hi) ?ss"
    using assms by (simp_all add: bounds_exact_def b Let_def)
  show thesis
  proof (rule that [OF b])
    show "lo \<le> hi" using m(2) l unfolding list_all_iff by blast
    show "\<exists>m. (m, lo) \<in> segment_pairs load s" "\<exists>m. (m, hi) \<in> segment_pairs load s"
      using m by (auto simp: segment_pairs_def)
    show "lo \<le> x \<and> x \<le> hi" if "(m, x) \<in> segment_pairs load s" for m x
    proof -
      have "x \<in> set ?ss" using that by (force simp: segment_pairs_def)
      then show ?thesis using l unfolding list_all_iff by blast
    qed
  qed
qed

lemma bounded_candidate_exact:
  assumes "bounds_exact load s"
  shows "bounded_candidate ev (n, s) =
    Some ((segment_distance ev s, the (rs_source_first_pts s), n), s)"
  using assms by (rule bounds_exactD) (simp add: bounded_candidate_def)

lemma enumerate_members: "snd ` set (enumerate n xs) = set xs"
  by (induction xs arbitrary: n) auto

lemma map_filter_total: "(\<And>x. x \<in> set xs \<Longrightarrow> f x = Some (g x)) \<Longrightarrow> List.map_filter f xs = map g xs"
  by (induction xs) (auto simp: List.map_filter_simps)

lemma sorted_hd_least: "sorted (map f xs) \<Longrightarrow> x \<in> set xs \<Longrightarrow> f (hd xs) \<le> f x"
  by (cases xs) auto

lemma hd_map_take: "xs \<noteq> [] \<Longrightarrow> hd (map f (take 3 xs)) = f (hd xs)"
  by (cases xs) (auto simp: numeral_3_eq_3)

lemma sort_key_hd_take:
  assumes "bs \<noteq> []"
  shows "sort_key fst bs \<noteq> []" "hd (sort_key fst bs) \<in> set bs"
    "set (take 3 (sort_key fst bs)) \<subseteq> set bs"
    "x \<in> set bs \<Longrightarrow> fst (hd (sort_key fst bs)) \<le> fst x"
proof -
  have "length (sort_key fst bs) = length bs" by simp
  then show ne: "sort_key fst bs \<noteq> []" using assms by (metis length_0_conv)
  show "hd (sort_key fst bs) \<in> set bs" using hd_in_set [OF ne] by (simp only: set_sort)
  show "set (take 3 (sort_key fst bs)) \<subseteq> set bs"
    using set_take_subset [of 3 "sort_key fst bs"] by (simp only: set_sort)
  show "fst (hd (sort_key fst bs)) \<le> fst x" if "x \<in> set bs"
    by (rule sorted_hd_least [OF sorted_sort_key]) (simp only: set_sort that)
qed

text \<open>The candidates come from the list of the segments with their keys.\<close>

lemma bounded_candidates_exact:
  assumes exact: "\<forall>s \<in> set segments. bounds_exact load s"
  shows "bounded_candidates ev segments =
      map (\<lambda>(n, s). ((segment_distance ev s, the (rs_source_first_pts s), n), s)) (enumerate 0 segments)"
  unfolding bounded_candidates_def
proof (rule map_filter_total)
  fix y assume "y \<in> set (enumerate 0 segments)"
  then obtain n u where "y = (n, u)" "u \<in> set segments"
    using enumerate_members [of 0 segments] by (metis imageI prod.collapse)
  moreover from this exact have "bounds_exact load u" by blast
  ultimately show "bounded_candidate ev y =
      Some (case y of (n, s) \<Rightarrow> ((segment_distance ev s, the (rs_source_first_pts s), n), s))"
    by (simp only: prod.case bounded_candidate_exact [of load])
qed

lemma bounded_candidates_members:
  assumes exact: "\<forall>s \<in> set segments. bounds_exact load s"
  shows "snd ` set (bounded_candidates ev segments) = set segments"
    "y \<in> set (bounded_candidates ev segments) \<Longrightarrow> fst (fst y) = segment_distance ev (snd y)"
  unfolding bounded_candidates_exact [OF exact]
  by (auto simp: image_image case_prod_beta simp flip: enumerate_members [of 0 segments])

lemma candidates_of_bounded:
  assumes exact: "\<forall>s \<in> set segments. bounds_exact load s" and ne: "segments \<noteq> []"
  obtains s where
    "source_clock_candidate_segments segments ev 3 \<noteq> []"
    "hd (source_clock_candidate_segments segments ev 3) = s" "s \<in> set segments"
    "set (source_clock_candidate_segments segments ev 3) \<subseteq> set segments"
    "\<And>u. u \<in> set segments \<Longrightarrow> segment_distance ev s \<le> segment_distance ev u"
proof -
  define bs where "bs = bounded_candidates ev segments"
  note members = bounded_candidates_members [OF exact, where ev = ev, folded bs_def]
  have bne: "bs \<noteq> []" using members(1) ne by auto
  note facts = sort_key_hd_take [OF bne]
  define low where "low = hd (sort_key fst bs)"
  have cands: "source_clock_candidate_segments segments ev 3 = map snd (take 3 (sort_key fst bs))"
    using bne by (simp add: source_clock_candidate_segments_def bs_def [symmetric] Let_def)
  show thesis
  proof (rule that [of "snd low"])
    show "source_clock_candidate_segments segments ev 3 \<noteq> []" using facts(1) by (simp add: cands)
    show "hd (source_clock_candidate_segments segments ev 3) = snd low"
      unfolding cands low_def by (rule hd_map_take [OF facts(1)])
    show "snd low \<in> set segments" using facts(2) members(1) by (auto simp: low_def)
    show "set (source_clock_candidate_segments segments ev 3) \<subseteq> set segments"
      unfolding cands set_map members(1) [symmetric] by (rule image_mono [OF facts(3)])
    show "segment_distance ev (snd low) \<le> segment_distance ev u" if "u \<in> set segments" for u
    proof -
      have "u \<in> snd ` set bs" by (simp only: that members(1))
      then obtain x where x: "x \<in> set bs" "snd x = u" by auto
      have "fst (fst low) \<le> fst (fst x)"
        using facts(4) [OF x(1)] by (auto simp: low_def less_eq_prod_def order_le_less)
      moreover have "low \<in> set bs" unfolding low_def by (rule facts(2))
      ultimately show ?thesis by (simp only: members(2) x)
    qed
  qed
qed

section \<open>The nearest frame\<close>

lemma distance_below:
  assumes "bounds_exact load s" "(m, x) \<in> segment_pairs load s"
  shows "segment_distance ev s \<le> \<bar>x - ev\<bar>"
  using assms(1)
proof (rule bounds_exactD)
  fix lo hi assume "rs_source_first_pts s = Some lo" "rs_source_last_pts s = Some hi"
    and "\<And>m x. (m, x) \<in> segment_pairs load s \<Longrightarrow> lo \<le> x \<and> x \<le> hi"
  moreover from this(3) [OF assms(2)] have "lo \<le> x \<and> x \<le> hi" .
  ultimately show ?thesis by (auto simp: range_distance_def)
qed

text \<open>The nearest segment holds a frame that is nearest among the frames of all segments.\<close>

lemma nearest_in_first:
  assumes index: "complete_index load segments" and s: "s \<in> set segments"
    and near: "\<And>u. u \<in> set segments \<Longrightarrow> segment_distance ev s \<le> segment_distance ev u"
    and u: "u \<in> set segments" "(m, x) \<in> segment_pairs load u"
  shows "\<exists>(m', x') \<in> segment_pairs load s. \<bar>x' - ev\<bar> \<le> \<bar>x - ev\<bar>"
proof (cases "u = s")
  case False
  have exact: "bounds_exact load s" "bounds_exact load u"
    using index s u by (auto simp: complete_index_def list_all_iff)
  have apart: "ranges_apart s u \<or> ranges_apart u s"
    using index sorted_wrt_members [OF _ s u(1)] False by (auto simp: complete_index_def)
  obtain lo hi where b: "rs_source_first_pts s = Some lo" "rs_source_last_pts s = Some hi" "lo \<le> hi"
    and ends: "\<exists>m. (m, lo) \<in> segment_pairs load s" "\<exists>m. (m, hi) \<in> segment_pairs load s"
    using exact(1) by (rule bounds_exactD) blast
  obtain lo' hi' where b': "rs_source_first_pts u = Some lo'" "rs_source_last_pts u = Some hi'"
    and x: "lo' \<le> x" "x \<le> hi'"
    using exact(2) by (rule bounds_exactD) (use u(2) in blast)
  have "segment_distance ev s \<le> \<bar>x - ev\<bar>"
    using near [OF u(1)] distance_below [OF exact(2) u(2), of ev] by linarith
  then have "\<bar>lo - ev\<bar> \<le> \<bar>x - ev\<bar> \<or> \<bar>hi - ev\<bar> \<le> \<bar>x - ev\<bar>"
    using apart x b(3) by (auto simp: range_distance_def ranges_apart_def b b' split: if_splits)
  then show ?thesis using ends by fastforce
qed (use u in auto)

definition nearest_frame :: "row_loader \<Rightarrow> rolling_segment list \<Rightarrow> int \<Rightarrow> int \<Rightarrow> bool" where
  "nearest_frame load segments ev mux \<longleftrightarrow>
     (\<exists>s \<in> set segments. \<exists>(m, x) \<in> segment_pairs load s. m = mux \<and>
        (\<forall>u \<in> set segments. \<forall>(m', x') \<in> segment_pairs load u. \<bar>x - ev\<bar> \<le> \<bar>x' - ev\<bar>))"

definition label_uuid :: "(pyval \<Rightarrow> string) \<Rightarrow> row \<Rightarrow> string" where
  "label_uuid rp labels =
     py_str rp (py_or (py_or (pget labels ''event_frame_uuid'') (pget labels ''frame_uuid'')) (PStr []))"

text \<open>
  C22: with a complete index, and no frame that carries the event's own identifier, the window is
  placed around the frame of the source that is nearest to the event among all segments, although
  only three segments are read; it keeps the requested margins before and after the event.
\<close>

theorem event_anchored_at_nearest_frame:
  assumes index: "complete_index load segments" and ne: "segments \<noteq> []"
    and unnamed: "list_all (unnamed_in rp (label_uuid rp labels) load) segments"
    and ev: "label_int_or_none (pget labels ''event_frame_pts'') = Inr (Some ev)"
  shows "\<exists>mux. map_source_window_to_mux rp load segments a b labels =
      Inr (Some (mux - max 0 (ev - a), mux + max 0 (b - ev), mux)) \<and>
    nearest_frame load segments ev mux"
proof -
  have exact: "\<forall>s \<in> set segments. bounds_exact load s" and
    readable: "\<forall>s \<in> set segments. readable_segment load s \<and> unnamed_in rp (label_uuid rp labels) load s"
    using index unnamed by (auto simp: complete_index_def list_all_iff)
  let ?cs = "source_clock_candidate_segments segments ev 3"
  obtain s where cs: "?cs \<noteq> []" "hd ?cs = s" "s \<in> set segments" "set ?cs \<subseteq> set segments"
    and near: "\<And>u. u \<in> set segments \<Longrightarrow> segment_distance ev s \<le> segment_distance ev u"
    using candidates_of_bounded [OF exact ne, of ev] by blast
  have "\<forall>s \<in> set ?cs. readable_segment load s \<and> unnamed_in rp (label_uuid rp labels) load s"
    using readable cs(4) by blast
  from scan_segments_best [OF this, of ev "{}" None] obtain best Q
    where scan: "scan_segments rp load (label_uuid rp labels) ev None ?cs = Inr best"
      and best: "best_of ev Q best" and Q: "Q \<subseteq> (\<Union>s \<in> set ?cs. segment_pairs load s)"
      and first: "segment_pairs load s \<subseteq> Q"
    using cs by (auto simp: best_of_def)
  have "bounds_exact load s" using exact cs(3) by blast
  then have "segment_pairs load s \<noteq> {}" by (rule bounds_exactD) blast
  with first best obtain d mux x where b: "best = Some (d, mux)" and x: "(mux, x) \<in> Q" "d = \<bar>x - ev\<bar>"
    and least: "\<forall>(m', x') \<in> Q. d \<le> \<bar>x' - ev\<bar>"
    by (cases best) (auto simp: best_of_def)
  obtain v where v: "v \<in> set segments" "(mux, x) \<in> segment_pairs load v" using x Q cs(4) by blast
  have "\<bar>x - ev\<bar> \<le> \<bar>x' - ev\<bar>" if "u \<in> set segments" "(m', x') \<in> segment_pairs load u" for u m' x'
    using nearest_in_first [OF index cs(3) near that] first least x by fastforce
  then have "nearest_frame load segments ev mux"
    unfolding nearest_frame_def using v by blast
  moreover have "map_source_window_to_mux rp load segments a b labels =
      Inr (Some (mux - max 0 (ev - a), mux + max 0 (b - ev), mux))"
    using scan by (simp add: map_source_window_to_mux_def ev label_uuid_def b)
  ultimately show ?thesis by blast
qed

definition clock_segment :: "string \<Rightarrow> int option \<Rightarrow> int option \<Rightarrow> rolling_segment" where
  "clock_segment ident lo hi =
     \<lparr>rs_segment_id = ident, rs_source_id = ''cam'', rs_runtime_epoch_id = ''e'',
      rs_directory = ''d'', rs_video_path = ''v'', rs_metadata_path = ''m'',
      rs_first_pts = 0, rs_last_pts = 80, rs_frame_count = 2, rs_size_bytes = 1,
      rs_source_first_pts = lo, rs_source_last_pts = hi\<rparr>"

definition clock_row :: "int \<Rightarrow> int \<Rightarrow> row" where
  "clock_row mux source = [(''rolling_cache_mux_pts'', PInt mux), (''pts'', PInt source)]"

definition clock_rows :: "row_loader" where
  "clock_rows s =
     (if rs_segment_id s = ''a'' then Inr [clock_row 0 1000, clock_row 40 1050]
      else Inr [clock_row 80 1090, clock_row 120 1130])"

definition clock_segments :: "rolling_segment list" where
  "clock_segments =
     [clock_segment ''a'' (Some 1000) (Some 1050), clock_segment ''b'' (Some 1090) (Some 1130)]"

theorem event_anchored_at_nearest_frame_witness:
  "\<exists>mux. map_source_window_to_mux (\<lambda>_. []) clock_rows clock_segments 900 1200
       [(''event_frame_pts'', PInt 1080)] =
      Inr (Some (mux - max 0 (1080 - 900), mux + max 0 (1200 - 1080), mux)) \<and>
    nearest_frame clock_rows clock_segments 1080 mux"
proof (rule event_anchored_at_nearest_frame)
  show "complete_index clock_rows clock_segments" by code_simp
  show "clock_segments \<noteq> []" by code_simp
  show "list_all (unnamed_in (\<lambda>_. []) (label_uuid (\<lambda>_. []) [(''event_frame_pts'', PInt 1080)]) clock_rows)
     clock_segments" by code_simp
  show "label_int_or_none (pget [(''event_frame_pts'', PInt 1080)] ''event_frame_pts'') = Inr (Some 1080)"
    by code_simp
qed

text \<open>
  A segment without bounds is searched only when no segment has bounds, so one segment of the
  new kind hides all older ones, although the description of the function keeps the full scan
  for them: here the older segment holds the event's own frame time, and the window is placed
  around a frame of the newer segment that is 90 time units away.
\<close>

lemma map_filter_members: "y \<in> set (List.map_filter f xs) \<Longrightarrow> \<exists>x \<in> set xs. f x = Some y"
  by (induction xs) (auto simp: List.map_filter_simps split: option.splits)

theorem unbounded_segments_are_hidden:
  assumes "s \<in> set segments" "rs_source_first_pts s \<noteq> None" "rs_source_last_pts s \<noteq> None"
    and "u \<in> set (source_clock_candidate_segments segments ev limit)"
  shows "rs_source_first_pts u \<noteq> None \<and> rs_source_last_pts u \<noteq> None"
proof -
  obtain n where n: "(n, s) \<in> set (enumerate 0 segments)"
    using assms(1) unfolding enumerate_members [of 0 segments, symmetric] by auto
  have "bounded_candidates ev segments \<noteq> []"
  proof
    assume "bounded_candidates ev segments = []"
    then have "\<forall>x \<in> set (enumerate 0 segments). bounded_candidate ev x = None"
      by (simp add: bounded_candidates_def List.map_filter_def filter_empty_conv del: not_None_eq)
    then have "bounded_candidate ev (n, s) = None" using n by blast
    then show False using assms by (auto simp: bounded_candidate_def)
  qed
  then obtain k where "(k, u) \<in> set (bounded_candidates ev segments)"
    using assms(4) by (auto simp: source_clock_candidate_segments_def Let_def dest!: in_set_takeD)
  then obtain x where "bounded_candidate ev x = Some (k, u)"
    unfolding bounded_candidates_def by (blast dest: map_filter_members)
  then show ?thesis by (auto simp: bounded_candidate_def split: prod.splits option.splits)
qed

theorem unbounded_segment_misplaces_the_event:
  "map_source_window_to_mux (\<lambda>_. []) clock_rows
     [clock_segment ''b'' (Some 1090) (Some 1130), clock_segment ''a'' None None] 900 1200
     [(''event_frame_pts'', PInt 1000)] = Inr (Some (- 20, 280, 80)) \<and>
   map_source_window_to_mux (\<lambda>_. []) clock_rows [clock_segment ''a'' None None] 900 1200
     [(''event_frame_pts'', PInt 1000)] = Inr (Some (- 100, 200, 0))"
  by code_simp

end
