(* ===== verification/RollingRemux.thy ===== *)
theory RollingRemux
  imports RollingWindow
begin

text \<open>
  Cutting the clip of an accepted plan (rolling_cache.py): the commands, the copy with its two
  repairs, the probes, the transcoding repair, and the documents that describe the result.  The
  runs of the external program and the probes are arguments: for the n-th run, how it ended and
  how large the output file is afterwards.
\<close>

section \<open>Texts of numbers\<close>

text \<open>\<open>f"{x:.nf}"\<close> of a number that is not negative.\<close>

definition pad_zeros :: "nat \<Rightarrow> string \<Rightarrow> string" where
  "pad_zeros n s = replicate (n - length s) CHR ''0'' @ s"

definition fixed_text :: "nat \<Rightarrow> real \<Rightarrow> string" where
  "fixed_text n x =
     (let k = nat (py_round (x * 10 ^ n))
      in nat_dec (k div 10 ^ n) @ ''.'' @ pad_zeros n (nat_dec (k mod 10 ^ n)))"

definition rstrip_char :: "char \<Rightarrow> string \<Rightarrow> string" where
  "rstrip_char c s = rev (dropWhile (\<lambda>x. x = c) (rev s))"

definition seconds_arg :: "real \<Rightarrow> string" where
  "seconds_arg value =
     (let s = rstrip_char CHR ''.'' (rstrip_char CHR ''0'' (fixed_text 6 (max 0 value)))
      in if s = [] then ''0'' else s)"

section \<open>The commands\<close>

type_synonym command = "string list"

definition concat_escape :: "string \<Rightarrow> string" where
  "concat_escape path =
     concat (map (\<lambda>c. if c = char_of (39 :: nat)
                      then [char_of (39 :: nat), char_of (92 :: nat), char_of (39 :: nat), char_of (39 :: nat)]
                      else [c]) path)"

text \<open>The list of the files to join: \<open>file '...'\<close> and a line end for every segment.\<close>

definition concat_line :: "rolling_segment \<Rightarrow> string" where
  "concat_line s =
     ''file '' @ [char_of (39 :: nat)] @ concat_escape (rs_video_path s) @
     [char_of (39 :: nat), char_of (10 :: nat)]"

definition concat_text :: "rolling_segment list \<Rightarrow> string" where
  "concat_text segments = concat (map concat_line segments)"

record cut =
  ct_ffmpeg :: string
  ct_concat_path :: string
  ct_video_path :: string
  ct_trim_start :: real
  ct_duration :: real

definition concat_copy_command :: "cut \<Rightarrow> command" where
  "concat_copy_command c =
     [ct_ffmpeg c, ''-hide_banner'', ''-y'', ''-f'', ''concat'', ''-safe'', ''0'', ''-i'',
      ct_concat_path c, ''-ss'', seconds_arg (ct_trim_start c), ''-t'', seconds_arg (ct_duration c),
      ''-c'', ''copy'', ''-movflags'', ''+faststart'', ct_video_path c]"

definition concat_copy_retry_command :: "cut \<Rightarrow> command" where
  "concat_copy_retry_command c =
     [ct_ffmpeg c, ''-hide_banner'', ''-y'', ''-ss'', seconds_arg (ct_trim_start c), ''-f'', ''concat'',
      ''-safe'', ''0'', ''-i'', ct_concat_path c, ''-t'', seconds_arg (ct_duration c), ''-c'', ''copy'',
      ''-avoid_negative_ts'', ''make_zero'', ''-movflags'', ''+faststart'', ct_video_path c]"

definition ffmpeg_thread_args :: "environ \<Rightarrow> string list" where
  "ffmpeg_thread_args env =
     (let thread_limit =
        (case parse_int (case env ''MEDIA_WORKER_MATERIALIZATION_CPU_THREAD_LIMIT'' of
                           None \<Rightarrow> ''0'' | Some s \<Rightarrow> s) of
           None \<Rightarrow> 0 | Some n \<Rightarrow> n)
      in if thread_limit \<le> 0 then [] else [''-threads'', int_dec thread_limit])"

definition ffmpeg_x264_tuning_args :: "environ \<Rightarrow> string list" where
  "ffmpeg_x264_tuning_args env =
     (let preset = py_strip (case env ''MEDIA_WORKER_FFMPEG_X264_PRESET'' of
                               None \<Rightarrow> ''ultrafast'' | Some s \<Rightarrow> s)
      in (if preset \<noteq> [] then [''-preset'', preset] else []) @ ffmpeg_thread_args env)"

definition concat_transcode_retry_command :: "environ \<Rightarrow> cut \<Rightarrow> command" where
  "concat_transcode_retry_command env c =
     [ct_ffmpeg c, ''-hide_banner'', ''-nostdin''] @ ffmpeg_thread_args env @
     [''-y'', ''-f'', ''concat'', ''-safe'', ''0'', ''-i'', ct_concat_path c, ''-vf'',
      ''trim=start='' @ fixed_text 9 (ct_trim_start c) @ '':duration='' @ fixed_text 9 (ct_duration c) @
      '',setpts=PTS-STARTPTS'',
      ''-t'', fixed_text 9 (ct_duration c), ''-an'', ''-c:v'', ''libx264''] @
     ffmpeg_x264_tuning_args env @ [''-pix_fmt'', ''yuv420p'', ct_video_path c]"

section \<open>The probes\<close>

text \<open>
  The duration that the probing program prints; only a positive number counts.  An infinite
  duration would count, a NaN does not.
\<close>

definition probe_video_duration_seconds :: "int \<Rightarrow> string \<Rightarrow> pyfloat option" where
  "probe_video_duration_seconds returncode output =
     (if returncode \<noteq> 0 then None
      else case parse_float output of
             None \<Rightarrow> None
           | Some v \<Rightarrow> if flt_less (Fin 0) v then Some v else None)"

definition duration_below_expected :: "pyfloat option \<Rightarrow> real \<Rightarrow> bool" where
  "duration_below_expected observed expected =
     (case observed of None \<Rightarrow> False | Some d \<Rightarrow> flt_less d (Fin (max 0 (expected - 1))))"

text \<open>\<open>max(x, 0.0)\<close> keeps a NaN, which then is no positive minimum.\<close>

definition minimum_output_frame_rate_fps :: "environ \<Rightarrow> pyfloat" where
  "minimum_output_frame_rate_fps env =
     (case parse_float (case env ''ROLLING_CACHE_MIN_OUTPUT_FPS'' of None \<Rightarrow> ''23.5'' | Some s \<Rightarrow> s) of
        None \<Rightarrow> Fin (47 / 2)
      | Some v \<Rightarrow> if flt_less v (Fin 0) then Fin 0 else v)"

definition frame_rate_below_expected :: "environ \<Rightarrow> pyfloat option \<Rightarrow> bool" where
  "frame_rate_below_expected env observed =
     (let minimum = minimum_output_frame_rate_fps env
      in case observed of
           None \<Rightarrow> False
         | Some f \<Rightarrow> flt_less (Fin 0) minimum \<and> flt_less f minimum)"

section \<open>The runs\<close>

record run_result =
  rr_failure :: "rolling_error option"
  rr_size :: "int option"

text \<open>
  What is outside: the n-th run of a command, and after it the observed duration and frame rate,
  when there is a probe for them; the least valid size of the output; texts of floats.
\<close>

record remux_world =
  rw_run :: "nat \<Rightarrow> command \<Rightarrow> run_result"
  rw_duration :: "(nat \<Rightarrow> pyfloat option) option"
  rw_fps :: "(nat \<Rightarrow> pyfloat option) option"
  rw_min_bytes :: int
  rw_float_text :: "pyfloat \<Rightarrow> string"

record remux_state =
  rm_commands :: "command list"
  rm_size :: "int option"

definition unlink_output :: "remux_state \<Rightarrow> remux_state" where
  "unlink_output st = st\<lparr>rm_size := None\<rparr>"

definition run_command :: "remux_world \<Rightarrow> command \<Rightarrow> remux_state \<Rightarrow> rolling_error option \<times> remux_state" where
  "run_command w c st =
     (let r = rw_run w (length (rm_commands st)) c
      in (rr_failure r, \<lparr>rm_commands = rm_commands st @ [c], rm_size = rr_size r\<rparr>))"

definition output_valid :: "remux_world \<Rightarrow> remux_state \<Rightarrow> bool" where
  "output_valid w st = (case rm_size st of None \<Rightarrow> False | Some n \<Rightarrow> rw_min_bytes w \<le> n)"

fun error_text :: "rolling_error \<Rightarrow> string" where
  "error_text (Coverage_Miss m) = miss_text m"
| "error_text (Cache_Error s) = s"
| "error_text (Other_Error e) = []"

fun is_cache_error :: "rolling_error \<Rightarrow> bool" where
  "is_cache_error (Other_Error e) = False"
| "is_cache_error _ = True"

definition compact_error_text :: "string \<Rightarrow> string" where
  "compact_error_text value =
     (let compact = py_join '' '' (py_split value)
      in if length compact \<le> 700 then compact else drop (length compact - 700) compact)"

text \<open>
  The copy: a failed run is repeated with the other command, and so is a run without a valid
  output; only errors of the cache are caught.
\<close>

definition first_copy ::
  "remux_world \<Rightarrow> cut \<Rightarrow> remux_state \<Rightarrow> (rolling_error + command) \<times> remux_state" where
  "first_copy w c st =
     (case run_command w (concat_copy_command c) st of
        (None, st1) \<Rightarrow> (Inr (concat_copy_command c), st1)
      | (Some e, st1) \<Rightarrow>
          if \<not> is_cache_error e then (Inl e, st1)
          else case run_command w (concat_copy_retry_command c) (unlink_output st1) of
                 (None, st2) \<Rightarrow> (Inr (concat_copy_retry_command c), st2)
               | (Some e2, st2) \<Rightarrow>
                   if \<not> is_cache_error e2 then (Inl e2, st2)
                   else (Inl (Cache_Error (error_text e2 @ ''; initial_attempt='' @
                                compact_error_text (error_text e))), st2))"

definition checked_copy ::
  "remux_world \<Rightarrow> cut \<Rightarrow> command \<Rightarrow> remux_state \<Rightarrow> (rolling_error + command) \<times> remux_state" where
  "checked_copy w c executed st =
     (if output_valid w st then (Inr executed, st)
      else case run_command w (concat_copy_retry_command c) (unlink_output st) of
             (Some e, st1) \<Rightarrow> (Inl e, st1)
           | (None, st1) \<Rightarrow>
               if output_valid w st1 then (Inr (concat_copy_retry_command c), st1)
               else (Inl (Cache_Error ''rolling_cache_ffmpeg_output_missing''), st1))"

definition copy_phase ::
  "remux_world \<Rightarrow> cut \<Rightarrow> remux_state \<Rightarrow> (rolling_error + command) \<times> remux_state" where
  "copy_phase w c st =
     (case first_copy w c st of
        (Inl e, st1) \<Rightarrow> (Inl e, st1)
      | (Inr executed, st1) \<Rightarrow> checked_copy w c executed st1)"

record remux_report =
  rp_command :: command
  rp_duration :: "pyfloat option"
  rp_fps :: "pyfloat option"
  rp_repaired :: bool
  rp_status :: string

definition observed_duration :: "remux_world \<Rightarrow> remux_state \<Rightarrow> pyfloat option" where
  "observed_duration w st =
     (case rw_duration w of None \<Rightarrow> None | Some f \<Rightarrow> f (length (rm_commands st)))"

definition observed_fps :: "remux_world \<Rightarrow> remux_state \<Rightarrow> pyfloat option" where
  "observed_fps w st = (case rw_fps w of None \<Rightarrow> None | Some f \<Rightarrow> f (length (rm_commands st)))"

definition optional_text :: "remux_world \<Rightarrow> pyfloat option \<Rightarrow> string" where
  "optional_text w x = (case x of None \<Rightarrow> ''unknown'' | Some v \<Rightarrow> rw_float_text w v)"

definition fixed_float_text :: "remux_world \<Rightarrow> nat \<Rightarrow> pyfloat \<Rightarrow> string" where
  "fixed_float_text w n v = (case v of Fin x \<Rightarrow> fixed_text n x | _ \<Rightarrow> rw_float_text w v)"

text \<open>A clip that is too short or too slow is transcoded once and probed again.\<close>

definition repair_phase ::
  "environ \<Rightarrow> remux_world \<Rightarrow> cut \<Rightarrow> remux_state \<Rightarrow> (rolling_error + remux_report) \<times> remux_state" where
  "repair_phase env w c st =
     (let command = concat_transcode_retry_command env c
      in case run_command w command (unlink_output st) of
           (Some e, st1) \<Rightarrow> (Inl e, st1)
         | (None, st1) \<Rightarrow>
             if \<not> output_valid w st1
             then (Inl (Cache_Error ''rolling_cache_transcode_output_missing''), st1)
             else if duration_below_expected (observed_duration w st1) (ct_duration c)
             then (Inl (Coverage_Miss (Output_Duration_Short (fixed_text 3 (ct_duration c))
                          (optional_text w (observed_duration w st1)))), st1)
             else if frame_rate_below_expected env (observed_fps w st1)
             then (Inl (Coverage_Miss (Output_Frame_Rate_Low
                          (fixed_float_text w 3 (minimum_output_frame_rate_fps env))
                          (optional_text w (observed_fps w st1)))), st1)
             else (Inr \<lparr>rp_command = command, rp_duration = observed_duration w st1,
                        rp_fps = observed_fps w st1, rp_repaired = True,
                        rp_status = ''transcode_retry_duration_ok''\<rparr>, st1))"

definition probe_phase ::
  "environ \<Rightarrow> remux_world \<Rightarrow> cut \<Rightarrow> command \<Rightarrow> remux_state \<Rightarrow> (rolling_error + remux_report) \<times> remux_state" where
  "probe_phase env w c executed st =
     (if rw_duration w = None
      then (Inr \<lparr>rp_command = executed, rp_duration = None, rp_fps = None, rp_repaired = False,
                 rp_status = ''not_checked''\<rparr>, st)
      else if duration_below_expected (observed_duration w st) (ct_duration c) \<or>
              frame_rate_below_expected env (observed_fps w st)
      then repair_phase env w c st
      else (Inr \<lparr>rp_command = executed, rp_duration = observed_duration w st,
                 rp_fps = observed_fps w st, rp_repaired = False,
                 rp_status = ''copy_duration_ok''\<rparr>, st))"

definition remux ::
  "environ \<Rightarrow> remux_world \<Rightarrow> cut \<Rightarrow> (rolling_error + remux_report) \<times> remux_state" where
  "remux env w c =
     (case copy_phase w c \<lparr>rm_commands = [], rm_size = None\<rparr> of
        (Inl e, st) \<Rightarrow> (Inl e, st)
      | (Inr executed, st) \<Rightarrow> probe_phase env w c executed st)"

section \<open>The documents\<close>

text \<open>
  What the process measures around the work: the identity of the output file, the clock, the
  elapsed times and the size of the published document.
\<close>

record publication =
  pb_identity :: pyval
  pb_observed_at_ns :: int
  pb_materialization_ms :: int
  pb_publish_ms :: int
  pb_metadata_bytes :: int

definition bool_text :: "bool \<Rightarrow> string" where
  "bool_text b = (if b then ''true'' else ''false'')"

definition seconds_of_ns :: "int \<Rightarrow> real" where
  "seconds_of_ns n = of_int n / 1000000000"

definition plan_epoch :: "string \<Rightarrow> rolling_plan \<Rightarrow> string" where
  "plan_epoch runtime_epoch_id p =
     (if runtime_epoch_id \<noteq> [] then runtime_epoch_id
      else if rs_runtime_epoch_id (hd (pl_segments p)) \<noteq> [] then rs_runtime_epoch_id (hd (pl_segments p))
      else ''unknown-epoch'')"

definition plan_cut :: "string \<Rightarrow> string \<Rightarrow> rolling_plan \<Rightarrow> cut" where
  "plan_cut ffmpeg sink_dir p =
     \<lparr>ct_ffmpeg = ffmpeg, ct_concat_path = sink_dir @ ''/segments.concat.txt'',
      ct_video_path = sink_dir @ ''/video.mov'',
      ct_trim_start = max 0 (seconds_of_ns (fst (pl_output p) - fst (pl_segment_window p))),
      ct_duration = max (1 / 1000) (seconds_of_ns (snd (pl_output p) - fst (pl_output p)))\<rparr>"

definition sink_dir_of :: "string \<Rightarrow> string \<Rightarrow> string \<Rightarrow> string" where
  "sink_dir_of output_root epoch event_id =
     output_root @ ''/midterm/epochs/'' @ epoch @ ''/materialized/'' @ event_id"

record request =
  rq_event_id :: string
  rq_source_id :: string
  rq_runtime_epoch_id :: string
  rq_start_pts :: int
  rq_end_pts :: int
  rq_labels :: row

definition fixed_labels ::
  "request \<Rightarrow> string \<Rightarrow> rolling_plan \<Rightarrow> int \<Rightarrow> (string \<times> string) list" where
  "fixed_labels q epoch p slack =
     [(''event_id'', rq_event_id q), (''source_id'', rq_source_id q), (''runtime_epoch_id'', epoch),
      (''requested_start_pts'', int_dec (rq_start_pts q)),
      (''requested_end_pts'', int_dec (rq_end_pts q)),
      (''effective_start_pts'', int_dec (rq_start_pts q)),
      (''actual_start_pts'', int_dec (rq_start_pts q)),
      (''actual_end_pts'', int_dec (rq_end_pts q)),
      (''rolling_cache_mux_requested_start_pts'', int_dec (fst (pl_requested p))),
      (''rolling_cache_mux_requested_end_pts'', int_dec (snd (pl_requested p))),
      (''rolling_cache_mux_event_pts'',
         case pl_event_pts p of None \<Rightarrow> [] | Some e \<Rightarrow> if e = 0 then [] else int_dec e),
      (''pre_window_truncated'', bool_text (slack < fst (pl_gaps p))),
      (''post_window_truncated'', bool_text (slack < snd (pl_gaps p))),
      (''rolling_cache_enabled'', ''true''), (''materialization_mode'', ''rolling_cache_copy''),
      (''canonical_clip'', bool_text (pl_canonical p)), (''time_domain_crop_applied'', ''true''),
      (''requested_duration_s'', seconds_arg (seconds_of_ns (rq_end_pts q - rq_start_pts q)))]"

definition label_doc ::
  "(pyval \<Rightarrow> string) \<Rightarrow> request \<Rightarrow> string \<Rightarrow> rolling_plan \<Rightarrow> int \<Rightarrow> (string \<times> string) list" where
  "label_doc rp q epoch p slack =
     fold (\<lambda>(k, v). dset k v) (fixed_labels q epoch p slack)
       (map (\<lambda>(k, v). (k, py_str rp v)) (filter (\<lambda>(k, v). v \<noteq> PNone) (rq_labels q)))"

definition opt_val :: "('a \<Rightarrow> pyval) \<Rightarrow> 'a option \<Rightarrow> pyval" where
  "opt_val f x = (case x of None \<Rightarrow> PNone | Some y \<Rightarrow> f y)"

definition immutable_probe :: "publication \<Rightarrow> remux_report \<Rightarrow> pyval" where
  "immutable_probe b r =
     PDict [(''schema_version'', PStr ''rolling-cache-immutable-probe-v1''),
            (''status'', PStr (if rp_duration r = None then ''unavailable'' else ''ready'')),
            (''duration_s'', opt_val PFloat (rp_duration r)), (''identity'', pb_identity b),
            (''observed_at_epoch_ns'', PInt (pb_observed_at_ns b))]"

definition rolling_doc ::
  "request \<Rightarrow> cut \<Rightarrow> rolling_plan \<Rightarrow> remux_report \<Rightarrow> publication \<Rightarrow> int \<Rightarrow> (string \<times> pyval) list" where
  "rolling_doc q c p r b slack =
     [(''schema_version'', PStr ''rolling-cache-materialized-v1''),
      (''materialization_mode'', PStr ''rolling_cache_copy''),
      (''canonical_clip'', PBool (pl_canonical p)),
      (''requested_start_pts'', PInt (rq_start_pts q)), (''requested_end_pts'', PInt (rq_end_pts q)),
      (''requested_duration_s'', PFloat (Fin (seconds_of_ns (rq_end_pts q - rq_start_pts q)))),
      (''actual_start_pts'', PInt (rq_start_pts q)), (''actual_end_pts'', PInt (rq_end_pts q)),
      (''mux_requested_start_pts'', PInt (fst (pl_requested p))),
      (''mux_requested_end_pts'', PInt (snd (pl_requested p))),
      (''mux_event_pts'', opt_val PInt (pl_event_pts p)),
      (''mux_actual_start_pts'', PInt (fst (pl_output p))),
      (''mux_actual_end_pts'', PInt (snd (pl_output p))),
      (''segment_start_pts'', PInt (fst (pl_segment_window p))),
      (''segment_end_pts'', PInt (snd (pl_segment_window p))),
      (''trim_start_s'', PFloat (Fin (ct_trim_start c))),
      (''output_duration_s'', PFloat (Fin (ct_duration c))),
      (''time_domain_crop_applied'', PBool True),
      (''start_gap_ns'', PInt (fst (pl_gaps p))), (''end_gap_ns'', PInt (snd (pl_gaps p))),
      (''coverage_slack_ns'', PInt slack),
      (''coverage_status'', PStr (if pl_canonical p then ''covered'' else ''partial'')),
      (''pre_window_truncated'', PBool (slack < fst (pl_gaps p))),
      (''post_window_truncated'', PBool (slack < snd (pl_gaps p))),
      (''segment_ids'', PList (map (PStr \<circ> rs_segment_id) (pl_segments p))),
      (''segment_paths'', PList (map (PStr \<circ> rs_video_path) (pl_segments p))),
      (''selected_frame_count'', PInt (int (length (pl_rows p)))),
      (''materialization_ms'', PInt (pb_materialization_ms b)),
      (''probed_output_duration_s'', opt_val PFloat (rp_duration r)),
      (''probed_output_frame_rate_fps'', opt_val PFloat (rp_fps r)),
      (''immutable_probe'', immutable_probe b r),
      (''duration_repair_attempted'', PBool (rp_repaired r)),
      (''duration_repair_status'', PStr (rp_status r))]"

definition metadata_doc ::
  "(pyval \<Rightarrow> string) \<Rightarrow> request \<Rightarrow> string \<Rightarrow> cut \<Rightarrow> rolling_plan \<Rightarrow> remux_report \<Rightarrow> publication \<Rightarrow> int \<Rightarrow>
   (string \<times> pyval) list" where
  "metadata_doc rp q epoch c p r b slack =
     (let labels = PDict (map (\<lambda>(k, v). (k, PStr v)) (label_doc rp q epoch p slack));
          stream = ''rolling-cache-event-'' @ rq_event_id q
      in [(''event_id'', PStr (rq_event_id q)), (''job_id'', PStr stream),
          (''source_id'', PStr (rq_source_id q)), (''stored_stream_id'', PStr (rq_source_id q)),
          (''resulting_stream_id'', PStr stream), (''runtime_epoch_id'', PStr epoch),
          (''labels'', labels),
          (''configuration'', PDict [(''labels'', labels), (''stored_stream_id'', PStr (rq_source_id q)),
                                     (''resulting_stream_id'', PStr stream)]),
          (''rolling_cache'', PDict (rolling_doc q c p r b slack)),
          (''frames'', PList (map PDict (pl_rows p)))])"

section \<open>The materialization\<close>

record materialization =
  mz_sink_dir :: string
  mz_video_path :: string
  mz_metadata_path :: string
  mz_metadata_payload :: "(string \<times> pyval) list"
  mz_segment_ids :: "string list"
  mz_requested :: "int \<times> int"
  mz_actual :: "int \<times> int"
  mz_selected_frame_count :: nat
  mz_materialization_ms :: int
  mz_metadata_publish_ms :: int
  mz_metadata_bytes :: int
  mz_command :: command
  mz_immutable_probe :: pyval

definition materialize_window ::
  "(pyval \<Rightarrow> string) \<Rightarrow> environ \<Rightarrow> remux_world \<Rightarrow> publication \<Rightarrow> row_loader \<Rightarrow> rolling_segment list \<Rightarrow>
   string \<Rightarrow> string \<Rightarrow> request \<Rightarrow> int \<Rightarrow> bool \<Rightarrow> materialization rolling" where
  "materialize_window rp env w b load segments ffmpeg output_root q slack allow_partial =
     rl_bind (plan_window rp load segments (rq_start_pts q) (rq_end_pts q) (rq_labels q) slack allow_partial)
       (\<lambda>p. let epoch = plan_epoch (rq_runtime_epoch_id q) p;
                sink_dir = sink_dir_of output_root epoch (rq_event_id q);
                c = plan_cut ffmpeg sink_dir p
            in rl_bind (fst (remux env w c)) (\<lambda>r.
                 Inr \<lparr>mz_sink_dir = sink_dir, mz_video_path = ct_video_path c,
                      mz_metadata_path = sink_dir @ ''/metadata.json'',
                      mz_metadata_payload = metadata_doc rp q epoch c p r b slack,
                      mz_segment_ids = map rs_segment_id (pl_segments p),
                      mz_requested = (rq_start_pts q, rq_end_pts q),
                      mz_actual = (rq_start_pts q, rq_end_pts q),
                      mz_selected_frame_count = length (pl_rows p),
                      mz_materialization_ms = pb_materialization_ms b,
                      mz_metadata_publish_ms = pb_publish_ms b,
                      mz_metadata_bytes = pb_metadata_bytes b,
                      mz_command = rp_command r, mz_immutable_probe = immutable_probe b r\<rparr>))"

section \<open>What an accepted output has passed\<close>

lemmas phase_defs = first_copy_def checked_copy_def copy_phase_def repair_phase_def probe_phase_def
  Let_def

lemma run_command_cases:
  obtains r st' where "run_command w c st = (r, st')" "rm_commands st' = rm_commands st @ [c]"
  by (simp add: run_command_def Let_def)

lemma commands_unlink [simp]: "rm_commands (unlink_output st) = rm_commands st"
  by (simp add: unlink_output_def)

lemma run_command_length:
  "run_command w c st = (r, st') \<Longrightarrow> length (rm_commands st') = Suc (length (rm_commands st))"
  by (auto simp: run_command_def Let_def)

lemma first_copy_length:
  "first_copy w c st = (r, st') \<Longrightarrow>
   length (rm_commands st) < length (rm_commands st') \<and>
   length (rm_commands st') \<le> length (rm_commands st) + 2"
  by (auto simp: first_copy_def dest!: run_command_length split: prod.splits option.splits if_splits)

lemma checked_copy_length:
  "checked_copy w c x st = (r, st') \<Longrightarrow>
   length (rm_commands st) \<le> length (rm_commands st') \<and>
   length (rm_commands st') \<le> length (rm_commands st) + 1"
  by (auto simp: checked_copy_def dest!: run_command_length split: prod.splits option.splits if_splits)

lemma checked_copy_valid: "checked_copy w c x st = (Inr y, st') \<Longrightarrow> output_valid w st'"
  by (auto simp: checked_copy_def split: if_splits prod.splits option.splits)

lemma copy_phase_facts:
  assumes "copy_phase w c st = (r, st')"
  shows "length (rm_commands st') \<le> length (rm_commands st) + 3"
    "length (rm_commands st) < length (rm_commands st')"
    "r = Inr x \<Longrightarrow> output_valid w st'"
  using assms
  by (auto simp: copy_phase_def dest!: first_copy_length dest: checked_copy_length checked_copy_valid
      split: prod.splits sum.splits)

lemma repair_phase_facts:
  assumes "repair_phase env w c st = (r, st')"
  shows "length (rm_commands st') = Suc (length (rm_commands st))"
    "r = Inr rep \<Longrightarrow> output_valid w st' \<and>
      \<not> duration_below_expected (rp_duration rep) (ct_duration c) \<and>
      \<not> frame_rate_below_expected env (rp_fps rep)"
  using assms
  by (auto simp: repair_phase_def Let_def dest!: run_command_length
      split: prod.splits option.splits if_splits)


end
