(* ===== verification/RollingRetry.thy ===== *)
theory RollingRetry
  imports RollingRemux TaskLeases
begin

text \<open>
  What the media worker does around a materialization (worker.py): the window it asks for, and
  the settlement of the task when the rolling cache misses or fails.  The text of the miss is the
  reason of the deferral, and the classifier of the evidence lifecycle decides from it whether
  the deferral is a retry.
\<close>

section \<open>The requested window\<close>

definition to_float :: "pyval \<Rightarrow> pyfloat option" where
  "to_float v = (case py_float v of Inr x \<Rightarrow> Some x | Inl _ \<Rightarrow> None)"

text \<open>\<open>a or b\<close> of optional floats: zero is no value, a NaN is one.\<close>

definition float_or :: "pyfloat option \<Rightarrow> pyfloat option \<Rightarrow> pyfloat option" where
  "float_or a b = (case a of None \<Rightarrow> b | Some x \<Rightarrow> if x = Fin 0 then b else a)"

definition window_seconds :: "environ \<Rightarrow> string \<Rightarrow> pyval \<Rightarrow> pyval \<Rightarrow> pyfloat result" where
  "window_seconds env name task_value window_value =
     (case float_or (to_float task_value) (float_or (to_float window_value) None) of
        Some x \<Rightarrow> Inr x
      | None \<Rightarrow> py_float (PStr (case env name of None \<Rightarrow> ''5'' | Some s \<Rightarrow> s)))"

text \<open>\<open>int(pts + seconds * 1e9)\<close> with a sign; an infinity or a NaN cannot become an integer.\<close>

definition offset_pts :: "int \<Rightarrow> real \<Rightarrow> pyfloat \<Rightarrow> int result" where
  "offset_pts pts sign seconds =
     (case seconds of
        Fin s \<Rightarrow> Inr (py_trunc (of_int pts + sign * (s * 1000000000)))
      | NaN \<Rightarrow> Inl (Value_Error ''cannot convert float NaN to integer'')
      | _ \<Rightarrow> Inl Overflow_Error)"

definition rolling_cache_window ::
  "environ \<Rightarrow> (string \<times> pyval) list \<Rightarrow> (string \<times> pyval) list \<Rightarrow> (int \<times> int \<times> int) option result" where
  "rolling_cache_window env task_row event_context =
     (let payload = as_dict (pget event_context ''payload'');
          media = as_dict (pget payload ''media'');
          replay_window = as_dict (pget task_row ''replay_window'')
      in rbind (int_or_absent
             (py_or (py_or (py_or (pget media ''event_frame_pts'') (pget media ''frame_pts''))
               (pget replay_window ''event_frame_pts'')) (pget replay_window ''frame_pts'')))
           (\<lambda>event. case event of
              None \<Rightarrow> Inr None
            | Some event_pts \<Rightarrow>
                rbind (window_seconds env ''DEFAULT_PRE_SECONDS'' (pget task_row ''pre_seconds'')
                         (pget replay_window ''pre_seconds'')) (\<lambda>pre.
                rbind (window_seconds env ''DEFAULT_POST_SECONDS'' (pget task_row ''post_seconds'')
                         (pget replay_window ''post_seconds'')) (\<lambda>post.
                rbind (offset_pts event_pts (- 1) pre) (\<lambda>start.
                rbind (offset_pts event_pts 1 post) (\<lambda>stop.
                Inr (Some (max 0 start, stop, event_pts))))))))"

section \<open>The labels of the job\<close>

definition or_empty :: "pyval \<Rightarrow> pyval" where
  "or_empty v = py_or v (PStr [])"

definition get_or_text :: "(string \<times> pyval) list \<Rightarrow> string \<Rightarrow> pyval" where
  "get_or_text d k = dget_or d k (PStr [])"

definition rolling_cache_labels ::
  "(string \<times> pyval) list \<Rightarrow> (string \<times> pyval) list \<Rightarrow> string \<Rightarrow> int \<Rightarrow> int \<Rightarrow> int \<Rightarrow> (string \<times> pyval) list" where
  "rolling_cache_labels row ctx runtime_epoch_id start_pts end_pts event_pts =
     [(''event_id'', get_or_text ctx ''event_id''),
      (''source_event_id'', get_or_text ctx ''source_event_id''),
      (''event_type'', get_or_text ctx ''event_type''),
      (''source_id'', py_or (py_or (pget ctx ''source_id'') (pget row ''source_id'')) (PStr [])),
      (''camera_id'', get_or_text ctx ''camera_id''),
      (''frame_uuid'', get_or_text ctx ''frame_uuid''),
      (''event_frame_uuid'', get_or_text ctx ''frame_uuid''),
      (''event_frame_pts'', PInt event_pts), (''frame_pts'', PInt event_pts),
      (''requested_start_pts'', PInt start_pts), (''original_requested_start_pts'', PInt start_pts),
      (''effective_start_pts'', PInt start_pts), (''requested_end_pts'', PInt end_pts),
      (''requested_pre_window_seconds'', pget row ''pre_seconds''),
      (''effective_pre_window_seconds'', pget row ''pre_seconds''),
      (''runtime_epoch_id'', PStr runtime_epoch_id), (''replay_source_kind'', PStr ''rolling_cache''),
      (''evidence_topology'', PStr ''replay_raw_rolling_cache''),
      (''annotation_source_policy'', PStr ''frame_cache''),
      (''replay_stop_strategy'', PStr ''rolling_cache_segment_copy''),
      (''materialization_mode'', PStr ''rolling_cache_copy'')]"

section \<open>The retry delay in the text of a miss\<close>

text \<open>\<open>message.find(key)\<close> and the digits behind the key.\<close>

fun after_first :: "string \<Rightarrow> string \<Rightarrow> string option" where
  "after_first key [] = (if key = [] then Some [] else None)"
| "after_first key (c # s) =
     (if starts_with key (c # s) then Some (drop (length key) (c # s)) else after_first key s)"

definition digits_after :: "string \<Rightarrow> string \<Rightarrow> int option" where
  "digits_after key message =
     (case after_first key message of
        None \<Rightarrow> None
      | Some rest \<Rightarrow>
          (let digits = takeWhile is_digit rest
           in if digits = [] then None
              else Some (int (foldl (\<lambda>a c. a * 10 + digit_val c) 0 digits))))"

definition rolling_cache_coverage_retry_after_s :: "string \<Rightarrow> real" where
  "rolling_cache_coverage_retry_after_s message =
     (let gaps = List.map_filter (\<lambda>key. digits_after key message) [''pre_gap_ns='', ''post_gap_ns='']
      in if gaps = [] then 2
         else min 10 (max 1 (of_int (Max (set gaps)) / 1000000000 + 1)))"

section \<open>Settling the task\<close>

definition or_current_lease ::
  "task_env \<Rightarrow> string \<Rightarrow> materialization_lease option \<Rightarrow> task_db \<Rightarrow> materialization_lease option" where
  "or_current_lease env event_id lease db =
     (case lease of
        Some l \<Rightarrow> Some l
      | None \<Rightarrow> current_lease env event_id ''rolling-cache'' (phase_value Remux_Running) db)"

definition defer_rolling_cache_task ::
  "task_env \<Rightarrow> real \<Rightarrow> string \<Rightarrow> string \<Rightarrow> real \<Rightarrow> materialization_lease option \<Rightarrow> task_db \<Rightarrow>
   (bool \<times> task_db) result" where
  "defer_rolling_cache_task env t event_id reason retry_after_s lease db =
     (case or_current_lease env event_id lease db of
        None \<Rightarrow> Inr (False, db)
      | Some l \<Rightarrow> retry_rolling_task env t l reason (max (1 / 2) retry_after_s) db)"

definition fail_rolling_cache_task ::
  "task_env \<Rightarrow> real \<Rightarrow> string \<Rightarrow> string \<Rightarrow> materialization_lease option \<Rightarrow> task_db \<Rightarrow> bool \<times> task_db" where
  "fail_rolling_cache_task env t event_id reason lease db =
     (case or_current_lease env event_id lease db of
        None \<Rightarrow> (False, db)
      | Some l \<Rightarrow> fail_rolling_task env t l reason db)"

text \<open>The reason of a failure: the name of the exception's type and its text, cut from the front.\<close>

definition rolling_cache_failure_reason :: "string \<Rightarrow> string \<Rightarrow> nat \<Rightarrow> string" where
  "rolling_cache_failure_reason type_name message max_chars =
     (let detail = py_join '' '' (py_split message);
          prefix = ''rolling_cache_error:'' @ type_name;
          reason = prefix @ '':'' @ detail
      in if detail = [] then prefix
         else if length reason \<le> max_chars then reason
         else prefix @ '':...'' @
           (if length prefix + 4 < max_chars
            then drop (length reason - (max_chars - (length prefix + 4))) reason
            else drop (length prefix + 4 - max_chars) reason))"

text \<open>
  The end of a job without a clip: a coverage miss defers the task with its text and the delay
  read from it, anything else fails the task.
\<close>

definition settle_rolling_error ::
  "task_env \<Rightarrow> real \<Rightarrow> string \<Rightarrow> (py_error \<Rightarrow> string \<times> string) \<Rightarrow> rolling_error \<Rightarrow>
   materialization_lease option \<Rightarrow> task_db \<Rightarrow> (bool \<times> task_db) result" where
  "settle_rolling_error env t event_id name_text e lease db =
     (case e of
        Coverage_Miss m \<Rightarrow>
          defer_rolling_cache_task env t event_id (miss_text m)
            (rolling_cache_coverage_retry_after_s (miss_text m)) lease db
      | Cache_Error s \<Rightarrow>
          Inr (fail_rolling_cache_task env t event_id
                 (rolling_cache_failure_reason ''RollingCacheError'' s 900) lease db)
      | Other_Error x \<Rightarrow>
          Inr (fail_rolling_cache_task env t event_id
                 (rolling_cache_failure_reason (fst (name_text x)) (snd (name_text x)) 900) lease db))"

section \<open>Fragments in composed texts\<close>

lemma starts_with_split:
  assumes "c \<notin> set p"
  shows "starts_with p (u @ c # v) \<longleftrightarrow> starts_with p u"
  using assms by (induction p u rule: starts_with.induct) (auto split: if_splits)

text \<open>A fragment that has not the separating character lies on one side of it.\<close>

lemma contains_sub_split:
  "c \<notin> set p \<Longrightarrow> contains_sub p (u @ c # v) \<longleftrightarrow> contains_sub p u \<or> contains_sub p v"
proof (induction u)
  case Nil
  then show ?case by (cases p; cases v) auto
next
  case (Cons a u)
  then show ?case using starts_with_split [of c p "a # u" v] by auto
qed

lemma contains_sub_append: "contains_sub p u \<Longrightarrow> contains_sub p (u @ v)"
  "contains_sub p v \<Longrightarrow> contains_sub p (u @ v)"
  unfolding contains_sub_iff by (metis append.assoc)+

lemma contains_sub_hd: "contains_sub (a # p) s \<Longrightarrow> a \<in> set s"
  by (auto simp: contains_sub_iff)

lemma contains_sub_trans: "contains_sub p q \<Longrightarrow> contains_sub q s \<Longrightarrow> contains_sub p s"
  unfolding contains_sub_iff by (metis append.assoc)


section \<open>Which misses are retried\<close>

definition coverage_fragments :: "string list" where
  "coverage_fragments =
     [''coverage_not_complete'', ''coverage_miss'', ''requested_window_internal_gap'',
      ''internal_gap_ns='', ''rolling_cache_output_duration_short'',
      ''rolling_cache_output_frame_rate_low'', ''pre_gap_ns='', ''post_gap_ns='',
      ''window_not_covered'', ''event_frame_not_covered'']"

text \<open>
  Only two rules with a final class come before the rule of the coverage; their fragments begin
  with \<open>covered_by\<close> and \<open>storage_hard\<close>.
\<close>

definition no_final_fragment :: "string \<Rightarrow> bool" where
  "no_final_fragment s \<longleftrightarrow> \<not> contains_sub ''covered_by'' s \<and> \<not> contains_sub ''storage_hard'' s"

lemma no_final_fragment_rules:
  assumes "no_final_fragment s"
  shows "\<not> contains_any [''covered_by_existing_evidence'', ''covered_by_event:''] s"
    "\<not> contains_any [''storage_hard_limit'', ''storage_hard_stop''] s"
proof -
  have "contains_sub ''covered_by'' ''covered_by_existing_evidence''"
    "contains_sub ''covered_by'' ''covered_by_event:''"
    "contains_sub ''storage_hard'' ''storage_hard_limit''"
    "contains_sub ''storage_hard'' ''storage_hard_stop''"
    by code_simp+
  then show "\<not> contains_any [''covered_by_existing_evidence'', ''covered_by_event:''] s"
    "\<not> contains_any [''storage_hard_limit'', ''storage_hard_stop''] s"
    using assms unfolding no_final_fragment_def contains_any_iff
    by (simp_all del: contains_sub.simps) (meson contains_sub_trans)+
qed

lemma classify_after_retryable:
  assumes "contains_any fs s" "retryable_class c"
    "list_all (\<lambda>(_, c0, fs0). retryable_class c0 \<or> \<not> contains_any fs0 s) pre"
  shows "rc_retryable (classify_by_rules (pre @ (code, c, fs) # post) s)"
  using assms by (induction pre) (auto simp: Let_def)

lemma coverage_text_retryable:
  assumes final: "no_final_fragment s" and cov: "contains_any coverage_fragments s"
  shows "rc_retryable (classify_by_rules reason_rules s)"
proof -
  have rules: "reason_rules = take 9 reason_rules @
      (Coverage_Not_Complete, Not_Ready, coverage_fragments) # drop 10 reason_rules"
    by (simp add: reason_rules_def coverage_fragments_def)
  show ?thesis
    by (subst rules, rule classify_after_retryable [OF cov])
      (use no_final_fragment_rules [OF final] in
        \<open>simp_all add: reason_rules_def retryable_class_def del: contains_any.simps\<close>)
qed

text \<open>The texts that a miss carries: names of segments, and printed numbers of the probes.\<close>

fun miss_strings :: "coverage_miss \<Rightarrow> string list" where
  "miss_strings (Requested_Internal_Gap prev cur gap) = [prev, cur]"
| "miss_strings (Output_Duration_Short expected observed) = [expected, observed]"
| "miss_strings (Output_Frame_Rate_Low minimum observed) = [minimum, observed]"
| "miss_strings _ = []"

definition no_space :: "string \<Rightarrow> bool" where
  "no_space s \<longleftrightarrow> list_all (\<lambda>c. \<not> is_space c) s"

definition clean_text :: "string \<Rightarrow> bool" where
  "clean_text s \<longleftrightarrow> no_space s \<and> no_final_fragment (py_lower s)"

lemma lower_char_space: "\<not> is_space c \<Longrightarrow> \<not> is_space (lower_char c)"
proof -
  assume ns: "\<not> is_space c"
  show "\<not> is_space (lower_char c)"
  proof (cases "65 \<le> (of_char c :: nat) \<and> (of_char c :: nat) \<le> 90")
    case True
    then have code: "(of_char (lower_char c) :: nat) = of_char c + 32"
      by (simp add: lower_char_def)
    then have "lower_char c \<noteq> CHR '' ''" using True by (intro notI) simp
    then show ?thesis using True code by (simp add: is_space_def)
  qed (use ns in \<open>auto simp: lower_char_def Let_def\<close>)
qed

lemma no_space_simps [simp]:
  "no_space []" "no_space (c # s) \<longleftrightarrow> \<not> is_space c \<and> no_space s"
  "no_space (s @ t) \<longleftrightarrow> no_space s \<and> no_space t"
  by (auto simp: no_space_def)

lemma no_space_lower: "no_space s \<Longrightarrow> no_space (py_lower s)"
  by (auto simp: no_space_def py_lower_def list_all_iff lower_char_space)

lemma split_no_space: "no_space s \<Longrightarrow> s \<noteq> [] \<Longrightarrow> py_split s = [s]"
proof -
  assume ns: "no_space s" and ne: "s \<noteq> []"
  have "dropWhile is_space s = s" using ns by (cases s) auto
  moreover have "takeWhile (\<lambda>c. \<not> is_space c) s = s" using ns by (simp add: no_space_def list_all_iff)
  moreover have drop: "dropWhile (\<lambda>c. \<not> is_space c) s = []"
    using ns unfolding dropWhile_eq_Nil_conv by (simp add: no_space_def list_all_iff)
  moreover have "py_split [] = []" by (simp add: py_split.simps)
  ultimately show "py_split s = [s]"
    using ne by (subst py_split.simps) (simp only: Let_def drop if_False)
qed

lemma classify_no_space:
  assumes "no_space s" "s \<noteq> []"
  shows "classify_reason rp (PStr s) = classify_by_rules reason_rules (py_lower s)"
proof -
  have "py_lower s \<noteq> []" using assms(2) by (simp add: py_lower_def)
  moreover have "py_strip s = s" using assms(1) by (simp add: no_space_def py_strip_no_space)
  ultimately show ?thesis
    using assms split_no_space [OF no_space_lower [OF assms(1)]]
    by (simp add: classify_reason_def str_or_empty_def py_or_def)
qed

lemma numeral_chars: "c \<in> set (int_dec n) \<Longrightarrow> is_digit c \<or> c = CHR ''-''"
  using nat_dec_digits(1) by (auto simp: int_dec_def list_all_iff split: if_splits)

lemma digit_facts: "is_digit c \<Longrightarrow> \<not> is_space c \<and> lower_char c = c \<and> c \<noteq> CHR ''c'' \<and> c \<noteq> CHR ''s'' \<and> c \<noteq> CHR ''p''"
  by (auto simp: is_digit_def is_space_def lower_char_def Let_def)

lemma clean_numeral [simp]: "clean_text (int_dec n)"
proof -
  have minus: "\<not> is_space CHR ''-''" "lower_char CHR ''-'' = CHR ''-''"
    by (simp_all add: is_space_def lower_char_def)
  have lower: "py_lower (int_dec n) = int_dec n"
    unfolding py_lower_def by (rule map_idI) (use minus numeral_chars digit_facts in blast)
  have "CHR ''c'' \<notin> set (int_dec n)" "CHR ''s'' \<notin> set (int_dec n)"
    using numeral_chars digit_facts by fastforce+
  then have "no_final_fragment (int_dec n)"
    unfolding no_final_fragment_def by (blast dest: contains_sub_hd)
  moreover have "no_space (int_dec n)"
    unfolding no_space_def list_all_iff using minus(1) numeral_chars digit_facts by blast
  ultimately show ?thesis by (simp add: clean_text_def lower)
qed

text \<open>Clean texts joined by separators are clean.\<close>

definition separator :: "char \<Rightarrow> bool" where
  "separator c \<longleftrightarrow> c \<in> {CHR '':'', CHR ''='', CHR '',''}"

lemma clean_join:
  assumes "separator c" "clean_text u" "clean_text v"
  shows "clean_text (u @ c # v)"
proof -
  have "\<not> is_space c" "lower_char c = c" using assms(1)
    by (auto simp: separator_def is_space_def lower_char_def)
  moreover have "c \<notin> set ''covered_by''" "c \<notin> set ''storage_hard''"
    using assms(1) by (auto simp: separator_def)
  ultimately show ?thesis
    using assms(2,3) by (simp add: clean_text_def py_lower_def no_final_fragment_def contains_sub_split)
qed

lemma clean_prefix:
  assumes "separator (List.last lit)" "lit \<noteq> []" "clean_text (butlast lit)" "clean_text v"
  shows "clean_text (lit @ v)"
  using clean_join [OF assms(1,3,4)] assms(2) by (metis append.assoc append_Cons append_Nil append_butlast_last_id)

lemma clean_suffix:
  assumes "separator c" "clean_text u" "clean_text v"
  shows "clean_text (u @ (c # v))"
  using assms by (rule clean_join)

lemma miss_text_nonempty: "miss_text m \<noteq> []"
  by (cases m) auto

lemma clean_literals:
  "clean_text ''rolling_cache_requested_window_internal_gap''" "clean_text ''previous_segment''"
  "clean_text ''next_segment''" "clean_text ''internal_gap_ns''" "clean_text ''gap_limit_ns''"
  "clean_text ''rolling_cache_requested_window_not_fully_covered''" "clean_text ''pre_gap_ns''"
  "clean_text ''post_gap_ns''" "clean_text ''rolling_cache_selected_rows_endpoint_gap''"
  "clean_text ''rolling_cache_selected_rows_internal_gap''"
  "clean_text ''rolling_cache_output_duration_short''" "clean_text ''expected_s''"
  "clean_text ''observed_s''" "clean_text ''rolling_cache_output_frame_rate_low''"
  "clean_text ''minimum_fps''" "clean_text ''observed_fps''" "clean_text ''window_gap''"
  "clean_text ''rolling_cache_requested_window_not_covered''"
  "clean_text ''rolling_cache_event_frame_not_covered''"
  by code_simp+

lemma miss_text_parts:
  "miss_text (Requested_Internal_Gap prev cur gap) =
     ''rolling_cache_requested_window_internal_gap'' @ CHR '':'' # ''previous_segment'' @ CHR ''='' # prev @
     CHR '':'' # ''next_segment'' @ CHR ''='' # cur @ CHR '':'' # ''internal_gap_ns'' @ CHR ''='' # int_dec gap"
  "miss_text (Rows_Endpoint_Gap pre post) =
     ''rolling_cache_selected_rows_endpoint_gap'' @ CHR '':'' # ''pre_gap_ns'' @ CHR ''='' # int_dec pre @
     CHR '':'' # ''post_gap_ns'' @ CHR ''='' # int_dec post"
  "miss_text (Rows_Internal_Gap gap limit) =
     ''rolling_cache_selected_rows_internal_gap'' @ CHR '':'' # ''internal_gap_ns'' @ CHR ''='' # int_dec gap @
     CHR '':'' # ''gap_limit_ns'' @ CHR ''='' # int_dec limit"
  "miss_text (Output_Duration_Short expected observed) =
     ''rolling_cache_output_duration_short'' @ CHR '':'' # ''expected_s'' @ CHR ''='' # expected @
     CHR '':'' # ''observed_s'' @ CHR ''='' # observed"
  "miss_text (Output_Frame_Rate_Low minimum observed) =
     ''rolling_cache_output_frame_rate_low'' @ CHR '':'' # ''minimum_fps'' @ CHR ''='' # minimum @
     CHR '':'' # ''observed_fps'' @ CHR ''='' # observed"
  by simp_all

lemma fully_covered_parts:
  "miss_text (Window_Not_Fully_Covered (Some g) None) =
     ''rolling_cache_requested_window_not_fully_covered'' @ CHR '':'' # ''pre_gap_ns'' @ CHR ''='' # int_dec g"
  "miss_text (Window_Not_Fully_Covered None (Some h)) =
     ''rolling_cache_requested_window_not_fully_covered'' @ CHR '':'' # ''post_gap_ns'' @ CHR ''='' # int_dec h"
  "miss_text (Window_Not_Fully_Covered (Some g) (Some h)) =
     ''rolling_cache_requested_window_not_fully_covered'' @ CHR '':'' # ''pre_gap_ns'' @ CHR ''='' # int_dec g @
     CHR '','' # ''post_gap_ns'' @ CHR ''='' # int_dec h"
  by (simp_all add: gap_details_def Let_def)

lemma separators [simp]: "separator CHR '':''" "separator CHR ''=''" "separator CHR '',''"
  by (simp_all add: separator_def)

text \<open>The misses whose text the rule of the coverage should know.\<close>

fun known_miss :: "coverage_miss \<Rightarrow> bool" where
  "known_miss Invalid_Pts_Window = False"
| "known_miss No_Overlapping_Segments = False"
| "known_miss Selected_Rows_Missing = False"
| "known_miss (Window_Not_Fully_Covered None None) = False"
| "known_miss _ = True"

lemma known_miss_clean:
  assumes "known_miss m" "list_all clean_text (miss_strings m)"
  shows "clean_text (miss_text m)"
proof (cases m)
  case (Window_Not_Fully_Covered pre post)
  then consider g where "pre = Some g" "post = None" | h where "pre = None" "post = Some h"
    | g h where "pre = Some g" "post = Some h"
    using assms(1) by (cases pre; cases post) auto
  then show ?thesis
    by cases (simp_all only: Window_Not_Fully_Covered fully_covered_parts,
        (intro clean_join clean_literals clean_numeral separators)+)
next
  case (Requested_Internal_Gap prev cur gap)
  then have "clean_text prev" "clean_text cur" using assms by simp_all
  then show ?thesis unfolding Requested_Internal_Gap miss_text_parts
    by (intro clean_join clean_literals clean_numeral separators)
next
  case (Rows_Endpoint_Gap pre post)
  show ?thesis unfolding Rows_Endpoint_Gap miss_text_parts
    by (intro clean_join clean_literals clean_numeral separators)
next
  case (Rows_Internal_Gap gap limit)
  show ?thesis unfolding Rows_Internal_Gap miss_text_parts
    by (intro clean_join clean_literals clean_numeral separators)
next
  case (Output_Duration_Short expected observed)
  then have "clean_text expected" "clean_text observed" using assms by simp_all
  then show ?thesis unfolding Output_Duration_Short miss_text_parts
    by (intro clean_join clean_literals clean_numeral separators)
next
  case (Output_Frame_Rate_Low minimum observed)
  then have "clean_text minimum" "clean_text observed" using assms by simp_all
  then show ?thesis unfolding Output_Frame_Rate_Low miss_text_parts
    by (intro clean_join clean_literals clean_numeral separators)
next
  case Window_Not_Covered
  show ?thesis unfolding Window_Not_Covered miss_text.simps by (rule clean_literals)
next
  case Event_Frame_Not_Covered
  show ?thesis unfolding Event_Frame_Not_Covered miss_text.simps by (rule clean_literals)
qed (use assms in simp_all)

lemma lower_append: "py_lower (u @ v) = py_lower u @ py_lower v"
  by (simp add: py_lower_def)

lemma lower_literals:
  "py_lower ''rolling_cache_requested_window_internal_gap'' = ''rolling_cache_requested_window_internal_gap''"
  "py_lower ''rolling_cache_selected_rows_endpoint_gap:pre_gap_ns='' =
   ''rolling_cache_selected_rows_endpoint_gap:pre_gap_ns=''"
  "py_lower ''rolling_cache_selected_rows_internal_gap:internal_gap_ns='' =
   ''rolling_cache_selected_rows_internal_gap:internal_gap_ns=''"
  "py_lower ''rolling_cache_output_duration_short'' = ''rolling_cache_output_duration_short''"
  "py_lower ''rolling_cache_output_frame_rate_low'' = ''rolling_cache_output_frame_rate_low''"
  "py_lower ''rolling_cache_requested_window_not_fully_covered:pre_gap_ns='' =
   ''rolling_cache_requested_window_not_fully_covered:pre_gap_ns=''"
  "py_lower ''rolling_cache_requested_window_not_fully_covered:post_gap_ns='' =
   ''rolling_cache_requested_window_not_fully_covered:post_gap_ns=''"
  "py_lower ''rolling_cache_requested_window_not_covered'' = ''rolling_cache_requested_window_not_covered''"
  "py_lower ''rolling_cache_event_frame_not_covered'' = ''rolling_cache_event_frame_not_covered''"
  by code_simp+

text \<open>The fixed beginning of the text of a known miss, which contains the fragment.\<close>

definition miss_prefix :: "coverage_miss \<Rightarrow> string" where
  "miss_prefix m =
     (case m of
        Requested_Internal_Gap _ _ _ \<Rightarrow> ''rolling_cache_requested_window_internal_gap''
      | Window_Not_Covered \<Rightarrow> ''rolling_cache_requested_window_not_covered''
      | Event_Frame_Not_Covered \<Rightarrow> ''rolling_cache_event_frame_not_covered''
      | Window_Not_Fully_Covered (Some _) _ \<Rightarrow> ''rolling_cache_requested_window_not_fully_covered:pre_gap_ns=''
      | Window_Not_Fully_Covered None _ \<Rightarrow> ''rolling_cache_requested_window_not_fully_covered:post_gap_ns=''
      | Rows_Endpoint_Gap _ _ \<Rightarrow> ''rolling_cache_selected_rows_endpoint_gap:pre_gap_ns=''
      | Rows_Internal_Gap _ _ \<Rightarrow> ''rolling_cache_selected_rows_internal_gap:internal_gap_ns=''
      | Output_Duration_Short _ _ \<Rightarrow> ''rolling_cache_output_duration_short''
      | _ \<Rightarrow> ''rolling_cache_output_frame_rate_low'')"

lemma prefix_fragments:
  "contains_any coverage_fragments ''rolling_cache_requested_window_internal_gap''"
  "contains_any coverage_fragments ''rolling_cache_requested_window_not_covered''"
  "contains_any coverage_fragments ''rolling_cache_event_frame_not_covered''"
  "contains_any coverage_fragments ''rolling_cache_requested_window_not_fully_covered:pre_gap_ns=''"
  "contains_any coverage_fragments ''rolling_cache_requested_window_not_fully_covered:post_gap_ns=''"
  "contains_any coverage_fragments ''rolling_cache_selected_rows_endpoint_gap:pre_gap_ns=''"
  "contains_any coverage_fragments ''rolling_cache_selected_rows_internal_gap:internal_gap_ns=''"
  "contains_any coverage_fragments ''rolling_cache_output_duration_short''"
  "contains_any coverage_fragments ''rolling_cache_output_frame_rate_low''"
  by code_simp+

lemma contains_any_append: "contains_any ps u \<Longrightarrow> contains_any ps (u @ v)"
  unfolding contains_any_iff using contains_sub_append(1) by blast

lemma miss_has_prefix:
  assumes "known_miss m"
  obtains v where "miss_text m = miss_prefix m @ v"
proof (cases m)
  case (Window_Not_Fully_Covered pre post)
  then show thesis
    using assms that by (cases pre; cases post) (auto simp: miss_prefix_def gap_details_def)
qed (use assms that in \<open>auto simp: miss_prefix_def\<close>)

lemma known_miss_fragment:
  assumes "known_miss m"
  shows "contains_any coverage_fragments (py_lower (miss_text m))"
proof -
  obtain v where v: "miss_text m = miss_prefix m @ v" using assms by (rule miss_has_prefix)
  have "py_lower (miss_prefix m) = miss_prefix m"
    unfolding miss_prefix_def
    by (simp only: lower_literals split: coverage_miss.split option.split) simp
  moreover have "contains_any coverage_fragments (miss_prefix m)"
    unfolding miss_prefix_def
    by (simp only: prefix_fragments split: coverage_miss.split option.split) simp
  ultimately show ?thesis unfolding v lower_append by (simp only: contains_any_append)
qed

lemma known_miss_retryable:
  assumes "known_miss m" "list_all clean_text (miss_strings m)"
  shows "rc_retryable (classify_reason rp (PStr (miss_text m)))"
  using known_miss_clean [OF assms] known_miss_fragment [OF assms(1)] miss_text_nonempty
  by (simp add: classify_no_space clean_text_def coverage_text_retryable)

lemma unknown_miss_final:
  "\<not> rc_retryable (classify_reason rp (PStr (miss_text Selected_Rows_Missing)))"
  "\<not> rc_retryable (classify_reason rp (PStr (miss_text Invalid_Pts_Window)))"
  "rc_retryable (classify_reason rp (PStr (miss_text No_Overlapping_Segments)))"
proof -
  have "plain_text ''rolling_cache_selected_rows_missing''" "plain_text ''invalid_requested_pts_window''"
    "plain_text ''no_overlapping_segments''" by code_simp+
  moreover have "\<not> rc_retryable (classify_by_rules reason_rules ''rolling_cache_selected_rows_missing'')"
    "\<not> rc_retryable (classify_by_rules reason_rules ''invalid_requested_pts_window'')"
    "rc_retryable (classify_by_rules reason_rules ''no_overlapping_segments'')" by code_simp+
  ultimately show
    "\<not> rc_retryable (classify_reason rp (PStr (miss_text Selected_Rows_Missing)))"
    "\<not> rc_retryable (classify_reason rp (PStr (miss_text Invalid_Pts_Window)))"
    "rc_retryable (classify_reason rp (PStr (miss_text No_Overlapping_Segments)))"
    by (simp_all only: miss_text.simps classify_reason_plain not_False_eq_True)
qed

section \<open>The misses of a plan\<close>

lemma rl_bind_miss:
  "rl_bind m f = Inl (Coverage_Miss e) \<longleftrightarrow>
     m = Inl (Coverage_Miss e) \<or> (\<exists>x. m = Inr x \<and> f x = Inl (Coverage_Miss e))"
  by (cases m) (auto simp: rl_bind_def)

lemma rolling_of_miss [simp]: "rolling_of m \<noteq> Inl (Coverage_Miss e)"
  by (cases m) (auto simp: rolling_of_def)

lemma largest_gap_member: "largest_gap g gs \<in> set (g # gs)"
  by (induction g gs rule: largest_gap.induct) auto

lemma zip_members: "(a, b) \<in> set (zip xs (tl xs)) \<Longrightarrow> a \<in> set xs \<and> b \<in> set xs"
  by (cases xs) (auto dest: set_zip_leftD set_zip_rightD)

lemma overlap_miss:
  assumes "ordered_overlap slack a b segments = Inl (Coverage_Miss m)"
    "list_all (\<lambda>s. clean_text (rs_segment_id s)) segments"
  shows "m = No_Overlapping_Segments \<or> known_miss m \<and> list_all clean_text (miss_strings m)"
proof -
  let ?ordered = "segment_order (overlapping_segments segments a b)"
  have sub: "set ?ordered \<subseteq> set segments"
    by (auto simp: segment_order_def overlapping_segments_def)
  have clean: "clean_text p \<and> clean_text c" if "(p, c, g) \<in> set (internal_gaps limit ?ordered)"
    for p c g limit
  proof -
    from that obtain x y where xy: "(x, y) \<in> set (zip ?ordered (tl ?ordered))"
      and "p = rs_segment_id x" "c = rs_segment_id y"
      by (auto simp: internal_gaps_def)
    moreover have "x \<in> set segments" "y \<in> set segments" using zip_members [OF xy] sub by auto
    ultimately show ?thesis using assms(2) by (simp add: list_all_iff)
  qed
  show ?thesis
  proof (cases "overlapping_segments segments a b = []")
    case True
    then show ?thesis using assms(1) by (simp add: ordered_overlap_def Let_def)
  next
    case False
    obtain g gs where gs: "internal_gaps (max slack 2000000000) ?ordered = g # gs"
      and m: "(case largest_gap g gs of (p, c, gap) \<Rightarrow> Inl (Coverage_Miss (Requested_Internal_Gap p c gap)))
        = (Inl (Coverage_Miss m) :: rolling_segment list rolling)"
      using assms(1) False by (auto simp: ordered_overlap_def Let_def split: list.splits)
    obtain p c gap where l: "largest_gap g gs = (p, c, gap)" by (cases "largest_gap g gs")
    then have "(p, c, gap) \<in> set (internal_gaps (max slack 2000000000) ?ordered)"
      using largest_gap_member [of g gs] by (simp add: gs)
    then show ?thesis using m l clean by auto
  qed
qed

lemma coverage_window_miss:
  "window_coverage slack allow a b ev segments = Inl (Coverage_Miss m) \<Longrightarrow>
   known_miss m \<and> miss_strings m = []"
  by (auto simp: window_coverage_def Let_def split: if_splits)

lemma with_rows_miss:
  "with_rows load slack allow p = Inl (Coverage_Miss m) \<Longrightarrow>
   m = Selected_Rows_Missing \<or> known_miss m \<and> miss_strings m = []"
  by (auto simp: with_rows_def rl_bind_miss validate_selected_row_coverage_def check_pts_coverage_def
      Let_def split: if_splits prod.splits)

lemma plan_miss:
  assumes "plan_window rp load segments a b labels slack allow = Inl (Coverage_Miss m)" "a < b"
    "list_all (\<lambda>s. clean_text (rs_segment_id s)) segments"
  shows "m \<in> {No_Overlapping_Segments, Selected_Rows_Missing} \<or>
    known_miss m \<and> list_all clean_text (miss_strings m)"
proof -
  from assms(1,2) consider
      s e where "ordered_overlap slack s e segments = Inl (Coverage_Miss m)"
    | s e ev sel where "window_coverage slack allow s e ev sel = Inl (Coverage_Miss m)"
    | p where "with_rows load slack allow p = Inl (Coverage_Miss m)"
    unfolding plan_window_def by (auto simp: rl_bind_miss)
  then show ?thesis
  proof cases
    case 1
    then show ?thesis using overlap_miss [OF _ assms(3)] by blast
  next
    case 2
    then show ?thesis using coverage_window_miss by fastforce
  next
    case 3
    then show ?thesis using with_rows_miss by fastforce
  qed
qed


definition blank_segment :: rolling_segment where
  "blank_segment =
     \<lparr>rs_segment_id = ''seg-1'', rs_source_id = ''cam'', rs_runtime_epoch_id = ''e'',
      rs_directory = ''d'', rs_video_path = ''v'', rs_metadata_path = ''m'',
      rs_first_pts = 0, rs_last_pts = 80, rs_frame_count = 2, rs_size_bytes = 1,
      rs_source_first_pts = None, rs_source_last_pts = None\<rparr>"


text \<open>
  a coverage miss without frame rows ends the task: settling it is the same as failing it,
  although a miss of the cache is meant to wait for the rows and to be tried again.
\<close>

theorem missing_rows_end_the_task:
  "settle_rolling_error env t event_id name_text (Coverage_Miss Selected_Rows_Missing) (Some l) db =
   Inr (fail_rolling_task env t l ''rolling_cache_selected_rows_missing'' db)"
  using unknown_miss_final(1)
  by (simp add: settle_rolling_error_def defer_rolling_cache_task_def or_current_lease_def
      retry_rolling_task_def Let_def)

section \<open>Reading the gaps back\<close>

lemma after_first_split:
  assumes "c \<notin> set key" "key \<noteq> []" "\<not> contains_sub key u"
  shows "after_first key (u @ c # v) = after_first key v"
  using assms(3)
proof (induction u)
  case Nil
  then show ?case using assms(1,2) by (cases key) auto
next
  case (Cons a u)
  then have "\<not> starts_with key ((a # u) @ c # v)" "\<not> contains_sub key u"
    using starts_with_split [OF assms(1), of "a # u" v] by (auto split: if_splits)
  then show ?case using Cons.IH by simp
qed

lemma after_first_here: "key \<noteq> [] \<Longrightarrow> after_first key (key @ v) = Some v"
  by (cases key) (auto simp: starts_with_iff simp del: starts_with.simps)

lemma after_first_absent: "\<not> contains_sub key s \<Longrightarrow> key \<noteq> [] \<Longrightarrow> after_first key s = None"
  by (induction s) (auto split: if_splits)

text \<open>Behind the key the digits of the printed number end at the next separator.\<close>

lemma digits_of_numeral:
  assumes "0 \<le> n" "after_first key s = Some (int_dec n @ v)" "v = [] \<or> \<not> is_digit (hd v)"
  shows "digits_after key s = Some n"
proof -
  have "takeWhile is_digit (nat_dec (nat n) @ v) = nat_dec (nat n)"
    using assms(3) nat_dec_digits(1) [of "nat n"]
    by (cases v) (auto simp: list_all_iff takeWhile_append2)
  then show ?thesis using assms(1,2) nat_dec_digits(2) [of "nat n"]
    by (simp add: digits_after_def int_dec_def nat_dec_value)
qed

lemma separator_no_digit: "\<not> is_digit CHR '':''" "\<not> is_digit CHR '',''"
  by code_simp+

lemma gap_keys:
  "CHR '':'' \<notin> set ''pre_gap_ns=''" "CHR '':'' \<notin> set ''post_gap_ns=''"
  "CHR '','' \<notin> set ''pre_gap_ns=''" "CHR '','' \<notin> set ''post_gap_ns=''"
  "\<not> contains_sub ''pre_gap_ns='' ''rolling_cache_selected_rows_endpoint_gap''"
  "\<not> contains_sub ''post_gap_ns='' ''rolling_cache_selected_rows_endpoint_gap''"
  "\<not> contains_sub ''pre_gap_ns='' ''rolling_cache_requested_window_not_fully_covered''"
  "\<not> contains_sub ''post_gap_ns='' ''rolling_cache_requested_window_not_fully_covered''"
  by code_simp+

lemma no_key_in_gap:
  "\<not> contains_sub ''post_gap_ns='' (''pre_gap_ns='' @ int_dec n)"
  "\<not> contains_sub ''pre_gap_ns='' (''post_gap_ns='' @ int_dec n)"
proof -
  have eq: "''pre_gap_ns='' @ int_dec n = ''pre_gap_ns'' @ CHR ''='' # int_dec n"
    "''post_gap_ns='' @ int_dec n = ''post_gap_ns'' @ CHR ''='' # int_dec n" by simp_all
  have "CHR ''p'' \<notin> set (int_dec n)"
    using numeral_chars digit_facts by fastforce
  then have num: "\<not> contains_sub ''post_gap_ns'' (int_dec n)" "\<not> contains_sub ''pre_gap_ns'' (int_dec n)"
    by (blast dest: contains_sub_hd)+
  have sub: "contains_sub ''post_gap_ns'' ''post_gap_ns=''" "contains_sub ''pre_gap_ns'' ''pre_gap_ns=''"
    "\<not> contains_sub ''post_gap_ns'' ''pre_gap_ns''" "\<not> contains_sub ''pre_gap_ns'' ''post_gap_ns''"
    by code_simp+
  have key: "CHR ''='' \<notin> set ''post_gap_ns''" "CHR ''='' \<notin> set ''pre_gap_ns''" by code_simp+
  have "\<not> contains_sub ''post_gap_ns'' (''pre_gap_ns='' @ int_dec n)"
    "\<not> contains_sub ''pre_gap_ns'' (''post_gap_ns='' @ int_dec n)"
    unfolding eq contains_sub_split [OF key(1)] contains_sub_split [OF key(2)]
    using num sub by blast+
  then show "\<not> contains_sub ''post_gap_ns='' (''pre_gap_ns='' @ int_dec n)"
    "\<not> contains_sub ''pre_gap_ns='' (''post_gap_ns='' @ int_dec n)"
    using sub(1,2) contains_sub_trans by blast+
qed

fun printed_gaps :: "coverage_miss \<Rightarrow> int list" where
  "printed_gaps (Rows_Endpoint_Gap pre post) = [pre, post]"
| "printed_gaps (Window_Not_Fully_Covered pre post) =
     (case pre of None \<Rightarrow> [] | Some g \<Rightarrow> [g]) @ (case post of None \<Rightarrow> [] | Some g \<Rightarrow> [g])"
| "printed_gaps _ = []"

lemma gap_texts:
  "miss_text (Rows_Endpoint_Gap g h) =
     ''rolling_cache_selected_rows_endpoint_gap'' @ CHR '':'' # (''pre_gap_ns='' @ int_dec g) @
     CHR '':'' # ''post_gap_ns='' @ int_dec h"
  "miss_text (Window_Not_Fully_Covered (Some g) None) =
     ''rolling_cache_requested_window_not_fully_covered'' @ CHR '':'' # ''pre_gap_ns='' @ int_dec g @ []"
  "miss_text (Window_Not_Fully_Covered None (Some h)) =
     ''rolling_cache_requested_window_not_fully_covered'' @ CHR '':'' # ''post_gap_ns='' @ int_dec h @ []"
  "miss_text (Window_Not_Fully_Covered (Some g) (Some h)) =
     ''rolling_cache_requested_window_not_fully_covered'' @ CHR '':'' # (''pre_gap_ns='' @ int_dec g) @
     CHR '','' # ''post_gap_ns='' @ int_dec h"
  by (simp_all add: gap_details_def Let_def)

lemma keys_nonempty: "''pre_gap_ns='' \<noteq> []" "''post_gap_ns='' \<noteq> []"
  by simp_all

lemma both_gaps:
  assumes "0 \<le> g" "0 \<le> h" "c = CHR '':'' \<or> c = CHR '',''"
    and lit: "\<not> contains_sub ''pre_gap_ns='' lit" "\<not> contains_sub ''post_gap_ns='' lit"
    and s: "s = lit @ CHR '':'' # (''pre_gap_ns='' @ int_dec g) @ c # ''post_gap_ns='' @ int_dec h"
  shows "digits_after ''pre_gap_ns='' s = Some g" "digits_after ''post_gap_ns='' s = Some h"
proof -
  have "after_first ''pre_gap_ns='' s = Some (int_dec g @ c # ''post_gap_ns='' @ int_dec h)"
    unfolding s after_first_split [OF gap_keys(1) keys_nonempty(1) lit(1)] append_assoc
    by (rule after_first_here [OF keys_nonempty(1)])
  then show "digits_after ''pre_gap_ns='' s = Some g"
    by (rule digits_of_numeral [OF assms(1)]) (use assms(3) separator_no_digit in auto)
  have "CHR '':'' \<notin> set ''post_gap_ns=''" "c \<notin> set ''post_gap_ns=''"
    using assms(3) gap_keys by blast+
  then have "after_first ''post_gap_ns='' s = after_first ''post_gap_ns='' (''post_gap_ns='' @ int_dec h @ [])"
    unfolding s using after_first_split [OF gap_keys(2) keys_nonempty(2) lit(2)]
      after_first_split [OF _ keys_nonempty(2) no_key_in_gap(1)] by simp
  then have "after_first ''post_gap_ns='' s = Some (int_dec h @ [])"
    using after_first_here [OF keys_nonempty(2), of "int_dec h @ []"] by simp
  then show "digits_after ''post_gap_ns='' s = Some h"
    by (rule digits_of_numeral [OF assms(2)]) simp
qed

lemma one_gap:
  assumes "0 \<le> n" "key = ''pre_gap_ns='' \<or> key = ''post_gap_ns=''"
    "other = ''pre_gap_ns='' \<or> other = ''post_gap_ns=''" "other \<noteq> key"
    and lit: "\<not> contains_sub ''pre_gap_ns='' lit" "\<not> contains_sub ''post_gap_ns='' lit"
    and s: "s = lit @ CHR '':'' # key @ int_dec n @ []"
  shows "digits_after key s = Some n" "digits_after other s = None"
proof -
  have sep: "CHR '':'' \<notin> set key" "CHR '':'' \<notin> set other" "key \<noteq> []" "other \<noteq> []"
    using assms(2,3) gap_keys keys_nonempty by blast+
  have lits: "\<not> contains_sub key lit" "\<not> contains_sub other lit" using assms(2,3) lit by blast+
  have "after_first key s = Some (int_dec n @ [])"
    unfolding s after_first_split [OF sep(1,3) lits(1)] by (rule after_first_here [OF sep(3)])
  then show "digits_after key s = Some n" by (rule digits_of_numeral [OF assms(1)]) simp
  have "\<not> contains_sub other (key @ int_dec n)" using assms(2-4) no_key_in_gap by blast
  then have "after_first other s = None"
    unfolding s after_first_split [OF sep(2,4) lits(2)] append_Nil2
    by (rule after_first_absent [OF _ sep(4)])
  then show "digits_after other s = None" by (simp add: digits_after_def)
qed

text \<open>
  the retry delay of a miss is read from its text and gives back the gaps that the planner
  printed: the largest one in seconds plus one second, between one and ten seconds.
\<close>

theorem retry_delay_reads_the_gaps:
  assumes "printed_gaps m \<noteq> []" "list_all (\<lambda>g. 0 \<le> g) (printed_gaps m)"
  shows "rolling_cache_coverage_retry_after_s (miss_text m) =
    min 10 (max 1 (of_int (Max (set (printed_gaps m))) / 1000000000 + 1))"
proof -
  have keys: "List.map_filter (\<lambda>key. digits_after key s) [''pre_gap_ns='', ''post_gap_ns=''] =
      (case digits_after ''pre_gap_ns='' s of None \<Rightarrow> [] | Some g \<Rightarrow> [g]) @
      (case digits_after ''post_gap_ns='' s of None \<Rightarrow> [] | Some g \<Rightarrow> [g])" for s
    by (simp add: List.map_filter_simps split: option.split)
  consider g h where "m = Rows_Endpoint_Gap g h" | g where "m = Window_Not_Fully_Covered (Some g) None"
    | h where "m = Window_Not_Fully_Covered None (Some h)"
    | g h where "m = Window_Not_Fully_Covered (Some g) (Some h)"
    using assms(1) by (cases m rule: printed_gaps.cases) (auto split: option.splits)
  then show ?thesis
  proof cases
    case 1
    note gaps = both_gaps [of g h "CHR '':''", OF _ _ _ gap_keys(5,6) gap_texts(1) [of g h]]
    show ?thesis using assms(2) gaps
      by (simp add: 1 rolling_cache_coverage_retry_after_s_def keys Let_def del: miss_text.simps)
  next
    case 2
    note gaps = one_gap [of g "''pre_gap_ns=''" "''post_gap_ns=''", OF _ _ _ _ gap_keys(7,8) gap_texts(2) [of g]]
    show ?thesis using assms(2) gaps
      by (simp add: 2 rolling_cache_coverage_retry_after_s_def keys Let_def del: miss_text.simps)
  next
    case 3
    note gaps = one_gap [of h "''post_gap_ns=''" "''pre_gap_ns=''", OF _ _ _ _ gap_keys(7,8) gap_texts(3) [of h]]
    show ?thesis using assms(2) gaps
      by (simp add: 3 rolling_cache_coverage_retry_after_s_def keys Let_def del: miss_text.simps)
  next
    case 4
    note gaps = both_gaps [of g h "CHR '',''", OF _ _ _ gap_keys(7,8) gap_texts(4) [of g h]]
    show ?thesis using assms(2) gaps
      by (simp add: 4 rolling_cache_coverage_retry_after_s_def keys Let_def del: miss_text.simps)
  qed
qed

theorem retry_delay_reads_the_gaps_witness:
  "rolling_cache_coverage_retry_after_s (miss_text (Rows_Endpoint_Gap 2500000000 0)) =
   min 10 (max 1 (of_int (Max (set (printed_gaps (Rows_Endpoint_Gap 2500000000 0)))) / 1000000000 + 1))"
  by (rule retry_delay_reads_the_gaps) simp_all

section \<open>Bounds\<close>

lemma coverage_delay_bounds:
  "1 \<le> rolling_cache_coverage_retry_after_s message \<and> rolling_cache_coverage_retry_after_s message \<le> 10"
  by (auto simp: rolling_cache_coverage_retry_after_s_def Let_def)

text \<open>A failure reason fits the limit, when the name of the type leaves room for the dots.\<close>

lemma failure_reason_bounded:
  "length (''rolling_cache_error:'' @ type_name) + 4 < max_chars \<Longrightarrow>
   length (rolling_cache_failure_reason type_name message max_chars) \<le> max_chars"
  by (auto simp: rolling_cache_failure_reason_def Let_def)

text \<open>The window contains the event, when the margins are finite and not negative.\<close>

lemma offset_pts_bounds:
  "offset_pts pts sign (Fin s) = Inr q \<Longrightarrow> 0 \<le> s \<Longrightarrow> sign = 1 \<Longrightarrow> pts \<le> q"
  "offset_pts pts sign (Fin s) = Inr q \<Longrightarrow> 0 \<le> s \<Longrightarrow> sign = - 1 \<Longrightarrow> q \<le> pts"
proof -
  show "pts \<le> q" if "offset_pts pts sign (Fin s) = Inr q" "0 \<le> s" "sign = 1"
    using that py_trunc_mono [of "of_int pts" "of_int pts + s * 1000000000"] by (simp add: offset_pts_def)
  show "q \<le> pts" if "offset_pts pts sign (Fin s) = Inr q" "0 \<le> s" "sign = - 1"
    using that py_trunc_mono [of "of_int pts - s * 1000000000" "of_int pts"] by (simp add: offset_pts_def)
qed

end
