(* ===== verification/ClipTimeline.thy ===== *)
theory ClipTimeline
  imports RollingWindow
begin

text \<open>
  The timeline of an evidence clip (canonical_timeline.py): the window around the event, the
  frames of the clip inside it, the alignment of annotations with the frames of the clip by
  identifier and frame time, and the cut of the clip with its fall-backs.
\<close>

section \<open>Values\<close>

text \<open>\<open>_int_or_none\<close> and \<open>_float_or_none\<close>: no value, the empty text and booleans count as absent.\<close>

definition timeline_int :: "pyval \<Rightarrow> int option result" where
  "timeline_int v =
     (case v of
        PNone \<Rightarrow> Inr None
      | PBool _ \<Rightarrow> Inr None
      | PStr s \<Rightarrow> if s = [] then Inr None else int_or_absent v
      | _ \<Rightarrow> int_or_absent v)"

definition timeline_float :: "pyval \<Rightarrow> pyfloat option" where
  "timeline_float v =
     (case v of
        PNone \<Rightarrow> None
      | PBool _ \<Rightarrow> None
      | _ \<Rightarrow> (case py_float v of Inr x \<Rightarrow> Some x | Inl _ \<Rightarrow> None))"

definition timeline_positive_float :: "pyval \<Rightarrow> pyfloat \<Rightarrow> pyfloat" where
  "timeline_positive_float v dflt =
     (case timeline_float v of
        None \<Rightarrow> dflt
      | Some x \<Rightarrow> if flt_le x (Fin 0) then dflt else x)"

definition timeline_row_pts :: "row \<Rightarrow> int option result" where
  "timeline_row_pts r =
     rbind (timeline_int (pget r ''pts'')) (\<lambda>p.
       if p \<noteq> None then Inr p else timeline_int (pget r ''frame_pts''))"

definition text_value :: "pyval \<Rightarrow> string option" where
  "text_value v = (case v of PStr s \<Rightarrow> if s = [] then None else Some s | _ \<Rightarrow> None)"

definition timeline_uuid :: "row \<Rightarrow> string option" where
  "timeline_uuid r =
     (case text_value (pget r ''frame_uuid'') of
        Some s \<Rightarrow> Some s
      | None \<Rightarrow> text_value (pget r ''uuid''))"

section \<open>The window around the event\<close>

record canonical_window =
  cw_available :: bool
  cw_errors :: "string list"
  cw_pre :: pyfloat
  cw_post :: pyfloat
  cw_duration :: pyfloat
  cw_start :: "int option"
  cw_end :: "int option"
  cw_event :: "int option"

text \<open>\<open>int(round(x))\<close> and \<open>round(x, 6)\<close> of a float; only a finite one has an integer.\<close>

definition round_int :: "pyfloat \<Rightarrow> int result" where
  "round_int x =
     (case x of
        Fin r \<Rightarrow> Inr (py_round r)
      | NaN \<Rightarrow> Inl (Value_Error ''cannot convert float NaN to integer'')
      | _ \<Rightarrow> Inl Overflow_Error)"

fun flt_plus :: "pyfloat \<Rightarrow> pyfloat \<Rightarrow> pyfloat" where
  "flt_plus (Fin x) (Fin y) = Fin (x + y)"
| "flt_plus NaN _ = NaN"
| "flt_plus _ NaN = NaN"
| "flt_plus (Fin _) y = y"
| "flt_plus x (Fin _) = x"
| "flt_plus x y = (if x = y then x else NaN)"

fun flt_round6 :: "pyfloat \<Rightarrow> pyfloat" where
  "flt_round6 (Fin x) = Fin (py_round_to 6 x)"
| "flt_round6 x = x"

definition canonical_window_from_event :: "pyval \<Rightarrow> pyval \<Rightarrow> pyval \<Rightarrow> canonical_window result" where
  "canonical_window_from_event event_pts pre_seconds post_seconds =
     rbind (timeline_int event_pts) (\<lambda>event.
       let pre = timeline_positive_float pre_seconds (Fin 5);
           post = timeline_positive_float post_seconds (Fin 5);
           duration = flt_round6 (flt_plus pre post)
       in case event of
            None \<Rightarrow> Inr \<lparr>cw_available = False, cw_errors = [''missing_event_pts''], cw_pre = pre,
                         cw_post = post, cw_duration = duration, cw_start = None, cw_end = None,
                         cw_event = None\<rparr>
          | Some e \<Rightarrow>
              rbind (round_int (flt_plus (Fin (of_int e)) (flt_times pre (Fin (- 1000000000))))) (\<lambda>start.
              rbind (round_int (flt_plus (Fin (of_int e)) (flt_times post (Fin 1000000000)))) (\<lambda>stop.
                Inr \<lparr>cw_available = True, cw_errors = [], cw_pre = pre, cw_post = post,
                     cw_duration = duration, cw_start = Some (max 0 start), cw_end = Some stop,
                     cw_event = Some e\<rparr>)))"

section \<open>The frames of the clip\<close>

text \<open>A frame with its time, its number and its identifier as the code reads them.\<close>

record clip_frame =
  cf_row :: row
  cf_pts :: int
  cf_num :: "int option"
  cf_uuid :: "string option"

definition clip_frame_of :: "row \<Rightarrow> clip_frame option result" where
  "clip_frame_of r =
     rbind (timeline_row_pts r) (\<lambda>pts.
       case pts of
         None \<Rightarrow> Inr None
       | Some p \<Rightarrow> rbind (timeline_int (pget r ''frame_num'')) (\<lambda>num.
           Inr (Some \<lparr>cf_row = r, cf_pts = p, cf_num = num, cf_uuid = timeline_uuid r\<rparr>)))"

definition frame_order :: "clip_frame \<Rightarrow> bool \<times> int \<times> int" where
  "frame_order f = (cf_num f = None, (case cf_num f of None \<Rightarrow> 0 | Some n \<Rightarrow> n), cf_pts f)"

definition timed_frames :: "row list \<Rightarrow> clip_frame list result" where
  "timed_frames rows = rbind (rmap clip_frame_of rows) (\<lambda>fs. Inr (List.map_filter id fs))"

definition clip_frames :: "row list \<Rightarrow> clip_frame list result" where
  "clip_frames rows = rbind (timed_frames rows) (\<lambda>fs. Inr (sort_key frame_order fs))"

text \<open>Numbering the frames, their time in the clip, and the shift of their times to the clip's start.\<close>

definition set_present :: "string \<Rightarrow> pyval \<Rightarrow> row \<Rightarrow> row" where
  "set_present k v r = (if has_key r k then dset k v r else r)"

definition rebase_row :: "int \<Rightarrow> int \<Rightarrow> row \<Rightarrow> row result" where
  "rebase_row pts first_pts r =
     (let r1 = set_present ''frame_pts'' (PInt (pts - first_pts))
                 (set_present ''pts'' (PInt (pts - first_pts)) r)
      in rbind (timeline_int (pget r1 ''dts'')) (\<lambda>dts.
           case dts of
             None \<Rightarrow> Inr r1
           | Some d \<Rightarrow> Inr (if has_key r1 ''dts'' then dset ''dts'' (PInt (d - first_pts)) r1 else r1)))"

text \<open>\<open>_row_pts(row)\<close> is read again after the number is set; its time is unchanged by that.\<close>

definition number_row :: "bool \<Rightarrow> int \<Rightarrow> nat \<Rightarrow> clip_frame \<Rightarrow> row result" where
  "number_row rebase_pts first_pts n f =
     (let r = dset ''clip_t_ms'' (PInt (py_round (of_int (cf_pts f - first_pts) / 1000000)))
                (dset ''frame_num'' (PInt (int n)) (cf_row f))
      in if rebase_pts then rebase_row (cf_pts f) first_pts r else Inr r)"

fun number_rows :: "bool \<Rightarrow> int \<Rightarrow> nat \<Rightarrow> clip_frame list \<Rightarrow> row list result" where
  "number_rows rebase_pts first_pts n [] = Inr []"
| "number_rows rebase_pts first_pts n (f # fs) =
     rbind (number_row rebase_pts first_pts n f) (\<lambda>r.
       rbind (number_rows rebase_pts first_pts (Suc n) fs) (\<lambda>rs. Inr (r # rs)))"

record canonical_summary =
  sm_window :: canonical_window
  sm_frames_selected :: nat
  sm_first_pts :: "int option"
  sm_last_pts :: "int option"
  sm_duration_s :: "real option"
  sm_event_t_s :: "real option"
  sm_event_inside :: bool
  sm_rebase :: bool
  sm_event_ratio :: "real option"

definition pts_seconds :: "int \<Rightarrow> real" where
  "pts_seconds n = py_round_to 9 (of_int n / 1000000000)"

definition summary_of :: "canonical_window \<Rightarrow> int \<Rightarrow> bool \<Rightarrow> clip_frame list \<Rightarrow> canonical_summary" where
  "summary_of w event_pts rebase_pts frames =
     (if frames = [] then
        \<lparr>sm_window = w, sm_frames_selected = 0, sm_first_pts = None, sm_last_pts = None,
         sm_duration_s = None, sm_event_t_s = None, sm_event_inside = False, sm_rebase = rebase_pts,
         sm_event_ratio = None\<rparr>
      else let a = cf_pts (hd frames); b = cf_pts (List.last frames);
               duration = pts_seconds (b - a); projected = pts_seconds (event_pts - a)
           in \<lparr>sm_window = w, sm_frames_selected = length frames, sm_first_pts = Some a,
               sm_last_pts = Some b, sm_duration_s = Some duration, sm_event_t_s = Some projected,
               sm_event_inside = (a \<le> event_pts \<and> event_pts \<le> b), sm_rebase = rebase_pts,
               sm_event_ratio = (if duration = 0 then None
                                 else Some (py_round_to 9 (projected / duration)))\<rparr>)"

text \<open>
  The bare summary of an unavailable window has only the window and the count.
\<close>

definition canonicalize_sink_metadata ::
  "row list \<Rightarrow> pyval \<Rightarrow> pyval \<Rightarrow> pyval \<Rightarrow> bool \<Rightarrow> (row list \<times> canonical_window \<times> canonical_summary option) result" where
  "canonicalize_sink_metadata rows event_pts pre_seconds post_seconds rebase_pts =
     rbind (canonical_window_from_event event_pts pre_seconds post_seconds) (\<lambda>w.
       case (cw_start w, cw_end w, cw_event w) of
         (Some start, Some stop, Some event) \<Rightarrow>
           rbind (timed_frames rows) (\<lambda>fs.
             let frames = sort_key frame_order (filter (\<lambda>f. start \<le> cf_pts f \<and> cf_pts f \<le> stop) fs)
             in rbind (number_rows rebase_pts (if frames = [] then 0 else cf_pts (hd frames)) 0 frames)
                  (\<lambda>rs. Inr (rs, w, Some (summary_of w event rebase_pts frames))))
       | _ \<Rightarrow> Inr ([], w, None))"

section \<open>The tolerance of the nearest frame\<close>

definition median_of :: "int list \<Rightarrow> real" where
  "median_of xs =
     (let s = sort xs; n = length s
      in if odd n then of_int (s ! (n div 2))
         else (of_int (s ! (n div 2 - 1)) + of_int (s ! (n div 2))) / 2)"

definition infer_nearest_tolerance_ns :: "int list \<Rightarrow> int" where
  "infer_nearest_tolerance_ns pts =
     (let deltas = gaps_of (sorted_list_of_set (set pts));
          tolerance = (if deltas = [] then 50000000
                       else max (py_round (median_of deltas / 2)) 50000000)
      in min tolerance 120000000)"

section \<open>The nearest frame\<close>

text \<open>\<open>bisect.bisect_left\<close> on a sorted list: how many elements are smaller.\<close>

definition bisect_left :: "int list \<Rightarrow> int \<Rightarrow> nat" where
  "bisect_left xs x = length (takeWhile (\<lambda>y. y < x) xs)"

type_synonym pts_entry = "int \<times> int \<times> clip_frame"

definition better_entry ::
  "int \<Rightarrow> pts_entry \<Rightarrow> (int \<times> int \<times> clip_frame) option \<Rightarrow> (int \<times> int \<times> clip_frame) option" where
  "better_entry pts c best =
     (case c of (p, order, f) \<Rightarrow>
        let delta = \<bar>p - pts\<bar>
        in case best of
             None \<Rightarrow> Some (delta, order, f)
           | Some (d, n, g) \<Rightarrow> if (delta, order) < (d, n) then Some (delta, order, f) else best)"

definition nearest_metadata_frame :: "int \<Rightarrow> pts_entry list \<Rightarrow> (int \<times> clip_frame) option" where
  "nearest_metadata_frame pts entries =
     (let position = bisect_left (map fst entries) pts;
          candidates = (if position < length entries then [position] else []) @
                       (if 0 < position then [position - 1] else [])
      in map_option (\<lambda>(d, n, f). (d, f))
           (fold (\<lambda>i. better_entry pts (entries ! i)) candidates None))"

section \<open>Aligning the annotations\<close>

datatype match_kind = Match_Uuid | Match_Exact | Match_Nearest | Match_Outside | Match_Missing

fun match_text :: "match_kind \<Rightarrow> string" where
  "match_text Match_Uuid = ''metadata_frame_uuid''"
| "match_text Match_Exact = ''metadata_frame_pts_exact''"
| "match_text Match_Nearest = ''metadata_frame_pts_nearest''"
| "match_text Match_Outside = ''out_of_window''"
| "match_text Match_Missing = ''missing''"

record frame_index =
  ix_frames :: "clip_frame list"
  ix_entries :: "pts_entry list"
  ix_tolerance :: int

definition entry_of :: "nat \<times> clip_frame \<Rightarrow> pts_entry" where
  "entry_of = (\<lambda>(n, f). (cf_pts f, (case cf_num f of None \<Rightarrow> int n | Some k \<Rightarrow> k), f))"

definition build_index :: "clip_frame list \<Rightarrow> frame_index" where
  "build_index frames =
     \<lparr>ix_frames = frames,
      ix_entries = sort_key (\<lambda>(p, n, f). (p, n)) (map entry_of (enumerate 0 frames)),
      ix_tolerance = infer_nearest_tolerance_ns (map cf_pts frames)\<rparr>"

definition by_uuid :: "frame_index \<Rightarrow> string \<Rightarrow> clip_frame option" where
  "by_uuid ix u = find (\<lambda>f. cf_uuid f = Some u) (ix_frames ix)"

definition by_pts :: "frame_index \<Rightarrow> int \<Rightarrow> clip_frame option" where
  "by_pts ix p = find (\<lambda>f. cf_pts f = p) (ix_frames ix)"

definition uuid_match :: "frame_index \<Rightarrow> string option \<Rightarrow> clip_frame option" where
  "uuid_match ix u = (case u of None \<Rightarrow> None | Some s \<Rightarrow> by_uuid ix s)"

definition outside_clip :: "frame_index \<Rightarrow> int \<Rightarrow> bool" where
  "outside_clip ix p \<longleftrightarrow> p < cf_pts (hd (ix_frames ix)) \<or> cf_pts (List.last (ix_frames ix)) < p"

text \<open>The match of an annotation: its kind, the frame, and the distance of the frame time when known.\<close>

definition find_match ::
  "frame_index \<Rightarrow> string option \<Rightarrow> int option \<Rightarrow> match_kind \<times> clip_frame option \<times> int option" where
  "find_match ix uuid pts =
     (case uuid_match ix uuid of
        Some f \<Rightarrow> (Match_Uuid, Some f, Some 0)
      | None \<Rightarrow>
          (case pts of
             None \<Rightarrow> (Match_Missing, None, None)
           | Some p \<Rightarrow>
               (case by_pts ix p of
                  Some f \<Rightarrow> (Match_Exact, Some f, Some 0)
                | None \<Rightarrow>
                    (case nearest_metadata_frame p (ix_entries ix) of
                       None \<Rightarrow> (if outside_clip ix p then Match_Outside else Match_Missing, None, None)
                     | Some (d, f) \<Rightarrow>
                         if d \<le> ix_tolerance ix then (Match_Nearest, Some f, Some d)
                         else (if outside_clip ix p then Match_Outside else Match_Missing, None, Some d)))))"

definition mark_not_displayable :: "row \<Rightarrow> row" where
  "mark_not_displayable r =
     fold dpop [''t_ms'', ''t_s'', ''clip_frame_index'', ''matched_metadata_pts'']
       (dset ''displayable'' (PBool False) r)"

definition unmatched_row :: "match_kind \<Rightarrow> int option \<Rightarrow> row \<Rightarrow> row" where
  "unmatched_row kind delta r =
     (let r1 = mark_not_displayable (dset ''clip_timeline_match'' (PStr (match_text kind)) r)
      in case delta of None \<Rightarrow> r1 | Some d \<Rightarrow> dset ''clip_timeline_delta_ns'' (PInt d) r1)"

definition matched_row :: "int \<Rightarrow> match_kind \<Rightarrow> clip_frame \<Rightarrow> int option \<Rightarrow> row \<Rightarrow> row" where
  "matched_row first_pts kind f delta r =
     (let r1 = (case cf_num f of None \<Rightarrow> r | Some n \<Rightarrow> dset ''clip_frame_index'' (PInt n) r);
          offset = cf_pts f - first_pts;
          r2 = dset ''matched_metadata_pts'' (PInt (cf_pts f))
                 (dset ''t_s'' (PFloat (Fin (pts_seconds offset)))
                   (dset ''t_ms'' (PInt (py_round (of_int offset / 1000000))) r1))
      in dset ''displayable'' (PBool True)
           (dset ''clip_timeline_delta_ns'' (PInt (case delta of None \<Rightarrow> 0 | Some d \<Rightarrow> d))
             (dset ''clip_timeline_match'' (PStr (match_text kind)) r2)))"

record alignment =
  al_rows :: "row list"
  al_aligned :: nat
  al_unmatched :: nat
  al_outside :: nat
  al_uuid :: nat
  al_exact :: nat
  al_nearest :: nat
  al_kinds :: "(string \<times> nat) list"

definition count_kind :: "match_kind \<Rightarrow> (string \<times> nat) list \<Rightarrow> (string \<times> nat) list" where
  "count_kind kind d = dset (match_text kind) (dget_or d (match_text kind) 0 + 1) d"

definition align_row :: "frame_index \<Rightarrow> row \<Rightarrow> int option \<Rightarrow> alignment \<Rightarrow> alignment" where
  "align_row ix r pts st =
     (case find_match ix (timeline_uuid r) pts of
        (kind, None, delta) \<Rightarrow>
          st\<lparr>al_rows := al_rows st @ [unmatched_row kind delta r],
             al_unmatched := al_unmatched st + 1,
             al_outside := al_outside st + (if kind = Match_Outside then 1 else 0),
             al_kinds := count_kind kind (al_kinds st)\<rparr>
      | (kind, Some f, delta) \<Rightarrow>
          st\<lparr>al_rows := al_rows st @ [matched_row (cf_pts (hd (ix_frames ix))) kind f delta r],
             al_aligned := al_aligned st + 1,
             al_uuid := al_uuid st + (if kind = Match_Uuid then 1 else 0),
             al_exact := al_exact st + (if kind = Match_Exact then 1 else 0),
             al_nearest := al_nearest st + (if kind = Match_Nearest then 1 else 0),
             al_kinds := count_kind kind (al_kinds st)\<rparr>)"

fun align_rows :: "frame_index \<Rightarrow> row list \<Rightarrow> alignment \<Rightarrow> alignment result" where
  "align_rows ix [] st = Inr st"
| "align_rows ix (r # rs) st =
     rbind (timeline_int (pget r ''frame_pts'')) (\<lambda>pts. align_rows ix rs (align_row ix r pts st))"

definition no_alignment :: alignment where
  "no_alignment =
     \<lparr>al_rows = [], al_aligned = 0, al_unmatched = 0, al_outside = 0, al_uuid = 0, al_exact = 0,
      al_nearest = 0,
      al_kinds = map (\<lambda>k. (match_text k, 0))
        [Match_Uuid, Match_Exact, Match_Nearest, Match_Outside, Match_Missing]\<rparr>"

definition missing_row :: "row \<Rightarrow> row" where
  "missing_row r = mark_not_displayable (dset ''clip_timeline_match'' (PStr ''missing'') r)"

record alignment_summary =
  as_enabled :: bool
  as_status :: string
  as_counts :: alignment
  as_frame_count :: nat
  as_bounds :: "(int \<times> int) option"
  as_tolerance :: "int option"

definition alignment_status :: "alignment \<Rightarrow> string" where
  "alignment_status st =
     (if 0 < al_aligned st \<and> al_unmatched st = 0 then ''aligned''
      else if 0 < al_aligned st then ''partial'' else ''no_matches'')"

definition align_annotations_to_clip_metadata ::
  "row list \<Rightarrow> row list \<Rightarrow> (row list \<times> alignment_summary) result" where
  "align_annotations_to_clip_metadata rows metadata_rows =
     rbind (clip_frames metadata_rows) (\<lambda>frames.
       if rows = [] \<or> frames = [] then
         (let st = no_alignment\<lparr>al_rows := map missing_row rows, al_unmatched := length rows,
                     al_kinds := dset ''missing'' (length rows) (al_kinds no_alignment)\<rparr>
          in Inr (al_rows st,
                  \<lparr>as_enabled = (frames \<noteq> []),
                   as_status = (if frames = [] then ''missing_metadata'' else ''no_annotations''),
                   as_counts = st, as_frame_count = length frames, as_bounds = None,
                   as_tolerance = None\<rparr>))
       else
         (let ix = build_index frames
          in rbind (align_rows ix rows no_alignment) (\<lambda>st.
               Inr (al_rows st,
                    \<lparr>as_enabled = True, as_status = alignment_status st, as_counts = st,
                     as_frame_count = length frames,
                     as_bounds = Some (cf_pts (hd frames), cf_pts (List.last frames)),
                     as_tolerance = Some (ix_tolerance ix)\<rparr>))))"

end
