(* ===== verification/ClipAlignment.thy ===== *)
theory ClipAlignment
  imports ClipTimeline
begin

text \<open>
  What the alignment of annotations guarantees: the binary search finds a nearest frame, an
  annotation is shown exactly when a frame has its identifier or lies within the tolerance, and
  the counters of the summary add up.
\<close>

section \<open>The nearest frame\<close>

lemma bisect_left_bounds:
  assumes "sorted xs"
  shows "i < bisect_left xs x \<Longrightarrow> xs ! i < x" "bisect_left xs x \<le> i \<Longrightarrow> i < length xs \<Longrightarrow> x \<le> xs ! i"
    "bisect_left xs x \<le> length xs"
proof -
  show "xs ! i < x" if "i < bisect_left xs x"
  proof -
    have "takeWhile (\<lambda>y. y < x) xs ! i \<in> set (takeWhile (\<lambda>y. y < x) xs)"
      using that by (simp add: bisect_left_def)
    then have "takeWhile (\<lambda>y. y < x) xs ! i < x" by (auto dest: set_takeWhileD)
    then show ?thesis using that by (simp add: takeWhile_nth bisect_left_def)
  qed
  show "x \<le> xs ! i" if le: "bisect_left xs x \<le> i" and i: "i < length xs"
  proof -
    have k: "bisect_left xs x < length xs" using le i by simp
    then have "\<not> xs ! bisect_left xs x < x" unfolding bisect_left_def by (rule nth_length_takeWhile)
    moreover have "xs ! bisect_left xs x \<le> xs ! i" using assms le i by (simp add: sorted_nth_mono)
    ultimately show ?thesis by linarith
  qed
  show "bisect_left xs x \<le> length xs" unfolding bisect_left_def by (rule length_takeWhile_le)
qed

text \<open>A candidate beside the position of the search is nearest.\<close>

definition least_entry :: "int \<Rightarrow> pts_entry list \<Rightarrow> int \<Rightarrow> bool" where
  "least_entry pts es d \<longleftrightarrow> (\<forall>e \<in> set es. d \<le> \<bar>fst e - pts\<bar>)"

lemma nearest_is_least:
  assumes sorted: "sorted (map fst es)" and ne: "es \<noteq> []"
  shows "\<exists>d p n f. nearest_metadata_frame pts es = Some (d, f) \<and> (p, n, f) \<in> set es \<and>
    d = \<bar>p - pts\<bar> \<and> least_entry pts es d"
proof -
  define k where "k = bisect_left (map fst es) pts"
  note bounds = bisect_left_bounds [OF sorted, where x = pts, folded k_def]
  have k: "k \<le> length es" using bounds(3) by simp
  have low: "\<bar>fst (es ! (k - 1)) - pts\<bar> \<le> \<bar>fst (es ! i) - pts\<bar>" if "i < k" for i
  proof -
    have "fst (es ! i) \<le> fst (es ! (k - 1))"
      using sorted_nth_mono [OF sorted, of i "k - 1"] that k by simp
    moreover have "fst (es ! (k - 1)) < pts" using bounds(1) [of "k - 1"] that k by simp
    ultimately show ?thesis by linarith
  qed
  have high: "\<bar>fst (es ! k) - pts\<bar> \<le> \<bar>fst (es ! i) - pts\<bar>" if "k \<le> i" "i < length es" for i
  proof -
    have "fst (es ! k) \<le> fst (es ! i)"
      using sorted_nth_mono [OF sorted, of k i] that by simp
    moreover have "pts \<le> fst (es ! k)" using bounds(2) [of k] that by simp
    ultimately show ?thesis by linarith
  qed
  obtain pa na fa where a: "es ! k = (pa, na, fa)" by (cases "es ! k")
  obtain pb nb fb where b: "es ! (k - 1) = (pb, nb, fb)" by (cases "es ! (k - 1)")
  consider "k = 0" | "0 < k" "k = length es" | "0 < k" "k < length es" using k by linarith
  then show ?thesis
  proof cases
    case 1
    have "(pa, na, fa) \<in> set es" using ne 1 by (metis a length_greater_0_conv nth_mem)
    moreover have "least_entry pts es \<bar>pa - pts\<bar>"
      using high 1 a by (fastforce simp: least_entry_def in_set_conv_nth)
    ultimately show ?thesis using 1 ne a
      by (simp add: nearest_metadata_frame_def k_def [symmetric] Let_def better_entry_def) blast
  next
    case 2
    have "(pb, nb, fb) \<in> set es" using 2 by (metis b diff_less nth_mem zero_less_one)
    moreover have "least_entry pts es \<bar>pb - pts\<bar>"
      using low 2 b by (fastforce simp: least_entry_def in_set_conv_nth)
    ultimately show ?thesis using 2 b
      by (simp add: nearest_metadata_frame_def k_def [symmetric] Let_def better_entry_def) blast
  next
    case 3
    have mem: "(pa, na, fa) \<in> set es" "(pb, nb, fb) \<in> set es"
      using 3 nth_mem [of k es] nth_mem [of "k - 1" es] a b by (metis, metis less_imp_diff_less)
    have least: "least_entry pts es (min \<bar>pa - pts\<bar> \<bar>pb - pts\<bar>)"
      unfolding least_entry_def
    proof
      fix e assume "e \<in> set es"
      then obtain i where i: "i < length es" "e = es ! i" by (metis in_set_conv_nth)
      show "min \<bar>pa - pts\<bar> \<bar>pb - pts\<bar> \<le> \<bar>fst e - pts\<bar>"
      proof (cases "i < k")
        case True
        then show ?thesis using low [OF True] i b by simp
      next
        case False
        then show ?thesis using high [of i] i a by simp
      qed
    qed
    have step: "nearest_metadata_frame pts es =
        (if (\<bar>pb - pts\<bar>, nb) < (\<bar>pa - pts\<bar>, na) then Some (\<bar>pb - pts\<bar>, fb) else Some (\<bar>pa - pts\<bar>, fa))"
      using 3 a b by (simp add: nearest_metadata_frame_def k_def [symmetric] Let_def better_entry_def)
    show ?thesis
    proof (cases "(\<bar>pb - pts\<bar>, nb) < (\<bar>pa - pts\<bar>, na)")
      case True
      then have "min \<bar>pa - pts\<bar> \<bar>pb - pts\<bar> = \<bar>pb - pts\<bar>" by (auto simp: less_prod_def)
      then show ?thesis using step True mem least by auto
    next
      case False
      then have "min \<bar>pa - pts\<bar> \<bar>pb - pts\<bar> = \<bar>pa - pts\<bar>" by (auto simp: less_prod_def)
      then show ?thesis using step False mem least by auto
    qed
  qed
qed

lemma tolerance_bounds:
  "50000000 \<le> infer_nearest_tolerance_ns ps" "infer_nearest_tolerance_ns ps \<le> 120000000"
  by (auto simp: infer_nearest_tolerance_ns_def Let_def)

section \<open>Which annotations are shown\<close>

lemma index_entries:
  "sorted (map fst (ix_entries (build_index frames)))"
  "set (ix_entries (build_index frames)) \<subseteq> {(cf_pts f, n, f) | f n. f \<in> set frames}"
  "f \<in> set frames \<Longrightarrow> \<exists>n. (cf_pts f, n, f) \<in> set (ix_entries (build_index frames))"
proof -
  let ?es = "map entry_of (enumerate 0 frames)"
  have "sorted (map (\<lambda>(p, n, f). (p, n)) (sort_key (\<lambda>(p, n, f). (p, n)) ?es))"
    by (rule sorted_sort_key)
  moreover have "sorted (map fst es)" if "sorted (map (\<lambda>(p, n, f). (p, n)) es)" for es :: "pts_entry list"
    using that by (induction es) (auto simp: less_eq_prod_def order_le_less split: prod.splits)
  ultimately show "sorted (map fst (ix_entries (build_index frames)))" by (simp add: build_index_def)
  have members: "set (ix_entries (build_index frames)) = entry_of ` set (enumerate 0 frames)"
    by (simp add: build_index_def)
  have sub: "snd ` set (enumerate n fs) = set fs" for n and fs :: "clip_frame list"
    by (induction fs arbitrary: n) auto
  show "set (ix_entries (build_index frames)) \<subseteq> {(cf_pts f, n, f) | f n. f \<in> set frames}"
    unfolding members
  proof (rule image_subsetI)
    fix y assume y: "y \<in> set (enumerate 0 frames)"
    obtain n f where nf: "y = (n, f)" by (cases y)
    have "f \<in> snd ` set (enumerate 0 frames)" using y nf by force
    then have "f \<in> set frames" by (simp only: sub)
    then show "entry_of y \<in> {(cf_pts f, n, f) | f n. f \<in> set frames}"
      by (simp add: nf entry_of_def)
  qed
  show "\<exists>n. (cf_pts f, n, f) \<in> set (ix_entries (build_index frames))" if f: "f \<in> set frames"
  proof -
    have "f \<in> snd ` set (enumerate 0 frames)" by (simp only: sub f)
    then obtain n where "(n, f) \<in> set (enumerate 0 frames)" by auto
    then have "entry_of (n, f) \<in> set (ix_entries (build_index frames))" unfolding members by blast
    then show ?thesis by (auto simp: entry_of_def)
  qed
qed

definition near_frame :: "clip_frame list \<Rightarrow> int \<Rightarrow> bool" where
  "near_frame frames p \<longleftrightarrow>
     (\<exists>f \<in> set frames. \<bar>cf_pts f - p\<bar> \<le> infer_nearest_tolerance_ns (map cf_pts frames))"

definition named_frame :: "clip_frame list \<Rightarrow> string option \<Rightarrow> bool" where
  "named_frame frames u \<longleftrightarrow> u \<noteq> None \<and> (\<exists>f \<in> set frames. cf_uuid f = u)"

definition row_time :: "row \<Rightarrow> int option" where
  "row_time r = (case timeline_int (pget r ''frame_pts'') of Inr p \<Rightarrow> p | Inl _ \<Rightarrow> None)"

definition shown :: "clip_frame list \<Rightarrow> row \<Rightarrow> bool" where
  "shown frames r \<longleftrightarrow>
     named_frame frames (timeline_uuid r) \<or>
     (case row_time r of None \<Rightarrow> False | Some p \<Rightarrow> near_frame frames p)"

lemma uuid_match_iff:
  "uuid_match (build_index frames) u = None \<longleftrightarrow> \<not> named_frame frames u"
  "uuid_match (build_index frames) u = Some f \<Longrightarrow> f \<in> set frames \<and> cf_uuid f = u \<and> u \<noteq> None"
  by (auto simp: uuid_match_def by_uuid_def named_frame_def build_index_def find_None_iff find_Some_iff
      split: option.splits)

lemma by_pts_facts:
  "by_pts (build_index frames) p = Some f \<Longrightarrow> f \<in> set frames \<and> cf_pts f = p"
  by (auto simp: by_pts_def build_index_def find_Some_iff)

lemma nearest_facts:
  assumes "frames \<noteq> []"
  obtains d f where "nearest_metadata_frame p (ix_entries (build_index frames)) = Some (d, f)"
    "f \<in> set frames" "d = \<bar>cf_pts f - p\<bar>" "\<And>g. g \<in> set frames \<Longrightarrow> d \<le> \<bar>cf_pts g - p\<bar>"
proof -
  have ne: "ix_entries (build_index frames) \<noteq> []"
    using index_entries(3) [of "hd frames" frames] assms by (metis empty_iff hd_in_set list.set(1))
  obtain d q n f where near: "nearest_metadata_frame p (ix_entries (build_index frames)) = Some (d, f)"
    and mem: "(q, n, f) \<in> set (ix_entries (build_index frames))" and d: "d = \<bar>q - p\<bar>"
    and least: "least_entry p (ix_entries (build_index frames)) d"
    using nearest_is_least [OF index_entries(1) ne] by blast
  have f: "f \<in> set frames" "q = cf_pts f" using mem index_entries(2) by fastforce+
  show thesis
  proof (rule that [OF near f(1)])
    show "d = \<bar>cf_pts f - p\<bar>" using d f by simp
    show "d \<le> \<bar>cf_pts g - p\<bar>" if "g \<in> set frames" for g
      using index_entries(3) [OF that] least by (auto simp: least_entry_def)
  qed
qed

text \<open>The match has a frame exactly when the annotation is to be shown.\<close>

lemma find_match_frame:
  assumes ne: "frames \<noteq> []" and p: "row_time r = pts"
  shows "fst (snd (find_match (build_index frames) (timeline_uuid r) pts)) \<noteq> None \<longleftrightarrow> shown frames r"
proof (cases "uuid_match (build_index frames) (timeline_uuid r)")
  case (Some f)
  then show ?thesis using uuid_match_iff(1) [of frames "timeline_uuid r"]
    by (auto simp: find_match_def shown_def)
next
  case None
  then have unnamed: "\<not> named_frame frames (timeline_uuid r)" by (simp add: uuid_match_iff)
  show ?thesis
  proof (cases pts)
    case None
    then show ?thesis using \<open>uuid_match _ _ = None\<close> unnamed p by (simp add: find_match_def shown_def)
  next
    case (Some q)
    obtain d f where near: "nearest_metadata_frame q (ix_entries (build_index frames)) = Some (d, f)"
      "f \<in> set frames" "d = \<bar>cf_pts f - q\<bar>" "\<And>g. g \<in> set frames \<Longrightarrow> d \<le> \<bar>cf_pts g - q\<bar>"
      using nearest_facts [OF ne] by blast
    have tol: "ix_tolerance (build_index frames) = infer_nearest_tolerance_ns (map cf_pts frames)"
      by (simp add: build_index_def)
    have near_iff: "near_frame frames q \<longleftrightarrow> d \<le> ix_tolerance (build_index frames)"
      unfolding near_frame_def tol using near(2-4) by force
    show ?thesis
    proof (cases "by_pts (build_index frames) q")
      case None
      then show ?thesis using \<open>uuid_match _ _ = None\<close> unnamed p near near_iff
        by (simp add: find_match_def shown_def Some)
    next
      case (Some g)
      have "near_frame frames q"
        unfolding near_frame_def
        by (rule bexI [of _ g])
          (use by_pts_facts [OF Some] tolerance_bounds(1) [of "map cf_pts frames"] in auto)
      then show ?thesis using \<open>uuid_match _ _ = None\<close> unnamed p Some
        by (simp add: find_match_def shown_def \<open>pts = Some q\<close>)
    qed
  qed
qed

definition aligned_row :: "frame_index \<Rightarrow> row \<Rightarrow> row" where
  "aligned_row ix r =
     (case find_match ix (timeline_uuid r) (row_time r) of
        (kind, None, delta) \<Rightarrow> unmatched_row kind delta r
      | (kind, Some f, delta) \<Rightarrow> matched_row (cf_pts (hd (ix_frames ix))) kind f delta r)"

lemma mark_displayable: "pget (mark_not_displayable r) ''displayable'' = PBool False"
  by (simp add: mark_not_displayable_def pget_def dict_simps)

lemma row_displayable:
  "pget (unmatched_row kind delta r) ''displayable'' = PBool False"
  "pget (matched_row first kind f delta r) ''displayable'' = PBool True"
  "pget (missing_row r) ''displayable'' = PBool False"
  by (simp_all add: unmatched_row_def matched_row_def missing_row_def Let_def pget_dset mark_displayable
      split: option.split)

lemma align_rows_map:
  "align_rows ix rows st = Inr st' \<Longrightarrow> al_rows st' = al_rows st @ map (aligned_row ix) rows"
proof (induction rows arbitrary: st)
  case (Cons r rows)
  then obtain pts where pts: "timeline_int (pget r ''frame_pts'') = Inr pts"
    and rest: "align_rows ix rows (align_row ix r pts st) = Inr st'"
    by (auto simp: rbind_Inr_iff)
  have "al_rows (align_row ix r pts st) = al_rows st @ [aligned_row ix r]"
    using pts by (auto simp: align_row_def aligned_row_def row_time_def split: prod.split option.split)
  then show ?case using Cons.IH [OF rest] by simp
qed simp

lemma aligned_row_displayable:
  assumes "frames \<noteq> []"
  shows "pget (aligned_row (build_index frames) r) ''displayable'' = PBool (shown frames r)"
  using find_match_frame [OF assms refl, of r]
  by (auto simp: aligned_row_def row_displayable split: prod.split option.split)

text \<open>
  C24: an annotation is marked as displayable exactly when a frame of the clip has its identifier
  or lies within the inferred tolerance of its time; the order and the number of the annotations
  stay.
\<close>

theorem annotation_shown_iff_frame_near:
  assumes "align_annotations_to_clip_metadata rows metadata_rows = Inr (out, s)"
  shows "\<exists>frames. clip_frames metadata_rows = Inr frames \<and>
    map (\<lambda>r. pget r ''displayable'') out = map (\<lambda>r. PBool (shown frames r)) rows"
proof -
  obtain frames where frames: "clip_frames metadata_rows = Inr frames"
    using assms by (auto simp: align_annotations_to_clip_metadata_def rbind_Inr_iff)
  show ?thesis
  proof (cases "rows = [] \<or> frames = []")
    case True
    then have "out = map missing_row rows"
      using assms frames by (auto simp: align_annotations_to_clip_metadata_def)
    moreover have "\<not> shown frames r" if "frames = []" for r
      using that by (simp add: shown_def named_frame_def near_frame_def split: option.split)
    ultimately show ?thesis using frames True by (auto simp: row_displayable)
  next
    case False
    then obtain st where "align_rows (build_index frames) rows no_alignment = Inr st" "out = al_rows st"
      using assms frames by (auto simp: align_annotations_to_clip_metadata_def Let_def rbind_Inr_iff)
    then have "out = map (aligned_row (build_index frames)) rows"
      using align_rows_map by (fastforce simp: no_alignment_def)
    then show ?thesis using frames False aligned_row_displayable by auto
  qed
qed

definition clip_row :: "int \<Rightarrow> int \<Rightarrow> row" where
  "clip_row n pts = [(''frame_num'', PInt n), (''pts'', PInt pts)]"

definition clip_rows :: "row list" where
  "clip_rows = [clip_row 0 1000000000, clip_row 1 1040000000, clip_row 2 1080000000]"

definition annotation_at :: "int \<Rightarrow> row" where
  "annotation_at pts = [(''frame_pts'', PInt pts)]"

theorem annotation_shown_iff_frame_near_witness:
  "\<exists>frames. clip_frames clip_rows = Inr frames \<and>
    map (\<lambda>r. pget r ''displayable'') (fst (projr (align_annotations_to_clip_metadata
        [annotation_at 1050000000, annotation_at 1200000000] clip_rows))) =
    map (\<lambda>r. PBool (shown frames r)) [annotation_at 1050000000, annotation_at 1200000000]"
proof (rule annotation_shown_iff_frame_near)
  have "sum.isl (align_annotations_to_clip_metadata
        [annotation_at 1050000000, annotation_at 1200000000] clip_rows) = False" by code_simp
  then show "align_annotations_to_clip_metadata [annotation_at 1050000000, annotation_at 1200000000] clip_rows =
      Inr (fst (projr (align_annotations_to_clip_metadata
             [annotation_at 1050000000, annotation_at 1200000000] clip_rows)),
           snd (projr (align_annotations_to_clip_metadata
             [annotation_at 1050000000, annotation_at 1200000000] clip_rows)))"
    by (simp add: sum.collapse(2))
qed

section \<open>The counters\<close>

definition kinds_sum :: "(string \<times> nat) list \<Rightarrow> nat" where
  "kinds_sum d = sum_list (map (\<lambda>k. dget_or d (match_text k) 0)
     [Match_Uuid, Match_Exact, Match_Nearest, Match_Outside, Match_Missing])"

definition counters_ok :: "alignment \<Rightarrow> bool" where
  "counters_ok st \<longleftrightarrow>
     al_aligned st + al_unmatched st = length (al_rows st) \<and>
     al_uuid st + al_exact st + al_nearest st = al_aligned st \<and>
     al_outside st \<le> al_unmatched st \<and>
     kinds_sum (al_kinds st) = length (al_rows st) \<and>
     dget_or (al_kinds st) (match_text Match_Outside) 0 = al_outside st"

lemma match_text_inject: "match_text a = match_text b \<longleftrightarrow> a = b"
  by (cases a; cases b) simp_all

lemma count_kind_get: "dget_or (count_kind kind d) (match_text k) 0 =
    dget_or d (match_text k) 0 + (if k = kind then 1 else 0)"
  unfolding count_kind_def dget_or_dset match_text_inject by simp

lemma count_kind_sum: "kinds_sum (count_kind kind d) = Suc (kinds_sum d)"
  unfolding kinds_sum_def by (cases kind; simp add: count_kind_get del: match_text.simps)

lemma find_match_kind:
  "find_match ix u pts = (kind, fo, delta) \<Longrightarrow>
   (fo = None \<longleftrightarrow> kind \<in> {Match_Outside, Match_Missing})"
  by (auto simp: find_match_def split: option.splits if_splits prod.splits) metis+

lemma align_row_counters: "counters_ok st \<Longrightarrow> counters_ok (align_row ix r pts st)"
proof -
  assume ok: "counters_ok st"
  obtain kind fo delta where m: "find_match ix (timeline_uuid r) pts = (kind, fo, delta)"
    by (cases "find_match ix (timeline_uuid r) pts")
  note kinds = find_match_kind [OF m]
  show ?thesis
  proof (cases fo)
    case None
    with kinds have "kind = Match_Outside \<or> kind = Match_Missing" by simp
    then show ?thesis using ok
      by (auto simp: align_row_def m None counters_ok_def count_kind_sum count_kind_get
          simp del: match_text.simps)
  next
    case (Some f)
    with kinds have "kind = Match_Uuid \<or> kind = Match_Exact \<or> kind = Match_Nearest"
      by (cases kind) auto
    then show ?thesis using ok
      by (auto simp: align_row_def m Some counters_ok_def count_kind_sum count_kind_get
          simp del: match_text.simps)
  qed
qed

lemma align_rows_counters: "counters_ok st \<Longrightarrow> align_rows ix rows st = Inr st' \<Longrightarrow> counters_ok st'"
  by (induction rows arbitrary: st) (auto simp: rbind_Inr_iff dest: align_row_counters)

lemma no_alignment_counters: "counters_ok no_alignment"
  by code_simp

text \<open>
  the counters of an alignment add up: aligned and unmatched annotations are all of them, the
  aligned ones split by the kind of their match, and the distribution of the kinds counts every
  annotation once.
\<close>

theorem alignment_counters_add_up:
  assumes "align_annotations_to_clip_metadata rows metadata_rows = Inr (out, s)"
  shows "counters_ok (as_counts s) \<and> length out = length rows \<and> out = al_rows (as_counts s)"
proof -
  obtain frames where frames: "clip_frames metadata_rows = Inr frames"
    using assms by (auto simp: align_annotations_to_clip_metadata_def rbind_Inr_iff)
  show ?thesis
  proof (cases "rows = [] \<or> frames = []")
    case True
    have "kinds_sum (dset (match_text Match_Missing) (length rows) (al_kinds no_alignment)) = length rows"
      unfolding kinds_sum_def dget_or_dset match_text_inject
      by (simp only: list.map sum_list.Cons sum_list.Nil match_kind.distinct if_True if_False simp_thms
          dget_or_dset match_text_inject) (simp add: no_alignment_def dget_or_def)
    moreover have "dget_or (dset (match_text Match_Missing) (length rows) (al_kinds no_alignment))
        (match_text Match_Outside) 0 = 0"
      unfolding dget_or_dset match_text_inject by (simp add: no_alignment_def dget_or_def)
    ultimately show ?thesis
      using True assms frames
      by (auto simp: align_annotations_to_clip_metadata_def counters_ok_def no_alignment_def)
  next
    case False
    then obtain st where st: "align_rows (build_index frames) rows no_alignment = Inr st" "out = al_rows st"
      "s = \<lparr>as_enabled = True, as_status = alignment_status st, as_counts = st,
            as_frame_count = length frames,
            as_bounds = Some (cf_pts (hd frames), cf_pts (List.last frames)),
            as_tolerance = Some (ix_tolerance (build_index frames))\<rparr>"
      using assms frames by (auto simp: align_annotations_to_clip_metadata_def Let_def rbind_Inr_iff)
    moreover have "length (al_rows st) = length rows"
      using align_rows_map [OF st(1)] by (simp add: no_alignment_def)
    ultimately show ?thesis using align_rows_counters [OF no_alignment_counters st(1)] by simp
  qed
qed

theorem alignment_counters_add_up_witness:
  "counters_ok (as_counts (snd (projr (align_annotations_to_clip_metadata [annotation_at 5] clip_rows)))) \<and>
   length (fst (projr (align_annotations_to_clip_metadata [annotation_at 5] clip_rows))) =
     length [annotation_at 5] \<and>
   fst (projr (align_annotations_to_clip_metadata [annotation_at 5] clip_rows)) =
     al_rows (as_counts (snd (projr (align_annotations_to_clip_metadata [annotation_at 5] clip_rows))))"
proof (rule alignment_counters_add_up)
  have "sum.isl (align_annotations_to_clip_metadata [annotation_at 5] clip_rows) = False" by code_simp
  then show "align_annotations_to_clip_metadata [annotation_at 5] clip_rows =
      Inr (fst (projr (align_annotations_to_clip_metadata [annotation_at 5] clip_rows)),
           snd (projr (align_annotations_to_clip_metadata [annotation_at 5] clip_rows)))"
    by (simp add: sum.collapse(2))
qed

section \<open>The frames of the clip\<close>

lemma number_rows_nums:
  "number_rows rebase a n fs = Inr rs \<Longrightarrow>
   map (\<lambda>r. pget r ''frame_num'') rs = map (\<lambda>i. PInt (int i)) [n..<n + length fs] \<and> length rs = length fs"
proof (induction fs arbitrary: n rs)
  case (Cons f fs)
  then obtain r rs' where r: "number_row rebase a n f = Inr r"
    and rest: "number_rows rebase a (Suc n) fs = Inr rs'" "rs = r # rs'"
    by (auto simp: rbind_Inr_iff)
  have "pget r ''frame_num'' = PInt (int n)"
    using r by (auto simp: number_row_def rebase_row_def Let_def rbind_Inr_iff set_present_def pget_dset
        split: if_splits option.splits)
  moreover have "[n..<n + length (f # fs)] = n # [Suc n..<Suc n + length fs]"
    by (simp add: upt_rec)
  ultimately show ?case using Cons.IH [OF rest(1)] rest(2) by simp
qed simp

text \<open>The frames of the clip are numbered from zero without gaps.\<close>

theorem canonical_frames_numbered:
  assumes "canonicalize_sink_metadata rows ev pre post rebase = Inr (rs, w, so)"
  shows "map (\<lambda>r. pget r ''frame_num'') rs = map (\<lambda>i. PInt (int i)) [0..<length rs]"
proof -
  obtain v where w: "canonical_window_from_event ev pre post = Inr v"
    using assms by (auto simp: canonicalize_sink_metadata_def rbind_Inr_iff)
  show ?thesis
  proof (cases "cw_start v = None \<or> cw_end v = None \<or> cw_event v = None")
    case True
    then have "rs = []" using assms w
      by (auto simp: canonicalize_sink_metadata_def split: option.splits)
    then show ?thesis by simp
  next
    case False
    then obtain a b c where "cw_start v = Some a" "cw_end v = Some b" "cw_event v = Some c" by auto
    then obtain n fs where "number_rows rebase n 0 fs = Inr rs"
      using assms w by (auto simp: canonicalize_sink_metadata_def Let_def rbind_Inr_iff)
    then show ?thesis using number_rows_nums by fastforce
  qed
qed

end
