(* ===== verification/SegmentRetention.thy ===== *)
theory SegmentRetention
  imports PyValue
begin

text \<open>
  The retention of rolling segments (scripts/runtime/rolling_cache_maintenance.py) and the read
  pins that protect the segments in use (segment_index.py of the media worker).  A directory of
  the cache that holds a metadata file is an entry of the file system; its key is its path below
  the root.
\<close>

section \<open>Directories, markers and candidates\<close>

record file_stat =
  fs_device :: int
  fs_inode :: int
  fs_size :: int
  fs_mtime :: real

text \<open>
  A segment directory: its metadata file, the video file that \<open>_find_video\<close> finds, the bytes of
  all its files, and whether it lies below the directory of the pins or of materialized clips.
\<close>

record segment_dir =
  sd_metadata :: "file_stat option"
  sd_video :: "(string \<times> file_stat) option"
  sd_bytes :: int
  sd_excluded :: bool

type_synonym segment_fs = "(string \<times> segment_dir) list"

text \<open>A marker of a pin: its JSON value, or nothing when it cannot be read or parsed.\<close>

record pin_marker =
  mk_json :: "pyval option"
  mk_mtime :: real

type_synonym pin_dir = "(string \<times> pin_marker) list"

record segment_candidate =
  sc_directory :: string
  sc_video :: string
  sc_size :: int
  sc_mtime :: real

definition newest_mtime :: "segment_dir \<Rightarrow> (string \<times> real) option" where
  "newest_mtime s =
     (case (sd_metadata s, sd_video s) of
        (Some m, Some (path, v)) \<Rightarrow> Some (path, max (fs_mtime m) (fs_mtime v))
      | _ \<Rightarrow> None)"

definition candidate_of :: "real \<Rightarrow> real \<Rightarrow> string \<times> segment_dir \<Rightarrow> segment_candidate option" where
  "candidate_of now stability_age = (\<lambda>(d, s).
     if sd_excluded s then None
     else case newest_mtime s of
            None \<Rightarrow> None
          | Some (video, t) \<Rightarrow>
              if now - t < stability_age then None
              else Some \<lparr>sc_directory = d, sc_video = video, sc_size = sd_bytes s, sc_mtime = t\<rparr>)"

definition discover_segments :: "segment_fs \<Rightarrow> real \<Rightarrow> real \<Rightarrow> segment_candidate list" where
  "discover_segments fs now stability_age = List.map_filter (candidate_of now stability_age) fs"

section \<open>The read pins\<close>

record pin_stats =
  pn_files :: nat
  pn_active :: nat
  pn_expired :: nat
  pn_corrupt :: nat
  pn_block_all :: bool

record pin_scan =
  pc_pinned :: "string list"
  pc_stats :: pin_stats
  pc_markers :: pin_dir

text \<open>
  The expiry and the list of the segments: a value that is no object raises an error that is not
  caught, the other errors make the marker corrupt.
\<close>

datatype marker_view = Marker_Corrupt | Marker_Raises | Marker_Pin pyfloat "pyval list"

definition marker_view_of :: "pin_marker \<Rightarrow> marker_view" where
  "marker_view_of m =
     (case mk_json m of
        None \<Rightarrow> Marker_Corrupt
      | Some (PDict d) \<Rightarrow>
          (case py_float (py_or (pget d ''expires_at_epoch_s'') (PFloat (Fin 0))) of
             Inl _ \<Rightarrow> Marker_Corrupt
           | Inr e \<Rightarrow> (case pget d ''segments'' of PList ss \<Rightarrow> Marker_Pin e ss | _ \<Rightarrow> Marker_Corrupt))
      | Some _ \<Rightarrow> Marker_Raises)"

definition pin_names :: "(string \<Rightarrow> string option) \<Rightarrow> pyval list \<Rightarrow> string option list" where
  "pin_names resolve ss =
     List.map_filter (\<lambda>v. case v of PStr s \<Rightarrow> if s = [] then None else Some (resolve s) | _ \<Rightarrow> None) ss"

definition named_paths :: "string option list \<Rightarrow> string list" where
  "named_paths names = List.map_filter id names"

definition scan_marker ::
  "(string \<Rightarrow> string option) \<Rightarrow> real \<Rightarrow> real \<Rightarrow> string \<times> pin_marker \<Rightarrow> pin_scan \<Rightarrow> pin_scan result" where
  "scan_marker resolve now corrupt_ttl = (\<lambda>(token, m) sc.
     (let st = (pc_stats sc)\<lparr>pn_files := pn_files (pc_stats sc) + 1\<rparr>;
          keep = pc_markers sc @ [(token, m)]
      in case marker_view_of m of
           Marker_Raises \<Rightarrow> Inl (Runtime_Error ''AttributeError'')
         | Marker_Corrupt \<Rightarrow>
             Inr (if corrupt_ttl \<le> max 0 (now - mk_mtime m)
                  then sc\<lparr>pc_stats := st\<lparr>pn_corrupt := pn_corrupt st + 1\<rparr>\<rparr>
                  else sc\<lparr>pc_stats := st\<lparr>pn_block_all := True\<rparr>, pc_markers := keep\<rparr>)
         | Marker_Pin e ss \<Rightarrow>
             Inr (if flt_le e (Fin now)
                  then sc\<lparr>pc_stats := st\<lparr>pn_expired := pn_expired st + 1\<rparr>\<rparr>
                  else let names = pin_names resolve ss
                       in \<lparr>pc_pinned = pc_pinned sc @ named_paths names,
                           pc_stats = st\<lparr>pn_active := pn_active st + 1,
                                         pn_block_all := pn_block_all st \<or> None \<in> set names\<rparr>,
                           pc_markers = keep\<rparr>)))"

fun scan_markers ::
  "(string \<Rightarrow> string option) \<Rightarrow> real \<Rightarrow> real \<Rightarrow> pin_dir \<Rightarrow> pin_scan \<Rightarrow> pin_scan result" where
  "scan_markers resolve now corrupt_ttl [] sc = Inr sc"
| "scan_markers resolve now corrupt_ttl (m # ms) sc =
     rbind (scan_marker resolve now corrupt_ttl m sc) (scan_markers resolve now corrupt_ttl ms)"

definition empty_scan :: pin_scan where
  "empty_scan =
     \<lparr>pc_pinned = [], pc_stats = \<lparr>pn_files = 0, pn_active = 0, pn_expired = 0, pn_corrupt = 0,
                                   pn_block_all = False\<rparr>, pc_markers = []\<rparr>"

definition load_active_read_pins ::
  "(string \<Rightarrow> string option) \<Rightarrow> real \<Rightarrow> real \<Rightarrow> pin_dir \<Rightarrow> pin_scan result" where
  "load_active_read_pins resolve now corrupt_ttl markers =
     scan_markers resolve now corrupt_ttl markers empty_scan"

section \<open>The cleanup\<close>

definition unchanged_and_stable :: "segment_candidate \<Rightarrow> real \<Rightarrow> real \<Rightarrow> segment_fs \<Rightarrow> bool" where
  "unchanged_and_stable c now stability_age fs \<longleftrightarrow>
     (case dget fs (sc_directory c) of
        None \<Rightarrow> False
      | Some s \<Rightarrow>
          (case newest_mtime s of
             None \<Rightarrow> False
           | Some (video, t) \<Rightarrow> video = sc_video c \<and> t = sc_mtime c \<and> stability_age \<le> now - t))"

record cleanup_config =
  cg_retention :: real
  cg_max_bytes :: int
  cg_read_pin_ttl :: real
  cg_stability_age :: real
  cg_dry_run :: bool

record cleanup_state =
  cl_fs :: segment_fs
  cl_deleted_bytes :: int
  cl_deleted :: "string list"
  cl_retention_deleted :: nat
  cl_quota_deleted :: nat
  cl_skipped_pinned :: nat
  cl_remaining :: int

definition delete_candidate :: "cleanup_config \<Rightarrow> segment_candidate \<Rightarrow> cleanup_state \<Rightarrow> cleanup_state" where
  "delete_candidate cfg c st =
     st\<lparr>cl_fs := (if cg_dry_run cfg then cl_fs st else dpop (sc_directory c) (cl_fs st)),
        cl_deleted_bytes := cl_deleted_bytes st + sc_size c,
        cl_deleted := sc_directory c # cl_deleted st\<rparr>"

definition retention_step ::
  "cleanup_config \<Rightarrow> real \<Rightarrow> bool \<Rightarrow> string list \<Rightarrow> segment_candidate \<Rightarrow> cleanup_state \<Rightarrow> cleanup_state" where
  "retention_step cfg now block_all pinned c st =
     (if now - cg_retention cfg \<le> sc_mtime c then st
      else if block_all \<or> sc_directory c \<in> set pinned
      then st\<lparr>cl_skipped_pinned := cl_skipped_pinned st + 1\<rparr>
      else if \<not> unchanged_and_stable c now (cg_stability_age cfg) (cl_fs st) then st
      else (delete_candidate cfg c st)\<lparr>cl_retention_deleted := cl_retention_deleted st + 1\<rparr>)"

fun quota_loop ::
  "cleanup_config \<Rightarrow> real \<Rightarrow> bool \<Rightarrow> string list \<Rightarrow> segment_candidate list \<Rightarrow> cleanup_state \<Rightarrow> cleanup_state" where
  "quota_loop cfg now block_all pinned [] st = st"
| "quota_loop cfg now block_all pinned (c # cs) st =
     (if cl_remaining st \<le> cg_max_bytes cfg then st
      else quota_loop cfg now block_all pinned cs
        (if sc_directory c \<in> set (cl_deleted st) then st
         else if block_all \<or> sc_directory c \<in> set pinned
         then st\<lparr>cl_skipped_pinned := cl_skipped_pinned st + 1\<rparr>
         else if \<not> unchanged_and_stable c now (cg_stability_age cfg) (cl_fs st) then st
         else (delete_candidate cfg c st)
                \<lparr>cl_remaining := max 0 (cl_remaining st - sc_size c),
                 cl_quota_deleted := cl_quota_deleted st + 1\<rparr>))"

definition oldest_first :: "segment_candidate list \<Rightarrow> segment_candidate list" where
  "oldest_first = sort_key sc_mtime"

definition retention_pass ::
  "cleanup_config \<Rightarrow> real \<Rightarrow> bool \<Rightarrow> string list \<Rightarrow> segment_candidate list \<Rightarrow> cleanup_state \<Rightarrow> cleanup_state" where
  "retention_pass cfg now block_all pinned cs st =
     (if 0 < cg_retention cfg
      then fold (retention_step cfg now block_all pinned) (oldest_first cs) st else st)"

definition quota_pass ::
  "cleanup_config \<Rightarrow> real \<Rightarrow> bool \<Rightarrow> string list \<Rightarrow> segment_candidate list \<Rightarrow> cleanup_state \<Rightarrow> cleanup_state" where
  "quota_pass cfg now block_all pinned cs st =
     (let st1 = st\<lparr>cl_remaining := max 0 (sum_list (map sc_size cs) - cl_deleted_bytes st)\<rparr>
      in if 0 < cg_max_bytes cfg \<and> cg_max_bytes cfg < cl_remaining st1
         then quota_loop cfg now block_all pinned (oldest_first cs) st1 else st1)"

definition cleanup_start :: "segment_fs \<Rightarrow> cleanup_state" where
  "cleanup_start fs =
     \<lparr>cl_fs = fs, cl_deleted_bytes = 0, cl_deleted = [], cl_retention_deleted = 0,
      cl_quota_deleted = 0, cl_skipped_pinned = 0, cl_remaining = 0\<rparr>"

text \<open>
  The part of \<open>cleanup_once\<close> under the exclusive lock: the pins are loaded, the old segments
  and then the oldest ones above the quota are deleted, and the generation advances.
\<close>

record cleanup_outcome =
  co_state :: cleanup_state
  co_scan :: pin_scan
  co_generation :: int

definition cleanup_locked ::
  "(string \<Rightarrow> string option) \<Rightarrow> cleanup_config \<Rightarrow> real \<Rightarrow> segment_candidate list \<Rightarrow> int \<Rightarrow>
   segment_fs \<Rightarrow> pin_dir \<Rightarrow> cleanup_outcome result" where
  "cleanup_locked resolve cfg now cs generation fs markers =
     rbind (load_active_read_pins resolve now (max 1 (cg_read_pin_ttl cfg)) markers) (\<lambda>sc.
       let block_all = pn_block_all (pc_stats sc);
           st = quota_pass cfg now block_all (pc_pinned sc) cs
                  (retention_pass cfg now block_all (pc_pinned sc) cs (cleanup_start fs))
       in Inr \<lparr>co_state = st, co_scan = sc,
               co_generation = (if cl_deleted st \<noteq> [] \<and> \<not> cg_dry_run cfg
                                then generation + 1 else 0)\<rparr>)"

definition cleanup_once ::
  "(string \<Rightarrow> string option) \<Rightarrow> cleanup_config \<Rightarrow> real \<Rightarrow> int \<Rightarrow> segment_fs \<Rightarrow> pin_dir \<Rightarrow>
   cleanup_outcome result" where
  "cleanup_once resolve cfg now generation fs markers =
     cleanup_locked resolve cfg now (discover_segments fs now (cg_stability_age cfg)) generation fs markers"

section \<open>Publishing a pin\<close>

text \<open>
  What a reader wants to pin: the directory, the size of the video it has indexed, and the
  identities it expects, when the catalog has them.
\<close>

record pin_target =
  pt_directory :: string
  pt_size :: int
  pt_expected :: "(file_stat \<times> file_stat) option"

definition target_valid :: "segment_fs \<Rightarrow> pin_target \<Rightarrow> bool" where
  "target_valid fs t \<longleftrightarrow>
     (case dget fs (pt_directory t) of
        None \<Rightarrow> False
      | Some s \<Rightarrow>
          (case (sd_metadata s, sd_video s) of
             (Some m, Some (_, v)) \<Rightarrow>
               0 < fs_size m \<and> fs_size v = pt_size t \<and>
               (case pt_expected t of None \<Rightarrow> True | Some (em, ev) \<Rightarrow> m = em \<and> v = ev)
           | _ \<Rightarrow> False))"

definition pin_payload :: "string \<Rightarrow> real \<Rightarrow> real \<Rightarrow> string list \<Rightarrow> pyval" where
  "pin_payload token now ttl segments =
     PDict [(''schema_version'', PStr ''rolling-segment-read-pin-v1''), (''token'', PStr token),
            (''created_at_epoch_s'', PFloat (Fin now)), (''expires_at_epoch_s'', PFloat (Fin (now + ttl))),
            (''segments'', PList (map PStr (remdups (sorted_strings segments))))]"

text \<open>\<open>_activate_locked\<close>: all targets are checked before the marker appears.\<close>

definition activate_pin ::
  "string \<Rightarrow> real \<Rightarrow> real \<Rightarrow> pin_target list \<Rightarrow> segment_fs \<Rightarrow> pin_dir \<Rightarrow> pin_dir option" where
  "activate_pin token now ttl targets fs markers =
     (if list_all (target_valid fs) targets
      then Some (dset token \<lparr>mk_json = Some (pin_payload token now (max 1 ttl) (map pt_directory targets)),
                             mk_mtime = now\<rparr> markers)
      else None)"

end
