(* ===== verification/SegmentPins.thy ===== *)
theory SegmentPins
  imports SegmentRetention
begin

text \<open>
  Readers that pin segments and the cleaner that deletes them, in any interleaving: the readers
  hold the mutation lock shared while they publish a pin, the cleaner holds it exclusively from
  the loading of the pins to the last deletion.
\<close>

section \<open>The cleanup spares what is pinned\<close>

definition spares :: "string \<Rightarrow> cleanup_state \<Rightarrow> cleanup_state \<Rightarrow> bool" where
  "spares d st st' \<longleftrightarrow> dget (cl_fs st') d = dget (cl_fs st) d"

lemma spares_refl [simp]: "spares d st st"
  by (simp add: spares_def)

lemma spares_trans: "spares d s t \<Longrightarrow> spares d t u \<Longrightarrow> spares d s u"
  by (simp add: spares_def)

lemma retention_step_spares:
  "block_all \<or> d \<in> set pinned \<Longrightarrow> spares d st (retention_step cfg now block_all pinned c st)"
  by (auto simp: spares_def retention_step_def delete_candidate_def dict_simps)

lemma retention_pass_spares:
  assumes "block_all \<or> d \<in> set pinned"
  shows "spares d st (retention_pass cfg now block_all pinned cs st)"
proof -
  have "spares d st (fold (retention_step cfg now block_all pinned) cs st)" for cs st
    by (induction cs arbitrary: st)
      (use assms in \<open>auto intro: spares_trans retention_step_spares\<close>)
  then show ?thesis by (simp add: retention_pass_def)
qed

lemma quota_loop_spares:
  "block_all \<or> d \<in> set pinned \<Longrightarrow> spares d st (quota_loop cfg now block_all pinned cs st)"
  by (induction cfg now block_all pinned cs st rule: quota_loop.induct)
    (auto simp: spares_def delete_candidate_def dict_simps)

lemma quota_pass_spares:
  "block_all \<or> d \<in> set pinned \<Longrightarrow> spares d st (quota_pass cfg now block_all pinned cs st)"
proof -
  assume "block_all \<or> d \<in> set pinned"
  from quota_loop_spares [OF this] show ?thesis
    by (auto simp: quota_pass_def Let_def spares_def)
qed

text \<open>What the scan of the markers keeps, and which directories it finds pinned.\<close>

definition marker_kept :: "real \<Rightarrow> real \<Rightarrow> pin_marker \<Rightarrow> bool" where
  "marker_kept now corrupt_ttl m \<longleftrightarrow>
     (case marker_view_of m of
        Marker_Raises \<Rightarrow> True
      | Marker_Corrupt \<Rightarrow> max 0 (now - mk_mtime m) < corrupt_ttl
      | Marker_Pin e ss \<Rightarrow> \<not> flt_le e (Fin now))"

lemma scan_marker_facts:
  assumes "scan_marker resolve now ttl (token, m) sc = Inr sc'"
  shows "pc_markers sc' = pc_markers sc @ (if marker_kept now ttl m then [(token, m)] else [])"
    "set (pc_pinned sc) \<subseteq> set (pc_pinned sc')" "pn_block_all (pc_stats sc) \<Longrightarrow> pn_block_all (pc_stats sc')"
    "marker_view_of m = Marker_Pin e ss \<Longrightarrow> \<not> flt_le e (Fin now) \<Longrightarrow>
      set (named_paths (pin_names resolve ss)) \<subseteq> set (pc_pinned sc')"
  using assms
  by (auto simp: scan_marker_def Let_def marker_kept_def not_less split: marker_view.splits if_splits)

lemma scan_markers_facts:
  "scan_markers resolve now ttl ms sc = Inr sc' \<Longrightarrow>
   pc_markers sc' = pc_markers sc @ filter (\<lambda>(token, m). marker_kept now ttl m) ms \<and>
   set (pc_pinned sc) \<subseteq> set (pc_pinned sc') \<and>
   (\<forall>(token, m) \<in> set ms. \<forall>e ss. marker_view_of m = Marker_Pin e ss \<longrightarrow> \<not> flt_le e (Fin now) \<longrightarrow>
      set (named_paths (pin_names resolve ss)) \<subseteq> set (pc_pinned sc'))"
proof (induction ms arbitrary: sc)
  case (Cons x ms)
  obtain token m where x: "x = (token, m)" by (cases x)
  from Cons.prems obtain sc1 where s: "scan_marker resolve now ttl (token, m) sc = Inr sc1"
    and r: "scan_markers resolve now ttl ms sc1 = Inr sc'"
    by (auto simp: x rbind_Inr_iff)
  note step = scan_marker_facts(1,2) [OF s] and rest = Cons.IH [OF r]
  have new: "set (named_paths (pin_names resolve ss)) \<subseteq> set (pc_pinned sc')"
    if "marker_view_of m = Marker_Pin e ss" "\<not> flt_le e (Fin now)" for e ss
    using scan_marker_facts(4) [OF s that] rest by blast
  have "pc_markers sc' = pc_markers sc @ filter (\<lambda>(token, m). marker_kept now ttl m) (x # ms)"
    using step rest by (simp add: x)
  moreover have "set (pc_pinned sc) \<subseteq> set (pc_pinned sc')" using step rest by blast
  moreover have "\<forall>(token, m) \<in> set (x # ms). \<forall>e ss. marker_view_of m = Marker_Pin e ss \<longrightarrow>
      \<not> flt_le e (Fin now) \<longrightarrow> set (named_paths (pin_names resolve ss)) \<subseteq> set (pc_pinned sc')"
    using new rest by (auto simp: x)
  ultimately show ?case by blast
qed simp

text \<open>The marker of a pin as the cleaner reads it.\<close>

lemma pin_marker_view:
  "marker_view_of \<lparr>mk_json = Some (pin_payload token now ttl ds), mk_mtime = t\<rparr> =
   Marker_Pin (Fin (now + ttl)) (map PStr (remdups (sorted_strings ds)))"
  by (simp add: marker_view_of_def pin_payload_def pget_def dget_or_def py_or_def)

lemma sorted_strings_set: "set (sorted_strings ds) = set ds"
proof -
  have ins: "set (insert_sorted s ts) = insert s (set ts)" for s ts
    by (induction s ts rule: insert_sorted.induct) auto
  have "set (foldr insert_sorted ds []) = set ds" by (induction ds) (auto simp: ins)
  then show ?thesis by (simp add: sorted_strings_def)
qed

definition canonical_path :: "(string \<Rightarrow> string option) \<Rightarrow> string \<Rightarrow> bool" where
  "canonical_path resolve d \<longleftrightarrow> d \<noteq> [] \<and> resolve d = Some d"

lemma pin_names_canonical:
  assumes "d \<in> set ds" "canonical_path resolve d"
  shows "d \<in> set (named_paths (pin_names resolve (map PStr ds)))"
  using assms by (induction ds) (auto simp: named_paths_def pin_names_def List.map_filter_simps canonical_path_def split: option.splits)

text \<open>A directory that a live marker names survives the cleanup, and so does the marker.\<close>

lemma cleanup_spares_pinned:
  assumes run: "cleanup_locked resolve cfg now cs gen fs markers = Inr o1"
    and m: "dget markers token = Some m" "marker_view_of m = Marker_Pin e (map PStr ds)"
    and live: "\<not> flt_le e (Fin now)" and d: "d \<in> set ds" "canonical_path resolve d"
  shows "dget (cl_fs (co_state o1)) d = dget fs d"
proof -
  obtain sc where sc: "load_active_read_pins resolve now (max 1 (cg_read_pin_ttl cfg)) markers = Inr sc"
    and st: "co_state o1 = quota_pass cfg now (pn_block_all (pc_stats sc)) (pc_pinned sc) cs
      (retention_pass cfg now (pn_block_all (pc_stats sc)) (pc_pinned sc) cs (cleanup_start fs))"
    using run by (auto simp: cleanup_locked_def rbind_Inr_iff Let_def)
  have "(token, m) \<in> set markers" using m(1) by (rule map_of_SomeD)
  then have "set (named_paths (pin_names resolve (map PStr ds))) \<subseteq> set (pc_pinned sc)"
    using scan_markers_facts [OF sc [unfolded load_active_read_pins_def]] m(2) live by blast
  then have pinned: "d \<in> set (pc_pinned sc)" using pin_names_canonical [OF d] by blast
  have "spares d (cleanup_start fs) (co_state o1)"
    unfolding st by (rule spares_trans [OF retention_pass_spares quota_pass_spares]) (use pinned in auto)
  then show ?thesis by (simp add: spares_def cleanup_start_def)
qed

lemma cleanup_keeps_live_markers:
  assumes run: "cleanup_locked resolve cfg now cs gen fs markers = Inr o1" and ok: "dict_ok markers"
    and m: "dget markers token = Some m" "marker_view_of m = Marker_Pin e ss" "\<not> flt_le e (Fin now)"
  shows "dget (pc_markers (co_scan o1)) token = Some m" "dict_ok (pc_markers (co_scan o1))"
proof -
  obtain sc where sc: "load_active_read_pins resolve now (max 1 (cg_read_pin_ttl cfg)) markers = Inr sc"
    and o1: "co_scan o1 = sc"
    using run by (auto simp: cleanup_locked_def rbind_Inr_iff Let_def)
  have ms: "pc_markers sc = filter (\<lambda>(token, m). marker_kept now (max 1 (cg_read_pin_ttl cfg)) m) markers"
    using scan_markers_facts [OF sc [unfolded load_active_read_pins_def]] by (simp add: empty_scan_def)
  show "dget (pc_markers (co_scan o1)) token = Some m"
    using m by (simp add: o1 ms dget_filter [OF ok] marker_kept_def)
  show "dict_ok (pc_markers (co_scan o1))" using ok by (simp add: o1 ms)
qed

lemma cleanup_markers_ok:
  "cleanup_locked resolve cfg now cs gen fs markers = Inr o1 \<Longrightarrow> dict_ok markers \<Longrightarrow>
   dict_ok (pc_markers (co_scan o1))"
  by (auto simp: cleanup_locked_def rbind_Inr_iff Let_def load_active_read_pins_def empty_scan_def
      dest!: scan_markers_facts)

section \<open>The interleaving\<close>

text \<open>
  The file system and the markers, the clock, the holders of the lock, the active pins of the
  readers with their directories and expiry, and what the cleaner has discovered and when.
\<close>

record pin_world =
  pw_fs :: segment_fs
  pw_markers :: pin_dir
  pw_clock :: real
  pw_shared :: "string list"
  pw_exclusive :: bool
  pw_pins :: "(string \<times> (string list \<times> real)) list"
  pw_discovered :: "(segment_candidate list \<times> real) option"
  pw_generation :: int

text \<open>
  A token is never used twice: a reader with a known token does nothing.  The publisher of new
  segments takes no lock.
\<close>

datatype pin_event =
    Time_Passes real
  | Segment_Written string segment_dir
  | Reader_Locks string
  | Reader_Pins string real "pin_target list"
  | Reader_Unlocks string
  | Reader_Releases string
  | Cleaner_Discovers
  | Cleaner_Locks
  | Cleaner_Cleans
  | Cleaner_Unlocks

definition reader_pins ::
  "(string \<Rightarrow> string option) \<Rightarrow> string \<Rightarrow> real \<Rightarrow> pin_target list \<Rightarrow> pin_world \<Rightarrow> pin_world" where
  "reader_pins resolve token ttl targets w =
     (if token \<in> set (pw_shared w) \<and> dget (pw_markers w) token = None \<and> dget (pw_pins w) token = None \<and>
         list_all (\<lambda>t. canonical_path resolve (pt_directory t)) targets
      then case activate_pin token (pw_clock w) ttl targets (pw_fs w) (pw_markers w) of
             None \<Rightarrow> w
           | Some ms \<Rightarrow> w\<lparr>pw_markers := ms,
               pw_pins := dset token (map pt_directory targets, pw_clock w + max 1 ttl) (pw_pins w)\<rparr>
      else w)"

definition cleaner_cleans :: "(string \<Rightarrow> string option) \<Rightarrow> cleanup_config \<Rightarrow> pin_world \<Rightarrow> pin_world" where
  "cleaner_cleans resolve cfg w =
     (case pw_discovered w of
        None \<Rightarrow> w
      | Some (cs, now) \<Rightarrow>
          if \<not> pw_exclusive w then w
          else case cleanup_locked resolve cfg now cs (pw_generation w) (pw_fs w) (pw_markers w) of
                 Inl _ \<Rightarrow> w\<lparr>pw_discovered := None\<rparr>
               | Inr o1 \<Rightarrow> w\<lparr>pw_fs := cl_fs (co_state o1), pw_markers := pc_markers (co_scan o1),
                              pw_generation := max (pw_generation w) (co_generation o1),
                              pw_discovered := None\<rparr>)"

fun pin_step :: "(string \<Rightarrow> string option) \<Rightarrow> cleanup_config \<Rightarrow> pin_event \<Rightarrow> pin_world \<Rightarrow> pin_world" where
  "pin_step resolve cfg (Time_Passes dt) w = w\<lparr>pw_clock := pw_clock w + max 0 dt\<rparr>"
| "pin_step resolve cfg (Segment_Written d s) w = w\<lparr>pw_fs := dset d s (pw_fs w)\<rparr>"
| "pin_step resolve cfg (Reader_Locks r) w =
     (if pw_exclusive w then w else w\<lparr>pw_shared := r # pw_shared w\<rparr>)"
| "pin_step resolve cfg (Reader_Pins token ttl targets) w = reader_pins resolve token ttl targets w"
| "pin_step resolve cfg (Reader_Unlocks r) w = w\<lparr>pw_shared := remove1 r (pw_shared w)\<rparr>"
| "pin_step resolve cfg (Reader_Releases token) w =
     (if pw_exclusive w then w
      else w\<lparr>pw_markers := dpop token (pw_markers w), pw_pins := dpop token (pw_pins w)\<rparr>)"
| "pin_step resolve cfg Cleaner_Discovers w =
     w\<lparr>pw_discovered := Some (discover_segments (pw_fs w) (pw_clock w) (cg_stability_age cfg), pw_clock w)\<rparr>"
| "pin_step resolve cfg Cleaner_Locks w =
     (if pw_shared w = [] \<and> \<not> pw_exclusive w then w\<lparr>pw_exclusive := True\<rparr> else w)"
| "pin_step resolve cfg Cleaner_Cleans w = cleaner_cleans resolve cfg w"
| "pin_step resolve cfg Cleaner_Unlocks w = w\<lparr>pw_exclusive := False\<rparr>"

definition pin_start :: "segment_fs \<Rightarrow> pin_world" where
  "pin_start fs =
     \<lparr>pw_fs = fs, pw_markers = [], pw_clock = 0, pw_shared = [], pw_exclusive = False, pw_pins = [],
      pw_discovered = None, pw_generation = 0\<rparr>"

text \<open>
  The mutual exclusion of the lock; what was discovered is not later than now; and the marker and
  the directories of every pin that has not expired.
\<close>

definition lock_ok :: "pin_world \<Rightarrow> bool" where
  "lock_ok w \<longleftrightarrow> (pw_exclusive w \<longrightarrow> pw_shared w = [])"

definition discovery_ok :: "pin_world \<Rightarrow> bool" where
  "discovery_ok w \<longleftrightarrow> (case pw_discovered w of None \<Rightarrow> True | Some (_, now) \<Rightarrow> now \<le> pw_clock w)"

definition pin_ok ::
  "(string \<Rightarrow> string option) \<Rightarrow> segment_fs \<Rightarrow> pin_dir \<Rightarrow> string \<Rightarrow> string list \<Rightarrow> real \<Rightarrow> bool" where
  "pin_ok resolve fs markers token ds e \<longleftrightarrow>
     (\<exists>m ds'. dget markers token = Some m \<and> marker_view_of m = Marker_Pin (Fin e) (map PStr ds') \<and>
              set ds' = set ds) \<and>
     (\<forall>d \<in> set ds. canonical_path resolve d \<and> dget fs d \<noteq> None)"

definition pins_ok :: "(string \<Rightarrow> string option) \<Rightarrow> pin_world \<Rightarrow> bool" where
  "pins_ok resolve w \<longleftrightarrow>
     dict_ok (pw_markers w) \<and> dict_ok (pw_pins w) \<and>
     (\<forall>token ds e. dget (pw_pins w) token = Some (ds, e) \<longrightarrow> pw_clock w < e \<longrightarrow>
        pin_ok resolve (pw_fs w) (pw_markers w) token ds e)"

lemma pin_ok_fs:
  "pin_ok resolve fs ms token ds e \<Longrightarrow> (\<And>d. d \<in> set ds \<Longrightarrow> dget fs d \<noteq> None \<Longrightarrow> dget fs' d \<noteq> None) \<Longrightarrow>
   dget ms' token = dget ms token \<Longrightarrow> pin_ok resolve fs' ms' token ds e"
  by (auto simp: pin_ok_def)

lemma activated_pin_ok:
  assumes "activate_pin token now ttl targets fs markers = Some ms"
    "list_all (\<lambda>t. canonical_path resolve (pt_directory t)) targets"
  shows "pin_ok resolve fs ms token (map pt_directory targets) (now + max 1 ttl)"
    "t \<noteq> token \<Longrightarrow> dget ms t = dget markers t" "dict_ok markers \<Longrightarrow> dict_ok ms"
proof -
  have valid: "list_all (target_valid fs) targets"
    and ms: "ms = dset token \<lparr>mk_json = Some (pin_payload token now (max 1 ttl) (map pt_directory targets)),
                             mk_mtime = now\<rparr> markers"
    using assms(1) by (auto simp: activate_pin_def split: if_splits)
  have "\<exists>m ds'. dget ms token = Some m \<and> marker_view_of m = Marker_Pin (Fin (now + max 1 ttl)) (map PStr ds') \<and>
      set ds' = set (map pt_directory targets)"
    using pin_marker_view [of token now "max 1 ttl" "map pt_directory targets" now]
    by (simp add: ms dict_simps) (metis set_remdups sorted_strings_set list.set_map)
  moreover have "\<forall>d \<in> set (map pt_directory targets). canonical_path resolve d \<and> dget fs d \<noteq> None"
    using valid assms(2) by (auto simp: list_all_iff target_valid_def split: option.splits)
  ultimately show "pin_ok resolve fs ms token (map pt_directory targets) (now + max 1 ttl)"
    by (simp add: pin_ok_def)
  show "t \<noteq> token \<Longrightarrow> dget ms t = dget markers t" by (simp add: ms dict_simps)
  show "dict_ok markers \<Longrightarrow> dict_ok ms" by (simp add: ms)
qed

section \<open>Every step keeps the pins\<close>

lemma pins_okI:
  assumes "dict_ok (pw_markers w)" "dict_ok (pw_pins w)"
    "\<And>token ds e. dget (pw_pins w) token = Some (ds, e) \<Longrightarrow> pw_clock w < e \<Longrightarrow>
      pin_ok resolve (pw_fs w) (pw_markers w) token ds e"
  shows "pins_ok resolve w"
  using assms by (simp add: pins_ok_def)

lemma reader_pins_ok:
  assumes "pins_ok resolve w"
  shows "pins_ok resolve (reader_pins resolve token ttl targets w)"
proof (cases "reader_pins resolve token ttl targets w = w")
  case False
  then obtain ms where guard: "dget (pw_markers w) token = None" "dget (pw_pins w) token = None"
      "list_all (\<lambda>t. canonical_path resolve (pt_directory t)) targets"
    and act: "activate_pin token (pw_clock w) ttl targets (pw_fs w) (pw_markers w) = Some ms"
    and w': "reader_pins resolve token ttl targets w = w\<lparr>pw_markers := ms,
      pw_pins := dset token (map pt_directory targets, pw_clock w + max 1 ttl) (pw_pins w)\<rparr>"
    by (auto simp: reader_pins_def split: if_splits option.splits)
  note new = activated_pin_ok [OF act guard(3)]
  show ?thesis unfolding w'
  proof (rule pins_okI)
    fix t ds e
    assume t: "dget (pw_pins (w\<lparr>pw_markers := ms,
        pw_pins := dset token (map pt_directory targets, pw_clock w + max 1 ttl) (pw_pins w)\<rparr>)) t = Some (ds, e)"
      and live: "pw_clock (w\<lparr>pw_markers := ms,
        pw_pins := dset token (map pt_directory targets, pw_clock w + max 1 ttl) (pw_pins w)\<rparr>) < e"
    show "pin_ok resolve (pw_fs (w\<lparr>pw_markers := ms,
        pw_pins := dset token (map pt_directory targets, pw_clock w + max 1 ttl) (pw_pins w)\<rparr>))
      (pw_markers (w\<lparr>pw_markers := ms,
        pw_pins := dset token (map pt_directory targets, pw_clock w + max 1 ttl) (pw_pins w)\<rparr>)) t ds e"
    proof (cases "t = token")
      case True
      then show ?thesis using t new(1) by (simp add: dict_simps)
    next
      case False
      then have "pin_ok resolve (pw_fs w) (pw_markers w) t ds e"
        using t live assms by (simp add: pins_ok_def dict_simps)
      then show ?thesis using new(2) [OF False] by (auto intro: pin_ok_fs)
    qed
  qed (use assms new(3) in \<open>simp_all add: pins_ok_def\<close>)
qed (use assms in simp)

lemma cleaner_cleans_ok:
  assumes ok: "pins_ok resolve w" and disc: "discovery_ok w"
  shows "pins_ok resolve (cleaner_cleans resolve cfg w)"
proof (cases "\<exists>cs now o1. pw_discovered w = Some (cs, now) \<and> pw_exclusive w \<and>
    cleanup_locked resolve cfg now cs (pw_generation w) (pw_fs w) (pw_markers w) = Inr o1")
  case False
  then have "cleaner_cleans resolve cfg w = w \<or> cleaner_cleans resolve cfg w = w\<lparr>pw_discovered := None\<rparr>"
    by (auto simp: cleaner_cleans_def split: option.split sum.split)
  then show ?thesis using ok by (auto simp: pins_ok_def)
next
  case True
  then obtain cs now o1 where d: "pw_discovered w = Some (cs, now)" "pw_exclusive w"
    and run: "cleanup_locked resolve cfg now cs (pw_generation w) (pw_fs w) (pw_markers w) = Inr o1"
    by blast
  have now: "now \<le> pw_clock w" using disc d by (simp add: discovery_ok_def)
  have markers: "dict_ok (pw_markers w)" using ok by (simp add: pins_ok_def)
  have w': "cleaner_cleans resolve cfg w =
      w\<lparr>pw_fs := cl_fs (co_state o1), pw_markers := pc_markers (co_scan o1),
        pw_generation := max (pw_generation w) (co_generation o1), pw_discovered := None\<rparr>"
    using d run by (simp add: cleaner_cleans_def)
  show ?thesis unfolding w'
  proof (rule pins_okI)
    show "dict_ok (pw_markers (w\<lparr>pw_fs := cl_fs (co_state o1), pw_markers := pc_markers (co_scan o1),
        pw_generation := max (pw_generation w) (co_generation o1), pw_discovered := None\<rparr>))"
      using cleanup_markers_ok [OF run markers] by simp
  next
    fix token ds e
    assume "dget (pw_pins (w\<lparr>pw_fs := cl_fs (co_state o1), pw_markers := pc_markers (co_scan o1),
        pw_generation := max (pw_generation w) (co_generation o1), pw_discovered := None\<rparr>)) token = Some (ds, e)"
      "pw_clock (w\<lparr>pw_fs := cl_fs (co_state o1), pw_markers := pc_markers (co_scan o1),
        pw_generation := max (pw_generation w) (co_generation o1), pw_discovered := None\<rparr>) < e"
    then have old: "pin_ok resolve (pw_fs w) (pw_markers w) token ds e" and e: "now < e"
      using ok now by (auto simp: pins_ok_def)
    obtain m ds' where m: "dget (pw_markers w) token = Some m"
      "marker_view_of m = Marker_Pin (Fin e) (map PStr ds')" "set ds' = set ds"
      using old by (auto simp: pin_ok_def)
    have live: "\<not> flt_le (Fin e) (Fin now)" using e by simp
    have "dget (cl_fs (co_state o1)) d = dget (pw_fs w) d" if "d \<in> set ds" for d
      using cleanup_spares_pinned [OF run m(1,2) live] that m(3) old by (auto simp: pin_ok_def)
    moreover have "dget (pc_markers (co_scan o1)) token = dget (pw_markers w) token"
      using cleanup_keeps_live_markers(1) [OF run markers m(1,2) live] m(1) by simp
    ultimately show "pin_ok resolve
        (pw_fs (w\<lparr>pw_fs := cl_fs (co_state o1), pw_markers := pc_markers (co_scan o1),
          pw_generation := max (pw_generation w) (co_generation o1), pw_discovered := None\<rparr>))
        (pw_markers (w\<lparr>pw_fs := cl_fs (co_state o1), pw_markers := pc_markers (co_scan o1),
          pw_generation := max (pw_generation w) (co_generation o1), pw_discovered := None\<rparr>)) token ds e"
      using old by (auto intro: pin_ok_fs)
  qed (use ok in \<open>simp add: pins_ok_def\<close>)
qed

definition pin_inv :: "(string \<Rightarrow> string option) \<Rightarrow> pin_world \<Rightarrow> bool" where
  "pin_inv resolve w \<longleftrightarrow> lock_ok w \<and> discovery_ok w \<and> pins_ok resolve w"

lemma lock_step_ok: "lock_ok w \<Longrightarrow> lock_ok (pin_step resolve cfg e w)"
  by (cases e) (auto simp: lock_ok_def reader_pins_def cleaner_cleans_def
      split: option.split sum.split)

lemma discovery_step_ok: "discovery_ok w \<Longrightarrow> discovery_ok (pin_step resolve cfg e w)"
  by (cases e) (auto simp: discovery_ok_def reader_pins_def cleaner_cleans_def
      split: option.splits sum.splits)

lemma pins_step_ok:
  assumes "pins_ok resolve w" "discovery_ok w"
  shows "pins_ok resolve (pin_step resolve cfg e w)"
proof (cases e)
  case (Time_Passes dt)
  show ?thesis unfolding Time_Passes pin_step.simps
    by (rule pins_okI) (use assms(1) in \<open>auto simp: pins_ok_def\<close>)
next
  case (Segment_Written d s)
  show ?thesis unfolding Segment_Written pin_step.simps
  proof (rule pins_okI)
    fix token ds e
    assume "dget (pw_pins (w\<lparr>pw_fs := dset d s (pw_fs w)\<rparr>)) token = Some (ds, e)"
      "pw_clock (w\<lparr>pw_fs := dset d s (pw_fs w)\<rparr>) < e"
    then have "pin_ok resolve (pw_fs w) (pw_markers w) token ds e"
      using assms(1) by (simp add: pins_ok_def)
    then show "pin_ok resolve (pw_fs (w\<lparr>pw_fs := dset d s (pw_fs w)\<rparr>))
        (pw_markers (w\<lparr>pw_fs := dset d s (pw_fs w)\<rparr>)) token ds e"
      by (rule pin_ok_fs) (simp_all add: dict_simps)
  qed (use assms(1) in \<open>simp_all add: pins_ok_def\<close>)
next
  case (Reader_Releases token)
  show ?thesis
  proof (cases "pw_exclusive w")
    case False
    show ?thesis unfolding Reader_Releases pin_step.simps if_not_P [OF False]
    proof (rule pins_okI)
      fix t ds e
      assume "dget (pw_pins (w\<lparr>pw_markers := dpop token (pw_markers w), pw_pins := dpop token (pw_pins w)\<rparr>)) t =
          Some (ds, e)"
        "pw_clock (w\<lparr>pw_markers := dpop token (pw_markers w), pw_pins := dpop token (pw_pins w)\<rparr>) < e"
      then have t: "t \<noteq> token" "pin_ok resolve (pw_fs w) (pw_markers w) t ds e"
        using assms(1) by (auto simp: pins_ok_def dict_simps split: if_splits)
      then show "pin_ok resolve
          (pw_fs (w\<lparr>pw_markers := dpop token (pw_markers w), pw_pins := dpop token (pw_pins w)\<rparr>))
          (pw_markers (w\<lparr>pw_markers := dpop token (pw_markers w), pw_pins := dpop token (pw_pins w)\<rparr>)) t ds e"
        by (auto simp: dict_simps intro: pin_ok_fs)
    qed (use assms(1) in \<open>simp_all add: pins_ok_def\<close>)
  qed (use assms(1) Reader_Releases in simp)
qed (use assms reader_pins_ok cleaner_cleans_ok in \<open>auto simp: pins_ok_def\<close>)

interpretation pin_runs: transition_system "pin_start fs" "pin_step resolve cfg" "pin_inv resolve"
  for fs resolve cfg
proof unfold_locales
  show "pin_inv resolve (pin_start fs)"
    by (simp add: pin_inv_def pin_start_def lock_ok_def discovery_ok_def pins_ok_def)
  show "pin_inv resolve (pin_step resolve cfg e w)" if "pin_inv resolve w" for e w
    using that by (simp add: pin_inv_def lock_step_ok discovery_step_ok pins_step_ok)
qed

text \<open>
  C16: in every interleaving of readers, writers and the cleaner, all directories that a reader has
  pinned exist as long as the pin is neither released nor expired.
\<close>

theorem pinned_segments_survive:
  assumes "w = fold (pin_step resolve cfg) es (pin_start fs)"
    and "dget (pw_pins w) token = Some (ds, e)" "pw_clock w < e" "d \<in> set ds"
  shows "\<exists>s. dget (pw_fs w) d = Some s"
proof -
  have "pin_inv resolve w" unfolding assms(1) by (rule pin_runs.run)
  then have "pin_ok resolve (pw_fs w) (pw_markers w) token ds e"
    using assms(2,3) by (simp add: pin_inv_def pins_ok_def)
  then show ?thesis using assms(4) by (auto simp: pin_ok_def)
qed

definition demo_stat :: "int \<Rightarrow> file_stat" where
  "demo_stat n = \<lparr>fs_device = 1, fs_inode = n, fs_size = 10, fs_mtime = 0\<rparr>"

definition demo_dir :: "int \<Rightarrow> segment_dir" where
  "demo_dir n = \<lparr>sd_metadata = Some (demo_stat n), sd_video = Some (''video.mov'', demo_stat (n + 100)),
                 sd_bytes = 20, sd_excluded = False\<rparr>"

definition demo_config :: cleanup_config where
  "demo_config = \<lparr>cg_retention = 5, cg_max_bytes = 0, cg_read_pin_ttl = 600, cg_stability_age = 1,
                  cg_dry_run = False\<rparr>"

definition demo_events :: "pin_event list" where
  "demo_events =
     [Time_Passes 10, Cleaner_Discovers, Reader_Locks ''t'',
      Reader_Pins ''t'' 600 [\<lparr>pt_directory = ''a'', pt_size = 10, pt_expected = None\<rparr>],
      Cleaner_Locks, Reader_Unlocks ''t'', Cleaner_Locks, Cleaner_Cleans, Cleaner_Unlocks]"

lemma demo_run:
  "map fst (pw_fs (fold (pin_step Some demo_config) demo_events (pin_start [(''a'', demo_dir 1), (''b'', demo_dir 2)]))) = [''a''] \<and>
   dget (pw_pins (fold (pin_step Some demo_config) demo_events
     (pin_start [(''a'', demo_dir 1), (''b'', demo_dir 2)]))) ''t'' = Some ([''a''], 610) \<and>
   pw_clock (fold (pin_step Some demo_config) demo_events
     (pin_start [(''a'', demo_dir 1), (''b'', demo_dir 2)])) = 10"
  by code_simp

theorem pinned_segments_survive_witness:
  "\<exists>s. dget (pw_fs (fold (pin_step Some demo_config) demo_events
     (pin_start [(''a'', demo_dir 1), (''b'', demo_dir 2)]))) ''a'' = Some s"
  by (rule pinned_segments_survive [OF refl, of _ _ _ _ "''t''" "[''a'']" 610]) (use demo_run in auto)

end
