(* ===== verification/SinkConfig.thy ===== *)
theory SinkConfig
  imports PyValue
begin

text \<open>
  The configuration of the rolling cache sink and the epoch its streams belong to
  (services/rolling-cache-sink/app/config.py).  The parser of the epoch file and the random parts
  of generated names are arguments; paths and the network address are kept as their texts.
\<close>

section \<open>Safe components\<close>

definition safe_char :: "char \<Rightarrow> bool" where
  "safe_char c \<longleftrightarrow>
     (let n = (of_char c :: nat)
      in (48 \<le> n \<and> n \<le> 57) \<or> (65 \<le> n \<and> n \<le> 90) \<or> (97 \<le> n \<and> n \<le> 122)) \<or> c \<in> set ''_.:@+-''"

definition is_safe :: "string \<Rightarrow> bool" where
  "is_safe s \<longleftrightarrow> s \<noteq> [] \<and> s \<noteq> ''.'' \<and> s \<noteq> ''..'' \<and> list_all safe_char s"

definition safe_component :: "string \<Rightarrow> string \<Rightarrow> string result" where
  "safe_component field_name raw =
     (let s = py_strip raw
      in if is_safe s then Inr s else Inl (Value_Error (''unsafe_'' @ field_name)))"

lemma safe_component_Inr: "safe_component f raw = Inr s \<longleftrightarrow> s = py_strip raw \<and> is_safe s"
  by (auto simp: safe_component_def Let_def)

text \<open>A safe component is one component of a path.\<close>

lemma is_safe_plain: "is_safe s \<Longrightarrow> s \<noteq> [] \<and> s \<noteq> ''.'' \<and> s \<noteq> ''..'' \<and> CHR ''/'' \<notin> set s"
  by (auto simp: is_safe_def list_all_iff safe_char_def Let_def)

section \<open>Reading the environment\<close>

definition getenv_strip :: "environ \<Rightarrow> string \<Rightarrow> string \<Rightarrow> string" where
  "getenv_strip env name fallback = py_strip (case env name of None \<Rightarrow> fallback | Some s \<Rightarrow> s)"

definition positive_float :: "environ \<Rightarrow> string \<Rightarrow> string \<Rightarrow> pyfloat result" where
  "positive_float env name fallback =
     (case parse_float (getenv_strip env name fallback) of
        None \<Rightarrow> Inl (Value_Error (name @ '' must be a number''))
      | Some x \<Rightarrow> if flt_le x (Fin 0) then Inl (Value_Error (name @ '' must be > 0'')) else Inr x)"

definition env_integer :: "environ \<Rightarrow> string \<Rightarrow> string \<Rightarrow> int result" where
  "env_integer env name fallback =
     (case parse_int (getenv_strip env name fallback) of
        None \<Rightarrow> Inl (Value_Error (name @ '' must be an integer''))
      | Some i \<Rightarrow> Inr i)"

definition positive_int :: "environ \<Rightarrow> string \<Rightarrow> string \<Rightarrow> int result" where
  "positive_int env name fallback =
     rbind (env_integer env name fallback) (\<lambda>i.
       if i \<le> 0 then Inl (Value_Error (name @ '' must be > 0'')) else Inr i)"

definition bounded_positive_int :: "environ \<Rightarrow> string \<Rightarrow> string \<Rightarrow> int \<Rightarrow> int result" where
  "bounded_positive_int env name fallback maximum =
     rbind (positive_int env name fallback) (\<lambda>i.
       if maximum < i then Inl (Value_Error (name @ '' must be bounded'')) else Inr i)"

definition bounded_nonnegative_int :: "environ \<Rightarrow> string \<Rightarrow> string \<Rightarrow> int \<Rightarrow> int result" where
  "bounded_nonnegative_int env name fallback maximum =
     rbind (env_integer env name fallback) (\<lambda>i.
       if \<not> (0 \<le> i \<and> i \<le> maximum) then Inl (Value_Error (name @ '' must be bounded'')) else Inr i)"

definition env_choice :: "environ \<Rightarrow> string \<Rightarrow> string \<Rightarrow> string list \<Rightarrow> string result" where
  "env_choice env name fallback choices =
     (let s = py_lower (getenv_strip env name fallback)
      in if s \<in> set choices then Inr s else Inl (Value_Error (name @ '' must be one of the choices'')))"

record sink_config =
  sk_zmq_endpoint :: string
  sk_cache_root :: string
  sk_namespace :: string
  sk_segment_seconds :: pyfloat
  sk_shutdown_timeout :: pyfloat
  sk_regression_tolerance :: pyfloat
  sk_http_host :: string
  sk_http_port :: int
  sk_workers :: int
  sk_commit_slots :: int
  sk_group_limit :: int
  sk_file_sync_mode :: string
  sk_metadata_layout :: string
  sk_source_id :: "string option"
  sk_source_id_prefix :: "string option"
  sk_explicit_epoch :: string
  sk_epoch_state_path :: "string option"

definition or_none :: "string \<Rightarrow> string option" where
  "or_none s = (if s = [] then None else Some s)"

definition optional_component :: "string \<Rightarrow> string \<Rightarrow> string result" where
  "optional_component field_name s = (if s = [] then Inr [] else safe_component field_name s)"

definition max_workers :: int where "max_workers = 4"
definition max_commit_slots :: int where "max_commit_slots = 4"
definition max_group_limit :: int where "max_group_limit = 32"

definition sink_config_from_env :: "environ \<Rightarrow> sink_config result" where
  "sink_config_from_env env =
     (let endpoint = getenv_strip env ''ZMQ_ENDPOINT'' []
      in if endpoint = [] then Inl (Value_Error ''ZMQ_ENDPOINT is required'')
         else
          rbind (safe_component ''namespace'' (case env ''ROLLING_CACHE_NAMESPACE'' of None \<Rightarrow> ''midterm'' | Some s \<Rightarrow> s)) (\<lambda>namespace.
          rbind (optional_component ''runtime_epoch_id'' (getenv_strip env ''ROLLING_CACHE_RUNTIME_EPOCH_ID'' [])) (\<lambda>epoch.
          rbind (optional_component ''source_id'' (getenv_strip env ''SOURCE_ID'' [])) (\<lambda>source.
          rbind (positive_float env ''ROLLING_CACHE_SEGMENT_SECONDS'' ''4.0'') (\<lambda>seconds.
          rbind (positive_float env ''ROLLING_CACHE_SINK_SHUTDOWN_TIMEOUT_SECONDS'' ''20.0'') (\<lambda>shutdown.
          rbind (positive_float env ''ROLLING_CACHE_PTS_REGRESSION_TOLERANCE_SECONDS'' ''1.0'') (\<lambda>tolerance.
          rbind (positive_int env ''ROLLING_CACHE_SINK_HTTP_PORT'' ''8080'') (\<lambda>port.
          rbind (bounded_positive_int env ''ROLLING_CACHE_PUBLICATION_WORKERS'' ''1'' max_workers) (\<lambda>workers.
          rbind (bounded_nonnegative_int env ''ROLLING_CACHE_PUBLICATION_COMMIT_SLOTS'' ''0'' max_commit_slots) (\<lambda>slots.
          rbind (bounded_positive_int env ''ROLLING_CACHE_PUBLICATION_FINAL_PARENT_GROUP_LIMIT'' ''1'' max_group_limit) (\<lambda>group.
          rbind (env_choice env ''ROLLING_CACHE_PUBLICATION_FILE_SYNC_MODE'' ''fsync'' [''fsync'', ''fdatasync'']) (\<lambda>sync.
          rbind (env_choice env ''ROLLING_CACHE_PUBLICATION_METADATA_LAYOUT'' ''split''
                   [''split'', ''single_inode'', ''metadata_only'']) (\<lambda>layout.
            Inr \<lparr>sk_zmq_endpoint = endpoint,
                 sk_cache_root = (case env ''ROLLING_CACHE_ROOT'' of None \<Rightarrow> ''/media/rolling-cache'' | Some s \<Rightarrow> s),
                 sk_namespace = namespace, sk_segment_seconds = seconds, sk_shutdown_timeout = shutdown,
                 sk_regression_tolerance = tolerance,
                 sk_http_host = (let h = getenv_strip env ''ROLLING_CACHE_SINK_HTTP_HOST'' ''0.0.0.0''
                                 in if h = [] then ''0.0.0.0'' else h),
                 sk_http_port = port, sk_workers = workers, sk_commit_slots = slots, sk_group_limit = group,
                 sk_file_sync_mode = sync, sk_metadata_layout = layout,
                 sk_source_id = or_none source,
                 sk_source_id_prefix = or_none (getenv_strip env ''SOURCE_ID_PREFIX'' []),
                 sk_explicit_epoch = epoch,
                 sk_epoch_state_path = or_none (getenv_strip env ''RUNTIME_EPOCH_STATE_PATH'' [])\<rparr>)))))))))))))"

text \<open>What a configuration that was read guarantees; a NaN passes the test of positive floats.\<close>

definition sink_config_ok :: "sink_config \<Rightarrow> bool" where
  "sink_config_ok c \<longleftrightarrow>
     is_safe (sk_namespace c) \<and> (sk_explicit_epoch c = [] \<or> is_safe (sk_explicit_epoch c)) \<and>
     (case sk_source_id c of None \<Rightarrow> True | Some s \<Rightarrow> is_safe s) \<and>
     \<not> flt_le (sk_segment_seconds c) (Fin 0) \<and> 0 < sk_http_port c \<and>
     1 \<le> sk_workers c \<and> sk_workers c \<le> max_workers \<and>
     0 \<le> sk_commit_slots c \<and> sk_commit_slots c \<le> max_commit_slots \<and>
     1 \<le> sk_group_limit c \<and> sk_group_limit c \<le> max_group_limit \<and>
     sk_file_sync_mode c \<in> {''fsync'', ''fdatasync''} \<and>
     sk_metadata_layout c \<in> {''split'', ''single_inode'', ''metadata_only''}"

lemma env_bounds:
  "positive_float env n d = Inr x \<Longrightarrow> \<not> flt_le x (Fin 0)"
  "positive_int env n d = Inr i \<Longrightarrow> 0 < i"
  "bounded_positive_int env n d m = Inr i \<Longrightarrow> 1 \<le> i \<and> i \<le> m"
  "bounded_nonnegative_int env n d m = Inr i \<Longrightarrow> 0 \<le> i \<and> i \<le> m"
  "env_choice env n s cs = Inr t \<Longrightarrow> t \<in> set cs"
  "optional_component f s = Inr t \<Longrightarrow> t = [] \<or> is_safe t"
  "safe_component f s = Inr t \<Longrightarrow> is_safe t"
  by (auto simp: positive_float_def positive_int_def bounded_positive_int_def bounded_nonnegative_int_def
      env_choice_def optional_component_def safe_component_Inr rbind_Inr_iff Let_def
      split: option.splits if_splits)

theorem sink_config_from_env_ok:
  assumes "sink_config_from_env env = Inr c"
  shows "sink_config_ok c"
proof -
  have ne: "getenv_strip env ''ZMQ_ENDPOINT'' [] \<noteq> []" using assms by (auto simp: sink_config_from_env_def)
  show ?thesis
    using assms unfolding sink_config_from_env_def Let_def if_not_P [OF ne]
  proof (elim rbind_InrE, goal_cases)
    case 1
    show ?case
      using 1(1) [THEN env_bounds(7)] 1(2,3) [THEN env_bounds(6)] 1(4) [THEN env_bounds(1)] 1(7) [THEN env_bounds(2)]
        1(8,10) [THEN env_bounds(3)] 1(9) [THEN env_bounds(4)] 1(11,12) [THEN env_bounds(5)]
        1(13) [THEN sum.inject(2) [THEN iffD1], symmetric]
      by (auto simp: sink_config_ok_def or_none_def)
  qed
qed

section \<open>The epoch of a stream\<close>

record epoch_resolver =
  eo_explicit :: string
  eo_has_path :: bool
  eo_generated :: string
  eo_last_state :: string

definition epoch_resolver_init :: "string \<Rightarrow> bool \<Rightarrow> string \<Rightarrow> epoch_resolver result" where
  "epoch_resolver_init explicit has_path generated =
     rbind (optional_component ''runtime_epoch_id'' explicit) (\<lambda>e.
     rbind (safe_component ''runtime_epoch_id'' generated) (\<lambda>g.
       Inr \<lparr>eo_explicit = e, eo_has_path = has_path, eo_generated = g, eo_last_state = []\<rparr>))"

text \<open>The file of the epoch: unreadable or no JSON, or its value.\<close>

datatype epoch_read = Epoch_Unreadable | Epoch_Value pyval

definition keep_last :: "epoch_resolver \<Rightarrow> string" where
  "keep_last r = (if eo_last_state r \<noteq> [] then eo_last_state r else eo_generated r)"

definition current_epoch :: "(pyval \<Rightarrow> string) \<Rightarrow> epoch_read \<Rightarrow> epoch_resolver \<Rightarrow> string result \<times> epoch_resolver" where
  "current_epoch rp rd r =
     (if eo_explicit r \<noteq> [] then (Inr (eo_explicit r), r)
      else if \<not> eo_has_path r then (Inr (eo_generated r), r)
      else case rd of
             Epoch_Unreadable \<Rightarrow> (Inr (keep_last r), r)
           | Epoch_Value v \<Rightarrow>
               (case py_or v (PDict []) of
                  PDict d \<Rightarrow>
                    (let value = py_strip (py_str rp (py_or (pget d ''runtime_epoch_id'') (PStr [])))
                     in if value = [] then (Inr (eo_generated r), r)
                        else case safe_component ''runtime_epoch_id'' value of
                               Inl _ \<Rightarrow> (Inr (keep_last r), r)
                             | Inr e \<Rightarrow> (Inr e, r\<lparr>eo_last_state := e\<rparr>))
                | _ \<Rightarrow> (Inl (Runtime_Error ''AttributeError''), r)))"

definition resolver_ok :: "epoch_resolver \<Rightarrow> bool" where
  "resolver_ok r \<longleftrightarrow>
     (eo_explicit r = [] \<or> is_safe (eo_explicit r)) \<and> is_safe (eo_generated r) \<and>
     (eo_last_state r = [] \<or> is_safe (eo_last_state r))"

lemma epoch_resolver_init_ok: "epoch_resolver_init explicit has_path generated = Inr r \<Longrightarrow> resolver_ok r"
  by (auto simp: epoch_resolver_init_def rbind_Inr_iff resolver_ok_def is_safe_def dest: env_bounds)

lemma current_epoch_safe:
  assumes "resolver_ok r" "current_epoch rp rd r = (res, r')"
  shows "resolver_ok r'" "res = Inr e \<Longrightarrow> is_safe e"
  using assms
  by (auto simp: current_epoch_def resolver_ok_def keep_last_def safe_component_Inr Let_def
      split: if_splits epoch_read.splits pyval.splits sum.splits)

text \<open>
  A file that cannot be read keeps the epoch of the stream; one that is empty, or names none, does
  not: the stream moves to the generated epoch.
\<close>

lemma unreadable_epoch_is_kept:
  assumes "eo_explicit r = []" "eo_has_path r" "eo_last_state r \<noteq> []"
  shows "current_epoch rp Epoch_Unreadable r = (Inr (eo_last_state r), r)"
  using assms by (simp add: current_epoch_def keep_last_def)

lemma empty_epoch_file_moves_the_stream:
  assumes "eo_explicit r = []" "eo_has_path r" "pget d ''runtime_epoch_id'' = PNone"
  shows "current_epoch rp (Epoch_Value (PDict d)) r = (Inr (eo_generated r), r)"
  using assms by (cases d) (simp_all add: current_epoch_def py_or_def py_strip_def pget_def)

end
