(* ===== verification/Json.thy ===== *)
theory Json
  imports PyValue "HOL-Library.Word" "HOL-Library.Char_ord" "HOL-Library.List_Lexorder"
begin

text \<open>
  What the publishers and readers of journals use of \<open>json\<close> and \<open>zlib\<close>: \<open>json.dumps\<close> with
  the separators \<open>(",", ":")\<close> and \<open>ensure_ascii=False\<close>, with and without \<open>sort_keys\<close>,
  \<open>json.loads\<close>, and \<open>zlib.crc32\<close>.  Strings are ASCII, so that a text is its own encoding.  The
  text of a float is the argument \<open>ft\<close>.  The limit on the depth of the nesting is not modelled.
\<close>

section \<open>Writing\<close>

definition hex_digit :: "nat \<Rightarrow> char" where
  "hex_digit n = char_of (if n < 10 then 48 + n else 87 + n)"

definition escape_char :: "char \<Rightarrow> string" where
  "escape_char c =
     (let n = (of_char c :: nat)
      in if n = 34 then [CHR 0x5C, CHR 0x22]
         else if n = 92 then [CHR 0x5C, CHR 0x5C]
         else if n = 8 then [CHR 0x5C, CHR ''b'']
         else if n = 9 then [CHR 0x5C, CHR ''t'']
         else if n = 10 then [CHR 0x5C, CHR ''n'']
         else if n = 12 then [CHR 0x5C, CHR ''f'']
         else if n = 13 then [CHR 0x5C, CHR ''r'']
         else if n < 32 then [CHR 0x5C, CHR ''u'', CHR ''0'', CHR ''0'', hex_digit (n div 16), hex_digit (n mod 16)]
         else [c])"

definition json_string :: "string \<Rightarrow> string" where
  "json_string s = CHR 0x22 # concat (map escape_char s) @ [CHR 0x22]"

fun json_text :: "(pyfloat \<Rightarrow> string) \<Rightarrow> pyval \<Rightarrow> string" where
  "json_text ft PNone = ''null''"
| "json_text ft (PBool b) = (if b then ''true'' else ''false'')"
| "json_text ft (PInt i) = int_dec i"
| "json_text ft (PFloat x) = ft x"
| "json_text ft (PStr s) = json_string s"
| "json_text ft (PList vs) = CHR ''['' # py_join '','' (map (json_text ft) vs) @ '']''"
| "json_text ft (PDict d) =
     CHR ''{'' # py_join '','' (map (\<lambda>(k, v). json_string k @ CHR '':'' # json_text ft v) d) @ ''}''"

fun sort_keys :: "pyval \<Rightarrow> pyval" where
  "sort_keys (PList vs) = PList (map sort_keys vs)"
| "sort_keys (PDict d) = PDict (sort_key fst (map (\<lambda>(k, v). (k, sort_keys v)) d))"
| "sort_keys v = v"

section \<open>Reading\<close>

definition json_space :: "char \<Rightarrow> bool" where
  "json_space c \<longleftrightarrow> c \<in> {CHR '' '', CHR 0x09, CHR 0x0A, CHR 0x0D}"

definition skip_ws :: "string \<Rightarrow> string" where
  "skip_ws = dropWhile json_space"

definition hex_value :: "char \<Rightarrow> nat option" where
  "hex_value c =
     (let n = (of_char c :: nat)
      in if 48 \<le> n \<and> n \<le> 57 then Some (n - 48)
         else if 97 \<le> n \<and> n \<le> 102 then Some (n - 87)
         else if 65 \<le> n \<and> n \<le> 70 then Some (n - 55) else None)"

definition simple_escape :: "char \<Rightarrow> char option" where
  "simple_escape c =
     map_of [(CHR 0x22, CHR 0x22), (CHR 0x5C, CHR 0x5C), (CHR ''/'', CHR ''/''), (CHR ''b'', CHR 0x08),
             (CHR ''f'', CHR 0x0C), (CHR ''n'', CHR 0x0A), (CHR ''r'', CHR 0x0D), (CHR ''t'', CHR 0x09)] c"

definition unicode_escape :: "string \<Rightarrow> (char \<times> string) option" where
  "unicode_escape s =
     (case s of
        a # b # c # d # r \<Rightarrow>
          (case (hex_value a, hex_value b, hex_value c, hex_value d) of
             (Some w, Some x, Some y, Some z) \<Rightarrow>
               if w = 0 \<and> x = 0 then Some (char_of (16 * y + z), r) else None
           | _ \<Rightarrow> None)
      | _ \<Rightarrow> None)"

lemma unicode_escape_shorter: "unicode_escape s = Some (c, r) \<Longrightarrow> length r < length s"
  by (auto simp: unicode_escape_def split: list.splits option.splits if_splits)

text \<open>The characters of a string up to its closing quote, and the rest.\<close>

function string_body :: "string \<Rightarrow> (string \<times> string) option" where
  "string_body [] = None"
| "string_body (c # s) =
     (if c = CHR 0x22 then Some ([], s)
      else if c = CHR 0x5C
      then case s of
             [] \<Rightarrow> None
           | e # r \<Rightarrow>
               (case simple_escape e of
                  Some x \<Rightarrow> map_option (apfst (Cons x)) (string_body r)
                | None \<Rightarrow>
                    if e = CHR ''u''
                    then case unicode_escape r of
                           None \<Rightarrow> None
                         | Some (x, r1) \<Rightarrow> map_option (apfst (Cons x)) (string_body r1)
                    else None)
      else if (of_char c :: nat) < 32 then None
      else map_option (apfst (Cons c)) (string_body s))"
  by pat_completeness auto
termination
  by (relation "measure length") (auto dest!: unicode_escape_shorter)

definition fraction_part :: "string \<Rightarrow> string" where
  "fraction_part s =
     (case s of c # r \<Rightarrow> if c = CHR ''.'' \<and> takeWhile is_digit r \<noteq> [] then c # takeWhile is_digit r else []
      | [] \<Rightarrow> [])"

definition exponent_part :: "string \<Rightarrow> string" where
  "exponent_part s =
     (case s of
        c # r \<Rightarrow>
          if c = CHR ''e'' \<or> c = CHR ''E''
          then let sg = takeWhile (\<lambda>x. x = CHR ''-'' \<or> x = CHR ''+'') (take 1 r);
                   ds = takeWhile is_digit (drop (length sg) r)
               in if ds = [] then [] else c # sg @ ds
          else []
      | [] \<Rightarrow> [])"

definition json_number :: "string \<Rightarrow> (pyval \<times> string) option" where
  "json_number s =
     (let sg = (if starts_with ''-'' s then ''-'' else []);
          r = drop (length sg) s;
          ip = (if starts_with ''0'' r then ''0'' else takeWhile is_digit r);
          r1 = drop (length ip) r;
          fp = fraction_part r1;
          r2 = drop (length fp) r1;
          ep = exponent_part r2;
          r3 = drop (length ep) r2
      in if ip = [] then None
         else if fp = [] \<and> ep = [] then map_option (\<lambda>i. (PInt i, r3)) (parse_int (sg @ ip))
         else map_option (\<lambda>x. (PFloat x, r3)) (parse_float (sg @ ip @ fp @ ep)))"

definition json_atom :: "string \<Rightarrow> (pyval \<times> string) option" where
  "json_atom s =
     (if starts_with ''null'' s then Some (PNone, drop 4 s)
      else if starts_with ''true'' s then Some (PBool True, drop 4 s)
      else if starts_with ''false'' s then Some (PBool False, drop 5 s)
      else if starts_with ''NaN'' s then Some (PFloat NaN, drop 3 s)
      else if starts_with ''Infinity'' s then Some (PFloat PosInf, drop 8 s)
      else if starts_with ''-Infinity'' s then Some (PFloat NegInf, drop 9 s)
      else json_number s)"

text \<open>
  The values, items and members from the first character on; the fuel bounds the number of
  nested calls.
\<close>

fun json_value :: "nat \<Rightarrow> string \<Rightarrow> (pyval \<times> string) option"
  and json_items :: "nat \<Rightarrow> string \<Rightarrow> (pyval list \<times> string) option"
  and json_members :: "nat \<Rightarrow> string \<Rightarrow> ((string \<times> pyval) list \<times> string) option" where
  "json_value 0 s = None"
| "json_value (Suc f) s =
     (case s of
        [] \<Rightarrow> None
      | c # r \<Rightarrow>
          if c = CHR 0x22 then map_option (apfst PStr) (string_body r)
          else if c = CHR ''['' then
            (if starts_with '']'' (skip_ws r) then Some (PList [], tl (skip_ws r))
             else map_option (apfst PList) (json_items f (skip_ws r)))
          else if c = CHR ''{'' then
            (if starts_with ''}'' (skip_ws r) then Some (PDict [], tl (skip_ws r))
             else map_option (apfst (\<lambda>ms. PDict (fold (\<lambda>(k, v). dset k v) ms []))) (json_members f (skip_ws r)))
          else json_atom s)"
| "json_items 0 s = None"
| "json_items (Suc f) s =
     (case json_value f s of
        None \<Rightarrow> None
      | Some (v, r) \<Rightarrow>
          (case skip_ws r of
             [] \<Rightarrow> None
           | c # r1 \<Rightarrow>
               if c = CHR '']'' then Some ([v], r1)
               else if c = CHR '','' then map_option (apfst (Cons v)) (json_items f (skip_ws r1))
               else None))"
| "json_members 0 s = None"
| "json_members (Suc f) s =
     (if \<not> starts_with [CHR 0x22] s then None
      else case string_body (tl s) of
             None \<Rightarrow> None
           | Some (k, r) \<Rightarrow>
               if \<not> starts_with '':'' (skip_ws r) then None
               else (case json_value f (skip_ws (tl (skip_ws r))) of
                       None \<Rightarrow> None
                     | Some (v, r1) \<Rightarrow>
                         (case skip_ws r1 of
                            [] \<Rightarrow> None
                          | c # r2 \<Rightarrow>
                              if c = CHR ''}'' then Some ([(k, v)], r2)
                              else if c = CHR '','' then map_option (apfst (Cons (k, v))) (json_members f (skip_ws r2))
                              else None)))"

definition json_loads :: "string \<Rightarrow> pyval option" where
  "json_loads s =
     (case json_value (2 * length s + 1) (skip_ws s) of
        Some (v, r) \<Rightarrow> if skip_ws r = [] then Some v else None
      | None \<Rightarrow> None)"

section \<open>Checksums\<close>

fun crc_bits :: "nat \<Rightarrow> 32 word \<Rightarrow> 32 word" where
  "crc_bits 0 c = c"
| "crc_bits (Suc n) c = crc_bits n (if bit c 0 then xor 0xEDB88320 (drop_bit 1 c) else drop_bit 1 c)"

definition crc32 :: "string \<Rightarrow> 32 word" where
  "crc32 s = not (fold (\<lambda>b c. crc_bits 8 (xor c (of_nat (of_char b)))) s (- 1))"

definition hex8 :: "32 word \<Rightarrow> string" where
  "hex8 w = map (\<lambda>i. hex_digit (unat (and (drop_bit (4 * i) w) 15))) (rev [0..<8])"

end
