(* ===== verification/JsonRoundTrip.thy ===== *)
theory JsonRoundTrip
  imports Json
begin

text \<open>
  What is written is read back: the parser inverts the writer on values without floats whose
  dictionaries have no key twice, with and without sorted keys, and its fuel never runs out.
\<close>

section \<open>Strings and numbers\<close>

lemma hex_round_trip: "n < 16 \<Longrightarrow> hex_value (hex_digit n) = Some n"
  by (cases "n < 10") (auto simp: hex_value_def hex_digit_def Let_def)

lemma string_body_escape_char:
  "string_body (escape_char c @ r) = map_option (apfst (Cons c)) (string_body r)"
proof -
  define n where "n = (of_char c :: nat)"
  have c: "c = char_of n" by (simp add: n_def)
  have n: "n < 256" by (simp add: n_def)
  consider "n \<in> {34, 92, 8, 9, 10, 12, 13}"
    | "n < 32" "n \<notin> {8, 9, 10, 12, 13}" | "32 \<le> n" "n \<noteq> 34" "n \<noteq> 92"
    by (cases "n < 32") auto
  then show ?thesis
  proof cases
    case 1
    then have "c \<in> {CHR 0x22, CHR 0x5C, CHR 0x08, CHR 0x09, CHR 0x0A, CHR 0x0C, CHR 0x0D}"
      by (auto simp: c char_of_eq_iff)
    then show ?thesis by (elim insertE emptyE) (simp_all add: escape_char_def simple_escape_def)
  next
    case 2
    have "unicode_escape (CHR ''0'' # CHR ''0'' # hex_digit (n div 16) # hex_digit (n mod 16) # r) = Some (c, r)"
      using 2(1) hex_round_trip [of "n div 16"] hex_round_trip [of "n mod 16"]
      by (simp add: unicode_escape_def hex_value_def [of "CHR ''0''"] c)
    then show ?thesis using 2 by (simp add: escape_char_def Let_def simple_escape_def flip: n_def)
  next
    case 3
    then have "c \<noteq> CHR 0x22" "c \<noteq> CHR 0x5C" by (auto simp: n_def)
    then show ?thesis using 3 by (simp add: escape_char_def Let_def flip: n_def)
  qed
qed

lemma string_body_round_trip:
  "string_body (concat (map escape_char s) @ CHR 0x22 # r) = Some (s, r)"
  by (induction s) (simp_all add: string_body_escape_char)

text \<open>What may follow a number so that it is read up to its end.\<close>

definition closing :: "string \<Rightarrow> bool" where
  "closing r \<longleftrightarrow> r = [] \<or> hd r \<in> {CHR '','', CHR '']'', CHR ''}''}"

lemma closing_simps [simp]:
  "closing []" "closing (CHR '','' # r)" "closing (CHR '']'' # r)" "closing (CHR ''}'' # r)"
  by (simp_all add: closing_def)

lemma closing_parts: "closing r \<Longrightarrow> fraction_part r = [] \<and> exponent_part r = [] \<and> takeWhile is_digit r = []"
  by (cases r) (auto simp: closing_def fraction_part_def exponent_part_def is_digit_def)

lemma nat_dec_leading: "nat_dec n = CHR ''0'' # r \<Longrightarrow> n = 0 \<and> r = []"
proof (induction n arbitrary: r rule: nat_dec.induct)
  case (1 n)
  show ?case
  proof (cases "n < 10")
    case True
    then have "char_of (48 + n) = CHR ''0''" "r = []" using 1(2) by (simp_all add: nat_dec.simps [of n])
    moreover have "(of_char (char_of (48 + n)) :: nat) = 48 + n" using True by simp
    ultimately show ?thesis by simp
  next
    case False
    obtain c cs where c: "nat_dec (n div 10) = c # cs" using nat_dec_digits(2) by (cases "nat_dec (n div 10)") auto
    have "c = CHR ''0''" using 1(2) False c by (simp add: nat_dec.simps [of n])
    from 1(1) [OF False, of cs] c this have "n div 10 = 0" by simp
    then show ?thesis using False by simp
  qed
qed

lemma takeWhile_digits: "closing r \<Longrightarrow> takeWhile is_digit (nat_dec n @ r) = nat_dec n"
  using nat_dec_digits(1) [of n] closing_parts [of r] by (simp add: list_all_iff takeWhile_append)

lemma json_number_round_trip:
  assumes "closing r"
  shows "json_number (int_dec i @ r) = Some (PInt i, r)"
proof -
  define n where "n = nat \<bar>i\<bar>"
  define sg where "sg = (if i < 0 then ''-'' else [])"
  have i: "int_dec i = sg @ nat_dec n" by (auto simp: int_dec_def sg_def n_def)
  obtain c cs where c: "nat_dec n = c # cs" using nat_dec_digits(2) [of n] by (cases "nat_dec n") auto
  have "is_digit c" using nat_dec_digits(1) [of n] by (simp add: c)
  then have no_sign: "c \<noteq> CHR ''-''" by (auto simp: is_digit_def)
  have sign: "(if starts_with ''-'' (int_dec i @ r) then ''-'' else []) = sg"
    using no_sign by (simp add: i sg_def c)
  have ip: "(if starts_with ''0'' (nat_dec n @ r) then ''0'' else takeWhile is_digit (nat_dec n @ r)) = nat_dec n"
  proof (cases "c = CHR ''0''")
    case True
    then have "cs = []" using nat_dec_leading [of n cs] by (simp add: c)
    then have "nat_dec n = ''0''" using True by (simp only: c)
    then show ?thesis by simp
  next
    case False
    have "takeWhile is_digit (nat_dec n @ r) = nat_dec n" by (rule takeWhile_digits [OF assms])
    then show ?thesis using False by (simp add: c)
  qed
  have parts: "drop (length sg) (int_dec i @ r) = nat_dec n @ r" "sg @ nat_dec n = int_dec i"
    "drop (length (nat_dec n)) (nat_dec n @ r) = r" "nat_dec n \<noteq> []"
    by (simp_all add: i c)
  show ?thesis
    unfolding json_number_def Let_def sign parts(1) ip parts(3)
    using closing_parts [OF assms] parts(2,4) by (simp add: int_dec_round_trip)
qed

section \<open>Values\<close>

fun plain_json :: "pyval \<Rightarrow> bool" where
  "plain_json (PFloat _) = False"
| "plain_json (PList vs) = list_all plain_json vs"
| "plain_json (PDict d) = (distinct (map fst d) \<and> list_all (\<lambda>(_, v). plain_json v) d)"
| "plain_json _ = True"

fun json_need :: "pyval \<Rightarrow> nat" where
  "json_need (PList vs) = Suc (sum_list (map (\<lambda>v. Suc (json_need v)) vs))"
| "json_need (PDict d) = Suc (sum_list (map (\<lambda>(_, v). Suc (json_need v)) d))"
| "json_need _ = 1"

lemma int_dec_head: "\<exists>c cs. int_dec i = c # cs \<and> (c = CHR ''-'' \<or> is_digit c) \<and> (c = CHR ''-'' \<longrightarrow> cs \<noteq> [] \<and> is_digit (hd cs))"
proof -
  have "nat_dec n \<noteq> [] \<and> is_digit (hd (nat_dec n))" for n
    using nat_dec_digits [of n] by (cases "nat_dec n") auto
  moreover have "\<not> is_digit CHR ''-''" by (simp add: is_digit_def)
  ultimately show ?thesis by (metis int_dec_def list.exhaust_sel)
qed

lemma json_text_head:
  "plain_json v \<Longrightarrow> \<exists>c cs. json_text ft v = c # cs \<and> \<not> json_space c \<and> c \<noteq> CHR '']''"
proof (cases v)
  case (PInt i)
  from int_dec_head [of i] obtain c cs where i: "int_dec i = c # cs" "c = CHR ''-'' \<or> is_digit c" by blast
  then have "\<not> json_space c" "c \<noteq> CHR '']''" by (auto simp: json_space_def is_digit_def)
  then show ?thesis using i(1) by (simp add: PInt)
qed (auto simp: json_space_def json_string_def)

lemma skip_ws_text [simp]: "plain_json v \<Longrightarrow> skip_ws (json_text ft v @ r) = json_text ft v @ r"
  using json_text_head [of v ft] by (auto simp: skip_ws_def)

lemma skip_ws_quote [simp]: "skip_ws (json_string s @ r) = json_string s @ r"
  by (simp add: skip_ws_def json_string_def json_space_def)

lemma skip_ws_mark [simp]:
  "c \<in> {CHR '','', CHR '']'', CHR ''}'', CHR '':''} \<Longrightarrow> skip_ws (c # r) = c # r"
  by (auto simp: skip_ws_def json_space_def)

lemma skip_ws_closing [simp]: "closing r \<Longrightarrow> skip_ws r = r"
  by (cases r) (auto simp: closing_def skip_ws_def json_space_def)

text \<open>The elements of a list and the members of a dictionary, given their values.\<close>

lemma json_items_round_trip:
  assumes "\<And>v f r. v \<in> set vs \<Longrightarrow> json_need v \<le> f \<Longrightarrow> closing r \<Longrightarrow> json_value f (json_text ft v @ r) = Some (v, r)"
    and "list_all plain_json vs" "vs \<noteq> []" "sum_list (map (\<lambda>v. Suc (json_need v)) vs) \<le> f"
  shows "json_items f (py_join '','' (map (json_text ft) vs) @ CHR '']'' # r) = Some (vs, r)"
  using assms
proof (induction vs arbitrary: f)
  case (Cons v vs)
  obtain f' where f: "f = Suc f'" using Cons.prems(4) by (cases f) auto
  have v: "json_value f' (json_text ft v @ s) = Some (v, s)" if "closing s" for s
    using Cons.prems(1) [of v f' s] Cons.prems(4) that by (simp add: f)
  show ?case
  proof (cases vs)
    case Nil
    then show ?thesis using v [of "CHR '']'' # r"] by (simp add: f)
  next
    case (Cons w ws)
    have "json_items f' (py_join '','' (map (json_text ft) vs) @ CHR '']'' # r) = Some (vs, r)"
      using Cons.IH [of f'] Cons.prems Cons by (simp add: f)
    moreover have "skip_ws (py_join '','' (map (json_text ft) vs) @ CHR '']'' # r) =
        py_join '','' (map (json_text ft) vs) @ CHR '']'' # r"
      using Cons.prems(2) Cons by (cases ws) simp_all
    moreover have "py_join '','' (map (json_text ft) (v # vs)) @ CHR '']'' # r =
        json_text ft v @ CHR '','' # py_join '','' (map (json_text ft) vs) @ CHR '']'' # r"
      using Cons by simp
    ultimately show ?thesis using v by (simp add: f)
  qed
qed simp

lemma json_members_round_trip:
  assumes "\<And>k v f r. (k, v) \<in> set d \<Longrightarrow> json_need v \<le> f \<Longrightarrow> closing r \<Longrightarrow>
      json_value f (json_text ft v @ r) = Some (v, r)"
    and "list_all (\<lambda>(_, v). plain_json v) d" "d \<noteq> []"
    and "sum_list (map (\<lambda>(_, v). Suc (json_need v)) d) \<le> f"
  shows "json_members f (py_join '','' (map (\<lambda>(k, v). json_string k @ CHR '':'' # json_text ft v) d) @ CHR ''}'' # r) =
    Some (d, r)"
  using assms
proof (induction d arbitrary: f)
  case (Cons kv d)
  obtain k v where kv: "kv = (k, v)" by (cases kv)
  obtain f' where f: "f = Suc f'" using Cons.prems(4) by (cases f) (auto simp: kv)
  have v: "json_value f' (json_text ft v @ s) = Some (v, s)" if "closing s" for s
    using Cons.prems(1) [of k v f' s] Cons.prems(4) that by (simp add: f kv)
  have plain: "plain_json v" using Cons.prems(2) by (simp add: kv)
  have k: "starts_with [CHR 0x22] (json_string k @ s)" "string_body (tl (json_string k @ s)) = Some (k, s)" for s
    using string_body_round_trip [of k s] by (simp_all add: json_string_def)
  show ?case
  proof (cases d)
    case Nil
    then show ?thesis using v [of "CHR ''}'' # r"] k plain by (simp add: f kv)
  next
    case (Cons w ws)
    let ?rest = "py_join '','' (map (\<lambda>(k, v). json_string k @ CHR '':'' # json_text ft v) d) @ CHR ''}'' # r"
    have "json_members f' ?rest = Some (d, r)"
    proof (rule Cons.IH)
      show "\<And>k v f r. (k, v) \<in> set d \<Longrightarrow> json_need v \<le> f \<Longrightarrow> closing r \<Longrightarrow>
          json_value f (json_text ft v @ r) = Some (v, r)"
        using Cons.prems(1) by (meson list.set_intros(2))
    qed (use Cons.prems Cons in \<open>simp_all add: f kv\<close>)
    moreover have "skip_ws ?rest = ?rest"
      using Cons by (cases ws) (simp_all add: case_prod_beta)
    moreover have "py_join '','' (map (\<lambda>(k, v). json_string k @ CHR '':'' # json_text ft v) (kv # d)) @ CHR ''}'' # r =
        json_string k @ CHR '':'' # json_text ft v @ CHR '','' # ?rest"
      using Cons by (simp add: kv)
    ultimately show ?thesis using v [of "CHR '','' # ?rest"] k plain by (simp add: f kv)
  qed
qed simp

lemma dset_new: "dget d k = None \<Longrightarrow> dset k v d = d @ [(k, v)]"
  by (induction d) (auto split: if_splits)

lemma fold_dset_new:
  "distinct (map fst acc @ map fst d) \<Longrightarrow> fold (\<lambda>(k, v). dset k v) d acc = acc @ d"
proof (induction d arbitrary: acc)
  case (Cons kv d)
  obtain k v where kv: "kv = (k, v)" by (cases kv)
  have "dget acc k = None" using Cons.prems by (simp add: kv map_of_eq_None_iff)
  then have "dset k v acc = acc @ [(k, v)]" by (rule dset_new)
  then show ?case using Cons.IH [of "acc @ [(k, v)]"] Cons.prems by (simp add: kv)
qed simp

lemma json_atom_number:
  assumes "c = CHR ''-'' \<or> is_digit c" "c = CHR ''-'' \<longrightarrow> cs \<noteq> [] \<and> is_digit (hd cs)"
  shows "json_atom (c # cs) = json_number (c # cs)"
proof -
  have "c \<noteq> CHR ''n''" "c \<noteq> CHR ''t''" "c \<noteq> CHR ''f''" "c \<noteq> CHR ''N''" "c \<noteq> CHR ''I''"
    using assms(1) by (auto simp: is_digit_def)
  then have head: "\<not> starts_with ''null'' (c # cs)" "\<not> starts_with ''true'' (c # cs)"
    "\<not> starts_with ''false'' (c # cs)" "\<not> starts_with ''NaN'' (c # cs)" "\<not> starts_with ''Infinity'' (c # cs)"
    by (metis starts_with.simps(3))+
  have "\<not> starts_with ''-Infinity'' (c # cs)"
  proof (cases cs)
    case (Cons d ds)
    have "c = CHR ''-'' \<Longrightarrow> d \<noteq> CHR ''I''" using assms(2) by (auto simp: Cons is_digit_def)
    then show ?thesis unfolding Cons by (metis starts_with.simps(3))
  qed simp
  with head show ?thesis by (simp only: json_atom_def if_False)
qed

theorem json_value_round_trip:
  "plain_json v \<Longrightarrow> json_need v \<le> f \<Longrightarrow> closing r \<Longrightarrow> json_value f (json_text ft v @ r) = Some (v, r)"
proof (induction ft v arbitrary: f r rule: json_text.induct)
  case (3 ft i)
  obtain c ds where ds: "int_dec i = c # ds" "c = CHR ''-'' \<or> is_digit c"
      "c = CHR ''-'' \<longrightarrow> ds \<noteq> [] \<and> is_digit (hd ds)"
    using int_dec_head [of i] by blast
  define cs where "cs = ds @ r"
  have i: "int_dec i @ r = c # cs" "c = CHR ''-'' \<or> is_digit c" "c = CHR ''-'' \<longrightarrow> cs \<noteq> [] \<and> is_digit (hd cs)"
    using ds by (simp_all add: cs_def)
  have "json_atom (c # cs) = json_number (c # cs)" using i(2,3) by (rule json_atom_number)
  moreover have "c \<notin> {CHR 0x22, CHR ''['', CHR ''{''}" using i(2) by (auto simp: is_digit_def)
  moreover have "json_number (c # cs) = Some (PInt i, r)"
    using json_number_round_trip [OF 3(3), of i] unfolding i(1) .
  moreover obtain f' where "f = Suc f'" using 3(2) by (cases f) simp_all
  ultimately show ?case unfolding json_text.simps i(1) by simp
next
  case (5 ft s)
  obtain f' where "f = Suc f'" using 5 by (cases f) auto
  then show ?case using string_body_round_trip [of s r] by (simp add: json_string_def)
next
  case (6 ft vs)
  obtain f' where f: "f = Suc f'" using 6 by (cases f) auto
  show ?case
  proof (cases "vs = []")
    case False
    have "json_items f' (py_join '','' (map (json_text ft) vs) @ CHR '']'' # r) = Some (vs, r)"
      by (rule json_items_round_trip) (use 6 False f in \<open>auto simp: list_all_iff\<close>)
    moreover obtain c cs where "py_join '','' (map (json_text ft) vs) @ CHR '']'' # r = c # cs" "\<not> json_space c" "c \<noteq> CHR '']''"
      using 6(2) False json_text_head [of "hd vs" ft] by (cases vs; cases "tl vs") auto
    ultimately show ?thesis by (simp add: f skip_ws_def)
  qed (simp add: f)
next
  case (7 ft d)
  obtain f' where f: "f = Suc f'" using 7 by (cases f) auto
  show ?case
  proof (cases "d = []")
    case False
    have "json_members f' (py_join '','' (map (\<lambda>(k, v). json_string k @ CHR '':'' # json_text ft v) d) @ CHR ''}'' # r) =
        Some (d, r)"
      by (rule json_members_round_trip) (use 7 False f in \<open>auto simp: list_all_iff\<close>)
    moreover obtain cs where "py_join '','' (map (\<lambda>(k, v). json_string k @ CHR '':'' # json_text ft v) d) @ CHR ''}'' # r =
        CHR 0x22 # cs"
      using False by (cases d; cases "tl d") (auto simp: json_string_def)
    moreover have "fold (\<lambda>(k, v). dset k v) d [] = d" using fold_dset_new [of "[]" d] 7(2) by simp
    ultimately show ?thesis by (simp add: f skip_ws_def json_space_def)
  qed (simp add: f)
qed (auto simp: json_atom_def gr0_conv_Suc Suc_le_eq)

lemma int_dec_length: "1 \<le> length (int_dec i)"
  using int_dec_head [of i] by auto

lemma py_join_length: "length (py_join '','' ss) + 1 = sum_list (map (\<lambda>s. Suc (length s)) ss) + (if ss = [] then 1 else 0)"
  by (induction "'',''" ss rule: py_join.induct) auto

lemma json_need_length: "plain_json v \<Longrightarrow> json_need v \<le> length (json_text ft v)"
proof (induction ft v rule: json_text.induct)
  case (6 ft vs)
  have "sum_list (map (\<lambda>v. Suc (json_need v)) vs) \<le> sum_list (map (\<lambda>v. Suc (length (json_text ft v))) vs)"
    by (rule sum_list_mono) (use 6 in \<open>auto simp: list_all_iff\<close>)
  then show ?case using py_join_length [of "map (json_text ft) vs"]
    by (auto simp: o_def split: if_splits)
next
  case (7 ft d)
  let ?m = "\<lambda>(k, v). json_string k @ CHR '':'' # json_text ft v"
  have "sum_list (map (\<lambda>(k, v). Suc (json_need v)) d) \<le> sum_list (map (\<lambda>kv. Suc (length (?m kv))) d)"
    by (rule sum_list_mono) (use 7 in \<open>fastforce simp: list_all_iff\<close>)
  then show ?case using py_join_length [of "map ?m d"]
    by (auto simp: o_def split: if_splits)
qed (use int_dec_length in \<open>auto simp: json_string_def\<close>)

theorem json_round_trip: "plain_json v \<Longrightarrow> json_loads (json_text ft v) = Some v"
proof -
  assume v: "plain_json v"
  have "json_value (2 * length (json_text ft v) + 1) (json_text ft v @ []) = Some (v, [])"
    by (rule json_value_round_trip) (use v json_need_length [OF v, of ft] in simp_all)
  moreover have "skip_ws (json_text ft v) = json_text ft v" using skip_ws_text [OF v, of ft "[]"] by simp
  ultimately show ?thesis by (simp add: json_loads_def skip_ws_def)
qed

section \<open>Sorted keys\<close>

lemma sort_keys_plain: "plain_json v \<Longrightarrow> plain_json (sort_keys v)"
  by (induction v rule: sort_keys.induct)
    (auto simp: list_all_iff distinct_map inj_on_def case_prod_beta)

text \<open>Sorting forgets the order of the insertions, so the sorted text of a dictionary is canonical.\<close>

lemma sort_keys_canonical:
  assumes "mset d = mset d'" "distinct (map fst d)"
  shows "sort_keys (PDict d) = sort_keys (PDict d')"
proof -
  let ?s = "\<lambda>(k, v). (k, sort_keys v)"
  have fst: "map fst (map ?s d) = map fst d" by (simp add: case_prod_beta)
  have "sort_key fst (map ?s d) = sort_key fst (map ?s d')"
  proof (rule sort_key_inj_key_eq)
    show "mset (map ?s d) = mset (sort_key fst (map ?s d'))" by (simp only: mset_sort mset_map assms(1))
    have "distinct (map fst (map ?s d))" using assms(2) by (simp only: fst)
    then show "inj_on fst (set (map ?s d))" by (simp only: distinct_map)
  qed simp
  then show ?thesis by simp
qed

lemma sort_keys_idem: "plain_json v \<Longrightarrow> sort_keys (sort_keys v) = sort_keys v"
proof (induction v rule: sort_keys.induct)
  case (2 d)
  let ?s = "\<lambda>(k, v). (k, sort_keys v)"
  have id: "map ?s (sort_key fst (map ?s d)) = sort_key fst (map ?s d)"
    by (rule map_idI) (use 2 in \<open>auto simp: list_all_iff\<close>)
  show ?case unfolding sort_keys.simps id by (simp add: sort_key_id_if_sorted)
qed (auto simp: list_all_iff)

section \<open>The fuel\<close>

text \<open>What the parser leaves is shorter than what it was given, and more fuel changes nothing.\<close>

lemma string_body_shorter: "string_body s = Some (k, r) \<Longrightarrow> length r < length s"
  by (induction s arbitrary: k r rule: string_body.induct)
    (force split: if_splits list.splits option.splits dest: unicode_escape_shorter)+

lemma json_number_shorter: "json_number s = Some (v, r) \<Longrightarrow> length r < length s"
proof -
  assume s: "json_number s = Some (v, r)"
  define sg where "sg = (if starts_with ''-'' s then ''-'' else [])"
  define t where "t = drop (length sg) s"
  define ip where "ip = (if starts_with ''0'' t then ''0'' else takeWhile is_digit t)"
  have ne: "ip \<noteq> []" and r: "length r \<le> length (drop (length ip) t)"
    using s unfolding json_number_def Let_def sg_def [symmetric] t_def [symmetric] ip_def [symmetric]
    by (auto split: if_splits)
  have "length ip \<le> length t"
    by (auto simp: ip_def length_takeWhile_le starts_with_iff)
  then have "length (drop (length ip) t) < length s" using ne by (cases ip) (auto simp: t_def)
  then show ?thesis using r by simp
qed

lemma skip_ws_length: "length (skip_ws s) \<le> length s"
  by (simp add: skip_ws_def length_dropWhile_le)

lemma json_atom_shorter: "json_atom s = Some (v, r) \<Longrightarrow> length r < length s"
  by (auto simp: json_atom_def starts_with_iff json_number_shorter split: if_splits)

lemma json_shorter:
  "json_value f s = Some (v, r) \<Longrightarrow> length r < length s"
  "json_items f s = Some (vs, r) \<Longrightarrow> length r < length s"
  "json_members f s = Some (ms, r) \<Longrightarrow> length r < length s"
proof (induction f s and f s and f s arbitrary: v r and vs r and ms r
    rule: json_value_json_items_json_members.induct)
  case (2 f s)
  obtain c t where s: "s = c # t" using 2(3) by (cases s) auto
  have t: "length (tl (skip_ws t)) \<le> length t" using skip_ws_length [of t] by simp
  show ?case using 2 t skip_ws_length [of t] string_body_shorter [of t] json_atom_shorter [of s v r]
    by (fastforce simp: s split: if_splits)
next
  case (4 f s)
  obtain w q where w: "json_value f s = Some (w, q)" using 4(3) by (auto split: option.splits)
  obtain c t where q: "skip_ws q = c # t" using 4(3) w by (auto split: list.splits)
  have "length q < length s" using 4(1) w by blast
  moreover have "length t < length q" using skip_ws_length [of q] q by simp
  moreover have "length (skip_ws t) \<le> length t" by (rule skip_ws_length)
  ultimately show ?case using 4(2,3) w q by (fastforce split: if_splits)
next
  case (6 f s)
  have start: "starts_with [CHR 0x22] s" using 6(3) by (auto split: if_splits)
  obtain k q where k: "string_body (tl s) = Some (k, q)" using 6(3) start by (auto split: option.splits)
  have colon: "starts_with '':'' (skip_ws q)" using 6(3) start k by (auto split: if_splits)
  obtain w p where w: "json_value f (skip_ws (tl (skip_ws q))) = Some (w, p)"
    using 6(3) start k colon by (auto split: option.splits)
  obtain c t where p: "skip_ws p = c # t" using 6(3) start k colon w by (auto split: list.splits)
  have "length q < length s" using string_body_shorter [OF k] by simp
  moreover have "length p < length (skip_ws (tl (skip_ws q)))" using 6(1) start k colon w by blast
  moreover have "length (skip_ws (tl (skip_ws q))) \<le> length q"
    using skip_ws_length [of q] skip_ws_length [of "tl (skip_ws q)"] by simp
  moreover have "length t < length p" using skip_ws_length [of p] p by simp
  moreover have "length (skip_ws t) \<le> length t" by (rule skip_ws_length)
  ultimately show ?case using 6(2,3) start k colon w p by (fastforce split: if_splits)
qed auto

text \<open>Twice the length of the text is fuel enough for a value, one more for items and members.\<close>

lemma json_fuel:
  "2 * length s < f \<Longrightarrow> f \<le> g \<Longrightarrow> json_value g s = json_value f s"
  "2 * length s + 1 < f \<Longrightarrow> f \<le> g \<Longrightarrow> json_items g s = json_items f s"
  "2 * length s + 1 < f \<Longrightarrow> f \<le> g \<Longrightarrow> json_members g s = json_members f s"
proof (induction f s and f s and f s arbitrary: g and g and g
    rule: json_value_json_items_json_members.induct)
  case (2 f s)
  obtain g' where g: "g = Suc g'" "f \<le> g'" using 2(4) by (cases g) auto
  show ?case
  proof (cases s)
    case (Cons c t)
    have len: "2 * length (skip_ws t) + 1 < f" using 2(3) skip_ws_length [of t] by (simp add: Cons)
    have items: "json_items g' (skip_ws t) = json_items f (skip_ws t)"
      if "c = CHR ''[''" "\<not> starts_with '']'' (skip_ws t)"
      by (rule 2(1)) (use that len g(2) in \<open>simp_all add: Cons\<close>)
    have members: "json_members g' (skip_ws t) = json_members f (skip_ws t)"
      if "c = CHR ''{''" "\<not> starts_with ''}'' (skip_ws t)"
      by (rule 2(2)) (use that len g(2) in \<open>simp_all add: Cons\<close>)
    consider "c = CHR ''[''" | "c = CHR ''{''" | "c \<noteq> CHR ''[''" "c \<noteq> CHR ''{''" by blast
    then show ?thesis
    proof cases
      case 1
      then show ?thesis unfolding Cons g(1) json_value.simps list.case by (simp add: items)
    next
      case 2
      then show ?thesis unfolding Cons g(1) json_value.simps list.case by (simp add: members)
    next
      case 3
      show ?thesis unfolding Cons g(1) json_value.simps list.case if_not_P [OF 3(1)] if_not_P [OF 3(2)] by (rule refl)
    qed
  qed (simp add: g)
next
  case (4 f s)
  obtain g' where g: "g = Suc g'" "f \<le> g'" using 4(4) by (cases g) auto
  have v: "json_value g' s = json_value f s" by (rule 4(1)) (use 4(3) g(2) in simp_all)
  show ?case
  proof (cases "json_value f s")
    case (Some vr)
    obtain w q where w: "vr = (w, q)" by (cases vr)
    have q: "length q < length s" using json_shorter(1) Some by (simp add: w)
    have "json_items g' (skip_ws t) = json_items f (skip_ws t)" if "skip_ws q = CHR '','' # t" for t
    proof (rule 4(2))
      have "length t < length q" using skip_ws_length [of q] that by simp
      then show "2 * length (skip_ws t) + 1 < f" using q 4(3) skip_ws_length [of t] by simp
    qed (use Some w that g in simp_all)
    then show ?thesis unfolding g(1) json_items.simps v Some w by (auto split: list.split)
  qed (simp add: g v)
next
  case (6 f s)
  obtain g' where g: "g = Suc g'" "f \<le> g'" using 6(4) by (cases g) auto
  show ?case
  proof (cases "starts_with [CHR 0x22] s")
    case start: True
    show ?thesis
    proof (cases "string_body (tl s)")
      case (Some kr)
      obtain k q where k: "kr = (k, q)" by (cases kr)
      have q: "length q < length s" using string_body_shorter Some by (fastforce simp: k)
      define u where "u = skip_ws (tl (skip_ws q))"
      have u: "length u \<le> length q"
        using skip_ws_length [of q] skip_ws_length [of "tl (skip_ws q)"] by (simp add: u_def)
      have v: "json_value g' u = json_value f u" if "starts_with '':'' (skip_ws q)"
        unfolding u_def by (rule 6(1)) (use start Some k that g(2) 6(3) q u in \<open>simp_all add: u_def\<close>)
      have "json_members g' (skip_ws t) = json_members f (skip_ws t)"
        if "starts_with '':'' (skip_ws q)" "json_value f u = Some (w, p)" "skip_ws p = CHR '','' # t" for w p t
      proof (rule 6(2))
        have "length p < length u" using json_shorter(1) that(2) by blast
        moreover have "length t < length p" using skip_ws_length [of p] that by simp
        ultimately show "2 * length (skip_ws t) + 1 < f" using q u 6(3) skip_ws_length [of t] by simp
      qed (use start Some k that g in \<open>simp_all add: u_def\<close>)
      then show ?thesis using v start
        unfolding g(1) json_members.simps Some k u_def [symmetric]
        by (auto simp flip: u_def split: option.split list.split)
    qed (simp add: g start)
  qed (simp add: g)
qed auto

theorem json_loads_fuel:
  "2 * length s + 1 \<le> f \<Longrightarrow>
   json_loads s = (case json_value f (skip_ws s) of
     Some (v, r) \<Rightarrow> if skip_ws r = [] then Some v else None | None \<Rightarrow> None)"
  using json_fuel(1) [of "skip_ws s" "2 * length s + 1" f] skip_ws_length [of s]
  by (simp add: json_loads_def)

end
