(* ===== verification/SegmentRows.thy ===== *)
theory SegmentRows
  imports PyValue
begin

text \<open>
  The cache of the parsed rows of the segments (segment_index.py, \<open>rows_for_segment\<close>,
  \<open>_remember_rows\<close> and the part of \<open>_remove_entry\<close> that forgets rows): an ordered dictionary,
  the least recently used entry first, bounded in entries and in bytes.
\<close>

section \<open>Paths and identities of files\<close>

text \<open>An absolute path is the list of its components.\<close>

type_synonym path = "string list"

record file_identity =
  fi_device :: int
  fi_inode :: int
  fi_size :: int
  fi_mtime_ns :: int

section \<open>The cache\<close>

type_synonym 'row cached_rows = "'row list \<times> int"

record 'row row_cache =
  ro_entries :: "((path \<times> file_identity) \<times> 'row cached_rows) list"
  ro_size_bytes :: int
  ro_evictions :: nat
  ro_byte_evictions :: nat
  ro_hits :: nat
  ro_misses :: nat

record row_limits =
  rl_max_entries :: nat
  rl_max_bytes :: int

definition row_limits_of :: "int \<Rightarrow> int \<Rightarrow> row_limits" where
  "row_limits_of entries bytes =
     \<lparr>rl_max_entries = nat (max 1 entries), rl_max_bytes = max 1 bytes\<rparr>"

definition empty_rows :: "'row row_cache" where
  "empty_rows = \<lparr>ro_entries = [], ro_size_bytes = 0, ro_evictions = 0, ro_byte_evictions = 0,
                 ro_hits = 0, ro_misses = 0\<rparr>"

text \<open>\<open>OrderedDict.move_to_end\<close>, and the insertion of a key that has been removed before.\<close>

definition to_end :: "'k \<Rightarrow> 'v \<Rightarrow> ('k \<times> 'v) list \<Rightarrow> ('k \<times> 'v) list" where
  "to_end k v d = dpop k d @ [(k, v)]"

definition over_limits :: "row_limits \<Rightarrow> 'row row_cache \<Rightarrow> bool" where
  "over_limits lm c \<longleftrightarrow>
     rl_max_entries lm < length (ro_entries c) \<or> rl_max_bytes lm < ro_size_bytes c"

text \<open>The loop that evicts from the front; the dictionary shrinks with every turn.\<close>

fun evict_rows ::
  "row_limits \<Rightarrow> ((path \<times> file_identity) \<times> 'row cached_rows) list \<Rightarrow> 'row row_cache \<Rightarrow> 'row row_cache" where
  "evict_rows lm [] c = c\<lparr>ro_entries := []\<rparr>"
| "evict_rows lm ((k, rows, n) # es) c =
     (if over_limits lm (c\<lparr>ro_entries := (k, rows, n) # es\<rparr>)
      then evict_rows lm es
             (c\<lparr>ro_size_bytes := ro_size_bytes c - n, ro_evictions := ro_evictions c + 1,
                ro_byte_evictions := ro_byte_evictions c +
                  (if rl_max_bytes lm < ro_size_bytes c then 1 else 0)\<rparr>)
      else c\<lparr>ro_entries := (k, rows, n) # es\<rparr>)"

definition cached_size :: "(path \<times> file_identity) \<Rightarrow> 'row row_cache \<Rightarrow> int" where
  "cached_size k c = (case dget (ro_entries c) k of None \<Rightarrow> 0 | Some (_, n) \<Rightarrow> n)"

definition remember_rows ::
  "row_limits \<Rightarrow> path \<Rightarrow> file_identity \<Rightarrow> 'row list \<Rightarrow> 'row row_cache \<Rightarrow> 'row row_cache" where
  "remember_rows lm p i rows c =
     (let n = max 1 (fi_size i);
          es = to_end (p, i) (rows, n) (ro_entries c)
      in evict_rows lm es (c\<lparr>ro_size_bytes := ro_size_bytes c - cached_size (p, i) c + n\<rparr>))"

text \<open>\<open>_remove_entry\<close>: all generations of the rows of a metadata file are dropped.\<close>

definition forget_rows :: "path \<Rightarrow> 'row row_cache \<Rightarrow> 'row row_cache" where
  "forget_rows p c =
     c\<lparr>ro_entries := filter (\<lambda>(k, _). fst k \<noteq> p) (ro_entries c),
       ro_size_bytes := ro_size_bytes c
         - sum_list (map (\<lambda>(_, _, n). n) (filter (\<lambda>(k, _). fst k = p) (ro_entries c)))\<rparr>"

text \<open>
  \<open>rows_for_segment\<close>: \<open>stat\<close> gives the identity of the file, \<open>parse\<close> its rows; both may raise.
\<close>

definition rows_for_segment ::
  "row_limits \<Rightarrow> (path \<Rightarrow> file_identity result) \<Rightarrow> (path \<Rightarrow> 'row list result) \<Rightarrow> path \<Rightarrow>
   'row row_cache \<Rightarrow> 'row list result \<times> 'row row_cache" where
  "rows_for_segment lm stat parse p c =
     (case stat p of
        Inl e \<Rightarrow> (Inl e, c)
      | Inr i \<Rightarrow>
          (case dget (ro_entries c) (p, i) of
             Some (rows, n) \<Rightarrow>
               (Inr rows, c\<lparr>ro_entries := to_end (p, i) (rows, n) (ro_entries c), ro_hits := ro_hits c + 1\<rparr>)
           | None \<Rightarrow>
               (let c1 = c\<lparr>ro_misses := ro_misses c + 1\<rparr>
                in case parse p of
                     Inl e \<Rightarrow> (Inl e, c1)
                   | Inr rows \<Rightarrow> (Inr rows, remember_rows lm p i rows c1))))"

section \<open>The invariant\<close>

text \<open>
  The keys are distinct, the counted size is the sum of the sizes, each positive, and both limits
  are kept.
\<close>

definition rows_ok :: "row_limits \<Rightarrow> 'row row_cache \<Rightarrow> bool" where
  "rows_ok lm c \<longleftrightarrow>
     dict_ok (ro_entries c) \<and> (\<forall>(_, _, n) \<in> set (ro_entries c). 0 < n) \<and>
     ro_size_bytes c = sum_list (map (\<lambda>(_, _, n). n) (ro_entries c)) \<and> \<not> over_limits lm c"

lemma to_end_simps [dict_simps]:
  "dget (to_end k v d) k' = (if k' = k then Some v else dget d k')"
  "dict_ok d \<Longrightarrow> dict_ok (to_end k v d)"
  "set (to_end k v d) \<subseteq> insert (k, v) (set d)"
proof -
  show "dget (to_end k v d) k' = (if k' = k then Some v else dget d k')"
    by (auto simp: to_end_def map_add_def dict_simps split: option.splits)
  show "dict_ok d \<Longrightarrow> dict_ok (to_end k v d)"
    using dict_ok_dpop [of d k] by (auto simp: to_end_def dict_ok_def AList.delete_eq)
  show "set (to_end k v d) \<subseteq> insert (k, v) (set d)" by (auto simp: to_end_def AList.delete_eq)
qed

lemma size_dpop:
  assumes "dict_ok d"
  shows "sum_list (map f (dpop k d)) = (sum_list (map f d) :: int) - (case dget d k of None \<Rightarrow> 0 | Some v \<Rightarrow> f (k, v))"
  using assms
proof (induction d)
  case (Cons x d)
  obtain k' v where x: "x = (k', v)" by (cases x)
  have IH: "sum_list (map f (dpop k d)) = sum_list (map f d) - (case dget d k of None \<Rightarrow> 0 | Some v \<Rightarrow> f (k, v))"
    using Cons by (simp add: dict_ok_Cons)
  show ?case
  proof (cases "k' = k")
    case True
    then have none: "dget d k = None" using Cons.prems by (simp add: dict_ok_Cons x)
    then show ?thesis using True by (simp add: x dpop_absent)
  qed (use IH in \<open>auto simp: x\<close>)
qed simp

text \<open>The eviction stops within the limits, drops from the front only and counts the bytes.\<close>

lemma evict_rows_facts:
  assumes "\<forall>(_, _, n) \<in> set es. 0 < (n::int)" "ro_size_bytes c = sum_list (map (\<lambda>(_, _, n). n) es)"
    "0 < rl_max_entries lm" "0 < rl_max_bytes lm"
  shows "\<not> over_limits lm (evict_rows lm es c) \<and>
    (\<exists>m. ro_entries (evict_rows lm es c) = drop m es) \<and>
    ro_size_bytes (evict_rows lm es c) = sum_list (map (\<lambda>(_, _, n). n) (ro_entries (evict_rows lm es c)))"
  using assms
proof (induction es arbitrary: c)
  case Nil
  then show ?case by (simp add: over_limits_def)
next
  case (Cons x es)
  obtain k rows n where x: "x = (k, rows, n)" by (cases x)
  let ?c = "c\<lparr>ro_size_bytes := ro_size_bytes c - n, ro_evictions := ro_evictions c + 1,
                ro_byte_evictions := ro_byte_evictions c + (if rl_max_bytes lm < ro_size_bytes c then 1 else 0)\<rparr>"
  have pre: "\<forall>(_, _, n) \<in> set es. 0 < n" "ro_size_bytes ?c = sum_list (map (\<lambda>(_, _, n). n) es)"
    using Cons.prems(1,2) by (simp_all add: x)
  note IH = Cons.IH [OF pre Cons.prems(3,4)]
  then obtain m where "ro_entries (evict_rows lm es ?c) = drop m es" by blast
  then have "ro_entries (evict_rows lm es ?c) = drop (Suc m) (x # es)" by simp
  then show ?case
    using IH Cons.prems(2) by (auto simp: x intro: exI [of _ 0] exI [of _ "Suc m"] simp del: drop_Suc_Cons)
qed

lemma dict_ok_drop: "dict_ok d \<Longrightarrow> dict_ok (drop m d)"
  by (simp add: dict_ok_def flip: drop_map)

lemma sum_to_end:
  assumes "dict_ok d"
  shows "sum_list (map f (to_end k v d)) =
    sum_list (map f d) - (case dget d k of None \<Rightarrow> 0 | Some w \<Rightarrow> f (k, w)) + (f (k, v) :: int)"
  using size_dpop [OF assms, of f k] by (simp add: to_end_def)

definition limits_ok :: "row_limits \<Rightarrow> bool" where
  "limits_ok lm \<longleftrightarrow> 0 < rl_max_entries lm \<and> 0 < rl_max_bytes lm"

lemma row_limits_of_ok: "limits_ok (row_limits_of entries bytes)"
  by (simp add: limits_ok_def row_limits_of_def less_max_iff_disj)

lemma remember_rows_ok:
  assumes "rows_ok lm c" "limits_ok lm"
  shows "rows_ok lm (remember_rows lm p i rows c)"
    "set (ro_entries (remember_rows lm p i rows c)) \<subseteq>
       insert ((p, i), (rows, max 1 (fi_size i))) (set (ro_entries c))"
proof -
  define n where "n = max 1 (fi_size i)"
  define es where "es = to_end (p, i) (rows, n) (ro_entries c)"
  define c1 where "c1 = c\<lparr>ro_size_bytes := ro_size_bytes c - cached_size (p, i) c + n\<rparr>"
  have ok: "dict_ok (ro_entries c)" "\<forall>(_, _, n) \<in> set (ro_entries c). 0 < n"
    "ro_size_bytes c = sum_list (map (\<lambda>(_, _, n). n) (ro_entries c))"
    using assms(1) by (simp_all add: rows_ok_def)
  have sub: "set es \<subseteq> insert ((p, i), (rows, n)) (set (ro_entries c))"
    unfolding es_def by (rule to_end_simps(3))
  have pos: "\<forall>(_, _, n) \<in> set es. 0 < n"
    using ok(2) sub by (auto simp: n_def less_max_iff_disj)
  have size: "ro_size_bytes c1 = sum_list (map (\<lambda>(_, _, n). n) es)"
    using ok(3) sum_to_end [OF ok(1), of "\<lambda>(_, _, n). n" "(p, i)" "(rows, n)"]
    by (auto simp: c1_def es_def cached_size_def split: option.split)
  have c: "remember_rows lm p i rows c = evict_rows lm es c1"
    by (simp add: remember_rows_def Let_def es_def n_def c1_def)
  note facts = evict_rows_facts [OF pos size] assms(2) [unfolded limits_ok_def]
  obtain m where m: "ro_entries (evict_rows lm es c1) = drop m es" using facts by blast
  have "dict_ok es" using ok(1) by (simp add: es_def to_end_simps(2))
  then show "rows_ok lm (remember_rows lm p i rows c)"
    using facts pos set_drop_subset [of m es] by (auto simp: rows_ok_def c m dict_ok_drop)
  show "set (ro_entries (remember_rows lm p i rows c)) \<subseteq>
      insert ((p, i), (rows, max 1 (fi_size i))) (set (ro_entries c))"
    using sub set_drop_subset [of m es] by (auto simp: c m n_def)
qed

lemma sum_filter_split:
  "sum_list (map f (filter P xs)) = sum_list (map f xs) - (sum_list (map f (filter (\<lambda>x. \<not> P x) xs)) :: int)"
  by (induction xs) auto

lemma forget_rows_ok:
  assumes "rows_ok lm c"
  shows "rows_ok lm (forget_rows p c)" "set (ro_entries (forget_rows p c)) \<subseteq> set (ro_entries c)"
    "dget (ro_entries (forget_rows p c)) (p, i) = None"
proof -
  let ?f = "\<lambda>(_, _, n). n" and ?P = "\<lambda>(k, _). fst k \<noteq> p"
  have pos: "\<forall>(_, _, n) \<in> set (ro_entries c). 0 < n"
    and size: "ro_size_bytes c = sum_list (map ?f (ro_entries c))"
    and lim_ok: "\<not> over_limits lm c" and ok: "dict_ok (ro_entries c)"
    using assms by (simp_all add: rows_ok_def)
  have eq: "filter (\<lambda>x. \<not> ?P x) (ro_entries c) = filter (\<lambda>(k, _). fst k = p) (ro_entries c)"
    by (rule filter_cong) auto
  have new: "ro_size_bytes (forget_rows p c) = sum_list (map ?f (ro_entries (forget_rows p c)))"
    using sum_filter_split [of ?f ?P "ro_entries c"] size by (simp add: forget_rows_def eq)
  have "0 \<le> sum_list (map ?f (filter (\<lambda>(k, _). fst k = p) (ro_entries c)))"
    by (rule sum_list_nonneg) (use pos in fastforce)
  then have "ro_size_bytes (forget_rows p c) \<le> ro_size_bytes c" by (simp add: forget_rows_def)
  moreover have "length (ro_entries (forget_rows p c)) \<le> length (ro_entries c)"
    by (simp add: forget_rows_def length_filter_le)
  ultimately have "\<not> over_limits lm (forget_rows p c)" using lim_ok by (simp add: over_limits_def)
  then show "rows_ok lm (forget_rows p c)"
    using new ok pos by (auto simp: rows_ok_def forget_rows_def)
  show "set (ro_entries (forget_rows p c)) \<subseteq> set (ro_entries c)" by (auto simp: forget_rows_def)
  show "dget (ro_entries (forget_rows p c)) (p, i) = None"
    by (auto simp: forget_rows_def map_of_eq_None_iff)
qed

text \<open>A hit moves the entry to the end and changes neither the entries nor their sizes.\<close>

lemma hit_ok:
  assumes "rows_ok lm c" "dget (ro_entries c) k = Some v"
  shows "rows_ok lm (c\<lparr>ro_entries := to_end k v (ro_entries c), ro_hits := h\<rparr>)"
    "set (to_end k v (ro_entries c)) \<subseteq> set (ro_entries c)"
proof -
  have mem: "(k, v) \<in> set (ro_entries c)" using assms(2) by (rule map_of_SomeD)
  then show sub: "set (to_end k v (ro_entries c)) \<subseteq> set (ro_entries c)"
    using to_end_simps(3) [of k v "ro_entries c"] by blast
  have ok: "dict_ok (ro_entries c)" using assms(1) by (simp add: rows_ok_def)
  have "sum_list (map (\<lambda>(_, _, n). n) (to_end k v (ro_entries c))) = sum_list (map (\<lambda>(_, _, n). n) (ro_entries c))"
    using sum_to_end [OF ok, of "\<lambda>(_, _, n). n" k v] assms(2) by simp
  moreover have "length (to_end k v (ro_entries c)) = length (ro_entries c)"
    using assms(2) ok by (simp add: to_end_def length_dpop)
  ultimately show "rows_ok lm (c\<lparr>ro_entries := to_end k v (ro_entries c), ro_hits := h\<rparr>)"
    using assms(1) sub to_end_simps(2) [OF ok] by (auto simp: rows_ok_def over_limits_def)
qed

text \<open>A set of rows that fits is there after it has been remembered.\<close>

lemma evict_rows_keeps_newest:
  assumes "\<forall>(_, _, n) \<in> set es. 0 < (n::int)" "ro_size_bytes c = sum_list (map (\<lambda>(_, _, n). n) (es @ [(k, rows, n)]))"
    "limits_ok lm" "n \<le> rl_max_bytes lm"
  shows "(k, rows, n) \<in> set (ro_entries (evict_rows lm (es @ [(k, rows, n)]) c))"
  using assms
proof (induction es arbitrary: c)
  case (Cons x es)
  obtain k' rows' n' where x: "x = (k', rows', n')" by (cases x)
  show ?case
    using Cons.IH [of "c\<lparr>ro_size_bytes := ro_size_bytes c - n', ro_evictions := ro_evictions c + 1,
                ro_byte_evictions := ro_byte_evictions c + (if rl_max_bytes lm < ro_size_bytes c then 1 else 0)\<rparr>"]
      Cons.prems by (simp add: x)
qed (auto simp: over_limits_def limits_ok_def)

section \<open>The cache is transparent\<close>

text \<open>
  The files with their identities, and the cache.  A file of one identity has one content, so the
  rows are a function of the path and the identity; a file may be replaced, removed or appear at
  any time, and the index forgets the rows of a path at any time.
\<close>

record 'row row_world =
  rw_files :: "path \<Rightarrow> file_identity option"
  rw_cache :: "'row row_cache"

datatype row_event =
    Rows_Wanted path
  | Rows_Forgotten path
  | File_Replaced path "file_identity option"

definition stat_result :: "(path \<Rightarrow> file_identity option) \<Rightarrow> path \<Rightarrow> file_identity result" where
  "stat_result files p =
     (case files p of None \<Rightarrow> Inl (Runtime_Error ''FileNotFoundError'') | Some i \<Rightarrow> Inr i)"

text \<open>What a read gives without any cache.\<close>

definition direct_rows ::
  "(path \<Rightarrow> file_identity \<Rightarrow> 'row list result) \<Rightarrow> (path \<Rightarrow> file_identity option) \<Rightarrow> path \<Rightarrow> 'row list result" where
  "direct_rows content files p = rbind (stat_result files p) (content p)"

fun row_step ::
  "row_limits \<Rightarrow> (path \<Rightarrow> file_identity \<Rightarrow> 'row list result) \<Rightarrow> row_event \<Rightarrow> 'row row_world \<Rightarrow> 'row row_world" where
  "row_step lm content (Rows_Wanted p) w =
     w\<lparr>rw_cache := snd (rows_for_segment lm (stat_result (rw_files w)) (direct_rows content (rw_files w)) p (rw_cache w))\<rparr>"
| "row_step lm content (Rows_Forgotten p) w = w\<lparr>rw_cache := forget_rows p (rw_cache w)\<rparr>"
| "row_step lm content (File_Replaced p i) w = w\<lparr>rw_files := (rw_files w)(p := i)\<rparr>"

definition row_start :: "(path \<Rightarrow> file_identity option) \<Rightarrow> 'row row_world" where
  "row_start files = \<lparr>rw_files = files, rw_cache = empty_rows\<rparr>"

definition coherent :: "(path \<Rightarrow> file_identity \<Rightarrow> 'row list result) \<Rightarrow> 'row row_cache \<Rightarrow> bool" where
  "coherent content c \<longleftrightarrow> (\<forall>((p, i), rows, _) \<in> set (ro_entries c). content p i = Inr rows)"

definition row_inv ::
  "row_limits \<Rightarrow> (path \<Rightarrow> file_identity \<Rightarrow> 'row list result) \<Rightarrow> 'row row_world \<Rightarrow> bool" where
  "row_inv lm content w \<longleftrightarrow> rows_ok lm (rw_cache w) \<and> coherent content (rw_cache w)"

lemma rows_for_segment_facts:
  assumes "rows_ok lm c" "coherent content c" "limits_ok lm"
  shows "fst (rows_for_segment lm (stat_result files) (direct_rows content files) p c) = direct_rows content files p"
    "rows_ok lm (snd (rows_for_segment lm (stat_result files) (direct_rows content files) p c))"
    "coherent content (snd (rows_for_segment lm (stat_result files) (direct_rows content files) p c))"
proof -
  let ?r = "rows_for_segment lm (stat_result files) (direct_rows content files) p c"
  have "fst ?r = direct_rows content files p \<and> rows_ok lm (snd ?r) \<and> coherent content (snd ?r)"
  proof (cases "files p")
    case None
    then show ?thesis using assms by (simp add: rows_for_segment_def stat_result_def direct_rows_def)
  next
    case found: (Some i)
    show ?thesis
    proof (cases "dget (ro_entries c) (p, i)")
      case hit: (Some v)
      obtain rows n where v: "v = (rows, n)" by (cases v)
      have "((p, i), rows, n) \<in> set (ro_entries c)" using map_of_SomeD [OF hit] by (simp add: v)
      then have "content p i = Inr rows" using assms(2) by (force simp: coherent_def)
      then show ?thesis using found hit hit_ok [OF assms(1) hit] assms(2)
        by (force simp: rows_for_segment_def stat_result_def direct_rows_def v coherent_def)
    next
      case miss: None
      have c1: "rows_ok lm (c\<lparr>ro_misses := ro_misses c + 1\<rparr>)"
        using assms(1) by (simp add: rows_ok_def over_limits_def)
      show ?thesis
      proof (cases "content p i")
        case (Inl e)
        then show ?thesis using found miss c1 assms(2)
          by (simp add: rows_for_segment_def stat_result_def direct_rows_def Let_def coherent_def)
      next
        case (Inr rows)
        then show ?thesis using found miss remember_rows_ok [OF c1 assms(3), of p i rows] assms(2)
          by (force simp: rows_for_segment_def stat_result_def direct_rows_def Let_def coherent_def)
      qed
    qed
  qed
  then show "fst ?r = direct_rows content files p" "rows_ok lm (snd ?r)" "coherent content (snd ?r)" by auto
qed

lemma row_inv_step:
  assumes "row_inv lm content w" "limits_ok lm"
  shows "row_inv lm content (row_step lm content e w)"
proof (cases e)
  case (Rows_Wanted p)
  then show ?thesis using assms rows_for_segment_facts(2,3) by (auto simp: row_inv_def)
next
  case (Rows_Forgotten p)
  then show ?thesis using assms(1) forget_rows_ok(1,2) [of lm "rw_cache w" p]
    by (auto simp: row_inv_def coherent_def)
qed (use assms in \<open>simp add: row_inv_def\<close>)

interpretation row_runs: transition_system "row_start files"
  "row_step (row_limits_of entries bytes) content" "row_inv (row_limits_of entries bytes) content"
  for files entries bytes content
proof unfold_locales
  show "row_inv (row_limits_of entries bytes) content (row_start files)"
    by (simp add: row_inv_def row_start_def empty_rows_def rows_ok_def coherent_def over_limits_def row_limits_of_def)
  show "row_inv (row_limits_of entries bytes) content (row_step (row_limits_of entries bytes) content e w)"
    if "row_inv (row_limits_of entries bytes) content w" for e w
    using that row_limits_of_ok by (rule row_inv_step)
qed

definition row_run ::
  "int \<Rightarrow> int \<Rightarrow> (path \<Rightarrow> file_identity \<Rightarrow> 'row list result) \<Rightarrow> (path \<Rightarrow> file_identity option) \<Rightarrow>
   row_event list \<Rightarrow> 'row row_world" where
  "row_run entries bytes content files es =
     fold (row_step (row_limits_of entries bytes) content) es (row_start files)"

lemma row_run_inv: "row_inv (row_limits_of entries bytes) content (row_run entries bytes content files es)"
  unfolding row_run_def by (rule row_runs.run)

text \<open>
  C21: after any history of reads, replaced files and forgotten rows, a read through the cache gives
  what a read of the file gives, errors included.
\<close>

theorem row_cache_is_transparent:
  "fst (rows_for_segment (row_limits_of entries bytes)
      (stat_result (rw_files (row_run entries bytes content files es)))
      (direct_rows content (rw_files (row_run entries bytes content files es))) p
      (rw_cache (row_run entries bytes content files es))) =
   direct_rows content (rw_files (row_run entries bytes content files es)) p"
  using row_run_inv [of entries bytes content files es]
  by (intro rows_for_segment_facts(1)) (simp_all add: row_inv_def row_limits_of_ok)

text \<open>
  after any such history the cache holds at most its entries and its bytes, and counts the bytes
  exactly.
\<close>

theorem row_cache_bounded:
  "int (length (ro_entries (rw_cache (row_run entries bytes content files es)))) \<le> max 1 entries \<and>
   ro_size_bytes (rw_cache (row_run entries bytes content files es)) \<le> max 1 bytes \<and>
   ro_size_bytes (rw_cache (row_run entries bytes content files es)) =
     sum_list (map (\<lambda>(_, _, n). n) (ro_entries (rw_cache (row_run entries bytes content files es))))"
  using row_run_inv [of entries bytes content files es]
  by (auto simp: row_inv_def rows_ok_def over_limits_def row_limits_of_def)

text \<open>
  Rows that fit are served from the cache right after they were read, whatever was evicted for them.
\<close>

lemma remembered_rows_are_there:
  assumes "rows_ok lm c" "limits_ok lm" "max 1 (fi_size i) \<le> rl_max_bytes lm"
  shows "dget (ro_entries (remember_rows lm p i rows c)) (p, i) = Some (rows, max 1 (fi_size i))"
proof -
  define n where "n = max 1 (fi_size i)"
  define ds where "ds = dpop (p, i) (ro_entries c)"
  define c1 where "c1 = c\<lparr>ro_size_bytes := ro_size_bytes c - cached_size (p, i) c + n\<rparr>"
  have ok: "dict_ok (ro_entries c)" "\<forall>(_, _, n) \<in> set (ro_entries c). 0 < n"
    "ro_size_bytes c = sum_list (map (\<lambda>(_, _, n). n) (ro_entries c))"
    using assms(1) by (simp_all add: rows_ok_def)
  have c: "remember_rows lm p i rows c = evict_rows lm (ds @ [((p, i), rows, n)]) c1"
    by (simp add: remember_rows_def Let_def ds_def n_def c1_def to_end_def)
  have "((p, i), rows, n) \<in> set (ro_entries (evict_rows lm (ds @ [((p, i), rows, n)]) c1))"
  proof (rule evict_rows_keeps_newest)
    show "\<forall>(_, _, n) \<in> set ds. 0 < n" using ok(2) by (auto simp: ds_def AList.delete_eq)
    show "ro_size_bytes c1 = sum_list (map (\<lambda>(_, _, n). n) (ds @ [((p, i), rows, n)]))"
      using ok(3) size_dpop [OF ok(1), of "\<lambda>(_, _, n). n" "(p, i)"]
      by (auto simp: c1_def ds_def cached_size_def split: option.split)
  qed (use assms in \<open>simp_all add: n_def\<close>)
  moreover have "dict_ok (ro_entries (remember_rows lm p i rows c))"
    using remember_rows_ok(1) [OF assms(1,2)] by (simp add: rows_ok_def)
  ultimately show ?thesis by (auto simp: c n_def intro: in_dictD)
qed

end
