(* ===== verification/SegmentManifest.thy ===== *)
theory SegmentManifest
  imports JsonRoundTrip SegmentRows RollingWindow
begin

text \<open>
  The manifest of a published segment as the index reads it (segment_index.py: \<open>_parse_manifest\<close>,
  \<open>_manifest_from_payload\<close>, the probe of the metadata-only layout), and the bounds it guarantees.
\<close>

record seg_manifest =
  sm_schema_version :: string
  sm_segment_id :: string
  sm_source_id :: string
  sm_runtime_epoch_id :: string
  sm_video_file :: string
  sm_metadata_file :: string
  sm_first_pts :: int
  sm_last_pts :: int
  sm_frame_count :: int
  sm_source_first_pts :: "int option"
  sm_source_last_pts :: "int option"
  sm_video_size_bytes :: int
  sm_metadata_size_bytes :: int

definition manifest_v1 :: string where "manifest_v1 = ''rolling-segment-manifest-v1''"
definition manifest_v2 :: string where "manifest_v2 = ''rolling-segment-manifest-v2''"
definition manifest_v3 :: string where "manifest_v3 = ''rolling-segment-manifest-v3''"

definition manifest_file :: string where "manifest_file = ''segment_manifest.json''"
definition metadata_file :: string where "metadata_file = ''metadata.json''"

definition max_manifest_bytes :: int where "max_manifest_bytes = 64 * 1024"

definition video_names :: "string list" where
  "video_names = [''video.mov'', ''raw_clip.mov'', ''video.mp4'', ''raw_clip.mp4'', ''video.mkv'']"

definition manifest_error :: "string \<Rightarrow> 'a result" where
  "manifest_error name = Inl (Value_Error (''rolling_segment_manifest_'' @ name))"

definition required_text :: "(string \<times> pyval) list \<Rightarrow> string \<Rightarrow> string result" where
  "required_text payload name =
     (case pget payload name of
        PStr s \<Rightarrow> if s = [] then manifest_error (name @ ''_invalid'') else Inr s
      | _ \<Rightarrow> manifest_error (name @ ''_invalid''))"

text \<open>\<open>int\<close> of a value; the infinite float raises an error that is not turned into another one.\<close>

definition checked_int :: "string \<Rightarrow> pyval \<Rightarrow> int result" where
  "checked_int name v =
     (case v of
        PBool _ \<Rightarrow> manifest_error (name @ ''_invalid'')
      | _ \<Rightarrow> (case py_int v of
                Inl Overflow_Error \<Rightarrow> Inl Overflow_Error
              | Inl _ \<Rightarrow> manifest_error (name @ ''_invalid'')
              | Inr i \<Rightarrow> Inr i))"

definition required_int :: "(string \<times> pyval) list \<Rightarrow> string \<Rightarrow> int option \<Rightarrow> int result" where
  "required_int payload name minimum =
     rbind (checked_int name (pget payload name)) (\<lambda>i.
       case minimum of
         Some m \<Rightarrow> if i < m then manifest_error (name @ ''_invalid'') else Inr i
       | None \<Rightarrow> Inr i)"

definition optional_int :: "(string \<times> pyval) list \<Rightarrow> string \<Rightarrow> int option result" where
  "optional_int payload name =
     (case pget payload name of
        PNone \<Rightarrow> Inr None
      | v \<Rightarrow> rbind (checked_int name v) (\<lambda>i. Inr (Some i)))"

text \<open>Membership in the set of the versions; a list or a dictionary cannot be hashed.\<close>

definition manifest_version :: "pyval \<Rightarrow> string result" where
  "manifest_version v =
     (case v of
        PStr s \<Rightarrow> if s \<in> {manifest_v1, manifest_v2, manifest_v3} then Inr s else manifest_error ''schema_invalid''
      | PList _ \<Rightarrow> Inl Type_Error
      | PDict _ \<Rightarrow> Inl Type_Error
      | _ \<Rightarrow> manifest_error ''schema_invalid'')"

definition guard_that :: "bool \<Rightarrow> string \<Rightarrow> unit result" where
  "guard_that ok name = (if ok then Inr () else manifest_error name)"

definition source_bounds_ok :: "int option \<Rightarrow> int option \<Rightarrow> bool" where
  "source_bounds_ok lo hi \<longleftrightarrow> (case (lo, hi) of (Some a, Some b) \<Rightarrow> a \<le> b | _ \<Rightarrow> True)"

definition manifest_from_payload :: "pyval \<Rightarrow> seg_manifest result" where
  "manifest_from_payload v =
     (case v of
        PDict p \<Rightarrow>
          rbind (manifest_version (pget p ''schema_version'')) (\<lambda>version.
          rbind (required_text p ''video_file'') (\<lambda>video.
          rbind (required_text p ''metadata_file'') (\<lambda>metadata.
          rbind (guard_that (video \<in> set video_names) ''video_file_invalid'') (\<lambda>_.
          rbind (guard_that (metadata = metadata_file) ''metadata_file_invalid'') (\<lambda>_.
          rbind (required_int p ''first_pts'' None) (\<lambda>lo.
          rbind (required_int p ''last_pts'' None) (\<lambda>hi.
          rbind (required_int p ''frame_count'' (Some 1)) (\<lambda>frames.
          rbind (guard_that (lo \<le> hi) ''pts_bounds_invalid'') (\<lambda>_.
          rbind (optional_int p ''source_first_pts'') (\<lambda>slo.
          rbind (optional_int p ''source_last_pts'') (\<lambda>shi.
          rbind (guard_that ((slo = None) = (shi = None)) ''source_bounds_incomplete'') (\<lambda>_.
          rbind (guard_that (source_bounds_ok slo shi) ''source_bounds_invalid'') (\<lambda>_.
          rbind (required_text p ''segment_id'') (\<lambda>segment.
          rbind (required_text p ''source_id'') (\<lambda>source.
          rbind (required_text p ''runtime_epoch_id'') (\<lambda>epoch.
          rbind (required_int p ''video_size_bytes'' (Some 1)) (\<lambda>vsize.
          rbind (required_int p ''metadata_size_bytes'' (Some 1)) (\<lambda>msize.
            Inr \<lparr>sm_schema_version = version, sm_segment_id = segment, sm_source_id = source,
                 sm_runtime_epoch_id = epoch, sm_video_file = video, sm_metadata_file = metadata,
                 sm_first_pts = lo, sm_last_pts = hi, sm_frame_count = frames,
                 sm_source_first_pts = slo, sm_source_last_pts = shi,
                 sm_video_size_bytes = vsize, sm_metadata_size_bytes = msize\<rparr>))))))))))))))))))
      | _ \<Rightarrow> manifest_error ''not_object'')"

text \<open>What every accepted manifest satisfies.\<close>

definition manifest_ok :: "seg_manifest \<Rightarrow> bool" where
  "manifest_ok m \<longleftrightarrow>
     sm_schema_version m \<in> {manifest_v1, manifest_v2, manifest_v3} \<and>
     sm_segment_id m \<noteq> [] \<and> sm_source_id m \<noteq> [] \<and> sm_runtime_epoch_id m \<noteq> [] \<and>
     sm_video_file m \<in> set video_names \<and> sm_metadata_file m = metadata_file \<and>
     sm_first_pts m \<le> sm_last_pts m \<and> 1 \<le> sm_frame_count m \<and>
     (sm_source_first_pts m = None) = (sm_source_last_pts m = None) \<and>
     source_bounds_ok (sm_source_first_pts m) (sm_source_last_pts m) \<and>
     1 \<le> sm_video_size_bytes m \<and> 1 \<le> sm_metadata_size_bytes m"

lemma manifest_error_Inr [simp]: "manifest_error e \<noteq> Inr x"
  by (simp add: manifest_error_def)

lemma guard_that_Inr [simp]: "guard_that ok e = Inr u \<longleftrightarrow> ok"
  by (simp add: guard_that_def)

lemma required_text_Inr: "required_text p k = Inr s \<longleftrightarrow> pget p k = PStr s \<and> s \<noteq> []"
  by (auto simp: required_text_def split: pyval.splits)

lemma required_int_bound: "required_int p k (Some m) = Inr i \<Longrightarrow> m \<le> i"
  by (auto simp: required_int_def rbind_Inr_iff split: if_splits)

lemma manifest_version_Inr: "manifest_version v = Inr s \<longleftrightarrow> v = PStr s \<and> s \<in> {manifest_v1, manifest_v2, manifest_v3}"
  by (cases v) (auto simp: manifest_version_def)

theorem accepted_manifest_ok:
  assumes "manifest_from_payload v = Inr m"
  shows "manifest_ok m"
proof (cases v)
  case (PDict p)
  show ?thesis
    using assms unfolding PDict manifest_from_payload_def pyval.case
  proof (elim rbind_InrE, goal_cases)
    case 1
    note bounds = 1(8,17,18) [THEN required_int_bound]
    show ?case
      using 1(1-7,9-16) bounds 1(19) [THEN sum.inject(2) [THEN iffD1], symmetric]
      by (simp only: manifest_ok_def guard_that_Inr required_text_Inr manifest_version_Inr seg_manifest.select_convs simp_thms)
  qed
qed (use assms in \<open>simp_all add: manifest_from_payload_def\<close>)

section \<open>Reading the file\<close>

text \<open>\<open>readline\<close> with a limit, and \<open>strip\<close> of bytes.\<close>

fun read_line :: "string \<Rightarrow> string" where
  "read_line [] = []"
| "read_line (c # cs) = (if c = CHR 0x0A then [c] else c # read_line cs)"

definition first_record :: "string \<Rightarrow> string" where
  "first_record content = take (nat (max_manifest_bytes + 1)) (read_line content)"

definition byte_space :: "char \<Rightarrow> bool" where
  "byte_space c \<longleftrightarrow> c = CHR '' '' \<or> (let n = (of_char c :: nat) in 9 \<le> n \<and> n \<le> 13)"

definition loads_result :: "string \<Rightarrow> pyval result" where
  "loads_result s = (case json_loads s of None \<Rightarrow> Inl (Value_Error ''JSONDecodeError'') | Some v \<Rightarrow> Inr v)"

definition has_version :: "string \<Rightarrow> pyval \<Rightarrow> bool" where
  "has_version version v \<longleftrightarrow> (case v of PDict p \<Rightarrow> pget p ''schema_version'' = PStr version | _ \<Rightarrow> False)"

definition record_size_ok :: "string \<Rightarrow> bool" where
  "record_size_ok r \<longleftrightarrow> r \<noteq> [] \<and> int (length r) \<le> max_manifest_bytes"

definition parse_manifest :: "string \<Rightarrow> seg_manifest result" where
  "parse_manifest content =
     (let r = first_record content
      in rbind (guard_that (record_size_ok r) ''record_too_large'') (\<lambda>_.
         rbind (loads_result r) (\<lambda>v.
           if has_version manifest_v1 v
           then let budget = max_manifest_bytes - int (length r) + 1;
                    remainder = take (nat (max 1 budget)) (drop (length r) content)
                in rbind (guard_that (int (length r) + int (length remainder) \<le> max_manifest_bytes)
                      ''record_too_large'') (\<lambda>_.
                   rbind (guard_that (list_all byte_space remainder) ''v1_trailing_data'') (\<lambda>_.
                     manifest_from_payload v))
           else manifest_from_payload v)))"

definition metadata_only_candidate :: "string option \<Rightarrow> bool" where
  "metadata_only_candidate content =
     (case content of
        None \<Rightarrow> False
      | Some s \<Rightarrow>
          (let r = first_record s
           in if \<not> record_size_ok r then False
              else case json_loads r of None \<Rightarrow> False | Some v \<Rightarrow> has_version manifest_v3 v))"

lemma parse_manifest_ok: "parse_manifest content = Inr m \<Longrightarrow> manifest_ok m"
  by (auto simp: parse_manifest_def Let_def rbind_Inr_iff split: if_splits intro: accepted_manifest_ok)

end
