(* ===== verification/SegmentCatalog.thy ===== *)
theory SegmentCatalog
  imports SegmentManifest
begin

text \<open>
  The catalog of the segments of one source and epoch (segment_index.py): a candidate file is
  refreshed against the disk, a record of the publication journal enters without a look at the
  disk, and an entry is removed together with its cached rows.  Paths are resolved, so that
  symbolic links are left out; the counters of the diagnostics are left out.
\<close>

section \<open>State\<close>

record indexed_segment =
  ix_segment :: rolling_segment
  ix_manifest :: file_identity
  ix_metadata :: file_identity
  ix_video :: file_identity

record publication_cursor =
  pj_device :: int
  pj_inode :: int
  pj_offset :: nat

record seg_catalog =
  ct_source :: string
  ct_epoch :: string
  ct_entries :: "(path \<times> indexed_segment) list"
  ct_pending :: "path set"
  ct_failed :: "(path \<times> file_identity) list"
  ct_containers :: "(path \<times> int) list"
  ct_cursors :: "(path \<times> publication_cursor) list"

type_synonym cached_row = "(string \<times> pyval) list"

type_synonym index_state = "seg_catalog \<times> cached_row row_cache"

record index_config =
  ic_stability_age :: real
  ic_min_video_bytes :: int

record disk =
  dk_stat :: "path \<Rightarrow> file_identity option"
  dk_content :: "path \<Rightarrow> string option"

definition path_text :: "path \<Rightarrow> string" where
  "path_text p = CHR ''/'' # py_join ''/'' p"

text \<open>\<open>path.parent\<close> and \<open>path / name\<close>.\<close>

definition parent :: "path \<Rightarrow> path" where
  "parent p = butlast p"

definition child :: "path \<Rightarrow> string \<Rightarrow> path" where
  "child p name = p @ [name]"

fun epoch_from_path :: "path \<Rightarrow> string" where
  "epoch_from_path (part # name # rest) =
     (if part = ''epochs'' then name else epoch_from_path (name # rest))"
| "epoch_from_path _ = []"

definition empty_catalog :: "string \<Rightarrow> string \<Rightarrow> seg_catalog" where
  "empty_catalog source epoch =
     \<lparr>ct_source = source, ct_epoch = epoch, ct_entries = [], ct_pending = {}, ct_failed = [],
      ct_containers = [], ct_cursors = []\<rparr>"

definition segment_of :: "path \<Rightarrow> seg_manifest \<Rightarrow> file_identity \<Rightarrow> rolling_segment" where
  "segment_of dir m video =
     \<lparr>rs_segment_id = sm_segment_id m, rs_source_id = sm_source_id m,
      rs_runtime_epoch_id = sm_runtime_epoch_id m, rs_directory = path_text dir,
      rs_video_path = path_text (child dir (sm_video_file m)),
      rs_metadata_path = path_text (child dir (sm_metadata_file m)),
      rs_first_pts = sm_first_pts m, rs_last_pts = sm_last_pts m, rs_frame_count = sm_frame_count m,
      rs_size_bytes = fi_size video, rs_source_first_pts = sm_source_first_pts m,
      rs_source_last_pts = sm_source_last_pts m\<rparr>"

section \<open>Candidates on the disk\<close>

text \<open>The metadata file of every entry lies beside its catalog file, so its rows have that path.\<close>

definition remove_entry :: "path \<Rightarrow> index_state \<Rightarrow> index_state" where
  "remove_entry p = (\<lambda>(cat, rows).
     (cat\<lparr>ct_entries := dpop p (ct_entries cat)\<rparr>, forget_rows (child (parent p) metadata_file) rows))"

definition set_pending :: "path \<Rightarrow> seg_catalog \<Rightarrow> seg_catalog" where
  "set_pending p cat = cat\<lparr>ct_pending := insert p (ct_pending cat)\<rparr>"

definition clear_pending :: "path \<Rightarrow> seg_catalog \<Rightarrow> seg_catalog" where
  "clear_pending p cat = cat\<lparr>ct_pending := ct_pending cat - {p}, ct_failed := dpop p (ct_failed cat)\<rparr>"

text \<open>The ways a candidate is turned away: gone, not yet complete, or wrong with its identity.\<close>

definition candidate_gone :: "path \<Rightarrow> index_state \<Rightarrow> index_state" where
  "candidate_gone p = (\<lambda>(cat, rows). remove_entry p (clear_pending p cat, rows))"

definition candidate_retried :: "path \<Rightarrow> index_state \<Rightarrow> index_state" where
  "candidate_retried p = (\<lambda>(cat, rows).
     remove_entry p ((set_pending p cat)\<lparr>ct_failed := dpop p (ct_failed cat)\<rparr>, rows))"

definition candidate_waits :: "path \<Rightarrow> index_state \<Rightarrow> index_state" where
  "candidate_waits p = (\<lambda>(cat, rows). remove_entry p (set_pending p cat, rows))"

definition candidate_failed :: "path \<Rightarrow> file_identity \<Rightarrow> index_state \<Rightarrow> index_state" where
  "candidate_failed p i = (\<lambda>(cat, rows).
     remove_entry p ((set_pending p cat)\<lparr>ct_failed := dset p i (ct_failed cat)\<rparr>, rows))"

definition is_stable :: "index_config \<Rightarrow> real \<Rightarrow> file_identity \<Rightarrow> bool" where
  "is_stable cfg now i \<longleftrightarrow> ic_stability_age cfg \<le> now - of_int (fi_mtime_ns i) / 1000000000"

definition catalog_name :: "seg_manifest \<Rightarrow> string" where
  "catalog_name m = (if sm_schema_version m = manifest_v3 then metadata_file else manifest_file)"

definition manifest_matches :: "seg_catalog \<Rightarrow> path \<Rightarrow> seg_manifest \<Rightarrow> bool" where
  "manifest_matches cat p m \<longleftrightarrow>
     p \<noteq> [] \<and> last p = catalog_name m \<and> parent p \<noteq> [] \<and> sm_segment_id m = last (parent p) \<and>
     sm_source_id m = ct_source cat \<and> sm_runtime_epoch_id m = ct_epoch cat \<and>
     epoch_from_path p = ct_epoch cat"

definition sizes_match :: "seg_manifest \<Rightarrow> file_identity \<Rightarrow> file_identity \<Rightarrow> file_identity \<Rightarrow> bool" where
  "sizes_match m manifest metadata video \<longleftrightarrow>
     sm_metadata_size_bytes m = fi_size metadata \<and> sm_video_size_bytes m = fi_size video \<and>
     (sm_schema_version m \<in> {manifest_v2, manifest_v3} \<longrightarrow> manifest = metadata)"

definition add_entry ::
  "path \<Rightarrow> seg_manifest \<Rightarrow> file_identity \<Rightarrow> file_identity \<Rightarrow> file_identity \<Rightarrow> seg_catalog \<Rightarrow> seg_catalog" where
  "add_entry p m manifest metadata video cat =
     clear_pending p
       (cat\<lparr>ct_entries := dset p \<lparr>ix_segment = segment_of (parent p) m video, ix_manifest = manifest,
                                 ix_metadata = metadata, ix_video = video\<rparr> (ct_entries cat)\<rparr>)"

text \<open>The files of a new candidate, once its manifest is read.\<close>

definition index_files ::
  "index_config \<Rightarrow> disk \<Rightarrow> real \<Rightarrow> path \<Rightarrow> file_identity \<Rightarrow> seg_manifest \<Rightarrow> index_state \<Rightarrow> index_state" where
  "index_files cfg disk now p i m st =
     (case (dk_stat disk (child (parent p) (sm_metadata_file m)), dk_stat disk (child (parent p) (sm_video_file m))) of
        (Some metadata, Some video) \<Rightarrow>
          if fi_size metadata \<le> 0 \<or> fi_size video < ic_min_video_bytes cfg \<or>
             \<not> is_stable cfg now metadata \<or> \<not> is_stable cfg now video
          then candidate_retried p st
          else if \<not> sizes_match m i metadata video then candidate_failed p i st
          else (add_entry p m i metadata video (fst st), snd st)
      | _ \<Rightarrow> candidate_retried p st)"

definition parsed_candidate ::
  "index_config \<Rightarrow> disk \<Rightarrow> real \<Rightarrow> path \<Rightarrow> file_identity \<Rightarrow> index_state \<Rightarrow> index_state" where
  "parsed_candidate cfg disk now p i st =
     (case dk_content disk p of
        None \<Rightarrow> candidate_failed p i st
      | Some content \<Rightarrow>
          (case parse_manifest content of
             Inl _ \<Rightarrow> candidate_failed p i st
           | Inr m \<Rightarrow>
               if sm_schema_version m = manifest_v1 \<and> max_manifest_bytes < fi_size i
               then candidate_failed p i st
               else if \<not> manifest_matches (fst st) p m then candidate_failed p i st
               else index_files cfg disk now p i m st))"

text \<open>An entry whose catalog file is unchanged: its other files must be unchanged as well.\<close>

definition video_file_of :: "disk \<Rightarrow> path \<Rightarrow> indexed_segment \<Rightarrow> file_identity option" where
  "video_file_of disk p e =
     (case find (\<lambda>name. path_text (child (parent p) name) = rs_video_path (ix_segment e)) video_names of
        None \<Rightarrow> None
      | Some name \<Rightarrow> dk_stat disk (child (parent p) name))"

definition known_candidate :: "disk \<Rightarrow> path \<Rightarrow> file_identity \<Rightarrow> indexed_segment \<Rightarrow> index_state \<Rightarrow> index_state" where
  "known_candidate disk p i e st =
     (case (dk_stat disk (child (parent p) metadata_file), video_file_of disk p e) of
        (Some metadata, Some video) \<Rightarrow>
          if ix_metadata e = metadata \<and> ix_video e = video then (clear_pending p (fst st), snd st)
          else candidate_failed p i st
      | _ \<Rightarrow> candidate_waits p st)"

definition refresh_candidate :: "index_config \<Rightarrow> disk \<Rightarrow> real \<Rightarrow> path \<Rightarrow> index_state \<Rightarrow> index_state" where
  "refresh_candidate cfg disk now p st =
     (case dk_stat disk p of
        None \<Rightarrow> candidate_gone p st
      | Some i \<Rightarrow>
          if fi_size i \<le> 0 \<or> \<not> is_stable cfg now i then candidate_retried p st
          else if dget (ct_failed (fst st)) p = Some i then candidate_waits p st
          else (case dget (ct_entries (fst st)) p of
                  Some e \<Rightarrow> if ix_manifest e = i then known_candidate disk p i e st
                             else parsed_candidate cfg disk now p i st
                | None \<Rightarrow> parsed_candidate cfg disk now p i st))"

section \<open>Records of the publication journal\<close>

definition publication_error :: "string \<Rightarrow> 'a result" where
  "publication_error name = Inl (Value_Error (''rolling_segment_publication_'' @ name))"

definition check_that :: "bool \<Rightarrow> string \<Rightarrow> unit result" where
  "check_that ok name = (if ok then Inr () else publication_error name)"

definition publication_version :: string where
  "publication_version = ''rolling-segment-publication-v1''"

definition identity_field :: "string \<Rightarrow> pyval \<Rightarrow> int result" where
  "identity_field name v =
     (case v of
        PBool _ \<Rightarrow> publication_error (name @ ''_identity_invalid'')
      | _ \<Rightarrow> (case py_int v of
                Inl Overflow_Error \<Rightarrow> Inl Overflow_Error
              | Inl _ \<Rightarrow> publication_error (name @ ''_identity_invalid'')
              | Inr i \<Rightarrow> if i < 0 then publication_error (name @ ''_identity_invalid'') else Inr i))"

definition identity_of :: "(string \<times> pyval) list \<Rightarrow> string \<Rightarrow> file_identity result" where
  "identity_of identities name =
     (case pget identities name of
        PDict d \<Rightarrow>
          rbind (identity_field name (pget d ''device'')) (\<lambda>device.
          rbind (identity_field name (pget d ''inode'')) (\<lambda>inode.
          rbind (identity_field name (pget d ''size'')) (\<lambda>size_bytes.
          rbind (identity_field name (pget d ''mtime_ns'')) (\<lambda>mtime.
            Inr \<lparr>fi_device = device, fi_inode = inode, fi_size = size_bytes, fi_mtime_ns = mtime\<rparr>))))
      | _ \<Rightarrow> publication_error (name @ ''_identity_invalid''))"

text \<open>\<open>Path(segment_id).name == segment_id\<close>: one component and no parent.\<close>

definition plain_component :: "string \<Rightarrow> bool" where
  "plain_component s \<longleftrightarrow> s \<noteq> [] \<and> s \<noteq> ''.'' \<and> s \<noteq> ''..'' \<and> CHR ''/'' \<notin> set s"

definition check_identity :: "seg_catalog \<Rightarrow> (string \<times> pyval) list \<Rightarrow> seg_manifest \<Rightarrow> unit result" where
  "check_identity cat p m =
     rbind (check_that (pget p ''source_id'' = PStr (ct_source cat)) ''source_id_invalid'') (\<lambda>_.
     rbind (check_that (pget p ''runtime_epoch_id'' = PStr (ct_epoch cat)) ''runtime_epoch_id_invalid'') (\<lambda>_.
     rbind (check_that (pget p ''segment_id'' = PStr (sm_segment_id m)) ''segment_id_invalid'') (\<lambda>_.
     rbind (check_that (plain_component (sm_segment_id m)) ''segment_id_invalid'') (\<lambda>_.
       check_that (sm_source_id m = ct_source cat \<and> sm_runtime_epoch_id m = ct_epoch cat) ''identity_invalid''))))"

definition check_sizes ::
  "index_config \<Rightarrow> seg_manifest \<Rightarrow> file_identity \<Rightarrow> file_identity \<Rightarrow> file_identity \<Rightarrow> unit result" where
  "check_sizes cfg m manifest metadata video =
     rbind (check_that (0 < fi_size manifest \<and> fi_size metadata = sm_metadata_size_bytes m \<and>
         fi_size video = sm_video_size_bytes m \<and> ic_min_video_bytes cfg \<le> fi_size video) ''size_identity_invalid'') (\<lambda>_.
     rbind (check_that (\<not> (sm_schema_version m = manifest_v1 \<and> max_manifest_bytes < fi_size manifest))
         ''manifest_too_large'') (\<lambda>_.
     rbind (check_that (manifest = metadata \<or> sm_schema_version m \<noteq> manifest_v2) ''inode_alias_invalid'') (\<lambda>_.
       check_that (manifest = metadata \<or> sm_schema_version m \<noteq> manifest_v3) ''metadata_identity_invalid'')))"

definition enter_record ::
  "path \<Rightarrow> seg_manifest \<Rightarrow> file_identity \<Rightarrow> file_identity \<Rightarrow> file_identity \<Rightarrow> seg_catalog \<Rightarrow> seg_catalog result" where
  "enter_record dir m manifest metadata video cat =
     (let p = child (child dir (sm_segment_id m)) (catalog_name m)
      in rbind (check_that (epoch_from_path p = ct_epoch cat) ''epoch_path_invalid'') (\<lambda>_.
         case dget (ct_entries cat) p of
           Some e \<Rightarrow>
             rbind (check_that (ix_manifest e = manifest \<and> ix_metadata e = metadata \<and> ix_video e = video)
                ''immutable_identity_changed'') (\<lambda>_. Inr cat)
         | None \<Rightarrow>
             Inr ((add_entry p m manifest metadata video cat)
                    \<lparr>ct_containers := dpop (parent p) (ct_containers cat)\<rparr>)))"

text \<open>\<open>dir\<close> is the directory of the journal.\<close>

definition refresh_publication_record ::
  "index_config \<Rightarrow> path \<Rightarrow> (string \<times> pyval) list \<Rightarrow> seg_catalog \<Rightarrow> seg_catalog result" where
  "refresh_publication_record cfg dir p cat =
     rbind (check_that (pget p ''schema_version'' = PStr publication_version) ''schema_invalid'') (\<lambda>_.
     rbind (manifest_from_payload (pget p ''manifest'')) (\<lambda>m.
     rbind (check_identity cat p m) (\<lambda>_.
       case pget p ''identities'' of
         PDict ids \<Rightarrow>
           rbind (identity_of ids ''manifest'') (\<lambda>manifest.
           rbind (identity_of ids ''metadata'') (\<lambda>metadata.
           rbind (identity_of ids ''video'') (\<lambda>video.
           rbind (check_sizes cfg m manifest metadata video) (\<lambda>_.
             enter_record dir m manifest metadata video cat))))
       | _ \<Rightarrow> publication_error ''identities_invalid'')))"

section \<open>The invariant of a catalog\<close>

text \<open>
  An entry is the segment of an accepted manifest of this source and epoch, in the directory of
  its name, with the identities of its three files.
\<close>

definition entry_from :: "index_config \<Rightarrow> string \<Rightarrow> string \<Rightarrow> path \<Rightarrow> indexed_segment \<Rightarrow> seg_manifest \<Rightarrow> bool" where
  "entry_from cfg source epoch p e m \<longleftrightarrow>
     manifest_ok m \<and> sm_source_id m = source \<and> sm_runtime_epoch_id m = epoch \<and>
     p \<noteq> [] \<and> parent p \<noteq> [] \<and> last p = catalog_name m \<and> last (parent p) = sm_segment_id m \<and>
     epoch_from_path p = epoch \<and> ix_segment e = segment_of (parent p) m (ix_video e) \<and>
     0 < fi_size (ix_manifest e) \<and> ic_min_video_bytes cfg \<le> fi_size (ix_video e) \<and>
     sizes_match m (ix_manifest e) (ix_metadata e) (ix_video e)"

definition entry_ok :: "index_config \<Rightarrow> string \<Rightarrow> string \<Rightarrow> path \<Rightarrow> indexed_segment \<Rightarrow> bool" where
  "entry_ok cfg source epoch p e \<longleftrightarrow> (\<exists>m. entry_from cfg source epoch p e m)"

definition catalog_ok :: "index_config \<Rightarrow> seg_catalog \<Rightarrow> bool" where
  "catalog_ok cfg cat \<longleftrightarrow>
     dict_ok (ct_entries cat) \<and>
     (\<forall>p e. dget (ct_entries cat) p = Some e \<longrightarrow> entry_ok cfg (ct_source cat) (ct_epoch cat) p e) \<and>
     (\<forall>p \<in> ct_pending cat. dget (ct_entries cat) p = None) \<and>
     (\<forall>p i. dget (ct_failed cat) p = Some i \<longrightarrow> p \<in> ct_pending cat)"

named_theorems catalog_ops "the parts of a catalog after an operation"

lemma candidate_parts [catalog_ops]:
  "fst (remove_entry p (cat, rows)) = cat\<lparr>ct_entries := dpop p (ct_entries cat)\<rparr>"
  "candidate_gone p (cat, rows) = remove_entry p (clear_pending p cat, rows)"
  "candidate_retried p (cat, rows) = remove_entry p ((set_pending p cat)\<lparr>ct_failed := dpop p (ct_failed cat)\<rparr>, rows)"
  "candidate_waits p (cat, rows) = remove_entry p (set_pending p cat, rows)"
  "candidate_failed p i (cat, rows) = remove_entry p ((set_pending p cat)\<lparr>ct_failed := dset p i (ct_failed cat)\<rparr>, rows)"
  by (simp_all add: remove_entry_def candidate_gone_def candidate_retried_def candidate_waits_def candidate_failed_def)

lemma turned_away_ok [inv_intros]:
  assumes "catalog_ok cfg (fst st)"
  shows "catalog_ok cfg (fst (remove_entry p st))" "catalog_ok cfg (fst (candidate_gone p st))"
    "catalog_ok cfg (fst (candidate_retried p st))" "catalog_ok cfg (fst (candidate_waits p st))"
    "catalog_ok cfg (fst (candidate_failed p i st))"
  using assms
  by (cases st; auto simp: catalog_ops catalog_ok_def clear_pending_def set_pending_def dict_simps split: if_splits)+

lemma turned_away_removed:
  "dget (ct_entries (fst (remove_entry p st))) q = (if q = p then None else dget (ct_entries (fst st)) q)"
  "dget (ct_entries (fst (candidate_gone p st))) q = (if q = p then None else dget (ct_entries (fst st)) q)"
  "dget (ct_entries (fst (candidate_retried p st))) q = (if q = p then None else dget (ct_entries (fst st)) q)"
  "dget (ct_entries (fst (candidate_waits p st))) q = (if q = p then None else dget (ct_entries (fst st)) q)"
  "dget (ct_entries (fst (candidate_failed p i st))) q = (if q = p then None else dget (ct_entries (fst st)) q)"
  by (cases st; simp add: catalog_ops clear_pending_def set_pending_def dict_simps)+

lemma clear_pending_ok [inv_intros]: "catalog_ok cfg cat \<Longrightarrow> catalog_ok cfg (clear_pending p cat)"
  by (auto simp: catalog_ok_def clear_pending_def dict_simps split: if_splits)

lemma add_entry_ok:
  assumes "catalog_ok cfg cat"
    and "entry_from cfg (ct_source cat) (ct_epoch cat) p
      \<lparr>ix_segment = segment_of (parent p) m video, ix_manifest = manifest, ix_metadata = metadata, ix_video = video\<rparr> m"
  shows "catalog_ok cfg (add_entry p m manifest metadata video cat)"
  using assms
  by (auto simp: catalog_ok_def add_entry_def clear_pending_def dict_simps entry_ok_def split: if_splits)

lemma index_files_ok:
  assumes "catalog_ok cfg (fst st)" "manifest_ok m" "manifest_matches (fst st) p m" "0 < fi_size i"
  shows "catalog_ok cfg (fst (index_files cfg disk now p i m st))"
proof -
  have new: "catalog_ok cfg (add_entry p m i metadata video (fst st))"
    if "sizes_match m i metadata video" "ic_min_video_bytes cfg \<le> fi_size video" for metadata video
    by (rule add_entry_ok) (use assms that in \<open>auto simp: entry_from_def manifest_matches_def\<close>)
  show ?thesis
    using assms(1) by (auto simp: index_files_def not_less new turned_away_ok split: option.split)
qed

lemma parsed_candidate_ok:
  assumes "catalog_ok cfg (fst st)" "0 < fi_size i"
  shows "catalog_ok cfg (fst (parsed_candidate cfg disk now p i st))"
  using assms parse_manifest_ok
  by (auto simp: parsed_candidate_def turned_away_ok index_files_ok split: option.split sum.split)

theorem refresh_candidate_ok:
  assumes "catalog_ok cfg (fst st)"
  shows "catalog_ok cfg (fst (refresh_candidate cfg disk now p st))"
proof -
  have "catalog_ok cfg (fst (known_candidate disk p i e st))" for i e
    using assms by (auto simp: known_candidate_def turned_away_ok clear_pending_ok split: option.split)
  then show ?thesis
    using assms by (auto simp: refresh_candidate_def turned_away_ok parsed_candidate_ok split: option.split)
qed

lemma publication_error_Inr [simp]: "publication_error e \<noteq> Inr x"
  by (simp add: publication_error_def)

lemma check_that_Inr [simp]: "check_that ok e = Inr u \<longleftrightarrow> ok"
  by (simp add: check_that_def)

lemma check_identity_Inr:
  "check_identity cat p m = Inr u \<longleftrightarrow>
     pget p ''source_id'' = PStr (ct_source cat) \<and> pget p ''runtime_epoch_id'' = PStr (ct_epoch cat) \<and>
     pget p ''segment_id'' = PStr (sm_segment_id m) \<and> plain_component (sm_segment_id m) \<and>
     sm_source_id m = ct_source cat \<and> sm_runtime_epoch_id m = ct_epoch cat"
  by (auto simp: check_identity_def rbind_Inr_iff)

lemma check_sizes_Inr:
  "check_sizes cfg m manifest metadata video = Inr u \<longleftrightarrow>
     0 < fi_size manifest \<and> sizes_match m manifest metadata video \<and> ic_min_video_bytes cfg \<le> fi_size video \<and>
     \<not> (sm_schema_version m = manifest_v1 \<and> max_manifest_bytes < fi_size manifest)"
  by (auto simp: check_sizes_def rbind_Inr_iff sizes_match_def)

text \<open>A record is entered exactly when all its checks pass.\<close>

lemma refresh_publication_record_Inr:
  "refresh_publication_record cfg dir p cat = Inr cat' \<longleftrightarrow>
     pget p ''schema_version'' = PStr publication_version \<and>
     (\<exists>m ids manifest metadata video.
        manifest_from_payload (pget p ''manifest'') = Inr m \<and> check_identity cat p m = Inr () \<and>
        pget p ''identities'' = PDict ids \<and> identity_of ids ''manifest'' = Inr manifest \<and>
        identity_of ids ''metadata'' = Inr metadata \<and> identity_of ids ''video'' = Inr video \<and>
        check_sizes cfg m manifest metadata video = Inr () \<and>
        enter_record dir m manifest metadata video cat = Inr cat')"
proof (cases "pget p ''identities''")
  case (PDict ids)
  then show ?thesis by (simp add: refresh_publication_record_def rbind_Inr_iff)
qed (simp_all add: refresh_publication_record_def rbind_Inr_iff)

theorem refresh_publication_record_ok:
  assumes "refresh_publication_record cfg dir p cat = Inr cat'" "catalog_ok cfg cat"
  shows "catalog_ok cfg cat'"
proof -
  obtain m ids manifest metadata video where
    m: "manifest_from_payload (pget p ''manifest'') = Inr m" and idn: "check_identity cat p m = Inr ()"
    and sizes: "check_sizes cfg m manifest metadata video = Inr ()"
    and enter: "enter_record dir m manifest metadata video cat = Inr cat'"
    using assms(1) unfolding refresh_publication_record_Inr by blast
  define q where "q = child (child dir (sm_segment_id m)) (catalog_name m)"
  have epoch: "epoch_from_path q = ct_epoch cat"
    using enter by (auto simp: enter_record_def q_def Let_def rbind_Inr_iff)
  have "entry_from cfg (ct_source cat) (ct_epoch cat) q
      \<lparr>ix_segment = segment_of (parent q) m video, ix_manifest = manifest, ix_metadata = metadata, ix_video = video\<rparr> m"
    using accepted_manifest_ok [OF m] idn sizes epoch
    by (simp add: entry_from_def check_identity_Inr check_sizes_Inr q_def child_def parent_def butlast_append)
  then have new: "catalog_ok cfg (add_entry q m manifest metadata video cat)" by (rule add_entry_ok [OF assms(2)])
  have "cat' = cat \<or> (\<exists>cs. cat' = (add_entry q m manifest metadata video cat)\<lparr>ct_containers := cs\<rparr>)"
    using enter by (auto simp: enter_record_def Let_def rbind_Inr_iff q_def split: option.splits)
  then show ?thesis using assms(2) new by (auto simp: catalog_ok_def)
qed

section \<open>A refreshed entry describes the files on the disk\<close>

definition describes :: "disk \<Rightarrow> path \<Rightarrow> indexed_segment \<Rightarrow> bool" where
  "describes disk p e \<longleftrightarrow>
     dk_stat disk p = Some (ix_manifest e) \<and>
     dk_stat disk (child (parent p) metadata_file) = Some (ix_metadata e) \<and>
     (\<exists>name \<in> set video_names. rs_video_path (ix_segment e) = path_text (child (parent p) name) \<and>
        dk_stat disk (child (parent p) name) = Some (ix_video e))"

lemma index_files_describes:
  assumes "dget (ct_entries (fst (index_files cfg disk now p i m st))) p = Some e" "manifest_ok m" "dk_stat disk p = Some i"
  shows "describes disk p e"
proof -
  obtain metadata video where files: "dk_stat disk (child (parent p) (sm_metadata_file m)) = Some metadata"
      "dk_stat disk (child (parent p) (sm_video_file m)) = Some video"
    and e: "e = \<lparr>ix_segment = segment_of (parent p) m video, ix_manifest = i, ix_metadata = metadata, ix_video = video\<rparr>"
    using assms(1)
    by (auto simp: index_files_def turned_away_removed add_entry_def clear_pending_def dict_simps
        split: option.splits if_splits)
  then show ?thesis using assms(2,3) by (auto simp: describes_def manifest_ok_def segment_of_def)
qed

lemma parsed_candidate_describes:
  "dget (ct_entries (fst (parsed_candidate cfg disk now p i st))) p = Some e \<Longrightarrow> dk_stat disk p = Some i \<Longrightarrow>
   describes disk p e"
  by (auto simp: parsed_candidate_def turned_away_removed
      split: option.splits sum.splits if_splits intro: index_files_describes parse_manifest_ok)

lemma video_file_of_Some:
  "video_file_of disk p e = Some i \<Longrightarrow> \<exists>name \<in> set video_names.
     rs_video_path (ix_segment e) = path_text (child (parent p) name) \<and> dk_stat disk (child (parent p) name) = Some i"
  by (auto simp: video_file_of_def find_Some_iff split: option.splits) (metis nth_mem)

text \<open>
  an entry that a refresh leaves in the catalog describes the three files as they are on the
  disk at that moment.
\<close>

theorem refreshed_entry_describes_the_disk:
  assumes "dget (ct_entries (fst (refresh_candidate cfg disk now p st))) p = Some e"
  shows "describes disk p e"
proof (cases "dk_stat disk p")
  case None
  then show ?thesis using assms by (simp add: refresh_candidate_def turned_away_removed)
next
  case (Some i)
  have known: "describes disk p e'" if "dget (ct_entries (fst (known_candidate disk p i e' st))) p = Some e"
      "dget (ct_entries (fst st)) p = Some e'" "ix_manifest e' = i" for e'
    using that Some
    by (auto simp: known_candidate_def turned_away_removed describes_def
        split: option.splits if_splits dest: video_file_of_Some)
  have same: "e' = e" if "dget (ct_entries (fst (known_candidate disk p i e' st))) p = Some e"
      "dget (ct_entries (fst st)) p = Some e'" for e'
    using that by (auto simp: known_candidate_def turned_away_removed clear_pending_def split: option.splits if_splits)
  show ?thesis
    using assms Some known same parsed_candidate_describes [OF _ Some]
    by (auto simp: refresh_candidate_def turned_away_removed split: option.splits if_splits)
qed

definition demo_identity :: file_identity where
  "demo_identity = \<lparr>fi_device = 1, fi_inode = 7, fi_size = 2000, fi_mtime_ns = 0\<rparr>"

definition demo_path :: path where "demo_path = [''s1'', metadata_file]"

definition demo_disk :: disk where
  "demo_disk = \<lparr>dk_stat = (\<lambda>p. if parent p = [''s1''] then Some demo_identity else None), dk_content = (\<lambda>_. None)\<rparr>"

definition demo_entry :: indexed_segment where
  "demo_entry =
     \<lparr>ix_segment =
        \<lparr>rs_segment_id = ''s1'', rs_source_id = ''cam1'', rs_runtime_epoch_id = ''e1'', rs_directory = ''/s1'',
         rs_video_path = ''/s1/video.mov'', rs_metadata_path = ''/s1/'' @ metadata_file, rs_first_pts = 1, rs_last_pts = 2,
         rs_frame_count = 2, rs_size_bytes = 2000, rs_source_first_pts = None, rs_source_last_pts = None\<rparr>,
      ix_manifest = demo_identity, ix_metadata = demo_identity, ix_video = demo_identity\<rparr>"

definition demo_index :: index_state where
  "demo_index = ((empty_catalog ''cam1'' ''e1'')\<lparr>ct_entries := [(demo_path, demo_entry)]\<rparr>, empty_rows)"

theorem refreshed_entry_describes_the_disk_witness:
  "dget (ct_entries (fst (refresh_candidate \<lparr>ic_stability_age = 3, ic_min_video_bytes = 1024\<rparr> demo_disk 5 demo_path demo_index)))
     demo_path = Some demo_entry \<and> describes demo_disk demo_path demo_entry"
proof (intro conjI)
  show "dget (ct_entries (fst (refresh_candidate \<lparr>ic_stability_age = 3, ic_min_video_bytes = 1024\<rparr> demo_disk 5 demo_path
      demo_index))) demo_path = Some demo_entry"
    by (simp add: refresh_candidate_def known_candidate_def is_stable_def video_file_of_def video_names_def path_text_def
        child_def parent_def clear_pending_def demo_disk_def demo_path_def demo_identity_def demo_entry_def demo_index_def
        empty_catalog_def)
  then show "describes demo_disk demo_path demo_entry" by (rule refreshed_entry_describes_the_disk)
qed

end
