(* ===== verification/SegmentPublish.thy ===== *)
theory SegmentPublish
  imports SinkConfig SegmentCatalog
begin

text \<open>
  The publication of a segment by the rolling cache sink
  (services/rolling-cache-sink/app/publishing.py): the publisher of a source, the manifest of a
  fragment with its three layouts, and the record that announces it.  The devices, inodes and
  times that the file system gives to new files are arguments; the durations of the phases are
  left out.
\<close>

section \<open>The publisher\<close>

datatype metadata_layout = Split | Single_Inode | Metadata_Only

record publisher =
  pb_session :: string
  pb_epoch :: string
  pb_source :: string
  pb_slot_count :: int
  pb_slot_index :: int
  pb_file_sync :: string
  pb_layout :: metadata_layout

definition layout_of :: "string \<Rightarrow> metadata_layout option" where
  "layout_of s =
     (if s = ''split'' then Some Split else if s = ''single_inode'' then Some Single_Inode
      else if s = ''metadata_only'' then Some Metadata_Only else None)"

definition commit_slot :: "int \<Rightarrow> string \<Rightarrow> int" where
  "commit_slot slots source = (if 0 < slots then uint (crc32 source) mod slots else -1)"

definition publisher_init ::
  "string \<Rightarrow> string \<Rightarrow> string \<Rightarrow> string \<Rightarrow> bool \<Rightarrow> int \<Rightarrow> string \<Rightarrow> string \<Rightarrow> publisher result" where
  "publisher_init namespace epoch source session arbitration slots sync_mode layout =
     rbind (safe_component ''runtime_epoch_id'' epoch) (\<lambda>epoch.
     rbind (safe_component ''source_id'' source) (\<lambda>source.
     rbind (safe_component ''session_id'' session) (\<lambda>session.
     rbind (safe_component ''namespace'' namespace) (\<lambda>_.
       if \<not> (0 \<le> slots \<and> slots \<le> max_commit_slots) then Inl (Value_Error ''commit_slot_count'')
       else if arbitration \<and> 1 < slots then Inl (Value_Error ''commit_arbitration_enabled'')
       else
         let count = (if arbitration then 1 else slots);
             mode = py_lower (py_strip sync_mode)
         in if mode \<notin> {''fsync'', ''fdatasync''} then Inl (Value_Error ''file_sync_mode'')
            else case layout_of (py_lower (py_strip layout)) of
                   None \<Rightarrow> Inl (Value_Error ''metadata_layout'')
                 | Some l \<Rightarrow>
                     Inr \<lparr>pb_session = session, pb_epoch = epoch, pb_source = source, pb_slot_count = count,
                          pb_slot_index = commit_slot count source, pb_file_sync = mode, pb_layout = l\<rparr>))))"

definition publisher_ok :: "publisher \<Rightarrow> bool" where
  "publisher_ok pb \<longleftrightarrow> is_safe (pb_session pb) \<and> is_safe (pb_epoch pb) \<and> is_safe (pb_source pb)"

lemma publisher_init_ok: "publisher_init ns epoch source session arb slots sync layout = Inr pb \<Longrightarrow> publisher_ok pb"
  by (auto simp: publisher_init_def rbind_Inr_iff safe_component_Inr publisher_ok_def Let_def
      split: if_splits option.splits)

text \<open>\<open>f"{session}-{n:08d}"\<close>\<close>

definition pad8 :: "nat \<Rightarrow> string" where
  "pad8 n = replicate (8 - length (nat_dec n)) CHR ''0'' @ nat_dec n"

definition segment_id_of :: "publisher \<Rightarrow> nat \<Rightarrow> string" where
  "segment_id_of pb n = pb_session pb @ ''-'' @ pad8 n"

section \<open>The times of the rows\<close>

definition int_or_skip :: "pyval \<Rightarrow> int option result" where
  "int_or_skip v =
     (case v of
        PNone \<Rightarrow> Inr None
      | _ \<Rightarrow> (case py_int v of
                Inl Overflow_Error \<Rightarrow> Inl Overflow_Error
              | Inl _ \<Rightarrow> Inr None
              | Inr i \<Rightarrow> Inr (Some i)))"

definition sink_source_pts :: "(string \<times> pyval) list \<Rightarrow> int option result" where
  "sink_source_pts row = int_or_skip (dget_or row ''pts'' (pget row ''frame_pts''))"

definition sink_row_pts :: "(string \<times> pyval) list \<Rightarrow> int option result" where
  "sink_row_pts row =
     (case pget row ''rolling_cache_mux_pts'' of
        PNone \<Rightarrow> sink_source_pts row
      | v \<Rightarrow> int_or_skip v)"

definition pts_values ::
  "((string \<times> pyval) list \<Rightarrow> int option result) \<Rightarrow> (string \<times> pyval) list list \<Rightarrow> int list result" where
  "pts_values f rows = rbind (rmap f rows) (\<lambda>vs. Inr (List.map_filter id vs))"

section \<open>The manifest\<close>

definition json_line :: "(pyfloat \<Rightarrow> string) \<Rightarrow> (string \<times> pyval) list \<Rightarrow> string" where
  "json_line ft d = json_text ft (PDict d) @ [CHR 0x0A]"

definition layout_version :: "metadata_layout \<Rightarrow> string" where
  "layout_version l = (case l of Split \<Rightarrow> manifest_v1 | Single_Inode \<Rightarrow> manifest_v2 | Metadata_Only \<Rightarrow> manifest_v3)"

definition min_max :: "int list \<Rightarrow> pyval \<times> pyval" where
  "min_max vs = (if vs = [] then (PNone, PNone) else (PInt (Min (set vs)), PInt (Max (set vs))))"

definition manifest_doc ::
  "publisher \<Rightarrow> string \<Rightarrow> int list \<Rightarrow> int list \<Rightarrow> int \<Rightarrow> int \<Rightarrow> (string \<times> pyval) list" where
  "manifest_doc pb segment_id pts source_pts video_size metadata_size =
     [(''schema_version'', PStr (layout_version (pb_layout pb))),
      (''segment_id'', PStr segment_id),
      (''source_id'', PStr (pb_source pb)),
      (''runtime_epoch_id'', PStr (pb_epoch pb)),
      (''video_file'', PStr ''video.mov''),
      (''metadata_file'', PStr metadata_file),
      (''first_pts'', fst (min_max pts)),
      (''last_pts'', snd (min_max pts)),
      (''frame_count'', PInt (int (length pts))),
      (''source_first_pts'', fst (min_max source_pts)),
      (''source_last_pts'', snd (min_max source_pts)),
      (''video_size_bytes'', PInt video_size),
      (''metadata_size_bytes'', PInt metadata_size)]"

text \<open>
  The manifest as the first line of the metadata file states the size of the whole file, its own
  line included: the size is corrected until it does not change, in at most ten turns.
\<close>

fun embed_turns ::
  "nat \<Rightarrow> (pyfloat \<Rightarrow> string) \<Rightarrow> (int \<Rightarrow> (string \<times> pyval) list) \<Rightarrow> string \<Rightarrow> int \<Rightarrow> (int \<times> string) result" where
  "embed_turns 0 ft sized rows_text n =
     Inl (Runtime_Error ''rolling_segment_embedded_manifest_size_did_not_converge'')"
| "embed_turns (Suc k) ft sized rows_text n =
     (let payload = json_line ft (sized n) @ rows_text
      in if n = int (length payload) then Inr (n, payload)
         else embed_turns k ft sized rows_text (int (length payload)))"

definition embedded_payload ::
  "(pyfloat \<Rightarrow> string) \<Rightarrow> (int \<Rightarrow> (string \<times> pyval) list) \<Rightarrow> string \<Rightarrow> (int \<times> string) result" where
  "embedded_payload ft sized rows_text = embed_turns 10 ft sized rows_text 0"

text \<open>What the file system gives to a file that is written.\<close>

record file_node =
  nd_device :: int
  nd_inode :: int
  nd_mtime_ns :: int

definition written :: "file_node \<Rightarrow> string \<Rightarrow> file_identity" where
  "written nd content =
     \<lparr>fi_device = nd_device nd, fi_inode = nd_inode nd, fi_size = int (length content),
      fi_mtime_ns = nd_mtime_ns nd\<rparr>"

record staged =
  st_segment_id :: string
  st_manifest :: "(string \<times> pyval) list"
  st_manifest_stat :: file_identity
  st_metadata_stat :: file_identity
  st_video_stat :: file_identity
  st_first_pts :: int
  st_last_pts :: int
  st_metadata_content :: string

definition stage_split ::
  "(pyfloat \<Rightarrow> string) \<Rightarrow> file_node \<Rightarrow> file_node \<Rightarrow> (int \<Rightarrow> (string \<times> pyval) list) \<Rightarrow> string \<Rightarrow>
   int \<times> file_identity \<times> file_identity \<times> string" where
  "stage_split ft meta_node manifest_node sized rows_text =
     (let n = int (length rows_text)
      in (n, written manifest_node (json_line ft (sized n)), written meta_node rows_text, rows_text))"

definition stage_embedded ::
  "(pyfloat \<Rightarrow> string) \<Rightarrow> file_node \<Rightarrow> (int \<Rightarrow> (string \<times> pyval) list) \<Rightarrow> string \<Rightarrow>
   (int \<times> file_identity \<times> file_identity \<times> string) result" where
  "stage_embedded ft meta_node sized rows_text =
     rbind (embedded_payload ft sized rows_text) (\<lambda>(n, payload).
       Inr (n, written meta_node payload, written meta_node payload, payload))"

definition stage_files ::
  "(pyfloat \<Rightarrow> string) \<Rightarrow> metadata_layout \<Rightarrow> file_node \<Rightarrow> file_node \<Rightarrow> (int \<Rightarrow> (string \<times> pyval) list) \<Rightarrow> string \<Rightarrow>
   (int \<times> file_identity \<times> file_identity \<times> string) result" where
  "stage_files ft layout meta_node manifest_node sized rows_text =
     (case layout of
        Split \<Rightarrow> Inr (stage_split ft meta_node manifest_node sized rows_text)
      | _ \<Rightarrow> stage_embedded ft meta_node sized rows_text)"

text \<open>\<open>video\<close> is the identity of the video file, when there is one.\<close>

definition stage_publication ::
  "(pyfloat \<Rightarrow> string) \<Rightarrow> publisher \<Rightarrow> file_node \<Rightarrow> file_node \<Rightarrow> string \<Rightarrow> file_identity option \<Rightarrow>
   (string \<times> pyval) list list \<Rightarrow> staged result" where
  "stage_publication ft pb meta_node manifest_node segment_id video_file rows =
     (case video_file of
        None \<Rightarrow> Inl (Runtime_Error ''rolling_segment_video_missing'')
      | Some video \<Rightarrow>
          if fi_size video \<le> 0 then Inl (Runtime_Error ''rolling_segment_video_missing'')
          else
            rbind (pts_values sink_row_pts rows) (\<lambda>pts.
              if pts = [] then Inl (Runtime_Error ''rolling_segment_metadata_has_no_pts'')
              else
                rbind (pts_values sink_source_pts rows) (\<lambda>source_pts.
                  let sized = manifest_doc pb segment_id pts source_pts (fi_size video)
                  in rbind (stage_files ft (pb_layout pb) meta_node manifest_node sized
                              (concat (map (json_line ft) rows)))
                       (\<lambda>(n, manifest_stat, metadata_stat, content).
                         Inr \<lparr>st_segment_id = segment_id, st_manifest = sized n,
                              st_manifest_stat = manifest_stat, st_metadata_stat = metadata_stat,
                              st_video_stat = video, st_first_pts = Min (set pts),
                              st_last_pts = Max (set pts), st_metadata_content = content\<rparr>))))"

section \<open>The record\<close>

definition identity_payload :: "file_identity \<Rightarrow> pyval" where
  "identity_payload i =
     PDict [(''device'', PInt (fi_device i)), (''inode'', PInt (fi_inode i)), (''size'', PInt (fi_size i)),
            (''mtime_ns'', PInt (fi_mtime_ns i))]"

definition publication_record :: "staged \<Rightarrow> (string \<times> pyval) list" where
  "publication_record st =
     [(''schema_version'', PStr publication_version),
      (''source_id'', pget (st_manifest st) ''source_id''),
      (''runtime_epoch_id'', pget (st_manifest st) ''runtime_epoch_id''),
      (''segment_id'', pget (st_manifest st) ''segment_id''),
      (''manifest'', PDict (st_manifest st)),
      (''identities'', PDict [(''manifest'', identity_payload (st_manifest_stat st)),
                             (''metadata'', identity_payload (st_metadata_stat st)),
                             (''video'', identity_payload (st_video_stat st))])]"

definition canonical_text :: "(pyfloat \<Rightarrow> string) \<Rightarrow> (string \<times> pyval) list \<Rightarrow> string" where
  "canonical_text ft d = json_text ft (sort_keys (PDict d))"

definition record_checksum :: "(pyfloat \<Rightarrow> string) \<Rightarrow> (string \<times> pyval) list \<Rightarrow> string" where
  "record_checksum ft d = hex8 (crc32 (canonical_text ft d))"

definition max_record_bytes :: nat where "max_record_bytes = 128 * 1024"

definition record_text :: "(pyfloat \<Rightarrow> string) \<Rightarrow> (string \<times> pyval) list \<Rightarrow> string" where
  "record_text ft d = canonical_text ft (d @ [(''crc32'', PStr (record_checksum ft d))])"

definition publication_record_bytes :: "(pyfloat \<Rightarrow> string) \<Rightarrow> staged \<Rightarrow> string result" where
  "publication_record_bytes ft st =
     (let encoded = record_text ft (publication_record st) @ [CHR 0x0A]
      in if max_record_bytes < length encoded then Inl (Runtime_Error ''rolling_segment_publication_record_too_large'')
         else Inr encoded)"

end
