(* ===== verification/SegmentJournal.thy ===== *)
theory SegmentJournal
  imports SegmentPublish
begin

text \<open>
  The publication journal: the sink appends a record or replaces a full journal (publishing.py,
  \<open>_append_publication_record\<close>), the index consumes what was appended since its cursor
  (segment_index.py, \<open>_consume_publication_journal\<close>).  Appending and reading hold the lock of
  the journal, so a read never sees a part of a write.
\<close>

section \<open>Lines\<close>

text \<open>\<open>splitlines\<close> of bytes: a line ends with a line feed, a carriage return, or both.\<close>

fun split_lines :: "string \<Rightarrow> string \<Rightarrow> string list" where
  "split_lines acc [] = (if acc = [] then [] else [rev acc])"
| "split_lines acc (c # s) =
     (if c = CHR 0x0A then rev acc # split_lines [] s
      else if c = CHR 0x0D
      then rev acc # (case s of [] \<Rightarrow> [] | d # r \<Rightarrow> if d = CHR 0x0A then split_lines [] r else split_lines [] s)
      else split_lines (c # acc) s)"

text \<open>\<open>data[: data.rfind(b"\n") + 1]\<close>\<close>

definition complete_part :: "string \<Rightarrow> string" where
  "complete_part s = rev (dropWhile (\<lambda>c. c \<noteq> CHR 0x0A) (rev s))"

section \<open>The sink\<close>

record journal_file =
  jf_device :: int
  jf_inode :: int
  jf_content :: string

definition journal_max_bytes :: nat where "journal_max_bytes = 16 * 1024 * 1024"

text \<open>A journal that would grow beyond its limit is replaced by a new file with the record alone.\<close>

definition append_publication_record ::
  "int \<Rightarrow> int \<Rightarrow> string \<Rightarrow> journal_file option \<Rightarrow> journal_file" where
  "append_publication_record device new_inode encoded file =
     (case file of
        None \<Rightarrow> \<lparr>jf_device = device, jf_inode = new_inode, jf_content = encoded\<rparr>
      | Some j \<Rightarrow>
          if length (jf_content j) + length encoded \<le> journal_max_bytes
          then j\<lparr>jf_content := jf_content j @ encoded\<rparr>
          else \<lparr>jf_device = device, jf_inode = new_inode, jf_content = encoded\<rparr>)"

section \<open>The index\<close>

definition journal_name :: string where "journal_name = ''.segment-publications.jsonl''"

text \<open>One line: its value without the checksum, which must be that of the canonical text.\<close>

definition checked_record :: "(pyfloat \<Rightarrow> string) \<Rightarrow> string \<Rightarrow> (string \<times> pyval) list result" where
  "checked_record ft line =
     rbind (loads_result line) (\<lambda>v.
       case v of
         PDict d \<Rightarrow>
           (let p = dpop ''crc32'' d
            in if pget d ''crc32'' = PStr (record_checksum ft p) then Inr p
               else publication_error ''checksum_invalid'')
       | _ \<Rightarrow> publication_error ''not_object'')"

definition consume_record ::
  "index_config \<Rightarrow> (pyfloat \<Rightarrow> string) \<Rightarrow> path \<Rightarrow> string \<Rightarrow> seg_catalog \<Rightarrow> seg_catalog result" where
  "consume_record cfg ft dir line cat =
     rbind (checked_record ft line) (\<lambda>p. refresh_publication_record cfg dir p cat)"

text \<open>A line that is too long or refused asks for a reconciliation; the next line is read.\<close>

definition consume_line ::
  "index_config \<Rightarrow> (pyfloat \<Rightarrow> string) \<Rightarrow> path \<Rightarrow> string \<Rightarrow> seg_catalog \<times> bool \<Rightarrow> seg_catalog \<times> bool" where
  "consume_line cfg ft dir line = (\<lambda>(cat, reconcile).
     if line = [] then (cat, reconcile)
     else if max_record_bytes < length line then (cat, True)
     else case consume_record cfg ft dir line cat of
            Inl _ \<Rightarrow> (cat, True)
          | Inr cat' \<Rightarrow> (cat', reconcile))"

datatype journal_read = No_Journal | Journal_Error | Journal journal_file

definition cursor_reset :: "publication_cursor option \<Rightarrow> journal_file \<Rightarrow> bool" where
  "cursor_reset previous j \<longleftrightarrow>
     (case previous of
        None \<Rightarrow> False
      | Some c \<Rightarrow> (jf_device j, jf_inode j) \<noteq> (pj_device c, pj_inode c) \<or> length (jf_content j) < pj_offset c)"

definition read_start :: "publication_cursor option \<Rightarrow> journal_file \<Rightarrow> nat" where
  "read_start previous j =
     (case previous of None \<Rightarrow> 0 | Some c \<Rightarrow> if cursor_reset previous j then 0 else pj_offset c)"

definition set_cursor :: "path \<Rightarrow> journal_file \<Rightarrow> nat \<Rightarrow> seg_catalog \<Rightarrow> seg_catalog" where
  "set_cursor path j offset cat =
     cat\<lparr>ct_cursors := dset path \<lparr>pj_device = jf_device j, pj_inode = jf_inode j, pj_offset = offset\<rparr> (ct_cursors cat)\<rparr>"

definition consume_data ::
  "index_config \<Rightarrow> (pyfloat \<Rightarrow> string) \<Rightarrow> path \<Rightarrow> journal_file \<Rightarrow> bool \<Rightarrow> nat \<Rightarrow> seg_catalog \<Rightarrow> seg_catalog \<times> bool" where
  "consume_data cfg ft dir j reset start cat =
     (let complete = complete_part (drop start (jf_content j))
      in fold (consume_line cfg ft dir) (split_lines [] complete)
           (set_cursor (child dir journal_name) j (start + length complete) cat, reset))"

text \<open>The result: whether there is a journal, and whether a reconciliation is required.\<close>

definition consume_publication_journal ::
  "index_config \<Rightarrow> (pyfloat \<Rightarrow> string) \<Rightarrow> path \<Rightarrow> journal_read \<Rightarrow> seg_catalog \<Rightarrow> bool \<times> bool \<times> seg_catalog" where
  "consume_publication_journal cfg ft dir rd cat =
     (let path = child dir journal_name; previous = dget (ct_cursors cat) path
      in case rd of
           No_Journal \<Rightarrow>
             (if previous = None then (False, False, cat)
              else (False, True, cat\<lparr>ct_cursors := dpop path (ct_cursors cat)\<rparr>))
         | Journal_Error \<Rightarrow> (True, True, cat)
         | Journal j \<Rightarrow>
             (let start = read_start previous j
              in if journal_max_bytes + max_record_bytes < length (jf_content j) - start
                 then (True, True, set_cursor path j (length (jf_content j)) cat)
                 else let (cat', reconcile) = consume_data cfg ft dir j (cursor_reset previous j) start cat
                      in (True, reconcile, cat')))"

section \<open>The catalog stays consistent\<close>

lemma consume_line_ok: "catalog_ok cfg (fst st) \<Longrightarrow> catalog_ok cfg (fst (consume_line cfg ft dir line st))"
  by (cases st)
    (auto simp: consume_line_def consume_record_def rbind_Inr_iff split: sum.split
      intro: refresh_publication_record_ok)

lemma catalog_ok_cursors [simp]: "catalog_ok cfg (cat\<lparr>ct_cursors := cs\<rparr>) \<longleftrightarrow> catalog_ok cfg cat"
  by (simp add: catalog_ok_def)

lemma consume_data_ok: "catalog_ok cfg cat \<Longrightarrow> catalog_ok cfg (fst (consume_data cfg ft dir j reset start cat))"
proof -
  assume ok: "catalog_ok cfg cat"
  have "catalog_ok cfg (fst st) \<Longrightarrow> catalog_ok cfg (fst (fold (consume_line cfg ft dir) ls st))" for ls st
    by (induction ls arbitrary: st) (simp_all add: consume_line_ok)
  then show ?thesis using ok by (simp add: consume_data_def Let_def set_cursor_def)
qed

theorem consume_publication_journal_ok:
  "catalog_ok cfg cat \<Longrightarrow> catalog_ok cfg (snd (snd (consume_publication_journal cfg ft dir rd cat)))"
  using consume_data_ok
  by (auto simp: consume_publication_journal_def Let_def set_cursor_def case_prod_beta split: journal_read.split)

section \<open>Reading in pieces\<close>

lemma split_lines_append:
  "s \<noteq> [] \<Longrightarrow> last s = CHR 0x0A \<Longrightarrow> split_lines acc (s @ t) = split_lines acc s @ split_lines [] t"
proof (induction acc s rule: split_lines.induct)
  case (2 acc c s)
  show ?case
  proof (cases "s = []")
    case False
    then have lst: "last s = CHR 0x0A" using 2(6) by simp
    show ?thesis
    proof (cases "c = CHR 0x0D")
      case cr: True
      obtain d r where s: "s = d # r" using False by (cases s) auto
      show ?thesis
      proof (cases "d = CHR 0x0A \<and> r = []")
        case False
        then show ?thesis using 2(2,3) lst by (auto simp: cr s split: if_splits)
      qed (simp add: cr s)
    qed (use 2 lst False in auto)
  qed (use 2(6) in simp)
qed simp

lemma complete_part_append:
  "complete_part (s @ t) =
     (if CHR 0x0A \<in> set t then s @ complete_part t else complete_part s)"
  by (auto simp: complete_part_def dropWhile_append)

lemma complete_part_prefix: "\<exists>r. s = complete_part s @ r \<and> CHR 0x0A \<notin> set r"
proof -
  have "s = complete_part s @ rev (takeWhile (\<lambda>c. c \<noteq> CHR 0x0A) (rev s))"
    unfolding complete_part_def by (metis rev_append rev_rev_ident takeWhile_dropWhile_id)
  moreover have "CHR 0x0A \<notin> set (rev (takeWhile (\<lambda>c. c \<noteq> CHR 0x0A) (rev s)))"
    by (auto dest: set_takeWhileD)
  ultimately show ?thesis by blast
qed

lemma complete_part_last: "complete_part s = [] \<or> last (complete_part s) = CHR 0x0A"
  using hd_dropWhile [of "\<lambda>c. c \<noteq> CHR 0x0A" "rev s"] by (auto simp: complete_part_def last_rev)

end
