(* ===== verification/SegmentRoundTrip.thy ===== *)
theory SegmentRoundTrip
  imports SegmentPublish
begin

text \<open>
  What the sink publishes the index of the media worker accepts: the self-sized manifest always
  converges, and the record of a staged segment is read back and entered with its bounds.
\<close>

section \<open>The size of an embedded manifest converges\<close>

lemma nat_dec_length: "0 < k \<Longrightarrow> length (nat_dec n) \<le> k \<longleftrightarrow> n < 10 ^ k"
proof (induction n arbitrary: k rule: nat_dec.induct)
  case (1 n)
  show ?case
  proof (cases "n < 10")
    case True
    have "(10::nat) ^ 1 \<le> 10 ^ k" using 1(2) by (intro power_increasing) auto
    then show ?thesis using True 1(2) by (simp add: nat_dec.simps [of n] Suc_le_eq)
  next
    case False
    show ?thesis
    proof (cases "k = 1")
      case True
      then show ?thesis using False nat_dec_digits(2) [of "n div 10"] by (simp add: nat_dec.simps [of n])
    next
      case k: False
      obtain j where j: "k = Suc j" "0 < j" using k 1(2) by (cases k) auto
      have "length (nat_dec n) \<le> k \<longleftrightarrow> length (nat_dec (n div 10)) \<le> j"
        using False by (simp add: nat_dec.simps [of n] j(1))
      also have "\<dots> \<longleftrightarrow> n div 10 < 10 ^ j" using 1(1) [OF False j(2)] .
      also have "\<dots> \<longleftrightarrow> n < 10 ^ k" by (simp add: j(1) div_less_iff_less_mult mult.commute)
      finally show ?thesis .
    qed
  qed
qed

text \<open>A size that grows by less than its number of digits gains at most one digit.\<close>

lemma self_size_fixpoint:
  fixes c :: nat
  defines "next_size \<equiv> \<lambda>n. c + length (nat_dec n)"
  shows "next_size (next_size (next_size (next_size 0))) = next_size (next_size (next_size 0))"
proof -
  define k where "k = length (nat_dec (next_size 0))"
  have k: "0 < k" using nat_dec_digits(2) by (simp add: k_def)
  have n1: "next_size 0 = c + 1" by (simp add: next_size_def nat_dec.simps)
  have lt: "c + 1 < 10 ^ k" using nat_dec_length [OF k, of "c + 1"] by (simp add: k_def n1)
  have n2: "next_size (next_size 0) = c + k" by (simp add: next_size_def k_def)
  have "k < 10 ^ k" by (rule less_exp [THEN less_le_trans]) (simp add: power_mono)
  then have small: "c + k + 1 < 10 ^ Suc k" using lt k by simp
  show ?thesis
  proof (cases "length (nat_dec (c + k)) \<le> k")
    case True
    have "\<not> length (nat_dec (c + k)) < k"
    proof
      assume less: "length (nat_dec (c + k)) < k"
      then have k1: "0 < k - 1" using nat_dec_digits(2) [of "c + k"] by (cases "nat_dec (c + k)") auto
      have "length (nat_dec (c + k)) \<le> k - 1" using less by simp
      then have "c + 1 < 10 ^ (k - 1)" using nat_dec_length [OF k1, of "c + k"] k by simp
      then have "k \<le> k - 1" using nat_dec_length [OF k1, of "c + 1"] by (simp add: k_def n1)
      then show False using k by simp
    qed
    then show ?thesis using True by (simp add: n2) (simp add: next_size_def)
  next
    case False
    then have len: "length (nat_dec (c + k)) = Suc k"
      using nat_dec_length [of "Suc k" "c + k"] small by simp
    have "10 ^ k \<le> c + k" using nat_dec_length [OF k, of "c + k"] False by simp
    then have "\<not> length (nat_dec (c + Suc k)) \<le> k" using nat_dec_length [OF k, of "c + Suc k"] by simp
    then have "length (nat_dec (c + Suc k)) = Suc k"
      using nat_dec_length [of "Suc k" "c + Suc k"] small by simp
    then show ?thesis by (simp add: n2) (simp add: next_size_def len)
  qed
qed

lemma py_join_snoc: "xs \<noteq> [] \<Longrightarrow> py_join sep (xs @ [y]) = py_join sep xs @ sep @ y"
  by (induction sep xs rule: py_join.induct) auto

lemma manifest_line_length:
  "\<exists>c. \<forall>n. length (json_line ft (manifest_doc pb segment_id pts source_pts video_size (int n)) @ rows_text) =
     c + length (nat_dec n)"
proof -
  define m where "m = (\<lambda>(k, v). json_string k @ CHR '':'' # json_text ft v)"
  define d where "d = butlast (manifest_doc pb segment_id pts source_pts video_size 0)"
  have doc: "manifest_doc pb segment_id pts source_pts video_size (int n) = d @ [(''metadata_size_bytes'', PInt (int n))]" for n
    by (simp add: d_def manifest_doc_def)
  have "d \<noteq> []" by (simp add: d_def manifest_doc_def)
  then have "length (json_line ft (d @ [(''metadata_size_bytes'', PInt (int n))]) @ rows_text) =
      length (py_join '','' (map m d)) + length (json_string ''metadata_size_bytes'') + 5 + length rows_text + length (nat_dec n)" for n
    by (simp add: json_line_def py_join_snoc int_dec_def m_def del: json_string_def)
  then show ?thesis
    by (intro exI [of _ "length (py_join '','' (map m d)) + length (json_string ''metadata_size_bytes'') + 5 + length rows_text"])
      (simp add: doc)
qed

lemma embed_turns_fixpoint:
  assumes "\<And>n. length (json_line ft (sized (int n)) @ rows_text) = f n" "(f ^^ k) (f n) = (f ^^ k) n" "k < fuel"
  shows "\<exists>n'. embed_turns fuel ft sized rows_text (int n) = Inr (n', json_line ft (sized n') @ rows_text) \<and>
    n' = int (length (json_line ft (sized n') @ rows_text))"
  using assms(2,3)
proof (induction k arbitrary: n fuel)
  case 0
  then obtain fuel' where "fuel = Suc fuel'" by (cases fuel) auto
  then show ?case using 0 assms(1) [of n] by (simp del: length_append)
next
  case (Suc k)
  then obtain fuel' where fuel: "fuel = Suc fuel'" by (cases fuel) auto
  show ?case
  proof (cases "f n = n")
    case True
    then show ?thesis using assms(1) [of n] by (simp add: fuel del: length_append)
  next
    case False
    have "(f ^^ k) (f (f n)) = (f ^^ k) (f n)" using Suc.prems(1) by (simp add: funpow_swap1)
    from Suc.IH [OF this, of fuel'] Suc.prems(2) False show ?thesis
      using assms(1) [of n] by (simp add: fuel del: length_append)
  qed
qed

text \<open>The embedding ends with the manifest that states the size of its file.\<close>

lemma embedded_payload_value:
  "\<exists>n. embedded_payload ft (manifest_doc pb segment_id pts source_pts video_size) rows_text =
      Inr (n, json_line ft (manifest_doc pb segment_id pts source_pts video_size n) @ rows_text) \<and>
    n = int (length (json_line ft (manifest_doc pb segment_id pts source_pts video_size n) @ rows_text))"
proof -
  obtain c where c: "\<And>n. length (json_line ft (manifest_doc pb segment_id pts source_pts video_size (int n)) @ rows_text) =
      c + length (nat_dec n)"
    using manifest_line_length by blast
  have "((\<lambda>n. c + length (nat_dec n)) ^^ 3) (c + length (nat_dec 0)) = ((\<lambda>n. c + length (nat_dec n)) ^^ 3) 0"
    using self_size_fixpoint [of c] by (simp add: eval_nat_numeral)
  from embed_turns_fixpoint [OF c this, of 10] show ?thesis
    by (simp add: embedded_payload_def)
qed

lemma pts_values_error: "pts_values f rows = Inl e \<Longrightarrow> (\<And>r e. f r = Inl e \<Longrightarrow> e = Overflow_Error) \<Longrightarrow> e = Overflow_Error"
proof (induction rows arbitrary: e)
  case (Cons r rows)
  then show ?case
    by (auto simp: pts_values_def rbind_def split: sum.splits)
qed (simp add: pts_values_def)

lemma int_or_skip_error: "int_or_skip v = Inl e \<Longrightarrow> e = Overflow_Error"
  by (auto simp: int_or_skip_def split: pyval.splits sum.splits py_error.splits)

lemma row_pts_error:
  "sink_source_pts r = Inl e \<Longrightarrow> e = Overflow_Error"
  "sink_row_pts r = Inl e \<Longrightarrow> e = Overflow_Error"
  by (auto simp: sink_source_pts_def sink_row_pts_def int_or_skip_error split: pyval.splits)

text \<open>
  C20: in no layout does staging fail because the size of the manifest does not settle within the
  ten turns, and the manifest states the size of the metadata file that is written.
\<close>

theorem embedded_manifest_converges:
  "case stage_publication ft pb mn nn segment_id video rows of
     Inl e \<Rightarrow> e \<noteq> Runtime_Error ''rolling_segment_embedded_manifest_size_did_not_converge''
   | Inr st \<Rightarrow> pget (st_manifest st) ''metadata_size_bytes'' = PInt (int (length (st_metadata_content st))) \<and>
       fi_size (st_metadata_stat st) = int (length (st_metadata_content st))"
proof -
  let ?rows = "concat (map (json_line ft) rows)"
  let ?doc = "\<lambda>pts spts v. manifest_doc pb segment_id pts spts v"
  have files: "\<exists>n ms me content. stage_files ft (pb_layout pb) mn nn (?doc pts spts v) ?rows = Inr (n, ms, me, content) \<and>
      n = int (length content) \<and> fi_size me = n" for pts spts v
    using embedded_payload_value [of ft pb segment_id pts spts v ?rows]
    by (auto simp: stage_files_def stage_split_def stage_embedded_def written_def Let_def split: metadata_layout.splits)
  have size_stated: "pget (?doc pts spts v n) ''metadata_size_bytes'' = PInt n" for pts spts v n
    by (simp add: manifest_doc_def pget_def dget_or_def)
  show ?thesis
  proof (cases "stage_publication ft pb mn nn segment_id video rows")
    case (Inl e)
    consider "e = Runtime_Error ''rolling_segment_video_missing''"
      | "pts_values sink_row_pts rows = Inl e" | "e = Runtime_Error ''rolling_segment_metadata_has_no_pts''"
      | "pts_values sink_source_pts rows = Inl e"
      | pts spts v where "stage_files ft (pb_layout pb) mn nn (?doc pts spts v) ?rows = Inl e"
    proof (cases video)
      case None
      then show ?thesis using that(1) Inl by (simp add: stage_publication_def)
    next
      case (Some v)
      show ?thesis
      proof (cases "pts_values sink_row_pts rows")
        case left: (Inl a)
        then show ?thesis using that(1,2) Inl Some left by (auto simp: stage_publication_def rbind_def split: if_splits)
      next
        case (Inr pts)
        show ?thesis
        proof (cases "pts_values sink_source_pts rows")
          case left: (Inl a)
          then show ?thesis
            using that(1,3,4) Inl Some Inr left by (auto simp: stage_publication_def rbind_def split: if_splits)
        next
          case right: (Inr spts)
          then show ?thesis
            using that(1,3) that(5) [of pts spts "fi_size v"] Inl Some Inr files [of pts spts "fi_size v"] right
            by (auto simp: stage_publication_def rbind_def Let_def split: if_splits)
        qed
      qed
    qed
    then have "e \<noteq> Runtime_Error ''rolling_segment_embedded_manifest_size_did_not_converge''"
    proof cases
      case 2
      then have "e = Overflow_Error" by (rule pts_values_error) (rule row_pts_error(2))
      then show ?thesis by simp
    next
      case 4
      then have "e = Overflow_Error" by (rule pts_values_error) (rule row_pts_error(1))
      then show ?thesis by simp
    next
      case (5 pts spts v)
      then show ?thesis using files [of pts spts v] by auto
    qed simp_all
    then show ?thesis using Inl by simp
  next
    case (Inr st)
    then obtain pts spts v n ms me content where
      f: "stage_files ft (pb_layout pb) mn nn (?doc pts spts v) ?rows = Inr (n, ms, me, content)"
      and st: "st_manifest st = ?doc pts spts v n" "st_metadata_stat st = me" "st_metadata_content st = content"
      by (auto simp: stage_publication_def Let_def rbind_Inr_iff split: option.splits if_splits)
    then show ?thesis using files [of pts spts v] f Inr size_stated by auto
  qed
qed

end
