(* ===== verification/SegmentReplay.thy ===== *)
theory SegmentReplay
  imports SegmentJournal SegmentRoundTrip
begin

text \<open>
  The journal end to end: reading it piece by piece gives what one reading gives, a record of the
  sink is accepted by the index with the bounds of its rows, and in every run of publications and
  readings a segment is indexed or a reconciliation has been asked for.
\<close>

section \<open>Records do not touch the cursors\<close>

abbreviation with_cursors :: "(path \<times> publication_cursor) list \<Rightarrow> seg_catalog \<Rightarrow> seg_catalog" where
  "with_cursors cs cat \<equiv> cat\<lparr>ct_cursors := cs\<rparr>"

lemma enter_record_cursors:
  "enter_record dir m manifest metadata video (with_cursors cs cat) =
     map_sum id (with_cursors cs) (enter_record dir m manifest metadata video cat)"
  by (auto simp: enter_record_def Let_def rbind_def check_that_def publication_error_def add_entry_def
      clear_pending_def split: option.split)

lemma refresh_record_cursors:
  "refresh_publication_record cfg dir p (with_cursors cs cat) =
     map_sum id (with_cursors cs) (refresh_publication_record cfg dir p cat)"
proof -
  have idn: "check_identity (with_cursors cs cat) p m = check_identity cat p m" for m
    by (simp add: check_identity_def)
  have lift: "map_sum id (with_cursors cs) (rbind r f) = rbind r (\<lambda>x. map_sum id (with_cursors cs) (f x))"
    for r :: "'a result" and f by (cases r) simp_all
  have err: "map_sum id (with_cursors cs) (publication_error e) = publication_error e" for e
    by (simp add: publication_error_def)
  show ?thesis
    unfolding refresh_publication_record_def idn enter_record_cursors
    by (cases "pget p ''identities''") (simp_all add: lift err)
qed

lemma consume_line_cursors:
  "consume_line cfg ft dir line (with_cursors cs cat, r) =
     map_prod (with_cursors cs) (\<lambda>r'. r \<or> r') (consume_line cfg ft dir line (cat, False))"
  by (auto simp: consume_line_def consume_record_def refresh_record_cursors rbind_def split: sum.split)

lemma consume_lines_cursors:
  "fold (consume_line cfg ft dir) ls (with_cursors cs cat, r) =
     map_prod (with_cursors cs) (\<lambda>r'. r \<or> r') (fold (consume_line cfg ft dir) ls (cat, False))"
proof (induction ls arbitrary: cat r cs)
  case (Cons l ls)
  obtain cat1 r1 where l: "consume_line cfg ft dir l (cat, False) = (cat1, r1)" by fastforce
  have self: "cat1 = with_cursors (ct_cursors cat1) cat1" by simp
  have "fold (consume_line cfg ft dir) ls (cat1, r1) =
      map_prod (with_cursors (ct_cursors cat1)) (\<lambda>r'. r1 \<or> r') (fold (consume_line cfg ft dir) ls (cat1, False))"
    by (subst self) (rule Cons.IH)
  then show ?case using Cons.IH [of cs cat1 "r \<or> r1"] l
    by (cases "fold (consume_line cfg ft dir) ls (cat1, False)") (simp add: consume_line_cursors)
qed simp

lemma consume_lines_flag:
  "fold (consume_line cfg ft dir) ls (cat, r) =
     (fst (fold (consume_line cfg ft dir) ls (cat, False)), r \<or> snd (fold (consume_line cfg ft dir) ls (cat, False)))"
proof -
  have "ct_cursors (fst (consume_line cfg ft dir l st)) = ct_cursors (fst st)" for l st
    using consume_line_cursors [of cfg ft dir l "ct_cursors (fst st)" "fst st" "snd st"]
    by (cases st) (auto simp: consume_line_def)
  then have keep: "ct_cursors (fst (fold (consume_line cfg ft dir) ls st)) = ct_cursors (fst st)" for ls st
    by (induction ls arbitrary: st) simp_all
  show ?thesis
    using consume_lines_cursors [of cfg ft dir ls "ct_cursors cat" cat r] keep [of ls "(cat, False)"]
    by (cases "fold (consume_line cfg ft dir) ls (cat, False)") simp
qed

section \<open>Reading in pieces\<close>

definition grow :: "string \<Rightarrow> journal_file \<Rightarrow> journal_file" where
  "grow t j = j\<lparr>jf_content := jf_content j @ t\<rparr>"

text \<open>The cursor of the journal, when it has the journal's identity, does not lie behind its end.\<close>

definition cursor_valid :: "path \<Rightarrow> journal_file \<Rightarrow> seg_catalog \<Rightarrow> bool" where
  "cursor_valid dir j cat \<longleftrightarrow>
     (\<forall>c. dget (ct_cursors cat) (child dir journal_name) = Some c \<longrightarrow>
        (pj_device c, pj_inode c) = (jf_device j, jf_inode j) \<longrightarrow> pj_offset c \<le> length (jf_content j))"

definition readable :: "journal_file \<Rightarrow> bool" where
  "readable j \<longleftrightarrow> length (jf_content j) \<le> journal_max_bytes + max_record_bytes"

text \<open>One reading as the lines of the unread complete part.\<close>

lemma consume_readable:
  assumes "readable j"
  shows "consume_publication_journal cfg ft dir (Journal j) cat =
    (let previous = dget (ct_cursors cat) (child dir journal_name);
         start = read_start previous j;
         complete = complete_part (drop start (jf_content j));
         (cat', r) = fold (consume_line cfg ft dir) (split_lines [] complete) (cat, False)
     in (True, cursor_reset previous j \<or> r, set_cursor (child dir journal_name) j (start + length complete) (with_cursors (ct_cursors cat) cat')))"
proof -
  define previous where "previous = dget (ct_cursors cat) (child dir journal_name)"
  define start where "start = read_start previous j"
  define complete where "complete = complete_part (drop start (jf_content j))"
  obtain cat' r where f: "fold (consume_line cfg ft dir) (split_lines [] complete) (cat, False) = (cat', r)" by fastforce
  have "\<not> journal_max_bytes + max_record_bytes < length (jf_content j) - start"
    using assms by (simp add: readable_def)
  then show ?thesis
    using consume_lines_cursors [of cfg ft dir "split_lines [] complete" _ cat "cursor_reset previous j"] f
    by (simp add: consume_publication_journal_def consume_data_def Let_def set_cursor_def
        flip: previous_def start_def complete_def)
qed

lemma fold_lines_append:
  "s \<noteq> [] \<Longrightarrow> last s = CHR 0x0A \<Longrightarrow>
   fold f (split_lines [] (s @ t)) x = fold f (split_lines [] t) (fold f (split_lines [] s) x)"
  by (simp add: split_lines_append)

theorem consume_twice:
  assumes "readable (grow t j)" "cursor_valid dir j cat"
    and first: "consume_publication_journal cfg ft dir (Journal j) cat = (True, r1, cat1)"
    and again: "consume_publication_journal cfg ft dir (Journal (grow t j)) cat1 = (True, r2, cat2)"
  shows "consume_publication_journal cfg ft dir (Journal (grow t j)) cat = (True, r1 \<or> r2, cat2)"
    "cursor_valid dir j cat1 \<and> cursor_valid dir (grow t j) cat2"
proof -
  define path where "path = child dir journal_name"
  define previous where "previous = dget (ct_cursors cat) path"
  define start where "start = read_start previous j"
  define c1 where "c1 = complete_part (drop start (jf_content j))"
  obtain cat' r where f1: "fold (consume_line cfg ft dir) (split_lines [] c1) (cat, False) = (cat', r)" by fastforce
  have "readable j" using assms(1) by (simp add: readable_def grow_def)
  from first [unfolded consume_readable [OF this]] f1
  have r1: "r1 = (cursor_reset previous j \<or> r)"
    and cat1: "cat1 = set_cursor path j (start + length c1) (with_cursors (ct_cursors cat) cat')"
    by (simp_all add: Let_def flip: path_def previous_def start_def c1_def)
  obtain rest where rest: "drop start (jf_content j) = c1 @ rest" "CHR 0x0A \<notin> set rest"
    using complete_part_prefix [of "drop start (jf_content j)"] by (auto simp: c1_def)
  have start: "start \<le> length (jf_content j)"
    using assms(2) by (auto simp: start_def read_start_def cursor_reset_def cursor_valid_def previous_def path_def
        split: option.split)
  then have len: "length (jf_content j) = start + length c1 + length rest"
    using arg_cong [OF rest(1), of length] by simp
  have same: "cursor_reset previous (grow t j) = cursor_reset previous j" "read_start previous (grow t j) = start"
    using assms(2) by (auto simp: start_def read_start_def cursor_reset_def cursor_valid_def previous_def path_def grow_def
        split: option.split)
  have cur1: "dget (ct_cursors cat1) path =
      Some \<lparr>pj_device = jf_device j, pj_inode = jf_inode j, pj_offset = start + length c1\<rparr>"
    by (simp add: cat1 set_cursor_def dict_simps)
  have no_reset: "\<not> cursor_reset (dget (ct_cursors cat1) path) (grow t j)"
    "read_start (dget (ct_cursors cat1) path) (grow t j) = start + length c1"
    using len by (simp_all add: cur1 cursor_reset_def read_start_def grow_def)
  define c2 where "c2 = complete_part (rest @ t)"
  have drop2: "drop (start + length c1) (jf_content (grow t j)) = rest @ t"
  proof -
    have "drop (start + length c1) (jf_content j @ t) = drop (length c1) (drop start (jf_content j @ t))"
      by (metis drop_drop add.commute)
    also have "drop start (jf_content j @ t) = c1 @ rest @ t" using rest(1) start by simp
    finally show ?thesis by (simp add: grow_def)
  qed
  have whole: "complete_part (drop start (jf_content (grow t j))) = c1 @ c2"
  proof -
    have "drop start (jf_content (grow t j)) = (c1 @ rest) @ t" using rest(1) start by (simp add: grow_def)
    moreover have "complete_part (c1 @ rest) = c1" unfolding rest(1) [symmetric] c1_def [symmetric] ..
    moreover have "complete_part rest = []" using rest(2) by (auto simp: complete_part_def dropWhile_eq_Nil_conv)
    ultimately show ?thesis using rest(2) by (simp add: complete_part_append c2_def)
  qed
  obtain cat'' r' where f2: "fold (consume_line cfg ft dir) (split_lines [] c2) (cat', False) = (cat'', r')" by fastforce
  have f2': "fold (consume_line cfg ft dir) (split_lines [] c2) (cat1, False) = (with_cursors (ct_cursors cat1) cat'', r')"
    using consume_lines_cursors [of cfg ft dir "split_lines [] c2" "ct_cursors cat1" cat' False] f2
    by (simp add: cat1 set_cursor_def)
  from again [unfolded consume_readable [OF assms(1)]] f2'
  have r2: "r2 = r'"
    and cat2: "cat2 = set_cursor path (grow t j) (start + length c1 + length c2) (with_cursors (ct_cursors cat1) cat'')"
    using no_reset by (simp_all add: Let_def drop2 flip: path_def c2_def)
  have lines: "fold (consume_line cfg ft dir) (split_lines [] (c1 @ c2)) (cat, False) = (cat'', r \<or> r')"
  proof (cases "c1 = []")
    case True
    then show ?thesis using f1 f2 by simp
  next
    case False
    then have "last c1 = CHR 0x0A" using complete_part_last by (metis c1_def)
    then show ?thesis
      using False f1 f2 consume_lines_flag [of cfg ft dir "split_lines [] c2" cat' r] by (simp add: fold_lines_append)
  qed
  show "consume_publication_journal cfg ft dir (Journal (grow t j)) cat = (True, r1 \<or> r2, cat2)"
    unfolding consume_readable [OF assms(1)] path_def [symmetric] previous_def [symmetric] same whole Let_def lines
    by (simp add: r1 r2 cat1 cat2 set_cursor_def grow_def add.assoc)
  have "start + length c1 + length c2 \<le> length (jf_content (grow t j))"
    using arg_cong [OF whole, of length] complete_part_prefix [of "rest @ t"] len
    by (auto simp: grow_def c2_def) (metis add_le_cancel_left le_add1 length_append)
  then show "cursor_valid dir j cat1 \<and> cursor_valid dir (grow t j) cat2"
    using len by (simp add: cursor_valid_def cur1 cat2 set_cursor_def dict_simps flip: path_def)
qed

text \<open>A journal that grows by chunks, read after each of them; the flags are collected.\<close>

fun read_chunks ::
  "index_config \<Rightarrow> (pyfloat \<Rightarrow> string) \<Rightarrow> path \<Rightarrow> string list \<Rightarrow> journal_file \<Rightarrow> seg_catalog \<Rightarrow> bool \<times> seg_catalog" where
  "read_chunks cfg ft dir [] j cat = (False, cat)"
| "read_chunks cfg ft dir (t # ts) j cat =
     (let (_, r, cat1) = consume_publication_journal cfg ft dir (Journal (grow t j)) cat;
          (r', cat2) = read_chunks cfg ft dir ts (grow t j) cat1
      in (r \<or> r', cat2))"

lemma grow_grow [simp]: "grow u (grow t j) = grow (t @ u) j"
  by (simp add: grow_def)

lemma consume_readable_shape:
  "readable j \<Longrightarrow> \<exists>r cat'. consume_publication_journal cfg ft dir (Journal j) cat = (True, r, cat')"
  by (simp add: consume_readable Let_def case_prod_beta)

lemma read_chunks_whole:
  assumes "ts \<noteq> []" "readable (grow (concat ts) j)" "cursor_valid dir (grow (hd ts) j) cat"
  shows "consume_publication_journal cfg ft dir (Journal (grow (concat ts) j)) cat =
    (True, fst (read_chunks cfg ft dir ts j cat), snd (read_chunks cfg ft dir ts j cat))"
  using assms
proof (induction ts arbitrary: j cat)
  case (Cons t ts)
  have "readable (grow t j)" using Cons.prems(2) by (simp add: readable_def grow_def)
  then obtain r1 cat1 where one: "consume_publication_journal cfg ft dir (Journal (grow t j)) cat = (True, r1, cat1)"
    using consume_readable_shape by blast
  show ?case
  proof (cases "ts = []")
    case True
    then show ?thesis using one by simp
  next
    case False
    have valid: "cursor_valid dir (grow t j) cat" using Cons.prems(3) by simp
    have read: "readable (grow (concat ts) (grow t j))" using Cons.prems(2) by simp
    obtain r2 cat2 where rest: "consume_publication_journal cfg ft dir (Journal (grow (concat ts) (grow t j))) cat1 = (True, r2, cat2)"
      using consume_readable_shape [OF read] by blast
    have "cursor_valid dir (grow t j) cat1" using consume_twice(2) [OF read valid one rest] by blast
    then have "cursor_valid dir (grow (hd ts) (grow t j)) cat1" by (auto simp: cursor_valid_def grow_def)
    from Cons.IH [OF False read this] rest
    have "read_chunks cfg ft dir ts (grow t j) cat1 = (r2, cat2)" by (simp add: prod_eq_iff)
    then show ?thesis using one consume_twice(1) [OF read valid one rest] by simp
  qed
qed simp

text \<open>
  C19: a journal that is read after every piece that was appended, however the pieces cut its
  records, gives the same catalog and asks for a reconciliation in the same cases as one reading
  of the whole.
\<close>

theorem reading_in_pieces_is_reading_once:
  assumes "ts \<noteq> []" "length (concat ts) \<le> journal_max_bytes"
    and "dget (ct_cursors cat) (child dir journal_name) = None"
  shows "consume_publication_journal cfg ft dir
      (Journal \<lparr>jf_device = dev, jf_inode = ino, jf_content = concat ts\<rparr>) cat =
    (True, read_chunks cfg ft dir ts \<lparr>jf_device = dev, jf_inode = ino, jf_content = []\<rparr> cat)"
proof -
  let ?j = "\<lparr>jf_device = dev, jf_inode = ino, jf_content = []\<rparr>"
  have "readable (grow (concat ts) ?j)" using assms(2) by (simp add: readable_def grow_def)
  moreover have "cursor_valid dir (grow (hd ts) ?j) cat" using assms(3) by (simp add: cursor_valid_def)
  ultimately have "consume_publication_journal cfg ft dir (Journal (grow (concat ts) ?j)) cat =
      (True, fst (read_chunks cfg ft dir ts ?j cat), snd (read_chunks cfg ft dir ts ?j cat))"
    by (rule read_chunks_whole [OF assms(1)])
  then show ?thesis by (simp add: grow_def)
qed

theorem reading_in_pieces_is_reading_once_witness:
  "consume_publication_journal \<lparr>ic_stability_age = 1, ic_min_video_bytes = 1024\<rparr> (\<lambda>_. []) [''segments'']
      (Journal \<lparr>jf_device = 1, jf_inode = 2, jf_content = ''{1'' @ [CHR 0x0A, CHR ''{'']\<rparr>) (empty_catalog ''cam1'' ''e1'') =
    (True, read_chunks \<lparr>ic_stability_age = 1, ic_min_video_bytes = 1024\<rparr> (\<lambda>_. []) [''segments'']
       [''{1'', [CHR 0x0A, CHR ''{'']] \<lparr>jf_device = 1, jf_inode = 2, jf_content = []\<rparr> (empty_catalog ''cam1'' ''e1''))"
  using reading_in_pieces_is_reading_once
    [of "[''{1'', [CHR 0x0A, CHR ''{'']]" "empty_catalog ''cam1'' ''e1''" "[''segments'']"]
  by (simp add: journal_max_bytes_def empty_catalog_def)

section \<open>A record is read back\<close>

abbreviation sorted_children :: "(string \<times> pyval) list \<Rightarrow> (string \<times> pyval) list" where
  "sorted_children d \<equiv> map (\<lambda>(k, v). (k, sort_keys v)) d"

lemma sorted_children_fst: "map fst (sorted_children d) = map fst d"
  by (simp add: case_prod_beta)

lemma map_of_mset: "mset d = mset e \<Longrightarrow> distinct (map fst d) \<Longrightarrow> map_of d = map_of e"
  by (metis map_of_inject_set mset_eq_imp_distinct_iff mset_eq_setD mset_map)

lemma sort_keys_get:
  assumes "distinct (map fst d)" "sort_keys (PDict d) = PDict e"
  shows "pget e k = sort_keys (pget d k)" "distinct (map fst e)" "mset e = mset (sorted_children d)"
proof -
  have e: "e = sort_key fst (sorted_children d)" using assms(2) by simp
  show m: "mset e = mset (sorted_children d)" by (simp add: e)
  have dist: "distinct (map fst (sorted_children d))" using assms(1) by (simp only: sorted_children_fst)
  then show "distinct (map fst e)" by (metis m mset_map mset_eq_imp_distinct_iff)
  have "map_of e k = map_of (sorted_children d) k" using map_of_mset [OF m [symmetric] dist] by simp
  also have "\<dots> = map_option sort_keys (map_of d k)" by (induction d) (auto split: if_splits)
  finally show "pget e k = sort_keys (pget d k)"
    by (simp add: pget_def dget_or_def split: option.split)
qed

lemma sorted_children_idem: "list_all (\<lambda>(_, v). plain_json v) d \<Longrightarrow> sorted_children (sorted_children d) = sorted_children d"
  by (auto simp: list_all_iff sort_keys_idem)

theorem checked_record_round_trip:
  assumes plain: "plain_json (PDict d)" and free: "dget d ''crc32'' = None"
  shows "\<exists>p. checked_record ft (record_text ft d) = Inr p \<and> (\<forall>k. k \<noteq> ''crc32'' \<longrightarrow> pget p k = sort_keys (pget d k))"
proof -
  define crc where "crc = ''crc32''"
  define full where "full = d @ [(crc, PStr (record_checksum ft d))]"
  have dist: "distinct (map fst d)" using plain by simp
  have fresh: "crc \<notin> fst ` set d" using free by (simp add: map_of_eq_None_iff crc_def)
  then have full: "plain_json (PDict full)" using plain by (simp add: full_def)
  obtain e where e: "sort_keys (PDict full) = PDict e" by simp
  note get = sort_keys_get [OF _ e]
  have dist_full: "distinct (map fst full)" using full by simp
  have "json_loads (json_text ft (sort_keys (PDict full))) = Some (sort_keys (PDict full))"
    by (rule json_round_trip [OF sort_keys_plain [OF full]])
  then have loaded: "loads_result (record_text ft d) = Inr (PDict e)"
    unfolding loads_result_def record_text_def canonical_text_def crc_def [symmetric] full_def [symmetric] e
    by (simp only: option.case)
  define p where "p = dpop crc e"
  have "mset p = mset (dpop crc (sorted_children full))"
    unfolding p_def AList.delete_eq mset_filter get(3) [OF dist_full] ..
  also have "dpop crc (sorted_children full) = sorted_children d"
    using fresh by (force simp: full_def AList.delete_eq filter_id_conv)
  finally have p: "mset p = mset (sorted_children d)" .
  have "mset (map fst p) = mset (map fst (sorted_children d))" unfolding mset_map p ..
  then have "distinct (map fst p) = distinct (map fst d)"
    unfolding sorted_children_fst by (rule mset_eq_imp_distinct_iff)
  then have dist_p: "distinct (map fst p)" using dist by blast
  have children: "sorted_children (sorted_children d) = sorted_children d"
    by (rule sorted_children_idem) (use plain in simp)
  have "sort_keys (PDict p) = sort_keys (PDict (sorted_children d))" by (rule sort_keys_canonical [OF p dist_p])
  also have "\<dots> = sort_keys (PDict d)"
    unfolding sort_keys.simps children ..
  finally have "record_checksum ft p = record_checksum ft d" by (simp add: record_checksum_def canonical_text_def)
  moreover have "pget e crc = PStr (record_checksum ft d)"
    using get(1) [OF dist_full, of crc] fresh
    by (simp add: full_def pget_def dget_or_def map_add_def map_of_eq_None_iff [THEN iffD2])
  ultimately have "checked_record ft (record_text ft d) = Inr p"
    unfolding checked_record_def loaded by (simp add: Let_def p_def flip: crc_def)
  moreover have "pget p k = sort_keys (pget d k)" if "k \<noteq> crc" for k
    using get(1) [OF dist_full, of k] that
    by (simp add: p_def pget_def dget_or_def dict_simps full_def map_add_def split: option.splits)
  ultimately show ?thesis by (auto simp: crc_def)
qed

section \<open>What is published is accepted\<close>

text \<open>\<open>e\<close> is the dictionary \<open>d\<close> with its keys sorted.\<close>

definition sorted_dict :: "(string \<times> pyval) list \<Rightarrow> (string \<times> pyval) list \<Rightarrow> bool" where
  "sorted_dict d e \<longleftrightarrow> (\<forall>k. pget e k = sort_keys (pget d k))"

lemma sort_keys_dict: "distinct (map fst d) \<Longrightarrow> \<exists>e. sort_keys (PDict d) = PDict e \<and> sorted_dict d e"
  using sort_keys_get(1) [of d] by (auto simp: sorted_dict_def)

lemma manifest_doc_get:
  "pget (manifest_doc pb i pts spts v m) ''schema_version'' = PStr (layout_version (pb_layout pb))"
  "pget (manifest_doc pb i pts spts v m) ''segment_id'' = PStr i"
  "pget (manifest_doc pb i pts spts v m) ''source_id'' = PStr (pb_source pb)"
  "pget (manifest_doc pb i pts spts v m) ''runtime_epoch_id'' = PStr (pb_epoch pb)"
  "pget (manifest_doc pb i pts spts v m) ''video_file'' = PStr ''video.mov''"
  "pget (manifest_doc pb i pts spts v m) ''metadata_file'' = PStr metadata_file"
  "pget (manifest_doc pb i pts spts v m) ''first_pts'' = fst (min_max pts)"
  "pget (manifest_doc pb i pts spts v m) ''last_pts'' = snd (min_max pts)"
  "pget (manifest_doc pb i pts spts v m) ''frame_count'' = PInt (int (length pts))"
  "pget (manifest_doc pb i pts spts v m) ''source_first_pts'' = fst (min_max spts)"
  "pget (manifest_doc pb i pts spts v m) ''source_last_pts'' = snd (min_max spts)"
  "pget (manifest_doc pb i pts spts v m) ''video_size_bytes'' = PInt v"
  "pget (manifest_doc pb i pts spts v m) ''metadata_size_bytes'' = PInt m"
  by (simp_all add: manifest_doc_def pget_def dget_or_def)

lemma manifest_doc_plain: "plain_json (PDict (manifest_doc pb i pts spts v m))"
  by (simp add: manifest_doc_def min_max_def)

definition bound_of :: "(int set \<Rightarrow> int) \<Rightarrow> int list \<Rightarrow> int option" where
  "bound_of f vs = (if vs = [] then None else Some (f (set vs)))"

definition published_manifest :: "publisher \<Rightarrow> string \<Rightarrow> int list \<Rightarrow> int list \<Rightarrow> int \<Rightarrow> int \<Rightarrow> seg_manifest" where
  "published_manifest pb i pts spts v m =
     \<lparr>sm_schema_version = layout_version (pb_layout pb), sm_segment_id = i, sm_source_id = pb_source pb,
      sm_runtime_epoch_id = pb_epoch pb, sm_video_file = ''video.mov'', sm_metadata_file = metadata_file,
      sm_first_pts = Min (set pts), sm_last_pts = Max (set pts), sm_frame_count = int (length pts),
      sm_source_first_pts = bound_of Min spts, sm_source_last_pts = bound_of Max spts,
      sm_video_size_bytes = v, sm_metadata_size_bytes = m\<rparr>"

lemma checked_int_PInt [simp]: "checked_int name (PInt i) = Inr i"
  by (simp add: checked_int_def)

lemma manifest_doc_accepted:
  assumes "publisher_ok pb" "i \<noteq> []" "pts \<noteq> []" "1 \<le> v" "1 \<le> m"
    and "sorted_dict (manifest_doc pb i pts spts v m) e"
  shows "manifest_from_payload (PDict e) = Inr (published_manifest pb i pts spts v m)"
proof -
  have get: "pget e k = sort_keys (pget (manifest_doc pb i pts spts v m) k)" for k
    using assms(6) by (simp add: sorted_dict_def)
  note gets = manifest_doc_get [of pb i pts spts v m]
  have texts: "required_text e ''video_file'' = Inr ''video.mov''" "required_text e ''metadata_file'' = Inr metadata_file"
    "required_text e ''segment_id'' = Inr i" "required_text e ''source_id'' = Inr (pb_source pb)"
    "required_text e ''runtime_epoch_id'' = Inr (pb_epoch pb)"
    using assms(1,2) by (simp_all add: required_text_Inr get gets metadata_file_def publisher_ok_def is_safe_def)
  have ints: "required_int e ''first_pts'' None = Inr (Min (set pts))" "required_int e ''last_pts'' None = Inr (Max (set pts))"
    "required_int e ''frame_count'' (Some 1) = Inr (int (length pts))"
    "required_int e ''video_size_bytes'' (Some 1) = Inr v" "required_int e ''metadata_size_bytes'' (Some 1) = Inr m"
    using assms(3-5) by (simp_all add: required_int_def get gets min_max_def not_less Suc_le_eq)
  have options: "optional_int e ''source_first_pts'' = Inr (bound_of Min spts)"
    "optional_int e ''source_last_pts'' = Inr (bound_of Max spts)"
    by (simp_all add: optional_int_def get gets min_max_def bound_of_def)
  have version: "manifest_version (pget e ''schema_version'') = Inr (layout_version (pb_layout pb))"
    by (simp add: manifest_version_Inr get gets layout_version_def split: metadata_layout.split)
  have "Min (set pts) \<le> Max (set pts)" using assms(3) by simp
  moreover have "source_bounds_ok (bound_of Min spts) (bound_of Max spts)"
    by (simp add: source_bounds_ok_def bound_of_def)
  moreover have "(bound_of Min spts = None) = (bound_of Max spts = None)" by (simp add: bound_of_def)
  moreover have "''video.mov'' \<in> set video_names" by (simp add: video_names_def)
  ultimately show ?thesis
    unfolding manifest_from_payload_def pyval.case version texts ints options rbind_simps
    by (simp add: guard_that_def published_manifest_def)
qed

definition identity_nonneg :: "file_identity \<Rightarrow> bool" where
  "identity_nonneg i \<longleftrightarrow> 0 \<le> fi_device i \<and> 0 \<le> fi_inode i \<and> 0 \<le> fi_size i \<and> 0 \<le> fi_mtime_ns i"

lemma identity_round_trip:
  assumes "pget ids name = sort_keys (identity_payload i)" "identity_nonneg i"
  shows "identity_of ids name = Inr i"
proof -
  define d where "d = [(''device'', PInt (fi_device i)), (''inode'', PInt (fi_inode i)), (''size'', PInt (fi_size i)),
            (''mtime_ns'', PInt (fi_mtime_ns i))]"
  have "distinct (map fst d)" by (simp add: d_def)
  then obtain e where e: "sort_keys (PDict d) = PDict e" "sorted_dict d e" using sort_keys_dict by blast
  have "pget d ''device'' = PInt (fi_device i)" "pget d ''inode'' = PInt (fi_inode i)"
    "pget d ''size'' = PInt (fi_size i)" "pget d ''mtime_ns'' = PInt (fi_mtime_ns i)"
    by (simp_all add: d_def pget_def dget_or_def)
  then have "pget e ''device'' = PInt (fi_device i)" "pget e ''inode'' = PInt (fi_inode i)"
    "pget e ''size'' = PInt (fi_size i)" "pget e ''mtime_ns'' = PInt (fi_mtime_ns i)"
    using e(2) by (simp_all add: sorted_dict_def)
  moreover have "pget ids name = PDict e"
    using assms(1) e(1) by (simp only: identity_payload_def d_def)
  ultimately show ?thesis
    using assms(2) by (simp add: identity_of_def identity_field_def identity_nonneg_def not_less)
qed

text \<open>What a staged segment is, in all three layouts.\<close>

definition staged_as ::
  "publisher \<Rightarrow> string \<Rightarrow> file_identity \<Rightarrow> int list \<Rightarrow> int list \<Rightarrow> staged \<Rightarrow> bool" where
  "staged_as pb i video pts spts st \<longleftrightarrow>
     pts \<noteq> [] \<and> 0 < fi_size video \<and> st_video_stat st = video \<and> st_segment_id st = i \<and>
     st_manifest st = manifest_doc pb i pts spts (fi_size video) (fi_size (st_metadata_stat st)) \<and>
     1 \<le> fi_size (st_metadata_stat st) \<and> 1 \<le> fi_size (st_manifest_stat st) \<and>
     (pb_layout pb \<noteq> Split \<longrightarrow> st_manifest_stat st = st_metadata_stat st) \<and>
     st_first_pts st = Min (set pts) \<and> st_last_pts st = Max (set pts)"

lemma json_line_length: "1 \<le> length (json_line ft d)"
  by (simp add: json_line_def)

lemma stage_publication_Inr:
  assumes "stage_publication ft pb mn nn i (Some video) rows = Inr st"
  shows "\<exists>pts spts. pts_values sink_row_pts rows = Inr pts \<and> pts_values sink_source_pts rows = Inr spts \<and>
    staged_as pb i video pts spts st"
proof -
  have size: "0 < fi_size video" using assms by (auto simp: stage_publication_def split: if_splits)
  obtain pts where pts: "pts_values sink_row_pts rows = Inr pts" "pts \<noteq> []"
    using assms size by (auto simp: stage_publication_def rbind_Inr_iff split: if_splits)
  obtain spts where spts: "pts_values sink_source_pts rows = Inr spts"
    using assms size pts by (auto simp: stage_publication_def rbind_Inr_iff split: if_splits)
  define sized where "sized = manifest_doc pb i pts spts (fi_size video)"
  define body where "body = concat (map (json_line ft) rows)"
  obtain n ms md content where files: "stage_files ft (pb_layout pb) mn nn sized body = Inr (n, ms, md, content)"
    and st: "st = \<lparr>st_segment_id = i, st_manifest = sized n, st_manifest_stat = ms, st_metadata_stat = md,
      st_video_stat = video, st_first_pts = Min (set pts), st_last_pts = Max (set pts), st_metadata_content = content\<rparr>"
    using assms size pts spts
    by (auto simp: stage_publication_def Let_def sized_def body_def rbind_Inr_iff split: if_splits)
  have "rows \<noteq> []" using pts by (auto simp: pts_values_def)
  then obtain r rs where "rows = r # rs" by (cases rows) auto
  then have body1: "1 \<le> length body" using json_line_length [of ft r] by (simp add: body_def)
  have "n = fi_size md \<and> 1 \<le> fi_size md \<and> 1 \<le> fi_size ms \<and> (pb_layout pb \<noteq> Split \<longrightarrow> ms = md)"
  proof (cases "pb_layout pb = Split")
    case True
    then show ?thesis using files body1 json_line_length [of ft "sized n"]
      by (auto simp: stage_files_def stage_split_def Let_def written_def)
  next
    case False
    obtain n' where emb: "embedded_payload ft sized body = Inr (n', json_line ft (sized n') @ body)"
        "n' = int (length (json_line ft (sized n') @ body))"
      using embedded_payload_value [of ft pb i pts spts "fi_size video" body] by (auto simp: sized_def)
    have "stage_files ft (pb_layout pb) mn nn sized body = stage_embedded ft mn sized body"
      using False by (cases "pb_layout pb") (simp_all add: stage_files_def)
    then have "n = n'" "ms = md" "md = written mn (json_line ft (sized n') @ body)"
      using files emb(1) by (simp_all add: stage_embedded_def)
    then show ?thesis using emb(2) body1 by (simp add: written_def)
  qed
  then have "staged_as pb i video pts spts st"
    using pts(2) size by (simp add: staged_as_def st sized_def)
  then show ?thesis using pts(1) spts by blast
qed

lemma publication_record_plain:
  assumes "staged_as pb i video pts spts st"
  shows "plain_json (PDict (publication_record st))" "dget (publication_record st) ''crc32'' = None"
proof -
  have m: "st_manifest st = manifest_doc pb i pts spts (fi_size video) (fi_size (st_metadata_stat st))"
    using assms by (simp add: staged_as_def)
  show "plain_json (PDict (publication_record st))"
    using manifest_doc_plain [of pb i pts spts "fi_size video" "fi_size (st_metadata_stat st)"]
    by (simp add: publication_record_def manifest_doc_get m identity_payload_def)
  show "dget (publication_record st) ''crc32'' = None" by (simp add: publication_record_def)
qed

lemma publication_record_get:
  "pget (publication_record st) ''schema_version'' = PStr publication_version"
  "pget (publication_record st) ''source_id'' = pget (st_manifest st) ''source_id''"
  "pget (publication_record st) ''runtime_epoch_id'' = pget (st_manifest st) ''runtime_epoch_id''"
  "pget (publication_record st) ''segment_id'' = pget (st_manifest st) ''segment_id''"
  "pget (publication_record st) ''manifest'' = PDict (st_manifest st)"
  "pget (publication_record st) ''identities'' =
     PDict [(''manifest'', identity_payload (st_manifest_stat st)), (''metadata'', identity_payload (st_metadata_stat st)),
            (''video'', identity_payload (st_video_stat st))]"
  by (simp_all add: publication_record_def pget_def dget_or_def)

text \<open>
  A record as the index sees it: all its checks reduce to the catalog's source and epoch, the
  smallest size of a video, the limit of a separate manifest, and the path.
\<close>

lemma staged_record_enters:
  assumes st: "staged_as pb i video pts spts st" and pb: "publisher_ok pb" and i: "plain_component i"
    and ids: "identity_nonneg (st_manifest_stat st)" "identity_nonneg (st_metadata_stat st)" "identity_nonneg video"
    and cat: "ct_source cat = pb_source pb" "ct_epoch cat = pb_epoch pb"
    and p: "\<forall>k. k \<noteq> ''crc32'' \<longrightarrow> pget p k = sort_keys (pget (publication_record st) k)"
    and sizes: "ic_min_video_bytes cfg \<le> fi_size video"
      "pb_layout pb = Split \<longrightarrow> fi_size (st_manifest_stat st) \<le> max_manifest_bytes"
  shows "refresh_publication_record cfg dir p cat =
    enter_record dir (published_manifest pb i pts spts (fi_size video) (fi_size (st_metadata_stat st)))
      (st_manifest_stat st) (st_metadata_stat st) video cat"
proof -
  define doc where "doc = manifest_doc pb i pts spts (fi_size video) (fi_size (st_metadata_stat st))"
  define m where "m = published_manifest pb i pts spts (fi_size video) (fi_size (st_metadata_stat st))"
  have doc: "st_manifest st = doc" and vid: "st_video_stat st = video" using st by (simp_all add: staged_as_def doc_def)
  obtain e where e: "sort_keys (PDict doc) = PDict e" "sorted_dict doc e"
    using sort_keys_dict manifest_doc_plain by (metis doc_def plain_json.simps(3))
  have man: "manifest_from_payload (pget p ''manifest'') = Inr m"
    using p st pb i e
    by (simp add: publication_record_get doc m_def manifest_doc_accepted [OF pb] doc_def staged_as_def plain_component_def
        del: sort_keys.simps)
  have idn: "check_identity cat p m = Inr ()"
    using p i cat
    by (simp add: check_identity_Inr publication_record_get doc doc_def manifest_doc_get m_def published_manifest_def)
  define d where "d = [(''manifest'', identity_payload (st_manifest_stat st)), (''metadata'', identity_payload (st_metadata_stat st)),
            (''video'', identity_payload video)]"
  have "distinct (map fst d)" by (simp add: d_def)
  then obtain f where f: "sort_keys (PDict d) = PDict f" "sorted_dict d f" using sort_keys_dict by blast
  have dict: "pget p ''identities'' = PDict f"
    using p f(1) by (simp add: publication_record_get vid flip: d_def del: sort_keys.simps)
  have "pget d ''manifest'' = identity_payload (st_manifest_stat st)"
    "pget d ''metadata'' = identity_payload (st_metadata_stat st)" "pget d ''video'' = identity_payload video"
    by (simp_all add: d_def pget_def dget_or_def)
  then have idents: "identity_of f ''manifest'' = Inr (st_manifest_stat st)"
    "identity_of f ''metadata'' = Inr (st_metadata_stat st)" "identity_of f ''video'' = Inr video"
    using f(2) ids by (auto simp: sorted_dict_def intro!: identity_round_trip)
  have "check_sizes cfg m (st_manifest_stat st) (st_metadata_stat st) video = Inr ()"
    using st sizes
    by (cases "pb_layout pb")
      (auto simp: check_sizes_Inr sizes_match_def m_def published_manifest_def staged_as_def layout_version_def
        manifest_v1_def manifest_v2_def manifest_v3_def)
  moreover have "pget p ''schema_version'' = PStr publication_version" using p by (simp add: publication_record_get)
  ultimately show ?thesis
    by (simp add: refresh_publication_record_def man idn dict idents check_that_def flip: m_def)
qed

section \<open>A record is one line\<close>

definition printable :: "string \<Rightarrow> bool" where
  "printable s \<longleftrightarrow> list_all (\<lambda>c. 32 \<le> (of_char c :: nat)) s"

lemma printable_simps [simp]:
  "printable []" "printable (c # s) \<longleftrightarrow> 32 \<le> (of_char c :: nat) \<and> printable s"
  "printable (s @ t) \<longleftrightarrow> printable s \<and> printable t" "printable (concat ss) \<longleftrightarrow> list_all printable ss"
  by (auto simp: printable_def list_all_iff)

lemma printable_hex: "n < 16 \<Longrightarrow> printable [hex_digit n]"
  by (auto simp: hex_digit_def)

lemma printable_escape: "printable (escape_char c)"
proof -
  have "(of_char c :: nat) < 256" by simp
  then have "(of_char c :: nat) div 16 < 16" "(of_char c :: nat) mod 16 < 16"
    by (simp_all add: less_mult_imp_div_less)
  then show ?thesis using printable_hex by (auto simp: escape_char_def Let_def)
qed

lemma printable_int: "printable (int_dec i)"
proof -
  have "printable (nat_dec n)" for n
    using nat_dec_digits(1) [of n] by (auto simp: printable_def list_all_iff is_digit_def)
  then show ?thesis by (simp add: int_dec_def)
qed

lemma printable_join: "list_all printable ss \<Longrightarrow> printable (py_join '','' ss)"
  by (induction "'',''" ss rule: py_join.induct) auto

lemma printable_json: "plain_json v \<Longrightarrow> printable (json_text ft v)"
proof (induction ft v rule: json_text.induct)
  case (6 ft vs)
  then show ?case by (auto simp: list_all_iff intro!: printable_join)
next
  case (7 ft d)
  have "printable (json_string k)" for k by (simp add: json_string_def list_all_iff printable_escape)
  then have "list_all printable (map (\<lambda>(k, v). json_string k @ CHR '':'' # json_text ft v) d)"
    using 7 by (fastforce simp: list_all_iff)
  then show ?case by (simp add: printable_join)
qed (auto simp: printable_int json_string_def list_all_iff printable_escape)

lemma split_printable: "printable s \<Longrightarrow> split_lines acc (s @ CHR 0x0A # t) = (rev acc @ s) # split_lines [] t"
  by (induction s arbitrary: acc) auto

lemma record_text_printable:
  assumes "plain_json (PDict d)" "dget d ''crc32'' = None"
  shows "printable (record_text ft d)"
proof -
  have "plain_json (PDict (d @ [(''crc32'', PStr (record_checksum ft d))]))"
    using assms by (auto simp: map_of_eq_None_iff)
  then show ?thesis unfolding record_text_def canonical_text_def by (intro printable_json sort_keys_plain)
qed

section \<open>The path of a published segment\<close>

definition segments_dir :: "path \<Rightarrow> publisher \<Rightarrow> path" where
  "segments_dir root_dir pb = root_dir @ [''epochs'', pb_epoch pb, pb_source pb, ''segments'']"

lemma epoch_from_path_epochs:
  "''epochs'' \<notin> set ps \<Longrightarrow> epoch_from_path (ps @ ''epochs'' # name # rest) = name"
proof (induction ps)
  case (Cons x ps)
  then show ?case by (cases ps) auto
qed simp

definition catalog_path :: "path \<Rightarrow> publisher \<Rightarrow> string \<Rightarrow> path" where
  "catalog_path root_dir pb i =
     child (child (segments_dir root_dir pb) i) (if pb_layout pb = Metadata_Only then metadata_file else manifest_file)"

lemma catalog_path_published:
  "child (child (segments_dir root_dir pb) i) (catalog_name (published_manifest pb i pts spts v m)) = catalog_path root_dir pb i"
  by (cases "pb_layout pb")
    (simp_all add: catalog_path_def catalog_name_def published_manifest_def layout_version_def
      manifest_v1_def manifest_v2_def manifest_v3_def)

lemma catalog_path_epoch: "''epochs'' \<notin> set root_dir \<Longrightarrow> epoch_from_path (catalog_path root_dir pb i) = pb_epoch pb"
  by (simp add: catalog_path_def segments_dir_def child_def epoch_from_path_epochs)

lemma segment_id_plain: "publisher_ok pb \<Longrightarrow> plain_component (segment_id_of pb n)"
proof -
  assume "publisher_ok pb"
  then have "CHR ''/'' \<notin> set (pb_session pb)" "pb_session pb \<noteq> []"
    using is_safe_plain by (auto simp: publisher_ok_def)
  moreover have "CHR ''/'' \<notin> set (pad8 n)"
    using nat_dec_digits(1) [of n] by (auto simp: pad8_def list_all_iff is_digit_def)
  moreover have dash: "CHR ''-'' \<in> set (segment_id_of pb n)" by (simp add: segment_id_of_def)
  have "segment_id_of pb n \<noteq> []" "segment_id_of pb n \<noteq> ''.''" "segment_id_of pb n \<noteq> ''..''"
    using dash by auto
  ultimately show ?thesis by (simp add: plain_component_def) (simp add: segment_id_of_def)
qed

definition node_nonneg :: "file_node \<Rightarrow> bool" where
  "node_nonneg nd \<longleftrightarrow> 0 \<le> nd_device nd \<and> 0 \<le> nd_inode nd \<and> 0 \<le> nd_mtime_ns nd"

lemma staged_nonneg:
  assumes "stage_publication ft pb mn nn i (Some video) rows = Inr st" "node_nonneg mn" "node_nonneg nn"
  shows "identity_nonneg (st_manifest_stat st)" "identity_nonneg (st_metadata_stat st)"
proof -
  have "identity_nonneg (written nd content)" if "node_nonneg nd" for nd content
    using that by (simp add: identity_nonneg_def written_def node_nonneg_def)
  then show "identity_nonneg (st_manifest_stat st)" "identity_nonneg (st_metadata_stat st)"
    using assms
    by (cases "pb_layout pb"; auto simp: stage_publication_def rbind_Inr_iff Let_def stage_files_def stage_split_def
        stage_embedded_def split: if_splits)+
qed

text \<open>
  C18: the bytes that the sink appends for a staged segment are one line that the index accepts: it
  enters the segment with the bounds of the times of its rows and the identities of its files.
\<close>

theorem published_segment_is_indexed:
  assumes init: "publisher_init ns epoch source session arb slots sync layout = Inr pb"
    and staged: "stage_publication ft pb mn nn (segment_id_of pb k) (Some video) rows = Inr st"
    and bytes: "publication_record_bytes ft st = Inr encoded"
    and files: "node_nonneg mn" "node_nonneg nn" "identity_nonneg video"
    and sizes: "ic_min_video_bytes cfg \<le> fi_size video"
      "pb_layout pb = Split \<longrightarrow> fi_size (st_manifest_stat st) \<le> max_manifest_bytes"
    and cat: "ct_source cat = pb_source pb" "ct_epoch cat = pb_epoch pb" "''epochs'' \<notin> set root_dir"
      "dget (ct_entries cat) (catalog_path root_dir pb (segment_id_of pb k)) = None"
  shows "\<exists>cat' e. fold (consume_line cfg ft (segments_dir root_dir pb)) (split_lines [] encoded) (cat, False) = (cat', False) \<and>
    dget (ct_entries cat') (catalog_path root_dir pb (segment_id_of pb k)) = Some e \<and>
    rs_first_pts (ix_segment e) = st_first_pts st \<and> rs_last_pts (ix_segment e) = st_last_pts st \<and>
    ix_metadata e = st_metadata_stat st \<and> ix_video e = video"
proof -
  define i where "i = segment_id_of pb k"
  have pb: "publisher_ok pb" using init by (rule publisher_init_ok)
  obtain pts spts where st: "staged_as pb i video pts spts st"
    using stage_publication_Inr [OF staged] by (auto simp: i_def)
  define line where "line = record_text ft (publication_record st)"
  have encoded: "encoded = line @ [CHR 0x0A]" and short: "length line < max_record_bytes"
    using bytes by (auto simp: publication_record_bytes_def Let_def line_def split: if_splits)
  have lines: "split_lines [] encoded = [line]"
    using split_printable [of line "[]" "[]"] record_text_printable [OF publication_record_plain [OF st], of ft]
    by (simp add: encoded line_def)
  obtain p where p: "checked_record ft line = Inr p"
    "\<forall>k. k \<noteq> ''crc32'' \<longrightarrow> pget p k = sort_keys (pget (publication_record st) k)"
    using checked_record_round_trip [OF publication_record_plain [OF st], of ft] by (auto simp: line_def)
  define m where "m = published_manifest pb i pts spts (fi_size video) (fi_size (st_metadata_stat st))"
  define q where "q = catalog_path root_dir pb i"
  have path: "child (child (segments_dir root_dir pb) (sm_segment_id m)) (catalog_name m) = q"
    using catalog_path_published by (simp add: m_def q_def published_manifest_def)
  define cat' where "cat' = (add_entry q m (st_manifest_stat st) (st_metadata_stat st) video cat)
      \<lparr>ct_containers := dpop (parent q) (ct_containers cat)\<rparr>"
  have "refresh_publication_record cfg (segments_dir root_dir pb) p cat =
      enter_record (segments_dir root_dir pb) m (st_manifest_stat st) (st_metadata_stat st) video cat"
    unfolding m_def
    by (rule staged_record_enters [OF st pb _ _ _ files(3) cat(1,2) p(2) sizes])
      (use segment_id_plain [OF pb] staged_nonneg [OF staged files(1,2)] in \<open>simp_all add: i_def\<close>)
  also have "\<dots> = Inr cat'"
    using cat(2,4) catalog_path_epoch [OF cat(3), of pb i]
    by (simp add: enter_record_def path Let_def check_that_def cat'_def q_def i_def)
  finally have "consume_line cfg ft (segments_dir root_dir pb) line (cat, False) = (cat', False)"
    using short p(1) by (cases line) (auto simp: consume_line_def consume_record_def loads_result_def checked_record_def json_loads_def skip_ws_def)
  then show ?thesis
    using st by (simp add: lines cat'_def add_entry_def clear_pending_def dict_simps segment_of_def m_def
        published_manifest_def staged_as_def flip: q_def i_def)
qed

section \<open>A published segment\<close>

lemma json_string_hex: "length (json_string (hex8 w)) = 10"
proof -
  have one: "escape_char (hex_digit n) = [hex_digit n]" if "n < 16" for n
  proof -
    have "(of_char (hex_digit n) :: nat) = (if n < 10 then 48 + n else 87 + n)" using that by (simp add: hex_digit_def)
    then show ?thesis using that by (simp add: escape_char_def Let_def)
  qed
  have small: "unat (and x 15) < 16" for x :: "32 word"
  proof -
    have "and x 15 \<le> 15" using word_and_le1 by metis
    then show ?thesis by (simp add: word_le_nat_alt)
  qed
  show ?thesis by (simp add: json_string_def hex8_def one [OF small] upt_rec)
qed

lemma sort_keys_text_length: "plain_json v \<Longrightarrow> length (json_text ft (sort_keys v)) = length (json_text ft v)"
proof (induction v rule: sort_keys.induct)
  case (1 vs)
  have "map (\<lambda>v. Suc (length (json_text ft (sort_keys v)))) vs = map (\<lambda>v. Suc (length (json_text ft v))) vs"
    using 1 by (auto simp: list_all_iff)
  then have "(\<Sum>v\<leftarrow>vs. Suc (length (json_text ft (sort_keys v)))) = (\<Sum>v\<leftarrow>vs. Suc (length (json_text ft v)))"
    by (rule arg_cong)
  then show ?case
    using py_join_length [of "map (json_text ft) (map sort_keys vs)"] py_join_length [of "map (json_text ft) vs"]
    by (simp add: o_def split: if_splits)
next
  case (2 d)
  let ?m = "\<lambda>(k, v). json_string k @ CHR '':'' # json_text ft v"
  define e where "e = sort_key fst (sorted_children d)"
  have "mset (map (\<lambda>x. Suc (length (?m x))) e) = mset (map (\<lambda>x. Suc (length (?m x))) (sorted_children d))"
    by (simp add: e_def multiset.map_comp o_def)
  also have "map (\<lambda>x. Suc (length (?m x))) (sorted_children d) = map (\<lambda>x. Suc (length (?m x))) d"
    using 2 by (auto simp: list_all_iff)
  finally have "sum_list (map (\<lambda>x. Suc (length (?m x))) e) = sum_list (map (\<lambda>x. Suc (length (?m x))) d)"
    by (metis sum_mset_sum_list)
  moreover have "length e = length d" by (simp add: e_def)
  then have "e = [] \<longleftrightarrow> d = []" by (metis length_0_conv)
  ultimately have "length (py_join '','' (map ?m e)) = length (py_join '','' (map ?m d))"
    using py_join_length [of "map ?m e"] py_join_length [of "map ?m d"] by (simp add: o_def split: if_splits)
  then show ?case by (simp add: e_def)
qed simp_all

lemma record_text_length:
  assumes "plain_json (PDict d)" "dget d ''crc32'' = None" "d \<noteq> []"
  shows "length (record_text ft d) = length (json_text ft (PDict d)) + 19"
proof -
  have "plain_json (PDict (d @ [(''crc32'', PStr (record_checksum ft d))]))"
    using assms(1,2) by (auto simp: map_of_eq_None_iff)
  from sort_keys_text_length [OF this, of ft] show ?thesis
    using assms(3) json_string_hex
    by (simp add: record_text_def canonical_text_def py_join_snoc record_checksum_def del: sort_keys.simps)
      (simp add: json_string_def escape_char_def)
qed

definition demo_publisher :: publisher where
  "demo_publisher =
     \<lparr>pb_session = ''s1'', pb_epoch = ''e1'', pb_source = ''cam1'', pb_slot_count = 0, pb_slot_index = -1,
      pb_file_sync = ''fsync'', pb_layout = Metadata_Only\<rparr>"

definition demo_node :: file_node where
  "demo_node = \<lparr>nd_device = 1, nd_inode = 7, nd_mtime_ns = 3\<rparr>"

definition demo_video :: file_identity where
  "demo_video = \<lparr>fi_device = 1, fi_inode = 8, fi_size = 2000, fi_mtime_ns = 4\<rparr>"

definition demo_rows :: "(string \<times> pyval) list list" where
  "demo_rows = [[(''pts'', PInt 100)], [(''frame_pts'', PInt 140)]]"

definition demo_stage :: "staged result" where
  "demo_stage = stage_publication (\<lambda>_. []) demo_publisher demo_node demo_node (segment_id_of demo_publisher 1)
     (Some demo_video) demo_rows"

lemma demo_publisher_init:
  "publisher_init ''midterm'' ''e1'' '' cam1'' ''s1'' False 0 ''fsync'' ''metadata_only'' = Inr demo_publisher"
  by code_simp

lemma demo_stage_bounds:
  "case demo_stage of Inl _ \<Rightarrow> False
   | Inr st \<Rightarrow> st_first_pts st = 100 \<and> st_last_pts st = 140 \<and>
       length (json_text (\<lambda>_. []) (PDict (publication_record st))) < 1000 \<and> fi_size (st_manifest_stat st) < 1000"
  by code_simp

lemma demo_stage_record:
  "\<exists>st encoded. demo_stage = Inr st \<and> publication_record_bytes (\<lambda>_. []) st = Inr encoded \<and> fi_size (st_manifest_stat st) < 1000"
proof -
  obtain st where st: "demo_stage = Inr st" "length (json_text (\<lambda>_. []) (PDict (publication_record st))) < 1000"
    "fi_size (st_manifest_stat st) < 1000"
    using demo_stage_bounds by (auto split: sum.splits)
  obtain pts spts where s: "staged_as demo_publisher (segment_id_of demo_publisher 1) demo_video pts spts st"
    using stage_publication_Inr [OF st(1) [unfolded demo_stage_def]] by auto
  have "length (record_text (\<lambda>_. []) (publication_record st)) < 1019"
    using st(2) publication_record_plain [OF s]
    by (subst record_text_length) (simp_all add: publication_record_def dict_simps)
  then have "publication_record_bytes (\<lambda>_. []) st = Inr (record_text (\<lambda>_. []) (publication_record st) @ [CHR 0x0A])"
    by (simp add: publication_record_bytes_def Let_def max_record_bytes_def)
  then show ?thesis using st(1,3) by blast
qed

definition demo_config :: index_config where
  "demo_config = \<lparr>ic_stability_age = 0, ic_min_video_bytes = 1024\<rparr>"

theorem published_segment_is_indexed_witness:
  "\<exists>st encoded cat' e. demo_stage = Inr st \<and> publication_record_bytes (\<lambda>_. []) st = Inr encoded \<and>
    fold (consume_line demo_config (\<lambda>_. []) (segments_dir [''media''] demo_publisher)) (split_lines [] encoded)
      (empty_catalog ''cam1'' ''e1'', False) = (cat', False) \<and>
    dget (ct_entries cat') (catalog_path [''media''] demo_publisher (segment_id_of demo_publisher 1)) = Some e \<and>
    rs_first_pts (ix_segment e) = 100 \<and> rs_last_pts (ix_segment e) = 140 \<and> ix_video e = demo_video"
proof -
  obtain st encoded where st: "demo_stage = Inr st" "publication_record_bytes (\<lambda>_. []) st = Inr encoded"
    using demo_stage_record by blast
  have "st_first_pts st = 100 \<and> st_last_pts st = 140" using demo_stage_bounds by (simp only: st(1) sum.case)
  then show ?thesis
    using published_segment_is_indexed [OF demo_publisher_init st(1) [unfolded demo_stage_def] st(2), of demo_config
        "empty_catalog ''cam1'' ''e1''" "[''media'']"] st
    by (auto simp: node_nonneg_def identity_nonneg_def demo_node_def demo_video_def demo_config_def demo_publisher_def
        empty_catalog_def)
qed

end
