(* ===== verification/SegmentDelivery.thy ===== *)
theory SegmentDelivery
  imports SegmentReplay
begin

text \<open>
  Runs of the sink that publishes segments of one source and of the index that reads the journal:
  nothing published is lost without a reconciliation.
\<close>

section \<open>An accepted line has entered its segment\<close>

definition indexed :: "path \<Rightarrow> publisher \<Rightarrow> staged \<Rightarrow> seg_catalog \<Rightarrow> bool" where
  "indexed root_dir pb st cat \<longleftrightarrow>
     (\<exists>e. dget (ct_entries cat) (catalog_path root_dir pb (st_segment_id st)) = Some e \<and>
          ix_manifest e = st_manifest_stat st \<and> ix_metadata e = st_metadata_stat st \<and>
          ix_video e = st_video_stat st)"

lemma identity_read_back:
  assumes "pget ids name = sort_keys (identity_payload i)" "identity_of ids name = Inr j"
  shows "j = i"
proof -
  define d where "d = [(''device'', PInt (fi_device i)), (''inode'', PInt (fi_inode i)), (''size'', PInt (fi_size i)),
            (''mtime_ns'', PInt (fi_mtime_ns i))]"
  have "distinct (map fst d)" by (simp add: d_def)
  then obtain e where e: "sort_keys (PDict d) = PDict e" "sorted_dict d e" using sort_keys_dict by blast
  have "pget d ''device'' = PInt (fi_device i)" "pget d ''inode'' = PInt (fi_inode i)"
    "pget d ''size'' = PInt (fi_size i)" "pget d ''mtime_ns'' = PInt (fi_mtime_ns i)"
    by (simp_all add: d_def pget_def dget_or_def)
  then have "pget e ''device'' = PInt (fi_device i)" "pget e ''inode'' = PInt (fi_inode i)"
    "pget e ''size'' = PInt (fi_size i)" "pget e ''mtime_ns'' = PInt (fi_mtime_ns i)"
    using e(2) by (simp_all add: sorted_dict_def)
  moreover have "pget ids name = PDict e"
    using assms(1) e(1) by (simp only: identity_payload_def d_def)
  ultimately show ?thesis
    using assms(2) by (auto simp: identity_of_def identity_field_def rbind_Inr_iff split: if_splits)
qed

lemma accepted_record_is_indexed:
  assumes st: "staged_as pb i video pts spts st" and pb: "publisher_ok pb" and i: "i \<noteq> []"
    and p: "\<forall>k. k \<noteq> ''crc32'' \<longrightarrow> pget p k = sort_keys (pget (publication_record st) k)"
    and acc: "refresh_publication_record cfg (segments_dir root_dir pb) p cat = Inr cat'"
  shows "indexed root_dir pb st cat'"
proof -
  define doc where "doc = manifest_doc pb i pts spts (fi_size video) (fi_size (st_metadata_stat st))"
  define m where "m = published_manifest pb i pts spts (fi_size video) (fi_size (st_metadata_stat st))"
  have doc: "st_manifest st = doc" and vid: "st_video_stat st = video" and sid: "st_segment_id st = i"
    using st by (simp_all add: staged_as_def doc_def)
  obtain e where e: "sort_keys (PDict doc) = PDict e" "sorted_dict doc e"
    using sort_keys_dict manifest_doc_plain by (metis doc_def plain_json.simps(3))
  have man: "manifest_from_payload (pget p ''manifest'') = Inr m"
    using p st pb i e
    by (simp add: publication_record_get doc m_def manifest_doc_accepted [OF pb] doc_def staged_as_def
        del: sort_keys.simps)
  define d where "d = [(''manifest'', identity_payload (st_manifest_stat st)), (''metadata'', identity_payload (st_metadata_stat st)),
            (''video'', identity_payload video)]"
  have "distinct (map fst d)" by (simp add: d_def)
  then obtain f where f: "sort_keys (PDict d) = PDict f" "sorted_dict d f" using sort_keys_dict by blast
  have dict: "pget p ''identities'' = PDict f"
    using p f(1) by (simp add: publication_record_get vid flip: d_def del: sort_keys.simps)
  have "pget d ''manifest'' = identity_payload (st_manifest_stat st)"
    "pget d ''metadata'' = identity_payload (st_metadata_stat st)" "pget d ''video'' = identity_payload video"
    by (simp_all add: d_def pget_def dget_or_def)
  then have get: "pget f ''manifest'' = sort_keys (identity_payload (st_manifest_stat st))"
    "pget f ''metadata'' = sort_keys (identity_payload (st_metadata_stat st))"
    "pget f ''video'' = sort_keys (identity_payload video)"
    using f(2) by (simp_all add: sorted_dict_def)
  obtain manifest metadata vi where "identity_of f ''manifest'' = Inr manifest"
      "identity_of f ''metadata'' = Inr metadata" "identity_of f ''video'' = Inr vi"
      and enter: "enter_record (segments_dir root_dir pb) m manifest metadata vi cat = Inr cat'"
    using acc unfolding refresh_publication_record_Inr by (auto simp: man dict)
  then have same: "manifest = st_manifest_stat st" "metadata = st_metadata_stat st" "vi = video"
    using identity_read_back [OF get(1)] identity_read_back [OF get(2)] identity_read_back [OF get(3)] by auto
  have path: "child (child (segments_dir root_dir pb) (sm_segment_id m)) (catalog_name m) = catalog_path root_dir pb i"
    using catalog_path_published by (simp add: m_def published_manifest_def)
  show ?thesis
    using enter unfolding enter_record_def path same
    by (auto simp: Let_def rbind_Inr_iff indexed_def sid vid add_entry_def clear_pending_def dict_simps split: option.splits)
qed

text \<open>Entries stay: a record never replaces one.\<close>

lemma refresh_record_keeps:
  assumes "refresh_publication_record cfg dir p cat = Inr cat'" "dget (ct_entries cat) q = Some e"
  shows "dget (ct_entries cat') q = Some e"
proof -
  obtain m manifest metadata video where "enter_record dir m manifest metadata video cat = Inr cat'"
    using assms(1) unfolding refresh_publication_record_Inr by blast
  then show ?thesis
    using assms(2)
    by (auto simp: enter_record_def Let_def rbind_Inr_iff add_entry_def clear_pending_def dict_simps split: option.splits)
qed

lemma consume_line_keeps:
  "dget (ct_entries (fst st)) q = Some e \<Longrightarrow> dget (ct_entries (fst (consume_line cfg ft dir l st))) q = Some e"
  by (cases st) (auto simp: consume_line_def consume_record_def rbind_Inr_iff split: sum.split intro: refresh_record_keeps)

lemma consume_lines_keep:
  "dget (ct_entries (fst st)) q = Some e \<Longrightarrow> dget (ct_entries (fst (fold (consume_line cfg ft dir) ls st))) q = Some e"
  by (induction ls arbitrary: st) (simp_all add: consume_line_keeps)

lemma consume_lines_unflagged:
  "\<not> snd (fold (consume_line cfg ft dir) ls (cat, r)) \<Longrightarrow> \<not> r \<and> \<not> snd (fold (consume_line cfg ft dir) ls (cat, False))"
  using consume_lines_flag [of cfg ft dir ls cat r] by simp

section \<open>Publications and readings\<close>

record journal_world =
  jw_file :: journal_file
  jw_catalog :: seg_catalog
  jw_flagged :: bool
  jw_published :: "staged list"
  jw_inodes :: "int list"

text \<open>
  A publication with the files that the file system creates, and the inode a new journal would
  get, which no earlier journal has; a reading.
\<close>

datatype journal_event =
    Segment_Published nat file_node file_node file_identity "(string \<times> pyval) list list" int
  | Journal_Consumed

record journal_setup =
  js_config :: index_config
  js_text :: "pyfloat \<Rightarrow> string"
  js_root :: path
  js_publisher :: publisher

definition publish_step ::
  "journal_setup \<Rightarrow> nat \<Rightarrow> file_node \<Rightarrow> file_node \<Rightarrow> file_identity \<Rightarrow> (string \<times> pyval) list list \<Rightarrow> int \<Rightarrow>
   journal_world \<Rightarrow> journal_world" where
  "publish_step su k mn nn video rows inode w =
     (case stage_publication (js_text su) (js_publisher su) mn nn (segment_id_of (js_publisher su) k) (Some video) rows of
        Inl _ \<Rightarrow> w
      | Inr st \<Rightarrow>
          (case publication_record_bytes (js_text su) st of
             Inl _ \<Rightarrow> w
           | Inr encoded \<Rightarrow>
               if inode \<in> set (jw_inodes w) then w
               else let j = append_publication_record (jf_device (jw_file w)) inode encoded (Some (jw_file w))
                    in w\<lparr>jw_file := j, jw_published := st # jw_published w,
                         jw_inodes := jf_inode j # jw_inodes w\<rparr>))"

definition consume_step :: "journal_setup \<Rightarrow> journal_world \<Rightarrow> journal_world" where
  "consume_step su w =
     (let (_, reconcile, cat) =
            consume_publication_journal (js_config su) (js_text su) (segments_dir (js_root su) (js_publisher su))
              (Journal (jw_file w)) (jw_catalog w)
      in w\<lparr>jw_catalog := cat, jw_flagged := jw_flagged w \<or> reconcile\<rparr>)"

fun journal_step :: "journal_setup \<Rightarrow> journal_event \<Rightarrow> journal_world \<Rightarrow> journal_world" where
  "journal_step su (Segment_Published k mn nn video rows inode) w = publish_step su k mn nn video rows inode w"
| "journal_step su Journal_Consumed w = consume_step su w"

text \<open>
  The start: the index has put its cursor at the end of the journal before it scanned the
  directories (\<open>_snapshot_publication_tails\<close>).
\<close>

definition snapshot_tail :: "path \<Rightarrow> journal_file \<Rightarrow> seg_catalog \<Rightarrow> seg_catalog" where
  "snapshot_tail dir j cat = set_cursor (child dir journal_name) j (length (jf_content j)) cat"

definition journal_start :: "journal_setup \<Rightarrow> journal_file \<Rightarrow> seg_catalog \<Rightarrow> journal_world" where
  "journal_start su j cat =
     \<lparr>jw_file = j, jw_catalog = snapshot_tail (segments_dir (js_root su) (js_publisher su)) j cat,
      jw_flagged = False, jw_published = [], jw_inodes = [jf_inode j]\<rparr>"

section \<open>The invariant\<close>

text \<open>Lines of staged segments in the order of their publication.\<close>

definition staged_line :: "journal_setup \<Rightarrow> staged \<Rightarrow> bool" where
  "staged_line su st \<longleftrightarrow>
     (\<exists>k video pts spts. staged_as (js_publisher su) (segment_id_of (js_publisher su) k) video pts spts st)"

definition lines_of :: "journal_setup \<Rightarrow> staged list \<Rightarrow> string" where
  "lines_of su sts = concat (map (\<lambda>st. record_text (js_text su) (publication_record st) @ [CHR 0x0A]) sts)"

definition journal_path :: "journal_setup \<Rightarrow> path" where
  "journal_path su = child (segments_dir (js_root su) (js_publisher su)) journal_name"

definition settled :: "journal_setup \<Rightarrow> journal_world \<Rightarrow> staged \<Rightarrow> bool" where
  "settled su w st \<longleftrightarrow> jw_flagged w \<or> indexed (js_root su) (js_publisher su) st (jw_catalog w)"

text \<open>
  The cursor is that of an earlier journal, so that the next reading asks for a reconciliation, or
  the unread part is the lines of all segments that are not settled.
\<close>

definition replaced :: "journal_setup \<Rightarrow> publication_cursor \<Rightarrow> journal_world \<Rightarrow> bool" where
  "replaced su c w \<longleftrightarrow>
     pj_inode c \<noteq> jf_inode (jw_file w) \<and>
     (\<exists>sts. jf_content (jw_file w) = lines_of su sts \<and> list_all (staged_line su) sts)"

definition following :: "journal_setup \<Rightarrow> publication_cursor \<Rightarrow> journal_world \<Rightarrow> bool" where
  "following su c w \<longleftrightarrow>
     pj_inode c = jf_inode (jw_file w) \<and> pj_device c = jf_device (jw_file w) \<and>
     pj_offset c \<le> length (jf_content (jw_file w)) \<and>
     (\<exists>sts. drop (pj_offset c) (jf_content (jw_file w)) = lines_of su sts \<and> list_all (staged_line su) sts \<and>
        (\<forall>st \<in> set (jw_published w). st \<in> set sts \<or> settled su w st))"

definition journal_inv :: "journal_setup \<Rightarrow> journal_world \<Rightarrow> bool" where
  "journal_inv su w \<longleftrightarrow>
     (\<exists>c. dget (ct_cursors (jw_catalog w)) (journal_path su) = Some c \<and>
        pj_inode c \<in> set (jw_inodes w) \<and> jf_inode (jw_file w) \<in> set (jw_inodes w) \<and>
        (replaced su c w \<or> following su c w))"

lemma staged_line_text:
  assumes "staged_line su st"
  shows "printable (record_text (js_text su) (publication_record st))"
    "\<exists>p. checked_record (js_text su) (record_text (js_text su) (publication_record st)) = Inr p \<and>
       (\<forall>k. k \<noteq> ''crc32'' \<longrightarrow> pget p k = sort_keys (pget (publication_record st) k))"
proof -
  obtain k video pts spts where "staged_as (js_publisher su) (segment_id_of (js_publisher su) k) video pts spts st"
    using assms by (auto simp: staged_line_def)
  note plain = publication_record_plain [OF this]
  show "printable (record_text (js_text su) (publication_record st))" by (rule record_text_printable [OF plain])
  show "\<exists>p. checked_record (js_text su) (record_text (js_text su) (publication_record st)) = Inr p \<and>
      (\<forall>k. k \<noteq> ''crc32'' \<longrightarrow> pget p k = sort_keys (pget (publication_record st) k))"
    by (rule checked_record_round_trip [OF plain])
qed

lemma lines_of_split:
  "list_all (staged_line su) sts \<Longrightarrow>
   split_lines [] (lines_of su sts) = map (\<lambda>st. record_text (js_text su) (publication_record st)) sts"
  by (induction sts) (auto simp: lines_of_def split_printable staged_line_text(1))

lemma lines_of_complete: "complete_part (lines_of su sts) = lines_of su sts"
  by (induction sts rule: rev_induct) (simp_all add: lines_of_def complete_part_def)

lemma record_text_nonempty: "record_text ft d \<noteq> []"
  by (simp add: record_text_def canonical_text_def)

lemma consumed_lines_indexed:
  assumes "list_all (staged_line su) sts" "publisher_ok (js_publisher su)"
    and "\<not> snd (fold (consume_line cfg (js_text su) (segments_dir (js_root su) (js_publisher su)))
              (map (\<lambda>st. record_text (js_text su) (publication_record st)) sts) (cat, False))"
    and "st \<in> set sts"
  shows "indexed (js_root su) (js_publisher su) st
    (fst (fold (consume_line cfg (js_text su) (segments_dir (js_root su) (js_publisher su)))
       (map (\<lambda>st. record_text (js_text su) (publication_record st)) sts) (cat, False)))"
  using assms
proof (induction sts arbitrary: cat)
  case (Cons s sts)
  define dir where "dir = segments_dir (js_root su) (js_publisher su)"
  define l where "l = record_text (js_text su) (publication_record s)"
  define ls where "ls = map (\<lambda>st. record_text (js_text su) (publication_record st)) sts"
  obtain cat1 r1 where one: "consume_line cfg (js_text su) dir l (cat, False) = (cat1, r1)" by fastforce
  have all: "\<not> snd (fold (consume_line cfg (js_text su) dir) ls (cat1, r1))"
    using Cons.prems(3) one by (simp add: l_def ls_def dir_def)
  then have r1: "\<not> r1" and rest: "\<not> snd (fold (consume_line cfg (js_text su) dir) ls (cat1, False))"
    using consume_lines_unflagged by blast+
  have keep: "fold (consume_line cfg (js_text su) dir) (l # ls) (cat, False) = fold (consume_line cfg (js_text su) dir) ls (cat1, False)"
    using one r1 by simp
  show ?case
  proof (cases "st = s")
    case True
    obtain k video pts spts where st: "staged_as (js_publisher su) (segment_id_of (js_publisher su) k) video pts spts s"
      using Cons.prems(1) by (auto simp: staged_line_def)
    obtain p where p: "checked_record (js_text su) l = Inr p"
        "\<forall>k. k \<noteq> ''crc32'' \<longrightarrow> pget p k = sort_keys (pget (publication_record s) k)"
      using staged_line_text(2) [of su s] Cons.prems(1) by (auto simp: l_def)
    have "refresh_publication_record cfg dir p cat = Inr cat1"
      using one r1 record_text_nonempty p(1)
      by (auto simp: consume_line_def consume_record_def l_def split: if_splits sum.splits)
    then have "indexed (js_root su) (js_publisher su) s cat1"
      using accepted_record_is_indexed [OF st Cons.prems(2) _ p(2)] segment_id_plain [OF Cons.prems(2), of k]
      by (simp add: dir_def plain_component_def)
    then have "indexed (js_root su) (js_publisher su) s (fst (fold (consume_line cfg (js_text su) dir) ls (cat1, False)))"
      using consume_lines_keep [of "(cat1, False)"] by (auto simp: indexed_def)
    then show ?thesis using keep True by (simp add: l_def ls_def dir_def)
  next
    case False
    then have "indexed (js_root su) (js_publisher su) st (fst (fold (consume_line cfg (js_text su) dir) ls (cat1, False)))"
      using Cons.IH [of cat1] Cons.prems rest by (simp add: ls_def dir_def)
    then show ?thesis using keep by (simp add: l_def ls_def dir_def)
  qed
qed simp

section \<open>Every step keeps the invariant\<close>

lemma lines_of_snoc:
  "lines_of su (sts @ [st]) = lines_of su sts @ record_text (js_text su) (publication_record st) @ [CHR 0x0A]"
  by (simp add: lines_of_def)

lemma publish_step_inv:
  assumes "journal_inv su w"
  shows "journal_inv su (publish_step su k mn nn video rows inode w)"
proof (cases "publish_step su k mn nn video rows inode w = w")
  case False
  obtain st where st: "stage_publication (js_text su) (js_publisher su) mn nn (segment_id_of (js_publisher su) k) (Some video) rows = Inr st"
    using False by (auto simp: publish_step_def split: sum.splits)
  obtain encoded where enc: "publication_record_bytes (js_text su) st = Inr encoded"
    using False st by (auto simp: publish_step_def split: sum.splits)
  define j where "j = append_publication_record (jf_device (jw_file w)) inode encoded (Some (jw_file w))"
  have fresh: "inode \<notin> set (jw_inodes w)"
    and w: "publish_step su k mn nn video rows inode w =
      w\<lparr>jw_file := j, jw_published := st # jw_published w, jw_inodes := jf_inode j # jw_inodes w\<rparr>"
    using False st enc by (auto simp: publish_step_def Let_def j_def split: if_splits)
  have line: "staged_line su st" using stage_publication_Inr [OF st] by (auto simp: staged_line_def)
  have encoded: "encoded = record_text (js_text su) (publication_record st) @ [CHR 0x0A]"
    using enc by (auto simp: publication_record_bytes_def Let_def split: if_splits)
  obtain c where c: "dget (ct_cursors (jw_catalog w)) (journal_path su) = Some c" "pj_inode c \<in> set (jw_inodes w)"
      "jf_inode (jw_file w) \<in> set (jw_inodes w)" "replaced su c w \<or> following su c w"
    using assms by (auto simp: journal_inv_def)
  let ?w = "w\<lparr>jw_file := j, jw_published := st # jw_published w, jw_inodes := jf_inode j # jw_inodes w\<rparr>"
  have "replaced su c ?w \<or> following su c ?w"
  proof (cases "j = jw_file w\<lparr>jf_content := jf_content (jw_file w) @ encoded\<rparr>")
    case True
    show ?thesis
    proof (cases "replaced su c w")
      case rep: True
      then obtain sts where "jf_content (jw_file w) = lines_of su sts" "list_all (staged_line su) sts"
        by (auto simp: replaced_def)
      then have "jf_content j = lines_of su (sts @ [st])" "list_all (staged_line su) (sts @ [st])"
        using line by (simp_all add: True encoded lines_of_snoc)
      then show ?thesis using rep unfolding replaced_def by (auto simp: True)
    next
      case False
      then have f: "following su c w" using c(4) by blast
      then obtain sts where sts: "drop (pj_offset c) (jf_content (jw_file w)) = lines_of su sts"
          "list_all (staged_line su) sts" "\<forall>st \<in> set (jw_published w). st \<in> set sts \<or> settled su w st"
        by (auto simp: following_def)
      have "drop (pj_offset c) (jf_content j) = lines_of su (sts @ [st])" "list_all (staged_line su) (sts @ [st])"
        using f sts line by (simp_all add: True encoded lines_of_snoc following_def)
      moreover have "\<forall>s \<in> set (jw_published ?w). s \<in> set (sts @ [st]) \<or> settled su ?w s"
        using sts(3) by (auto simp: settled_def)
      moreover have "pj_inode c = jf_inode j" "pj_device c = jf_device j" "pj_offset c \<le> length (jf_content j)"
        using f by (simp_all add: following_def True)
      ultimately have "following su c ?w" unfolding following_def by (intro conjI exI [of _ "sts @ [st]"]) simp_all
      then show ?thesis ..
    qed
  next
    case False
    then have new: "jf_inode j = inode" "jf_content j = encoded"
      by (auto simp: j_def append_publication_record_def split: if_splits)
    have "jf_content j = lines_of su [st]" "list_all (staged_line su) [st]"
      using line by (simp_all add: new encoded lines_of_def)
    moreover have "pj_inode c \<noteq> jf_inode j" using c(2) fresh new(1) by auto
    ultimately show ?thesis unfolding replaced_def by auto
  qed
  then show ?thesis using c(1,2) unfolding w journal_inv_def by auto
qed (use assms in simp)

lemma consume_data_flag: "snd (consume_data cfg ft dir j True start cat)"
  using consume_lines_flag [of cfg ft dir _ _ True] by (simp add: consume_data_def Let_def)

lemma consume_data_cursor:
  "dget (ct_cursors (fst (consume_data cfg ft dir j reset start cat))) (child dir journal_name) =
     Some \<lparr>pj_device = jf_device j, pj_inode = jf_inode j,
           pj_offset = start + length (complete_part (drop start (jf_content j)))\<rparr>"
proof -
  have keep: "ct_cursors (fst (consume_line cfg ft dir l st)) = ct_cursors (fst st)" for l st
    using consume_line_cursors [of cfg ft dir l "ct_cursors (fst st)" "fst st" "snd st"]
    by (cases st) (auto simp: consume_line_def)
  have "ct_cursors (fst (fold (consume_line cfg ft dir) ls st)) = ct_cursors (fst st)" for ls st
    by (induction ls arbitrary: st) (simp_all add: keep)
  then show ?thesis by (simp add: consume_data_def Let_def set_cursor_def dict_simps)
qed

lemma consume_step_inv:
  assumes "journal_inv su w" "publisher_ok (js_publisher su)"
  shows "journal_inv su (consume_step su w) \<and> (\<forall>st \<in> set (jw_published (consume_step su w)). settled su (consume_step su w) st)"
proof -
  define dir where "dir = segments_dir (js_root su) (js_publisher su)"
  define j where "j = jw_file w"
  define cat where "cat = jw_catalog w"
  obtain c where c: "dget (ct_cursors cat) (child dir journal_name) = Some c" "pj_inode c \<in> set (jw_inodes w)"
      "jf_inode j \<in> set (jw_inodes w)" "replaced su c w \<or> following su c w"
    using assms by (auto simp: journal_inv_def dir_def j_def cat_def journal_path_def)
  define start where "start = read_start (Some c) j"
  obtain seen r cat' where res: "consume_publication_journal (js_config su) (js_text su) dir (Journal j) cat = (seen, r, cat')"
    by (rule prod_cases3)
  have w': "consume_step su w = w\<lparr>jw_catalog := cat', jw_flagged := jw_flagged w \<or> r\<rparr>"
    using res by (simp add: consume_step_def dir_def j_def cat_def)
  have step: "(r, cat') = (if journal_max_bytes + max_record_bytes < length (jf_content j) - start
      then (True, set_cursor (child dir journal_name) j (length (jf_content j)) cat)
      else (snd (consume_data (js_config su) (js_text su) dir j (cursor_reset (Some c) j) start cat),
            fst (consume_data (js_config su) (js_text su) dir j (cursor_reset (Some c) j) start cat)))"
    using res by (auto simp: consume_publication_journal_def Let_def c(1) start_def case_prod_beta split: if_splits)
  have tail: "start \<le> length (jf_content j) \<and> complete_part (drop start (jf_content j)) = drop start (jf_content j)"
  proof (cases "replaced su c w")
    case True
    then have "start = 0" by (auto simp: start_def read_start_def cursor_reset_def replaced_def j_def)
    then show ?thesis using True by (auto simp: replaced_def j_def lines_of_complete)
  next
    case False
    then have "following su c w" using c(4) by blast
    then show ?thesis by (auto simp: following_def start_def read_start_def cursor_reset_def j_def lines_of_complete)
  qed
  have cursor: "dget (ct_cursors cat') (child dir journal_name) =
      Some \<lparr>pj_device = jf_device j, pj_inode = jf_inode j, pj_offset = length (jf_content j)\<rparr>"
    using step tail by (auto simp: set_cursor_def dict_simps consume_data_cursor split: if_splits)
  have all: "\<forall>st \<in> set (jw_published w). settled su (consume_step su w) st"
  proof (cases r)
    case False
    then have data: "r = snd (consume_data (js_config su) (js_text su) dir j (cursor_reset (Some c) j) start cat)"
        "cat' = fst (consume_data (js_config su) (js_text su) dir j (cursor_reset (Some c) j) start cat)"
      using step by (auto split: if_splits)
    have no_reset: "\<not> cursor_reset (Some c) j" using False data(1) consume_data_flag by (metis (full_types))
    have "\<not> replaced su c w" using no_reset by (auto simp: replaced_def cursor_reset_def j_def)
    then have "following su c w" using c(4) by blast
    then obtain sts where sts: "drop start (jf_content j) = lines_of su sts" "list_all (staged_line su) sts"
        "\<forall>st \<in> set (jw_published w). st \<in> set sts \<or> settled su w st"
      using no_reset by (auto simp: following_def start_def read_start_def j_def)
    define cat0 where "cat0 = set_cursor (child dir journal_name) j (start + length (lines_of su sts)) cat"
    let ?ls = "map (\<lambda>st. record_text (js_text su) (publication_record st)) sts"
    have fold: "(cat', r) = fold (consume_line (js_config su) (js_text su) dir) ?ls (cat0, False)"
      using data no_reset sts(1,2)
      by (simp add: consume_data_def Let_def lines_of_complete lines_of_split cat0_def)
    have "indexed (js_root su) (js_publisher su) st cat'" if "st \<in> set sts" for st
      using consumed_lines_indexed [OF sts(2) assms(2) _ that, of "js_config su" cat0] fold False
      by (simp add: dir_def) (metis fst_conv snd_conv)
    moreover have "indexed (js_root su) (js_publisher su) st cat'"
      if "indexed (js_root su) (js_publisher su) st (jw_catalog w)" for st
      using that consume_lines_keep [of "(cat0, False)" _ _ "js_config su" "js_text su" dir ?ls] fold [symmetric]
      by (auto simp: indexed_def cat0_def set_cursor_def cat_def)
    ultimately show ?thesis using sts(3) by (auto simp: settled_def w')
  qed (simp add: settled_def w')
  have "following su \<lparr>pj_device = jf_device j, pj_inode = jf_inode j, pj_offset = length (jf_content j)\<rparr> (consume_step su w)"
    using all by (auto simp: following_def w' j_def lines_of_def settled_def intro!: exI [of _ "[]"])
  then show ?thesis
    using all cursor c(3) by (auto simp: journal_inv_def w' journal_path_def dir_def j_def)
qed

interpretation journal_runs: transition_system "journal_start su j cat" "journal_step su"
  "\<lambda>w. publisher_ok (js_publisher su) \<longrightarrow> journal_inv su w" for su j cat
proof unfold_locales
  have "following su \<lparr>pj_device = jf_device j, pj_inode = jf_inode j, pj_offset = length (jf_content j)\<rparr> (journal_start su j cat)"
    by (auto simp: following_def journal_start_def lines_of_def intro!: exI [of _ "[]"])
  then show "publisher_ok (js_publisher su) \<longrightarrow> journal_inv su (journal_start su j cat)"
    by (auto simp: journal_inv_def journal_start_def snapshot_tail_def set_cursor_def journal_path_def dict_simps)
  show "publisher_ok (js_publisher su) \<longrightarrow> journal_inv su (journal_step su e w)"
    if "publisher_ok (js_publisher su) \<longrightarrow> journal_inv su w" for e w
    using that publish_step_inv consume_step_inv by (cases e) auto
qed


definition demo_setup :: journal_setup where
  "demo_setup = \<lparr>js_config = demo_config, js_text = (\<lambda>_. []), js_root = [''media''], js_publisher = demo_publisher\<rparr>"

definition demo_journal :: journal_file where
  "demo_journal = \<lparr>jf_device = 1, jf_inode = 2, jf_content = []\<rparr>"


end
